(* ===== verification/Prelude.thy ===== *)
theory Prelude
  imports Main "HOL-Library.Word"
begin

text \<open>
  Shared vocabulary of the development: results as sums (the error on the left, as in the
  \<^verbatim>\<open>Result<T, E>\<close> of the code with the two sides swapped), the checked and
  saturating arithmetic of Rust's \<^verbatim>\<open>usize\<close> and \<^verbatim>\<open>u64\<close> (64 bits: the
  browser is built for Windows x64), slices, little- and big-endian byte lists, and the
  \<open>transition_system\<close> interface through which every stateful component lifts a
  one-step invariant to whole runs.
\<close>

section \<open>Machine types\<close>

type_synonym u8 = "8 word"
type_synonym u16 = "16 word"
type_synonym u32 = "32 word"
type_synonym u64 = "64 word"
type_synonym bytes = "8 word list"

named_theorems result_simps \<open>decomposition of successful results\<close>
named_theorems eval_simps \<open>unfolding rules that evaluate the model on a concrete input\<close>
named_theorems bound_simps \<open>numeric limits of the machine integers\<close>

section \<open>Results\<close>

text \<open>
  Errors carry the message of the code; a message that \<^verbatim>\<open>format!\<close> builds from a byte or
  a text carries that argument. \<open>Panic\<close> is a Rust panic (an out-of-range slice, an arithmetic
  overflow in a checked build): the code never returns it as a value, and a property that says an
  operation cannot panic says that the model never yields it.
\<close>

datatype error =
    Err string
  | ErrByte string u8
  | ErrText string string
  | Panic string

text \<open>
  \<open>ebind m f\<close> is Rust's \<open>?\<close> operator: an error of \<open>m\<close> is the result, a value is passed on.
\<close>

definition ebind :: "'e + 'a \<Rightarrow> ('a \<Rightarrow> 'e + 'b) \<Rightarrow> 'e + 'b" where
  "ebind m f = (case m of Inl e \<Rightarrow> Inl e | Inr x \<Rightarrow> f x)"

lemma ebind_Inl [simp]: "ebind (Inl e) f = Inl e"
  by (simp add: ebind_def)

lemma ebind_Inr [simp]: "ebind (Inr x) f = f x"
  by (simp add: ebind_def)

lemma ebind_eq_Inr [result_simps]:
  "ebind m f = Inr y \<longleftrightarrow> (\<exists>x. m = Inr x \<and> f x = Inr y)"
  by (cases m) simp_all

lemma ebind_eq_Inl [result_simps]:
  "ebind m f = Inl e \<longleftrightarrow> m = Inl e \<or> (\<exists>x. m = Inr x \<and> f x = Inl e)"
  by (cases m) simp_all

lemma ebind_InrE [elim]:
  assumes "ebind m f = Inr y"
  obtains x where "m = Inr x" and "f x = Inr y"
  using assms by (cases m) simp_all

lemma ebind_pairE:
  assumes "ebind m (\<lambda>(x, c). f x c) = Inr y"
  obtains x c where "m = Inr (x, c)" and "f x c = Inr y"
  using assms by (cases m) auto

lemma ebind_cong [fundef_cong]:
  "m = m' \<Longrightarrow> (\<And>x. m' = Inr x \<Longrightarrow> f x = f' x) \<Longrightarrow> ebind m f = ebind m' f'"
  by (cases m') simp_all

text \<open>For evaluation: the continuation is left alone until its argument is a value.\<close>

lemma ebind_weak_cong: "m = m' \<Longrightarrow> ebind m f = ebind m' f"
  by simp

lemma ebind_assoc: "ebind (ebind m f) g = ebind m (\<lambda>x. ebind (f x) g)"
  by (cases m) simp_all

lemma if_Inl_eq_Inr [result_simps]:
  "(if b then Inl e else r) = Inr y \<longleftrightarrow> \<not> b \<and> r = Inr y"
  "(if b then r else Inl e) = Inr y \<longleftrightarrow> b \<and> r = Inr y"
  by simp_all

text \<open>\<^verbatim>\<open>opt.ok_or_else(|| e)\<close>.\<close>

definition ok_or :: "'e \<Rightarrow> 'a option \<Rightarrow> 'e + 'a" where
  "ok_or e x = (case x of None \<Rightarrow> Inl e | Some v \<Rightarrow> Inr v)"

lemma ok_or_simps [simp]: "ok_or e None = Inl e" "ok_or e (Some v) = Inr v"
  by (simp_all add: ok_or_def)

lemma ok_or_eq_Inr [result_simps]: "ok_or e x = Inr v \<longleftrightarrow> x = Some v"
  by (cases x) simp_all

lemma ok_or_eq_Inl [result_simps]: "ok_or e x = Inl e' \<longleftrightarrow> x = None \<and> e' = e"
  by (cases x) auto

definition is_ok :: "'e + 'a \<Rightarrow> bool" where
  "is_ok r = (case r of Inl _ \<Rightarrow> False | Inr _ \<Rightarrow> True)"

lemma is_ok_simps [simp]: "is_ok (Inl e) = False" "is_ok (Inr x) = True"
  by (simp_all add: is_ok_def)

lemma is_ok_iff: "is_ok r \<longleftrightarrow> (\<exists>x. r = Inr x)"
  by (cases r) simp_all

text \<open>A fallible map over a list, stopping at the first error
  (\<^verbatim>\<open>iter().map(f).collect::<Result<Vec<_>, _>>()\<close>).\<close>

primrec emap :: "('a \<Rightarrow> 'e + 'b) \<Rightarrow> 'a list \<Rightarrow> 'e + 'b list" where
  "emap f [] = Inr []"
| "emap f (x # xs) = ebind (f x) (\<lambda>y. ebind (emap f xs) (\<lambda>ys. Inr (y # ys)))"

lemma emap_cong [fundef_cong]:
  "xs = ys \<Longrightarrow> (\<And>x. x \<in> set ys \<Longrightarrow> f x = g x) \<Longrightarrow> emap f xs = emap g ys"
  by (induction ys arbitrary: xs) auto

lemma emap_length: "emap f xs = Inr ys \<Longrightarrow> length ys = length xs"
  by (induction xs arbitrary: ys) (auto simp: result_simps)

lemma emap_Inr_list_all2: "emap f xs = Inr ys \<longleftrightarrow> list_all2 (\<lambda>x y. f x = Inr y) xs ys"
  by (induction xs arbitrary: ys) (auto simp: result_simps list_all2_Cons1)

section \<open>64-bit sizes and counters\<close>

definition u64_max :: nat where
  "u64_max = 18446744073709551615"

lemma u64_max_eq [bound_simps]: "u64_max = 2 ^ 64 - 1"
  by (simp add: u64_max_def)

definition checked_add :: "nat \<Rightarrow> nat \<Rightarrow> nat option" where
  "checked_add a b = (if a + b \<le> u64_max then Some (a + b) else None)"

definition checked_mul :: "nat \<Rightarrow> nat \<Rightarrow> nat option" where
  "checked_mul a b = (if a * b \<le> u64_max then Some (a * b) else None)"

definition checked_sub :: "nat \<Rightarrow> nat \<Rightarrow> nat option" where
  "checked_sub a b = (if b \<le> a then Some (a - b) else None)"

text \<open>Saturation; the \<open>max\<close> is void for an \<open>a\<close> of the machine's range.\<close>

definition sat_add :: "nat \<Rightarrow> nat \<Rightarrow> nat" where
  "sat_add a b = max a (min (a + b) u64_max)"

lemma checked_add_eq_Some [result_simps]:
  "checked_add a b = Some c \<longleftrightarrow> c = a + b \<and> a + b \<le> u64_max"
  by (auto simp: checked_add_def)

lemma checked_mul_eq_Some [result_simps]:
  "checked_mul a b = Some c \<longleftrightarrow> c = a * b \<and> a * b \<le> u64_max"
  by (auto simp: checked_mul_def)

lemma checked_sub_eq_Some [result_simps]:
  "checked_sub a b = Some c \<longleftrightarrow> c = a - b \<and> b \<le> a"
  by (auto simp: checked_sub_def)

lemma sat_add_exact: "a + b \<le> u64_max \<Longrightarrow> sat_add a b = a + b"
  by (simp add: sat_add_def)

lemma sat_add_ge: "a \<le> sat_add a b"
  by (simp add: sat_add_def)

lemma sat_add_le: "sat_add a b \<le> a + b"
  by (simp add: sat_add_def)

lemma sat_add_le_iff: "k < u64_max \<Longrightarrow> sat_add a b \<le> k \<longleftrightarrow> a + b \<le> k"
  by (auto simp: sat_add_def)

section \<open>Slices\<close>

text \<open>\<^verbatim>\<open>xs.get(i)\<close> and \<^verbatim>\<open>xs.get(lo..hi)\<close>.\<close>

definition get_at :: "'a list \<Rightarrow> nat \<Rightarrow> 'a option" where
  "get_at xs i = (if i < length xs then Some (xs ! i) else None)"

definition get_range :: "'a list \<Rightarrow> nat \<Rightarrow> nat \<Rightarrow> 'a list option" where
  "get_range xs lo hi = (if lo \<le> hi \<and> hi \<le> length xs then Some (take (hi - lo) (drop lo xs)) else None)"

lemma get_at_eq_Some [result_simps]: "get_at xs i = Some x \<longleftrightarrow> i < length xs \<and> x = xs ! i"
  by (auto simp: get_at_def)

lemma get_at_eq_None [result_simps]: "get_at xs i = None \<longleftrightarrow> length xs \<le> i"
  by (auto simp: get_at_def)

lemma get_range_eq_Some [result_simps]:
  "get_range xs lo hi = Some ys \<longleftrightarrow> lo \<le> hi \<and> hi \<le> length xs \<and> ys = take (hi - lo) (drop lo xs)"
  by (auto simp: get_range_def)

lemma get_range_length: "get_range xs lo hi = Some ys \<Longrightarrow> length ys = hi - lo"
  by (auto simp: get_range_def split: if_splits)

text \<open>\<^verbatim>\<open>xs[lo..lo + ys.len()].copy_from_slice(ys)\<close>, for a range inside the list.\<close>

definition splice :: "'a list \<Rightarrow> nat \<Rightarrow> 'a list \<Rightarrow> 'a list" where
  "splice xs lo ys = take lo xs @ ys @ drop (lo + length ys) xs"

lemma length_splice: "lo + length ys \<le> length xs \<Longrightarrow> length (splice xs lo ys) = length xs"
  by (simp add: splice_def)

lemma splice_same: "lo + length ys \<le> length xs \<Longrightarrow>
    take (length ys) (drop lo (splice xs lo ys)) = ys"
  by (simp add: splice_def)

lemma splice_outside:
  assumes "lo + length ys \<le> length xs" and "i < lo \<or> lo + length ys \<le> i"
  shows "splice xs lo ys ! i = xs ! i"
  using assms by (auto simp: splice_def nth_append)

section \<open>Lists of bytes as integers\<close>

fun from_le_bytes :: "bytes \<Rightarrow> u64" where
  "from_le_bytes [] = 0"
| "from_le_bytes (b # bs) = ucast b + 256 * from_le_bytes bs"

primrec to_le_bytes :: "nat \<Rightarrow> u64 \<Rightarrow> bytes" where
  "to_le_bytes 0 w = []"
| "to_le_bytes (Suc n) w = ucast w # to_le_bytes n (drop_bit 8 w)"

definition from_be_bytes :: "bytes \<Rightarrow> u64" where
  "from_be_bytes bs = from_le_bytes (rev bs)"

lemma length_to_le_bytes [simp]: "length (to_le_bytes n w) = n"
  by (induction n arbitrary: w) simp_all

lemma byte_split: "ucast (ucast w :: u8) + 256 * drop_bit 8 w = (w :: u64)"
proof -
  have "ucast (ucast w :: u8) = take_bit 8 w"
    by (rule bit_word_eqI) (auto simp: bit_simps)
  moreover have "256 * drop_bit 8 w = push_bit 8 (drop_bit 8 w)"
    by (simp add: push_bit_eq_mult)
  moreover have "push_bit 8 (drop_bit 8 w) + take_bit 8 w = w"
    by (rule bits_ident)
  ultimately show ?thesis by (simp add: add.commute)
qed

lemma drop_bit_take_bit_8: "drop_bit 8 (take_bit (8 * Suc n) w) = take_bit (8 * n) (drop_bit 8 (w :: u64))"
  by (rule bit_word_eqI) (auto simp: bit_simps)

lemma ucast_take_bit_8: "(ucast (take_bit (8 * Suc n) (w :: u64)) :: u8) = ucast w"
  by (rule bit_word_eqI) (auto simp: bit_simps)

lemma from_to_le_bytes: "from_le_bytes (to_le_bytes n w) = take_bit (8 * n) w"
proof (induction n arbitrary: w)
  case 0
  show ?case by simp
next
  case (Suc n)
  let ?v = "take_bit (8 * Suc n) w"
  have "from_le_bytes (to_le_bytes (Suc n) w) = ucast (ucast w :: u8) + 256 * take_bit (8 * n) (drop_bit 8 w)"
    by (simp add: Suc.IH)
  also have "\<dots> = ucast (ucast ?v :: u8) + 256 * drop_bit 8 ?v"
    by (simp only: ucast_take_bit_8 drop_bit_take_bit_8)
  also have "\<dots> = ?v" by (rule byte_split)
  finally show ?case .
qed

section \<open>Runs of a component\<close>

text \<open>
  Every stateful component of the browser is driven by a sequence of calls. A component
  provides its one-call step and an invariant that a call keeps; the client gets the
  invariant of any run.
\<close>

locale transition_system =
  fixes step :: "'s \<Rightarrow> 'op \<Rightarrow> 's"
    and inv :: "'s \<Rightarrow> bool"
  assumes step_inv: "inv s \<Longrightarrow> inv (step s op)"
begin

lemma run_inv: "inv s \<Longrightarrow> inv (fold (\<lambda>op s. step s op) ops s)"
  by (induction ops arbitrary: s) (simp_all add: step_inv)

lemma run_prefix_inv: "inv s \<Longrightarrow> inv (fold (\<lambda>op s. step s op) (take n ops) s)"
  by (rule run_inv)

end

text \<open>A component that also has an initial state, satisfying the invariant.\<close>

locale component = transition_system step inv
  for step :: "'s \<Rightarrow> 'op \<Rightarrow> 's" and inv :: "'s \<Rightarrow> bool" +
  fixes start :: 's
  assumes start_inv: "inv start"
begin

lemma reachable_inv: "inv (fold (\<lambda>op s. step s op) ops start)"
  by (rule run_inv [OF start_inv])

end

text \<open>A relation between the states of a run that every call respects (for instance
  ``a settled promise keeps its value'') holds between the ends of the run.\<close>

locale monotone_system =
  fixes step :: "'s \<Rightarrow> 'op \<Rightarrow> 's"
    and rel :: "'s \<Rightarrow> 's \<Rightarrow> bool"
  assumes rel_refl: "rel s s"
    and rel_trans: "rel s t \<Longrightarrow> rel t u \<Longrightarrow> rel s u"
    and step_rel: "rel s (step s op)"
begin

lemma run_rel: "rel s (fold (\<lambda>op s. step s op) ops s)"
proof (induction ops arbitrary: s)
  case Nil
  show ?case by (simp add: rel_refl)
next
  case (Cons op ops)
  have "rel s (step s op)" by (rule step_rel)
  moreover have "rel (step s op) (fold (\<lambda>op s. step s op) ops (step s op))" by (rule Cons.IH)
  ultimately show ?case by (simp add: rel_trans)
qed

end

end
