(* ===== verification/Wasm_Binary.thy ===== *)
theory Wasm_Binary
  imports Prelude
begin

text \<open>
  The data types of a parsed WebAssembly module and the byte cursor of
  \<^verbatim>\<open>src/src/wasm.rs\<close>: single bytes, slices, names and LEB128 integers.
  A cursor is the byte list with a read position. Every read either fails or moves the
  position forward inside the list (\<open>advancing\<close>), which is what makes the parsers built
  on it terminate.
\<close>

section \<open>Module types\<close>

datatype value_type = TI32 | TI64 | TF32 | TF64 | TFuncRef | TExternRef

definition value_type_from_byte :: "u8 \<Rightarrow> error + value_type" where
  "value_type_from_byte b =
     (if b = 0x7F then Inr TI32
      else if b = 0x7E then Inr TI64
      else if b = 0x7D then Inr TF32
      else if b = 0x7C then Inr TF64
      else if b = 0x70 then Inr TFuncRef
      else if b = 0x6F then Inr TExternRef
      else Inl (ErrByte ''Invalid value type byte'' b))"

record func_type =
  ft_parameters :: "value_type list"
  ft_results :: "value_type list"

record limits =
  lim_min :: u64
  lim_max :: "u64 option"

record table_type =
  tt_element_type :: value_type
  tt_limits :: limits

record memory_type =
  mt_limits :: limits

record global_type =
  gt_value_type :: value_type
  gt_mutable :: bool

datatype import_kind =
    ImportFunction u32
  | ImportTable table_type
  | ImportMemory memory_type
  | ImportGlobal global_type

record wasm_import =
  imp_module :: bytes
  imp_name :: bytes
  imp_kind :: import_kind

datatype export_kind = ExportFunction | ExportTable | ExportMemory | ExportGlobal

record wasm_export =
  exp_name :: bytes
  exp_kind :: export_kind
  exp_index :: u32

record wasm_global =
  glob_value_type :: value_type
  glob_mutable :: bool
  glob_init :: bytes

record local_decl =
  ld_count :: u32
  ld_value_type :: value_type

record function_body =
  fb_locals :: "local_decl list"
  fb_code :: bytes

record element_segment =
  es_table_index :: u32
  es_offset :: bytes
  es_function_indices :: "u32 list"

record data_segment =
  ds_memory_index :: u32
  ds_offset :: bytes
  ds_bytes :: bytes

record wasm_module =
  m_types :: "func_type list"
  m_imports :: "wasm_import list"
  m_function_type_indices :: "u32 list"
  m_tables :: "table_type list"
  m_memories :: "memory_type list"
  m_globals :: "wasm_global list"
  m_exports :: "wasm_export list"
  m_start :: "u32 option"
  m_elements :: "element_segment list"
  m_data :: "data_segment list"
  m_bodies :: "function_body list"
  m_total_functions :: u32

definition empty_module :: wasm_module where
  "empty_module = \<lparr>m_types = [], m_imports = [], m_function_type_indices = [], m_tables = [],
     m_memories = [], m_globals = [], m_exports = [], m_start = None, m_elements = [],
     m_data = [], m_bodies = [], m_total_functions = 0\<rparr>"

definition MAX_MODULE_BYTES :: nat where "MAX_MODULE_BYTES = 8388608"
definition MAX_TYPES :: nat where "MAX_TYPES = 4096"
definition MAX_FUNCTIONS :: nat where "MAX_FUNCTIONS = 4096"
definition MAX_IMPORTS :: nat where "MAX_IMPORTS = 2048"
definition MAX_EXPORTS :: nat where "MAX_EXPORTS = 2048"
definition MAX_GLOBALS :: nat where "MAX_GLOBALS = 2048"
definition MAX_LOCALS_PER_FUNCTION :: nat where "MAX_LOCALS_PER_FUNCTION = 1024"
definition MAX_CODE_DEPTH :: nat where "MAX_CODE_DEPTH = 1024"
definition MAX_TABLE_ENTRIES :: nat where "MAX_TABLE_ENTRIES = 1024"
definition MAX_MEMORY_PAGES :: nat where "MAX_MEMORY_PAGES = 1024"
definition MAX_DATA_SEGMENTS :: nat where "MAX_DATA_SEGMENTS = 2048"

lemmas wasm_limits = MAX_MODULE_BYTES_def MAX_TYPES_def MAX_FUNCTIONS_def MAX_IMPORTS_def
  MAX_EXPORTS_def MAX_GLOBALS_def MAX_LOCALS_PER_FUNCTION_def MAX_CODE_DEPTH_def
  MAX_TABLE_ENTRIES_def MAX_MEMORY_PAGES_def MAX_DATA_SEGMENTS_def

section \<open>The cursor\<close>

record cursor =
  cur_bytes :: bytes
  cur_pos :: nat

type_synonym 'a reader = "cursor \<Rightarrow> error + ('a \<times> cursor)"

definition new_cursor :: "bytes \<Rightarrow> cursor" where
  "new_cursor bs = \<lparr>cur_bytes = bs, cur_pos = 0\<rparr>"

definition cur_is_empty :: "cursor \<Rightarrow> bool" where
  "cur_is_empty c \<longleftrightarrow> length (cur_bytes c) \<le> cur_pos c"

definition cur_remaining :: "cursor \<Rightarrow> nat" where
  "cur_remaining c = length (cur_bytes c) - cur_pos c"

definition read_u8 :: "u8 reader" where
  "read_u8 c =
     ebind (ok_or (Err ''Unexpected end of input'') (get_at (cur_bytes c) (cur_pos c))) (\<lambda>b.
       Inr (b, c\<lparr>cur_pos := cur_pos c + 1\<rparr>))"

definition peek_u8 :: "cursor \<Rightarrow> error + u8" where
  "peek_u8 c = ok_or (Err ''Unexpected end of input'') (get_at (cur_bytes c) (cur_pos c))"

definition read_bytes :: "nat \<Rightarrow> bytes reader" where
  "read_bytes n c =
     (if cur_remaining c < n then Inl (Err ''Unexpected end of input'')
      else Inr (take n (drop (cur_pos c) (cur_bytes c)), c\<lparr>cur_pos := cur_pos c + n\<rparr>))"

section \<open>LEB128\<close>

text \<open>Unsigned: at most ten bytes (\<open>n\<close> is the number of loop turns left).\<close>

fun leb_u64_loop :: "nat \<Rightarrow> u64 \<Rightarrow> nat \<Rightarrow> u64 reader" where
  "leb_u64_loop 0 result shift c = Inl (Err ''LEB128 integer too long'')"
| "leb_u64_loop (Suc n) result shift c =
     ebind (read_u8 c) (\<lambda>(byte, c').
       let result' = or result (push_bit shift (ucast (and byte 0x7F)))
       in if and byte 0x80 = 0 then Inr (result', c')
          else leb_u64_loop n result' (shift + 7) c')"

definition read_leb_u64 :: "u64 reader" where
  "read_leb_u64 c = leb_u64_loop 10 0 0 c"

definition read_leb_u32 :: "u32 reader" where
  "read_leb_u32 c =
     ebind (read_leb_u64 c) (\<lambda>(value, c').
       if unat value < 2 ^ 32 then Inr (ucast value, c') else Inl (Err ''LEB128 value exceeds u32''))"

text \<open>Signed: the loop stops when the accumulated shift reaches 70.\<close>

function leb_i64_loop :: "u64 \<Rightarrow> nat \<Rightarrow> u64 reader" where
  "leb_i64_loop result shift c =
     ebind (read_u8 c) (\<lambda>(byte, c').
       let result' = or result (push_bit shift (ucast (and byte 0x7F))); shift' = shift + 7
       in if and byte 0x80 = 0 then
            Inr (if shift' < 64 \<and> and byte 0x40 \<noteq> 0 then or result' (push_bit shift' (-1)) else result', c')
          else if 70 \<le> shift' then Inl (Err ''LEB128 integer too long'')
          else leb_i64_loop result' shift' c')"
  by pat_completeness auto
termination
  by (relation "measure (\<lambda>(r, s, c). 70 - s)") auto

declare leb_i64_loop.simps [simp del]

definition read_leb_i64 :: "u64 reader" where
  "read_leb_i64 c = leb_i64_loop 0 0 c"

definition read_leb_i32 :: "u32 reader" where
  "read_leb_i32 c =
     ebind (read_leb_i64 c) (\<lambda>(value, c').
       if - (2 ^ 31) \<le> sint value \<and> sint value < 2 ^ 31 then Inr (ucast value, c')
       else Inl (Err ''LEB128 value exceeds i32''))"

section \<open>Names\<close>

text \<open>
  \<^verbatim>\<open>std::str::from_utf8\<close>: the well-formed byte sequences of the Unicode standard (no
  overlong forms, no surrogates, nothing above U+10FFFF). A \<^verbatim>\<open>String\<close> is kept as its bytes.
\<close>

definition is_cont :: "u8 \<Rightarrow> bool" where
  "is_cont b \<longleftrightarrow> 0x80 \<le> b \<and> b \<le> 0xBF"

fun utf8_valid :: "bytes \<Rightarrow> bool" where
  "utf8_valid [] = True"
| "utf8_valid (a # r) =
     (if a \<le> 0x7F then utf8_valid r
      else if 0xC2 \<le> a \<and> a \<le> 0xDF then
        (case r of b # r' \<Rightarrow> is_cont b \<and> utf8_valid r' | _ \<Rightarrow> False)
      else if 0xE0 \<le> a \<and> a \<le> 0xEF then
        (case r of b # c # r' \<Rightarrow>
           (if a = 0xE0 then 0xA0 \<le> b \<and> b \<le> 0xBF
            else if a = 0xED then 0x80 \<le> b \<and> b \<le> 0x9F
            else is_cont b) \<and> is_cont c \<and> utf8_valid r' | _ \<Rightarrow> False)
      else if 0xF0 \<le> a \<and> a \<le> 0xF4 then
        (case r of b # c # d # r' \<Rightarrow>
           (if a = 0xF0 then 0x90 \<le> b \<and> b \<le> 0xBF
            else if a = 0xF4 then 0x80 \<le> b \<and> b \<le> 0x8F
            else is_cont b) \<and> is_cont c \<and> is_cont d \<and> utf8_valid r' | _ \<Rightarrow> False)
      else False)"

definition read_name :: "bytes reader" where
  "read_name c =
     ebind (read_leb_u32 c) (\<lambda>(len, c1).
       if unat len > 1024 then Inl (Err ''Name length exceeds 1024 bytes'')
       else ebind (read_bytes (unat len) c1) (\<lambda>(bs, c2).
         if utf8_valid bs then Inr (bs, c2) else Inl (Err ''Name is not valid UTF-8'')))"

section \<open>Readers advance\<close>

text \<open>
  The contract of a reader: a successful read keeps the bytes, leaves the position inside
  them, and moves it by at least \<open>k\<close> bytes.
\<close>

definition advances :: "nat \<Rightarrow> cursor \<Rightarrow> cursor \<Rightarrow> bool" where
  "advances k c c' \<longleftrightarrow> cur_bytes c' = cur_bytes c \<and> cur_pos c + k \<le> cur_pos c' \<and>
     (cur_pos c \<le> length (cur_bytes c) \<longrightarrow> cur_pos c' \<le> length (cur_bytes c))"

lemma advances_refl [simp]: "advances 0 c c"
  by (simp add: advances_def)

lemma advances_trans: "advances k c c' \<Longrightarrow> advances l c' c'' \<Longrightarrow> advances (k + l) c c''"
  by (auto simp: advances_def)

lemma advances_weaken: "advances k c c' \<Longrightarrow> l \<le> k \<Longrightarrow> advances l c c'"
  by (auto simp: advances_def)

lemma advances_0_trans: "advances k c c' \<Longrightarrow> advances l c' c'' \<Longrightarrow> advances k c c''"
  by (auto simp: advances_def)

locale reader =
  fixes read :: "'a reader" and least :: nat
  assumes read_advances: "read c = Inr (x, c') \<Longrightarrow> advances least c c'"
begin

lemma keeps_bytes: "read c = Inr (x, c') \<Longrightarrow> cur_bytes c' = cur_bytes c"
  using read_advances by (auto simp: advances_def)

lemma moves_forward: "read c = Inr (x, c') \<Longrightarrow> cur_pos c + least \<le> cur_pos c'"
  using read_advances by (auto simp: advances_def)

lemma stays_inside:
  "read c = Inr (x, c') \<Longrightarrow> cur_pos c \<le> length (cur_bytes c) \<Longrightarrow> cur_pos c' \<le> length (cur_bytes c')"
  using read_advances by (auto simp: advances_def)

end

text \<open>The loop \<^verbatim>\<open>for _ in 0..n\<close> around a read, collecting the results.\<close>

primrec read_times :: "nat \<Rightarrow> 'a reader \<Rightarrow> 'a list reader" where
  "read_times 0 rd c = Inr ([], c)"
| "read_times (Suc n) rd c =
     ebind (rd c) (\<lambda>(x, c'). ebind (read_times n rd c') (\<lambda>(xs, c''). Inr (x # xs, c'')))"

lemma length_read_times: "read_times n rd c = Inr (xs, c') \<Longrightarrow> length xs = n"
  by (induction n arbitrary: c xs) (auto simp: result_simps)

lemma read_times_all:
  assumes "\<And>c x c'. rd c = Inr (x, c') \<Longrightarrow> P x"
  shows "read_times n rd c = Inr (xs, c') \<Longrightarrow> \<forall>x\<in>set xs. P x"
  using assms by (induction n arbitrary: c xs) (auto simp: result_simps)

context reader
begin

lemma times_advances: "read_times n read c = Inr (xs, c') \<Longrightarrow> advances (n * least) c c'"
proof (induction n arbitrary: c xs)
  case 0
  then show ?case by simp
next
  case (Suc n)
  from Suc.prems obtain x c1 ys where
    1: "read c = Inr (x, c1)" and 2: "read_times n read c1 = Inr (ys, c')"
    by (auto simp: result_simps)
  from read_advances [OF 1] Suc.IH [OF 2] show ?case
    by (auto dest: advances_trans)
qed

end

interpretation byte_reader: reader read_u8 1
  by unfold_locales (auto simp: read_u8_def advances_def result_simps)

lemma read_bytes_advances: "read_bytes n c = Inr (x, c') \<Longrightarrow> advances n c c'"
  by (auto simp: read_bytes_def advances_def cur_remaining_def split: if_splits)

lemma read_bytes_length: "read_bytes n c = Inr (x, c') \<Longrightarrow> length x = n"
  by (auto simp: read_bytes_def cur_remaining_def split: if_splits)

interpretation bytes_reader: reader "read_bytes n" n
  by unfold_locales (rule read_bytes_advances)

lemma leb_u64_loop_advances: "leb_u64_loop n r s c = Inr (x, c') \<Longrightarrow> advances 1 c c'"
proof (induction n arbitrary: r s c)
  case 0
  then show ?case by simp
next
  case (Suc n)
  then show ?case
    by (auto simp: result_simps Let_def split: if_splits
        dest!: byte_reader.read_advances Suc.IH intro: advances_0_trans)
qed

interpretation leb_u64: reader read_leb_u64 1
  by unfold_locales (auto simp: read_leb_u64_def dest: leb_u64_loop_advances)

interpretation leb_u32: reader read_leb_u32 1
  by unfold_locales
    (auto simp: read_leb_u32_def result_simps split: if_splits dest: leb_u64.read_advances)

lemma leb_i64_loop_advances: "leb_i64_loop r s c = Inr (x, c') \<Longrightarrow> advances 1 c c'"
proof (induction r s c rule: leb_i64_loop.induct)
  case (1 r s c)
  from "1.prems" obtain b c1 where b: "read_u8 c = Inr (b, c1)"
    by (subst (asm) leb_i64_loop.simps) (auto simp: result_simps)
  have step: "advances 1 c c1" using b by (rule byte_reader.read_advances)
  show ?case
    using "1.prems" "1.IH" [OF b refl refl refl] step
    by (subst (asm) leb_i64_loop.simps)
      (auto simp: b Let_def split: if_splits intro: advances_0_trans)
qed

interpretation leb_i64: reader read_leb_i64 1
  by unfold_locales (auto simp: read_leb_i64_def dest: leb_i64_loop_advances)

interpretation leb_i32: reader read_leb_i32 1
  by unfold_locales
    (auto simp: read_leb_i32_def result_simps split: if_splits dest: leb_i64.read_advances)

interpretation name_reader: reader read_name 1
  by unfold_locales
    (auto simp: read_name_def result_simps split: if_splits
      dest!: leb_u32.read_advances read_bytes_advances intro: advances_0_trans)

lemma read_name_valid: "read_name c = Inr (bs, c') \<Longrightarrow> utf8_valid bs \<and> length bs \<le> 1024"
  by (auto simp: read_name_def result_simps split: if_splits dest: read_bytes_length)

section \<open>Evaluation\<close>

lemma read_times_numeral [eval_simps]:
  "read_times (numeral k) rd c =
     ebind (rd c) (\<lambda>(x, c'). ebind (read_times (pred_numeral k) rd c') (\<lambda>(xs, c''). Inr (x # xs, c'')))"
  by (simp only: numeral_eq_Suc read_times.simps)

lemma leb_u64_loop_numeral [eval_simps]:
  "leb_u64_loop (numeral k) result shift c =
     ebind (read_u8 c) (\<lambda>(byte, c').
       let result' = or result (push_bit shift (ucast (and byte 0x7F)))
       in if and byte 0x80 = 0 then Inr (result', c')
          else leb_u64_loop (pred_numeral k) result' (shift + 7) c')"
  by (simp only: numeral_eq_Suc leb_u64_loop.simps)

lemmas [eval_simps] = wasm_limits new_cursor_def cur_is_empty_def cur_remaining_def read_u8_def
  peek_u8_def read_bytes_def read_leb_u64_def read_leb_u32_def read_leb_i64_def read_leb_i32_def
  read_name_def leb_i64_loop.simps get_at_def Let_def is_cont_def value_type_from_byte_def
  empty_module_def

end
