(* ===== verification/Wasm_Leb.thy ===== *)
theory Wasm_Leb
  imports Wasm_Binary
begin

text \<open>
  LEB128 against reference encoders. The encoders are the specification: the shortest encoding
  of a natural number and of an integer, seven bits per byte, least significant group first. The
  readers of \<^verbatim>\<open>src/src/wasm.rs\<close> decode every encoding of a value of their width to that
  value and stop right behind it.
\<close>

section \<open>Reference encoders\<close>

fun leb_encode :: "nat \<Rightarrow> bytes" where
  "leb_encode n =
     (if n < 128 then [of_nat n] else or 0x80 (of_nat (n mod 128)) # leb_encode (n div 128))"

declare leb_encode.simps [simp del]

function sleb_encode :: "int \<Rightarrow> bytes" where
  "sleb_encode i =
     (if - 64 \<le> i \<and> i < 64 then [of_int (i mod 128)]
      else or 0x80 (of_int (i mod 128)) # sleb_encode (i div 128))"
  by pat_completeness auto
termination
proof (relation "measure (\<lambda>i. nat \<bar>i\<bar>)")
  fix i :: int
  assume "\<not> (- 64 \<le> i \<and> i < 64)"
  moreover have "128 * (i div 128) \<le> i" "i < 128 * (i div 128) + 128" by simp_all
  ultimately have "\<bar>i div 128\<bar> < \<bar>i\<bar>" by linarith
  then show "(i div 128, i) \<in> measure (\<lambda>i. nat \<bar>i\<bar>)" by simp
qed simp

declare sleb_encode.simps [simp del]

lemma leb_encode_not_Nil [simp]: "leb_encode n \<noteq> []"
  by (subst leb_encode.simps) simp

lemma leb_encode_length: "n < 128 ^ Suc k \<Longrightarrow> length (leb_encode n) \<le> Suc k"
proof (induction k arbitrary: n)
  case 0
  then show ?case by (subst leb_encode.simps) simp
next
  case (Suc k)
  from Suc.prems have "n div 128 < 128 ^ Suc k"
    by (metis div_less_iff_less_mult mult.commute power_Suc zero_less_numeral)
  from Suc.IH [OF this] show ?case by (subst leb_encode.simps) simp
qed

section \<open>The bits of one group\<close>

lemma low_group_nat: "n mod 128 = take_bit 7 n" "n div 128 = drop_bit 7 n" for n :: nat
  by (simp_all add: take_bit_eq_mod drop_bit_eq_div)

lemma low_group_int: "i mod 128 = take_bit 7 i" "i div 128 = drop_bit 7 i" for i :: int
  by (simp_all add: take_bit_eq_mod drop_bit_eq_div)

lemma group_index: "7 + (n - (s + 7)) = (if n - s < 7 then 7 else n - s)" for n s :: nat
  by auto

lemma group_of_nat:
  "or (push_bit s (ucast (and (of_nat (take_bit 7 n) :: u8) 0x7F))) (push_bit (s + 7) (of_nat (drop_bit 7 n)))
   = (push_bit s (of_nat n) :: u64)"
proof -
  have m: "(0x7F :: u8) = mask 7" by (simp add: mask_eq_exp_minus_1)
  show ?thesis
    unfolding m by (intro bit_word_eqI) (auto simp: bit_simps group_index split: if_splits)
qed

lemma group_of_int:
  "or (push_bit s (ucast (and (of_int (take_bit 7 i) :: u8) 0x7F))) (push_bit (s + 7) (of_int (drop_bit 7 i)))
   = (push_bit s (of_int i) :: u64)"
proof -
  have m: "(0x7F :: u8) = mask 7" by (simp add: mask_eq_exp_minus_1)
  show ?thesis
    unfolding m by (intro bit_word_eqI) (auto simp: bit_simps group_index split: if_splits)
qed

text \<open>The continuation bit of a byte.\<close>

lemma more_byte [simp]:
  "and (or 0x80 g) 0x80 = (0x80 :: u8)" "and (or 0x80 g) 0x7F = and g (0x7F :: u8)"
  by (simp_all add: bit.conj_disj_distrib2)

lemma bit_flag_int: "bit (128 :: int) k \<longleftrightarrow> k = 7" "bit (64 :: int) k \<longleftrightarrow> k = 6"
proof -
  have "(128 :: int) = 2 ^ 7" "(64 :: int) = 2 ^ 6" by simp_all
  then show "bit (128 :: int) k \<longleftrightarrow> k = 7" "bit (64 :: int) k \<longleftrightarrow> k = 6"
    by (simp_all only: bit_exp_iff possible_bit_int) auto
qed

lemma last_byte [simp]:
  "and (of_nat (take_bit 7 n) :: u8) 0x80 = 0" "and (of_int (take_bit 7 i) :: u8) 0x80 = 0"
  by (auto intro!: bit_word_eqI simp: bit_simps bit_flag_int)

section \<open>Unsigned\<close>

lemma read_u8_at [simp]:
  "read_u8 \<lparr>cur_bytes = pre @ b # post, cur_pos = length pre\<rparr>
   = Inr (b, \<lparr>cur_bytes = pre @ b # post, cur_pos = Suc (length pre)\<rparr>)"
  by (simp add: read_u8_def get_at_def)

lemma leb_encode_last: "n < 128 \<Longrightarrow> leb_encode n = [of_nat (take_bit 7 n)]"
  by (subst leb_encode.simps) (simp add: take_bit_eq_mod)

lemma leb_encode_more:
  "128 \<le> n \<Longrightarrow> leb_encode n = or 0x80 (of_nat (take_bit 7 n)) # leb_encode (drop_bit 7 n)"
  by (subst leb_encode.simps) (simp add: low_group_nat)

lemma last_group_nat: "n < 128 \<Longrightarrow>
    push_bit s (ucast (and (of_nat (take_bit 7 n) :: u8) 0x7F)) = (push_bit s (of_nat n) :: u64)"
  using group_of_nat [of s n] by (simp add: low_group_nat [symmetric])

lemma leb_u64_loop_encode:
  assumes "n < 128 ^ Suc k"
  shows "leb_u64_loop (Suc k) r s \<lparr>cur_bytes = pre @ leb_encode n @ post, cur_pos = length pre\<rparr>
    = Inr (or r (push_bit s (of_nat n)),
        \<lparr>cur_bytes = pre @ leb_encode n @ post, cur_pos = length pre + length (leb_encode n)\<rparr>)"
  using assms
proof (induction k arbitrary: n r s pre)
  case 0
  then have n: "n < 128" by simp
  show ?case
    by (simp add: leb_encode_last [OF n] last_group_nat [OF n] Let_def)
next
  case (Suc k)
  show ?case
  proof (cases "n < 128")
    case True
    then show ?thesis
      by (simp add: leb_encode_last [OF True] last_group_nat [OF True] Let_def)
  next
    case False
    let ?b = "or 0x80 (of_nat (take_bit 7 n)) :: u8"
    have "drop_bit 7 n < 128 ^ Suc k"
      using Suc.prems by (simp add: drop_bit_eq_div div_less_iff_less_mult mult.commute)
    note IH = Suc.IH [OF this, of "or r (push_bit s (ucast (and (of_nat (take_bit 7 n) :: u8) 0x7F)))" "s + 7" "pre @ [?b]"]
    have e: "leb_encode n = ?b # leb_encode (drop_bit 7 n)"
      using False by (intro leb_encode_more) simp
    show ?thesis
      unfolding e using IH
      by (subst leb_u64_loop.simps) (simp add: Let_def or.assoc group_of_nat del: leb_u64_loop.simps)
  qed
qed

lemma read_leb_u64_encode:
  "read_leb_u64 \<lparr>cur_bytes = pre @ leb_encode (unat v) @ post, cur_pos = length pre\<rparr>
   = Inr (v, \<lparr>cur_bytes = pre @ leb_encode (unat v) @ post,
              cur_pos = length pre + length (leb_encode (unat v))\<rparr>)"
proof -
  have "unat v < 128 ^ Suc 9"
    using unsigned_less [of v] by (rule less_trans) simp
  from leb_u64_loop_encode [OF this, of 0 0 pre post] show ?thesis
    by (simp add: read_leb_u64_def numeral_eq_Suc del: leb_u64_loop.simps)
qed

section \<open>Signed\<close>

lemma sleb_encode_last: "- 64 \<le> i \<Longrightarrow> i < 64 \<Longrightarrow> sleb_encode i = [of_int (take_bit 7 i)]"
  by (subst sleb_encode.simps) (simp add: take_bit_eq_mod)

lemma sleb_encode_more:
  "\<not> (- 64 \<le> i \<and> i < 64) \<Longrightarrow>
    sleb_encode i = or 0x80 (of_int (take_bit 7 i)) # sleb_encode (drop_bit 7 i)"
  by (subst sleb_encode.simps) (auto simp: low_group_int)


text \<open>Above bit 5 an integer of seven bits is all sign.\<close>

lemma bit_sign_7:
  fixes i :: int
  assumes "- 64 \<le> i" and "i < 64" and "6 \<le> k"
  shows "bit i k \<longleftrightarrow> i < 0"
proof -
  have le: "64 \<le> (2 :: int) ^ k"
    using power_increasing [OF \<open>6 \<le> k\<close>, of "2 :: int"] by simp
  have "i div 2 ^ k = (if i < 0 then - 1 else 0)"
    using assms le div_pos_neg_trivial [of "- i" "- (2 ^ k)"]
    by (auto simp: div_pos_pos_trivial div_minus_minus)
  then show ?thesis by (simp add: bit_iff_odd)
qed

lemma bit_low_7: "0 \<le> i \<Longrightarrow> i < 64 \<Longrightarrow> bit i k \<Longrightarrow> k < 6" for i :: int
  by (rule ccontr) (use bit_sign_7 [of i k] in auto)

lemma sign_flag:
  assumes "- 64 \<le> i" and "i < 64"
  shows "and (of_int (take_bit 7 i) :: u8) 0x40 = 0 \<longleftrightarrow> 0 \<le> i"
proof -
  have "and (of_int (take_bit 7 i) :: u8) 0x40 = (if bit i 6 then 0x40 else 0)"
    by (rule bit_word_eqI) (auto simp: bit_simps bit_flag_int)
  then show ?thesis using bit_sign_7 [OF assms, of 6] by auto
qed

lemma last_group_int:
  assumes "- 64 \<le> i" and "i < 64"
  shows "or (push_bit s (ucast (and (of_int (take_bit 7 i) :: u8) 0x7F)))
      (if s + 7 < 64 \<and> i < 0 then push_bit (s + 7) (- 1) else 0) = (push_bit s (of_int i) :: u64)"
proof -
  have m: "(0x7F :: u8) = mask 7" by (simp add: mask_eq_exp_minus_1)
  show ?thesis
    unfolding m
    by (intro bit_word_eqI)
      (auto simp: bit_simps group_index bit_sign_7 [OF assms] not_less split: if_splits
        dest: bit_low_7 [OF _ \<open>i < 64\<close>])
qed

lemma leb_i64_loop_encode:
  assumes "7 dvd s" and "s \<le> 63" and "- (2 ^ (63 - s)) \<le> i" and "i < 2 ^ (63 - s)"
  shows "leb_i64_loop r s \<lparr>cur_bytes = pre @ sleb_encode i @ post, cur_pos = length pre\<rparr>
    = Inr (or r (push_bit s (of_int i)),
        \<lparr>cur_bytes = pre @ sleb_encode i @ post, cur_pos = length pre + length (sleb_encode i)\<rparr>)"
  using assms
proof (induction i arbitrary: r s pre rule: sleb_encode.induct)
  case (1 i)
  show ?case
  proof (cases "- 64 \<le> i \<and> i < 64")
    case True
    then have l: "- 64 \<le> i" "i < 64" by simp_all
    show ?thesis
      using last_group_int [OF l, of s] sign_flag [OF l]
      by (subst leb_i64_loop.simps)
        (auto simp: sleb_encode_last [OF l] Let_def or.assoc split: if_splits)
  next
    case False
    let ?b = "or 0x80 (of_int (take_bit 7 i)) :: u8"
    have e: "sleb_encode i = ?b # sleb_encode (drop_bit 7 i)"
      using False by (rule sleb_encode_more)
    have s: "s \<le> 56"
    proof (rule ccontr)
      assume "\<not> s \<le> 56"
      with "1.prems" have "s = 63" by presburger
      with "1.prems" False show False by auto
    qed
    then have "63 - s = 7 + (63 - (s + 7))" by simp
    then have p: "(2 :: int) ^ (63 - s) = 128 * 2 ^ (63 - (s + 7))"
      by (simp only: power_add) simp
    have "- (2 ^ (63 - (s + 7))) \<le> drop_bit 7 i" "drop_bit 7 i < 2 ^ (63 - (s + 7))"
      using "1.prems" p by (simp_all add: drop_bit_eq_div)
    then have IH: "leb_i64_loop r' (s + 7)
        \<lparr>cur_bytes = pre' @ sleb_encode (drop_bit 7 i) @ post, cur_pos = length pre'\<rparr>
      = Inr (or r' (push_bit (s + 7) (of_int (drop_bit 7 i))),
        \<lparr>cur_bytes = pre' @ sleb_encode (drop_bit 7 i) @ post,
         cur_pos = length pre' + length (sleb_encode (drop_bit 7 i))\<rparr>)" for r' pre'
      using "1.IH" [OF False, of "s + 7" r' pre'] "1.prems" s by (simp add: low_group_int)
    show ?thesis
      unfolding e using IH [of "or r (push_bit s (ucast (and (of_int (take_bit 7 i) :: u8) 0x7F)))" "pre @ [?b]"] s
      by (subst leb_i64_loop.simps) (simp add: Let_def or.assoc group_of_int)
  qed
qed

lemma read_leb_i64_encode:
  "read_leb_i64 \<lparr>cur_bytes = pre @ sleb_encode (sint v) @ post, cur_pos = length pre\<rparr>
   = Inr (v, \<lparr>cur_bytes = pre @ sleb_encode (sint v) @ post,
              cur_pos = length pre + length (sleb_encode (sint v))\<rparr>)"
  using leb_i64_loop_encode [of 0 "sint v" 0 pre post] sint_ge [of v] sint_lt [of v]
  by (simp add: read_leb_i64_def)

section \<open>Round trips at all four widths\<close>

text \<open>C6. Wherever the reference encoding of a value stands in the input, the unsigned LEB128 readers
  decode it to that value and stop right behind it, at 64 and at 32 bits; in particular no 64-bit
  value needs more than the ten turns the loop allows.\<close>

theorem read_leb_unsigned:
  fixes v :: u64 and w :: u32
  shows "read_leb_u64 \<lparr>cur_bytes = pre @ leb_encode (unat v) @ post, cur_pos = length pre\<rparr>
      = Inr (v, \<lparr>cur_bytes = pre @ leb_encode (unat v) @ post,
                 cur_pos = length pre + length (leb_encode (unat v))\<rparr>)
    \<and> read_leb_u32 \<lparr>cur_bytes = pre @ leb_encode (unat w) @ post, cur_pos = length pre\<rparr>
      = Inr (w, \<lparr>cur_bytes = pre @ leb_encode (unat w) @ post,
                 cur_pos = length pre + length (leb_encode (unat w))\<rparr>)"
proof
  have l: "unat w < 2 ^ 64"
    using unsigned_less [of w] by (rule less_trans) simp
  have w: "unat (ucast w :: u64) = unat w" "ucast (ucast w :: u64) = w"
    using l by (simp add: unsigned_ucast_eq take_bit_nat_eq_self)
      (auto intro!: bit_word_eqI simp: bit_simps)
  show "read_leb_u32 \<lparr>cur_bytes = pre @ leb_encode (unat w) @ post, cur_pos = length pre\<rparr>
      = Inr (w, \<lparr>cur_bytes = pre @ leb_encode (unat w) @ post,
                 cur_pos = length pre + length (leb_encode (unat w))\<rparr>)"
    using read_leb_u64_encode [of pre "ucast w" post] unsigned_less [of w]
    by (simp add: read_leb_u32_def w)
qed (rule read_leb_u64_encode)

text \<open>The signed LEB128 readers decode the reference encoding of every signed value, at 64 and at
  32 bits, to its two's complement word, negative values and the sign bit of the tenth byte
  included, and stop right behind it.\<close>

theorem read_leb_signed:
  fixes v :: u64 and w :: u32
  shows "read_leb_i64 \<lparr>cur_bytes = pre @ sleb_encode (sint v) @ post, cur_pos = length pre\<rparr>
      = Inr (v, \<lparr>cur_bytes = pre @ sleb_encode (sint v) @ post,
                 cur_pos = length pre + length (sleb_encode (sint v))\<rparr>)
    \<and> read_leb_i32 \<lparr>cur_bytes = pre @ sleb_encode (sint w) @ post, cur_pos = length pre\<rparr>
      = Inr (w, \<lparr>cur_bytes = pre @ sleb_encode (sint w) @ post,
                 cur_pos = length pre + length (sleb_encode (sint w))\<rparr>)"
proof
  have w: "sint (scast w :: u64) = sint w" "ucast (scast w :: u64) = w"
    using sint_ge [of w] sint_lt [of w]
    by (simp_all add: signed_scast_eq signed_take_bit_int_eq_self) (auto intro!: bit_word_eqI simp: bit_simps)
  show "read_leb_i32 \<lparr>cur_bytes = pre @ sleb_encode (sint w) @ post, cur_pos = length pre\<rparr>
      = Inr (w, \<lparr>cur_bytes = pre @ sleb_encode (sint w) @ post,
                 cur_pos = length pre + length (sleb_encode (sint w))\<rparr>)"
    using read_leb_i64_encode [of pre "scast w" post] sint_ge [of w] sint_lt [of w]
    by (simp add: read_leb_i32_def w)
qed (rule read_leb_i64_encode)

end
