(* ===== verification/Wasm_Validate.thy ===== *)
theory Wasm_Validate
  imports Wasm_Binary
begin

text \<open>
  Constant expressions and the structural validator of function bodies
  (\<^verbatim>\<open>read_expr\<close>, \<^verbatim>\<open>skip_immediate\<close> and \<^verbatim>\<open>validate_code\<close> of
  \<^verbatim>\<open>src/src/wasm.rs\<close>). The validator consumes one opcode with its immediates per turn
  and tracks the block depth; it ends at the \<^verbatim>\<open>end\<close> opcode of depth zero.
\<close>

section \<open>Constant expressions\<close>

definition skip_immediate :: "u8 \<Rightarrow> cursor \<Rightarrow> error + cursor" where
  "skip_immediate opcode c =
     (if opcode = 0x41 then ebind (read_leb_i32 c) (\<lambda>(_, c'). Inr c')
      else if opcode = 0x42 then ebind (read_leb_i64 c) (\<lambda>(_, c'). Inr c')
      else if opcode = 0x43 then ebind (read_bytes 4 c) (\<lambda>(_, c'). Inr c')
      else if opcode = 0x44 then ebind (read_bytes 8 c) (\<lambda>(_, c'). Inr c')
      else Inr c)"

lemma skip_immediate_advances: "skip_immediate op c = Inr c' \<Longrightarrow> advances 0 c c'"
  by (auto simp: skip_immediate_def result_simps split: if_splits
      dest!: leb_i32.read_advances leb_i64.read_advances read_bytes_advances
      intro: advances_weaken)

text \<open>One turn of the loop of \<^verbatim>\<open>read_expr\<close> for an opcode that does not end
  the expression: the new depth and the cursor behind the operands.\<close>

definition const_expr_step :: "nat \<Rightarrow> u8 \<Rightarrow> cursor \<Rightarrow> error + (nat \<times> cursor)" where
  "const_expr_step depth opcode c =
     (if opcode = 0x0B then Inr (depth - 1, c)
      else if 0x02 \<le> opcode \<and> opcode \<le> 0x04 then Inr (depth + 1, c)
      else if 0x41 \<le> opcode \<and> opcode \<le> 0x44 then ebind (skip_immediate opcode c) (\<lambda>c'. Inr (depth, c'))
      else if opcode = 0x23 then ebind (read_leb_u32 c) (\<lambda>(_, c'). Inr (depth, c'))
      else Inl (ErrByte ''Invalid constant expression opcode'' opcode))"

lemma const_expr_step_advances: "const_expr_step d op c = Inr (d', c') \<Longrightarrow> advances 0 c c'"
  by (auto simp: const_expr_step_def result_simps split: if_splits
      dest!: skip_immediate_advances leb_u32.read_advances intro: advances_weaken)

text \<open>\<open>start\<close> is the position the expression began at. The bytes returned leave out
  the closing \<^verbatim>\<open>end\<close>.\<close>

function read_expr_loop :: "nat \<Rightarrow> nat \<Rightarrow> bytes reader" where
  "read_expr_loop start depth c =
     ebind (read_u8 c) (\<lambda>(opcode, c1).
       if opcode = 0x0B \<and> depth = 0 then
         Inr (take (cur_pos c1 - 1 - start) (drop start (cur_bytes c1)), c1)
       else ebind (const_expr_step depth opcode c1) (\<lambda>(depth', c2).
         if depth' = 0 \<and> opcode = 0x0B then
           Inr (take (cur_pos c2 - 1 - start) (drop start (cur_bytes c2)), c2)
         else read_expr_loop start depth' c2))"
  by pat_completeness auto
termination
  by (relation "measure (\<lambda>(start, depth, c). length (cur_bytes c) - cur_pos c)")
    (auto simp: advances_def read_u8_def result_simps dest!: const_expr_step_advances)

declare read_expr_loop.simps [simp del]

definition read_expr :: "bytes reader" where
  "read_expr c = read_expr_loop (cur_pos c) 0 c"

lemma read_expr_loop_advances: "read_expr_loop s d c = Inr (x, c') \<Longrightarrow> advances 1 c c'"
proof (induction s d c rule: read_expr_loop.induct)
  case (1 s d c)
  from "1.prems" obtain op c1 where r: "read_u8 c = Inr (op, c1)"
    by (subst (asm) read_expr_loop.simps) (auto simp: result_simps)
  have a: "advances 1 c c1" using r by (rule byte_reader.read_advances)
  show ?case
  proof (cases "op = 0x0B \<and> d = 0")
    case True
    with "1.prems" a show ?thesis
      by (subst (asm) read_expr_loop.simps) (auto simp: r)
  next
    case False
    with "1.prems" obtain d' c2 where st: "const_expr_step d op c1 = Inr (d', c2)"
      and rest: "d' = 0 \<and> op = 0x0B \<and> c' = c2 \<or> read_expr_loop s d' c2 = Inr (x, c')"
      by (subst (asm) read_expr_loop.simps) (auto simp: r result_simps split: if_splits)
    from st have a2: "advances 0 c1 c2" by (rule const_expr_step_advances)
    from rest show ?thesis
    proof
      assume "d' = 0 \<and> op = 0x0B \<and> c' = c2"
      with a a2 show ?thesis by (auto intro: advances_0_trans)
    next
      assume l: "read_expr_loop s d' c2 = Inr (x, c')"
      show ?thesis
      proof (cases "d' = 0 \<and> op = 0x0B")
        case True
        with "1.prems" st False a a2 show ?thesis
          by (subst (asm) read_expr_loop.simps) (auto simp: r intro: advances_0_trans)
      next
        case nf: False
        from "1.IH" [OF r refl False st refl nf l] a a2
        show ?thesis by (blast intro: advances_0_trans)
      qed
    qed
  qed
qed

interpretation expr_reader: reader read_expr 1
  by unfold_locales (auto simp: read_expr_def dest: read_expr_loop_advances)

section \<open>Function bodies\<close>

text \<open>The block type after \<^verbatim>\<open>block\<close>, \<^verbatim>\<open>loop\<close> and \<^verbatim>\<open>if\<close>: one of the short
  forms, or a type index whose first byte was only peeked at.\<close>

definition read_block_type :: "cursor \<Rightarrow> error + cursor" where
  "read_block_type c =
     ebind (peek_u8 c) (\<lambda>block_type.
       if block_type = 0x40 then ebind (read_u8 c) (\<lambda>(_, c'). Inr c')
       else if 0x7C \<le> block_type \<and> block_type \<le> 0x7F then ebind (read_u8 c) (\<lambda>(_, c'). Inr c')
       else ebind (read_leb_u32 c) (\<lambda>(_, c'). Inr c'))"

definition read_select_type :: "u8 reader" where
  "read_select_type c =
     ebind (read_u8 c) (\<lambda>(value_type, c').
       if 0x7C \<le> value_type \<and> value_type \<le> 0x7F then Inr (value_type, c')
       else Inl (Err ''select type vector must contain value types''))"

text \<open>The operands of an opcode that does not change the depth.\<close>

definition validate_operands :: "u8 \<Rightarrow> cursor \<Rightarrow> error + cursor" where
  "validate_operands opcode c =
     (if opcode = 0x00 \<or> opcode = 0x01 then Inr c
      else if opcode = 0x05 then Inr c
      else if opcode = 0x0F then Inr c
      else if opcode = 0x1A \<or> opcode = 0x1B then Inr c
      else if opcode = 0x1C then
        ebind (read_leb_u32 c) (\<lambda>(count, c1).
          if unat count > 4 then Inl (Err ''select type vector budget exceeded'')
          else ebind (read_times (unat count) read_select_type c1) (\<lambda>(_, c2). Inr c2))
      else if opcode = 0x0C \<or> opcode = 0x0D then ebind (read_leb_u32 c) (\<lambda>(_, c1). Inr c1)
      else if opcode = 0x0E then
        ebind (read_leb_u32 c) (\<lambda>(count, c1).
          if unat count > 1024 then Inl (Err ''br_table label budget exceeded'')
          else ebind (read_times (unat count) read_leb_u32 c1) (\<lambda>(_, c2).
            ebind (read_leb_u32 c2) (\<lambda>(_, c3). Inr c3)))
      else if opcode = 0x10 then ebind (read_leb_u32 c) (\<lambda>(_, c1). Inr c1)
      else if opcode = 0x11 then
        ebind (read_leb_u32 c) (\<lambda>(type_index, c1). ebind (read_leb_u32 c1) (\<lambda>(table_index, c2).
          if table_index \<noteq> 0 then Inl (Err ''call_indirect reserved table index must be zero'') else Inr c2))
      else if opcode = 0x12 \<or> opcode = 0x13 then ebind (read_leb_u32 c) (\<lambda>(_, c1). Inr c1)
      else if 0x20 \<le> opcode \<and> opcode \<le> 0x24 then ebind (read_leb_u32 c) (\<lambda>(_, c1). Inr c1)
      else if 0x28 \<le> opcode \<and> opcode \<le> 0x3E then
        ebind (read_leb_u32 c) (\<lambda>(_, c1). ebind (read_leb_u32 c1) (\<lambda>(_, c2). Inr c2))
      else if opcode = 0x3F \<or> opcode = 0x40 then
        ebind (read_u8 c) (\<lambda>(reserved, c1).
          if reserved \<noteq> 0 then Inl (Err ''memory instruction reserved byte must be zero'') else Inr c1)
      else if opcode = 0x41 then ebind (read_leb_i32 c) (\<lambda>(_, c1). Inr c1)
      else if opcode = 0x42 then ebind (read_leb_i64 c) (\<lambda>(_, c1). Inr c1)
      else if opcode = 0x43 then ebind (read_bytes 4 c) (\<lambda>(_, c1). Inr c1)
      else if opcode = 0x44 then ebind (read_bytes 8 c) (\<lambda>(_, c1). Inr c1)
      else if 0x45 \<le> opcode \<and> opcode \<le> 0xC4 then Inr c
      else Inl (ErrByte ''Unsupported opcode'' opcode))"

text \<open>The loop of \<^verbatim>\<open>validate_code\<close>; the result is the largest depth reached,
  with the cursor behind the final \<^verbatim>\<open>end\<close>.\<close>

definition validate_step :: "u8 \<Rightarrow> nat \<Rightarrow> nat \<Rightarrow> cursor \<Rightarrow> error + (nat \<times> nat \<times> cursor)" where
  "validate_step opcode depth max_depth c =
     (if opcode = 0x0B then Inr (depth - 1, max_depth, c)
      else if opcode = 0x02 \<or> opcode = 0x03 then
        ebind (read_block_type c) (\<lambda>c'. Inr (depth + 1, max max_depth (depth + 1), c'))
      else if opcode = 0x04 then
        ebind (read_block_type c) (\<lambda>c'. Inr (depth + 1, max max_depth (depth + 1), c'))
      else ebind (validate_operands opcode c) (\<lambda>c'. Inr (depth, max_depth, c')))"

lemma read_block_type_advances: "read_block_type c = Inr c' \<Longrightarrow> advances 1 c c'"
  by (auto simp: read_block_type_def result_simps split: if_splits
      dest: byte_reader.read_advances leb_u32.read_advances)

interpretation select_type: reader read_select_type 1
  by unfold_locales
    (auto simp: read_select_type_def result_simps split: if_splits dest: byte_reader.read_advances)

lemma validate_operands_advances: "validate_operands op c = Inr c' \<Longrightarrow> advances 0 c c'"
  unfolding validate_operands_def
  by (auto simp: result_simps split: if_splits
      dest!: byte_reader.read_advances leb_u32.read_advances leb_i32.read_advances
        leb_i64.read_advances read_bytes_advances select_type.times_advances leb_u32.times_advances
      intro: advances_weaken advances_0_trans [OF advances_weaken])

lemma validate_step_advances: "validate_step op d m c = Inr (d', m', c') \<Longrightarrow> advances 0 c c'"
  by (auto simp: validate_step_def result_simps split: if_splits
      dest!: validate_operands_advances read_block_type_advances intro: advances_weaken)

function validate_loop :: "nat \<Rightarrow> nat \<Rightarrow> cursor \<Rightarrow> error + (nat \<times> cursor)" where
  "validate_loop depth max_depth c =
     (if cur_is_empty c then Inl (Err ''Function body missing end opcode'')
      else ebind (read_u8 c) (\<lambda>(opcode, c1).
        if opcode = 0x0B \<and> depth = 0 then Inr (max_depth, c1)
        else ebind (validate_step opcode depth max_depth c1) (\<lambda>(depth', max_depth', c2).
          validate_loop depth' max_depth' c2)))"
  by pat_completeness auto
termination
  by (relation "measure (\<lambda>(d, m, c). length (cur_bytes c) - cur_pos c)")
    (auto simp: advances_def read_u8_def result_simps dest!: validate_step_advances)

declare validate_loop.simps [simp del]

definition validate_code :: "bytes \<Rightarrow> error + nat" where
  "validate_code code = ebind (validate_loop 0 0 (new_cursor code)) (\<lambda>(max_depth, _). Inr max_depth)"

lemmas [eval_simps] = skip_immediate_def const_expr_step_def read_expr_loop.simps read_expr_def
  read_block_type_def read_select_type_def validate_operands_def validate_step_def
  validate_loop.simps validate_code_def

end
