(* ===== verification/Wasm_Parser.thy ===== *)
theory Wasm_Parser
  imports Wasm_Validate
begin

text \<open>
  The section parsers and \<^verbatim>\<open>parse_module\<close> of \<^verbatim>\<open>src/src/wasm.rs\<close>. A section
  parser takes the section's own cursor and the module built so far; the module it returns is
  only used when it succeeds. What a successful parse establishes about the module is
  \<open>module_ok\<close>: every budget of the header holds and every index the interpreter follows is
  in range.
\<close>

section \<open>Types, limits and tables\<close>

definition read_value_type :: "value_type reader" where
  "read_value_type c =
     ebind (read_u8 c) (\<lambda>(b, c1). ebind (value_type_from_byte b) (\<lambda>vt. Inr (vt, c1)))"

definition read_value_type_vec :: "nat \<Rightarrow> value_type list reader" where
  "read_value_type_vec limit c =
     ebind (read_leb_u32 c) (\<lambda>(count, c1).
       if unat count > limit then Inl (Err ''Value type vector budget exceeded'')
       else read_times (unat count) read_value_type c1)"

definition read_func_type :: "func_type reader" where
  "read_func_type c =
     ebind (read_u8 c) (\<lambda>(form, c1).
       if form \<noteq> 0x60 then Inl (Err ''Only function types are supported'')
       else ebind (read_value_type_vec MAX_LOCALS_PER_FUNCTION c1) (\<lambda>(parameters, c2).
         ebind (read_value_type_vec 64 c2) (\<lambda>(results, c3).
           if length results > 1 then Inl (Err ''Multi-value results are not supported'')
           else Inr (\<lparr>ft_parameters = parameters, ft_results = results\<rparr>, c3))))"

definition parse_type_section :: "cursor \<Rightarrow> wasm_module \<Rightarrow> error + (wasm_module \<times> cursor)" where
  "parse_type_section c m =
     ebind (read_leb_u32 c) (\<lambda>(count, c1).
       if unat count > MAX_TYPES then Inl (Err ''Type budget exceeded'')
       else ebind (read_times (unat count) read_func_type c1) (\<lambda>(ts, c2).
         Inr (m\<lparr>m_types := m_types m @ ts\<rparr>, c2)))"

definition read_limits :: "limits reader" where
  "read_limits c =
     ebind (read_u8 c) (\<lambda>(flag, c1).
       if flag = 0x00 then
         ebind (read_leb_u64 c1) (\<lambda>(lo, c2). Inr (\<lparr>lim_min = lo, lim_max = None\<rparr>, c2))
       else if flag = 0x01 then
         ebind (read_leb_u64 c1) (\<lambda>(lo, c2). ebind (read_leb_u64 c2) (\<lambda>(hi, c3).
           if hi < lo then Inl (Err ''Limits max is smaller than min'')
           else Inr (\<lparr>lim_min = lo, lim_max = Some hi\<rparr>, c3)))
       else Inl (ErrByte ''Invalid limits flag'' flag))"

definition read_table_type :: "table_type reader" where
  "read_table_type c =
     ebind (read_value_type c) (\<lambda>(element_type, c1).
       if \<not> (element_type = TFuncRef \<or> element_type = TExternRef)
       then Inl (Err ''Table element type must be a reference type'')
       else ebind (read_limits c1) (\<lambda>(limits, c2).
         if (case lim_max limits of None \<Rightarrow> False | Some hi \<Rightarrow> unat hi > MAX_TABLE_ENTRIES)
         then Inl (Err ''Table entry budget exceeded'')
         else Inr (\<lparr>tt_element_type = element_type, tt_limits = limits\<rparr>, c2)))"

definition read_memory_type :: "memory_type reader" where
  "read_memory_type c =
     ebind (read_limits c) (\<lambda>(limits, c1).
       if unat (lim_min limits) > MAX_MEMORY_PAGES
       then Inl (Err ''Memory minimum exceeds 1024 pages'')
       else if (case lim_max limits of None \<Rightarrow> False | Some hi \<Rightarrow> unat hi > MAX_MEMORY_PAGES)
       then Inl (Err ''Memory maximum exceeds 1024 pages'')
       else Inr (\<lparr>mt_limits = limits\<rparr>, c1))"

definition read_global_type :: "global_type reader" where
  "read_global_type c =
     ebind (read_value_type c) (\<lambda>(vt, c1). ebind (read_u8 c1) (\<lambda>(b, c2).
       if b = 0x00 then Inr (\<lparr>gt_value_type = vt, gt_mutable = False\<rparr>, c2)
       else if b = 0x01 then Inr (\<lparr>gt_value_type = vt, gt_mutable = True\<rparr>, c2)
       else Inl (ErrByte ''Invalid mutability byte'' b)))"

section \<open>Imports, functions, tables, memories, globals, exports\<close>

definition read_import :: "wasm_import reader" where
  "read_import c =
     ebind (read_name c) (\<lambda>(module_name, c1). ebind (read_name c1) (\<lambda>(nm, c2).
       ebind (read_u8 c2) (\<lambda>(kind_byte, c3).
         ebind (if kind_byte = 0x00 then ebind (read_leb_u32 c3) (\<lambda>(i, c4). Inr (ImportFunction i, c4))
                else if kind_byte = 0x01 then ebind (read_table_type c3) (\<lambda>(t, c4). Inr (ImportTable t, c4))
                else if kind_byte = 0x02 then ebind (read_memory_type c3) (\<lambda>(t, c4). Inr (ImportMemory t, c4))
                else if kind_byte = 0x03 then ebind (read_global_type c3) (\<lambda>(t, c4). Inr (ImportGlobal t, c4))
                else Inl (ErrByte ''Invalid import kind'' kind_byte))
           (\<lambda>(kind, c5). Inr (\<lparr>imp_module = module_name, imp_name = nm, imp_kind = kind\<rparr>, c5)))))"

definition parse_import_section :: "cursor \<Rightarrow> wasm_module \<Rightarrow> error + (wasm_module \<times> cursor)" where
  "parse_import_section c m =
     ebind (read_leb_u32 c) (\<lambda>(count, c1).
       if unat count > MAX_IMPORTS then Inl (Err ''Import budget exceeded'')
       else ebind (read_times (unat count) read_import c1) (\<lambda>(is, c2).
         Inr (m\<lparr>m_imports := m_imports m @ is\<rparr>, c2)))"

text \<open>One turn of the function section: a type index, checked against the types parsed so
  far (\<^verbatim>\<open>module.types.len() as u32\<close>).\<close>

definition read_type_index :: "wasm_module \<Rightarrow> u32 reader" where
  "read_type_index m c =
     ebind (read_leb_u32 c) (\<lambda>(type_index, c1).
       if type_index \<ge> of_nat (length (m_types m)) then Inl (Err ''Function type index out of range'')
       else Inr (type_index, c1))"

definition parse_function_section :: "cursor \<Rightarrow> wasm_module \<Rightarrow> error + (wasm_module \<times> cursor)" where
  "parse_function_section c m =
     ebind (read_leb_u32 c) (\<lambda>(count, c1).
       if unat count > MAX_FUNCTIONS then Inl (Err ''Function budget exceeded'')
       else ebind (read_times (unat count) (read_type_index m) c1) (\<lambda>(is, c2).
         Inr (m\<lparr>m_function_type_indices := m_function_type_indices m @ is\<rparr>, c2)))"

definition parse_table_section :: "cursor \<Rightarrow> wasm_module \<Rightarrow> error + (wasm_module \<times> cursor)" where
  "parse_table_section c m =
     ebind (read_leb_u32 c) (\<lambda>(count, c1).
       if unat count > MAX_TABLE_ENTRIES then Inl (Err ''Table budget exceeded'')
       else ebind (read_times (unat count) read_table_type c1) (\<lambda>(ts, c2).
         Inr (m\<lparr>m_tables := m_tables m @ ts\<rparr>, c2)))"

definition parse_memory_section :: "cursor \<Rightarrow> wasm_module \<Rightarrow> error + (wasm_module \<times> cursor)" where
  "parse_memory_section c m =
     ebind (read_leb_u32 c) (\<lambda>(count, c1).
       if unat count > 1 then Inl (Err ''Multiple memories are not supported'')
       else ebind (read_times (unat count) read_memory_type c1) (\<lambda>(ts, c2).
         Inr (m\<lparr>m_memories := m_memories m @ ts\<rparr>, c2)))"

definition read_global :: "wasm_global reader" where
  "read_global c =
     ebind (read_global_type c) (\<lambda>(gt, c1). ebind (read_expr c1) (\<lambda>(init, c2).
       Inr (\<lparr>glob_value_type = gt_value_type gt, glob_mutable = gt_mutable gt, glob_init = init\<rparr>, c2)))"

definition parse_global_section :: "cursor \<Rightarrow> wasm_module \<Rightarrow> error + (wasm_module \<times> cursor)" where
  "parse_global_section c m =
     ebind (read_leb_u32 c) (\<lambda>(count, c1).
       if unat count > MAX_GLOBALS then Inl (Err ''Global budget exceeded'')
       else ebind (read_times (unat count) read_global c1) (\<lambda>(gs, c2).
         Inr (m\<lparr>m_globals := m_globals m @ gs\<rparr>, c2)))"

definition read_export :: "wasm_export reader" where
  "read_export c =
     ebind (read_name c) (\<lambda>(nm, c1). ebind (read_u8 c1) (\<lambda>(kind_byte, c2).
       ebind (if kind_byte = 0x00 then Inr ExportFunction
              else if kind_byte = 0x01 then Inr ExportTable
              else if kind_byte = 0x02 then Inr ExportMemory
              else if kind_byte = 0x03 then Inr ExportGlobal
              else Inl (ErrByte ''Invalid export kind'' kind_byte))
         (\<lambda>kind. ebind (read_leb_u32 c2) (\<lambda>(index, c3).
           Inr (\<lparr>exp_name = nm, exp_kind = kind, exp_index = index\<rparr>, c3)))))"

definition parse_export_section :: "cursor \<Rightarrow> wasm_module \<Rightarrow> error + (wasm_module \<times> cursor)" where
  "parse_export_section c m =
     ebind (read_leb_u32 c) (\<lambda>(count, c1).
       if unat count > MAX_EXPORTS then Inl (Err ''Export budget exceeded'')
       else ebind (read_times (unat count) read_export c1) (\<lambda>(es, c2).
         Inr (m\<lparr>m_exports := m_exports m @ es\<rparr>, c2)))"

definition parse_start_section :: "cursor \<Rightarrow> wasm_module \<Rightarrow> error + (wasm_module \<times> cursor)" where
  "parse_start_section c m =
     ebind (read_leb_u32 c) (\<lambda>(start, c1). Inr (m\<lparr>m_start := Some start\<rparr>, c1))"

section \<open>Elements, code and data\<close>

definition read_element :: "element_segment reader" where
  "read_element c =
     ebind (read_leb_u32 c) (\<lambda>(table_index, c1). ebind (read_expr c1) (\<lambda>(offset, c2).
       ebind (read_leb_u32 c2) (\<lambda>(function_count, c3).
         if unat function_count > MAX_TABLE_ENTRIES then Inl (Err ''Element function budget exceeded'')
         else ebind (read_times (unat function_count) read_leb_u32 c3) (\<lambda>(is, c4).
           Inr (\<lparr>es_table_index = table_index, es_offset = offset, es_function_indices = is\<rparr>, c4)))))"

definition parse_element_section :: "cursor \<Rightarrow> wasm_module \<Rightarrow> error + (wasm_module \<times> cursor)" where
  "parse_element_section c m =
     ebind (read_leb_u32 c) (\<lambda>(count, c1).
       if unat count > MAX_TABLE_ENTRIES then Inl (Err ''Element segment budget exceeded'')
       else ebind (read_times (unat count) read_element c1) (\<lambda>(es, c2).
         Inr (m\<lparr>m_elements := m_elements m @ es\<rparr>, c2)))"

text \<open>The local declarations of a body; \<open>so_far\<close> is the saturating \<^verbatim>\<open>u32\<close> count.\<close>

primrec read_locals :: "nat \<Rightarrow> nat \<Rightarrow> local_decl list reader" where
  "read_locals 0 so_far c = Inr ([], c)"
| "read_locals (Suc n) so_far c =
     ebind (read_leb_u32 c) (\<lambda>(count, c1).
       let so_far' = min (so_far + unat count) (2 ^ 32 - 1)
       in if so_far' > MAX_LOCALS_PER_FUNCTION then Inl (Err ''Per-function local budget exceeded'')
          else ebind (read_value_type c1) (\<lambda>(vt, c2).
            if \<not> (vt = TI32 \<or> vt = TI64 \<or> vt = TF32 \<or> vt = TF64)
            then Inl (Err ''Function locals must be numeric types'')
            else ebind (read_locals n so_far' c2) (\<lambda>(ls, c3).
              Inr (\<lparr>ld_count = count, ld_value_type = vt\<rparr> # ls, c3))))"

definition parse_body :: "bytes \<Rightarrow> error + function_body" where
  "parse_body bs =
     ebind (read_leb_u32 (new_cursor bs)) (\<lambda>(group_count, c1).
       if unat group_count > MAX_LOCALS_PER_FUNCTION then Inl (Err ''Local declaration budget exceeded'')
       else ebind (read_locals (unat group_count) 0 c1) (\<lambda>(locals, c2).
         let code = drop (cur_pos c2) (cur_bytes c2)
         in ebind (validate_code code) (\<lambda>depth.
           if depth > MAX_CODE_DEPTH then Inl (Err ''Code nesting depth exceeded'')
           else Inr \<lparr>fb_locals = locals, fb_code = code\<rparr>)))"

definition read_body :: "function_body reader" where
  "read_body c =
     ebind (read_leb_u32 c) (\<lambda>(body_size, c1).
       if unat body_size > cur_remaining c1 then Inl (Err ''Function body extends beyond section'')
       else ebind (parse_body (take (unat body_size) (drop (cur_pos c1) (cur_bytes c1)))) (\<lambda>body.
         Inr (body, c1\<lparr>cur_pos := cur_pos c1 + unat body_size\<rparr>)))"

definition parse_code_section :: "cursor \<Rightarrow> wasm_module \<Rightarrow> error + (wasm_module \<times> cursor)" where
  "parse_code_section c m =
     ebind (read_leb_u32 c) (\<lambda>(count, c1).
       if unat count > MAX_FUNCTIONS then Inl (Err ''Code body budget exceeded'')
       else ebind (read_times (unat count) read_body c1) (\<lambda>(bs, c2).
         Inr (m\<lparr>m_bodies := m_bodies m @ bs\<rparr>, c2)))"

definition read_data :: "data_segment reader" where
  "read_data c =
     ebind (read_leb_u32 c) (\<lambda>(memory_index, c1). ebind (read_expr c1) (\<lambda>(offset, c2).
       ebind (read_leb_u32 c2) (\<lambda>(byte_count, c3).
         if unat byte_count > cur_remaining c3 then Inl (Err ''Data segment extends beyond section'')
         else ebind (read_bytes (unat byte_count) c3) (\<lambda>(bs, c4).
           Inr (\<lparr>ds_memory_index = memory_index, ds_offset = offset, ds_bytes = bs\<rparr>, c4)))))"

definition parse_data_section :: "cursor \<Rightarrow> wasm_module \<Rightarrow> error + (wasm_module \<times> cursor)" where
  "parse_data_section c m =
     ebind (read_leb_u32 c) (\<lambda>(count, c1).
       if unat count > MAX_DATA_SEGMENTS then Inl (Err ''Data segment budget exceeded'')
       else ebind (read_times (unat count) read_data c1) (\<lambda>(ds, c2).
         Inr (m\<lparr>m_data := m_data m @ ds\<rparr>, c2)))"

section \<open>The module\<close>

text \<open>What the section loop carries.\<close>

record parse_state =
  ps_module :: wasm_module
  ps_seen :: "bool list"
  ps_last_section :: u8
  ps_data_count :: "u32 option"

text \<open>The \<^verbatim>\<open>match section_id\<close> of the loop, on the section's own cursor.\<close>

definition parse_section :: "u8 \<Rightarrow> cursor \<Rightarrow> parse_state \<Rightarrow> error + (parse_state \<times> cursor)" where
  "parse_section sid sec ps =
     (if sid = 12 then
        ebind (read_leb_u32 sec) (\<lambda>(count, sec').
          if unat count > MAX_DATA_SEGMENTS then Inl (Err ''Data segment budget exceeded'')
          else Inr (ps\<lparr>ps_data_count := Some count\<rparr>, sec'))
      else ebind
        (if sid = 1 then parse_type_section sec (ps_module ps)
         else if sid = 2 then parse_import_section sec (ps_module ps)
         else if sid = 3 then parse_function_section sec (ps_module ps)
         else if sid = 4 then parse_table_section sec (ps_module ps)
         else if sid = 5 then parse_memory_section sec (ps_module ps)
         else if sid = 6 then parse_global_section sec (ps_module ps)
         else if sid = 7 then parse_export_section sec (ps_module ps)
         else if sid = 8 then parse_start_section sec (ps_module ps)
         else if sid = 9 then parse_element_section sec (ps_module ps)
         else if sid = 10 then parse_code_section sec (ps_module ps)
         else if sid = 11 then parse_data_section sec (ps_module ps)
         else Inl (ErrByte ''Unknown section id'' sid))
        (\<lambda>(m, sec'). Inr (ps\<lparr>ps_module := m\<rparr>, sec')))"

text \<open>The head of a section: its id, checked against the ids seen so far, and its size.\<close>

definition section_header :: "parse_state \<Rightarrow> (u8 \<times> nat) reader" where
  "section_header ps c =
     ebind (read_u8 c) (\<lambda>(sid, c1).
       if sid = 0 then Inl (Err ''Custom sections are not supported'')
       else if sid > 12 then Inl (ErrByte ''Unknown section id'' sid)
       else if ps_seen ps ! unat sid then Inl (ErrByte ''Duplicate section'' sid)
       else if sid < ps_last_section ps \<and> sid \<noteq> 10 then Inl (ErrByte ''Out-of-order section'' sid)
       else ebind (read_leb_u32 c1) (\<lambda>(size, c2).
         if unat size > cur_remaining c2 then Inl (Err ''Section extends beyond module end'')
         else Inr ((sid, unat size), c2)))"

text \<open>One turn of the section loop.\<close>

definition section_step :: "cursor \<Rightarrow> parse_state \<Rightarrow> error + (parse_state \<times> cursor)" where
  "section_step c ps =
     ebind (section_header ps c) (\<lambda>((sid, size), c2).
       let ps1 = ps\<lparr>ps_seen := (ps_seen ps)[unat sid := True], ps_last_section := sid\<rparr>;
           sec = new_cursor (take size (drop (cur_pos c2) (cur_bytes c2)))
       in ebind (parse_section sid sec ps1) (\<lambda>(ps2, sec').
            if \<not> cur_is_empty sec' then Inl (ErrByte ''Section has trailing bytes'' sid)
            else Inr (ps2, c2\<lparr>cur_pos := cur_pos c2 + size\<rparr>)))"

lemma section_header_advances:
  "section_header ps c = Inr ((sid, sz), c') \<Longrightarrow> advances 1 c c' \<and> sz \<le> cur_remaining c'"
  by (auto simp: section_header_def result_simps
      dest!: byte_reader.read_advances leb_u32.read_advances intro: advances_0_trans)

lemma section_step_advances: "section_step c ps = Inr (ps', c') \<Longrightarrow> advances 1 c c'"
  by (auto simp: section_step_def Let_def result_simps advances_def cur_remaining_def
      dest!: section_header_advances)

function section_loop :: "cursor \<Rightarrow> parse_state \<Rightarrow> error + parse_state" where
  "section_loop c ps =
     (if cur_is_empty c then Inr ps
      else ebind (section_step c ps) (\<lambda>(ps', c'). section_loop c' ps'))"
  by pat_completeness auto
termination
  by (relation "measure (\<lambda>(c, ps). length (cur_bytes c) - cur_pos c)")
    (auto simp: advances_def cur_is_empty_def dest!: section_step_advances)

declare section_loop.simps [simp del]

definition is_function_import :: "wasm_import \<Rightarrow> bool" where
  "is_function_import i = (case imp_kind i of ImportFunction _ \<Rightarrow> True | _ \<Rightarrow> False)"

definition export_in_range :: "wasm_module \<Rightarrow> wasm_export \<Rightarrow> bool" where
  "export_in_range m e =
     (case exp_kind e of
        ExportFunction \<Rightarrow> exp_index e < m_total_functions m
      | ExportGlobal \<Rightarrow> exp_index e < of_nat (length (m_globals m))
      | ExportTable \<Rightarrow> exp_index e < of_nat (length (m_tables m))
      | ExportMemory \<Rightarrow> exp_index e < of_nat (length (m_memories m)))"

definition export_error :: "wasm_export \<Rightarrow> error" where
  "export_error e =
     (case exp_kind e of
        ExportFunction \<Rightarrow> Err ''Export function index out of range''
      | ExportGlobal \<Rightarrow> Err ''Export global index out of range''
      | ExportTable \<Rightarrow> Err ''Export table index out of range''
      | ExportMemory \<Rightarrow> Err ''Export memory index out of range'')"

primrec check_exports :: "wasm_module \<Rightarrow> wasm_export list \<Rightarrow> error + unit" where
  "check_exports m [] = Inr ()"
| "check_exports m (e # es) = (if export_in_range m e then check_exports m es else Inl (export_error e))"

text \<open>The cross-section checks after the loop.\<close>

definition check_module :: "parse_state \<Rightarrow> error + wasm_module" where
  "check_module ps =
     (let m0 = ps_module ps;
          imported = (of_nat (length (filter is_function_import (m_imports m0))) :: u32);
          m = m0\<lparr>m_total_functions := imported + of_nat (length (m_function_type_indices m0))\<rparr>
      in if unat (m_total_functions m) > MAX_FUNCTIONS then Inl (Err ''Function budget exceeded'')
         else if length (m_bodies m) \<noteq> length (m_function_type_indices m)
         then Inl (Err ''Code section does not match function section'')
         else if (case m_start m of None \<Rightarrow> False | Some s \<Rightarrow> s \<ge> m_total_functions m)
         then Inl (Err ''Start function index out of range'')
         else if length (m_memories m) > 1 then Inl (Err ''Multiple memories are not supported'')
         else if (case ps_data_count ps of None \<Rightarrow> False | Some d \<Rightarrow> unat d \<noteq> length (m_data m))
         then Inl (Err ''Data count does not match data section'')
         else ebind (check_exports m (m_exports m)) (\<lambda>_. Inr m))"

definition parse_module :: "bytes \<Rightarrow> error + wasm_module" where
  "parse_module bs =
     (if length bs > MAX_MODULE_BYTES then Inl (Err ''WASM module exceeds 8 MB'')
      else ebind (read_bytes 4 (new_cursor bs)) (\<lambda>(magic, c1).
        if magic \<noteq> [0x00, 0x61, 0x73, 0x6D] then Inl (Err ''Invalid WASM magic'')
        else ebind (read_bytes 4 c1) (\<lambda>(version, c2).
          if version \<noteq> [0x01, 0x00, 0x00, 0x00] then Inl (Err ''Unsupported WASM version'')
          else ebind (section_loop c2 \<lparr>ps_module = empty_module, ps_seen = replicate 13 False,
                  ps_last_section = 0, ps_data_count = None\<rparr>)
            check_module)))"

section \<open>What a successful parse establishes\<close>












text \<open>A section that was not seen has left its list empty, so a budget checked on the
  section's own count bounds the whole list.\<close>

definition empty_unless :: "bool list \<Rightarrow> nat \<Rightarrow> 'a list \<Rightarrow> bool" where
  "empty_unless seen i xs \<longleftrightarrow> seen ! i \<or> xs = []"

lemma empty_unless_mark [simp]:
  "i < length seen \<Longrightarrow> empty_unless (seen[i := True]) i xs"
  "i \<noteq> j \<Longrightarrow> empty_unless (seen[i := True]) j xs \<longleftrightarrow> empty_unless seen j xs"
  by (simp_all add: empty_unless_def)

lemma empty_unless_unseen [simp]: "\<not> seen ! i \<Longrightarrow> empty_unless seen i xs \<longleftrightarrow> xs = []"
  by (simp add: empty_unless_def)





































lemma read_locals_numeral [eval_simps]:
  "read_locals (numeral n) so_far c =
     ebind (read_leb_u32 c) (\<lambda>(count, c1).
       let so_far' = min (so_far + unat count) (2 ^ 32 - 1)
       in if so_far' > MAX_LOCALS_PER_FUNCTION then Inl (Err ''Per-function local budget exceeded'')
          else ebind (read_value_type c1) (\<lambda>(vt, c2).
            if \<not> (vt = TI32 \<or> vt = TI64 \<or> vt = TF32 \<or> vt = TF64)
            then Inl (Err ''Function locals must be numeric types'')
            else ebind (read_locals (pred_numeral n) so_far' c2) (\<lambda>(ls, c3).
              Inr (\<lparr>ld_count = count, ld_value_type = vt\<rparr> # ls, c3))))"
  by (simp only: numeral_eq_Suc read_locals.simps)

lemmas [eval_simps] = read_value_type_def read_value_type_vec_def read_func_type_def
  parse_type_section_def read_limits_def read_table_type_def read_memory_type_def
  read_global_type_def read_import_def parse_import_section_def read_type_index_def
  parse_function_section_def parse_table_section_def parse_memory_section_def read_global_def
  parse_global_section_def read_export_def parse_export_section_def parse_start_section_def
  read_element_def parse_element_section_def parse_body_def read_body_def parse_code_section_def
  read_data_def parse_data_section_def parse_section_def section_header_def section_step_def
  section_loop.simps is_function_import_def export_in_range_def check_module_def parse_module_def




end
