(* ===== verification/Soft_Float.thy ===== *)
theory Soft_Float
  imports Prelude
begin

text \<open>
  The IEEE 754 arithmetic of Rust's \<^verbatim>\<open>f32\<close> and \<^verbatim>\<open>f64\<close> on bit patterns, as far as the
  WebAssembly interpreter uses it: \<^verbatim>\<open>+ - * /\<close>, \<^verbatim>\<open>sqrt\<close>, the four roundings to an integral
  value, the comparisons, the sign operations and the conversions. A finite number is decoded to
  \<open>\<plusminus> m * 2 ^ e\<close> with \<open>m\<close> a natural number; every operation computes the exact result and rounds
  once, to nearest with ties to even. Rust leaves the payload of a NaN that an operation produces
  open; a \<open>nan_env\<close> is the choice the target makes, a parameter of the model.
\<close>

section \<open>Formats and decoding\<close>

record float_format =
  ff_mant :: nat  \<comment> \<open>explicit significand bits\<close>
  ff_exp :: nat   \<comment> \<open>exponent bits\<close>

definition f32_format :: float_format where
  "f32_format = \<lparr>ff_mant = 23, ff_exp = 8\<rparr>"

definition f64_format :: float_format where
  "f64_format = \<lparr>ff_mant = 52, ff_exp = 11\<rparr>"

datatype fp_value = FNaN | FInf bool | FFin bool nat int

definition fp_bias :: "float_format \<Rightarrow> int" where
  "fp_bias f = 2 ^ (ff_exp f - 1) - 1"

text \<open>The exponent of the least significant bit of a subnormal number.\<close>

definition fp_emin :: "float_format \<Rightarrow> int" where
  "fp_emin f = 1 - fp_bias f - int (ff_mant f)"

definition fp_inf_bits :: "float_format \<Rightarrow> nat" where
  "fp_inf_bits f = (2 ^ ff_exp f - 1) * 2 ^ ff_mant f"

definition fp_sign_bit :: "float_format \<Rightarrow> nat" where
  "fp_sign_bit f = 2 ^ (ff_mant f + ff_exp f)"

definition fp_sign :: "float_format \<Rightarrow> nat \<Rightarrow> bool" where
  "fp_sign f b \<longleftrightarrow> fp_sign_bit f \<le> b"

definition fp_magnitude :: "float_format \<Rightarrow> nat \<Rightarrow> nat" where
  "fp_magnitude f b = (if fp_sign f b then b - fp_sign_bit f else b)"

definition fp_is_nan :: "float_format \<Rightarrow> nat \<Rightarrow> bool" where
  "fp_is_nan f b \<longleftrightarrow> fp_inf_bits f < fp_magnitude f b"

definition fp_decode :: "float_format \<Rightarrow> nat \<Rightarrow> fp_value" where
  "fp_decode f b =
     (let s = fp_sign f b; g = fp_magnitude f b; ex = g div 2 ^ ff_mant f; fr = g mod 2 ^ ff_mant f
      in if fp_inf_bits f < g then FNaN
         else if g = fp_inf_bits f then FInf s
         else if ex = 0 then FFin s fr (fp_emin f)
         else FFin s (2 ^ ff_mant f + fr) (fp_emin f + int ex - 1))"

definition fp_with_sign :: "float_format \<Rightarrow> bool \<Rightarrow> nat \<Rightarrow> nat" where
  "fp_with_sign f s g = (if s then fp_sign_bit f + g else g)"

section \<open>Rounding\<close>

fun bit_length :: "nat \<Rightarrow> nat" where
  "bit_length n = (if n = 0 then 0 else Suc (bit_length (n div 2)))"

declare bit_length.simps [simp del]

text \<open>\<open>n / 2 ^ k\<close> to nearest, ties to even.\<close>

definition round_shift :: "nat \<Rightarrow> nat \<Rightarrow> nat" where
  "round_shift n k =
     (if k = 0 then n
      else let q = n div 2 ^ k; r = n mod 2 ^ k; h = 2 ^ (k - 1)
           in if h < r \<or> (r = h \<and> odd q) then q + 1 else q)"

text \<open>The bits of \<open>\<plusminus> m * 2 ^ e\<close> rounded into the format. The significand of a normal result has
  \<open>ff_mant + 1\<close> bits; adding it to the exponent field without its hidden bit lets a carry of the
  rounding reach the exponent, and an exponent field past the largest one is infinity.\<close>

definition fp_round :: "float_format \<Rightarrow> bool \<Rightarrow> nat \<Rightarrow> int \<Rightarrow> nat" where
  "fp_round f s m e =
     (if m = 0 then fp_with_sign f s 0
      else let q = max (e + int (bit_length m) - int (ff_mant f + 1)) (fp_emin f);
               sig = (if q \<le> e then m * 2 ^ nat (e - q) else round_shift m (nat (q - e)));
               g = nat (q - fp_emin f) * 2 ^ ff_mant f + sig
           in fp_with_sign f s (min g (fp_inf_bits f)))"

section \<open>Arithmetic\<close>

text \<open>\<open>None\<close> stands for a NaN.\<close>

definition fp_bits :: "float_format \<Rightarrow> fp_value \<Rightarrow> nat option" where
  "fp_bits f v = (case v of FNaN \<Rightarrow> None | FInf s \<Rightarrow> Some (fp_with_sign f s (fp_inf_bits f))
     | FFin s m e \<Rightarrow> Some (fp_round f s m e))"

definition signed_int :: "bool \<Rightarrow> nat \<Rightarrow> int" where
  "signed_int s m = (if s then - int m else int m)"

definition fin_add :: "bool \<Rightarrow> nat \<Rightarrow> int \<Rightarrow> bool \<Rightarrow> nat \<Rightarrow> int \<Rightarrow> fp_value" where
  "fin_add s m e s' m' e' =
     (let lo = min e e';
          x = signed_int s (m * 2 ^ nat (e - lo)) + signed_int s' (m' * 2 ^ nat (e' - lo))
      in if x = 0 then FFin (s \<and> s') 0 lo else FFin (x < 0) (nat \<bar>x\<bar>) lo)"

fun val_add :: "fp_value \<Rightarrow> fp_value \<Rightarrow> fp_value" where
  "val_add FNaN y = FNaN"
| "val_add x FNaN = FNaN"
| "val_add (FInf s) (FInf s') = (if s = s' then FInf s else FNaN)"
| "val_add (FInf s) (FFin _ _ _) = FInf s"
| "val_add (FFin _ _ _) (FInf s) = FInf s"
| "val_add (FFin s m e) (FFin s' m' e') = fin_add s m e s' m' e'"

fun val_neg :: "fp_value \<Rightarrow> fp_value" where
  "val_neg FNaN = FNaN"
| "val_neg (FInf s) = FInf (\<not> s)"
| "val_neg (FFin s m e) = FFin (\<not> s) m e"

fun val_mul :: "fp_value \<Rightarrow> fp_value \<Rightarrow> fp_value" where
  "val_mul FNaN y = FNaN"
| "val_mul x FNaN = FNaN"
| "val_mul (FInf s) (FInf s') = FInf (s \<noteq> s')"
| "val_mul (FInf s) (FFin s' m e) = (if m = 0 then FNaN else FInf (s \<noteq> s'))"
| "val_mul (FFin s m e) (FInf s') = (if m = 0 then FNaN else FInf (s \<noteq> s'))"
| "val_mul (FFin s m e) (FFin s' m' e') = FFin (s \<noteq> s') (m * m') (e + e')"

text \<open>The quotient of two significands with \<open>k\<close> more bits, the last of them sticky: set when the
  division leaves a remainder, so that the rounding sees on which side of a tie the value lies.\<close>

definition sticky_div :: "nat \<Rightarrow> nat \<Rightarrow> nat \<Rightarrow> nat" where
  "sticky_div k a b = 2 * (a * 2 ^ k div b) + (if a * 2 ^ k mod b = 0 then 0 else 1)"

fun val_div :: "nat \<Rightarrow> fp_value \<Rightarrow> fp_value \<Rightarrow> fp_value" where
  "val_div k FNaN y = FNaN"
| "val_div k x FNaN = FNaN"
| "val_div k (FInf s) (FInf s') = FNaN"
| "val_div k (FInf s) (FFin s' m e) = FInf (s \<noteq> s')"
| "val_div k (FFin s m e) (FInf s') = FFin (s \<noteq> s') 0 0"
| "val_div k (FFin s m e) (FFin s' m' e') =
     (if m' = 0 then (if m = 0 then FNaN else FInf (s \<noteq> s'))
      else FFin (s \<noteq> s') (sticky_div k m m') (e - e' - int k - 1))"

fun isqrt :: "nat \<Rightarrow> nat" where
  "isqrt n = (if n = 0 then 0
     else let r = 2 * isqrt (n div 4) in if (r + 1) * (r + 1) \<le> n then r + 1 else r)"

declare isqrt.simps [simp del]

definition sticky_sqrt :: "nat \<Rightarrow> nat" where
  "sticky_sqrt n = (let r = isqrt n in 2 * r + (if r * r = n then 0 else 1))"

fun val_sqrt :: "nat \<Rightarrow> fp_value \<Rightarrow> fp_value" where
  "val_sqrt k FNaN = FNaN"
| "val_sqrt k (FInf s) = (if s then FNaN else FInf False)"
| "val_sqrt k (FFin s m e) =
     (if m = 0 then FFin s 0 e
      else if s then FNaN
      else let j = 2 * k + (if even e then 0 else 1)
           in FFin False (sticky_sqrt (m * 2 ^ j)) ((e - int j) div 2 - 1))"

section \<open>Integral values\<close>

datatype rounding = RCeil | RFloor | RTrunc | RNearest

text \<open>\<open>m / 2 ^ k\<close> rounded to an integer, for the sign \<open>s\<close>.\<close>

definition integral_part :: "rounding \<Rightarrow> bool \<Rightarrow> nat \<Rightarrow> nat \<Rightarrow> nat" where
  "integral_part r s m k =
     (let q = m div 2 ^ k; exact = (m mod 2 ^ k = 0)
      in case r of
           RTrunc \<Rightarrow> q
         | RCeil \<Rightarrow> (if exact \<or> s then q else q + 1)
         | RFloor \<Rightarrow> (if exact \<or> \<not> s then q else q + 1)
         | RNearest \<Rightarrow> round_shift m k)"

fun val_round :: "rounding \<Rightarrow> fp_value \<Rightarrow> fp_value" where
  "val_round r FNaN = FNaN"
| "val_round r (FInf s) = FInf s"
| "val_round r (FFin s m e) =
     (if 0 \<le> e then FFin s m e else FFin s (integral_part r s m (nat (- e))) 0)"

section \<open>Comparisons\<close>

text \<open>Numbers that are not NaN are ordered as the signed magnitudes of their bits; both zeros are 0.\<close>

definition fp_key :: "float_format \<Rightarrow> nat \<Rightarrow> int" where
  "fp_key f b = signed_int (fp_sign f b) (fp_magnitude f b)"

definition fp_lt :: "float_format \<Rightarrow> nat \<Rightarrow> nat \<Rightarrow> bool" where
  "fp_lt f a b \<longleftrightarrow> \<not> fp_is_nan f a \<and> \<not> fp_is_nan f b \<and> fp_key f a < fp_key f b"

definition fp_eq :: "float_format \<Rightarrow> nat \<Rightarrow> nat \<Rightarrow> bool" where
  "fp_eq f a b \<longleftrightarrow> \<not> fp_is_nan f a \<and> \<not> fp_is_nan f b \<and> fp_key f a = fp_key f b"

definition fp_le :: "float_format \<Rightarrow> nat \<Rightarrow> nat \<Rightarrow> bool" where
  "fp_le f a b \<longleftrightarrow> fp_lt f a b \<or> fp_eq f a b"

section \<open>The two types\<close>

type_synonym f32 = u32
type_synonym f64 = u64

record nan_env =
  ne_f32 :: "f32 list \<Rightarrow> f32"
  ne_f64 :: "f64 list \<Rightarrow> f64"

definition f32_value :: "f32 \<Rightarrow> fp_value" where
  "f32_value a = fp_decode f32_format (unat a)"

definition f64_value :: "f64 \<Rightarrow> fp_value" where
  "f64_value a = fp_decode f64_format (unat a)"

definition f32_is_nan :: "f32 \<Rightarrow> bool" where
  "f32_is_nan a \<longleftrightarrow> fp_is_nan f32_format (unat a)"

definition f64_is_nan :: "f64 \<Rightarrow> bool" where
  "f64_is_nan a \<longleftrightarrow> fp_is_nan f64_format (unat a)"

text \<open>The documented guarantee of the target's choice: a NaN result is a NaN.\<close>

definition nan_env_ok :: "nan_env \<Rightarrow> bool" where
  "nan_env_ok ne \<longleftrightarrow> (\<forall>xs. f32_is_nan (ne_f32 ne xs)) \<and> (\<forall>xs. f64_is_nan (ne_f64 ne xs))"

definition f32_result :: "nan_env \<Rightarrow> f32 list \<Rightarrow> fp_value \<Rightarrow> f32" where
  "f32_result ne xs v = (case fp_bits f32_format v of None \<Rightarrow> ne_f32 ne xs | Some b \<Rightarrow> of_nat b)"

definition f64_result :: "nan_env \<Rightarrow> f64 list \<Rightarrow> fp_value \<Rightarrow> f64" where
  "f64_result ne xs v = (case fp_bits f64_format v of None \<Rightarrow> ne_f64 ne xs | Some b \<Rightarrow> of_nat b)"

definition f32_add :: "nan_env \<Rightarrow> f32 \<Rightarrow> f32 \<Rightarrow> f32" where
  "f32_add ne a b = f32_result ne [a, b] (val_add (f32_value a) (f32_value b))"
definition f32_sub :: "nan_env \<Rightarrow> f32 \<Rightarrow> f32 \<Rightarrow> f32" where
  "f32_sub ne a b = f32_result ne [a, b] (val_add (f32_value a) (val_neg (f32_value b)))"
definition f32_mul :: "nan_env \<Rightarrow> f32 \<Rightarrow> f32 \<Rightarrow> f32" where
  "f32_mul ne a b = f32_result ne [a, b] (val_mul (f32_value a) (f32_value b))"
definition f32_div :: "nan_env \<Rightarrow> f32 \<Rightarrow> f32 \<Rightarrow> f32" where
  "f32_div ne a b = f32_result ne [a, b] (val_div 50 (f32_value a) (f32_value b))"
definition f32_sqrt :: "nan_env \<Rightarrow> f32 \<Rightarrow> f32" where
  "f32_sqrt ne a = f32_result ne [a] (val_sqrt 26 (f32_value a))"
definition f32_integral :: "rounding \<Rightarrow> nan_env \<Rightarrow> f32 \<Rightarrow> f32" where
  "f32_integral r ne a = f32_result ne [a] (val_round r (f32_value a))"

definition f64_add :: "nan_env \<Rightarrow> f64 \<Rightarrow> f64 \<Rightarrow> f64" where
  "f64_add ne a b = f64_result ne [a, b] (val_add (f64_value a) (f64_value b))"
definition f64_sub :: "nan_env \<Rightarrow> f64 \<Rightarrow> f64 \<Rightarrow> f64" where
  "f64_sub ne a b = f64_result ne [a, b] (val_add (f64_value a) (val_neg (f64_value b)))"
definition f64_mul :: "nan_env \<Rightarrow> f64 \<Rightarrow> f64 \<Rightarrow> f64" where
  "f64_mul ne a b = f64_result ne [a, b] (val_mul (f64_value a) (f64_value b))"
definition f64_div :: "nan_env \<Rightarrow> f64 \<Rightarrow> f64 \<Rightarrow> f64" where
  "f64_div ne a b = f64_result ne [a, b] (val_div 110 (f64_value a) (f64_value b))"
definition f64_sqrt :: "nan_env \<Rightarrow> f64 \<Rightarrow> f64" where
  "f64_sqrt ne a = f64_result ne [a] (val_sqrt 56 (f64_value a))"
definition f64_integral :: "rounding \<Rightarrow> nan_env \<Rightarrow> f64 \<Rightarrow> f64" where
  "f64_integral r ne a = f64_result ne [a] (val_round r (f64_value a))"

text \<open>The sign operations work on the bits, NaNs included.\<close>

definition f32_abs :: "f32 \<Rightarrow> f32" where "f32_abs a = and a 0x7FFFFFFF"
definition f32_neg :: "f32 \<Rightarrow> f32" where "f32_neg a = xor a 0x80000000"
definition f32_copysign :: "f32 \<Rightarrow> f32 \<Rightarrow> f32" where
  "f32_copysign a b = or (and a 0x7FFFFFFF) (and b 0x80000000)"
definition f32_sign_negative :: "f32 \<Rightarrow> bool" where
  "f32_sign_negative a \<longleftrightarrow> and a 0x80000000 \<noteq> 0"

definition f64_abs :: "f64 \<Rightarrow> f64" where "f64_abs a = and a 0x7FFFFFFFFFFFFFFF"
definition f64_neg :: "f64 \<Rightarrow> f64" where "f64_neg a = xor a 0x8000000000000000"
definition f64_copysign :: "f64 \<Rightarrow> f64 \<Rightarrow> f64" where
  "f64_copysign a b = or (and a 0x7FFFFFFFFFFFFFFF) (and b 0x8000000000000000)"
definition f64_sign_negative :: "f64 \<Rightarrow> bool" where
  "f64_sign_negative a \<longleftrightarrow> and a 0x8000000000000000 \<noteq> 0"

definition f32_lt :: "f32 \<Rightarrow> f32 \<Rightarrow> bool" where "f32_lt a b \<longleftrightarrow> fp_lt f32_format (unat a) (unat b)"
definition f32_eq :: "f32 \<Rightarrow> f32 \<Rightarrow> bool" where "f32_eq a b \<longleftrightarrow> fp_eq f32_format (unat a) (unat b)"
definition f32_le :: "f32 \<Rightarrow> f32 \<Rightarrow> bool" where "f32_le a b \<longleftrightarrow> fp_le f32_format (unat a) (unat b)"
definition f64_lt :: "f64 \<Rightarrow> f64 \<Rightarrow> bool" where "f64_lt a b \<longleftrightarrow> fp_lt f64_format (unat a) (unat b)"
definition f64_eq :: "f64 \<Rightarrow> f64 \<Rightarrow> bool" where "f64_eq a b \<longleftrightarrow> fp_eq f64_format (unat a) (unat b)"
definition f64_le :: "f64 \<Rightarrow> f64 \<Rightarrow> bool" where "f64_le a b \<longleftrightarrow> fp_le f64_format (unat a) (unat b)"

text \<open>Conversions: \<^verbatim>\<open>a as f64\<close>, \<^verbatim>\<open>a as f32\<close> and \<^verbatim>\<open>i as f32\<close>, \<^verbatim>\<open>i as f64\<close>.\<close>

definition f64_promote :: "nan_env \<Rightarrow> f32 \<Rightarrow> f64" where
  "f64_promote ne a = f64_result ne [ucast a] (f32_value a)"
definition f32_demote :: "nan_env \<Rightarrow> f64 \<Rightarrow> f32" where
  "f32_demote ne a = f32_result ne [ucast a] (f64_value a)"
definition int_to_f32 :: "int \<Rightarrow> f32" where
  "int_to_f32 i = of_nat (fp_round f32_format (i < 0) (nat \<bar>i\<bar>) 0)"
definition int_to_f64 :: "int \<Rightarrow> f64" where
  "int_to_f64 i = of_nat (fp_round f64_format (i < 0) (nat \<bar>i\<bar>) 0)"

text \<open>The integer a number truncates to; \<open>None\<close> for NaN and the infinities.\<close>

definition trunc_int :: "fp_value \<Rightarrow> int option" where
  "trunc_int v = (case v of FFin s m e \<Rightarrow>
     Some (signed_int s (if 0 \<le> e then m * 2 ^ nat e else m div 2 ^ nat (- e))) | _ \<Rightarrow> None)"

end
