(* ===== verification/Wasm_Instance.thy ===== *)
theory Wasm_Instance
  imports Wasm_Parser Soft_Float
begin

text \<open>
  The instance of a validated module (first half of \<^verbatim>\<open>src/src/wasm_interp.rs\<close>): its
  linear memory with the bounded host accesses, its globals and function table, the constant
  expressions that initialise them and \<^verbatim>\<open>WasmInstance::instantiate\<close>. The invariant
  \<open>instance_ok\<close> is what every later operation relies on.
\<close>

section \<open>Values and instances\<close>

datatype wasm_value = I32 u32 | I64 u64 | F32 f32 | F64 f64

definition MAX_INTERPRETER_STEPS :: nat where "MAX_INTERPRETER_STEPS = 1000000"
definition MAX_MEMORY_BYTES :: nat where "MAX_MEMORY_BYTES = 16777216"
definition MAX_CALL_DEPTH_WASM :: nat where "MAX_CALL_DEPTH_WASM = 256"
definition MAX_STACK_VALUES :: nat where "MAX_STACK_VALUES = 10000"
definition MAX_LABELS :: nat where "MAX_LABELS = 1024"
definition PAGE_SIZE :: nat where "PAGE_SIZE = 65536"

lemmas interp_limits = MAX_INTERPRETER_STEPS_def MAX_MEMORY_BYTES_def MAX_CALL_DEPTH_WASM_def
  MAX_STACK_VALUES_def MAX_LABELS_def PAGE_SIZE_def

record wasm_instance =
  wi_module :: wasm_module
  wi_globals :: "wasm_value list"
  wi_memory :: bytes
  wi_table :: "u32 option list"

section \<open>Host access to the memory\<close>

definition write_memory :: "nat \<Rightarrow> bytes \<Rightarrow> wasm_instance \<Rightarrow> error + wasm_instance" where
  "write_memory offset bs i =
     ebind (ok_or (Err ''Memory write offset overflow'') (checked_add offset (length bs))) (\<lambda>end.
       if end > length (wi_memory i) \<or> length (wi_memory i) > MAX_MEMORY_BYTES
       then Inl (Err ''Memory write out of bounds'')
       else Inr (i\<lparr>wi_memory := splice (wi_memory i) offset bs\<rparr>))"

definition read_memory :: "nat \<Rightarrow> nat \<Rightarrow> wasm_instance \<Rightarrow> error + bytes" where
  "read_memory offset len i =
     ebind (ok_or (Err ''Memory read offset overflow'') (checked_add offset len)) (\<lambda>end.
       ok_or (Err ''Memory read out of bounds'') (get_range (wi_memory i) offset end))"

text \<open>\<^verbatim>\<open>self.memory.resize(new_len, 0)\<close> for a length that is not below the old one.\<close>

definition resize_memory :: "nat \<Rightarrow> wasm_instance \<Rightarrow> wasm_instance" where
  "resize_memory n i = i\<lparr>wi_memory := take n (wi_memory i) @ replicate (n - length (wi_memory i)) 0\<rparr>"

definition grow_memory :: "u32 \<Rightarrow> wasm_instance \<Rightarrow> error + (u32 \<times> wasm_instance)" where
  "grow_memory delta_pages i =
     (let old_pages = (of_nat (length (wi_memory i) div PAGE_SIZE) :: u32)
      in ebind (ok_or (Err ''Memory growth overflow'') (checked_mul (unat delta_pages) PAGE_SIZE)) (\<lambda>delta_bytes.
         ebind (ok_or (Err ''Memory growth overflow'') (checked_add (length (wi_memory i)) delta_bytes)) (\<lambda>new_len.
           if new_len > MAX_MEMORY_BYTES then Inl (Err ''Memory growth exceeds 16 MiB'')
           else Inr (old_pages, resize_memory new_len i))))"

definition memory_bytes :: "wasm_instance \<Rightarrow> nat" where
  "memory_bytes i = length (wi_memory i)"

section \<open>Functions of an instance\<close>

definition imported_function_count :: "wasm_module \<Rightarrow> nat" where
  "imported_function_count m = length (filter is_function_import (m_imports m))"

text \<open>Imported functions take the first indices; the others index the defined bodies.\<close>

definition defined_body_index :: "wasm_module \<Rightarrow> u32 \<Rightarrow> nat option" where
  "defined_body_index m function_index =
     (let imported = imported_function_count m; idx = unat function_index
      in if idx < imported then None else Some (idx - imported))"

text \<open>The search for the \<open>idx\<close>-th function import; \<open>seen\<close> counts those passed.\<close>

fun import_type_index :: "wasm_import list \<Rightarrow> nat \<Rightarrow> nat \<Rightarrow> u32 option" where
  "import_type_index [] idx seen = None"
| "import_type_index (imp # imps) idx seen =
     (case imp_kind imp of
        ImportFunction type_index \<Rightarrow>
          if seen = idx then Some type_index else import_type_index imps idx (seen + 1)
      | _ \<Rightarrow> import_type_index imps idx seen)"

definition function_type :: "wasm_module \<Rightarrow> u32 \<Rightarrow> func_type option" where
  "function_type m function_index =
     (let idx = unat function_index; imported = imported_function_count m
      in if idx < imported then
           (case import_type_index (m_imports m) idx 0 of
              None \<Rightarrow> None
            | Some type_index \<Rightarrow> get_at (m_types m) (unat type_index))
         else
           (case get_at (m_function_type_indices m) (idx - imported) of
              None \<Rightarrow> None
            | Some type_index \<Rightarrow> get_at (m_types m) (unat type_index)))"

fun find_export :: "wasm_export list \<Rightarrow> bytes \<Rightarrow> u32 option" where
  "find_export [] name = None"
| "find_export (e # es) name =
     (if exp_name e = name \<and> exp_kind e = ExportFunction then Some (exp_index e) else find_export es name)"

definition exported_function :: "wasm_instance \<Rightarrow> bytes \<Rightarrow> u32 option" where
  "exported_function i name = find_export (m_exports (wi_module i)) name"

section \<open>Constant expressions\<close>

text \<open>One instruction of a constant expression that is not \<^verbatim>\<open>end\<close>.\<close>

definition const_value :: "wasm_value list \<Rightarrow> u8 \<Rightarrow> wasm_value reader" where
  "const_value globals opcode c =
     (if opcode = 0x41 then ebind (read_leb_i32 c) (\<lambda>(v, c'). Inr (I32 v, c'))
      else if opcode = 0x42 then ebind (read_leb_i64 c) (\<lambda>(v, c'). Inr (I64 v, c'))
      else if opcode = 0x43 then ebind (read_bytes 4 c) (\<lambda>(bs, c'). Inr (F32 (ucast (from_le_bytes bs)), c'))
      else if opcode = 0x44 then ebind (read_bytes 8 c) (\<lambda>(bs, c'). Inr (F64 (from_le_bytes bs), c'))
      else if opcode = 0x23 then
        ebind (read_leb_u32 c) (\<lambda>(index, c').
          ebind (ok_or (Err ''Global index out of range'') (get_at globals (unat index))) (\<lambda>v. Inr (v, c')))
      else Inl (ErrByte ''Unsupported const opcode'' opcode))"

lemma const_value_advances: "const_value gs op c = Inr (v, c') \<Longrightarrow> advances 0 c c'"
  by (auto simp: const_value_def result_simps split: if_splits
      dest!: leb_i32.read_advances leb_i64.read_advances read_bytes_advances leb_u32.read_advances
      intro: advances_weaken)

function const_expr_loop :: "wasm_value list \<Rightarrow> wasm_value option \<Rightarrow> cursor \<Rightarrow> error + wasm_value option" where
  "const_expr_loop globals value c =
     (if cur_is_empty c then Inr value
      else ebind (read_u8 c) (\<lambda>(opcode, c1).
        if opcode = 0x0B then Inr value
        else ebind (const_value globals opcode c1) (\<lambda>(v, c2). const_expr_loop globals (Some v) c2)))"
  by pat_completeness auto
termination
  by (relation "measure (\<lambda>(gs, v, c). length (cur_bytes c) - cur_pos c)")
    (auto simp: advances_def read_u8_def result_simps cur_is_empty_def dest!: const_value_advances)

declare const_expr_loop.simps [simp del]

definition eval_const_expr :: "wasm_value list \<Rightarrow> bytes \<Rightarrow> error + wasm_value" where
  "eval_const_expr globals expr =
     ebind (const_expr_loop globals None (new_cursor expr)) (\<lambda>value.
       ok_or (Err ''Constant expression produced no value'') value)"

section \<open>Instantiation\<close>

definition initial_table :: "wasm_module \<Rightarrow> error + u32 option list" where
  "initial_table m =
     (case m_tables m of
        [] \<Rightarrow> Inr []
      | t # _ \<Rightarrow>
          let entries = unat (lim_min (tt_limits t))
          in if entries > MAX_TABLE_ENTRIES then Inl (Err ''Table exceeds budget'')
             else Inr (replicate entries None))"

definition initial_memory :: "wasm_module \<Rightarrow> error + nat" where
  "initial_memory m =
     (let memory_pages = (case m_memories m of [] \<Rightarrow> 0 | mem # _ \<Rightarrow> unat (lim_min (mt_limits mem)))
      in ebind (ok_or (Err ''Memory size overflow'') (checked_mul memory_pages PAGE_SIZE)) (\<lambda>memory_bytes.
           if memory_bytes > MAX_MEMORY_BYTES then Inl (Err ''Memory exceeds 16 MiB'')
           else Inr memory_bytes))"

text \<open>Each global initialiser sees the globals before it.\<close>

fun init_globals :: "wasm_global list \<Rightarrow> wasm_value list \<Rightarrow> error + wasm_value list" where
  "init_globals [] globals = Inr globals"
| "init_globals (g # gs) globals =
     ebind (eval_const_expr globals (glob_init g)) (\<lambda>value. init_globals gs (globals @ [value]))"

definition segment_base :: "string \<Rightarrow> wasm_value list \<Rightarrow> bytes \<Rightarrow> error + nat" where
  "segment_base msg globals offset =
     ebind (eval_const_expr globals offset) (\<lambda>base.
       case base of
         I32 value \<Rightarrow> if 0 \<le> sint value then Inr (unat value) else Inl (Err msg)
       | _ \<Rightarrow> Inl (Err msg))"

fun fill_table :: "u32 \<Rightarrow> nat \<Rightarrow> u32 list \<Rightarrow> u32 option list \<Rightarrow> error + u32 option list" where
  "fill_table total_functions slot [] table = Inr table"
| "fill_table total_functions slot (f # fs) table =
     (if f \<ge> total_functions then Inl (Err ''Element function index out of range'')
      else if slot \<ge> length table then Inl (Err ''Element segment exceeds table size'')
      else fill_table total_functions (slot + 1) fs (table[slot := Some f]))"

fun init_elements :: "element_segment list \<Rightarrow> wasm_instance \<Rightarrow> error + wasm_instance" where
  "init_elements [] i = Inr i"
| "init_elements (s # ss) i =
     ebind (segment_base ''Element offset must be a non-negative i32'' (wi_globals i) (es_offset s)) (\<lambda>base.
     ebind (fill_table (m_total_functions (wi_module i)) base (es_function_indices s) (wi_table i)) (\<lambda>table.
       init_elements ss (i\<lparr>wi_table := table\<rparr>)))"

fun init_data :: "data_segment list \<Rightarrow> wasm_instance \<Rightarrow> error + wasm_instance" where
  "init_data [] i = Inr i"
| "init_data (s # ss) i =
     ebind (segment_base ''Data offset must be a non-negative i32'' (wi_globals i) (ds_offset s)) (\<lambda>base.
     ebind (ok_or (Err ''Data segment offset overflow'') (checked_add base (length (ds_bytes s)))) (\<lambda>end.
       if end > length (wi_memory i) then Inl (Err ''Data segment exceeds memory'')
       else init_data ss (i\<lparr>wi_memory := splice (wi_memory i) base (ds_bytes s)\<rparr>)))"

definition instantiate :: "wasm_module \<Rightarrow> error + wasm_instance" where
  "instantiate m =
     ebind (initial_memory m) (\<lambda>memory_bytes.
     ebind (initial_table m) (\<lambda>table.
     ebind (init_globals (m_globals m) []) (\<lambda>globals.
     ebind (init_elements (m_elements m)
        \<lparr>wi_module = m, wi_globals = globals, wi_memory = replicate memory_bytes 0, wi_table = table\<rparr>) (\<lambda>i.
       init_data (m_data m) i))))"

section \<open>The invariant of an instance\<close>

definition memory_size_ok :: "nat \<Rightarrow> bool" where
  "memory_size_ok n \<longleftrightarrow> PAGE_SIZE dvd n \<and> n \<le> MAX_MEMORY_BYTES"

definition table_entry_ok :: "wasm_module \<Rightarrow> u32 option \<Rightarrow> bool" where
  "table_entry_ok m e \<longleftrightarrow> (case e of None \<Rightarrow> True | Some f \<Rightarrow> f < m_total_functions m)"

definition instance_ok :: "wasm_instance \<Rightarrow> bool" where
  "instance_ok i \<longleftrightarrow>
     memory_size_ok (length (wi_memory i)) \<and>
     length (wi_globals i) = length (m_globals (wi_module i)) \<and>
     length (wi_table i) \<le> MAX_TABLE_ENTRIES \<and>
     list_all (table_entry_ok (wi_module i)) (wi_table i)"

text \<open>What a write inside the memory keeps, for every caller.\<close>

lemma instance_ok_memory:
  "instance_ok i \<Longrightarrow> memory_size_ok (length mem) \<Longrightarrow> instance_ok (i\<lparr>wi_memory := mem\<rparr>)"
  by (simp add: instance_ok_def)

lemma instance_ok_splice:
  "instance_ok i \<Longrightarrow> lo + length bs \<le> length (wi_memory i) \<Longrightarrow>
    instance_ok (i\<lparr>wi_memory := splice (wi_memory i) lo bs\<rparr>)"
  by (simp add: instance_ok_def length_splice)

lemma instance_ok_globals:
  "instance_ok i \<Longrightarrow> instance_ok (i\<lparr>wi_globals := (wi_globals i)[k := v]\<rparr>)"
  by (simp add: instance_ok_def)

lemma length_resize_memory:
  "length (wi_memory i) \<le> n \<Longrightarrow> length (wi_memory (resize_memory n i)) = n"
  by (simp add: resize_memory_def)

lemma resize_memory_simps [simp]:
  "wi_module (resize_memory n i) = wi_module i" "wi_globals (resize_memory n i) = wi_globals i"
  "wi_table (resize_memory n i) = wi_table i"
  by (simp_all add: resize_memory_def)

lemma memory_size_ok_grow:
  "memory_size_ok n \<Longrightarrow> n + k * PAGE_SIZE \<le> MAX_MEMORY_BYTES \<Longrightarrow> memory_size_ok (n + k * PAGE_SIZE)"
  by (simp add: memory_size_ok_def)

lemma instance_ok_resize:
  assumes "instance_ok i" and "length (wi_memory i) + k * PAGE_SIZE \<le> MAX_MEMORY_BYTES"
  shows "instance_ok (resize_memory (length (wi_memory i) + k * PAGE_SIZE) i)"
  using assms memory_size_ok_grow
  by (auto simp: instance_ok_def length_resize_memory)

lemma write_memory_ok: "write_memory lo bs i = Inr i' \<Longrightarrow> instance_ok i \<Longrightarrow> instance_ok i'"
  by (auto simp: write_memory_def result_simps intro!: instance_ok_splice)

lemma grow_memory_ok: "grow_memory d i = Inr (old, i') \<Longrightarrow> instance_ok i \<Longrightarrow> instance_ok i'"
  by (auto simp: grow_memory_def Let_def result_simps intro!: instance_ok_resize)

section \<open>Instantiation establishes the invariant\<close>

lemma initial_memory_ok: "initial_memory m = Inr n \<Longrightarrow> memory_size_ok n"
  by (auto simp: initial_memory_def Let_def memory_size_ok_def result_simps)

lemma initial_table_ok:
  "initial_table m = Inr t \<Longrightarrow> length t \<le> MAX_TABLE_ENTRIES \<and> list_all (table_entry_ok m) t"
  by (auto simp: initial_table_def Let_def table_entry_ok_def list_all_iff result_simps split: list.splits if_splits)

lemma init_globals_length:
  "init_globals gs acc = Inr vs \<Longrightarrow> length vs = length acc + length gs"
  by (induction gs arbitrary: acc) (fastforce simp: result_simps)+

lemma fill_table_ok:
  "fill_table n slot fs t = Inr t' \<Longrightarrow> list_all (\<lambda>e. case e of None \<Rightarrow> True | Some f \<Rightarrow> f < n) t \<Longrightarrow>
    length t' = length t \<and> list_all (\<lambda>e. case e of None \<Rightarrow> True | Some f \<Rightarrow> f < n) t'"
proof (induction fs arbitrary: slot t)
  case Nil
  then show ?case by simp
next
  case (Cons f fs)
  from Cons.prems have f: "f < n" and rest: "fill_table n (slot + 1) fs (t[slot := Some f]) = Inr t'"
    by (auto split: if_splits)
  have "list_all (\<lambda>e. case e of None \<Rightarrow> True | Some f \<Rightarrow> f < n) (t[slot := Some f])"
    using Cons.prems(2) f set_update_subset_insert [of t slot "Some f"]
    by (fastforce simp: list_all_iff split: option.splits)
  from Cons.IH [OF rest this] show ?case by simp
qed

lemma init_elements_ok:
  "init_elements ss i = Inr i' \<Longrightarrow> instance_ok i \<Longrightarrow>
    instance_ok i' \<and> wi_module i' = wi_module i \<and> wi_memory i' = wi_memory i \<and>
    wi_globals i' = wi_globals i \<and> length (wi_table i') = length (wi_table i)"
proof (induction ss arbitrary: i)
  case Nil
  then show ?case by simp
next
  case (Cons s ss)
  from Cons.prems obtain base table where
    t: "fill_table (m_total_functions (wi_module i)) base (es_function_indices s) (wi_table i) = Inr table"
    and rest: "init_elements ss (i\<lparr>wi_table := table\<rparr>) = Inr i'"
    by (auto simp: result_simps)
  have len: "length table = length (wi_table i)" and ok: "instance_ok (i\<lparr>wi_table := table\<rparr>)"
    using fill_table_ok [OF t] Cons.prems(2)
    by (simp_all add: instance_ok_def table_entry_ok_def [abs_def])
  from Cons.IH [OF rest ok] len show ?case by simp
qed

lemma init_data_ok:
  "init_data ss i = Inr i' \<Longrightarrow> instance_ok i \<Longrightarrow>
    instance_ok i' \<and> wi_module i' = wi_module i \<and> length (wi_memory i') = length (wi_memory i) \<and>
    wi_globals i' = wi_globals i \<and> wi_table i' = wi_table i"
proof (induction ss arbitrary: i)
  case Nil
  then show ?case by simp
next
  case (Cons s ss)
  from Cons.prems obtain base where
    b: "base + length (ds_bytes s) \<le> length (wi_memory i)"
    and rest: "init_data ss (i\<lparr>wi_memory := splice (wi_memory i) base (ds_bytes s)\<rparr>) = Inr i'"
    by (auto simp: result_simps not_less)
  from Cons.IH [OF rest instance_ok_splice [OF Cons.prems(2) b]] b show ?case
    by (simp add: length_splice)
qed

definition declared_pages :: "wasm_module \<Rightarrow> nat" where
  "declared_pages m = (case m_memories m of [] \<Rightarrow> 0 | mem # _ \<Rightarrow> unat (lim_min (mt_limits mem)))"

definition declared_entries :: "wasm_module \<Rightarrow> nat" where
  "declared_entries m = (case m_tables m of [] \<Rightarrow> 0 | t # _ \<Rightarrow> unat (lim_min (tt_limits t)))"

text \<open>An instance that \<^verbatim>\<open>WasmInstance::instantiate\<close> returns satisfies the instance
  invariant: its memory has exactly the declared number of 64 KiB pages and stays within 16 MiB, it
  has one value per declared global and the declared number of table entries, and every
  initialised table entry names an existing function, whatever the module's segments contain.\<close>

theorem instantiate_ok:
  assumes "instantiate m = Inr i"
  shows "instance_ok i \<and> wi_module i = m \<and>
    length (wi_memory i) = declared_pages m * PAGE_SIZE \<and>
    length (wi_table i) = declared_entries m"
proof -
  from assms obtain n table globals i1 where
    n: "initial_memory m = Inr n" and t: "initial_table m = Inr table"
    and g: "init_globals (m_globals m) [] = Inr globals"
    and e: "init_elements (m_elements m)
      \<lparr>wi_module = m, wi_globals = globals, wi_memory = replicate n 0, wi_table = table\<rparr> = Inr i1"
    and d: "init_data (m_data m) i1 = Inr i"
    by (auto simp: instantiate_def result_simps)
  have "instance_ok \<lparr>wi_module = m, wi_globals = globals, wi_memory = replicate n 0, wi_table = table\<rparr>"
    using initial_memory_ok [OF n] initial_table_ok [OF t] init_globals_length [OF g]
    by (simp add: instance_ok_def)
  note el = init_elements_ok [OF e this]
  have "n = declared_pages m * PAGE_SIZE"
    using n by (auto simp: initial_memory_def declared_pages_def Let_def result_simps split: list.splits)
  moreover have "length table = declared_entries m"
    using t by (auto simp: initial_table_def declared_entries_def Let_def split: list.splits if_splits)
  ultimately show ?thesis
    using el init_data_ok [OF d conjunct1 [OF el]] by simp
qed

lemmas [eval_simps] = interp_limits initial_memory_def initial_table_def init_globals.simps
  eval_const_expr_def const_expr_loop.simps const_value_def segment_base_def init_elements.simps
  fill_table.simps init_data.simps instantiate_def checked_add_def checked_mul_def u64_max_def

text \<open>One page of memory, a table of two, a global, an element and a data segment.\<close>

definition sample_module :: wasm_module where
  "sample_module = empty_module
     \<lparr>m_types := [\<lparr>ft_parameters = [], ft_results = []\<rparr>],
      m_function_type_indices := [0],
      m_tables := [\<lparr>tt_element_type = TFuncRef, tt_limits = \<lparr>lim_min = 2, lim_max = None\<rparr>\<rparr>],
      m_memories := [\<lparr>mt_limits = \<lparr>lim_min = 1, lim_max = None\<rparr>\<rparr>],
      m_globals := [\<lparr>glob_value_type = TI32, glob_mutable = False, glob_init = [0x41, 0x07]\<rparr>],
      m_elements := [\<lparr>es_table_index = 0, es_offset = [0x41, 0x01], es_function_indices = [0]\<rparr>],
      m_data := [\<lparr>ds_memory_index = 0, ds_offset = [0x23, 0x00], ds_bytes = [1, 2, 3]\<rparr>],
      m_bodies := [\<lparr>fb_locals = [], fb_code = [0x0B]\<rparr>],
      m_total_functions := 1\<rparr>"

definition sample_instance :: wasm_instance where
  "sample_instance = \<lparr>wi_module = sample_module, wi_globals = [I32 7],
     wi_memory = splice (replicate 65536 0) 7 [1, 2, 3],
     wi_table = (replicate 2 None)[1 := Some 0]\<rparr>"

lemma instantiate_sample: "instantiate sample_module = Inr sample_instance"
  unfolding sample_instance_def sample_module_def
  by (simp add: eval_simps cong: ebind_weak_cong)

theorem instantiate_ok_witness:
  "instance_ok sample_instance \<and> wi_module sample_instance = sample_module \<and>
    length (wi_memory sample_instance) = declared_pages sample_module * PAGE_SIZE \<and>
    length (wi_table sample_instance) = declared_entries sample_module"
  by (rule instantiate_ok [OF instantiate_sample])

lemma instance_ok_sample: "instance_ok sample_instance"
  by (simp add: instance_ok_def sample_instance_def sample_module_def memory_size_ok_def
      table_entry_ok_def length_splice interp_limits wasm_limits list_all_iff numeral_2_eq_2
      nth_list_update split: option.splits)

end
