(* ===== verification/Wasm_Numeric.thy ===== *)
theory Wasm_Numeric
  imports Wasm_Instance "HOL-Library.Signed_Division"
begin

text \<open>
  The operand stack and the instructions of \<^verbatim>\<open>src/src/wasm_interp.rs\<close> that only touch it or
  one memory cell range: \<^verbatim>\<open>exec_numeric\<close> by groups of opcodes (comparisons, integer and float
  arithmetic, conversions), \<^verbatim>\<open>memory_load\<close> and \<^verbatim>\<open>memory_store\<close>. The stack is a list
  whose head is the top; an operation pops its right operand first. A value that has the wrong type is
  named in the error by its variant. Integers are words: \<^verbatim>\<open>i32\<close> and \<^verbatim>\<open>u32\<close> are the same
  word, read with \<open>sint\<close> or \<open>unat\<close>.
\<close>

section \<open>The operand stack\<close>

type_synonym stack = "wasm_value list"

definition variant_name :: "wasm_value \<Rightarrow> string" where
  "variant_name v = (case v of I32 _ \<Rightarrow> ''I32'' | I64 _ \<Rightarrow> ''I64'' | F32 _ \<Rightarrow> ''F32'' | F64 _ \<Rightarrow> ''F64'')"

definition pop_value :: "string \<Rightarrow> stack \<Rightarrow> error + (wasm_value \<times> stack)" where
  "pop_value msg st = (case st of [] \<Rightarrow> Inl (Err msg) | v # st' \<Rightarrow> Inr (v, st'))"

definition pop_i32 :: "stack \<Rightarrow> error + (u32 \<times> stack)" where
  "pop_i32 st = ebind (pop_value ''numeric op on empty stack'' st) (\<lambda>(v, st').
     case v of I32 x \<Rightarrow> Inr (x, st') | other \<Rightarrow> Inl (ErrText ''Expected i32, got'' (variant_name other)))"

definition pop_i64 :: "stack \<Rightarrow> error + (u64 \<times> stack)" where
  "pop_i64 st = ebind (pop_value ''numeric op on empty stack'' st) (\<lambda>(v, st').
     case v of I64 x \<Rightarrow> Inr (x, st') | other \<Rightarrow> Inl (ErrText ''Expected i64, got'' (variant_name other)))"

definition pop_f32 :: "stack \<Rightarrow> error + (f32 \<times> stack)" where
  "pop_f32 st = ebind (pop_value ''numeric op on empty stack'' st) (\<lambda>(v, st').
     case v of F32 x \<Rightarrow> Inr (x, st') | other \<Rightarrow> Inl (ErrText ''Expected f32, got'' (variant_name other)))"

definition pop_f64 :: "stack \<Rightarrow> error + (f64 \<times> stack)" where
  "pop_f64 st = ebind (pop_value ''numeric op on empty stack'' st) (\<lambda>(v, st').
     case v of F64 x \<Rightarrow> Inr (x, st') | other \<Rightarrow> Inl (ErrText ''Expected f64, got'' (variant_name other)))"

text \<open>Pop one or two operands of a type, push the result; \<open>f\<close> gets the left operand first.\<close>

definition unary :: "(stack \<Rightarrow> error + ('a \<times> stack)) \<Rightarrow> ('a \<Rightarrow> error + wasm_value) \<Rightarrow> stack \<Rightarrow> error + stack" where
  "unary pop f st = ebind (pop st) (\<lambda>(a, st1). ebind (f a) (\<lambda>v. Inr (v # st1)))"

definition binary :: "(stack \<Rightarrow> error + ('a \<times> stack)) \<Rightarrow> ('a \<Rightarrow> 'a \<Rightarrow> error + wasm_value) \<Rightarrow> stack \<Rightarrow> error + stack" where
  "binary pop f st = ebind (pop st) (\<lambda>(b, st1). ebind (pop st1) (\<lambda>(a, st2). ebind (f a b) (\<lambda>v. Inr (v # st2))))"

definition flag :: "bool \<Rightarrow> error + wasm_value" where
  "flag p = Inr (I32 (if p then 1 else 0))"

section \<open>Bit counting\<close>

definition leading_zeros :: "'a::len word \<Rightarrow> nat" where
  "leading_zeros w = LENGTH('a) - bit_length (unat w)"

fun low_zeros :: "nat \<Rightarrow> nat" where
  "low_zeros n = (if n = 0 \<or> odd n then 0 else Suc (low_zeros (n div 2)))"

declare low_zeros.simps [simp del]

definition trailing_zeros :: "'a::len word \<Rightarrow> nat" where
  "trailing_zeros w = (if w = 0 then LENGTH('a) else low_zeros (unat w))"

fun ones :: "nat \<Rightarrow> nat" where
  "ones n = (if n = 0 then 0 else n mod 2 + ones (n div 2))"

declare ones.simps [simp del]

definition count_ones :: "'a::len word \<Rightarrow> nat" where
  "count_ones w = ones (unat w)"

section \<open>Integer comparisons\<close>

definition exec_i32_compare :: "u8 \<Rightarrow> stack \<Rightarrow> error + stack" where
  "exec_i32_compare opcode st =
     (if opcode = 0x45 then unary pop_i32 (\<lambda>a. flag (a = 0)) st
      else if opcode = 0x46 then binary pop_i32 (\<lambda>a b. flag (a = b)) st
      else if opcode = 0x47 then binary pop_i32 (\<lambda>a b. flag (a \<noteq> b)) st
      else if opcode = 0x48 then binary pop_i32 (\<lambda>a b. flag (sint a < sint b)) st
      else if opcode = 0x49 then binary pop_i32 (\<lambda>a b. flag (a < b)) st
      else if opcode = 0x4A then binary pop_i32 (\<lambda>a b. flag (sint a > sint b)) st
      else if opcode = 0x4B then binary pop_i32 (\<lambda>a b. flag (a > b)) st
      else if opcode = 0x4C then binary pop_i32 (\<lambda>a b. flag (sint a \<le> sint b)) st
      else if opcode = 0x4D then binary pop_i32 (\<lambda>a b. flag (a \<le> b)) st
      else if opcode = 0x4E then binary pop_i32 (\<lambda>a b. flag (sint a \<ge> sint b)) st
      else if opcode = 0x4F then binary pop_i32 (\<lambda>a b. flag (a \<ge> b)) st
      else Inl (ErrByte ''Unsupported numeric opcode'' opcode))"

definition exec_i64_compare :: "u8 \<Rightarrow> stack \<Rightarrow> error + stack" where
  "exec_i64_compare opcode st =
     (if opcode = 0x50 then unary pop_i64 (\<lambda>a. flag (a = 0)) st
      else if opcode = 0x51 then binary pop_i64 (\<lambda>a b. flag (a = b)) st
      else if opcode = 0x52 then binary pop_i64 (\<lambda>a b. flag (a \<noteq> b)) st
      else if opcode = 0x53 then binary pop_i64 (\<lambda>a b. flag (sint a < sint b)) st
      else if opcode = 0x54 then binary pop_i64 (\<lambda>a b. flag (a < b)) st
      else if opcode = 0x55 then binary pop_i64 (\<lambda>a b. flag (sint a > sint b)) st
      else if opcode = 0x56 then binary pop_i64 (\<lambda>a b. flag (a > b)) st
      else if opcode = 0x57 then binary pop_i64 (\<lambda>a b. flag (sint a \<le> sint b)) st
      else if opcode = 0x58 then binary pop_i64 (\<lambda>a b. flag (a \<le> b)) st
      else if opcode = 0x59 then binary pop_i64 (\<lambda>a b. flag (sint a \<ge> sint b)) st
      else if opcode = 0x5A then binary pop_i64 (\<lambda>a b. flag (a \<ge> b)) st
      else Inl (ErrByte ''Unsupported numeric opcode'' opcode))"

section \<open>Float comparisons\<close>

definition exec_f32_compare :: "u8 \<Rightarrow> stack \<Rightarrow> error + stack" where
  "exec_f32_compare opcode st =
     (if opcode = 0x5B then binary pop_f32 (\<lambda>a b. flag (f32_eq a b)) st
      else if opcode = 0x5C then binary pop_f32 (\<lambda>a b. flag (\<not> f32_eq a b)) st
      else if opcode = 0x5D then binary pop_f32 (\<lambda>a b. flag (f32_lt a b)) st
      else if opcode = 0x5E then binary pop_f32 (\<lambda>a b. flag (f32_lt b a)) st
      else if opcode = 0x5F then binary pop_f32 (\<lambda>a b. flag (f32_le a b)) st
      else if opcode = 0x60 then binary pop_f32 (\<lambda>a b. flag (f32_le b a)) st
      else Inl (ErrByte ''Unsupported numeric opcode'' opcode))"

definition exec_f64_compare :: "u8 \<Rightarrow> stack \<Rightarrow> error + stack" where
  "exec_f64_compare opcode st =
     (if opcode = 0x61 then binary pop_f64 (\<lambda>a b. flag (f64_eq a b)) st
      else if opcode = 0x62 then binary pop_f64 (\<lambda>a b. flag (\<not> f64_eq a b)) st
      else if opcode = 0x63 then binary pop_f64 (\<lambda>a b. flag (f64_lt a b)) st
      else if opcode = 0x64 then binary pop_f64 (\<lambda>a b. flag (f64_lt b a)) st
      else if opcode = 0x65 then binary pop_f64 (\<lambda>a b. flag (f64_le a b)) st
      else if opcode = 0x66 then binary pop_f64 (\<lambda>a b. flag (f64_le b a)) st
      else Inl (ErrByte ''Unsupported numeric opcode'' opcode))"

section \<open>Integer arithmetic\<close>

text \<open>Division truncates towards zero; it traps on a zero divisor, and the signed quotient also on
  the one that does not fit.\<close>

definition i32_div_s :: "u32 \<Rightarrow> u32 \<Rightarrow> error + wasm_value" where
  "i32_div_s a b =
     (if b = 0 then Inl (Err ''integer divide by zero'')
      else if sint a = - (2 ^ 31) \<and> sint b = - 1 then Inl (Err ''integer overflow'')
      else Inr (I32 (word_of_int (sint a sdiv sint b))))"

definition i32_div_u :: "u32 \<Rightarrow> u32 \<Rightarrow> error + wasm_value" where
  "i32_div_u a b = (if b = 0 then Inl (Err ''integer divide by zero'') else Inr (I32 (a div b)))"

definition i32_rem_s :: "u32 \<Rightarrow> u32 \<Rightarrow> error + wasm_value" where
  "i32_rem_s a b =
     (if b = 0 then Inl (Err ''integer divide by zero'')
      else Inr (I32 (word_of_int (sint a smod sint b))))"

definition i32_rem_u :: "u32 \<Rightarrow> u32 \<Rightarrow> error + wasm_value" where
  "i32_rem_u a b = (if b = 0 then Inl (Err ''integer divide by zero'') else Inr (I32 (a mod b)))"

definition i64_div_s :: "u64 \<Rightarrow> u64 \<Rightarrow> error + wasm_value" where
  "i64_div_s a b =
     (if b = 0 then Inl (Err ''integer divide by zero'')
      else if sint a = - (2 ^ 63) \<and> sint b = - 1 then Inl (Err ''integer overflow'')
      else Inr (I64 (word_of_int (sint a sdiv sint b))))"

definition i64_div_u :: "u64 \<Rightarrow> u64 \<Rightarrow> error + wasm_value" where
  "i64_div_u a b = (if b = 0 then Inl (Err ''integer divide by zero'') else Inr (I64 (a div b)))"

definition i64_rem_s :: "u64 \<Rightarrow> u64 \<Rightarrow> error + wasm_value" where
  "i64_rem_s a b =
     (if b = 0 then Inl (Err ''integer divide by zero'')
      else Inr (I64 (word_of_int (sint a smod sint b))))"

definition i64_rem_u :: "u64 \<Rightarrow> u64 \<Rightarrow> error + wasm_value" where
  "i64_rem_u a b = (if b = 0 then Inl (Err ''integer divide by zero'') else Inr (I64 (a mod b)))"

definition exec_i32_arith :: "u8 \<Rightarrow> stack \<Rightarrow> error + stack" where
  "exec_i32_arith opcode st =
     (if opcode = 0x67 then unary pop_i32 (\<lambda>a. Inr (I32 (of_nat (leading_zeros a)))) st
      else if opcode = 0x68 then unary pop_i32 (\<lambda>a. Inr (I32 (of_nat (trailing_zeros a)))) st
      else if opcode = 0x69 then unary pop_i32 (\<lambda>a. Inr (I32 (of_nat (count_ones a)))) st
      else if opcode = 0x6A then binary pop_i32 (\<lambda>a b. Inr (I32 (a + b))) st
      else if opcode = 0x6B then binary pop_i32 (\<lambda>a b. Inr (I32 (a - b))) st
      else if opcode = 0x6C then binary pop_i32 (\<lambda>a b. Inr (I32 (a * b))) st
      else if opcode = 0x6D then binary pop_i32 i32_div_s st
      else if opcode = 0x6E then binary pop_i32 i32_div_u st
      else if opcode = 0x6F then binary pop_i32 i32_rem_s st
      else if opcode = 0x70 then binary pop_i32 i32_rem_u st
      else if opcode = 0x71 then binary pop_i32 (\<lambda>a b. Inr (I32 (and a b))) st
      else if opcode = 0x72 then binary pop_i32 (\<lambda>a b. Inr (I32 (or a b))) st
      else if opcode = 0x73 then binary pop_i32 (\<lambda>a b. Inr (I32 (xor a b))) st
      else if opcode = 0x74 then binary pop_i32 (\<lambda>a b. Inr (I32 (push_bit (unat (and b 31)) a))) st
      else if opcode = 0x75 then binary pop_i32 (\<lambda>a b. Inr (I32 (signed_drop_bit (unat (and b 31)) a))) st
      else if opcode = 0x76 then binary pop_i32 (\<lambda>a b. Inr (I32 (drop_bit (unat (and b 31)) a))) st
      else if opcode = 0x77 then binary pop_i32 (\<lambda>a b. Inr (I32 (word_rotl (unat (and b 31)) a))) st
      else if opcode = 0x78 then binary pop_i32 (\<lambda>a b. Inr (I32 (word_rotr (unat (and b 31)) a))) st
      else Inl (ErrByte ''Unsupported numeric opcode'' opcode))"

definition exec_i64_arith :: "u8 \<Rightarrow> stack \<Rightarrow> error + stack" where
  "exec_i64_arith opcode st =
     (if opcode = 0x79 then unary pop_i64 (\<lambda>a. Inr (I64 (of_nat (leading_zeros a)))) st
      else if opcode = 0x7A then unary pop_i64 (\<lambda>a. Inr (I64 (of_nat (trailing_zeros a)))) st
      else if opcode = 0x7B then unary pop_i64 (\<lambda>a. Inr (I64 (of_nat (count_ones a)))) st
      else if opcode = 0x7C then binary pop_i64 (\<lambda>a b. Inr (I64 (a + b))) st
      else if opcode = 0x7D then binary pop_i64 (\<lambda>a b. Inr (I64 (a - b))) st
      else if opcode = 0x7E then binary pop_i64 (\<lambda>a b. Inr (I64 (a * b))) st
      else if opcode = 0x7F then binary pop_i64 i64_div_s st
      else if opcode = 0x80 then binary pop_i64 i64_div_u st
      else if opcode = 0x81 then binary pop_i64 i64_rem_s st
      else if opcode = 0x82 then binary pop_i64 i64_rem_u st
      else if opcode = 0x83 then binary pop_i64 (\<lambda>a b. Inr (I64 (and a b))) st
      else if opcode = 0x84 then binary pop_i64 (\<lambda>a b. Inr (I64 (or a b))) st
      else if opcode = 0x85 then binary pop_i64 (\<lambda>a b. Inr (I64 (xor a b))) st
      else if opcode = 0x86 then binary pop_i64 (\<lambda>a b. Inr (I64 (push_bit (unat (and b 63)) a))) st
      else if opcode = 0x87 then binary pop_i64 (\<lambda>a b. Inr (I64 (signed_drop_bit (unat (and b 63)) a))) st
      else if opcode = 0x88 then binary pop_i64 (\<lambda>a b. Inr (I64 (drop_bit (unat (and b 63)) a))) st
      else if opcode = 0x89 then binary pop_i64 (\<lambda>a b. Inr (I64 (word_rotl (unat (and (ucast b :: u32) 63)) a))) st
      else if opcode = 0x8A then binary pop_i64 (\<lambda>a b. Inr (I64 (word_rotr (unat (and (ucast b :: u32) 63)) a))) st
      else Inl (ErrByte ''Unsupported numeric opcode'' opcode))"

section \<open>Float arithmetic\<close>

definition f32_NAN :: f32 where "f32_NAN = 0x7FC00000"
definition f64_NAN :: f64 where "f64_NAN = 0x7FF8000000000000"

definition wasm_min_f32 :: "f32 \<Rightarrow> f32 \<Rightarrow> f32" where
  "wasm_min_f32 a b =
     (if f32_is_nan a \<or> f32_is_nan b then f32_NAN
      else if f32_eq a 0 \<and> f32_eq b 0 then (if f32_sign_negative a then a else b)
      else if f32_lt a b then a else b)"

definition wasm_max_f32 :: "f32 \<Rightarrow> f32 \<Rightarrow> f32" where
  "wasm_max_f32 a b =
     (if f32_is_nan a \<or> f32_is_nan b then f32_NAN
      else if f32_eq a 0 \<and> f32_eq b 0 then (if \<not> f32_sign_negative a then a else b)
      else if f32_lt b a then a else b)"

definition wasm_min_f64 :: "f64 \<Rightarrow> f64 \<Rightarrow> f64" where
  "wasm_min_f64 a b =
     (if f64_is_nan a \<or> f64_is_nan b then f64_NAN
      else if f64_eq a 0 \<and> f64_eq b 0 then (if f64_sign_negative a then a else b)
      else if f64_lt a b then a else b)"

definition wasm_max_f64 :: "f64 \<Rightarrow> f64 \<Rightarrow> f64" where
  "wasm_max_f64 a b =
     (if f64_is_nan a \<or> f64_is_nan b then f64_NAN
      else if f64_eq a 0 \<and> f64_eq b 0 then (if \<not> f64_sign_negative a then a else b)
      else if f64_lt b a then a else b)"

definition exec_f32_arith :: "nan_env \<Rightarrow> u8 \<Rightarrow> stack \<Rightarrow> error + stack" where
  "exec_f32_arith ne opcode st =
     (if opcode = 0x8B then unary pop_f32 (\<lambda>a. Inr (F32 (f32_abs a))) st
      else if opcode = 0x8C then unary pop_f32 (\<lambda>a. Inr (F32 (f32_neg a))) st
      else if opcode = 0x8D then unary pop_f32 (\<lambda>a. Inr (F32 (f32_integral RCeil ne a))) st
      else if opcode = 0x8E then unary pop_f32 (\<lambda>a. Inr (F32 (f32_integral RFloor ne a))) st
      else if opcode = 0x8F then unary pop_f32 (\<lambda>a. Inr (F32 (f32_integral RTrunc ne a))) st
      else if opcode = 0x90 then unary pop_f32 (\<lambda>a. Inr (F32 (f32_integral RNearest ne a))) st
      else if opcode = 0x91 then unary pop_f32 (\<lambda>a. Inr (F32 (f32_sqrt ne a))) st
      else if opcode = 0x92 then binary pop_f32 (\<lambda>a b. Inr (F32 (f32_add ne a b))) st
      else if opcode = 0x93 then binary pop_f32 (\<lambda>a b. Inr (F32 (f32_sub ne a b))) st
      else if opcode = 0x94 then binary pop_f32 (\<lambda>a b. Inr (F32 (f32_mul ne a b))) st
      else if opcode = 0x95 then binary pop_f32 (\<lambda>a b. Inr (F32 (f32_div ne a b))) st
      else if opcode = 0x96 then binary pop_f32 (\<lambda>a b. Inr (F32 (wasm_min_f32 a b))) st
      else if opcode = 0x97 then binary pop_f32 (\<lambda>a b. Inr (F32 (wasm_max_f32 a b))) st
      else if opcode = 0x98 then binary pop_f32 (\<lambda>a b. Inr (F32 (f32_copysign a b))) st
      else Inl (ErrByte ''Unsupported numeric opcode'' opcode))"

definition exec_f64_arith :: "nan_env \<Rightarrow> u8 \<Rightarrow> stack \<Rightarrow> error + stack" where
  "exec_f64_arith ne opcode st =
     (if opcode = 0x99 then unary pop_f64 (\<lambda>a. Inr (F64 (f64_abs a))) st
      else if opcode = 0x9A then unary pop_f64 (\<lambda>a. Inr (F64 (f64_neg a))) st
      else if opcode = 0x9B then unary pop_f64 (\<lambda>a. Inr (F64 (f64_integral RCeil ne a))) st
      else if opcode = 0x9C then unary pop_f64 (\<lambda>a. Inr (F64 (f64_integral RFloor ne a))) st
      else if opcode = 0x9D then unary pop_f64 (\<lambda>a. Inr (F64 (f64_integral RTrunc ne a))) st
      else if opcode = 0x9E then unary pop_f64 (\<lambda>a. Inr (F64 (f64_integral RNearest ne a))) st
      else if opcode = 0x9F then unary pop_f64 (\<lambda>a. Inr (F64 (f64_sqrt ne a))) st
      else if opcode = 0xA0 then binary pop_f64 (\<lambda>a b. Inr (F64 (f64_add ne a b))) st
      else if opcode = 0xA1 then binary pop_f64 (\<lambda>a b. Inr (F64 (f64_sub ne a b))) st
      else if opcode = 0xA2 then binary pop_f64 (\<lambda>a b. Inr (F64 (f64_mul ne a b))) st
      else if opcode = 0xA3 then binary pop_f64 (\<lambda>a b. Inr (F64 (f64_div ne a b))) st
      else if opcode = 0xA4 then binary pop_f64 (\<lambda>a b. Inr (F64 (wasm_min_f64 a b))) st
      else if opcode = 0xA5 then binary pop_f64 (\<lambda>a b. Inr (F64 (wasm_max_f64 a b))) st
      else if opcode = 0xA6 then binary pop_f64 (\<lambda>a b. Inr (F64 (f64_copysign a b))) st
      else Inl (ErrByte ''Unsupported numeric opcode'' opcode))"

section \<open>Conversions\<close>

text \<open>The trapping truncations. The value truncated by \<^verbatim>\<open>trunc()\<close> is an integer or infinite
  and the bounds it is compared with are exact in \<^verbatim>\<open>f64\<close>, so the comparisons are those of the
  integers; an infinity is outside of every range.\<close>

definition trunc_to :: "int \<Rightarrow> int \<Rightarrow> f64 \<Rightarrow> error + int" where
  "trunc_to lo hi value =
     (if f64_is_nan value then Inl (Err ''invalid conversion to integer'')
      else case trunc_int (f64_value value) of
             None \<Rightarrow> Inl (Err ''integer overflow'')
           | Some t \<Rightarrow> if lo \<le> t \<and> t < hi then Inr t else Inl (Err ''integer overflow''))"

definition trunc_f64_to_i32 :: "f64 \<Rightarrow> error + u32" where
  "trunc_f64_to_i32 value = ebind (trunc_to (- 2147483648) 2147483648 value) (\<lambda>t. Inr (word_of_int t))"

definition trunc_f64_to_u32 :: "f64 \<Rightarrow> error + u32" where
  "trunc_f64_to_u32 value = ebind (trunc_to 0 4294967296 value) (\<lambda>t. Inr (word_of_int t))"

definition trunc_f64_to_i64 :: "f64 \<Rightarrow> error + u64" where
  "trunc_f64_to_i64 value =
     ebind (trunc_to (- 9223372036854775808) 9223372036854775808 value) (\<lambda>t. Inr (word_of_int t))"

definition trunc_f64_to_u64 :: "f64 \<Rightarrow> error + u64" where
  "trunc_f64_to_u64 value = ebind (trunc_to 0 18446744073709551616 value) (\<lambda>t. Inr (word_of_int t))"

definition exec_truncate :: "nan_env \<Rightarrow> u8 \<Rightarrow> stack \<Rightarrow> error + stack" where
  "exec_truncate ne opcode st =
     (if opcode = 0xA7 then unary pop_i64 (\<lambda>a. Inr (I32 (ucast a))) st
      else if opcode = 0xA8 then unary pop_f32 (\<lambda>a. ebind (trunc_f64_to_i32 (f64_promote ne a)) (\<lambda>t. Inr (I32 t))) st
      else if opcode = 0xA9 then unary pop_f32 (\<lambda>a. ebind (trunc_f64_to_u32 (f64_promote ne a)) (\<lambda>t. Inr (I32 t))) st
      else if opcode = 0xAA then unary pop_f64 (\<lambda>a. ebind (trunc_f64_to_i32 a) (\<lambda>t. Inr (I32 t))) st
      else if opcode = 0xAB then unary pop_f64 (\<lambda>a. ebind (trunc_f64_to_u32 a) (\<lambda>t. Inr (I32 t))) st
      else if opcode = 0xAC then unary pop_i32 (\<lambda>a. Inr (I64 (scast a))) st
      else if opcode = 0xAD then unary pop_i32 (\<lambda>a. Inr (I64 (ucast a))) st
      else if opcode = 0xAE then unary pop_f32 (\<lambda>a. ebind (trunc_f64_to_i64 (f64_promote ne a)) (\<lambda>t. Inr (I64 t))) st
      else if opcode = 0xAF then unary pop_f32 (\<lambda>a. ebind (trunc_f64_to_u64 (f64_promote ne a)) (\<lambda>t. Inr (I64 t))) st
      else if opcode = 0xB0 then unary pop_f64 (\<lambda>a. ebind (trunc_f64_to_i64 a) (\<lambda>t. Inr (I64 t))) st
      else if opcode = 0xB1 then unary pop_f64 (\<lambda>a. ebind (trunc_f64_to_u64 a) (\<lambda>t. Inr (I64 t))) st
      else Inl (ErrByte ''Unsupported numeric opcode'' opcode))"

definition exec_convert :: "nan_env \<Rightarrow> u8 \<Rightarrow> stack \<Rightarrow> error + stack" where
  "exec_convert ne opcode st =
     (if opcode = 0xB2 then unary pop_i32 (\<lambda>a. Inr (F32 (int_to_f32 (sint a)))) st
      else if opcode = 0xB3 then unary pop_i32 (\<lambda>a. Inr (F32 (int_to_f32 (uint a)))) st
      else if opcode = 0xB4 then unary pop_i64 (\<lambda>a. Inr (F32 (int_to_f32 (sint a)))) st
      else if opcode = 0xB5 then unary pop_i64 (\<lambda>a. Inr (F32 (int_to_f32 (uint a)))) st
      else if opcode = 0xB6 then unary pop_f64 (\<lambda>a. Inr (F32 (f32_demote ne a))) st
      else if opcode = 0xB7 then unary pop_i32 (\<lambda>a. Inr (F64 (int_to_f64 (sint a)))) st
      else if opcode = 0xB8 then unary pop_i32 (\<lambda>a. Inr (F64 (int_to_f64 (uint a)))) st
      else if opcode = 0xB9 then unary pop_i64 (\<lambda>a. Inr (F64 (int_to_f64 (sint a)))) st
      else if opcode = 0xBA then unary pop_i64 (\<lambda>a. Inr (F64 (int_to_f64 (uint a)))) st
      else if opcode = 0xBB then unary pop_f32 (\<lambda>a. Inr (F64 (f64_promote ne a))) st
      else if opcode = 0xBC then unary pop_f32 (\<lambda>a. Inr (I32 a)) st
      else if opcode = 0xBD then unary pop_f64 (\<lambda>a. Inr (I64 a)) st
      else if opcode = 0xBE then unary pop_i32 (\<lambda>a. Inr (F32 a)) st
      else if opcode = 0xBF then unary pop_i64 (\<lambda>a. Inr (F64 a)) st
      else if opcode = 0xC0 then unary pop_i32 (\<lambda>a. Inr (I32 (scast (ucast a :: 8 word)))) st
      else if opcode = 0xC1 then unary pop_i32 (\<lambda>a. Inr (I32 (scast (ucast a :: 16 word)))) st
      else if opcode = 0xC2 then unary pop_i64 (\<lambda>a. Inr (I64 (scast (ucast a :: 8 word)))) st
      else if opcode = 0xC3 then unary pop_i64 (\<lambda>a. Inr (I64 (scast (ucast a :: 16 word)))) st
      else if opcode = 0xC4 then unary pop_i64 (\<lambda>a. Inr (I64 (scast (ucast a :: 32 word)))) st
      else Inl (ErrByte ''Unsupported numeric opcode'' opcode))"

section \<open>The whole table\<close>

definition exec_numeric :: "nan_env \<Rightarrow> u8 \<Rightarrow> stack \<Rightarrow> error + stack" where
  "exec_numeric ne opcode st =
     (if 0x45 \<le> opcode \<and> opcode \<le> 0x4F then exec_i32_compare opcode st
      else if 0x50 \<le> opcode \<and> opcode \<le> 0x5A then exec_i64_compare opcode st
      else if 0x5B \<le> opcode \<and> opcode \<le> 0x60 then exec_f32_compare opcode st
      else if 0x61 \<le> opcode \<and> opcode \<le> 0x66 then exec_f64_compare opcode st
      else if 0x67 \<le> opcode \<and> opcode \<le> 0x78 then exec_i32_arith opcode st
      else if 0x79 \<le> opcode \<and> opcode \<le> 0x8A then exec_i64_arith opcode st
      else if 0x8B \<le> opcode \<and> opcode \<le> 0x98 then exec_f32_arith ne opcode st
      else if 0x99 \<le> opcode \<and> opcode \<le> 0xA6 then exec_f64_arith ne opcode st
      else if 0xA7 \<le> opcode \<and> opcode \<le> 0xB1 then exec_truncate ne opcode st
      else if 0xB2 \<le> opcode \<and> opcode \<le> 0xC4 then exec_convert ne opcode st
      else Inl (ErrByte ''Unsupported numeric opcode'' opcode))"

section \<open>Memory access\<close>

text \<open>The \<^verbatim>\<open>read\<close> closure of \<^verbatim>\<open>memory_load\<close>: \<open>n\<close> bytes, little-endian, zero-extended.\<close>

definition memory_read :: "bytes \<Rightarrow> nat \<Rightarrow> nat \<Rightarrow> error + u64" where
  "memory_read mem address n =
     ebind (ok_or (Err ''memory access out of range'') (checked_add address n)) (\<lambda>end.
     ebind (ok_or (Err ''memory access out of range'') (get_range mem address end)) (\<lambda>bs.
       Inr (from_le_bytes bs)))"

definition memory_load :: "bytes \<Rightarrow> nat \<Rightarrow> u8 \<Rightarrow> error + wasm_value" where
  "memory_load mem address opcode =
     (let load = (\<lambda>n f. ebind (memory_read mem address n) (\<lambda>w. Inr (f w)))
      in if opcode = 0x28 then load 4 (\<lambda>w. I32 (ucast w))
         else if opcode = 0x29 then load 8 (\<lambda>w. I64 w)
         else if opcode = 0x2A then load 4 (\<lambda>w. F32 (ucast w))
         else if opcode = 0x2B then load 8 (\<lambda>w. F64 w)
         else if opcode = 0x2C then load 1 (\<lambda>w. I32 (scast (ucast w :: 8 word)))
         else if opcode = 0x2D then load 1 (\<lambda>w. I32 (ucast (ucast w :: 8 word)))
         else if opcode = 0x2E then load 2 (\<lambda>w. I32 (scast (ucast w :: 16 word)))
         else if opcode = 0x2F then load 2 (\<lambda>w. I32 (ucast (ucast w :: 16 word)))
         else if opcode = 0x30 then load 1 (\<lambda>w. I64 (scast (ucast w :: 8 word)))
         else if opcode = 0x31 then load 1 (\<lambda>w. I64 (ucast (ucast w :: 8 word)))
         else if opcode = 0x32 then load 2 (\<lambda>w. I64 (scast (ucast w :: 16 word)))
         else if opcode = 0x33 then load 2 (\<lambda>w. I64 (ucast (ucast w :: 16 word)))
         else if opcode = 0x34 then load 4 (\<lambda>w. I64 (scast (ucast w :: 32 word)))
         else if opcode = 0x35 then load 4 (\<lambda>w. I64 (ucast (ucast w :: 32 word)))
         else Inl (ErrByte ''Unknown load opcode'' opcode))"

text \<open>The size and the bits a store opcode takes from a value.\<close>

definition store_bits :: "u8 \<Rightarrow> wasm_value \<Rightarrow> error + (nat \<times> u64)" where
  "store_bits opcode value =
     (case value of
        I32 v \<Rightarrow>
          if opcode = 0x36 then Inr (4, ucast v)
          else if opcode = 0x3A then Inr (1, ucast (ucast v :: 8 word))
          else if opcode = 0x3B then Inr (2, ucast (ucast v :: 16 word))
          else Inl (ErrByte ''Store opcode with incompatible value'' opcode)
      | I64 v \<Rightarrow>
          if opcode = 0x37 then Inr (8, v)
          else if opcode = 0x3C then Inr (1, ucast (ucast v :: 8 word))
          else if opcode = 0x3D then Inr (2, ucast (ucast v :: 16 word))
          else if opcode = 0x3E then Inr (4, ucast (ucast v :: 32 word))
          else Inl (ErrByte ''Store opcode with incompatible value'' opcode)
      | F32 v \<Rightarrow>
          if opcode = 0x38 then Inr (4, ucast v)
          else Inl (ErrByte ''Store opcode with incompatible value'' opcode)
      | F64 v \<Rightarrow>
          if opcode = 0x39 then Inr (8, v)
          else Inl (ErrByte ''Store opcode with incompatible value'' opcode))"

definition memory_store :: "nat \<Rightarrow> u8 \<Rightarrow> wasm_value \<Rightarrow> wasm_instance \<Rightarrow> error + wasm_instance" where
  "memory_store address opcode value i =
     ebind (store_bits opcode value) (\<lambda>(n, bits).
     ebind (ok_or (Err ''memory access out of range'') (checked_add address n)) (\<lambda>end.
       if end \<le> length (wi_memory i)
       then Inr (i\<lparr>wi_memory := splice (wi_memory i) address (to_le_bytes n bits)\<rparr>)
       else Inl (Err ''memory access out of range'')))"

definition effective_address :: "nat \<Rightarrow> stack \<Rightarrow> error + (nat \<times> stack)" where
  "effective_address offset st =
     ebind (pop_value ''memory access missing address'' st) (\<lambda>(base, st').
       case base of
         I32 b \<Rightarrow> if sint b < 0 then Inl (Err ''negative memory address'')
                  else ebind (ok_or (Err ''memory address overflow'') (checked_add (unat b) offset))
                         (\<lambda>a. Inr (a, st'))
       | _ \<Rightarrow> Inl (Err ''memory address must be i32''))"

section \<open>Stores and loads\<close>

lemma memory_read_splice:
  assumes "a + length bs \<le> length mem" and "length mem \<le> u64_max"
  shows "memory_read (splice mem a bs) a (length bs) = Inr (from_le_bytes bs)"
  using assms splice_same [OF assms(1)]
  by (simp add: memory_read_def checked_add_def get_range_def length_splice)

lemma memory_read_store:
  assumes "memory_store a op v i = Inr i'" and "store_bits op v = Inr (n, w)"
    and "length (wi_memory i) \<le> u64_max"
  shows "memory_read (wi_memory i') a n = Inr (take_bit (8 * n) w)"
  using assms memory_read_splice [of a "to_le_bytes n w" "wi_memory i"]
  by (auto simp: memory_store_def result_simps from_to_le_bytes)

text \<open>What a load gives back after a store at the same address, as arithmetic on the stored value:
  the value itself at full width, its low bits sign- or zero-extended otherwise.\<close>

definition expected_load :: "u8 \<Rightarrow> u8 \<Rightarrow> wasm_value \<Rightarrow> wasm_value option" where
  "expected_load store_op load_op value =
     (case value of
        I32 v \<Rightarrow>
          if (store_op, load_op) = (0x36, 0x28) then Some (I32 v)
          else if (store_op, load_op) = (0x3A, 0x2C) then Some (I32 (word_of_int (signed_take_bit 7 (sint v))))
          else if (store_op, load_op) = (0x3A, 0x2D) then Some (I32 (word_of_int (uint v mod 2 ^ 8)))
          else if (store_op, load_op) = (0x3B, 0x2E) then Some (I32 (word_of_int (signed_take_bit 15 (sint v))))
          else if (store_op, load_op) = (0x3B, 0x2F) then Some (I32 (word_of_int (uint v mod 2 ^ 16)))
          else None
      | I64 v \<Rightarrow>
          if (store_op, load_op) = (0x37, 0x29) then Some (I64 v)
          else if (store_op, load_op) = (0x3C, 0x30) then Some (I64 (word_of_int (signed_take_bit 7 (sint v))))
          else if (store_op, load_op) = (0x3C, 0x31) then Some (I64 (word_of_int (uint v mod 2 ^ 8)))
          else if (store_op, load_op) = (0x3D, 0x32) then Some (I64 (word_of_int (signed_take_bit 15 (sint v))))
          else if (store_op, load_op) = (0x3D, 0x33) then Some (I64 (word_of_int (uint v mod 2 ^ 16)))
          else if (store_op, load_op) = (0x3E, 0x34) then Some (I64 (word_of_int (signed_take_bit 31 (sint v))))
          else if (store_op, load_op) = (0x3E, 0x35) then Some (I64 (word_of_int (uint v mod 2 ^ 32)))
          else None
      | F32 v \<Rightarrow> if (store_op, load_op) = (0x38, 0x2A) then Some (F32 v) else None
      | F64 v \<Rightarrow> if (store_op, load_op) = (0x39, 0x2B) then Some (F64 v) else None)"

text \<open>The bytes a store opcode writes.\<close>

definition store_width :: "u8 \<Rightarrow> nat" where
  "store_width op =
     (if op = 0x3A \<or> op = 0x3C then 1 else if op = 0x3B \<or> op = 0x3D then 2
      else if op = 0x36 \<or> op = 0x38 \<or> op = 0x3E then 4 else 8)"

lemma store_bits_width: "store_bits op v = Inr (n, w) \<Longrightarrow> n = store_width op"
  by (auto simp: store_bits_def store_width_def split: wasm_value.splits if_splits)

lemma low_bytes:
  fixes v :: u32 and w :: u64
  shows "ucast (take_bit 32 (ucast v :: u64)) = v" "take_bit 64 w = w"
    "scast (ucast (take_bit 8 (ucast (ucast v :: 8 word) :: u64)) :: 8 word) = (word_of_int (signed_take_bit 7 (sint v)) :: u32)"
    "ucast (ucast (take_bit 8 (ucast (ucast v :: 8 word) :: u64)) :: 8 word) = (word_of_int (uint v mod 2 ^ 8) :: u32)"
    "scast (ucast (take_bit 16 (ucast (ucast v :: 16 word) :: u64)) :: 16 word) = (word_of_int (signed_take_bit 15 (sint v)) :: u32)"
    "ucast (ucast (take_bit 16 (ucast (ucast v :: 16 word) :: u64)) :: 16 word) = (word_of_int (uint v mod 2 ^ 16) :: u32)"
    "scast (ucast (take_bit 8 (ucast (ucast w :: 8 word) :: u64)) :: 8 word) = (word_of_int (signed_take_bit 7 (sint w)) :: u64)"
    "ucast (ucast (take_bit 8 (ucast (ucast w :: 8 word) :: u64)) :: 8 word) = (word_of_int (uint w mod 2 ^ 8) :: u64)"
    "scast (ucast (take_bit 16 (ucast (ucast w :: 16 word) :: u64)) :: 16 word) = (word_of_int (signed_take_bit 15 (sint w)) :: u64)"
    "ucast (ucast (take_bit 16 (ucast (ucast w :: 16 word) :: u64)) :: 16 word) = (word_of_int (uint w mod 2 ^ 16) :: u64)"
proof -
  have m: "uint v mod 2 ^ k = take_bit k (uint v)" "uint w mod 2 ^ k = take_bit k (uint w)"
    "uint w mod 4294967296 = take_bit 32 (uint w)" for k
    by (simp_all add: take_bit_eq_mod)
  show
    "ucast (take_bit 32 (ucast v :: u64)) = v" "take_bit 64 w = w"
    "scast (ucast (take_bit 8 (ucast (ucast v :: 8 word) :: u64)) :: 8 word) = (word_of_int (signed_take_bit 7 (sint v)) :: u32)"
    "ucast (ucast (take_bit 8 (ucast (ucast v :: 8 word) :: u64)) :: 8 word) = (word_of_int (uint v mod 2 ^ 8) :: u32)"
    "scast (ucast (take_bit 16 (ucast (ucast v :: 16 word) :: u64)) :: 16 word) = (word_of_int (signed_take_bit 15 (sint v)) :: u32)"
    "ucast (ucast (take_bit 16 (ucast (ucast v :: 16 word) :: u64)) :: 16 word) = (word_of_int (uint v mod 2 ^ 16) :: u32)"
    "scast (ucast (take_bit 8 (ucast (ucast w :: 8 word) :: u64)) :: 8 word) = (word_of_int (signed_take_bit 7 (sint w)) :: u64)"
    "ucast (ucast (take_bit 8 (ucast (ucast w :: 8 word) :: u64)) :: 8 word) = (word_of_int (uint w mod 2 ^ 8) :: u64)"
    "scast (ucast (take_bit 16 (ucast (ucast w :: 16 word) :: u64)) :: 16 word) = (word_of_int (signed_take_bit 15 (sint w)) :: u64)"
    "ucast (ucast (take_bit 16 (ucast (ucast w :: 16 word) :: u64)) :: 16 word) = (word_of_int (uint w mod 2 ^ 16) :: u64)"
    unfolding m by (auto intro!: bit_word_eqI simp: bit_simps min_def)
qed

lemma low_word:
  fixes w :: u64
  shows "scast (ucast w :: 32 word) = (word_of_int (signed_take_bit 31 (sint w)) :: u64)"
    and "ucast (ucast w :: 32 word) = (word_of_int (uint w mod 4294967296) :: u64)"
proof -
  have m: "uint w mod 4294967296 = take_bit 32 (uint w)" by (simp add: take_bit_eq_mod)
  show "scast (ucast w :: 32 word) = (word_of_int (signed_take_bit 31 (sint w)) :: u64)"
    by (auto intro!: bit_word_eqI simp: bit_simps min_def)
  show "ucast (ucast w :: 32 word) = (word_of_int (uint w mod 4294967296) :: u64)"
    unfolding m by (auto intro!: bit_word_eqI simp: bit_simps)
qed

lemma load_after_read:
  assumes "store_bits sop v = Inr (n, w)" and "expected_load sop lop v = Some r"
    and "memory_read mem a n = Inr (take_bit (8 * n) w)"
  shows "memory_load mem a lop = Inr r"
  using assms
  apply (cases v)
     apply (auto simp: store_bits_def expected_load_def memory_load_def low_bytes split: if_splits)
   apply (rule low_word)+
  done

text \<open>C5. A WebAssembly store that succeeds lies inside the memory, changes only the bytes of its
  width at its address and keeps the memory's size and the rest of the instance; a load of the
  matching width at that address then gives back the stored value, sign- or zero-extended from its
  low bits where the access is narrower than the value.\<close>

theorem memory_store_load:
  assumes "memory_store a sop v i = Inr i'" and "instance_ok i"
  shows "a + store_width sop \<le> length (wi_memory i) \<and> instance_ok i' \<and>
    i' = i\<lparr>wi_memory := wi_memory i'\<rparr> \<and> length (wi_memory i') = length (wi_memory i) \<and>
    (\<forall>k. k < a \<or> a + store_width sop \<le> k \<longrightarrow> wi_memory i' ! k = wi_memory i ! k) \<and>
    (\<forall>lop r. expected_load sop lop v = Some r \<longrightarrow> memory_load (wi_memory i') a lop = Inr r)"
proof -
  from assms(1) obtain n w where b: "store_bits sop v = Inr (n, w)"
    and e: "a + n \<le> length (wi_memory i)"
    and i': "i' = i\<lparr>wi_memory := splice (wi_memory i) a (to_le_bytes n w)\<rparr>"
    by (auto simp: memory_store_def result_simps)
  have n: "n = store_width sop" by (rule store_bits_width [OF b])
  have m: "length (wi_memory i) \<le> u64_max"
    using assms(2) by (simp add: instance_ok_def memory_size_ok_def MAX_MEMORY_BYTES_def u64_max_def)
  have "memory_load (wi_memory i') a lop = Inr r" if "expected_load sop lop v = Some r" for lop r
    using load_after_read [OF b that memory_read_store [OF assms(1) b m]] .
  moreover have "instance_ok i'"
    unfolding i' by (rule instance_ok_splice [OF assms(2)]) (simp add: e)
  moreover have "wi_memory i' ! k = wi_memory i ! k" if "k < a \<or> a + n \<le> k" for k
    using splice_outside [of a "to_le_bytes n w" "wi_memory i" k] e that by (simp add: i')
  ultimately show ?thesis
    using e by (simp add: i' n length_splice)
qed

lemma to_le_bytes_numeral [eval_simps]:
  "to_le_bytes (numeral k) w = ucast w # to_le_bytes (pred_numeral k) (drop_bit 8 w)"
  by (simp only: numeral_eq_Suc to_le_bytes.simps)

lemma store_sample:
  "memory_store 9 0x3C (I64 0xFFEE) sample_instance
   = Inr (sample_instance\<lparr>wi_memory := splice (wi_memory sample_instance) 9 [0xEE]\<rparr>)"
  by (simp add: memory_store_def store_bits_def checked_add_def u64_max_def sample_instance_def
      length_splice)

theorem memory_store_load_witness:
  "\<exists>i'. memory_store 9 0x3C (I64 0xFFEE) sample_instance = Inr i' \<and>
     memory_load (wi_memory i') 9 0x30 = Inr (I64 (- 18)) \<and>
     memory_load (wi_memory i') 9 0x31 = Inr (I64 238)"
  using memory_store_load [OF store_sample] instance_ok_sample
  by (simp add: store_sample expected_load_def)

section \<open>Integer division\<close>

text \<open>The division the WebAssembly specification asks for, on integers: the quotient truncated
  towards zero with the remainder that takes the sign of the dividend.\<close>

definition truncated_division :: "int \<Rightarrow> int \<Rightarrow> int \<Rightarrow> int \<Rightarrow> bool" where
  "truncated_division a b q r \<longleftrightarrow> a = q * b + r \<and> \<bar>r\<bar> < \<bar>b\<bar> \<and> (r = 0 \<or> sgn r = sgn a)"

lemma sgn_smod: "a smod b = 0 \<or> sgn (a smod b) = sgn a" for a b :: int
proof -
  have "0 \<le> \<bar>a\<bar> mod \<bar>b\<bar>" by (cases "b = 0") simp_all
  then show ?thesis by (auto simp: smod_int_alt_def sgn_mult)
qed

lemma truncated_division_sdiv:
  assumes "b \<noteq> 0"
  shows "truncated_division a b (a sdiv b) (a smod b)"
proof -
  have "\<bar>a smod b\<bar> < \<bar>b\<bar>" using smod_int_range [OF assms, of a] by auto
  moreover have "a = a sdiv b * b + a smod b" by (rule sdiv_mult_smod_eq [symmetric])
  ultimately show ?thesis using sgn_smod by (simp add: truncated_division_def)
qed

text \<open>Only the quotient of the least number and \<open>-1\<close> leaves the range.\<close>

lemma sdiv_range:
  fixes a b :: int
  assumes "- (2 ^ n) \<le> a" and "a < 2 ^ n" and "\<not> (a = - (2 ^ n) \<and> b = - 1)"
  shows "- (2 ^ n) \<le> a sdiv b" and "a sdiv b < 2 ^ n"
proof -
  have r: "\<bar>a sdiv b\<bar> \<le> \<bar>a\<bar>" using sdiv_int_range [of a b] by auto
  then show "- (2 ^ n) \<le> a sdiv b" using assms by auto
  show "a sdiv b < 2 ^ n"
  proof (rule ccontr)
    assume "\<not> a sdiv b < 2 ^ n"
    with r assms have a: "a = - (2 ^ n)" "a sdiv b = - a" by linarith+
    then have "a \<noteq> 0" by simp
    with a(2) have "b = - 1" using int_sdiv_negated_is_minus1 by blast
    with a(1) assms(3) show False by simp
  qed
qed

lemma sint_word_of_int_eq:
  "- (2 ^ (LENGTH('a) - 1)) \<le> x \<Longrightarrow> x < 2 ^ (LENGTH('a) - 1) \<Longrightarrow> sint (word_of_int x :: 'a::len word) = x"
  by (simp add: sint_sbintrunc' signed_take_bit_int_eq_self)

lemma signed_division_words:
  fixes a b :: "'a::len word"
  assumes "b \<noteq> 0"
  shows "sint (word_of_int (sint a smod sint b) :: 'a word) = sint a smod sint b"
    and "\<not> (sint a = - (2 ^ (LENGTH('a) - 1)) \<and> sint b = - 1) \<Longrightarrow>
      truncated_division (sint a) (sint b) (sint (word_of_int (sint a sdiv sint b) :: 'a word))
        (sint (word_of_int (sint a smod sint b) :: 'a word))"
proof -
  have b: "sint b \<noteq> 0" using assms by (simp add: signed_eq_0_iff)
  have "\<bar>sint b\<bar> \<le> 2 ^ (LENGTH('a) - 1)" using sint_ge [of b] sint_lt [of b] by auto
  then show m: "sint (word_of_int (sint a smod sint b) :: 'a word) = sint a smod sint b"
    using smod_int_range [OF b, of "sint a"] by (intro sint_word_of_int_eq) auto
  assume "\<not> (sint a = - (2 ^ (LENGTH('a) - 1)) \<and> sint b = - 1)"
  from sdiv_range [OF sint_ge sint_lt this] truncated_division_sdiv [OF b]
  show "truncated_division (sint a) (sint b) (sint (word_of_int (sint a sdiv sint b) :: 'a word))
      (sint (word_of_int (sint a smod sint b) :: 'a word))"
    by (simp add: m sint_word_of_int_eq)
qed

text \<open>Signed division as the interpreter does it, at 32 and 64 bits: a zero divisor traps in
  quotient and remainder; the one quotient that does not fit (the least number by \<open>-1\<close>) traps while
  its remainder is 0; in every other case quotient and remainder are the truncated division of the
  signed operands, with the remainder taking the sign of the dividend.\<close>

theorem signed_division:
  "(if b = 0 then i32_div_s a b = Inl (Err ''integer divide by zero'') \<and>
      i32_rem_s a b = Inl (Err ''integer divide by zero'')
    else if sint a = - (2 ^ 31) \<and> sint b = - 1 then
      i32_div_s a b = Inl (Err ''integer overflow'') \<and> i32_rem_s a b = Inr (I32 0)
    else \<exists>q r. i32_div_s a b = Inr (I32 q) \<and> i32_rem_s a b = Inr (I32 r) \<and>
      truncated_division (sint a) (sint b) (sint q) (sint r)) \<and>
   (if d = 0 then i64_div_s c d = Inl (Err ''integer divide by zero'') \<and>
      i64_rem_s c d = Inl (Err ''integer divide by zero'')
    else if sint c = - (2 ^ 63) \<and> sint d = - 1 then
      i64_div_s c d = Inl (Err ''integer overflow'') \<and> i64_rem_s c d = Inr (I64 0)
    else \<exists>q r. i64_div_s c d = Inr (I64 q) \<and> i64_rem_s c d = Inr (I64 r) \<and>
      truncated_division (sint c) (sint d) (sint q) (sint r))"
  using signed_division_words(2) [of b a] signed_division_words(2) [of d c]
  by (auto simp: i32_div_s_def i32_rem_s_def i64_div_s_def i64_rem_s_def smod_int_alt_def
      simp del: minus_sdiv_eq minus_smod_eq)

end
