(* ===== verification/Wasm_Scan.thy ===== *)
theory Wasm_Scan
  imports Wasm_Numeric
begin

text \<open>
  The scanners of \<^verbatim>\<open>src/src/wasm_interp.rs\<close> that walk raw code: the immediates of an
  instruction (\<^verbatim>\<open>skip_immediates\<close>) and the search for the \<^verbatim>\<open>end\<close> or
  \<^verbatim>\<open>else\<close> that closes a block (\<^verbatim>\<open>find_end\<close>, \<^verbatim>\<open>find_else_or_end\<close>). Positions
  are indices into the code.
\<close>

section \<open>Immediates\<close>

text \<open>The \<^verbatim>\<open>leb\<close> closure: step over one LEB128 value of at most \<open>n\<close> bytes.\<close>

fun skip_leb :: "bytes \<Rightarrow> nat \<Rightarrow> nat \<Rightarrow> error + nat" where
  "skip_leb code 0 pc = Inl (Err ''Immediate too long'')"
| "skip_leb code (Suc n) pc =
     ebind (ok_or (Err ''Truncated immediate'') (get_at code pc)) (\<lambda>byte.
       if and byte 0x80 = 0 then Inr (pc + 1) else skip_leb code n (pc + 1))"

text \<open>The count of a \<^verbatim>\<open>br_table\<close> or typed \<^verbatim>\<open>select\<close>: up to three groups, at shifts 0, 7
  and 14, whether or not the last of them ends the number.\<close>

fun scan_count :: "string \<Rightarrow> bytes \<Rightarrow> nat \<Rightarrow> nat \<Rightarrow> u32 \<Rightarrow> nat \<Rightarrow> error + (u32 \<times> nat)" where
  "scan_count msg code 0 shift count pc = Inr (count, pc)"
| "scan_count msg code (Suc n) shift count pc =
     ebind (ok_or (Err msg) (get_at code pc)) (\<lambda>byte.
       let count' = or count (push_bit shift (ucast (and byte 0x7F)))
       in if and byte 0x80 = 0 then Inr (count', pc + 1)
          else scan_count msg code n (shift + 7) count' (pc + 1))"

fun skip_lebs :: "bytes \<Rightarrow> nat \<Rightarrow> nat \<Rightarrow> error + nat" where
  "skip_lebs code 0 pc = Inr pc"
| "skip_lebs code (Suc n) pc = ebind (skip_leb code 5 pc) (skip_lebs code n)"

definition is_short_block_type :: "u8 \<Rightarrow> bool" where
  "is_short_block_type b \<longleftrightarrow> b = 0x40 \<or> b = 0x7F \<or> b = 0x7E \<or> b = 0x7D \<or> b = 0x7C"

definition skip_immediates :: "bytes \<Rightarrow> nat \<Rightarrow> error + nat" where
  "skip_immediates code pc =
     ebind (ok_or (Err ''Truncated instruction'') (get_at code pc)) (\<lambda>opcode.
       let cursor = pc + 1
       in if 0x02 \<le> opcode \<and> opcode \<le> 0x04 then
            ebind (ok_or (Err ''Missing block type'') (get_at code cursor)) (\<lambda>block_type.
              if is_short_block_type block_type then Inr (cursor + 1) else skip_leb code 5 (cursor + 1))
          else if opcode = 0x0C \<or> opcode = 0x0D \<or> opcode = 0x10 \<or> opcode = 0x12 \<or> opcode = 0x13 then
            skip_leb code 5 cursor
          else if opcode = 0x11 then ebind (skip_leb code 5 cursor) (skip_leb code 5)
          else if opcode = 0x0E then
            ebind (scan_count ''Truncated br_table'' code 3 0 0 cursor) (\<lambda>(count, cursor').
              skip_lebs code (min (unat count) MAX_LABELS + 1) cursor')
          else if opcode = 0x1C then
            ebind (scan_count ''Truncated select_t'' code 3 0 0 cursor) (\<lambda>(count, cursor').
              Inr (sat_add cursor' (min (unat count) 4)))
          else if 0x20 \<le> opcode \<and> opcode \<le> 0x24 then skip_leb code 5 cursor
          else if 0x28 \<le> opcode \<and> opcode \<le> 0x3E then ebind (skip_leb code 5 cursor) (skip_leb code 5)
          else if opcode = 0x3F \<or> opcode = 0x40 then Inr (cursor + 1)
          else if opcode = 0x41 \<or> opcode = 0x42 then skip_leb code 10 cursor
          else if opcode = 0x43 then Inr (cursor + 4)
          else if opcode = 0x44 then Inr (cursor + 8)
          else Inr cursor)"

lemma skip_leb_forward: "skip_leb code n pc = Inr pc' \<Longrightarrow> pc < pc' \<and> pc' \<le> length code"
proof (induction n arbitrary: pc)
  case 0
  then show ?case by simp
next
  case (Suc n)
  then show ?case by (fastforce simp: result_simps split: if_splits dest: Suc.IH)
qed

lemma scan_count_forward: "scan_count msg code n s k pc = Inr (k', pc') \<Longrightarrow> pc \<le> pc'"
proof (induction n arbitrary: s k pc)
  case 0
  then show ?case by simp
next
  case (Suc n)
  then show ?case by (fastforce simp: result_simps Let_def split: if_splits dest: Suc.IH)
qed

lemma scan_count_inside: "scan_count msg code n s k pc = Inr (k', pc') \<Longrightarrow> pc \<le> length code \<Longrightarrow> pc' \<le> length code"
proof (induction n arbitrary: s k pc)
  case 0
  then show ?case by simp
next
  case (Suc n)
  then show ?case by (fastforce simp: result_simps Let_def split: if_splits dest: Suc.IH)
qed

lemma skip_lebs_forward: "skip_lebs code n pc = Inr pc' \<Longrightarrow> pc \<le> pc'"
proof (induction n arbitrary: pc)
  case 0
  then show ?case by simp
next
  case (Suc n)
  then show ?case by (fastforce simp: result_simps dest: skip_leb_forward Suc.IH)
qed

text \<open>Every instruction is at least its opcode byte.\<close>

lemma skip_immediates_forward: "skip_immediates code pc = Inr pc' \<Longrightarrow> pc < pc'"
  by (auto simp: skip_immediates_def Let_def result_simps split: if_splits
      dest!: skip_leb_forward scan_count_forward skip_lebs_forward
      intro: less_le_trans [OF _ sat_add_ge])

section \<open>Matching the end of a block\<close>

text \<open>The depth behind an opcode that does not end the search.\<close>

definition scan_depth :: "u8 \<Rightarrow> nat \<Rightarrow> nat" where
  "scan_depth op depth =
     (if 0x02 \<le> op \<and> op \<le> 0x04 then depth + 1 else if op = 0x0B then depth - 1 else depth)"

function find_end_loop :: "bytes \<Rightarrow> nat \<Rightarrow> nat \<Rightarrow> error + nat" where
  "find_end_loop code depth cursor =
     (if cursor < length code then
        if code ! cursor = 0x0B \<and> depth = 0 then Inr cursor
        else ebind (skip_immediates code cursor)
               (\<lambda>cursor'. find_end_loop code (scan_depth (code ! cursor) depth) cursor')
      else Inl (Err ''Unbalanced block: missing end''))"
  by pat_completeness auto
termination
  by (relation "measure (\<lambda>(code, depth, cursor). length code - cursor)")
    (auto dest: skip_immediates_forward)

declare find_end_loop.simps [simp del]

definition find_end :: "bytes \<Rightarrow> nat \<Rightarrow> error + nat" where
  "find_end code pc = find_end_loop code 0 pc"

function find_else_loop :: "bytes \<Rightarrow> nat \<Rightarrow> nat \<Rightarrow> error + nat" where
  "find_else_loop code depth cursor =
     (if cursor < length code then
        if (code ! cursor = 0x05 \<or> code ! cursor = 0x0B) \<and> depth = 0 then Inr (cursor + 1)
        else ebind (skip_immediates code cursor)
               (\<lambda>cursor'. find_else_loop code (scan_depth (code ! cursor) depth) cursor')
      else Inl (Err ''Unbalanced block: missing end''))"
  by pat_completeness auto
termination
  by (relation "measure (\<lambda>(code, depth, cursor). length code - cursor)")
    (auto dest: skip_immediates_forward)

declare find_else_loop.simps [simp del]

definition find_else_or_end :: "bytes \<Rightarrow> nat \<Rightarrow> error + nat" where
  "find_else_or_end code pc = find_else_loop code 0 pc"

text \<open>The two scans run in lock step until the one that also looks for an \<^verbatim>\<open>else\<close> stops.\<close>

lemma find_loops_agree:
  assumes "find_end_loop code depth pc = Inr e"
  shows "pc \<le> e \<and> e < length code \<and> code ! e = 0x0B \<and>
    (\<exists>k. find_else_loop code depth pc = Inr k \<and> pc < k \<and> (k = e + 1 \<or> k \<le> e \<and> code ! (k - 1) = 0x05))"
  using assms
proof (induction code depth pc rule: find_end_loop.induct)
  case (1 code depth cursor)
  from "1.prems" have inside: "cursor < length code"
    by (subst (asm) find_end_loop.simps) (simp split: if_splits)
  show ?case
  proof (cases "code ! cursor = 0x0B \<and> depth = 0")
    case True
    with "1.prems" inside have "e = cursor"
      by (subst (asm) find_end_loop.simps) simp
    with True inside show ?thesis
      by (subst find_else_loop.simps) simp
  next
    case False
    with "1.prems" inside obtain c' where s: "skip_immediates code cursor = Inr c'"
      and l: "find_end_loop code (scan_depth (code ! cursor) depth) c' = Inr e"
      by (subst (asm) find_end_loop.simps) (auto simp: result_simps)
    have fwd: "cursor < c'" using s by (rule skip_immediates_forward)
    note IH = "1.IH" [OF inside False s l]
    show ?thesis
    proof (cases "code ! cursor = 0x05 \<and> depth = 0")
      case True
      then have "find_else_loop code depth cursor = Inr (cursor + 1)"
        using inside by (subst find_else_loop.simps) simp
      with True IH fwd show ?thesis by auto
    next
      case no_else: False
      then have "find_else_loop code depth cursor = find_else_loop code (scan_depth (code ! cursor) depth) c'"
        using inside False s by (subst find_else_loop.simps) auto
      with IH fwd show ?thesis by auto
    qed
  qed
qed

text \<open>When the interpreter finds the \<^verbatim>\<open>end\<close> of a block, that position lies inside the code,
  not before the start of the search, and holds the \<^verbatim>\<open>end\<close> opcode; the scan for an
  \<^verbatim>\<open>else\<close> then succeeds too, and stops either right behind an \<^verbatim>\<open>else\<close> before that end
  or right behind that very end. So the jump of a false \<^verbatim>\<open>if\<close> to the smaller of the two
  positions enters the else branch exactly when there is one.\<close>

theorem find_end_else:
  assumes "find_end code pc = Inr e"
  shows "pc \<le> e \<and> e < length code \<and> code ! e = 0x0B \<and>
    (\<exists>k. find_else_or_end code pc = Inr k \<and> pc < k \<and>
      (k = e + 1 \<or> k \<le> e \<and> code ! (k - 1) = 0x05))"
  using find_loops_agree [OF assms [unfolded find_end_def]] by (simp add: find_else_or_end_def)

lemma skip_leb_numeral [eval_simps]:
  "skip_leb code (numeral k) pc =
     ebind (ok_or (Err ''Truncated immediate'') (get_at code pc)) (\<lambda>byte.
       if and byte 0x80 = 0 then Inr (pc + 1) else skip_leb code (pred_numeral k) (pc + 1))"
  by (simp only: numeral_eq_Suc skip_leb.simps)

lemma scan_count_numeral [eval_simps]:
  "scan_count msg code (numeral k) shift count pc =
     ebind (ok_or (Err msg) (get_at code pc)) (\<lambda>byte.
       let count' = or count (push_bit shift (ucast (and byte 0x7F)))
       in if and byte 0x80 = 0 then Inr (count', pc + 1)
          else scan_count msg code (pred_numeral k) (shift + 7) count' (pc + 1))"
  by (simp only: numeral_eq_Suc scan_count.simps)

lemma skip_lebs_numeral [eval_simps]:
  "skip_lebs code (numeral k) pc = ebind (skip_leb code 5 pc) (skip_lebs code (pred_numeral k))"
  by (simp only: numeral_eq_Suc skip_lebs.simps)

lemmas [eval_simps] = is_short_block_type_def
  skip_immediates_def scan_depth_def find_end_loop.simps find_end_def find_else_loop.simps
  find_else_or_end_def

text \<open>The body of an \<^verbatim>\<open>if\<close>: \<open>i32.const 11\<close> (whose operand looks like an end), else,
  \<open>i32.const 5\<close>, end.\<close>

theorem find_end_else_witness:
  "find_end [0x41, 0x0B, 0x05, 0x41, 0x05, 0x0B, 0x0B] 0 = Inr 5 \<and>
   find_else_or_end [0x41, 0x0B, 0x05, 0x41, 0x05, 0x0B, 0x0B] 0 = Inr 3"
proof -
  have e: "find_end [0x41, 0x0B, 0x05, 0x41, 0x05, 0x0B, 0x0B] 0 = Inr 5"
    by (simp add: eval_simps cong: ebind_weak_cong)
  have k: "find_else_or_end [0x41, 0x0B, 0x05, 0x41, 0x05, 0x0B, 0x0B] 0 = Inr 3"
    by (simp add: eval_simps cong: ebind_weak_cong)
  from find_end_else [OF e] e k show ?thesis by simp
qed

end
