(* ===== verification/Wasm_Exec.thy ===== *)
theory Wasm_Exec
  imports Wasm_Scan
begin

text \<open>
  The interpreter proper (\<^verbatim>\<open>exec_instruction\<close>, \<^verbatim>\<open>execute_frame\<close>,
  \<^verbatim>\<open>run_function\<close> and \<^verbatim>\<open>invoke\<close> of \<^verbatim>\<open>src/src/wasm_interp.rs\<close>). Vectors used as
  stacks are lists with the top at the head: the operand stack and the control stack of a frame, and
  the frames of the call chain (the head is the running one). \<^verbatim>\<open>execute_frame\<close> and
  \<^verbatim>\<open>run_function\<close> call each other; the recursion carries fuel, and the step budget shows
  that a fixed amount of fuel is always enough. A trap is an error value; the state comes back with
  it, because the memory and globals written before the trap stay written.
\<close>

section \<open>Frames\<close>

datatype control_kind = CBlock | CLoop | CIf

record control_frame =
  cf_kind :: control_kind
  cf_else_pc :: nat
  cf_end_pc :: nat
  cf_stack_height :: nat
  cf_result_count :: nat

record frame =
  fr_function_index :: u32
  fr_pc :: nat
  fr_locals :: "wasm_value list"
  fr_stack :: stack
  fr_controls :: "control_frame list"
  fr_stack_height :: nat
  fr_steps :: nat

datatype action = AContinue | ABranch u32 | ACall u32 | ACallIndirect u32 | AReturn

text \<open>What one instruction yields: the action, the instance and the running frame.\<close>

type_synonym exec_result = "error + (action \<times> wasm_instance \<times> frame)"

section \<open>Immediates\<close>

fun exec_leb_u32_loop :: "nat \<Rightarrow> u32 \<Rightarrow> nat \<Rightarrow> bytes \<Rightarrow> nat \<Rightarrow> error + (u32 \<times> nat)" where
  "exec_leb_u32_loop 0 result shift code pc = Inl (Err ''Instruction immediate too long'')"
| "exec_leb_u32_loop (Suc n) result shift code pc =
     ebind (ok_or (Err ''Instruction immediate out of range'') (get_at code pc)) (\<lambda>byte.
       let result' = or result (push_bit shift (ucast (and byte 0x7F)))
       in if and byte 0x80 = 0 then Inr (result', pc + 1)
          else exec_leb_u32_loop n result' (shift + 7) code (pc + 1))"

definition exec_leb_u32 :: "bytes \<Rightarrow> nat \<Rightarrow> error + (u32 \<times> nat)" where
  "exec_leb_u32 code pc = exec_leb_u32_loop 5 0 0 code pc"

text \<open>The signed loops stop after five and ten groups; \<open>most\<close> is that shift, \<open>width\<close> the number of
  bits of the result.\<close>

function exec_leb_signed :: "nat \<Rightarrow> nat \<Rightarrow> 'a::len word \<Rightarrow> nat \<Rightarrow> bytes \<Rightarrow> nat \<Rightarrow> error + ('a word \<times> nat)" where
  "exec_leb_signed width most result shift code pc =
     ebind (ok_or (Err ''Instruction immediate out of range'') (get_at code pc)) (\<lambda>byte.
       let result' = or result (push_bit shift (ucast (and byte 0x7F))); shift' = shift + 7
       in if and byte 0x80 = 0 then
            Inr (if shift' < width \<and> and byte 0x40 \<noteq> 0 then or result' (push_bit shift' (-1)) else result',
                 pc + 1)
          else if most \<le> shift' then Inl (Err ''Instruction immediate too long'')
          else exec_leb_signed width most result' shift' code (pc + 1))"
  by pat_completeness auto
termination
  by (relation "measure (\<lambda>(width, most, r, s, code, pc). most - s)") auto

declare exec_leb_signed.simps [simp del]

definition exec_leb_i32 :: "bytes \<Rightarrow> nat \<Rightarrow> error + (u32 \<times> nat)" where
  "exec_leb_i32 code pc = exec_leb_signed 32 35 0 0 code pc"

definition exec_leb_i64 :: "bytes \<Rightarrow> nat \<Rightarrow> error + (u64 \<times> nat)" where
  "exec_leb_i64 code pc = exec_leb_signed 64 70 0 0 code pc"

fun exec_labels :: "nat \<Rightarrow> bytes \<Rightarrow> nat \<Rightarrow> error + (u32 list \<times> nat)" where
  "exec_labels 0 code pc = Inr ([], pc)"
| "exec_labels (Suc n) code pc =
     ebind (exec_leb_u32 code pc) (\<lambda>(label, pc1).
     ebind (exec_labels n code pc1) (\<lambda>(labels, pc2). Inr (label # labels, pc2)))"

text \<open>The bytes of a type-index block type are read up to one without the continuation bit; the
  number they form is not used.\<close>

function skip_block_index :: "bytes \<Rightarrow> nat \<Rightarrow> error + nat" where
  "skip_block_index code pc =
     (if pc < length code then
        (if and (code ! pc) 0x80 = 0 then Inr (pc + 1) else skip_block_index code (pc + 1))
      else Inl (Err ''Block type index out of range''))"
  by pat_completeness auto
termination
  by (relation "measure (\<lambda>(code, pc). length code - pc)") auto

declare skip_block_index.simps [simp del]

section \<open>Control instructions\<close>

definition block_kind :: "u8 \<Rightarrow> control_kind" where
  "block_kind opcode = (if opcode = 0x02 then CBlock else if opcode = 0x03 then CLoop else CIf)"

definition block_result_count :: "wasm_module \<Rightarrow> u8 \<Rightarrow> error + nat" where
  "block_result_count m block_type =
     (if block_type = 0x40 then Inr 0
      else if 0x7C \<le> block_type \<and> block_type \<le> 0x7F then Inr 1
      else if unat block_type \<ge> length (m_types m) then Inl (Err ''Block type index out of range'')
      else Inr (min (length (ft_results (m_types m ! unat block_type))) 1))"

text \<open>Enter the block whose body starts at the frame's position.\<close>

definition enter_block :: "control_kind \<Rightarrow> nat \<Rightarrow> bytes \<Rightarrow> frame \<Rightarrow> error + frame" where
  "enter_block kind result_count code f =
     ebind (find_end code (fr_pc f)) (\<lambda>end_pc.
       Inr (f\<lparr>fr_controls := \<lparr>cf_kind = kind, cf_else_pc = fr_pc f, cf_end_pc = end_pc,
                cf_stack_height = length (fr_stack f), cf_result_count = result_count\<rparr> # fr_controls f\<rparr>))"

text \<open>A false \<^verbatim>\<open>if\<close>: go on behind the \<^verbatim>\<open>else\<close>, or at the \<^verbatim>\<open>end\<close>.\<close>

definition skip_if :: "nat \<Rightarrow> bytes \<Rightarrow> frame \<Rightarrow> error + frame" where
  "skip_if result_count code f =
     ebind (find_else_or_end code (fr_pc f)) (\<lambda>else_pc.
     ebind (find_end code (fr_pc f)) (\<lambda>end_pc.
       Inr (f\<lparr>fr_pc := (if else_pc < end_pc then else_pc else end_pc),
              fr_controls := \<lparr>cf_kind = CIf, cf_else_pc = else_pc, cf_end_pc = end_pc,
                cf_stack_height = length (fr_stack f), cf_result_count = result_count\<rparr> # fr_controls f\<rparr>)))"

definition pop_condition :: "string \<Rightarrow> string \<Rightarrow> frame \<Rightarrow> error + (u32 \<times> frame)" where
  "pop_condition msg_empty msg_type f =
     ebind (pop_value msg_empty (fr_stack f)) (\<lambda>(v, st).
       case v of I32 c \<Rightarrow> Inr (c, f\<lparr>fr_stack := st\<rparr>) | _ \<Rightarrow> Inl (Err msg_type))"

definition exec_block :: "u8 \<Rightarrow> bytes \<Rightarrow> wasm_module \<Rightarrow> frame \<Rightarrow> error + frame" where
  "exec_block opcode code m f =
     ebind (ok_or (Err ''Missing block type'') (get_at code (fr_pc f))) (\<lambda>block_type.
     ebind (if is_short_block_type block_type then Inr (fr_pc f + 1)
            else skip_block_index code (fr_pc f + 1)) (\<lambda>pc.
     ebind (block_result_count m block_type) (\<lambda>result_count.
       let f1 = f\<lparr>fr_pc := pc\<rparr>
       in if block_kind opcode = CIf then
            ebind (pop_condition ''if missing condition'' ''if condition must be i32'' f1) (\<lambda>(c, f2).
              if c = 0 then skip_if result_count code f2
              else enter_block CIf result_count code f2)
          else enter_block (block_kind opcode) result_count code f1)))"

definition exec_else :: "bytes \<Rightarrow> frame \<Rightarrow> error + frame" where
  "exec_else code f = ebind (find_end code (fr_pc f)) (\<lambda>end_pc. Inr (f\<lparr>fr_pc := end_pc\<rparr>))"

definition exec_br :: "u8 \<Rightarrow> bytes \<Rightarrow> frame \<Rightarrow> error + (action \<times> frame)" where
  "exec_br opcode code f =
     ebind (exec_leb_u32 code (fr_pc f)) (\<lambda>(label, pc).
       let f1 = f\<lparr>fr_pc := pc\<rparr>
       in if unat label \<ge> length (fr_controls f1) + 1 then Inl (Err ''br label out of range'')
          else if opcode = 0x0D then
            ebind (pop_condition ''br_if missing condition'' ''br_if condition must be i32'' f1) (\<lambda>(c, f2).
              if c = 0 then Inr (AContinue, f2) else Inr (ABranch label, f2))
          else Inr (ABranch label, f1))"

definition exec_br_table :: "bytes \<Rightarrow> frame \<Rightarrow> error + (action \<times> frame)" where
  "exec_br_table code f =
     ebind (exec_leb_u32 code (fr_pc f)) (\<lambda>(count, pc1).
       if unat count > MAX_LABELS then Inl (Err ''br_table label budget exceeded'')
       else ebind (exec_labels (unat count) code pc1) (\<lambda>(labels, pc2).
         ebind (exec_leb_u32 code pc2) (\<lambda>(default_label, pc3).
         ebind (pop_condition ''br_table missing index'' ''br_table index must be i32'' (f\<lparr>fr_pc := pc3\<rparr>))
           (\<lambda>(index, f1).
             Inr (ABranch (if 0 \<le> sint index \<and> unat index < length labels then labels ! unat index
                           else default_label), f1)))))"

definition exec_call :: "u8 \<Rightarrow> bytes \<Rightarrow> frame \<Rightarrow> error + (action \<times> frame)" where
  "exec_call opcode code f =
     ebind (exec_leb_u32 code (fr_pc f)) (\<lambda>(index, pc).
       if opcode = 0x10 \<or> opcode = 0x12 then Inr (ACall index, f\<lparr>fr_pc := pc\<rparr>)
       else if opcode = 0x11 then
         ebind (ok_or (Err ''call_indirect reserved byte missing'') (get_at code pc)) (\<lambda>reserved.
           if reserved \<noteq> 0 then Inl (Err ''call_indirect reserved byte must be zero'')
           else Inr (ACallIndirect index, f\<lparr>fr_pc := pc + 1\<rparr>))
       else Inr (ACallIndirect index, f\<lparr>fr_pc := pc\<rparr>))"

section \<open>Parametric and variable instructions\<close>

definition same_variant :: "wasm_value \<Rightarrow> wasm_value \<Rightarrow> bool" where
  "same_variant a b \<longleftrightarrow> variant_name a = variant_name b"

definition exec_parametric :: "u8 \<Rightarrow> frame \<Rightarrow> error + frame" where
  "exec_parametric opcode f =
     (if opcode = 0x1A then
        ebind (pop_value ''drop on empty stack'' (fr_stack f)) (\<lambda>(_, st). Inr (f\<lparr>fr_stack := st\<rparr>))
      else
        ebind (pop_condition ''select missing condition'' ''select condition must be i32'' f) (\<lambda>(c, f1).
        ebind (pop_value ''select missing operand'' (fr_stack f1)) (\<lambda>(second, st2).
        ebind (pop_value ''select missing operand'' st2) (\<lambda>(first, st1).
          if \<not> same_variant first second then Inl (Err ''select operand type mismatch'')
          else Inr (f1\<lparr>fr_stack := (if c \<noteq> 0 then first else second) # st1\<rparr>)))))"

definition exec_local :: "u8 \<Rightarrow> bytes \<Rightarrow> frame \<Rightarrow> error + frame" where
  "exec_local opcode code f =
     ebind (exec_leb_u32 code (fr_pc f)) (\<lambda>(index, pc).
       let f1 = f\<lparr>fr_pc := pc\<rparr>
       in if opcode = 0x20 then
            ebind (ok_or (Err ''local.get index out of range'') (get_at (fr_locals f1) (unat index))) (\<lambda>v.
              Inr (f1\<lparr>fr_stack := v # fr_stack f1\<rparr>))
          else if opcode = 0x21 then
            ebind (pop_value ''local.set on empty stack'' (fr_stack f1)) (\<lambda>(v, st).
              if unat index < length (fr_locals f1)
              then Inr (f1\<lparr>fr_stack := st, fr_locals := (fr_locals f1)[unat index := v]\<rparr>)
              else Inl (Err ''local.set index out of range''))
          else
            ebind (pop_value ''local.tee on empty stack'' (fr_stack f1)) (\<lambda>(v, st).
              if unat index < length (fr_locals f1)
              then Inr (f1\<lparr>fr_locals := (fr_locals f1)[unat index := v]\<rparr>)
              else Inl (Err ''local.tee index out of range'')))"

definition exec_global :: "u8 \<Rightarrow> bytes \<Rightarrow> wasm_instance \<Rightarrow> frame \<Rightarrow> error + (wasm_instance \<times> frame)" where
  "exec_global opcode code i f =
     ebind (exec_leb_u32 code (fr_pc f)) (\<lambda>(index, pc).
       let f1 = f\<lparr>fr_pc := pc\<rparr>
       in if opcode = 0x23 then
            ebind (ok_or (Err ''global.get index out of range'') (get_at (wi_globals i) (unat index))) (\<lambda>v.
              Inr (i, f1\<lparr>fr_stack := v # fr_stack f1\<rparr>))
          else
            ebind (pop_value ''global.set on empty stack'' (fr_stack f1)) (\<lambda>(v, st).
              if unat index < length (wi_globals i)
              then Inr (i\<lparr>wi_globals := (wi_globals i)[unat index := v]\<rparr>, f1\<lparr>fr_stack := st\<rparr>)
              else Inl (Err ''global.set index out of range'')))"

section \<open>Memory instructions\<close>

text \<open>The alignment hint is read and ignored.\<close>

definition exec_load :: "u8 \<Rightarrow> bytes \<Rightarrow> wasm_instance \<Rightarrow> frame \<Rightarrow> error + frame" where
  "exec_load opcode code i f =
     ebind (exec_leb_u32 code (fr_pc f)) (\<lambda>(align, pc1).
     ebind (exec_leb_u32 code pc1) (\<lambda>(offset, pc2).
     ebind (effective_address (unat offset) (fr_stack f)) (\<lambda>(address, st).
     ebind (memory_load (wi_memory i) address opcode) (\<lambda>v.
       Inr (f\<lparr>fr_pc := pc2, fr_stack := v # st\<rparr>)))))"

definition exec_store :: "u8 \<Rightarrow> bytes \<Rightarrow> wasm_instance \<Rightarrow> frame \<Rightarrow> error + (wasm_instance \<times> frame)" where
  "exec_store opcode code i f =
     ebind (exec_leb_u32 code (fr_pc f)) (\<lambda>(align, pc1).
     ebind (exec_leb_u32 code pc1) (\<lambda>(offset, pc2).
     ebind (pop_value ''store on empty stack'' (fr_stack f)) (\<lambda>(v, st1).
     ebind (effective_address (unat offset) st1) (\<lambda>(address, st2).
     ebind (memory_store address opcode v i) (\<lambda>i'.
       Inr (i', f\<lparr>fr_pc := pc2, fr_stack := st2\<rparr>))))))"

definition memory_pages :: "wasm_instance \<Rightarrow> u32" where
  "memory_pages i = of_nat (length (wi_memory i) div PAGE_SIZE)"

definition exec_memory_size :: "bytes \<Rightarrow> wasm_instance \<Rightarrow> frame \<Rightarrow> error + frame" where
  "exec_memory_size code i f =
     ebind (ok_or (Err ''memory.size reserved byte missing'') (get_at code (fr_pc f))) (\<lambda>reserved.
       if reserved \<noteq> 0 then Inl (Err ''memory.size reserved byte must be zero'')
       else Inr (f\<lparr>fr_pc := fr_pc f + 1, fr_stack := I32 (memory_pages i) # fr_stack f\<rparr>))"

definition exec_memory_grow :: "bytes \<Rightarrow> wasm_instance \<Rightarrow> frame \<Rightarrow> error + (wasm_instance \<times> frame)" where
  "exec_memory_grow code i f =
     ebind (ok_or (Err ''memory.grow reserved byte missing'') (get_at code (fr_pc f))) (\<lambda>reserved.
       if reserved \<noteq> 0 then Inl (Err ''memory.grow reserved byte must be zero'')
       else ebind (pop_condition ''memory.grow missing delta'' ''memory.grow delta must be i32''
                     (f\<lparr>fr_pc := fr_pc f + 1\<rparr>)) (\<lambda>(delta, f1).
         if sint delta < 0 then Inr (i, f1\<lparr>fr_stack := I32 (- 1) # fr_stack f1\<rparr>)
         else ebind (ok_or (Err ''memory.grow overflow'')
                 (checked_add (length (wi_memory i)) (min (unat delta * PAGE_SIZE) u64_max))) (\<lambda>new_bytes.
           if new_bytes > MAX_MEMORY_BYTES then Inr (i, f1\<lparr>fr_stack := I32 (- 1) # fr_stack f1\<rparr>)
           else Inr (resize_memory new_bytes i, f1\<lparr>fr_stack := I32 (memory_pages i) # fr_stack f1\<rparr>))))"

section \<open>Constants\<close>

definition exec_const :: "u8 \<Rightarrow> bytes \<Rightarrow> frame \<Rightarrow> error + frame" where
  "exec_const opcode code f =
     (let push = (\<lambda>v pc. f\<lparr>fr_pc := pc, fr_stack := v # fr_stack f\<rparr>)
      in if opcode = 0x41 then ebind (exec_leb_i32 code (fr_pc f)) (\<lambda>(v, pc). Inr (push (I32 v) pc))
         else if opcode = 0x42 then ebind (exec_leb_i64 code (fr_pc f)) (\<lambda>(v, pc). Inr (push (I64 v) pc))
         else if opcode = 0x43 then
           ebind (ok_or (Err ''f32.const missing bytes'') (get_range code (fr_pc f) (fr_pc f + 4))) (\<lambda>bs.
             Inr (push (F32 (ucast (from_le_bytes bs))) (fr_pc f + 4)))
         else
           ebind (ok_or (Err ''f64.const missing bytes'') (get_range code (fr_pc f) (fr_pc f + 8))) (\<lambda>bs.
             Inr (push (F64 (from_le_bytes bs)) (fr_pc f + 8))))"

section \<open>One instruction\<close>

definition continue_frame :: "wasm_instance \<Rightarrow> error + frame \<Rightarrow> exec_result" where
  "continue_frame i r = ebind r (\<lambda>f. Inr (AContinue, i, f))"

definition continue_both :: "error + (wasm_instance \<times> frame) \<Rightarrow> exec_result" where
  "continue_both r = ebind r (\<lambda>(i, f). Inr (AContinue, i, f))"

definition with_instance :: "wasm_instance \<Rightarrow> error + (action \<times> frame) \<Rightarrow> exec_result" where
  "with_instance i r = ebind r (\<lambda>(a, f). Inr (a, i, f))"

definition exec_instruction :: "nan_env \<Rightarrow> u8 \<Rightarrow> bytes \<Rightarrow> wasm_instance \<Rightarrow> frame \<Rightarrow> exec_result" where
  "exec_instruction ne opcode code i f =
     (if 0x02 \<le> opcode \<and> opcode \<le> 0x04 then continue_frame i (exec_block opcode code (wi_module i) f)
      else if opcode = 0x05 then continue_frame i (exec_else code f)
      else if opcode = 0x0C \<or> opcode = 0x0D then with_instance i (exec_br opcode code f)
      else if opcode = 0x0E then with_instance i (exec_br_table code f)
      else if opcode = 0x0F then Inr (AReturn, i, f)
      else if 0x10 \<le> opcode \<and> opcode \<le> 0x13 then with_instance i (exec_call opcode code f)
      else if opcode = 0x1A \<or> opcode = 0x1B then continue_frame i (exec_parametric opcode f)
      else if 0x20 \<le> opcode \<and> opcode \<le> 0x22 then continue_frame i (exec_local opcode code f)
      else if opcode = 0x23 \<or> opcode = 0x24 then continue_both (exec_global opcode code i f)
      else if 0x28 \<le> opcode \<and> opcode \<le> 0x35 then continue_frame i (exec_load opcode code i f)
      else if 0x36 \<le> opcode \<and> opcode \<le> 0x3E then continue_both (exec_store opcode code i f)
      else if opcode = 0x3F then continue_frame i (exec_memory_size code i f)
      else if opcode = 0x40 then continue_both (exec_memory_grow code i f)
      else if 0x41 \<le> opcode \<and> opcode \<le> 0x44 then continue_frame i (exec_const opcode code f)
      else if 0x45 \<le> opcode \<and> opcode \<le> 0xC4 then
        continue_frame i (ebind (exec_numeric ne opcode (fr_stack f)) (\<lambda>st. Inr (f\<lparr>fr_stack := st\<rparr>)))
      else Inl (ErrByte ''Unsupported opcode'' opcode))"

end
