(* ===== verification/Wasm_Run.thy ===== *)
theory Wasm_Run
  imports Wasm_Exec
begin

text \<open>
  Running a function: one turn of the loop of \<^verbatim>\<open>execute_frame\<close>, the recursion between it
  and \<^verbatim>\<open>run_function\<close>, and \<^verbatim>\<open>invoke\<close>. The turn says whether the loop goes on, the
  frame returns, a function is called or the run traps. Every turn counts a step; the budget of
  1,000,000 steps bounds the number of turns of the whole invocation, calls included, so
  \<open>enough_fuel\<close> never runs out.
\<close>

section \<open>State\<close>

record exec_state =
  es_instance :: wasm_instance
  es_frames :: "frame list"
  es_total_steps :: nat

datatype turn =
    TContinue exec_state
  | TReturn "wasm_value list" exec_state
  | TCall u32 "wasm_value list" exec_state
  | TFail error exec_state

definition detached :: error where
  "detached = Err ''InvalidStateError: WASM frame is detached''"

text \<open>The values above the height at function entry, bottom first.\<close>

definition frame_results :: "frame \<Rightarrow> wasm_value list" where
  "frame_results f = drop (fr_stack_height f) (rev (fr_stack f))"

text \<open>\<^verbatim>\<open>Vec::split_off(n)\<close> from the top: the last \<open>n\<close> values, in vector order, and the rest.\<close>

definition split_args :: "nat \<Rightarrow> stack \<Rightarrow> wasm_value list \<times> stack" where
  "split_args n st = (rev (take n st), drop n st)"

definition body_of :: "wasm_module \<Rightarrow> u32 \<Rightarrow> function_body option" where
  "body_of m function_index =
     (case defined_body_index m function_index of
        None \<Rightarrow> None | Some defined \<Rightarrow> get_at (m_bodies m) defined)"

section \<open>The end of a block\<close>

text \<open>The height of the block may lie above the stack, when the block has dropped values that were
  there before it; the vector then panics.\<close>

definition end_block :: "frame \<Rightarrow> error + frame" where
  "end_block f =
     (case fr_controls f of
        [] \<Rightarrow> Inl (Err ''InvalidStateError: WASM control stack is detached'')
      | control # controls \<Rightarrow>
          let base = cf_stack_height control; len = length (fr_stack f)
          in if len < base then Inl (Panic ''split_off index out of bounds'')
             else let above = len - base; result_count = min (cf_result_count control) above
                  in Inr (f\<lparr>fr_controls := controls,
                           fr_stack := take result_count (fr_stack f) @ drop above (fr_stack f)\<rparr>))"

section \<open>Branches\<close>

text \<open>A branch to a block that is not the function: the control stack is cut down to the target,
  which stays, and the target's results are kept above its height.\<close>

definition branch_block :: "nat \<Rightarrow> frame \<Rightarrow> error + frame" where
  "branch_block label f =
     ebind (ok_or (Err ''br label out of range'') (checked_sub (length (fr_controls f)) (1 + label))) (\<lambda>_.
       let control = fr_controls f ! label;
           target = (if cf_kind control = CLoop then cf_else_pc control else cf_end_pc control);
           keep_count = min (cf_result_count control) (length (fr_stack f) - cf_stack_height control)
       in Inr (f\<lparr>fr_stack := take keep_count (fr_stack f) @
                   drop (length (fr_stack f) - cf_stack_height control) (fr_stack f),
                 fr_controls := drop label (fr_controls f),
                 fr_pc := target\<rparr>))"

section \<open>Calls\<close>

definition call_target :: "u32 \<Rightarrow> exec_state \<Rightarrow> frame \<Rightarrow> frame list \<Rightarrow> turn" where
  "call_target index es f fs =
     (case function_type (wi_module (es_instance es)) index of
        None \<Rightarrow> TFail (Err ''Function index out of range'') es
      | Some t \<Rightarrow>
          let param_count = length (ft_parameters t)
          in if length (fr_stack f) < param_count then TFail (Err ''call missing arguments on stack'') es
             else let (args, st) = split_args param_count (fr_stack f)
                  in TCall index args (es\<lparr>es_frames := f\<lparr>fr_stack := st\<rparr> # fs\<rparr>))"

definition indirect_entry :: "wasm_instance \<Rightarrow> u32 \<Rightarrow> u32 \<Rightarrow> error + (u32 \<times> nat)" where
  "indirect_entry i type_index index =
     (if sint index < 0 then Inl (Err ''call_indirect negative index'')
      else case get_at (wi_table i) (unat index) of
        Some (Some entry) \<Rightarrow>
          ebind (ok_or (Err ''call_indirect target is an import'')
                   (defined_body_index (wi_module i) entry)) (\<lambda>defined.
          ebind (ok_or (Err ''call_indirect target is an import'')
                   (get_at (m_function_type_indices (wi_module i)) defined)) (\<lambda>callee_type_index.
            if callee_type_index \<noteq> type_index then Inl (Err ''call_indirect type mismatch'')
            else ebind (ok_or (Err ''call_indirect type index out of range'')
                     (get_at (m_types (wi_module i)) (unat type_index))) (\<lambda>t.
              Inr (entry, length (ft_parameters t)))))
      | _ \<Rightarrow> Inl (Err ''call_indirect null or out of range''))"

definition call_indirect :: "u32 \<Rightarrow> exec_state \<Rightarrow> frame \<Rightarrow> frame list \<Rightarrow> turn" where
  "call_indirect type_index es f fs =
     (case pop_condition ''call_indirect missing table index'' ''call_indirect table index must be i32'' f of
        Inl e \<Rightarrow> TFail e es
      | Inr (index, f1) \<Rightarrow>
          (case indirect_entry (es_instance es) type_index index of
             Inl e \<Rightarrow> TFail e es
           | Inr (entry, param_count) \<Rightarrow>
               if length (fr_stack f1) < param_count
               then TFail (Err ''call_indirect missing arguments on stack'') es
               else let (args, st) = split_args param_count (fr_stack f1)
                    in TCall entry args (es\<lparr>es_frames := f1\<lparr>fr_stack := st\<rparr> # fs\<rparr>)))"

section \<open>One turn\<close>

text \<open>What follows the instruction, for the running frame \<open>f\<close> on top of the callers \<open>fs\<close>.\<close>

definition perform :: "action \<Rightarrow> exec_state \<Rightarrow> frame \<Rightarrow> frame list \<Rightarrow> turn" where
  "perform a es f fs =
     (case a of
        AContinue \<Rightarrow> TContinue (es\<lparr>es_frames := f # fs\<rparr>)
      | ABranch label \<Rightarrow>
          if unat label = length (fr_controls f) then TReturn (frame_results f) (es\<lparr>es_frames := fs\<rparr>)
          else (case branch_block (unat label) f of
                  Inl e \<Rightarrow> TFail e es
                | Inr f' \<Rightarrow> TContinue (es\<lparr>es_frames := f' # fs\<rparr>))
      | ACall index \<Rightarrow> call_target index es f fs
      | ACallIndirect type_index \<Rightarrow> call_indirect type_index es f fs
      | AReturn \<Rightarrow> TReturn (frame_results f) (es\<lparr>es_frames := fs\<rparr>))"

text \<open>The instruction at the frame's position, with the position already behind its opcode.\<close>

definition step_frame :: "nan_env \<Rightarrow> u8 \<Rightarrow> bytes \<Rightarrow> exec_state \<Rightarrow> frame \<Rightarrow> frame list \<Rightarrow> turn" where
  "step_frame ne opcode code es f fs =
     (if opcode = 0x0B then
        (if fr_controls f = [] then TReturn (frame_results f) (es\<lparr>es_frames := fs\<rparr>)
         else case end_block f of
                Inl e \<Rightarrow> TFail e es
              | Inr f' \<Rightarrow> TContinue (es\<lparr>es_frames := f' # fs\<rparr>))
      else case exec_instruction ne opcode code (es_instance es) f of
             Inl e \<Rightarrow> TFail e es
           | Inr (a, i, f') \<Rightarrow> perform a (es\<lparr>es_instance := i\<rparr>) f' fs)"

definition frame_turn :: "nan_env \<Rightarrow> exec_state \<Rightarrow> turn" where
  "frame_turn ne es =
     (case es_frames es of
        [] \<Rightarrow> TFail detached es
      | f # fs \<Rightarrow>
          let f1 = f\<lparr>fr_steps := fr_steps f + 1\<rparr>;
              es1 = es\<lparr>es_frames := f1 # fs, es_total_steps := es_total_steps es + 1\<rparr>
          in if es_total_steps es1 > MAX_INTERPRETER_STEPS then TFail (Err ''WASM step budget exceeded'') es1
             else if length (fr_stack f1) > MAX_STACK_VALUES
             then TFail (Err ''WASM operand stack budget exceeded'') es1
             else case body_of (wi_module (es_instance es1)) (fr_function_index f1) of
                    None \<Rightarrow> TFail (Err ''Function has no body (import)'') es1
                  | Some body \<Rightarrow>
                      if fr_pc f1 \<ge> length (fb_code body) then TFail (Err ''Function ran past its body'') es1
                      else step_frame ne (fb_code body ! fr_pc f1) (fb_code body) es1
                             (f1\<lparr>fr_pc := fr_pc f1 + 1\<rparr>) fs)"

section \<open>Functions\<close>

definition zero_value :: "value_type \<Rightarrow> error + wasm_value" where
  "zero_value t = (case t of TI32 \<Rightarrow> Inr (I32 0) | TI64 \<Rightarrow> Inr (I64 0) | TF32 \<Rightarrow> Inr (F32 0)
     | TF64 \<Rightarrow> Inr (F64 0) | _ \<Rightarrow> Inl (Err ''Non-numeric local type''))"

fun declare_locals :: "local_decl list \<Rightarrow> wasm_value list \<Rightarrow> error + wasm_value list" where
  "declare_locals [] locals = Inr locals"
| "declare_locals (d # ds) locals =
     (if ld_count d = 0 then declare_locals ds locals
      else ebind (zero_value (ld_value_type d)) (\<lambda>z. declare_locals ds (locals @ replicate (unat (ld_count d)) z)))"

text \<open>\<^verbatim>\<open>run_function\<close> up to the call of \<^verbatim>\<open>execute_frame\<close>: the new frame is pushed.\<close>

definition enter_function :: "u32 \<Rightarrow> wasm_value list \<Rightarrow> exec_state \<Rightarrow> error + exec_state" where
  "enter_function function_index args es =
     (if length (es_frames es) \<ge> MAX_CALL_DEPTH_WASM then Inl (Err ''WASM call depth exceeded'')
      else ebind (ok_or (Err ''Function has no body (import)'')
              (body_of (wi_module (es_instance es)) function_index)) (\<lambda>body.
        ebind (declare_locals (fb_locals body) args) (\<lambda>locals.
          Inr (es\<lparr>es_frames := \<lparr>fr_function_index = function_index, fr_pc = 0, fr_locals = locals,
                 fr_stack = [], fr_controls = [], fr_stack_height = 0, fr_steps = 0\<rparr> # es_frames es\<rparr>))))"

text \<open>The results of a callee go on the caller's stack.\<close>

definition push_results :: "wasm_value list \<Rightarrow> exec_state \<Rightarrow> error + exec_state" where
  "push_results results es =
     (case es_frames es of
        [] \<Rightarrow> Inl detached
      | f # fs \<Rightarrow> Inr (es\<lparr>es_frames := f\<lparr>fr_stack := rev results @ fr_stack f\<rparr> # fs\<rparr>))"

type_synonym outcome = "(error + wasm_value list) \<times> exec_state"

fun execute_frame :: "nan_env \<Rightarrow> nat \<Rightarrow> exec_state \<Rightarrow> outcome option" where
  "execute_frame ne 0 es = None"
| "execute_frame ne (Suc n) es =
     (case frame_turn ne es of
        TContinue es1 \<Rightarrow> execute_frame ne n es1
      | TReturn results es1 \<Rightarrow> Some (Inr results, es1)
      | TFail e es1 \<Rightarrow> Some (Inl e, es1)
      | TCall index args es1 \<Rightarrow>
          (case enter_function index args es1 of
             Inl e \<Rightarrow> Some (Inl e, es1)
           | Inr es2 \<Rightarrow>
               (case execute_frame ne n es2 of
                  None \<Rightarrow> None
                | Some (Inl e, es3) \<Rightarrow> Some (Inl e, es3)
                | Some (Inr results, es3) \<Rightarrow>
                    (case push_results results es3 of
                       Inl e \<Rightarrow> Some (Inl e, es3)
                     | Inr es4 \<Rightarrow> execute_frame ne n es4))))"

definition run_function :: "nan_env \<Rightarrow> nat \<Rightarrow> u32 \<Rightarrow> wasm_value list \<Rightarrow> exec_state \<Rightarrow> outcome option" where
  "run_function ne fuel function_index args es =
     (case enter_function function_index args es of
        Inl e \<Rightarrow> Some (Inl e, es)
      | Inr es1 \<Rightarrow> execute_frame ne fuel es1)"

text \<open>The checks of \<^verbatim>\<open>invoke\<close> before the run: the type of the function.\<close>

definition invoke_type :: "wasm_module \<Rightarrow> u32 \<Rightarrow> wasm_value list \<Rightarrow> error + func_type" where
  "invoke_type m function_index args =
     ebind (ok_or (Err ''Cannot invoke an imported function (host imports unsupported)'')
              (defined_body_index m function_index)) (\<lambda>defined.
     ebind (ok_or (Err ''Function index out of range or is an import'')
              (get_at (m_function_type_indices m) defined)) (\<lambda>type_index.
     ebind (ok_or (Err ''Function type index out of range'') (get_at (m_types m) (unat type_index))) (\<lambda>t.
       if length args \<noteq> length (ft_parameters t)
       then Inl (Err ''Argument count does not match function type'')
       else if get_at (m_bodies m) defined = None
       then Inl (Err ''Cannot invoke an imported function (host imports unsupported)'')
       else Inr t)))"

definition invoke :: "nan_env \<Rightarrow> nat \<Rightarrow> u32 \<Rightarrow> wasm_value list \<Rightarrow> wasm_instance
    \<Rightarrow> ((error + wasm_value list) \<times> wasm_instance) option" where
  "invoke ne fuel function_index args i =
     (case invoke_type (wi_module i) function_index args of
        Inl e \<Rightarrow> Some (Inl e, i)
      | Inr t \<Rightarrow>
          (case run_function ne fuel function_index args
                  \<lparr>es_instance = i, es_frames = [], es_total_steps = 0\<rparr> of
             None \<Rightarrow> None
           | Some (Inl e, es) \<Rightarrow> Some (Inl e, es_instance es)
           | Some (Inr results, es) \<Rightarrow>
               if length results \<noteq> length (ft_results t)
               then Some (Inl (Err ''Result count does not match function type''), es_instance es)
               else Some (Inr results, es_instance es)))"

definition enough_fuel :: nat where
  "enough_fuel = Suc MAX_INTERPRETER_STEPS"

section \<open>Runs keep what every turn keeps\<close>

definition turn_state :: "turn \<Rightarrow> exec_state" where
  "turn_state t = (case t of TContinue es \<Rightarrow> es | TReturn _ es \<Rightarrow> es | TCall _ _ es \<Rightarrow> es | TFail _ es \<Rightarrow> es)"

lemma turn_state_simps [simp]:
  "turn_state (TContinue es) = es" "turn_state (TReturn vs es) = es"
  "turn_state (TCall k args es) = es" "turn_state (TFail e es) = es"
  by (simp_all add: turn_state_def)

text \<open>The interface of a property of runs: a preorder on states that a turn, the entry into a
  function and the return of its results respect.\<close>

locale exec_relation =
  fixes rel :: "exec_state \<Rightarrow> exec_state \<Rightarrow> bool"
  assumes rel_refl: "rel es es"
    and rel_trans: "rel es es1 \<Longrightarrow> rel es1 es2 \<Longrightarrow> rel es es2"
    and turn_rel: "rel es (turn_state (frame_turn ne es))"
    and enter_rel: "enter_function k args es = Inr es1 \<Longrightarrow> rel es es1"
    and push_rel: "push_results vs es = Inr es1 \<Longrightarrow> rel es es1"
begin

lemma execute_frame_rel: "execute_frame ne n es = Some (r, es') \<Longrightarrow> rel es es'"
proof (induction n arbitrary: es r es')
  case 0
  then show ?case by simp
next
  case (Suc n)
  have t: "rel es (turn_state (frame_turn ne es))" by (rule turn_rel)
  show ?case
  proof (cases "frame_turn ne es")
    case (TContinue es1)
    with Suc.prems have "rel es1 es'" by (auto intro: Suc.IH)
    with t TContinue show ?thesis by (auto intro: rel_trans)
  next
    case (TReturn vs es1)
    with Suc.prems t show ?thesis by simp
  next
    case (TFail e es1)
    with Suc.prems t show ?thesis by simp
  next
    case (TCall k args es1)
    with t have 1: "rel es es1" by simp
    show ?thesis
    proof (cases "enter_function k args es1")
      case (Inl e)
      with TCall Suc.prems 1 show ?thesis by simp
    next
      case (Inr es2)
      then have 2: "rel es1 es2" by (rule enter_rel)
      from TCall Inr Suc.prems obtain r3 es3 where 3: "execute_frame ne n es2 = Some (r3, es3)"
        by (cases "execute_frame ne n es2") auto
      then have r3: "rel es2 es3" by (rule Suc.IH)
      show ?thesis
      proof (cases r3)
        case (Inl e)
        with TCall \<open>enter_function k args es1 = Inr es2\<close> 3 Suc.prems have "es' = es3" by simp
        with 1 2 r3 show ?thesis by (blast intro: rel_trans)
      next
        case (Inr vs)
        show ?thesis
        proof (cases "push_results vs es3")
          case (Inl e)
          with TCall \<open>enter_function k args es1 = Inr es2\<close> 3 \<open>r3 = Inr vs\<close> Suc.prems
          have "es' = es3" by simp
          with 1 2 r3 show ?thesis by (blast intro: rel_trans)
        next
          case (Inr es4)
          with TCall \<open>enter_function k args es1 = Inr es2\<close> 3 \<open>r3 = Inr vs\<close> Suc.prems
          have "execute_frame ne n es4 = Some (r, es')" by simp
          then have "rel es4 es'" by (rule Suc.IH)
          with push_rel [OF Inr] 1 2 r3 show ?thesis by (blast intro: rel_trans)
        qed
      qed
    qed
  qed
qed

lemma run_function_rel: "run_function ne n k args es = Some (r, es') \<Longrightarrow> rel es es'"
  by (auto simp: run_function_def rel_refl split: sum.splits
      intro: rel_trans [OF enter_rel execute_frame_rel])

end

section \<open>Steps are counted\<close>

lemma enter_function_keeps:
  "enter_function k args es = Inr es1 \<Longrightarrow>
    es_total_steps es1 = es_total_steps es \<and> es_instance es1 = es_instance es \<and>
    (\<exists>f. es_frames es1 = f # es_frames es)"
  by (auto simp: enter_function_def result_simps)

lemma push_results_keeps:
  "push_results vs es = Inr es1 \<Longrightarrow>
    es_total_steps es1 = es_total_steps es \<and> es_instance es1 = es_instance es \<and>
    es_frames es1 \<noteq> [] \<and> tl (es_frames es1) = tl (es_frames es)"
  by (auto simp: push_results_def split: list.splits)

lemma call_target_state:
  "es_total_steps (turn_state (call_target k es f fs)) = es_total_steps es"
  "es_instance (turn_state (call_target k es f fs)) = es_instance es"
  by (auto simp: call_target_def split_args_def Let_def split: option.splits)

lemma call_indirect_state:
  "es_total_steps (turn_state (call_indirect k es f fs)) = es_total_steps es"
  "es_instance (turn_state (call_indirect k es f fs)) = es_instance es"
  by (auto simp: call_indirect_def split_args_def Let_def split: sum.splits)

lemma perform_state:
  "es_total_steps (turn_state (perform a es f fs)) = es_total_steps es"
  "es_instance (turn_state (perform a es f fs)) = es_instance es"
  by (cases a; auto simp: perform_def call_target_state call_indirect_state split: sum.splits)+

lemma step_frame_steps:
  "es_total_steps (turn_state (step_frame ne op code es f fs)) = es_total_steps es"
  by (auto simp: step_frame_def perform_state split: sum.splits)

lemma frame_turn_steps:
  "es_frames es \<noteq> [] \<Longrightarrow> es_total_steps (turn_state (frame_turn ne es)) = es_total_steps es + 1"
  by (cases "es_frames es")
    (auto simp: frame_turn_def Let_def step_frame_steps split: option.splits)

lemma frame_turn_steps_le:
  "es_total_steps es \<le> es_total_steps (turn_state (frame_turn ne es)) \<and>
   es_total_steps (turn_state (frame_turn ne es)) \<le> es_total_steps es + 1"
  by (cases "es_frames es = []") (auto simp: frame_turn_steps, simp_all add: frame_turn_def)

text \<open>A turn that does not trap was within the budget.\<close>

lemma frame_turn_budget:
  assumes "es_frames es \<noteq> []" and "\<nexists>e es1. frame_turn ne es = TFail e es1"
  shows "es_total_steps es < MAX_INTERPRETER_STEPS"
  using assms by (cases "es_frames es") (auto simp: frame_turn_def Let_def not_less_eq split: if_splits)

interpretation step_count: exec_relation "\<lambda>es es'. es_total_steps es \<le> es_total_steps es'"
  by unfold_locales (auto simp: frame_turn_steps_le dest: enter_function_keeps push_results_keeps)

lemma frame_turn_within:
  assumes "es_total_steps es \<le> MAX_INTERPRETER_STEPS"
  shows "case frame_turn ne es of
      TFail e es1 \<Rightarrow> es_total_steps es1 \<le> Suc MAX_INTERPRETER_STEPS
    | _ \<Rightarrow> es_total_steps (turn_state (frame_turn ne es)) = es_total_steps es + 1 \<and>
        es_total_steps es < MAX_INTERPRETER_STEPS"
proof (cases "es_frames es = []")
  case True
  with assms show ?thesis by (simp add: frame_turn_def)
next
  case False
  with assms frame_turn_steps [OF False, of ne] frame_turn_budget [OF False, of ne] show ?thesis
    by (cases "frame_turn ne es") auto
qed

text \<open>Fuel above the steps left in the budget is never exhausted, and the run ends within one step
  of the budget (the one that trips it).\<close>

definition run_ends :: "outcome option \<Rightarrow> bool" where
  "run_ends out \<longleftrightarrow> (\<exists>r es. out = Some (r, es) \<and> es_total_steps es \<le> Suc MAX_INTERPRETER_STEPS \<and>
     (\<forall>vs. r = Inr vs \<longrightarrow> es_total_steps es \<le> MAX_INTERPRETER_STEPS))"

lemma run_ends_simps [simp]:
  "run_ends (Some (Inl e, es)) \<longleftrightarrow> es_total_steps es \<le> Suc MAX_INTERPRETER_STEPS"
  "run_ends (Some (Inr vs, es)) \<longleftrightarrow> es_total_steps es \<le> MAX_INTERPRETER_STEPS"
  "\<not> run_ends None"
  by (auto simp: run_ends_def)

lemma execute_frame_ends:
  "es_total_steps es \<le> MAX_INTERPRETER_STEPS \<Longrightarrow> MAX_INTERPRETER_STEPS < n + es_total_steps es \<Longrightarrow>
    run_ends (execute_frame ne n es)"
proof (induction n arbitrary: es)
  case 0
  then show ?case by simp
next
  case (Suc n)
  note within = frame_turn_within [OF Suc.prems(1), of ne]
  show ?case
  proof (cases "frame_turn ne es")
    case (TContinue es1)
    with within Suc.prems show ?thesis by (auto intro!: Suc.IH)
  next
    case (TReturn vs es1)
    with within show ?thesis by simp
  next
    case (TFail e es1)
    with within show ?thesis by simp
  next
    case (TCall k args es1)
    with within have t: "es_total_steps es1 = es_total_steps es + 1"
      "es_total_steps es < MAX_INTERPRETER_STEPS" by simp_all
    show ?thesis
    proof (cases "enter_function k args es1")
      case (Inl e)
      with TCall t show ?thesis by simp
    next
      case (Inr es2)
      then have "run_ends (execute_frame ne n es2)"
        using Suc.prems t by (intro Suc.IH) (simp_all add: enter_function_keeps)
      then obtain r3 es3 where 3: "execute_frame ne n es2 = Some (r3, es3)"
        and e3: "run_ends (Some (r3, es3))"
        by (cases "execute_frame ne n es2") auto
      have le: "es_total_steps es1 \<le> es_total_steps es3"
        using step_count.execute_frame_rel [OF 3] enter_function_keeps [OF Inr] by simp
      show ?thesis
      proof (cases r3)
        case (Inl e)
        with TCall \<open>enter_function k args es1 = Inr es2\<close> 3 e3 show ?thesis by simp
      next
        case (Inr vs)
        with e3 have b3: "es_total_steps es3 \<le> MAX_INTERPRETER_STEPS" by simp
        show ?thesis
        proof (cases "push_results vs es3")
          case (Inl e)
          with TCall \<open>enter_function k args es1 = Inr es2\<close> 3 \<open>r3 = Inr vs\<close> b3 show ?thesis by simp
        next
          case (Inr es4)
          have "run_ends (execute_frame ne n es4)"
            using Suc.prems t le b3 push_results_keeps [OF Inr] by (intro Suc.IH) simp_all
          with TCall \<open>enter_function k args es1 = Inr es2\<close> 3 \<open>r3 = Inr vs\<close> Inr show ?thesis by simp
        qed
      qed
    qed
  qed
qed

lemma run_function_ends:
  assumes "es_total_steps es = 0" and "enough_fuel \<le> n"
  shows "run_ends (run_function ne n k args es)"
  using assms
  by (auto simp: run_function_def enough_fuel_def enter_function_keeps split: sum.splits
      intro!: execute_frame_ends)

text \<open>More fuel does not change a result.\<close>

lemma execute_frame_more_fuel:
  "execute_frame ne n es = Some out \<Longrightarrow> execute_frame ne (n + k) es = Some out"
proof (induction n arbitrary: es out)
  case 0
  then show ?case by simp
next
  case (Suc n)
  show ?case
  proof (cases "frame_turn ne es")
    case (TCall i args es1)
    show ?thesis
    proof (cases "enter_function i args es1")
      case (Inl e)
      with TCall Suc.prems show ?thesis by simp
    next
      case (Inr es2)
      with TCall Suc.prems obtain out3 where 3: "execute_frame ne n es2 = Some out3"
        by (cases "execute_frame ne n es2") auto
      from Suc.IH [OF 3] TCall Inr 3 Suc.prems show ?thesis
        by (auto split: prod.splits sum.splits intro: Suc.IH)
    qed
  qed (use Suc.prems in \<open>auto intro: Suc.IH\<close>)
qed

lemma run_function_more_fuel:
  "run_function ne n i args es = Some out \<Longrightarrow> run_function ne (n + k) i args es = Some out"
  by (auto simp: run_function_def intro: execute_frame_more_fuel split: sum.splits)

text \<open>C2. Every invocation ends: whatever the code of the module (validated or not), whatever the
  arguments and the memory, \<open>enough_fuel\<close> makes \<^verbatim>\<open>invoke\<close> return results or an error, and more
  fuel gives the same outcome, because the step budget spans the whole call tree.\<close>

theorem invoke_ends:
  "\<exists>r i'. invoke ne enough_fuel function_index args i = Some (r, i') \<and>
    invoke ne (enough_fuel + extra) function_index args i = Some (r, i')"
proof (cases "invoke_type (wi_module i) function_index args")
  case (Inl e)
  then show ?thesis by (simp add: invoke_def)
next
  case (Inr t)
  let ?start = "\<lparr>es_instance = i, es_frames = [], es_total_steps = 0\<rparr>"
  have "run_ends (run_function ne enough_fuel function_index args ?start)"
    by (rule run_function_ends) simp_all
  then obtain out where out: "run_function ne enough_fuel function_index args ?start = Some out"
    by (auto simp: run_ends_def)
  from run_function_more_fuel [OF this]
  have "run_function ne (enough_fuel + extra) function_index args ?start = Some out" .
  with out Inr show ?thesis
    by (auto simp: invoke_def split: sum.splits prod.splits)
qed

section \<open>What a run keeps of the instance\<close>

definition inst_grows :: "wasm_instance \<Rightarrow> wasm_instance \<Rightarrow> bool" where
  "inst_grows i i' \<longleftrightarrow> wi_module i' = wi_module i \<and> wi_table i' = wi_table i \<and>
     length (wi_globals i') = length (wi_globals i) \<and>
     length (wi_memory i) \<le> length (wi_memory i') \<and>
     (instance_ok i \<longrightarrow> instance_ok i')"

lemma inst_grows_refl [simp]: "inst_grows i i"
  by (simp add: inst_grows_def)

lemma inst_grows_trans: "inst_grows i i1 \<Longrightarrow> inst_grows i1 i2 \<Longrightarrow> inst_grows i i2"
  by (auto simp: inst_grows_def)

lemma memory_store_grows: "memory_store a op v i = Inr i' \<Longrightarrow> inst_grows i i'"
  by (auto simp: memory_store_def result_simps inst_grows_def length_splice intro!: instance_ok_splice)

lemma exec_store_grows: "exec_store op code i f = Inr (i', f') \<Longrightarrow> inst_grows i i'"
  by (auto simp: exec_store_def result_simps dest: memory_store_grows)

lemma exec_global_grows: "exec_global op code i f = Inr (i', f') \<Longrightarrow> inst_grows i i'"
  by (auto simp: exec_global_def Let_def result_simps inst_grows_def instance_ok_globals split: if_splits)

lemma resize_grows:
  assumes "length (wi_memory i) + k * PAGE_SIZE \<le> MAX_MEMORY_BYTES"
  shows "inst_grows i (resize_memory (length (wi_memory i) + k * PAGE_SIZE) i)"
  using assms by (simp add: inst_grows_def length_resize_memory instance_ok_resize)

lemma exec_memory_grow_grows:
  assumes "exec_memory_grow code i f = Inr (i', f')"
  shows "inst_grows i i'"
proof -
  from assms consider "i' = i"
    | d where "i' = resize_memory (length (wi_memory i) + min (unat (d :: u32) * PAGE_SIZE) u64_max) i"
      "length (wi_memory i) + min (unat d * PAGE_SIZE) u64_max \<le> MAX_MEMORY_BYTES"
    by (auto simp: exec_memory_grow_def result_simps split: if_splits)
  then show ?thesis
  proof cases
    case 1
    then show ?thesis by simp
  next
    case 2
    from 2(2) have "min (unat d * PAGE_SIZE) u64_max = unat d * PAGE_SIZE"
      by (simp add: min_def MAX_MEMORY_BYTES_def u64_max_def split: if_splits)
    with 2 show ?thesis by (simp add: resize_grows)
  qed
qed

lemma continue_results:
  "continue_frame i r = Inr (a, i', f') \<Longrightarrow> i' = i"
  "continue_both r2 = Inr (a, i', f') \<Longrightarrow> r2 = Inr (i', f')"
  "with_instance i r3 = Inr (a, i', f') \<Longrightarrow> i' = i"
  by (auto simp: continue_frame_def continue_both_def with_instance_def result_simps)

lemma exec_instruction_grows:
  assumes "exec_instruction ne op code i f = Inr (a, i', f')"
  shows "inst_grows i i'"
  using assms unfolding exec_instruction_def
  by (auto split: if_splits dest!: continue_results
      dest: exec_global_grows exec_store_grows exec_memory_grow_grows)

lemma step_frame_grows: "inst_grows (es_instance es) (es_instance (turn_state (step_frame ne op code es f fs)))"
  by (auto simp: step_frame_def perform_state split: sum.splits dest: exec_instruction_grows)

lemma frame_turn_grows: "inst_grows (es_instance es) (es_instance (turn_state (frame_turn ne es)))"
proof -
  have "inst_grows (es_instance es) (es_instance (turn_state (step_frame ne op code
      (es\<lparr>es_frames := fs', es_total_steps := t\<rparr>) f fs)))" for op code fs' t f fs
    using step_frame_grows [of "es\<lparr>es_frames := fs', es_total_steps := t\<rparr>"] by simp
  then show ?thesis
    by (auto simp: frame_turn_def Let_def split: list.splits option.splits)
qed

interpretation instance_growth: exec_relation "\<lambda>es es'. inst_grows (es_instance es) (es_instance es')"
  by unfold_locales
    (auto simp: frame_turn_grows dest: enter_function_keeps push_results_keeps intro: inst_grows_trans)

text \<open>C3. Whatever an invocation does, and also when it traps half-way, the instance stays well
  formed: its memory is a whole number of pages of at most 16 MiB and never shrinks, the number of
  globals, the function table and the module do not change.\<close>

theorem invoke_keeps_instance:
  assumes "invoke ne fuel function_index args i = Some (r, i')" and "instance_ok i"
  shows "instance_ok i' \<and> wi_module i' = wi_module i \<and> wi_table i' = wi_table i \<and>
    length (wi_globals i') = length (wi_globals i) \<and> length (wi_memory i) \<le> length (wi_memory i')"
proof -
  have "inst_grows i i'"
  proof (cases "invoke_type (wi_module i) function_index args")
    case (Inl e)
    with assms show ?thesis by (simp add: invoke_def)
  next
    case (Inr t)
    with assms obtain out es where
      "run_function ne fuel function_index args
        \<lparr>es_instance = i, es_frames = [], es_total_steps = 0\<rparr> = Some (out, es)" and "i' = es_instance es"
      by (auto simp: invoke_def split: option.splits sum.splits if_splits)
    with instance_growth.run_function_rel show ?thesis by fastforce
  qed
  with assms(2) show ?thesis by (simp add: inst_grows_def)
qed

section \<open>A call leaves its callers alone\<close>

text \<open>The frames a turn leaves, for the running frame on top of \<open>fs\<close>.\<close>

definition turn_frames_ok :: "frame list \<Rightarrow> turn \<Rightarrow> bool" where
  "turn_frames_ok fs t \<longleftrightarrow>
     (case t of
        TContinue es1 \<Rightarrow> es_frames es1 \<noteq> [] \<and> tl (es_frames es1) = fs
      | TReturn vs es1 \<Rightarrow> es_frames es1 = fs
      | TCall k args es1 \<Rightarrow> es_frames es1 \<noteq> [] \<and> tl (es_frames es1) = fs
      | TFail e es1 \<Rightarrow> True)"

lemma perform_frames: "turn_frames_ok fs (perform a es f fs)"
  by (cases a)
    (auto simp: perform_def turn_frames_ok_def call_target_def call_indirect_def split_args_def Let_def
      split: option.splits sum.splits)

lemma step_frame_frames: "turn_frames_ok fs (step_frame ne op code es f fs)"
  by (auto simp: step_frame_def perform_frames turn_frames_ok_def [of fs "TReturn vs es1" for vs es1]
      turn_frames_ok_def [of fs "TFail e es1" for e es1]
      turn_frames_ok_def [of fs "TContinue es1" for es1] split: sum.splits)

lemma frame_turn_frames: "es_frames es = f # fs \<Longrightarrow> turn_frames_ok fs (frame_turn ne es)"
  by (auto simp: frame_turn_def Let_def step_frame_frames
      turn_frames_ok_def [of fs "TFail e es1" for e es1] split: option.splits)

lemma execute_frame_frames:
  "execute_frame ne n es = Some (Inr vs, es') \<Longrightarrow> es_frames es \<noteq> [] \<Longrightarrow> es_frames es' = tl (es_frames es)"
proof (induction n arbitrary: es vs es')
  case 0
  then show ?case by simp
next
  case (Suc n)
  have t: "turn_frames_ok (tl (es_frames es)) (frame_turn ne es)"
    using Suc.prems(2) frame_turn_frames by (cases "es_frames es") auto
  show ?case
  proof (cases "frame_turn ne es")
    case (TContinue es1)
    with t Suc.prems show ?thesis by (simp add: turn_frames_ok_def Suc.IH)
  next
    case (TReturn vs es1)
    with t Suc.prems show ?thesis by (simp add: turn_frames_ok_def)
  next
    case (TFail e es1)
    with Suc.prems show ?thesis by simp
  next
    case (TCall k args es1)
    with Suc.prems obtain es2 vs3 es3 es4 where 2: "enter_function k args es1 = Inr es2"
      and 3: "execute_frame ne n es2 = Some (Inr vs3, es3)" and 4: "push_results vs3 es3 = Inr es4"
      and 5: "execute_frame ne n es4 = Some (Inr vs, es')"
      by (auto split: sum.splits option.splits prod.splits)
    from enter_function_keeps [OF 2] have "es_frames es2 \<noteq> []" "tl (es_frames es2) = es_frames es1"
      by auto
    with Suc.IH [OF 3] have "es_frames es3 = es_frames es1" by simp
    with push_results_keeps [OF 4] Suc.IH [OF 5] t TCall show ?thesis
      by (simp add: turn_frames_ok_def)
  qed
qed

text \<open>C4. A WebAssembly call that returns gives control back to exactly the frames it was called
  from: every caller's position, locals, operand stack and control stack are what they were, however
  deep the callee's own calls went.\<close>

theorem run_function_frames:
  assumes "run_function ne fuel k args es = Some (Inr vs, es')"
  shows "es_frames es' = es_frames es"
proof -
  from assms obtain es1 where 1: "enter_function k args es = Inr es1"
    and 2: "execute_frame ne fuel es1 = Some (Inr vs, es')"
    by (auto simp: run_function_def split: sum.splits)
  from enter_function_keeps [OF 1] execute_frame_frames [OF 2] show ?thesis by auto
qed

end
