(* ===== verification/Wasm_Examples.thy ===== *)
theory Wasm_Examples
  imports Wasm_Run
begin

text \<open>
  Concrete runs of the interpreter in the kernel: the witnesses of the properties of
  \<^verbatim>\<open>Wasm_Run\<close>, and three modules that the validator accepts and on which the interpreter
  does not do what its own documentation says.
\<close>

section \<open>Evaluation\<close>

lemma execute_frame_numeral [eval_simps]:
  "execute_frame ne (numeral k) es =
     (case frame_turn ne es of
        TContinue es1 \<Rightarrow> execute_frame ne (pred_numeral k) es1
      | TReturn results es1 \<Rightarrow> Some (Inr results, es1)
      | TFail e es1 \<Rightarrow> Some (Inl e, es1)
      | TCall index args es1 \<Rightarrow>
          (case enter_function index args es1 of
             Inl e \<Rightarrow> Some (Inl e, es1)
           | Inr es2 \<Rightarrow>
               (case execute_frame ne (pred_numeral k) es2 of
                  None \<Rightarrow> None
                | Some (Inl e, es3) \<Rightarrow> Some (Inl e, es3)
                | Some (Inr results, es3) \<Rightarrow>
                    (case push_results results es3 of
                       Inl e \<Rightarrow> Some (Inl e, es3)
                     | Inr es4 \<Rightarrow> execute_frame ne (pred_numeral k) es4))))"
  by (simp only: numeral_eq_Suc execute_frame.simps)

lemma exec_leb_u32_loop_numeral [eval_simps]:
  "exec_leb_u32_loop (numeral k) result shift code pc =
     ebind (ok_or (Err ''Instruction immediate out of range'') (get_at code pc)) (\<lambda>byte.
       let result' = or result (push_bit shift (ucast (and byte 0x7F)))
       in if and byte 0x80 = 0 then Inr (result', pc + 1)
          else exec_leb_u32_loop (pred_numeral k) result' (shift + 7) code (pc + 1))"
  by (simp only: numeral_eq_Suc exec_leb_u32_loop.simps)

lemma u8_numeral_le_1 [eval_simps]: "(numeral k :: u8) \<le> 1 \<longleftrightarrow> unat (numeral k :: u8) \<le> 1"
  by (simp add: word_le_nat_alt)

lemmas [eval_simps] = exec_leb_u32_def exec_leb_i32_def exec_leb_i64_def exec_leb_signed.simps
  block_kind_def block_result_count_def enter_block_def skip_if_def pop_condition_def pop_value_def
  exec_block_def exec_else_def exec_br_def exec_call_def same_variant_def exec_parametric_def
  exec_local_def exec_global_def exec_const_def continue_frame_def continue_both_def
  with_instance_def exec_instruction_def frame_results_def split_args_def body_of_def end_block_def
  branch_block_def call_target_def perform_def step_frame_def frame_turn_def zero_value_def
  declare_locals.simps enter_function_def push_results_def run_function_def invoke_type_def
  invoke_def imported_function_count_def defined_body_index_def function_type_def
  exec_numeric_def exec_i32_arith_def binary_def unary_def pop_i32_def checked_sub_def

text \<open>An instance without memory or table whose only function has the given type and code.\<close>

definition one_function :: "func_type \<Rightarrow> bytes \<Rightarrow> wasm_instance" where
  "one_function t code = \<lparr>wi_module = empty_module
       \<lparr>m_types := [t], m_function_type_indices := [0],
        m_globals := [\<lparr>glob_value_type = TI32, glob_mutable = False, glob_init = [0x41, 0x07]\<rparr>],
        m_bodies := [\<lparr>fb_locals = [], fb_code = code\<rparr>], m_total_functions := 1\<rparr>,
     wi_globals = [I32 7], wi_memory = [], wi_table = []\<rparr>"

definition no_params :: "value_type list \<Rightarrow> func_type" where
  "no_params rs = \<lparr>ft_parameters = [], ft_results = rs\<rparr>"

lemma one_function_ok: "instance_ok (one_function t code)"
  by (simp add: instance_ok_def one_function_def memory_size_ok_def)

section \<open>Witnesses\<close>

text \<open>\<open>global.set 0\<close> of 9, then a \<^verbatim>\<open>drop\<close> on the empty stack: the write stays.\<close>

definition trap_code :: bytes where
  "trap_code = [0x41, 0x09, 0x24, 0x00, 0x1A, 0x0B]"

lemma run_trap:
  "invoke ne 9 0 [] (one_function (no_params []) trap_code)
   = Some (Inl (Err ''drop on empty stack''), (one_function (no_params []) trap_code)\<lparr>wi_globals := [I32 9]\<rparr>)"
  unfolding one_function_def no_params_def trap_code_def
  by (simp add: eval_simps cong: ebind_weak_cong)

theorem invoke_keeps_instance_witness:
  "instance_ok ((one_function (no_params []) trap_code)\<lparr>wi_globals := [I32 9]\<rparr>) \<and>
   wi_globals (one_function (no_params []) trap_code) = [I32 7]"
  using invoke_keeps_instance [OF run_trap one_function_ok] by (simp add: one_function_def)

text \<open>The factorial of 2 by recursion, called with one frame below.\<close>

definition factorial_code :: bytes where
  "factorial_code = [0x20, 0x00, 0x04, 0x7F, 0x20, 0x00, 0x20, 0x00, 0x41, 0x01, 0x6B, 0x10, 0x00, 0x6C,
     0x05, 0x41, 0x01, 0x0B, 0x0B]"

definition caller :: frame where
  "caller = \<lparr>fr_function_index = 0, fr_pc = 3, fr_locals = [I64 5], fr_stack = [I32 8], fr_controls = [],
     fr_stack_height = 0, fr_steps = 4\<rparr>"

definition factorial_start :: exec_state where
  "factorial_start = \<lparr>es_instance = one_function \<lparr>ft_parameters = [TI32], ft_results = [TI32]\<rparr> factorial_code,
     es_frames = [caller], es_total_steps = 10\<rparr>"

lemma run_factorial:
  "run_function ne 30 0 [I32 2] factorial_start = Some (Inr [I32 2], factorial_start\<lparr>es_total_steps := 37\<rparr>)"
  unfolding factorial_start_def one_function_def factorial_code_def caller_def
  by (simp add: eval_simps cong: ebind_weak_cong)

theorem run_function_frames_witness:
  "es_frames (factorial_start\<lparr>es_total_steps := 37\<rparr>) = es_frames factorial_start"
  by (rule run_function_frames [OF run_factorial])

section \<open>Validated code the interpreter does not run\<close>

lemma unsupported_instructions:
  "exec_instruction ne 0x00 code i f = Inl (ErrByte ''Unsupported opcode'' 0x00)"
  "exec_instruction ne 0x01 code i f = Inl (ErrByte ''Unsupported opcode'' 0x01)"
  "exec_instruction ne 0x1C code i f = Inl (ErrByte ''Unsupported opcode'' 0x1C)"
  by (simp_all add: exec_instruction_def u8_numeral_le_1)

lemma run_nop:
  "invoke ne 9 0 [] (one_function (no_params []) [0x01, 0x0B])
     = Some (Inl (ErrByte ''Unsupported opcode'' 0x01), one_function (no_params []) [0x01, 0x0B])"
  unfolding one_function_def no_params_def
  by (simp add: eval_simps cong: ebind_weak_cong)

lemma unsupported_validate:
  "validate_code [0x00, 0x0B] = Inr 0" "validate_code [0x01, 0x0B] = Inr 0"
  "validate_code [0x1C, 0x01, 0x7F, 0x0B] = Inr 0"
  by (simp_all add: eval_simps cong: ebind_weak_cong)

text \<open>\<^verbatim>\<open>unreachable\<close>, \<^verbatim>\<open>nop\<close> and the typed \<^verbatim>\<open>select\<close> pass the validator
  and are unknown to the interpreter: a body made of \<^verbatim>\<open>nop\<close> and \<^verbatim>\<open>end\<close> is accepted at
  load time, and running it is an ``unsupported opcode'' error on every instance. (The interpreter's
  documentation says that it executes the subset the validator accepts.)\<close>

theorem validated_but_unsupported:
  "validate_code [0x00, 0x0B] = Inr 0 \<and> validate_code [0x01, 0x0B] = Inr 0 \<and>
   validate_code [0x1C, 0x01, 0x7F, 0x0B] = Inr 0 \<and>
   exec_instruction ne 0x00 code i f = Inl (ErrByte ''Unsupported opcode'' 0x00) \<and>
   exec_instruction ne 0x01 code i f = Inl (ErrByte ''Unsupported opcode'' 0x01) \<and>
   exec_instruction ne 0x1C code i f = Inl (ErrByte ''Unsupported opcode'' 0x1C) \<and>
   invoke ne 9 0 [] (one_function (no_params []) [0x01, 0x0B])
     = Some (Inl (ErrByte ''Unsupported opcode'' 0x01), one_function (no_params []) [0x01, 0x0B])"
  by (simp add: unsupported_validate unsupported_instructions run_nop)


text \<open>The mutability of a global is parsed and then ignored: validated code overwrites a global
  that the module declares immutable.\<close>

theorem immutable_global_overwritten:
  "validate_code [0x41, 0x09, 0x24, 0x00, 0x0B] = Inr 0 \<and>
   (let i = one_function (no_params []) [0x41, 0x09, 0x24, 0x00, 0x0B]
    in glob_mutable (m_globals (wi_module i) ! 0) = False \<and> wi_globals i = [I32 7] \<and>
       invoke ne 9 0 [] i = Some (Inr [], i\<lparr>wi_globals := [I32 9]\<rparr>))"
  unfolding one_function_def no_params_def
  by (simp add: eval_simps cong: ebind_weak_cong)

end
