(* ===== verification/Btree_Map.thy ===== *)
theory Btree_Map
  imports Prelude "HOL-Library.List_Lexorder"
begin

text \<open>
  \<^verbatim>\<open>std::collections::BTreeMap\<close> as the program uses it: a list of bindings in ascending key
  order, with insertion, removal and lookup. The \<open>map_laws\<close> interface states what its clients rely
  on; byte strings, the keys of most maps, are ordered as Rust orders them, lexicographically.
\<close>

type_synonym ('k, 'v) btree = "('k \<times> 'v) list"

definition bt_get :: "'k \<Rightarrow> ('k, 'v) btree \<Rightarrow> 'v option" where
  "bt_get k m = map_of m k"

fun bt_insert :: "'k::linorder \<Rightarrow> 'v \<Rightarrow> ('k, 'v) btree \<Rightarrow> ('k, 'v) btree" where
  "bt_insert k v [] = [(k, v)]"
| "bt_insert k v ((k', v') # m) =
     (if k < k' then (k, v) # (k', v') # m
      else if k = k' then (k, v) # m
      else (k', v') # bt_insert k v m)"

definition bt_remove :: "'k \<Rightarrow> ('k, 'v) btree \<Rightarrow> ('k, 'v) btree" where
  "bt_remove k m = filter (\<lambda>b. fst b \<noteq> k) m"

definition bt_values :: "('k, 'v) btree \<Rightarrow> 'v list" where
  "bt_values m = map snd m"

definition bt_ok :: "('k::linorder, 'v) btree \<Rightarrow> bool" where
  "bt_ok m \<longleftrightarrow> sorted_wrt (<) (map fst m)"

lemma bt_ok_Nil [simp]: "bt_ok []"
  by (simp add: bt_ok_def)

lemma bt_ok_Cons: "bt_ok ((k, v) # m) \<longleftrightarrow> (\<forall>b\<in>set m. k < fst b) \<and> bt_ok m"
  by (auto simp: bt_ok_def)

lemma bt_insert_keys: "fst ` set (bt_insert k v m) = insert k (fst ` set m)"
  by (induction m rule: bt_insert.induct) auto

lemma bt_insert_ball: "(\<forall>b\<in>set (bt_insert k v m). P (fst b)) \<longleftrightarrow> P k \<and> (\<forall>b\<in>set m. P (fst b))"
  by (induction k v m rule: bt_insert.induct) auto

lemma bt_insert_ok: "bt_ok m \<Longrightarrow> bt_ok (bt_insert k v m)"
  by (induction k v m rule: bt_insert.induct)
    (auto simp: bt_ok_Cons bt_insert_ball [where P = "\<lambda>x. _ < x"])

lemma bt_remove_ok: "bt_ok m \<Longrightarrow> bt_ok (bt_remove k m)"
  by (simp add: bt_ok_def bt_remove_def sorted_wrt_map sorted_wrt_filter)

lemma bt_get_insert: "bt_get k' (bt_insert k v m) = (if k' = k then Some v else bt_get k' m)"
  by (induction k v m rule: bt_insert.induct) (auto simp: bt_get_def)

lemma bt_get_remove: "bt_get k' (bt_remove k m) = (if k' = k then None else bt_get k' m)"
  by (induction m) (auto simp: bt_get_def bt_remove_def)

lemma bt_get_SomeD: "bt_get k m = Some v \<Longrightarrow> (k, v) \<in> set m"
  by (auto simp: bt_get_def dest: map_of_SomeD)

lemma bt_get_eq_Some: "bt_ok m \<Longrightarrow> bt_get k m = Some v \<longleftrightarrow> (k, v) \<in> set m"
  by (induction m) (force simp: bt_get_def bt_ok_Cons)+

lemma bt_get_eq_None: "bt_get k m = None \<longleftrightarrow> k \<notin> fst ` set m"
  by (simp add: bt_get_def map_of_eq_None_iff)

text \<open>The interface.\<close>

locale map_laws =
  fixes get :: "'k \<Rightarrow> 'm \<Rightarrow> 'v option"
    and put :: "'k \<Rightarrow> 'v \<Rightarrow> 'm \<Rightarrow> 'm"
    and del :: "'k \<Rightarrow> 'm \<Rightarrow> 'm"
    and ok :: "'m \<Rightarrow> bool"
  assumes get_put: "get k' (put k v m) = (if k' = k then Some v else get k' m)"
    and get_del: "get k' (del k m) = (if k' = k then None else get k' m)"
    and put_ok: "ok m \<Longrightarrow> ok (put k v m)"
    and del_ok: "ok m \<Longrightarrow> ok (del k m)"
begin

lemma get_put_same [simp]: "get k (put k v m) = Some v"
  by (simp add: get_put)

lemma get_del_put: "get k' (del k (put k v m)) = get k' (del k m)"
  by (simp add: get_put get_del)

end

interpretation btree: map_laws bt_get bt_insert bt_remove bt_ok
  by unfold_locales (auto simp: bt_get_insert bt_get_remove bt_insert_ok bt_remove_ok)

text \<open>A sum over the values follows an insertion and a removal.\<close>

definition bt_sum :: "('k \<Rightarrow> 'v \<Rightarrow> nat) \<Rightarrow> ('k, 'v) btree \<Rightarrow> nat" where
  "bt_sum f m = sum_list (map (\<lambda>(k, v). f k v) m)"

lemma bt_sum_simps [simp]: "bt_sum f [] = 0" "bt_sum f ((k, v) # m) = f k v + bt_sum f m"
  by (simp_all add: bt_sum_def)

lemma bt_sum_get_le: "bt_get k m = Some v \<Longrightarrow> f k v \<le> bt_sum f m"
  by (induction m) (auto simp: bt_get_def split: if_splits)

lemma bt_sum_insert:
  assumes "bt_ok m"
  shows "bt_sum f (bt_insert k v m) + (case bt_get k m of None \<Rightarrow> 0 | Some old \<Rightarrow> f k old)
    = bt_sum f m + f k v"
  using assms
proof (induction k v m rule: bt_insert.induct)
  case (2 k v k' v' m)
  then show ?case
    by (cases "k < k'"; cases "k = k'")
      (auto simp: bt_ok_Cons bt_get_def map_of_eq_None_iff split: option.splits dest!: map_of_SomeD)
qed (simp add: bt_get_def)

lemma bt_sum_remove:
  assumes "bt_ok m" and "bt_get k m = Some v"
  shows "bt_sum f (bt_remove k m) + f k v = bt_sum f m"
  using assms
proof (induction m)
  case (Cons b m)
  obtain k' v' where b: "b = (k', v')" by (cases b)
  show ?case
  proof (cases "k' = k")
    case True
    with Cons.prems b have "filter (\<lambda>b. fst b \<noteq> k) m = m" by (auto simp: bt_ok_Cons filter_id_conv)
    with Cons.prems b True show ?thesis by (simp add: bt_remove_def bt_get_def)
  next
    case False
    with Cons b show ?thesis by (auto simp: bt_remove_def bt_get_def bt_ok_Cons)
  qed
qed (simp add: bt_get_def)

lemma bt_sum_1: "bt_sum (\<lambda>_ _. 1) m = length m"
  by (induction m) auto

lemma bt_length_insert:
  assumes "bt_ok m"
  shows "length (bt_insert k v m) = length m + (if bt_get k m = None then 1 else 0)"
  using bt_sum_insert [OF assms, of "\<lambda>_ _. 1" k v]
  by (auto simp only: bt_sum_1 split: option.splits if_splits)

lemma bt_length_remove: "length (bt_remove k m) \<le> length m"
  by (simp add: bt_remove_def)

end
