(* ===== verification/Runtime_Heap.thy ===== *)
theory Runtime_Heap
  imports Btree_Map
begin

text \<open>
  The bounded heap of \<^verbatim>\<open>src/src/runtime_core.rs\<close>: slots with generations, handles that name a
  slot and a generation, byte and object budgets, and the mark-and-sweep collector. The free list is
  a stack whose top is the head, like the worklist of the marker.
\<close>

section \<open>Data\<close>

definition OBJECT_BASE_BYTES :: nat where "OBJECT_BASE_BYTES = 64"
definition PROPERTY_BASE_BYTES :: nat where "PROPERTY_BASE_BYTES = 32"
definition MAX_PROPERTY_NAME_BYTES :: nat where "MAX_PROPERTY_NAME_BYTES = 256"
definition MAX_DOM_STRING_BYTES :: nat where "MAX_DOM_STRING_BYTES = 1048576"

text \<open>\<^verbatim>\<open>std::mem::size_of::<RuntimeValue>()\<close> on a 64-bit target: the three words of the string
  variant, whose capacity leaves room for the tags of the others.\<close>

definition RUNTIME_VALUE_SIZE :: nat where "RUNTIME_VALUE_SIZE = 24"

lemmas heap_consts = OBJECT_BASE_BYTES_def PROPERTY_BASE_BYTES_def MAX_PROPERTY_NAME_BYTES_def
  MAX_DOM_STRING_BYTES_def RUNTIME_VALUE_SIZE_def u64_max_def

record runtime_limits =
  rl_max_heap_bytes :: nat
  rl_max_objects :: nat
  rl_max_properties_per_object :: nat
  rl_max_tasks :: nat
  rl_max_microtasks :: nat
  rl_max_call_depth :: nat
  rl_max_instructions :: nat

definition default_limits :: runtime_limits where
  "default_limits = \<lparr>rl_max_heap_bytes = 33554432, rl_max_objects = 50000,
     rl_max_properties_per_object = 1024, rl_max_tasks = 2048, rl_max_microtasks = 2048,
     rl_max_call_depth = 128, rl_max_instructions = 1000000\<rparr>"

record heap_handle =
  hh_slot :: u32
  hh_generation :: u32

datatype host_object_kind = Ordinary | Global | Document | Element | Promise | MediaElement
  | MediaSourceObject | SourceBufferObject

text \<open>A number is an \<^verbatim>\<open>f64\<close>, kept as its bits.\<close>

datatype runtime_value =
    Undefined | Null | Boolean bool | Number u64 | String bytes | Object heap_handle

record heap_object =
  ho_kind :: host_object_kind
  ho_prototype :: "heap_handle option"
  ho_properties :: "(bytes, runtime_value) btree"

record heap_slot =
  hs_generation :: u32
  hs_marked :: bool
  hs_bytes :: nat
  hs_object :: "heap_object option"

record bounded_heap =
  bh_limits :: runtime_limits
  bh_slots :: "heap_slot list"
  bh_free_slots :: "u32 list"
  bh_used_bytes :: nat
  bh_live_objects :: nat

definition new_heap :: "runtime_limits \<Rightarrow> bounded_heap" where
  "new_heap limits = \<lparr>bh_limits = limits, bh_slots = [], bh_free_slots = [], bh_used_bytes = 0,
     bh_live_objects = 0\<rparr>"

section \<open>Operations\<close>

text \<open>The object a handle resolves to.\<close>

definition resolve :: "heap_slot list \<Rightarrow> heap_handle \<Rightarrow> heap_object option" where
  "resolve slots h =
     (case get_at slots (unat (hh_slot h)) of
        None \<Rightarrow> None
      | Some s \<Rightarrow> if hs_generation s = hh_generation h then hs_object s else None)"

definition heap_get :: "bounded_heap \<Rightarrow> heap_handle \<Rightarrow> heap_object option" where
  "heap_get heap h = resolve (bh_slots heap) h"

definition allocate :: "host_object_kind \<Rightarrow> bounded_heap \<Rightarrow> error + (heap_handle \<times> bounded_heap)" where
  "allocate kind heap =
     (if bh_live_objects heap \<ge> rl_max_objects (bh_limits heap)
      then Inl (Err ''Runtime object budget exceeded'')
      else if sat_add (bh_used_bytes heap) OBJECT_BASE_BYTES > rl_max_heap_bytes (bh_limits heap)
      then Inl (Err ''Runtime heap byte budget exceeded'')
      else let obj = \<lparr>ho_kind = kind, ho_prototype = None, ho_properties = []\<rparr>;
               counted = heap\<lparr>bh_used_bytes := bh_used_bytes heap + OBJECT_BASE_BYTES,
                              bh_live_objects := bh_live_objects heap + 1\<rparr>
           in case bh_free_slots heap of
                i # free \<Rightarrow>
                  let s = bh_slots heap ! unat i
                  in Inr (\<lparr>hh_slot = i, hh_generation = hs_generation s\<rparr>,
                       counted\<lparr>bh_free_slots := free,
                         bh_slots := (bh_slots heap)[unat i := s\<lparr>hs_marked := False,
                           hs_bytes := OBJECT_BASE_BYTES, hs_object := Some obj\<rparr>]\<rparr>)
              | [] \<Rightarrow>
                  if length (bh_slots heap) < 2 ^ 32
                  then Inr (\<lparr>hh_slot = of_nat (length (bh_slots heap)), hh_generation = 0\<rparr>,
                         counted\<lparr>bh_slots := bh_slots heap @ [\<lparr>hs_generation = 0, hs_marked = False,
                           hs_bytes = OBJECT_BASE_BYTES, hs_object = Some obj\<rparr>]\<rparr>)
                  else Inl (Err ''Runtime heap handle space exhausted''))"

text \<open>Writing back an object through \<^verbatim>\<open>get_mut\<close>.\<close>

definition update_object :: "heap_handle \<Rightarrow> (heap_object \<Rightarrow> heap_object) \<Rightarrow> heap_slot list \<Rightarrow> heap_slot list" where
  "update_object h f slots =
     slots[unat (hh_slot h) := (slots ! unat (hh_slot h))
       \<lparr>hs_object := map_option f (hs_object (slots ! unat (hh_slot h)))\<rparr>]"

definition set_prototype :: "heap_handle \<Rightarrow> heap_handle option \<Rightarrow> bounded_heap \<Rightarrow> error + bounded_heap" where
  "set_prototype h prototype heap =
     (if (case prototype of None \<Rightarrow> False | Some p \<Rightarrow> heap_get heap p = None)
      then Inl (Err ''Prototype handle is stale'')
      else if heap_get heap h = None then Inl (Err ''Object handle is stale'')
      else Inr (heap\<lparr>bh_slots := update_object h (\<lambda>ob. ob\<lparr>ho_prototype := prototype\<rparr>) (bh_slots heap)\<rparr>))"

definition property_cost :: "bytes \<Rightarrow> runtime_value \<Rightarrow> nat" where
  "property_cost name value =
     sat_add (sat_add PROPERTY_BASE_BYTES (length name))
       (case value of String t \<Rightarrow> length t | _ \<Rightarrow> RUNTIME_VALUE_SIZE)"

definition string_too_long :: "runtime_value \<Rightarrow> bool" where
  "string_too_long v = (case v of String t \<Rightarrow> length t > MAX_DOM_STRING_BYTES | _ \<Rightarrow> False)"

definition set_property :: "heap_handle \<Rightarrow> bytes \<Rightarrow> runtime_value \<Rightarrow> bounded_heap \<Rightarrow> error + bounded_heap" where
  "set_property h name value heap =
     (if name = [] \<or> length name > MAX_PROPERTY_NAME_BYTES
      then Inl (Err ''Invalid runtime property name'')
      else if string_too_long value then Inl (Err ''Runtime string exceeds 1 MB'')
      else ebind (ok_or (Err ''Object handle is stale'') (heap_get heap h)) (\<lambda>ob.
        let old_cost = (case bt_get name (ho_properties ob) of None \<Rightarrow> 0 | Some old \<Rightarrow> property_cost name old);
            property_count = length (ho_properties ob);
            new_cost = property_cost name value;
            projected = sat_add (bh_used_bytes heap - old_cost) new_cost;
            s = bh_slots heap ! unat (hh_slot h)
        in if bt_get name (ho_properties ob) = None \<and>
              property_count \<ge> rl_max_properties_per_object (bh_limits heap)
           then Inl (Err ''Runtime property budget exceeded'')
           else if projected > rl_max_heap_bytes (bh_limits heap)
           then Inl (Err ''Runtime heap byte budget exceeded'')
           else Inr (heap\<lparr>bh_used_bytes := projected,
                  bh_slots := (bh_slots heap)[unat (hh_slot h) :=
                    s\<lparr>hs_bytes := sat_add (hs_bytes s - old_cost) new_cost,
                      hs_object := Some (ob\<lparr>ho_properties := bt_insert name value (ho_properties ob)\<rparr>)\<rparr>]\<rparr>)))"

definition remove_property :: "heap_handle \<Rightarrow> bytes \<Rightarrow> bounded_heap
    \<Rightarrow> error + (runtime_value option \<times> bounded_heap)" where
  "remove_property h name heap =
     ebind (ok_or (Err ''Object handle is stale'') (heap_get heap h)) (\<lambda>ob.
       case bt_get name (ho_properties ob) of
         None \<Rightarrow> Inr (None, heap)
       | Some value \<Rightarrow>
           let cost = property_cost name value; s = bh_slots heap ! unat (hh_slot h)
           in Inr (Some value, heap\<lparr>bh_used_bytes := bh_used_bytes heap - cost,
                bh_slots := (bh_slots heap)[unat (hh_slot h) :=
                  s\<lparr>hs_bytes := hs_bytes s - cost,
                    hs_object := Some (ob\<lparr>ho_properties := bt_remove name (ho_properties ob)\<rparr>)\<rparr>]\<rparr>))"

section \<open>The collector\<close>

definition value_reference :: "runtime_value \<Rightarrow> heap_handle list" where
  "value_reference v = (case v of Object r \<Rightarrow> [r] | _ \<Rightarrow> [])"

text \<open>The handles an object holds, in the order they are pushed.\<close>

definition references :: "heap_object \<Rightarrow> heap_handle list" where
  "references ob = (case ho_prototype ob of None \<Rightarrow> [] | Some p \<Rightarrow> [p]) @
     concat (map value_reference (bt_values (ho_properties ob)))"

definition clear_marks :: "heap_slot list \<Rightarrow> heap_slot list" where
  "clear_marks slots = map (\<lambda>s. s\<lparr>hs_marked := False\<rparr>) slots"

definition mark_slot :: "nat \<Rightarrow> heap_slot list \<Rightarrow> heap_slot list" where
  "mark_slot i slots = slots[i := (slots ! i)\<lparr>hs_marked := True\<rparr>]"

text \<open>What one turn of the marking loop does with the handle it popped: nothing, or it marks the
  slot and yields the references to push.\<close>

definition mark_visit :: "heap_slot list \<Rightarrow> heap_handle \<Rightarrow> (heap_slot list \<times> heap_handle list) option" where
  "mark_visit slots h =
     (case get_at slots (unat (hh_slot h)) of
        None \<Rightarrow> None
      | Some s \<Rightarrow>
          if hs_generation s \<noteq> hh_generation h \<or> hs_marked s then None
          else (case hs_object s of
                  None \<Rightarrow> None
                | Some ob \<Rightarrow> Some (mark_slot (unat (hh_slot h)) slots, references ob)))"

definition unmarked :: "heap_slot list \<Rightarrow> nat" where
  "unmarked slots = length (filter (\<lambda>s. \<not> hs_marked s) slots)"

lemma unmarked_mark:
  "i < length slots \<Longrightarrow> \<not> hs_marked (slots ! i) \<Longrightarrow> unmarked (mark_slot i slots) < unmarked slots"
proof (induction slots arbitrary: i)
  case (Cons s slots)
  then show ?case by (cases i) (auto simp: unmarked_def mark_slot_def)
qed simp

lemma mark_visit_decreases: "mark_visit slots h = Some (slots', refs) \<Longrightarrow> unmarked slots' < unmarked slots"
  by (auto simp: mark_visit_def result_simps intro!: unmarked_mark split: option.splits if_splits)

function mark_loop :: "heap_slot list \<Rightarrow> heap_handle list \<Rightarrow> heap_slot list" where
  "mark_loop slots [] = slots"
| "mark_loop slots (h # pending) =
     (case mark_visit slots h of
        None \<Rightarrow> mark_loop slots pending
      | Some (slots', refs) \<Rightarrow> mark_loop slots' (rev refs @ pending))"
  by pat_completeness auto
termination
  by (relation "measures [\<lambda>(slots, pending). unmarked slots, \<lambda>(slots, pending). length pending]")
    (auto dest: mark_visit_decreases)

declare mark_loop.simps(2) [simp del]

text \<open>The sweep visits the slots in order; \<open>index\<close> counts them.\<close>

definition dead_slot :: "heap_slot \<Rightarrow> bool" where
  "dead_slot s \<longleftrightarrow> hs_object s \<noteq> None \<and> \<not> hs_marked s"

fun sweep :: "nat \<Rightarrow> heap_slot list \<Rightarrow> bounded_heap \<Rightarrow> nat \<Rightarrow> heap_slot list \<times> bounded_heap \<times> nat" where
  "sweep index [] heap reclaimed = ([], heap, reclaimed)"
| "sweep index (s # slots) heap reclaimed =
     (if dead_slot s then
        let heap' = heap\<lparr>bh_used_bytes := bh_used_bytes heap - hs_bytes s,
              bh_live_objects := bh_live_objects heap - 1,
              bh_free_slots := (if index < 2 ^ 32 then of_nat index # bh_free_slots heap
                                else bh_free_slots heap)\<rparr>;
            s' = s\<lparr>hs_object := None, hs_bytes := 0, hs_generation := hs_generation s + 1\<rparr>;
            (rest, heap'', reclaimed'') = sweep (index + 1) slots heap' (reclaimed + hs_bytes s)
        in (s' # rest, heap'', reclaimed'')
      else
        let (rest, heap'', reclaimed'') = sweep (index + 1) slots heap reclaimed
        in (s # rest, heap'', reclaimed''))"

definition collect_garbage :: "heap_handle list \<Rightarrow> bounded_heap \<Rightarrow> nat \<times> bounded_heap" where
  "collect_garbage roots heap =
     (let marked = mark_loop (clear_marks (bh_slots heap)) (rev roots);
          (slots, heap', reclaimed) = sweep 0 marked heap 0
      in (reclaimed, heap'\<lparr>bh_slots := slots\<rparr>))"

section \<open>The invariant\<close>

definition slot_ok :: "runtime_limits \<Rightarrow> heap_slot \<Rightarrow> bool" where
  "slot_ok limits s \<longleftrightarrow>
     (case hs_object s of
        None \<Rightarrow> hs_bytes s = 0
      | Some ob \<Rightarrow> bt_ok (ho_properties ob) \<and>
          length (ho_properties ob) \<le> rl_max_properties_per_object limits \<and>
          hs_bytes s = OBJECT_BASE_BYTES + bt_sum property_cost (ho_properties ob))"

definition slot_bytes :: "heap_slot list \<Rightarrow> nat" where
  "slot_bytes slots = sum_list (map hs_bytes slots)"

definition live_count :: "heap_slot list \<Rightarrow> nat" where
  "live_count slots = length (filter (\<lambda>s. hs_object s \<noteq> None) slots)"

definition empty_slots :: "heap_slot list \<Rightarrow> nat set" where
  "empty_slots slots = {i. i < length slots \<and> hs_object (slots ! i) = None}"

definition heap_ok :: "bounded_heap \<Rightarrow> bool" where
  "heap_ok heap \<longleftrightarrow>
     rl_max_heap_bytes (bh_limits heap) < u64_max \<and>
     bh_used_bytes heap = slot_bytes (bh_slots heap) \<and>
     bh_used_bytes heap \<le> rl_max_heap_bytes (bh_limits heap) \<and>
     bh_live_objects heap = live_count (bh_slots heap) \<and>
     bh_live_objects heap \<le> rl_max_objects (bh_limits heap) \<and>
     length (bh_slots heap) \<le> 2 ^ 32 \<and>
     distinct (bh_free_slots heap) \<and>
     unat ` set (bh_free_slots heap) = empty_slots (bh_slots heap) \<and>
     list_all (slot_ok (bh_limits heap)) (bh_slots heap)"

lemma new_heap_ok: "rl_max_heap_bytes limits < u64_max \<Longrightarrow> heap_ok (new_heap limits)"
  by (simp add: heap_ok_def new_heap_def slot_bytes_def live_count_def empty_slots_def)

lemma sum_list_update_nat:
  fixes f :: "'a \<Rightarrow> nat"
  shows "i < length xs \<Longrightarrow> sum_list (map f (xs[i := y])) + f (xs ! i) = sum_list (map f xs) + f y"
proof (induction xs arbitrary: i)
  case (Cons x xs)
  then show ?case by (cases i) (auto simp: algebra_simps)
qed simp

lemma slot_bytes_update:
  "i < length slots \<Longrightarrow> slot_bytes (slots[i := s]) + hs_bytes (slots ! i) = slot_bytes slots + hs_bytes s"
  unfolding slot_bytes_def by (rule sum_list_update_nat)

lemma live_count_sum: "live_count slots = sum_list (map (\<lambda>s. if hs_object s = None then 0 else 1) slots)"
  by (induction slots) (auto simp: live_count_def)

lemma live_count_update:
  "i < length slots \<Longrightarrow> live_count (slots[i := s]) + (if hs_object (slots ! i) = None then 0 else 1)
    = live_count slots + (if hs_object s = None then 0 else 1)"
  unfolding live_count_sum by (rule sum_list_update_nat)

lemma slot_bytes_nth_le: "i < length slots \<Longrightarrow> hs_bytes (slots ! i) \<le> slot_bytes slots"
  unfolding slot_bytes_def by (rule member_le_sum_list) simp_all

lemma resolve_eq_Some:
  "resolve slots h = Some ob \<longleftrightarrow> unat (hh_slot h) < length slots \<and>
     hs_generation (slots ! unat (hh_slot h)) = hh_generation h \<and> hs_object (slots ! unat (hh_slot h)) = Some ob"
  by (auto simp: resolve_def get_at_def)

text \<open>Replacing the content of a live slot.\<close>

lemma heap_ok_replace:
  assumes ok: "heap_ok heap" and i: "i < length (bh_slots heap)"
    and live: "hs_object (bh_slots heap ! i) \<noteq> None" "hs_object s \<noteq> None"
    and s: "slot_ok (bh_limits heap) s"
    and used: "n + hs_bytes (bh_slots heap ! i) = bh_used_bytes heap + hs_bytes s"
    and le: "n \<le> rl_max_heap_bytes (bh_limits heap)"
  shows "heap_ok (heap\<lparr>bh_used_bytes := n, bh_slots := (bh_slots heap)[i := s]\<rparr>)"
proof -
  have "slot_bytes ((bh_slots heap)[i := s]) = n"
    using slot_bytes_update [OF i, of s] used ok by (simp add: heap_ok_def)
  moreover have "live_count ((bh_slots heap)[i := s]) = bh_live_objects heap"
    using live_count_update [OF i, of s] live ok by (simp add: heap_ok_def)
  moreover have "empty_slots ((bh_slots heap)[i := s]) = empty_slots (bh_slots heap)"
    using live i by (auto simp: empty_slots_def nth_list_update)
  moreover have "list_all (slot_ok (bh_limits heap)) ((bh_slots heap)[i := s])"
    using ok s set_update_subset_insert [of "bh_slots heap" i s] by (fastforce simp: heap_ok_def list_all_iff)
  ultimately show ?thesis using ok le by (simp add: heap_ok_def)
qed

lemma heap_ok_slot:
  "heap_ok heap \<Longrightarrow> heap_get heap h = Some ob \<Longrightarrow>
    unat (hh_slot h) < length (bh_slots heap) \<and> hs_object (bh_slots heap ! unat (hh_slot h)) = Some ob \<and>
    bt_ok (ho_properties ob) \<and> length (ho_properties ob) \<le> rl_max_properties_per_object (bh_limits heap) \<and>
    hs_bytes (bh_slots heap ! unat (hh_slot h)) = OBJECT_BASE_BYTES + bt_sum property_cost (ho_properties ob)"
  by (auto simp: heap_get_def resolve_eq_Some heap_ok_def list_all_length slot_ok_def split: option.splits)

lemma set_prototype_ok:
  assumes "set_prototype h p heap = Inr heap'" and ok: "heap_ok heap"
  shows "heap_ok heap'"
proof -
  from assms obtain ob where g: "heap_get heap h = Some ob"
    and h: "heap' = heap\<lparr>bh_slots := update_object h (\<lambda>ob. ob\<lparr>ho_prototype := p\<rparr>) (bh_slots heap)\<rparr>"
    by (auto simp: set_prototype_def split: if_splits)
  note slot = heap_ok_slot [OF ok g]
  let ?s = "(bh_slots heap ! unat (hh_slot h))\<lparr>hs_object := Some (ob\<lparr>ho_prototype := p\<rparr>)\<rparr>"
  have "heap' = heap\<lparr>bh_used_bytes := bh_used_bytes heap, bh_slots := (bh_slots heap)[unat (hh_slot h) := ?s]\<rparr>"
    using slot by (simp add: h update_object_def)
  moreover have "heap_ok \<dots>"
    by (rule heap_ok_replace [OF ok]) (use slot ok in \<open>simp_all add: slot_ok_def heap_ok_def\<close>)
  ultimately show ?thesis by simp
qed

lemma set_property_ok:
  assumes "set_property h name v heap = Inr heap'" and ok: "heap_ok heap"
  shows "heap_ok heap'"
proof -
  let ?i = "unat (hh_slot h)"
  let ?s = "bh_slots heap ! ?i"
  from assms obtain ob where g: "heap_get heap h = Some ob"
    by (auto simp: set_property_def result_simps)
  note slot = heap_ok_slot [OF ok g]
  define old where "old = (case bt_get name (ho_properties ob) of None \<Rightarrow> 0 | Some old \<Rightarrow> property_cost name old)"
  define new where "new = property_cost name v"
  from assms(1) g have le: "sat_add (bh_used_bytes heap - old) new \<le> rl_max_heap_bytes (bh_limits heap)"
    and cnt: "bt_get name (ho_properties ob) = None \<Longrightarrow>
        length (ho_properties ob) < rl_max_properties_per_object (bh_limits heap)"
    and h': "heap' = heap\<lparr>bh_used_bytes := sat_add (bh_used_bytes heap - old) new,
        bh_slots := (bh_slots heap)[?i := ?s\<lparr>hs_bytes := sat_add (hs_bytes ?s - old) new,
          hs_object := Some (ob\<lparr>ho_properties := bt_insert name v (ho_properties ob)\<rparr>)\<rparr>]\<rparr>"
    by (auto simp: set_property_def Let_def old_def new_def result_simps split: if_splits)
  have max: "rl_max_heap_bytes (bh_limits heap) < u64_max" using ok by (simp add: heap_ok_def)
  have sum: "bt_sum property_cost (bt_insert name v (ho_properties ob)) + old
      = bt_sum property_cost (ho_properties ob) + new"
    using bt_sum_insert [of "ho_properties ob" property_cost name v] slot
    by (simp add: old_def new_def split: option.splits)
  have old_le: "old \<le> bt_sum property_cost (ho_properties ob)"
    by (auto simp: old_def split: option.splits intro: bt_sum_get_le)
  have bytes_le: "hs_bytes ?s \<le> bh_used_bytes heap"
    using slot_bytes_nth_le [of ?i "bh_slots heap"] slot ok by (simp add: heap_ok_def)
  have used: "sat_add (bh_used_bytes heap - old) new = bh_used_bytes heap - old + new"
    using le max sat_add_le_iff [OF max] by (intro sat_add_exact) simp
  have byt: "sat_add (hs_bytes ?s - old) new = hs_bytes ?s - old + new"
    using le max used bytes_le by (intro sat_add_exact) simp
  have new_bytes: "sat_add (hs_bytes ?s - old) new
      = OBJECT_BASE_BYTES + bt_sum property_cost (bt_insert name v (ho_properties ob))"
    using byt slot sum old_le by simp
  have slot_ob: "bt_ok (ho_properties ob)"
    "length (ho_properties ob) \<le> rl_max_properties_per_object (bh_limits heap)"
    using slot by simp_all
  show ?thesis
    unfolding h'
  proof (rule heap_ok_replace [OF ok])
    show "slot_ok (bh_limits heap) (?s\<lparr>hs_bytes := sat_add (hs_bytes ?s - old) new,
        hs_object := Some (ob\<lparr>ho_properties := bt_insert name v (ho_properties ob)\<rparr>)\<rparr>)"
      using new_bytes cnt slot_ob bt_length_insert [of "ho_properties ob" name v]
      by (auto simp: slot_ok_def btree.put_ok split: if_splits)
  qed (use slot le used byt bytes_le old_le in simp_all)
qed

lemma remove_property_ok:
  assumes "remove_property h name heap = Inr (r, heap')" and ok: "heap_ok heap"
  shows "heap_ok heap'"
proof -
  let ?i = "unat (hh_slot h)"
  let ?s = "bh_slots heap ! ?i"
  from assms obtain ob where g: "heap_get heap h = Some ob"
    by (auto simp: remove_property_def result_simps)
  note slot = heap_ok_slot [OF ok g]
  show ?thesis
  proof (cases "bt_get name (ho_properties ob)")
    case None
    with assms g show ?thesis by (simp add: remove_property_def)
  next
    case (Some v)
    let ?c = "property_cost name v"
    from assms(1) g Some have h': "heap' = heap\<lparr>bh_used_bytes := bh_used_bytes heap - ?c,
        bh_slots := (bh_slots heap)[?i := ?s\<lparr>hs_bytes := hs_bytes ?s - ?c,
          hs_object := Some (ob\<lparr>ho_properties := bt_remove name (ho_properties ob)\<rparr>)\<rparr>]\<rparr>"
      by (simp add: remove_property_def Let_def)
    have sum: "bt_sum property_cost (bt_remove name (ho_properties ob)) + ?c = bt_sum property_cost (ho_properties ob)"
      by (rule bt_sum_remove) (use slot Some in simp_all)
    have bytes_le: "hs_bytes ?s \<le> bh_used_bytes heap"
      using slot_bytes_nth_le [of ?i "bh_slots heap"] slot ok by (simp add: heap_ok_def)
    have used_le: "bh_used_bytes heap \<le> rl_max_heap_bytes (bh_limits heap)"
      using ok by (simp add: heap_ok_def)
    show ?thesis
      unfolding h'
    proof (rule heap_ok_replace [OF ok])
      show "slot_ok (bh_limits heap) (?s\<lparr>hs_bytes := hs_bytes ?s - ?c,
          hs_object := Some (ob\<lparr>ho_properties := bt_remove name (ho_properties ob)\<rparr>)\<rparr>)"
        using slot sum bt_length_remove [of name "ho_properties ob"]
        by (auto simp: slot_ok_def btree.del_ok)
    qed (use slot sum bytes_le used_le in simp_all)
  qed
qed

text \<open>Filling an empty slot: the top of the free list, or a new one at the end.\<close>

lemma fresh_slot_ok:
  "slot_ok limits \<lparr>hs_generation = g, hs_marked = False, hs_bytes = OBJECT_BASE_BYTES,
     hs_object = Some \<lparr>ho_kind = k, ho_prototype = None, ho_properties = []\<rparr>\<rparr>"
  by (simp add: slot_ok_def)

lemma allocate_ok:
  assumes "allocate kind heap = Inr (h, heap')" and ok: "heap_ok heap"
  shows "heap_ok heap'"
proof -
  let ?ob = "\<lparr>ho_kind = kind, ho_prototype = None, ho_properties = []\<rparr>"
  from assms have live: "bh_live_objects heap < rl_max_objects (bh_limits heap)"
    and sat: "sat_add (bh_used_bytes heap) OBJECT_BASE_BYTES \<le> rl_max_heap_bytes (bh_limits heap)"
    by (auto simp: allocate_def split: if_splits)
  have used: "bh_used_bytes heap + OBJECT_BASE_BYTES \<le> rl_max_heap_bytes (bh_limits heap)"
    using sat sat_add_le_iff ok by (simp add: heap_ok_def)
  show ?thesis
  proof (cases "bh_free_slots heap")
    case Nil
    let ?s = "\<lparr>hs_generation = 0, hs_marked = False, hs_bytes = OBJECT_BASE_BYTES, hs_object = Some ?ob\<rparr>"
    from assms(1) Nil live sat have h': "heap' = heap\<lparr>bh_used_bytes := bh_used_bytes heap + OBJECT_BASE_BYTES,
        bh_live_objects := bh_live_objects heap + 1, bh_slots := bh_slots heap @ [?s]\<rparr>"
      and len: "length (bh_slots heap) < 2 ^ 32"
      by (auto simp: allocate_def Let_def split: if_splits)
    have "empty_slots (bh_slots heap @ [?s]) = empty_slots (bh_slots heap)"
      by (auto simp: empty_slots_def nth_append)
    then show ?thesis
      using ok live used len fresh_slot_ok
      by (simp add: h' heap_ok_def slot_bytes_def live_count_def Nil)
  next
    case (Cons i free)
    let ?i = "unat i"
    let ?s = "(bh_slots heap ! ?i)\<lparr>hs_marked := False, hs_bytes := OBJECT_BASE_BYTES, hs_object := Some ?ob\<rparr>"
    from assms(1) Cons live sat have h': "heap' = heap\<lparr>bh_used_bytes := bh_used_bytes heap + OBJECT_BASE_BYTES,
        bh_live_objects := bh_live_objects heap + 1, bh_free_slots := free,
        bh_slots := (bh_slots heap)[?i := ?s]\<rparr>"
      by (auto simp: allocate_def Let_def split: if_splits)
    have free: "unat ` set (bh_free_slots heap) = empty_slots (bh_slots heap)" using ok by (simp add: heap_ok_def)
    then have "?i \<in> empty_slots (bh_slots heap)" using Cons by auto
    then have i: "?i < length (bh_slots heap)" "hs_object (bh_slots heap ! ?i) = None"
      by (simp_all add: empty_slots_def)
    have zero: "hs_bytes (bh_slots heap ! ?i) = 0"
      using ok i by (auto simp: heap_ok_def list_all_length slot_ok_def)
    have "slot_bytes ((bh_slots heap)[?i := ?s]) = bh_used_bytes heap + OBJECT_BASE_BYTES"
      using slot_bytes_update [OF i(1), of ?s] zero ok by (simp add: heap_ok_def)
    moreover have "live_count ((bh_slots heap)[?i := ?s]) = bh_live_objects heap + 1"
      using live_count_update [OF i(1), of ?s] i ok by (simp add: heap_ok_def)
    moreover have "empty_slots ((bh_slots heap)[?i := ?s]) = empty_slots (bh_slots heap) - {?i}"
      using i by (auto simp: empty_slots_def nth_list_update)
    moreover have "unat ` set free = empty_slots (bh_slots heap) - {?i}"
    proof -
      have "i \<notin> set free" using ok Cons by (simp add: heap_ok_def)
      then have "unat ` set free = unat ` (set (bh_free_slots heap)) - {?i}" using Cons by (auto simp flip: word_unat_eq_iff)
      then show ?thesis by (simp add: free)
    qed
    moreover have "list_all (slot_ok (bh_limits heap)) ((bh_slots heap)[?i := ?s])"
      using ok set_update_subset_insert [of "bh_slots heap" ?i ?s]
      by (fastforce simp: heap_ok_def list_all_iff slot_ok_def)
    ultimately show ?thesis
      using ok live used Cons by (simp add: h' heap_ok_def)
  qed
qed

section \<open>Marking\<close>

lemma clear_marks_simps [simp]:
  "length (clear_marks slots) = length slots" "resolve (clear_marks slots) h = resolve slots h"
  by (auto simp: clear_marks_def resolve_def get_at_def)

lemma nth_update_self: "j < length xs \<Longrightarrow> xs[i := f (xs ! i)] ! j = (if i = j then f (xs ! j) else xs ! j)"
  by (cases "i = j") auto

lemma mark_slot_simps [simp]:
  "length (mark_slot i slots) = length slots" "clear_marks (mark_slot i slots) = clear_marks slots"
  by (auto simp: mark_slot_def clear_marks_def intro!: nth_equalityI)
    (simp add: nth_update_self [where f = "\<lambda>s. s\<lparr>hs_marked := True\<rparr>"])

lemma mark_visit_clear: "mark_visit slots h = Some (slots', refs) \<Longrightarrow> clear_marks slots' = clear_marks slots"
  by (auto simp: mark_visit_def split: option.splits if_splits)

lemma mark_loop_clear: "clear_marks (mark_loop slots pending) = clear_marks slots"
  by (induction slots pending rule: mark_loop.induct)
    (auto simp: mark_loop.simps mark_visit_clear split: option.splits)

text \<open>The live object a handle names is marked.\<close>

definition is_marked :: "heap_slot list \<Rightarrow> heap_handle \<Rightarrow> bool" where
  "is_marked slots h \<longleftrightarrow> resolve slots h \<noteq> None \<and> hs_marked (slots ! unat (hh_slot h))"

text \<open>Reachability, the specification of the collector: an object points to its prototype and to
  the objects its properties hold.\<close>

definition points_to :: "heap_object \<Rightarrow> heap_handle \<Rightarrow> bool" where
  "points_to ob h \<longleftrightarrow> ho_prototype ob = Some h \<or> (\<exists>name. (name, Object h) \<in> set (ho_properties ob))"

lemma references_points_to: "h \<in> set (references ob) \<longleftrightarrow> points_to ob h"
proof -
  have "(\<exists>v\<in>snd ` set (ho_properties ob). h \<in> set (value_reference v))
      \<longleftrightarrow> (\<exists>name. (name, Object h) \<in> set (ho_properties ob))"
    by (force simp: value_reference_def split: runtime_value.splits)
  then show ?thesis
    by (cases "ho_prototype ob") (auto simp: references_def points_to_def bt_values_def)
qed

inductive reachable :: "heap_slot list \<Rightarrow> heap_handle list \<Rightarrow> heap_handle \<Rightarrow> bool"
  for slots :: "heap_slot list" and roots :: "heap_handle list" where
  reach_root: "h \<in> set roots \<Longrightarrow> resolve slots h \<noteq> None \<Longrightarrow> reachable slots roots h"
| reach_ref: "reachable slots roots h \<Longrightarrow> resolve slots h = Some ob \<Longrightarrow> points_to ob h' \<Longrightarrow>
    resolve slots h' \<noteq> None \<Longrightarrow> reachable slots roots h'"

inductive_cases reachableE: "reachable slots roots h"

lemma reachable_resolves: "reachable slots roots h \<Longrightarrow> resolve slots h \<noteq> None"
  by (cases rule: reachable.cases) auto

lemma clear_resolve: "clear_marks s = clear_marks t \<Longrightarrow> resolve s h = resolve t h"
  by (metis clear_marks_simps(2))

definition mark_inv :: "heap_slot list \<Rightarrow> heap_handle list \<Rightarrow> heap_slot list \<Rightarrow> heap_handle list \<Rightarrow> bool" where
  "mark_inv slots0 roots slots pending \<longleftrightarrow>
     clear_marks slots = clear_marks slots0 \<and>
     (\<forall>h. is_marked slots h \<longrightarrow> reachable slots0 roots h) \<and>
     (\<forall>h\<in>set pending. resolve slots0 h \<noteq> None \<longrightarrow> reachable slots0 roots h) \<and>
     (\<forall>h ob h'. is_marked slots h \<longrightarrow> resolve slots0 h = Some ob \<longrightarrow> h' \<in> set (references ob) \<longrightarrow>
        resolve slots0 h' \<noteq> None \<longrightarrow> is_marked slots h' \<or> h' \<in> set pending) \<and>
     (\<forall>r\<in>set roots. resolve slots0 r \<noteq> None \<longrightarrow> is_marked slots r \<or> r \<in> set pending)"

lemma mark_visit_None:
  "mark_visit slots h = None \<Longrightarrow> resolve slots h \<noteq> None \<Longrightarrow> is_marked slots h"
  by (auto simp: mark_visit_def is_marked_def resolve_def get_at_def split: option.splits if_splits)

lemma mark_visit_Some:
  "mark_visit slots h = Some (slots', refs) \<Longrightarrow>
    \<exists>ob. resolve slots h = Some ob \<and> refs = references ob \<and> slots' = mark_slot (unat (hh_slot h)) slots"
  by (auto simp: mark_visit_def resolve_eq_Some result_simps split: option.splits if_splits)

lemma handle_eq_iff: "h' = h \<longleftrightarrow> unat (hh_slot h') = unat (hh_slot h) \<and> hh_generation h' = hh_generation h"
  for h h' :: heap_handle
  by (cases h; cases h') (simp add: word_unat_eq_iff)

text \<open>Two live handles to the same slot are equal, so marking a slot marks one handle.\<close>

lemma is_marked_mark:
  assumes "resolve slots h \<noteq> None"
  shows "is_marked (mark_slot (unat (hh_slot h)) slots) h' \<longleftrightarrow> is_marked slots h' \<or> h' = h"
proof -
  have r: "resolve (mark_slot i slots) h' = resolve slots h'" for i h'
    by (rule clear_resolve) simp
  show ?thesis
    using assms unfolding is_marked_def r
    by (auto simp: mark_slot_def nth_list_update resolve_eq_Some handle_eq_iff)
qed

lemma mark_invD:
  assumes "mark_inv slots0 roots slots pending"
  shows "clear_marks slots = clear_marks slots0"
    and "is_marked slots h \<Longrightarrow> reachable slots0 roots h"
    and "h \<in> set pending \<Longrightarrow> resolve slots0 h \<noteq> None \<Longrightarrow> reachable slots0 roots h"
    and "is_marked slots h \<Longrightarrow> resolve slots0 h = Some ob \<Longrightarrow> h' \<in> set (references ob) \<Longrightarrow>
      resolve slots0 h' \<noteq> None \<Longrightarrow> is_marked slots h' \<or> h' \<in> set pending"
    and "r \<in> set roots \<Longrightarrow> resolve slots0 r \<noteq> None \<Longrightarrow> is_marked slots r \<or> r \<in> set pending"
  using assms unfolding mark_inv_def by (blast, blast, blast, blast, blast)

lemma mark_invI:
  assumes "clear_marks slots = clear_marks slots0"
    and "\<And>h. is_marked slots h \<Longrightarrow> reachable slots0 roots h"
    and "\<And>h. h \<in> set pending \<Longrightarrow> resolve slots0 h \<noteq> None \<Longrightarrow> reachable slots0 roots h"
    and "\<And>h ob h'. is_marked slots h \<Longrightarrow> resolve slots0 h = Some ob \<Longrightarrow> h' \<in> set (references ob) \<Longrightarrow>
      resolve slots0 h' \<noteq> None \<Longrightarrow> is_marked slots h' \<or> h' \<in> set pending"
    and "\<And>r. r \<in> set roots \<Longrightarrow> resolve slots0 r \<noteq> None \<Longrightarrow> is_marked slots r \<or> r \<in> set pending"
  shows "mark_inv slots0 roots slots pending"
  using assms unfolding mark_inv_def by blast

lemma mark_inv_skip:
  assumes inv: "mark_inv slots0 roots slots (h # pending)" and v: "mark_visit slots h = None"
  shows "mark_inv slots0 roots slots pending"
proof -
  note D = mark_invD [OF inv]
  have r: "resolve slots x = resolve slots0 x" for x by (rule clear_resolve [OF D(1)])
  have h: "x = h \<Longrightarrow> resolve slots0 x \<noteq> None \<Longrightarrow> is_marked slots x" for x
    using mark_visit_None [OF v] by (simp add: r)
  show ?thesis
  proof (rule mark_invI)
    fix x ob x'
    assume "is_marked slots x" "resolve slots0 x = Some ob" "x' \<in> set (references ob)" "resolve slots0 x' \<noteq> None"
    then show "is_marked slots x' \<or> x' \<in> set pending" using D(4) [of x ob x'] h [of x'] by auto
  next
    fix x
    assume "x \<in> set roots" "resolve slots0 x \<noteq> None"
    then show "is_marked slots x \<or> x \<in> set pending" using D(5) [of x] h [of x] by auto
  qed (use D in auto)
qed

lemma mark_inv_visit:
  assumes inv: "mark_inv slots0 roots slots (h # pending)" and v: "mark_visit slots h = Some (slots', refs)"
  shows "mark_inv slots0 roots slots' (rev refs @ pending)"
proof -
  have r: "resolve slots x = resolve slots0 x" for x
    using inv by (intro clear_resolve) (simp add: mark_inv_def)
  from mark_visit_Some [OF v] obtain ob where ob: "resolve slots0 h = Some ob"
    and refs: "refs = references ob" and s': "slots' = mark_slot (unat (hh_slot h)) slots"
    by (auto simp: r)
  have m: "is_marked slots' x \<longleftrightarrow> is_marked slots x \<or> x = h" for x
    unfolding s' by (rule is_marked_mark) (simp add: r ob)
  have reach: "reachable slots0 roots h" using inv ob by (simp add: mark_inv_def)
  note D = mark_invD [OF inv]
  show ?thesis
  proof (rule mark_invI, unfold m)
    show "clear_marks slots' = clear_marks slots0" using D(1) by (simp add: s')
  next
    fix x
    assume "is_marked slots x \<or> x = h"
    then show "reachable slots0 roots x" using D(2) reach by blast
  next
    fix x
    assume "x \<in> set (rev refs @ pending)" "resolve slots0 x \<noteq> None"
    then show "reachable slots0 roots x" using D(3) [of x] reach_ref [OF reach ob]
      by (auto simp: refs references_points_to)
  next
    fix x ob' x'
    assume "is_marked slots x \<or> x = h" "resolve slots0 x = Some ob'" "x' \<in> set (references ob')"
      "resolve slots0 x' \<noteq> None"
    then show "(is_marked slots x' \<or> x' = h) \<or> x' \<in> set (rev refs @ pending)"
      using D(4) [of x ob' x'] ob refs by auto
  next
    fix x
    assume "x \<in> set roots" "resolve slots0 x \<noteq> None"
    then show "(is_marked slots x \<or> x = h) \<or> x \<in> set (rev refs @ pending)" using D(5) [of x] by auto
  qed
qed

lemma mark_loop_inv: "mark_inv slots0 roots slots pending \<Longrightarrow> mark_inv slots0 roots (mark_loop slots pending) []"
proof (induction slots pending rule: mark_loop.induct)
  case (2 slots h pending)
  show ?case
  proof (cases "mark_visit slots h")
    case None
    with 2 show ?thesis by (simp add: mark_loop.simps mark_inv_skip)
  next
    case (Some p)
    obtain slots' refs where p: "p = (slots', refs)" by (cases p)
    with 2 Some show ?thesis by (simp add: mark_loop.simps mark_inv_visit)
  qed
qed simp

lemma mark_inv_start: "mark_inv slots roots (clear_marks slots) (rev roots)"
proof -
  have "\<not> is_marked (clear_marks slots) h" for h
    by (auto simp: is_marked_def) (auto simp: clear_marks_def resolve_eq_Some)
  then show ?thesis
    unfolding mark_inv_def by (auto simp: clear_marks_def intro: reach_root)
qed

text \<open>The marker marks exactly the reachable objects.\<close>

lemma mark_loop_reachable:
  "is_marked (mark_loop (clear_marks slots) (rev roots)) h \<longleftrightarrow> reachable slots roots h"
proof
  let ?m = "mark_loop (clear_marks slots) (rev roots)"
  have inv: "mark_inv slots roots ?m []" by (rule mark_loop_inv [OF mark_inv_start])
  note D = mark_invD [OF inv]
  show "is_marked ?m h \<Longrightarrow> reachable slots roots h" by (rule D(2))
  show "reachable slots roots h \<Longrightarrow> is_marked ?m h"
  proof (induction rule: reachable.induct)
    case (reach_root h)
    with D(5) show ?case by auto
  next
    case (reach_ref h ob h')
    with D(4) show ?case by (auto simp: references_points_to)
  qed
qed

section \<open>Sweeping\<close>

definition swept :: "heap_slot \<Rightarrow> heap_slot" where
  "swept s = (if dead_slot s then s\<lparr>hs_object := None, hs_bytes := 0, hs_generation := hs_generation s + 1\<rparr> else s)"

definition dead_bytes :: "heap_slot list \<Rightarrow> nat" where
  "dead_bytes slots = sum_list (map hs_bytes (filter dead_slot slots))"

definition dead_count :: "heap_slot list \<Rightarrow> nat" where
  "dead_count slots = length (filter dead_slot slots)"

fun dead_indices :: "nat \<Rightarrow> heap_slot list \<Rightarrow> nat list" where
  "dead_indices index [] = []"
| "dead_indices index (s # slots) = (if dead_slot s then [index] else []) @ dead_indices (index + 1) slots"

lemma sweep_result:
  assumes "index + length slots \<le> 2 ^ 32"
  shows "sweep index slots heap reclaimed = (map swept slots,
      heap\<lparr>bh_used_bytes := bh_used_bytes heap - dead_bytes slots,
           bh_live_objects := bh_live_objects heap - dead_count slots,
           bh_free_slots := rev (map of_nat (dead_indices index slots)) @ bh_free_slots heap\<rparr>,
      reclaimed + dead_bytes slots)"
  using assms
  by (induction index slots heap reclaimed rule: sweep.induct)
    (auto simp: Let_def swept_def dead_bytes_def dead_count_def)

lemma dead_indices_set:
  "k \<in> set (dead_indices index slots) \<longleftrightarrow>
    index \<le> k \<and> k - index < length slots \<and> dead_slot (slots ! (k - index))"
proof (induction index slots rule: dead_indices.induct)
  case (2 index s slots)
  show ?case
  proof (cases "index < k")
    case True
    then have "k - index = Suc (k - (index + 1))" by simp
    with 2 True show ?thesis by auto
  next
    case False
    with 2 show ?thesis by (cases "k = index") auto
  qed
qed simp

lemma dead_indices_distinct: "distinct (dead_indices index slots)"
  by (induction index slots rule: dead_indices.induct) (auto simp: dead_indices_set)

lemma swept_sums:
  "slot_bytes (map swept slots) + dead_bytes slots = slot_bytes slots"
  "live_count (map swept slots) + dead_count slots = live_count slots"
  by (induction slots)
    (auto simp: slot_bytes_def dead_bytes_def live_count_def dead_count_def swept_def dead_slot_def)

lemma slot_ok_mark [simp]: "slot_ok limits (s\<lparr>hs_marked := b\<rparr>) = slot_ok limits s"
  by (simp add: slot_ok_def split: option.split)

lemma clear_marks_sums [simp]:
  "slot_bytes (clear_marks slots) = slot_bytes slots" "live_count (clear_marks slots) = live_count slots"
  "empty_slots (clear_marks slots) = empty_slots slots"
  "list_all (slot_ok limits) (clear_marks slots) \<longleftrightarrow> list_all (slot_ok limits) slots"
proof -
  show "slot_bytes (clear_marks slots) = slot_bytes slots" "live_count (clear_marks slots) = live_count slots"
    by (induction slots) (auto simp: clear_marks_def slot_bytes_def live_count_def)
  show "empty_slots (clear_marks slots) = empty_slots slots"
    by (auto simp: empty_slots_def clear_marks_def)
  show "list_all (slot_ok limits) (clear_marks slots) \<longleftrightarrow> list_all (slot_ok limits) slots"
    by (simp add: clear_marks_def list_all_iff)
qed

lemma heap_ok_marks:
  assumes "clear_marks slots = clear_marks (bh_slots heap)" and "heap_ok heap"
  shows "heap_ok (heap\<lparr>bh_slots := slots\<rparr>)"
proof -
  have "slot_bytes slots = slot_bytes (bh_slots heap)" "live_count slots = live_count (bh_slots heap)"
    "empty_slots slots = empty_slots (bh_slots heap)" "length slots = length (bh_slots heap)"
    "list_all (slot_ok (bh_limits heap)) slots \<longleftrightarrow> list_all (slot_ok (bh_limits heap)) (bh_slots heap)"
    using assms(1) by (metis clear_marks_sums(1), metis clear_marks_sums(2), metis clear_marks_sums(3),
      metis clear_marks_simps(1), metis clear_marks_sums(4))
  with assms(2) show ?thesis by (simp add: heap_ok_def)
qed

lemma collect_garbage_eq:
  fixes roots :: "heap_handle list"
  assumes "length (bh_slots heap) \<le> 2 ^ 32"
  defines "marked \<equiv> mark_loop (clear_marks (bh_slots heap)) (rev roots)"
  shows "collect_garbage roots heap = (dead_bytes marked,
    heap\<lparr>bh_used_bytes := bh_used_bytes heap - dead_bytes marked,
         bh_live_objects := bh_live_objects heap - dead_count marked,
         bh_free_slots := rev (map of_nat (dead_indices 0 marked)) @ bh_free_slots heap,
         bh_slots := map swept marked\<rparr>)"
proof -
  have "clear_marks marked = clear_marks (bh_slots heap)"
    unfolding marked_def mark_loop_clear by (simp add: clear_marks_def)
  then have "length marked = length (bh_slots heap)" by (metis clear_marks_simps(1))
  with assms show ?thesis
    by (simp add: collect_garbage_def Let_def sweep_result del: power_numeral)
qed

lemma unat_of_nat_image:
  "(\<And>k. k \<in> K \<Longrightarrow> unat (of_nat k :: u32) = k) \<Longrightarrow> unat ` (of_nat ` K :: u32 set) = K"
  by (simp add: image_image cong: image_cong)

lemma collect_garbage_ok:
  assumes ok: "heap_ok heap"
  shows "heap_ok (snd (collect_garbage roots heap))"
proof -
  let ?m = "mark_loop (clear_marks (bh_slots heap)) (rev roots)"
  have c: "clear_marks ?m = clear_marks (bh_slots heap)"
    unfolding mark_loop_clear by (simp add: clear_marks_def)
  from heap_ok_marks [OF c ok] have okm: "heap_ok (heap\<lparr>bh_slots := ?m\<rparr>)" .
  have len: "length (bh_slots heap) \<le> 2 ^ 32" "length ?m \<le> 2 ^ 32"
    using ok okm by (simp_all add: heap_ok_def)
  have idx: "unat (of_nat k :: u32) = k" if "k \<in> set (dead_indices 0 ?m)" for k
    using that len(2) by (simp add: dead_indices_set unat_of_nat take_bit_nat_eq_self)
  have "empty_slots (map swept ?m) = empty_slots ?m \<union> set (dead_indices 0 ?m)"
    by (auto simp: empty_slots_def dead_indices_set swept_def dead_slot_def)
  moreover have "unat ` (of_nat ` set (dead_indices 0 ?m) :: u32 set) = set (dead_indices 0 ?m)"
    by (rule unat_of_nat_image) (rule idx)
  moreover have "distinct (map of_nat (dead_indices 0 ?m) :: u32 list)"
    using idx dead_indices_distinct by (auto simp: distinct_map intro!: inj_onI) metis
  moreover have "x \<notin> of_nat ` set (dead_indices 0 ?m)" if "x \<in> set (bh_free_slots heap)" for x :: u32
  proof
    assume "x \<in> of_nat ` set (dead_indices 0 ?m)"
    then obtain k where k: "k \<in> set (dead_indices 0 ?m)" "x = of_nat k" by auto
    with idx have "unat x = k" by simp
    moreover have "unat x \<in> empty_slots ?m" using that okm by (auto simp: heap_ok_def)
    ultimately show False using k by (simp add: empty_slots_def dead_indices_set dead_slot_def)
  qed
  moreover have "list_all (slot_ok (bh_limits heap)) (map swept ?m)"
    using okm by (auto simp: heap_ok_def list_all_iff slot_ok_def swept_def)
  ultimately show ?thesis
    using okm swept_sums [of ?m]
    by (auto simp: collect_garbage_eq [OF len(1)] heap_ok_def image_Un)
qed

section \<open>Runs of the heap\<close>

datatype heap_op =
    OpAllocate host_object_kind
  | OpSetPrototype heap_handle "heap_handle option"
  | OpSetProperty heap_handle bytes runtime_value
  | OpRemoveProperty heap_handle bytes
  | OpCollect "heap_handle list"

text \<open>A failing call leaves the heap as it was.\<close>

definition heap_step :: "bounded_heap \<Rightarrow> heap_op \<Rightarrow> bounded_heap" where
  "heap_step heap op =
     (case op of
        OpAllocate kind \<Rightarrow> (case allocate kind heap of Inl _ \<Rightarrow> heap | Inr (_, heap') \<Rightarrow> heap')
      | OpSetPrototype h p \<Rightarrow> (case set_prototype h p heap of Inl _ \<Rightarrow> heap | Inr heap' \<Rightarrow> heap')
      | OpSetProperty h name v \<Rightarrow> (case set_property h name v heap of Inl _ \<Rightarrow> heap | Inr heap' \<Rightarrow> heap')
      | OpRemoveProperty h name \<Rightarrow> (case remove_property h name heap of Inl _ \<Rightarrow> heap | Inr (_, heap') \<Rightarrow> heap')
      | OpCollect roots \<Rightarrow> snd (collect_garbage roots heap))"

definition heap_run :: "heap_op list \<Rightarrow> bounded_heap \<Rightarrow> bounded_heap" where
  "heap_run ops heap = fold (\<lambda>op heap. heap_step heap op) ops heap"

interpretation runtime_heap: transition_system heap_step heap_ok
  by unfold_locales
    (auto simp: heap_step_def collect_garbage_ok split: heap_op.splits sum.splits
      dest: allocate_ok set_prototype_ok set_property_ok remove_property_ok)

text \<open>C8. Whatever calls are made on a new heap, and whichever of them fail, its books balance: the
  used bytes are exactly the bytes of the live objects with their properties and stay within the byte
  budget, the live count is the number of occupied slots and stays within the object budget, no object
  has more properties than allowed, and the free list holds every empty slot exactly once.\<close>

theorem heap_run_ok:
  assumes "rl_max_heap_bytes limits < u64_max"
  shows "heap_ok (heap_run ops (new_heap limits))"
  unfolding heap_run_def by (rule runtime_heap.run_inv [OF new_heap_ok [OF assms]])

theorem heap_run_ok_witness:
  "heap_ok (heap_run [OpAllocate Global, OpAllocate Element, OpCollect []] (new_heap default_limits))"
  by (rule heap_run_ok) (simp add: default_limits_def u64_max_def)

section \<open>The collector keeps exactly what is reachable\<close>

lemma collect_resolve:
  assumes "length (bh_slots heap) \<le> 2 ^ 32"
  shows "heap_get (snd (collect_garbage roots heap)) h
    = (if reachable (bh_slots heap) roots h then heap_get heap h else None)"
proof -
  let ?m = "mark_loop (clear_marks (bh_slots heap)) (rev roots)"
  have c: "clear_marks ?m = clear_marks (bh_slots heap)"
    unfolding mark_loop_clear by (simp add: clear_marks_def)
  have r: "resolve ?m h = heap_get heap h" unfolding heap_get_def by (rule clear_resolve [OF c])
  have e: "heap_get (snd (collect_garbage roots heap)) h = resolve (map swept ?m) h"
    by (simp add: collect_garbage_eq [OF assms] heap_get_def)
  have "resolve (map swept ?m) h = (if is_marked ?m h then resolve ?m h else None)"
    by (auto simp: resolve_def get_at_def is_marked_def swept_def dead_slot_def)
  then show ?thesis by (simp add: e r mark_loop_reachable)
qed

text \<open>C9. Garbage collection keeps exactly the reachable objects: a handle that the roots reach through
  prototypes and properties, cycles included, still resolves to the same object, every other handle
  resolves to nothing, and the number of bytes reported as reclaimed is what the byte count went down
  by.\<close>

theorem collect_garbage_exact:
  assumes "heap_ok heap"
  shows "heap_get (snd (collect_garbage roots heap)) h
      = (if reachable (bh_slots heap) roots h then heap_get heap h else None) \<and>
    bh_used_bytes (snd (collect_garbage roots heap)) + fst (collect_garbage roots heap) = bh_used_bytes heap"
proof
  have len: "length (bh_slots heap) \<le> 2 ^ 32" using assms by (simp add: heap_ok_def)
  show "heap_get (snd (collect_garbage roots heap)) h
      = (if reachable (bh_slots heap) roots h then heap_get heap h else None)"
    by (rule collect_resolve [OF len])
  let ?m = "mark_loop (clear_marks (bh_slots heap)) (rev roots)"
  have c: "clear_marks ?m = clear_marks (bh_slots heap)"
    unfolding mark_loop_clear by (simp add: clear_marks_def)
  have "heap_ok (heap\<lparr>bh_slots := ?m\<rparr>)" by (rule heap_ok_marks [OF c assms])
  with swept_sums(1) [of ?m] show "bh_used_bytes (snd (collect_garbage roots heap))
      + fst (collect_garbage roots heap) = bh_used_bytes heap"
    by (simp add: collect_garbage_eq [OF len] heap_ok_def)
qed

section \<open>Stale handles\<close>

definition generation_at :: "bounded_heap \<Rightarrow> nat \<Rightarrow> u32" where
  "generation_at heap i = hs_generation (bh_slots heap ! i)"

lemma generation_update:
  "hs_generation s = hs_generation (slots ! j) \<Longrightarrow> hs_generation (slots[j := s] ! i) = hs_generation (slots ! i)"
  by (cases "i = j"; cases "j < length slots") (simp_all add: list_update_beyond)

text \<open>A call changes the generation of a slot by one at most, and never removes a slot.\<close>

lemma swept_generation: "hs_generation (swept s) = hs_generation s \<or> hs_generation (swept s) = hs_generation s + 1"
  by (simp add: swept_def)

lemma allocate_generation:
  assumes "allocate kind heap = Inr (h, heap')" and "i < length (bh_slots heap)"
  shows "i < length (bh_slots heap') \<and> generation_at heap' i = generation_at heap i"
  using assms
  by (cases "bh_free_slots heap")
    (auto simp: allocate_def Let_def generation_at_def nth_append generation_update split: if_splits)

lemma set_property_generation:
  "set_property h name v heap = Inr heap' \<Longrightarrow>
    length (bh_slots heap') = length (bh_slots heap) \<and> generation_at heap' i = generation_at heap i"
  by (auto simp: set_property_def Let_def result_simps generation_at_def generation_update split: if_splits)

lemma remove_property_generation:
  "remove_property h name heap = Inr (r, heap') \<Longrightarrow>
    length (bh_slots heap') = length (bh_slots heap) \<and> generation_at heap' i = generation_at heap i"
  by (auto simp: remove_property_def Let_def result_simps generation_at_def generation_update split: option.splits)

lemma set_prototype_generation:
  "set_prototype h p heap = Inr heap' \<Longrightarrow>
    length (bh_slots heap') = length (bh_slots heap) \<and> generation_at heap' i = generation_at heap i"
  by (auto simp: set_prototype_def update_object_def generation_at_def generation_update split: if_splits)

lemma collect_generation:
  assumes "length (bh_slots heap) \<le> 2 ^ 32" and "i < length (bh_slots heap)"
  shows "i < length (bh_slots (snd (collect_garbage roots heap))) \<and>
    (generation_at (snd (collect_garbage roots heap)) i = generation_at heap i \<or>
     generation_at (snd (collect_garbage roots heap)) i = generation_at heap i + 1)"
proof -
  let ?m = "mark_loop (clear_marks (bh_slots heap)) (rev roots)"
  have c: "clear_marks ?m = clear_marks (bh_slots heap)"
    unfolding mark_loop_clear by (simp add: clear_marks_def)
  then have len: "length ?m = length (bh_slots heap)" by (metis clear_marks_simps(1))
  have "hs_generation (clear_marks ?m ! i) = hs_generation (clear_marks (bh_slots heap) ! i)" by (simp only: c)
  then have "hs_generation (?m ! i) = generation_at heap i"
    using assms(2) len by (simp add: clear_marks_def generation_at_def)
  with swept_generation [of "?m ! i"] assms len show ?thesis
    by (simp add: collect_garbage_eq generation_at_def)
qed

lemma heap_step_generation:
  assumes "heap_ok heap" and "i < length (bh_slots heap)"
  shows "i < length (bh_slots (heap_step heap op)) \<and>
    (generation_at (heap_step heap op) i = generation_at heap i \<or>
     generation_at (heap_step heap op) i = generation_at heap i + 1)"
proof -
  have len: "length (bh_slots heap) \<le> 2 ^ 32" using assms by (simp add: heap_ok_def)
  show ?thesis
  proof (cases op)
    case (OpCollect roots)
    then show ?thesis using collect_generation [OF len assms(2)] by (simp add: heap_step_def)
  qed (use assms(2) in \<open>auto simp: heap_step_def split: sum.splits
      dest: allocate_generation set_prototype_generation [where i = i] set_property_generation [where i = i]
        remove_property_generation [where i = i]\<close>)
qed

text \<open>A handle is stale when its slot has moved on to a later generation.\<close>

definition stale :: "heap_handle \<Rightarrow> bounded_heap \<Rightarrow> bool" where
  "stale h heap \<longleftrightarrow> unat (hh_slot h) < length (bh_slots heap) \<and>
     hh_generation h < generation_at heap (unat (hh_slot h))"

lemma stale_get: "stale h heap \<Longrightarrow> heap_get heap h = None"
  by (auto simp: stale_def generation_at_def heap_get_def resolve_def get_at_def)

lemma u32_Suc: "unat w + 1 < 2 ^ 32 \<Longrightarrow> unat (w + 1) = unat w + 1" for w :: u32
  by (simp add: unat_word_ariths)

lemma stale_run:
  assumes "stale h heap" and "heap_ok heap"
    and "unat (generation_at heap (unat (hh_slot h))) + length ops < 2 ^ 32"
  shows "heap_get (heap_run ops heap) h = None"
  using assms
proof (induction ops arbitrary: heap)
  case Nil
  then show ?case by (simp add: heap_run_def stale_get)
next
  case (Cons op ops)
  let ?i = "unat (hh_slot h)"
  let ?heap = "heap_step heap op"
  have i: "?i < length (bh_slots heap)" using Cons.prems by (simp add: stale_def)
  note g = heap_step_generation [OF Cons.prems(2) i, of op]
  have u: "unat (generation_at heap ?i + 1) = unat (generation_at heap ?i) + 1"
    using Cons.prems(3) by (intro u32_Suc) simp
  then have less: "generation_at heap ?i < generation_at heap ?i + 1" by (simp add: word_less_nat_alt)
  have "stale h ?heap" using g less Cons.prems(1) by (auto simp: stale_def)
  moreover have "heap_ok ?heap" using Cons.prems(2) by (rule runtime_heap.step_inv)
  moreover have "unat (generation_at ?heap ?i) + length ops < 2 ^ 32"
    using g u Cons.prems(3) by auto
  ultimately show ?case using Cons.IH by (simp add: heap_run_def)
qed

text \<open>C10. No use after free: a handle whose object the collector reclaimed never resolves again,
  whatever is allocated, changed or collected later, until its slot has been reused \<open>2 ^ 32\<close> times
  (the wrap of the generation counter).\<close>

theorem reclaimed_handle_stays_dead:
  assumes "heap_ok heap" and "heap_get heap h \<noteq> None" and "\<not> reachable (bh_slots heap) roots h"
    and "unat (hh_generation h) + length ops + 1 < 2 ^ 32"
  shows "heap_get (heap_run ops (snd (collect_garbage roots heap))) h = None"
proof -
  let ?i = "unat (hh_slot h)"
  let ?m = "mark_loop (clear_marks (bh_slots heap)) (rev roots)"
  have len: "length (bh_slots heap) \<le> 2 ^ 32" using assms(1) by (simp add: heap_ok_def)
  have c: "clear_marks ?m = clear_marks (bh_slots heap)"
    unfolding mark_loop_clear by (simp add: clear_marks_def)
  have r: "resolve ?m h = heap_get heap h" unfolding heap_get_def by (rule clear_resolve [OF c])
  have "\<not> is_marked ?m h" using assms(3) by (simp add: mark_loop_reachable)
  with r assms(2) have d: "?i < length ?m" "dead_slot (?m ! ?i)" "hs_generation (?m ! ?i) = hh_generation h"
    by (auto simp: is_marked_def dead_slot_def resolve_eq_Some)
  then have g: "generation_at (snd (collect_garbage roots heap)) ?i = hh_generation h + 1"
    "?i < length (bh_slots (snd (collect_garbage roots heap)))"
    by (simp_all add: collect_garbage_eq [OF len] generation_at_def swept_def)
  have u: "unat (hh_generation h + 1) = unat (hh_generation h) + 1"
    using assms(4) by (intro u32_Suc) simp
  then have "stale h (snd (collect_garbage roots heap))"
    using g by (simp add: stale_def word_less_nat_alt)
  then show ?thesis
    by (rule stale_run [OF _ collect_garbage_ok [OF assms(1)]]) (use g u assms(4) in simp)
qed

section \<open>Allocation and properties\<close>

lemma allocate_resolves:
  assumes "allocate kind heap = Inr (h, heap')" and "heap_ok heap"
  shows "heap_get heap h = None \<and>
    heap_get heap' h = Some \<lparr>ho_kind = kind, ho_prototype = None, ho_properties = []\<rparr> \<and>
    (\<forall>h'. h' \<noteq> h \<longrightarrow> heap_get heap' h' = heap_get heap h')"
proof (cases "bh_free_slots heap")
  case Nil
  then have h: "h = \<lparr>hh_slot = of_nat (length (bh_slots heap)), hh_generation = 0\<rparr>"
    and s: "bh_slots heap' = bh_slots heap @ [\<lparr>hs_generation = 0, hs_marked = False,
        hs_bytes = OBJECT_BASE_BYTES, hs_object = Some \<lparr>ho_kind = kind, ho_prototype = None, ho_properties = []\<rparr>\<rparr>]"
    and l: "length (bh_slots heap) < 2 ^ 32"
    using assms(1) by (auto simp: allocate_def Let_def split: if_splits)
  have u: "unat (of_nat (length (bh_slots heap)) :: u32) = length (bh_slots heap)"
    using l by (simp add: unat_of_nat take_bit_nat_eq_self)
  show ?thesis
    unfolding heap_get_def s
    by (auto simp: resolve_def get_at_def h u nth_append handle_eq_iff split: if_splits)
next
  case (Cons i free)
  then have h: "h = \<lparr>hh_slot = i, hh_generation = hs_generation (bh_slots heap ! unat i)\<rparr>"
    and s: "bh_slots heap' = (bh_slots heap)[unat i := (bh_slots heap ! unat i)\<lparr>hs_marked := False,
        hs_bytes := OBJECT_BASE_BYTES, hs_object := Some \<lparr>ho_kind = kind, ho_prototype = None, ho_properties = []\<rparr>\<rparr>]"
    using assms(1) by (auto simp: allocate_def Let_def split: if_splits)
  have "unat i \<in> empty_slots (bh_slots heap)" using assms(2) Cons by (auto simp: heap_ok_def)
  then have i: "unat i < length (bh_slots heap)" "hs_object (bh_slots heap ! unat i) = None"
    by (simp_all add: empty_slots_def)
  show ?thesis
    unfolding heap_get_def s using i
    by (auto simp: resolve_def get_at_def h nth_list_update handle_eq_iff)
qed

text \<open>A successful allocation hands out a handle that no one held a live object under, resolving to
  an empty object of the requested kind, and leaves every other handle resolving as before.\<close>

theorem allocate_fresh:
  assumes "allocate kind heap = Inr (h, heap')" and "heap_ok heap"
  shows "heap_get heap h = None \<and>
    heap_get heap' h = Some \<lparr>ho_kind = kind, ho_prototype = None, ho_properties = []\<rparr> \<and>
    (\<forall>h'. h' \<noteq> h \<longrightarrow> heap_get heap' h' = heap_get heap h')"
  using assms by (rule allocate_resolves)

lemma set_property_resolves:
  assumes "set_property h name v heap = Inr heap'"
  shows "\<exists>ob ob'. heap_get heap h = Some ob \<and> heap_get heap' h = Some ob' \<and>
      ho_kind ob' = ho_kind ob \<and> ho_prototype ob' = ho_prototype ob \<and>
      (\<forall>n. bt_get n (ho_properties ob') = (if n = name then Some v else bt_get n (ho_properties ob))) \<and>
      (\<forall>h'. h' \<noteq> h \<longrightarrow> heap_get heap' h' = heap_get heap h')"
proof -
  let ?i = "unat (hh_slot h)"
  from assms obtain ob where g: "heap_get heap h = Some ob"
    by (auto simp: set_property_def result_simps)
  with assms obtain n where s: "bh_slots heap' = (bh_slots heap)[?i := (bh_slots heap ! ?i)\<lparr>hs_bytes := n,
      hs_object := Some (ob\<lparr>ho_properties := bt_insert name v (ho_properties ob)\<rparr>)\<rparr>]"
    by (auto simp: set_property_def Let_def split: if_splits)
  from g have i: "?i < length (bh_slots heap)" "hs_generation (bh_slots heap ! ?i) = hh_generation h"
    by (auto simp: heap_get_def resolve_eq_Some)
  have "heap_get heap' h = Some (ob\<lparr>ho_properties := bt_insert name v (ho_properties ob)\<rparr>)"
    using i by (simp add: heap_get_def s resolve_def get_at_def)
  moreover have "heap_get heap' h' = heap_get heap h'" if "h' \<noteq> h" for h'
    using that i g unfolding heap_get_def s
    by (auto simp: resolve_def get_at_def nth_list_update handle_eq_iff split: if_splits)
  ultimately show ?thesis using g by (auto simp: btree.get_put)
qed

text \<open>A property that was set reads back as the value; the object's other properties, its kind and
  prototype, and what every other handle resolves to, do not change.\<close>

theorem set_property_reads_back:
  assumes "set_property h name v heap = Inr heap'"
  shows "\<exists>ob ob'. heap_get heap h = Some ob \<and> heap_get heap' h = Some ob' \<and>
      ho_kind ob' = ho_kind ob \<and> ho_prototype ob' = ho_prototype ob \<and>
      (\<forall>n. bt_get n (ho_properties ob') = (if n = name then Some v else bt_get n (ho_properties ob))) \<and>
      (\<forall>h'. h' \<noteq> h \<longrightarrow> heap_get heap' h' = heap_get heap h')"
  using assms by (rule set_property_resolves)

section \<open>A concrete heap\<close>

text \<open>A global that refers to an element, and an object nobody refers to.\<close>

definition handle :: "u32 \<Rightarrow> heap_handle" where
  "handle i = \<lparr>hh_slot = i, hh_generation = 0\<rparr>"

definition demo_ops :: "heap_op list" where
  "demo_ops = [OpAllocate Global, OpAllocate Element, OpAllocate Ordinary,
     OpSetProperty (handle 0) [97] (Object (handle 1))]"

definition demo_slot :: "nat \<Rightarrow> host_object_kind \<Rightarrow> (bytes, runtime_value) btree \<Rightarrow> heap_slot" where
  "demo_slot n k props = \<lparr>hs_generation = 0, hs_marked = False, hs_bytes = n,
     hs_object = Some \<lparr>ho_kind = k, ho_prototype = None, ho_properties = props\<rparr>\<rparr>"

definition demo_heap :: bounded_heap where
  "demo_heap = \<lparr>bh_limits = default_limits,
     bh_slots = [demo_slot 121 Global [([97], Object (handle 1))], demo_slot 64 Element [], demo_slot 64 Ordinary []],
     bh_free_slots = [], bh_used_bytes = 249, bh_live_objects = 3\<rparr>"

lemma demo_heap_run: "heap_run demo_ops (new_heap default_limits) = demo_heap"
  unfolding demo_ops_def demo_heap_def
  by (simp add: heap_run_def heap_step_def allocate_def set_property_def new_heap_def default_limits_def
      heap_consts sat_add_def heap_get_def resolve_def get_at_def handle_def string_too_long_def
      property_cost_def bt_get_def demo_slot_def Let_def)

lemma demo_heap_ok: "heap_ok demo_heap"
  unfolding demo_heap_run [symmetric] heap_run_def
  by (rule runtime_heap.run_inv [OF new_heap_ok]) (simp add: default_limits_def u64_max_def)

lemma demo_reachable:
  "reachable (bh_slots demo_heap) [handle 0] (handle 1)"
  "\<not> reachable (bh_slots demo_heap) [handle 0] (handle 2)"
  unfolding mark_loop_reachable [symmetric] demo_heap_def
  by (simp_all add: clear_marks_def mark_loop.simps mark_visit_def get_at_def demo_slot_def handle_def
      mark_slot_def references_def bt_values_def value_reference_def is_marked_def resolve_def)

theorem collect_garbage_exact_witness:
  "heap_get (snd (collect_garbage [handle 0] demo_heap)) (handle 1) = heap_get demo_heap (handle 1) \<and>
   heap_get (snd (collect_garbage [handle 0] demo_heap)) (handle 2) = None"
  using collect_garbage_exact [OF demo_heap_ok, of "[handle 0]"] by (simp add: demo_reachable)

theorem reclaimed_handle_stays_dead_witness:
  "heap_get (heap_run [OpAllocate Promise, OpCollect []] (snd (collect_garbage [handle 0] demo_heap))) (handle 2) = None"
  by (rule reclaimed_handle_stays_dead [OF demo_heap_ok _ demo_reachable(2)])
    (simp_all add: demo_heap_def heap_get_def resolve_def get_at_def handle_def demo_slot_def)

theorem allocate_fresh_witness:
  "\<exists>heap'. allocate Document demo_heap = Inr (handle 3, heap') \<and> heap_get demo_heap (handle 3) = None \<and>
     heap_get heap' (handle 1) = heap_get demo_heap (handle 1)"
proof -
  have "\<exists>heap'. allocate Document demo_heap = Inr (handle 3, heap')"
    by (simp add: allocate_def demo_heap_def default_limits_def heap_consts sat_add_def handle_def)
  then obtain heap' where a: "allocate Document demo_heap = Inr (handle 3, heap')" by blast
  from allocate_fresh [OF a demo_heap_ok] a show ?thesis by (simp add: handle_def)
qed

theorem set_property_reads_back_witness:
  "\<exists>heap' ob. set_property (handle 1) [98] Null demo_heap = Inr heap' \<and>
     heap_get heap' (handle 1) = Some ob \<and> bt_get [98] (ho_properties ob) = Some Null"
proof -
  have "\<exists>heap'. set_property (handle 1) [98] Null demo_heap = Inr heap'"
    by (simp add: set_property_def demo_heap_def default_limits_def heap_consts sat_add_def handle_def
        heap_get_def resolve_def get_at_def demo_slot_def string_too_long_def property_cost_def bt_get_def Let_def)
  then obtain heap' where a: "set_property (handle 1) [98] Null demo_heap = Inr heap'" by blast
  from set_property_reads_back [OF a] a show ?thesis by auto
qed

end
