(* ===== verification/Event_Loop.thy ===== *)
theory Event_Loop
  imports Runtime_Heap Soft_Float "HOL-Library.Product_Lexorder" "HOL-Library.Multiset"
begin

text \<open>
  The agent event loop, the execution budget and the realm of \<^verbatim>\<open>src/src/runtime_core.rs\<close>.
  The loop keeps a vector of timed tasks and a queue of microtasks; a pop prefers microtasks, but after
  100 of them in a row a ready task gets its turn.
\<close>

section \<open>State\<close>

datatype task_source = Javascript | DomManipulation | Networking | Timer | UserInteraction | Media

record queued_job =
  qj_source :: task_source
  qj_callback_id :: nat
  qj_due_ms :: nat
  qj_sequence :: nat

definition MAX_MICROTASKS_PER_TURN :: nat where "MAX_MICROTASKS_PER_TURN = 100"

record event_loop =
  el_now_ms :: nat
  el_next_sequence :: nat
  el_max_tasks :: nat
  el_max_microtasks :: nat
  el_tasks :: "queued_job list"
  el_microtasks :: "queued_job list"
  el_truncated :: bool
  el_consecutive_microtasks :: nat

definition new_event_loop :: "nat \<Rightarrow> nat \<Rightarrow> event_loop" where
  "new_event_loop max_tasks max_microtasks = \<lparr>el_now_ms = 0, el_next_sequence = 0,
     el_max_tasks = max_tasks, el_max_microtasks = max_microtasks, el_tasks = [], el_microtasks = [],
     el_truncated = False, el_consecutive_microtasks = 0\<rparr>"

section \<open>Operations\<close>

definition take_sequence :: "event_loop \<Rightarrow> nat \<times> event_loop" where
  "take_sequence el = (el_next_sequence el, el\<lparr>el_next_sequence := sat_add (el_next_sequence el) 1\<rparr>)"

definition queue_task :: "task_source \<Rightarrow> nat \<Rightarrow> nat \<Rightarrow> event_loop \<Rightarrow> (error + unit) \<times> event_loop" where
  "queue_task source callback_id delay_ms el =
     (if length (el_tasks el) \<ge> el_max_tasks el
      then (Inl (Err ''Runtime task budget exceeded''), el\<lparr>el_truncated := True\<rparr>)
      else let (sequence, el1) = take_sequence el;
               job = \<lparr>qj_source = source, qj_callback_id = callback_id,
                      qj_due_ms = sat_add (el_now_ms el) (min delay_ms 60000), qj_sequence = sequence\<rparr>
           in (Inr (), el1\<lparr>el_tasks := el_tasks el1 @ [job]\<rparr>))"

definition queue_microtask :: "nat \<Rightarrow> event_loop \<Rightarrow> (error + unit) \<times> event_loop" where
  "queue_microtask callback_id el =
     (if length (el_microtasks el) \<ge> el_max_microtasks el
      then (Inl (Err ''Runtime microtask budget exceeded''), el\<lparr>el_truncated := True\<rparr>)
      else let (sequence, el1) = take_sequence el;
               job = \<lparr>qj_source = Javascript, qj_callback_id = callback_id,
                      qj_due_ms = el_now_ms el, qj_sequence = sequence\<rparr>
           in (Inr (), el1\<lparr>el_microtasks := el_microtasks el1 @ [job]\<rparr>))"

definition advance_time :: "nat \<Rightarrow> event_loop \<Rightarrow> event_loop" where
  "advance_time elapsed_ms el = el\<lparr>el_now_ms := sat_add (el_now_ms el) elapsed_ms\<rparr>"

text \<open>\<^verbatim>\<open>Iterator::min_by_key\<close>: the first of the least elements.\<close>

fun min_by_key :: "('a \<Rightarrow> 'k::linorder) \<Rightarrow> 'a list \<Rightarrow> 'a option" where
  "min_by_key f [] = None"
| "min_by_key f (x # xs) =
     (case min_by_key f xs of None \<Rightarrow> Some x | Some y \<Rightarrow> if f x \<le> f y then Some x else Some y)"

definition job_key :: "queued_job \<Rightarrow> nat \<times> nat" where
  "job_key job = (qj_due_ms job, qj_sequence job)"

definition ready_task_index :: "event_loop \<Rightarrow> nat option" where
  "ready_task_index el =
     map_option fst (min_by_key (\<lambda>(_, task). job_key task)
       (filter (\<lambda>(_, task). qj_due_ms task \<le> el_now_ms el) (enumerate 0 (el_tasks el))))"

text \<open>\<^verbatim>\<open>Vec::remove\<close>.\<close>

definition remove_at :: "nat \<Rightarrow> 'a list \<Rightarrow> 'a list" where
  "remove_at i xs = take i xs @ drop (Suc i) xs"

definition pop_task :: "nat \<Rightarrow> event_loop \<Rightarrow> queued_job option \<times> event_loop" where
  "pop_task index el = (Some (el_tasks el ! index),
     el\<lparr>el_consecutive_microtasks := 0, el_tasks := remove_at index (el_tasks el)\<rparr>)"

definition pop_next_ready :: "event_loop \<Rightarrow> queued_job option \<times> event_loop" where
  "pop_next_ready el =
     (case (if el_consecutive_microtasks el \<ge> MAX_MICROTASKS_PER_TURN then ready_task_index el else None) of
        Some index \<Rightarrow> pop_task index el
      | None \<Rightarrow>
          (case el_microtasks el of
             microtask # rest \<Rightarrow>
               (Some microtask, el\<lparr>el_microtasks := rest,
                  el_consecutive_microtasks := sat_add (el_consecutive_microtasks el) 1\<rparr>)
           | [] \<Rightarrow>
               (case ready_task_index el of
                  None \<Rightarrow> (None, el)
                | Some index \<Rightarrow> pop_task index el)))"

definition pending_len :: "event_loop \<Rightarrow> nat" where
  "pending_len el = length (el_tasks el) + length (el_microtasks el)"

section \<open>The ready task with the least key\<close>

lemma min_by_key_None: "min_by_key f xs = None \<longleftrightarrow> xs = []"
  by (cases xs) (auto split: option.splits)

lemma min_by_key_Some: "min_by_key f xs = Some x \<Longrightarrow> x \<in> set xs \<and> (\<forall>y\<in>set xs. f x \<le> f y)"
  by (induction xs arbitrary: x) (force simp: min_by_key_None split: option.splits if_splits)+

lemma enumerate_filter_set:
  "(i, t) \<in> set (filter (\<lambda>(_, t). P t) (enumerate 0 xs)) \<longleftrightarrow> i < length xs \<and> t = xs ! i \<and> P t"
  by (auto simp: in_set_enumerate_eq)

lemma ready_task_index_Some:
  assumes "ready_task_index el = Some i"
  shows "i < length (el_tasks el) \<and> qj_due_ms (el_tasks el ! i) \<le> el_now_ms el \<and>
    (\<forall>t\<in>set (el_tasks el). qj_due_ms t \<le> el_now_ms el \<longrightarrow> job_key (el_tasks el ! i) \<le> job_key t)"
proof -
  let ?ready = "filter (\<lambda>(_, t). qj_due_ms t \<le> el_now_ms el) (enumerate 0 (el_tasks el))"
  from assms obtain t where m: "min_by_key (\<lambda>(_, t). job_key t) ?ready = Some (i, t)"
    by (auto simp: ready_task_index_def)
  from min_by_key_Some [OF m] have i: "(i, t) \<in> set ?ready"
    and least: "(k, t') \<in> set ?ready \<Longrightarrow> job_key t \<le> job_key t'" for k t' by auto
  have "job_key t \<le> job_key t'" if "t' \<in> set (el_tasks el)" "qj_due_ms t' \<le> el_now_ms el" for t'
  proof -
    from that(1) obtain k where "k < length (el_tasks el)" "t' = el_tasks el ! k"
      by (auto simp: in_set_conv_nth)
    with that(2) show ?thesis by (intro least [of k]) (simp add: in_set_enumerate_eq)
  qed
  with i show ?thesis by (auto simp: in_set_enumerate_eq)
qed

lemma ready_task_index_None:
  "ready_task_index el = None \<longleftrightarrow> (\<forall>t\<in>set (el_tasks el). el_now_ms el < qj_due_ms t)"
proof -
  have "ready_task_index el = None \<longleftrightarrow>
      (\<forall>p\<in>set (enumerate 0 (el_tasks el)). \<not> qj_due_ms (snd p) \<le> el_now_ms el)"
    by (auto simp: ready_task_index_def min_by_key_None filter_empty_conv)
  also have "\<dots> \<longleftrightarrow> (\<forall>i<length (el_tasks el). el_now_ms el < qj_due_ms (el_tasks el ! i))"
    by (auto simp: in_set_enumerate_eq Ball_def not_le)
  also have "\<dots> \<longleftrightarrow> (\<forall>t\<in>set (el_tasks el). el_now_ms el < qj_due_ms t)"
    by (auto simp: in_set_conv_nth) (metis nth_mem)
  finally show ?thesis .
qed

lemma mset_remove_at: "i < length xs \<Longrightarrow> mset xs = add_mset (xs ! i) (mset (remove_at i xs))"
  by (subst id_take_nth_drop [of i xs]) (simp_all add: remove_at_def)

section \<open>What a pop takes\<close>

lemma pop_task_props:
  assumes "ready_task_index el = Some i" and "pop_task i el = (r, el')"
  shows "\<exists>job. r = Some job \<and> job \<in> set (el_tasks el) \<and> qj_due_ms job \<le> el_now_ms el \<and>
    (\<forall>t\<in>set (el_tasks el). qj_due_ms t \<le> el_now_ms el \<longrightarrow> job_key job \<le> job_key t) \<and>
    mset (el_tasks el) = add_mset job (mset (el_tasks el')) \<and> el_microtasks el' = el_microtasks el"
  using ready_task_index_Some [OF assms(1)] assms(2) mset_remove_at [of i "el_tasks el"]
  by (auto simp: pop_task_def)

text \<open>What a pop returned, told from the queues.\<close>

definition popped_micro :: "event_loop \<Rightarrow> queued_job \<Rightarrow> event_loop \<Rightarrow> bool" where
  "popped_micro el job el' \<longleftrightarrow> el_microtasks el = job # el_microtasks el' \<and> el_tasks el' = el_tasks el"

definition popped_task :: "event_loop \<Rightarrow> queued_job \<Rightarrow> event_loop \<Rightarrow> bool" where
  "popped_task el job el' \<longleftrightarrow>
     mset (el_tasks el) = add_mset job (mset (el_tasks el')) \<and> el_microtasks el' = el_microtasks el"

definition ready :: "event_loop \<Rightarrow> queued_job \<Rightarrow> bool" where
  "ready el t \<longleftrightarrow> t \<in> set (el_tasks el) \<and> qj_due_ms t \<le> el_now_ms el"

lemma pop_next_ready_cases:
  assumes "pop_next_ready el = (r, el')"
  shows "case r of
      None \<Rightarrow> el' = el \<and> el_microtasks el = [] \<and> (\<forall>t\<in>set (el_tasks el). el_now_ms el < qj_due_ms t)
    | Some job \<Rightarrow>
        if el_microtasks el \<noteq> [] \<and>
           (el_consecutive_microtasks el < MAX_MICROTASKS_PER_TURN \<or> (\<forall>t. \<not> ready el t))
        then popped_micro el job el'
        else ready el job \<and> (\<forall>t. ready el t \<longrightarrow> job_key job \<le> job_key t) \<and> popped_task el job el'"
proof -
  have none: "ready_task_index el = None \<longleftrightarrow> (\<forall>t. \<not> ready el t)"
    unfolding ready_task_index_None ready_def by (auto simp: not_le)
  show ?thesis
  proof (cases "ready_task_index el")
    case None
    then have due: "\<forall>t\<in>set (el_tasks el). el_now_ms el < qj_due_ms t"
      by (simp only: ready_task_index_None)
    from None none have idle: "\<forall>t. \<not> ready el t" by simp
    show ?thesis
      using assms due idle unfolding pop_next_ready_def None
      by (auto simp: popped_micro_def split: list.splits if_splits)
  next
    case (Some i)
    from none Some have some_ready: "\<exists>t. ready el t" by auto
    show ?thesis
    proof (cases "el_consecutive_microtasks el \<ge> MAX_MICROTASKS_PER_TURN \<or> el_microtasks el = []")
      case True
      with assms Some have "pop_task i el = (r, el')"
        unfolding pop_next_ready_def Some by (auto split: list.splits option.splits if_splits)
      from pop_task_props [OF Some this] True some_ready show ?thesis
        by (auto simp: ready_def popped_task_def)
    next
      case False
      with assms show ?thesis
        by (auto simp: pop_next_ready_def popped_micro_def split: list.splits)
    qed
  qed
qed

text \<open>A pop takes the oldest microtask while there is one, unless 100 microtasks in a row have been
  taken and a task is ready; otherwise it takes the ready task that is due first, the one queued first
  among those due at the same time. It removes exactly that job, and returns nothing only when there is
  no microtask and no task is due.\<close>

theorem pop_next_ready_order:
  assumes "pop_next_ready el = (r, el')"
  shows "case r of
      None \<Rightarrow> el' = el \<and> el_microtasks el = [] \<and> (\<forall>t\<in>set (el_tasks el). el_now_ms el < qj_due_ms t)
    | Some job \<Rightarrow>
        if el_microtasks el \<noteq> [] \<and>
           (el_consecutive_microtasks el < MAX_MICROTASKS_PER_TURN \<or> (\<forall>t. \<not> ready el t))
        then popped_micro el job el'
        else ready el job \<and> (\<forall>t. ready el t \<longrightarrow> job_key job \<le> job_key t) \<and> popped_task el job el'"
  by (rule pop_next_ready_cases [OF assms])

section \<open>Runs\<close>

datatype loop_op =
    QueueTask task_source nat nat
  | QueueMicrotask nat
  | AdvanceTime nat
  | PopNext

definition loop_step :: "event_loop \<Rightarrow> loop_op \<Rightarrow> event_loop" where
  "loop_step el op =
     (case op of
        QueueTask source k delay \<Rightarrow> snd (queue_task source k delay el)
      | QueueMicrotask k \<Rightarrow> snd (queue_microtask k el)
      | AdvanceTime ms \<Rightarrow> advance_time ms el
      | PopNext \<Rightarrow> snd (pop_next_ready el))"

definition loop_run :: "loop_op list \<Rightarrow> event_loop \<Rightarrow> event_loop" where
  "loop_run ops el = fold (\<lambda>op el. loop_step el op) ops el"

text \<open>Both queues respect their budgets, every waiting job was queued with its own sequence number in
  the past, and no job waits longer than a minute beyond the present.\<close>

definition loop_ok :: "event_loop \<Rightarrow> bool" where
  "loop_ok el \<longleftrightarrow>
     length (el_tasks el) \<le> el_max_tasks el \<and> length (el_microtasks el) \<le> el_max_microtasks el \<and>
     (\<forall>t\<in>set (el_tasks el). qj_due_ms t \<le> el_now_ms el + 60000) \<and>
     (\<forall>t\<in>set (el_microtasks el). qj_due_ms t \<le> el_now_ms el) \<and>
     (\<forall>t\<in>set (el_tasks el) \<union> set (el_microtasks el). qj_sequence t \<le> el_next_sequence el)"

lemma popped_subsets:
  "popped_micro el job el' \<Longrightarrow> set (el_tasks el') = set (el_tasks el) \<and> set (el_microtasks el') \<subseteq> set (el_microtasks el)
    \<and> length (el_tasks el') = length (el_tasks el) \<and> length (el_microtasks el') \<le> length (el_microtasks el)"
  "popped_task el job el' \<Longrightarrow> set (el_tasks el') \<subseteq> set (el_tasks el) \<and> el_microtasks el' = el_microtasks el
    \<and> length (el_tasks el') \<le> length (el_tasks el)"
proof -
  assume t: "popped_task el job el'"
  then have m: "mset (el_tasks el) = add_mset job (mset (el_tasks el'))" by (simp add: popped_task_def)
  from m have "set (el_tasks el) = insert job (set (el_tasks el'))" by (metis set_mset_add_mset_insert set_mset_mset)
  moreover from m have "length (el_tasks el) = Suc (length (el_tasks el'))" by (metis size_add_mset size_mset)
  ultimately show "set (el_tasks el') \<subseteq> set (el_tasks el) \<and> el_microtasks el' = el_microtasks el
    \<and> length (el_tasks el') \<le> length (el_tasks el)" using t by (auto simp: popped_task_def)
qed (auto simp: popped_micro_def)

lemma pop_next_ready_keeps:
  assumes "pop_next_ready el = (r, el')"
  shows "el_now_ms el' = el_now_ms el \<and> el_max_tasks el' = el_max_tasks el \<and>
    el_max_microtasks el' = el_max_microtasks el \<and> el_next_sequence el' = el_next_sequence el"
  using assms by (auto simp: pop_next_ready_def pop_task_def split: option.splits list.splits if_splits)

lemma pop_loop_ok:
  assumes "loop_ok el"
  shows "loop_ok (snd (pop_next_ready el))"
proof -
  obtain r el' where p: "pop_next_ready el = (r, el')" by (cases "pop_next_ready el")
  note keeps = pop_next_ready_keeps [OF p]
  have "set (el_tasks el') \<subseteq> set (el_tasks el) \<and> set (el_microtasks el') \<subseteq> set (el_microtasks el) \<and>
      length (el_tasks el') \<le> length (el_tasks el) \<and> length (el_microtasks el') \<le> length (el_microtasks el)"
    using pop_next_ready_cases [OF p] popped_subsets
    by (auto split: option.splits if_splits dest: popped_subsets)
  with assms keeps p show ?thesis by (auto simp: loop_ok_def subset_eq)
qed

lemma queue_task_ok:
  assumes "loop_ok el"
  shows "loop_ok (snd (queue_task source k delay el))"
proof -
  have "sat_add (el_now_ms el) (min delay 60000) \<le> el_now_ms el + 60000"
    using sat_add_le [of "el_now_ms el" "min delay 60000"] by simp
  with assms sat_add_ge [of "el_next_sequence el" 1] show ?thesis
    by (auto simp: loop_ok_def queue_task_def take_sequence_def Let_def intro: le_trans)
qed

lemma queue_microtask_ok:
  assumes "loop_ok el"
  shows "loop_ok (snd (queue_microtask k el))"
  using assms sat_add_ge [of "el_next_sequence el" 1]
  by (auto simp: loop_ok_def queue_microtask_def take_sequence_def Let_def intro: le_trans)

lemma advance_time_ok:
  assumes "loop_ok el"
  shows "loop_ok (advance_time ms el)"
  using assms sat_add_ge [of "el_now_ms el" ms]
  by (fastforce simp: loop_ok_def advance_time_def)

interpretation agent_loop: component loop_step loop_ok "new_event_loop max_tasks max_microtasks"
  by unfold_locales
    (auto simp: loop_step_def queue_task_ok queue_microtask_ok advance_time_ok pop_loop_ok new_event_loop_def split: loop_op.splits,
     simp add: loop_ok_def)

section \<open>No starvation\<close>

text \<open>Some pop of the run takes a task.\<close>

fun task_popped :: "loop_op list \<Rightarrow> event_loop \<Rightarrow> bool" where
  "task_popped [] el = False"
| "task_popped (op # ops) el =
     (op = PopNext \<and> (\<exists>job. popped_task el job (loop_step el op)) \<or> task_popped ops (loop_step el op))"

definition pops :: "loop_op list \<Rightarrow> nat" where
  "pops ops = length (filter (\<lambda>op. op = PopNext) ops)"

lemma queue_keeps_ready:
  assumes "ready el t" and "op \<noteq> PopNext"
  shows "ready (loop_step el op) t \<and> el_consecutive_microtasks (loop_step el op) = el_consecutive_microtasks el"
  using assms sat_add_ge
  by (cases op)
    (auto simp: loop_step_def ready_def queue_task_def queue_microtask_def advance_time_def take_sequence_def
      Let_def intro: le_trans)

lemma pop_micro_count:
  assumes "el_microtasks el \<noteq> []" and "el_consecutive_microtasks el < MAX_MICROTASKS_PER_TURN"
  shows "el_consecutive_microtasks (snd (pop_next_ready el)) = el_consecutive_microtasks el + 1 \<and>
    popped_micro el (hd (el_microtasks el)) (snd (pop_next_ready el)) \<and>
    el_tasks (snd (pop_next_ready el)) = el_tasks el \<and> el_now_ms (snd (pop_next_ready el)) = el_now_ms el"
  using assms
  by (cases "el_microtasks el")
    (auto simp: pop_next_ready_def popped_micro_def sat_add_def MAX_MICROTASKS_PER_TURN_def u64_max_def)

lemma no_starvation_aux:
  "ready el t \<Longrightarrow> MAX_MICROTASKS_PER_TURN < pops ops + el_consecutive_microtasks el \<Longrightarrow> task_popped ops el \<or> pops ops = 0"
proof (induction ops arbitrary: el)
  case Nil
  then show ?case by (simp add: pops_def)
next
  case (Cons op ops)
  show ?case
  proof (cases "op = PopNext")
    case False
    with queue_keeps_ready [OF Cons.prems(1) False] Cons.IH [of "loop_step el op"] Cons.prems(2)
    show ?thesis by (auto simp: pops_def)
  next
    case True
    have st: "loop_step el op = snd (pop_next_ready el)" by (simp add: True loop_step_def)
    show ?thesis
    proof (cases "el_microtasks el \<noteq> [] \<and> el_consecutive_microtasks el < MAX_MICROTASKS_PER_TURN")
      case micro: True
      with pop_micro_count have c: "el_consecutive_microtasks (loop_step el op) = el_consecutive_microtasks el + 1"
        "ready (loop_step el op) t"
        using Cons.prems(1) by (simp_all add: st ready_def)
      have "MAX_MICROTASKS_PER_TURN < pops ops + el_consecutive_microtasks (loop_step el op)"
        using Cons.prems(2) True c by (simp add: pops_def)
      with Cons.IH [OF c(2)] c micro show ?thesis by auto
    next
      case task: False
      obtain r el' where p: "pop_next_ready el = (r, el')" by (cases "pop_next_ready el")
      from pop_next_ready_cases [OF p] Cons.prems(1) task
      have "\<exists>job. popped_task el job el'"
        by (auto simp: ready_def not_le [symmetric] split: option.splits if_splits)
      with True p st show ?thesis by simp
    qed
  qed
qed

text \<open>C11. Timers and network tasks cannot be starved by microtasks: once a task is ready, any 101 pops,
  with whatever jobs queued between them, take at least one task.\<close>

theorem no_starvation:
  assumes "ready el t" and "MAX_MICROTASKS_PER_TURN < pops ops"
  shows "task_popped ops el"
  using no_starvation_aux [OF assms(1), of ops] assms(2) by auto

text \<open>Both queues stay within their budgets over any run, no job is due more than a minute ahead
  of the clock, microtasks are always due, and sequence numbers are never ahead of the counter.\<close>

theorem loop_run_ok: "loop_ok (loop_run ops (new_event_loop max_tasks max_microtasks))"
  unfolding loop_run_def by (rule agent_loop.reachable_inv)

section \<open>Witnesses\<close>

definition timer_job :: queued_job where
  "timer_job = \<lparr>qj_source = Timer, qj_callback_id = 7, qj_due_ms = 0, qj_sequence = 0\<rparr>"

definition demo_loop :: event_loop where
  "demo_loop = loop_run [QueueTask Timer 7 0, QueueMicrotask 8] (new_event_loop 4 4)"

lemma demo_loop_eq: "demo_loop = (new_event_loop 4 4)\<lparr>el_next_sequence := 2, el_tasks := [timer_job],
    el_microtasks := [\<lparr>qj_source = Javascript, qj_callback_id = 8, qj_due_ms = 0, qj_sequence = 1\<rparr>]\<rparr>"
  by (simp add: demo_loop_def loop_run_def loop_step_def queue_task_def queue_microtask_def take_sequence_def
      new_event_loop_def sat_add_def u64_max_def timer_job_def)

theorem pop_next_ready_order_witness:
  "\<exists>job el'. pop_next_ready demo_loop = (Some job, el') \<and> qj_callback_id job = 8 \<and> popped_micro demo_loop job el'"
proof -
  obtain r el' where p: "pop_next_ready demo_loop = (r, el')" by (cases "pop_next_ready demo_loop")
  then have "r = Some \<lparr>qj_source = Javascript, qj_callback_id = 8, qj_due_ms = 0, qj_sequence = 1\<rparr>"
    by (simp add: demo_loop_eq pop_next_ready_def new_event_loop_def MAX_MICROTASKS_PER_TURN_def)
  with p pop_next_ready_order [OF p] show ?thesis
    by (simp add: demo_loop_eq new_event_loop_def MAX_MICROTASKS_PER_TURN_def)
qed

theorem no_starvation_witness: "task_popped (replicate 101 PopNext) demo_loop"
  by (rule no_starvation [of _ timer_job])
    (simp_all add: demo_loop_eq ready_def new_event_loop_def timer_job_def pops_def MAX_MICROTASKS_PER_TURN_def
      filter_replicate)

section \<open>Execution budget\<close>

record execution_budget =
  eb_remaining_instructions :: nat
  eb_call_depth :: nat
  eb_max_call_depth :: nat

definition new_budget :: "nat \<Rightarrow> nat \<Rightarrow> execution_budget" where
  "new_budget max_instructions max_call_depth = \<lparr>eb_remaining_instructions = max_instructions,
     eb_call_depth = 0, eb_max_call_depth = max_call_depth\<rparr>"

definition consume :: "nat \<Rightarrow> execution_budget \<Rightarrow> error + execution_budget" where
  "consume amount b =
     ebind (ok_or (Err ''Runtime instruction budget exceeded'')
              (checked_sub (eb_remaining_instructions b) amount))
       (\<lambda>remaining. Inr (b\<lparr>eb_remaining_instructions := remaining\<rparr>))"

definition enter_call :: "execution_budget \<Rightarrow> error + execution_budget" where
  "enter_call b =
     (if eb_call_depth b \<ge> eb_max_call_depth b then Inl (Err ''Runtime call-depth budget exceeded'')
      else Inr (b\<lparr>eb_call_depth := eb_call_depth b + 1\<rparr>))"

definition exit_call :: "execution_budget \<Rightarrow> execution_budget" where
  "exit_call b = b\<lparr>eb_call_depth := eb_call_depth b - 1\<rparr>"

text \<open>\<^verbatim>\<open>enter_guarded\<close>: the body runs with the call entered, and dropping the guard leaves it
  again, also when the body returns an error.\<close>

definition enter_guarded :: "(execution_budget \<Rightarrow> (error + 'a) \<times> execution_budget) \<Rightarrow> execution_budget
    \<Rightarrow> (error + 'a) \<times> execution_budget" where
  "enter_guarded body b =
     (case enter_call b of
        Inl e \<Rightarrow> (Inl e, b)
      | Inr b1 \<Rightarrow> let (r, b2) = body b1 in (r, exit_call b2))"

text \<open>A computation that leaves the call depth as it found it.\<close>

definition balanced :: "(execution_budget \<Rightarrow> (error + 'a) \<times> execution_budget) \<Rightarrow> bool" where
  "balanced body \<longleftrightarrow> (\<forall>b. eb_call_depth (snd (body b)) = eb_call_depth b)"

lemma enter_guarded_balanced:
  assumes "balanced body"
  shows "balanced (enter_guarded body)"
  unfolding balanced_def
proof
  fix b :: execution_budget
  let ?b1 = "b\<lparr>eb_call_depth := eb_call_depth b + 1\<rparr>"
  obtain r b2 where body: "body ?b1 = (r, b2)" by (cases "body ?b1")
  with assms [unfolded balanced_def, rule_format, of ?b1]
  have "eb_call_depth b2 = eb_call_depth b + 1" by simp
  with body show "eb_call_depth (snd (enter_guarded body b)) = eb_call_depth b"
    by (simp add: enter_guarded_def enter_call_def exit_call_def)
qed

text \<open>Guarded calls cannot leak call depth: nesting guards around any computation that leaves the
  depth alone restores the depth the nest started at, on success and on error alike, however deep the
  nest and even when it runs into the depth budget.\<close>

theorem guarded_calls_balanced: "balanced body \<Longrightarrow> balanced ((enter_guarded ^^ n) body)"
  by (induction n) (simp_all add: enter_guarded_balanced)

theorem guarded_calls_balanced_witness:
  "balanced ((enter_guarded ^^ 3) (\<lambda>b. (Inl (Err ''script error'') :: error + unit, b)))"
  by (rule guarded_calls_balanced) (simp add: balanced_def)

section \<open>Realms\<close>

record runtime_realm =
  rr_id :: nat
  rr_heap :: bounded_heap
  rr_global :: heap_handle
  rr_document :: heap_handle
  rr_event_loop :: event_loop
  rr_execution :: execution_budget

definition document_name :: bytes where
  "document_name = [100, 111, 99, 117, 109, 101, 110, 116]"

definition window_name :: bytes where
  "window_name = [119, 105, 110, 100, 111, 119]"

definition new_realm :: "nat \<Rightarrow> runtime_limits \<Rightarrow> error + runtime_realm" where
  "new_realm i limits =
     ebind (allocate Global (new_heap limits)) (\<lambda>(global, heap1).
     ebind (allocate Document heap1) (\<lambda>(document, heap2).
     ebind (set_property global document_name (Object document) heap2) (\<lambda>heap3.
     ebind (set_property global window_name (Object global) heap3) (\<lambda>heap4.
       Inr \<lparr>rr_id = i, rr_heap = heap4, rr_global = global, rr_document = document,
            rr_event_loop = new_event_loop (rl_max_tasks limits) (rl_max_microtasks limits),
            rr_execution = new_budget (rl_max_instructions limits) (rl_max_call_depth limits)\<rparr>))))"

definition realm_collect_garbage :: "runtime_realm \<Rightarrow> nat \<times> runtime_realm" where
  "realm_collect_garbage r =
     (let (reclaimed, heap) = collect_garbage [rr_global r, rr_document r] (rr_heap r)
      in (reclaimed, r\<lparr>rr_heap := heap\<rparr>))"

definition webidl_to_boolean :: "runtime_value \<Rightarrow> bool" where
  "webidl_to_boolean v =
     (case v of
        Undefined \<Rightarrow> False
      | Null \<Rightarrow> False
      | Boolean b \<Rightarrow> b
      | Number x \<Rightarrow> \<not> f64_eq x 0 \<and> \<not> f64_is_nan x
      | String t \<Rightarrow> t \<noteq> []
      | Object _ \<Rightarrow> True)"

text \<open>A realm that was created satisfies the heap invariant, its global object has the document and
  itself as properties, and its garbage collection never reclaims the global or the document, so it
  reclaims nothing of a new realm.\<close>

theorem new_realm_ok:
  assumes "new_realm i limits = Inr r" and "rl_max_heap_bytes limits < u64_max"
  shows "heap_ok (rr_heap r) \<and>
    (\<exists>ob. heap_get (rr_heap r) (rr_global r) = Some ob \<and> ho_kind ob = Global \<and>
       bt_get document_name (ho_properties ob) = Some (Object (rr_document r)) \<and>
       bt_get window_name (ho_properties ob) = Some (Object (rr_global r)) \<and>
       heap_get (rr_heap (snd (realm_collect_garbage r))) (rr_global r) = Some ob) \<and>
    heap_get (rr_heap (snd (realm_collect_garbage r))) (rr_document r)
      = Some \<lparr>ho_kind = Document, ho_prototype = None, ho_properties = []\<rparr>"
proof -
  from assms(1) obtain h1 h2 h3 where
    a1: "allocate Global (new_heap limits) = Inr (rr_global r, h1)"
    and a2: "allocate Document h1 = Inr (rr_document r, h2)"
    and s1: "set_property (rr_global r) document_name (Object (rr_document r)) h2 = Inr h3"
    and s2: "set_property (rr_global r) window_name (Object (rr_global r)) h3 = Inr (rr_heap r)"
    by (auto simp: new_realm_def result_simps)
  have ok1: "heap_ok h1" by (rule allocate_ok [OF a1 new_heap_ok [OF assms(2)]])
  have ok2: "heap_ok h2" by (rule allocate_ok [OF a2 ok1])
  have ok3: "heap_ok h3" by (rule set_property_ok [OF s1 ok2])
  have ok: "heap_ok (rr_heap r)" by (rule set_property_ok [OF s2 ok3])
  note A1 = allocate_resolves [OF a1 new_heap_ok [OF assms(2)]]
  note A2 = allocate_resolves [OF a2 ok1]
  have ne: "rr_global r \<noteq> rr_document r" using A1 A2 by auto
  have g2: "heap_get h2 (rr_global r) = Some \<lparr>ho_kind = Global, ho_prototype = None, ho_properties = []\<rparr>"
    using A1 A2 ne by auto
  have d4: "heap_get (rr_heap r) (rr_document r) = Some \<lparr>ho_kind = Document, ho_prototype = None, ho_properties = []\<rparr>"
    using A2 set_property_resolves [OF s1] set_property_resolves [OF s2] ne by auto
  obtain ob where g4: "heap_get (rr_heap r) (rr_global r) = Some ob" and k: "ho_kind ob = Global"
    and p: "bt_get document_name (ho_properties ob) = Some (Object (rr_document r))"
      "bt_get window_name (ho_properties ob) = Some (Object (rr_global r))"
    using set_property_resolves [OF s1] set_property_resolves [OF s2] g2
    by (auto simp: document_name_def window_name_def)
  have c: "rr_heap (snd (realm_collect_garbage r)) = snd (collect_garbage [rr_global r, rr_document r] (rr_heap r))"
    by (simp add: realm_collect_garbage_def case_prod_beta Let_def)
  have len: "length (bh_slots (rr_heap r)) \<le> 2 ^ 32" using ok by (simp add: heap_ok_def)
  have root: "reachable (bh_slots (rr_heap r)) [rr_global r, rr_document r] h"
    if "h \<in> {rr_global r, rr_document r}" for h
    using that g4 d4 by (intro reach_root) (auto simp: heap_get_def)
  show ?thesis
    unfolding c collect_resolve [OF len] using ok g4 d4 k p root by auto
qed

theorem new_realm_ok_witness:
  "\<exists>r. new_realm 7 default_limits = Inr r \<and> heap_ok (rr_heap r)"
proof -
  have "\<exists>r. new_realm 7 default_limits = Inr r"
    by (simp add: new_realm_def allocate_def set_property_def new_heap_def default_limits_def
      heap_consts sat_add_def heap_get_def resolve_def get_at_def string_too_long_def
      property_cost_def bt_get_def document_name_def window_name_def Let_def)
  then obtain r where r: "new_realm 7 default_limits = Inr r" by blast
  have "rl_max_heap_bytes default_limits < u64_max" by (simp add: default_limits_def u64_max_def)
  from new_realm_ok [OF r this] r show ?thesis by blast
qed

end
