(* ===== verification/Promise_Runtime.thy ===== *)
theory Promise_Runtime
  imports Event_Loop
begin

text \<open>
  Promise records and reaction jobs of \<^verbatim>\<open>src/src/promise_runtime.rs\<close>. A callback is an
  identifier; the client's \<^verbatim>\<open>invoke\<close> closure runs it, here a function on a state of its own. The
  runtime keeps the records and the queued reactions in two \<^verbatim>\<open>BTreeMap\<close>s and one microtask per
  queued reaction in an event loop of its own.
\<close>

section \<open>State\<close>

type_synonym promise_id = nat

datatype promise_state = Pending | Fulfilled runtime_value | Rejected runtime_value

record promise_reaction =
  on_fulfilled :: "nat option"
  on_rejected :: "nat option"
  reaction_result :: promise_id

record promise_record =
  pr_state :: promise_state
  pr_reactions :: "promise_reaction list"

record queued_reaction =
  qr_handler_id :: "nat option"
  qr_argument :: runtime_value
  qr_result :: promise_id
  qr_rejected_input :: bool

record promise_runtime =
  max_promises :: nat
  next_promise_id :: nat
  next_job_id :: nat
  records :: "(promise_id, promise_record) btree"
  jobs :: "(nat, queued_reaction) btree"
  event_loop_of :: event_loop
  drain_was_truncated :: bool

definition new_promise_runtime :: "nat \<Rightarrow> nat \<Rightarrow> promise_runtime" where
  "new_promise_runtime max_p max_microtasks = \<lparr>max_promises = max_p, next_promise_id = 1,
     next_job_id = 1, records = [], jobs = [], event_loop_of = new_event_loop 0 max_microtasks,
     drain_was_truncated = False\<rparr>"

section \<open>Operations\<close>

definition create :: "promise_runtime \<Rightarrow> (error + promise_id) \<times> promise_runtime" where
  "create rt =
     (if length (records rt) \<ge> max_promises rt then (Inl (Err ''Promise record budget exceeded''), rt)
      else case checked_add (next_promise_id rt) 1 of
        None \<Rightarrow> (Inl (Err ''Promise identifier space exhausted''), rt)
      | Some next \<Rightarrow> (Inr (next_promise_id rt),
          rt\<lparr>next_promise_id := next,
             records := bt_insert (next_promise_id rt) \<lparr>pr_state = Pending, pr_reactions = []\<rparr> (records rt)\<rparr>))"

definition promise_state_of :: "promise_id \<Rightarrow> promise_runtime \<Rightarrow> promise_state option" where
  "promise_state_of p rt = map_option pr_state (bt_get p (records rt))"

definition pending_jobs :: "promise_runtime \<Rightarrow> nat" where
  "pending_jobs rt = length (jobs rt)"

definition enqueue_reaction ::
  "promise_reaction \<Rightarrow> runtime_value \<Rightarrow> bool \<Rightarrow> promise_runtime \<Rightarrow> (error + unit) \<times> promise_runtime" where
  "enqueue_reaction reaction argument rejected_input rt =
     (case checked_add (next_job_id rt) 1 of
        None \<Rightarrow> (Inl (Err ''Promise job identifier space exhausted''), rt)
      | Some next_job \<Rightarrow>
          (case queue_microtask (next_job_id rt) (event_loop_of rt) of
             (Inl e, el) \<Rightarrow> (Inl e, rt\<lparr>event_loop_of := el\<rparr>)
           | (Inr u, el) \<Rightarrow>
               (Inr (), rt\<lparr>event_loop_of := el, next_job_id := next_job,
                  jobs := bt_insert (next_job_id rt)
                    \<lparr>qr_handler_id = (if rejected_input then on_rejected reaction else on_fulfilled reaction),
                     qr_argument = argument, qr_result = reaction_result reaction,
                     qr_rejected_input = rejected_input\<rparr> (jobs rt)\<rparr>)))"

definition update_record ::
  "promise_id \<Rightarrow> (promise_record \<Rightarrow> promise_record) \<Rightarrow> promise_runtime \<Rightarrow> promise_runtime" where
  "update_record p f rt =
     (case bt_get p (records rt) of
        None \<Rightarrow> rt
      | Some r \<Rightarrow> rt\<lparr>records := bt_insert p (f r) (records rt)\<rparr>)"

definition promise_then ::
  "promise_id \<Rightarrow> nat option \<Rightarrow> nat option \<Rightarrow> promise_runtime \<Rightarrow> (error + promise_id) \<times> promise_runtime" where
  "promise_then promise fulfilled rejected rt =
     (case promise_state_of promise rt of
        None \<Rightarrow> (Inl (Err ''Unknown Promise record''), rt)
      | Some state \<Rightarrow>
          (case create rt of
             (Inl e, rt1) \<Rightarrow> (Inl e, rt1)
           | (Inr result, rt1) \<Rightarrow>
               let reaction = \<lparr>on_fulfilled = fulfilled, on_rejected = rejected, reaction_result = result\<rparr>;
                   (enqueue_result, rt2) =
                     (case state of
                        Pending \<Rightarrow>
                          (if bt_get promise (records rt1) = None
                           then (Inl (Err ''Unknown Promise record''), rt1)
                           else (Inr (), update_record promise
                             (\<lambda>r. r\<lparr>pr_reactions := pr_reactions r @ [reaction]\<rparr>) rt1))
                      | Fulfilled v \<Rightarrow> enqueue_reaction reaction v False rt1
                      | Rejected v \<Rightarrow> enqueue_reaction reaction v True rt1)
               in (case enqueue_result of
                     Inl e \<Rightarrow> (Inl e, rt2\<lparr>records := bt_remove result (records rt2)\<rparr>)
                   | Inr u \<Rightarrow> (Inr result, rt2))))"

text \<open>The message carried by an error value.\<close>

definition error_text :: "error \<Rightarrow> bytes" where
  "error_text e = (case e of Err s \<Rightarrow> map of_char s | _ \<Rightarrow> [])"

text \<open>The loop of \<^verbatim>\<open>settle\<close> over the reactions it took; \<open>first_error\<close> is
  \<^verbatim>\<open>get_or_insert\<close>.\<close>

fun enqueue_all ::
  "promise_reaction list \<Rightarrow> runtime_value \<Rightarrow> bool \<Rightarrow> error option \<Rightarrow> promise_runtime \<Rightarrow>
   error option \<times> promise_runtime" where
  "enqueue_all [] argument rejected_input first_error rt = (first_error, rt)"
| "enqueue_all (reaction # rest) argument rejected_input first_error rt =
     (case enqueue_reaction reaction argument rejected_input rt of
        (Inl e, rt1) \<Rightarrow>
          enqueue_all rest argument rejected_input
            (case first_error of None \<Rightarrow> Some e | Some e0 \<Rightarrow> Some e0)
            (update_record (reaction_result reaction)
               (\<lambda>r. r\<lparr>pr_state := Rejected (String (error_text e))\<rparr>) rt1)
      | (Inr u, rt1) \<Rightarrow> enqueue_all rest argument rejected_input first_error rt1)"

definition settle :: "promise_id \<Rightarrow> promise_state \<Rightarrow> promise_runtime \<Rightarrow> (error + unit) \<times> promise_runtime" where
  "settle promise state rt =
     (if state = Pending then (Inl (Err ''Cannot settle a Promise as pending''), rt)
      else case bt_get promise (records rt) of
        None \<Rightarrow> (Inl (Err ''Unknown Promise record''), rt)
      | Some r \<Rightarrow>
          if pr_state r \<noteq> Pending then (Inr (), rt)
          else let rt1 = rt\<lparr>records := bt_insert promise \<lparr>pr_state = state, pr_reactions = []\<rparr> (records rt)\<rparr>
               in case state of
                    Pending \<Rightarrow> (Inl (Err ''Cannot settle a Promise as pending''), rt1)
                  | Fulfilled v \<Rightarrow>
                      (case enqueue_all (pr_reactions r) v False None rt1 of
                         (None, rt2) \<Rightarrow> (Inr (), rt2) | (Some e, rt2) \<Rightarrow> (Inl e, rt2))
                  | Rejected v \<Rightarrow>
                      (case enqueue_all (pr_reactions r) v True None rt1 of
                         (None, rt2) \<Rightarrow> (Inr (), rt2) | (Some e, rt2) \<Rightarrow> (Inl e, rt2)))"

definition resolve_promise :: "promise_id \<Rightarrow> runtime_value \<Rightarrow> promise_runtime \<Rightarrow> (error + unit) \<times> promise_runtime" where
  "resolve_promise promise v rt = settle promise (Fulfilled v) rt"

definition reject_promise :: "promise_id \<Rightarrow> runtime_value \<Rightarrow> promise_runtime \<Rightarrow> (error + unit) \<times> promise_runtime" where
  "reject_promise promise v rt = settle promise (Rejected v) rt"

text \<open>The client's handler: \<open>Inl\<close> is a thrown value; \<open>'h\<close> is what the closure has captured.\<close>

type_synonym 'h invoker = "nat \<Rightarrow> runtime_value \<Rightarrow> 'h \<Rightarrow> (runtime_value + runtime_value) \<times> 'h"

definition run_reaction ::
  "'h invoker \<Rightarrow> queued_reaction \<Rightarrow> 'h \<Rightarrow> (runtime_value + runtime_value) \<times> 'h" where
  "run_reaction invoke reaction h =
     (case qr_handler_id reaction of
        Some handler \<Rightarrow> invoke handler (qr_argument reaction) h
      | None \<Rightarrow> (if qr_rejected_input reaction then Inl (qr_argument reaction) else Inr (qr_argument reaction), h))"

text \<open>\<open>budget\<close> is \<^verbatim>\<open>max_jobs - processed\<close>.\<close>

fun drain_loop ::
  "nat \<Rightarrow> nat \<Rightarrow> 'h invoker \<Rightarrow> promise_runtime \<Rightarrow> 'h \<Rightarrow> (error + nat) \<times> promise_runtime \<times> 'h" where
  "drain_loop 0 processed invoke rt h = (Inr processed, rt, h)"
| "drain_loop (Suc budget) processed invoke rt h =
     (case pop_next_ready (event_loop_of rt) of
        (None, el) \<Rightarrow> (Inr processed, rt\<lparr>event_loop_of := el\<rparr>, h)
      | (Some job, el) \<Rightarrow>
          let rt1 = rt\<lparr>event_loop_of := el\<rparr> in
          if qj_source job \<noteq> Javascript
          then (Inl (Err ''Promise runtime received a non-JavaScript job''), rt1, h)
          else case bt_get (qj_callback_id job) (jobs rt1) of
            None \<Rightarrow> (Inl (Err ''Promise reaction job is missing''), rt1, h)
          | Some reaction \<Rightarrow>
              let rt2 = rt1\<lparr>jobs := bt_remove (qj_callback_id job) (jobs rt1)\<rparr>;
                  (outcome, h1) = run_reaction invoke reaction h
              in (case (case outcome of
                          Inr v \<Rightarrow> resolve_promise (qr_result reaction) v rt2
                        | Inl v \<Rightarrow> reject_promise (qr_result reaction) v rt2) of
                    (Inl e, rt3) \<Rightarrow> (Inl e, rt3, h1)
                  | (Inr u, rt3) \<Rightarrow> drain_loop budget (processed + 1) invoke rt3 h1))"

definition drain_jobs ::
  "nat \<Rightarrow> 'h invoker \<Rightarrow> promise_runtime \<Rightarrow> 'h \<Rightarrow> (error + nat) \<times> promise_runtime \<times> 'h" where
  "drain_jobs max_jobs invoke rt h =
     (case drain_loop max_jobs 0 invoke (rt\<lparr>drain_was_truncated := False\<rparr>) h of
        (Inl e, rt1, h1) \<Rightarrow> (Inl e, rt1, h1)
      | (Inr processed, rt1, h1) \<Rightarrow>
          (Inr processed, rt1\<lparr>drain_was_truncated := pending_jobs rt1 > 0\<rparr>, h1))"

section \<open>The invariant\<close>

text \<open>One microtask per queued reaction, in the order of the job identifiers.\<close>

definition queue_ok :: "promise_runtime \<Rightarrow> bool" where
  "queue_ok rt \<longleftrightarrow>
     el_tasks (event_loop_of rt) = [] \<and> bt_ok (jobs rt) \<and>
     map qj_callback_id (el_microtasks (event_loop_of rt)) = map fst (jobs rt) \<and>
     (\<forall>m\<in>set (el_microtasks (event_loop_of rt)). qj_source m = Javascript) \<and>
     (\<forall>b\<in>set (jobs rt). fst b < next_job_id rt)"

definition has_promise :: "promise_runtime \<Rightarrow> promise_id \<Rightarrow> bool" where
  "has_promise rt p \<longleftrightarrow> bt_get p (records rt) \<noteq> None"

text \<open>Every reaction, waiting or queued, settles a promise that has a record.\<close>

definition closed_ok :: "promise_runtime \<Rightarrow> bool" where
  "closed_ok rt \<longleftrightarrow>
     (\<forall>b\<in>set (jobs rt). has_promise rt (qr_result (snd b))) \<and>
     (\<forall>p r. bt_get p (records rt) = Some r \<longrightarrow>
        p < next_promise_id rt \<and> (\<forall>x\<in>set (pr_reactions r). has_promise rt (reaction_result x)))"

definition promise_ok :: "promise_runtime \<Rightarrow> bool" where
  "promise_ok rt \<longleftrightarrow> queue_ok rt \<and> bt_ok (records rt) \<and> length (records rt) \<le> max_promises rt \<and> closed_ok rt"

lemma bt_insert_max: "(\<forall>b\<in>set m. fst b < k) \<Longrightarrow> bt_insert k v m = m @ [(k, v)]"
  by (induction m) (auto simp: order_less_not_sym)

lemma has_promise_insert [simp]:
  "has_promise (rt\<lparr>records := bt_insert p r (records rt)\<rparr>) q \<longleftrightarrow> q = p \<or> has_promise rt q"
  by (simp add: has_promise_def bt_get_insert)

lemma enqueue_reaction_cases:
  assumes "enqueue_reaction x v b rt = (r, rt')"
  shows "(\<exists>e el. r = Inl e \<and> rt' = rt\<lparr>event_loop_of := el\<rparr> \<and> el_tasks el = el_tasks (event_loop_of rt) \<and>
       el_microtasks el = el_microtasks (event_loop_of rt) \<and>
       e \<in> {Err ''Runtime microtask budget exceeded'', Err ''Promise job identifier space exhausted''}) \<or>
     (\<exists>el m q. r = Inr () \<and> rt' = rt\<lparr>event_loop_of := el, next_job_id := Suc (next_job_id rt),
         jobs := bt_insert (next_job_id rt) q (jobs rt)\<rparr> \<and> el_tasks el = el_tasks (event_loop_of rt) \<and>
       el_microtasks el = el_microtasks (event_loop_of rt) @ [m] \<and> qj_source m = Javascript \<and>
       qj_callback_id m = next_job_id rt \<and> qr_result q = reaction_result x)"
proof (cases "checked_add (next_job_id rt) 1")
  case None
  with assms show ?thesis
    by (intro disjI1 exI [of _ "Err ''Promise job identifier space exhausted''"] exI [of _ "event_loop_of rt"])
      (simp add: enqueue_reaction_def)
next
  case (Some n)
  then have n: "n = Suc (next_job_id rt)" by (simp add: result_simps)
  obtain r1 el where q: "queue_microtask (next_job_id rt) (event_loop_of rt) = (r1, el)"
    by (cases "queue_microtask (next_job_id rt) (event_loop_of rt)")
  show ?thesis
  proof (cases r1)
    case (Inl e)
    with q have "el_tasks el = el_tasks (event_loop_of rt)" "e = Err ''Runtime microtask budget exceeded''"
      "el_microtasks el = el_microtasks (event_loop_of rt)"
      by (auto simp: queue_microtask_def take_sequence_def Let_def split: if_splits)
    with assms Some Inl q show ?thesis
      by (intro disjI1 exI [of _ e] exI [of _ el]) (simp add: enqueue_reaction_def)
  next
    case (Inr u)
    with q obtain m where "el_tasks el = el_tasks (event_loop_of rt)"
      "el_microtasks el = el_microtasks (event_loop_of rt) @ [m]" "qj_source m = Javascript"
      "qj_callback_id m = next_job_id rt"
      by (auto simp: queue_microtask_def take_sequence_def Let_def split: if_splits)
    with assms Some n Inr q show ?thesis
      by (intro disjI2 exI [of _ el] exI [of _ m] exI) (auto simp: enqueue_reaction_def)
  qed
qed

lemma enqueue_reaction_keeps:
  assumes "promise_ok rt" and "has_promise rt (reaction_result x)" and "enqueue_reaction x v b rt = (r, rt')"
  shows "promise_ok rt' \<and> records rt' = records rt"
  using enqueue_reaction_cases [OF assms(3)]
proof (elim disjE exE conjE, goal_cases)
  case (1 e el)
  with assms(1) show ?case
    by (simp add: promise_ok_def queue_ok_def closed_ok_def has_promise_def)
next
  case (2 el m q)
  from assms(1) have "\<forall>b\<in>set (jobs rt). fst b < next_job_id rt" by (simp add: promise_ok_def queue_ok_def)
  from bt_insert_max [OF this] 2 assms show ?case
    by (auto simp: promise_ok_def queue_ok_def closed_ok_def has_promise_def bt_ok_def sorted_wrt_append
        less_Suc_eq)
qed

lemma update_record_keeps:
  assumes "promise_ok rt" and "\<And>r x. x \<in> set (pr_reactions (f r)) \<Longrightarrow> x \<in> set (pr_reactions r) \<or> has_promise rt (reaction_result x)"
  shows "promise_ok (update_record p f rt) \<and> has_promise (update_record p f rt) = has_promise rt"
proof (cases "bt_get p (records rt)")
  case None
  with assms show ?thesis by (simp add: update_record_def)
next
  case (Some r)
  have "length (bt_insert p (f r) (records rt)) = length (records rt)"
    using assms(1) Some by (simp add: bt_length_insert promise_ok_def)
  moreover have same: "has_promise (update_record p f rt) = has_promise rt"
    using Some by (auto simp: update_record_def fun_eq_iff has_promise_def bt_get_insert)
  moreover have "closed_ok (update_record p f rt)"
    unfolding closed_ok_def same
  proof (intro conjI allI impI)
    show "\<forall>b\<in>set (jobs (update_record p f rt)). has_promise rt (qr_result (snd b))"
      using assms(1) Some by (simp add: update_record_def promise_ok_def closed_ok_def)
  next
    fix q r'
    assume "bt_get q (records (update_record p f rt)) = Some r'"
    with Some have r': "if q = p then r' = f r else bt_get q (records rt) = Some r'"
      by (auto simp: update_record_def bt_get_insert split: if_splits)
    from assms(1) have old: "bt_get q (records rt) = Some r0 \<Longrightarrow>
        q < next_promise_id rt \<and> (\<forall>x\<in>set (pr_reactions r0). has_promise rt (reaction_result x))" for r0
      by (simp add: promise_ok_def closed_ok_def)
    have "next_promise_id (update_record p f rt) = next_promise_id rt"
      using Some by (simp add: update_record_def)
    with r' old Some assms(2)
    show "q < next_promise_id (update_record p f rt)"
      and "\<forall>x\<in>set (pr_reactions r'). has_promise rt (reaction_result x)"
      by (metis (full_types))+
  qed
  ultimately show ?thesis
    using assms(1) Some by (simp add: update_record_def promise_ok_def queue_ok_def bt_insert_ok)
qed

lemma enqueue_all_keeps:
  assumes "promise_ok rt" and "\<forall>x\<in>set xs. has_promise rt (reaction_result x)"
    and "enqueue_all xs v b fe rt = (fe', rt')"
  shows "promise_ok rt' \<and> has_promise rt' = has_promise rt"
  using assms
proof (induction xs v b fe rt rule: enqueue_all.induct)
  case (2 x xs v b fe rt)
  obtain r rt1 where e: "enqueue_reaction x v b rt = (r, rt1)" by (cases "enqueue_reaction x v b rt")
  with 2 enqueue_reaction_keeps [of rt x v b r rt1]
  have ok1: "promise_ok rt1" and "records rt1 = records rt" by simp_all
  then have same: "has_promise rt1 = has_promise rt" by (auto simp: has_promise_def fun_eq_iff)
  show ?case
  proof (cases r)
    case (Inl err)
    let ?f = "\<lambda>r. r\<lparr>pr_state := Rejected (String (error_text err))\<rparr>"
    from update_record_keeps [OF ok1, of ?f "reaction_result x"]
    have "promise_ok (update_record (reaction_result x) ?f rt1)"
      "has_promise (update_record (reaction_result x) ?f rt1) = has_promise rt1" by auto
    with 2 e Inl same show ?thesis by simp
  next
    case (Inr u)
    with 2 e same ok1 show ?thesis by simp
  qed
qed simp

text \<open>Settling either leaves the runtime alone or takes the reactions of a pending record.\<close>

definition settled_record :: "promise_state \<Rightarrow> promise_record" where
  "settled_record s = \<lparr>pr_state = s, pr_reactions = []\<rparr>"

lemma settle_cases:
  assumes "settle p s rt = (r, rt')"
  obtains
    (invalid) "rt' = rt" "s = Pending \<or> bt_get p (records rt) = None" "\<exists>e. r = Inl e"
  | (already) rec where "rt' = rt" "bt_get p (records rt) = Some rec" "pr_state rec \<noteq> Pending" "r = Inr ()"
  | (taken) rec v fe where "bt_get p (records rt) = Some rec" "pr_state rec = Pending" "s \<noteq> Pending"
      "enqueue_all (pr_reactions rec) v (\<exists>w. s = Rejected w) None (update_record p (\<lambda>_. settled_record s) rt) = (fe, rt')"
      "r = (case fe of None \<Rightarrow> Inr () | Some e \<Rightarrow> Inl e)"
proof (cases "s = Pending \<or> bt_get p (records rt) = None")
  case True
  with assms show thesis by (intro invalid) (auto simp: settle_def split: if_splits)
next
  case False
  then obtain rec where rec: "bt_get p (records rt) = Some rec" by auto
  show thesis
  proof (cases "pr_state rec = Pending")
    case True
    have upd: "update_record p (\<lambda>_. settled_record s) rt =
        rt\<lparr>records := bt_insert p \<lparr>pr_state = s, pr_reactions = []\<rparr> (records rt)\<rparr>"
      using rec by (simp add: update_record_def settled_record_def)
    let ?all = "\<lambda>v. enqueue_all (pr_reactions rec) v (\<exists>w. s = Rejected w) None (update_record p (\<lambda>_. settled_record s) rt)"
    from False obtain v where v: "s = Fulfilled v \<or> s = Rejected v" by (cases s) auto
    obtain fe rt2 where all: "?all v = (fe, rt2)" by (cases "?all v")
    with False True rec v assms have "rt2 = rt'" "r = (case fe of None \<Rightarrow> Inr () | Some e \<Rightarrow> Inl e)"
      by (auto simp: settle_def Let_def upd split: option.splits)
    with all False show thesis by (intro taken [OF rec True]) auto
  next
    case False': False
    with False rec assms show thesis by (intro already) (auto simp: settle_def)
  qed
qed

lemma settle_keeps:
  assumes "promise_ok rt" and "settle p s rt = (r, rt')"
  shows "promise_ok rt' \<and> has_promise rt' = has_promise rt"
  using assms(2)
proof (cases rule: settle_cases)
  case (taken rec v fe)
  let ?rt1 = "update_record p (\<lambda>_. settled_record s) rt"
  from update_record_keeps [OF assms(1), of "\<lambda>_. settled_record s" p]
  have ok1: "promise_ok ?rt1" "has_promise ?rt1 = has_promise rt" by (simp_all add: settled_record_def)
  from assms(1) taken(1) have "\<forall>x\<in>set (pr_reactions rec). has_promise rt (reaction_result x)"
    by (simp add: promise_ok_def closed_ok_def)
  with enqueue_all_keeps [OF ok1(1) _ taken(4)] ok1(2) show ?thesis by simp
qed (simp_all add: assms(1))

lemma create_keeps:
  assumes "promise_ok rt" and "create rt = (r, rt')"
  shows "promise_ok rt' \<and> (\<forall>e. r = Inl e \<longrightarrow> rt' = rt) \<and> (\<forall>p. r = Inr p \<longrightarrow>
    \<not> has_promise rt p \<and> has_promise rt' = (has_promise rt)(p := True) \<and>
    records rt' = bt_insert p \<lparr>pr_state = Pending, pr_reactions = []\<rparr> (records rt) \<and> jobs rt' = jobs rt)"
proof (cases r)
  case (Inl e)
  with assms show ?thesis by (auto simp: create_def split: option.splits if_splits)
next
  case (Inr p)
  let ?rt = "rt\<lparr>next_promise_id := Suc p, records := bt_insert p \<lparr>pr_state = Pending, pr_reactions = []\<rparr> (records rt)\<rparr>"
  from Inr assms(2) have p: "p = next_promise_id rt" and rt': "rt' = ?rt"
    and room: "length (records rt) < max_promises rt"
    by (auto simp: create_def result_simps split: option.splits if_splits)
  from assms(1) p have fresh: "bt_get p (records rt) = None"
    by (cases "bt_get p (records rt)") (auto simp: promise_ok_def closed_ok_def)
  have has: "has_promise rt' = (has_promise rt)(p := True)"
    by (auto simp: rt' has_promise_def fun_eq_iff bt_get_insert)
  have "closed_ok rt'"
    unfolding closed_ok_def has
  proof (intro conjI allI impI)
    show "\<forall>b\<in>set (jobs rt'). ((has_promise rt)(p := True)) (qr_result (snd b))"
      using assms(1) by (simp add: rt' promise_ok_def closed_ok_def)
  next
    fix q r'
    assume "bt_get q (records rt') = Some r'"
    then have "q = p \<and> pr_reactions r' = [] \<or> bt_get q (records rt) = Some r'"
      by (auto simp: rt' bt_get_insert split: if_splits)
    moreover have "bt_get q (records rt) = Some r' \<Longrightarrow>
        q < p \<and> (\<forall>x\<in>set (pr_reactions r'). has_promise rt (reaction_result x))"
      using assms(1) p by (simp add: promise_ok_def closed_ok_def)
    ultimately show "q < next_promise_id rt'"
      and "\<forall>x\<in>set (pr_reactions r'). ((has_promise rt)(p := True)) (reaction_result x)"
      by (auto simp: rt' less_Suc_eq)
  qed
  moreover have "queue_ok rt'" using assms(1) by (simp add: rt' promise_ok_def queue_ok_def)
  moreover have "bt_ok (records rt')" "length (records rt') \<le> max_promises rt'"
    using assms(1) room by (simp_all add: rt' promise_ok_def bt_insert_ok bt_length_insert)
  ultimately have "promise_ok rt'" by (simp add: promise_ok_def)
  with Inr fresh has show ?thesis by (simp add: rt' has_promise_def)
qed

text \<open>A promise that no reaction settles can be dropped.\<close>

lemma remove_keeps:
  assumes "promise_ok rt" and "\<forall>b\<in>set (jobs rt). qr_result (snd b) \<noteq> p"
    and "\<And>q r x. bt_get q (records rt) = Some r \<Longrightarrow> x \<in> set (pr_reactions r) \<Longrightarrow> reaction_result x \<noteq> p"
  shows "promise_ok (rt\<lparr>records := bt_remove p (records rt)\<rparr>)" (is "promise_ok ?rt")
proof -
  have has: "has_promise ?rt q \<longleftrightarrow> q \<noteq> p \<and> has_promise rt q" for q
    by (simp add: has_promise_def bt_get_remove)
  have "closed_ok ?rt"
    unfolding closed_ok_def has
    using assms by (auto simp: promise_ok_def closed_ok_def bt_get_remove split: if_splits)
  moreover have "length (bt_remove p (records rt)) \<le> max_promises rt"
    using assms(1) bt_length_remove [of p "records rt"] by (simp add: promise_ok_def)
  ultimately show ?thesis
    using assms(1) by (simp add: promise_ok_def queue_ok_def bt_remove_ok)
qed

text \<open>\<open>then\<close> leaves the states of the existing promises alone, whatever happens.\<close>

definition states_kept :: "promise_runtime \<Rightarrow> promise_runtime \<Rightarrow> bool" where
  "states_kept rt rt' \<longleftrightarrow>
     (\<forall>q r. bt_get q (records rt) = Some r \<longrightarrow> promise_state_of q rt' = Some (pr_state r))"

lemma promise_then_keeps:
  assumes "promise_ok rt" and "promise_then p f g rt = (r, rt')"
  shows "promise_ok rt' \<and> states_kept rt rt'"
proof (cases "bt_get p (records rt)")
  case None
  with assms show ?thesis
    by (auto simp: promise_then_def promise_state_of_def states_kept_def)
next
  case (Some rec)
  obtain r1 rt1 where c: "create rt = (r1, rt1)" by (cases "create rt")
  note created = create_keeps [OF assms(1) c]
  show ?thesis
  proof (cases r1)
    case (Inl e)
    with Some c created assms show ?thesis
      by (auto simp: promise_then_def promise_state_of_def states_kept_def)
  next
    case (Inr q)
    with created have fresh: "\<not> has_promise rt q" and ok1: "promise_ok rt1" and has1: "has_promise rt1 q"
      and recs1: "records rt1 = bt_insert q \<lparr>pr_state = Pending, pr_reactions = []\<rparr> (records rt)"
      and jobs1: "jobs rt1 = jobs rt" by simp_all
    let ?x = "\<lparr>on_fulfilled = f, on_rejected = g, reaction_result = q\<rparr>"
    from fresh Some have "p \<noteq> q" by (auto simp: has_promise_def)
    with Some recs1 have p1: "bt_get p (records rt1) = Some rec" by (simp add: bt_get_insert)
    have kept1: "states_kept rt rt1"
      using fresh by (auto simp: states_kept_def recs1 promise_state_of_def bt_get_insert has_promise_def)
    show ?thesis
    proof (cases "pr_state rec = Pending")
      case True
      let ?f = "\<lambda>r. r\<lparr>pr_reactions := pr_reactions r @ [?x]\<rparr>"
      have rt': "rt' = update_record p ?f rt1"
        using assms(2) Some c Inr True p1 by (simp add: promise_then_def promise_state_of_def)
      have "promise_ok rt'" unfolding rt'
        by (rule conjunct1 [OF update_record_keeps [OF ok1]]) (use has1 in auto)
      moreover have "states_kept rt rt'"
        using kept1 p1 Some by (auto simp: rt' states_kept_def update_record_def promise_state_of_def bt_get_insert)
      ultimately show ?thesis ..
    next
      case False
      then obtain v b where st: "pr_state rec = (if b then Rejected v else Fulfilled v)"
        by (cases "pr_state rec") (metis (full_types))+
      obtain r2 rt2 where r2: "enqueue_reaction ?x v b rt1 = (r2, rt2)" by (cases "enqueue_reaction ?x v b rt1")
      with st assms(2) Some c Inr
      have rt': "rt' = (case r2 of Inl e \<Rightarrow> rt2\<lparr>records := bt_remove q (records rt2)\<rparr> | Inr _ \<Rightarrow> rt2)"
        by (cases b) (auto simp: promise_then_def promise_state_of_def Let_def split: prod.splits sum.splits)
      from enqueue_reaction_keeps [OF ok1 _ r2] has1 have ok2: "promise_ok rt2" and recs2: "records rt2 = records rt1"
        by simp_all
      show ?thesis
      proof (cases r2)
        case (Inr u)
        with rt' ok2 recs2 kept1 show ?thesis by (simp add: states_kept_def promise_state_of_def)
      next
        case (Inl err)
        with enqueue_reaction_cases [OF r2] have "jobs rt2 = jobs rt" by (auto simp: jobs1)
        have old: "promise_ok rt" by (rule assms)
        have "promise_ok rt'"
          unfolding rt' Inl sum.case
        proof (rule remove_keeps [OF ok2])
          show "\<forall>b\<in>set (jobs rt2). qr_result (snd b) \<noteq> q"
            using old fresh \<open>jobs rt2 = jobs rt\<close> by (auto simp: promise_ok_def closed_ok_def)
          show "reaction_result x \<noteq> q" if "bt_get i (records rt2) = Some r" "x \<in> set (pr_reactions r)" for i r x
            using that old fresh by (auto simp: recs2 recs1 bt_get_insert promise_ok_def closed_ok_def split: if_splits)
        qed
        moreover have "states_kept rt rt'"
          using fresh by (auto simp: states_kept_def rt' Inl recs2 recs1 promise_state_of_def bt_get_insert bt_get_remove has_promise_def)
        ultimately show ?thesis ..
      qed
    qed
  qed
qed

section \<open>Settling\<close>

definition budget_errors :: "error set" where
  "budget_errors = {Err ''Runtime microtask budget exceeded'', Err ''Promise job identifier space exhausted''}"

lemma update_record_jobs [simp]: "jobs (update_record p f rt) = jobs rt"
  by (simp add: update_record_def split: option.split)

lemma enqueue_reaction_effect:
  assumes "promise_ok rt" and "enqueue_reaction x v b rt = (r, rt')"
  shows "(\<exists>new. jobs rt' = jobs rt @ new) \<and> (\<forall>e. r = Inl e \<longrightarrow> e \<in> budget_errors)"
proof -
  from assms(1) have "\<forall>b\<in>set (jobs rt). fst b < next_job_id rt" by (simp add: promise_ok_def queue_ok_def)
  from bt_insert_max [OF this] enqueue_reaction_cases [OF assms(2)] show ?thesis
    by (auto simp: budget_errors_def)
qed

lemma enqueue_all_effect:
  assumes "promise_ok rt" and "\<forall>x\<in>set xs. has_promise rt (reaction_result x)"
    and "enqueue_all xs v b fe rt = (fe', rt')"
  shows "(\<exists>new. jobs rt' = jobs rt @ new) \<and> (fe' = fe \<or> fe' \<in> Some ` budget_errors) \<and>
    (fe \<noteq> None \<longrightarrow> fe' \<noteq> None) \<and> (fe' = None \<longrightarrow> records rt' = records rt)"
  using assms
proof (induction xs v b fe rt rule: enqueue_all.induct)
  case (2 x xs v b fe rt)
  obtain r rt1 where e: "enqueue_reaction x v b rt = (r, rt1)" by (cases "enqueue_reaction x v b rt")
  with 2 enqueue_reaction_keeps [of rt x v b r rt1] have ok1: "promise_ok rt1" and recs: "records rt1 = records rt"
    by simp_all
  then have same: "has_promise rt1 = has_promise rt" by (auto simp: has_promise_def fun_eq_iff)
  obtain new where new: "jobs rt1 = jobs rt @ new" and err: "\<And>e. r = Inl e \<Longrightarrow> e \<in> budget_errors"
    using enqueue_reaction_effect [OF 2(3) e] by blast
  show ?case
  proof (cases r)
    case (Inl err')
    let ?rt2 = "update_record (reaction_result x) (\<lambda>r. r\<lparr>pr_state := Rejected (String (error_text err'))\<rparr>) rt1"
    have "promise_ok ?rt2 \<and> has_promise ?rt2 = has_promise rt1"
      by (rule update_record_keeps [OF ok1]) simp
    with 2(1) [OF e [symmetric] Inl] 2(4,5) e Inl same new err [OF Inl] show ?thesis
      by (cases fe) auto
  next
    case (Inr u)
    with 2(2) [OF e [symmetric] Inr ok1] 2(4,5) e same new recs show ?thesis by auto
  qed
qed simp

definition settled_kept :: "promise_runtime \<Rightarrow> promise_runtime \<Rightarrow> bool" where
  "settled_kept rt rt' \<longleftrightarrow>
     (\<forall>q s. promise_state_of q rt = Some s \<and> s \<noteq> Pending \<longrightarrow> promise_state_of q rt' = Some s)"

lemma settled_kept_refl: "settled_kept rt rt"
  by (simp add: settled_kept_def)

lemma settled_kept_trans: "settled_kept rt rt1 \<Longrightarrow> settled_kept rt1 rt2 \<Longrightarrow> settled_kept rt rt2"
  unfolding settled_kept_def by blast

lemma states_kept_settled: "states_kept rt rt' \<Longrightarrow> settled_kept rt rt'"
  by (auto simp: states_kept_def settled_kept_def promise_state_of_def)

lemma settle_effect:
  assumes "promise_ok rt" and "settle p s rt = (r, rt')"
  shows "(\<exists>new. jobs rt' = jobs rt @ new) \<and> (is_ok r \<longrightarrow> settled_kept rt rt') \<and>
    (s \<noteq> Pending \<and> has_promise rt p \<longrightarrow> (\<forall>e. r = Inl e \<longrightarrow> e \<in> budget_errors))"
  using assms(2)
proof (cases rule: settle_cases)
  case (taken rec v fe)
  let ?rt1 = "update_record p (\<lambda>_. settled_record s) rt"
  from update_record_keeps [OF assms(1), of "\<lambda>_. settled_record s" p]
  have ok1: "promise_ok ?rt1" "has_promise ?rt1 = has_promise rt" by (simp_all add: settled_record_def)
  from assms(1) taken(1) have "\<forall>x\<in>set (pr_reactions rec). has_promise ?rt1 (reaction_result x)"
    unfolding ok1(2) by (simp add: promise_ok_def closed_ok_def)
  note effect = enqueue_all_effect [OF ok1(1) this taken(4)]
  have "settled_kept rt ?rt1"
    using taken(1,2) by (auto simp: settled_kept_def promise_state_of_def update_record_def bt_get_insert)
  with effect taken(5) show ?thesis
    by (auto simp: settled_kept_def promise_state_of_def split: option.splits)
qed (auto simp: settled_kept_refl has_promise_def)

section \<open>Draining\<close>

lemma pop_microtask:
  assumes "el_tasks el = []"
  shows "pop_next_ready el =
    (case el_microtasks el of [] \<Rightarrow> (None, el)
     | m # rest \<Rightarrow> (Some m, el\<lparr>el_microtasks := rest,
         el_consecutive_microtasks := sat_add (el_consecutive_microtasks el) 1\<rparr>))"
proof -
  have "ready_task_index el = None" using assms by (simp add: ready_task_index_None)
  then show ?thesis unfolding pop_next_ready_def by (auto split: list.split)
qed

lemma pop_reaction:
  assumes "promise_ok rt"
  shows "(jobs rt = [] \<longrightarrow> pop_next_ready (event_loop_of rt) = (None, event_loop_of rt)) \<and>
    (\<forall>j q rest. jobs rt = (j, q) # rest \<longrightarrow> has_promise rt (qr_result q) \<and>
       bt_get j (jobs rt) = Some q \<and> bt_remove j (jobs rt) = rest \<and>
       (\<exists>m el. pop_next_ready (event_loop_of rt) = (Some m, el) \<and> qj_source m = Javascript \<and>
          qj_callback_id m = j \<and> promise_ok (rt\<lparr>event_loop_of := el, jobs := rest\<rparr>)))"
proof (intro conjI impI allI)
  have tasks: "el_tasks (event_loop_of rt) = []" and
    ids: "map qj_callback_id (el_microtasks (event_loop_of rt)) = map fst (jobs rt)"
    using assms by (simp_all add: promise_ok_def queue_ok_def)
  show "pop_next_ready (event_loop_of rt) = (None, event_loop_of rt)" if "jobs rt = []"
    using that ids by (simp add: pop_microtask [OF tasks])
  fix j q rest
  assume js: "jobs rt = (j, q) # rest"
  show "has_promise rt (qr_result q)" using assms js by (simp add: promise_ok_def closed_ok_def)
  show "bt_get j (jobs rt) = Some q" using js by (simp add: bt_get_def)
  have "\<forall>b\<in>set rest. j < fst b" using assms js by (simp add: promise_ok_def queue_ok_def bt_ok_Cons)
  then show "bt_remove j (jobs rt) = rest" using js by (auto simp: bt_remove_def filter_id_conv)
  from ids js obtain m ms where ms: "el_microtasks (event_loop_of rt) = m # ms" "qj_callback_id m = j"
    "map qj_callback_id ms = map fst rest"
    by (cases "el_microtasks (event_loop_of rt)") auto
  then show "\<exists>m el. pop_next_ready (event_loop_of rt) = (Some m, el) \<and> qj_source m = Javascript \<and>
      qj_callback_id m = j \<and> promise_ok (rt\<lparr>event_loop_of := el, jobs := rest\<rparr>)"
    using assms js tasks
    by (auto simp: pop_microtask [OF tasks] promise_ok_def queue_ok_def closed_ok_def bt_ok_Cons has_promise_def)
qed

text \<open>One turn of the loop, for a well-formed runtime.\<close>

lemma drain_loop_Nil:
  assumes "promise_ok rt" and "jobs rt = []"
  shows "drain_loop n k invoke rt h = (Inr k, rt, h)"
  using pop_reaction [OF assms(1)] assms(2) by (cases n) simp_all

definition drain_turn ::
  "nat \<Rightarrow> nat \<Rightarrow> 'h invoker \<Rightarrow> queued_reaction \<Rightarrow> promise_runtime \<Rightarrow> 'h \<Rightarrow> (error + nat) \<times> promise_runtime \<times> 'h" where
  "drain_turn n k invoke q rt h =
     (let (outcome, h1) = run_reaction invoke q h;
          (r, rt1) = settle (qr_result q) (case outcome of Inr v \<Rightarrow> Fulfilled v | Inl v \<Rightarrow> Rejected v) rt
      in case r of Inl e \<Rightarrow> (Inl e, rt1, h1) | Inr _ \<Rightarrow> drain_loop n (k + 1) invoke rt1 h1)"

lemma drain_loop_Cons:
  assumes "promise_ok rt" and "jobs rt = (j, q) # rest"
  obtains rt1 where "promise_ok rt1" "records rt1 = records rt" "jobs rt1 = rest"
    "has_promise rt1 (qr_result q)"
    "drain_loop (Suc n) k invoke rt h = drain_turn n k invoke q rt1 h"
proof -
  from pop_reaction [OF assms(1)] assms(2) obtain m el where
    p: "pop_next_ready (event_loop_of rt) = (Some m, el)" "qj_source m = Javascript" "qj_callback_id m = j"
      "bt_get j (jobs rt) = Some q" "bt_remove j (jobs rt) = rest" "has_promise rt (qr_result q)"
      "promise_ok (rt\<lparr>event_loop_of := el, jobs := rest\<rparr>)" by blast
  show thesis
  proof (rule that [of "rt\<lparr>event_loop_of := el, jobs := rest\<rparr>"])
    show "drain_loop (Suc n) k invoke rt h = drain_turn n k invoke q (rt\<lparr>event_loop_of := el, jobs := rest\<rparr>) h"
      using p(1-5) by (auto simp: drain_turn_def Let_def resolve_promise_def reject_promise_def split: prod.split sum.split)
  qed (use p(6,7) in \<open>simp_all add: has_promise_def\<close>)
qed

lemma drain_loop_ok:
  assumes "promise_ok rt" and "drain_loop n k invoke rt h = (r, rt', h')"
  shows "promise_ok rt' \<and> (is_ok r \<longrightarrow> settled_kept rt rt') \<and> (\<forall>e. r = Inl e \<longrightarrow> e \<in> budget_errors)"
  using assms
proof (induction n arbitrary: k rt h)
  case 0
  then show ?case by (auto simp: settled_kept_refl)
next
  case (Suc n)
  show ?case
  proof (cases "jobs rt")
    case Nil
    with Suc.prems show ?thesis by (auto simp: drain_loop_Nil settled_kept_refl simp del: drain_loop.simps)
  next
    case (Cons b rest)
    obtain j q where b: "b = (j, q)" by (cases b)
    from drain_loop_Cons [OF Suc.prems(1) Cons [unfolded b], of n k invoke h] obtain rt1 where
      rt1: "promise_ok rt1" "records rt1 = records rt" "has_promise rt1 (qr_result q)" and
      turn: "drain_loop (Suc n) k invoke rt h = drain_turn n k invoke q rt1 h" .
    obtain outcome h1 where o: "run_reaction invoke q h = (outcome, h1)" by (cases "run_reaction invoke q h")
    define s where "s = (case outcome of Inr v \<Rightarrow> Fulfilled v | Inl v \<Rightarrow> Rejected v)"
    obtain r2 rt2 where st: "settle (qr_result q) s rt1 = (r2, rt2)" by (cases "settle (qr_result q) s rt1")
    have "s \<noteq> Pending" by (simp add: s_def split: sum.split)
    note keeps = settle_keeps [OF rt1(1) st] settle_effect [OF rt1(1) st]
    have same: "settled_kept rt rt1" by (simp add: settled_kept_def promise_state_of_def rt1(2))
    have r: "(case r2 of Inl e \<Rightarrow> (Inl e, rt2, h1) | Inr _ \<Rightarrow> drain_loop n (k + 1) invoke rt2 h1) = (r, rt', h')"
      using Suc.prems(2) unfolding turn drain_turn_def o Let_def prod.case s_def [symmetric] st .
    show ?thesis
    proof (cases r2)
      case (Inl e)
      with keeps rt1(3) \<open>s \<noteq> Pending\<close> r show ?thesis by auto
    next
      case (Inr u)
      with r have "drain_loop n (k + 1) invoke rt2 h1 = (r, rt', h')" by simp
      from Suc.IH [OF conjunct1 [OF keeps(1)] this] keeps(2) Inr same show ?thesis
        by (auto intro: settled_kept_trans)
    qed
  qed
qed

lemma promise_ok_truncated [simp]: "promise_ok (rt\<lparr>drain_was_truncated := b\<rparr>) = promise_ok rt"
  by (simp add: promise_ok_def queue_ok_def closed_ok_def has_promise_def)

lemma promise_state_of_truncated [simp]:
  "promise_state_of q (rt\<lparr>drain_was_truncated := b\<rparr>) = promise_state_of q rt"
  by (simp add: promise_state_of_def)

lemma drain_jobs_ok:
  assumes "promise_ok rt" and "drain_jobs n invoke rt h = (r, rt', h')"
  shows "promise_ok rt' \<and> (is_ok r \<longrightarrow> settled_kept rt rt') \<and> (\<forall>e. r = Inl e \<longrightarrow> e \<in> budget_errors)"
proof -
  obtain r1 rt1 where d: "drain_loop n 0 invoke (rt\<lparr>drain_was_truncated := False\<rparr>) h = (r1, rt1, h')"
    and r: "r = r1" "rt' = (case r1 of Inl _ \<Rightarrow> rt1 | Inr _ \<Rightarrow> rt1\<lparr>drain_was_truncated := pending_jobs rt1 > 0\<rparr>)"
    using assms(2) by (auto simp: drain_jobs_def split: prod.splits sum.splits)
  from drain_loop_ok [OF _ d] assms(1) show ?thesis
    by (auto simp: r settled_kept_def split: sum.split)
qed

section \<open>Order of the reactions\<close>

text \<open>A client that records its calls, in the order they are made.\<close>

definition logging ::
  "(nat \<Rightarrow> runtime_value \<Rightarrow> runtime_value + runtime_value) \<Rightarrow> (nat \<times> runtime_value) list invoker" where
  "logging f handler v log = (f handler v, log @ [(handler, v)])"

definition handler_calls :: "queued_reaction list \<Rightarrow> (nat \<times> runtime_value) list" where
  "handler_calls qs = concat (map (\<lambda>q. case qr_handler_id q of None \<Rightarrow> [] | Some handler \<Rightarrow> [(handler, qr_argument q)]) qs)"

lemma run_reaction_logging:
  "snd (run_reaction (logging f) q log) = log @ handler_calls [q]"
  by (simp add: run_reaction_def logging_def handler_calls_def split: option.split)

lemma drain_loop_fifo:
  assumes "promise_ok rt" and "n \<le> length (jobs rt)"
    and "drain_loop n k (logging f) rt log = (Inr k', rt', log')"
  shows "k' = k + n \<and> log' = log @ handler_calls (take n (bt_values (jobs rt))) \<and>
    (\<exists>new. jobs rt' = drop n (jobs rt) @ new)"
  using assms
proof (induction n arbitrary: k rt log)
  case 0
  then show ?case by (simp add: handler_calls_def)
next
  case (Suc n)
  from Suc.prems(2) obtain j q rest where js: "jobs rt = (j, q) # rest" by (cases "jobs rt") auto
  from drain_loop_Cons [OF Suc.prems(1) js, of n k "logging f" log] obtain rt1 where
    rt1: "promise_ok rt1" "jobs rt1 = rest" and
    turn: "drain_loop (Suc n) k (logging f) rt log = drain_turn n k (logging f) q rt1 log" .
  obtain outcome log1 where o: "run_reaction (logging f) q log = (outcome, log1)"
    by (cases "run_reaction (logging f) q log")
  with run_reaction_logging [of f q log] have log1: "log1 = log @ handler_calls [q]" by simp
  define s where "s = (case outcome of Inr v \<Rightarrow> Fulfilled v | Inl v \<Rightarrow> Rejected v)"
  obtain r2 rt2 where st: "settle (qr_result q) s rt1 = (r2, rt2)" by (cases "settle (qr_result q) s rt1")
  note keeps = settle_keeps [OF rt1(1) st] settle_effect [OF rt1(1) st]
  have "(case r2 of Inl e \<Rightarrow> (Inl e, rt2, log1) | Inr _ \<Rightarrow> drain_loop n (k + 1) (logging f) rt2 log1) = (Inr k', rt', log')"
    using Suc.prems(3) unfolding turn drain_turn_def o Let_def prod.case s_def [symmetric] st .
  then have d: "drain_loop n (k + 1) (logging f) rt2 log1 = (Inr k', rt', log')"
    by (cases r2) simp_all
  from keeps(2) rt1(2) obtain new where new: "jobs rt2 = rest @ new" by auto
  have le: "n \<le> length rest" using Suc.prems(2) js by simp
  with new have "n \<le> length (jobs rt2)" by simp
  from Suc.IH [OF conjunct1 [OF keeps(1)] this d] new le js log1 show ?case
    by (auto simp: bt_values_def handler_calls_def)
qed

section \<open>Runs of the runtime\<close>

datatype promise_op =
    Create
  | Then promise_id "nat option" "nat option"
  | Resolve promise_id runtime_value
  | Reject promise_id runtime_value
  | Drain nat

text \<open>The state of a run: whether every call so far returned \<open>Ok\<close>, the runtime, the client's state.\<close>

definition promise_step ::
  "'h invoker \<Rightarrow> bool \<times> promise_runtime \<times> 'h \<Rightarrow> promise_op \<Rightarrow> bool \<times> promise_runtime \<times> 'h" where
  "promise_step invoke s op =
     (case s of (ok, rt, h) \<Rightarrow>
        (case op of
           Create \<Rightarrow> (case create rt of (r, rt') \<Rightarrow> (ok \<and> is_ok r, rt', h))
         | Then p f g \<Rightarrow> (case promise_then p f g rt of (r, rt') \<Rightarrow> (ok \<and> is_ok r, rt', h))
         | Resolve p v \<Rightarrow> (case resolve_promise p v rt of (r, rt') \<Rightarrow> (ok \<and> is_ok r, rt', h))
         | Reject p v \<Rightarrow> (case reject_promise p v rt of (r, rt') \<Rightarrow> (ok \<and> is_ok r, rt', h))
         | Drain n \<Rightarrow> (case drain_jobs n invoke rt h of (r, rt', h') \<Rightarrow> (ok \<and> is_ok r, rt', h'))))"

definition promise_run ::
  "'h invoker \<Rightarrow> promise_op list \<Rightarrow> bool \<times> promise_runtime \<times> 'h \<Rightarrow> bool \<times> promise_runtime \<times> 'h" where
  "promise_run invoke ops s = fold (\<lambda>op s. promise_step invoke s op) ops s"

text \<open>What a call does to the runtime: the invariant is kept, and so is a settled state unless the call
  returned an error.\<close>

definition run_kept :: "bool \<times> promise_runtime \<times> 'h \<Rightarrow> bool \<times> promise_runtime \<times> 'h \<Rightarrow> bool" where
  "run_kept s s' \<longleftrightarrow> (promise_ok (fst (snd s)) \<longrightarrow>
     promise_ok (fst (snd s')) \<and> (fst s' \<longrightarrow> fst s \<and> settled_kept (fst (snd s)) (fst (snd s'))))"

lemma promise_step_kept: "run_kept s (promise_step invoke s op)"
proof -
  obtain ok rt h where s: "s = (ok, rt, h)" by (cases s)
  show ?thesis
  proof (cases op)
    case Create
    have "settled_kept rt rt'" if "promise_ok rt" "create rt = (r, rt')" for r rt'
      using create_keeps [OF that]
      by (cases r) (auto simp: settled_kept_def promise_state_of_def has_promise_def bt_get_insert)
    with Create s show ?thesis
      by (auto simp: run_kept_def promise_step_def dest: create_keeps split: prod.split)
  next
    case (Then p f g)
    with s show ?thesis
      by (auto simp: run_kept_def promise_step_def dest: promise_then_keeps intro: states_kept_settled split: prod.split)
  next
    case (Resolve p v)
    with s show ?thesis
      by (auto simp: run_kept_def promise_step_def resolve_promise_def dest: settle_keeps settle_effect split: prod.split)
  next
    case (Reject p v)
    with s show ?thesis
      by (auto simp: run_kept_def promise_step_def reject_promise_def dest: settle_keeps settle_effect split: prod.split)
  next
    case (Drain n)
    with s show ?thesis
      by (auto simp: run_kept_def promise_step_def dest: drain_jobs_ok split: prod.split)
  qed
qed

interpretation promises: monotone_system "promise_step invoke" run_kept
  by unfold_locales
    (auto simp: run_kept_def settled_kept_refl promise_step_kept [unfolded run_kept_def] intro: settled_kept_trans)

lemma new_promise_runtime_ok: "promise_ok (new_promise_runtime max_p max_microtasks)"
  by (simp add: promise_ok_def queue_ok_def closed_ok_def new_promise_runtime_def new_event_loop_def bt_get_def)

lemma promise_step_ok: "promise_ok (fst (snd s)) \<Longrightarrow> promise_ok (fst (snd (promise_step invoke s op)))"
  using promise_step_kept [of s invoke op] by (simp add: run_kept_def)

interpretation promise_component: component "promise_step invoke" "\<lambda>s. promise_ok (fst (snd s))"
    "(True, new_promise_runtime max_p max_microtasks, h)"
  by unfold_locales (simp_all add: promise_step_ok new_promise_runtime_ok)

text \<open>C12. Whatever the clients call, in whatever order and with whatever handlers, \<^verbatim>\<open>drain_jobs\<close>
  never fails for an internal reason: no microtask lacks its reaction, no reaction settles a promise without
  a record, and the only errors are the two budget errors. The runtime stays consistent.\<close>

theorem drain_fails_only_on_budget:
  assumes "promise_run invoke ops (True, new_promise_runtime max_p max_microtasks, h) = (ok, rt, h1)"
    and "drain_jobs n invoke rt h1 = (r, rt', h2)"
  shows "promise_ok rt \<and> promise_ok rt' \<and> (\<forall>e. r = Inl e \<longrightarrow> e \<in> budget_errors)"
proof -
  have "promise_ok (fst (snd (promise_run invoke ops (True, new_promise_runtime max_p max_microtasks, h))))"
    unfolding promise_run_def by (rule promise_component.reachable_inv)
  with assms(1) have "promise_ok rt" by simp
  with drain_jobs_ok [OF this assms(2)] show ?thesis by simp
qed

text \<open>C13. A promise settles once: over any further calls that all return \<^verbatim>\<open>Ok\<close>, a fulfilled or
  rejected promise keeps its state and its value.\<close>

theorem promise_settles_once:
  assumes "promise_ok rt" and "promise_run invoke ops (ok, rt, h) = (True, rt', h')"
    and "promise_state_of p rt = Some s" and "s \<noteq> Pending"
  shows "promise_state_of p rt' = Some s"
proof -
  from promises.run_rel [of "(ok, rt, h)" invoke ops] assms(2)
  have "run_kept (ok, rt, h) (True, rt', h')" by (simp add: promise_run_def)
  with assms(1,3,4) show ?thesis by (simp add: run_kept_def settled_kept_def)
qed

text \<open>C14. Reactions run asynchronously in the order they were queued: a drain of at most as many jobs as
  are queued calls the handlers of exactly the oldest ones, first in first out; what those calls queue
  waits behind the rest.\<close>

theorem reactions_run_in_order:
  assumes "promise_ok rt" and "n \<le> pending_jobs rt"
    and "drain_jobs n (logging f) rt [] = (Inr processed, rt', calls)"
  shows "processed = n \<and> calls = handler_calls (take n (bt_values (jobs rt))) \<and>
    (\<exists>new. jobs rt' = drop n (jobs rt) @ new) \<and> (drain_was_truncated rt' \<longleftrightarrow> jobs rt' \<noteq> [])"
proof -
  let ?rt = "rt\<lparr>drain_was_truncated := False\<rparr>"
  from assms(3) obtain rt1 where d: "drain_loop n 0 (logging f) ?rt [] = (Inr processed, rt1, calls)"
    and rt': "rt' = rt1\<lparr>drain_was_truncated := pending_jobs rt1 > 0\<rparr>"
    by (auto simp: drain_jobs_def split: prod.splits sum.splits)
  from drain_loop_fifo [OF _ _ d] assms(1,2) show ?thesis
    by (auto simp: rt' pending_jobs_def)
qed

section \<open>A sample run\<close>

text \<open>A promise with one reaction, resolved: the reaction is queued but has not run.\<close>

definition sample_promise_ops :: "promise_op list" where
  "sample_promise_ops = [Create, Then 1 (Some 42) None, Resolve 1 Null]"

definition sample_promises :: promise_runtime where
  "sample_promises = \<lparr>max_promises = 4, next_promise_id = 3, next_job_id = 2,
     records = [(1, \<lparr>pr_state = Fulfilled Null, pr_reactions = []\<rparr>), (2, \<lparr>pr_state = Pending, pr_reactions = []\<rparr>)],
     jobs = [(1, \<lparr>qr_handler_id = Some 42, qr_argument = Null, qr_result = 2, qr_rejected_input = False\<rparr>)],
     event_loop_of = \<lparr>el_now_ms = 0, el_next_sequence = 1, el_max_tasks = 0, el_max_microtasks = 4,
       el_tasks = [], el_microtasks = [\<lparr>qj_source = Javascript, qj_callback_id = 1, qj_due_ms = 0, qj_sequence = 0\<rparr>],
       el_truncated = False, el_consecutive_microtasks = 0\<rparr>,
     drain_was_truncated = False\<rparr>"

text \<open>The same runtime after one drain.\<close>

definition sample_drained :: promise_runtime where
  "sample_drained = sample_promises\<lparr>
     records := [(1, \<lparr>pr_state = Fulfilled Null, pr_reactions = []\<rparr>), (2, \<lparr>pr_state = Fulfilled Null, pr_reactions = []\<rparr>)],
     jobs := [], event_loop_of := (event_loop_of sample_promises)\<lparr>el_microtasks := [], el_consecutive_microtasks := 1\<rparr>\<rparr>"

lemmas promise_eval =
  promise_run_def promise_step_def create_def promise_then_def promise_state_of_def update_record_def
  enqueue_reaction_def resolve_promise_def reject_promise_def settle_def queue_microtask_def take_sequence_def
  checked_add_def sat_add_def u64_max_def new_promise_runtime_def new_event_loop_def bt_get_def bt_remove_def
  run_reaction_def logging_def pop_next_ready_def ready_task_index_def pending_jobs_def drain_jobs_def
  handler_calls_def bt_values_def MAX_MICROTASKS_PER_TURN_def

lemma sample_promise_run:
  "promise_run (logging (\<lambda>_. Inr)) sample_promise_ops (True, new_promise_runtime 4 4, []) = (True, sample_promises, [])"
  by (simp add: promise_eval sample_promise_ops_def sample_promises_def)

lemma drain_loop_1: "drain_loop 1 k = drain_loop (Suc 0) k"
  by simp

lemma sample_promise_drain:
  "drain_jobs 1 (logging (\<lambda>_. Inr)) sample_promises [] = (Inr 1, sample_drained, [(42, Null)])"
  by (simp add: promise_eval drain_loop_1 sample_promises_def sample_drained_def)

lemma sample_promises_ok: "promise_ok sample_promises"
proof -
  have "promise_ok (fst (snd (promise_run (logging (\<lambda>_. Inr)) sample_promise_ops (True, new_promise_runtime 4 4, []))))"
    unfolding promise_run_def by (rule promise_component.reachable_inv)
  then show ?thesis by (simp add: sample_promise_run)
qed

theorem drain_fails_only_on_budget_witness: "promise_ok sample_promises \<and> promise_ok sample_drained"
  using drain_fails_only_on_budget [OF sample_promise_run sample_promise_drain] by simp

theorem promise_settles_once_witness:
  "promise_state_of 1 (fst (snd (promise_run (logging (\<lambda>_. Inr)) [Drain 1, Reject 1 Undefined] (True, sample_promises, []))))
    = Some (Fulfilled Null)"
proof -
  have "promise_run (logging (\<lambda>_. Inr)) [Drain 1, Reject 1 Undefined] (True, sample_promises, []) = (True, sample_drained, [(42, Null)])"
    using sample_promise_drain
    by (simp add: promise_run_def promise_step_def reject_promise_def settle_def sample_drained_def bt_get_def)
  with promise_settles_once [OF sample_promises_ok this, of 1 "Fulfilled Null"] show ?thesis
    by (simp add: promise_state_of_def sample_promises_def bt_get_def)
qed

theorem reactions_run_in_order_witness:
  "handler_calls (take 1 (bt_values (jobs sample_promises))) = [(42, Null)] \<and> \<not> drain_was_truncated sample_drained"
  using reactions_run_in_order [OF sample_promises_ok _ sample_promise_drain]
  by (simp add: pending_jobs_def sample_promises_def sample_drained_def)

text \<open>The exception to settling once: a promise whose client has fulfilled it is still the result of a
  waiting reaction; if the microtask queue is full when that reaction should be queued,
  \<^verbatim>\<open>settle\<close> rejects the fulfilled promise.\<close>

theorem settled_result_overwritten:
  "case promise_run (logging (\<lambda>_. Inr)) [Create, Then 1 (Some 42) None, Resolve 2 Null] (True, new_promise_runtime 4 0, []) of
     (ok, rt, h) \<Rightarrow> ok \<and> promise_state_of 2 rt = Some (Fulfilled Null) \<and>
       (case resolve_promise 1 Null rt of (r, rt') \<Rightarrow>
          \<not> is_ok r \<and> (\<exists>message. promise_state_of 2 rt' = Some (Rejected (String message))))"
  by (simp add: promise_eval)

end
