(* ===== verification/Unicode_Text.thy ===== *)
theory Unicode_Text
  imports Btree_Map "HOL-Library.Sublist"
begin

text \<open>
  Rust's \<^verbatim>\<open>char\<close> and \<^verbatim>\<open>str\<close> as the program uses them: a character is
  its Unicode scalar value, a string a list of characters, with the byte length of its UTF-8 encoding where
  the code counts or slices bytes. The one thing left out is Unicode's table of lower-case mappings: where
  the code calls \<^verbatim>\<open>to_lowercase\<close>, the models take it as an argument.
\<close>

type_synonym uchar = nat
type_synonym ustr = "nat list"

text \<open>A string literal of the code.\<close>

definition lit :: "string \<Rightarrow> ustr" where
  "lit s = map of_char s"

section \<open>Character classes\<close>

text \<open>\<^verbatim>\<open>char::is_whitespace\<close>: Unicode's \<^verbatim>\<open>White_Space\<close> property.\<close>

definition is_whitespace :: "uchar \<Rightarrow> bool" where
  "is_whitespace c \<longleftrightarrow> 9 \<le> c \<and> c \<le> 13 \<or> c = 32 \<or> c = 133 \<or> c = 160 \<or> c = 5760 \<or>
     8192 \<le> c \<and> c \<le> 8202 \<or> c = 8232 \<or> c = 8233 \<or> c = 8239 \<or> c = 8287 \<or> c = 12288"

definition is_ascii_upper :: "uchar \<Rightarrow> bool" where
  "is_ascii_upper c \<longleftrightarrow> 65 \<le> c \<and> c \<le> 90"

definition is_ascii_lower :: "uchar \<Rightarrow> bool" where
  "is_ascii_lower c \<longleftrightarrow> 97 \<le> c \<and> c \<le> 122"

definition is_ascii_alphabetic :: "uchar \<Rightarrow> bool" where
  "is_ascii_alphabetic c \<longleftrightarrow> is_ascii_upper c \<or> is_ascii_lower c"

definition is_ascii_digit :: "uchar \<Rightarrow> bool" where
  "is_ascii_digit c \<longleftrightarrow> 48 \<le> c \<and> c \<le> 57"

definition is_ascii_alphanumeric :: "uchar \<Rightarrow> bool" where
  "is_ascii_alphanumeric c \<longleftrightarrow> is_ascii_alphabetic c \<or> is_ascii_digit c"

definition ascii_lower :: "uchar \<Rightarrow> uchar" where
  "ascii_lower c = (if is_ascii_upper c then c + 32 else c)"

definition to_ascii_lowercase :: "ustr \<Rightarrow> ustr" where
  "to_ascii_lowercase s = map ascii_lower s"

definition char_eq_ignore_case :: "uchar \<Rightarrow> uchar \<Rightarrow> bool" where
  "char_eq_ignore_case a b \<longleftrightarrow> ascii_lower a = ascii_lower b"

definition eq_ignore_ascii_case :: "ustr \<Rightarrow> ustr \<Rightarrow> bool" where
  "eq_ignore_ascii_case s t \<longleftrightarrow> to_ascii_lowercase s = to_ascii_lowercase t"

lemma ascii_lower_idem [simp]: "ascii_lower (ascii_lower c) = ascii_lower c"
  by (simp add: ascii_lower_def is_ascii_upper_def)

lemma to_ascii_lowercase_idem [simp]: "to_ascii_lowercase (to_ascii_lowercase s) = to_ascii_lowercase s"
  by (simp add: to_ascii_lowercase_def)

section \<open>Length in bytes\<close>

definition utf8_len :: "uchar \<Rightarrow> nat" where
  "utf8_len c = (if c < 128 then 1 else if c < 2048 then 2 else if c < 65536 then 3 else 4)"

definition byte_len :: "ustr \<Rightarrow> nat" where
  "byte_len s = sum_list (map utf8_len s)"

lemma utf8_len_pos [simp]: "0 < utf8_len c"
  by (simp add: utf8_len_def)

lemma byte_len_simps [simp]: "byte_len [] = 0" "byte_len (c # s) = utf8_len c + byte_len s"
  "byte_len (s @ t) = byte_len s + byte_len t"
  by (simp_all add: byte_len_def)

lemma length_le_byte_len: "length s \<le> byte_len s"
proof (induction s)
  case (Cons c s)
  with utf8_len_pos [of c] show ?case by (simp del: utf8_len_pos)
qed simp

text \<open>The first \<open>n\<close> bytes of a string; \<open>None\<close> where the code's slice would split a character, and
  panic.\<close>

fun byte_prefix :: "nat \<Rightarrow> ustr \<Rightarrow> ustr option" where
  "byte_prefix n [] = (if n = 0 then Some [] else None)"
| "byte_prefix n (c # s) =
     (if n = 0 then Some []
      else if utf8_len c \<le> n then map_option ((#) c) (byte_prefix (n - utf8_len c) s) else None)"

lemma byte_prefix_Some: "byte_prefix n s = Some t \<Longrightarrow> byte_len t = n \<and> (\<exists>r. s = t @ r)"
  by (induction n s arbitrary: t rule: byte_prefix.induct) (auto split: if_splits)

section \<open>Splitting\<close>

text \<open>What is left of a string after scanning is a suffix of it.\<close>

lemma scan_suffix:
  "suffix s t \<Longrightarrow> suffix (dropWhile P s) t"
  "suffix s t \<Longrightarrow> suffix (drop k s) t"
  "suffix s t \<Longrightarrow> suffix (tl s) t"
  by (auto intro: suffix_order.trans suffix_dropWhile suffix_drop suffix_tl)

lemma suffix_byte_len: "suffix s t \<Longrightarrow> byte_len s \<le> byte_len t"
  by (auto simp: suffix_def)

lemma take_byte_len: "byte_len (take n s) \<le> byte_len s"
  by (metis append_take_drop_id byte_len_simps(3) le_add1)

definition trim_start :: "ustr \<Rightarrow> ustr" where
  "trim_start s = dropWhile is_whitespace s"

definition trim_end :: "ustr \<Rightarrow> ustr" where
  "trim_end s = rev (dropWhile is_whitespace (rev s))"

definition trim :: "ustr \<Rightarrow> ustr" where
  "trim s = trim_end (trim_start s)"

lemma dropWhile_word_shrinks:
  assumes "dropWhile P s \<noteq> []"
  shows "length (dropWhile (\<lambda>c. \<not> P c) (dropWhile P s)) < length s"
proof -
  from assms obtain c t where ct: "dropWhile P s = c # t" by (cases "dropWhile P s") auto
  then have "\<not> P c" using hd_dropWhile [OF assms] by simp
  then have "length (dropWhile (\<lambda>c. \<not> P c) (dropWhile P s)) \<le> length t"
    by (simp add: ct length_dropWhile_le)
  also have "\<dots> < length (dropWhile P s)" by (simp add: ct)
  also have "\<dots> \<le> length s" by (rule length_dropWhile_le)
  finally show ?thesis .
qed

text \<open>The maximal pieces of a string without separators: \<^verbatim>\<open>str::split_whitespace\<close>,
  \<^verbatim>\<open>str::split_ascii_whitespace\<close>.\<close>

function words_by :: "(uchar \<Rightarrow> bool) \<Rightarrow> ustr \<Rightarrow> ustr list" where
  "words_by P s =
     (if dropWhile P s = [] then []
      else takeWhile (\<lambda>c. \<not> P c) (dropWhile P s) # words_by P (dropWhile (\<lambda>c. \<not> P c) (dropWhile P s)))"
  by auto
termination
  by (relation "measure (\<lambda>(_, s). length s)")
    (simp_all only: in_measure wf_measure dropWhile_word_shrinks not_False_eq_True prod.case)

declare words_by.simps [simp del]

definition split_whitespace :: "ustr \<Rightarrow> ustr list" where
  "split_whitespace s = words_by is_whitespace s"

definition is_ascii_whitespace :: "uchar \<Rightarrow> bool" where
  "is_ascii_whitespace c \<longleftrightarrow> c = 9 \<or> c = 10 \<or> c = 12 \<or> c = 13 \<or> c = 32"

definition split_ascii_whitespace :: "ustr \<Rightarrow> ustr list" where
  "split_ascii_whitespace s = words_by is_ascii_whitespace s"

text \<open>\<^verbatim>\<open>str::starts_with\<close>, \<^verbatim>\<open>str::strip_prefix\<close>.\<close>

fun strip_prefix :: "ustr \<Rightarrow> ustr \<Rightarrow> ustr option" where
  "strip_prefix [] s = Some s"
| "strip_prefix (p # ps) [] = None"
| "strip_prefix (p # ps) (c # s) = (if c = p then strip_prefix ps s else None)"

definition starts_with :: "ustr \<Rightarrow> ustr \<Rightarrow> bool" where
  "starts_with p s \<longleftrightarrow> strip_prefix p s \<noteq> None"

lemma strip_prefix_eq_Some: "strip_prefix p s = Some t \<longleftrightarrow> s = p @ t"
  by (induction p s rule: strip_prefix.induct) auto

text \<open>\<^verbatim>\<open>str::ends_with\<close>, \<^verbatim>\<open>str::contains\<close>,
  \<^verbatim>\<open>str::find\<close> of a character as a count of characters.\<close>

definition ends_with :: "ustr \<Rightarrow> ustr \<Rightarrow> bool" where
  "ends_with p s \<longleftrightarrow> suffix p s"

fun contains :: "ustr \<Rightarrow> ustr \<Rightarrow> bool" where
  "contains p [] \<longleftrightarrow> p = []"
| "contains p (c # s) \<longleftrightarrow> starts_with p (c # s) \<or> contains p s"

text \<open>What is left after the first \<open>n\<close> bytes, where that is a character boundary.\<close>

fun byte_drop :: "nat \<Rightarrow> ustr \<Rightarrow> ustr option" where
  "byte_drop n [] = (if n = 0 then Some [] else None)"
| "byte_drop n (c # s) =
     (if n = 0 then Some (c # s) else if utf8_len c \<le> n then byte_drop (n - utf8_len c) s else None)"

text \<open>\<^verbatim>\<open>str::split\<close> at a character.\<close>

fun split_char :: "uchar \<Rightarrow> ustr \<Rightarrow> ustr list" where
  "split_char d [] = [[]]"
| "split_char d (c # s) =
     (if c = d then [] # split_char d s
      else case split_char d s of [] \<Rightarrow> [[c]] | w # ws \<Rightarrow> (c # w) # ws)"

text \<open>\<^verbatim>\<open>str::split_once\<close> at a character.\<close>

definition split_once :: "uchar \<Rightarrow> ustr \<Rightarrow> (ustr \<times> ustr) option" where
  "split_once d s =
     (if d \<in> set s then Some (takeWhile (\<lambda>c. c \<noteq> d) s, tl (dropWhile (\<lambda>c. c \<noteq> d) s)) else None)"

lemma trim_id: "s = [] \<or> \<not> is_whitespace (hd s) \<and> \<not> is_whitespace (last s) \<Longrightarrow> trim s = s"
proof -
  assume a: "s = [] \<or> \<not> is_whitespace (hd s) \<and> \<not> is_whitespace (last s)"
  then have "dropWhile is_whitespace s = s" by (auto simp: dropWhile_eq_self_iff)
  moreover from a have "dropWhile is_whitespace (rev s) = rev s" by (auto simp: dropWhile_eq_self_iff hd_rev)
  ultimately show ?thesis by (simp add: trim_def trim_start_def trim_end_def)
qed


section \<open>Lossy decoding of bytes\<close>

text \<open>\<^verbatim>\<open>String::from_utf8_lossy\<close>: every maximal invalid piece of the bytes becomes one
  replacement character.\<close>

definition continuation :: "nat \<Rightarrow> nat \<Rightarrow> u8 \<Rightarrow> bool" where
  "continuation lo hi b \<longleftrightarrow> lo \<le> unat b \<and> unat b \<le> hi"

definition second_range :: "nat \<Rightarrow> nat \<times> nat" where
  "second_range b =
     (if b = 0xE0 then (0xA0, 0xBF) else if b = 0xED then (0x80, 0x9F)
      else if b = 0xF0 then (0x90, 0xBF) else if b = 0xF4 then (0x80, 0x8F) else (0x80, 0xBF))"

fun from_utf8_lossy :: "bytes \<Rightarrow> ustr" where
  "from_utf8_lossy [] = []"
| "from_utf8_lossy (b # bs) =
     (let n = unat b; (lo, hi) = second_range n in
      if n < 0x80 then n # from_utf8_lossy bs
      else if n < 0xC2 \<or> n > 0xF4 then 0xFFFD # from_utf8_lossy bs
      else (case bs of
        [] \<Rightarrow> [0xFFFD]
      | c # cs \<Rightarrow>
          if \<not> continuation lo hi c then 0xFFFD # from_utf8_lossy bs
          else if n < 0xE0 then ((n - 0xC0) * 64 + (unat c - 0x80)) # from_utf8_lossy cs
          else (case cs of
            [] \<Rightarrow> [0xFFFD]
          | d # ds \<Rightarrow>
              if \<not> continuation 0x80 0xBF d then 0xFFFD # from_utf8_lossy cs
              else if n < 0xF0
              then ((n - 0xE0) * 4096 + (unat c - 0x80) * 64 + (unat d - 0x80)) # from_utf8_lossy ds
              else (case ds of
                [] \<Rightarrow> [0xFFFD]
              | e # es \<Rightarrow>
                  if \<not> continuation 0x80 0xBF e then 0xFFFD # from_utf8_lossy ds
                  else ((n - 0xF0) * 262144 + (unat c - 0x80) * 4096 + (unat d - 0x80) * 64 + (unat e - 0x80))
                         # from_utf8_lossy es))))"

end
