(* ===== verification/Html_Parser.thy ===== *)
theory Html_Parser
  imports Unicode_Text
begin

text \<open>
  The element tree and the HTML parser of \<^verbatim>\<open>src/src/parser.rs\<close>. The parser walks a vector of
  characters by index; here it holds the characters that are left. Its stack of open elements is a list
  with the innermost element first. \<^verbatim>\<open>str::to_lowercase\<close>, which needs Unicode's tables, is the
  argument \<open>lower\<close>.
\<close>

section \<open>Limits\<close>

definition MAX_DOM_DEPTH :: nat where "MAX_DOM_DEPTH = 64"
definition MAX_HTML_BYTES :: nat where "MAX_HTML_BYTES = 10 * 1024 * 1024"
definition MAX_ATTRS_PER_ELEMENT :: nat where "MAX_ATTRS_PER_ELEMENT = 128"
definition MAX_ATTR_NAME_LEN :: nat where "MAX_ATTR_NAME_LEN = 128"
definition MAX_ATTR_VALUE_LEN :: nat where "MAX_ATTR_VALUE_LEN = 64 * 1024"
definition MAX_RAW_TEXT_LEN :: nat where "MAX_RAW_TEXT_LEN = 2 * 1024 * 1024"

section \<open>Elements\<close>

text \<open>The attributes are a \<^verbatim>\<open>HashMap\<close>; two maps are equal when they hold the same bindings, so the
  model keeps them in the order of their keys. Where the order of iteration shows, it is an argument.\<close>

datatype element = Element
  (node_id: "nat option")
  (tag: ustr)
  (attrs: "(ustr, ustr) btree")
  (children: "element list")
  (elem_text: ustr)
  (is_void: bool)

definition new_element :: "ustr \<Rightarrow> element" where
  "new_element t = Element None t [] [] [] False"

definition add_attr :: "ustr \<Rightarrow> ustr \<Rightarrow> element \<Rightarrow> element" where
  "add_attr k v e = Element (node_id e) (tag e) (bt_insert k v (attrs e)) (children e) (elem_text e) (is_void e)"

definition get_attr :: "ustr \<Rightarrow> element \<Rightarrow> ustr option" where
  "get_attr k e = bt_get k (attrs e)"

definition add_child :: "element \<Rightarrow> element \<Rightarrow> element" where
  "add_child child e = Element (node_id e) (tag e) (attrs e) (children e @ [child]) (elem_text e) (is_void e)"

definition with_text :: "ustr \<Rightarrow> element \<Rightarrow> element" where
  "with_text t e = Element (node_id e) (tag e) (attrs e) (children e) t (is_void e)"

definition with_void :: "bool \<Rightarrow> element \<Rightarrow> element" where
  "with_void b e = Element (node_id e) (tag e) (attrs e) (children e) (elem_text e) b"

section \<open>Character references\<close>

abbreviation (input) AMP :: uchar where "AMP \<equiv> 38"
abbreviation (input) QUOT :: uchar where "QUOT \<equiv> 34"
abbreviation (input) APOS :: uchar where "APOS \<equiv> 39"
abbreviation (input) SLASH :: uchar where "SLASH \<equiv> 47"
abbreviation (input) SEMI :: uchar where "SEMI \<equiv> 59"
abbreviation (input) LT :: uchar where "LT \<equiv> 60"
abbreviation (input) EQ :: uchar where "EQ \<equiv> 61"
abbreviation (input) GT :: uchar where "GT \<equiv> 62"
abbreviation (input) DASH :: uchar where "DASH \<equiv> 45"

text \<open>\<^verbatim>\<open>s.replace(c, t)\<close> for a single character.\<close>

definition replace_char :: "uchar \<Rightarrow> ustr \<Rightarrow> ustr \<Rightarrow> ustr" where
  "replace_char c t s = concat (map (\<lambda>x. if x = c then t else [x]) s)"

definition escape_html :: "ustr \<Rightarrow> ustr" where
  "escape_html s = replace_char QUOT (lit ''&quot;'') (replace_char GT (lit ''&gt;'')
     (replace_char LT (lit ''&lt;'') (replace_char AMP (lit ''&amp;'') s)))"

text \<open>\<^verbatim>\<open>u32::from_str_radix\<close> for radix 16 and 10: an optional plus sign, at least one digit, no
  overflow.\<close>

definition digit_value :: "nat \<Rightarrow> uchar \<Rightarrow> nat option" where
  "digit_value radix c =
     (let d = (if is_ascii_digit c then Some (c - 48)
               else if is_ascii_lower c then Some (c - 87)
               else if is_ascii_upper c then Some (c - 55) else None)
      in case d of None \<Rightarrow> None | Some v \<Rightarrow> if v < radix then Some v else None)"

fun digits_value :: "nat \<Rightarrow> nat \<Rightarrow> ustr \<Rightarrow> nat option" where
  "digits_value radix acc [] = Some acc"
| "digits_value radix acc (c # s) =
     (case digit_value radix c of
        None \<Rightarrow> None
      | Some v \<Rightarrow> if acc * radix + v < 4294967296 then digits_value radix (acc * radix + v) s else None)"

definition parse_u32 :: "nat \<Rightarrow> ustr \<Rightarrow> nat option" where
  "parse_u32 radix s =
     (let digits = (case s of c # r \<Rightarrow> if c = 43 then r else s | [] \<Rightarrow> [])
      in if digits = [] then None else digits_value radix 0 digits)"

text \<open>\<^verbatim>\<open>char::from_u32\<close>.\<close>

definition char_from_u32 :: "nat \<Rightarrow> uchar option" where
  "char_from_u32 n = (if n < 55296 \<or> 57344 \<le> n \<and> n < 1114112 then Some n else None)"

definition unknown_entity :: "ustr \<Rightarrow> ustr" where
  "unknown_entity entity = AMP # entity @ [SEMI]"

definition numeric_entity :: "ustr \<Rightarrow> ustr" where
  "numeric_entity entity =
     (case strip_prefix (lit ''#x'') entity of
        Some hex \<Rightarrow>
          (case parse_u32 16 hex of
             None \<Rightarrow> unknown_entity entity
           | Some n \<Rightarrow>
               (case char_from_u32 (if n = 0 then 65533 else n) of
                  None \<Rightarrow> unknown_entity entity
                | Some c \<Rightarrow> [c]))
      | None \<Rightarrow>
          (case strip_prefix (lit ''#'') entity of
             None \<Rightarrow> unknown_entity entity
           | Some dec \<Rightarrow>
               (case parse_u32 10 dec of
                  None \<Rightarrow> unknown_entity entity
                | Some n \<Rightarrow> (case char_from_u32 n of None \<Rightarrow> unknown_entity entity | Some c \<Rightarrow> [c]))))"

definition decode_entity :: "ustr \<Rightarrow> ustr" where
  "decode_entity entity =
     (if entity = lit ''amp'' then [AMP] else if entity = lit ''lt'' then [LT]
      else if entity = lit ''gt'' then [GT] else if entity = lit ''quot'' then [QUOT]
      else if entity = lit ''apos'' then [APOS] else if entity = lit ''nbsp'' then [32]
      else if entity = lit ''copy'' then [169] else if entity = lit ''reg'' then [174]
      else if entity = lit ''trade'' then [8482] else numeric_entity entity)"

text \<open>The name before a semicolon within the next 32 characters.\<close>

definition entity_name :: "ustr \<Rightarrow> ustr option" where
  "entity_name s =
     (let window = take 32 s; name = takeWhile (\<lambda>c. c \<noteq> SEMI) window
      in if length name < length window then Some name else None)"

function decode_html_entities :: "ustr \<Rightarrow> ustr" where
  "decode_html_entities [] = []"
| "decode_html_entities (c # s) =
     (if c = AMP then
        (case entity_name s of
           Some name \<Rightarrow>
             if length name + 1 > 2 then decode_entity name @ decode_html_entities (drop (length name + 1) s)
             else AMP # decode_html_entities s
         | None \<Rightarrow> AMP # decode_html_entities s)
      else c # decode_html_entities s)"
  by pat_completeness auto
termination
  by (relation "measure length") (simp_all add: less_Suc_eq_le)

section \<open>Tags\<close>

definition tag_in :: "string list \<Rightarrow> ustr \<Rightarrow> bool" where
  "tag_in names t \<longleftrightarrow> t \<in> lit ` set names"

definition is_void_tag :: "ustr \<Rightarrow> bool" where
  "is_void_tag t \<longleftrightarrow> tag_in [''area'', ''base'', ''br'', ''col'', ''embed'', ''hr'', ''img'', ''input'',
     ''link'', ''meta'', ''param'', ''source'', ''track'', ''wbr''] t"

definition is_raw_text_tag :: "ustr \<Rightarrow> bool" where
  "is_raw_text_tag t \<longleftrightarrow> tag_in [''script'', ''style''] t"

definition should_auto_close_parent :: "ustr \<Rightarrow> ustr \<Rightarrow> bool" where
  "should_auto_close_parent parent child \<longleftrightarrow>
     tag_in [''p''] parent \<and> tag_in [''p'', ''h1'', ''h2'', ''h3'', ''h4'', ''h5'', ''h6'', ''div'', ''ul'', ''ol'',
       ''dl'', ''table'', ''form'', ''section'', ''article'', ''header'', ''footer'', ''nav'', ''main'', ''aside''] child
   \<or> tag_in [''a'', ''span'', ''em'', ''strong'', ''b'', ''i'', ''u'', ''code''] parent \<and> tag_in [''p''] child
   \<or> tag_in [''li''] parent \<and> tag_in [''li''] child
   \<or> tag_in [''dt'', ''dd''] parent \<and> tag_in [''dt'', ''dd''] child
   \<or> tag_in [''option''] parent \<and> tag_in [''option''] child
   \<or> tag_in [''tr''] parent \<and> tag_in [''tr''] child
   \<or> tag_in [''th'', ''td''] parent \<and> tag_in [''th'', ''td'', ''tr''] child
   \<or> tag_in [''thead'', ''tbody'', ''tfoot''] parent \<and> tag_in [''thead'', ''tbody'', ''tfoot''] child"

section \<open>The stack of open elements\<close>

text \<open>\<^verbatim>\<open>if let Some(parent) = stack.last_mut()\<close> with what follows.\<close>

fun on_top :: "(element \<Rightarrow> element) \<Rightarrow> element list \<Rightarrow> element list" where
  "on_top f [] = []"
| "on_top f (e # st) = f e # st"

text \<open>Pop the innermost element and hand it to its parent.\<close>

fun pop_into_parent :: "element list \<Rightarrow> element list" where
  "pop_into_parent [] = []"
| "pop_into_parent (e # st) = on_top (add_child e) st"

text \<open>The loop over \<^verbatim>\<open>(1..stack.len()).rev()\<close>: the number of elements to pop, never the root.\<close>

fun close_count :: "ustr \<Rightarrow> element list \<Rightarrow> nat option" where
  "close_count t [] = None"
| "close_count t [root] = None"
| "close_count t (e # p # st) = (if tag e = t then Some 1 else map_option Suc (close_count t (p # st)))"

definition close_element :: "ustr \<Rightarrow> element list \<Rightarrow> element list" where
  "close_element t st = (case close_count t st of None \<Rightarrow> st | Some n \<Rightarrow> (pop_into_parent ^^ n) st)"

fun auto_close :: "ustr \<Rightarrow> element list \<Rightarrow> element list" where
  "auto_close t (e # p # st) =
     (if should_auto_close_parent (tag e) t then auto_close t (add_child e p # st) else e # p # st)"
| "auto_close t st = st"

definition push_text :: "ustr \<Rightarrow> element \<Rightarrow> element" where
  "push_text t e = with_text (if elem_text e = [] then t else elem_text e @ [32] @ t) e"

section \<open>Scanning\<close>

text \<open>Past the next \<^verbatim>\<open>>\<close>.\<close>

definition skip_tag :: "ustr \<Rightarrow> ustr" where
  "skip_tag s = drop 1 (dropWhile (\<lambda>c. c \<noteq> GT) s)"

text \<open>\<^verbatim>\<open>chars_match_ci_at\<close>, at the front of what is left.\<close>

definition chars_match_ci :: "ustr \<Rightarrow> ustr \<Rightarrow> bool" where
  "chars_match_ci s p \<longleftrightarrow> length p \<le> length s \<and> eq_ignore_ascii_case (take (length p) s) p"

fun after_comment :: "ustr \<Rightarrow> ustr" where
  "after_comment (a # b # c # s) = (if a = DASH \<and> b = DASH \<and> c = GT then s else after_comment (b # c # s))"
| "after_comment s = []"

text \<open>Markup that opens with an exclamation or a question mark; \<open>s\<close> starts at the bracket.\<close>

definition skip_declaration :: "ustr \<Rightarrow> ustr" where
  "skip_declaration s =
     (if chars_match_ci s (lit ''<!--'') then
        (let r = drop 4 s in if r \<noteq> [] \<and> hd r = GT then tl r else after_comment r)
      else skip_tag s)"

definition closing_name :: "(ustr \<Rightarrow> ustr) \<Rightarrow> ustr \<Rightarrow> ustr" where
  "closing_name lower s =
     lower (trim (case split_whitespace (takeWhile (\<lambda>c. c \<noteq> GT) s) of [] \<Rightarrow> [] | w # _ \<Rightarrow> w))"

definition at_tag_end :: "ustr \<Rightarrow> bool" where
  "at_tag_end s \<longleftrightarrow> s = [] \<or> hd s = GT \<or> hd s = SLASH"

definition attr_name_char :: "uchar \<Rightarrow> bool" where
  "attr_name_char c \<longleftrightarrow> c \<noteq> EQ \<and> c \<noteq> GT \<and> c \<noteq> SLASH \<and> c \<noteq> LT \<and> \<not> is_whitespace c"

definition tag_name_char :: "uchar \<Rightarrow> bool" where
  "tag_name_char c \<longleftrightarrow> c \<noteq> GT \<and> c \<noteq> SLASH \<and> \<not> is_whitespace c \<and> c \<noteq> LT"

definition is_quote :: "uchar \<Rightarrow> bool" where
  "is_quote c \<longleftrightarrow> c = QUOT \<or> c = APOS"

text \<open>Past the value of an attribute whose name is too long.\<close>

function skip_oversized :: "ustr \<Rightarrow> ustr" where
  "skip_oversized [] = []"
| "skip_oversized (c # s) =
     (if c = GT \<or> c = SLASH then c # s
      else if is_quote c then skip_oversized (drop 1 (dropWhile (\<lambda>x. x \<noteq> c) s))
      else if is_whitespace c then c # s
      else skip_oversized s)"
  by pat_completeness auto

termination
  by (relation "measure length") (simp_all add: less_Suc_eq_le suffix_length_le [OF scan_suffix(2) [OF suffix_dropWhile], simplified])

text \<open>The value after the equals sign, and what follows it.\<close>

definition attr_value :: "ustr \<Rightarrow> ustr \<times> ustr" where
  "attr_value s =
     (let s1 = dropWhile is_whitespace s in
      case s1 of
        [] \<Rightarrow> ([], [])
      | c # s2 \<Rightarrow>
          if is_quote c then
            (let v = take MAX_ATTR_VALUE_LEN (takeWhile (\<lambda>x. x \<noteq> c) s2);
                 s3 = dropWhile (\<lambda>x. x \<noteq> c \<and> x \<noteq> GT) (drop (length v) s2)
             in (v, if s3 \<noteq> [] \<and> hd s3 = c then tl s3 else s3))
          else if c \<noteq> GT then
            (let v = take MAX_ATTR_VALUE_LEN (takeWhile (\<lambda>x. \<not> is_whitespace x \<and> x \<noteq> GT) s1)
             in (v, drop (length v) s1))
          else ([], s1))"

text \<open>The value after a name, if there is one, decoded.\<close>

definition optional_value :: "ustr \<Rightarrow> ustr \<times> ustr" where
  "optional_value s =
     (let s1 = dropWhile is_whitespace s in
      if s1 \<noteq> [] \<and> hd s1 = EQ
      then (case attr_value (tl s1) of (v, s2) \<Rightarrow> (decode_html_entities v, s2))
      else ([], s1))"

definition insert_attr :: "ustr \<Rightarrow> ustr \<Rightarrow> (ustr, ustr) btree \<Rightarrow> (ustr, ustr) btree" where
  "insert_attr k v m =
     (if k = [] \<or> length m \<ge> MAX_ATTRS_PER_ELEMENT then m else bt_insert k v m)"

lemma attr_value_suffix: "suffix (snd (attr_value s)) s"
proof (cases "dropWhile is_whitespace s")
  case (Cons c s2)
  have s1: "suffix (c # s2) s" unfolding Cons [symmetric] by (rule suffix_dropWhile)
  then have s2: "suffix s2 s" by (metis scan_suffix(3) list.sel(3))
  show ?thesis
  proof (cases "is_quote c")
    case True
    let ?s3 = "dropWhile (\<lambda>x. x \<noteq> c \<and> x \<noteq> GT)
      (drop (length (take MAX_ATTR_VALUE_LEN (takeWhile (\<lambda>x. x \<noteq> c) s2))) s2)"
    from True have "snd (attr_value s) = ?s3 \<or> snd (attr_value s) = tl ?s3"
      by (simp add: attr_value_def Let_def Cons)
    moreover have "suffix ?s3 s" "suffix (tl ?s3) s" by (intro scan_suffix s2)+
    ultimately show ?thesis by (elim disjE) (simp_all only:)
  next
    case False
    then obtain n where "snd (attr_value s) = drop n (c # s2)"
      by (cases "c = GT") (auto simp: attr_value_def Let_def Cons intro: that [of 0])
    with scan_suffix(2) [OF s1] show ?thesis by simp
  qed
qed (simp only: attr_value_def Let_def list.case snd_conv suffix_bot.extremum)

lemma optional_value_suffix: "suffix (snd (optional_value s)) s"
proof -
  let ?s1 = "dropWhile is_whitespace s"
  have s1: "suffix ?s1 s" "suffix (tl ?s1) s" by (intro scan_suffix suffix_order.refl)+
  have "snd (optional_value s) = snd (attr_value (tl ?s1)) \<or> snd (optional_value s) = ?s1"
    by (simp add: optional_value_def Let_def split: prod.split)
  with s1 suffix_order.trans [OF attr_value_suffix s1(2)] show ?thesis by metis
qed

lemma skip_oversized_suffix: "suffix (skip_oversized s) s"
proof (induction s rule: skip_oversized.induct)
  case (2 c s)
  have "suffix (drop 1 (dropWhile (\<lambda>x. x \<noteq> c) s)) s" by (intro scan_suffix suffix_order.refl)
  with 2 show ?case by (auto intro: suffix_order.trans suffix_ConsI)
qed simp

text \<open>One attribute; \<open>None\<close> ends the list.\<close>

definition next_attr ::
  "(ustr \<Rightarrow> ustr) \<Rightarrow> (ustr, ustr) btree \<Rightarrow> ustr \<Rightarrow> ustr \<times> (ustr, ustr) btree option" where
  "next_attr lower m s =
     (let s1 = dropWhile is_whitespace s in
      if at_tag_end s1 then (s1, None)
      else let raw = takeWhile attr_name_char s1; s2 = dropWhile attr_name_char s1 in
        if s2 \<noteq> [] \<and> hd s2 = LT then (s2, None)
        else let key = lower raw in
          if byte_len key > MAX_ATTR_NAME_LEN then (skip_oversized s2, Some m)
          else (case optional_value s2 of (v, s3) \<Rightarrow> (s3, Some (insert_attr key v m))))"

lemma next_attr_shrinks:
  assumes "next_attr lower m s = (s', Some m')"
  shows "length s' < length s"
proof -
  let ?s1 = "dropWhile is_whitespace s" and ?s2 = "dropWhile attr_name_char (dropWhile is_whitespace s)"
  from assms have s1: "\<not> at_tag_end ?s1" and s2: "\<not> (?s2 \<noteq> [] \<and> hd ?s2 = LT)"
    and s': "s' = skip_oversized ?s2 \<or> s' = snd (optional_value ?s2)"
    by (auto simp: next_attr_def Let_def split: if_splits prod.splits)
  from s1 obtain c t where ct: "?s1 = c # t" and c: "c \<noteq> GT" "c \<noteq> SLASH"
    by (cases ?s1) (auto simp: at_tag_end_def)
  have nw: "\<not> is_whitespace c" using ct by (metis hd_dropWhile list.sel(1) list.distinct(1))
  have len: "length ?s1 \<le> length s" by (rule length_dropWhile_le)
  show ?thesis
  proof (cases "attr_name_char c")
    case True
    then have "?s2 = dropWhile attr_name_char t" by (simp add: ct)
    then have "length ?s2 < length ?s1" by (simp add: ct le_imp_less_Suc length_dropWhile_le)
    moreover have "length s' \<le> length ?s2"
      using s' suffix_length_le [OF skip_oversized_suffix [of ?s2]] suffix_length_le [OF optional_value_suffix [of ?s2]]
      by auto
    ultimately show ?thesis using len by simp
  next
    case False
    then have e: "?s2 = c # t" by (simp add: ct)
    with s2 False c nw have "c = EQ" by (auto simp: attr_name_char_def)
    then have "\<not> is_quote c" by (simp add: is_quote_def)
    with \<open>c = EQ\<close> nw have "skip_oversized (c # t) = skip_oversized t" by simp
    moreover have "snd (optional_value (c # t)) = snd (attr_value t)"
      using \<open>c = EQ\<close> nw by (simp add: optional_value_def split: prod.split)
    ultimately have "length s' \<le> length t"
      using s' e suffix_length_le [OF skip_oversized_suffix [of t]] suffix_length_le [OF attr_value_suffix [of t]] by auto
    with len ct show ?thesis by simp
  qed
qed

function parse_attrs :: "(ustr \<Rightarrow> ustr) \<Rightarrow> (ustr, ustr) btree \<Rightarrow> ustr \<Rightarrow> (ustr, ustr) btree \<times> ustr" where
  "parse_attrs lower m s =
     (if at_tag_end s then (m, s)
      else case next_attr lower m s of
        (s', None) \<Rightarrow> (m, s')
      | (s', Some m') \<Rightarrow> parse_attrs lower m' s')"
  by auto
termination
  by (relation "measure (\<lambda>(_, _, s). length s)") (auto simp: next_attr_shrinks [OF sym])

declare parse_attrs.simps [simp del]

lemma next_attr_suffix: "suffix (fst (next_attr lower m s)) s"
proof -
  let ?s1 = "dropWhile is_whitespace s" and ?s2 = "dropWhile attr_name_char (dropWhile is_whitespace s)"
  have s12: "suffix ?s1 s" "suffix ?s2 s" by (intro scan_suffix suffix_order.refl)+
  have "fst (next_attr lower m s) \<in> {?s1, ?s2, skip_oversized ?s2, snd (optional_value ?s2)}"
    by (simp add: next_attr_def Let_def split: prod.split)
  with s12 suffix_order.trans [OF skip_oversized_suffix s12(2)] suffix_order.trans [OF optional_value_suffix s12(2)]
  show ?thesis by (elim insertE) simp_all
qed

lemma parse_attrs_suffix: "suffix (snd (parse_attrs lower m s)) s"
proof (induction lower m s rule: parse_attrs.induct)
  case (1 lower m s)
  obtain s' r where n: "next_attr lower m s = (s', r)" by (cases "next_attr lower m s")
  with next_attr_suffix [of lower m s] have s': "suffix s' s" by simp
  show ?case
  proof (cases "at_tag_end s \<or> r = None")
    case True
    with n s' show ?thesis by (subst parse_attrs.simps) auto
  next
    case False
    then obtain m' where r: "r = Some m'" by auto
    with 1 [OF _ n [symmetric] r] False have "suffix (snd (parse_attrs lower m' s')) s'" by simp
    with s' False n r show ?thesis by (subst parse_attrs.simps) (auto intro: suffix_order.trans)
  qed
qed

section \<open>Opening tags\<close>

text \<open>The self-closing marker: a slash that only white space separates from the bracket.\<close>

definition self_closing :: "ustr \<Rightarrow> bool \<times> ustr" where
  "self_closing s =
     (let r = dropWhile is_whitespace (drop 1 s) in
      if s \<noteq> [] \<and> hd s = SLASH \<and> r \<noteq> [] \<and> hd r = GT then (True, r) else (False, s))"

text \<open>Past the end of the tag, unless the next tag opens inside it.\<close>

definition leave_tag :: "ustr \<Rightarrow> ustr" where
  "leave_tag s = (if s \<noteq> [] \<and> hd s = LT then s else skip_tag s)"

text \<open>The position of the end tag of a raw text element.\<close>

fun find_ci :: "ustr \<Rightarrow> ustr \<Rightarrow> nat option" where
  "find_ci p [] = (if p = [] then Some 0 else None)"
| "find_ci p (c # s) = (if chars_match_ci (c # s) p then Some 0 else map_option Suc (find_ci p s))"

definition raw_text :: "ustr \<Rightarrow> ustr \<Rightarrow> error + ustr \<times> ustr" where
  "raw_text t s =
     (let close = lit ''</'' @ t @ lit ''>'' in
      case find_ci close s of
        Some n \<Rightarrow>
          (if byte_len (take n s) > MAX_RAW_TEXT_LEN
           then ebind (ok_or (Panic ''truncate: not a character boundary'') (byte_prefix MAX_RAW_TEXT_LEN (take n s)))
             (\<lambda>raw. Inr (raw, drop (n + length close) s))
           else Inr (take n s, drop (n + length close) s))
      | None \<Rightarrow> Inr (take MAX_RAW_TEXT_LEN s, []))"

text \<open>What a complete opening tag does to the stack; \<open>s\<close> is what follows the tag.\<close>

definition open_element :: "element \<Rightarrow> bool \<Rightarrow> ustr \<Rightarrow> element list \<Rightarrow> error + ustr \<times> element list" where
  "open_element e closing s st0 =
     (let st = (if is_void e then st0 else auto_close (tag e) st0) in
      if is_void_tag (tag e) \<or> closing then Inr (s, on_top (add_child e) st)
      else if is_raw_text_tag (tag e) then
        ebind (raw_text (tag e) s) (\<lambda>(raw, s'). Inr (s', on_top (add_child (with_text raw e)) st))
      else if length st + 1 > MAX_DOM_DEPTH then Inr (s, on_top (add_child e) st)
      else Inr (s, e # st))"

text \<open>\<open>s\<close> starts after the bracket.\<close>

definition opening_tag :: "(ustr \<Rightarrow> ustr) \<Rightarrow> ustr \<Rightarrow> element list \<Rightarrow> error + ustr \<times> element list" where
  "opening_tag lower s st =
     (let s1 = dropWhile is_whitespace s;
          name = lower (trim (takeWhile tag_name_char s1));
          s2 = dropWhile tag_name_char s1
      in if name = [] then Inr (skip_tag s2, st)
         else let (m, s3) = parse_attrs lower [] s2;
                  (closing, s4) = self_closing s3;
                  e = Element None name m [] [] (is_void_tag name \<or> closing)
              in open_element e closing (leave_tag s4) st)"

section \<open>The parser\<close>

definition text_node :: "ustr \<Rightarrow> element list \<Rightarrow> element list" where
  "text_node raw st =
     (let t = trim (decode_html_entities raw) in if t = [] then st else on_top (push_text t) st)"

definition literal_lt :: "element \<Rightarrow> element" where
  "literal_lt e = with_text (if elem_text e = [] then [LT] else elem_text e @ [32, LT]) e"

text \<open>One turn of the main loop.\<close>

definition parse_step :: "(ustr \<Rightarrow> ustr) \<Rightarrow> ustr \<Rightarrow> element list \<Rightarrow> error + ustr \<times> element list" where
  "parse_step lower s st =
     (case s of
        [] \<Rightarrow> Inr ([], st)
      | c # r \<Rightarrow>
          if c = LT then
            (case r of
               [] \<Rightarrow> Inr ([], on_top literal_lt st)
             | d # r' \<Rightarrow>
                 if d = SLASH then Inr (skip_tag r', close_element (closing_name lower r') st)
                 else if d = 33 \<or> d = 63 then Inr (skip_declaration s, st)
                 else if \<not> is_ascii_alphabetic d then Inr (r, on_top literal_lt st)
                 else opening_tag lower r st)
          else Inr (dropWhile (\<lambda>x. x \<noteq> LT) s, text_node (takeWhile (\<lambda>x. x \<noteq> LT) s) st))"

lemma skip_tag_suffix: "suffix (skip_tag s) s"
  unfolding skip_tag_def by (intro scan_suffix suffix_order.refl)

lemma self_closing_suffix: "suffix (snd (self_closing s)) s"
proof -
  have "suffix (dropWhile is_whitespace (drop 1 s)) s" by (intro scan_suffix suffix_order.refl)
  then show ?thesis by (auto simp: self_closing_def Let_def)
qed

lemma leave_tag_suffix: "suffix (leave_tag s) s"
  by (simp add: leave_tag_def skip_tag_suffix)

lemma after_comment_suffix: "suffix (after_comment s) s"
  by (induction s rule: after_comment.induct) (auto intro: suffix_ConsI)

lemma raw_text_suffix:
  assumes "raw_text t s = Inr (raw, s')"
  shows "suffix s' s"
  using assms by (auto simp: raw_text_def Let_def result_simps suffix_drop split: option.splits if_splits)

lemma open_element_suffix:
  assumes "open_element e closing s st = Inr (s', st')"
  shows "suffix s' s"
  using assms by (auto simp: open_element_def Let_def result_simps dest: raw_text_suffix split: if_splits prod.splits)

lemma opening_tag_suffix:
  assumes "opening_tag lower s st = Inr (s', st')"
  shows "suffix s' s"
proof -
  let ?s2 = "dropWhile tag_name_char (dropWhile is_whitespace s)"
  have s2: "suffix ?s2 s" by (intro scan_suffix suffix_order.refl)
  obtain m s3 where p: "parse_attrs lower [] ?s2 = (m, s3)" by (cases "parse_attrs lower [] ?s2")
  obtain closing s4 where c: "self_closing s3 = (closing, s4)" by (cases "self_closing s3")
  have "suffix s4 s3" using self_closing_suffix [of s3] by (simp add: c)
  moreover have "suffix s3 ?s2" using parse_attrs_suffix [of lower "[]" ?s2] by (simp add: p)
  ultimately have s4: "suffix (leave_tag s4) s"
    using leave_tag_suffix [of s4] s2 by (blast intro: suffix_order.trans)
  from assms p c have "s' = skip_tag ?s2 \<or> (\<exists>e. open_element e closing (leave_tag s4) st = Inr (s', st'))"
    by (auto simp: opening_tag_def Let_def split: if_splits)
  then show ?thesis
    using s4 suffix_order.trans [OF skip_tag_suffix s2] by (auto dest!: open_element_suffix intro: suffix_order.trans)
qed

text \<open>A turn consumes at least its first character.\<close>

lemma parse_step_suffix:
  assumes "parse_step lower (c # r) st = Inr (s', st')"
  shows "suffix s' r"
proof (cases "c = LT")
  case False
  then have "s' = dropWhile (\<lambda>x. x \<noteq> LT) r" using assms by (simp add: parse_step_def)
  then show ?thesis by (simp add: suffix_dropWhile)
next
  case True
  show ?thesis
  proof (cases r)
    case Nil
    with True assms show ?thesis by (simp add: parse_step_def)
  next
    case (Cons d r')
    have tag: "suffix (skip_tag r') r" using skip_tag_suffix [of r'] by (simp add: Cons suffix_ConsI)
    have "skip_tag (c # r) = skip_tag r" by (simp add: skip_tag_def True)
    then have decl: "suffix (skip_declaration (c # r)) r"
      using skip_tag_suffix [of r] scan_suffix(2) [OF suffix_order.refl, of 3 r]
        scan_suffix(3) [OF scan_suffix(2) [OF suffix_order.refl, of 3 r]]
        suffix_order.trans [OF after_comment_suffix scan_suffix(2) [OF suffix_order.refl, of 3 r]]
      by (simp add: skip_declaration_def Let_def)
    from assms True Cons tag decl show ?thesis
      by (auto simp: parse_step_def dest: opening_tag_suffix split: if_splits)
  qed
qed

lemma parse_step_shrinks:
  assumes "parse_step lower s st = Inr (s', st')" and "s \<noteq> []"
  shows "length s' < length s"
  using assms by (cases s) (auto dest!: parse_step_suffix suffix_length_le)

function parse_loop :: "(ustr \<Rightarrow> ustr) \<Rightarrow> ustr \<Rightarrow> element list \<Rightarrow> error + element list" where
  "parse_loop lower s st =
     (if s = [] then Inr st
      else ebind (parse_step lower s st) (\<lambda>(s', st'). parse_loop lower s' st'))"
  by auto
termination
  by (relation "measure (\<lambda>(_, s, _). length s)") (auto simp: parse_step_shrinks)

declare parse_loop.simps [simp del]

text \<open>Closing what is still open, and the final clean-up.\<close>

fun close_all :: "element list \<Rightarrow> element list" where
  "close_all (e # p # st) = close_all (add_child e p # st)"
| "close_all st = st"

definition finish_document :: "element list \<Rightarrow> element" where
  "finish_document st =
     (let root = (case close_all st of [] \<Rightarrow> new_element (lit ''html'') | e # _ \<Rightarrow> e) in
      case children root of
        [only] \<Rightarrow> if elem_text root = [] then only
          else Element (node_id root) (lit ''html'') (attrs root) (children root) (elem_text root) (is_void root)
      | _ \<Rightarrow> Element (node_id root) (lit ''html'') (attrs root) (children root) (elem_text root) (is_void root))"

definition parse_html :: "(ustr \<Rightarrow> ustr) \<Rightarrow> ustr \<Rightarrow> error + element" where
  "parse_html lower html =
     ebind (if byte_len html > MAX_HTML_BYTES
            then ok_or (Panic ''byte index is not a char boundary'') (byte_prefix MAX_HTML_BYTES html)
            else Inr html)
       (\<lambda>bounded. let s = trim bounded in
          if s = [] then Inr (new_element (lit ''body''))
          else ebind (parse_loop lower s [new_element (lit ''root'')]) (\<lambda>st. Inr (finish_document st)))"

text \<open>\<^verbatim>\<open>fallback_parser\<close>: the text outside angle brackets.\<close>

fun fallback_scan :: "bool \<Rightarrow> ustr \<Rightarrow> ustr" where
  "fallback_scan in_tag [] = []"
| "fallback_scan in_tag (c # s) =
     (if c = LT then fallback_scan True s
      else if c = GT then fallback_scan False s
      else if in_tag then fallback_scan in_tag s
      else c # fallback_scan in_tag s)"

definition fallback_parser :: "ustr \<Rightarrow> element" where
  "fallback_parser html = with_text (trim (fallback_scan False html)) (new_element (lit ''div''))"

section \<open>Reading the tree\<close>

text \<open>The walks keep a stack of the elements to visit, next one first.\<close>

definition subtree_sizes :: "element list \<Rightarrow> nat" where
  "subtree_sizes st = sum_list (map size st)"

lemma subtree_sizes_children: "subtree_sizes (children e @ st) < subtree_sizes (e # st)"
proof -
  have "sum_list (map size cs) \<le> size_list size cs" for cs :: "element list"
    by (induction cs) simp_all
  then show ?thesis by (cases e) (simp add: subtree_sizes_def le_imp_less_Suc trans_le_add1)
qed

function find_tag_walk :: "ustr \<Rightarrow> element list \<Rightarrow> element option" where
  "find_tag_walk t [] = None"
| "find_tag_walk t (e # st) = (if tag e = t then Some e else find_tag_walk t (children e @ st))"
  by pat_completeness auto
termination
  by (relation "measure (\<lambda>(_, st). subtree_sizes st)") (simp_all add: subtree_sizes_children)

definition find_tag :: "ustr \<Rightarrow> element \<Rightarrow> element option" where
  "find_tag t e = find_tag_walk t [e]"

function preorder_walk :: "element list \<Rightarrow> element list" where
  "preorder_walk [] = []"
| "preorder_walk (e # st) = e # preorder_walk (children e @ st)"
  by pat_completeness auto
termination
  by (relation "measure subtree_sizes") (simp_all add: subtree_sizes_children)

function find_all_walk :: "ustr \<Rightarrow> element list \<Rightarrow> element list \<Rightarrow> element list" where
  "find_all_walk t results [] = results"
| "find_all_walk t results (e # st) =
     find_all_walk t (if tag e = t then results @ [e] else results) (children e @ st)"
  by pat_completeness auto
termination
  by (relation "measure (\<lambda>(_, _, st). subtree_sizes st)") (simp_all add: subtree_sizes_children)

definition find_all_tags :: "ustr \<Rightarrow> element \<Rightarrow> element list" where
  "find_all_tags t e = find_all_walk t [] [e]"

text \<open>One element's text, after a space if neither side has white space already.\<close>

definition join_text :: "ustr \<Rightarrow> ustr \<Rightarrow> ustr" where
  "join_text acc t =
     (if t = [] then acc
      else if acc \<noteq> [] \<and> \<not> is_whitespace (last acc) \<and> \<not> is_whitespace (hd t) then acc @ [32] @ t
      else acc @ t)"

definition text_content :: "element \<Rightarrow> ustr" where
  "text_content e = foldl join_text [] (map elem_text (preorder_walk [e]))"

text \<open>Serialisation; \<open>order\<close> is the order in which the hash map yields the attributes.\<close>

definition attr_html :: "ustr \<times> ustr \<Rightarrow> ustr" where
  "attr_html = (\<lambda>(k, v). [32] @ k @ [EQ, QUOT] @ v @ [QUOT])"

fun to_html :: "((ustr, ustr) btree \<Rightarrow> (ustr \<times> ustr) list) \<Rightarrow> element \<Rightarrow> ustr" where
  "to_html order (Element i t m cs x void) =
     (if t = lit ''root'' then concat (map (to_html order) cs)
      else let a = concat (map attr_html (order m)) in
        if void then [LT] @ t @ a @ lit '' />''
        else [LT] @ t @ a @ [GT] @
          (if x = [] then [] else if is_raw_text_tag t then x else escape_html x) @
          concat (map (to_html order) cs) @ lit ''</'' @ t @ [GT])"

end
