(* ===== verification/Html_Laws.thy ===== *)
theory Html_Laws
  imports Html_Parser
begin

text \<open>
  What the HTML parser promises: character references undo the escaping of the serialiser, the tree it
  builds is bounded in depth and in the attributes of each element, and it returns a tree for every input
  that is not too long.
\<close>

section \<open>Escaping and character references\<close>

lemma replace_char_simps [simp]:
  "replace_char c t [] = []"
  "replace_char c t (x # s) = (if x = c then t else [x]) @ replace_char c t s"
  "replace_char c t (s @ s') = replace_char c t s @ replace_char c t s'"
  by (simp_all add: replace_char_def)

definition escape_char :: "uchar \<Rightarrow> ustr" where
  "escape_char c = (if c = AMP then lit ''&amp;'' else if c = LT then lit ''&lt;''
     else if c = GT then lit ''&gt;'' else if c = QUOT then lit ''&quot;'' else [c])"

lemma escape_html_simps [simp]:
  "escape_html [] = []" "escape_html (c # s) = escape_char c @ escape_html s"
  by (simp_all add: escape_html_def escape_char_def lit_def)

lemma entity_name_append:
  assumes "SEMI \<notin> set name" and "length name < 32"
  shows "entity_name (name @ SEMI # s) = Some name"
proof -
  have "take 32 (name @ SEMI # s) = name @ SEMI # take (31 - length name) s"
    using assms(2) by (simp add: take_Cons')
  moreover have "takeWhile (\<lambda>c. c \<noteq> SEMI) (name @ SEMI # take (31 - length name) s) = name"
    using assms(1) by (subst takeWhile_append2) auto
  ultimately show ?thesis by (simp add: entity_name_def)
qed

lemma decode_entity_append:
  assumes "SEMI \<notin> set name" and "length name < 32" and "1 < length name"
  shows "decode_html_entities (AMP # name @ SEMI # s) = decode_entity name @ decode_html_entities s"
  using assms(3) by (simp add: entity_name_append [OF assms(1,2)])

lemma decode_plain: "c \<noteq> AMP \<Longrightarrow> decode_html_entities (c # s) = c # decode_html_entities s"
  by simp

declare decode_html_entities.simps(2) [simp del]

lemma decode_escape_char: "decode_html_entities (escape_char c @ s) = c # decode_html_entities s"
proof -
  have "decode_html_entities (lit ''&amp;'' @ s) = AMP # decode_html_entities s"
    using decode_entity_append [of "lit ''amp''" s] by (simp add: lit_def decode_entity_def)
  moreover have "decode_html_entities (lit ''&lt;'' @ s) = LT # decode_html_entities s"
    using decode_entity_append [of "lit ''lt''" s] by (simp add: lit_def decode_entity_def)
  moreover have "decode_html_entities (lit ''&gt;'' @ s) = GT # decode_html_entities s"
    using decode_entity_append [of "lit ''gt''" s] by (simp add: lit_def decode_entity_def)
  moreover have "decode_html_entities (lit ''&quot;'' @ s) = QUOT # decode_html_entities s"
    using decode_entity_append [of "lit ''quot''" s] by (simp add: lit_def decode_entity_def)
  ultimately show ?thesis by (simp add: escape_char_def decode_plain)
qed

lemma decode_escape_append: "decode_html_entities (escape_html s @ r) = s @ decode_html_entities r"
  by (induction s) (simp_all add: decode_escape_char)

lemma decode_escape: "decode_html_entities (escape_html s) = s"
  using decode_escape_append [of s "[]"] by simp

lemma length_decode_entity: "length (decode_entity name) \<le> length name + 2"
proof -
  have "length (numeric_entity name) \<le> length name + 2"
    by (auto simp: numeric_entity_def unknown_entity_def split: option.split)
  then show ?thesis by (simp add: decode_entity_def)
qed

lemma entity_name_length: "entity_name s = Some name \<Longrightarrow> length name < length s"
  by (auto simp: entity_name_def Let_def split: if_splits)

lemma length_decode_html_entities: "length (decode_html_entities s) \<le> length s"
proof (induction s rule: decode_html_entities.induct)
  case (2 c s)
  show ?case
  proof (cases "c = AMP \<and> (\<exists>name. entity_name s = Some name \<and> 1 < length name)")
    case True
    then obtain name where name: "c = AMP" "entity_name s = Some name" "1 < length name" by auto
    have "length (decode_html_entities (drop (length name + 1) s)) \<le> length (drop (length name + 1) s)"
      using 2 name by simp
    with name entity_name_length [OF name(2)] length_decode_entity [of name]
    show ?thesis by (simp add: decode_html_entities.simps(2))
  next
    case False
    with 2 show ?thesis by (auto simp: decode_html_entities.simps(2) split: option.split)
  qed
qed simp

text \<open>A hexadecimal reference to NUL is replaced by U+FFFD, a decimal one is not.\<close>

lemma nul_references:
  "decode_html_entities (lit ''&#x0;'') = [65533]" "decode_html_entities (lit ''&#0;'') = [0]"
proof -
  have "decode_html_entities (AMP # lit ''#x0'' @ SEMI # []) = decode_entity (lit ''#x0'') @ decode_html_entities []"
    by (rule decode_entity_append) (simp_all add: lit_def)
  then show "decode_html_entities (lit ''&#x0;'') = [65533]"
    by (simp add: lit_def decode_entity_def numeric_entity_def parse_u32_def digit_value_def is_ascii_digit_def
        char_from_u32_def Let_def)
  have "decode_html_entities (AMP # lit ''#0'' @ SEMI # []) = decode_entity (lit ''#0'') @ decode_html_entities []"
    by (rule decode_entity_append) (simp_all add: lit_def)
  then show "decode_html_entities (lit ''&#0;'') = [0]"
    by (simp add: lit_def decode_entity_def numeric_entity_def parse_u32_def digit_value_def is_ascii_digit_def
        char_from_u32_def Let_def)
qed

section \<open>Bounds of the tree\<close>

fun height :: "element \<Rightarrow> nat" where
  "height (Element i t m cs x v) = Suc (foldr max (map height cs) 0)"

lemma foldr_max_le: "foldr max ns 0 \<le> n \<longleftrightarrow> (\<forall>k\<in>set ns. k \<le> (n :: nat))"
  by (induction ns) auto

lemma height_le: "height e \<le> Suc n \<longleftrightarrow> (\<forall>c\<in>set (children e). height c \<le> n)"
  by (cases e) (simp add: foldr_max_le)

text \<open>A property of an element and of everything below it.\<close>

fun all_elements :: "(element \<Rightarrow> bool) \<Rightarrow> element \<Rightarrow> bool" where
  "all_elements P (Element i t m cs x v) \<longleftrightarrow> P (Element i t m cs x v) \<and> (\<forall>c\<in>set cs. all_elements P c)"

lemma all_elements_iff: "all_elements P e \<longleftrightarrow> P e \<and> (\<forall>c\<in>set (children e). all_elements P c)"
  by (cases e) simp

definition attr_ok :: "ustr \<times> ustr \<Rightarrow> bool" where
  "attr_ok b \<longleftrightarrow> fst b \<noteq> [] \<and> byte_len (fst b) \<le> MAX_ATTR_NAME_LEN \<and> length (snd b) \<le> MAX_ATTR_VALUE_LEN"

definition attrs_ok :: "(ustr, ustr) btree \<Rightarrow> bool" where
  "attrs_ok m \<longleftrightarrow> bt_ok m \<and> length m \<le> MAX_ATTRS_PER_ELEMENT \<and>
     (\<forall>b\<in>set m. attr_ok b)"

definition element_ok :: "element \<Rightarrow> bool" where
  "element_ok = all_elements (\<lambda>e. attrs_ok (attrs e))"

lemma element_ok_iff: "element_ok e \<longleftrightarrow> attrs_ok (attrs e) \<and> (\<forall>c\<in>set (children e). element_ok c)"
  unfolding element_ok_def by (subst all_elements_iff) simp

text \<open>The open elements: one at level \<open>k\<close> has children of height at most \<open>65 - k\<close>.\<close>

fun levels_ok :: "element list \<Rightarrow> bool" where
  "levels_ok [] = True"
| "levels_ok (e # st) \<longleftrightarrow> (\<forall>c\<in>set (children e). height c + length st \<le> MAX_DOM_DEPTH) \<and> levels_ok st"

definition stack_ok :: "element list \<Rightarrow> bool" where
  "stack_ok st \<longleftrightarrow> st \<noteq> [] \<and> length st \<le> MAX_DOM_DEPTH \<and> levels_ok st \<and> (\<forall>e\<in>set st. element_ok e)"

lemma element_selectors [simp]:
  "children (add_child c e) = children e @ [c]" "attrs (add_child c e) = attrs e" "tag (add_child c e) = tag e"
  "children (with_text t e) = children e" "attrs (with_text t e) = attrs e" "tag (with_text t e) = tag e"
  "elem_text (with_text t e) = t" "elem_text (add_child c e) = elem_text e"
  by (simp_all add: add_child_def with_text_def)

lemma element_ok_same:
  "children e' = children e \<Longrightarrow> attrs e' = attrs e \<Longrightarrow> element_ok e' = element_ok e"
  by (simp only: element_ok_iff [of e'] element_ok_iff [of e])

lemma element_ok_add_child: "element_ok (add_child c e) \<longleftrightarrow> element_ok e \<and> element_ok c"
  by (auto simp: element_ok_iff [of "add_child c e"] element_ok_iff [of e])

lemma stack_ok_text:
  "stack_ok st \<Longrightarrow> (\<And>e. children (f e) = children e \<and> attrs (f e) = attrs e) \<Longrightarrow> stack_ok (on_top f st)"
  by (cases st) (auto simp: stack_ok_def intro: element_ok_same [THEN iffD2])

lemma stack_ok_leaf:
  assumes "stack_ok st" and "children c = []" and "attrs_ok (attrs c)"
  shows "stack_ok (on_top (add_child c) st)"
proof -
  from assms(2) have "height c = 1" by (cases c) simp
  moreover have "element_ok c" using assms(2,3) by (subst element_ok_iff) simp
  ultimately show ?thesis
    using assms(1) by (cases st) (auto simp: stack_ok_def element_ok_add_child)
qed

lemma stack_ok_pop:
  assumes "stack_ok (e # p # st)"
  shows "stack_ok (add_child e p # st)"
proof -
  from assms have "height e \<le> Suc (MAX_DOM_DEPTH - length st - 1)"
    by (auto simp: height_le stack_ok_def)
  then have "height e + length st \<le> MAX_DOM_DEPTH"
    using assms by (auto simp: stack_ok_def)
  with assms show ?thesis
    by (auto simp: stack_ok_def element_ok_add_child)
qed

lemma stack_ok_pops:
  "stack_ok st \<Longrightarrow> n < length st \<Longrightarrow> stack_ok ((pop_into_parent ^^ n) st) \<and> length ((pop_into_parent ^^ n) st) = length st - n"
proof (induction n)
  case (Suc n)
  then have "stack_ok ((pop_into_parent ^^ n) st)" "length ((pop_into_parent ^^ n) st) = length st - n" by auto
  moreover obtain e p st' where "(pop_into_parent ^^ n) st = e # p # st'"
    using calculation(2) Suc.prems(2) by (cases "(pop_into_parent ^^ n) st" rule: remdups_adj.cases) auto
  ultimately show ?case using stack_ok_pop by auto
qed simp

lemma close_count_less: "close_count t st = Some n \<Longrightarrow> n < length st"
  by (induction t st arbitrary: n rule: close_count.induct) (auto split: if_splits)

lemma stack_ok_close: "stack_ok st \<Longrightarrow> stack_ok (close_element t st)"
  using stack_ok_pops close_count_less by (auto simp: close_element_def split: option.split)

lemma stack_ok_auto_close: "stack_ok st \<Longrightarrow> stack_ok (auto_close t st) \<and> length (auto_close t st) \<le> length st"
proof (induction t st rule: auto_close.induct)
  case (1 t e p st)
  from stack_ok_pop [OF 1(2)] 1 show ?case by force
qed auto

lemma close_all_single: "st \<noteq> [] \<Longrightarrow> stack_ok st \<Longrightarrow> \<exists>root. close_all st = [root] \<and> stack_ok [root]"
proof (induction st rule: close_all.induct)
  case (1 e p st)
  from stack_ok_pop [OF 1(3)] 1(1) show ?case by simp
qed auto

section \<open>Attributes\<close>

lemma length_attr_value: "length (fst (attr_value s)) \<le> MAX_ATTR_VALUE_LEN"
  by (simp add: attr_value_def Let_def split: list.split)

lemma length_optional_value: "length (fst (optional_value s)) \<le> MAX_ATTR_VALUE_LEN"
proof -
  obtain v r where a: "attr_value (tl (dropWhile is_whitespace s)) = (v, r)"
    by (cases "attr_value (tl (dropWhile is_whitespace s))")
  with length_attr_value [of "tl (dropWhile is_whitespace s)"] length_decode_html_entities [of v]
  show ?thesis by (simp add: optional_value_def Let_def a)
qed

lemma bt_insert_bindings: "set (bt_insert k v m) \<subseteq> insert (k, v) (set m)"
  by (induction k v m rule: bt_insert.induct) auto

lemma insert_attr_ok:
  assumes "attrs_ok m" and "byte_len k \<le> MAX_ATTR_NAME_LEN" and "length v \<le> MAX_ATTR_VALUE_LEN"
  shows "attrs_ok (insert_attr k v m)"
proof (cases "k = [] \<or> length m \<ge> MAX_ATTRS_PER_ELEMENT")
  case True
  with assms(1) show ?thesis by (simp add: insert_attr_def)
next
  case False
  with assms have "length (bt_insert k v m) \<le> MAX_ATTRS_PER_ELEMENT"
    by (simp add: bt_length_insert attrs_ok_def)
  moreover have "\<forall>b\<in>set (bt_insert k v m). attr_ok b"
    using False assms bt_insert_bindings [of k v m] by (auto simp: attrs_ok_def attr_ok_def)
  ultimately show ?thesis
    using False assms(1) by (simp add: insert_attr_def attrs_ok_def bt_insert_ok)
qed

lemma next_attr_ok: "attrs_ok m \<Longrightarrow> next_attr lower m s = (s', Some m') \<Longrightarrow> attrs_ok m'"
  using length_optional_value [of "dropWhile attr_name_char (dropWhile is_whitespace s)"]
  by (auto simp: next_attr_def Let_def not_less intro: insert_attr_ok split: if_splits prod.splits)

lemma parse_attrs_ok: "attrs_ok m \<Longrightarrow> attrs_ok (fst (parse_attrs lower m s))"
proof (induction lower m s rule: parse_attrs.induct)
  case (1 lower m s)
  then show ?case
    by (subst parse_attrs.simps) (auto dest: next_attr_ok split: prod.split option.split)
qed

section \<open>The parser\<close>

lemma stack_ok_push:
  "stack_ok st \<Longrightarrow> length st + 1 \<le> MAX_DOM_DEPTH \<Longrightarrow> children e = [] \<Longrightarrow> attrs_ok (attrs e) \<Longrightarrow> stack_ok (e # st)"
  by (auto simp: stack_ok_def element_ok_iff [of e])

lemma open_element_ok:
  assumes "stack_ok st" and "children e = []" and "attrs_ok (attrs e)"
    and "open_element e closing s st = Inr (s', st')"
  shows "stack_ok st'"
proof -
  define st1 where "st1 = (if is_void e then st else auto_close (tag e) st)"
  have st1: "stack_ok st1" using assms(1) stack_ok_auto_close by (simp add: st1_def)
  have leaf: "stack_ok (on_top (add_child e) st1)" by (rule stack_ok_leaf [OF st1 assms(2,3)])
  have raw: "stack_ok (on_top (add_child (with_text t e)) st1)" for t
    by (rule stack_ok_leaf [OF st1]) (simp_all add: assms(2,3))
  from assms(4) leaf raw stack_ok_push [OF st1 _ assms(2,3)] show ?thesis
    unfolding open_element_def st1_def [symmetric] Let_def
    by (auto simp: result_simps not_less split: if_splits prod.splits)
qed

lemma opening_tag_ok:
  assumes "stack_ok st" and "opening_tag lower s st = Inr (s', st')"
  shows "stack_ok st'"
proof -
  let ?s2 = "dropWhile tag_name_char (dropWhile is_whitespace s)"
  let ?name = "lower (trim (takeWhile tag_name_char (dropWhile is_whitespace s)))"
  obtain m s3 where p: "parse_attrs lower [] ?s2 = (m, s3)" by (cases "parse_attrs lower [] ?s2")
  obtain closing s4 where c: "self_closing s3 = (closing, s4)" by (cases "self_closing s3")
  have m: "attrs_ok m" using parse_attrs_ok [of "[]" lower ?s2] by (simp add: p attrs_ok_def)
  from assms(2) p c have "st' = st \<or>
      open_element (Element None ?name m [] [] (is_void_tag ?name \<or> closing)) closing (leave_tag s4) st = Inr (s', st')"
    by (auto simp: opening_tag_def Let_def split: if_splits)
  with assms(1) m show ?thesis by (auto dest: open_element_ok [rotated 3])
qed

lemma parse_step_ok:
  assumes "stack_ok st" and "parse_step lower s st = Inr (s', st')"
  shows "stack_ok st'"
proof -
  have texts: "stack_ok (on_top literal_lt st)" "stack_ok (on_top (push_text t) st)" for t
    by (rule stack_ok_text [OF assms(1)]; simp add: literal_lt_def push_text_def)+
  from assms texts show ?thesis
    by (auto simp: parse_step_def text_node_def Let_def stack_ok_close dest: opening_tag_ok
        split: list.splits if_splits)
qed

lemma parse_loop_ok: "parse_loop lower s st = Inr st' \<Longrightarrow> stack_ok st \<Longrightarrow> stack_ok st'"
proof (induction lower s st arbitrary: st' rule: parse_loop.induct)
  case (1 lower s st)
  then show ?case
    by (subst (asm) (2) parse_loop.simps) (auto simp: result_simps dest: parse_step_ok split: if_splits)
qed

lemma finish_document_ok:
  assumes "stack_ok st"
  shows "height (finish_document st) \<le> MAX_DOM_DEPTH + 1 \<and> element_ok (finish_document st)"
proof -
  from close_all_single [OF _ assms] assms obtain root where root: "close_all st = [root]" "stack_ok [root]"
    by (auto simp: stack_ok_def)
  then have h: "\<forall>c\<in>set (children root). height c \<le> MAX_DOM_DEPTH" and ok: "element_ok root"
    by (auto simp: stack_ok_def)
  from ok have sub: "\<forall>c\<in>set (children root). element_ok c" by (simp add: element_ok_iff [of root])
  let ?html = "Element (node_id root) (lit ''html'') (attrs root) (children root) (elem_text root) (is_void root)"
  have "height ?html \<le> Suc MAX_DOM_DEPTH" using h by (simp only: height_le element.sel)
  moreover have "element_ok ?html" using ok by (simp only: element_ok_same [of ?html root] element.sel)
  moreover have "finish_document st = ?html \<or> (\<exists>c\<in>set (children root). finish_document st = c)"
    by (auto simp: finish_document_def root Let_def split: list.split)
  ultimately show ?thesis using h sub by force
qed

lemma new_element_ok: "element_ok (new_element t)"
  by (subst element_ok_iff) (simp add: new_element_def attrs_ok_def)

lemma parse_html_ok:
  assumes "parse_html lower html = Inr e"
  shows "height e \<le> MAX_DOM_DEPTH + 1 \<and> element_ok e"
proof -
  have start: "stack_ok [new_element (lit ''root'')]"
    using new_element_ok [of "lit ''root''"] by (simp add: stack_ok_def new_element_def MAX_DOM_DEPTH_def)
  have body: "height (new_element (lit ''body'')) \<le> MAX_DOM_DEPTH + 1" "element_ok (new_element (lit ''body''))"
    using new_element_ok [of "lit ''body''"] by (simp_all add: new_element_def)
  from assms obtain s where "(if s = [] then Inr (new_element (lit ''body''))
      else ebind (parse_loop lower s [new_element (lit ''root'')]) (\<lambda>st. Inr (finish_document st))) = Inr e"
    unfolding parse_html_def Let_def by (rule ebind_InrE)
  then have "e = new_element (lit ''body'') \<or>
      (\<exists>st. parse_loop lower s [new_element (lit ''root'')] = Inr st \<and> e = finish_document st)"
    by (auto simp: result_simps split: if_splits)
  then show ?thesis
  proof (elim disjE exE conjE)
    fix st
    assume "parse_loop lower s [new_element (lit ''root'')] = Inr st" "e = finish_document st"
    with finish_document_ok [OF parse_loop_ok [OF _ start]] show ?thesis by blast
  qed (use body in simp)
qed

text \<open>C15. The tree of a document is bounded, whatever the document: it nests at most 65 levels deep (so
  that recursive walks over it cannot exhaust a thread's stack), and every element of it has at most 128
  attributes, with names of 1 to 128 bytes and values of at most 65536 characters.\<close>

theorem parsed_tree_is_bounded:
  assumes "parse_html lower html = Inr e"
  shows "height e \<le> MAX_DOM_DEPTH + 1 \<and>
    all_elements (\<lambda>x. length (attrs x) \<le> MAX_ATTRS_PER_ELEMENT \<and>
      (\<forall>(k, v)\<in>set (attrs x). k \<noteq> [] \<and> byte_len k \<le> MAX_ATTR_NAME_LEN \<and> length v \<le> MAX_ATTR_VALUE_LEN)) e"
proof -
  have mono: "all_elements P x \<Longrightarrow> (\<And>y. P y \<Longrightarrow> Q y) \<Longrightarrow> all_elements Q x" for P Q x
    by (induction P x rule: all_elements.induct) auto
  show ?thesis
    using parse_html_ok [OF assms] by (auto simp: element_ok_def attrs_ok_def attr_ok_def elim!: mono)
qed

section \<open>The parser returns\<close>

lemma raw_text_total: "byte_len s \<le> MAX_RAW_TEXT_LEN \<Longrightarrow> \<exists>r. raw_text t s = Inr r"
  using le_trans [OF take_byte_len [of _ s]]
  by (auto simp: raw_text_def Let_def not_less split: option.split) (meson not_less)

lemma open_element_total:
  assumes "byte_len s \<le> MAX_RAW_TEXT_LEN"
  shows "\<exists>r. open_element e closing s st = Inr r"
proof -
  from raw_text_total [OF assms, of "tag e"] obtain raw s' where "raw_text (tag e) s = Inr (raw, s')" by auto
  then show ?thesis by (auto simp: open_element_def Let_def)
qed

lemma parse_step_total:
  assumes "byte_len s \<le> MAX_RAW_TEXT_LEN"
  shows "\<exists>r. parse_step lower s st = Inr r"
proof -
  have "\<exists>r. opening_tag lower s' st = Inr r" if "suffix s' s" for s'
  proof -
    let ?s2 = "dropWhile tag_name_char (dropWhile is_whitespace s')"
    obtain m s3 where p: "parse_attrs lower [] ?s2 = (m, s3)" by (cases "parse_attrs lower [] ?s2")
    obtain closing s4 where c: "self_closing s3 = (closing, s4)" by (cases "self_closing s3")
    have "suffix (leave_tag s4) s4" by (rule leave_tag_suffix)
    moreover have "suffix s4 s3" using self_closing_suffix [of s3] by (simp add: c)
    moreover have "suffix s3 ?s2" using parse_attrs_suffix [of lower "[]" ?s2] by (simp add: p)
    moreover have "suffix ?s2 s'" by (intro scan_suffix suffix_order.refl)
    ultimately have "suffix (leave_tag s4) s" using that by (meson suffix_order.trans)
    then have "byte_len (leave_tag s4) \<le> MAX_RAW_TEXT_LEN" using suffix_byte_len assms le_trans by blast
    with open_element_total p c show ?thesis by (auto simp: opening_tag_def Let_def)
  qed
  then show ?thesis
    by (auto simp: parse_step_def suffix_ConsI split: list.split)
qed

lemma parse_loop_total: "byte_len s \<le> MAX_RAW_TEXT_LEN \<Longrightarrow> \<exists>st'. parse_loop lower s st = Inr st'"
proof (induction lower s st rule: parse_loop.induct)
  case (1 lower s st)
  show ?case
  proof (cases s)
    case (Cons c r)
    from parse_step_total [OF 1(2)] obtain s' st' where step: "parse_step lower s st = Inr (s', st')" by fastforce
    with Cons parse_step_suffix [of lower c r st s' st'] have "byte_len s' \<le> byte_len s"
      by (auto dest: suffix_byte_len intro: le_trans trans_le_add2)
    with 1 Cons step show ?thesis by (subst parse_loop.simps) auto
  qed (simp add: parse_loop.simps)
qed

lemma byte_len_rev: "byte_len (rev s) = byte_len s"
  by (induction s) simp_all

lemma trim_byte_len: "byte_len (trim s) \<le> byte_len s"
proof -
  have "byte_len (dropWhile is_whitespace s) \<le> byte_len s" by (rule suffix_byte_len [OF suffix_dropWhile])
  moreover have "byte_len (trim_end t) \<le> byte_len t" for t
  proof -
    have "byte_len (dropWhile is_whitespace (rev t)) \<le> byte_len (rev t)"
      by (rule suffix_byte_len [OF suffix_dropWhile])
    then show ?thesis by (simp add: trim_end_def byte_len_rev)
  qed
  ultimately show ?thesis unfolding trim_def trim_start_def using le_trans by blast
qed

text \<open>The parser returns a tree, without a panic, for every document of at most 2 MiB, however
  malformed.\<close>

theorem parse_html_total:
  assumes "byte_len html \<le> MAX_RAW_TEXT_LEN"
  shows "\<exists>e. parse_html lower html = Inr e"
proof -
  have "\<not> byte_len html > MAX_HTML_BYTES"
    using assms by (simp add: MAX_RAW_TEXT_LEN_def MAX_HTML_BYTES_def)
  moreover have "byte_len (trim html) \<le> MAX_RAW_TEXT_LEN" using trim_byte_len assms le_trans by blast
  ultimately show ?thesis
    using parse_loop_total [of "trim html" lower "[new_element (lit ''root'')]"]
    by (auto simp: parse_html_def Let_def)
qed

text \<open>The slice that bounds a document splits a character when the limit falls inside one.\<close>

lemma byte_prefix_ascii:
  "c < 128 \<Longrightarrow> byte_prefix (n + k) (replicate n c @ s) = map_option ((@) (replicate n c)) (byte_prefix k s)"
proof (induction n)
  case 0
  then show ?case by (simp add: option.map_id0 [unfolded id_def] map_option_cong)
next
  case (Suc n)
  then show ?case by (simp add: utf8_len_def option.map_comp comp_def)
qed

text \<open>Above the size limit the parser does not truncate every document: when the limit of 10 MiB falls
  inside a character the slice panics, here for ASCII letters followed by a single \<^verbatim>\<open>U+00E9\<close>.\<close>

theorem oversized_document_panics:
  "parse_html lower (replicate (MAX_HTML_BYTES - 1) 97 @ [233]) = Inl (Panic ''byte index is not a char boundary'')"
proof -
  let ?html = "replicate (MAX_HTML_BYTES - 1) 97 @ [233]"
  have n: "MAX_HTML_BYTES = MAX_HTML_BYTES - 1 + 1" by (simp add: MAX_HTML_BYTES_def)
  have "byte_len (replicate k 97) = k" for k by (induction k) (simp_all add: utf8_len_def)
  then have "byte_len ?html = MAX_HTML_BYTES - 1 + 2" by (simp add: utf8_len_def)
  then have "byte_len ?html > MAX_HTML_BYTES" using n by linarith
  moreover have "byte_prefix (MAX_HTML_BYTES - 1 + 1) ?html = None"
    by (subst byte_prefix_ascii) (simp_all add: utf8_len_def)
  ultimately show ?thesis using n by (simp add: parse_html_def)
qed

end
