(* ===== verification/Html_Roundtrip.thy ===== *)
theory Html_Roundtrip
  imports Html_Laws
begin

text \<open>
  The parser reads back what the serialiser \<^verbatim>\<open>Element::to_html\<close> writes, for every tree
  whose names and attribute values survive printing: the serialiser escapes text but not attribute values.
\<close>

section \<open>Maps rebuilt from their bindings\<close>

lemma bt_ok_ext: "bt_ok m \<Longrightarrow> bt_ok m' \<Longrightarrow> set m = set m' \<Longrightarrow> m = m'"
proof (induction m arbitrary: m')
  case (Cons b m)
  obtain k v where b: "b = (k, v)" by (cases b)
  from Cons.prems(3) obtain k' v' m'' where m': "m' = (k', v') # m''" by (cases m') auto
  from Cons.prems b m' have ok: "\<forall>b\<in>set m. k < fst b" "bt_ok m" "\<forall>b\<in>set m''. k' < fst b" "bt_ok m''"
    by (auto simp: bt_ok_Cons)
  have eq: "insert (k, v) (set m) = insert (k', v') (set m'')" using Cons.prems(3) b m' by simp
  have "(k, v) = (k', v')"
  proof (rule ccontr)
    assume "(k, v) \<noteq> (k', v')"
    with eq have "(k, v) \<in> set m''" "(k', v') \<in> set m" by (metis insert_iff)+
    with ok(1,3) show False by (metis fst_conv less_asym)
  qed
  moreover have "(k, v) \<notin> set m" "(k, v) \<notin> set m''" using ok calculation by auto
  ultimately have "set m = set m''" using eq by (metis insert_ident)
  with Cons.IH [OF ok(2,4)] \<open>(k, v) = (k', v')\<close> b m' show ?case by simp
qed simp

lemma bt_insert_fresh_set: "bt_ok m \<Longrightarrow> k \<notin> fst ` set m \<Longrightarrow> set (bt_insert k v m) = insert (k, v) (set m)"
  by (induction k v m rule: bt_insert.induct) (auto simp: bt_ok_Cons)

definition insert_all :: "(ustr \<times> ustr) list \<Rightarrow> (ustr, ustr) btree \<Rightarrow> (ustr, ustr) btree" where
  "insert_all kvs m = fold (\<lambda>b. insert_attr (fst b) (snd b)) kvs m"

lemma insert_all_set:
  assumes "bt_ok m" and "distinct (map fst kvs)" and "fst ` set kvs \<inter> fst ` set m = {}"
    and "length m + length kvs \<le> MAX_ATTRS_PER_ELEMENT" and "\<forall>b\<in>set kvs. fst b \<noteq> []"
  shows "bt_ok (insert_all kvs m) \<and> set (insert_all kvs m) = set m \<union> set kvs"
  using assms
proof (induction kvs arbitrary: m)
  case (Cons b kvs)
  let ?m = "bt_insert (fst b) (snd b) m"
  have i: "insert_attr (fst b) (snd b) m = ?m" using Cons.prems by (simp add: insert_attr_def)
  have fresh: "fst b \<notin> fst ` set m" using Cons.prems(3) by auto
  have s: "set ?m = insert b (set m)" using bt_insert_fresh_set [OF Cons.prems(1) fresh, of "snd b"] by simp
  have "length ?m = Suc (length m)"
    using bt_length_insert [OF Cons.prems(1), of "fst b" "snd b"] fresh by (simp add: bt_get_eq_None)
  with Cons.prems s have "bt_ok (insert_all kvs ?m) \<and> set (insert_all kvs ?m) = set ?m \<union> set kvs"
    by (intro Cons.IH) (auto simp: bt_insert_ok)
  with s i show ?case by (auto simp: insert_all_def)
qed (simp add: insert_all_def)

text \<open>What is asked of the order in which the hash map yields its bindings.\<close>

definition enumerates :: "((ustr, ustr) btree \<Rightarrow> (ustr \<times> ustr) list) \<Rightarrow> bool" where
  "enumerates order \<longleftrightarrow> (\<forall>m. bt_ok m \<longrightarrow> distinct (map fst (order m)) \<and> set (order m) = set m \<and> length (order m) = length m)"

lemma insert_all_order:
  assumes "enumerates order" and "attrs_ok m"
  shows "insert_all (order m) [] = m"
proof -
  from assms have "distinct (map fst (order m))" "set (order m) = set m" "length (order m) = length m"
    by (auto simp: enumerates_def attrs_ok_def)
  with insert_all_set [of "[]" "order m"] assms(2) show ?thesis
    by (intro bt_ok_ext) (auto simp: attrs_ok_def attr_ok_def)
qed

section \<open>Names and attributes\<close>

definition printable_name :: "(ustr \<Rightarrow> ustr) \<Rightarrow> ustr \<Rightarrow> bool" where
  "printable_name lower t \<longleftrightarrow> t \<noteq> [] \<and> is_ascii_alphabetic (hd t) \<and> (\<forall>c\<in>set t. tag_name_char c) \<and> lower t = t"

definition printable_attr :: "(ustr \<Rightarrow> ustr) \<Rightarrow> ustr \<times> ustr \<Rightarrow> bool" where
  "printable_attr lower b \<longleftrightarrow> (\<forall>c\<in>set (fst b). attr_name_char c) \<and> lower (fst b) = fst b \<and>
     QUOT \<notin> set (snd b) \<and> decode_html_entities (snd b) = snd b"

lemma takeWhile_then: "(\<forall>c\<in>set s. P c) \<Longrightarrow> \<not> P d \<Longrightarrow> takeWhile P (s @ d # r) = s"
  by (induction s) auto

lemma dropWhile_then: "(\<forall>c\<in>set s. P c) \<Longrightarrow> \<not> P d \<Longrightarrow> dropWhile P (s @ d # r) = d # r"
  by (induction s) auto

lemma attr_value_printed:
  assumes "QUOT \<notin> set v" and "length v \<le> MAX_ATTR_VALUE_LEN"
  shows "attr_value (QUOT # v @ QUOT # r) = (v, r)"
proof -
  have "takeWhile (\<lambda>x. x \<noteq> QUOT) (v @ QUOT # r) = v" using assms(1) by (intro takeWhile_then) auto
  then show ?thesis
    using assms(2) by (simp add: attr_value_def Let_def is_quote_def is_whitespace_def)
qed

lemma ascii_not_whitespace [simp]:
  "\<not> is_whitespace LT" "\<not> is_whitespace GT" "\<not> is_whitespace EQ" "\<not> is_whitespace QUOT" "\<not> is_whitespace SLASH"
  "is_whitespace 32"
  by (simp_all add: is_whitespace_def)

lemma next_attr_printed:
  assumes "attr_ok b" and "printable_attr lower b"
  shows "next_attr lower m (attr_html b @ r) = (r, Some (insert_attr (fst b) (snd b) m))"
proof -
  obtain k v where b: "b = (k, v)" by (cases b)
  from assms b obtain c k' where k: "k = c # k'" by (cases k) (auto simp: attr_ok_def)
  from assms b have key: "\<forall>c\<in>set k. attr_name_char c" "lower k = k" "byte_len k \<le> MAX_ATTR_NAME_LEN"
    and val: "QUOT \<notin> set v" "length v \<le> MAX_ATTR_VALUE_LEN" "decode_html_entities v = v"
    by (auto simp: attr_ok_def printable_attr_def)
  let ?s = "k @ EQ # QUOT # v @ QUOT # r"
  have c: "\<not> is_whitespace c" "c \<noteq> GT" "c \<noteq> SLASH" using key(1) k by (auto simp: attr_name_char_def)
  have s: "dropWhile is_whitespace (attr_html b @ r) = ?s" using c by (simp add: b attr_html_def k)
  have inside: "\<not> at_tag_end ?s" using c by (simp add: at_tag_end_def k)
  have name: "takeWhile attr_name_char ?s = k" "dropWhile attr_name_char ?s = EQ # QUOT # v @ QUOT # r"
    using key(1) by (rule takeWhile_then dropWhile_then; simp add: attr_name_char_def)+
  have "optional_value (EQ # QUOT # v @ QUOT # r) = (v, r)"
    using attr_value_printed [OF val(1,2)] val(3) by (simp add: optional_value_def)
  then show ?thesis
    unfolding next_attr_def Let_def s name using inside key by (simp add: b not_less)
qed

lemma parse_attrs_printed:
  assumes "\<forall>b\<in>set kvs. attr_ok b \<and> printable_attr lower b"
  shows "parse_attrs lower m (concat (map attr_html kvs) @ r) = parse_attrs lower (insert_all kvs m) r"
  using assms
proof (induction kvs arbitrary: m)
  case (Cons b kvs)
  have "\<not> at_tag_end (attr_html b @ s)" for s by (simp add: at_tag_end_def attr_html_def split: prod.split)
  with Cons next_attr_printed [of b lower m "concat (map attr_html kvs) @ r"] show ?case
    by (subst parse_attrs.simps) (simp add: insert_all_def)
qed (simp add: insert_all_def)

section \<open>Tags\<close>

lemma tag_name_then:
  assumes "printable_name lower t" and "\<not> tag_name_char d"
  shows "dropWhile is_whitespace (t @ d # r) = t @ d # r" "takeWhile tag_name_char (t @ d # r) = t"
    "dropWhile tag_name_char (t @ d # r) = d # r" "trim t = t"
proof -
  from assms(1) have t: "t \<noteq> []" "\<forall>c\<in>set t. tag_name_char c" by (simp_all add: printable_name_def)
  then have nw: "\<forall>c\<in>set t. \<not> is_whitespace c" by (simp add: tag_name_char_def)
  with t(1) show "dropWhile is_whitespace (t @ d # r) = t @ d # r" by (cases t) simp_all
  show "takeWhile tag_name_char (t @ d # r) = t" "dropWhile tag_name_char (t @ d # r) = d # r"
    using t(2) assms(2) by (rule takeWhile_then dropWhile_then)+
  show "trim t = t" using t(1) nw by (intro trim_id) auto
qed

text \<open>What the printed attributes and the end of the tag become.\<close>

lemma opening_tag_printed:
  assumes name: "printable_name lower t" and attrs: "\<forall>b\<in>set kvs. attr_ok b \<and> printable_attr lower b"
    and tail: "parse_attrs lower (insert_all kvs []) (d # r) = (insert_all kvs [], s3)" "\<not> tag_name_char d"
      "self_closing s3 = (closing, s4)"
  shows "opening_tag lower (t @ concat (map attr_html kvs) @ d # r) st =
    open_element (Element None t (insert_all kvs []) [] [] (is_void_tag t \<or> closing)) closing (leave_tag s4) st"
proof -
  obtain d' r' where d': "concat (map attr_html kvs) @ d # r = d' # r'" "\<not> tag_name_char d'"
  proof (cases kvs)
    case Nil
    with tail(2) that [of d r] show thesis by simp
  next
    case (Cons b kvs')
    obtain k v where "b = (k, v)" by (cases b)
    with Cons that [of 32 "k @ [EQ, QUOT] @ v @ [QUOT] @ concat (map attr_html kvs') @ d # r"] show thesis
      by (simp add: attr_html_def tag_name_char_def)
  qed
  note scan = tag_name_then(1-3) [OF name d'(2), of r'] tag_name_then(4) [OF name d'(2)]
  have "parse_attrs lower [] (d' # r') = (insert_all kvs [], s3)"
    using parse_attrs_printed [OF attrs, of "[]" "d # r"] tail(1) by (simp add: d'(1))
  with name tail(3) show ?thesis
    unfolding opening_tag_def Let_def d'(1) scan by (simp add: printable_name_def)
qed

lemma parse_attrs_end:
  "parse_attrs lower m (GT # r) = (m, GT # r)"
  "parse_attrs lower m (32 # SLASH # r) = (m, SLASH # r)"
  by (subst parse_attrs.simps, simp add: at_tag_end_def next_attr_def)+

lemma opening_tag_open:
  assumes "printable_name lower t" and "\<forall>b\<in>set kvs. attr_ok b \<and> printable_attr lower b"
  shows "opening_tag lower (t @ concat (map attr_html kvs) @ GT # r) st =
    open_element (Element None t (insert_all kvs []) [] [] (is_void_tag t)) False r st"
proof -
  have "self_closing (GT # r) = (False, GT # r)" by (simp add: self_closing_def Let_def)
  from opening_tag_printed [OF assms parse_attrs_end(1) _ this, of st] show ?thesis
    by (simp add: tag_name_char_def leave_tag_def skip_tag_def)
qed

lemma opening_tag_void:
  assumes "printable_name lower t" and "\<forall>b\<in>set kvs. attr_ok b \<and> printable_attr lower b"
  shows "opening_tag lower (t @ concat (map attr_html kvs) @ lit '' />'' @ r) st =
    Inr (r, on_top (add_child (Element None t (insert_all kvs []) [] [] True)) st)"
proof -
  have "self_closing (SLASH # GT # r) = (True, GT # r)" by (simp add: self_closing_def Let_def)
  from opening_tag_printed [OF assms parse_attrs_end(2) _ this, of st] show ?thesis
    by (simp add: lit_def tag_name_char_def leave_tag_def skip_tag_def open_element_def)
qed

lemma closing_name_printed: "printable_name lower t \<Longrightarrow> closing_name lower (t @ GT # r) = t"
proof -
  assume name: "printable_name lower t"
  then have t: "t \<noteq> []" "\<forall>c\<in>set t. tag_name_char c" "lower t = t" by (simp_all add: printable_name_def)
  then have nw: "\<forall>c\<in>set t. \<not> is_whitespace c" and gt: "\<forall>c\<in>set t. c \<noteq> GT" by (auto simp: tag_name_char_def)
  have "takeWhile (\<lambda>c. c \<noteq> GT) (t @ GT # r) = t" using gt by (rule takeWhile_then) simp
  moreover have "split_whitespace t = [t]"
  proof -
    have word: "dropWhile is_whitespace t = t" "takeWhile (\<lambda>c. \<not> is_whitespace c) t = t"
      "dropWhile (\<lambda>c. \<not> is_whitespace c) t = []"
      using nw t(1) by (cases t; simp add: takeWhile_eq_all_conv)+
    show ?thesis
      unfolding split_whitespace_def words_by.simps [of _ t] word using t(1) by (simp add: words_by.simps [of _ "[]"])
  qed
  moreover have "trim t = t" using t(1) nw by (intro trim_id) auto
  ultimately show ?thesis by (simp add: closing_name_def t(3))
qed

section \<open>Trees\<close>

fun printable :: "(ustr \<Rightarrow> ustr) \<Rightarrow> element \<Rightarrow> bool" where
  "printable lower (Element i t m cs x v) \<longleftrightarrow>
     i = None \<and> printable_name lower t \<and> t \<noteq> lit ''root'' \<and> attrs_ok m \<and> (\<forall>b\<in>set m. printable_attr lower b) \<and>
     (if v then cs = [] \<and> x = []
      else \<not> is_void_tag t \<and> \<not> is_raw_text_tag t \<and>
        trim x = x \<and>
        (\<forall>c\<in>set cs. printable lower c \<and> (is_void c \<or> \<not> should_auto_close_parent t (tag c))))"

lemma escape_html_no_lt: "\<forall>c\<in>set (escape_html s). c \<noteq> LT"
  by (induction s) (auto simp: escape_char_def lit_def)

lemma escape_html_Nil: "escape_html s = [] \<longleftrightarrow> s = []"
  by (cases s) (auto simp: escape_char_def lit_def)

text \<open>A text node before a tag.\<close>

lemma parse_loop_text:
  assumes "trim x = x" and "x \<noteq> []"
  shows "parse_loop lower (escape_html x @ LT # r) st = parse_loop lower (LT # r) (on_top (push_text x) st)"
proof -
  let ?s = "escape_html x @ LT # r"
  from assms(2) escape_html_Nil obtain c s' where s: "?s = c # s'" "c \<noteq> LT"
    using escape_html_no_lt [of x] by (cases "escape_html x") auto
  have "takeWhile (\<lambda>c. c \<noteq> LT) ?s = escape_html x" "dropWhile (\<lambda>c. c \<noteq> LT) ?s = LT # r"
    using escape_html_no_lt by (rule takeWhile_then dropWhile_then; simp)+
  then have "parse_step lower ?s st = Inr (LT # r, text_node (escape_html x) st)"
    unfolding s using s(2) by (simp add: parse_step_def)
  then show ?thesis
    using assms by (subst parse_loop.simps) (simp add: text_node_def decode_escape)
qed

text \<open>The children of the element on top, and that element, as the parser builds them.\<close>

lemma foldl_add_child:
  "foldl (\<lambda>p c. add_child c p) (Element i t m cs x v) ds = Element i t m (cs @ ds) x v"
  by (induction ds arbitrary: cs) (simp_all add: add_child_def)

lemma parse_loop_opening:
  assumes "printable_name lower t"
  shows "parse_loop lower (LT # t @ r) st = ebind (opening_tag lower (t @ r) st) (\<lambda>(s', st'). parse_loop lower s' st')"
proof -
  from assms obtain c t' where t: "t = c # t'" "is_ascii_alphabetic c"
    by (cases t) (auto simp: printable_name_def)
  then have "c \<noteq> SLASH" "c \<noteq> 33" "c \<noteq> 63"
    by (auto simp: is_ascii_alphabetic_def is_ascii_upper_def is_ascii_lower_def)
  with t show ?thesis by (subst parse_loop.simps) (simp add: parse_step_def)
qed

lemma parse_loop_closing:
  assumes "printable_name lower t" and "tag e = t"
  shows "parse_loop lower (lit ''</'' @ t @ GT # r) (e # p # st) = parse_loop lower r (add_child e p # st)"
proof -
  have "skip_tag (t @ GT # r) = r"
  proof -
    have "\<forall>c\<in>set t. c \<noteq> GT" using assms(1) by (auto simp: printable_name_def tag_name_char_def)
    then have "dropWhile (\<lambda>c. c \<noteq> GT) (t @ GT # r) = GT # r" by (rule dropWhile_then) simp
    then show ?thesis by (simp add: skip_tag_def)
  qed
  with assms show ?thesis
    by (subst parse_loop.simps)
      (simp add: parse_step_def lit_def closing_name_printed close_element_def)
qed

lemma to_html_head:
  assumes "printable lower e"
  shows "\<exists>s. to_html order e = LT # s"
  using assms by (cases e) (auto simp: Let_def)

lemma auto_close_none: "\<not> should_auto_close_parent (tag p) t \<Longrightarrow> auto_close t (p # st) = p # st"
  by (cases st) simp_all

text \<open>What is printed of a list of children, followed by a tag, starts with a tag.\<close>

lemma parse_loop_printed:
  assumes "enumerates order" and "printable lower e" and "length st + height e < MAX_DOM_DEPTH"
    and "is_void e \<or> \<not> should_auto_close_parent (tag p) (tag e)"
  shows "parse_loop lower (to_html order e @ r) (p # st) = parse_loop lower r (add_child e p # st)"
  using assms(2-)
proof (induction e arbitrary: p st r)
  case (Element i t m cs x v)
  from Element.prems(1) have e: "i = None" "printable_name lower t" "t \<noteq> lit ''root''" "attrs_ok m"
    and pa: "\<forall>b\<in>set m. printable_attr lower b" by simp_all
  have kvs: "insert_all (order m) [] = m" by (rule insert_all_order [OF assms(1) e(4)])
  have set: "set (order m) = set m" using assms(1) e(4) by (auto simp: enumerates_def attrs_ok_def)
  have attrs: "\<forall>b\<in>set (order m). attr_ok b \<and> printable_attr lower b" using e(4) pa by (simp add: set attrs_ok_def)
  show ?case
  proof (cases v)
    case True
    with Element.prems(1) have "cs = []" "x = []" by simp_all
    with True e kvs opening_tag_void [OF e(2) attrs, of r "p # st"]
      parse_loop_opening [OF e(2), of "concat (map attr_html (order m)) @ lit '' />'' @ r" "p # st"]
    show ?thesis by (simp add: Let_def)
  next
    case False
    with Element.prems(1) have tags: "\<not> is_void_tag t" "\<not> is_raw_text_tag t" "trim x = x"
      and sub: "\<forall>c\<in>set cs. printable lower c \<and> (is_void c \<or> \<not> should_auto_close_parent t (tag c))" by auto
    let ?rest = "concat (map (to_html order) cs) @ lit ''</'' @ t @ GT # r"
    let ?e = "\<lambda>x cs. Element None t m cs x False"
    have hs: "\<forall>c\<in>set cs. length (p # st) + height c < MAX_DOM_DEPTH"
    proof
      fix c assume c: "c \<in> set cs"
      have "height c < height (Element i t m cs x v)"
        using height_le [of "Element i t m cs x v" "height (Element i t m cs x v) - 1"] c by auto
      with Element.prems(2) show "length (p # st) + height c < MAX_DOM_DEPTH" by simp
    qed
    have depth: "length (p # st) + 1 \<le> MAX_DOM_DEPTH" using Element.prems(2) by simp
    have "parse_loop lower (to_html order (Element i t m cs x v) @ r) (p # st) =
        parse_loop lower (escape_html x @ ?rest) (?e [] [] # p # st)"
      using False e kvs tags depth Element.prems(3) parse_loop_opening [OF e(2)] opening_tag_open [OF e(2) attrs]
      by (simp add: Let_def escape_html_Nil open_element_def auto_close_none not_less)
    also have "\<dots> = parse_loop lower ?rest (?e x [] # p # st)"
    proof (cases "x = []")
      case False
      obtain s where "?rest = LT # s"
      proof (cases cs)
        case Nil
        then show thesis using that by (simp add: lit_def)
      next
        case (Cons c cs')
        with sub to_html_head [of lower c order] that show thesis by auto
      qed
      with parse_loop_text [OF tags(3) False] show ?thesis by (simp add: push_text_def with_text_def)
    qed simp
    also have "\<dots> = parse_loop lower (lit ''</'' @ t @ GT # r) (?e x cs # p # st)"
    proof -
      have "parse_loop lower (concat (map (to_html order) ds) @ s) (?e x bs # p # st) =
          parse_loop lower s (?e x (bs @ ds) # p # st)" if "set ds \<subseteq> set cs" for ds bs s
        using that
      proof (induction ds arbitrary: bs)
        case (Cons d ds)
        then have d: "d \<in> set cs" by simp
        with Element.IH [OF d, of "p # st" "?e x bs"] sub hs Cons show ?case
          by (simp add: add_child_def)
      qed simp
      from this [where ds = cs and bs = "[]" and s = "lit ''</'' @ t @ GT # r"] show ?thesis by simp
    qed
    also have "\<dots> = parse_loop lower r (add_child (?e x cs) p # st)"
      by (rule parse_loop_closing [OF e(2)]) simp
    finally show ?thesis using False e(1) by simp
  qed
qed

lemma printed_tree_parses:
  assumes "enumerates order" and "printable lower e" and "height e < MAX_DOM_DEPTH"
    and "byte_len (to_html order e) \<le> MAX_HTML_BYTES"
  shows "parse_html lower (to_html order e) = Inr e"
proof -
  let ?s = "to_html order e"
  from to_html_head [OF assms(2)] obtain s where s: "?s = LT # s" by blast
  have "last ?s = GT" using assms(2) by (cases e) (auto simp: Let_def lit_def)
  with s have trim: "trim ?s = ?s" by (intro trim_id) simp
  have root: "\<not> should_auto_close_parent (lit ''root'') t" for t
    by (auto simp: should_auto_close_parent_def tag_in_def lit_def)
  have "parse_loop lower (?s @ []) [new_element (lit ''root'')] = parse_loop lower [] [add_child e (new_element (lit ''root''))]"
    using assms root by (intro parse_loop_printed) (auto simp: new_element_def)
  then have loop: "parse_loop lower ?s [new_element (lit ''root'')] = Inr [add_child e (new_element (lit ''root''))]"
    by (simp add: parse_loop.simps)
  have "finish_document [add_child e (new_element (lit ''root''))] = e"
    by (simp add: finish_document_def Let_def new_element_def add_child_def)
  with loop trim s assms(4) show ?thesis by (simp add: parse_html_def Let_def)
qed

text \<open>C16. Parsing undoes serialising: a tree of at most 62 levels whose tag names, attribute names and
  attribute values print as they are (the values, which are not escaped, contain no quote and no character
  reference), with arbitrary trimmed text and no child that its parent's tag would close, is read back from
  its HTML unchanged, whatever the order in which the hash maps list the attributes.\<close>

theorem parse_html_to_html:
  assumes "enumerates order" and "printable lower e" and "height e < MAX_DOM_DEPTH"
    and "byte_len (to_html order e) \<le> MAX_HTML_BYTES"
  shows "parse_html lower (to_html order e) = Inr e"
  by (rule printed_tree_parses [OF assms])

end
