(* ===== verification/Dom.thy ===== *)
theory Dom
  imports Html_Roundtrip
begin

text \<open>
  The DOM operations of \<^verbatim>\<open>src/src/dom.rs\<close> on the element tree. The readers walk the tree
  with an explicit stack, the variants that return a mutable reference recurse; both stop below 256 levels.
  A reference is modelled by the element it points to.
\<close>

section \<open>Selectors\<close>

definition matches_selector :: "element \<Rightarrow> ustr \<Rightarrow> bool" where
  "matches_selector e selector =
     (let s = trim selector in
      case strip_prefix (lit ''#'') s of
        Some i \<Rightarrow> get_attr (lit ''id'') e = Some i
      | None \<Rightarrow>
          (case strip_prefix (lit ''.'') s of
             Some c \<Rightarrow> (case get_attr (lit ''class'') e of None \<Rightarrow> False | Some v \<Rightarrow> c \<in> set (split_whitespace v))
           | None \<Rightarrow> s \<noteq> [] \<and> eq_ignore_ascii_case (tag e) s))"

definition has_id :: "ustr \<Rightarrow> element \<Rightarrow> bool" where
  "has_id i e \<longleftrightarrow> get_attr (lit ''id'') e = Some i"

section \<open>Searching\<close>

definition MAX_QUERY_DEPTH :: nat where "MAX_QUERY_DEPTH = MAX_DOM_DEPTH * 4"

primrec first_some :: "'a option list \<Rightarrow> 'a option" where
  "first_some [] = None"
| "first_some (x # xs) = (case x of None \<Rightarrow> first_some xs | Some y \<Rightarrow> Some y)"

text \<open>The inner function \<^verbatim>\<open>rec\<close> of the mutable variants.\<close>

fun find_rec :: "(element \<Rightarrow> bool) \<Rightarrow> nat \<Rightarrow> element \<Rightarrow> element option" where
  "find_rec P depth (Element i t m cs x v) =
     (if depth > MAX_QUERY_DEPTH then None
      else if P (Element i t m cs x v) then Some (Element i t m cs x v)
      else first_some (map (find_rec P (depth + 1)) cs))"

text \<open>The loop of the readers.\<close>

definition level_sizes :: "(element \<times> nat) list \<Rightarrow> nat" where
  "level_sizes st = subtree_sizes (map fst st)"

function find_walk :: "(element \<Rightarrow> bool) \<Rightarrow> (element \<times> nat) list \<Rightarrow> element option" where
  "find_walk P [] = None"
| "find_walk P ((e, depth) # st) =
     (if depth > MAX_QUERY_DEPTH then find_walk P st
      else if P e then Some e
      else find_walk P (map (\<lambda>c. (c, depth + 1)) (children e) @ st))"
  by pat_completeness auto
termination
proof (relation "measure (\<lambda>(_, st). level_sizes st)", goal_cases)
  case (2 P e depth st)
  show ?case by (cases e) (simp add: level_sizes_def subtree_sizes_def)
next
  case (3 P e depth st)
  have "map fst (map (\<lambda>c. (c, depth + 1)) (children e) @ st) = children e @ map fst st"
    by (simp add: comp_def)
  then show ?case using subtree_sizes_children [of e "map fst st"] by (simp add: level_sizes_def)
qed simp

definition get_element_by_id_mut :: "element \<Rightarrow> ustr \<Rightarrow> element option" where
  "get_element_by_id_mut root i = find_rec (has_id i) 0 root"

definition get_element_by_id :: "element \<Rightarrow> ustr \<Rightarrow> element option" where
  "get_element_by_id root i = find_walk (has_id i) [(root, 0)]"

definition query_selector_mut :: "element \<Rightarrow> ustr \<Rightarrow> element option" where
  "query_selector_mut root selector = find_rec (\<lambda>e. matches_selector e selector) 0 root"

definition query_selector :: "element \<Rightarrow> ustr \<Rightarrow> element option" where
  "query_selector root selector = find_walk (\<lambda>e. matches_selector e selector) [(root, 0)]"

section \<open>Mutation\<close>

definition set_text_content :: "ustr \<Rightarrow> element \<Rightarrow> element" where
  "set_text_content v e = Element (node_id e) (tag e) (attrs e) [] (take (1024 * 1024) v) (is_void e)"

definition settable_name :: "ustr \<Rightarrow> bool" where
  "settable_name n \<longleftrightarrow> n \<noteq> [] \<and> byte_len n \<le> 128 \<and> \<not> starts_with (lit ''on'') n \<and>
     (\<forall>c\<in>set n. is_ascii_alphanumeric c \<or> c \<in> set (lit ''-_:''))"

definition set_attribute :: "ustr \<Rightarrow> ustr \<Rightarrow> element \<Rightarrow> bool \<times> element" where
  "set_attribute name v e =
     (let n = to_ascii_lowercase (trim name) in
      if settable_name n then (True, add_attr n (take (64 * 1024) v) e) else (False, e))"

section \<open>Both searches are the search in document order\<close>

fun preorder :: "element \<Rightarrow> element list" where
  "preorder (Element i t m cs x v) = Element i t m cs x v # concat (map preorder cs)"

lemma preorder_eq: "preorder e = e # concat (map preorder (children e))"
  by (cases e) simp

lemma first_some_append: "first_some (xs @ ys) = (case first_some xs of None \<Rightarrow> first_some ys | Some y \<Rightarrow> Some y)"
  by (induction xs) (auto split: option.split)

lemma find_walk_rec: "find_walk P st = first_some (map (\<lambda>(e, depth). find_rec P depth e) st)"
proof (induction P st rule: find_walk.induct)
  case (2 P e depth st)
  have "find_rec P depth e = (if depth > MAX_QUERY_DEPTH then None else if P e then Some e
      else first_some (map (find_rec P (depth + 1)) (children e)))"
    by (cases e) simp
  with 2 show ?case by (auto simp: first_some_append comp_def split: option.split)
qed simp

lemma find_append: "List.find P (xs @ ys) = (case List.find P xs of None \<Rightarrow> List.find P ys | Some y \<Rightarrow> Some y)"
  by (induction xs) auto

lemma find_concat: "List.find P (concat xss) = first_some (map (List.find P) xss)"
  by (induction xss) (auto simp: find_append split: option.split)

lemma find_rec_preorder:
  "depth + height e \<le> MAX_QUERY_DEPTH + 1 \<Longrightarrow> find_rec P depth e = List.find P (preorder e)"
proof (induction e arbitrary: depth)
  case (Element i t m cs x v)
  have "depth + 1 + height c \<le> MAX_QUERY_DEPTH + 1" if "c \<in> set cs" for c
    using height_le [of "Element i t m cs x v" "height (Element i t m cs x v) - 1"] that Element.prems by auto
  with Element.IH have "map (find_rec P (depth + 1)) cs = map (\<lambda>c. List.find P (preorder c)) cs" by simp
  moreover have "\<not> depth > MAX_QUERY_DEPTH" using Element.prems by simp
  ultimately show ?case by (simp add: find_concat comp_def cong: map_cong)
qed

text \<open>The recursive search behind the mutable references and the iterative search of the readers find
  the same element in every tree; in a tree of at most 257 levels it is the first one in document order.\<close>

theorem element_queries_agree:
  "get_element_by_id_mut root i = get_element_by_id root i \<and>
   query_selector_mut root s = query_selector root s \<and>
   (height root \<le> MAX_QUERY_DEPTH + 1 \<longrightarrow>
      get_element_by_id root i = List.find (has_id i) (preorder root) \<and>
      query_selector root s = List.find (\<lambda>e. matches_selector e s) (preorder root))"
  using find_rec_preorder [of 0 root]
  by (simp add: get_element_by_id_mut_def get_element_by_id_def query_selector_mut_def query_selector_def
      find_walk_rec split: option.split)

text \<open>The walks of \<^verbatim>\<open>Element\<close> itself.\<close>

lemma preorder_walk_eq: "preorder_walk st = concat (map preorder st)"
proof (induction st rule: preorder_walk.induct)
  case (2 e st)
  then show ?case by (simp add: preorder_eq [of e])
qed simp

lemma find_tag_walk_eq: "find_tag_walk t st = List.find (\<lambda>e. tag e = t) (concat (map preorder st))"
proof (induction t st rule: find_tag_walk.induct)
  case (2 t e st)
  then show ?case by (simp add: preorder_eq [of e])
qed simp

lemma find_all_walk_eq: "find_all_walk t rs st = rs @ filter (\<lambda>e. tag e = t) (concat (map preorder st))"
proof (induction t rs st rule: find_all_walk.induct)
  case (2 t rs e st)
  then show ?case by (simp add: preorder_eq [of e])
qed simp

lemma find_tag_preorder: "find_tag t e = List.find (\<lambda>x. tag x = t) (preorder e)"
  by (simp add: find_tag_def find_tag_walk_eq)

lemma find_all_tags_preorder: "find_all_tags t e = filter (\<lambda>x. tag x = t) (preorder e)"
  by (simp add: find_all_tags_def find_all_walk_eq)

lemma text_content_preorder: "text_content e = foldl join_text [] (map elem_text (preorder e))"
  by (simp add: text_content_def preorder_walk_eq)

section \<open>Attributes set by scripts\<close>

lemma get_add_attr: "get_attr k' (add_attr k v e) = (if k' = k then Some v else get_attr k' e)"
  by (simp add: get_attr_def add_attr_def bt_get_insert)

text \<open>A script cannot set an event-handler attribute: \<^verbatim>\<open>set_attribute\<close> accepts a name exactly
  when, trimmed and lower-cased, it is 1 to 128 ASCII letters, digits, hyphens, underscores or colons and does
  not begin with \<^verbatim>\<open>on\<close>. It then changes that attribute only, to the first 65536 characters of
  the value; a rejected call changes nothing.\<close>

theorem set_attribute_guard:
  assumes "set_attribute name v e = (accepted, e')"
  shows "(accepted \<longleftrightarrow> settable_name (to_ascii_lowercase (trim name))) \<and>
    (\<not> accepted \<longrightarrow> e' = e) \<and>
    (accepted \<longrightarrow> children e' = children e \<and> tag e' = tag e \<and> elem_text e' = elem_text e \<and>
       (\<forall>k. get_attr k e' = (if k = to_ascii_lowercase (trim name) then Some (take (64 * 1024) v) else get_attr k e))) \<and>
    (\<forall>k. starts_with (lit ''on'') k \<longrightarrow> get_attr k e' = get_attr k e)"
proof (cases "settable_name (to_ascii_lowercase (trim name))")
  case True
  then have "\<not> starts_with (lit ''on'') (to_ascii_lowercase (trim name))" by (simp add: settable_name_def)
  with True assms show ?thesis
    by (auto simp: set_attribute_def Let_def get_add_attr) (simp_all add: add_attr_def)
qed (use assms in \<open>auto simp: set_attribute_def Let_def\<close>)

section \<open>A sample page\<close>

definition sample_element :: element where
  "sample_element = Element None (lit ''div'') [(lit ''id'', lit ''a'')]
     [Element None (lit ''p'') [] [] (lit ''x & y'') False, Element None (lit ''br'') [] [] [] True] (lit ''t'') False"

lemma enumerates_id: "enumerates id"
  by (auto simp: enumerates_def bt_ok_def strict_sorted_iff)

lemma sample_element_printable: "printable to_ascii_lowercase sample_element"
  by (simp add: sample_element_def lit_def printable_name_def printable_attr_def attrs_ok_def attr_ok_def
      tag_name_char_def attr_name_char_def is_whitespace_def is_ascii_alphabetic_def is_ascii_lower_def
      is_ascii_upper_def to_ascii_lowercase_def ascii_lower_def is_void_tag_def is_raw_text_tag_def tag_in_def
      should_auto_close_parent_def trim_def trim_start_def trim_end_def bt_ok_def utf8_len_def byte_len_def
      MAX_ATTRS_PER_ELEMENT_def MAX_ATTR_NAME_LEN_def MAX_ATTR_VALUE_LEN_def decode_plain)

lemma sample_element_height: "height sample_element = 2"
  by (simp add: sample_element_def)

lemma sample_element_html:
  "to_html id sample_element = lit ''<div id='' @ [QUOT] @ lit ''a'' @ [QUOT] @ lit ''>t<p>x &amp; y</p><br /></div>''"
  by (simp add: sample_element_def lit_def attr_html_def is_raw_text_tag_def tag_in_def escape_char_def)

lemma sample_element_bytes: "byte_len (to_html id sample_element) \<le> 50"
  by (simp only: sample_element_html) (simp add: lit_def utf8_len_def)

lemma sample_element_parses: "parse_html to_ascii_lowercase (to_html id sample_element) = Inr sample_element"
  using sample_element_bytes
  by (intro printed_tree_parses enumerates_id sample_element_printable)
    (simp_all add: sample_element_height MAX_DOM_DEPTH_def MAX_HTML_BYTES_def)

theorem parsed_tree_is_bounded_witness: "height sample_element \<le> 65"
  using parsed_tree_is_bounded [OF sample_element_parses] by (simp add: MAX_DOM_DEPTH_def)

theorem parse_html_total_witness: "\<exists>e. parse_html to_ascii_lowercase (to_html id sample_element) = Inr e"
  using sample_element_bytes by (intro parse_html_total) (simp add: MAX_RAW_TEXT_LEN_def)

theorem parse_html_to_html_witness: "parse_html to_ascii_lowercase (to_html id sample_element) = Inr sample_element"
  using sample_element_bytes
  by (intro parse_html_to_html enumerates_id sample_element_printable)
    (simp_all add: sample_element_height MAX_DOM_DEPTH_def MAX_HTML_BYTES_def)

theorem element_queries_agree_witness:
  "get_element_by_id sample_element (lit ''a'') = List.find (has_id (lit ''a'')) (preorder sample_element)"
  using element_queries_agree [of sample_element "lit ''a''"]
  by (simp add: sample_element_height MAX_QUERY_DEPTH_def MAX_DOM_DEPTH_def)

theorem set_attribute_guard_witness: "set_attribute (lit '' OnClick '') [] sample_element = (False, sample_element)"
proof -
  obtain accepted e' where s: "set_attribute (lit '' OnClick '') [] sample_element = (accepted, e')"
    by (cases "set_attribute (lit '' OnClick '') [] sample_element")
  have "\<not> settable_name (to_ascii_lowercase (trim (lit '' OnClick '')))"
    by (simp add: settable_name_def lit_def trim_def trim_start_def trim_end_def is_whitespace_def
        to_ascii_lowercase_def ascii_lower_def is_ascii_upper_def starts_with_def)
  with set_attribute_guard [OF s] s show ?thesis by simp
qed

end
