(* ===== verification/Css_Selectors.thy ===== *)
theory Css_Selectors
  imports Unicode_Text
begin

text \<open>
  Selectors of \<^verbatim>\<open>src/src/css_parser.rs\<close>: their representation, specificity and matching. A
  selector is matched right to left: the last compound against the element, the others against its ancestors
  and siblings. Attribute maps are kept in key order; the counters of a specificity, sums of list lengths,
  are natural numbers.
\<close>

section \<open>Representation\<close>

datatype attribute_match = Presence | Exact | Includes | DashMatch | Prefix | Suffix | Substring

datatype case_sensitivity = DefaultCase | CaseSensitive | CaseInsensitive

record attribute_selector =
  as_name :: ustr
  as_operator :: attribute_match
  as_value :: ustr
  as_case :: case_sensitivity

datatype combinator = Descendant | Child | AdjacentSibling | GeneralSibling

datatype pseudo_element =
    Before | After | Placeholder | FirstLetter | FirstLine | Marker | Selection | CustomElement ustr

record selector_ancestor =
  sa_tag :: "ustr option"
  sa_class :: "ustr option"
  sa_id :: "ustr option"
  sa_direct :: bool

datatype pseudo_class =
    Root | Empty | FirstChild | LastChild | OnlyChild | FirstOfType | LastOfType | OnlyOfType
  | NthChild int int "selector option"
  | NthLastChild int int "selector option"
  | NthOfType int int
  | NthLastOfType int int
  | Hover | Active | Focus | FocusVisible | FocusWithin | Enabled | Disabled | Checked | Indeterminate
  | Link | Visited | Target | Valid | Invalid | Required | Optional | ReadOnly | ReadWrite
  | NotClass "selector list" | IsClass "selector list" | WhereClass "selector list" | HasClass "selector list"
  | Lang ustr
  | CustomClass ustr
and compound_selector = Compound
  (c_tag: "ustr option")
  (c_namespace: "ustr option")
  (c_classes: "ustr list")
  (c_id: "ustr option")
  (c_attributes: "attribute_selector list")
  (c_pseudo_classes: "pseudo_class list")
  (c_pseudo_element: "pseudo_element option")
  (c_is_root: bool)
and selector = Selector
  (s_tag: "ustr option")
  (s_class: "ustr option")
  (s_id: "ustr option")
  (s_attributes: "(ustr \<times> ustr) list")
  (s_ancestors: "selector_ancestor list")
  (s_is_root: bool)
  (s_components: "compound_selector list")
  (s_combinators: "combinator list")

definition empty_compound :: compound_selector where
  "empty_compound = Compound None None [] None [] [] None False"

definition compound_is_empty :: "compound_selector \<Rightarrow> bool" where
  "compound_is_empty c \<longleftrightarrow> c_tag c = None \<and> c_classes c = [] \<and> c_id c = None \<and> c_attributes c = [] \<and>
     c_pseudo_classes c = [] \<and> c_pseudo_element c = None \<and> \<not> c_is_root c"

section \<open>Specificity\<close>

type_synonym specificity = "nat \<times> nat \<times> nat"

definition add_spec :: "specificity \<Rightarrow> specificity \<Rightarrow> specificity" where
  "add_spec s t = (fst s + fst t, fst (snd s) + fst (snd t), snd (snd s) + snd (snd t))"

text \<open>The order of tuples: lexicographic.\<close>

definition spec_less :: "specificity \<Rightarrow> specificity \<Rightarrow> bool" where
  "spec_less s t \<longleftrightarrow> fst s < fst t \<or> fst s = fst t \<and>
     (fst (snd s) < fst (snd t) \<or> fst (snd s) = fst (snd t) \<and> snd (snd s) < snd (snd t))"

definition max_spec :: "specificity list \<Rightarrow> specificity" where
  "max_spec specs = foldl (\<lambda>best s. if spec_less best s then s else best) (0, 0, 0) specs"

definition star :: ustr where "star = lit ''*''"

definition counts_as_tag :: "ustr option \<Rightarrow> bool" where
  "counts_as_tag t \<longleftrightarrow> t \<noteq> None \<and> t \<noteq> Some star"

fun pseudo_spec :: "pseudo_class \<Rightarrow> specificity"
and compound_spec :: "compound_selector \<Rightarrow> specificity"
and selector_spec :: "selector \<Rightarrow> specificity" where
  "pseudo_spec (NotClass l) = max_spec (map selector_spec l)"
| "pseudo_spec (IsClass l) = max_spec (map selector_spec l)"
| "pseudo_spec (HasClass l) = max_spec (map selector_spec l)"
| "pseudo_spec (WhereClass l) = (0, 0, 0)"
| "pseudo_spec pc = (0, 1, 0)"
| "compound_spec (Compound t ns cls i as pcs pe root) =
     foldl add_spec
       (if i = None then 0 else 1,
        length cls + length as + (if root then 1 else 0),
        (if counts_as_tag t then 1 else 0) + (if pe = None then 0 else 1))
       (map pseudo_spec pcs)"
| "selector_spec (Selector t cl i as ancs root comps combs) =
     (if comps = []
      then (if i = None then 0 else 1, (if cl = None then 0 else 1) + length as, if counts_as_tag t then 1 else 0)
      else foldl add_spec (0, 0, 0) (map compound_spec comps))"

section \<open>The element being matched\<close>

record element_ancestry =
  ea_tag :: ustr
  ea_classes :: "ustr list"
  ea_id :: "ustr option"
  ea_attrs :: "(ustr, ustr) btree"

record sibling_context =
  sc_index_in_parent :: nat
  sc_siblings_after :: nat
  sc_total_siblings :: nat
  sc_type_index_in_parent :: nat
  sc_total_type_siblings :: nat
  sc_previous_siblings :: "element_ancestry list"

record matching_context =
  m_tag :: ustr
  m_classes :: "ustr list"
  m_id :: "ustr option"
  m_attrs :: "(ustr, ustr) btree"
  m_is_root :: bool
  m_ancestors :: "element_ancestry list"
  m_index_in_parent :: nat
  m_siblings_after :: nat
  m_total_siblings :: nat
  m_type_index_in_parent :: nat
  m_total_type_siblings :: nat
  m_is_hovered :: bool
  m_is_focused :: bool
  m_is_active :: bool
  m_is_checked :: bool
  m_is_disabled :: bool
  m_is_empty :: bool
  m_is_target :: bool
  m_is_visited :: bool
  m_previous_siblings :: "element_ancestry list"

definition has_attr :: "string \<Rightarrow> (ustr, ustr) btree \<Rightarrow> bool" where
  "has_attr k m \<longleftrightarrow> bt_get (lit k) m \<noteq> None"

definition simple_context ::
  "ustr \<Rightarrow> ustr list \<Rightarrow> ustr option \<Rightarrow> (ustr, ustr) btree \<Rightarrow> bool \<Rightarrow> element_ancestry list \<Rightarrow> matching_context" where
  "simple_context t cls i m root ancs = \<lparr>m_tag = t, m_classes = cls, m_id = i, m_attrs = m,
     m_is_root = root, m_ancestors = ancs, m_index_in_parent = 1, m_siblings_after = 0,
     m_total_siblings = 1, m_type_index_in_parent = 1, m_total_type_siblings = 1,
     m_is_hovered = False, m_is_focused = False, m_is_active = False,
     m_is_checked = has_attr ''checked'' m, m_is_disabled = has_attr ''disabled'' m,
     m_is_empty = False, m_is_target = False, m_is_visited = False, m_previous_siblings = []\<rparr>"

definition context_with_siblings ::
  "ustr \<Rightarrow> ustr list \<Rightarrow> ustr option \<Rightarrow> (ustr, ustr) btree \<Rightarrow> bool \<Rightarrow> element_ancestry list \<Rightarrow>
   sibling_context \<Rightarrow> matching_context" where
  "context_with_siblings t cls i m root ancs sc = (simple_context t cls i m root ancs)\<lparr>
     m_index_in_parent := max (sc_index_in_parent sc) 1, m_siblings_after := sc_siblings_after sc,
     m_total_siblings := sc_total_siblings sc, m_type_index_in_parent := max (sc_type_index_in_parent sc) 1,
     m_total_type_siblings := sc_total_type_siblings sc, m_previous_siblings := sc_previous_siblings sc\<rparr>"

section \<open>Attributes and positions\<close>

definition dash_matches :: "ustr \<Rightarrow> ustr \<Rightarrow> bool" where
  "dash_matches v actual \<longleftrightarrow>
     actual = v \<or> (case strip_prefix v actual of None \<Rightarrow> False | Some rest \<Rightarrow> starts_with (lit ''-'') rest)"

definition attribute_value_matches :: "attribute_selector \<Rightarrow> ustr \<Rightarrow> bool" where
  "attribute_value_matches a actual =
     (let v = as_value a; ci = (as_case a = CaseInsensitive) in
      case as_operator a of
        Presence \<Rightarrow> True
      | Exact \<Rightarrow> if ci then eq_ignore_ascii_case actual v else actual = v
      | Includes \<Rightarrow> list_ex (\<lambda>w. if ci then eq_ignore_ascii_case w v else w = v) (split_ascii_whitespace actual)
      | DashMatch \<Rightarrow>
          if ci then dash_matches (to_ascii_lowercase v) (to_ascii_lowercase actual) else dash_matches v actual
      | Prefix \<Rightarrow> v \<noteq> [] \<and>
          (if ci then (case byte_prefix (byte_len v) actual of None \<Rightarrow> False | Some p \<Rightarrow> eq_ignore_ascii_case p v)
           else starts_with v actual)
      | Suffix \<Rightarrow> v \<noteq> [] \<and>
          (if ci then byte_len actual \<ge> byte_len v \<and>
             (case byte_drop (byte_len actual - byte_len v) actual of None \<Rightarrow> False | Some p \<Rightarrow> eq_ignore_ascii_case p v)
           else ends_with v actual)
      | Substring \<Rightarrow> v \<noteq> [] \<and>
          (if ci then contains (to_ascii_lowercase v) (to_ascii_lowercase actual) else contains v actual))"

definition attribute_matches :: "(ustr, ustr) btree \<Rightarrow> attribute_selector \<Rightarrow> bool" where
  "attribute_matches m a =
     (case (case bt_get (to_ascii_lowercase (as_name a)) m of Some v \<Rightarrow> Some v | None \<Rightarrow> bt_get (as_name a) m) of
        None \<Rightarrow> False
      | Some actual \<Rightarrow> attribute_value_matches a actual)"

text \<open>\<^verbatim>\<open>index as i32\<close>, then the arithmetic in 64 bits.\<close>

definition as_i32 :: "nat \<Rightarrow> int" where
  "as_i32 n = sint (word_of_nat n :: 32 word)"

definition eval_nth :: "int \<Rightarrow> int \<Rightarrow> nat \<Rightarrow> bool" where
  "eval_nth a b index =
     (let i = as_i32 index in
      if a = 0 then i = b
      else if a > 0 then i - b \<ge> 0 \<and> a dvd (i - b)
      else i - b \<le> 0 \<and> a dvd (i - b))"

definition tag_matches :: "ustr option \<Rightarrow> ustr \<Rightarrow> bool" where
  "tag_matches sel t = (case sel of None \<Rightarrow> True | Some s \<Rightarrow> s = star \<or> eq_ignore_ascii_case s t)"

definition id_matches :: "ustr option \<Rightarrow> ustr option \<Rightarrow> bool" where
  "id_matches sel i = (case sel of None \<Rightarrow> True | Some s \<Rightarrow> i = Some s)"

definition is_link :: "matching_context \<Rightarrow> bool" where
  "is_link ctx \<longleftrightarrow> eq_ignore_ascii_case (m_tag ctx) (lit ''a'') \<and> has_attr ''href'' (m_attrs ctx)"

section \<open>Combinators\<close>

text \<open>The context of the ancestor at \<open>index\<close>, and of a sibling.\<close>

definition ancestor_context :: "matching_context \<Rightarrow> nat \<Rightarrow> matching_context" where
  "ancestor_context ctx index =
     (let a = m_ancestors ctx ! index in
      simple_context (ea_tag a) (ea_classes a) (ea_id a) (ea_attrs a)
        (index + 1 = length (m_ancestors ctx)) (drop (index + 1) (m_ancestors ctx)))"

definition sibling_matching_context :: "matching_context \<Rightarrow> element_ancestry \<Rightarrow> matching_context" where
  "sibling_matching_context ctx a =
     simple_context (ea_tag a) (ea_classes a) (ea_id a) (ea_attrs a) False (m_ancestors ctx)"

text \<open>The first ancestor from \<open>cursor\<close> on that matches.\<close>

definition find_ancestor :: "(matching_context \<Rightarrow> bool) \<Rightarrow> matching_context \<Rightarrow> nat \<Rightarrow> nat option" where
  "find_ancestor matches ctx cursor =
     List.find (\<lambda>index. matches (ancestor_context ctx index)) [cursor..<length (m_ancestors ctx)]"

text \<open>The loop over the compounds left of the target, nearest first, each with the combinator to its
  right; a compound is given by what it accepts.\<close>

fun chain_loop ::
  "((matching_context \<Rightarrow> bool) \<times> combinator) list \<Rightarrow> nat \<Rightarrow> matching_context \<Rightarrow> bool" where
  "chain_loop [] cursor ctx = True"
| "chain_loop ((matches, comb) # rest) cursor ctx =
     (case comb of
        Child \<Rightarrow> cursor < length (m_ancestors ctx) \<and> matches (ancestor_context ctx cursor) \<and>
          chain_loop rest (cursor + 1) ctx
      | Descendant \<Rightarrow>
          (case find_ancestor matches ctx cursor of
             None \<Rightarrow> False
           | Some index \<Rightarrow> chain_loop rest (index + 1) ctx)
      | AdjacentSibling \<Rightarrow>
          m_previous_siblings ctx \<noteq> [] \<and>
          matches (sibling_matching_context ctx (last (m_previous_siblings ctx))) \<and> chain_loop rest cursor ctx
      | GeneralSibling \<Rightarrow>
          list_ex (\<lambda>s. matches (sibling_matching_context ctx s)) (m_previous_siblings ctx) \<and>
          chain_loop rest cursor ctx)"

text \<open>\<^verbatim>\<open>self.combinators.get(i).unwrap_or(Descendant)\<close>.\<close>

definition combinator_at :: "combinator list \<Rightarrow> nat \<Rightarrow> combinator" where
  "combinator_at combs i = (if i < length combs then combs ! i else Descendant)"

definition chain_matches ::
  "(matching_context \<Rightarrow> bool) list \<Rightarrow> combinator list \<Rightarrow> matching_context \<Rightarrow> bool" where
  "chain_matches comps combs ctx \<longleftrightarrow>
     last comps ctx \<and>
     chain_loop (rev (map (\<lambda>i. (comps ! i, combinator_at combs i)) [0..<length comps - 1])) 0 ctx"

section \<open>Selectors without components\<close>

definition selector_ancestor_matches :: "selector_ancestor \<Rightarrow> element_ancestry \<Rightarrow> bool" where
  "selector_ancestor_matches sa a \<longleftrightarrow> tag_matches (sa_tag sa) (ea_tag a) \<and>
     (case sa_class sa of None \<Rightarrow> True | Some c \<Rightarrow> c \<in> set (ea_classes a)) \<and> id_matches (sa_id sa) (ea_id a)"

fun legacy_loop :: "selector_ancestor list \<Rightarrow> nat \<Rightarrow> element_ancestry list \<Rightarrow> bool" where
  "legacy_loop [] cursor ancs = True"
| "legacy_loop (leg # legs) cursor ancs =
     (if sa_direct leg then
        cursor < length ancs \<and> selector_ancestor_matches leg (ancs ! cursor) \<and> legacy_loop legs (cursor + 1) ancs
      else
        (case List.find (\<lambda>i. selector_ancestor_matches leg (ancs ! i)) [cursor..<length ancs] of
           None \<Rightarrow> False
         | Some i \<Rightarrow> legacy_loop legs (i + 1) ancs))"

definition legacy_attribute_matches :: "(ustr, ustr) btree \<Rightarrow> ustr \<times> ustr \<Rightarrow> bool" where
  "legacy_attribute_matches m b =
     (case (case bt_get (fst b) m of Some v \<Rightarrow> Some v | None \<Rightarrow> bt_get (to_ascii_lowercase (fst b)) m) of
        None \<Rightarrow> False
      | Some actual \<Rightarrow> snd b = [] \<or> actual = snd b)"

definition matches_legacy ::
  "ustr option \<Rightarrow> ustr option \<Rightarrow> ustr option \<Rightarrow> (ustr \<times> ustr) list \<Rightarrow> selector_ancestor list \<Rightarrow> bool \<Rightarrow>
   matching_context \<Rightarrow> bool" where
  "matches_legacy t cl i as ancs root ctx \<longleftrightarrow>
     \<not> (root \<and> \<not> m_is_root ctx) \<and>
     tag_matches t (m_tag ctx) \<and> (case cl of None \<Rightarrow> True | Some c \<Rightarrow> c \<in> set (m_classes ctx)) \<and>
     id_matches i (m_id ctx) \<and> list_all (legacy_attribute_matches (m_attrs ctx)) as \<and>
     (ancs = [] \<or> m_ancestors ctx \<noteq> [] \<and> legacy_loop ancs 0 (m_ancestors ctx))"

section \<open>Matching\<close>

text \<open>A pseudo-class without selectors of its own.\<close>

definition simple_pseudo_matches :: "pseudo_class \<Rightarrow> matching_context \<Rightarrow> bool" where
  "simple_pseudo_matches pc ctx =
     (case pc of
        Root \<Rightarrow> m_is_root ctx
      | Empty \<Rightarrow> m_is_empty ctx
      | FirstChild \<Rightarrow> m_index_in_parent ctx = 1
      | LastChild \<Rightarrow> m_siblings_after ctx = 0 \<and> m_total_siblings ctx > 0
      | OnlyChild \<Rightarrow> m_total_siblings ctx = 1
      | FirstOfType \<Rightarrow> m_type_index_in_parent ctx = 1
      | LastOfType \<Rightarrow> m_total_type_siblings ctx > 0 \<and> m_type_index_in_parent ctx = m_total_type_siblings ctx
      | OnlyOfType \<Rightarrow> m_total_type_siblings ctx = 1
      | NthChild a b _ \<Rightarrow> eval_nth a b (m_index_in_parent ctx)
      | NthLastChild a b _ \<Rightarrow> eval_nth a b (m_siblings_after ctx + 1)
      | NthOfType a b \<Rightarrow> eval_nth a b (m_type_index_in_parent ctx)
      | NthLastOfType a b \<Rightarrow> eval_nth a b (m_total_type_siblings ctx - m_type_index_in_parent ctx + 1)
      | Hover \<Rightarrow> m_is_hovered ctx
      | Active \<Rightarrow> m_is_active ctx
      | Focus \<Rightarrow> m_is_focused ctx
      | FocusVisible \<Rightarrow> m_is_focused ctx
      | FocusWithin \<Rightarrow> m_is_focused ctx
      | Enabled \<Rightarrow> \<not> m_is_disabled ctx
      | Disabled \<Rightarrow> m_is_disabled ctx
      | Checked \<Rightarrow> m_is_checked ctx
      | Indeterminate \<Rightarrow> False
      | Link \<Rightarrow> is_link ctx \<and> \<not> m_is_visited ctx
      | Visited \<Rightarrow> is_link ctx \<and> m_is_visited ctx
      | Target \<Rightarrow> m_is_target ctx
      | Valid \<Rightarrow> \<not> m_is_disabled ctx
      | Invalid \<Rightarrow> False
      | Required \<Rightarrow> has_attr ''required'' (m_attrs ctx)
      | Optional \<Rightarrow> \<not> has_attr ''required'' (m_attrs ctx)
      | ReadOnly \<Rightarrow> has_attr ''readonly'' (m_attrs ctx) \<or> m_is_disabled ctx
      | ReadWrite \<Rightarrow> \<not> has_attr ''readonly'' (m_attrs ctx) \<and> \<not> m_is_disabled ctx
      | Lang l \<Rightarrow> (case bt_get (lit ''lang'') (m_attrs ctx) of
          None \<Rightarrow> False
        | Some v \<Rightarrow> dash_matches (to_ascii_lowercase l) (to_ascii_lowercase v))
      | _ \<Rightarrow> False)"

fun match_pseudo_class :: "pseudo_class \<Rightarrow> matching_context \<Rightarrow> bool"
and matches_element_context :: "compound_selector \<Rightarrow> matching_context \<Rightarrow> bool"
and matches_context :: "selector \<Rightarrow> matching_context \<Rightarrow> bool" where
  "match_pseudo_class (NotClass l) ctx = (\<not> list_ex (\<lambda>s. matches_context s ctx) l)"
| "match_pseudo_class (IsClass l) ctx = list_ex (\<lambda>s. matches_context s ctx) l"
| "match_pseudo_class (WhereClass l) ctx = list_ex (\<lambda>s. matches_context s ctx) l"
| "match_pseudo_class (HasClass l) ctx = False"
| "match_pseudo_class (CustomClass n) ctx = False"
| "match_pseudo_class pc ctx = simple_pseudo_matches pc ctx"
| "matches_element_context (Compound t ns cls i as pcs pe root) ctx =
     (\<not> (root \<and> \<not> m_is_root ctx) \<and> tag_matches t (m_tag ctx) \<and>
      list_all (\<lambda>c. c \<in> set (m_classes ctx)) cls \<and> id_matches i (m_id ctx) \<and>
      list_all (attribute_matches (m_attrs ctx)) as \<and>
      list_all (\<lambda>pc. match_pseudo_class pc ctx) pcs)"
| "matches_context (Selector t cl i as ancs root comps combs) ctx =
     (\<not> (root \<and> \<not> m_is_root ctx) \<and>
      (if comps = [] then matches_legacy t cl i as ancs root ctx
       else chain_matches (map (\<lambda>c ctx'. matches_element_context c ctx') comps) combs ctx))"

text \<open>The entry points that build a context.\<close>

definition matches_element ::
  "selector \<Rightarrow> ustr \<Rightarrow> ustr list \<Rightarrow> ustr option \<Rightarrow> (ustr, ustr) btree \<Rightarrow> bool \<Rightarrow> element_ancestry list \<Rightarrow> bool" where
  "matches_element s t cls i m root ancs = matches_context s (simple_context t cls i m root ancs)"

definition selector_matches :: "selector \<Rightarrow> ustr \<Rightarrow> ustr list \<Rightarrow> ustr option \<Rightarrow> (ustr, ustr) btree \<Rightarrow> bool" where
  "selector_matches s t cls i m = matches_element s t cls i m False []"

end
