(* ===== verification/Css_Selector_Parser.thy ===== *)
theory Css_Selector_Parser
  imports Css_Selectors
begin

text \<open>
  The selector parser of \<^verbatim>\<open>src/src/css_parser.rs\<close>. A functional pseudo-class parses its
  argument with the whole parser again; a thread-local counter cuts that recursion at 32 levels. Here the
  parser of nested selector lists is an argument \<open>sub\<close> of the functions on the way, and
  \<open>parse_selector_list\<close> recurses on the levels that are left.
\<close>

section \<open>Attribute selectors\<close>

text \<open>The operator at the front of a string, and its length.\<close>

definition operator_at :: "ustr \<Rightarrow> (nat \<times> attribute_match) option" where
  "operator_at s =
     (if starts_with (lit ''~='') s then Some (2, Includes)
      else if starts_with (lit ''|='') s then Some (2, DashMatch)
      else if starts_with (lit ''^='') s then Some (2, Prefix)
      else if starts_with (lit ''$='') s then Some (2, Suffix)
      else if starts_with (lit ''*='') s then Some (2, Substring)
      else if starts_with (lit ''='') s then Some (1, Exact)
      else None)"

definition quote_mark :: "uchar \<Rightarrow> bool" where
  "quote_mark c \<longleftrightarrow> c = 34 \<or> c = 39"

text \<open>The first operator outside quotes: what stands before it, the operator, what follows.\<close>

fun find_operator :: "uchar option \<Rightarrow> ustr \<Rightarrow> (ustr \<times> attribute_match \<times> ustr) option" where
  "find_operator q [] = None"
| "find_operator (Some q) (c # s) =
     map_option (\<lambda>(n, r). (c # n, r)) (find_operator (if c = q then None else Some q) s)"
| "find_operator None (c # s) =
     (if quote_mark c then map_option (\<lambda>(n, r). (c # n, r)) (find_operator (Some c) s)
      else case operator_at (c # s) of
        Some (k, op) \<Rightarrow> Some ([], op, drop k (c # s))
      | None \<Rightarrow> map_option (\<lambda>(n, r). (c # n, r)) (find_operator None s))"

text \<open>\<^verbatim>\<open>str::trim_matches\<close> of a character.\<close>

definition trim_matches :: "uchar \<Rightarrow> ustr \<Rightarrow> ustr" where
  "trim_matches d s = rev (dropWhile (\<lambda>c. c = d) (rev (dropWhile (\<lambda>c. c = d) s)))"

definition case_flag :: "ustr \<Rightarrow> case_sensitivity \<times> ustr" where
  "case_flag rest =
     (if ends_with (lit '' i'') rest \<or> ends_with (lit '' I'') rest
      then (CaseInsensitive, trim (take (length rest - 2) rest))
      else if ends_with (lit '' s'') rest \<or> ends_with (lit '' S'') rest
      then (CaseSensitive, trim (take (length rest - 2) rest))
      else (DefaultCase, rest))"

definition parse_attr_selector :: "ustr \<Rightarrow> attribute_selector option" where
  "parse_attr_selector content =
     (let s = trim content in
      if s = [] then None
      else let (name, op, v, cs) =
             (case find_operator None s of
                Some (front, op, rest0) \<Rightarrow>
                  (let (cs, rest) = case_flag (trim rest0)
                   in (trim front, op, trim_matches 39 (trim_matches 34 rest), cs))
              | None \<Rightarrow> (s, Presence, [], DefaultCase))
           in if name = [] then None
              else Some \<lparr>as_name = name, as_operator = op, as_value = v, as_case = cs\<rparr>)"

section \<open>Pseudo-classes\<close>

definition simple_pseudo_classes :: "(ustr \<times> pseudo_class) list" where
  "simple_pseudo_classes = map (\<lambda>(n, pc). (lit n, pc))
     [(''root'', Root), (''empty'', Empty), (''first-child'', FirstChild), (''last-child'', LastChild),
      (''only-child'', OnlyChild), (''first-of-type'', FirstOfType), (''last-of-type'', LastOfType),
      (''only-of-type'', OnlyOfType), (''hover'', Hover), (''active'', Active), (''focus'', Focus),
      (''focus-visible'', FocusVisible), (''focus-within'', FocusWithin), (''enabled'', Enabled),
      (''disabled'', Disabled), (''checked'', Checked), (''indeterminate'', Indeterminate), (''link'', Link),
      (''visited'', Visited), (''target'', Target), (''valid'', Valid), (''invalid'', Invalid),
      (''required'', Required), (''optional'', Optional), (''read-only'', ReadOnly),
      (''read-write'', ReadWrite), (''before'', CustomClass (lit ''before'')),
      (''after'', CustomClass (lit ''after''))]"

text \<open>\<^verbatim>\<open>str::parse::<i32>\<close>.\<close>

fun decimal :: "nat \<Rightarrow> ustr \<Rightarrow> nat option" where
  "decimal acc [] = Some acc"
| "decimal acc (c # s) = (if is_ascii_digit c then decimal (acc * 10 + (c - 48)) s else None)"

definition parse_i32 :: "ustr \<Rightarrow> int option" where
  "parse_i32 s =
     (let (sign, digits) =
        (case s of [] \<Rightarrow> (1, [])
         | c # r \<Rightarrow> if c = 43 then (1, r) else if c = 45 then (-1, r) else (1, s))
      in if digits = [] then None
         else case decimal 0 digits of
           None \<Rightarrow> None
         | Some n \<Rightarrow> let v = sign * int n in if -2147483648 \<le> v \<and> v \<le> 2147483647 then Some v else None)"

definition parse_an_plus_b :: "ustr \<Rightarrow> int \<times> int" where
  "parse_an_plus_b expr =
     (let e = filter (\<lambda>c. c \<noteq> 32) (to_ascii_lowercase (trim expr)) in
      if e = lit ''odd'' then (2, 1)
      else if e = lit ''even'' then (2, 0)
      else case parse_i32 e of
        Some n \<Rightarrow> (0, n)
      | None \<Rightarrow>
          (case split_once 110 e of
             None \<Rightarrow> (0, 1)
           | Some (a, b) \<Rightarrow>
               (if a = [] \<or> a = lit ''+'' then 1 else if a = lit ''-'' then -1
                else case parse_i32 a of None \<Rightarrow> 1 | Some n \<Rightarrow> n,
                if b = [] then 0 else case parse_i32 b of None \<Rightarrow> 0 | Some n \<Rightarrow> n)))"

definition functional_pseudo_class :: "(ustr \<Rightarrow> selector list) \<Rightarrow> ustr \<Rightarrow> ustr \<Rightarrow> pseudo_class option" where
  "functional_pseudo_class sub name inner =
     (if name = lit ''not'' then Some (NotClass (sub inner))
      else if name = lit ''is'' \<or> name = lit ''matches'' then Some (IsClass (sub inner))
      else if name = lit ''where'' then Some (WhereClass (sub inner))
      else if name = lit ''has'' then Some (HasClass (sub inner))
      else if name = lit ''lang'' then Some (Lang inner)
      else if name = lit ''nth-child'' then (case parse_an_plus_b inner of (a, b) \<Rightarrow> Some (NthChild a b None))
      else if name = lit ''nth-last-child'' then (case parse_an_plus_b inner of (a, b) \<Rightarrow> Some (NthLastChild a b None))
      else if name = lit ''nth-of-type'' then (case parse_an_plus_b inner of (a, b) \<Rightarrow> Some (NthOfType a b))
      else if name = lit ''nth-last-of-type'' then (case parse_an_plus_b inner of (a, b) \<Rightarrow> Some (NthLastOfType a b))
      else None)"

definition parse_pseudo_class :: "(ustr \<Rightarrow> selector list) \<Rightarrow> ustr \<Rightarrow> pseudo_class option" where
  "parse_pseudo_class sub token =
     (case map_of simple_pseudo_classes (to_ascii_lowercase token) of
        Some pc \<Rightarrow> Some pc
      | None \<Rightarrow>
          (case split_once 40 token of
             None \<Rightarrow> Some (CustomClass token)
           | Some (front, back) \<Rightarrow>
               if ends_with (lit '')'') token then
                 (case functional_pseudo_class sub (to_ascii_lowercase (trim front)) (trim (butlast back)) of
                    Some pc \<Rightarrow> Some pc
                  | None \<Rightarrow> Some (CustomClass token))
               else Some (CustomClass token)))"

definition parse_pseudo_element :: "ustr \<Rightarrow> pseudo_element option" where
  "parse_pseudo_element token =
     (let l = to_ascii_lowercase token in
      if l = lit ''before'' then Some Before else if l = lit ''after'' then Some After
      else if l = lit ''placeholder'' then Some Placeholder else if l = lit ''first-letter'' then Some FirstLetter
      else if l = lit ''first-line'' then Some FirstLine else if l = lit ''marker'' then Some Marker
      else if l = lit ''selection'' then Some Selection else Some (CustomElement token))"

section \<open>Compound selectors\<close>

text \<open>The kind of token being read: \<^verbatim>\<open>'T'\<close>, \<^verbatim>\<open>'.'\<close>,
  \<^verbatim>\<open>'#'\<close>, \<^verbatim>\<open>':'\<close>, \<^verbatim>\<open>'E'\<close>, and the blank after an
  attribute.\<close>

datatype token_kind = TypeToken | ClassToken | IdToken | PseudoToken | ElementToken | NoToken

definition flush_compound_token ::
  "(ustr \<Rightarrow> selector list) \<Rightarrow> token_kind \<Rightarrow> ustr \<Rightarrow> compound_selector \<Rightarrow> compound_selector" where
  "flush_compound_token sub kind raw cmp =
     (let token = trim raw in
      if token = [] then cmp
      else case cmp of Compound t ns cls i as pcs pe root \<Rightarrow>
        (case kind of
           TypeToken \<Rightarrow>
             if token = lit '':root'' then Compound t ns cls i as pcs pe True
             else (case split_once 124 token of
                     Some (_, name) \<Rightarrow> Compound (Some (to_ascii_lowercase name)) ns cls i as pcs pe root
                   | None \<Rightarrow> Compound (Some (to_ascii_lowercase token)) ns cls i as pcs pe root)
         | ClassToken \<Rightarrow> Compound t ns (cls @ [token]) i as pcs pe root
         | IdToken \<Rightarrow> Compound t ns cls (Some token) as pcs pe root
         | PseudoToken \<Rightarrow>
             (case parse_pseudo_class sub token of
                None \<Rightarrow> cmp
              | Some pc \<Rightarrow> Compound t ns cls i as (pcs @ [pc]) pe (root \<or> pc = Root))
         | ElementToken \<Rightarrow>
             (case parse_pseudo_element token of
                None \<Rightarrow> cmp
              | Some e \<Rightarrow> Compound t ns cls i as pcs (Some e) root)
         | NoToken \<Rightarrow> cmp))"

text \<open>The content of an attribute selector, up to its closing bracket outside quotes.\<close>

fun scan_attribute :: "uchar option \<Rightarrow> ustr \<Rightarrow> ustr \<times> ustr" where
  "scan_attribute q [] = ([], [])"
| "scan_attribute (Some q) (c # s) =
     (case scan_attribute (if c = q then None else Some q) s of (content, r) \<Rightarrow> (c # content, r))"
| "scan_attribute None (c # s) =
     (if quote_mark c then (case scan_attribute (Some c) s of (content, r) \<Rightarrow> (c # content, r))
      else if c = 93 then ([], s)
      else (case scan_attribute None s of (content, r) \<Rightarrow> (c # content, r)))"

lemma scan_attribute_length: "length (snd (scan_attribute q s)) \<le> length s"
  by (induction q s rule: scan_attribute.induct) (auto split: prod.splits)

definition add_attribute :: "attribute_selector \<Rightarrow> compound_selector \<Rightarrow> compound_selector" where
  "add_attribute a cmp =
     (case cmp of Compound t ns cls i as pcs pe root \<Rightarrow> Compound t ns cls i (as @ [a]) pcs pe root)"

function compound_loop ::
  "(ustr \<Rightarrow> selector list) \<Rightarrow> compound_selector \<Rightarrow> (ustr \<times> ustr) list \<Rightarrow> ustr \<Rightarrow> token_kind \<Rightarrow> nat \<Rightarrow> ustr \<Rightarrow>
   compound_selector \<times> (ustr \<times> ustr) list" where
  "compound_loop sub cmp legacy current kind depth [] = (flush_compound_token sub kind current cmp, legacy)"
| "compound_loop sub cmp legacy current kind depth (c # s) =
     (if c = 40 then compound_loop sub cmp legacy (current @ [c]) kind (depth + 1) s
      else if c = 41 then compound_loop sub cmp legacy (current @ [c]) kind (depth - 1) s
      else if depth > 0 then compound_loop sub cmp legacy (current @ [c]) kind depth s
      else if c = 91 then
        (let comp1 = flush_compound_token sub kind current cmp; scanned = scan_attribute None s in
         case parse_attr_selector (fst scanned) of
           Some a \<Rightarrow> compound_loop sub (add_attribute a comp1) (legacy @ [(as_name a, as_value a)]) [] NoToken depth (snd scanned)
         | None \<Rightarrow> compound_loop sub comp1 legacy [] NoToken depth (snd scanned))
      else if c = 46 \<or> c = 35 \<or> c = 58 then
        (let comp1 = flush_compound_token sub kind current cmp in
         if c = 58 \<and> s \<noteq> [] \<and> hd s = 58 then compound_loop sub comp1 legacy [] ElementToken depth (tl s)
         else compound_loop sub comp1 legacy []
           (if c = 46 then ClassToken else if c = 35 then IdToken else PseudoToken) depth s)
      else compound_loop sub cmp legacy (current @ [c]) kind depth s)"
  by pat_completeness auto
termination
  by (relation "measure (\<lambda>(_, _, _, _, _, _, s). length s)")
    (auto simp: scan_attribute_length less_Suc_eq_le intro: le_trans [OF diff_le_self])

definition parse_single_compound ::
  "(ustr \<Rightarrow> selector list) \<Rightarrow> ustr \<Rightarrow> compound_selector \<times> (ustr \<times> ustr) list" where
  "parse_single_compound sub input =
     (let s = trim input in
      if s = [] then (empty_compound, [])
      else if s = lit '':root'' then (Compound None None [] None [] [] None True, [])
      else compound_loop sub empty_compound [] [] TypeToken 0 s)"

section \<open>Combinators\<close>

definition is_combinator_char :: "uchar \<Rightarrow> bool" where
  "is_combinator_char c \<longleftrightarrow> is_ascii_whitespace c \<or> c = 62 \<or> c = 43 \<or> c = 126"

definition combinator_of :: "ustr \<Rightarrow> combinator" where
  "combinator_of s = foldl (\<lambda>comb c. if c = 62 then Child else if c = 43 then AdjacentSibling
     else if c = 126 then GeneralSibling else comb) Descendant s"

definition push_compound ::
  "(ustr \<Rightarrow> selector list) \<Rightarrow> ustr \<Rightarrow> compound_selector list \<Rightarrow> compound_selector list" where
  "push_compound sub token comps =
     (if trim token = [] then comps
      else let cmp = fst (parse_single_compound sub (trim token))
           in if compound_is_empty cmp then comps else comps @ [cmp])"

function chain_scan ::
  "(ustr \<Rightarrow> selector list) \<Rightarrow> compound_selector list \<Rightarrow> combinator list \<Rightarrow> ustr \<Rightarrow> nat \<Rightarrow> nat \<Rightarrow> ustr \<Rightarrow>
   compound_selector list \<times> combinator list" where
  "chain_scan sub comps combs token brackets parens [] = (push_compound sub token comps, combs)"
| "chain_scan sub comps combs token brackets parens (c # s) =
     (if c = 91 then chain_scan sub comps combs (token @ [c]) (brackets + 1) parens s
      else if c = 93 then chain_scan sub comps combs (token @ [c]) (brackets - 1) parens s
      else if c = 40 then chain_scan sub comps combs (token @ [c]) brackets (parens + 1) s
      else if c = 41 then chain_scan sub comps combs (token @ [c]) brackets (parens - 1) s
      else if brackets = 0 \<and> parens = 0 \<and> is_combinator_char c then
        (let comps1 = push_compound sub token comps; token1 = (if trim token = [] then token else []) in
         chain_scan sub comps1
           (if comps1 = [] then combs else combs @ [combinator_of (takeWhile is_combinator_char (c # s))])
           token1 brackets parens (dropWhile is_combinator_char s))
      else chain_scan sub comps combs (token @ [c]) brackets parens s)"
  by pat_completeness auto
termination
  by (relation "measure (\<lambda>(_, _, _, _, _, _, s). length s)") (auto simp: less_Suc_eq_le length_dropWhile_le)

definition parse_selector_chain :: "(ustr \<Rightarrow> selector list) \<Rightarrow> ustr \<Rightarrow> selector option" where
  "parse_selector_chain sub input =
     (case chain_scan sub [] [] [] 0 0 input of
        (comps, combs) \<Rightarrow>
          if comps = [] then None
          else let target = last comps in
            Some (Selector (c_tag target)
              (case c_classes target of [] \<Rightarrow> None | c # _ \<Rightarrow> Some c) (c_id target)
              (map (\<lambda>a. (as_name a, as_value a)) (c_attributes target))
              (map (\<lambda>(k, c). \<lparr>sa_tag = c_tag c, sa_class = (case c_classes c of [] \<Rightarrow> None | d # _ \<Rightarrow> Some d),
                  sa_id = c_id c, sa_direct = (k < length combs \<and> combs ! k = Child)\<rparr>)
                (enumerate 0 (butlast comps)))
              (c_is_root target) comps combs))"

definition parse_compound :: "(ustr \<Rightarrow> selector list) \<Rightarrow> ustr \<Rightarrow> selector" where
  "parse_compound sub input =
     (case parse_single_compound sub input of
        (cmp, legacy) \<Rightarrow>
          Selector (c_tag cmp) (case c_classes cmp of [] \<Rightarrow> None | c # _ \<Rightarrow> Some c) (c_id cmp) legacy []
            (c_is_root cmp) [cmp] [])"

definition selector_parse_with :: "(ustr \<Rightarrow> selector list) \<Rightarrow> ustr \<Rightarrow> selector" where
  "selector_parse_with sub input =
     (let s = trim input in
      if s = lit '':root'' then Selector None None None [] [] True [Compound None None [] None [] [] None True] []
      else case parse_selector_chain sub s of
        Some parsed \<Rightarrow> (if s_components parsed \<noteq> [] then parsed else parse_compound sub s)
      | None \<Rightarrow> parse_compound sub s)"

section \<open>Selector lists\<close>

text \<open>The pieces between commas outside parentheses and brackets.\<close>

fun split_selectors :: "ustr \<Rightarrow> nat \<Rightarrow> nat \<Rightarrow> ustr \<Rightarrow> ustr list" where
  "split_selectors current parens brackets [] = (if trim current = [] then [] else [trim current])"
| "split_selectors current parens brackets (c # s) =
     (if c = 40 then split_selectors (current @ [c]) (parens + 1) brackets s
      else if c = 41 then split_selectors (current @ [c]) (parens - 1) brackets s
      else if c = 91 then split_selectors (current @ [c]) parens (brackets + 1) s
      else if c = 93 then split_selectors (current @ [c]) parens (brackets - 1) s
      else if c = 44 \<and> parens = 0 \<and> brackets = 0 then
        (if trim current = [] then [] else [trim current]) @ split_selectors [] parens brackets s
      else split_selectors (current @ [c]) parens brackets s)"

definition MAX_SELECTOR_NESTING_DEPTH :: nat where "MAX_SELECTOR_NESTING_DEPTH = 32"

text \<open>\<open>levels\<close> is what is left of the nesting budget.\<close>

primrec parse_selector_list :: "nat \<Rightarrow> ustr \<Rightarrow> selector list" where
  "parse_selector_list 0 input = []"
| "parse_selector_list (Suc levels) input =
     map (selector_parse_with (parse_selector_list levels)) (split_selectors [] 0 0 input)"

definition selector_parse :: "ustr \<Rightarrow> selector" where
  "selector_parse input = selector_parse_with (parse_selector_list MAX_SELECTOR_NESTING_DEPTH) input"

end
