(* ===== verification/Css_Cascade.thy ===== *)
theory Css_Cascade
  imports Css_Selector_Parser "HOL-Library.Product_Lexorder" "HOL-Library.Multiset"
begin

text \<open>
  The cascade of \<^verbatim>\<open>src/src/css_parser.rs\<close>: which declarations of the style rules apply to an
  element, and in which order \<^verbatim>\<open>compute_computed_style_full\<close> applies them. It also holds the
  laws of selector matching.
\<close>

section \<open>Rules and declarations\<close>

datatype css_origin = Author | User | UserAgent

record style_declaration =
  d_property :: ustr
  d_value :: ustr
  d_important :: bool
  d_origin :: css_origin
  d_layer :: "ustr option"
  d_layer_order :: "nat option"
  d_specificity :: specificity
  d_source_order :: nat

record css_rule =
  r_selectors :: "selector list"
  r_declarations :: "style_declaration list"
  r_specificity :: specificity
  r_origin :: css_origin
  r_layer :: "ustr option"
  r_layer_order :: "nat option"
  r_source_order :: nat

section \<open>Inline declarations\<close>

definition strip_important :: "ustr \<Rightarrow> ustr \<times> bool" where
  "strip_important v =
     (let s = trim v in
      if ends_with (lit ''!important'') (to_ascii_lowercase s)
      then (trim_end (take (length s - 10) s), True) else (s, False))"

definition parse_inline_declarations :: "ustr \<Rightarrow> style_declaration list" where
  "parse_inline_declarations s =
     concat (map (\<lambda>part.
       case split_once 58 (trim part) of
         None \<Rightarrow> []
       | Some (p, v) \<Rightarrow>
           (let prop = to_ascii_lowercase (trim p); (value, important) = strip_important (trim v) in
            if prop \<noteq> [] \<and> value \<noteq> []
            then [\<lparr>d_property = prop, d_value = value, d_important = important, d_origin = Author,
                   d_layer = None, d_layer_order = None, d_specificity = (0, 0, 0), d_source_order = 0\<rparr>]
            else []))
       (split_char 59 s))"

section \<open>Ranks\<close>

text \<open>Layers are ranked in 32 bits; among important declarations the earlier layer wins.\<close>

definition layer_rank :: "bool \<Rightarrow> nat option \<Rightarrow> u32" where
  "layer_rank important layer =
     (if important then (case layer of None \<Rightarrow> 0 | Some i \<Rightarrow> -1 - 1 - word_of_nat i)
      else (case layer of None \<Rightarrow> -1 | Some i \<Rightarrow> word_of_nat i))"

definition cascade_group :: "css_origin \<Rightarrow> bool \<Rightarrow> bool \<Rightarrow> nat" where
  "cascade_group origin important inline =
     (case origin of
        UserAgent \<Rightarrow> if important then 8 else 1
      | User \<Rightarrow> if important then 7 else 2
      | Author \<Rightarrow> if important then (if inline then 6 else 5) else (if inline then 4 else 3))"

type_synonym rank = "nat \<times> u32 \<times> specificity \<times> nat"

definition cascade_rank ::
  "css_origin \<Rightarrow> bool \<Rightarrow> bool \<Rightarrow> nat option \<Rightarrow> specificity \<Rightarrow> nat \<Rightarrow> rank" where
  "cascade_rank origin important inline layer spec source_order =
     (cascade_group origin important inline, layer_rank important layer, spec, source_order)"

section \<open>Matched declarations\<close>

record matched_decl =
  md_decl :: style_declaration
  md_origin :: css_origin
  md_layer_order :: "nat option"
  md_specificity :: specificity
  md_source_order :: nat
  md_is_inline :: bool

definition rank_of :: "matched_decl \<Rightarrow> rank" where
  "rank_of m = cascade_rank (md_origin m) (d_important (md_decl m)) (md_is_inline m) (md_layer_order m)
     (md_specificity m) (md_source_order m)"

text \<open>The highest specificity among the selectors of a rule that match.\<close>

definition best_specificity :: "selector list \<Rightarrow> matching_context \<Rightarrow> specificity option" where
  "best_specificity sels ctx =
     foldl (\<lambda>best s. if matches_context s ctx
         then (case best of None \<Rightarrow> Some (selector_spec s)
               | Some b \<Rightarrow> if spec_less b (selector_spec s) then Some (selector_spec s) else Some b)
         else best) None sels"

definition rule_declarations :: "matching_context \<Rightarrow> nat \<times> css_rule \<Rightarrow> matched_decl list" where
  "rule_declarations ctx = (\<lambda>(rule_idx, rule).
     case best_specificity (r_selectors rule) ctx of
       None \<Rightarrow> []
     | Some spec \<Rightarrow> map (\<lambda>d. \<lparr>md_decl = d, md_origin = r_origin rule, md_layer_order = r_layer_order rule,
         md_specificity = spec, md_source_order = rule_idx * 1000 + d_source_order d, md_is_inline = False\<rparr>)
         (r_declarations rule))"

definition inline_declarations :: "(ustr, ustr) btree \<Rightarrow> matched_decl list" where
  "inline_declarations m =
     map (\<lambda>(idx, d). \<lparr>md_decl = d, md_origin = Author, md_layer_order = None, md_specificity = (1, 0, 0),
         md_source_order = sat_add (u64_max - 1000) idx, md_is_inline = True\<rparr>)
       (enumerate 0 (case bt_get (lit ''style'') m of None \<Rightarrow> [] | Some s \<Rightarrow> parse_inline_declarations s))"

definition matched_declarations :: "css_rule list \<Rightarrow> matching_context \<Rightarrow> matched_decl list" where
  "matched_declarations rules ctx =
     concat (map (rule_declarations ctx) (enumerate 0 rules)) @ inline_declarations (m_attrs ctx)"

definition is_custom :: "matched_decl \<Rightarrow> bool" where
  "is_custom m = starts_with (lit ''--'') (trim (d_property (md_decl m)))"

text \<open>The order of application: custom properties first, each group in stable order of rank.\<close>

definition application_order :: "css_rule list \<Rightarrow> matching_context \<Rightarrow> matched_decl list" where
  "application_order rules ctx =
     (let sorted_decls = sort_key rank_of (matched_declarations rules ctx) in
      filter is_custom sorted_decls @ filter (\<lambda>m. \<not> is_custom m) sorted_decls)"

text \<open>The element's own context, as \<^verbatim>\<open>compute_computed_style_full\<close> builds it.\<close>

definition style_context ::
  "ustr \<Rightarrow> ustr list \<Rightarrow> ustr option \<Rightarrow> (ustr, ustr) btree \<Rightarrow> bool \<Rightarrow> element_ancestry list \<Rightarrow>
   sibling_context \<Rightarrow> matching_context" where
  "style_context t cls i m root ancs siblings =
     context_with_siblings t cls i m
       (root \<or> eq_ignore_ascii_case t (lit ''html'') \<or> eq_ignore_ascii_case t (lit '':root'')) ancs siblings"

section \<open>Selector matching against its declarative meaning\<close>

text \<open>What a chain of child and descendant combinators means: some strictly descending choice of
  ancestors, from \<open>cursor\<close> on, the parent itself where the combinator is a child combinator.\<close>

fun ancestors_match ::
  "((matching_context \<Rightarrow> bool) \<times> combinator) list \<Rightarrow> nat \<Rightarrow> matching_context \<Rightarrow> bool" where
  "ancestors_match [] cursor ctx = True"
| "ancestors_match ((matches, comb) # rest) cursor ctx =
     (if comb = Child
      then cursor < length (m_ancestors ctx) \<and> matches (ancestor_context ctx cursor) \<and>
        ancestors_match rest (cursor + 1) ctx
      else list_ex (\<lambda>index. matches (ancestor_context ctx index) \<and> ancestors_match rest (index + 1) ctx)
        [cursor..<length (m_ancestors ctx)])"

definition ancestor_combinators :: "((matching_context \<Rightarrow> bool) \<times> combinator) list \<Rightarrow> bool" where
  "ancestor_combinators l \<longleftrightarrow> snd ` set l \<subseteq> {Child, Descendant}"

text \<open>No child combinator stands to the left of a descendant combinator.\<close>

fun no_child_above :: "((matching_context \<Rightarrow> bool) \<times> combinator) list \<Rightarrow> bool" where
  "no_child_above [] = True"
| "no_child_above ((matches, comb) # rest) \<longleftrightarrow>
     (comb = Child \<and> no_child_above rest \<or> comb = Descendant \<and> snd ` set rest \<subseteq> {Descendant})"

lemma find_upt_Some:
  "List.find P [a..<b] = Some i \<longleftrightarrow> a \<le> i \<and> i < b \<and> P i \<and> (\<forall>j. a \<le> j \<and> j < i \<longrightarrow> \<not> P j)"
proof
  assume "List.find P [a..<b] = Some i"
  then obtain k where k: "k < b - a" "i = a + k" "P i" "\<forall>j<k. \<not> P (a + j)" by (auto simp: find_Some_iff)
  have "\<not> P j" if "a \<le> j" "j < i" for j
    using k(4) [rule_format, of "j - a"] that k(2) by simp
  with k show "a \<le> i \<and> i < b \<and> P i \<and> (\<forall>j. a \<le> j \<and> j < i \<longrightarrow> \<not> P j)" by simp
next
  assume i: "a \<le> i \<and> i < b \<and> P i \<and> (\<forall>j. a \<le> j \<and> j < i \<longrightarrow> \<not> P j)"
  then show "List.find P [a..<b] = Some i"
    by (auto simp: find_Some_iff intro!: exI [of _ "i - a"])
qed

lemma find_upt_None: "List.find P [a..<b] = None \<longleftrightarrow> (\<forall>i. a \<le> i \<and> i < b \<longrightarrow> \<not> P i)"
  by (auto simp: find_None_iff)

lemma chain_loop_sound:
  "ancestor_combinators l \<Longrightarrow> chain_loop l cursor ctx \<Longrightarrow> ancestors_match l cursor ctx"
proof (induction l arbitrary: cursor)
  case (Cons mc l)
  obtain matches comb where mc: "mc = (matches, comb)" by (cases mc)
  from Cons.prems(1) have l: "ancestor_combinators l" and comb: "comb = Child \<or> comb = Descendant"
    by (auto simp: ancestor_combinators_def mc)
  show ?case
  proof (cases "comb = Child")
    case True
    with Cons.IH [OF l] Cons.prems(2) mc show ?thesis by simp
  next
    case False
    with comb Cons.prems(2) mc obtain i where i: "find_ancestor matches ctx cursor = Some i"
      and rest: "chain_loop l (i + 1) ctx" by (auto split: option.splits)
    from i have "cursor \<le> i" "i < length (m_ancestors ctx)" "matches (ancestor_context ctx i)"
      by (auto simp: find_ancestor_def find_upt_Some)
    with Cons.IH [OF l rest] False mc show ?thesis by (auto simp: list_ex_iff)
  qed
qed simp

text \<open>With descendant combinators only, starting further down never hurts, so taking the nearest match is
  as good as any.\<close>

lemma descendants_mono:
  "snd ` set l \<subseteq> {Descendant} \<Longrightarrow> a \<le> b \<Longrightarrow> ancestors_match l b ctx \<Longrightarrow> ancestors_match l a ctx"
  by (cases l) (auto simp: list_ex_iff, metis atLeastLessThan_iff le_trans)

lemma chain_loop_complete:
  "no_child_above l \<Longrightarrow> ancestors_match l cursor ctx \<Longrightarrow> chain_loop l cursor ctx"
proof (induction l arbitrary: cursor)
  case (Cons mc l)
  obtain matches comb where mc: "mc = (matches, comb)" by (cases mc)
  show ?case
  proof (cases "comb = Child")
    case True
    with Cons mc show ?thesis by simp
  next
    case False
    with Cons.prems(1) mc have d: "comb = Descendant" "snd ` set l \<subseteq> {Descendant}" by auto
    have safe: "no_child_above l" using d(2) by (cases l) auto
    from Cons.prems(2) mc False obtain i where i: "cursor \<le> i" "i < length (m_ancestors ctx)"
      "matches (ancestor_context ctx i)" "ancestors_match l (i + 1) ctx" by (auto simp: list_ex_iff)
    then obtain j where j: "find_ancestor matches ctx cursor = Some j"
      by (cases "find_ancestor matches ctx cursor") (auto simp: find_ancestor_def find_upt_None)
    then have "j \<le> i" using i by (auto simp: find_ancestor_def find_upt_Some not_le [symmetric])
    with descendants_mono [OF d(2) _ i(4)] have "ancestors_match l (j + 1) ctx" by simp
    with Cons.IH [OF safe] j d mc show ?thesis by simp
  qed
qed simp

text \<open>The same for a whole selector: the compounds and combinators of a chain, as the loop walks them.\<close>

definition chain_links :: "(matching_context \<Rightarrow> bool) list \<Rightarrow> combinator list \<Rightarrow> ((matching_context \<Rightarrow> bool) \<times> combinator) list" where
  "chain_links comps combs = rev (map (\<lambda>i. (comps ! i, combinator_at combs i)) [0..<length comps - 1])"

definition selector_means :: "selector \<Rightarrow> matching_context \<Rightarrow> bool" where
  "selector_means s ctx \<longleftrightarrow>
     (let comps = map matches_element_context (s_components s) in
      \<not> (s_is_root s \<and> \<not> m_is_root ctx) \<and> last comps ctx \<and>
      ancestors_match (chain_links comps (s_combinators s)) 0 ctx)"

definition selector_links :: "selector \<Rightarrow> ((matching_context \<Rightarrow> bool) \<times> combinator) list" where
  "selector_links s = chain_links (map matches_element_context (s_components s)) (s_combinators s)"

lemma matches_context_links:
  assumes "s_components s \<noteq> []"
  shows "matches_context s ctx \<longleftrightarrow> \<not> (s_is_root s \<and> \<not> m_is_root ctx) \<and>
    last (map matches_element_context (s_components s)) ctx \<and> chain_loop (selector_links s) 0 ctx"
  using assms by (cases s) (simp add: chain_matches_def selector_links_def chain_links_def)

lemma selector_refines:
  assumes "s_components s \<noteq> []" and "ancestor_combinators (selector_links s)"
  shows "(matches_context s ctx \<longrightarrow> selector_means s ctx) \<and>
    (no_child_above (selector_links s) \<longrightarrow> (matches_context s ctx \<longleftrightarrow> selector_means s ctx))"
  using matches_context_links [OF assms(1), of ctx] chain_loop_sound [OF assms(2), of 0 ctx]
    chain_loop_complete [of "selector_links s" 0 ctx]
  by (auto simp: selector_means_def selector_links_def Let_def)

text \<open>C17. Selector matching implements the meaning of a selector with child and descendant combinators: a
  match always has the ancestors that the selector asks for, and where no child combinator stands to the
  left of a descendant combinator, taking the nearest matching ancestor at each step finds a match whenever
  there is one.\<close>

theorem selector_matching_refines:
  assumes "s_components s \<noteq> []" and "ancestor_combinators (selector_links s)"
  shows "(matches_context s ctx \<longrightarrow> selector_means s ctx) \<and>
    (no_child_above (selector_links s) \<longrightarrow> (matches_context s ctx \<longleftrightarrow> selector_means s ctx))"
  by (rule selector_refines [OF assms])

section \<open>The winning declaration\<close>




section \<open>Where matching and cascade deviate\<close>

definition sample_ancestor :: "string \<Rightarrow> element_ancestry" where
  "sample_ancestor t = \<lparr>ea_tag = lit t, ea_classes = [], ea_id = None, ea_attrs = []\<rparr>"

definition type_selector :: "string \<Rightarrow> compound_selector" where
  "type_selector t = Compound (Some (lit t)) None [] None [] [] None False"

lemmas selector_parse_eval =
  selector_parse_def selector_parse_with_def parse_selector_chain_def push_compound_def parse_single_compound_def
  flush_compound_token_def combinator_of_def is_combinator_char_def is_ascii_whitespace_def trim_def trim_start_def
  trim_end_def is_whitespace_def split_once_def to_ascii_lowercase_def ascii_lower_def is_ascii_upper_def
  empty_compound_def compound_is_empty_def parse_pseudo_element_def lit_def type_selector_def

lemma parse_child_descendant:
  "s_components (selector_parse (lit ''a>b c'')) = [type_selector ''a'', type_selector ''b'', type_selector ''c''] \<and>
   s_combinators (selector_parse (lit ''a>b c'')) = [Child, Descendant] \<and>
   \<not> s_is_root (selector_parse (lit ''a>b c''))"
  by (simp add: selector_parse_eval)

lemma matches_type_selector:
  "lit t \<noteq> star \<Longrightarrow> matches_element_context (type_selector t) ctx \<longleftrightarrow> eq_ignore_ascii_case (lit t) (m_tag ctx)"
  by (simp add: type_selector_def tag_matches_def id_matches_def)

lemmas match_eval =
  matches_type_selector star_def lit_def eq_ignore_ascii_case_def to_ascii_lowercase_def ascii_lower_def
  is_ascii_upper_def simple_context_def ancestor_context_def sibling_matching_context_def sample_ancestor_def
  find_ancestor_def combinator_at_def upt_rec Let_def

text \<open>The nearest matching ancestor is not always the right one: below a \<^verbatim>\<open>b\<close> inside a
  \<^verbatim>\<open>b\<close> inside an \<^verbatim>\<open>a\<close>, the element \<^verbatim>\<open>c\<close> is what
  \<^verbatim>\<open>a>b c\<close> means, but matching, which does not go back to the outer \<^verbatim>\<open>b\<close>,
  rejects it.\<close>

theorem nearest_ancestor_misses_match:
  "let s = selector_parse (lit ''a>b c'');
       ctx = simple_context (lit ''c'') [] None [] False [sample_ancestor ''b'', sample_ancestor ''b'', sample_ancestor ''a'']
   in selector_means s ctx \<and> \<not> matches_context s ctx"
proof -
  let ?s = "selector_parse (lit ''a>b c'')"
  let ?ctx = "simple_context (lit ''c'') [] None [] False [sample_ancestor ''b'', sample_ancestor ''b'', sample_ancestor ''a'']"
  note parsed = parse_child_descendant
  have links: "selector_links ?s = [(matches_element_context (type_selector ''b''), Descendant),
      (matches_element_context (type_selector ''a''), Child)]"
    using parsed by (simp add: selector_links_def chain_links_def combinator_at_def upt_rec)
  have "selector_means ?s ?ctx"
    using parsed links by (simp add: selector_means_def selector_links_def Let_def) (simp add: match_eval)
  moreover have "\<not> chain_loop (selector_links ?s) 0 ?ctx"
    unfolding links by (simp add: match_eval)
  ultimately show ?thesis
    using matches_context_links [of ?s ?ctx] parsed by (simp add: Let_def)
qed

text \<open>A second sibling combinator looks at the same sibling again; a pseudo-element is no condition; and an
  argument list beyond the nesting budget is empty, so that \<^verbatim>\<open>:not\<close> holds of everything.\<close>

lemma sibling_chain_misses_match:
  "let s = selector_parse (lit ''a+b+c'');
       ctx = (simple_context (lit ''c'') [] None [] False [])\<lparr>m_previous_siblings := [sample_ancestor ''a'', sample_ancestor ''b'']\<rparr>
   in s_combinators s = [AdjacentSibling, AdjacentSibling] \<and> \<not> matches_context s ctx"
proof -
  let ?s = "selector_parse (lit ''a+b+c'')"
  let ?ctx = "(simple_context (lit ''c'') [] None [] False [])\<lparr>m_previous_siblings := [sample_ancestor ''a'', sample_ancestor ''b'']\<rparr>"
  have parsed: "s_components ?s = [type_selector ''a'', type_selector ''b'', type_selector ''c'']"
    "s_combinators ?s = [AdjacentSibling, AdjacentSibling]"
    by (simp_all add: selector_parse_eval)
  then have "selector_links ?s = [(matches_element_context (type_selector ''b''), AdjacentSibling),
      (matches_element_context (type_selector ''a''), AdjacentSibling)]"
    by (simp add: selector_links_def chain_links_def combinator_at_def upt_rec)
  then have "\<not> chain_loop (selector_links ?s) 0 ?ctx" by (simp add: match_eval)
  with parsed matches_context_links [of ?s ?ctx] show ?thesis by (simp add: Let_def)
qed

lemma pseudo_element_matches_element:
  "matches_context (selector_parse (lit ''p::before'')) (simple_context (lit ''p'') [] None [] False [])"
proof -
  let ?s = "selector_parse (lit ''p::before'')"
  have parsed: "s_components ?s = [Compound (Some (lit ''p'')) None [] None [] [] (Some Before) False]"
    "\<not> s_is_root ?s"
    by (simp_all add: selector_parse_eval)
  then have "selector_links ?s = []" by (simp add: selector_links_def chain_links_def)
  with parsed matches_context_links [of ?s] show ?thesis
    by (simp add: tag_matches_def id_matches_def match_eval)
qed

lemma exhausted_not_matches_everything: "match_pseudo_class (NotClass (parse_selector_list 0 input)) ctx"
  by simp

text \<open>The rank of a declaration adds a per-sheet counter to a thousand times the position of its rule: after
  a rule whose counter is beyond a thousand, the next rule ranks below it.\<close>

definition sample_rule :: "nat \<Rightarrow> css_rule" where
  "sample_rule order = \<lparr>r_selectors = [Selector None None None [] [] False [] []],
     r_declarations = [\<lparr>d_property = lit ''color'', d_value = [], d_important = False, d_origin = Author,
       d_layer = None, d_layer_order = None, d_specificity = (0, 0, 0), d_source_order = order\<rparr>],
     r_specificity = (0, 0, 0), r_origin = Author, r_layer = None, r_layer_order = None, r_source_order = order\<rparr>"

lemma later_rule_ranks_below:
  "map md_source_order (application_order [sample_rule 1500, sample_rule 1] (simple_context (lit ''p'') [] None [] False []))
   = [1001, 1500]"
  by (simp add: application_order_def matched_declarations_def rule_declarations_def best_specificity_def
      inline_declarations_def sample_rule_def matches_legacy_def tag_matches_def id_matches_def simple_context_def
      counts_as_tag_def bt_get_def rank_of_def cascade_rank_def cascade_group_def layer_rank_def is_custom_def
      starts_with_def lit_def trim_def trim_start_def trim_end_def is_whitespace_def Let_def)

section \<open>Witnesses\<close>

theorem selector_matching_refines_witness:
  "selector_means (selector_parse (lit ''a>b c'')) (simple_context (lit ''c'') [] None [] False
     [sample_ancestor ''b'', sample_ancestor ''a''])"
proof -
  let ?s = "selector_parse (lit ''a>b c'')"
  let ?ctx = "simple_context (lit ''c'') [] None [] False [sample_ancestor ''b'', sample_ancestor ''a'']"
  have links: "selector_links ?s = [(matches_element_context (type_selector ''b''), Descendant),
      (matches_element_context (type_selector ''a''), Child)]"
    using parse_child_descendant by (simp add: selector_links_def chain_links_def combinator_at_def upt_rec)
  then have "ancestor_combinators (selector_links ?s)" by (simp add: ancestor_combinators_def)
  moreover have "chain_loop (selector_links ?s) 0 ?ctx" unfolding links by (simp add: match_eval)
  then have "matches_context ?s ?ctx"
    using matches_context_links [of ?s ?ctx] parse_child_descendant by (simp add: match_eval)
  ultimately show ?thesis using selector_matching_refines [of ?s ?ctx] parse_child_descendant by simp
qed


end
