(* ===== verification/Float_Text.thy ===== *)
theory Float_Text
  imports Unicode_Text Soft_Float
begin

text \<open>
  Rust's \<^verbatim>\<open>str::parse::<f64>\<close>: decimal text to the nearest binary64 number.
\<close>

section \<open>Decimal numbers\<close>

fun decimal_value :: "nat \<Rightarrow> ustr \<Rightarrow> nat" where
  "decimal_value n [] = n"
| "decimal_value n (c # s) = decimal_value (10 * n + (c - 48)) s"

text \<open>The bits of \<open>m * 10 ^ e\<close>, correctly rounded.\<close>

definition decimal_bits :: "bool \<Rightarrow> nat \<Rightarrow> int \<Rightarrow> nat" where
  "decimal_bits s m e =
     (if 0 \<le> e then fp_round f64_format s (m * 10 ^ nat e) 0
      else let d = 10 ^ nat (- e); k = bit_length d + 64
           in fp_round f64_format s (sticky_div k m d) (- int k - 1))"

text \<open>An exponent part: nothing, or \<^verbatim>\<open>e\<close> with an optional sign and digits up to the end.\<close>

definition exponent_value :: "ustr \<Rightarrow> int option" where
  "exponent_value s =
     (case s of
        [] \<Rightarrow> Some 0
      | c # r \<Rightarrow>
          if c \<noteq> of_char CHR ''e'' \<and> c \<noteq> of_char CHR ''E'' then None
          else
            let neg = (r \<noteq> [] \<and> hd r = of_char CHR ''-'');
                ds = (if r \<noteq> [] \<and> (hd r = of_char CHR ''-'' \<or> hd r = of_char CHR ''+'') then tl r else r)
            in if ds = [] \<or> \<not> list_all is_ascii_digit ds then None
               else Some (if neg then - int (decimal_value 0 ds) else int (decimal_value 0 ds)))"

definition unsigned_f64 :: "bool \<Rightarrow> ustr \<Rightarrow> f64 option" where
  "unsigned_f64 neg s =
     (let low = to_ascii_lowercase s; whole = takeWhile is_ascii_digit s; r = dropWhile is_ascii_digit s;
          point = (r \<noteq> [] \<and> hd r = of_char CHR ''.'');
          fraction = (if point then takeWhile is_ascii_digit (tl r) else []);
          r2 = (if point then dropWhile is_ascii_digit (tl r) else r)
      in if low = lit ''inf'' \<or> low = lit ''infinity''
         then Some (of_nat (fp_with_sign f64_format neg (fp_inf_bits f64_format)))
         else if low = lit ''nan'' then Some (if neg then 0xFFF8000000000000 else 0x7FF8000000000000)
         else if whole = [] \<and> fraction = [] then None
         else map_option (\<lambda>e. of_nat (decimal_bits neg (decimal_value 0 (whole @ fraction)) (e - int (length fraction))))
                (exponent_value r2))"

definition parse_f64_text :: "ustr \<Rightarrow> f64 option" where
  "parse_f64_text s =
     (case s of
        [] \<Rightarrow> None
      | c # r \<Rightarrow>
          if c = of_char CHR ''-'' then unsigned_f64 True r
          else if c = of_char CHR ''+'' then unsigned_f64 False r
          else unsigned_f64 False s)"

end
