(* ===== verification/Css_Sheet.thy ===== *)
theory Css_Sheet
  imports Css_Cascade Float_Text
begin

text \<open>
  Style sheets of \<^verbatim>\<open>src/src/css_parser.rs\<close>: comments, at-rules with their conditions, and the rules with their
  declarations. A panic is an error value; everything else in a sheet is either read or skipped.
\<close>

section \<open>Characters\<close>

abbreviation (input) OPEN_BRACE :: uchar where "OPEN_BRACE \<equiv> 123"
abbreviation (input) CLOSE_BRACE :: uchar where "CLOSE_BRACE \<equiv> 125"
abbreviation (input) OPEN_PAREN :: uchar where "OPEN_PAREN \<equiv> 40"
abbreviation (input) CLOSE_PAREN :: uchar where "CLOSE_PAREN \<equiv> 41"
abbreviation (input) SEMICOLON :: uchar where "SEMICOLON \<equiv> 59"
abbreviation (input) COLON :: uchar where "COLON \<equiv> 58"
abbreviation (input) BACKSLASH :: uchar where "BACKSLASH \<equiv> 92"
abbreviation (input) AT_SIGN :: uchar where "AT_SIGN \<equiv> 64"

definition css_quote :: "uchar \<Rightarrow> bool" where
  "css_quote c \<longleftrightarrow> c = 34 \<or> c = 39"

section \<open>Comments\<close>

text \<open>The text behind the opening of a comment, from its end; a comment that is not closed takes all.\<close>

fun skip_comment :: "ustr \<Rightarrow> ustr" where
  "skip_comment (c # d # s) = (if c = 42 \<and> d = 47 then s else skip_comment (d # s))"
| "skip_comment s = []"

lemma skip_comment_length: "length (skip_comment s) \<le> length s"
  by (induction s rule: skip_comment.induct) auto

function strip_comments :: "uchar option \<Rightarrow> ustr \<Rightarrow> ustr" where
  "strip_comments q [] = []"
| "strip_comments (Some q) (c # s) =
     (if c = BACKSLASH \<and> s \<noteq> [] then c # hd s # strip_comments (Some q) (tl s)
      else c # strip_comments (if c = q then None else Some q) s)"
| "strip_comments None (c # s) =
     (if css_quote c then c # strip_comments (Some c) s
      else if c = 47 \<and> s \<noteq> [] \<and> hd s = 42 then strip_comments None (skip_comment (tl s))
      else c # strip_comments None s)"
  by pat_completeness auto
termination
proof (relation "measure (\<lambda>(_, s). length s)", goal_cases)
  case (5 c s)
  then show ?case using skip_comment_length [of "tl s"] by (auto simp: less_Suc_eq_le intro: le_trans)
qed auto

definition strip_css_comments :: "ustr \<Rightarrow> ustr" where
  "strip_css_comments s = strip_comments None s"

section \<open>Splitting at a text\<close>

text \<open>\<^verbatim>\<open>str::split\<close> and \<^verbatim>\<open>str::split_once\<close> at a pattern that is not empty.\<close>

function split_on :: "ustr \<Rightarrow> ustr \<Rightarrow> ustr list" where
  "split_on p [] = [[]]"
| "split_on p (c # s) =
     (case (if p = [] then None else strip_prefix p (c # s)) of
        Some r \<Rightarrow> [] # split_on p r
      | None \<Rightarrow> (case split_on p s of [] \<Rightarrow> [[c]] | w # ws \<Rightarrow> (c # w) # ws))"
  by pat_completeness auto
termination
proof (relation "measure (\<lambda>(_, s). length s)", goal_cases)
  case (3 p c s r)
  then have "p \<noteq> []" "c # s = p @ r" by (auto simp: strip_prefix_eq_Some split: if_splits)
  then have "length r < length (c # s)" by (cases p) auto
  then show ?case by simp
qed auto

fun split_once_on :: "ustr \<Rightarrow> ustr \<Rightarrow> (ustr \<times> ustr) option" where
  "split_once_on p [] = None"
| "split_once_on p (c # s) =
     (case strip_prefix p (c # s) of
        Some r \<Rightarrow> Some ([], r)
      | None \<Rightarrow> map_option (\<lambda>(a, b). (c # a, b)) (split_once_on p s))"

definition strip_text_suffix :: "ustr \<Rightarrow> ustr \<Rightarrow> ustr option" where
  "strip_text_suffix p s = (if ends_with p s then Some (take (length s - length p) s) else None)"

definition trim_char :: "uchar \<Rightarrow> ustr \<Rightarrow> ustr" where
  "trim_char q s = rev (dropWhile (\<lambda>c. c = q) (rev (dropWhile (\<lambda>c. c = q) s)))"

section \<open>Media queries\<close>

text \<open>\<^verbatim>\<open>value.max(0.0) as u32\<close>.\<close>

definition u32_of_f64 :: "f64 \<Rightarrow> nat" where
  "u32_of_f64 x =
     (case f64_value x of
        FNaN \<Rightarrow> 0
      | FInf s \<Rightarrow> if s then 0 else 2 ^ 32 - 1
      | FFin s m e \<Rightarrow> if s then 0 else min (2 ^ 32 - 1) (if 0 \<le> e then m * 2 ^ nat e else m div 2 ^ nat (- e)))"

definition parse_media_length :: "ustr \<Rightarrow> nat option" where
  "parse_media_length v =
     (let s = trim v
      in map_option u32_of_f64 (parse_f64_text (trim (case strip_text_suffix (lit ''px'') s of None \<Rightarrow> s | Some r \<Rightarrow> r))))"

text \<open>A comparison of the width, where the text has one: the limit behind the operator.\<close>

definition width_limit :: "string \<Rightarrow> ustr \<Rightarrow> nat option" where
  "width_limit op s =
     (case split_once_on (lit op) s of
        None \<Rightarrow> None
      | Some (l, r) \<Rightarrow> (case parse_media_length r of None \<Rightarrow> None | Some v \<Rightarrow> if trim l = lit ''width'' then Some v else None))"

definition media_term_matches :: "nat \<Rightarrow> ustr \<Rightarrow> bool" where
  "media_term_matches width t0 =
     (let t = trim t0 in
      if eq_ignore_ascii_case t (lit ''all'') \<or> eq_ignore_ascii_case t (lit ''screen'') then True
      else if t \<noteq> [] \<and> hd t = OPEN_PAREN \<and> last t = CLOSE_PAREN then
        let inner = trim (butlast (tl t)) in
        case strip_prefix (lit ''max-width:'') inner of
          Some r \<Rightarrow> (case parse_media_length r of None \<Rightarrow> False | Some v \<Rightarrow> width \<le> v)
        | None \<Rightarrow>
            (case strip_prefix (lit ''min-width:'') inner of
               Some r \<Rightarrow> (case parse_media_length r of None \<Rightarrow> False | Some v \<Rightarrow> v \<le> width)
             | None \<Rightarrow>
                 (case width_limit ''<='' inner of
                    Some v \<Rightarrow> width \<le> v
                  | None \<Rightarrow> (case width_limit ''>='' inner of Some v \<Rightarrow> v \<le> width | None \<Rightarrow> False)))
      else False)"

definition media_part_matches :: "nat \<Rightarrow> ustr \<Rightarrow> bool" where
  "media_part_matches width part =
     (case strip_prefix (lit ''not '') part of
        Some r \<Rightarrow> \<not> media_term_matches width (trim r)
      | None \<Rightarrow> media_term_matches width part)"

definition media_query_matches :: "ustr \<Rightarrow> nat \<Rightarrow> bool" where
  "media_query_matches condition width =
     list_ex (\<lambda>alternative.
         list_all (media_part_matches width) (filter (\<lambda>part. part \<noteq> []) (map trim (split_on (lit ''and'') alternative))))
       (split_char 44 condition)"

section \<open>Feature queries\<close>

definition MAX_MATH_DEPTH :: nat where "MAX_MATH_DEPTH = 64"

text \<open>The pieces of a condition between the occurrences of a keyword outside parentheses.\<close>

function split_supports :: "ustr \<Rightarrow> nat \<Rightarrow> ustr \<Rightarrow> ustr \<Rightarrow> ustr list" where
  "split_supports kw depth piece [] = [piece]"
| "split_supports kw depth piece (c # s) =
     (if c = OPEN_PAREN then split_supports kw (depth + 1) (piece @ [c]) s
      else if c = CLOSE_PAREN then split_supports kw (depth - 1) (piece @ [c]) s
      else if c = 32 \<and> depth = 0 \<and> starts_with kw (to_ascii_lowercase (c # s)) \<and> kw \<noteq> []
      then piece # split_supports kw depth [] (drop (length kw) (c # s))
      else split_supports kw depth (piece @ [c]) s)"
  by pat_completeness auto
termination
  by (relation "measure (\<lambda>(_, _, _, s). length s)") auto

definition split_supports_top_level :: "ustr \<Rightarrow> ustr \<Rightarrow> ustr list" where
  "split_supports_top_level s kw = split_supports kw 0 [] s"

text \<open>The leading \<^verbatim>\<open>not\<close>s of a condition: how many, and what they negate.\<close>

function strip_nots :: "ustr \<Rightarrow> nat \<times> ustr" where
  "strip_nots s =
     (if 4 \<le> length s \<and> eq_ignore_ascii_case (take 4 s) (lit ''not '')
      then (case strip_nots (trim_start (drop 4 s)) of (n, r) \<Rightarrow> (Suc n, r)) else (0, s))"
  by pat_completeness auto
termination
  by (relation "measure length") (auto simp: trim_start_def intro!: le_less_trans [OF length_dropWhile_le])

declare strip_nots.simps [simp del]

definition SUPPORTED_PROPERTIES :: "string list" where
  "SUPPORTED_PROPERTIES = [''display'', ''position'', ''color'', ''background'', ''background-color'', ''width'', ''height'',
     ''min-width'', ''max-width'', ''margin'', ''padding'', ''border'', ''flex'', ''flex-direction'', ''grid'',
     ''grid-template-columns'', ''gap'', ''transform'', ''transition'', ''animation'', ''opacity'', ''overflow'', ''z-index'']"

definition is_property_value_supported :: "ustr \<Rightarrow> ustr \<Rightarrow> bool" where
  "is_property_value_supported p v \<longleftrightarrow> to_ascii_lowercase p \<in> set (map lit SUPPORTED_PROPERTIES)"

text \<open>A condition that is neither negated nor split: what is in parentheses, or anything else, which holds.\<close>

definition supports_feature :: "ustr \<Rightarrow> bool" where
  "supports_feature s =
     (if s \<noteq> [] \<and> hd s = OPEN_PAREN \<and> last s = CLOSE_PAREN then
        let inner = trim (butlast (tl s)) in
        case split_once COLON inner of
          Some (p, v) \<Rightarrow> is_property_value_supported (trim p) (trim v)
        | None \<Rightarrow>
            (case strip_prefix (lit ''selector('') inner of
               None \<Rightarrow> True
             | Some r \<Rightarrow> (case strip_text_suffix [CLOSE_PAREN] r of
                   None \<Rightarrow> True
                 | Some sel \<Rightarrow> parse_selector_list MAX_SELECTOR_NESTING_DEPTH sel \<noteq> []))
      else True)"

text \<open>\<open>levels\<close> is what is left of the nesting budget.\<close>

primrec supports_bounded :: "nat \<Rightarrow> ustr \<Rightarrow> bool" where
  "supports_bounded 0 condition = False"
| "supports_bounded (Suc levels) condition =
     (let s = trim condition; (negations, rest) = strip_nots s in
      if s = [] then True
      else if negations > 0 \<and> rest \<noteq> [] then
        (if odd negations then \<not> supports_bounded levels rest else supports_bounded levels rest)
      else if contains (lit '' or '') s \<or> contains (lit '' OR '') s then
        list_ex (supports_bounded levels) (split_supports_top_level s (lit '' or ''))
      else if contains (lit '' and '') s \<or> contains (lit '' AND '') s then
        list_all (supports_bounded levels) (split_supports_top_level s (lit '' and ''))
      else supports_feature s)"

definition supports_query_matches :: "ustr \<Rightarrow> bool" where
  "supports_query_matches condition = supports_bounded (Suc MAX_MATH_DEPTH) (trim condition)"

section \<open>Imports\<close>

definition parse_import_url :: "ustr \<Rightarrow> ustr option" where
  "parse_import_url s0 =
     (let s = trim s0 in
      case strip_prefix (lit ''url('') s of
        Some r \<Rightarrow> Some (trim_char 39 (trim_char 34 (trim (takeWhile (\<lambda>c. c \<noteq> CLOSE_PAREN) r))))
      | None \<Rightarrow>
          if s \<noteq> [] \<and> css_quote (hd s) \<and> hd s \<in> set (tl s) then Some (takeWhile (\<lambda>c. c \<noteq> hd s) (tl s)) else None)"

section \<open>Declarations\<close>

text \<open>Where a sheet or the body of an at-rule is read: its origin and its layer.\<close>

record sheet_context =
  sc_viewport :: nat
  sc_origin :: css_origin
  sc_layer :: "ustr option"
  sc_layer_order :: "nat option"

text \<open>The value of a declaration, up to a semicolon outside parentheses or a closing brace, both outside strings.\<close>

fun scan_value :: "nat \<Rightarrow> uchar option \<Rightarrow> ustr \<Rightarrow> ustr \<times> ustr" where
  "scan_value depth q [] = ([], [])"
| "scan_value depth (Some q) (c # s) =
     (if c = BACKSLASH \<and> s \<noteq> [] then (case scan_value depth (Some q) (tl s) of (v, r) \<Rightarrow> (c # hd s # v, r))
      else (case scan_value depth (if c = q then None else Some q) s of (v, r) \<Rightarrow> (c # v, r)))"
| "scan_value depth None (c # s) =
     (if c = SEMICOLON \<and> depth = 0 \<or> c = CLOSE_BRACE then ([], c # s)
      else (case scan_value (if c = OPEN_PAREN then depth + 1 else if c = CLOSE_PAREN then depth - 1 else depth)
                   (if css_quote c then Some c else None) s of
              (v, r) \<Rightarrow> (c # v, r)))"

lemma scan_value_append: "fst (scan_value depth q s) @ snd (scan_value depth q s) = s"
proof (induction depth q s rule: scan_value.induct)
  case (2 depth q c s)
  then show ?case by (cases "c = BACKSLASH \<and> s \<noteq> []") (auto simp: split_beta)
qed (auto simp: split_beta)

lemma scan_value_length: "scan_value depth q s = (v, r) \<Longrightarrow> length r \<le> length s"
  using scan_value_append [of depth q s] by (metis fst_conv snd_conv length_append le_add2)

definition declaration_of :: "sheet_context \<Rightarrow> nat \<Rightarrow> ustr \<Rightarrow> ustr \<times> bool \<Rightarrow> style_declaration" where
  "declaration_of ctx n p v =
     \<lparr>d_property = p, d_value = fst v, d_important = snd v, d_origin = sc_origin ctx, d_layer = sc_layer ctx,
      d_layer_order = sc_layer_order ctx, d_specificity = (0, 0, 0), d_source_order = n\<rparr>"

definition ends_property :: "uchar \<Rightarrow> bool" where
  "ends_property c \<longleftrightarrow> c = COLON \<or> c = CLOSE_BRACE \<or> c = SEMICOLON"

lemma declaration_shrinks:
  assumes "r = dropWhile P (dropWhile is_whitespace s0)" and "r \<noteq> []" and "scan_value 0 None (tl r) = (v, r2)"
  shows "length (if r2 \<noteq> [] \<and> hd r2 = c then tl r2 else r2) < length s0"
proof -
  have "length r2 \<le> length (tl r)" using assms(3) by (rule scan_value_length)
  also have "\<dots> < length r" using assms(2) by simp
  also have "\<dots> \<le> length s0" using assms(1) by (simp add: le_trans [OF length_dropWhile_le length_dropWhile_le])
  finally show ?thesis by (simp add: less_imp_diff_less)
qed

function declarations :: "sheet_context \<Rightarrow> nat \<Rightarrow> ustr \<Rightarrow> style_declaration list \<times> nat \<times> ustr" where
  "declarations ctx n s0 =
     (let s = dropWhile is_whitespace s0; p = takeWhile (\<lambda>c. \<not> ends_property c) s; r = dropWhile (\<lambda>c. \<not> ends_property c) s in
      if s = [] \<or> hd s = CLOSE_BRACE then ([], n, s)
      else if r = [] \<or> hd r \<noteq> COLON then declarations ctx n (if r \<noteq> [] \<and> hd r = SEMICOLON then tl r else r)
      else
        let (v, r2) = scan_value 0 None (tl r); value = strip_important (trim v); name = to_ascii_lowercase (trim p);
            r3 = (if r2 \<noteq> [] \<and> hd r2 = SEMICOLON then tl r2 else r2)
        in if name \<noteq> [] \<and> fst value \<noteq> []
           then (case declarations ctx (n + 1) r3 of (ds, m, rest) \<Rightarrow> (declaration_of ctx (n + 1) name value # ds, m, rest))
           else declarations ctx n r3)"
  by pat_completeness auto
termination
proof (relation "measure (\<lambda>(_, _, s). length s)", goal_cases)
  case (2 ctx n s0 s p r)
  then have ne: "s \<noteq> []" "hd s \<noteq> CLOSE_BRACE" and r: "r = [] \<or> hd r \<noteq> COLON" and s: "s = p @ r" by auto
  have "length (if r \<noteq> [] \<and> hd r = SEMICOLON then tl r else r) < length s"
  proof (cases p)
    case Nil
    then have "r = s" using s by simp
    moreover have "ends_property (hd s)" using Nil ne 2(2) by (cases s) (auto split: if_splits)
    ultimately show ?thesis using ne r by (auto simp: ends_property_def)
  next
    case (Cons c p')
    then show ?thesis using s by (auto simp: diff_le_self le_imp_less_Suc trans_le_add2)
  qed
  moreover have "length s \<le> length s0" using 2(1) by (simp add: length_dropWhile_le)
  ultimately show ?case by simp
next
  case (3 ctx n s0 s p r x v r2 w name r3)
  then show ?case using declaration_shrinks [of r "\<lambda>c. \<not> ends_property c" s0 v r2 SEMICOLON] by simp
next
  case (4 ctx n s0 s p r x v r2 w name r3)
  then show ?case using declaration_shrinks [of r "\<lambda>c. \<not> ends_property c" s0 v r2 SEMICOLON] by simp
qed auto

declare declarations.simps [simp del]

lemma declarations_length: "declarations ctx n s = (ds, m, r) \<Longrightarrow> length r \<le> length s"
proof (induction ctx n s arbitrary: ds m r rule: declarations.induct)
  case (1 ctx n s0)
  define t where "t = dropWhile is_whitespace s0"
  define r' where "r' = dropWhile (\<lambda>c. \<not> ends_property c) t"
  obtain v r2 where v: "scan_value 0 None (tl r') = (v, r2)" by (cases "scan_value 0 None (tl r')")
  have t: "length t \<le> length s0" and r': "length r' \<le> length t" by (simp_all add: t_def r'_def length_dropWhile_le)
  note eq = 1(4) [unfolded declarations.simps [of ctx n s0] Let_def, folded t_def, folded r'_def, unfolded v prod.case]
  consider (stop) "t = [] \<or> hd t = CLOSE_BRACE" | (skip) "\<not> (t = [] \<or> hd t = CLOSE_BRACE)" "r' = [] \<or> hd r' \<noteq> COLON"
    | (decl) "\<not> (t = [] \<or> hd t = CLOSE_BRACE)" "\<not> (r' = [] \<or> hd r' \<noteq> COLON)" by blast
  then show ?case
  proof cases
    case stop
    with eq t show ?thesis by auto
  next
    case skip
    with eq have "declarations ctx n (if r' \<noteq> [] \<and> hd r' = SEMICOLON then tl r' else r') = (ds, m, r)" by auto
    from 1(1) [OF t_def refl r'_def skip this] t r' show ?thesis by (auto split: if_splits)
  next
    case decl
    let ?r3 = "if r2 \<noteq> [] \<and> hd r2 = SEMICOLON then tl r2 else r2"
    have "length ?r3 < length s0" using declaration_shrinks [OF _ _ v, of "\<lambda>c. \<not> ends_property c" s0 SEMICOLON] decl by (simp add: r'_def t_def)
    moreover have "length r \<le> length ?r3"
    proof (cases "to_ascii_lowercase (trim (takeWhile (\<lambda>c. \<not> ends_property c) t)) \<noteq> [] \<and> fst (strip_important (trim v)) \<noteq> []")
      case True
      with eq decl obtain ds' where "declarations ctx (n + 1) ?r3 = (ds', m, r)" by (auto split: prod.splits)
      from 1(2) [OF t_def refl r'_def decl v [symmetric] refl refl refl refl True this] show ?thesis .
    next
      case False
      with eq decl have "declarations ctx n ?r3 = (ds, m, r)" by auto
      from 1(3) [OF t_def refl r'_def decl v [symmetric] refl refl refl refl False this] show ?thesis .
    qed
    ultimately show ?thesis by simp
  qed
qed

section \<open>Rules\<close>

text \<open>The selectors of a rule, up to its opening brace outside strings.\<close>

fun scan_selector :: "nat \<Rightarrow> uchar option \<Rightarrow> ustr \<Rightarrow> ustr \<times> ustr" where
  "scan_selector depth q [] = ([], [])"
| "scan_selector depth (Some q) (c # s) =
     (if c = BACKSLASH \<and> s \<noteq> [] then (case scan_selector depth (Some q) (tl s) of (v, r) \<Rightarrow> (c # hd s # v, r))
      else (case scan_selector depth (if c = q then None else Some q) s of (v, r) \<Rightarrow> (c # v, r)))"
| "scan_selector depth None (c # s) =
     (if c = OPEN_BRACE \<and> depth = 0 then ([], c # s)
      else (case scan_selector (if css_quote c then depth else if c = OPEN_BRACE then depth + 1
                       else if c = CLOSE_BRACE then depth - 1 else depth)
                   (if css_quote c then Some c else None) s of
              (v, r) \<Rightarrow> (c # v, r)))"

definition highest_specificity :: "selector list \<Rightarrow> specificity" where
  "highest_specificity sels = max_spec (map selector_spec sels)"

text \<open>A rule: what it adds to the sheet, the count of declarations, and the rest. \<open>None\<close>: no brace opens it.\<close>

definition style_rule :: "sheet_context \<Rightarrow> nat \<Rightarrow> ustr \<Rightarrow> (css_rule list \<times> nat \<times> ustr) option" where
  "style_rule ctx n s =
     (case scan_selector 0 None s of
        (sel, r) \<Rightarrow>
          if r = [] then None
          else case declarations ctx n (tl r) of
            (ds, m, r2) \<Rightarrow>
              let rest = (if r2 \<noteq> [] \<and> hd r2 = CLOSE_BRACE then tl r2 else r2);
                  sels = (if trim sel = [] then [] else parse_selector_list MAX_SELECTOR_NESTING_DEPTH (trim sel))
              in Some
                (if sels \<noteq> [] \<and> ds \<noteq> []
                 then [\<lparr>r_selectors = sels, r_declarations = ds, r_specificity = highest_specificity sels, r_origin = sc_origin ctx,
                        r_layer = sc_layer ctx, r_layer_order = sc_layer_order ctx, r_source_order = m\<rparr>]
                 else [], m, rest))"

section \<open>At-rules\<close>

text \<open>What a sheet gathers besides its rules: the imports it names and the layers in the order of their first mention.\<close>

record sheet_state =
  ss_imports :: "ustr list"
  ss_layers :: "(ustr, nat) btree"

definition MAX_SHEET_IMPORTS :: nat where "MAX_SHEET_IMPORTS = 32"

definition note_import :: "ustr \<Rightarrow> sheet_state \<Rightarrow> sheet_state" where
  "note_import statement st =
     (case parse_import_url statement of
        None \<Rightarrow> st
      | Some url \<Rightarrow>
          if url \<notin> set (ss_imports st) \<and> length (ss_imports st) < MAX_SHEET_IMPORTS
          then st\<lparr>ss_imports := url # ss_imports st\<rparr> else st)"

definition note_layer :: "ustr \<Rightarrow> sheet_state \<Rightarrow> sheet_state" where
  "note_layer name st =
     (if name \<noteq> [] \<and> bt_get name (ss_layers st) = None
      then st\<lparr>ss_layers := bt_insert name (length (ss_layers st)) (ss_layers st)\<rparr> else st)"

definition at_statement :: "ustr \<Rightarrow> sheet_state \<Rightarrow> sheet_state" where
  "at_statement header st =
     (case strip_prefix (lit ''@import'') header of
        Some r \<Rightarrow> note_import (trim r) st
      | None \<Rightarrow>
          (case strip_prefix (lit ''@layer'') header of
             Some r \<Rightarrow> fold (\<lambda>name. note_layer (trim name)) (split_char 44 (trim r)) st
           | None \<Rightarrow> st))"

text \<open>The body of an at-rule behind its opening brace, with the brace that closes it.\<close>

fun scan_block :: "nat \<Rightarrow> uchar option \<Rightarrow> ustr \<Rightarrow> ustr \<times> ustr" where
  "scan_block depth q [] = ([], [])"
| "scan_block 0 q (c # s) = ([], c # s)"
| "scan_block (Suc depth) (Some q) (c # s) =
     (if c = BACKSLASH \<and> s \<noteq> [] then (case scan_block (Suc depth) (Some q) (tl s) of (v, r) \<Rightarrow> (c # hd s # v, r))
      else (case scan_block (Suc depth) (if c = q then None else Some q) s of (v, r) \<Rightarrow> (c # v, r)))"
| "scan_block (Suc depth) None (c # s) =
     (case scan_block (if css_quote c then Suc depth else if c = OPEN_BRACE then Suc (Suc depth)
                 else if c = CLOSE_BRACE then depth else Suc depth)
              (if css_quote c then Some c else None) s of
        (v, r) \<Rightarrow> (c # v, r))"

text \<open>\<^verbatim>\<open>chars[body_start..pos - 1]\<close> with nothing behind the brace: the range starts behind its end.\<close>

definition block_body :: "ustr \<Rightarrow> error + ustr" where
  "block_body consumed =
     (if consumed = [] then Inl (Panic ''range start index out of range for slice'') else Inr (butlast consumed))"

type_synonym sheet_result = "error + css_rule list \<times> sheet_state"
type_synonym sheet_reader = "sheet_context \<Rightarrow> ustr \<Rightarrow> sheet_state \<Rightarrow> sheet_result"

definition layer_name :: "ustr \<Rightarrow> ustr" where
  "layer_name header = (if trim header = [] then lit ''anonymous'' else trim header)"

definition enter_layer :: "ustr \<Rightarrow> sheet_state \<Rightarrow> nat \<times> sheet_state" where
  "enter_layer name st =
     (case bt_get name (ss_layers st) of
        Some i \<Rightarrow> (i, st)
      | None \<Rightarrow> (length (ss_layers st), st\<lparr>ss_layers := bt_insert name (length (ss_layers st)) (ss_layers st)\<rparr>))"

definition at_block :: "sheet_reader \<Rightarrow> sheet_context \<Rightarrow> ustr \<Rightarrow> ustr \<Rightarrow> sheet_state \<Rightarrow> sheet_result" where
  "at_block nested ctx header body st =
     (case strip_prefix (lit ''@media'') header of
        Some condition \<Rightarrow>
          (if sc_viewport ctx > 0 \<and> media_query_matches (trim condition) (sc_viewport ctx) then nested ctx body st else Inr ([], st))
      | None \<Rightarrow>
          (case strip_prefix (lit ''@supports'') header of
             Some condition \<Rightarrow> (if supports_query_matches (trim condition) then nested ctx body st else Inr ([], st))
           | None \<Rightarrow>
               (case strip_prefix (lit ''@layer'') header of
                  Some r \<Rightarrow>
                    (case enter_layer (layer_name r) st of
                       (i, st') \<Rightarrow> nested (ctx\<lparr>sc_layer := Some (layer_name r), sc_layer_order := Some i\<rparr>) body st')
                | None \<Rightarrow> Inr ([], st))))"

definition ends_header :: "uchar \<Rightarrow> bool" where
  "ends_header c \<longleftrightarrow> c = SEMICOLON \<or> c = OPEN_BRACE"

text \<open>An at-rule with its header and what follows. \<open>None\<close>: the sheet ends in the header.\<close>

definition at_rule :: "sheet_reader \<Rightarrow> sheet_context \<Rightarrow> ustr \<Rightarrow> sheet_state \<Rightarrow> (error + css_rule list \<times> sheet_state \<times> ustr) option" where
  "at_rule nested ctx s st =
     (let header = trim (takeWhile (\<lambda>c. \<not> ends_header c) s); r = dropWhile (\<lambda>c. \<not> ends_header c) s in
      if r = [] then None
      else if hd r = SEMICOLON then Some (Inr ([], at_statement header st, tl r))
      else case scan_block 1 None (tl r) of
        (consumed, rest) \<Rightarrow> Some
          (ebind (block_body consumed) (\<lambda>body.
           ebind (at_block nested ctx header body st) (\<lambda>(rules, st'). Inr (rules, st', rest)))))"

section \<open>Sheets\<close>

lemma scan_selector_append: "fst (scan_selector depth q s) @ snd (scan_selector depth q s) = s"
proof (induction depth q s rule: scan_selector.induct)
  case (2 depth q c s)
  then show ?case by (cases "c = BACKSLASH \<and> s \<noteq> []") (auto simp: split_beta)
qed (auto simp: split_beta)

lemma scan_block_append: "fst (scan_block depth q s) @ snd (scan_block depth q s) = s"
proof (induction depth q s rule: scan_block.induct)
  case (3 depth q c s)
  then show ?case by (cases "c = BACKSLASH \<and> s \<noteq> []") (auto simp: split_beta)
qed (auto simp: split_beta)

lemma style_rule_length:
  assumes "style_rule ctx n s = Some (rules, m, rest)"
  shows "length rest < length s"
proof -
  obtain sel r where r: "scan_selector 0 None s = (sel, r)" by (cases "scan_selector 0 None s")
  obtain ds m' r2 where d: "declarations ctx n (tl r) = (ds, m', r2)" by (cases "declarations ctx n (tl r)")
  have ne: "r \<noteq> []" and rest: "length rest \<le> length r2" using assms r d by (auto simp: style_rule_def Let_def split: if_splits)
  have "length r \<le> length s" using scan_selector_append [of 0 None s] r by (metis length_append le_add2 snd_conv)
  then show ?thesis using declarations_length [OF d] ne rest by (cases r) auto
qed

lemma at_rule_length:
  assumes "at_rule nested ctx s st = Some (Inr (rules, st', rest))"
  shows "length rest < length s"
proof -
  let ?r = "dropWhile (\<lambda>c. \<not> ends_header c) s"
  have ne: "?r \<noteq> []" using assms by (auto simp: at_rule_def Let_def split: if_splits)
  have "length rest \<le> length (tl ?r)"
  proof (cases "hd ?r = SEMICOLON")
    case False
    obtain consumed r2 where b: "scan_block 1 None (tl ?r) = (consumed, r2)" by (cases "scan_block 1 None (tl ?r)")
    have "ebind (block_body consumed) (\<lambda>body. ebind (at_block nested ctx (trim (takeWhile (\<lambda>c. \<not> ends_header c) s)) body st)
        (\<lambda>(rules, st'). Inr (rules, st', r2))) = Inr (rules, st', rest)"
      using assms ne False by (simp only: at_rule_def Let_def if_False b prod.case option.inject)
    then have "rest = r2" by (auto simp: ebind_eq_Inr)
    moreover have "length r2 \<le> length (tl ?r)" using scan_block_append [of 1 None "tl ?r"] unfolding b by (metis length_append le_add2 snd_conv)
    ultimately show ?thesis by simp
  qed (use assms ne in \<open>auto simp: at_rule_def Let_def split: if_splits\<close>)
  also have "\<dots> < length ?r" using ne by simp
  also have "\<dots> \<le> length s" by (rule length_dropWhile_le)
  finally show ?thesis .
qed

function sheet_loop :: "sheet_reader \<Rightarrow> sheet_context \<Rightarrow> nat \<Rightarrow> ustr \<Rightarrow> sheet_state \<Rightarrow> sheet_result" where
  "sheet_loop nested ctx n s0 st =
     (let s = dropWhile is_whitespace s0 in
      if s = [] then Inr ([], st)
      else if hd s = AT_SIGN then
        (case at_rule nested ctx s st of
           None \<Rightarrow> Inr ([], st)
         | Some (Inl e) \<Rightarrow> Inl e
         | Some (Inr (rules, st', rest)) \<Rightarrow> ebind (sheet_loop nested ctx n rest st') (\<lambda>(more, st''). Inr (rules @ more, st'')))
      else
        (case style_rule ctx n s of
           None \<Rightarrow> Inr ([], st)
         | Some (rules, m, rest) \<Rightarrow> ebind (sheet_loop nested ctx m rest st) (\<lambda>(more, st''). Inr (rules @ more, st''))))"
  by pat_completeness auto
termination
proof (relation "measure (\<lambda>(_, _, _, s, _). length s)", goal_cases)
  case (2 nested ctx n s0 st s x y rules z st' rest)
  then have "at_rule nested ctx s st = Some (Inr (rules, st', rest))" by simp
  from at_rule_length [OF this] 2(1) show ?case by (simp add: less_le_trans [OF _ length_dropWhile_le])
next
  case (3 nested ctx n s0 st s x rules y m rest)
  then have "style_rule ctx n s = Some (rules, m, rest)" by simp
  from style_rule_length [OF this] 3(1) show ?case by (simp add: less_le_trans [OF _ length_dropWhile_le])
qed simp

declare sheet_loop.simps [simp del]

definition MAX_SHEET_BYTES :: nat where "MAX_SHEET_BYTES = 10000000"

text \<open>A sheet that is too long is cut at a byte, which panics inside a character.\<close>

definition cut_sheet :: "ustr \<Rightarrow> error + ustr" where
  "cut_sheet css =
     (if byte_len css > MAX_SHEET_BYTES
      then ok_or (Panic ''byte index is not a char boundary'') (byte_prefix MAX_SHEET_BYTES css) else Inr css)"

text \<open>\<open>levels\<close> is what is left of the nesting of at-rules.\<close>

primrec parse_sheet :: "nat \<Rightarrow> sheet_reader" where
  "parse_sheet 0 ctx css st = Inr ([], st)"
| "parse_sheet (Suc levels) ctx css st =
     ebind (cut_sheet css) (\<lambda>css.
       let s = strip_css_comments css in
       if trim s = [] then Inr ([], st) else sheet_loop (parse_sheet levels) ctx 0 s st)"

definition MAX_SHEET_NESTING :: nat where "MAX_SHEET_NESTING = 16"

definition author_context :: "nat \<Rightarrow> sheet_context" where
  "author_context viewport = \<lparr>sc_viewport = viewport, sc_origin = Author, sc_layer = None, sc_layer_order = None\<rparr>"

definition parse_css_with_media :: "ustr \<Rightarrow> nat \<Rightarrow> error + css_rule list" where
  "parse_css_with_media css viewport =
     ebind (parse_sheet (Suc MAX_SHEET_NESTING) (author_context viewport) css \<lparr>ss_imports = [], ss_layers = []\<rparr>) (\<lambda>(rules, st). Inr rules)"

definition parse_css :: "ustr \<Rightarrow> error + css_rule list" where
  "parse_css css = parse_css_with_media css 0"

end
