(* ===== verification/Css_Sheet_Laws.thy ===== *)
theory Css_Sheet_Laws
  imports Css_Sheet
begin

text \<open>
  Laws of the style sheet parser: what every rule it yields looks like, printed sheets read back, the order in which
  declarations count, and sheets that the parser does not survive.
\<close>

section \<open>Printed sheets\<close>

type_synonym plain_declaration = "ustr \<times> ustr \<times> bool"
type_synonym plain_rule = "ustr \<times> plain_declaration list"

definition print_declaration :: "plain_declaration \<Rightarrow> ustr" where
  "print_declaration = (\<lambda>(p, v, important). p @ [COLON] @ v @ (if important then lit ''!important'' else []) @ [SEMICOLON])"

definition print_rule :: "plain_rule \<Rightarrow> ustr" where
  "print_rule = (\<lambda>(sel, ds). sel @ [OPEN_BRACE] @ concat (map print_declaration ds) @ [CLOSE_BRACE])"

definition print_sheet :: "plain_rule list \<Rightarrow> ustr" where
  "print_sheet rules = concat (map print_rule rules)"

text \<open>Parentheses as the scan of a value counts them.\<close>

definition paren_depth :: "nat \<Rightarrow> ustr \<Rightarrow> nat" where
  "paren_depth d s = foldl (\<lambda>d c. if c = OPEN_PAREN then d + 1 else if c = CLOSE_PAREN then d - 1 else d) d s"

definition trimmed :: "ustr \<Rightarrow> bool" where
  "trimmed s \<longleftrightarrow> s \<noteq> [] \<and> \<not> is_whitespace (hd s) \<and> \<not> is_whitespace (last s)"

definition without :: "uchar set \<Rightarrow> ustr \<Rightarrow> bool" where
  "without cs s \<longleftrightarrow> (\<forall>c\<in>set s. c \<notin> cs)"

definition plain_declaration_ok :: "plain_declaration \<Rightarrow> bool" where
  "plain_declaration_ok = (\<lambda>(p, v, important).
     trimmed p \<and> to_ascii_lowercase p = p \<and> without {34, 39, 47, COLON, SEMICOLON, OPEN_BRACE, CLOSE_BRACE} p \<and>
     trimmed v \<and> without {34, 39, 47, SEMICOLON, OPEN_BRACE, CLOSE_BRACE} v \<and> paren_depth 0 v = 0 \<and>
     \<not> ends_with (lit ''!important'') (to_ascii_lowercase v))"

definition plain_rule_ok :: "plain_rule \<Rightarrow> bool" where
  "plain_rule_ok = (\<lambda>(sel, ds).
     trimmed sel \<and> hd sel \<noteq> AT_SIGN \<and> without {34, 39, 47, OPEN_BRACE, CLOSE_BRACE} sel \<and>
     parse_selector_list MAX_SELECTOR_NESTING_DEPTH sel \<noteq> [] \<and> ds \<noteq> [] \<and> list_all plain_declaration_ok ds)"

text \<open>The rules a printed sheet stands for; declarations are numbered through the sheet.\<close>

fun numbered :: "sheet_context \<Rightarrow> nat \<Rightarrow> plain_declaration list \<Rightarrow> style_declaration list" where
  "numbered ctx n [] = []"
| "numbered ctx n ((p, v, important) # ds) = declaration_of ctx (n + 1) p (v, important) # numbered ctx (n + 1) ds"

definition rule_of :: "sheet_context \<Rightarrow> nat \<Rightarrow> plain_rule \<Rightarrow> css_rule" where
  "rule_of ctx n = (\<lambda>(sel, ds).
     let sels = parse_selector_list MAX_SELECTOR_NESTING_DEPTH sel in
     \<lparr>r_selectors = sels, r_declarations = numbered ctx n ds, r_specificity = highest_specificity sels, r_origin = sc_origin ctx,
      r_layer = sc_layer ctx, r_layer_order = sc_layer_order ctx, r_source_order = n + length ds\<rparr>)"

fun sheet_rules :: "sheet_context \<Rightarrow> nat \<Rightarrow> plain_rule list \<Rightarrow> css_rule list" where
  "sheet_rules ctx n [] = []"
| "sheet_rules ctx n (rule # rules) = rule_of ctx n rule # sheet_rules ctx (n + length (snd rule)) rules"

definition declaration_count :: "plain_rule list \<Rightarrow> nat" where
  "declaration_count rules = sum_list (map (\<lambda>rule. length (snd rule)) rules)"

section \<open>Reading printed sheets\<close>

lemma without_simps [simp]:
  "without cs []" "without cs (c # s) \<longleftrightarrow> c \<notin> cs \<and> without cs s" "without cs (s @ t) \<longleftrightarrow> without cs s \<and> without cs t"
  "without cs (concat ss) \<longleftrightarrow> list_all (without cs) ss"
  by (auto simp: without_def list_all_iff)

lemma without_mono: "without cs s \<Longrightarrow> ds \<subseteq> cs \<Longrightarrow> without ds s"
  by (auto simp: without_def)

lemma trimmed_trim: "trimmed s \<Longrightarrow> trim s = s"
  by (rule trim_id) (simp add: trimmed_def)

lemma scan_value_plain:
  assumes "without {34, 39, SEMICOLON, CLOSE_BRACE} v" and "paren_depth d v = 0"
  shows "scan_value d None (v @ SEMICOLON # r) = (v, SEMICOLON # r)"
  using assms
proof (induction v arbitrary: d)
  case (Cons c v)
  let ?d = "if c = OPEN_PAREN then d + 1 else if c = CLOSE_PAREN then d - 1 else d"
  have "scan_value ?d None (v @ SEMICOLON # r) = (v, SEMICOLON # r)"
    using Cons.prems by (intro Cons.IH) (simp_all add: without_def paren_depth_def)
  then show ?case using Cons.prems by (auto simp: without_def css_quote_def)
qed (simp add: paren_depth_def)

lemma paren_depth_append: "paren_depth d (s @ t) = paren_depth (paren_depth d s) t"
  by (simp add: paren_depth_def)

definition importance :: "bool \<Rightarrow> ustr" where
  "importance important = (if important then lit ''!important'' else [])"

lemma importance_plain: "without {34, 39, 47, SEMICOLON, OPEN_BRACE, CLOSE_BRACE} (importance important)" "paren_depth d (importance important) = d"
  by (auto simp: importance_def without_def paren_depth_def lit_def)

lemma important_text:
  "trimmed v \<Longrightarrow> trimmed (v @ lit ''!important'')" "to_ascii_lowercase (lit ''!important'') = lit ''!important''" "length (lit ''!important'') = 10"
  by (simp_all add: trimmed_def lit_def is_whitespace_def to_ascii_lowercase_def ascii_lower_def is_ascii_upper_def)

lemma trim_end_trimmed: "trimmed v \<Longrightarrow> trim_end v = v"
  by (cases v rule: rev_cases) (simp_all add: trim_end_def trimmed_def)

lemma strip_important_plain:
  assumes "trimmed v" and "\<not> ends_with (lit ''!important'') (to_ascii_lowercase v)"
  shows "strip_important (trim (v @ importance important)) = (v, important)"
proof (cases important)
  case True
  then show ?thesis
    using assms(1) important_text
    by (simp add: importance_def strip_important_def Let_def trimmed_trim ends_with_def suffix_def to_ascii_lowercase_def trim_end_trimmed)
next
  case False
  then show ?thesis using assms by (simp add: importance_def strip_important_def Let_def trimmed_trim)
qed

lemma declarations_print:
  assumes "list_all plain_declaration_ok ds"
  shows "declarations ctx n (concat (map print_declaration ds) @ CLOSE_BRACE # r) = (numbered ctx n ds, n + length ds, CLOSE_BRACE # r)"
  using assms
proof (induction ds arbitrary: n)
  case Nil
  show ?case by (subst declarations.simps) (simp add: is_whitespace_def Let_def)
next
  case (Cons d ds)
  obtain p v important where d: "d = (p, v, important)" by (cases d)
  let ?rest = "concat (map print_declaration ds) @ CLOSE_BRACE # r"
  define val where "val = v @ importance important"
  define tail where "tail = COLON # val @ SEMICOLON # ?rest"
  have ok: "trimmed p" "to_ascii_lowercase p = p" "without {34, 39, 47, COLON, SEMICOLON, OPEN_BRACE, CLOSE_BRACE} p" "trimmed v"
    "without {34, 39, 47, SEMICOLON, OPEN_BRACE, CLOSE_BRACE} v" "paren_depth 0 v = 0" "\<not> ends_with (lit ''!important'') (to_ascii_lowercase v)"
    using Cons.prems by (auto simp: d plain_declaration_ok_def)
  have p: "p \<noteq> []" "\<not> is_whitespace (hd p)" "hd p \<noteq> CLOSE_BRACE" "v \<noteq> []" and pn: "\<And>c. c \<in> set p \<Longrightarrow> \<not> ends_property c"
    using ok(1,3,4) by (auto simp: trimmed_def without_def ends_property_def)
  have s: "concat (map print_declaration (d # ds)) @ CLOSE_BRACE # r = p @ tail"
    by (simp add: d print_declaration_def importance_def tail_def val_def)
  have ws: "dropWhile is_whitespace (p @ tail) = p @ tail" "hd (p @ tail) \<noteq> CLOSE_BRACE" using p by (cases p; simp)+
  have tw: "takeWhile (\<lambda>c. \<not> ends_property c) (p @ tail) = p" "dropWhile (\<lambda>c. \<not> ends_property c) (p @ tail) = tail"
    using pn by (simp_all add: takeWhile_append2 dropWhile_append2 tail_def ends_property_def)
  have v: "scan_value 0 None (val @ SEMICOLON # ?rest) = (val, SEMICOLON # ?rest)"
    using ok(5,6) importance_plain(1) [of important] importance_plain(2) [of 0 important] unfolding val_def by (intro scan_value_plain) (auto simp: without_def paren_depth_append)
  have "declarations ctx n (p @ tail) =
      (case declarations ctx (n + 1) ?rest of (ds', m, rest) \<Rightarrow> (declaration_of ctx (n + 1) p (v, important) # ds', m, rest))"
    using p ok(2) by (subst declarations.simps)
      (simp add: Let_def ws tw, simp add: tail_def v, simp add: val_def strip_important_plain [OF ok(4,7)] trimmed_trim [OF ok(1)])
  then show ?case using Cons by (simp only: s) (simp add: d)
qed

lemma scan_selector_plain:
  "without {34, 39, OPEN_BRACE, CLOSE_BRACE} sel \<Longrightarrow> scan_selector 0 None (sel @ OPEN_BRACE # r) = (sel, OPEN_BRACE # r)"
  by (induction sel) (auto simp: without_def css_quote_def)

lemma style_rule_print:
  assumes "plain_rule_ok rule"
  shows "style_rule ctx n (print_rule rule @ r) = Some ([rule_of ctx n rule], n + length (snd rule), r)"
proof -
  obtain sel ds where rule: "rule = (sel, ds)" by (cases rule)
  have ok: "trimmed sel" "without {34, 39, 47, OPEN_BRACE, CLOSE_BRACE} sel" "parse_selector_list MAX_SELECTOR_NESTING_DEPTH sel \<noteq> []"
    "ds \<noteq> []" "list_all plain_declaration_ok ds" using assms by (auto simp: rule plain_rule_ok_def)
  let ?rest = "concat (map print_declaration ds) @ CLOSE_BRACE # r"
  have sel: "scan_selector 0 None (sel @ OPEN_BRACE # ?rest) = (sel, OPEN_BRACE # ?rest)"
    using ok(2) by (intro scan_selector_plain) (auto simp: without_def)
  have ne: "numbered ctx n ds \<noteq> []" "sel \<noteq> []" using ok(1,4) by (cases ds; auto simp: trimmed_def)+
  show ?thesis
    using ok(3) ne by (simp add: rule print_rule_def style_rule_def sel declarations_print [OF ok(5)] Let_def trimmed_trim [OF ok(1)] rule_of_def)
qed

lemma print_rule_start:
  assumes "plain_rule_ok rule"
  shows "dropWhile is_whitespace (print_rule rule @ r) = print_rule rule @ r" "print_rule rule \<noteq> []" "hd (print_rule rule @ r) \<noteq> AT_SIGN"
proof -
  obtain sel ds where rule: "rule = (sel, ds)" by (cases rule)
  have "trimmed sel" "hd sel \<noteq> AT_SIGN" using assms by (auto simp: rule plain_rule_ok_def)
  then show "dropWhile is_whitespace (print_rule rule @ r) = print_rule rule @ r" "print_rule rule \<noteq> []" "hd (print_rule rule @ r) \<noteq> AT_SIGN"
    by (cases sel; simp add: rule print_rule_def trimmed_def)+
qed

lemma sheet_loop_print:
  assumes "list_all plain_rule_ok sheet"
  shows "sheet_loop nested ctx n (print_sheet sheet @ r) st =
    ebind (sheet_loop nested ctx (n + declaration_count sheet) r st) (\<lambda>(more, st'). Inr (sheet_rules ctx n sheet @ more, st'))"
  using assms
proof (induction sheet arbitrary: n)
  case Nil
  show ?case by (auto simp: print_sheet_def declaration_count_def ebind_def split: sum.split)
next
  case (Cons rule sheet)
  then have ok: "plain_rule_ok rule" by simp
  have s: "print_sheet (rule # sheet) @ r = print_rule rule @ print_sheet sheet @ r" by (simp add: print_sheet_def)
  have "sheet_loop nested ctx n (print_sheet (rule # sheet) @ r) st =
      ebind (sheet_loop nested ctx (n + length (snd rule)) (print_sheet sheet @ r) st) (\<lambda>(more, st'). Inr ([rule_of ctx n rule] @ more, st'))"
    unfolding s using print_rule_start [OF ok] by (subst sheet_loop.simps) (simp add: Let_def style_rule_print [OF ok])
  also have "\<dots> = ebind (sheet_loop nested ctx (n + declaration_count (rule # sheet)) r st)
      (\<lambda>(more, st'). Inr (sheet_rules ctx n (rule # sheet) @ more, st'))"
    using Cons by (auto simp: declaration_count_def add.assoc ebind_def split: sum.split)
  finally show ?case .
qed

lemma sheet_loop_Nil [simp]: "sheet_loop nested ctx n [] st = Inr ([], st)"
  by (subst sheet_loop.simps) simp

section \<open>Text without comments\<close>

lemma strip_comments_plain: "47 \<notin> set s \<Longrightarrow> strip_comments q s = s"
proof (induction q s rule: strip_comments.induct)
  case (2 q c s)
  then show ?case by (cases s) auto
qed auto

lemma print_sheet_plain:
  assumes "list_all plain_rule_ok sheet"
  shows "47 \<notin> set (print_sheet sheet)"
proof -
  have decl: "47 \<notin> set (print_declaration d)" if "plain_declaration_ok d" for d
    using that by (auto simp: print_declaration_def plain_declaration_ok_def without_def lit_def split: if_splits)
  have "47 \<notin> set (print_rule rule)" if "plain_rule_ok rule" for rule
    using that decl by (auto simp: print_rule_def plain_rule_ok_def without_def list_all_iff)
  then show ?thesis using assms by (auto simp: print_sheet_def list_all_iff)
qed

lemma trim_not_Nil: "s \<noteq> [] \<Longrightarrow> \<not> is_whitespace (hd s) \<Longrightarrow> trim s \<noteq> []"
  by (cases s) (auto simp: trim_def trim_start_def trim_end_def)

lemma print_sheet_trim: "list_all plain_rule_ok sheet \<Longrightarrow> sheet \<noteq> [] \<Longrightarrow> trim (print_sheet sheet @ r) \<noteq> []"
proof (cases sheet)
  case (Cons rule rules)
  moreover assume "list_all plain_rule_ok sheet"
  ultimately have ok: "plain_rule_ok rule" by simp
  let ?s = "print_rule rule @ print_sheet rules @ r"
  have "?s \<noteq> []" "dropWhile is_whitespace ?s = ?s" using print_rule_start(1,2) [OF ok] by auto
  then have "\<not> is_whitespace (hd ?s)" by (metis hd_dropWhile)
  with \<open>?s \<noteq> []\<close> show ?thesis using trim_not_Nil [of ?s] by (simp add: Cons print_sheet_def)
qed simp

text \<open>A sheet of printed rules, followed by what the loop reads next.\<close>

lemma parse_sheet_print:
  assumes "list_all plain_rule_ok sheet" and "sheet \<noteq> []" and "byte_len (print_sheet sheet @ r) \<le> MAX_SHEET_BYTES" and "47 \<notin> set r"
  shows "parse_sheet (Suc levels) ctx (print_sheet sheet @ r) st =
    ebind (sheet_loop (parse_sheet levels) ctx (declaration_count sheet) r st) (\<lambda>(more, st'). Inr (sheet_rules ctx 0 sheet @ more, st'))"
proof -
  have "strip_css_comments (print_sheet sheet @ r) = print_sheet sheet @ r"
    using print_sheet_plain [OF assms(1)] assms(4) by (simp add: strip_css_comments_def strip_comments_plain)
  then show ?thesis
    using assms(3) print_sheet_trim [OF assms(1,2)] sheet_loop_print [OF assms(1), where n = 0 and r = r]
    by (simp add: cut_sheet_def)
qed

lemma parse_css_print:
  assumes "list_all plain_rule_ok sheet" and "byte_len (print_sheet sheet) \<le> MAX_SHEET_BYTES"
  shows "parse_css_with_media (print_sheet sheet) w = Inr (sheet_rules (author_context w) 0 sheet)"
proof (cases "sheet = []")
  case True
  then show ?thesis
    by (simp add: parse_css_with_media_def print_sheet_def cut_sheet_def strip_css_comments_def trim_def trim_start_def trim_end_def)
next
  case False
  then show ?thesis
    using parse_sheet_print [OF assms(1) False, where r = "[]"] assms(2) by (simp add: parse_css_with_media_def)
qed

section \<open>What the parser yields\<close>

definition declaration_ok :: "style_declaration \<Rightarrow> bool" where
  "declaration_ok d \<longleftrightarrow> d_property d \<noteq> [] \<and> to_ascii_lowercase (d_property d) = d_property d \<and> d_value d \<noteq> [] \<and> d_specificity d = (0, 0, 0)"

definition placed_in :: "sheet_context \<Rightarrow> style_declaration \<Rightarrow> bool" where
  "placed_in ctx d \<longleftrightarrow> d_origin d = sc_origin ctx \<and> d_layer d = sc_layer ctx \<and> d_layer_order d = sc_layer_order ctx"

definition style_rule_ok :: "css_rule \<Rightarrow> bool" where
  "style_rule_ok rule \<longleftrightarrow>
     r_selectors rule \<noteq> [] \<and> r_declarations rule \<noteq> [] \<and> r_specificity rule = highest_specificity (r_selectors rule) \<and>
     list_all (\<lambda>d. declaration_ok d \<and> d_origin d = r_origin rule \<and> d_layer d = r_layer rule \<and> d_layer_order d = r_layer_order rule)
       (r_declarations rule) \<and>
     sorted_wrt (<) (map d_source_order (r_declarations rule)) \<and> d_source_order (last (r_declarations rule)) = r_source_order rule"

lemma declarations_spec:
  "declarations ctx n s = (ds, m, r) \<Longrightarrow>
     m = n + length ds \<and> map d_source_order ds = [Suc n..<Suc m] \<and> list_all (\<lambda>d. declaration_ok d \<and> placed_in ctx d) ds \<and>
     length ds + length r \<le> length s"
proof (induction ctx n s arbitrary: ds m r rule: declarations.induct)
  case (1 ctx n s0)
  define t where "t = dropWhile is_whitespace s0"
  define r' where "r' = dropWhile (\<lambda>c. \<not> ends_property c) t"
  obtain v r2 where v: "scan_value 0 None (tl r') = (v, r2)" by (cases "scan_value 0 None (tl r')")
  have t: "length t \<le> length s0" and r': "length r' \<le> length t" by (simp_all add: t_def r'_def length_dropWhile_le)
  note eq = 1(4) [unfolded declarations.simps [of ctx n s0] Let_def, folded t_def, folded r'_def, unfolded v prod.case]
  consider (stop) "t = [] \<or> hd t = CLOSE_BRACE" | (skip) "\<not> (t = [] \<or> hd t = CLOSE_BRACE)" "r' = [] \<or> hd r' \<noteq> COLON"
    | (decl) "\<not> (t = [] \<or> hd t = CLOSE_BRACE)" "\<not> (r' = [] \<or> hd r' \<noteq> COLON)" by blast
  then show ?case
  proof cases
    case stop
    with eq t show ?thesis by auto
  next
    case skip
    with eq have "declarations ctx n (if r' \<noteq> [] \<and> hd r' = SEMICOLON then tl r' else r') = (ds, m, r)" by auto
    from 1(1) [OF t_def refl r'_def skip this] t r' show ?thesis by (auto split: if_splits)
  next
    case decl
    let ?r3 = "if r2 \<noteq> [] \<and> hd r2 = SEMICOLON then tl r2 else r2"
    let ?name = "to_ascii_lowercase (trim (takeWhile (\<lambda>c. \<not> ends_property c) t))" let ?val = "strip_important (trim v)"
    have shrinks: "length ?r3 < length s0"
      using declaration_shrinks [OF _ _ v, of "\<lambda>c. \<not> ends_property c" s0 SEMICOLON] decl by (simp add: r'_def t_def)
    show ?thesis
    proof (cases "?name \<noteq> [] \<and> fst ?val \<noteq> []")
      case True
      with eq decl obtain ds' where ds': "declarations ctx (n + 1) ?r3 = (ds', m, r)" "ds = declaration_of ctx (n + 1) ?name ?val # ds'"
        by (auto split: prod.splits)
      from 1(2) [OF t_def refl r'_def decl v [symmetric] refl refl refl refl True ds'(1)] True shrinks
      have "m = n + length ds" "map d_source_order ds' = [Suc (Suc n)..<Suc m]" "list_all (\<lambda>d. declaration_ok d \<and> placed_in ctx d) ds"
        "length ds + length r \<le> length s0"
        by (auto simp: ds'(2) declaration_of_def declaration_ok_def placed_in_def simp del: upt_Suc split: if_splits)
      then show ?thesis by (simp add: ds'(2) declaration_of_def upt_conv_Cons del: upt_Suc)
    next
      case False
      with eq decl have "declarations ctx n ?r3 = (ds, m, r)" by auto
      from 1(3) [OF t_def refl r'_def decl v [symmetric] refl refl refl refl False this] shrinks show ?thesis by (auto split: if_splits)
    qed
  qed
qed

lemma style_rule_spec:
  assumes "style_rule ctx n s = Some (rules, m, rest)"
  shows "list_all style_rule_ok rules \<and> length rules + length rest \<le> length s \<and> n \<le> m"
proof -
  obtain sel r where r: "scan_selector 0 None s = (sel, r)" by (cases "scan_selector 0 None s")
  obtain ds m' r2 where d: "declarations ctx n (tl r) = (ds, m', r2)" by (cases "declarations ctx n (tl r)")
  note D = declarations_spec [OF d]
  have m: "m' = m" and rules: "length rules \<le> 1" using assms r d by (auto simp: style_rule_def Let_def split: if_splits)
  have "style_rule_ok rule" if "rule \<in> set rules" for rule
  proof -
    let ?sels = "parse_selector_list MAX_SELECTOR_NESTING_DEPTH (trim sel)"
    from that assms r d have rule: "rule = \<lparr>r_selectors = ?sels, r_declarations = ds, r_specificity = highest_specificity ?sels,
        r_origin = sc_origin ctx, r_layer = sc_layer ctx, r_layer_order = sc_layer_order ctx, r_source_order = m'\<rparr>" "?sels \<noteq> []" "ds \<noteq> []"
      by (auto simp: style_rule_def Let_def split: if_splits)
    have "d_source_order (last ds) = m'" using D rule(3) by (auto simp: last_map [symmetric])
    moreover have "sorted_wrt (<) (map d_source_order ds)" using D by (simp del: upt_Suc)
    ultimately show ?thesis using rule(2,3) D by (auto simp: rule(1) style_rule_ok_def placed_in_def list_all_iff)
  qed
  moreover have "length rest < length s" by (rule style_rule_length [OF assms])
  ultimately show ?thesis using D m rules by (auto simp: list_all_iff)
qed

text \<open>The contract of a reader of nested sheets.\<close>

definition reader_ok :: "sheet_reader \<Rightarrow> bool" where
  "reader_ok nested \<longleftrightarrow>
     (\<forall>ctx body st rules st'. nested ctx body st = Inr (rules, st') \<longrightarrow> list_all style_rule_ok rules \<and> length rules \<le> length body)"

lemma reader_okD: "reader_ok nested \<Longrightarrow> nested ctx body st = Inr (rules, st') \<Longrightarrow> list_all style_rule_ok rules \<and> length rules \<le> length body"
  unfolding reader_ok_def by blast

lemma at_block_spec:
  assumes "reader_ok nested" and "at_block nested ctx header body st = Inr (rules, st')"
  shows "list_all style_rule_ok rules \<and> length rules \<le> length body"
  using assms(2) by (auto simp: at_block_def split: option.splits if_splits prod.splits dest: reader_okD [OF assms(1)])

lemma at_rule_spec:
  assumes "reader_ok nested" and "at_rule nested ctx s st = Some (Inr (rules, st', rest))"
  shows "list_all style_rule_ok rules \<and> length rules + length rest \<le> length s"
proof -
  let ?r = "dropWhile (\<lambda>c. \<not> ends_header c) s"
  have ne: "?r \<noteq> []" using assms by (auto simp: at_rule_def Let_def split: if_splits)
  have r: "length ?r \<le> length s" by (rule length_dropWhile_le)
  show ?thesis
  proof (cases "hd ?r = SEMICOLON")
    case False
    obtain consumed r2 where b: "scan_block 1 None (tl ?r) = (consumed, r2)" by (cases "scan_block 1 None (tl ?r)")
    have "ebind (block_body consumed) (\<lambda>body. ebind (at_block nested ctx (trim (takeWhile (\<lambda>c. \<not> ends_header c) s)) body st)
        (\<lambda>(rules, st'). Inr (rules, st', r2))) = Inr (rules, st', rest)"
      using assms(2) ne False by (simp only: at_rule_def Let_def if_False b prod.case option.inject)
    then obtain body where body: "block_body consumed = Inr body" "at_block nested ctx (trim (takeWhile (\<lambda>c. \<not> ends_header c) s)) body st = Inr (rules, st')"
      "rest = r2" by (auto simp: ebind_eq_Inr)
    have "length body < length consumed" using body(1) by (auto simp: block_body_def split: if_splits)
    moreover have "consumed @ r2 = tl ?r" using scan_block_append [of 1 None "tl ?r"] unfolding b by simp
    then have "length consumed + length r2 = length (tl ?r)" by (metis length_append)
    ultimately show ?thesis using at_block_spec [OF assms(1) body(2)] body(3) r by auto
  qed (use assms(2) ne r in \<open>auto simp: at_rule_def Let_def split: if_splits\<close>)
qed

lemma sheet_loop_at:
  assumes "t = dropWhile is_whitespace s" and "t \<noteq> []" and "hd t = AT_SIGN"
  shows "sheet_loop nested ctx n s st =
    (case at_rule nested ctx t st of
       None \<Rightarrow> Inr ([], st)
     | Some (Inl e) \<Rightarrow> Inl e
     | Some (Inr (rules, st', rest)) \<Rightarrow> ebind (sheet_loop nested ctx n rest st') (\<lambda>(more, st''). Inr (rules @ more, st'')))"
  using assms by (subst sheet_loop.simps) (simp only: Let_def simp_thms if_True if_False)

lemma sheet_loop_rule:
  assumes "t = dropWhile is_whitespace s" and "t \<noteq> []" and "hd t \<noteq> AT_SIGN"
  shows "sheet_loop nested ctx n s st =
    (case style_rule ctx n t of
       None \<Rightarrow> Inr ([], st)
     | Some (rules, m, rest) \<Rightarrow> ebind (sheet_loop nested ctx m rest st) (\<lambda>(more, st''). Inr (rules @ more, st'')))"
  using assms by (subst sheet_loop.simps) (simp only: Let_def simp_thms if_True if_False)

lemma sheet_loop_spec:
  assumes nested: "reader_ok nested"
  shows "sheet_loop nested ctx n s st = Inr (rules, st') \<Longrightarrow> list_all style_rule_ok rules \<and> length rules \<le> length s"
proof (induction "length s" arbitrary: n s st rules st' rule: less_induct)
  case less
  define t where "t = dropWhile is_whitespace s"
  have le: "length t \<le> length s" by (simp add: t_def length_dropWhile_le)
  consider (stop) "t = []" | (at) "t \<noteq> []" "hd t = AT_SIGN" | (rule) "t \<noteq> []" "hd t \<noteq> AT_SIGN" by blast
  then show ?case
  proof cases
    case stop
    with less(2) show ?thesis by (subst (asm) sheet_loop.simps) (simp add: Let_def t_def [symmetric])
  next
    case at
    show ?thesis
    proof (cases "at_rule nested ctx t st")
      case (Some r)
      show ?thesis
      proof (cases r)
        case (Inr x)
        obtain rs st1 rest where x: "x = (rs, st1, rest)" by (cases x)
        from Some Inr x have a: "at_rule nested ctx t st = Some (Inr (rs, st1, rest))" by simp
        then obtain more where more: "sheet_loop nested ctx n rest st1 = Inr (more, st')" "rules = rs @ more"
          using less(2) by (auto simp: sheet_loop_at [OF t_def at] ebind_eq_Inr)
        have "length rest < length s" using at_rule_length [OF a] le by simp
        from less(1) [OF this more(1)] at_rule_spec [OF nested a] more(2) le show ?thesis by auto
      qed (use less(2) Some sheet_loop_at [OF t_def at] in auto)
    qed (use less(2) sheet_loop_at [OF t_def at] in auto)
  next
    case rule
    show ?thesis
    proof (cases "style_rule ctx n t")
      case (Some x)
      obtain rs m rest where x: "x = (rs, m, rest)" by (cases x)
      from Some x have a: "style_rule ctx n t = Some (rs, m, rest)" by simp
      then obtain more where more: "sheet_loop nested ctx m rest st = Inr (more, st')" "rules = rs @ more"
        using less(2) by (auto simp: sheet_loop_rule [OF t_def rule] ebind_eq_Inr)
      have "length rest < length s" using style_rule_length [OF a] le by simp
      from less(1) [OF this more(1)] style_rule_spec [OF a] more(2) le show ?thesis by auto
    qed (use less(2) sheet_loop_rule [OF t_def rule] in auto)
  qed
qed

lemma strip_comments_length: "length (strip_comments q s) \<le> length s"
proof (induction q s rule: strip_comments.induct)
  case (2 q c s)
  then show ?case by (cases s) auto
next
  case (3 c s)
  then show ?case using skip_comment_length [of "tl s"] by auto
qed simp

lemma parse_sheet_ok: "reader_ok (parse_sheet levels)"
proof (induction levels)
  case 0
  show ?case by (simp add: reader_ok_def)
next
  case (Suc levels)
  show ?case unfolding reader_ok_def
  proof (intro allI impI)
    fix ctx css st rules st'
    assume p: "parse_sheet (Suc levels) ctx css st = Inr (rules, st')"
    then obtain css' where css': "cut_sheet css = Inr css'" by (auto simp: ebind_eq_Inr)
    have "length css' \<le> length css"
      using css' by (auto simp: cut_sheet_def ok_or_eq_Inr dest!: byte_prefix_Some split: if_splits)
    then have l: "length (strip_css_comments css') \<le> length css"
      using strip_comments_length [of None css'] by (simp add: strip_css_comments_def)
    show "list_all style_rule_ok rules \<and> length rules \<le> length css"
    proof (cases "trim (strip_css_comments css') = []")
      case True
      with p css' show ?thesis by (simp add: Let_def)
    next
      case False
      with p css' have "sheet_loop (parse_sheet levels) ctx 0 (strip_css_comments css') st = Inr (rules, st')" by (simp add: Let_def)
      from sheet_loop_spec [OF Suc this] l show ?thesis by simp
    qed
  qed
qed

section \<open>Sheets the parser does not survive\<close>

text \<open>An at-rule whose header has no break and no comment, opened at the very end of the text.\<close>

lemma at_rule_open_end:
  assumes "without {SEMICOLON, OPEN_BRACE} h"
  shows "at_rule nested ctx (AT_SIGN # h @ [OPEN_BRACE]) st = Some (Inl (Panic ''range start index out of range for slice''))"
proof -
  have h: "\<And>c. c \<in> set (AT_SIGN # h) \<Longrightarrow> \<not> ends_header c" using assms by (auto simp: without_def ends_header_def)
  have "takeWhile (\<lambda>c. \<not> ends_header c) ((AT_SIGN # h) @ [OPEN_BRACE]) = AT_SIGN # h"
    "dropWhile (\<lambda>c. \<not> ends_header c) ((AT_SIGN # h) @ [OPEN_BRACE]) = [OPEN_BRACE]"
    by (subst takeWhile_append2 [OF h] dropWhile_append2 [OF h]; simp add: ends_header_def)+
  then have s: "takeWhile (\<lambda>c. \<not> ends_header c) (AT_SIGN # h @ [OPEN_BRACE]) = AT_SIGN # h"
    "dropWhile (\<lambda>c. \<not> ends_header c) (AT_SIGN # h @ [OPEN_BRACE]) = [OPEN_BRACE]" by simp_all
  show ?thesis by (simp only: at_rule_def s Let_def) (simp add: block_body_def)
qed

lemma open_end_panics:
  assumes "list_all plain_rule_ok sheet" and "sheet \<noteq> []" and "without {SEMICOLON, OPEN_BRACE, 47} h"
    and "byte_len (print_sheet sheet @ AT_SIGN # h @ [OPEN_BRACE]) \<le> MAX_SHEET_BYTES"
  shows "parse_css_with_media (print_sheet sheet @ AT_SIGN # h @ [OPEN_BRACE]) w = Inl (Panic ''range start index out of range for slice'')"
proof -
  have h: "without {SEMICOLON, OPEN_BRACE} h" "47 \<notin> set (AT_SIGN # h @ [OPEN_BRACE])" using assms(3) by (auto simp: without_def)
  have "sheet_loop nested ctx n (AT_SIGN # h @ [OPEN_BRACE]) st = Inl (Panic ''range start index out of range for slice'')" for nested ctx n st
    by (subst sheet_loop_at [of "AT_SIGN # h @ [OPEN_BRACE]"]) (simp_all add: at_rule_open_end [OF h(1)] is_whitespace_def)
  then show ?thesis
    using parse_sheet_print [OF assms(1,2,4) h(2)] by (simp add: parse_css_with_media_def)
qed

section \<open>The order of declarations across at-rules\<close>

text \<open>A rule in a media block is numbered from one again, while its index in the sheet counts a thousand.\<close>

definition media_block :: "plain_rule list \<Rightarrow> ustr" where
  "media_block rules = lit ''@media all{'' @ print_sheet rules @ [CLOSE_BRACE]"

lemma scan_block_plain:
  "without {34, 39, OPEN_BRACE, CLOSE_BRACE} s \<Longrightarrow>
   scan_block (Suc d) None (s @ r) = (case scan_block (Suc d) None r of (v, r') \<Rightarrow> (s @ v, r'))"
  by (induction s) (auto simp: without_def css_quote_def split: prod.splits)

lemma print_declarations_plain:
  assumes "list_all plain_declaration_ok ds"
  shows "without {34, 39, OPEN_BRACE, CLOSE_BRACE} (concat (map print_declaration ds))"
proof -
  have "without {34, 39, OPEN_BRACE, CLOSE_BRACE} (print_declaration d)" if "plain_declaration_ok d" for d
  proof -
    obtain p v important where d: "d = (p, v, important)" by (cases d)
    have "without {34, 39, OPEN_BRACE, CLOSE_BRACE} p" "without {34, 39, OPEN_BRACE, CLOSE_BRACE} v"
      "without {34, 39, OPEN_BRACE, CLOSE_BRACE} (importance important)"
      using that importance_plain(1) [of important] by (auto simp: d plain_declaration_ok_def elim: without_mono)
    then show ?thesis by (simp add: d print_declaration_def importance_def)
  qed
  then show ?thesis using assms by (simp add: list_all_iff)
qed

lemma scan_block_sheet:
  assumes "list_all plain_rule_ok sheet"
  shows "scan_block (Suc d) None (print_sheet sheet @ r) =
    (print_sheet sheet @ fst (scan_block (Suc d) None r), snd (scan_block (Suc d) None r))"
  using assms
proof (induction sheet)
  case (Cons rule sheet)
  obtain sel ds where rule: "rule = (sel, ds)" by (cases rule)
  let ?ds = "concat (map print_declaration ds)"
  have "without {34, 39, 47, OPEN_BRACE, CLOSE_BRACE} sel" "list_all plain_declaration_ok ds"
    using Cons.prems by (simp_all add: rule plain_rule_ok_def)
  then have "without {34, 39, OPEN_BRACE, CLOSE_BRACE} sel" "without {34, 39, OPEN_BRACE, CLOSE_BRACE} ?ds"
    using print_declarations_plain by (auto elim: without_mono)
  note scan = this [THEN scan_block_plain]
  have p: "print_sheet (rule # sheet) = sel @ OPEN_BRACE # ?ds @ CLOSE_BRACE # print_sheet sheet"
    by (simp add: print_sheet_def print_rule_def rule)
  have IH: "scan_block (Suc d) None (print_sheet sheet @ r) =
    (print_sheet sheet @ fst (scan_block (Suc d) None r), snd (scan_block (Suc d) None r))" using Cons by simp
  show ?case unfolding p append.assoc append_Cons by (simp add: scan css_quote_def IH)
qed (simp add: print_sheet_def)

lemma media_all: "media_query_matches (lit ''all'') w"
  by (simp add: media_query_matches_def media_part_matches_def media_term_matches_def lit_def trim_def trim_start_def trim_end_def
    is_whitespace_def eq_ignore_ascii_case_def char_eq_ignore_case_def)

lemma at_rule_media:
  assumes "list_all plain_rule_ok sheet" and "0 < sc_viewport ctx"
  shows "at_rule nested ctx (media_block sheet @ r) st =
    Some (ebind (nested ctx (print_sheet sheet) st) (\<lambda>(rules, st'). Inr (rules, st', r)))"
proof -
  let ?h = "lit ''@media all''"
  have s: "media_block sheet @ r = ?h @ OPEN_BRACE # print_sheet sheet @ CLOSE_BRACE # r" by (simp add: media_block_def lit_def)
  have h: "\<And>c. c \<in> set ?h \<Longrightarrow> \<not> ends_header c" by (auto simp: lit_def ends_header_def)
  have t: "takeWhile (\<lambda>c. \<not> ends_header c) (media_block sheet @ r) = ?h"
    "dropWhile (\<lambda>c. \<not> ends_header c) (media_block sheet @ r) = OPEN_BRACE # print_sheet sheet @ CLOSE_BRACE # r"
    unfolding s by (subst takeWhile_append2 [OF h] dropWhile_append2 [OF h], assumption, simp add: ends_header_def)+
  have b: "scan_block (Suc 0) None (print_sheet sheet @ CLOSE_BRACE # r) = (print_sheet sheet @ [CLOSE_BRACE], r)"
    by (cases r) (simp_all add: scan_block_sheet [OF assms(1)] css_quote_def)
  have "trim ?h = ?h" by (rule trim_id) (simp add: lit_def is_whitespace_def)
  moreover have "strip_prefix (lit ''@media'') ?h = Some (lit '' all'')" by (simp add: lit_def)
  moreover have "trim (lit '' all'') = lit ''all''" by (simp add: trim_def trim_start_def trim_end_def lit_def is_whitespace_def)
  ultimately show ?thesis
    using assms(2) media_all by (simp add: at_rule_def t b block_body_def at_block_def)
qed


lemma sheet_loop_media:
  assumes "list_all plain_rule_ok sheet" and "sheet \<noteq> []" and "0 < sc_viewport ctx" and "byte_len (print_sheet sheet) \<le> MAX_SHEET_BYTES"
  shows "sheet_loop (parse_sheet (Suc levels)) ctx n (media_block sheet) st = Inr (sheet_rules ctx 0 sheet, st)"
proof -
  have start: "media_block sheet = dropWhile is_whitespace (media_block sheet)" "media_block sheet \<noteq> []" "hd (media_block sheet) = AT_SIGN"
    by (simp_all add: media_block_def lit_def is_whitespace_def)
  have "parse_sheet (Suc levels) ctx (print_sheet sheet) st = Inr (sheet_rules ctx 0 sheet, st)"
    using parse_sheet_print [OF assms(1,2), where r = "[]"] assms(4) by simp
  then show ?thesis
    using sheet_loop_at [OF start] at_rule_media [OF assms(1,3), where r = "[]"] by simp
qed

lemma parse_css_media:
  assumes ok: "list_all plain_rule_ok sheet" "list_all plain_rule_ok block" "sheet \<noteq> []" "block \<noteq> []" and "0 < w"
    and bytes: "byte_len (print_sheet sheet @ media_block block) \<le> MAX_SHEET_BYTES"
  shows "parse_css_with_media (print_sheet sheet @ media_block block) w =
    Inr (sheet_rules (author_context w) 0 sheet @ sheet_rules (author_context w) 0 block)"
proof -
  have "47 \<notin> set (media_block block)" using print_sheet_plain [OF ok(2)] by (simp add: media_block_def lit_def)
  note p = parse_sheet_print [OF ok(1,3) bytes this, of MAX_SHEET_NESTING]
  have "byte_len (print_sheet block) \<le> MAX_SHEET_BYTES" using bytes by (simp add: media_block_def byte_len_def)
  then have "sheet_loop (parse_sheet MAX_SHEET_NESTING) (author_context w) n (media_block block) st =
      Inr (sheet_rules (author_context w) 0 block, st)" for n st
    using sheet_loop_media [OF ok(2,4), of "author_context w" 15] assms(5)
    by (simp add: MAX_SHEET_NESTING_def author_context_def eval_nat_numeral)
  with p show ?thesis by (simp add: parse_css_with_media_def)
qed

text \<open>Among declarations of one property that differ only in their place, the one that is applied last has the greatest number.\<close>

lemma last_sort_key:
  assumes "xs \<noteq> []"
  shows "last (sort_key f xs) \<in> set xs \<and> (\<forall>x\<in>set xs. f x \<le> f (last (sort_key f xs)))"
proof -
  let ?ys = "sort_key f xs"
  have ne: "?ys \<noteq> []" using assms by (metis length_0_conv length_sort)
  then have "last ?ys \<in> set ?ys" by (rule last_in_set)
  moreover have "f x \<le> f (last ?ys)" if "x \<in> set ?ys" for x
  proof -
    have "sorted (map f (butlast ?ys @ [last ?ys]))" using ne sorted_sort_key [of f xs] by simp
    moreover have "x \<in> set (butlast ?ys) \<or> x = last ?ys" using that ne by (metis append_butlast_last_id Un_iff insert_iff empty_iff list.set set_append)
    ultimately show ?thesis by (auto simp: sorted_append)
  qed
  ultimately show ?thesis by simp
qed

lemma last_filter: "xs \<noteq> [] \<Longrightarrow> P (last xs) \<Longrightarrow> last (filter P xs) = last xs"
  by (cases xs rule: rev_cases) simp_all

lemma numbered_nth: "i < length ds \<Longrightarrow>
  numbered ctx n ds ! i = declaration_of ctx (n + i + 1) (fst (ds ! i)) (snd (ds ! i))"
proof (induction ctx n ds arbitrary: i rule: numbered.induct)
  case (2 ctx n p v important ds)
  then show ?case by (cases i) simp_all
qed simp

lemma numbered_length [simp]: "length (numbered ctx n ds) = length ds"
  by (induction ctx n ds rule: numbered.induct) simp_all

definition matched_at :: "nat \<Rightarrow> specificity \<Rightarrow> style_declaration \<Rightarrow> matched_decl" where
  "matched_at rule_idx spec d = \<lparr>md_decl = d, md_origin = Author, md_layer_order = None, md_specificity = spec,
     md_source_order = rule_idx * 1000 + d_source_order d, md_is_inline = False\<rparr>"

lemma rank_matched_at:
  "\<not> d_important d \<Longrightarrow> rank_of (matched_at i spec d) = (3, -1, spec, i * 1000 + d_source_order d)"
  by (simp add: rank_of_def matched_at_def cascade_rank_def cascade_group_def layer_rank_def)

lemma two_rules_matched:
  fixes w
  defines "c \<equiv> author_context w"
  assumes "best_specificity (parse_selector_list MAX_SELECTOR_NESTING_DEPTH sel) ctx = Some spec" and "bt_get (lit ''style'') (m_attrs ctx) = None"
  shows "matched_declarations [rule_of c 0 (sel, ds), rule_of c 0 (sel, es)] ctx =
    map (matched_at 0 spec) (numbered c 0 ds) @ map (matched_at 1 spec) (numbered c 0 es)"
  using assms
  by (simp add: matched_declarations_def rule_declarations_def rule_of_def Let_def inline_declarations_def matched_at_def c_def author_context_def)

lemma media_override_lost:
  assumes ok: "plain_rule_ok (sel, ds)" "plain_rule_ok (sel, [(p, w, False)])" and last: "last ds = (p, v, False)"
    and plain: "list_all (\<lambda>d. \<not> snd (snd d)) ds" "\<not> starts_with (lit ''--'') p" and len: "1002 \<le> length ds" and view: "0 < viewport"
    and bytes: "byte_len (print_sheet [(sel, ds)] @ media_block [(sel, [(p, w, False)])]) \<le> MAX_SHEET_BYTES"
    and ctx: "best_specificity (parse_selector_list MAX_SELECTOR_NESTING_DEPTH sel) ctx = Some spec" "bt_get (lit ''style'') (m_attrs ctx) = None"
  shows "\<exists>rules. parse_css_with_media (print_sheet [(sel, ds)] @ media_block [(sel, [(p, w, False)])]) viewport = Inr rules \<and>
    d_value (md_decl (last (application_order rules ctx))) = v"
proof -
  let ?c = "author_context viewport"
  let ?rules = "[rule_of ?c 0 (sel, ds), rule_of ?c 0 (sel, [(p, w, False)])]"
  let ?ms = "matched_declarations ?rules ctx" let ?sorted = "sort_key rank_of ?ms"
  let ?top = "matched_at 0 spec (declaration_of ?c (length ds) p (v, False))"
  have ms: "?ms = map (matched_at 0 spec) (numbered ?c 0 ds) @ [matched_at 1 spec (declaration_of ?c 1 p (w, False))]"
    by (simp add: two_rules_matched [OF ctx])
  have "ds \<noteq> []" using len by auto
  then have ds: "ds \<noteq> []" "ds ! (length ds - 1) = (p, v, False)" using last_conv_nth [of ds] last by simp_all
  have "numbered ?c 0 ds ! (length ds - 1) = declaration_of ?c (length ds) p (v, False)"
    using numbered_nth [of "length ds - 1" ds ?c 0] ds by (simp add: Suc_diff_1)
  then have top: "?top \<in> set ?ms" using ds nth_mem [of "length ds - 1" "numbered ?c 0 ds"] by (auto simp: ms)
  have unique: "m = ?top" if "m \<in> set ?ms" "rank_of ?top \<le> rank_of m" for m
  proof -
    from that(1) consider (sheet) i where "i < length ds" "m = matched_at 0 spec (numbered ?c 0 ds ! i)"
      | (media) "m = matched_at 1 spec (declaration_of ?c 1 p (w, False))"
      by (auto simp: ms in_set_conv_nth)
    then show ?thesis
    proof cases
      case sheet
      have "\<not> snd (snd (ds ! i))" using plain(1) sheet(1) by (simp add: list_all_length)
      then have "rank_of m = (3, -1, spec, i + 1)" using numbered_nth [OF sheet(1), of ?c 0] rank_matched_at
        by (simp add: sheet(2) declaration_of_def)
      moreover have "rank_of ?top = (3, -1, spec, length ds)" by (simp add: rank_matched_at declaration_of_def)
      ultimately have "length ds \<le> i + 1" using that(2) by (simp add: less_eq_prod_def)
      then have "i = length ds - 1" using sheet(1) by simp
      then show ?thesis using sheet numbered_nth [OF sheet(1), of ?c 0] ds by simp
    next
      case media
      then have "rank_of m = (3, -1, spec, 1001)" by (simp add: rank_matched_at declaration_of_def)
      moreover have "rank_of ?top = (3, -1, spec, length ds)" by (simp add: rank_matched_at declaration_of_def)
      ultimately show ?thesis using that(2) len by (simp add: less_eq_prod_def)
    qed
  qed
  have "?ms \<noteq> []" by (simp add: ms)
  from last_sort_key [OF this, of rank_of] top have last: "last ?sorted = ?top" by (intro unique) auto
  have "trimmed p" using ok(2) by (simp add: plain_rule_ok_def plain_declaration_ok_def)
  then have "\<not> is_custom ?top" using plain(2) by (simp add: is_custom_def matched_at_def declaration_of_def trimmed_trim)
  moreover have "?sorted \<noteq> []" using \<open>?ms \<noteq> []\<close> by (metis length_0_conv length_sort)
  ultimately have f: "last (filter (\<lambda>m. \<not> is_custom m) ?sorted) = ?top" "filter (\<lambda>m. \<not> is_custom m) ?sorted \<noteq> []"
    using last_filter [of ?sorted "\<lambda>m. \<not> is_custom m"] last last_in_set [of ?sorted] by (auto simp: filter_empty_conv simp del: set_sort)
  then have "d_value (md_decl (last (application_order ?rules ctx))) = v"
    by (simp add: application_order_def Let_def matched_at_def declaration_of_def)
  moreover have "parse_css_with_media (print_sheet [(sel, ds)] @ media_block [(sel, [(p, w, False)])]) viewport = Inr ?rules"
    using parse_css_media [of "[(sel, ds)]" "[(sel, [(p, w, False)])]" viewport] ok view bytes by simp
  ultimately show ?thesis by blast
qed

section \<open>Feature queries in parentheses\<close>

text \<open>A condition whose only \<^verbatim>\<open>or\<close> stands inside its parentheses is split into itself until the budget is used up.\<close>

lemma strip_nots_paren:
  assumes "hd s = OPEN_PAREN"
  shows "strip_nots s = (0, s)"
proof (cases s)
  case (Cons c t)
  then have "\<not> eq_ignore_ascii_case (take 4 s) (lit ''not '')"
    using assms by (simp add: eq_ignore_ascii_case_def lit_def to_ascii_lowercase_def char_eq_ignore_case_def ascii_lower_def is_ascii_upper_def)
  then show ?thesis by (subst strip_nots.simps) simp
qed (simp add: strip_nots.simps)

lemma nested_or_fails:
  assumes "s \<noteq> []" and "hd s = OPEN_PAREN" and "trim s = s" and "contains (lit '' or '') s"
    and "split_supports_top_level s (lit '' or '') = [s]"
  shows "\<not> supports_bounded levels s"
  by (induction levels) (simp_all add: assms strip_nots_paren Let_def)

lemma feature_holds:
  assumes "s \<noteq> []" and "hd s = OPEN_PAREN" and "trim s = s"
    and "\<not> contains (lit '' or '') s" "\<not> contains (lit '' OR '') s" "\<not> contains (lit '' and '') s" "\<not> contains (lit '' AND '') s"
  shows "supports_query_matches s = supports_feature s"
  using assms by (simp add: supports_query_matches_def strip_nots_paren Let_def)

definition grid_or_flex :: ustr where
  "grid_or_flex = lit ''((display:grid) or (display:flex))''"

lemmas supports_eval = lit_def starts_with_def trim_def trim_start_def trim_end_def is_whitespace_def supports_feature_def split_once_def
  is_property_value_supported_def SUPPORTED_PROPERTIES_def to_ascii_lowercase_def ascii_lower_def is_ascii_upper_def

lemma grid_or_flex_fails:
  "supports_query_matches (lit ''(display:grid)'')" "supports_query_matches (lit ''(display:flex)'')"
  "\<not> supports_query_matches grid_or_flex"
proof -
  have "supports_query_matches (lit ''(display:grid)'') = supports_feature (lit ''(display:grid)'')"
    by (rule feature_holds) (simp_all add: supports_eval)
  then show "supports_query_matches (lit ''(display:grid)'')" by (simp add: supports_eval)
  have "supports_query_matches (lit ''(display:flex)'') = supports_feature (lit ''(display:flex)'')"
    by (rule feature_holds) (simp_all add: supports_eval)
  then show "supports_query_matches (lit ''(display:flex)'')" by (simp add: supports_eval)
  have "trim grid_or_flex = grid_or_flex" by (simp add: grid_or_flex_def supports_eval)
  moreover have "split_supports_top_level grid_or_flex (lit '' or '') = [grid_or_flex]"
    by (simp add: grid_or_flex_def split_supports_top_level_def supports_eval)
  ultimately show "\<not> supports_query_matches grid_or_flex"
    using nested_or_fails [of grid_or_flex "Suc MAX_MATH_DEPTH"]
    by (simp add: supports_query_matches_def grid_or_flex_def supports_eval del: supports_bounded.simps)
qed

text \<open>The negation of a query binds its first term only.\<close>

lemma media_not_binds_first: "\<not> media_query_matches (lit ''not all and (max-width:1px)'') 200"
proof -
  have alts: "split_char 44 (lit ''not all and (max-width:1px)'') = [lit ''not all and (max-width:1px)'']" by (simp add: lit_def)
  have parts: "map trim (split_on (lit ''and'') (lit ''not all and (max-width:1px)'')) = [lit ''not all'', lit ''(max-width:1px)'']"
    by (simp add: supports_eval)
  have "strip_prefix (lit ''not '') (lit ''not all'') = Some (lit ''all'')" by (simp add: lit_def)
  moreover have "trim (lit ''all'') = lit ''all''" by (simp add: supports_eval)
  moreover have "media_term_matches 200 (lit ''all'')" using \<open>trim (lit ''all'') = lit ''all''\<close>
    by (simp add: media_term_matches_def Let_def eq_ignore_ascii_case_def lit_def char_eq_ignore_case_def)
  ultimately have "\<not> media_part_matches 200 (lit ''not all'')" by (simp add: media_part_matches_def)
  then show ?thesis by (simp add: media_query_matches_def alts parts) (simp add: lit_def)
qed

section \<open>Properties\<close>

text \<open>C38. A style sheet that is printed from rules reads back as these rules: every rule with its selectors, every declaration
  with its value and importance, numbered in the order of the text.\<close>

lemma parse_css_printed:
  assumes "list_all plain_rule_ok sheet" and "byte_len (print_sheet sheet) \<le> MAX_SHEET_BYTES"
  shows "parse_css_with_media (print_sheet sheet) w = Inr (sheet_rules (author_context w) 0 sheet)"
  by (rule parse_css_print [OF assms])

text \<open>C39. Whatever the text, a sheet that is parsed has no more rules than characters, and each rule has selectors, declarations
  with a lower-case property and a value, the layer of its declarations, the greatest specificity of its selectors, and its
  declarations in increasing order.\<close>

lemma parse_css_type:
  assumes "parse_css_with_media css w = Inr rules"
  shows "list_all style_rule_ok rules \<and> length rules \<le> length css"
proof -
  obtain st where "parse_sheet (Suc MAX_SHEET_NESTING) (author_context w) css \<lparr>ss_imports = [], ss_layers = []\<rparr> = Inr (rules, st)"
    using assms by (auto simp: parse_css_with_media_def ebind_eq_Inr simp del: parse_sheet.simps)
  then show ?thesis by (rule reader_okD [OF parse_sheet_ok])
qed

text \<open>C40. A sheet that ends behind the opening brace of an at-rule, whatever the rule, makes the parser panic.\<close>

lemma sheet_end_panics:
  assumes "list_all plain_rule_ok sheet" and "sheet \<noteq> []" and "without {SEMICOLON, OPEN_BRACE, 47} h"
    and "byte_len (print_sheet sheet @ AT_SIGN # h @ [OPEN_BRACE]) \<le> MAX_SHEET_BYTES"
  shows "parse_css_with_media (print_sheet sheet @ AT_SIGN # h @ [OPEN_BRACE]) w = Inl (Panic ''range start index out of range for slice'')"
  by (rule open_end_panics [OF assms])

definition small_sheet :: "plain_rule list" where
  "small_sheet = [(lit ''p'', [(lit ''color'', lit ''rgb(1,2,3)'', False), (lit ''width'', lit ''2px'', True)])]"

lemma selectors_not_Nil: "split_selectors [] 0 0 sel \<noteq> [] \<Longrightarrow> parse_selector_list MAX_SELECTOR_NESTING_DEPTH sel \<noteq> []"
  by (simp add: MAX_SELECTOR_NESTING_DEPTH_def numeral_eq_Suc)

lemma small_sheet_ok: "list_all plain_rule_ok small_sheet"
proof -
  have "parse_selector_list MAX_SELECTOR_NESTING_DEPTH (lit ''p'') \<noteq> []" by (rule selectors_not_Nil) (simp add: supports_eval)
  moreover have "plain_declaration_ok (lit ''color'', lit ''rgb(1,2,3)'', False)" "plain_declaration_ok (lit ''width'', lit ''2px'', True)"
    by (simp_all add: plain_declaration_ok_def trimmed_def supports_eval paren_depth_def ends_with_def suffix_def)
  ultimately show ?thesis by (simp add: small_sheet_def plain_rule_ok_def) (simp add: trimmed_def lit_def is_whitespace_def)
qed

lemma parse_css_printed_witness: "parse_css_with_media (print_sheet small_sheet) 800 = Inr (sheet_rules (author_context 800) 0 small_sheet)"
  by (rule parse_css_printed [OF small_sheet_ok])
    (simp add: small_sheet_def print_sheet_def print_rule_def print_declaration_def lit_def MAX_SHEET_BYTES_def byte_len_def utf8_len_def)

lemma parse_css_type_witness: "list_all style_rule_ok (sheet_rules (author_context 800) 0 small_sheet)"
proof -
  have "byte_len (print_sheet small_sheet) \<le> MAX_SHEET_BYTES"
    by (simp add: small_sheet_def print_sheet_def print_rule_def print_declaration_def lit_def MAX_SHEET_BYTES_def byte_len_def utf8_len_def)
  from parse_css_type [OF parse_css_print [OF small_sheet_ok this]] show ?thesis by simp
qed

lemma sheet_end_panics_witness:
  "parse_css_with_media (print_sheet small_sheet @ AT_SIGN # lit ''page'' @ [OPEN_BRACE]) 800 = Inl (Panic ''range start index out of range for slice'')"
  by (rule sheet_end_panics [OF small_sheet_ok])
    (simp_all add: small_sheet_def print_sheet_def print_rule_def print_declaration_def lit_def MAX_SHEET_BYTES_def byte_len_def utf8_len_def)

end
