(* ===== verification/Signed64.thy ===== *)
theory Signed64
  imports Prelude
begin

text \<open>
  Rust's \<^verbatim>\<open>i64\<close> and \<^verbatim>\<open>i128\<close> as integers in their range, with the checked,
  saturating and converting operations the media code uses, and big-endian and little-endian fields of
  a byte slice.
\<close>

definition i64_max :: int where "i64_max = 9223372036854775807"
definition i64_min :: int where "i64_min = - 9223372036854775808"

definition in_i64 :: "int \<Rightarrow> bool" where
  "in_i64 x \<longleftrightarrow> i64_min \<le> x \<and> x \<le> i64_max"

definition in_i128 :: "int \<Rightarrow> bool" where
  "in_i128 x \<longleftrightarrow> - (2 ^ 127) \<le> x \<and> x < 2 ^ 127"

lemmas i64_bounds = i64_max_def i64_min_def in_i64_def

text \<open>\<^verbatim>\<open>i64::try_from\<close>, \<^verbatim>\<open>i64::checked_add\<close>,
  \<^verbatim>\<open>i64::saturating_add\<close>, \<^verbatim>\<open>i64::saturating_sub\<close>.\<close>

definition i64_try_from :: "int \<Rightarrow> int option" where
  "i64_try_from x = (if in_i64 x then Some x else None)"

definition i64_checked_add :: "int \<Rightarrow> int \<Rightarrow> int option" where
  "i64_checked_add x y = i64_try_from (x + y)"

definition i128_checked :: "int \<Rightarrow> int option" where
  "i128_checked x = (if in_i128 x then Some x else None)"

definition i64_clamp :: "int \<Rightarrow> int" where
  "i64_clamp x = max i64_min (min x i64_max)"

definition i64_sat_add :: "int \<Rightarrow> int \<Rightarrow> int" where
  "i64_sat_add x y = i64_clamp (x + y)"

definition i64_sat_sub :: "int \<Rightarrow> int \<Rightarrow> int" where
  "i64_sat_sub x y = i64_clamp (x - y)"

text \<open>\<^verbatim>\<open>u64 as i64\<close>: the same bits.\<close>

definition u64_as_i64 :: "nat \<Rightarrow> int" where
  "u64_as_i64 n = (if int n \<le> i64_max then int n else int n - 2 ^ 64)"

text \<open>\<^verbatim>\<open>u64::saturating_mul\<close>.\<close>

definition sat_mul :: "nat \<Rightarrow> nat \<Rightarrow> nat" where
  "sat_mul a b = min (a * b) u64_max"

lemma i64_try_from_eq_Some [result_simps]: "i64_try_from x = Some y \<longleftrightarrow> y = x \<and> in_i64 x"
  by (auto simp: i64_try_from_def)

lemma i64_checked_add_eq_Some [result_simps]: "i64_checked_add x y = Some z \<longleftrightarrow> z = x + y \<and> in_i64 (x + y)"
  by (auto simp: i64_checked_add_def result_simps)

lemma i64_clamp_id: "in_i64 x \<Longrightarrow> i64_clamp x = x"
  by (simp add: i64_clamp_def in_i64_def)

lemma i64_clamp_mono: "x \<le> y \<Longrightarrow> i64_clamp x \<le> i64_clamp y"
  by (simp add: i64_clamp_def)

lemma i64_clamp_range: "in_i64 (i64_clamp x)"
  by (simp add: i64_clamp_def i64_bounds)

lemma u64_as_i64_small: "int n \<le> i64_max \<Longrightarrow> u64_as_i64 n = int n"
  by (simp add: u64_as_i64_def)

lemma sat_mul_exact: "a * b \<le> u64_max \<Longrightarrow> sat_mul a b = a * b"
  by (simp add: sat_mul_def)

section \<open>Fields of a slice\<close>

text \<open>\<^verbatim>\<open>u32::from_be_bytes\<close> and its relatives on \<open>n\<close> bytes at an offset; \<open>None\<close> outside
  the slice.\<close>

definition be_field :: "nat \<Rightarrow> bytes \<Rightarrow> nat \<Rightarrow> nat option" where
  "be_field n bs offset = map_option (\<lambda>v. unat (from_be_bytes v)) (get_range bs offset (sat_add offset n))"

definition le_field :: "nat \<Rightarrow> bytes \<Rightarrow> nat \<Rightarrow> nat option" where
  "le_field n bs offset = map_option (\<lambda>v. unat (from_le_bytes v)) (get_range bs offset (sat_add offset n))"

lemma sat_add_in_range: "sat_add offset n \<le> k \<Longrightarrow> k < u64_max \<Longrightarrow> offset + n \<le> k"
  by (auto simp: sat_add_def)

lemma from_le_bytes_bound: "length bs \<le> 8 \<Longrightarrow> unat (from_le_bytes bs) < 256 ^ length bs"
proof (induction bs)
  case (Cons b bs)
  then have IH: "unat (from_le_bytes bs) < 256 ^ length bs" and l: "length bs \<le> 7" by simp_all
  have "unat (from_le_bytes (b # bs)) = (unat (ucast b :: u64) + (256 * unat (from_le_bytes bs)) mod 2 ^ 64) mod 2 ^ 64"
    by (simp add: unat_word_ariths)
  then have "unat (from_le_bytes (b # bs)) \<le> unat (ucast b :: u64) + 256 * unat (from_le_bytes bs)"
    by (simp only:) (rule order_trans [OF mod_less_eq_dividend], rule add_left_mono, rule mod_less_eq_dividend)
  moreover have "unat (ucast b :: u64) < 256"
  proof -
    have "unat b < 2 ^ LENGTH(8)" by (rule unsigned_less)
    then show ?thesis by (simp add: unsigned_ucast_eq take_bit_nat_eq_self)
  qed
  ultimately show ?case using IH by simp
qed simp

lemma be_field_bound: "be_field n bs offset = Some v \<Longrightarrow> n \<le> 8 \<Longrightarrow> v < 256 ^ n"
proof -
  assume a: "be_field n bs offset = Some v" and n: "n \<le> 8"
  then obtain w where w: "get_range bs offset (sat_add offset n) = Some w" "v = unat (from_le_bytes (rev w))"
    by (auto simp: be_field_def from_be_bytes_def)
  have "length w \<le> n" using get_range_length [OF w(1)] sat_add_le [of offset n] by simp
  moreover have "v < 256 ^ length w"
    using from_le_bytes_bound [of "rev w"] w(2) calculation n by simp
  ultimately show ?thesis by (meson less_le_trans one_le_numeral power_increasing)
qed

lemma le_field_bound: "le_field n bs offset = Some v \<Longrightarrow> n \<le> 8 \<Longrightarrow> v < 256 ^ n"
proof -
  assume a: "le_field n bs offset = Some v" and n: "n \<le> 8"
  then obtain w where w: "get_range bs offset (sat_add offset n) = Some w" "v = unat (from_le_bytes w)"
    by (auto simp: le_field_def)
  have "length w \<le> n" using get_range_length [OF w(1)] sat_add_le [of offset n] by simp
  moreover have "v < 256 ^ length w"
    using from_le_bytes_bound [of w] w(2) calculation n by simp
  ultimately show ?thesis by (meson less_le_trans one_le_numeral power_increasing)
qed

end
