(* ===== verification/Media_Core.thy ===== *)
theory Media_Core
  imports Unicode_Text Signed64
begin

text \<open>
  \<^verbatim>\<open>src/media_core.rs\<close>: media types, byte ranges, encoded samples and decoded frames, the two
  bounded queues of the pipeline, the RIFF/WAVE demultiplexer with the 16-bit PCM decoder behind it, and
  the audio clock. Timestamps are \<^verbatim>\<open>i64\<close> microseconds. The two queues implement one
  contract, the locale \<open>bounded_queue\<close>.
\<close>

section \<open>Media types\<close>

definition MAX_CONTENT_TYPE_BYTES :: nat where "MAX_CONTENT_TYPE_BYTES = 1024"
definition MAX_SAMPLE_DURATION_US :: nat where "MAX_SAMPLE_DURATION_US = 10 * 60 * 1000000"
definition MAX_ABSOLUTE_TIMESTAMP_US :: int where "MAX_ABSOLUTE_TIMESTAMP_US = 7 * 24 * 60 * 60 * 1000000"
definition MAX_WAVE_BYTES :: nat where "MAX_WAVE_BYTES = 128 * 1024 * 1024"
definition PCM_FRAMES_PER_SAMPLE :: nat where "PCM_FRAMES_PER_SAMPLE = 1024"

lemmas media_limits = MAX_CONTENT_TYPE_BYTES_def MAX_SAMPLE_DURATION_US_def MAX_ABSOLUTE_TIMESTAMP_US_def
  MAX_WAVE_BYTES_def PCM_FRAMES_PER_SAMPLE_def

datatype media_container = IsoBmff | WebM | Ogg | Wave | UnknownContainer

datatype media_codec =
    Avc | Hevc | Vp8 | Vp9 | Av1 | Aac | Opus | Vorbis | Pcm
  | UnknownCodec ustr

record media_type =
  mt_essence :: ustr
  mt_container :: media_container
  mt_codecs :: "media_codec list"

definition parse_codec :: "ustr \<Rightarrow> media_codec" where
  "parse_codec codec =
     (let normalized = to_ascii_lowercase codec; p = hd (split_char (of_char CHR ''.'') normalized) in
      if p \<in> {lit ''avc1'', lit ''avc2''} then Avc
      else if p \<in> {lit ''hev1'', lit ''hvc1''} then Hevc
      else if p \<in> {lit ''vp8'', lit ''vp08''} then Vp8
      else if p \<in> {lit ''vp9'', lit ''vp09''} then Vp9
      else if p = lit ''av01'' then Av1
      else if p = lit ''mp4a'' then Aac
      else if p = lit ''opus'' then Opus
      else if p = lit ''vorbis'' then Vorbis
      else if p \<in> {lit ''pcm'', lit ''lpcm''} then Pcm
      else UnknownCodec normalized)"

definition container_of :: "ustr \<Rightarrow> media_container" where
  "container_of essence =
     (if essence \<in> {lit ''video/mp4'', lit ''audio/mp4'', lit ''application/mp4''} then IsoBmff
      else if essence \<in> {lit ''video/webm'', lit ''audio/webm''} then WebM
      else if essence \<in> {lit ''video/ogg'', lit ''audio/ogg'', lit ''application/ogg''} then Ogg
      else if essence \<in> {lit ''audio/wav'', lit ''audio/wave'', lit ''audio/x-wav''} then Wave
      else UnknownContainer)"

text \<open>\<^verbatim>\<open>str::trim_matches\<close> of one character.\<close>

definition trim_matches :: "uchar \<Rightarrow> ustr \<Rightarrow> ustr" where
  "trim_matches c s = rev (dropWhile (\<lambda>d. d = c) (rev (dropWhile (\<lambda>d. d = c) s)))"

text \<open>The inner loop of \<^verbatim>\<open>parse_media_type\<close>, over the entries of a codec list, and the outer
  one, over the parameters of the content type.\<close>

fun push_codecs :: "ustr list \<Rightarrow> media_codec list \<Rightarrow> error + media_codec list" where
  "push_codecs [] codecs = Inr codecs"
| "push_codecs (c # cs) codecs =
     (if length codecs \<ge> 16 then Inl (Err ''Media codec list budget exceeded'')
      else push_codecs cs (codecs @ [parse_codec c]))"

fun codec_parameters :: "ustr list \<Rightarrow> media_codec list \<Rightarrow> error + media_codec list" where
  "codec_parameters [] codecs = Inr codecs"
| "codec_parameters (parameter # ps) codecs =
     (case split_once (of_char CHR ''='') parameter of
        None \<Rightarrow> codec_parameters ps codecs
      | Some (name, raw_value) \<Rightarrow>
          if \<not> eq_ignore_ascii_case (trim name) (lit ''codecs'') then codec_parameters ps codecs
          else
            ebind (push_codecs (filter (\<lambda>v. v \<noteq> []) (map trim
              (split_char (of_char CHR '','') (trim_matches 34 (trim raw_value))))) codecs)
              (codec_parameters ps))"

definition parse_media_type :: "ustr \<Rightarrow> error + media_type" where
  "parse_media_type value =
     (if value = [] \<or> byte_len value > MAX_CONTENT_TYPE_BYTES \<or> (\<exists>c\<in>set value. c \<ge> 128)
      then Inl (Err ''Invalid media Content-Type'')
      else
        let parts = split_char (of_char CHR '';'') value;
            essence = to_ascii_lowercase (trim (hd parts))
        in if of_char CHR ''/'' \<notin> set essence then Inl (Err ''Media Content-Type has no valid essence'')
           else ebind (codec_parameters (tl parts) []) (\<lambda>codecs.
             Inr \<lparr>mt_essence = essence, mt_container = container_of essence, mt_codecs = codecs\<rparr>))"

text \<open>A byte string literal of the code.\<close>

definition bstr :: "string \<Rightarrow> bytes" where
  "bstr s = map of_char s"

definition sniff_media_container :: "bytes \<Rightarrow> media_container" where
  "sniff_media_container pre =
     (if length pre \<ge> 12 \<and> take 4 (drop 4 pre) = bstr ''ftyp'' then IsoBmff
      else if take 4 pre = [0x1a, 0x45, 0xdf, 0xa3] then WebM
      else if take 4 pre = bstr ''OggS'' then Ogg
      else if length pre \<ge> 12 \<and> take 4 pre = bstr ''RIFF'' \<and> take 4 (drop 8 pre) = bstr ''WAVE'' then Wave
      else UnknownContainer)"

section \<open>Byte ranges\<close>

record byte_range =
  br_start :: nat
  br_end_inclusive :: nat

definition new_byte_range :: "nat \<Rightarrow> nat \<Rightarrow> error + byte_range" where
  "new_byte_range s e =
     (if s > e then Inl (Err ''Invalid media byte range'')
      else Inr \<lparr>br_start = s, br_end_inclusive = e\<rparr>)"

definition byte_range_len :: "byte_range \<Rightarrow> error + nat" where
  "byte_range_len r =
     ok_or (Err ''Media byte range overflow'')
       (case checked_sub (br_end_inclusive r) (br_start r) of
          None \<Rightarrow> None | Some l \<Rightarrow> checked_add l 1)"

definition byte_range_is_empty :: "byte_range \<Rightarrow> bool" where
  "byte_range_is_empty r \<longleftrightarrow> br_start r > br_end_inclusive r"

definition bounded_range_slice :: "bytes \<Rightarrow> byte_range \<Rightarrow> nat \<Rightarrow> error + bytes" where
  "bounded_range_slice bs r max_bytes =
     ebind (byte_range_len r) (\<lambda>len.
       if len > max_bytes then Inl (Err ''Media byte r budget exceeded'')
       else
         ebind (ok_or (Err ''Media byte r overflow'') (checked_add (br_start r) len)) (\<lambda>end.
           ok_or (Err ''Media byte r is outside the resource'') (get_range bs (br_start r) end)))"

section \<open>Samples and frames\<close>

record encoded_sample =
  es_track_id :: u32
  es_dts :: int
  es_pts :: int
  es_duration :: nat
  es_keyframe :: bool
  es_data :: bytes

record pcm_format =
  pf_sample_rate :: nat
  pf_channels :: nat
  pf_bits :: nat

definition pcm_validate :: "pcm_format \<Rightarrow> error + pcm_format" where
  "pcm_validate f =
     (if \<not> (8000 \<le> pf_sample_rate f \<and> pf_sample_rate f \<le> 384000) then Inl (Err ''Unsupported PCM sample rate'')
      else if \<not> (1 \<le> pf_channels f \<and> pf_channels f \<le> 8) \<or> pf_bits f \<noteq> 16
      then Inl (Err ''Only bounded 16-bit PCM audio is supported'')
      else Inr f)"

definition block_align :: "pcm_format \<Rightarrow> nat" where
  "block_align f = pf_channels f * (pf_bits f div 8)"

record audio_frame =
  af_timestamp :: int
  af_duration :: nat
  af_sample_rate :: nat
  af_channels :: nat
  af_samples :: "16 word list"

record video_frame =
  vf_timestamp :: int
  vf_duration :: nat
  vf_width :: nat
  vf_height :: nat
  vf_rgba :: bytes

datatype decoded_frame = Audio audio_frame | Video video_frame

definition frame_timestamp :: "decoded_frame \<Rightarrow> int" where
  "frame_timestamp f = (case f of Audio a \<Rightarrow> af_timestamp a | Video v \<Rightarrow> vf_timestamp v)"

definition estimated_bytes :: "decoded_frame \<Rightarrow> nat" where
  "estimated_bytes f = (case f of Audio a \<Rightarrow> sat_mul (length (af_samples a)) 2 | Video v \<Rightarrow> length (vf_rgba v))"

definition validate_sample :: "encoded_sample \<Rightarrow> error + unit" where
  "validate_sample s =
     (if es_track_id s = 0 \<or> es_data s = [] then Inl (Err ''Invalid encoded media sample'')
      else if es_duration s = 0 \<or> es_duration s > MAX_SAMPLE_DURATION_US
      then Inl (Err ''Invalid encoded sample duration'')
      else if \<bar>es_dts s\<bar> > MAX_ABSOLUTE_TIMESTAMP_US \<or> \<bar>es_pts s\<bar> > MAX_ABSOLUTE_TIMESTAMP_US
      then Inl (Err ''Encoded sample timestamp budget exceeded'')
      else Inr ())"

section \<open>The queue of decoded frames\<close>

record frame_queue =
  fq_max_frames :: nat
  fq_max_bytes :: nat
  fq_queued_bytes :: nat
  fq_frames :: "decoded_frame list"

definition new_frame_queue :: "nat \<Rightarrow> nat \<Rightarrow> frame_queue" where
  "new_frame_queue max_frames max_bytes =
     \<lparr>fq_max_frames = max_frames, fq_max_bytes = max_bytes, fq_queued_bytes = 0, fq_frames = []\<rparr>"

definition fq_push :: "decoded_frame \<Rightarrow> frame_queue \<Rightarrow> error + frame_queue" where
  "fq_push frame q =
     (if length (fq_frames q) \<ge> fq_max_frames q then Inl (Err ''Decoded frame count budget exceeded'')
      else ebind (ok_or (Err ''Decoded frame byte count overflow'')
                   (checked_add (fq_queued_bytes q) (estimated_bytes frame))) (\<lambda>projected.
        if projected > fq_max_bytes q then Inl (Err ''Decoded frame byte budget exceeded'')
        else if fq_frames q \<noteq> [] \<and> frame_timestamp frame < frame_timestamp (last (fq_frames q))
        then Inl (Err ''Non-monotonic decoded frame timestamp'')
        else Inr (q\<lparr>fq_frames := fq_frames q @ [frame], fq_queued_bytes := projected\<rparr>)))"

definition fq_pop :: "frame_queue \<Rightarrow> (decoded_frame \<times> frame_queue) option" where
  "fq_pop q = (case fq_frames q of
      [] \<Rightarrow> None
    | f # fs \<Rightarrow> Some (f, q\<lparr>fq_frames := fs, fq_queued_bytes := fq_queued_bytes q - estimated_bytes f\<rparr>))"

definition fq_front :: "frame_queue \<Rightarrow> decoded_frame option" where
  "fq_front q = get_at (fq_frames q) 0"

definition fq_clear :: "frame_queue \<Rightarrow> frame_queue" where
  "fq_clear q = q\<lparr>fq_frames := [], fq_queued_bytes := 0\<rparr>"

section \<open>The queue of encoded samples\<close>

record sample_queue =
  sq_max_samples :: nat
  sq_max_bytes :: nat
  sq_queued_bytes :: nat
  sq_samples :: "encoded_sample list"
  sq_last_dts :: "(u32, int) btree"

definition new_sample_queue :: "nat \<Rightarrow> nat \<Rightarrow> sample_queue" where
  "new_sample_queue max_samples max_bytes =
     \<lparr>sq_max_samples = max_samples, sq_max_bytes = max_bytes, sq_queued_bytes = 0, sq_samples = [],
      sq_last_dts = []\<rparr>"

definition sq_push :: "encoded_sample \<Rightarrow> sample_queue \<Rightarrow> error + sample_queue" where
  "sq_push sample q =
     ebind (validate_sample sample) (\<lambda>u.
       if length (sq_samples q) \<ge> sq_max_samples q then Inl (Err ''Encoded sample count budget exceeded'')
       else ebind (ok_or (Err ''Encoded sample byte count overflow'')
                    (checked_add (sq_queued_bytes q) (length (es_data sample)))) (\<lambda>projected.
         if projected > sq_max_bytes q then Inl (Err ''Encoded sample byte budget exceeded'')
         else if (case bt_get (es_track_id sample) (sq_last_dts q) of
                    None \<Rightarrow> False | Some l \<Rightarrow> es_dts sample < l)
         then Inl (Err ''Non-monotonic media decode timestamp'')
         else Inr (q\<lparr>sq_last_dts := bt_insert (es_track_id sample) (es_dts sample) (sq_last_dts q),
                     sq_queued_bytes := projected, sq_samples := sq_samples q @ [sample]\<rparr>)))"

definition sq_pop :: "sample_queue \<Rightarrow> (encoded_sample \<times> sample_queue) option" where
  "sq_pop q = (case sq_samples q of
      [] \<Rightarrow> None
    | s # ss \<Rightarrow> Some (s, q\<lparr>sq_samples := ss, sq_queued_bytes := sq_queued_bytes q - length (es_data s)\<rparr>))"

definition sq_clear :: "sample_queue \<Rightarrow> sample_queue" where
  "sq_clear q = q\<lparr>sq_samples := [], sq_last_dts := [], sq_queued_bytes := 0\<rparr>"

section \<open>The WAVE demultiplexer\<close>

record wave_demuxer =
  wd_buffered :: bytes
  wd_format :: "pcm_format option"
  wd_emitted :: bool

definition new_wave_demuxer :: wave_demuxer where
  "new_wave_demuxer = \<lparr>wd_buffered = [], wd_format = None, wd_emitted = False\<rparr>"

definition read_le_u16 :: "bytes \<Rightarrow> nat \<Rightarrow> error + nat" where
  "read_le_u16 bs offset = ok_or (Err ''Truncated little-endian u16'') (le_field 2 bs offset)"

definition read_le_u32 :: "bytes \<Rightarrow> nat \<Rightarrow> error + nat" where
  "read_le_u32 bs offset = ok_or (Err ''Truncated little-endian u32'') (le_field 4 bs offset)"

text \<open>The \<^verbatim>\<open>fmt \<close> chunk.\<close>

definition parse_wave_format :: "bytes \<Rightarrow> error + pcm_format" where
  "parse_wave_format chunk =
     (if length chunk < 16 then Inl (Err ''Only uncompressed PCM WAVE is supported'')
      else ebind (read_le_u16 chunk 0) (\<lambda>encoding.
        if encoding \<noteq> 1 then Inl (Err ''Only uncompressed PCM WAVE is supported'')
        else
          ebind (read_le_u16 chunk 2) (\<lambda>channels.
          ebind (read_le_u32 chunk 4) (\<lambda>rate.
          ebind (read_le_u16 chunk 14) (\<lambda>bits.
          ebind (pcm_validate \<lparr>pf_sample_rate = rate, pf_channels = channels, pf_bits = bits\<rparr>) (\<lambda>parsed.
          ebind (read_le_u16 chunk 12) (\<lambda>declared_align.
            if declared_align \<noteq> block_align parsed then Inl (Err ''Invalid WAVE block alignment'')
            else Inr parsed)))))))"

text \<open>The chunk loop of \<^verbatim>\<open>parse_wave_pcm\<close>: the last format chunk and the last data chunk win.\<close>

function wave_chunks ::
  "bytes \<Rightarrow> nat \<Rightarrow> nat \<Rightarrow> pcm_format option \<Rightarrow> bytes option \<Rightarrow> error + pcm_format option \<times> bytes option" where
  "wave_chunks bs offset chunks format data =
     (if sat_add offset 8 \<le> length bs then
        if chunks + 1 > 1024 then Inl (Err ''WAVE chunk count budget exceeded'')
        else case read_le_u32 bs (offset + 4) of Inl e \<Rightarrow> Inl e | Inr len \<Rightarrow>
          (case checked_add offset 8 of None \<Rightarrow> Inl (Err ''WAVE chunk offset overflow'') | Some s \<Rightarrow>
          (case checked_add s len of None \<Rightarrow> Inl (Err ''WAVE chunk size overflow'') | Some e \<Rightarrow>
          (case get_range bs s e of None \<Rightarrow> Inl (Err ''Truncated WAVE chunk'') | Some chunk \<Rightarrow>
             let id = take 4 (drop offset bs); nxt = sat_add e (len mod 2) in
             if id = bstr ''fmt '' then
               (case parse_wave_format chunk of Inl er \<Rightarrow> Inl er
                | Inr parsed \<Rightarrow> wave_chunks bs nxt (chunks + 1) (Some parsed) data)
             else if id = bstr ''data'' then wave_chunks bs nxt (chunks + 1) format (Some chunk)
             else wave_chunks bs nxt (chunks + 1) format data)))
      else Inr (format, data))"
  by auto
termination
proof (relation "measure (\<lambda>(bs, offset, _). length bs - offset)", goal_cases)
  case 1
  show ?case by simp
next
  case (2 bs offset chunks format data len s e chunk id nxt parsed)
  then show ?case using sat_add_ge [of e "len mod 2"] by (auto simp: result_simps)
next
  case (3 bs offset chunks format data len s e chunk id nxt)
  then show ?case using sat_add_ge [of e "len mod 2"] by (auto simp: result_simps)
next
  case (4 bs offset chunks format data len s e chunk id nxt)
  then show ?case using sat_add_ge [of e "len mod 2"] by (auto simp: result_simps)
qed

declare wave_chunks.simps [simp del]

definition parse_wave_pcm :: "bytes \<Rightarrow> error + pcm_format \<times> bytes" where
  "parse_wave_pcm bs =
     (if length bs < 12 \<or> take 4 bs \<noteq> bstr ''RIFF'' \<or> take 4 (drop 8 bs) \<noteq> bstr ''WAVE''
      then Inl (Err ''Invalid RIFF/WAVE header'')
      else ebind (read_le_u32 bs 4) (\<lambda>declared.
        if sat_add declared 8 > length bs then Inl (Err ''Truncated RIFF/WAVE resource'')
        else ebind (wave_chunks bs 12 0 None None) (\<lambda>(format, data).
          ebind (ok_or (Err ''WAVE format chunk is missing'') format) (\<lambda>format.
          ebind (ok_or (Err ''WAVE data chunk is missing'') data) (\<lambda>data.
            if data = [] \<or> length data mod block_align format \<noteq> 0
            then Inl (Err ''WAVE data is empty or misaligned'')
            else Inr (format, data))))))"

text \<open>\<^verbatim>\<open>slice::chunks\<close> and \<^verbatim>\<open>slice::chunks_exact\<close>, for a positive size.\<close>

function chunks_of :: "nat \<Rightarrow> 'a list \<Rightarrow> 'a list list" where
  "chunks_of n [] = []"
| "chunks_of n (x # xs) =
     (if n = 0 then [x # xs] else take n (x # xs) # chunks_of n (drop n (x # xs)))"
  by pat_completeness auto
termination by (relation "measure (\<lambda>(_, xs). length xs)") auto

definition pcm_sample :: "pcm_format \<Rightarrow> nat \<Rightarrow> bytes \<Rightarrow> encoded_sample" where
  "pcm_sample format frame_offset chunk =
     (let frames = length chunk div block_align format;
          timestamp = sat_mul frame_offset 1000000 div pf_sample_rate format;
          t = (case i64_try_from (int timestamp) of None \<Rightarrow> i64_max | Some x \<Rightarrow> x)
      in \<lparr>es_track_id = 1, es_dts = t, es_pts = t,
          es_duration = max (sat_mul frames 1000000 div pf_sample_rate format) 1,
          es_keyframe = True, es_data = chunk\<rparr>)"

fun pcm_samples :: "pcm_format \<Rightarrow> nat \<Rightarrow> bytes list \<Rightarrow> encoded_sample list" where
  "pcm_samples format frame_offset [] = []"
| "pcm_samples format frame_offset (chunk # chunks) =
     pcm_sample format frame_offset chunk #
     pcm_samples format (sat_add frame_offset (length chunk div block_align format)) chunks"

definition pcm_bytes_to_samples :: "pcm_format \<Rightarrow> bytes \<Rightarrow> encoded_sample list" where
  "pcm_bytes_to_samples format data =
     (let per_frame = block_align format; per_sample = sat_mul per_frame PCM_FRAMES_PER_SAMPLE
      in pcm_samples format 0 (chunks_of (max per_sample per_frame) data))"

definition push_bytes :: "bytes \<Rightarrow> bool \<Rightarrow> wave_demuxer \<Rightarrow> (error + encoded_sample list) \<times> wave_demuxer" where
  "push_bytes bs end_of_stream d =
     (if wd_emitted d then (Inl (Err ''WAVE stream already reached end of stream''), d)
      else case checked_add (length (wd_buffered d)) (length bs) of
        None \<Rightarrow> (Inl (Err ''WAVE buffer size overflow''), d)
      | Some projected \<Rightarrow>
          if projected > MAX_WAVE_BYTES then (Inl (Err ''WAVE buffer budget exceeded''), d)
          else
            let d1 = d\<lparr>wd_buffered := wd_buffered d @ bs\<rparr> in
            if \<not> end_of_stream then (Inr [], d1)
            else case parse_wave_pcm (wd_buffered d1) of
                Inl e \<Rightarrow> (Inl e, d1)
              | Inr (format, data) \<Rightarrow>
                  (Inr (pcm_bytes_to_samples format data), d1\<lparr>wd_format := Some format, wd_emitted := True\<rparr>))"

text \<open>The PCM decoder: \<^verbatim>\<open>Pcm16Decoder::new\<close> and \<^verbatim>\<open>decode\<close>.\<close>

definition new_pcm_decoder :: "pcm_format \<Rightarrow> error + pcm_format" where
  "new_pcm_decoder format = pcm_validate format"

fun le_i16s :: "bytes \<Rightarrow> 16 word list" where
  "le_i16s (a # b # bs) = (ucast a + 256 * ucast b) # le_i16s bs"
| "le_i16s bs = []"

definition pcm_decode :: "pcm_format \<Rightarrow> encoded_sample \<Rightarrow> error + audio_frame list" where
  "pcm_decode format sample =
     ebind (validate_sample sample) (\<lambda>u.
       if length (es_data sample) mod block_align format \<noteq> 0 \<or> length (es_data sample) mod 2 \<noteq> 0
       then Inl (Err ''PCM sample is not aligned to complete frames'')
       else Inr [\<lparr>af_timestamp = es_pts sample, af_duration = es_duration sample,
                  af_sample_rate = pf_sample_rate format, af_channels = pf_channels format,
                  af_samples = le_i16s (es_data sample)\<rparr>])"

section \<open>Audio clock and video synchronisation\<close>

datatype video_sync_action = Present | Hold | DropFrame

definition video_sync_action :: "int \<Rightarrow> int \<Rightarrow> nat \<Rightarrow> video_sync_action" where
  "video_sync_action audio_position video_timestamp tolerance_us =
     (let tolerance = (case i64_try_from (int tolerance_us) of None \<Rightarrow> i64_max | Some t \<Rightarrow> t);
          delta = i64_sat_sub video_timestamp audio_position
      in if delta > tolerance then Hold else if delta < - tolerance then DropFrame else Present)"

record audio_clock =
  ac_sample_rate :: nat
  ac_anchor :: int
  ac_frames_played :: nat
  ac_running :: bool

definition new_audio_clock :: "nat \<Rightarrow> error + audio_clock" where
  "new_audio_clock rate =
     (if \<not> (8000 \<le> rate \<and> rate \<le> 384000) then Inl (Err ''Unsupported audio sample rate'')
      else Inr \<lparr>ac_sample_rate = rate, ac_anchor = 0, ac_frames_played = 0, ac_running = False\<rparr>)"

definition clock_start :: "audio_clock \<Rightarrow> audio_clock" where
  "clock_start c = c\<lparr>ac_running := True\<rparr>"

definition clock_pause :: "audio_clock \<Rightarrow> audio_clock" where
  "clock_pause c = c\<lparr>ac_running := False\<rparr>"

definition clock_seek :: "int \<Rightarrow> audio_clock \<Rightarrow> error + audio_clock" where
  "clock_seek t c =
     (if \<bar>t\<bar> > MAX_ABSOLUTE_TIMESTAMP_US then Inl (Err ''Audio clock timestamp budget exceeded'')
      else Inr (c\<lparr>ac_anchor := t, ac_frames_played := 0\<rparr>))"

definition clock_advance :: "nat \<Rightarrow> audio_clock \<Rightarrow> error + audio_clock" where
  "clock_advance frames c =
     (if ac_running c
      then ebind (ok_or (Err ''Audio clock frame counter overflow'') (checked_add (ac_frames_played c) frames))
             (\<lambda>n. Inr (c\<lparr>ac_frames_played := n\<rparr>))
      else Inr c)"

definition clock_position :: "audio_clock \<Rightarrow> int" where
  "clock_position c =
     (let elapsed = sat_mul (ac_frames_played c) 1000000 div ac_sample_rate c
      in i64_sat_add (ac_anchor c) (case i64_try_from (int elapsed) of None \<Rightarrow> i64_max | Some t \<Rightarrow> t))"

end
