(* ===== verification/Media_Laws.thy ===== *)
theory Media_Laws
  imports Media_Core
begin

text \<open>
  Laws of \<^verbatim>\<open>src/media_core.rs\<close>. The contract of a bounded queue (locale
  \<open>bounded_queue\<close>: first in first out, exact byte accounting, both budgets) is proved once and
  interpreted for the queue of decoded frames and the queue of encoded samples; the WAVE demultiplexer is
  composed with the PCM decoder behind it.
\<close>

section \<open>Bounded queues\<close>

datatype 'a queue_op = Push 'a | Pop

text \<open>A run of calls: what was accepted, what came out, and the final queue. A refused push leaves the
  queue alone, as in the code, which returns before it changes a field.\<close>

fun queue_run ::
  "('a \<Rightarrow> 'q \<Rightarrow> error + 'q) \<Rightarrow> ('q \<Rightarrow> ('a \<times> 'q) option) \<Rightarrow> 'a queue_op list \<Rightarrow> 'q \<Rightarrow> 'a list \<times> 'a list \<times> 'q" where
  "queue_run push pop [] q = ([], [], q)"
| "queue_run push pop (Push x # ops) q =
     (case push x q of
        Inl e \<Rightarrow> queue_run push pop ops q
      | Inr q1 \<Rightarrow> (case queue_run push pop ops q1 of (accepted, popped, q2) \<Rightarrow> (x # accepted, popped, q2)))"
| "queue_run push pop (Pop # ops) q =
     (case pop q of
        None \<Rightarrow> queue_run push pop ops q
      | Some (x, q1) \<Rightarrow> (case queue_run push pop ops q1 of (accepted, popped, q2) \<Rightarrow> (accepted, x # popped, q2)))"

definition queue_ok :: "('a \<Rightarrow> nat) \<Rightarrow> 'a list \<Rightarrow> nat \<Rightarrow> nat \<Rightarrow> nat \<Rightarrow> bool" where
  "queue_ok weight items queued max_items max_bytes \<longleftrightarrow>
     queued = sum_list (map weight items) \<and> length items \<le> max_items \<and> queued \<le> max_bytes"

locale bounded_queue =
  fixes items :: "'q \<Rightarrow> 'a list" and queued :: "'q \<Rightarrow> nat" and weight :: "'a \<Rightarrow> nat"
    and max_items :: "'q \<Rightarrow> nat" and max_bytes :: "'q \<Rightarrow> nat"
    and push :: "'a \<Rightarrow> 'q \<Rightarrow> error + 'q" and pop :: "'q \<Rightarrow> ('a \<times> 'q) option"
  assumes push_laws: "push x q = Inr q1 \<Longrightarrow>
      items q1 = items q @ [x] \<and> queued q1 = queued q + weight x \<and> length (items q) < max_items q \<and>
      queued q + weight x \<le> max_bytes q \<and> max_items q1 = max_items q \<and> max_bytes q1 = max_bytes q"
    and pop_empty: "items q = [] \<Longrightarrow> pop q = None"
    and pop_laws: "items q = x # xs \<Longrightarrow> \<exists>q1. pop q = Some (x, q1) \<and> items q1 = xs \<and>
      queued q1 = queued q - weight x \<and> max_items q1 = max_items q \<and> max_bytes q1 = max_bytes q"
begin

lemma push_ok:
  "push x q = Inr q1 \<Longrightarrow> queue_ok weight (items q) (queued q) (max_items q) (max_bytes q) \<Longrightarrow>
    queue_ok weight (items q1) (queued q1) (max_items q1) (max_bytes q1)"
  using push_laws [of x q q1] by (simp add: queue_ok_def)

lemma pop_cases:
  obtains "items q = []" and "pop q = None"
  | x q1 where "pop q = Some (x, q1)" and "items q = x # items q1" and "queued q1 = queued q - weight x"
      and "max_items q1 = max_items q" and "max_bytes q1 = max_bytes q"
  using pop_empty [of q] pop_laws [of q] by (cases "items q") auto

lemma pop_ok:
  assumes "pop q = Some (x, q1)" and "queue_ok weight (items q) (queued q) (max_items q) (max_bytes q)"
  shows "queue_ok weight (items q1) (queued q1) (max_items q1) (max_bytes q1)"
proof (cases q rule: pop_cases)
  case (2 y q2)
  with assms show ?thesis by (auto simp: queue_ok_def)
qed (use assms(1) in simp)

text \<open>First in first out: what was queued and what was accepted is what came out and what is queued.\<close>

lemma run_fifo:
  "queue_run push pop ops q = (accepted, popped, q1) \<Longrightarrow> items q @ accepted = popped @ items q1"
proof (induction ops arbitrary: q accepted popped)
  case (Cons op ops)
  show ?case
  proof (cases op)
    case (Push x)
    with Cons.prems Cons.IH show ?thesis
      by (fastforce simp: push_laws split: sum.splits prod.splits)
  next
    case Pop
    show ?thesis
    proof (cases q rule: pop_cases)
      case 1
      with Cons.prems Cons.IH [of q accepted popped] Pop show ?thesis by simp
    next
      case (2 x q2)
      with Cons.prems Cons.IH [of q2] Pop show ?thesis by (auto split: prod.splits)
    qed
  qed
qed simp

lemma run_ok:
  "queue_run push pop ops q = (accepted, popped, q1) \<Longrightarrow>
    queue_ok weight (items q) (queued q) (max_items q) (max_bytes q) \<Longrightarrow>
    queue_ok weight (items q1) (queued q1) (max_items q1) (max_bytes q1) \<and>
    max_items q1 = max_items q \<and> max_bytes q1 = max_bytes q"
proof (induction ops arbitrary: q accepted popped)
  case (Cons op ops)
  show ?case
  proof (cases op)
    case (Push x)
    show ?thesis
    proof (cases "push x q")
      case (Inr q2)
      with Push Cons.prems Cons.IH [of q2] push_ok [OF Inr] push_laws [OF Inr] show ?thesis
        by (auto split: prod.splits)
    next
      case (Inl e)
      with Push Cons.prems Cons.IH [of q accepted popped] show ?thesis by auto
    qed
  next
    case Pop
    show ?thesis
    proof (cases q rule: pop_cases)
      case 1
      with Cons.prems Cons.IH [of q accepted popped] Pop show ?thesis by auto
    next
      case (2 x q2)
      with Cons.prems Cons.IH [of q2] pop_ok [OF 2(1)] Pop show ?thesis by (auto split: prod.splits)
    qed
  qed
qed simp

end

interpretation frames: bounded_queue fq_frames fq_queued_bytes estimated_bytes fq_max_frames fq_max_bytes
  fq_push fq_pop
  by unfold_locales (auto simp: fq_push_def fq_pop_def result_simps)

interpretation samples: bounded_queue sq_samples sq_queued_bytes "\<lambda>s. length (es_data s)" sq_max_samples
  sq_max_bytes sq_push sq_pop
  by unfold_locales (auto simp: sq_push_def sq_pop_def result_simps split: option.splits)

text \<open>The frames of a queue never go back in time.\<close>

lemma frames_in_order:
  "queue_run fq_push fq_pop ops q = (accepted, popped, q1) \<Longrightarrow>
    sorted (map frame_timestamp (fq_frames q)) \<Longrightarrow> sorted (map frame_timestamp (fq_frames q1))"
proof (induction ops arbitrary: q accepted popped)
  case (Cons op ops)
  have push: "fq_push x q = Inr q2 \<Longrightarrow> sorted (map frame_timestamp (fq_frames q2))" for x q2
  proof -
    assume p: "fq_push x q = Inr q2"
    have "\<forall>f\<in>set (fq_frames q). frame_timestamp f \<le> frame_timestamp x"
    proof (cases "fq_frames q" rule: rev_cases)
      case (snoc fs l)
      with p have "frame_timestamp l \<le> frame_timestamp x" by (auto simp: fq_push_def result_simps)
      with snoc Cons.prems(2) show ?thesis by (auto simp: sorted_append)
    qed simp
    with p Cons.prems(2) show ?thesis by (auto simp: fq_push_def result_simps sorted_append)
  qed
  have pop: "fq_pop q = Some (x, q2) \<Longrightarrow> sorted (map frame_timestamp (fq_frames q2))" for x q2
    using Cons.prems(2) by (auto simp: fq_pop_def split: list.splits)
  show ?case using Cons.prems Cons.IH push pop
    by (cases op) (auto split: sum.splits option.splits prod.splits)
qed simp

text \<open>What the sample queue knows of its tracks bounds what it accepts.\<close>

definition track_order :: "encoded_sample list \<Rightarrow> (u32, int) btree \<Rightarrow> bool" where
  "track_order past latest \<longleftrightarrow>
     (\<forall>t. sorted (map es_dts (filter (\<lambda>s. es_track_id s = t) past)) \<and>
       (\<forall>s\<in>set past. es_track_id s = t \<longrightarrow> (\<exists>l. bt_get t latest = Some l \<and> es_dts s \<le> l)))"

lemma sq_push_order:
  assumes "sq_push s q = Inr q1" and "track_order past (sq_last_dts q)"
  shows "track_order (past @ [s]) (sq_last_dts q1) \<and> validate_sample s = Inr ()"
proof -
  from assms(1) have v: "validate_sample s = Inr ()"
    and l: "sq_last_dts q1 = bt_insert (es_track_id s) (es_dts s) (sq_last_dts q)"
    and le: "\<And>d. bt_get (es_track_id s) (sq_last_dts q) = Some d \<Longrightarrow> d \<le> es_dts s"
    by (auto simp: sq_push_def result_simps split: option.splits)
  have "\<forall>x\<in>set past. es_track_id x = es_track_id s \<longrightarrow> es_dts x \<le> es_dts s"
    using assms(2) le by (fastforce simp: track_order_def)
  with assms(2) have "track_order (past @ [s]) (sq_last_dts q1)"
    by (auto simp: track_order_def l bt_get_insert sorted_append)
  with v show ?thesis by simp
qed

lemma sq_pop_order: "sq_pop q = Some (s, q1) \<Longrightarrow> sq_last_dts q1 = sq_last_dts q"
  by (auto simp: sq_pop_def split: list.splits)

lemma sq_run_order:
  "queue_run sq_push sq_pop ops q = (accepted, popped, q1) \<Longrightarrow> track_order past (sq_last_dts q) \<Longrightarrow>
    track_order (past @ accepted) (sq_last_dts q1) \<and> (\<forall>s\<in>set accepted. validate_sample s = Inr ())"
proof (induction ops arbitrary: q accepted popped past)
  case (Cons op ops)
  show ?case
  proof (cases op)
    case (Push s)
    show ?thesis
    proof (cases "sq_push s q")
      case (Inr q2)
      with sq_push_order [OF Inr Cons.prems(2)] Cons.prems(1) Cons.IH [of q2] Push show ?thesis
        by (fastforce split: prod.splits)
    qed (use Push Cons in simp)
  next
    case Pop
    with Cons sq_pop_order show ?thesis by (fastforce split: option.splits prod.splits)
  qed
qed simp

text \<open>The queue of encoded samples, driven by any pushes and pops: samples leave in the order in which
  they were accepted and none is lost; the byte count is exactly that of the queued samples and both
  budgets hold; every accepted sample was validated, and the decode timestamps of each track never go
  back, over the whole run, also where the queue ran empty in between.\<close>

theorem sample_queue_run:
  assumes "queue_run sq_push sq_pop ops (new_sample_queue max_samples max_bytes) = (accepted, popped, q)"
  shows "accepted = popped @ sq_samples q \<and>
    sq_queued_bytes q = sum_list (map (\<lambda>s. length (es_data s)) (sq_samples q)) \<and>
    length (sq_samples q) \<le> max_samples \<and> sq_queued_bytes q \<le> max_bytes \<and>
    (\<forall>s\<in>set accepted. validate_sample s = Inr ()) \<and>
    (\<forall>t. sorted (map es_dts (filter (\<lambda>s. es_track_id s = t) accepted)))"
proof -
  let ?q = "new_sample_queue max_samples max_bytes"
  have "queue_ok (\<lambda>s. length (es_data s)) (sq_samples ?q) (sq_queued_bytes ?q) (sq_max_samples ?q) (sq_max_bytes ?q)"
    by (simp add: queue_ok_def new_sample_queue_def)
  note ok = samples.run_ok [OF assms this]
  have "track_order ([] @ accepted) (sq_last_dts q) \<and> (\<forall>s\<in>set accepted. validate_sample s = Inr ())"
    by (rule sq_run_order [OF assms]) (simp add: track_order_def)
  then show ?thesis using samples.run_fifo [OF assms] ok
    by (simp add: queue_ok_def new_sample_queue_def track_order_def)
qed


section \<open>From WAVE bytes to PCM frames\<close>

lemma pcm_validate_Inr:
  "pcm_validate f = Inr g \<longleftrightarrow> g = f \<and> 8000 \<le> pf_sample_rate f \<and> pf_sample_rate f \<le> 384000 \<and>
     1 \<le> pf_channels f \<and> pf_channels f \<le> 8 \<and> pf_bits f = 16"
  by (auto simp: pcm_validate_def)

lemma parse_wave_format_valid: "parse_wave_format chunk = Inr f \<Longrightarrow> pcm_validate f = Inr f"
  by (auto simp: parse_wave_format_def result_simps pcm_validate_Inr)

definition wave_found :: "bytes \<Rightarrow> pcm_format option \<Rightarrow> bytes option \<Rightarrow> bool" where
  "wave_found bs format data \<longleftrightarrow>
     (\<forall>f. format = Some f \<longrightarrow> pcm_validate f = Inr f) \<and> (\<forall>d. data = Some d \<longrightarrow> length d \<le> length bs)"

lemma wave_chunks_step:
  assumes "wave_chunks bs offset chunks format data = Inr r" and "wave_found bs format data"
  obtains "r = (format, data)"
  | offset1 format1 data1 where "wave_chunks bs offset1 (chunks + 1) format1 data1 = Inr r"
      and "wave_found bs format1 data1" and "length bs - offset1 < length bs - offset"
proof -
  have inside: "offset + 8 + len \<le> length bs \<Longrightarrow>
      length bs - sat_add (offset + 8 + len) (len mod 2) < length bs - offset" for len
    using sat_add_ge [of "offset + 8 + len" "len mod 2"] by linarith
  have found: "parse_wave_format c = Inr f \<Longrightarrow> wave_found bs (Some f) data"
    "wave_found bs format (Some (take n (drop k bs)))" for c f n k
    using assms(2) by (auto simp: wave_found_def parse_wave_format_valid)
  show ?thesis using assms(1)
    by (subst (asm) wave_chunks.simps)
      (auto simp: result_simps Let_def split: if_splits sum.splits option.splits
        intro: that assms(2) found inside)
qed

lemma wave_chunks_valid:
  "wave_chunks bs offset chunks format data = Inr (format1, data1) \<Longrightarrow> wave_found bs format data \<Longrightarrow>
    wave_found bs format1 data1"
proof (induction "length bs - offset" arbitrary: offset chunks format data rule: less_induct)
  case less
  from less.prems show ?case
    by (cases rule: wave_chunks_step) (use less in auto)
qed

lemma parse_wave_pcm_valid:
  assumes "parse_wave_pcm bs = Inr (format, data)"
  shows "pcm_validate format = Inr format" and "data \<noteq> []" and "length data mod block_align format = 0"
    and "length data \<le> length bs"
  using assms wave_chunks_valid [of bs 12 0 None None]
  by (auto simp: parse_wave_pcm_def wave_found_def result_simps split: prod.splits)

lemma concat_chunks_of: "concat (chunks_of n xs) = xs"
proof (induction n xs rule: chunks_of.induct)
  case (2 n x xs)
  then show ?case by (cases "n = 0") (auto simp del: drop.simps take.simps drop_Cons' take_Cons')
qed simp

lemma chunks_of_lengths:
  "0 < n \<Longrightarrow> c \<in> set (chunks_of n xs) \<Longrightarrow> c \<noteq> [] \<and> length c \<le> n \<and> length c \<le> length xs"
  by (induction n xs rule: chunks_of.induct) (force split: if_splits)+

lemma chunks_of_aligned:
  "0 < n \<Longrightarrow> n mod a = 0 \<Longrightarrow> length xs mod a = 0 \<Longrightarrow> c \<in> set (chunks_of n xs) \<Longrightarrow> length c mod (a :: nat) = 0"
proof (induction n xs rule: chunks_of.induct)
  case (2 n x xs)
  let ?l = "length (x # xs)"
  from 2(3,4) have d: "a dvd n" "a dvd ?l" by (simp_all add: mod_0_imp_dvd)
  then have "a dvd min ?l n" "a dvd ?l - n" by (simp_all add: min_def dvd_diff_nat)
  then have "length (take n (x # xs)) mod a = 0" "length (drop n (x # xs)) mod a = 0"
    by (simp_all only: length_take length_drop dvd_imp_mod_0)
  with 2 show ?case by (auto split: if_splits simp del: length_take length_drop)
qed simp

lemma chunk_sizes: "sum_list (map length (chunks_of n xs)) = length xs"
  by (metis concat_chunks_of length_concat)

text \<open>The samples of a run of chunks that all end inside the budget.\<close>

lemma pcm_sample_valid:
  assumes f: "pcm_validate f = Inr f" and c: "c \<noteq> []" "length c \<le> 1024 * block_align f"
    and t: "frames \<le> MAX_WAVE_BYTES"
  shows "validate_sample (pcm_sample f frames c) = Inr ()"
    and "es_dts (pcm_sample f frames c) = int (frames * 1000000 div pf_sample_rate f)"
proof -
  from f have r: "8000 \<le> pf_sample_rate f" by (simp add: pcm_validate_Inr)
  have div: "x div pf_sample_rate f \<le> x div 8000" for x using r by (rule div_le_mono2 [rotated]) simp
  have "frames * 1000000 \<le> u64_max" using t by (simp add: media_limits u64_max_def)
  then have m: "sat_mul frames 1000000 = frames * 1000000" by (rule sat_mul_exact)
  have "frames * 1000000 div 8000 \<le> 134217728 * 1000000 div 8000"
    using t by (intro div_le_mono mult_le_mono1) (simp add: media_limits)
  with div [of "frames * 1000000"] have ts: "frames * 1000000 div pf_sample_rate f \<le> 16777216000"
    by simp
  have "length c div block_align f \<le> 1024" using c f
    by (metis block_align_def div_le_mono mult.commute nonzero_mult_div_cancel_left
        pcm_validate_Inr less_numeral_extra(3) mult_eq_0_iff div_by_0 le0 mult_0_right)
  then have l: "length c div block_align f * 1000000 \<le> 1024000000" by simp
  then have k: "sat_mul (length c div block_align f) 1000000 = length c div block_align f * 1000000"
    by (intro sat_mul_exact) (simp add: u64_max_def)
  have "length c div block_align f * 1000000 div pf_sample_rate f \<le> 1024000000 div 8000"
    by (rule le_trans [OF div div_le_mono [OF l]])
  then have d: "length c div block_align f * 1000000 div pf_sample_rate f \<le> 128000" by simp
  show "es_dts (pcm_sample f frames c) = int (frames * 1000000 div pf_sample_rate f)"
    using ts by (simp add: pcm_sample_def Let_def m i64_try_from_def i64_bounds)
  show "validate_sample (pcm_sample f frames c) = Inr ()"
    using ts d c(1) by (simp add: validate_sample_def pcm_sample_def Let_def m k i64_try_from_def i64_bounds media_limits)
qed


lemma pcm_samples_data: "map es_data (pcm_samples f frames cs) = cs"
  by (induction cs arbitrary: frames) (simp_all add: pcm_sample_def Let_def)

lemma pcm_samples_valid:
  assumes "pcm_validate f = Inr f"
  shows "\<forall>c\<in>set cs. c \<noteq> [] \<and> length c \<le> 1024 * block_align f \<Longrightarrow>
    frames + sum_list (map length cs) \<le> MAX_WAVE_BYTES \<Longrightarrow>
    (\<forall>s\<in>set (pcm_samples f frames cs). validate_sample s = Inr () \<and>
       int (frames * 1000000 div pf_sample_rate f) \<le> es_dts s) \<and>
    sorted (map es_dts (pcm_samples f frames cs))"
proof (induction cs arbitrary: frames)
  case (Cons c cs)
  let ?n = "length c div block_align f"
  have "frames + ?n + sum_list (map length cs) \<le> frames + sum_list (map length (c # cs))"
    using div_le_dividend [of "length c" "block_align f"] by simp
  from this Cons.prems(2) have le: "frames + ?n + sum_list (map length cs) \<le> MAX_WAVE_BYTES" by (rule le_trans)
  then have e: "sat_add frames ?n = frames + ?n"
    by (intro sat_add_exact) (simp add: media_limits u64_max_def)
  have mono: "frames * 1000000 div pf_sample_rate f \<le> (frames + ?n) * 1000000 div pf_sample_rate f"
    by (intro div_le_mono) simp
  have fr: "frames \<le> MAX_WAVE_BYTES" using Cons.prems(2) by simp
  note v = pcm_sample_valid [OF assms _ _ fr, of c]
  from Cons.IH [OF _ le] Cons.prems(1) v mono show ?case by (fastforce simp: e)
qed simp

lemma le_i16s_append: "length a mod 2 = 0 \<Longrightarrow> le_i16s (a @ b) = le_i16s a @ le_i16s b"
  by (induction a rule: le_i16s.induct) auto

lemma le_i16s_concat: "\<forall>c\<in>set cs. length c mod 2 = 0 \<Longrightarrow> le_i16s (concat cs) = concat (map le_i16s cs)"
  by (induction cs) (simp_all add: le_i16s_append)

lemma aligned_even: "pcm_validate f = Inr f \<Longrightarrow> n mod block_align f = 0 \<Longrightarrow> n mod 2 = 0"
  by (simp add: pcm_validate_Inr block_align_def) (metis dvd_def dvd_trans dvd_triv_right mod_0_imp_dvd dvd_imp_mod_0)

lemma pcm_decode_all:
  assumes "pcm_validate f = Inr f"
    and "\<forall>s\<in>set ss. validate_sample s = Inr () \<and> length (es_data s) mod block_align f = 0"
  shows "\<exists>frames. emap (pcm_decode f) ss = Inr frames \<and>
    concat (map af_samples (concat frames)) = concat (map (\<lambda>s. le_i16s (es_data s)) ss)"
  using assms(2)
proof (induction ss)
  case (Cons s ss)
  then have "pcm_decode f s = Inr [\<lparr>af_timestamp = es_pts s, af_duration = es_duration s,
      af_sample_rate = pf_sample_rate f, af_channels = pf_channels f, af_samples = le_i16s (es_data s)\<rparr>]"
    by (simp add: pcm_decode_def aligned_even [OF assms(1)])
  with Cons show ?case by auto
qed simp

text \<open>C21. From a WAVE file to PCM frames: when the demultiplexer ends a stream with success, its samples
  cut the data chunk into consecutive pieces, nothing lost or reordered, with decode timestamps that never go
  back; the format it reports is one the PCM decoder accepts; that decoder accepts every one of the samples,
  and the frames it returns hold exactly the 16-bit little-endian values of the data chunk.\<close>

theorem wave_to_pcm:
  assumes "push_bytes bs True d = (Inr samples, d')"
  shows "\<exists>format data frames. parse_wave_pcm (wd_buffered d @ bs) = Inr (format, data) \<and>
    wd_format d' = Some format \<and> wd_emitted d' \<and> new_pcm_decoder format = Inr format \<and>
    concat (map es_data samples) = data \<and> sorted (map es_dts samples) \<and>
    emap (pcm_decode format) samples = Inr frames \<and>
    concat (map af_samples (concat frames)) = le_i16s data"
proof -
  from assms obtain f data where p: "parse_wave_pcm (wd_buffered d @ bs) = Inr (f, data)"
    and size: "length (wd_buffered d @ bs) \<le> MAX_WAVE_BYTES"
    and samples: "samples = pcm_bytes_to_samples f data" and d': "wd_format d' = Some f" "wd_emitted d'"
    by (auto simp: push_bytes_def result_simps Let_def split: if_splits option.splits sum.splits)
  note v = parse_wave_pcm_valid [OF p]
  have al: "0 < block_align f" "block_align f \<le> 16" using v(1) by (auto simp: pcm_validate_Inr block_align_def)
  define n where "n = 1024 * block_align f"
  have "sat_mul (block_align f) PCM_FRAMES_PER_SAMPLE = n"
    using al by (subst sat_mul_exact) (simp_all add: media_limits u64_max_def n_def)
  then have s: "samples = pcm_samples f 0 (chunks_of n data)"
    by (simp add: samples pcm_bytes_to_samples_def n_def)
  have n: "0 < n" "n mod block_align f = 0" using al by (simp_all add: n_def)
  have cs: "\<forall>c\<in>set (chunks_of n data). c \<noteq> [] \<and> length c \<le> 1024 * block_align f"
    using chunks_of_lengths [OF n(1)] unfolding n_def [symmetric] by blast
  have "0 + sum_list (map length (chunks_of n data)) \<le> MAX_WAVE_BYTES"
    using v(4) size by (simp add: chunk_sizes)
  note ok = pcm_samples_valid [OF v(1) cs this]
  have data: "map es_data samples = chunks_of n data" by (simp add: s pcm_samples_data)
  have mem: "s \<in> set samples \<Longrightarrow> es_data s \<in> set (chunks_of n data)" for s
    by (metis data in_set_conv_nth length_map nth_map nth_mem)
  have "\<forall>s\<in>set samples. validate_sample s = Inr () \<and> length (es_data s) mod block_align f = 0"
    using ok mem chunks_of_aligned [OF n v(3)] s by blast
  from pcm_decode_all [OF v(1) this] obtain frames where frames: "emap (pcm_decode f) samples = Inr frames"
    "concat (map af_samples (concat frames)) = concat (map (\<lambda>s. le_i16s (es_data s)) samples)" by blast
  have even: "\<forall>c\<in>set (chunks_of n data). length c mod 2 = 0"
    by (intro ballI aligned_even [OF v(1)] chunks_of_aligned [OF n v(3)])
  have "concat (map (\<lambda>s. le_i16s (es_data s)) samples) = concat (map le_i16s (map es_data samples))"
    by (simp add: comp_def)
  also have "\<dots> = le_i16s data" by (simp only: data le_i16s_concat [OF even, symmetric] concat_chunks_of)
  finally show ?thesis
    using p d' v(1) data ok s frames by (auto simp: concat_chunks_of new_pcm_decoder_def)
qed

section \<open>The audio clock\<close>

lemma clock_position_exact:
  assumes "ac_frames_played c * 1000000 \<le> u64_max" and "0 < ac_sample_rate c"
    and "\<bar>ac_anchor c\<bar> \<le> MAX_ABSOLUTE_TIMESTAMP_US" and "ac_frames_played c * 1000000 div ac_sample_rate c \<le> 2 ^ 62"
  shows "clock_position c = ac_anchor c + int (ac_frames_played c * 1000000 div ac_sample_rate c)"
  using assms by (simp add: clock_position_def sat_mul_exact Let_def i64_try_from_def i64_sat_add_def i64_clamp_def
      i64_bounds media_limits)

lemma clock_never_goes_back: "clock_advance n c = Inr c1 \<Longrightarrow> clock_position c \<le> clock_position c1"
proof -
  assume a: "clock_advance n c = Inr c1"
  then have "ac_anchor c1 = ac_anchor c" "ac_sample_rate c1 = ac_sample_rate c" "ac_frames_played c \<le> ac_frames_played c1"
    by (auto simp: clock_advance_def result_simps split: if_splits)
  moreover from this have "sat_mul (ac_frames_played c) 1000000 div ac_sample_rate c
      \<le> sat_mul (ac_frames_played c1) 1000000 div ac_sample_rate c1"
    by (simp add: sat_mul_def div_le_mono min_le_iff_disj)
  ultimately show ?thesis
    by (auto simp: clock_position_def Let_def i64_try_from_def i64_sat_add_def i64_bounds intro!: i64_clamp_mono)
qed

section \<open>Concrete runs\<close>

definition demo_sample :: "int \<Rightarrow> encoded_sample" where
  "demo_sample t = \<lparr>es_track_id = 1, es_dts = t, es_pts = t, es_duration = 5, es_keyframe = True, es_data = [7]\<rparr>"

theorem sample_queue_run_witness:
  "case queue_run sq_push sq_pop [Push (demo_sample 3), Pop, Push (demo_sample 2), Push (demo_sample 4)]
      (new_sample_queue 4 10) of
     (accepted, popped, q) \<Rightarrow> accepted = [demo_sample 3, demo_sample 4] \<and> accepted = popped @ sq_samples q"
proof -
  let ?q = "(new_sample_queue 4 10)\<lparr>sq_last_dts := [(1, 4)], sq_queued_bytes := 1, sq_samples := [demo_sample 4]\<rparr>"
  have r: "queue_run sq_push sq_pop [Push (demo_sample 3), Pop, Push (demo_sample 2), Push (demo_sample 4)]
      (new_sample_queue 4 10) = ([demo_sample 3, demo_sample 4], [demo_sample 3], ?q)"
    by (simp add: sq_push_def sq_pop_def new_sample_queue_def demo_sample_def validate_sample_def media_limits
        checked_add_def u64_max_def bt_get_def)
  show ?thesis unfolding r prod.case using sample_queue_run [OF r] by blast
qed

definition demo_format :: pcm_format where
  "demo_format = \<lparr>pf_sample_rate = 8000, pf_channels = 1, pf_bits = 16\<rparr>"

definition demo_wave :: bytes where
  "demo_wave = bstr ''RIFF'' @ [40, 0, 0, 0] @ bstr ''WAVEfmt '' @ [16, 0, 0, 0, 1, 0, 1, 0, 0x40, 0x1F, 0, 0,
     0x80, 0x3E, 0, 0, 2, 0, 16, 0] @ bstr ''data'' @ [4, 0, 0, 0, 1, 2, 3, 4]"

lemma demo_wave_bytes: "length demo_wave = 48" "take 4 (drop 12 demo_wave) = bstr ''fmt ''"
  "take 4 (drop 36 demo_wave) = bstr ''data''" "le_field 4 demo_wave 16 = Some 16" "le_field 4 demo_wave 40 = Some 4"
  "get_range demo_wave 44 48 = Some [1, 2, 3, 4]" "le_field 4 demo_wave 4 = Some 40"
  "get_range demo_wave 20 36 = Some [1, 0, 1, 0, 0x40, 0x1F, 0, 0, 0x80, 0x3E, 0, 0, 2, 0, 16, 0]"
  "take 4 demo_wave = bstr ''RIFF''" "take 4 (drop 8 demo_wave) = bstr ''WAVE''"
  by (simp_all add: demo_wave_def bstr_def le_field_def get_range_def sat_add_def u64_max_def)

lemma demo_wave_format: "parse_wave_format [1, 0, 1, 0, 0x40, 0x1F, 0, 0, 0x80, 0x3E, 0, 0, 2, 0, 16, 0]
    = Inr demo_format"
  by (simp add: demo_format_def parse_wave_format_def read_le_u32_def read_le_u16_def le_field_def get_range_def sat_add_def
      u64_max_def pcm_validate_def block_align_def)

lemma demo_wave_parses:
  "parse_wave_pcm demo_wave = Inr (demo_format, [1, 2, 3, 4])"
proof -
  have c3: "wave_chunks demo_wave 48 (Suc (Suc 0)) (Some demo_format) (Some [1, 2, 3, 4]) = Inr (Some demo_format, Some [1, 2, 3, 4])"
    by (subst wave_chunks.simps) (simp add: demo_wave_bytes sat_add_def u64_max_def)
  have c2: "wave_chunks demo_wave 36 (Suc 0) (Some demo_format) None = Inr (Some demo_format, Some [1, 2, 3, 4])"
    by (subst wave_chunks.simps)
      (simp add: demo_wave_bytes sat_add_def u64_max_def read_le_u32_def checked_add_def bstr_def c3)
  have c1: "wave_chunks demo_wave 12 0 None None = Inr (Some demo_format, Some [1, 2, 3, 4])"
    by (subst wave_chunks.simps)
      (simp add: demo_wave_bytes sat_add_def u64_max_def read_le_u32_def checked_add_def demo_wave_format c2)
  show ?thesis
    by (simp add: parse_wave_pcm_def demo_wave_bytes read_le_u32_def sat_add_def u64_max_def c1 block_align_def demo_format_def)
qed

theorem wave_to_pcm_witness:
  "\<exists>samples frames. fst (push_bytes demo_wave True new_wave_demuxer) = Inr samples \<and>
     emap (pcm_decode demo_format) samples = Inr frames \<and>
     concat (map af_samples (concat frames)) = [0x0201, 0x0403]"
proof -
  obtain samples d' where r: "push_bytes demo_wave True new_wave_demuxer = (Inr samples, d')"
    by (simp add: push_bytes_def new_wave_demuxer_def demo_wave_bytes checked_add_def u64_max_def media_limits demo_wave_parses)
  from wave_to_pcm [OF r] r show ?thesis
    by (auto simp: new_wave_demuxer_def demo_wave_parses)
qed

end
