(* ===== verification/Iso_Bmff.thy ===== *)
theory Iso_Bmff
  imports Media_Core "HOL-Library.Signed_Division"
begin

unbundle bit_operations_syntax

text \<open>
  \<^verbatim>\<open>src/iso_bmff.rs\<close>: the parser of fragmented MP4, from initialisation segments
  (\<^verbatim>\<open>ftyp\<close>, \<^verbatim>\<open>moov\<close>) to track descriptions and from media segments
  (\<^verbatim>\<open>moof\<close>, \<^verbatim>\<open>mdat\<close>) to encoded samples. Unsigned fields are naturals in the
  range the reader guarantees; \<^verbatim>\<open>i64\<close> and \<^verbatim>\<open>i128\<close> values are integers with their
  range checks. A track number is a \<^verbatim>\<open>u32\<close>.
\<close>

definition MAX_BOXES :: nat where "MAX_BOXES = 4096"
definition MAX_TRACKS :: nat where "MAX_TRACKS = 32"
definition MAX_SAMPLES_PER_SEGMENT :: nat where "MAX_SAMPLES_PER_SEGMENT = 100000"
definition MAX_SEGMENT_BYTES :: nat where "MAX_SEGMENT_BYTES = 64 * 1024 * 1024"

lemmas bmff_limits = MAX_BOXES_def MAX_TRACKS_def MAX_SAMPLES_PER_SEGMENT_def MAX_SEGMENT_BYTES_def

datatype track_kind = AudioTrack | VideoTrack | UnknownTrack

record track_info =
  ti_track_id :: u32
  ti_timescale :: nat
  ti_kind :: track_kind
  ti_codec :: media_codec

record mp4_box =
  mb_kind :: bytes
  mb_payload :: bytes

record fragment_defaults =
  fd_track_id :: u32
  fd_duration :: nat
  fd_size :: nat
  fd_flags :: nat

record run_sample =
  rs_duration :: nat
  rs_size :: nat
  rs_flags :: nat
  rs_composition :: int

record track_run =
  tr_track_id :: u32
  tr_base_time :: nat
  tr_samples :: "run_sample list"

section \<open>Fields\<close>

definition read_u24 :: "bytes \<Rightarrow> nat \<Rightarrow> error + nat" where
  "read_u24 bs offset = ok_or (Err ''Truncated ISO-BMFF u24'') (be_field 3 bs offset)"

definition read_be_u32 :: "bytes \<Rightarrow> nat \<Rightarrow> error + nat" where
  "read_be_u32 bs offset = ok_or (Err ''Truncated ISO-BMFF u32'') (be_field 4 bs offset)"

definition read_be_u64 :: "bytes \<Rightarrow> nat \<Rightarrow> error + nat" where
  "read_be_u64 bs offset = ok_or (Err ''Truncated ISO-BMFF u64'') (be_field 8 bs offset)"

definition validate_segment_size :: "bytes \<Rightarrow> error + unit" where
  "validate_segment_size bs =
     (if bs = [] \<or> length bs > MAX_SEGMENT_BYTES then Inl (Err ''ISO-BMFF segment size budget exceeded'') else Inr ())"

definition checked_skip :: "bytes \<Rightarrow> nat \<Rightarrow> nat \<Rightarrow> error + nat" where
  "checked_skip bs offset len =
     ebind (ok_or (Err ''ISO-BMFF field offset overflow'') (checked_add offset len)) (\<lambda>e.
       if e > length bs then Inl (Err ''Truncated ISO-BMFF optional field'') else Inr e)"

text \<open>A flag of a full box is set.\<close>

definition flag_set :: "nat \<Rightarrow> nat \<Rightarrow> bool" where
  "flag_set flags m \<longleftrightarrow> flags AND m \<noteq> 0"

text \<open>An optional field, read where its flag is set: the value or the default, and the next offset.\<close>

definition optional_field :: "bool \<Rightarrow> bytes \<Rightarrow> nat \<Rightarrow> nat \<Rightarrow> error + nat \<times> nat" where
  "optional_field present bs offset default_value =
     (if present then ebind (read_be_u32 bs offset) (\<lambda>v. Inr (v, offset + 4)) else Inr (default_value, offset))"

section \<open>Boxes\<close>

text \<open>The header of the box at an offset: its kind, header size and total size.\<close>

definition box_header :: "bytes \<Rightarrow> nat \<Rightarrow> error + bytes \<times> nat \<times> nat" where
  "box_header bs offset =
     ebind (ok_or (Err ''Truncated ISO-BMFF box header'') (get_range bs offset (sat_add offset 8))) (\<lambda>basic.
       let size32 = unat (from_be_bytes (take 4 basic)); kind = drop 4 basic in
       if size32 = 1 then ebind (read_be_u64 bs (offset + 8)) (\<lambda>size. Inr (kind, 16, size))
       else if size32 = 0 then Inr (kind, 8, length bs - offset)
       else Inr (kind, 8, size32))"

definition next_box :: "bytes \<Rightarrow> nat \<Rightarrow> error + mp4_box \<times> nat" where
  "next_box bs offset =
     ebind (box_header bs offset) (\<lambda>(kind, header, size).
       if size < header then Inl (Err ''ISO-BMFF box size is smaller than its header'')
       else ebind (ok_or (Err ''ISO-BMFF box size overflow'') (checked_add offset size)) (\<lambda>e.
         ebind (ok_or (Err ''ISO-BMFF box exceeds segment boundaries'') (get_range bs (offset + header) e)) (\<lambda>payload.
           Inr (\<lparr>mb_kind = kind, mb_payload = payload\<rparr>, e))))"

lemma next_box_moves: "next_box bs offset = Inr (b, e) \<Longrightarrow> offset + 8 \<le> e \<and> e \<le> length bs"
  by (auto simp: next_box_def box_header_def result_simps Let_def split: prod.splits if_splits)

function boxes_from :: "bytes \<Rightarrow> nat \<Rightarrow> mp4_box list \<Rightarrow> error + mp4_box list" where
  "boxes_from bs offset boxes =
     (if offset < length bs then
        if length boxes \<ge> MAX_BOXES then Inl (Err ''ISO-BMFF box count budget exceeded'')
        else (case next_box bs offset of
            Inl e \<Rightarrow> Inl e
          | Inr (b, e) \<Rightarrow> boxes_from bs e (boxes @ [b]))
      else Inr boxes)"
  by auto
termination
  by (relation "measure (\<lambda>(bs, offset, _). length bs - offset)") (auto dest!: next_box_moves)

declare boxes_from.simps [simp del]

definition parse_boxes :: "bytes \<Rightarrow> error + mp4_box list" where
  "parse_boxes bs = boxes_from bs 0 []"

text \<open>\<^verbatim>\<open>boxes.iter().find(|item| item.kind == ..)\<close>\<close>

definition find_box :: "string \<Rightarrow> mp4_box list \<Rightarrow> mp4_box option" where
  "find_box kind boxes = List.find (\<lambda>b. mb_kind b = bstr kind) boxes"

definition require_box :: "string \<Rightarrow> string \<Rightarrow> mp4_box list \<Rightarrow> error + bytes" where
  "require_box msg kind boxes = ok_or (Err msg) (map_option mb_payload (find_box kind boxes))"

section \<open>Initialisation segments\<close>

definition full_box_version :: "string \<Rightarrow> bytes \<Rightarrow> error + u8" where
  "full_box_version msg bs = ok_or (Err msg) (get_at bs 0)"

definition parse_tkhd_track_id :: "bytes \<Rightarrow> error + u32" where
  "parse_tkhd_track_id bs =
     ebind (full_box_version ''Truncated ISO-BMFF tkhd box'' bs) (\<lambda>version.
       ebind (read_be_u32 bs (if version = 1 then 20 else 12)) (\<lambda>v. Inr (of_nat v)))"

definition parse_mdhd_timescale :: "bytes \<Rightarrow> error + nat" where
  "parse_mdhd_timescale bs =
     ebind (full_box_version ''Truncated ISO-BMFF mdhd box'' bs) (\<lambda>version.
       ebind (read_be_u32 bs (if version = 1 then 20 else 12)) (\<lambda>timescale.
         if timescale = 0 \<or> timescale > 10000000 then Inl (Err ''ISO-BMFF track timescale is invalid'')
         else Inr timescale))"

definition parse_handler_kind :: "bytes \<Rightarrow> error + track_kind" where
  "parse_handler_kind bs =
     ebind (ok_or (Err ''Truncated ISO-BMFF hdlr box'') (get_range bs 8 12)) (\<lambda>handler.
       Inr (if handler = bstr ''soun'' then AudioTrack
            else if handler = bstr ''vide'' then VideoTrack else UnknownTrack))"

definition sample_entry_codec :: "bytes \<Rightarrow> media_codec" where
  "sample_entry_codec kind =
     (if kind \<in> {bstr ''avc1'', bstr ''avc3''} then Avc
      else if kind \<in> {bstr ''hvc1'', bstr ''hev1''} then Hevc
      else if kind = bstr ''vp08'' then Vp8
      else if kind = bstr ''vp09'' then Vp9
      else if kind = bstr ''av01'' then Av1
      else if kind = bstr ''mp4a'' then Aac
      else if kind = bstr ''Opus'' then Opus
      else UnknownCodec (from_utf8_lossy kind))"

definition parse_sample_entry_codec :: "bytes \<Rightarrow> error + media_codec" where
  "parse_sample_entry_codec minf =
     ebind (parse_boxes minf) (\<lambda>b1.
     ebind (require_box ''ISO-BMFF track has no stbl box'' ''stbl'' b1) (\<lambda>stbl.
     ebind (parse_boxes stbl) (\<lambda>b2.
     ebind (require_box ''ISO-BMFF track has no stsd box'' ''stsd'' b2) (\<lambda>stsd.
       if length stsd < 8 then Inl (Err ''ISO-BMFF stsd has no sample entry'')
       else ebind (read_be_u32 stsd 4) (\<lambda>entries.
         if entries = 0 then Inl (Err ''ISO-BMFF stsd has no sample entry'')
         else ebind (parse_boxes (drop 8 stsd)) (\<lambda>b3.
           (case b3 of
              [] \<Rightarrow> Inl (Err ''ISO-BMFF stsd sample entry is truncated'')
            | entry # _ \<Rightarrow> Inr (sample_entry_codec (mb_kind entry)))))))))"

definition parse_track :: "bytes \<Rightarrow> error + track_info" where
  "parse_track bs =
     ebind (parse_boxes bs) (\<lambda>boxes.
     ebind (require_box ''ISO-BMFF track has no tkhd box'' ''tkhd'' boxes) (\<lambda>tkhd.
     ebind (parse_tkhd_track_id tkhd) (\<lambda>track_id.
       if track_id = 0 then Inl (Err ''ISO-BMFF track id cannot be zero'')
       else
         ebind (require_box ''ISO-BMFF track has no mdia box'' ''mdia'' boxes) (\<lambda>mdia.
         ebind (parse_boxes mdia) (\<lambda>media.
         ebind (require_box ''ISO-BMFF track has no mdhd box'' ''mdhd'' media) (\<lambda>mdhd.
         ebind (parse_mdhd_timescale mdhd) (\<lambda>timescale.
         ebind (require_box ''ISO-BMFF track has no hdlr box'' ''hdlr'' media) (\<lambda>hdlr.
         ebind (parse_handler_kind hdlr) (\<lambda>kind.
         ebind (require_box ''ISO-BMFF track has no minf box'' ''minf'' media) (\<lambda>minf.
         ebind (parse_sample_entry_codec minf) (\<lambda>codec.
           Inr \<lparr>ti_track_id = track_id, ti_timescale = timescale, ti_kind = kind, ti_codec = codec\<rparr>)))))))))))"

fun track_loop :: "mp4_box list \<Rightarrow> track_info list \<Rightarrow> error + track_info list" where
  "track_loop [] tracks = Inr tracks"
| "track_loop (b # boxes) tracks =
     (if mb_kind b \<noteq> bstr ''trak'' then track_loop boxes tracks
      else if length tracks \<ge> MAX_TRACKS then Inl (Err ''ISO-BMFF track budget exceeded'')
      else ebind (parse_track (mb_payload b)) (\<lambda>t. track_loop boxes (tracks @ [t])))"

text \<open>Two neighbours of the sorted list with the same number.\<close>

fun adjacent_equal :: "'a list \<Rightarrow> bool" where
  "adjacent_equal (x # y # xs) \<longleftrightarrow> x = y \<or> adjacent_equal (y # xs)"
| "adjacent_equal _ \<longleftrightarrow> False"

definition parse_init_segment :: "bytes \<Rightarrow> error + track_info list" where
  "parse_init_segment bs =
     ebind (validate_segment_size bs) (\<lambda>u.
     ebind (parse_boxes bs) (\<lambda>top.
       if find_box ''ftyp'' top = None then Inl (Err ''ISO-BMFF initialization segment has no ftyp box'')
       else
         ebind (require_box ''ISO-BMFF initialization segment has no moov box'' ''moov'' top) (\<lambda>moov.
         ebind (parse_boxes moov) (\<lambda>boxes.
         ebind (track_loop boxes []) (\<lambda>tracks.
           if tracks = [] then Inl (Err ''ISO-BMFF initialization segment has no tracks'')
           else
             let sorted_tracks = sort_key ti_track_id tracks in
             if adjacent_equal (map ti_track_id sorted_tracks)
             then Inl (Err ''ISO-BMFF initialization segment has duplicate track ids'')
             else Inr sorted_tracks)))))"

section \<open>Media segments\<close>

definition parse_tfhd :: "bytes \<Rightarrow> error + fragment_defaults" where
  "parse_tfhd bs =
     (if length bs < 8 then Inl (Err ''Truncated ISO-BMFF tfhd box'')
      else
        ebind (read_u24 bs 1) (\<lambda>flags.
        ebind (read_be_u32 bs 4) (\<lambda>track_id.
        ebind (if flag_set flags 1 then checked_skip bs 8 8 else Inr 8) (\<lambda>o1.
        ebind (if flag_set flags 2 then checked_skip bs o1 4 else Inr o1) (\<lambda>o2.
        ebind (optional_field (flag_set flags 8) bs o2 0) (\<lambda>(duration, o3).
        ebind (optional_field (flag_set flags 0x10) bs o3 0) (\<lambda>(size, o4).
        ebind (if flag_set flags 0x20 then read_be_u32 bs o4 else Inr 0) (\<lambda>sample_flags.
          if track_id = 0 then Inl (Err ''ISO-BMFF tfhd track id cannot be zero'')
          else Inr \<lparr>fd_track_id = of_nat track_id, fd_duration = duration, fd_size = size,
                    fd_flags = sample_flags\<rparr>))))))))"

definition parse_tfdt :: "bytes \<Rightarrow> error + nat" where
  "parse_tfdt bs =
     ebind (full_box_version ''Truncated ISO-BMFF tfdt box'' bs) (\<lambda>version.
       if version = 1 then read_be_u64 bs 4 else read_be_u32 bs 4)"

text \<open>\<^verbatim>\<open>raw as i32\<close>.\<close>

definition u32_as_i32 :: "nat \<Rightarrow> int" where
  "u32_as_i32 raw = (if raw < 2 ^ 31 then int raw else int raw - 2 ^ 32)"

text \<open>One entry of a sample table: the sample and the next offset.\<close>

definition trun_sample ::
  "bytes \<Rightarrow> u8 \<Rightarrow> nat \<Rightarrow> nat option \<Rightarrow> fragment_defaults \<Rightarrow> bool \<Rightarrow> nat \<Rightarrow> error + run_sample \<times> nat" where
  "trun_sample bs version flags first_flags defaults first offset =
     ebind (optional_field (flag_set flags 0x100) bs offset (fd_duration defaults)) (\<lambda>(duration, o1).
     ebind (optional_field (flag_set flags 0x200) bs o1 (fd_size defaults)) (\<lambda>(size, o2).
     ebind (optional_field (flag_set flags 0x400) bs o2
        (if first then (case first_flags of None \<Rightarrow> fd_flags defaults | Some f \<Rightarrow> f) else fd_flags defaults))
      (\<lambda>(sample_flags, o3).
     ebind (optional_field (flag_set flags 0x800) bs o3 0) (\<lambda>(raw, o4).
       Inr (\<lparr>rs_duration = duration, rs_size = size, rs_flags = sample_flags,
             rs_composition = (if flag_set flags 0x800 \<and> version = 1 then u32_as_i32 raw else int raw)\<rparr>, o4)))))"

fun trun_samples ::
  "bytes \<Rightarrow> u8 \<Rightarrow> nat \<Rightarrow> nat option \<Rightarrow> fragment_defaults \<Rightarrow> nat \<Rightarrow> bool \<Rightarrow> nat \<Rightarrow> error + run_sample list \<times> nat" where
  "trun_samples bs version flags first_flags defaults 0 first offset = Inr ([], offset)"
| "trun_samples bs version flags first_flags defaults (Suc n) first offset =
     ebind (trun_sample bs version flags first_flags defaults first offset) (\<lambda>(s, o1).
     ebind (trun_samples bs version flags first_flags defaults n False o1) (\<lambda>(ss, o2). Inr (s # ss, o2)))"

definition parse_trun :: "bytes \<Rightarrow> fragment_defaults \<Rightarrow> error + run_sample list" where
  "parse_trun bs defaults =
     (if length bs < 8 then Inl (Err ''Truncated ISO-BMFF trun box'')
      else
        ebind (read_u24 bs 1) (\<lambda>flags.
        ebind (read_be_u32 bs 4) (\<lambda>count.
          if count = 0 \<or> count > MAX_SAMPLES_PER_SEGMENT
          then Inl (Err ''ISO-BMFF trun sample count budget exceeded'')
          else
            ebind (if flag_set flags 1 then checked_skip bs 8 4 else Inr 8) (\<lambda>o1.
            ebind (if flag_set flags 4 then ebind (read_be_u32 bs o1) (\<lambda>v. Inr (Some v, o1 + 4)) else Inr (None, o1))
              (\<lambda>(first_flags, o2).
            ebind (trun_samples bs (bs ! 0) flags first_flags defaults count True o2) (\<lambda>(samples, o3).
              if o3 > length bs then Inl (Err ''Truncated ISO-BMFF trun sample table'')
              else Inr samples))))))"

text \<open>The sum of the durations of a run, failing over 64 bits.\<close>

definition run_duration :: "run_sample list \<Rightarrow> nat option" where
  "run_duration samples =
     foldl (\<lambda>total s. case total of None \<Rightarrow> None | Some t \<Rightarrow> checked_add t (rs_duration s)) (Some 0) samples"

text \<open>The two loops of \<^verbatim>\<open>parse_movie_fragment\<close>; \<open>c\<close> is the number of samples declared so
  far, over all fragments.\<close>

fun trun_loop ::
  "mp4_box list \<Rightarrow> fragment_defaults \<Rightarrow> nat \<Rightarrow> nat \<Rightarrow> error + track_run list \<times> nat" where
  "trun_loop [] defaults time c = Inr ([], c)"
| "trun_loop (b # boxes) defaults time c =
     ebind (read_be_u32 (mb_payload b) 4) (\<lambda>declared.
       let c1 = sat_add c declared in
       if c1 > MAX_SAMPLES_PER_SEGMENT then Inl (Err ''ISO-BMFF sample count budget exceeded'')
       else
         ebind (parse_trun (mb_payload b) defaults) (\<lambda>samples.
         ebind (ok_or (Err ''ISO-BMFF run duration overflow'') (run_duration samples)) (\<lambda>duration.
         ebind (ok_or (Err ''ISO-BMFF run timestamp overflow'') (checked_add time duration)) (\<lambda>time1.
         ebind (trun_loop boxes defaults time1 c1) (\<lambda>(runs, c2).
           Inr (\<lparr>tr_track_id = fd_track_id defaults, tr_base_time = time, tr_samples = samples\<rparr> # runs, c2))))))"

fun traf_loop :: "mp4_box list \<Rightarrow> nat \<Rightarrow> error + track_run list" where
  "traf_loop [] c = Inr []"
| "traf_loop (b # boxes) c =
     (if mb_kind b \<noteq> bstr ''traf'' then traf_loop boxes c
      else
        ebind (parse_boxes (mb_payload b)) (\<lambda>kids.
        ebind (require_box ''ISO-BMFF traf has no tfhd box'' ''tfhd'' kids) (\<lambda>tfhd.
        ebind (parse_tfhd tfhd) (\<lambda>defaults.
        ebind (require_box ''ISO-BMFF traf has no tfdt box'' ''tfdt'' kids) (\<lambda>tfdt.
        ebind (parse_tfdt tfdt) (\<lambda>time.
        ebind (trun_loop (filter (\<lambda>k. mb_kind k = bstr ''trun'') kids) defaults time c) (\<lambda>(runs, c1).
        ebind (traf_loop boxes c1) (\<lambda>more. Inr (runs @ more)))))))))"

definition parse_movie_fragment :: "bytes \<Rightarrow> error + track_run list" where
  "parse_movie_fragment bs = ebind (parse_boxes bs) (\<lambda>boxes. traf_loop boxes 0)"

text \<open>Times in microseconds. Rust's division truncates; the scale is not zero where these are called.\<close>

definition scale_time :: "int \<Rightarrow> nat \<Rightarrow> error + int" where
  "scale_time value timescale =
     ebind (ok_or (Err ''ISO-BMFF timestamp scale overflow'') (i128_checked (value * 1000000))) (\<lambda>scaled.
       ok_or (Err ''ISO-BMFF timestamp exceeds supported range'') (i64_try_from (scaled sdiv int timescale)))"

definition scale_duration :: "nat \<Rightarrow> nat \<Rightarrow> error + nat" where
  "scale_duration value timescale =
     ebind (ok_or (Err ''ISO-BMFF duration scale overflow'') (checked_mul value 1000000)) (\<lambda>product.
       let scaled = product div timescale in
       if scaled = 0 then Inl (Err ''ISO-BMFF sample duration rounds to zero'') else Inr scaled)"

text \<open>The state of the sample loop: the offset in \<^verbatim>\<open>mdat\<close> and the decode time of the run.\<close>

definition emit_sample :: "bytes \<Rightarrow> track_info \<Rightarrow> u32 \<Rightarrow> nat \<Rightarrow> nat \<Rightarrow> run_sample \<Rightarrow> error + encoded_sample \<times> nat \<times> nat" where
  "emit_sample mdat track track_id offset time s =
     (if rs_duration s = 0 \<or> rs_size s = 0 then Inl (Err ''ISO-BMFF sample has no duration or payload'')
      else
        ebind (ok_or (Err ''ISO-BMFF sample payload offset overflow'') (checked_add offset (rs_size s))) (\<lambda>e.
        ebind (ok_or (Err ''ISO-BMFF sample exceeds the mdat payload'') (get_range mdat offset e)) (\<lambda>data.
        ebind (scale_time (int time) (ti_timescale track)) (\<lambda>dts.
        ebind (ok_or (Err ''ISO-BMFF composition timestamp overflow'') (i128_checked (int time + rs_composition s)))
          (\<lambda>presentation.
        ebind (scale_time presentation (ti_timescale track)) (\<lambda>pts.
        ebind (scale_duration (rs_duration s) (ti_timescale track)) (\<lambda>duration.
        ebind (ok_or (Err ''ISO-BMFF decode timestamp overflow'') (checked_add time (rs_duration s))) (\<lambda>time1.
          Inr (\<lparr>es_track_id = track_id, es_dts = dts, es_pts = pts, es_duration = duration,
                es_keyframe = (rs_flags s AND 0x10000 = 0), es_data = data\<rparr>, e, time1)))))))))"

fun emit_samples ::
  "bytes \<Rightarrow> track_info \<Rightarrow> u32 \<Rightarrow> nat \<Rightarrow> nat \<Rightarrow> run_sample list \<Rightarrow> error + encoded_sample list \<times> nat" where
  "emit_samples mdat track track_id offset time [] = Inr ([], offset)"
| "emit_samples mdat track track_id offset time (s # ss) =
     ebind (emit_sample mdat track track_id offset time s) (\<lambda>(out, o1, t1).
     ebind (emit_samples mdat track track_id o1 t1 ss) (\<lambda>(outs, o2). Inr (out # outs, o2)))"

fun emit_runs :: "bytes \<Rightarrow> track_info list \<Rightarrow> nat \<Rightarrow> track_run list \<Rightarrow> error + encoded_sample list \<times> nat" where
  "emit_runs mdat tracks offset [] = Inr ([], offset)"
| "emit_runs mdat tracks offset (run # runs) =
     ebind (ok_or (Err ''ISO-BMFF media segment references an unknown track'')
        (List.find (\<lambda>t. ti_track_id t = tr_track_id run) tracks)) (\<lambda>track.
     ebind (emit_samples mdat track (tr_track_id run) offset (tr_base_time run) (tr_samples run)) (\<lambda>(out, o1).
     ebind (emit_runs mdat tracks o1 runs) (\<lambda>(outs, o2). Inr (out @ outs, o2))))"

definition parse_media_segment :: "bytes \<Rightarrow> track_info list \<Rightarrow> error + encoded_sample list" where
  "parse_media_segment bs tracks =
     ebind (validate_segment_size bs) (\<lambda>u.
       if tracks = [] \<or> length tracks > MAX_TRACKS
       then Inl (Err ''ISO-BMFF media segment has no valid track configuration'')
       else
         ebind (parse_boxes bs) (\<lambda>top.
         ebind (require_box ''ISO-BMFF media segment has no moof box'' ''moof'' top) (\<lambda>moof.
         ebind (require_box ''ISO-BMFF media segment has no mdat box'' ''mdat'' top) (\<lambda>mdat.
           if list_ex (\<lambda>t. ti_timescale t = 0) tracks
           then Inl (Err ''ISO-BMFF track timescale must be non-zero'')
           else
             ebind (parse_movie_fragment moof) (\<lambda>runs.
               let sample_count = sum_list (map (\<lambda>r. length (tr_samples r)) runs) in
               if sample_count = 0 \<or> sample_count > MAX_SAMPLES_PER_SEGMENT
               then Inl (Err ''ISO-BMFF sample count budget exceeded'')
               else
                 ebind (emit_runs mdat tracks 0 runs) (\<lambda>(out, offset).
                   if offset \<noteq> length mdat
                   then Inl (Err ''ISO-BMFF mdat contains unreferenced payload bytes'')
                   else Inr out))))))"

end
