(* ===== verification/Iso_Bmff_Laws.thy ===== *)
theory Iso_Bmff_Laws
  imports Iso_Bmff
begin

text \<open>
  Laws of \<^verbatim>\<open>src/iso_bmff.rs\<close>: a written list of boxes parses back, the tracks of an
  initialisation segment are a usable configuration, and the samples of a media segment cut its
  \<^verbatim>\<open>mdat\<close> payload into consecutive pieces.
\<close>

section \<open>Boxes\<close>

definition be32 :: "nat \<Rightarrow> bytes" where
  "be32 n = rev (to_le_bytes 4 (of_nat n))"

definition box_bytes :: "mp4_box \<Rightarrow> bytes" where
  "box_bytes b = be32 (length (mb_payload b) + 8) @ mb_kind b @ mb_payload b"

definition box_writable :: "mp4_box \<Rightarrow> bool" where
  "box_writable b \<longleftrightarrow> length (mb_kind b) = 4 \<and> length (mb_payload b) + 8 < 2 ^ 32"

lemma length_be32 [simp]: "length (be32 n) = 4"
  by (simp add: be32_def)

lemma from_be32: "n < 2 ^ 32 \<Longrightarrow> unat (from_be_bytes (be32 n)) = n"
  by (simp add: from_be_bytes_def be32_def from_to_le_bytes unsigned_take_bit_eq take_bit_nat_eq_self
      unsigned_of_nat)

lemma length_box_bytes: "box_writable b \<Longrightarrow> length (box_bytes b) = length (mb_payload b) + 8"
  by (simp add: box_bytes_def box_writable_def)

lemma next_box_at:
  assumes b: "box_writable b" and l: "length (pre @ box_bytes b @ rest) \<le> u64_max"
  shows "next_box (pre @ box_bytes b @ rest) (length pre) = Inr (b, length pre + length (box_bytes b))"
proof -
  let ?n = "length (mb_payload b) + 8"
  let ?bs = "pre @ box_bytes b @ rest"
  have k: "length (mb_kind b) = 4" and n: "?n < 2 ^ 32" using b by (simp_all add: box_writable_def)
  have sat: "sat_add (length pre) 8 = length pre + 8"
    using l by (intro sat_add_exact) (simp add: length_box_bytes [OF b])
  have basic: "get_range ?bs (length pre) (length pre + 8) = Some (be32 ?n @ mb_kind b)"
    by (simp add: get_range_def length_box_bytes [OF b]) (simp add: box_bytes_def k)
  have "box_header ?bs (length pre) = Inr (mb_kind b, 8, ?n)"
    unfolding box_header_def sat basic using from_be32 [OF n] by (simp add: k)
  moreover have "get_range ?bs (length pre + 8) (length pre + ?n) = Some (mb_payload b)"
    by (simp add: get_range_def length_box_bytes [OF b]) (simp add: box_bytes_def k)
  moreover have "checked_add (length pre) ?n = Some (length pre + ?n)"
    using l by (simp add: checked_add_def length_box_bytes [OF b])
  ultimately show ?thesis by (simp add: next_box_def length_box_bytes [OF b])
qed

lemma boxes_from_written:
  "\<forall>b\<in>set bs. box_writable b \<Longrightarrow> length (pre @ concat (map box_bytes bs)) \<le> u64_max \<Longrightarrow>
    length acc + length bs \<le> MAX_BOXES \<Longrightarrow>
    boxes_from (pre @ concat (map box_bytes bs)) (length pre) acc = Inr (acc @ bs)"
proof (induction bs arbitrary: pre acc)
  case Nil
  show ?case by (subst boxes_from.simps) simp
next
  case (Cons b bs)
  have nb: "next_box (pre @ concat (map box_bytes (b # bs))) (length pre) = Inr (b, length (pre @ box_bytes b))"
    using next_box_at [of b pre "concat (map box_bytes bs)"] Cons.prems by simp
  have "0 < length (box_bytes b)" using Cons.prems(1) by (simp add: length_box_bytes)
  moreover have "boxes_from ((pre @ box_bytes b) @ concat (map box_bytes bs)) (length (pre @ box_bytes b)) (acc @ [b])
      = Inr ((acc @ [b]) @ bs)"
    by (rule Cons.IH) (use Cons.prems in simp_all)
  ultimately show ?case using Cons.prems(3) nb
    by (subst boxes_from.simps) simp
qed

text \<open>Boxes round trip: the bytes of at most 4096 boxes, each with a four-byte kind and a size that
  fits its 32-bit header, written one after the other, parse to exactly those boxes, in order.\<close>

theorem parse_boxes_written:
  assumes "\<forall>b\<in>set boxes. box_writable b" and "length boxes \<le> MAX_BOXES"
    and "length (concat (map box_bytes boxes)) \<le> u64_max"
  shows "parse_boxes (concat (map box_bytes boxes)) = Inr boxes"
  using boxes_from_written [of boxes "[]" "[]"] assms by (simp add: parse_boxes_def)

section \<open>Track configurations\<close>

definition track_ok :: "track_info \<Rightarrow> bool" where
  "track_ok t \<longleftrightarrow> ti_track_id t \<noteq> 0 \<and> 0 < ti_timescale t \<and> ti_timescale t \<le> 10000000"

lemma parse_track_ok: "parse_track bs = Inr t \<Longrightarrow> track_ok t"
  by (auto simp: parse_track_def parse_mdhd_timescale_def track_ok_def result_simps)

lemma track_loop_ok:
  "track_loop boxes tracks = Inr ts \<Longrightarrow> \<forall>t\<in>set tracks. track_ok t \<Longrightarrow> length tracks \<le> MAX_TRACKS \<Longrightarrow>
    (\<forall>t\<in>set ts. track_ok t) \<and> length ts \<le> MAX_TRACKS"
proof (induction boxes arbitrary: tracks)
  case (Cons b boxes)
  show ?case
  proof (cases "mb_kind b = bstr ''trak''")
    case True
    with Cons.prems(1) obtain t where t: "parse_track (mb_payload b) = Inr t" and l: "length tracks < MAX_TRACKS"
      and r: "track_loop boxes (tracks @ [t]) = Inr ts"
      by (auto simp: result_simps)
    show ?thesis by (rule Cons.IH [OF r]) (use Cons.prems(2) parse_track_ok [OF t] l in auto)
  next
    case False
    with Cons.prems(1) have "track_loop boxes tracks = Inr ts" by simp
    from Cons.IH [OF this Cons.prems(2,3)] show ?thesis .
  qed
qed simp

lemma adjacent_equal_sorted: "sorted xs \<Longrightarrow> adjacent_equal xs \<longleftrightarrow> \<not> distinct xs"
  by (induction xs rule: adjacent_equal.induct) (auto simp: order.antisym)

definition configuration_ok :: "track_info list \<Rightarrow> bool" where
  "configuration_ok tracks \<longleftrightarrow> tracks \<noteq> [] \<and> length tracks \<le> MAX_TRACKS \<and> (\<forall>t\<in>set tracks. track_ok t) \<and>
     sorted (map ti_track_id tracks) \<and> distinct (map ti_track_id tracks)"

lemma parse_init_segment_rule:
  assumes "parse_init_segment bs = Inr tracks"
  shows "configuration_ok tracks"
proof -
  from assms obtain boxes ts where ts: "track_loop boxes [] = Inr ts" "ts \<noteq> []"
    and tracks: "tracks = sort_key ti_track_id ts" and adj: "\<not> adjacent_equal (map ti_track_id (sort_key ti_track_id ts))"
    by (auto simp: parse_init_segment_def result_simps Let_def split: if_splits)
  have "(\<forall>t\<in>set ts. track_ok t) \<and> length ts \<le> MAX_TRACKS"
    by (rule track_loop_ok [OF ts(1)]) simp_all
  moreover have "sorted (map ti_track_id tracks)" by (simp add: tracks)
  moreover from this adj have "distinct (map ti_track_id tracks)"
    by (simp add: adjacent_equal_sorted tracks)
  moreover have "set tracks = set ts" "length tracks = length ts" by (simp_all add: tracks)
  ultimately show ?thesis using ts(2) by (auto simp: configuration_ok_def)
qed

text \<open>C22. What an initialisation segment yields is a usable track configuration: one to 32 tracks, in
  increasing order of their distinct, non-zero numbers, each with a timescale between 1 and ten million.\<close>

theorem parse_init_segment_ok:
  assumes "parse_init_segment bs = Inr tracks"
  shows "configuration_ok tracks"
  by (rule parse_init_segment_rule [OF assms])

section \<open>Media segments\<close>

definition sample_ok :: "track_info list \<Rightarrow> encoded_sample \<Rightarrow> bool" where
  "sample_ok tracks s \<longleftrightarrow> es_data s \<noteq> [] \<and> 0 < es_duration s \<and> in_i64 (es_dts s) \<and> in_i64 (es_pts s) \<and>
     es_track_id s \<in> ti_track_id ` set tracks"

lemma emit_sample_ok:
  assumes "emit_sample mdat track tid offset time s = Inr (out, o1, t1)"
  shows "offset < o1 \<and> o1 \<le> length mdat \<and> es_data out = take (o1 - offset) (drop offset mdat) \<and>
    0 < es_duration out \<and> in_i64 (es_dts out) \<and> in_i64 (es_pts out) \<and> es_track_id out = tid"
  using assms by (auto simp: emit_sample_def scale_time_def scale_duration_def result_simps Let_def)

lemma take_drop_join:
  assumes "a \<le> b" "b \<le> c"
  shows "take (b - a) (drop a xs) @ take (c - b) (drop b xs) = take (c - a) (drop a xs)"
proof -
  have "drop b xs = drop (b - a) (drop a xs)" using assms by simp
  then have "take (b - a) (drop a xs) @ take (c - b) (drop b xs) = take ((b - a) + (c - b)) (drop a xs)"
    by (simp only: take_add)
  then show ?thesis using assms by simp
qed

lemma emit_samples_ok:
  "emit_samples mdat track tid offset time ss = Inr (outs, o1) \<Longrightarrow> tid \<in> ti_track_id ` set tracks \<Longrightarrow>
    offset \<le> length mdat \<Longrightarrow>
    offset \<le> o1 \<and> o1 \<le> length mdat \<and> concat (map es_data outs) = take (o1 - offset) (drop offset mdat) \<and>
    length outs = length ss \<and> (\<forall>s\<in>set outs. sample_ok tracks s)"
proof (induction ss arbitrary: offset time outs)
  case (Cons s ss)
  then obtain out o2 t2 outs2 where e: "emit_sample mdat track tid offset time s = Inr (out, o2, t2)"
    and r: "emit_samples mdat track tid o2 t2 ss = Inr (outs2, o1)" and outs: "outs = out # outs2"
    by (auto simp: result_simps split: prod.splits)
  note ok = emit_sample_ok [OF e]
  from Cons.IH [OF r Cons.prems(2)] ok show ?case
    by (auto simp: outs take_drop_join sample_ok_def Cons.prems(2))
qed simp

lemma emit_runs_ok:
  "emit_runs mdat tracks offset runs = Inr (outs, o1) \<Longrightarrow> offset \<le> length mdat \<Longrightarrow>
    offset \<le> o1 \<and> o1 \<le> length mdat \<and> concat (map es_data outs) = take (o1 - offset) (drop offset mdat) \<and>
    length outs = sum_list (map (\<lambda>r. length (tr_samples r)) runs) \<and> (\<forall>s\<in>set outs. sample_ok tracks s)"
proof (induction runs arbitrary: offset outs)
  case (Cons run runs)
  then obtain track out o2 outs2 where f: "List.find (\<lambda>t. ti_track_id t = tr_track_id run) tracks = Some track"
    and e: "emit_samples mdat track (tr_track_id run) offset (tr_base_time run) (tr_samples run) = Inr (out, o2)"
    and r: "emit_runs mdat tracks o2 runs = Inr (outs2, o1)" and outs: "outs = out @ outs2"
    by (auto simp: result_simps split: prod.splits)
  have "tr_track_id run \<in> ti_track_id ` set tracks" using f by (metis (mono_tags, lifting) find_Some_iff image_eqI nth_mem)
  note ok = emit_samples_ok [OF e this Cons.prems(2)]
  from Cons.IH [OF r] ok show ?case by (auto simp: outs take_drop_join)
qed simp

definition sample_total :: "track_run list \<Rightarrow> nat" where
  "sample_total runs = sum_list (map (\<lambda>r. length (tr_samples r)) runs)"

lemma media_segment_partition:
  assumes "parse_media_segment bs tracks = Inr out"
  shows "\<exists>top mdat. parse_boxes bs = Inr top \<and> find_box ''mdat'' top = Some mdat \<and>
    concat (map es_data out) = mb_payload mdat \<and> 1 \<le> length out \<and> length out \<le> MAX_SAMPLES_PER_SEGMENT \<and>
    (\<forall>s\<in>set out. sample_ok tracks s)"
proof -
  from assms obtain top mdat runs where top: "parse_boxes bs = Inr top" and m: "find_box ''mdat'' top = Some mdat"
    and e: "emit_runs (mb_payload mdat) tracks 0 runs = Inr (out, length (mb_payload mdat))"
    and n: "sample_total runs \<noteq> 0" "sample_total runs \<le> MAX_SAMPLES_PER_SEGMENT"
    unfolding parse_media_segment_def require_box_def sample_total_def [symmetric]
    by (auto simp: result_simps Let_def split: if_splits prod.splits)
  have "length out = sample_total runs" and "concat (map es_data out) = mb_payload mdat"
    and "\<forall>s\<in>set out. sample_ok tracks s"
    using emit_runs_ok [OF e] by (simp_all add: sample_total_def)
  with n have "concat (map es_data out) = mb_payload mdat \<and> 1 \<le> length out \<and>
      length out \<le> MAX_SAMPLES_PER_SEGMENT \<and> (\<forall>s\<in>set out. sample_ok tracks s)" by simp
  with top m show ?thesis by blast
qed


lemma media_samples_ok: "parse_media_segment bs tracks = Inr out \<Longrightarrow> \<forall>s\<in>set out. sample_ok tracks s"
  using media_segment_partition by blast

text \<open>C19. The samples of a media segment are its payload: when the parser accepts a segment, the data of
  its samples, one after the other, is exactly the payload of the first \<^verbatim>\<open>mdat\<close> box, so no
  byte is lost, shared or read outside it; there are between one and 100,000 samples, none is empty or
  without duration, each belongs to a configured track, and its timestamps fit 64 bits.\<close>

theorem parse_media_segment_partition:
  assumes "parse_media_segment bs tracks = Inr out"
  shows "\<exists>top mdat. parse_boxes bs = Inr top \<and> find_box ''mdat'' top = Some mdat \<and>
    concat (map es_data out) = mb_payload mdat \<and> 1 \<le> length out \<and> length out \<le> MAX_SAMPLES_PER_SEGMENT \<and>
    (\<forall>s\<in>set out. sample_ok tracks s)"
  by (rule media_segment_partition [OF assms])

end
