(* ===== verification/Media_Source.thy ===== *)
theory Media_Source
  imports Iso_Bmff_Laws "HOL-Library.Product_Lexorder"
begin

text \<open>
  \<^verbatim>\<open>src/mse.rs\<close>: source buffers with their coded samples, byte accounting and events, and the
  media source that owns them; and the decoder capabilities with the registry of audited fallbacks of
  \<^verbatim>\<open>src/media_backend.rs\<close>, on which the choice of a buffer's type rests. The Windows decoder
  itself is not modelled.
\<close>

section \<open>Decoder capabilities\<close>

datatype decoder_provider = BrowserPcm | WindowsMediaFoundation | AuditedFallbackProvider

record codec_capability =
  cc_codec :: media_codec
  cc_available :: bool
  cc_provider :: decoder_provider

record decoder_capabilities =
  dc_codecs :: "codec_capability list"
  dc_probe_error :: "ustr option"

definition supports :: "media_codec \<Rightarrow> decoder_capabilities \<Rightarrow> bool" where
  "supports codec caps \<longleftrightarrow> list_ex (\<lambda>e. cc_available e \<and> cc_codec e = codec) (dc_codecs caps)"

definition provider_of :: "media_codec \<Rightarrow> decoder_capabilities \<Rightarrow> decoder_provider option" where
  "provider_of codec caps =
     map_option cc_provider (List.find (\<lambda>e. cc_available e \<and> cc_codec e = codec) (dc_codecs caps))"

definition pcm_backend_capabilities :: decoder_capabilities where
  "pcm_backend_capabilities =
     \<lparr>dc_codecs = [\<lparr>cc_codec = Pcm, cc_available = True, cc_provider = BrowserPcm\<rparr>], dc_probe_error = None\<rparr>"

definition MAX_FALLBACKS :: nat where "MAX_FALLBACKS = 32"

record audited_fallback =
  fb_name :: ustr
  fb_version :: ustr
  fb_license :: ustr
  fb_codecs :: "media_codec list"
  fb_approved :: bool

type_synonym fallback_registry = "audited_fallback list"

definition same_fallback :: "ustr \<Rightarrow> ustr \<Rightarrow> audited_fallback \<Rightarrow> bool" where
  "same_fallback name version e \<longleftrightarrow> fb_name e = name \<and> fb_version e = version"

definition register_fallback :: "audited_fallback \<Rightarrow> fallback_registry \<Rightarrow> error + fallback_registry" where
  "register_fallback f entries =
     (if length entries \<ge> MAX_FALLBACKS then Inl (Err ''Codec fallback registry budget exceeded'')
      else if trim (fb_name f) = [] \<or> trim (fb_version f) = [] \<or> trim (fb_license f) = [] \<or> fb_codecs f = []
      then Inl (Err ''Codec fallback provenance is incomplete'')
      else if list_ex (same_fallback (fb_name f) (fb_version f)) entries
      then Inl (Err ''Codec fallback is already registered'')
      else Inr (entries @ [f]))"

fun approve_first :: "ustr \<Rightarrow> ustr \<Rightarrow> fallback_registry \<Rightarrow> fallback_registry option" where
  "approve_first name version [] = None"
| "approve_first name version (e # es) =
     (if same_fallback name version e then Some (e\<lparr>fb_approved := True\<rparr> # es)
      else map_option ((#) e) (approve_first name version es))"

definition approve_fallback :: "ustr \<Rightarrow> ustr \<Rightarrow> fallback_registry \<Rightarrow> error + fallback_registry" where
  "approve_fallback name version entries =
     ok_or (Err ''Codec fallback is not registered'') (approve_first name version entries)"

definition fallback_capabilities :: "fallback_registry \<Rightarrow> decoder_capabilities" where
  "fallback_capabilities entries =
     \<lparr>dc_codecs = map (\<lambda>c. \<lparr>cc_codec = c, cc_available = True, cc_provider = AuditedFallbackProvider\<rparr>)
        (concat (map fb_codecs (filter fb_approved entries))),
      dc_probe_error = None\<rparr>"

definition is_type_supported :: "media_type \<Rightarrow> decoder_capabilities \<Rightarrow> bool" where
  "is_type_supported t caps \<longleftrightarrow>
     mt_container t = IsoBmff \<and> mt_codecs t \<noteq> [] \<and> list_all (\<lambda>c. supports c caps) (mt_codecs t)"

section \<open>Time ranges\<close>

definition MAX_SOURCE_BUFFERS :: nat where "MAX_SOURCE_BUFFERS = 8"
definition MAX_SAMPLES_PER_BUFFER :: nat where "MAX_SAMPLES_PER_BUFFER = 100000"
definition MAX_BYTES_PER_BUFFER :: nat where "MAX_BYTES_PER_BUFFER = 128 * 1024 * 1024"
definition MAX_TOTAL_MEDIA_BYTES :: nat where "MAX_TOTAL_MEDIA_BYTES = 256 * 1024 * 1024"
definition MAX_MEDIA_TIME_US :: int where "MAX_MEDIA_TIME_US = 24 * 60 * 60 * 1000000"
definition RANGE_GAP_TOLERANCE_US :: int where "RANGE_GAP_TOLERANCE_US = 50000"

lemmas mse_limits = MAX_SOURCE_BUFFERS_def MAX_SAMPLES_PER_BUFFER_def MAX_BYTES_PER_BUFFER_def
  MAX_TOTAL_MEDIA_BYTES_def MAX_MEDIA_TIME_US_def RANGE_GAP_TOLERANCE_US_def

datatype ready_state = Closed | Opened | Ended

datatype media_source_event = SourceOpen | SourceEnded | SourceClose | UpdateStart | Update | UpdateEnd | Abort

record time_range =
  tr_start :: int
  tr_end :: int

definition new_time_range :: "int \<Rightarrow> int \<Rightarrow> error + time_range" where
  "new_time_range s e =
     (if s < 0 \<or> e \<le> s \<or> e > MAX_MEDIA_TIME_US then Inl (Err ''Invalid media time range'')
      else Inr \<lparr>tr_start = s, tr_end = e\<rparr>)"

definition range_contains :: "time_range \<Rightarrow> int \<Rightarrow> bool" where
  "range_contains r t \<longleftrightarrow> t \<ge> tr_start r \<and> t < tr_end r"

text \<open>The merging loop of \<^verbatim>\<open>buffered\<close> and \<^verbatim>\<open>buffered_ranges\<close>: a range joins the
  last one when it starts within the tolerance of its end.\<close>

fun merge_ranges :: "int \<Rightarrow> time_range list \<Rightarrow> time_range list \<Rightarrow> time_range list" where
  "merge_ranges gap merged [] = merged"
| "merge_ranges gap merged (r # rs) =
     (if merged \<noteq> [] \<and> tr_start r \<le> i64_sat_add (tr_end (last merged)) gap
      then merge_ranges gap (butlast merged @ [(last merged)\<lparr>tr_end := max (tr_end (last merged)) (tr_end r)\<rparr>]) rs
      else merge_ranges gap (merged @ [r]) rs)"

section \<open>Source buffers\<close>

record append_report =
  ar_initialization :: bool
  ar_appended :: nat
  ar_dropped :: nat
  ar_evicted :: nat
  ar_buffered :: "time_range list"

definition empty_report :: append_report where
  "empty_report = \<lparr>ar_initialization = False, ar_appended = 0, ar_dropped = 0, ar_evicted = 0, ar_buffered = []\<rparr>"

record source_buffer =
  sb_id :: u32
  sb_media_type :: media_type
  sb_tracks :: "track_info list"
  sb_samples :: "encoded_sample list"
  sb_queued_bytes :: nat
  sb_updating :: bool
  sb_offset :: int
  sb_window :: time_range
  sb_events :: "media_source_event list"

definition new_source_buffer :: "u32 \<Rightarrow> media_type \<Rightarrow> source_buffer" where
  "new_source_buffer bid t =
     \<lparr>sb_id = bid, sb_media_type = t, sb_tracks = [], sb_samples = [], sb_queued_bytes = 0, sb_updating = False,
      sb_offset = 0, sb_window = \<lparr>tr_start = 0, tr_end = MAX_MEDIA_TIME_US\<rparr>, sb_events = []\<rparr>"

definition set_timestamp_offset :: "int \<Rightarrow> source_buffer \<Rightarrow> error + source_buffer" where
  "set_timestamp_offset offset b =
     (if sb_updating b \<or> \<bar>offset\<bar> > MAX_MEDIA_TIME_US then Inl (Err ''Invalid SourceBuffer timestamp offset'')
      else Inr (b\<lparr>sb_offset := offset\<rparr>))"

definition set_append_window :: "time_range \<Rightarrow> source_buffer \<Rightarrow> error + source_buffer" where
  "set_append_window r b =
     (if sb_updating b then Inl (Err ''Cannot change append window while updating'')
      else Inr (b\<lparr>sb_window := r\<rparr>))"

definition sample_range :: "encoded_sample \<Rightarrow> time_range option" where
  "sample_range s =
     (case i64_try_from (int (es_duration s)) of None \<Rightarrow> None | Some d \<Rightarrow>
     (case i64_checked_add (es_pts s) d of None \<Rightarrow> None | Some e \<Rightarrow>
     (case new_time_range (max (es_pts s) 0) e of Inl _ \<Rightarrow> None | Inr r \<Rightarrow> Some r)))"

definition sb_buffered :: "source_buffer \<Rightarrow> time_range list" where
  "sb_buffered b =
     merge_ranges RANGE_GAP_TOLERANCE_US [] (sort_key tr_start (List.map_filter sample_range (sb_samples b)))"

text \<open>The end of an existing sample, as the eviction tests compute it.\<close>

definition existing_end :: "encoded_sample \<Rightarrow> int" where
  "existing_end s = i64_sat_add (es_pts s) (u64_as_i64 (es_duration s))"

definition data_bytes :: "encoded_sample list \<Rightarrow> nat" where
  "data_bytes ss = sum_list (map (\<lambda>s. length (es_data s)) ss)"

text \<open>An existing sample survives the arrival of \<open>s\<close>, which ends at \<open>e\<close>.\<close>

definition keeps_existing :: "encoded_sample \<Rightarrow> int \<Rightarrow> encoded_sample \<Rightarrow> bool" where
  "keeps_existing s e existing \<longleftrightarrow>
     es_track_id existing \<noteq> es_track_id s \<or> existing_end existing \<le> es_pts s \<or> es_pts existing \<ge> e"

text \<open>\<^verbatim>\<open>saturating_sub\<close> is the subtraction of naturals.\<close>

definition insert_sample :: "encoded_sample \<Rightarrow> int \<Rightarrow> append_report \<Rightarrow> source_buffer \<Rightarrow> append_report \<times> source_buffer" where
  "insert_sample s e report b =
     (let kept = filter (keeps_existing s e) (sb_samples b);
          evicted_bytes = data_bytes (filter (\<lambda>x. \<not> keeps_existing s e x) (sb_samples b))
      in (report\<lparr>ar_evicted := ar_evicted report + (length (sb_samples b) - length kept),
                 ar_appended := ar_appended report + 1\<rparr>,
          b\<lparr>sb_samples := kept @ [s],
            sb_queued_bytes := sat_add (sb_queued_bytes b - evicted_bytes) (length (es_data s))\<rparr>))"

text \<open>\<^verbatim>\<open>i64::try_from(sample.duration_us).unwrap_or(i64::MAX)\<close>\<close>

definition duration_i64 :: "encoded_sample \<Rightarrow> int" where
  "duration_i64 s = (case i64_try_from (int (es_duration s)) of None \<Rightarrow> i64_max | Some d \<Rightarrow> d)"

text \<open>One turn of the append loop. An error leaves the buffer as the samples before it made it.\<close>

definition append_sample ::
  "encoded_sample \<Rightarrow> append_report \<Rightarrow> source_buffer \<Rightarrow> (error + append_report) \<times> source_buffer" where
  "append_sample s0 report b =
     (case i64_checked_add (es_dts s0) (sb_offset b) of
        None \<Rightarrow> (Inl (Err ''SourceBuffer decode timestamp overflow''), b)
      | Some dts \<Rightarrow>
     (case i64_checked_add (es_pts s0) (sb_offset b) of
        None \<Rightarrow> (Inl (Err ''SourceBuffer presentation timestamp overflow''), b)
      | Some pts \<Rightarrow>
     (let s = s0\<lparr>es_dts := dts, es_pts := pts\<rparr> in
      case i64_checked_add pts (duration_i64 s) of
        None \<Rightarrow> (Inl (Err ''SourceBuffer sample end timestamp overflow''), b)
      | Some e \<Rightarrow>
          if \<not> range_contains (sb_window b) pts \<or> e > tr_end (sb_window b)
          then (Inr (report\<lparr>ar_dropped := ar_dropped report + 1\<rparr>), b)
          else (case checked_add (sb_queued_bytes b) (length (es_data s)) of
              None \<Rightarrow> (Inl (Err ''SourceBuffer byte count overflow''), b)
            | Some projected \<Rightarrow>
                if projected > MAX_BYTES_PER_BUFFER \<or> length (sb_samples b) \<ge> MAX_SAMPLES_PER_BUFFER
                then (Inl (Err ''SourceBuffer memory budget exceeded''), b)
                else (case insert_sample s e report b of (report1, b1) \<Rightarrow> (Inr report1, b1))))))"

fun append_samples ::
  "encoded_sample list \<Rightarrow> append_report \<Rightarrow> source_buffer \<Rightarrow> (error + append_report) \<times> source_buffer" where
  "append_samples [] report b = (Inr report, b)"
| "append_samples (s # ss) report b =
     (case append_sample s report b of
        (Inl er, b1) \<Rightarrow> (Inl er, b1)
      | (Inr report1, b1) \<Rightarrow> append_samples ss report1 b1)"

definition sample_order :: "encoded_sample \<Rightarrow> int \<times> u32" where
  "sample_order s = (es_pts s, es_track_id s)"

definition append_buffer_inner :: "bytes \<Rightarrow> source_buffer \<Rightarrow> (error + append_report) \<times> source_buffer" where
  "append_buffer_inner bs b =
     (if mt_container (sb_media_type b) \<noteq> IsoBmff
      then (Inl (Err ''This SourceBuffer currently requires ISO-BMFF segments''), b)
      else if sb_tracks b = [] then
        (case parse_init_segment bs of
           Inl er \<Rightarrow> (Inl er, b)
         | Inr tracks \<Rightarrow>
             if mt_codecs (sb_media_type b) \<noteq> [] \<and>
               list_ex (\<lambda>t. ti_codec t \<notin> set (mt_codecs (sb_media_type b))) tracks
             then (Inl (Err ''Initialization segment codec does not match SourceBuffer type''), b)
             else let b1 = b\<lparr>sb_tracks := tracks\<rparr>
                  in (Inr (empty_report\<lparr>ar_initialization := True, ar_buffered := sb_buffered b1\<rparr>), b1))
      else
        (case parse_media_segment bs (sb_tracks b) of
           Inl er \<Rightarrow> (Inl er, b)
         | Inr parsed \<Rightarrow>
             (case append_samples parsed empty_report b of
                (Inl er, b1) \<Rightarrow> (Inl er, b1)
              | (Inr report, b1) \<Rightarrow>
                  let b2 = b1\<lparr>sb_samples := sort_key sample_order (sb_samples b1)\<rparr>
                  in (Inr (report\<lparr>ar_buffered := sb_buffered b2\<rparr>), b2))))"

definition sb_append_buffer :: "bytes \<Rightarrow> source_buffer \<Rightarrow> (error + append_report) \<times> source_buffer" where
  "sb_append_buffer bs b =
     (if sb_updating b then (Inl (Err ''SourceBuffer is already updating''), b)
      else
        let b0 = b\<lparr>sb_updating := True, sb_events := sb_events b @ [UpdateStart]\<rparr> in
        case append_buffer_inner bs b0 of
          (Inr report, b1) \<Rightarrow>
            (Inr report, b1\<lparr>sb_updating := False, sb_events := sb_events b1 @ [Update, UpdateEnd]\<rparr>)
        | (Inl er, b1) \<Rightarrow>
            (Inl er, b1\<lparr>sb_updating := False,
               sb_samples := take (length (sb_samples b)) (sb_samples b1),
               sb_queued_bytes := sb_queued_bytes b,
               sb_events := take (length (sb_events b)) (sb_events b1) @ [UpdateStart, Abort, UpdateEnd]\<rparr>))"

text \<open>Removal. The subtraction of the byte count is the one arithmetic operation of the file that can
  overflow; a checked build panics there.\<close>

definition drop_samples :: "(encoded_sample \<Rightarrow> bool) \<Rightarrow> source_buffer \<Rightarrow> error + nat \<times> source_buffer" where
  "drop_samples keep b =
     (let kept = filter keep (sb_samples b); removed_bytes = data_bytes (filter (\<lambda>s. \<not> keep s) (sb_samples b)) in
      if removed_bytes > sb_queued_bytes b then Inl (Panic ''attempt to subtract with overflow'')
      else Inr (length (sb_samples b) - length kept,
             b\<lparr>sb_samples := kept, sb_queued_bytes := sb_queued_bytes b - removed_bytes\<rparr>))"

definition sb_remove :: "time_range \<Rightarrow> source_buffer \<Rightarrow> error + nat \<times> source_buffer" where
  "sb_remove r b =
     (if sb_updating b then Inl (Err ''Cannot remove while SourceBuffer is updating'')
      else drop_samples (\<lambda>s. existing_end s \<le> tr_start r \<or> es_pts s \<ge> tr_end r) b)"

definition evict_before :: "int \<Rightarrow> source_buffer \<Rightarrow> error + nat \<times> source_buffer" where
  "evict_before t b = drop_samples (\<lambda>s. existing_end s > t) b"

definition sb_abort :: "source_buffer \<Rightarrow> source_buffer" where
  "sb_abort b = b\<lparr>sb_updating := False, sb_events := sb_events b @ [Abort]\<rparr>"

definition sb_drain_events :: "source_buffer \<Rightarrow> media_source_event list \<times> source_buffer" where
  "sb_drain_events b = (sb_events b, b\<lparr>sb_events := []\<rparr>)"

section \<open>Media sources\<close>

record media_source =
  ms_ready_state :: ready_state
  ms_duration :: "int option"
  ms_buffers :: "source_buffer list"
  ms_next_id :: u32
  ms_events :: "media_source_event list"

definition new_media_source :: media_source where
  "new_media_source = \<lparr>ms_ready_state = Closed, ms_duration = None, ms_buffers = [], ms_next_id = 1, ms_events = []\<rparr>"

definition require_open :: "media_source \<Rightarrow> error + unit" where
  "require_open m = (if ms_ready_state m \<noteq> Opened then Inl (Err ''MediaSource is not open'') else Inr ())"

definition ms_open :: "media_source \<Rightarrow> error + media_source" where
  "ms_open m =
     (if ms_ready_state m \<noteq> Closed then Inl (Err ''MediaSource is already open'')
      else Inr (m\<lparr>ms_ready_state := Opened, ms_events := ms_events m @ [SourceOpen]\<rparr>))"

text \<open>The loop of \<^verbatim>\<open>set_duration\<close> over the buffers: the buffers before a failing one stay cut.\<close>

fun remove_from_all :: "time_range \<Rightarrow> source_buffer list \<Rightarrow> (error + unit) \<times> source_buffer list" where
  "remove_from_all r [] = (Inr (), [])"
| "remove_from_all r (b # bs) =
     (case sb_remove r b of
        Inl er \<Rightarrow> (Inl er, b # bs)
      | Inr (n, b1) \<Rightarrow> (case remove_from_all r bs of (res, bs1) \<Rightarrow> (res, b1 # bs1)))"

definition set_duration :: "int \<Rightarrow> media_source \<Rightarrow> (error + unit) \<times> media_source" where
  "set_duration d m =
     (case require_open m of
        Inl er \<Rightarrow> (Inl er, m)
      | Inr u \<Rightarrow>
          if d \<le> 0 \<or> d > MAX_MEDIA_TIME_US
          then (Inl (Err ''MediaSource duration is outside the supported range''), m)
          else (case remove_from_all \<lparr>tr_start = d, tr_end = MAX_MEDIA_TIME_US\<rparr> (ms_buffers m) of
              (res, bs) \<Rightarrow> (res, m\<lparr>ms_duration := Some d, ms_buffers := bs\<rparr>)))"

definition add_source_buffer :: "ustr \<Rightarrow> decoder_capabilities \<Rightarrow> media_source \<Rightarrow> error + u32 \<times> media_source" where
  "add_source_buffer content_type caps m =
     ebind (require_open m) (\<lambda>u.
       if length (ms_buffers m) \<ge> MAX_SOURCE_BUFFERS then Inl (Err ''MediaSource SourceBuffer budget exceeded'')
       else ebind (parse_media_type content_type) (\<lambda>t.
         if \<not> is_type_supported t caps then Inl (Err ''MediaSource type or decoder is unsupported'')
         else let bid = ms_next_id m
              in Inr (bid, m\<lparr>ms_next_id := (if bid = - 1 then bid else bid + 1),
                            ms_buffers := ms_buffers m @ [new_source_buffer bid t]\<rparr>)))"

definition buffered_ranges :: "media_source \<Rightarrow> time_range list" where
  "buffered_ranges m = merge_ranges 0 [] (sort_key tr_start (concat (map sb_buffered (ms_buffers m))))"

definition source_buffer_of :: "u32 \<Rightarrow> media_source \<Rightarrow> source_buffer option" where
  "source_buffer_of bid m = List.find (\<lambda>b. sb_id b = bid) (ms_buffers m)"

definition total_queued_bytes :: "media_source \<Rightarrow> nat" where
  "total_queued_bytes m = sum_list (map sb_queued_bytes (ms_buffers m))"

fun buffer_position :: "u32 \<Rightarrow> source_buffer list \<Rightarrow> nat option" where
  "buffer_position bid [] = None"
| "buffer_position bid (b # bs) = (if sb_id b = bid then Some 0 else map_option Suc (buffer_position bid bs))"

definition ms_append_buffer :: "u32 \<Rightarrow> bytes \<Rightarrow> media_source \<Rightarrow> (error + append_report) \<times> media_source" where
  "ms_append_buffer bid bs m =
     (case require_open m of
        Inl er \<Rightarrow> (Inl er, m)
      | Inr u \<Rightarrow>
     (case buffer_position bid (ms_buffers m) of
        None \<Rightarrow> (Inl (Err ''Unknown MediaSource SourceBuffer''), m)
      | Some i \<Rightarrow>
          let b = ms_buffers m ! i in
          (case sb_append_buffer bs b of
             (Inl er, b1) \<Rightarrow> (Inl er, m\<lparr>ms_buffers := (ms_buffers m)[i := b1]\<rparr>)
           | (Inr report, b1) \<Rightarrow>
               let m1 = m\<lparr>ms_buffers := (ms_buffers m)[i := b1]\<rparr> in
               if total_queued_bytes m1 > MAX_TOTAL_MEDIA_BYTES
               then (Inl (Err ''MediaSource total byte budget exceeded''),
                 m\<lparr>ms_buffers := (ms_buffers m)[i :=
                   b1\<lparr>sb_samples := take (length (sb_samples b)) (sb_samples b1),
                      sb_queued_bytes := sb_queued_bytes b,
                      sb_events := take (length (sb_events b)) (sb_events b1)\<rparr>]\<rparr>)
               else (Inr report, m1))))"

definition end_of_stream :: "media_source \<Rightarrow> error + media_source" where
  "end_of_stream m =
     ebind (require_open m) (\<lambda>u.
       if list_ex sb_updating (ms_buffers m)
       then Inl (Err ''Cannot end MediaSource while a SourceBuffer is updating'')
       else if ms_buffers m = [] \<or> list_all (\<lambda>b. sb_samples b = []) (ms_buffers m)
       then Inl (Err ''Cannot end an empty MediaSource'')
       else Inr (m\<lparr>ms_ready_state := Ended, ms_events := ms_events m @ [SourceEnded]\<rparr>))"

definition ms_close :: "media_source \<Rightarrow> media_source" where
  "ms_close m =
     m\<lparr>ms_ready_state := Closed, ms_buffers := [], ms_duration := None, ms_events := ms_events m @ [SourceClose]\<rparr>"

definition ms_buffered :: "media_source \<Rightarrow> time_range list" where
  "ms_buffered m = sort_key tr_start (concat (map sb_buffered (ms_buffers m)))"

definition ms_drain_events :: "media_source \<Rightarrow> media_source_event list \<times> media_source" where
  "ms_drain_events m = (ms_events m, m\<lparr>ms_events := []\<rparr>)"

end
