(* ===== verification/Media_Source_Laws.thy ===== *)
theory Media_Source_Laws
  imports Media_Source
begin

text \<open>
  Laws of \<^verbatim>\<open>src/mse.rs\<close>: the invariant of a source buffer over successful calls (exact byte
  count, budgets, coded samples of a track that do not overlap, presentation order), what
  \<^verbatim>\<open>buffered\<close> reports, and the failed append that breaks the byte count.
\<close>

section \<open>The invariant of a source buffer\<close>

definition sample_end :: "encoded_sample \<Rightarrow> int" where
  "sample_end s = es_pts s + int (es_duration s)"

definition placed :: "encoded_sample \<Rightarrow> bool" where
  "placed s \<longleftrightarrow> 0 \<le> es_pts s \<and> 0 < es_duration s \<and> sample_end s \<le> MAX_MEDIA_TIME_US"

text \<open>Two samples of a track occupy disjoint stretches of time.\<close>

definition apart :: "encoded_sample \<Rightarrow> encoded_sample \<Rightarrow> bool" where
  "apart x y \<longleftrightarrow> es_track_id x = es_track_id y \<longrightarrow> sample_end x \<le> es_pts y \<or> sample_end y \<le> es_pts x"

definition window_ok :: "time_range \<Rightarrow> bool" where
  "window_ok r \<longleftrightarrow> 0 \<le> tr_start r \<and> tr_end r \<le> MAX_MEDIA_TIME_US"

definition samples_ok :: "source_buffer \<Rightarrow> bool" where
  "samples_ok b \<longleftrightarrow>
     sb_queued_bytes b = data_bytes (sb_samples b) \<and> sb_queued_bytes b \<le> MAX_BYTES_PER_BUFFER \<and>
     length (sb_samples b) \<le> MAX_SAMPLES_PER_BUFFER \<and> (\<forall>s\<in>set (sb_samples b). placed s) \<and>
     sorted_wrt apart (sb_samples b) \<and> window_ok (sb_window b)"

definition buffer_ok :: "source_buffer \<Rightarrow> bool" where
  "buffer_ok b \<longleftrightarrow> samples_ok b \<and> sorted (map sample_order (sb_samples b)) \<and> \<not> sb_updating b \<and>
     (sb_tracks b = [] \<or> configuration_ok (sb_tracks b))"

lemma apart_sym: "apart x y \<longleftrightarrow> apart y x"
  by (auto simp: apart_def)

lemma existing_end_placed: "placed s \<Longrightarrow> existing_end s = sample_end s"
  by (auto simp: placed_def existing_end_def sample_end_def u64_as_i64_def i64_sat_add_def i64_clamp_def i64_bounds
      mse_limits)

lemma data_bytes_split: "data_bytes xs = data_bytes (filter P xs) + data_bytes (filter (\<lambda>x. \<not> P x) xs)"
  by (induction xs) (simp_all add: data_bytes_def)

lemma data_bytes_append [simp]: "data_bytes (xs @ ys) = data_bytes xs + data_bytes ys"
  by (simp add: data_bytes_def)

lemma data_bytes_insort: "data_bytes (insort_key f x xs) = length (es_data x) + data_bytes xs"
  by (induction xs) (simp_all add: data_bytes_def)

lemma data_bytes_sort [simp]: "data_bytes (sort_key f xs) = data_bytes xs"
  by (induction xs) (simp_all add: data_bytes_insort, simp add: data_bytes_def)

lemma sorted_wrt_insort:
  assumes "\<And>x y. R x y \<longleftrightarrow> R y x"
  shows "sorted_wrt R (insort_key f x xs) \<longleftrightarrow> (\<forall>y\<in>set xs. R x y) \<and> sorted_wrt R xs"
  using assms by (induction xs) (auto simp: set_insort_key)

lemma sorted_wrt_sort:
  assumes "\<And>x y. R x y \<longleftrightarrow> R y x"
  shows "sorted_wrt R (sort_key f xs) \<longleftrightarrow> sorted_wrt R xs"
  using assms by (induction xs) (simp_all add: sorted_wrt_insort)

lemma sorted_wrt_filter: "sorted_wrt R xs \<Longrightarrow> sorted_wrt R (filter P xs)"
  by (induction xs) auto

lemma sorted_filter_map: "sorted (map f xs) \<Longrightarrow> sorted (map f (filter P xs))"
  by (rule sorted_filter)

section \<open>Appending\<close>

text \<open>What one accepted sample does: it enters the list, and exactly the samples of its track that overlap
  it leave.\<close>

lemma insert_sample_ok:
  assumes b: "samples_ok b" and s: "placed s" and e: "e = sample_end s"
    and budget: "sb_queued_bytes b + length (es_data s) \<le> MAX_BYTES_PER_BUFFER"
    and room: "length (sb_samples b) < MAX_SAMPLES_PER_BUFFER"
    and ins: "insert_sample s e report b = (report1, b1)"
  shows "samples_ok b1"
    and "ar_appended report1 + length (sb_samples b) + ar_evicted report
      = ar_appended report + length (sb_samples b1) + ar_evicted report1"
proof -
  let ?kept = "filter (keeps_existing s e) (sb_samples b)"
  let ?out = "filter (\<lambda>x. \<not> keeps_existing s e x) (sb_samples b)"
  have q: "sb_queued_bytes b = data_bytes ?kept + data_bytes ?out"
    using b data_bytes_split by (simp add: samples_ok_def)
  then have "sat_add (sb_queued_bytes b - data_bytes ?out) (length (es_data s))
      = data_bytes ?kept + length (es_data s)"
    using budget by (simp add: sat_add_def mse_limits u64_max_def)
  with ins have b1: "b1 = b\<lparr>sb_samples := ?kept @ [s], sb_queued_bytes := data_bytes (?kept @ [s])\<rparr>"
    and r1: "report1 = report\<lparr>ar_evicted := ar_evicted report + (length (sb_samples b) - length ?kept),
      ar_appended := ar_appended report + 1\<rparr>"
    by (auto simp: insert_sample_def Let_def data_bytes_def)
  have len: "length ?kept \<le> length (sb_samples b)" by (rule length_filter_le)
  have "x \<in> set ?kept \<Longrightarrow> apart x s" for x
    using b by (auto simp: samples_ok_def keeps_existing_def apart_def e existing_end_placed)
  then have "sorted_wrt apart (?kept @ [s])"
    using b by (simp add: sorted_wrt_append sorted_wrt_filter samples_ok_def)
  moreover have "data_bytes (?kept @ [s]) \<le> MAX_BYTES_PER_BUFFER"
    using budget q by (simp add: data_bytes_def)
  moreover have "length (?kept @ [s]) \<le> MAX_SAMPLES_PER_BUFFER" using le_less_trans [OF len room] by simp
  ultimately show "samples_ok b1"
    using b s by (auto simp: samples_ok_def b1 simp del: length_append data_bytes_append)
  show "ar_appended report1 + length (sb_samples b) + ar_evicted report
      = ar_appended report + length (sb_samples b1) + ar_evicted report1"
    using len by (simp add: b1 r1 del: length_filter_le)
qed

definition same_settings :: "source_buffer \<Rightarrow> source_buffer \<Rightarrow> bool" where
  "same_settings b c \<longleftrightarrow> sb_tracks c = sb_tracks b \<and> sb_updating c = sb_updating b \<and> sb_window c = sb_window b \<and>
     sb_offset c = sb_offset b \<and> sb_events c = sb_events b \<and> sb_id c = sb_id b \<and> sb_media_type c = sb_media_type b"

lemma append_sample_ok:
  assumes "append_sample s0 report b = (Inr report1, b1)" and "samples_ok b" and "0 < es_duration s0"
  shows "samples_ok b1 \<and> same_settings b b1 \<and>
    ar_appended report1 + length (sb_samples b) + ar_evicted report
      = ar_appended report + length (sb_samples b1) + ar_evicted report1 \<and>
    ar_appended report1 + ar_dropped report1 = Suc (ar_appended report + ar_dropped report)"
proof -
  define s where "s = s0\<lparr>es_dts := es_dts s0 + sb_offset b, es_pts := es_pts s0 + sb_offset b\<rparr>"
  define d where "d = duration_i64 s0"
  have dpos: "0 < d" using assms(3) by (auto simp: d_def duration_i64_def i64_try_from_def i64_bounds)
  have sp: "es_pts s = es_pts s0 + sb_offset b" by (simp add: s_def)
  have sd: "duration_i64 s = d" by (simp add: s_def d_def duration_i64_def)
  show ?thesis
  proof (cases "\<not> range_contains (sb_window b) (es_pts s) \<or> es_pts s + d > tr_end (sb_window b)")
    case True
    with assms(1) have "b1 = b" "report1 = report\<lparr>ar_dropped := ar_dropped report + 1\<rparr>"
      by (auto simp: append_sample_def Let_def result_simps sd sp s_def [symmetric] split: option.splits if_splits prod.splits)
    with assms(2) show ?thesis by (simp add: same_settings_def)
  next
    case False
    with assms(1) have ins: "insert_sample s (es_pts s + d) report b = (report1, b1)"
      and budget: "sb_queued_bytes b + length (es_data s) \<le> MAX_BYTES_PER_BUFFER"
      and room: "length (sb_samples b) < MAX_SAMPLES_PER_BUFFER"
      by (auto simp: append_sample_def Let_def result_simps sd sp s_def [symmetric] split: option.splits if_splits prod.splits)
    have w: "0 \<le> tr_start (sb_window b)" "tr_end (sb_window b) \<le> MAX_MEDIA_TIME_US"
      using assms(2) by (simp_all add: samples_ok_def window_ok_def)
    with False have t: "0 \<le> es_pts s" "es_pts s + d \<le> MAX_MEDIA_TIME_US"
      by (auto simp: range_contains_def)
    then have "d \<noteq> i64_max" by (simp add: mse_limits i64_max_def)
    then have "d = int (es_duration s)" by (auto simp: d_def s_def duration_i64_def i64_try_from_def split: if_splits)
    then have "placed s" and e: "es_pts s + d = sample_end s"
      using t dpos by (simp_all add: placed_def sample_end_def)
    from insert_sample_ok [OF assms(2) this budget room ins] ins show ?thesis
      by (auto simp: insert_sample_def Let_def same_settings_def)
  qed
qed

lemma append_samples_ok:
  "append_samples ss report b = (Inr report1, b1) \<Longrightarrow> samples_ok b \<Longrightarrow> \<forall>s\<in>set ss. 0 < es_duration s \<Longrightarrow>
    samples_ok b1 \<and> same_settings b b1 \<and>
    ar_appended report1 + length (sb_samples b) + ar_evicted report
      = ar_appended report + length (sb_samples b1) + ar_evicted report1 \<and>
    ar_appended report1 + ar_dropped report1 = length ss + (ar_appended report + ar_dropped report)"
proof (induction ss arbitrary: report b)
  case Nil
  then show ?case by (simp add: same_settings_def)
next
  case (Cons s ss)
  then obtain report2 b2 where a: "append_sample s report b = (Inr report2, b2)"
    and r: "append_samples ss report2 b2 = (Inr report1, b1)"
    by (auto split: prod.splits sum.splits)
  note A = append_sample_ok [OF a Cons.prems(2)]
  have "0 < es_duration s" using Cons.prems(3) by simp
  note A = A [OF this]
  note B = Cons.IH [OF r conjunct1 [OF A]]
  have "\<forall>s\<in>set ss. 0 < es_duration s" using Cons.prems(3) by simp
  note B = B [OF this]
  from A B show ?case by (auto simp: same_settings_def)
qed


lemma sorted_sort_order: "sorted (map sample_order (sort_key sample_order xs))"
  by (rule sorted_sort_key)

lemma samples_ok_sort: "samples_ok b \<Longrightarrow> samples_ok (b\<lparr>sb_samples := sort_key sample_order (sb_samples b)\<rparr>)"
  using sorted_wrt_sort [of apart sample_order "sb_samples b"] apart_sym by (simp add: samples_ok_def)

text \<open>The effect of a successful append on the samples.\<close>

lemma append_buffer_ok:
  assumes "sb_append_buffer bs b = (Inr report, b1)" and "buffer_ok b"
  shows "buffer_ok b1 \<and> ar_buffered report = sb_buffered b1 \<and>
    ar_appended report + length (sb_samples b) = length (sb_samples b1) + ar_evicted report \<and>
    sb_events b1 = sb_events b @ [UpdateStart, Update, UpdateEnd]"
proof -
  let ?b0 = "b\<lparr>sb_updating := True, sb_events := sb_events b @ [UpdateStart]\<rparr>"
  from assms obtain b2 where inner: "append_buffer_inner bs ?b0 = (Inr report, b2)"
    and b1: "b1 = b2\<lparr>sb_updating := False, sb_events := sb_events b2 @ [Update, UpdateEnd]\<rparr>"
    by (auto simp: sb_append_buffer_def Let_def split: if_splits prod.splits sum.splits)
  have same: "sb_buffered b1 = sb_buffered b2" by (simp add: b1 sb_buffered_def)
  have ok0: "samples_ok ?b0" using assms(2) by (simp add: buffer_ok_def samples_ok_def)
  show ?thesis
  proof (cases "sb_tracks b = []")
    case True
    with inner obtain tracks where t: "parse_init_segment bs = Inr tracks" and b2: "b2 = ?b0\<lparr>sb_tracks := tracks\<rparr>"
      and r: "report = empty_report\<lparr>ar_initialization := True, ar_buffered := sb_buffered b2\<rparr>"
      by (auto simp: append_buffer_inner_def Let_def split: if_splits sum.splits)
    have "configuration_ok tracks" using t by (rule parse_init_segment_rule)
    with assms(2) show ?thesis
      by (simp add: b1 b2 r buffer_ok_def samples_ok_def empty_report_def sb_buffered_def)
  next
    case False
    with inner obtain parsed b3 report3 where p: "parse_media_segment bs (sb_tracks b) = Inr parsed"
      and a: "append_samples parsed empty_report ?b0 = (Inr report3, b3)"
      and b2: "b2 = b3\<lparr>sb_samples := sort_key sample_order (sb_samples b3)\<rparr>"
      and r: "report = report3\<lparr>ar_buffered := sb_buffered b2\<rparr>"
      by (auto simp: append_buffer_inner_def Let_def split: if_splits sum.splits prod.splits)
    have "\<forall>s\<in>set parsed. 0 < es_duration s" using media_samples_ok [OF p] by (simp add: sample_ok_def)
    note A = append_samples_ok [OF a ok0 this]
    from A have "samples_ok b2" unfolding b2 by (intro samples_ok_sort) simp
    with A same assms(2) show ?thesis
      by (simp add: b1 b2 r buffer_ok_def samples_ok_def same_settings_def empty_report_def)
  qed
qed

section \<open>Removing\<close>

lemma drop_samples_ok:
  assumes "samples_ok b"
  shows "\<exists>b1. drop_samples keep b = Inr (length (sb_samples b) - length (filter keep (sb_samples b)), b1) \<and>
    samples_ok b1 \<and> sb_samples b1 = filter keep (sb_samples b) \<and> sb_tracks b1 = sb_tracks b \<and>
    sb_updating b1 = sb_updating b"
proof -
  have "sb_queued_bytes b = data_bytes (filter keep (sb_samples b)) + data_bytes (filter (\<lambda>s. \<not> keep s) (sb_samples b))"
    using assms data_bytes_split by (simp add: samples_ok_def)
  with assms show ?thesis
    using length_filter_le [of keep "sb_samples b"]
    by (auto simp: drop_samples_def Let_def samples_ok_def sorted_wrt_filter simp del: length_filter_le)
qed

lemma drop_samples_buffer:
  assumes "buffer_ok b"
  shows "\<exists>n b1. drop_samples keep b = Inr (n, b1) \<and> buffer_ok b1 \<and> sb_samples b1 = filter keep (sb_samples b)"
  using drop_samples_ok [of b keep] assms sorted_filter_map [of sample_order "sb_samples b" keep]
  by (auto simp: buffer_ok_def)


section \<open>Runs of successful calls\<close>

datatype buffer_call =
    SetOffset int | SetWindow int int | AppendSegment bytes | RemoveRange int int | EvictBefore int | AbortUpdate
  | DrainEvents

text \<open>One call of the public interface; a range is built by \<^verbatim>\<open>TimeRange::new\<close>.\<close>

definition buffer_call :: "buffer_call \<Rightarrow> source_buffer \<Rightarrow> error + source_buffer" where
  "buffer_call c b =
     (case c of
        SetOffset t \<Rightarrow> set_timestamp_offset t b
      | SetWindow s e \<Rightarrow> ebind (new_time_range s e) (\<lambda>r. set_append_window r b)
      | AppendSegment bs \<Rightarrow> (case sb_append_buffer bs b of (Inl er, b1) \<Rightarrow> Inl er | (Inr report, b1) \<Rightarrow> Inr b1)
      | RemoveRange s e \<Rightarrow> ebind (new_time_range s e) (\<lambda>r. ebind (sb_remove r b) (\<lambda>(n, b1). Inr b1))
      | EvictBefore t \<Rightarrow> ebind (evict_before t b) (\<lambda>(n, b1). Inr b1)
      | AbortUpdate \<Rightarrow> Inr (sb_abort b)
      | DrainEvents \<Rightarrow> Inr (snd (sb_drain_events b)))"

fun buffer_run :: "buffer_call list \<Rightarrow> source_buffer \<Rightarrow> error + source_buffer" where
  "buffer_run [] b = Inr b"
| "buffer_run (c # cs) b = ebind (buffer_call c b) (buffer_run cs)"

lemma evict_before_ok: "buffer_ok b \<Longrightarrow> \<exists>n b1. evict_before t b = Inr (n, b1) \<and> buffer_ok b1"
  unfolding evict_before_def by (metis drop_samples_buffer)

lemma sb_remove_ok: "buffer_ok b \<Longrightarrow> \<exists>n b1. sb_remove r b = Inr (n, b1) \<and> buffer_ok b1"
  unfolding sb_remove_def using drop_samples_buffer by (metis (no_types, lifting) buffer_ok_def)

lemma buffer_call_ok:
  assumes "buffer_call c b = Inr b1" and "buffer_ok b"
  shows "buffer_ok b1"
proof (cases c)
  case (AppendSegment bs)
  with assms show ?thesis
    using append_buffer_ok [of bs b _ b1] by (auto simp: buffer_call_def split: sum.splits prod.splits)
next
  case (RemoveRange s e)
  with assms obtain r n where "sb_remove r b = Inr (n, b1)"
    by (auto simp: buffer_call_def result_simps split: prod.splits)
  with sb_remove_ok [OF assms(2), of r] show ?thesis by auto
next
  case (EvictBefore t)
  with assms obtain n where "evict_before t b = Inr (n, b1)"
    by (auto simp: buffer_call_def result_simps split: prod.splits)
  with evict_before_ok [OF assms(2), of t] show ?thesis by auto
qed (use assms in \<open>auto simp: buffer_call_def set_timestamp_offset_def set_append_window_def new_time_range_def
       sb_abort_def sb_drain_events_def buffer_ok_def samples_ok_def window_ok_def result_simps\<close>)

lemma new_source_buffer_ok: "buffer_ok (new_source_buffer bid t)"
  by (simp add: buffer_ok_def samples_ok_def new_source_buffer_def data_bytes_def window_ok_def)

lemma buffer_run_ok: "buffer_run cs b = Inr b1 \<Longrightarrow> buffer_ok b \<Longrightarrow> buffer_ok b1"
  by (induction cs arbitrary: b) (auto simp: result_simps dest: buffer_call_ok)

text \<open>C20. Over any sequence of successful calls on a source buffer, its byte count is exactly the size of
  its samples and within the budget; every sample lies inside the media time, the samples of one track never
  overlap, and they are in presentation order. In such a state no removal or eviction fails or overflows the
  byte count.\<close>

theorem source_buffer_run:
  assumes "buffer_run calls (new_source_buffer bid t) = Inr b"
  shows "sb_queued_bytes b = data_bytes (sb_samples b) \<and> sb_queued_bytes b \<le> MAX_BYTES_PER_BUFFER \<and>
    length (sb_samples b) \<le> MAX_SAMPLES_PER_BUFFER \<and> (\<forall>s\<in>set (sb_samples b). placed s) \<and>
    sorted_wrt apart (sb_samples b) \<and> sorted (map sample_order (sb_samples b)) \<and>
    (\<forall>time. is_ok (evict_before time b)) \<and> (\<forall>r. is_ok (sb_remove r b))"
proof -
  have ok: "buffer_ok b" by (rule buffer_run_ok [OF assms new_source_buffer_ok])
  show ?thesis
    using ok evict_before_ok [OF ok] sb_remove_ok [OF ok]
    by (auto simp: buffer_ok_def samples_ok_def is_ok_iff) metis+
qed

section \<open>What is reported as buffered\<close>

definition valid_range :: "time_range \<Rightarrow> bool" where
  "valid_range r \<longleftrightarrow> 0 \<le> tr_start r \<and> tr_start r < tr_end r \<and> tr_end r \<le> MAX_MEDIA_TIME_US"

definition inside :: "time_range \<Rightarrow> time_range \<Rightarrow> bool" where
  "inside r m \<longleftrightarrow> tr_start m \<le> tr_start r \<and> tr_end r \<le> tr_end m"

lemma inside_refl: "inside r r"
  by (simp add: inside_def)

lemma inside_trans: "inside x y \<Longrightarrow> inside y z \<Longrightarrow> inside x z"
  by (simp add: inside_def)

text \<open>Ranges that follow one another with more than the gap between them.\<close>

definition separated :: "int \<Rightarrow> time_range list \<Rightarrow> bool" where
  "separated gap rs \<longleftrightarrow> sorted_wrt (\<lambda>x y. tr_end x + gap < tr_start y) rs"

lemma sat_end: "valid_range r \<Longrightarrow> 0 \<le> gap \<Longrightarrow> gap \<le> RANGE_GAP_TOLERANCE_US \<Longrightarrow>
    i64_sat_add (tr_end r) gap = tr_end r + gap"
  by (simp add: i64_sat_add_def i64_clamp_def valid_range_def i64_bounds mse_limits)

lemma merge_ranges_ok:
  assumes gap: "0 \<le> gap" "gap \<le> RANGE_GAP_TOLERANCE_US"
  shows "sorted (map tr_start rs) \<Longrightarrow> \<forall>r\<in>set (merged @ rs). valid_range r \<Longrightarrow> separated gap merged \<Longrightarrow>
    (merged \<noteq> [] \<Longrightarrow> \<forall>r\<in>set rs. tr_start (last merged) \<le> tr_start r) \<Longrightarrow>
    separated gap (merge_ranges gap merged rs) \<and> (\<forall>m\<in>set (merge_ranges gap merged rs). valid_range m) \<and>
    (\<forall>r\<in>set (merged @ rs). \<exists>m\<in>set (merge_ranges gap merged rs). inside r m) \<and>
    (\<forall>m\<in>set (merge_ranges gap merged rs). tr_start m \<in> tr_start ` set (merged @ rs) \<and>
       tr_end m \<in> tr_end ` set (merged @ rs))"
proof (induction rs arbitrary: merged)
  case Nil
  then show ?case by (auto simp: inside_def)
next
  case (Cons r rs)
  show ?case
  proof (cases "merged \<noteq> [] \<and> tr_start r \<le> i64_sat_add (tr_end (last merged)) gap")
    case True
    then obtain ms l where m: "merged = ms @ [l]" by (cases merged rule: rev_cases) auto
    let ?l = "l\<lparr>tr_end := max (tr_end l) (tr_end r)\<rparr>"
    have e: "merge_ranges gap merged (r # rs) = merge_ranges gap (ms @ [?l]) rs" using True by (simp add: m)
    have "sorted (map tr_start rs)" "\<forall>x\<in>set ((ms @ [?l]) @ rs). valid_range x" "separated gap (ms @ [?l])"
      "\<forall>x\<in>set rs. tr_start (last (ms @ [?l])) \<le> tr_start x"
      using Cons.prems by (auto simp: m valid_range_def separated_def sorted_wrt_append)
    note I = Cons.IH [OF this(1,2,3) this(4)]
    have lr: "inside l ?l" "inside r ?l" using Cons.prems(4) by (auto simp: m inside_def)
    have cover: "\<exists>y\<in>set ((ms @ [?l]) @ rs). inside x y" if "x \<in> set (merged @ r # rs)" for x
      using that lr inside_refl by (auto simp: m)
    have ends: "tr_start ` set ((ms @ [?l]) @ rs) \<subseteq> tr_start ` set (merged @ r # rs)"
      "tr_end ` set ((ms @ [?l]) @ rs) \<subseteq> tr_end ` set (merged @ r # rs)"
      by (auto simp: m max_def)
    have "\<exists>z\<in>set (merge_ranges gap (ms @ [?l]) rs). inside x z" if "x \<in> set (merged @ r # rs)" for x
      using cover [OF that] I inside_trans by blast
    with I ends show ?thesis unfolding e by blast
  next
    case False
    have sep: "separated gap (merged @ [r])"
    proof (cases merged rule: rev_cases)
      case (snoc ms l)
      with False Cons.prems(2) have "tr_end l + gap < tr_start r" by (simp add: sat_end [OF _ gap])
      moreover have "\<forall>x\<in>set ms. tr_end x + gap < tr_start l" "tr_start l \<le> tr_end l"
        using Cons.prems(2,3) by (auto simp: snoc separated_def sorted_wrt_append valid_range_def)
      ultimately show ?thesis using Cons.prems(3) gap(1)
        by (fastforce simp: snoc separated_def sorted_wrt_append)
    qed (simp add: separated_def)
    have "merge_ranges gap merged (r # rs) = merge_ranges gap (merged @ [r]) rs" using False by auto
    with Cons.IH [of "merged @ [r]"] Cons.prems sep show ?thesis by simp
  qed
qed

lemma sample_range_placed: "placed s \<Longrightarrow> sample_range s = Some \<lparr>tr_start = es_pts s, tr_end = sample_end s\<rparr>"
  by (auto simp: placed_def sample_range_def sample_end_def i64_try_from_def i64_checked_add_def i64_bounds
      new_time_range_def mse_limits)

lemma map_filter_placed: "\<forall>s\<in>set ss. placed s \<Longrightarrow>
    List.map_filter sample_range ss = map (\<lambda>s. \<lparr>tr_start = es_pts s, tr_end = sample_end s\<rparr>) ss"
  by (induction ss) (simp_all add: map_filter_simps sample_range_placed)

text \<open>What a source buffer reports as buffered: increasing ranges, each inside the media time and more
  than 50 ms after the one before it; every queued sample lies inside one of them, and each range begins where
  a sample begins and ends where a sample ends.\<close>

theorem sb_buffered_exact:
  assumes "buffer_ok b"
  shows "sorted_wrt (\<lambda>x y. tr_end x + RANGE_GAP_TOLERANCE_US < tr_start y) (sb_buffered b) \<and>
    (\<forall>m\<in>set (sb_buffered b). valid_range m) \<and>
    (\<forall>s\<in>set (sb_samples b). \<exists>m\<in>set (sb_buffered b). tr_start m \<le> es_pts s \<and> sample_end s \<le> tr_end m) \<and>
    (\<forall>m\<in>set (sb_buffered b). tr_start m \<in> es_pts ` set (sb_samples b) \<and> tr_end m \<in> sample_end ` set (sb_samples b))"
proof -
  let ?f = "\<lambda>s. \<lparr>tr_start = es_pts s, tr_end = sample_end s\<rparr>"
  have placed: "\<forall>s\<in>set (sb_samples b). placed s" using assms by (simp add: buffer_ok_def samples_ok_def)
  then have "List.map_filter sample_range (sb_samples b) = map ?f (sb_samples b)"
    by (rule map_filter_placed)
  then have b: "sb_buffered b = merge_ranges RANGE_GAP_TOLERANCE_US [] (sort_key tr_start (map ?f (sb_samples b)))"
    by (simp add: sb_buffered_def)
  have "\<forall>r\<in>set ([] @ sort_key tr_start (map ?f (sb_samples b))). valid_range r"
    using placed by (auto simp: placed_def valid_range_def sample_end_def)
  from merge_ranges_ok [OF _ order_refl _ this] show ?thesis
    unfolding b [symmetric] by (force simp: mse_limits separated_def inside_def)
qed

end
