(* ===== verification/Media_Examples.thy ===== *)
theory Media_Examples
  imports Media_Source_Laws
begin

text \<open>
  Concrete MP4 segments, built box by box: the witnesses of the media properties, and the failed append
  after which the byte count of a source buffer no longer matches its samples.
\<close>

definition box_of :: "string \<Rightarrow> bytes \<Rightarrow> mp4_box" where
  "box_of kind payload = \<lparr>mb_kind = bstr kind, mb_payload = payload\<rparr>"

definition file_of :: "mp4_box list \<Rightarrow> bytes" where
  "file_of boxes = concat (map box_bytes boxes)"

lemma box_of_simps [simp]: "mb_kind (box_of kind payload) = bstr kind" "mb_payload (box_of kind payload) = payload"
  by (simp_all add: box_of_def)

lemma length_file_of [simp]: "length (file_of boxes) = sum_list (map (\<lambda>b. 4 + length (mb_kind b) + length (mb_payload b)) boxes)"
  by (simp add: file_of_def length_concat comp_def box_bytes_def add.assoc)

lemma parse_file:
  "list_all box_writable boxes \<Longrightarrow> length boxes \<le> MAX_BOXES \<Longrightarrow> length (file_of boxes) \<le> u64_max \<Longrightarrow>
    parse_boxes (file_of boxes) = Inr boxes"
  unfolding file_of_def using boxes_from_written [of boxes "[]" "[]"] by (simp add: parse_boxes_def list_all_iff)

lemma file_not_empty: "boxes \<noteq> [] \<Longrightarrow> list_all box_writable boxes \<Longrightarrow> file_of boxes \<noteq> []"
  by (cases boxes) (auto simp: file_of_def box_bytes_def box_writable_def)

lemma length_bstr [simp]: "length (bstr s) = length s"
  by (simp add: bstr_def)

lemmas field_eval = read_be_u32_def read_u24_def read_be_u64_def be_field_def get_range_def from_be_bytes_def
  sat_add_def u64_max_def checked_add_def

lemmas box_eval = parse_file box_writable_def bmff_limits u64_max_def require_box_def find_box_def

section \<open>An initialisation segment\<close>

definition demo_tkhd :: bytes where "demo_tkhd = [0, 0, 0, 0, 0, 0, 0, 0, 0, 0, 0, 0, 0, 0, 0, 1]"
definition demo_mdhd :: bytes where "demo_mdhd = [0, 0, 0, 0, 0, 0, 0, 0, 0, 0, 0, 0, 0, 0x0F, 0x42, 0x40]"
definition demo_hdlr :: bytes where "demo_hdlr = [0, 0, 0, 0, 0, 0, 0, 0] @ bstr ''vide''"
definition demo_stsd :: bytes where "demo_stsd = [0, 0, 0, 0, 0, 0, 0, 1] @ file_of [box_of ''avc1'' []]"

definition demo_trak :: bytes where
  "demo_trak = file_of [box_of ''tkhd'' demo_tkhd, box_of ''mdia'' (file_of [box_of ''mdhd'' demo_mdhd,
     box_of ''hdlr'' demo_hdlr, box_of ''minf'' (file_of [box_of ''stbl'' (file_of [box_of ''stsd'' demo_stsd])])])]"

definition demo_init :: bytes where
  "demo_init = file_of [box_of ''ftyp'' [], box_of ''moov'' (file_of [box_of ''trak'' demo_trak])]"

definition demo_track :: track_info where
  "demo_track = \<lparr>ti_track_id = 1, ti_timescale = 1000000, ti_kind = VideoTrack, ti_codec = Avc\<rparr>"

lemma demo_fields: "parse_tkhd_track_id demo_tkhd = Inr 1" "parse_mdhd_timescale demo_mdhd = Inr 1000000"
  "parse_handler_kind demo_hdlr = Inr VideoTrack"
  by (simp_all add: demo_tkhd_def demo_mdhd_def demo_hdlr_def parse_tkhd_track_id_def parse_mdhd_timescale_def
      parse_handler_kind_def full_box_version_def get_at_def field_eval bstr_def)


lemma demo_lengths: "length demo_tkhd = 16" "length demo_mdhd = 16" "length demo_hdlr = 12" "length demo_stsd = 16"
  by (simp_all add: demo_tkhd_def demo_mdhd_def demo_hdlr_def demo_stsd_def)

lemma demo_codec: "parse_sample_entry_codec (file_of [box_of ''stbl'' (file_of [box_of ''stsd'' demo_stsd])]) = Inr Avc"
  by (simp add: parse_sample_entry_codec_def box_eval demo_lengths)
    (simp add: demo_stsd_def box_eval field_eval sample_entry_codec_def)

lemma demo_track_parses: "parse_track demo_trak = Inr demo_track"
  by (simp add: parse_track_def demo_trak_def box_eval demo_fields demo_lengths demo_codec demo_track_def)
      (simp add: bstr_def)

lemma demo_lengths_2: "length demo_trak = 116"
  by (simp add: demo_trak_def demo_lengths)

lemma demo_init_parses: "parse_init_segment demo_init = Inr [demo_track]"
proof -
  have "demo_init \<noteq> []" unfolding demo_init_def
    by (rule file_not_empty) (simp_all add: box_eval demo_lengths_2)
  then have "validate_segment_size demo_init = Inr ()"
    by (simp add: validate_segment_size_def) (simp add: demo_init_def demo_lengths_2 bmff_limits)
  then show ?thesis
    by (simp add: parse_init_segment_def demo_init_def box_eval demo_lengths_2 demo_track_parses)
      (simp add: bstr_def)
qed

section \<open>Media segments\<close>

definition demo_tfhd :: bytes where "demo_tfhd = [0, 0, 0, 0, 0, 0, 0, 1]"

text \<open>A \<^verbatim>\<open>tfdt\<close> of version 1 and a \<^verbatim>\<open>trun\<close> of one sample with its own
  duration and size.\<close>

definition demo_tfdt :: "bytes \<Rightarrow> bytes" where "demo_tfdt time = [1, 0, 0, 0] @ time"
definition demo_trun :: "u8 \<Rightarrow> u8 \<Rightarrow> bytes" where
  "demo_trun duration sz = [0, 0, 3, 0, 0, 0, 0, 1, 0, 0, 0, duration, 0, 0, 0, sz]"

definition demo_traf :: "bytes \<Rightarrow> u8 \<Rightarrow> u8 \<Rightarrow> mp4_box" where
  "demo_traf time duration sz = box_of ''traf'' (file_of [box_of ''tfhd'' demo_tfhd,
     box_of ''tfdt'' (demo_tfdt time), box_of ''trun'' (demo_trun duration sz)])"

definition demo_media :: "mp4_box list \<Rightarrow> bytes \<Rightarrow> bytes" where
  "demo_media trafs data = file_of [box_of ''moof'' (file_of trafs), box_of ''mdat'' data]"

definition time_0 :: bytes where "time_0 = [0, 0, 0, 0, 0, 0, 0, 0]"

text \<open>The time \<open>2^63 - 8\<close>, in microseconds.\<close>

definition late_time :: bytes where "late_time = [0x7F, 0xFF, 0xFF, 0xFF, 0xFF, 0xFF, 0xFF, 0xF8]"

definition demo_defaults :: fragment_defaults where
  "demo_defaults = \<lparr>fd_track_id = 1, fd_duration = 0, fd_size = 0, fd_flags = 0\<rparr>"

definition demo_run :: "nat \<Rightarrow> nat \<Rightarrow> nat \<Rightarrow> track_run" where
  "demo_run time duration sz = \<lparr>tr_track_id = 1, tr_base_time = time,
     tr_samples = [\<lparr>rs_duration = duration, rs_size = sz, rs_flags = 0, rs_composition = 0\<rparr>]\<rparr>"

lemma demo_tfhd_parses: "parse_tfhd demo_tfhd = Inr demo_defaults"
  by (simp add: parse_tfhd_def demo_tfhd_def field_eval flag_set_def optional_field_def demo_defaults_def)

lemma demo_trun_parses:
  "parse_trun (demo_trun 10 1) demo_defaults = Inr [\<lparr>rs_duration = 10, rs_size = 1, rs_flags = 0, rs_composition = 0\<rparr>]"
  "parse_trun (demo_trun 10 2) demo_defaults = Inr [\<lparr>rs_duration = 10, rs_size = 2, rs_flags = 0, rs_composition = 0\<rparr>]"
  by (simp_all add: parse_trun_def demo_trun_def field_eval flag_set_def bmff_limits trun_sample_def
      optional_field_def demo_defaults_def)

lemma demo_tfdt_parses: "parse_tfdt (demo_tfdt time_0) = Inr 0"
  "parse_tfdt (demo_tfdt late_time) = Inr 9223372036854775800"
  by (simp_all add: parse_tfdt_def demo_tfdt_def full_box_version_def get_at_def field_eval time_0_def late_time_def)


definition demo_sample_at :: "int \<Rightarrow> bytes \<Rightarrow> encoded_sample" where
  "demo_sample_at t data = \<lparr>es_track_id = 1, es_dts = t, es_pts = t, es_duration = 10, es_keyframe = True, es_data = data\<rparr>"

lemma demo_media_lengths: "length demo_tfhd = 8" "length (demo_tfdt t) = 4 + length t" "length (demo_trun d sz) = 16"
  "length time_0 = 8" "length late_time = 8"
  by (simp_all add: demo_tfhd_def demo_tfdt_def demo_trun_def time_0_def late_time_def)

lemma demo_traf_payload: "length (mb_payload (demo_traf time_0 10 k)) = 60" "length (mb_payload (demo_traf late_time 10 k)) = 60"
  "mb_kind (demo_traf time d k) = bstr ''traf''"
  by (simp_all add: demo_traf_def demo_media_lengths)

lemma demo_traf_boxes: "parse_boxes (mb_payload (demo_traf time_0 10 k))
    = Inr [box_of ''tfhd'' demo_tfhd, box_of ''tfdt'' (demo_tfdt time_0), box_of ''trun'' (demo_trun 10 k)]"
  "parse_boxes (mb_payload (demo_traf late_time 10 k))
    = Inr [box_of ''tfhd'' demo_tfhd, box_of ''tfdt'' (demo_tfdt late_time), box_of ''trun'' (demo_trun 10 k)]"
  by (simp_all add: demo_traf_def box_eval demo_media_lengths)

lemma demo_trun_count: "read_be_u32 (demo_trun d k) 4 = Inr 1"
  by (simp add: demo_trun_def field_eval)

lemmas fragment_eval = demo_traf_boxes demo_traf_payload demo_tfhd_parses demo_tfdt_parses demo_trun_parses
  demo_trun_count run_duration_def checked_add_def sat_add_def

lemma demo_fragment_1: "parse_movie_fragment (file_of [demo_traf time_0 10 1]) = Inr [demo_run 0 10 1]"
  by (simp add: parse_movie_fragment_def box_eval fragment_eval)
    (simp add: bstr_def demo_run_def demo_defaults_def fragment_eval u64_max_def bmff_limits)

lemma demo_fragment_2: "parse_movie_fragment (file_of [demo_traf time_0 10 2, demo_traf late_time 10 1])
    = Inr [demo_run 0 10 2, demo_run 9223372036854775800 10 1]"
  by (simp add: parse_movie_fragment_def box_eval fragment_eval)
    (simp add: bstr_def demo_run_def demo_defaults_def fragment_eval u64_max_def bmff_limits)

lemmas emit_eval = emit_sample_def scale_time_def scale_duration_def checked_add_def checked_mul_def u64_max_def
  get_range_def i128_checked_def in_i128_def i64_try_from_def i64_bounds demo_track_def demo_run_def demo_sample_at_def

lemma demo_media_1: "parse_media_segment (demo_media [demo_traf time_0 10 1] [7]) [demo_track] = Inr [demo_sample_at 0 [7]]"
proof -
  have "demo_media [demo_traf time_0 10 1] [7] \<noteq> []" unfolding demo_media_def
    by (rule file_not_empty) (simp_all add: box_eval demo_traf_payload)
  then have "validate_segment_size (demo_media [demo_traf time_0 10 1] [7]) = Inr ()"
    by (simp add: validate_segment_size_def) (simp add: demo_media_def demo_traf_payload bmff_limits)
  then show ?thesis
    by (simp add: parse_media_segment_def demo_media_def box_eval demo_traf_payload demo_fragment_1)
      (simp add: bstr_def emit_eval demo_fragment_1)
qed

lemma demo_media_2: "parse_media_segment (demo_media [demo_traf time_0 10 2, demo_traf late_time 10 1] [1, 2, 3]) [demo_track]
    = Inr [demo_sample_at 0 [1, 2], demo_sample_at 9223372036854775800 [3]]"
proof -
  let ?m = "demo_media [demo_traf time_0 10 2, demo_traf late_time 10 1] [1, 2, 3]"
  have "?m \<noteq> []" unfolding demo_media_def
    by (rule file_not_empty) (simp_all add: box_eval demo_traf_payload)
  then have "validate_segment_size ?m = Inr ()"
    by (simp add: validate_segment_size_def) (simp add: demo_media_def demo_traf_payload bmff_limits)
  then show ?thesis
    by (simp add: parse_media_segment_def demo_media_def box_eval demo_traf_payload demo_fragment_2)
      (simp add: bstr_def emit_eval demo_fragment_2)
qed

section \<open>Witnesses\<close>

definition demo_type :: media_type where
  "demo_type = \<lparr>mt_essence = [], mt_container = IsoBmff, mt_codecs = [Avc]\<rparr>"

definition demo_buffer :: "encoded_sample list \<Rightarrow> nat \<Rightarrow> media_source_event list \<Rightarrow> source_buffer" where
  "demo_buffer ss n events = (new_source_buffer 1 demo_type)
     \<lparr>sb_tracks := [demo_track], sb_samples := ss, sb_queued_bytes := n, sb_events := events\<rparr>"

definition first_segment :: bytes where "first_segment = demo_media [demo_traf time_0 10 1] [7]"
definition second_segment :: bytes where
  "second_segment = demo_media [demo_traf time_0 10 2, demo_traf late_time 10 1] [1, 2, 3]"

definition demo_calls :: "buffer_call list" where
  "demo_calls = [AppendSegment demo_init, DrainEvents, AppendSegment first_segment, DrainEvents]"

lemmas append_eval = sb_append_buffer_def append_buffer_inner_def new_source_buffer_def demo_type_def
  append_sample_def insert_sample_def demo_sample_at_def i64_checked_add_def i64_try_from_def i64_bounds
  duration_i64_def range_contains_def mse_limits checked_add_def u64_max_def data_bytes_def sat_add_def Let_def
  first_segment_def second_segment_def demo_media_1 demo_media_2

lemma demo_append_0: "\<exists>report. sb_append_buffer demo_init (new_source_buffer 1 demo_type)
    = (Inr report, demo_buffer [] 0 [UpdateStart, Update, UpdateEnd])"
  by (simp add: append_eval demo_buffer_def demo_init_parses) (simp add: demo_track_def)

lemma demo_append_1: "\<exists>report. sb_append_buffer first_segment (demo_buffer [] 0 [])
    = (Inr report, demo_buffer [demo_sample_at 0 [7]] 1 [UpdateStart, Update, UpdateEnd])"
  by (simp add: append_eval demo_buffer_def)

lemma demo_append_2: "sb_append_buffer second_segment (demo_buffer [demo_sample_at 0 [7]] 1 [])
    = (Inl (Err ''SourceBuffer sample end timestamp overflow''),
       demo_buffer [demo_sample_at 0 [1, 2]] 1 [UpdateStart, Abort, UpdateEnd])"
  by (simp add: append_eval demo_buffer_def keeps_existing_def existing_end_def i64_sat_add_def i64_clamp_def
      u64_as_i64_def)

lemma demo_run: "buffer_run demo_calls (new_source_buffer 1 demo_type) = Inr (demo_buffer [demo_sample_at 0 [7]] 1 [])"
proof -
  have drain: "buffer_call DrainEvents (demo_buffer ss n ev) = Inr (demo_buffer ss n [])" for ss n ev
    by (simp add: buffer_call_def sb_drain_events_def demo_buffer_def)
  obtain r0 where "sb_append_buffer demo_init (new_source_buffer 1 demo_type)
      = (Inr r0, demo_buffer [] 0 [UpdateStart, Update, UpdateEnd])" using demo_append_0 by blast
  then have a: "buffer_call (AppendSegment demo_init) (new_source_buffer 1 demo_type)
      = Inr (demo_buffer [] 0 [UpdateStart, Update, UpdateEnd])" by (simp add: buffer_call_def)
  obtain r1 where "sb_append_buffer first_segment (demo_buffer [] 0 [])
      = (Inr r1, demo_buffer [demo_sample_at 0 [7]] 1 [UpdateStart, Update, UpdateEnd])" using demo_append_1 by blast
  then have b: "buffer_call (AppendSegment first_segment) (demo_buffer [] 0 [])
      = Inr (demo_buffer [demo_sample_at 0 [7]] 1 [UpdateStart, Update, UpdateEnd])" by (simp add: buffer_call_def)
  show ?thesis by (simp add: demo_calls_def a b drain)
qed

text \<open>A failed append is not undone. The buffer holds one byte; a segment replaces that sample by one of two
  bytes and then fails on a timestamp. The code restores the old byte count and the old number of samples, but
  the sample it keeps is the new one: the count says one byte where two are queued, and the next eviction
  underflows it.\<close>

theorem failed_append_breaks_count:
  "\<exists>b b1 e. buffer_run demo_calls (new_source_buffer 1 demo_type) = Inr b \<and>
     sb_append_buffer second_segment b = (Inl e, b1) \<and> sb_samples b1 \<noteq> sb_samples b \<and>
     sb_queued_bytes b1 < data_bytes (sb_samples b1) \<and>
     evict_before 100 b1 = Inl (Panic ''attempt to subtract with overflow'')"
proof -
  let ?b = "demo_buffer [demo_sample_at 0 [7]] 1 []"
  let ?b1 = "demo_buffer [demo_sample_at 0 [1, 2]] 1 [UpdateStart, Abort, UpdateEnd]"
  have "evict_before 100 ?b1 = Inl (Panic ''attempt to subtract with overflow'')"
    by (simp add: evict_before_def drop_samples_def demo_buffer_def existing_end_def demo_sample_at_def
        i64_sat_add_def i64_clamp_def u64_as_i64_def i64_bounds data_bytes_def)
  moreover have "sb_samples ?b1 \<noteq> sb_samples ?b" "sb_queued_bytes ?b1 < data_bytes (sb_samples ?b1)"
    by (simp_all add: demo_buffer_def demo_sample_at_def data_bytes_def)
  ultimately show ?thesis using demo_run demo_append_2 by blast
qed

section \<open>Witnesses\<close>

theorem parse_boxes_written_witness:
  "parse_boxes (concat (map box_bytes [box_of ''free'' [1, 2], box_of ''skip'' []]))
     = Inr [box_of ''free'' [1, 2], box_of ''skip'' []]"
  by (rule parse_boxes_written) (simp_all add: box_writable_def bmff_limits u64_max_def length_box_bytes)

theorem parse_init_segment_ok_witness:
  "parse_init_segment demo_init = Inr [demo_track] \<and> configuration_ok [demo_track]"
  using demo_init_parses parse_init_segment_ok [OF demo_init_parses] by simp

theorem parse_media_segment_partition_witness:
  "parse_media_segment first_segment [demo_track] = Inr [demo_sample_at 0 [7]] \<and>
   (\<exists>top mdat. parse_boxes first_segment = Inr top \<and> find_box ''mdat'' top = Some mdat \<and> mb_payload mdat = [7])"
proof -
  have r: "parse_media_segment first_segment [demo_track] = Inr [demo_sample_at 0 [7]]"
    by (simp add: first_segment_def demo_media_1)
  have d: "concat (map es_data [demo_sample_at 0 [7]]) = [7]" by (simp add: demo_sample_at_def)
  from parse_media_segment_partition [OF r] r show ?thesis unfolding d by metis
qed

theorem source_buffer_run_witness:
  "case buffer_run demo_calls (new_source_buffer 1 demo_type) of
     Inl e \<Rightarrow> False
   | Inr b \<Rightarrow> sb_samples b = [demo_sample_at 0 [7]] \<and> sb_queued_bytes b = data_bytes (sb_samples b)"
  using source_buffer_run [OF demo_run] unfolding demo_run by (simp add: demo_buffer_def)

theorem sb_buffered_exact_witness:
  "\<exists>m\<in>set (sb_buffered (demo_buffer [demo_sample_at 0 [7]] 1 [])). tr_start m \<le> 0 \<and> 10 \<le> tr_end m"
proof -
  have ok: "buffer_ok (demo_buffer [demo_sample_at 0 [7]] 1 [])"
    by (rule buffer_run_ok [OF demo_run new_source_buffer_ok])
  have "demo_sample_at 0 [7] \<in> set (sb_samples (demo_buffer [demo_sample_at 0 [7]] 1 []))"
    by (simp add: demo_buffer_def)
  with sb_buffered_exact [OF ok] show ?thesis
    by (fastforce simp: demo_sample_at_def sample_end_def)
qed

end
