(* ===== verification/Js_Ast.thy ===== *)
theory Js_Ast
  imports Float_Text
begin

text \<open>
  The data of the JavaScript front end (\<^verbatim>\<open>src/javascript.rs\<close>): its errors and the expression type
  \<^verbatim>\<open>JsvExpr\<close> as far as the parser builds it.
\<close>

section \<open>Errors\<close>

text \<open>
  Every error of the front end is a message; two carry the offending token. \<open>Unfinished\<close> is no value of
  the code: it stands for a loop turn that reads no token or a recursion deeper than the fuel.
\<close>

type_synonym token = ustr

datatype js_error = Msg string | MsgToken string token | Unfinished

section \<open>Expressions\<close>

datatype op_kind =
    Add | Sub | Mul | Div | Mod | Eq | Neq | StrictEq | StrictNeq | Lt | Le | Gt | Ge | And | Or | Nullish | Not
  | Typeof | Instanceof | In | Assign

datatype declaration_kind = Var | Let | Const

text \<open>
  The constructors of \<^verbatim>\<open>JsvExpr\<close> that the parser builds. The type of the code has more
  (classes, generators, destructuring, \<^verbatim>\<open>this\<close>, \<^verbatim>\<open>super\<close>, spread, private
  names), which no line of the parser constructs. A parameter is always a plain name, an object literal a list of
  keys with their values, and the pattern of a \<^verbatim>\<open>for..of\<close> an identifier.
\<close>

datatype param_binding = Plain ustr

datatype (plugins only: code size) js_expr =
    ENumber f64
  | EString ustr
  | EBool bool
  | ENull
  | EUndefined
  | EObjectLiteral "(ustr \<times> js_expr) list"
  | EArrayLiteral "js_expr list"
  | EIdentifier ustr
  | EAssignment ustr js_expr
  | EVariableDeclaration ustr js_expr declaration_kind
  | EMember js_expr ustr
  | EMemberAssignment js_expr ustr js_expr
  | EIndex js_expr js_expr
  | EIndexAssignment js_expr js_expr js_expr
  | EBinaryOp js_expr op_kind js_expr
  | EUnaryOp op_kind js_expr
  | EIf js_expr "js_expr list" "js_expr list option"
  | EWhile js_expr "js_expr list"
  | EForIn ustr declaration_kind js_expr "js_expr list"
  | EForOf ustr declaration_kind js_expr "js_expr list"
  | EDoWhile js_expr "js_expr list"
  | EBlock "js_expr list"
  | ETryCatchFinally "js_expr list" "ustr option" "js_expr list" "js_expr list"
  | ESwitch js_expr "(js_expr option \<times> js_expr list) list" "js_expr list option"
  | ETernary js_expr js_expr js_expr
  | ETemplate "(ustr + js_expr) list"
  | ECall js_expr "js_expr list"
  | EFunctionDef ustr "param_binding list" js_expr
  | EAsyncFunctionDef ustr "param_binding list" js_expr
  | EFunctionExpr "param_binding list" js_expr bool
  | ENewExpr js_expr "js_expr list"
  | EOptionalMember js_expr ustr
  | EOptionalIndex js_expr js_expr
  | EUpdate js_expr bool bool
  | EDynamicImport ustr
  | EReturn js_expr
  | EThrow js_expr
  | EAwait js_expr
  | EBreak "ustr option"
  | EContinue "ustr option"

end
