(* ===== verification/Js_Lexer.thy ===== *)
theory Js_Lexer
  imports Js_Ast
begin

text \<open>
  The tokenizer of \<^verbatim>\<open>src/javascript.rs\<close>. A token is a text, as in the code: a string literal keeps a quote
  at both ends, a template literal is a sequence of tokens between a backquote and \<^verbatim>\<open>`END\<close>, its
  interpolations between \<^verbatim>\<open>`${\<close> and \<^verbatim>\<open>`}\<close>. Unicode's tables of alphabetic and numeric characters
  beyond ASCII are a parameter.
\<close>

section \<open>Characters\<close>

record char_tables =
  ct_alphabetic :: "uchar \<Rightarrow> bool"
  ct_numeric :: "uchar \<Rightarrow> bool"

definition is_alphabetic :: "char_tables \<Rightarrow> uchar \<Rightarrow> bool" where
  "is_alphabetic U c \<longleftrightarrow> (if c < 128 then is_ascii_alphabetic c else ct_alphabetic U c)"

definition is_alphanumeric :: "char_tables \<Rightarrow> uchar \<Rightarrow> bool" where
  "is_alphanumeric U c \<longleftrightarrow>
     (if c < 128 then is_ascii_alphanumeric c else ct_alphabetic U c \<or> ct_numeric U c)"

definition ident_start :: "char_tables \<Rightarrow> uchar \<Rightarrow> bool" where
  "ident_start U c \<longleftrightarrow> is_alphabetic U c \<or> c = of_char CHR ''_'' \<or> c = of_char CHR ''$''"

definition ident_char :: "char_tables \<Rightarrow> uchar \<Rightarrow> bool" where
  "ident_char U c \<longleftrightarrow> is_alphanumeric U c \<or> c = of_char CHR ''_'' \<or> c = of_char CHR ''$''"

definition is_identifier :: "char_tables \<Rightarrow> ustr \<Rightarrow> bool" where
  "is_identifier U s \<longleftrightarrow> s \<noteq> [] \<and> ident_start U (hd s) \<and> list_all (ident_char U) s"

section \<open>The tokenizer\<close>

definition MAX_SOURCE_BYTES :: nat where "MAX_SOURCE_BYTES = 2 * 1024 * 1024"
definition MAX_TOKENS :: nat where "MAX_TOKENS = 262144"
definition MAX_PARSE_DEPTH :: nat where "MAX_PARSE_DEPTH = 512"

definition DQUOTE :: uchar where "DQUOTE = 34"
definition SQUOTE :: uchar where "SQUOTE = 39"
definition BACKSLASH :: uchar where "BACKSLASH = 92"
definition BACKQUOTE :: uchar where "BACKQUOTE = 96"
definition DOLLAR :: uchar where "DOLLAR = 36"
definition LBRACE :: uchar where "LBRACE = 123"

lemmas js_chars = DQUOTE_def SQUOTE_def BACKSLASH_def BACKQUOTE_def DOLLAR_def LBRACE_def

definition quoted :: "ustr \<Rightarrow> token" where
  "quoted s = [DQUOTE] @ s @ [DQUOTE]"

record lex_state =
  lx_tokens :: "token list"
  lx_template :: bool
  lx_template_depth :: nat
  lx_brackets :: nat

definition push_token :: "token \<Rightarrow> lex_state \<Rightarrow> lex_state" where
  "push_token t s = s\<lparr>lx_tokens := lx_tokens s @ [t]\<rparr>"

text \<open>\<^verbatim>\<open>track_template_bracket\<close>.\<close>

definition track_bracket :: "token \<Rightarrow> lex_state \<Rightarrow> lex_state" where
  "track_bracket t s =
     (if lx_template_depth s > 0 then
        if t \<in> {lit ''('', lit ''['', lit ''{''} then push_token t (s\<lparr>lx_brackets := lx_brackets s + 1\<rparr>)
        else if t \<in> {lit '')'', lit '']''} then push_token t (s\<lparr>lx_brackets := lx_brackets s - 1\<rparr>)
        else if t = lit ''}'' \<and> lx_brackets s = 0
        then (push_token (BACKQUOTE # lit ''}'') s)\<lparr>lx_template_depth := lx_template_depth s - 1, lx_template := True\<rparr>
        else if t = lit ''}'' then push_token t (s\<lparr>lx_brackets := lx_brackets s - 1\<rparr>)
        else push_token t s
      else push_token t s)"

text \<open>An escape in template text: its characters, and in a string literal.\<close>

definition template_escape :: "uchar \<Rightarrow> ustr" where
  "template_escape e =
     (if e = of_char CHR ''n'' then [10] else if e = of_char CHR ''t'' then [9] else if e = of_char CHR ''r'' then [13]
      else if e = BACKSLASH then [BACKSLASH, BACKSLASH]
      else if e = BACKQUOTE then [BACKQUOTE] else if e = DOLLAR then [DOLLAR]
      else [BACKSLASH, e])"

definition string_escape :: "uchar \<Rightarrow> ustr" where
  "string_escape e =
     (if e = of_char CHR ''n'' then [10] else if e = of_char CHR ''t'' then [9] else if e = of_char CHR ''r'' then [13]
      else if e = of_char CHR ''b'' then [8] else if e = of_char CHR ''f'' then [12] else if e = of_char CHR ''0'' then [0]
      else if e \<in> {BACKSLASH, SQUOTE, DQUOTE, BACKQUOTE} then [e]
      else [BACKSLASH, e])"

text \<open>A run of template text, up to a backquote, an interpolation or an escape.\<close>

definition text_stops :: "ustr \<Rightarrow> bool" where
  "text_stops s = (case s of
      [] \<Rightarrow> True
    | c # r \<Rightarrow> c = BACKQUOTE \<or> (c = DOLLAR \<and> r \<noteq> [] \<and> hd r = LBRACE) \<or> (c = BACKSLASH \<and> r \<noteq> []))"

fun text_run :: "ustr \<Rightarrow> ustr \<times> ustr" where
  "text_run [] = ([], [])"
| "text_run (c # r) =
     (if text_stops (c # r) then ([], c # r) else (case text_run r of (t, r2) \<Rightarrow> (c # t, r2)))"

text \<open>The rest of a string literal after its opening quote.\<close>

fun scan_string :: "uchar \<Rightarrow> ustr \<Rightarrow> (ustr \<times> ustr) option" where
  "scan_string q [] = None"
| "scan_string q [c] = (if c = q then Some ([], []) else None)"
| "scan_string q (c # e # r) =
     (if c = q then Some ([], e # r)
      else if c = BACKSLASH then map_option (\<lambda>(t, r2). (string_escape e @ t, r2)) (scan_string q r)
      else map_option (\<lambda>(t, r2). (c # t, r2)) (scan_string q (e # r)))"

fun skip_block_comment :: "ustr \<Rightarrow> ustr" where
  "skip_block_comment (c # d # r) =
     (if c = of_char CHR ''*'' \<and> d = of_char CHR ''/'' then r else skip_block_comment (d # r))"
| "skip_block_comment _ = []"

definition three_char_ops :: "token list" where
  "three_char_ops = map lit [''==='', ''!=='']"

definition two_char_ops :: "token list" where
  "two_char_ops = map lit [''=='', ''!='', ''<='', ''>='', ''&&'', ''||'', ''=>'', ''??'', ''?.'', ''++'', ''--'', ''+='',
     ''-='', ''*='', ''/='', ''%='']"

definition single_chars :: ustr where
  "single_chars = lit ''+-*/%<>=!(){}[];,.:?''"

definition number_char :: "uchar \<Rightarrow> bool" where
  "number_char c \<longleftrightarrow> is_ascii_digit c \<or> c = of_char CHR ''.'' \<or> c = of_char CHR ''e'' \<or> c = of_char CHR ''E''"

text \<open>One turn of the loop inside template text, and outside it, for a non-empty rest.\<close>

definition template_step :: "ustr \<Rightarrow> lex_state \<Rightarrow> lex_state \<times> ustr" where
  "template_step s st =
     (case s of
        [] \<Rightarrow> (st, [])
      | c # r \<Rightarrow>
          if c = BACKQUOTE then ((push_token (BACKQUOTE # lit ''END'') st)\<lparr>lx_template := False\<rparr>, r)
          else if c = DOLLAR \<and> r \<noteq> [] \<and> hd r = LBRACE
          then ((push_token (BACKQUOTE # lit ''${'') st)\<lparr>lx_template := False,
                  lx_template_depth := lx_template_depth st + 1, lx_brackets := 0\<rparr>, tl r)
          else if c = BACKSLASH \<and> r \<noteq> [] then (push_token (quoted (template_escape (hd r))) st, tl r)
          else (case text_run s of (t, r2) \<Rightarrow> (push_token (quoted t) st, r2)))"

definition punctuation_step :: "uchar \<Rightarrow> ustr \<Rightarrow> lex_state \<Rightarrow> lex_state \<times> ustr" where
  "punctuation_step c r st =
     (if length r \<ge> 2 then
        if take 3 (c # r) \<in> set three_char_ops then (push_token (take 3 (c # r)) st, drop 2 r)
        else if take 2 (c # r) \<in> set two_char_ops then (push_token (take 2 (c # r)) st, drop 1 r)
        else if c = of_char CHR ''/'' \<and> hd r = of_char CHR ''/'' then (st, dropWhile (\<lambda>d. d \<noteq> 10) (tl r))
        else if c = of_char CHR ''/'' \<and> hd r = of_char CHR ''*'' then (st, skip_block_comment (tl r))
        else (track_bracket [c] st, r)
      else if c \<in> set single_chars then (track_bracket [c] st, r)
      else (st, r))"

definition code_step :: "char_tables \<Rightarrow> ustr \<Rightarrow> lex_state \<Rightarrow> js_error + lex_state \<times> ustr" where
  "code_step U s st =
     (case s of
        [] \<Rightarrow> Inr (st, [])
      | c # r \<Rightarrow>
          if is_whitespace c then Inr (st, r)
          else if is_ascii_digit c \<or> (c = of_char CHR ''.'' \<and> r \<noteq> [] \<and> is_ascii_digit (hd r))
          then Inr (push_token (takeWhile number_char s) st, dropWhile number_char s)
          else if ident_start U c then Inr (push_token (takeWhile (ident_char U) s) st, dropWhile (ident_char U) s)
          else if c = DQUOTE \<or> c = SQUOTE
          then (case scan_string c r of
              None \<Rightarrow> Inl (Msg ''Unterminated string literal'')
            | Some (t, r2) \<Rightarrow> Inr (push_token (quoted t) st, r2))
          else if c = BACKQUOTE then Inr ((push_token [BACKQUOTE] st)\<lparr>lx_template := True\<rparr>, r)
          else Inr (punctuation_step c r st))"

definition lex_step :: "char_tables \<Rightarrow> ustr \<Rightarrow> lex_state \<Rightarrow> js_error + lex_state \<times> ustr" where
  "lex_step U s st = (if lx_template st then Inr (template_step s st) else code_step U s st)"

text \<open>
  The loop of \<^verbatim>\<open>tokenize\<close>, on the rest of the source; every turn checks the token budget first.
  A turn on a non-empty rest always reads a character (\<^verbatim>\<open>lex_step_shrinks\<close>).
\<close>

function lex_loop :: "char_tables \<Rightarrow> ustr \<Rightarrow> lex_state \<Rightarrow> js_error + lex_state" where
  "lex_loop U s st =
     (if s = [] then Inr st
      else if length (lx_tokens st) \<ge> MAX_TOKENS then Inl (Msg ''Script token budget exceeded'')
      else case lex_step U s st of
          Inl e \<Rightarrow> Inl e
        | Inr (st2, r) \<Rightarrow> if length r < length s then lex_loop U r st2 else Inl Unfinished)"
  by pat_completeness auto
termination by (relation "measure (\<lambda>(U, s, st). length s)") auto

declare lex_loop.simps [simp del]

definition lex_start :: lex_state where
  "lex_start = \<lparr>lx_tokens = [], lx_template = False, lx_template_depth = 0, lx_brackets = 0\<rparr>"

definition tokenize :: "char_tables \<Rightarrow> ustr \<Rightarrow> js_error + token list" where
  "tokenize U code =
     (if byte_len code > MAX_SOURCE_BYTES then Inl (Msg ''Script source exceeds 2 MB budget'')
      else ebind (lex_loop U code lex_start) (\<lambda>st.
        if lx_template st then Inl (Msg ''Unterminated template literal'')
        else if length (lx_tokens st) > MAX_TOKENS then Inl (Msg ''Script token budget exceeded'')
        else Inr (lx_tokens st)))"

text \<open>\<^verbatim>\<open>max_parse_depth\<close>: the deepest bracket nesting of the tokens.\<close>

fun bracket_depth :: "nat \<Rightarrow> nat \<Rightarrow> token list \<Rightarrow> nat" where
  "bracket_depth d m [] = m"
| "bracket_depth d m (t # ts) =
     (if t \<in> {lit ''('', lit ''['', lit ''{''} then bracket_depth (d + 1) (max m (d + 1)) ts
      else if t \<in> {lit '')'', lit '']'', lit ''}''} then bracket_depth (d - 1) m ts
      else bracket_depth d m ts)"

definition max_parse_depth :: "token list \<Rightarrow> nat" where
  "max_parse_depth = bracket_depth 0 0"

end
