(* ===== verification/Js_Parser.thy ===== *)
theory Js_Parser
  imports Js_Lexer
begin

text \<open>
  The recursive descent parser of \<^verbatim>\<open>src/javascript.rs\<close>. A position in the token vector is the list of the tokens
  from there on. The functions call each other through a record of the recursive entry points, and every
  call through the record is on a strictly shorter rest; \<open>js_parsers\<close> ties the knot with a fuel that one
  more than the number of tokens always covers (\<^verbatim>\<open>Js_Parser_Laws\<close>). Every loop is an instance of
  \<open>turns\<close>.
\<close>

type_synonym 'a parsed = "js_error + 'a \<times> token list"
type_synonym 'a parser = "nat \<Rightarrow> token list \<Rightarrow> 'a parsed"

record parsers =
  p_statements :: "js_expr list parser"
  p_statement :: "js_expr parser"
  p_expression :: "js_expr parser"
  p_assignment :: "js_expr parser"
  p_unary :: "js_expr parser"

section \<open>Looking at tokens, and loops\<close>

definition peek :: "string \<Rightarrow> token list \<Rightarrow> bool" where
  "peek t ts \<longleftrightarrow> ts \<noteq> [] \<and> hd ts = lit t"

definition expect :: "string \<Rightarrow> string \<Rightarrow> token list \<Rightarrow> js_error + token list" where
  "expect t m ts = (if peek t ts then Inr (tl ts) else Inl (Msg m))"

definition skip_tokens :: "string \<Rightarrow> token list \<Rightarrow> token list" where
  "skip_tokens t ts = dropWhile (\<lambda>u. u = lit t) ts"

text \<open>Messages that end in a quote.\<close>

definition expected_close :: string where
  "expected_close = ''Expected ')'' @ [CHR 0x27]"
definition expected_brace :: string where
  "expected_brace = ''Expected '}'' @ [CHR 0x27]"
definition expected_member :: string where
  "expected_member = ''Expected property name after '.'' @ [CHR 0x27]"
definition expected_optional_member :: string where
  "expected_optional_member = ''Expected property name after '?.'' @ [CHR 0x27]"

text \<open>A loop: a turn fails, breaks (\<open>None\<close>) or continues with new values and a shorter rest.\<close>

function turns :: "('a \<Rightarrow> token list \<Rightarrow> js_error + ('a \<times> token list) option) \<Rightarrow> 'a \<Rightarrow> token list \<Rightarrow> 'a parsed" where
  "turns f a ts =
     (case f a ts of
        Inl e \<Rightarrow> Inl e
      | Inr None \<Rightarrow> Inr (a, ts)
      | Inr (Some (b, r)) \<Rightarrow> if length r < length ts then turns f b r else Inl Unfinished)"
  by pat_completeness auto
termination by (relation "measure (\<lambda>(f, a, ts). length ts)") auto

declare turns.simps [simp del]

definition continue_with :: "'a \<Rightarrow> token list \<Rightarrow> js_error + ('a \<times> token list) option" where
  "continue_with a r = Inr (Some (a, r))"

definition stop_loop :: "js_error + ('a \<times> token list) option" where
  "stop_loop = Inr None"

section \<open>Primary expressions\<close>

text \<open>The parameters of a \<^verbatim>\<open>function\<close>: every token up to the closing parenthesis that is no comma.\<close>

definition param_turn :: "ustr list \<Rightarrow> token list \<Rightarrow> js_error + (ustr list \<times> token list) option" where
  "param_turn ps ts =
     (if ts = [] \<or> peek '')'' ts then stop_loop
      else continue_with (if peek '','' ts then ps else ps @ [hd ts]) (skip_tokens '','' (tl ts)))"

definition is_quoted :: "token \<Rightarrow> bool" where
  "is_quoted t \<longleftrightarrow> t \<noteq> [] \<and> hd t = DQUOTE \<and> last t = DQUOTE"

text \<open>
  \<^verbatim>\<open>tok[1..tok.len() - 1]\<close>; a token of the tokenizer that starts with a quote has two of them, so the
  slice is in range.
\<close>

definition unquote :: "token \<Rightarrow> ustr" where
  "unquote t = butlast (tl t)"

definition import_expression :: "parsers \<Rightarrow> js_expr parser" where
  "import_expression R d ts =
     ebind (expect ''('' ''Expected '(' after import'' ts) (\<lambda>r.
     ebind (p_expression R (d + 1) r) (\<lambda>(specifier, r2).
       case specifier of
         EString s \<Rightarrow>
           ebind (expect '')'' ''Expected ')' after import specifier'' r2) (\<lambda>r3. Inr (EDynamicImport s, r3))
       | _ \<Rightarrow> Inl (Msg ''Dynamic import requires a string literal'')))"

definition function_expression :: "char_tables \<Rightarrow> parsers \<Rightarrow> js_expr parser" where
  "function_expression U R d ts =
     (let ts2 = (if ts \<noteq> [] \<and> is_identifier U (hd ts) then tl ts else ts)
      in ebind (expect ''('' ''Expected '(' after function'' ts2) (\<lambda>r.
         ebind (turns param_turn [] r) (\<lambda>(ps, r2).
         ebind (expect '')'' ''Expected ')' after parameters'' r2) (\<lambda>r3.
         ebind (expect ''{'' ''Expected '{' for function body'' r3) (\<lambda>r4.
         ebind (p_statements R (d + 1) r4) (\<lambda>(body, r5).
         ebind (expect ''}'' ''Expected '}' to close function body'' r5) (\<lambda>r6.
           Inr (EFunctionExpr (map Plain ps) (EBlock body) False, r6))))))))"

text \<open>A template literal after its opening backquote. \<^verbatim>\<open>current.len() >= 2\<close> counts bytes.\<close>

definition template_turn :: "parsers \<Rightarrow> nat \<Rightarrow> (ustr + js_expr) list \<Rightarrow> token list \<Rightarrow>
    js_error + ((ustr + js_expr) list \<times> token list) option" where
  "template_turn R d parts ts =
     (case ts of
        [] \<Rightarrow> Inl (Msg ''Unterminated template literal'')
      | t # r \<Rightarrow>
          if is_quoted t \<and> byte_len t \<ge> 2 then continue_with (parts @ [Inl (unquote t)]) r
          else if t = lit ''`${''
          then ebind (p_expression R (d + 1) r) (\<lambda>(e, r2).
               ebind (expect ''`}'' ''Expected '}' to close template expression'' r2) (\<lambda>r3.
                 continue_with (parts @ [Inr e]) r3))
          else if t = lit ''`END'' then stop_loop
          else Inl (MsgToken ''Unexpected token in template literal: '' t))"

definition template_expression :: "parsers \<Rightarrow> js_expr parser" where
  "template_expression R d ts =
     ebind (turns (template_turn R d) [] ts) (\<lambda>(parts, r).
       Inr (ETemplate (if parts = [] then [Inl []] else parts), tl r))"

definition parenthesised :: "parsers \<Rightarrow> js_expr parser" where
  "parenthesised R d ts =
     ebind (p_expression R (d + 1) ts) (\<lambda>(e, r).
     ebind (expect '')'' expected_close r) (\<lambda>r2. Inr (e, r2)))"

definition array_turn :: "parsers \<Rightarrow> nat \<Rightarrow> js_expr list \<Rightarrow> token list \<Rightarrow> js_error + (js_expr list \<times> token list) option" where
  "array_turn R d values ts =
     (if ts = [] \<or> peek '']'' ts then stop_loop
      else ebind (p_expression R (d + 1) ts) (\<lambda>(v, r).
        if peek '','' r then continue_with (values @ [v]) (tl r)
        else if r \<noteq> [] \<and> \<not> peek '']'' r then Inl (Msg ''Expected ',' or ']' in array literal'')
        else continue_with (values @ [v]) r))"

definition array_literal :: "parsers \<Rightarrow> js_expr parser" where
  "array_literal R d ts =
     ebind (turns (array_turn R d) [] ts) (\<lambda>(values, r).
     ebind (expect '']'' ''Expected ']' after array literal'' r) (\<lambda>r2. Inr (EArrayLiteral values, r2)))"

definition property_name :: "char_tables \<Rightarrow> token \<Rightarrow> js_error + ustr" where
  "property_name U t =
     (if is_quoted t then Inr (unquote t)
      else if is_identifier U t \<or> parse_f64_text t \<noteq> None then Inr t
      else Inl (Msg ''Invalid object property name''))"

definition object_turn :: "char_tables \<Rightarrow> parsers \<Rightarrow> nat \<Rightarrow> (ustr \<times> js_expr) list \<Rightarrow> token list \<Rightarrow>
    js_error + ((ustr \<times> js_expr) list \<times> token list) option" where
  "object_turn U R d properties ts =
     (if ts = [] \<or> peek ''}'' ts then stop_loop
      else ebind (property_name U (hd ts)) (\<lambda>name.
           ebind (expect '':'' ''Expected ':' after object property name'' (tl ts)) (\<lambda>r.
           ebind (p_expression R (d + 1) r) (\<lambda>(v, r2).
             if peek '','' r2 then continue_with (properties @ [(name, v)]) (tl r2)
             else if r2 \<noteq> [] \<and> \<not> peek ''}'' r2 then Inl (Msg ''Expected ',' or '}' in object literal'')
             else continue_with (properties @ [(name, v)]) r2))))"

definition object_literal :: "char_tables \<Rightarrow> parsers \<Rightarrow> js_expr parser" where
  "object_literal U R d ts =
     ebind (turns (object_turn U R d) [] ts) (\<lambda>(properties, r).
     ebind (expect ''}'' ''Expected '}' after object literal'' r) (\<lambda>r2. Inr (EObjectLiteral properties, r2)))"

text \<open>A token that is an expression by itself. A text that Rust reads as a number comes first.\<close>

definition literal :: "char_tables \<Rightarrow> token \<Rightarrow> js_error + js_expr" where
  "literal U t =
     (case parse_f64_text t of
        Some n \<Rightarrow> Inr (ENumber n)
      | None \<Rightarrow>
          if is_quoted t then Inr (EString (unquote t))
          else if t = lit ''true'' then Inr (EBool True)
          else if t = lit ''false'' then Inr (EBool False)
          else if t = lit ''null'' then Inr ENull
          else if t = lit ''undefined'' then Inr EUndefined
          else if is_identifier U t then Inr (EIdentifier t)
          else Inl (MsgToken ''Unexpected token: '' t))"

definition parse_primary :: "char_tables \<Rightarrow> parsers \<Rightarrow> js_expr parser" where
  "parse_primary U R d ts =
     (case ts of
        [] \<Rightarrow> Inl (Msg ''Unexpected end of expression'')
      | t # r \<Rightarrow>
          if t = lit ''import'' then import_expression R d r
          else if t = lit ''function'' then function_expression U R d r
          else if t = lit ''`'' then template_expression R d r
          else if t = lit ''`}'' then Inl (Msg ''Unexpected template expression boundary'')
          else if t = lit ''('' then parenthesised R d r
          else if t = lit ''['' then array_literal R d r
          else if t = lit ''{'' then object_literal U R d r
          else ebind (literal U t) (\<lambda>e. Inr (e, r)))"

section \<open>Calls and members\<close>

text \<open>The arguments after an opening parenthesis; commas may be missing or repeated.\<close>

definition argument_turn :: "parsers \<Rightarrow> nat \<Rightarrow> js_expr list \<Rightarrow> token list \<Rightarrow> js_error + (js_expr list \<times> token list) option" where
  "argument_turn R d args ts =
     (if ts = [] \<or> peek '')'' ts then stop_loop
      else if peek '','' ts then continue_with args (skip_tokens '','' ts)
      else ebind (p_expression R (d + 1) ts) (\<lambda>(arg, r).
             continue_with (args @ [arg]) (skip_tokens '','' r)))"

definition arguments :: "parsers \<Rightarrow> js_expr list parser" where
  "arguments R d ts =
     ebind (turns (argument_turn R d) [] ts) (\<lambda>(args, r).
     ebind (expect '')'' expected_close r) (\<lambda>r2. Inr (args, r2)))"

definition member_name :: "char_tables \<Rightarrow> string \<Rightarrow> token list \<Rightarrow> ustr parsed" where
  "member_name U m ts =
     (if ts = [] \<or> \<not> is_identifier U (hd ts) then Inl (Msg m) else Inr (hd ts, tl ts))"

definition index_key :: "parsers \<Rightarrow> nat \<Rightarrow> string \<Rightarrow> token list \<Rightarrow> js_expr parsed" where
  "index_key R d m ts =
     ebind (p_expression R (d + 1) ts) (\<lambda>(key, r).
     ebind (expect '']'' m r) (\<lambda>r2. Inr (key, r2)))"

text \<open>
  One turn of the loop of \<^verbatim>\<open>parse_call\<close>. A member is the same expression whether or not a call follows
  and whatever \<^verbatim>\<open>expr_to_name\<close> yields.
\<close>

definition expr_to_name :: "js_expr \<Rightarrow> ustr option" where
  "expr_to_name e = (case e of EIdentifier name \<Rightarrow> Some name | _ \<Rightarrow> None)"

definition call_turn :: "char_tables \<Rightarrow> parsers \<Rightarrow> nat \<Rightarrow> js_expr \<Rightarrow> token list \<Rightarrow> js_error + (js_expr \<times> token list) option" where
  "call_turn U R d e ts =
     (if peek ''('' ts then
        ebind (arguments R d (tl ts)) (\<lambda>(args, r). continue_with (ECall e args) r)
      else if peek ''.'' ts then
        ebind (member_name U expected_member (tl ts)) (\<lambda>(prop, r).
          if peek ''('' r then continue_with (EMember e prop) r
          else case expr_to_name e of
              Some _ \<Rightarrow> continue_with (EMember e prop) r
            | None \<Rightarrow> continue_with (EMember e prop) r)
      else if peek ''?.'' ts then
        (let r = tl ts
         in if r = [] then Inl (Msg expected_optional_member)
            else if peek ''['' r then
              ebind (index_key R d ''Expected ']' after optional index'' (tl r)) (\<lambda>(key, r2).
                continue_with (EOptionalIndex e key) r2)
            else if is_identifier U (hd r) then continue_with (EOptionalMember e (hd r)) (tl r)
            else Inl (Msg expected_optional_member))
      else if peek ''['' ts then
        ebind (index_key R d ''Expected ']' after property index'' (tl ts)) (\<lambda>(key, r).
          continue_with (EIndex e key) r)
      else if peek ''++'' ts \<or> peek ''--'' ts then continue_with (EUpdate e False (peek ''++'' ts)) (tl ts)
      else stop_loop)"

definition new_turn :: "char_tables \<Rightarrow> parsers \<Rightarrow> nat \<Rightarrow> js_expr \<times> bool \<Rightarrow> token list \<Rightarrow>
    js_error + ((js_expr \<times> bool) \<times> token list) option" where
  "new_turn U R d s ts =
     (case s of (e, constructed) \<Rightarrow>
        if peek ''('' ts then
          ebind (arguments R d (tl ts)) (\<lambda>(args, r).
            continue_with (if constructed then ECall e args else ENewExpr e args, True) r)
        else if peek ''.'' ts then
          ebind (member_name U expected_member (tl ts)) (\<lambda>(prop, r).
            continue_with (EMember e prop, constructed) r)
        else if peek ''['' ts then
          ebind (index_key R d ''Expected ']' after property index'' (tl ts)) (\<lambda>(key, r).
            continue_with (EIndex e key, constructed) r)
        else stop_loop)"

definition parse_new_call :: "char_tables \<Rightarrow> parsers \<Rightarrow> js_expr parser" where
  "parse_new_call U R d ts =
     ebind (parse_primary U R (d + 1) (tl ts)) (\<lambda>(e, r).
     ebind (turns (new_turn U R d) (e, False) r) (\<lambda>((e2, constructed), r2).
       Inr (if constructed then e2 else ENewExpr e2 [], r2)))"

definition parse_call :: "char_tables \<Rightarrow> parsers \<Rightarrow> js_expr parser" where
  "parse_call U R d ts =
     (if ts = [] then Inl (Msg ''Unexpected end of expression'')
      else if peek ''new'' ts then parse_new_call U R d ts
      else ebind (parse_primary U R d ts) (\<lambda>(e, r). turns (call_turn U R d) e r))"

section \<open>Operators\<close>

definition parse_unary :: "char_tables \<Rightarrow> parsers \<Rightarrow> js_expr parser" where
  "parse_unary U R d ts =
     (let operand = (\<lambda>f. ebind (p_unary R (d + 1) (tl ts)) (\<lambda>(e, r). Inr (f e, r)))
      in if ts = [] then Inl (Msg ''Unexpected end of expression'')
         else if d > MAX_PARSE_DEPTH then Inl (Msg ''Expression nesting depth exceeded'')
         else if peek ''-'' ts then operand (EUnaryOp Sub)
         else if peek ''!'' ts then operand (EUnaryOp Not)
         else if peek ''await'' ts then operand EAwait
         else if peek ''typeof'' ts then operand (EUnaryOp Typeof)
         else if peek ''++'' ts then operand (\<lambda>e. EUpdate e True True)
         else if peek ''--'' ts then operand (\<lambda>e. EUpdate e True False)
         else parse_call U R d ts)"

text \<open>One turn of the loop of a left-associative operator level.\<close>

definition binary_turn :: "(string \<times> op_kind) list \<Rightarrow> (token list \<Rightarrow> js_expr parsed) \<Rightarrow> js_expr \<Rightarrow> token list \<Rightarrow>
    js_error + (js_expr \<times> token list) option" where
  "binary_turn ops p e ts =
     (case find (\<lambda>(t, op). peek t ts) ops of
        None \<Rightarrow> stop_loop
      | Some (t, op) \<Rightarrow> ebind (p (tl ts)) (\<lambda>(right, r). continue_with (EBinaryOp e op right) r))"

definition binary_level :: "(string \<times> op_kind) list \<Rightarrow> (token list \<Rightarrow> js_expr parsed) \<Rightarrow> token list \<Rightarrow> js_expr parsed" where
  "binary_level ops p ts = ebind (p ts) (\<lambda>(left, r). turns (binary_turn ops p) left r)"

definition factor_ops :: "(string \<times> op_kind) list" where
  "factor_ops = [(''*'', Mul), (''/'', Div), (''%'', Mod)]"
definition term_ops :: "(string \<times> op_kind) list" where
  "term_ops = [(''+'', Add), (''-'', Sub)]"
definition comparison_ops :: "(string \<times> op_kind) list" where
  "comparison_ops = [(''<'', Lt), (''>'', Gt), (''<='', Le), (''in'', In), (''>='', Ge)]"
definition equality_ops :: "(string \<times> op_kind) list" where
  "equality_ops = [(''==='', StrictEq), (''!=='', StrictNeq), (''=='', Eq), (''!='', Neq)]"

definition parse_factor :: "char_tables \<Rightarrow> parsers \<Rightarrow> js_expr parser" where
  "parse_factor U R d = binary_level factor_ops (parse_unary U R d)"

definition parse_term :: "char_tables \<Rightarrow> parsers \<Rightarrow> js_expr parser" where
  "parse_term U R d = binary_level term_ops (parse_factor U R d)"

definition parse_comparison :: "char_tables \<Rightarrow> parsers \<Rightarrow> js_expr parser" where
  "parse_comparison U R d ts =
     ebind (binary_level comparison_ops (parse_term U R d) ts) (\<lambda>(e, r).
       if peek ''instanceof'' r
       then ebind (parse_term U R d (tl r)) (\<lambda>(right, r2). Inr (EBinaryOp e Instanceof right, r2))
       else Inr (e, r))"

definition parse_equality :: "char_tables \<Rightarrow> parsers \<Rightarrow> js_expr parser" where
  "parse_equality U R d = binary_level equality_ops (parse_comparison U R d)"

definition parse_and :: "char_tables \<Rightarrow> parsers \<Rightarrow> js_expr parser" where
  "parse_and U R d = binary_level [(''&&'', And)] (parse_equality U R d)"

definition parse_nullish :: "char_tables \<Rightarrow> parsers \<Rightarrow> js_expr parser" where
  "parse_nullish U R d = binary_level [(''??'', Nullish)] (parse_and U R d)"

definition parse_or :: "char_tables \<Rightarrow> parsers \<Rightarrow> js_expr parser" where
  "parse_or U R d = binary_level [(''||'', Or)] (parse_nullish U R d)"

section \<open>Assignments and arrow functions\<close>

text \<open>
  \<^verbatim>\<open>parse_arrow_signature\<close>: the parameters, whether the function is asynchronous, and the tokens of the
  body. The parameter loop stops at the closing parenthesis.
\<close>

function arrow_params :: "char_tables \<Rightarrow> ustr list \<Rightarrow> token list \<Rightarrow> (ustr list \<times> token list) option" where
  "arrow_params U ps ts =
     (if ts = [] then None
      else if peek '')'' ts then Some (ps, tl ts)
      else if \<not> is_identifier U (hd ts) then None
      else if peek '','' (tl ts) then arrow_params U (ps @ [hd ts]) (tl (tl ts))
      else if peek '')'' (tl ts) then arrow_params U (ps @ [hd ts]) (tl ts)
      else None)"
  by pat_completeness auto
termination by (relation "measure (\<lambda>(U, ps, ts). length ts)") (auto simp: peek_def)

declare arrow_params.simps [simp del]

definition parse_arrow_signature :: "char_tables \<Rightarrow> token list \<Rightarrow> (param_binding list \<times> bool \<times> token list) option" where
  "parse_arrow_signature U ts =
     (let is_async = peek ''async'' ts; ts2 = (if is_async then tl ts else ts)
      in if ts2 = [] then None
         else if is_identifier U (hd ts2) \<and> peek ''=>'' (tl ts2)
         then Some ([Plain (hd ts2)], is_async, tl (tl ts2))
         else if \<not> peek ''('' ts2 then None
         else case arrow_params U [] (tl ts2) of
             None \<Rightarrow> None
           | Some (ps, r) \<Rightarrow> if peek ''=>'' r then Some (map Plain ps, is_async, tl r) else None)"

definition arrow_function :: "parsers \<Rightarrow> nat \<Rightarrow> param_binding list \<Rightarrow> bool \<Rightarrow> token list \<Rightarrow> js_expr parsed" where
  "arrow_function R d ps is_async r =
     ebind (if peek ''{'' r then p_statement R (d + 1) r
            else ebind (p_assignment R (d + 1) r) (\<lambda>(e, r2). Inr (EReturn e, r2))) (\<lambda>(body, r2).
       Inr (EFunctionExpr ps body is_async, r2))"

definition compound_ops :: "(string \<times> op_kind) list" where
  "compound_ops = [(''+='', Add), (''-='', Sub), (''*='', Mul), (''/='', Div), (''%='', Mod)]"

definition compound_assign :: "op_kind \<Rightarrow> js_expr \<Rightarrow> js_expr \<Rightarrow> js_error + js_expr" where
  "compound_assign op left right =
     (case left of
        EIdentifier name \<Rightarrow> Inr (EAssignment name (EBinaryOp (EIdentifier name) op right))
      | EMember obj prop \<Rightarrow> Inr (EMemberAssignment obj prop (EBinaryOp (EMember obj prop) op right))
      | EIndex obj key \<Rightarrow> Inr (EIndexAssignment obj key (EBinaryOp (EIndex obj key) op right))
      | _ \<Rightarrow> Inl (Msg ''Invalid compound assignment target''))"

definition simple_assign :: "js_expr \<Rightarrow> (js_error + (js_expr \<Rightarrow> js_expr))" where
  "simple_assign left =
     (case left of
        EIdentifier name \<Rightarrow> Inr (EAssignment name)
      | EMember obj prop \<Rightarrow> Inr (EMemberAssignment obj prop)
      | EIndex obj key \<Rightarrow> Inr (EIndexAssignment obj key)
      | _ \<Rightarrow> Inl (Msg ''Invalid assignment target''))"

definition assignment_rest :: "parsers \<Rightarrow> nat \<Rightarrow> js_expr \<Rightarrow> token list \<Rightarrow> js_expr parsed" where
  "assignment_rest R d left ts =
     (if peek ''?'' ts then
        ebind (p_assignment R (d + 1) (tl ts)) (\<lambda>(then_expr, r).
        ebind (expect '':'' ''Expected ':' in conditional expression'' r) (\<lambda>r2.
        ebind (p_assignment R (d + 1) r2) (\<lambda>(else_expr, r3).
          Inr (ETernary left then_expr else_expr, r3))))
      else case find (\<lambda>(t, op). peek t ts) compound_ops of
          Some (t, op) \<Rightarrow>
            ebind (p_assignment R (d + 1) (tl ts)) (\<lambda>(right, r).
            ebind (compound_assign op left right) (\<lambda>e. Inr (e, r)))
        | None \<Rightarrow>
            if peek ''='' ts then
              if peek ''='' (tl ts) then Inr (left, ts)
              else ebind (simple_assign left) (\<lambda>build.
                   ebind (p_assignment R (d + 1) (tl ts)) (\<lambda>(right, r). Inr (build right, r)))
            else Inr (left, ts))"

definition parse_assignment :: "char_tables \<Rightarrow> parsers \<Rightarrow> js_expr parser" where
  "parse_assignment U R d ts =
     (if d > MAX_PARSE_DEPTH then Inl (Msg ''Expression nesting depth exceeded'')
      else case parse_arrow_signature U ts of
          Some (ps, is_async, r) \<Rightarrow> arrow_function R d ps is_async r
        | None \<Rightarrow> ebind (parse_or U R d ts) (\<lambda>(left, r). assignment_rest R d left r))"

definition parse_expression :: "char_tables \<Rightarrow> parsers \<Rightarrow> js_expr parser" where
  "parse_expression U R d ts =
     (if d > MAX_PARSE_DEPTH then Inl (Msg ''Script too deeply nested'') else parse_assignment U R d ts)"

section \<open>Statements\<close>

definition as_block :: "js_expr \<Rightarrow> js_expr list" where
  "as_block e = (case e of EBlock ss \<Rightarrow> ss | _ \<Rightarrow> [e])"

text \<open>The body of a braced block, after the opening brace.\<close>

definition braced :: "parsers \<Rightarrow> nat \<Rightarrow> string \<Rightarrow> token list \<Rightarrow> js_expr list parsed" where
  "braced R d m ts =
     ebind (p_statements R (d + 1) ts) (\<lambda>(ss, r).
     ebind (expect ''}'' m r) (\<lambda>r2. Inr (ss, r2)))"

text \<open>A parenthesised condition, after the keyword.\<close>

definition condition :: "parsers \<Rightarrow> nat \<Rightarrow> string \<Rightarrow> string \<Rightarrow> token list \<Rightarrow> js_expr parsed" where
  "condition R d m_open m_close ts =
     ebind (expect ''('' m_open ts) (\<lambda>r.
     ebind (p_expression R (d + 1) r) (\<lambda>(cond, r2).
     ebind (expect '')'' m_close r2) (\<lambda>r3. Inr (cond, r3))))"

definition if_statement :: "parsers \<Rightarrow> js_expr parser" where
  "if_statement R d ts =
     ebind (condition R d ''Expected '(' after if'' ''Expected ')' after if condition'' ts) (\<lambda>(cond, r).
     ebind (p_statement R (d + 1) r) (\<lambda>(then_stmt, r2).
       if peek ''else'' r2
       then ebind (p_statement R (d + 1) (tl r2)) (\<lambda>(else_stmt, r3).
              Inr (EIf cond (as_block then_stmt) (Some (as_block else_stmt)), r3))
       else Inr (EIf cond (as_block then_stmt) None, r2)))"

definition while_statement :: "parsers \<Rightarrow> js_expr parser" where
  "while_statement R d ts =
     ebind (condition R d ''Expected '(' after while'' ''Expected ')' after while condition'' ts) (\<lambda>(cond, r).
     ebind (p_statement R (d + 1) r) (\<lambda>(body, r2). Inr (EWhile cond (as_block body), r2)))"

definition do_statement :: "parsers \<Rightarrow> js_expr parser" where
  "do_statement R d ts =
     ebind (p_statement R (d + 1) ts) (\<lambda>(body, r).
     ebind (expect ''while'' ''Expected while after do body'' r) (\<lambda>r2.
     ebind (condition R d ''Expected ( after while'' ''Expected ) after do-while condition'' r2) (\<lambda>(cond, r3).
       Inr (EDoWhile cond (as_block body), r3))))"

definition for_kind :: "token list \<Rightarrow> declaration_kind option" where
  "for_kind ts =
     (if peek ''const'' ts then Some Const else if peek ''var'' ts then Some Var
      else if peek ''let'' ts then Some Let else None)"

definition for_body :: "parsers \<Rightarrow> nat \<Rightarrow> string \<Rightarrow> (js_expr \<Rightarrow> js_expr list \<Rightarrow> js_expr) \<Rightarrow> token list \<Rightarrow> js_expr parsed" where
  "for_body R d m build ts =
     ebind (p_expression R (d + 1) ts) (\<lambda>(obj, r).
     ebind (expect '')'' m r) (\<lambda>r2.
     ebind (p_statement R (d + 1) r2) (\<lambda>(body, r3). Inr (build obj (as_block body), r3))))"

definition for_statement :: "char_tables \<Rightarrow> parsers \<Rightarrow> js_expr parser" where
  "for_statement U R d ts =
     ebind (expect ''('' ''Expected '(' after for'' ts) (\<lambda>r.
       case for_kind r of
         None \<Rightarrow> Inl (Msg ''Expected declaration in for...of header'')
       | Some kind \<Rightarrow>
           ebind (member_name U ''Expected iterator binding'' (tl r)) (\<lambda>(binding, r2).
             if peek ''of'' r2
             then for_body R d ''Expected ')' after for...of iterable'' (EForOf binding kind) (tl r2)
             else if peek ''in'' r2
             then for_body R d ''Expected ) after for-in object'' (EForIn binding kind) (tl r2)
             else Inl (Msg ''Expected of or in after for binding'')))"

text \<open>
  The \<^verbatim>\<open>switch\<close> loop: the finished cases, the default clause, the header being filled
  (\<open>Some None\<close> for \<^verbatim>\<open>default\<close>) and the statements read since.
\<close>

record switch_state =
  sw_cases :: "(js_expr option \<times> js_expr list) list"
  sw_default :: "js_expr list option"
  sw_header :: "js_expr option option"
  sw_body :: "js_expr list"

definition commit_case :: "switch_state \<Rightarrow> switch_state" where
  "commit_case s =
     (case sw_header s of
        None \<Rightarrow> s
      | Some (Some e) \<Rightarrow> s\<lparr>sw_cases := sw_cases s @ [(Some e, sw_body s)], sw_header := None, sw_body := []\<rparr>
      | Some None \<Rightarrow> s\<lparr>sw_default := Some (sw_body s), sw_header := None, sw_body := []\<rparr>)"

definition switch_turn :: "parsers \<Rightarrow> nat \<Rightarrow> switch_state \<Rightarrow> token list \<Rightarrow> js_error + (switch_state \<times> token list) option" where
  "switch_turn R d s ts =
     (if peek ''}'' ts then stop_loop
      else if peek ''case'' ts then
        ebind (p_expression R (d + 1) (tl ts)) (\<lambda>(e, r).
        ebind (expect '':'' ''Expected ':' after case value'' r) (\<lambda>r2.
          continue_with ((commit_case s)\<lparr>sw_header := Some (Some e)\<rparr>) r2))
      else if peek ''default'' ts then
        ebind (expect '':'' ''Expected ':' after default'' (tl ts)) (\<lambda>r.
          let s2 = commit_case s
          in if sw_default s2 \<noteq> None then Inl (Msg ''Duplicate default clause in switch'')
             else continue_with (s2\<lparr>sw_header := Some None\<rparr>) r)
      else ebind (p_statement R (d + 1) ts) (\<lambda>(stmt, r).
             continue_with (s\<lparr>sw_body := sw_body s @ [stmt]\<rparr>) (skip_tokens '';'' r)))"

definition switch_start :: switch_state where
  "switch_start = \<lparr>sw_cases = [], sw_default = None, sw_header = None, sw_body = []\<rparr>"

definition switch_statement :: "parsers \<Rightarrow> js_expr parser" where
  "switch_statement R d ts =
     ebind (condition R d ''Expected '(' after switch'' ''Expected ')' after switch discriminant'' ts) (\<lambda>(e, r).
     ebind (expect ''{'' ''Expected '{' after switch'' r) (\<lambda>r2.
     ebind (turns (switch_turn R d) switch_start r2) (\<lambda>(s, r3).
     ebind (expect ''}'' ''Expected '}' to close switch'' r3) (\<lambda>r4.
       let s2 = commit_case s in Inr (ESwitch e (sw_cases s2) (sw_default s2), r4)))))"

definition catch_clause :: "char_tables \<Rightarrow> parsers \<Rightarrow> (ustr option \<times> js_expr list) parser" where
  "catch_clause U R d ts =
     (if peek ''catch'' ts then
        ebind (if peek ''('' (tl ts) then
                 ebind (member_name U ''Expected catch binding'' (tl (tl ts))) (\<lambda>(binding, r).
                 ebind (expect '')'' ''Expected ')' after catch binding'' r) (\<lambda>r2. Inr (binding, r2)))
               else Inr (lit ''error'', tl ts)) (\<lambda>(binding, r).
        ebind (expect ''{'' ''Expected '{' before catch body'' r) (\<lambda>r2.
        ebind (braced R d ''Expected '}' after catch body'' r2) (\<lambda>(body, r3).
          Inr ((Some binding, body), r3))))
      else Inr ((None, []), ts))"

definition finally_clause :: "parsers \<Rightarrow> js_expr list parser" where
  "finally_clause R d ts =
     (if peek ''finally'' ts then
        ebind (expect ''{'' ''Expected '{' before finally body'' (tl ts)) (\<lambda>r.
          braced R d ''Expected '}' after finally body'' r)
      else Inr ([], ts))"

definition try_statement :: "char_tables \<Rightarrow> parsers \<Rightarrow> js_expr parser" where
  "try_statement U R d ts =
     ebind (expect ''{'' ''Expected '{' after try'' ts) (\<lambda>r.
     ebind (braced R d ''Expected '}' after try body'' r) (\<lambda>(try_body, r2).
     ebind (catch_clause U R d r2) (\<lambda>((binding, catch_body), r3).
     ebind (finally_clause R d r3) (\<lambda>(finally_body, r4).
       if binding = None \<and> finally_body = [] then Inl (Msg ''Try statement requires catch or finally'')
       else Inr (ETryCatchFinally try_body binding catch_body finally_body, r4)))))"

definition declaration_statement :: "char_tables \<Rightarrow> parsers \<Rightarrow> declaration_kind \<Rightarrow> token \<Rightarrow> js_expr parser" where
  "declaration_statement U R kind t d ts =
     (case ts of
        [] \<Rightarrow> Inl (MsgToken ''Expected variable name after '' t)
      | name # r \<Rightarrow>
          if \<not> is_identifier U name then Inl (MsgToken ''Invalid variable name: '' name)
          else if peek ''='' r
          then ebind (p_expression R (d + 1) (tl r)) (\<lambda>(e, r2). Inr (EVariableDeclaration name e kind, r2))
          else if kind = Const then Inl (Msg ''Missing initializer in const declaration'')
          else Inr (EVariableDeclaration name EUndefined kind, r))"

definition return_statement :: "parsers \<Rightarrow> js_expr parser" where
  "return_statement R d ts =
     (if ts \<noteq> [] \<and> \<not> peek '';'' ts \<and> \<not> peek ''}'' ts
      then ebind (p_expression R (d + 1) ts) (\<lambda>(e, r). Inr (EReturn e, r))
      else Inr (EReturn EUndefined, ts))"

definition jump_label :: "char_tables \<Rightarrow> token list \<Rightarrow> ustr option \<times> token list" where
  "jump_label U ts =
     (if ts \<noteq> [] \<and> is_identifier U (hd ts) \<and> \<not> peek '';'' ts then (Some (hd ts), tl ts) else (None, ts))"

definition throw_statement :: "parsers \<Rightarrow> js_expr parser" where
  "throw_statement R d ts =
     (if ts = [] \<or> peek '';'' ts then Inl (Msg ''Throw statement requires a value'')
      else ebind (p_expression R (d + 1) ts) (\<lambda>(e, r). Inr (EThrow e, r)))"

definition async_statement :: "parsers \<Rightarrow> js_expr parser" where
  "async_statement R d ts =
     (if peek ''function'' ts then
        ebind (p_statement R (d + 1) ts) (\<lambda>(f, r).
          case f of
            EFunctionDef name ps body \<Rightarrow> Inr (EAsyncFunctionDef name ps body, r)
          | _ \<Rightarrow> Inl (Msg ''Invalid async function declaration''))
      else Inl (Msg ''Only async function declarations are supported''))"

definition function_statement :: "parsers \<Rightarrow> js_expr parser" where
  "function_statement R d ts =
     (case ts of
        [] \<Rightarrow> Inl (Msg ''Expected function name'')
      | name # ts2 \<Rightarrow>
          ebind (expect ''('' ''Expected '(' after function name'' ts2) (\<lambda>r.
          ebind (turns param_turn [] r) (\<lambda>(ps, r2).
          ebind (expect '')'' ''Expected ')' after parameters'' r2) (\<lambda>r3.
          ebind (expect ''{'' ''Expected '{' for function body'' r3) (\<lambda>r4.
          ebind (braced R d ''Expected '}' to close function body'' r4) (\<lambda>(body, r5).
            Inr (EFunctionDef name (map Plain ps) (EBlock body), r5)))))))"

definition parse_statement :: "char_tables \<Rightarrow> parsers \<Rightarrow> js_expr parser" where
  "parse_statement U R d ts =
     (case ts of
        [] \<Rightarrow> Inl (Msg ''Unexpected end of input'')
      | t # r \<Rightarrow>
          if t = lit ''{'' then ebind (braced R d expected_brace r) (\<lambda>(ss, r2). Inr (EBlock ss, r2))
          else if t = lit ''if'' then if_statement R d r
          else if t = lit ''while'' then while_statement R d r
          else if t = lit ''do'' then do_statement R d r
          else if t = lit ''for'' then for_statement U R d r
          else if t = lit ''switch'' then switch_statement R d r
          else if t = lit ''try'' then try_statement U R d r
          else if t = lit ''var'' then declaration_statement U R Var t d r
          else if t = lit ''let'' then declaration_statement U R Let t d r
          else if t = lit ''const'' then declaration_statement U R Const t d r
          else if t = lit ''return'' then return_statement R d r
          else if t = lit ''break'' then (case jump_label U r of (l, r2) \<Rightarrow> Inr (EBreak l, r2))
          else if t = lit ''continue'' then (case jump_label U r of (l, r2) \<Rightarrow> Inr (EContinue l, r2))
          else if t = lit ''throw'' then throw_statement R d r
          else if t = lit ''async'' then async_statement R d r
          else if t = lit ''function'' then function_statement R d r
          else parse_expression U R (d + 1) ts)"

definition closes :: "token list \<Rightarrow> bool" where
  "closes ts \<longleftrightarrow> peek ''}'' ts \<or> peek '')'' ts \<or> peek '']'' ts"

definition statement_turn :: "char_tables \<Rightarrow> parsers \<Rightarrow> nat \<Rightarrow> js_expr list \<Rightarrow> token list \<Rightarrow>
    js_error + (js_expr list \<times> token list) option" where
  "statement_turn U R d stmts ts =
     (if ts = [] \<or> closes ts then stop_loop
      else if peek '';'' ts then continue_with stmts (tl ts)
      else ebind (parse_statement U R d ts) (\<lambda>(stmt, r).
             continue_with (stmts @ [stmt]) (skip_tokens '';'' r)))"

definition parse_statements :: "char_tables \<Rightarrow> parsers \<Rightarrow> js_expr list parser" where
  "parse_statements U R d ts =
     (if d > MAX_PARSE_DEPTH then Inl (Msg ''Script too deeply nested'')
      else turns (statement_turn U R d) [] ts)"

section \<open>Tying the knot\<close>

definition no_parsers :: parsers where
  "no_parsers = \<lparr>p_statements = \<lambda>d ts. Inl Unfinished, p_statement = \<lambda>d ts. Inl Unfinished,
     p_expression = \<lambda>d ts. Inl Unfinished, p_assignment = \<lambda>d ts. Inl Unfinished, p_unary = \<lambda>d ts. Inl Unfinished\<rparr>"

definition level :: "char_tables \<Rightarrow> parsers \<Rightarrow> parsers" where
  "level U R = \<lparr>p_statements = parse_statements U R, p_statement = parse_statement U R,
     p_expression = parse_expression U R, p_assignment = parse_assignment U R, p_unary = parse_unary U R\<rparr>"

lemma level_simps [simp]:
  "p_statements (level U R) = parse_statements U R" "p_statement (level U R) = parse_statement U R"
  "p_expression (level U R) = parse_expression U R" "p_assignment (level U R) = parse_assignment U R"
  "p_unary (level U R) = parse_unary U R"
  by (simp_all add: level_def)

fun js_parsers :: "char_tables \<Rightarrow> nat \<Rightarrow> parsers" where
  "js_parsers U 0 = no_parsers"
| "js_parsers U (Suc n) = level U (js_parsers U n)"

text \<open>
  The front half of \<^verbatim>\<open>eval_with_host_limit\<close>: tokens, the bracket depth check, and the statements. What
  follows a stray closing bracket is dropped, as in the code.
\<close>

definition parse_program :: "char_tables \<Rightarrow> token list \<Rightarrow> js_expr list parsed" where
  "parse_program U ts = p_statements (js_parsers U (length ts + 1)) 0 ts"

definition compile_script :: "char_tables \<Rightarrow> ustr \<Rightarrow> js_error + js_expr list" where
  "compile_script U code =
     ebind (tokenize U code) (\<lambda>ts.
       if ts = [] then Inr []
       else if max_parse_depth ts > MAX_PARSE_DEPTH then Inl (Msg ''Script too deeply nested'')
       else ebind (parse_program U ts) (\<lambda>(exprs, rest). Inr exprs))"

end
