(* ===== verification/Js_Parser_Laws.thy ===== *)
theory Js_Parser_Laws
  imports Js_Parser
begin

text \<open>
  The parser is total: with a fuel of one more than the number of tokens no loop turn and no recursive call is cut
  off, every success reads at least one token (a statement list none or more), and more fuel changes nothing.
  The proofs compare two runs: \<open>agree k m m'\<close> says that both yield the same, not \<open>Unfinished\<close>, and leave fewer
  than \<open>k\<close> tokens.
\<close>

section \<open>Results that agree\<close>

definition agree :: "nat \<Rightarrow> 'a parsed \<Rightarrow> 'a parsed \<Rightarrow> bool" where
  "agree k m m' \<longleftrightarrow> m' = m \<and> m \<noteq> Inl Unfinished \<and> (\<forall>v r. m = Inr (v, r) \<longrightarrow> length r < k)"

definition agree_turn :: "nat \<Rightarrow> js_error + ('a \<times> token list) option \<Rightarrow> js_error + ('a \<times> token list) option \<Rightarrow> bool" where
  "agree_turn k m m' \<longleftrightarrow> m' = m \<and> m \<noteq> Inl Unfinished \<and> (\<forall>v r. m = Inr (Some (v, r)) \<longrightarrow> length r < k)"

named_theorems agree_intros \<open>rules that decompose an agreement\<close>

lemma agree_Inl [agree_intros]: "e \<noteq> Unfinished \<Longrightarrow> agree k (Inl e) (Inl e)"
  by (simp add: agree_def)

lemma agree_Inr [agree_intros]: "length r < k \<Longrightarrow> agree k (Inr (v, r)) (Inr (v, r))"
  by (simp add: agree_def)

lemma agree_bind [agree_intros]:
  "agree j m m' \<Longrightarrow> (\<And>v r. m = Inr (v, r) \<Longrightarrow> length r < j \<Longrightarrow> agree k (f v r) (f' v r)) \<Longrightarrow>
   agree k (ebind m (case_prod f)) (ebind m' (case_prod f'))"
  by (cases m) (auto simp: agree_def)

lemma agree_turn_bind [agree_intros]:
  "agree j m m' \<Longrightarrow> (\<And>v r. m = Inr (v, r) \<Longrightarrow> length r < j \<Longrightarrow> agree_turn k (f v r) (f' v r)) \<Longrightarrow>
   agree_turn k (ebind m (case_prod f)) (ebind m' (case_prod f'))"
  by (cases m) (auto simp: agree_def agree_turn_def)

lemma agree_case_prod [agree_intros]:
  "(\<And>a b. v = (a, b) \<Longrightarrow> agree k (f a b r) (f' a b r)) \<Longrightarrow> agree k (case_prod f v r) (case_prod f' v r)"
  by (cases v) simp

lemma agree_value:
  "m \<noteq> Inl Unfinished \<Longrightarrow> (\<And>v. m = Inr v \<Longrightarrow> agree k (f v) (f' v)) \<Longrightarrow> agree k (ebind m f) (ebind m f')"
  by (cases m) (auto simp: agree_def)

lemma agree_if [agree_intros]:
  "(c \<Longrightarrow> agree k a a') \<Longrightarrow> (\<not> c \<Longrightarrow> agree k b b') \<Longrightarrow> agree k (if c then a else b) (if c then a' else b')"
  by simp

lemma agree_turn_if [agree_intros]:
  "(c \<Longrightarrow> agree_turn k a a') \<Longrightarrow> (\<not> c \<Longrightarrow> agree_turn k b b') \<Longrightarrow>
   agree_turn k (if c then a else b) (if c then a' else b')"
  by simp

lemma agree_turn_Inl [agree_intros]: "e \<noteq> Unfinished \<Longrightarrow> agree_turn k (Inl e) (Inl e)"
  by (simp add: agree_turn_def)

lemma agree_turn_stop [agree_intros]: "agree_turn k stop_loop stop_loop"
  by (simp add: agree_turn_def stop_loop_def)

lemma agree_turn_continue [agree_intros]: "length r < k \<Longrightarrow> agree_turn k (continue_with a r) (continue_with a r)"
  by (simp add: agree_turn_def continue_with_def)

lemma agree_mono: "agree j m m' \<Longrightarrow> j \<le> k \<Longrightarrow> agree k m m'"
  by (auto simp: agree_def)

lemma peek_length: "peek t ts \<Longrightarrow> length (tl ts) < length ts"
  by (cases ts) (simp_all add: peek_def)

lemma length_skip_tokens: "length (skip_tokens t ts) \<le> length ts"
  by (simp add: skip_tokens_def length_dropWhile_le)

lemma skip_tokens_shrinks: "peek t ts \<Longrightarrow> length (skip_tokens t ts) < length ts"
  by (cases ts) (auto simp: peek_def skip_tokens_def intro: le_imp_less_Suc length_dropWhile_le)

lemma expect_eq_Inr [result_simps]: "expect t m ts = Inr r \<longleftrightarrow> peek t ts \<and> r = tl ts"
  by (auto simp: expect_def)

lemma agree_expect [agree_intros]:
  "(\<And>r. length r < length ts \<Longrightarrow> agree k (f r) (f' r)) \<Longrightarrow> agree k (ebind (expect t m ts) f) (ebind (expect t m ts) f')"
  by (cases "peek t ts") (auto simp: expect_def agree_Inl dest: peek_length simp del: length_tl)

lemma agree_turn_expect [agree_intros]:
  "(\<And>r. length r < length ts \<Longrightarrow> agree_turn k (f r) (f' r)) \<Longrightarrow>
   agree_turn k (ebind (expect t m ts) f) (ebind (expect t m ts) f')"
  by (cases "peek t ts") (auto simp: expect_def agree_turn_Inl dest: peek_length simp del: length_tl)

lemma agree_turns:
  assumes "\<And>a s. length s \<le> length ts \<Longrightarrow> agree_turn (length s) (f a s) (g a s)"
  shows "agree (Suc (length ts)) (turns f a ts) (turns g a ts)"
  using assms
proof (induction "length ts" arbitrary: a ts rule: less_induct)
  case less
  have t: "agree_turn (length ts) (f a ts) (g a ts)" by (rule less.prems) simp
  show ?case
  proof (cases "f a ts")
    case (Inl e)
    with t show ?thesis by (simp add: turns.simps [of _ a ts] agree_turn_def agree_def)
  next
    case f: (Inr x)
    show ?thesis
    proof (cases x)
      case None
      with t f show ?thesis by (simp add: turns.simps [of _ a ts] agree_turn_def agree_def)
    next
      case (Some y)
      obtain b r where y: "y = (b, r)" by (cases y)
      from t f Some y have g: "g a ts = Inr (Some (b, r))" and l: "length r < length ts"
        by (simp_all add: agree_turn_def)
      have "agree (Suc (length r)) (turns f b r) (turns g b r)"
        by (rule less.hyps [OF l]) (use l in \<open>auto intro: less.prems\<close>)
      with f Some y g l show ?thesis
        by (simp add: turns.simps [of _ a ts] agree_mono)
    qed
  qed
qed

section \<open>Agreement of two levels of the recursion\<close>

text \<open>Two records of parsers agree on every rest of fewer than \<open>n\<close> tokens.\<close>

definition agree_parsers :: "nat \<Rightarrow> parsers \<Rightarrow> parsers \<Rightarrow> bool" where
  "agree_parsers n R R' \<longleftrightarrow> (\<forall>d ts. length ts < n \<longrightarrow>
     agree (Suc (length ts)) (p_statements R d ts) (p_statements R' d ts) \<and>
     agree (length ts) (p_statement R d ts) (p_statement R' d ts) \<and>
     agree (length ts) (p_expression R d ts) (p_expression R' d ts) \<and>
     agree (length ts) (p_assignment R d ts) (p_assignment R' d ts) \<and>
     agree (length ts) (p_unary R d ts) (p_unary R' d ts))"

lemma agree_parsersD:
  assumes "agree_parsers n R R'" and "length ts < n"
  shows "agree (Suc (length ts)) (p_statements R d ts) (p_statements R' d ts)"
    and "agree (length ts) (p_statement R d ts) (p_statement R' d ts)"
    and "agree (length ts) (p_expression R d ts) (p_expression R' d ts)"
    and "agree (length ts) (p_assignment R d ts) (p_assignment R' d ts)"
    and "agree (length ts) (p_unary R d ts) (p_unary R' d ts)"
  using assms by (simp_all add: agree_parsers_def)

lemma agree_case_list [agree_intros]:
  "(ts = [] \<Longrightarrow> agree k a a') \<Longrightarrow> (\<And>t r. ts = t # r \<Longrightarrow> agree k (f t r) (f' t r)) \<Longrightarrow>
   agree k (case ts of [] \<Rightarrow> a | t # r \<Rightarrow> f t r) (case ts of [] \<Rightarrow> a' | t # r \<Rightarrow> f' t r)"
  by (cases ts) simp_all

lemma agree_turn_case_list [agree_intros]:
  "(ts = [] \<Longrightarrow> agree_turn k a a') \<Longrightarrow> (\<And>t r. ts = t # r \<Longrightarrow> agree_turn k (f t r) (f' t r)) \<Longrightarrow>
   agree_turn k (case ts of [] \<Rightarrow> a | t # r \<Rightarrow> f t r) (case ts of [] \<Rightarrow> a' | t # r \<Rightarrow> f' t r)"
  by (cases ts) simp_all

lemma agree_case_option [agree_intros]:
  "(x = None \<Longrightarrow> agree k a a') \<Longrightarrow> (\<And>y. x = Some y \<Longrightarrow> agree k (f y) (f' y)) \<Longrightarrow>
   agree k (case x of None \<Rightarrow> a | Some y \<Rightarrow> f y) (case x of None \<Rightarrow> a' | Some y \<Rightarrow> f' y)"
  by (cases x) simp_all

lemma agree_turn_case_option [agree_intros]:
  "(x = None \<Longrightarrow> agree_turn k a a') \<Longrightarrow> (\<And>y. x = Some y \<Longrightarrow> agree_turn k (f y) (f' y)) \<Longrightarrow>
   agree_turn k (case x of None \<Rightarrow> a | Some y \<Rightarrow> f y) (case x of None \<Rightarrow> a' | Some y \<Rightarrow> f' y)"
  by (cases x) simp_all

lemma agree_case_pair [agree_intros]:
  "(\<And>a b. v = (a, b) \<Longrightarrow> agree k (f a b) (f' a b)) \<Longrightarrow> agree k (case_prod f v) (case_prod f' v)"
  by (cases v) simp

lemma agree_turn_case_pair [agree_intros]:
  "(\<And>a b. v = (a, b) \<Longrightarrow> agree_turn k (f a b) (f' a b)) \<Longrightarrow> agree_turn k (case_prod f v) (case_prod f' v)"
  by (cases v) simp

lemma agree_turn_value:
  "m \<noteq> Inl Unfinished \<Longrightarrow> (\<And>v. m = Inr v \<Longrightarrow> agree_turn k (f v) (f' v)) \<Longrightarrow> agree_turn k (ebind m f) (ebind m f')"
  by (cases m) (auto simp: agree_turn_def)

lemma agree_turns_bind:
  assumes "\<And>a s. length s \<le> length ts \<Longrightarrow> agree_turn (length s) (f a s) (g a s)"
    and "\<And>v r. length r \<le> length ts \<Longrightarrow> agree k (h v r) (h' v r)"
  shows "agree k (ebind (turns f a ts) (case_prod h)) (ebind (turns g a ts) (case_prod h'))"
  by (rule agree_bind [OF agree_turns]) (use assms in auto)

lemmas agree_rules = agree_expect agree_turn_expect agree_turns_bind agree_intros

text \<open>Side conditions about lengths, with the tail kept as a list.\<close>

lemmas length_rules = le_less_trans [OF length_skip_tokens] skip_tokens_shrinks peek_length

lemma import_agree:
  assumes "agree_parsers n R R'" and "length ts < n"
  shows "agree (Suc (length ts)) (import_expression R d ts) (import_expression R' d ts)"
proof -
  have "agree k (case e of EString s \<Rightarrow> f s | _ \<Rightarrow> g) (case e of EString s \<Rightarrow> f s | _ \<Rightarrow> g)"
    if "\<And>s. agree k (f s) (f s)" "agree k g g" for k e g and f :: "ustr \<Rightarrow> js_expr parsed"
    using that by (cases e) simp_all
  note string_case = this
  show ?thesis unfolding import_expression_def
    by (rule string_case agree_rules agree_parsersD [OF assms(1)] | (use assms(2) in simp; fail))+
qed

lemma param_turn_agree: "agree_turn (length ts) (param_turn ps ts) (param_turn ps ts)"
  by (cases ts) (auto simp: param_turn_def agree_turn_def stop_loop_def continue_with_def peek_def less_Suc_eq_le
      length_skip_tokens)

lemma function_expression_agree:
  assumes "agree_parsers n R R'" and "length ts < n"
  shows "agree (Suc (length ts)) (function_expression U R d ts) (function_expression U R' d ts)"
  unfolding function_expression_def Let_def
  by (rule agree_rules agree_parsersD [OF assms(1)] param_turn_agree | (use assms(2) in \<open>simp split: if_splits\<close>; fail))+

lemma template_agree:
  assumes "agree_parsers n R R'" and "length ts < n"
  shows "agree (Suc (length ts)) (template_expression R d ts) (template_expression R' d ts)"
proof -
  have "agree_turn (length s) (template_turn R d parts s) (template_turn R' d parts s)" if "length s \<le> length ts" for parts s
    unfolding template_turn_def
    by (rule agree_rules agree_parsersD [OF assms(1)] | (use assms(2) that in simp; fail))+
  note turn = this
  show ?thesis unfolding template_expression_def
    by (rule agree_rules turn | (use assms(2) in simp; fail))+
qed

lemma parenthesised_agree:
  assumes "agree_parsers n R R'" and "length ts < n"
  shows "agree (Suc (length ts)) (parenthesised R d ts) (parenthesised R' d ts)"
  unfolding parenthesised_def
  by (rule agree_rules agree_parsersD [OF assms(1)] | (use assms(2) in simp; fail))+

lemma array_agree:
  assumes "agree_parsers n R R'" and "length ts < n"
  shows "agree (Suc (length ts)) (array_literal R d ts) (array_literal R' d ts)"
proof -
  have "agree_turn (length s) (array_turn R d vs s) (array_turn R' d vs s)" if "length s \<le> length ts" for vs s
    unfolding array_turn_def
    by (rule agree_rules agree_parsersD [OF assms(1)] | (use assms(2) that in \<open>simp; fail\<close>) | (simp add: peek_def; fail))+
  note turn = this
  show ?thesis unfolding array_literal_def
    by (rule agree_rules turn | (use assms(2) in simp; fail))+
qed

lemma property_name_ends: "property_name U t \<noteq> Inl Unfinished"
  by (simp add: property_name_def)

lemma object_agree:
  assumes "agree_parsers n R R'" and "length ts < n"
  shows "agree (Suc (length ts)) (object_literal U R d ts) (object_literal U R' d ts)"
proof -
  have "agree_turn (length s) (object_turn U R d ps s) (object_turn U R' d ps s)" if "length s \<le> length ts" for ps s
    unfolding object_turn_def
    by (rule agree_rules agree_turn_value [OF property_name_ends] agree_parsersD [OF assms(1)]
      | (use assms(2) that in \<open>simp; fail\<close>) | (use that in \<open>simp add: peek_def; linarith\<close>))+
  note turn = this
  show ?thesis unfolding object_literal_def
    by (rule agree_rules turn | (use assms(2) in simp; fail))+
qed

lemma literal_ends: "literal U t \<noteq> Inl Unfinished"
  by (simp add: literal_def split: option.split)

text \<open>Agreement of the primary expressions on a rest of at most \<open>n\<close> tokens.\<close>

lemma primary_agree:
  assumes "agree_parsers n R R'" and "length ts \<le> n"
  shows "agree (length ts) (parse_primary U R d ts) (parse_primary U R' d ts)"
proof (cases ts)
  case Nil
  then show ?thesis by (simp add: parse_primary_def agree_def)
next
  case (Cons t r)
  then have r: "length r < n" "length ts = Suc (length r)" using assms(2) by simp_all
  show ?thesis unfolding parse_primary_def Cons list.case using r(2) Cons
    by (auto intro!: agree_if import_agree [OF assms(1) r(1)] function_expression_agree [OF assms(1) r(1)]
        template_agree [OF assms(1) r(1)] parenthesised_agree [OF assms(1) r(1)] array_agree [OF assms(1) r(1)]
        object_agree [OF assms(1) r(1)] agree_value [OF literal_ends] agree_Inl agree_Inr)
qed

section \<open>Calls, operators and assignments\<close>

lemma arguments_agree:
  assumes "agree_parsers n R R'" and "length ts < n"
  shows "agree (Suc (length ts)) (arguments R d ts) (arguments R' d ts)"
proof -
  have "agree_turn (length s) (argument_turn R d args s) (argument_turn R' d args s)" if "length s \<le> length ts" for args s
    unfolding argument_turn_def
    by (rule agree_rules agree_parsersD [OF assms(1)] length_rules | (use assms(2) that in \<open>simp; fail\<close>))+
  note turn = this
  show ?thesis unfolding arguments_def
    by (rule agree_rules turn | (use assms(2) in simp; fail))+
qed

lemma index_key_agree:
  assumes "agree_parsers n R R'" and "length ts < n"
  shows "agree (length ts) (index_key R d m ts) (index_key R' d m ts)"
  unfolding index_key_def
  by (rule agree_rules agree_parsersD [OF assms(1)] | (use assms(2) in simp; fail))+

lemma member_name_agree: "agree (length ts) (member_name U m ts) (member_name U m ts)"
  by (cases ts) (auto simp: member_name_def agree_def)

lemma call_turn_agree:
  assumes "agree_parsers n R R'" and "length ts \<le> n"
  shows "agree_turn (length ts) (call_turn U R d e ts) (call_turn U R' d e ts)"
  unfolding call_turn_def Let_def
  by (rule agree_rules arguments_agree [OF assms(1)] index_key_agree [OF assms(1)] member_name_agree
    | (use assms(2) in \<open>simp add: peek_def; fail\<close>) | (use assms(2) in \<open>cases ts; simp add: peek_def; linarith\<close>))+

lemma new_turn_agree:
  assumes "agree_parsers n R R'" and "length ts \<le> n"
  shows "agree_turn (length ts) (new_turn U R d s ts) (new_turn U R' d s ts)"
  unfolding new_turn_def Let_def
  by (rule agree_rules arguments_agree [OF assms(1)] index_key_agree [OF assms(1)] member_name_agree
    | (use assms(2) in \<open>simp add: peek_def; fail\<close>) | (use assms(2) in \<open>cases ts; simp add: peek_def; linarith\<close>))+

lemma new_call_agree:
  assumes "agree_parsers n R R'" and "length ts \<le> n" and "ts \<noteq> []"
  shows "agree (length ts) (parse_new_call U R d ts) (parse_new_call U R' d ts)"
  unfolding parse_new_call_def
  by (rule agree_rules primary_agree [OF assms(1)] new_turn_agree [OF assms(1)]
    | (use assms(2,3) in \<open>simp; fail\<close>) | (use assms(2,3) in \<open>simp; linarith\<close>))+

lemma call_agree:
  assumes "agree_parsers n R R'" and "length ts \<le> n"
  shows "agree (length ts) (parse_call U R d ts) (parse_call U R' d ts)"
proof -
  have "agree (length ts) (turns (call_turn U R d) e r) (turns (call_turn U R' d) e r)" if "length r < length ts" for e r
  proof (rule agree_mono)
    show "agree (Suc (length r)) (turns (call_turn U R d) e r) (turns (call_turn U R' d) e r)"
      by (rule agree_turns) (use call_turn_agree [OF assms(1)] that assms(2) in simp)
  qed (use that in simp)
  note call_turns = this
  show ?thesis unfolding parse_call_def
    by (rule agree_rules new_call_agree [OF assms(1)] primary_agree [OF assms(1)] call_turns
      | (use assms(2) in \<open>simp; fail\<close>))+
qed

lemma unary_agree:
  assumes "agree_parsers n R R'" and "length ts \<le> n"
  shows "agree (length ts) (parse_unary U R d ts) (parse_unary U R' d ts)"
  unfolding parse_unary_def Let_def
  by (rule agree_rules agree_parsersD [OF assms(1)] call_agree [OF assms(1)]
    | (use assms(2) in \<open>simp; fail\<close>) | (use assms(2) in \<open>cases ts; simp; linarith\<close>))+

lemma binary_level_agree:
  assumes "\<And>s. length s \<le> length ts \<Longrightarrow> agree (length s) (p s) (p' s)"
  shows "agree (length ts) (binary_level ops p ts) (binary_level ops p' ts)"
proof -
  have "agree_turn (length s) (binary_turn ops p e s) (binary_turn ops p' e s)" if "length s < length ts" for e s
  proof (cases "find (\<lambda>(t, op). peek t s) ops")
    case None
    then show ?thesis by (simp add: binary_turn_def agree_turn_stop)
  next
    case (Some x)
    obtain t op where x: "x = (t, op)" by (cases x)
    from Some x have "peek t s" by (auto simp: find_Some_iff)
    then have l: "length (tl s) < length s" by (rule peek_length)
    have "agree (length (tl s)) (p (tl s)) (p' (tl s))" by (rule assms) (use l that in linarith)
    then show ?thesis unfolding binary_turn_def Some x option.case prod.case
      by (rule agree_turn_bind) (rule agree_turn_continue, use l in linarith)
  qed
  note turn = this
  have rest: "agree (length ts) (turns (binary_turn ops p) e r) (turns (binary_turn ops p') e r)" if "length r < length ts" for e r
  proof (rule agree_mono)
    show "agree (Suc (length r)) (turns (binary_turn ops p) e r) (turns (binary_turn ops p') e r)"
      by (rule agree_turns) (use turn that in simp)
  qed (use that in simp)
  show ?thesis unfolding binary_level_def
    by (rule agree_bind [OF assms [OF order_refl]]) (rule rest)
qed

lemma comparison_agree:
  assumes "agree_parsers n R R'" and "length ts \<le> n"
  shows "agree (length ts) (parse_comparison U R d ts) (parse_comparison U R' d ts)"
proof -
  have term_level: "agree (length s) (parse_term U R d s) (parse_term U R' d s)" if "length s \<le> n" for s
    unfolding parse_term_def parse_factor_def
    by (intro binary_level_agree unary_agree [OF assms(1)]) (use that in simp_all)
  show ?thesis unfolding parse_comparison_def
    by (rule agree_rules binary_level_agree term_level | (use assms(2) in \<open>simp; fail\<close>) | (use assms(2) in \<open>simp; linarith\<close>))+
qed

lemma or_agree:
  assumes "agree_parsers n R R'" and "length ts \<le> n"
  shows "agree (length ts) (parse_or U R d ts) (parse_or U R' d ts)"
  unfolding parse_or_def parse_nullish_def parse_and_def parse_equality_def
  by (intro binary_level_agree comparison_agree [OF assms(1)]) (use assms(2) in simp_all)

lemma compound_assign_ends: "compound_assign op left right \<noteq> Inl Unfinished"
  by (simp add: compound_assign_def split: js_expr.split)

lemma simple_assign_ends: "simple_assign left \<noteq> Inl Unfinished"
  by (simp add: simple_assign_def split: js_expr.split)

lemma assignment_rest_agree:
  assumes "agree_parsers n R R'" and "length ts < n"
  shows "agree (Suc (length ts)) (assignment_rest R d left ts) (assignment_rest R' d left ts)"
  unfolding assignment_rest_def
  by (rule agree_rules agree_value [OF compound_assign_ends] agree_value [OF simple_assign_ends] agree_parsersD [OF assms(1)]
    | (use assms(2) in \<open>simp; fail\<close>) | (use assms(2) in \<open>simp; linarith\<close>))+

lemma arrow_params_length: "arrow_params U ps ts = Some (qs, r) \<Longrightarrow> length r < length ts"
proof (induction "length ts" arbitrary: ps ts rule: less_induct)
  case less
  then obtain t s where ts: "ts = t # s" by (cases ts) (auto simp: arrow_params.simps [of U ps "[]"])
  show ?case
  proof (cases "t = lit '')''")
    case True
    then show ?thesis using less.prems unfolding ts by (subst (asm) arrow_params.simps) (simp add: peek_def)
  next
    case False
    then have "is_identifier U t \<and> (peek '','' s \<and> arrow_params U (ps @ [t]) (tl s) = Some (qs, r)
        \<or> arrow_params U (ps @ [t]) s = Some (qs, r))"
      using less.prems unfolding ts by (subst (asm) arrow_params.simps) (simp add: peek_def split: if_splits)
    then show ?thesis
    proof (elim conjE disjE)
      assume c: "peek '','' s" and "arrow_params U (ps @ [t]) (tl s) = Some (qs, r)"
      moreover from c ts have "length (tl s) < length ts" by (cases s) simp_all
      ultimately have "length r < length (tl s)" by (intro less.hyps)
      with ts show ?thesis by simp
    next
      assume "arrow_params U (ps @ [t]) s = Some (qs, r)"
      with ts have "length r < length s" by (intro less.hyps) simp_all
      with ts show ?thesis by simp
    qed
  qed
qed

lemma arrow_signature_length: "parse_arrow_signature U ts = Some (ps, b, r) \<Longrightarrow> length r < length ts"
  by (cases ts; cases "tl ts")
     (auto simp: parse_arrow_signature_def Let_def peek_def split: if_splits option.splits dest!: arrow_params_length)

lemma arrow_function_agree:
  assumes "agree_parsers n R R'" and "length ts < n"
  shows "agree (Suc (length ts)) (arrow_function R d ps b ts) (arrow_function R' d ps b ts)"
  unfolding arrow_function_def
  by (rule agree_bind [where j = "length ts"] agree_rules agree_parsersD [OF assms(1)] | (use assms(2) in \<open>simp; fail\<close>))+

lemma assignment_agree:
  assumes "agree_parsers n R R'" and "length ts \<le> n"
  shows "agree (length ts) (parse_assignment U R d ts) (parse_assignment U R' d ts)"
proof (cases "parse_arrow_signature U ts")
  case None
  have r: "agree (length ts) (assignment_rest R d e r) (assignment_rest R' d e r)" if "length r < length ts" for e r
    by (rule agree_mono [OF assignment_rest_agree [OF assms(1)]]) (use that assms(2) in simp_all)
  show ?thesis unfolding parse_assignment_def None option.case
    by (rule agree_if) (auto intro: agree_Inl agree_bind [OF or_agree [OF assms]] r)
next
  case (Some x)
  obtain ps b r where x: "x = (ps, b, r)" by (cases x)
  from Some x have l: "length r < length ts" by (simp add: arrow_signature_length)
  have "agree (length ts) (arrow_function R d ps b r) (arrow_function R' d ps b r)"
    by (rule agree_mono [OF arrow_function_agree [OF assms(1)]]) (use l assms(2) in simp_all)
  then show ?thesis unfolding parse_assignment_def Some option.case x prod.case
    by (auto intro: agree_if agree_Inl)
qed

lemma expression_agree:
  assumes "agree_parsers n R R'" and "length ts \<le> n"
  shows "agree (length ts) (parse_expression U R d ts) (parse_expression U R' d ts)"
  unfolding parse_expression_def by (rule agree_if) (auto intro: agree_Inl assignment_agree [OF assms])

section \<open>Statements\<close>

lemma braced_agree:
  assumes "agree_parsers n R R'" and "length ts < n"
  shows "agree (length ts) (braced R d m ts) (braced R' d m ts)"
  unfolding braced_def
  by (rule agree_rules agree_parsersD [OF assms(1)] | (use assms(2) in \<open>simp; fail\<close>))+

lemma condition_agree:
  assumes "agree_parsers n R R'" and "length ts < n"
  shows "agree (length ts) (condition R d m1 m2 ts) (condition R' d m1 m2 ts)"
  unfolding condition_def
  by (rule agree_rules agree_parsersD [OF assms(1)] | (use assms(2) in \<open>simp; fail\<close>))+

lemma for_body_agree:
  assumes "agree_parsers n R R'" and "length ts < n"
  shows "agree (Suc (length ts)) (for_body R d m f ts) (for_body R' d m f ts)"
  unfolding for_body_def
  by (rule agree_rules agree_parsersD [OF assms(1)] | (use assms(2) in \<open>simp; fail\<close>))+

text \<open>The statement forms, on the tokens after the keyword.\<close>

lemma control_agree:
  assumes "agree_parsers n R R'" and "length ts < n"
  shows "agree (Suc (length ts)) (if_statement R d ts) (if_statement R' d ts)"
    and "agree (Suc (length ts)) (while_statement R d ts) (while_statement R' d ts)"
    and "agree (Suc (length ts)) (do_statement R d ts) (do_statement R' d ts)"
    and "agree (Suc (length ts)) (for_statement U R d ts) (for_statement U R' d ts)"
proof -
  have f: "agree (Suc (length ts)) (for_body R d m g s) (for_body R' d m g s)" if "length s < length ts" for m g s
    by (rule agree_mono [OF for_body_agree [OF assms(1)]]) (use that assms(2) in simp_all)
  show "agree (Suc (length ts)) (if_statement R d ts) (if_statement R' d ts)"
    unfolding if_statement_def
    by (rule agree_rules condition_agree [OF assms(1)] agree_parsersD [OF assms(1)]
      | (use assms(2) in \<open>simp; fail\<close>) | (use assms(2) in \<open>simp; linarith\<close>))+
  show "agree (Suc (length ts)) (while_statement R d ts) (while_statement R' d ts)"
    unfolding while_statement_def
    by (rule agree_rules condition_agree [OF assms(1)] agree_parsersD [OF assms(1)] | (use assms(2) in \<open>simp; fail\<close>))+
  show "agree (Suc (length ts)) (do_statement R d ts) (do_statement R' d ts)"
    unfolding do_statement_def
    by (rule agree_rules condition_agree [OF assms(1)] agree_parsersD [OF assms(1)] | (use assms(2) in \<open>simp; fail\<close>))+
  show "agree (Suc (length ts)) (for_statement U R d ts) (for_statement U R' d ts)"
    unfolding for_statement_def
    by (rule agree_rules member_name_agree f | (use assms(2) in \<open>simp; fail\<close>) | (use assms(2) in \<open>simp; linarith\<close>))+
qed

lemma switch_agree:
  assumes "agree_parsers n R R'" and "length ts < n"
  shows "agree (Suc (length ts)) (switch_statement R d ts) (switch_statement R' d ts)"
proof -
  have "agree_turn (length u) (switch_turn R d s u) (switch_turn R' d s u)" if "length u < length ts" for s u
    unfolding switch_turn_def Let_def
    by (rule agree_rules agree_parsersD [OF assms(1)] length_rules | (use assms(2) that in \<open>simp; fail\<close>)
      | (use assms(2) that in \<open>simp add: peek_def; linarith\<close>))+
  note turn = this
  show ?thesis unfolding switch_statement_def Let_def
    by (rule agree_rules condition_agree [OF assms(1)] turn | (use assms(2) in \<open>simp; fail\<close>))+
qed

lemma try_agree:
  assumes "agree_parsers n R R'" and "length ts < n"
  shows "agree (Suc (length ts)) (try_statement U R d ts) (try_statement U R' d ts)"
proof -
  have c: "agree (Suc (length s)) (catch_clause U R d s) (catch_clause U R' d s)" if "length s < length ts" for s
    unfolding catch_clause_def
    by (rule agree_bind [where j = "length s"] agree_rules member_name_agree braced_agree [OF assms(1)]
      | (use assms(2) that in \<open>simp; fail\<close>) | (use assms(2) that in \<open>cases s; simp add: peek_def; linarith\<close>))+
  have f: "agree (Suc (length s)) (finally_clause R d s) (finally_clause R' d s)" if "length s < length ts" for s
    unfolding finally_clause_def
    by (rule agree_rules agree_mono [OF braced_agree [OF assms(1)]]
      | (use assms(2) that in \<open>simp; fail\<close>) | (use assms(2) that in \<open>simp; linarith\<close>))+
  show ?thesis unfolding try_statement_def
    by (rule agree_rules braced_agree [OF assms(1)] c f | (use assms(2) in \<open>simp; fail\<close>))+
qed

lemma simple_statement_agree:
  assumes "agree_parsers n R R'" and "length ts < n"
  shows "agree (Suc (length ts)) (declaration_statement U R k t d ts) (declaration_statement U R' k t d ts)"
    and "agree (Suc (length ts)) (return_statement R d ts) (return_statement R' d ts)"
    and "agree (Suc (length ts)) (throw_statement R d ts) (throw_statement R' d ts)"
    and "agree (Suc (length ts)) (function_statement R d ts) (function_statement R' d ts)"
    and "agree (Suc (length ts)) (async_statement R d ts) (async_statement R' d ts)"
proof -
  show "agree (Suc (length ts)) (declaration_statement U R k t d ts) (declaration_statement U R' k t d ts)"
    unfolding declaration_statement_def
    by (rule agree_rules agree_parsersD [OF assms(1)] | (use assms(2) in \<open>simp; fail\<close>) | (use assms(2) in \<open>simp; linarith\<close>))+
  show "agree (Suc (length ts)) (return_statement R d ts) (return_statement R' d ts)"
    unfolding return_statement_def
    by (rule agree_rules agree_parsersD [OF assms(1)] | (use assms(2) in \<open>simp; fail\<close>))+
  show "agree (Suc (length ts)) (throw_statement R d ts) (throw_statement R' d ts)"
    unfolding throw_statement_def
    by (rule agree_rules agree_parsersD [OF assms(1)] | (use assms(2) in \<open>simp; fail\<close>))+
  show "agree (Suc (length ts)) (function_statement R d ts) (function_statement R' d ts)"
    unfolding function_statement_def
    by (rule agree_rules braced_agree [OF assms(1)] param_turn_agree | (use assms(2) in \<open>simp; fail\<close>))+
  have "agree k (case e of EFunctionDef name ps body \<Rightarrow> f name ps body | _ \<Rightarrow> g)
      (case e of EFunctionDef name ps body \<Rightarrow> f name ps body | _ \<Rightarrow> g)"
    if "\<And>name ps body. agree k (f name ps body) (f name ps body)" "agree k g g"
    for k e g and f :: "ustr \<Rightarrow> param_binding list \<Rightarrow> js_expr \<Rightarrow> js_expr parsed"
    using that by (cases e) simp_all
  note function_case = this
  show "agree (Suc (length ts)) (async_statement R d ts) (async_statement R' d ts)"
    unfolding async_statement_def
    by (rule function_case agree_rules agree_parsersD [OF assms(1)] | (use assms(2) in \<open>simp; fail\<close>))+
qed

lemma jump_label_length: "length (snd (jump_label U ts)) \<le> length ts"
  by (simp add: jump_label_def)

lemma statement_agree:
  assumes "agree_parsers n R R'" and "length ts \<le> n"
  shows "agree (length ts) (parse_statement U R d ts) (parse_statement U R' d ts)"
proof (cases ts)
  case Nil
  then show ?thesis by (simp add: parse_statement_def agree_def)
next
  case (Cons t r)
  then have r: "length r < n" "length ts = Suc (length r)" using assms(2) by simp_all
  have jump: "agree (Suc (length r)) (case jump_label U r of (l, r2) \<Rightarrow> Inr (f l, r2)) (case jump_label U r of (l, r2) \<Rightarrow> Inr (f l, r2))"
    for f :: "ustr option \<Rightarrow> js_expr"
    using jump_label_length [of U r] by (cases "jump_label U r") (simp add: agree_def)
  have block: "agree (Suc (length r)) (ebind (braced R d m r) (\<lambda>(ss, r2). Inr (EBlock ss, r2)))
      (ebind (braced R' d m r) (\<lambda>(ss, r2). Inr (EBlock ss, r2)))" for m
    by (rule agree_bind [OF braced_agree [OF assms(1) r(1)]]) (simp add: agree_Inr)
  have expr: "agree (Suc (length r)) (parse_expression U R (d + 1) (t # r)) (parse_expression U R' (d + 1) (t # r))"
    using expression_agree [OF assms(1), of "t # r"] Cons assms(2) by simp
  show ?thesis unfolding parse_statement_def Cons list.case length_Cons
    by (intro agree_if block jump expr control_agree [OF assms(1) r(1)] switch_agree [OF assms(1) r(1)]
        try_agree [OF assms(1) r(1)] simple_statement_agree [OF assms(1) r(1)])
qed

lemma statements_agree:
  assumes "agree_parsers n R R'" and "length ts \<le> n"
  shows "agree (Suc (length ts)) (parse_statements U R d ts) (parse_statements U R' d ts)"
proof -
  have turn: "agree_turn (length s) (statement_turn U R d stmts s) (statement_turn U R' d stmts s)"
    if "length s \<le> length ts" for stmts s
    unfolding statement_turn_def
    by (rule agree_rules statement_agree [OF assms(1)] length_rules | (use assms(2) that in \<open>simp; fail\<close>))+
  show ?thesis unfolding parse_statements_def
    by (rule agree_rules agree_turns turn | (simp; fail))+
qed

section \<open>Enough fuel\<close>

lemma level_agree:
  assumes "agree_parsers n R R'"
  shows "agree_parsers (Suc n) (level U R) (level U R')"
  unfolding agree_parsers_def less_Suc_eq_le level_simps
  by (intro allI impI conjI statements_agree [OF assms] statement_agree [OF assms] expression_agree [OF assms]
      assignment_agree [OF assms] unary_agree [OF assms])

lemma js_parsers_agree: "n \<le> m \<Longrightarrow> agree_parsers n (js_parsers U n) (js_parsers U m)"
proof (induction n arbitrary: m)
  case 0
  then show ?case by (simp add: agree_parsers_def)
next
  case (Suc n)
  then obtain k where m: "m = Suc k" "n \<le> k" by (cases m) simp_all
  then show ?case by (simp add: level_agree Suc.IH)
qed

text \<open>A parse with enough fuel ends, reads no more than there is, and is the same with more fuel.\<close>

lemma parse_program_agrees:
  assumes "length ts < n"
  shows "p_statements (js_parsers U n) d ts = p_statements (js_parsers U (length ts + 1)) d ts"
    and "p_statements (js_parsers U n) d ts \<noteq> Inl Unfinished"
proof -
  have "agree_parsers (length ts + 1) (js_parsers U (length ts + 1)) (js_parsers U n)"
    by (rule js_parsers_agree) (use assms in simp)
  then have "agree (Suc (length ts)) (p_statements (js_parsers U (length ts + 1)) d ts) (p_statements (js_parsers U n) d ts)"
    by (rule agree_parsersD) simp
  then show "p_statements (js_parsers U n) d ts = p_statements (js_parsers U (length ts + 1)) d ts"
    and "p_statements (js_parsers U n) d ts \<noteq> Inl Unfinished" by (simp_all add: agree_def)
qed

end
