(* ===== verification/Js_Lexer_Laws.thy ===== *)
theory Js_Lexer_Laws
  imports Js_Lexer
begin

text \<open>
  The tokenizer ends on every source, within its token budget, and its tokens have the shape the parser
  relies on. A token sequence without template literals, written with one space after each token, is read back
  exactly.
\<close>

section \<open>Every turn reads\<close>

lemma text_run_shrinks: "\<not> text_stops s \<Longrightarrow> text_run s = (t, r) \<Longrightarrow> length r < length s"
proof -
  have le: "length (snd (text_run s)) \<le> length s" for s
    by (induction s) (auto split: prod.splits)
  assume "\<not> text_stops s" "text_run s = (t, r)"
  then show ?thesis using le [of "tl s"] by (cases s) (auto simp: text_stops_def split: prod.splits)
qed

lemma template_step_shrinks:
  assumes "s \<noteq> []" and "template_step s st = (st2, r)"
  shows "length r < length s"
proof (cases "text_stops s")
  case True
  with assms show ?thesis
    by (cases s) (auto simp: template_step_def text_stops_def split: if_splits)
next
  case False
  obtain t r2 where run: "text_run s = (t, r2)" by (cases "text_run s")
  from assms(1) obtain c u where s: "s = c # u" by (cases s) auto
  from assms(2) False run s have "r = r2"
    by (auto simp: template_step_def text_stops_def simp del: text_run.simps split: if_splits)
  with text_run_shrinks [OF False run] show ?thesis by simp
qed

lemma scan_string_length: "scan_string q s = Some (t, r) \<Longrightarrow> length r < length s"
  by (induction q s arbitrary: t rule: scan_string.induct) (auto split: if_splits)

lemma skip_block_comment_length: "length (skip_block_comment s) \<le> length s"
  by (induction s rule: skip_block_comment.induct) auto

lemma punctuation_step_shrinks: "punctuation_step c r st = (st2, r2) \<Longrightarrow> length r2 < length (c # r)"
  by (auto simp: punctuation_step_def split: if_splits
      intro!: le_less_trans [OF length_dropWhile_le] le_less_trans [OF skip_block_comment_length])

lemma dropWhile_shrinks: "s \<noteq> [] \<Longrightarrow> P (hd s) \<Longrightarrow> length (dropWhile P s) < length s"
  by (cases s) (auto intro: le_imp_less_Suc length_dropWhile_le)

lemma ident_start_char: "ident_start U c \<Longrightarrow> ident_char U c"
  by (auto simp: ident_start_def ident_char_def is_alphabetic_def is_alphanumeric_def is_ascii_alphanumeric_def split: if_splits)

lemma code_step_shrinks: "s \<noteq> [] \<Longrightarrow> code_step U s st = Inr (st2, r) \<Longrightarrow> length r < length s"
  using dropWhile_shrinks [of s number_char] dropWhile_shrinks [of s "ident_char U"]
  by (cases s) (auto simp: code_step_def ident_start_char number_char_def split: if_splits option.splits
      dest!: scan_string_length punctuation_step_shrinks)

lemma lex_step_shrinks: "s \<noteq> [] \<Longrightarrow> lex_step U s st = Inr (st2, r) \<Longrightarrow> length r < length s"
  by (auto simp: lex_step_def dest: code_step_shrinks template_step_shrinks split: if_splits)

lemma code_step_ends: "code_step U s st \<noteq> Inl Unfinished"
  by (auto simp: code_step_def split: list.splits option.splits if_splits)

lemma lex_step_ends: "lex_step U s st \<noteq> Inl Unfinished"
  by (simp add: lex_step_def code_step_ends)

lemma lex_loop_ends: "lex_loop U s st \<noteq> Inl Unfinished"
proof (induction U s st rule: lex_loop.induct)
  case (1 U s st)
  show ?case
  proof (cases "s = [] \<or> length (lx_tokens st) \<ge> MAX_TOKENS")
    case True
    then show ?thesis by (subst lex_loop.simps) auto
  next
    case False
    show ?thesis
    proof (cases "lex_step U s st")
      case (Inl e)
      with False lex_step_ends [of U s st] show ?thesis by (subst lex_loop.simps) auto
    next
      case (Inr x)
      obtain st2 r where x: "x = (st2, r)" by (cases x)
      with Inr False have l: "length r < length s" by (blast intro: lex_step_shrinks)
      have "lex_loop U r st2 \<noteq> Inl Unfinished" by (rule "1.IH") (use False Inr x l in auto)
      with False Inr x l show ?thesis by (subst lex_loop.simps) auto
    qed
  qed
qed

lemma tokenize_ends: "tokenize U code \<noteq> Inl Unfinished"
  by (auto simp: tokenize_def result_simps lex_loop_ends)

section \<open>The shape and the number of the tokens\<close>

text \<open>No token is empty, and one that starts with a quote is a quoted text.\<close>

definition token_shape :: "token \<Rightarrow> bool" where
  "token_shape t \<longleftrightarrow> t \<noteq> [] \<and> (hd t = DQUOTE \<longrightarrow> 2 \<le> length t \<and> last t = DQUOTE)"

definition adds_token :: "lex_state \<Rightarrow> lex_state \<Rightarrow> bool" where
  "adds_token st st2 \<longleftrightarrow> lx_tokens st2 = lx_tokens st \<or> (\<exists>t. token_shape t \<and> lx_tokens st2 = lx_tokens st @ [t])"

lemma adds_same [intro]: "lx_tokens st2 = lx_tokens st \<Longrightarrow> adds_token st st2"
  by (simp add: adds_token_def)

lemma adds_push [intro]: "token_shape t \<Longrightarrow> lx_tokens st2 = lx_tokens st @ [t] \<Longrightarrow> adds_token st st2"
  by (auto simp: adds_token_def)

lemma shape_quoted [simp]: "token_shape (quoted s)"
  by (simp add: token_shape_def quoted_def)

lemma shape_other: "t \<noteq> [] \<Longrightarrow> hd t \<noteq> DQUOTE \<Longrightarrow> token_shape t"
  by (simp add: token_shape_def)

lemma push_adds: "token_shape t \<Longrightarrow> adds_token st (push_token t st)"
  by (auto simp: push_token_def)

lemma adds_template: "adds_token st (st2\<lparr>lx_template := b\<rparr>) = adds_token st st2"
  by (simp add: adds_token_def)

lemma track_bracket_adds: "c \<noteq> DQUOTE \<Longrightarrow> adds_token st (track_bracket [c] st)"
  by (auto simp: track_bracket_def push_token_def adds_token_def shape_other BACKQUOTE_def DQUOTE_def lit_def)

lemma template_step_adds: "template_step s st = (st2, r) \<Longrightarrow> adds_token st st2"
  by (cases s) (auto simp: template_step_def push_token_def adds_token_def shape_other BACKQUOTE_def DQUOTE_def
      simp del: text_run.simps split: if_splits prod.splits)

lemma ops_not_quoted: "t \<in> set three_char_ops \<union> set two_char_ops \<Longrightarrow> t \<noteq> [] \<and> hd t \<noteq> DQUOTE"
  by (auto simp: three_char_ops_def two_char_ops_def lit_def DQUOTE_def)

lemma punctuation_step_adds: "punctuation_step c r st = (st2, r2) \<Longrightarrow> c \<noteq> DQUOTE \<Longrightarrow> adds_token st st2"
  using ops_not_quoted [of "take 3 (c # r)"] ops_not_quoted [of "take 2 (c # r)"]
  by (auto simp: punctuation_step_def push_token_def adds_token_def shape_other
      dest: track_bracket_adds [of c st, unfolded adds_token_def] split: if_splits)

lemma code_step_adds:
  assumes "code_step U s st = Inr (st2, r)" and "s \<noteq> []"
  shows "adds_token st st2"
proof -
  obtain c u where s: "s = c # u" using assms(2) by (cases s) auto
  have w: "token_shape (c # takeWhile P u)" if "c \<noteq> DQUOTE" for P
    using that by (simp add: shape_other)
  have "number_char c" "c \<noteq> DQUOTE" if "is_ascii_digit c \<or> c = of_char CHR ''.''"
    using that by (auto simp: number_char_def is_ascii_digit_def DQUOTE_def)
  moreover have "ident_char U c" "c \<noteq> DQUOTE" if "ident_start U c"
    using that by (auto simp: ident_start_char ident_start_def is_alphabetic_def is_ascii_alphabetic_def
        is_ascii_upper_def is_ascii_lower_def DQUOTE_def)
  moreover have "BACKQUOTE \<noteq> DQUOTE" by (simp add: js_chars)
  ultimately show ?thesis using assms(1) w [of number_char] w [of "ident_char U"]
    by (auto simp: code_step_def s push_adds adds_template shape_other simp del: of_char_of
        split: if_splits option.splits dest!: punctuation_step_adds)
qed

lemma lex_step_adds: "lex_step U s st = Inr (st2, r) \<Longrightarrow> s \<noteq> [] \<Longrightarrow> adds_token st st2"
  by (auto simp: lex_step_def dest: template_step_adds code_step_adds split: if_splits)

definition tokens_ok :: "nat \<Rightarrow> lex_state \<Rightarrow> bool" where
  "tokens_ok n st \<longleftrightarrow> length (lx_tokens st) \<le> n \<and> (\<forall>t\<in>set (lx_tokens st). token_shape t)"

lemma lex_loop_tokens:
  "lex_loop U s st = Inr st2 \<Longrightarrow> tokens_ok n st \<Longrightarrow> tokens_ok (n + length s) st2"
proof (induction U s st arbitrary: n rule: lex_loop.induct)
  case (1 U s st)
  show ?case
  proof (cases "s = []")
    case True
    with "1.prems" show ?thesis by (simp add: lex_loop.simps)
  next
    case False
    from "1.prems"(1) False obtain st3 r where step: "lex_step U s st = Inr (st3, r)" "length r < length s"
        "\<not> length (lx_tokens st) \<ge> MAX_TOKENS" and rest: "lex_loop U r st3 = Inr st2"
      by (subst (asm) lex_loop.simps) (auto split: if_splits sum.splits prod.splits)
    have "tokens_ok (n + 1) st3"
      using lex_step_adds [OF step(1) False] "1.prems"(2) by (auto simp: adds_token_def tokens_ok_def)
    with rest have "tokens_ok (n + 1 + length r) st2" by (intro "1.IH") (use False step in auto)
    with step(2) show ?thesis by (simp add: tokens_ok_def)
  qed
qed

lemma tokenize_shape:
  assumes "tokenize U code = Inr ts"
  shows "length ts \<le> MAX_TOKENS" and "length ts \<le> length code" and "\<forall>t\<in>set ts. token_shape t"
proof -
  from assms obtain st where st: "lex_loop U code lex_start = Inr st" "ts = lx_tokens st" "length ts \<le> MAX_TOKENS"
    by (auto simp: tokenize_def result_simps split: if_splits)
  have "tokens_ok (0 + length code) st"
    by (rule lex_loop_tokens [OF st(1)]) (simp add: tokens_ok_def lex_start_def)
  with st show "length ts \<le> MAX_TOKENS" "length ts \<le> length code" "\<forall>t\<in>set ts. token_shape t"
    by (simp_all add: tokens_ok_def)
qed

section \<open>Tokens written with spaces are read back\<close>

fun escape_string :: "ustr \<Rightarrow> ustr" where
  "escape_string [] = []"
| "escape_string (c # s) = (if c = BACKSLASH \<or> c = DQUOTE then [BACKSLASH, c] else [c]) @ escape_string s"

definition token_text :: "token \<Rightarrow> ustr" where
  "token_text t =
     (if hd t = DQUOTE then DQUOTE # escape_string (butlast (tl t)) @ [DQUOTE] else t)"

definition source_text :: "token list \<Rightarrow> ustr" where
  "source_text ts = concat (map (\<lambda>t. token_text t @ [32]) ts)"

text \<open>Words, numbers, operators, brackets and string literals; not the parts of template literals.\<close>

definition number_text :: "token \<Rightarrow> bool" where
  "number_text t \<longleftrightarrow> t \<noteq> [] \<and> (is_ascii_digit (hd t) \<or> hd t = of_char CHR ''.'' \<and> tl t \<noteq> [] \<and> is_ascii_digit (hd (tl t)))
     \<and> list_all number_char t"

definition plain_token :: "char_tables \<Rightarrow> token \<Rightarrow> bool" where
  "plain_token U t \<longleftrightarrow> is_identifier U t \<or> number_text t \<or> (\<exists>s. t = quoted s)
     \<or> t \<in> set three_char_ops \<union> set two_char_ops \<union> (\<lambda>c. [c]) ` set single_chars"

text \<open>What is asked of Unicode's tables: a blank is no letter and no digit.\<close>

definition tables_ok :: "char_tables \<Rightarrow> bool" where
  "tables_ok U \<longleftrightarrow> (\<forall>c. is_whitespace c \<longrightarrow> \<not> ct_alphabetic U c \<and> \<not> ct_numeric U c)"

lemma scan_string_escaped: "scan_string DQUOTE (escape_string s @ DQUOTE # r) = Some (s, r)"
proof (induction s)
  case Nil
  show ?case by (cases r) simp_all
next
  case (Cons c s)
  obtain d u where du: "escape_string s @ DQUOTE # r = d # u" by (cases "escape_string s @ DQUOTE # r") auto
  have e: "string_escape BACKSLASH = [BACKSLASH]" "string_escape DQUOTE = [DQUOTE]" "BACKSLASH \<noteq> DQUOTE"
    by (simp_all add: string_escape_def js_chars)
  show ?case
  proof (cases "c = BACKSLASH \<or> c = DQUOTE")
    case True
    then show ?thesis using Cons.IH e by auto
  next
    case False
    then show ?thesis using Cons.IH du by simp
  qed
qed

lemma escape_string_app: "token_text (quoted s) @ r = DQUOTE # escape_string s @ DQUOTE # r"
  by (simp add: token_text_def quoted_def)

lemma ascii_not_letter: "c < 128 \<Longrightarrow> \<not> is_ascii_alphanumeric c \<Longrightarrow> c \<noteq> 95 \<Longrightarrow> c \<noteq> 36 \<Longrightarrow> \<not> ident_char U c \<and> \<not> ident_start U c"
  by (simp add: ident_char_def ident_start_def is_alphanumeric_def is_alphabetic_def is_ascii_alphanumeric_def)

lemma ascii_blank: "is_whitespace c \<Longrightarrow> c < 128 \<Longrightarrow> c \<le> 32"
  by (auto simp: is_whitespace_def)

lemma ident_not_blank:
  assumes "tables_ok U" and "ident_start U c"
  shows "\<not> is_whitespace c \<and> \<not> is_ascii_digit c \<and> c \<noteq> 46"
proof (cases "c < 128")
  case True
  with assms(2) have "is_ascii_alphabetic c \<or> c = 95 \<or> c = 36" by (auto simp: ident_start_def is_alphabetic_def)
  then have c: "32 < c" "c \<noteq> 46" "\<not> is_ascii_digit c"
    by (auto simp: is_ascii_alphabetic_def is_ascii_upper_def is_ascii_lower_def is_ascii_digit_def)
  with ascii_blank [of c] True show ?thesis by linarith
next
  case False
  with assms show ?thesis by (auto simp: ident_start_def is_alphabetic_def tables_ok_def is_ascii_digit_def)
qed

lemma takeWhile_stop: "list_all P t \<Longrightarrow> \<not> P c \<Longrightarrow> takeWhile P (t @ c # r) = t \<and> dropWhile P (t @ c # r) = c # r"
  by (induction t) auto

lemma code_step_word:
  assumes "tables_ok U" and "is_identifier U t"
  shows "code_step U (t @ 32 # r) st = Inr (push_token t st, 32 # r)"
proof -
  obtain c u where t: "t = c # u" "ident_start U c" "list_all (ident_char U) t"
    using assms(2) by (cases t) (auto simp: is_identifier_def)
  have "\<not> ident_char U 32" using ascii_not_letter [of 32 U]
    by (simp add: is_ascii_alphanumeric_def is_ascii_alphabetic_def is_ascii_upper_def is_ascii_lower_def is_ascii_digit_def)
  then have "takeWhile (ident_char U) (t @ 32 # r) = t" "dropWhile (ident_char U) (t @ 32 # r) = 32 # r"
    using takeWhile_stop [OF t(3)] by auto
  moreover have "\<not> is_whitespace c" "\<not> is_ascii_digit c" "c \<noteq> 46" using ident_not_blank [OF assms(1) t(2)] by auto
  ultimately show ?thesis using t(1,2) by (simp add: code_step_def)
qed

lemma code_step_number:
  assumes "number_text t"
  shows "code_step U (t @ 32 # r) st = Inr (push_token t st, 32 # r)"
proof -
  obtain c u where t: "t = c # u" using assms by (cases t) (auto simp: number_text_def)
  have "\<not> number_char 32" by (simp add: number_char_def is_ascii_digit_def)
  then have "takeWhile number_char (t @ 32 # r) = t" "dropWhile number_char (t @ 32 # r) = 32 # r"
    using takeWhile_stop [of number_char t 32 r] assms by (auto simp: number_text_def)
  moreover have "is_ascii_digit c \<or> c = 46 \<and> u \<noteq> [] \<and> is_ascii_digit (hd u)" and "\<not> is_whitespace c"
    using assms t by (auto simp: number_text_def is_ascii_digit_def is_whitespace_def)
  ultimately show ?thesis using t by (cases u) (auto simp: code_step_def)
qed

lemma code_step_string:
  "code_step U (token_text (quoted s) @ 32 # r) st = Inr (push_token (quoted s) st, 32 # r)"
proof -
  have "\<not> ident_start U DQUOTE" using ascii_not_letter [of 34 U]
    by (simp add: DQUOTE_def is_ascii_alphanumeric_def is_ascii_alphabetic_def is_ascii_upper_def is_ascii_lower_def is_ascii_digit_def)
  moreover have "\<not> is_whitespace DQUOTE" "\<not> is_ascii_digit DQUOTE" "DQUOTE \<noteq> 46"
    by (simp_all add: DQUOTE_def is_whitespace_def is_ascii_digit_def)
  ultimately show ?thesis unfolding escape_string_app
    by (simp add: code_step_def scan_string_escaped)
qed

text \<open>Operators: no number, word, quote or blank starts with their first character.\<close>

definition op_chars :: ustr where
  "op_chars = single_chars @ lit ''&|''"

lemma op_chars_plain:
  "list_all (\<lambda>c. c < 128 \<and> \<not> is_ascii_alphanumeric c \<and> c \<noteq> 95 \<and> c \<noteq> 36 \<and> \<not> is_whitespace c \<and> \<not> is_ascii_digit c
      \<and> c \<noteq> DQUOTE \<and> c \<noteq> SQUOTE \<and> c \<noteq> BACKQUOTE) op_chars"
  by (simp add: op_chars_def single_chars_def lit_def is_ascii_alphanumeric_def is_ascii_alphabetic_def is_ascii_upper_def
      is_ascii_lower_def is_ascii_digit_def is_whitespace_def js_chars)

lemma code_step_punctuation:
  assumes "c \<in> set op_chars" and "c = 46 \<longrightarrow> r = [] \<or> \<not> is_ascii_digit (hd r)"
  shows "code_step U (c # r) st = Inr (punctuation_step c r st)"
proof -
  have c: "c < 128" "\<not> is_ascii_alphanumeric c" "c \<noteq> 95" "c \<noteq> 36" "\<not> is_whitespace c" "\<not> is_ascii_digit c"
      "c \<noteq> DQUOTE" "c \<noteq> SQUOTE" "c \<noteq> BACKQUOTE"
    using op_chars_plain assms(1) by (auto simp: list_all_iff)
  have "\<not> ident_start U c" using ascii_not_letter [of c U] c by blast
  with c assms(2) show ?thesis by (auto simp: code_step_def)
qed

lemma code_step_three:
  assumes "t \<in> set three_char_ops"
  shows "code_step U (t @ 32 # r) st = Inr (push_token t st, 32 # r)"
proof -
  have "list_all (\<lambda>t. hd t \<in> set op_chars \<and> length t = 3 \<and> hd t \<noteq> 46) three_char_ops"
    by (simp add: op_chars_def single_chars_def three_char_ops_def lit_def)
  with assms obtain c d e where t: "t = [c, d, e]" "c \<in> set op_chars" "c \<noteq> 46"
    by (auto simp: list_all_iff numeral_3_eq_3 length_Suc_conv)
  have "punctuation_step c (d # e # 32 # r) st = (push_token t st, 32 # r)"
    using assms t(1) by (simp add: punctuation_step_def numeral_3_eq_3)
  with code_step_punctuation [OF t(2), of "d # e # 32 # r" U st] t show ?thesis by simp
qed

lemma code_step_two:
  assumes "t \<in> set two_char_ops"
  shows "code_step U (t @ 32 # r) st = Inr (push_token t st, 32 # r)"
proof -
  have l: "list_all (\<lambda>t. hd t \<in> set op_chars \<and> length t = 2 \<and> hd t \<noteq> 46 \<and> t @ [32] \<notin> set three_char_ops) two_char_ops"
    by (simp add: op_chars_def single_chars_def three_char_ops_def two_char_ops_def lit_def)
  with assms obtain c d where t: "t = [c, d]" "c \<in> set op_chars" "c \<noteq> 46"
    by (auto simp: list_all_iff numeral_2_eq_2 length_Suc_conv)
  from l assms t(1) have "[c, d, 32] \<notin> set three_char_ops" by (auto simp: list_all_iff)
  then have "punctuation_step c (d # 32 # r) st = (push_token t st, 32 # r)"
    using assms t(1) by (simp add: punctuation_step_def numeral_3_eq_3 numeral_2_eq_2)
  with code_step_punctuation [OF t(2), of "d # 32 # r" U st] t show ?thesis by simp
qed

lemma code_step_single:
  assumes "c \<in> set single_chars" and "lx_template_depth st = 0"
  shows "code_step U (c # 32 # r) st = Inr (push_token [c] st, 32 # r)"
proof -
  have l: "list_all (\<lambda>t. t ! 1 \<noteq> 32) (three_char_ops @ two_char_ops)"
    by (simp add: three_char_ops_def two_char_ops_def lit_def)
  have no_op: "t \<notin> set (three_char_ops @ two_char_ops)" if "t ! 1 = 32" for t
    using l that unfolding list_all_iff by blast
  have three: "take 3 (c # 32 # r) \<notin> set three_char_ops"
    using no_op [of "take 3 (c # 32 # r)"] by (simp add: numeral_3_eq_3)
  have two: "take 2 (c # 32 # r) \<notin> set two_char_ops"
    using no_op [of "take 2 (c # 32 # r)"] by (simp add: numeral_2_eq_2)
  have "punctuation_step c (32 # r) st = (track_bracket [c] st, 32 # r)"
    using three two assms(1) by (simp add: punctuation_step_def del: take_Suc_Cons)
  moreover have "track_bracket [c] st = push_token [c] st" using assms(2) by (simp add: track_bracket_def)
  ultimately show ?thesis
    using code_step_punctuation [of c "32 # r" U st] assms(1) by (simp add: op_chars_def is_ascii_digit_def)
qed

lemma code_step_plain:
  assumes "tables_ok U" and "plain_token U t" and "lx_template_depth st = 0"
  shows "code_step U (token_text t @ 32 # r) st = Inr (push_token t st, 32 # r)"
proof -
  have raw: "token_text t = t" if "hd t \<noteq> DQUOTE" using that by (simp add: token_text_def)
  have ops: "list_all (\<lambda>t. hd t \<noteq> DQUOTE) (three_char_ops @ two_char_ops @ map (\<lambda>c. [c]) single_chars)"
    by (simp add: three_char_ops_def two_char_ops_def single_chars_def lit_def DQUOTE_def)
  have "hd t \<noteq> DQUOTE" if "is_identifier U t"
    using that ascii_not_letter [of 34 U]
    by (auto simp: is_identifier_def DQUOTE_def is_ascii_alphanumeric_def is_ascii_alphabetic_def is_ascii_upper_def
        is_ascii_lower_def is_ascii_digit_def)
  moreover have "hd t \<noteq> DQUOTE" if "number_text t"
    using that by (auto simp: number_text_def is_ascii_digit_def DQUOTE_def)
  moreover have "hd t \<noteq> DQUOTE" if "t \<in> set three_char_ops \<union> set two_char_ops \<union> (\<lambda>c. [c]) ` set single_chars"
    using that ops by (auto simp: list_all_iff)
  ultimately show ?thesis using assms raw code_step_string [of U _ r st] code_step_word [OF assms(1), of t r st]
      code_step_number [of t U r st] code_step_three [of t U r st] code_step_two [of t U r st] code_step_single [of _ st U r]
    by (auto simp: plain_token_def)
qed

lemma lex_loop_source:
  assumes "tables_ok U" and "\<forall>t\<in>set ts. plain_token U t"
    and "\<not> lx_template st" and "lx_template_depth st = 0" and "length (lx_tokens st) + length ts < MAX_TOKENS"
  shows "lex_loop U (source_text ts) st = Inr (st\<lparr>lx_tokens := lx_tokens st @ ts\<rparr>)"
  using assms(2-5)
proof (induction ts arbitrary: st)
  case Nil
  then show ?case by (simp add: source_text_def lex_loop.simps)
next
  case (Cons t ts)
  let ?s = "source_text ts"
  have src: "source_text (t # ts) = token_text t @ 32 # ?s" by (simp add: source_text_def)
  have step1: "lex_step U (token_text t @ 32 # ?s) st = Inr (push_token t st, 32 # ?s)"
    using code_step_plain [OF assms(1), of t st ?s] Cons.prems by (simp add: lex_step_def)
  have ne: "token_text t @ 32 # ?s \<noteq> []" by simp
  have l: "length (32 # ?s) < length (token_text t @ 32 # ?s)" by (rule lex_step_shrinks [OF ne step1])
  have step2: "lex_step U (32 # ?s) (push_token t st) = Inr (push_token t st, ?s)"
    using Cons.prems(2) by (simp add: lex_step_def push_token_def code_step_def is_whitespace_def)
  have "lex_loop U (source_text (t # ts)) st = lex_loop U (32 # ?s) (push_token t st)"
    unfolding src using Cons.prems(4) step1 l by (subst lex_loop.simps) simp
  also have "\<dots> = lex_loop U ?s (push_token t st)"
    using Cons.prems(4) step2 by (subst lex_loop.simps) (simp add: push_token_def)
  also have "\<dots> = Inr ((push_token t st)\<lparr>lx_tokens := lx_tokens (push_token t st) @ ts\<rparr>)"
    by (rule Cons.IH) (use Cons.prems in \<open>simp_all add: push_token_def\<close>)
  finally show ?case by (simp add: push_token_def)
qed

lemma tokenize_source:
  assumes "tables_ok U" and "\<forall>t\<in>set ts. plain_token U t"
    and "length ts < MAX_TOKENS" and "byte_len (source_text ts) \<le> MAX_SOURCE_BYTES"
  shows "tokenize U (source_text ts) = Inr ts"
  using lex_loop_source [OF assms(1,2), of lex_start] assms(3,4) by (simp add: tokenize_def lex_start_def)

end
