(* ===== verification/Js_Print.thy ===== *)
theory Js_Print
  imports Js_Parser
begin

text \<open>
  A printer of programs, the reference the parser is compared with: \<open>render\<close> writes an expression or a
  statement as tokens, with parentheses only where the precedence asks for them, \<open>printable\<close> says which trees
  are programs (statements where statements stand, names that are no reserved words, \<open>else\<close> branches and bodies
  as blocks), and \<open>height\<close> is their nesting. The text of a number is a parameter.
\<close>

datatype place = AtStatement | AtLevel nat

definition paren :: "token list \<Rightarrow> token list" where
  "paren t = lit ''('' # t @ [lit '')'']"

text \<open>
  Parentheses where an expression of level \<open>p\<close> does not fit, and at the start of a statement for what would be
  read as a block or an \<^verbatim>\<open>async\<close> declaration.
\<close>

definition fit :: "nat \<Rightarrow> token list \<Rightarrow> place \<Rightarrow> token list" where
  "fit p t a =
     (case a of
        AtStatement \<Rightarrow> if hd t = lit ''{'' \<or> hd t = lit ''async'' then paren t else t
      | AtLevel k \<Rightarrow> if p < k then paren t else t)"

fun commas :: "token list list \<Rightarrow> token list" where
  "commas [] = []"
| "commas [t] = t"
| "commas (t # u # ts) = t @ lit '','' # commas (u # ts)"

text \<open>
  Levels of precedence: 0 assignment, conditional, arrow function; 1 to 4 the operators from \<^verbatim>\<open>||\<close> to equality;
  5 \<^verbatim>\<open>instanceof\<close>, 6 comparison, 7 term, 8 factor; 9 prefix operators; 10 \<^verbatim>\<open>new\<close>; 11 calls and members;
  12 primary expressions.
\<close>

definition op_text :: "op_kind \<Rightarrow> string \<times> nat" where
  "op_text op =
     (case op of
        Or \<Rightarrow> (''||'', 1) | Nullish \<Rightarrow> (''??'', 2) | And \<Rightarrow> (''&&'', 3)
      | Eq \<Rightarrow> (''=='', 4) | Neq \<Rightarrow> (''!='', 4) | StrictEq \<Rightarrow> (''==='', 4) | StrictNeq \<Rightarrow> (''!=='', 4)
      | Instanceof \<Rightarrow> (''instanceof'', 5)
      | Lt \<Rightarrow> (''<'', 6) | Gt \<Rightarrow> (''>'', 6) | Le \<Rightarrow> (''<='', 6) | Ge \<Rightarrow> (''>='', 6) | In \<Rightarrow> (''in'', 6)
      | Add \<Rightarrow> (''+'', 7) | Sub \<Rightarrow> (''-'', 7) | Mul \<Rightarrow> (''*'', 8) | Div \<Rightarrow> (''/'', 8) | Mod \<Rightarrow> (''%'', 8)
      | Not \<Rightarrow> (''!'', 9) | Typeof \<Rightarrow> (''typeof'', 9) | Assign \<Rightarrow> (''='', 0))"

definition kind_text :: "declaration_kind \<Rightarrow> token" where
  "kind_text k = (case k of Var \<Rightarrow> lit ''var'' | Let \<Rightarrow> lit ''let'' | Const \<Rightarrow> lit ''const'')"

fun param_text :: "param_binding \<Rightarrow> token list" where
  "param_text (Plain x) = [x]"

definition params_text :: "param_binding list \<Rightarrow> token list" where
  "params_text ps = lit ''('' # commas (map param_text ps) @ [lit '')'']"

definition stmts_text :: "(place \<Rightarrow> token list) list \<Rightarrow> token list" where
  "stmts_text fs = concat (map (\<lambda>f. f AtStatement @ [lit '';'']) fs)"

definition block_text :: "(place \<Rightarrow> token list) list \<Rightarrow> token list" where
  "block_text fs = lit ''{'' # stmts_text fs @ [lit ''}'']"

definition args_text :: "(place \<Rightarrow> token list) list \<Rightarrow> token list" where
  "args_text fs = lit ''('' # commas (map (\<lambda>f. f (AtLevel 0)) fs) @ [lit '')'']"

definition template_part :: "ustr + (place \<Rightarrow> token list) \<Rightarrow> token list" where
  "template_part p = (case p of Inl s \<Rightarrow> [quoted s] | Inr f \<Rightarrow> lit ''`${'' # f (AtLevel 0) @ [lit ''`}''])"

definition case_part :: "(place \<Rightarrow> token list) option \<times> (place \<Rightarrow> token list) list \<Rightarrow> token list" where
  "case_part c =
     (case fst c of None \<Rightarrow> [] | Some f \<Rightarrow> lit ''case'' # f (AtLevel 0) @ [lit '':'']) @ stmts_text (snd c)"

primrec render :: "(f64 \<Rightarrow> ustr) \<Rightarrow> js_expr \<Rightarrow> place \<Rightarrow> token list" where
  "render N (ENumber n) = fit 12 [N n]"
| "render N (EString s) = fit 12 [quoted s]"
| "render N (EBool b) = fit 12 [if b then lit ''true'' else lit ''false'']"
| "render N ENull = fit 12 [lit ''null'']"
| "render N EUndefined = fit 12 [lit ''undefined'']"
| "render N (EObjectLiteral kvs) = fit 12 (lit ''{'' # commas (map (\<lambda>kv. [quoted (fst kv), lit '':''] @ snd kv (AtLevel 0))
     (map (map_prod id (render N)) kvs)) @ [lit ''}''])"
| "render N (EArrayLiteral es) = fit 12 (lit ''['' # commas (map (\<lambda>f. f (AtLevel 0)) (map (render N) es)) @ [lit '']''])"
| "render N (EIdentifier x) = fit 12 [x]"
| "render N (EAssignment x e) = fit 0 ([x, lit ''=''] @ render N e (AtLevel 0))"
| "render N (EVariableDeclaration x e k) = (\<lambda>a. [kind_text k, x, lit ''=''] @ render N e (AtLevel 0))"
| "render N (EMember b p) = fit 11 (render N b (AtLevel 11) @ [lit ''.'', p])"
| "render N (EMemberAssignment b p e) =
     fit 0 (render N b (AtLevel 11) @ [lit ''.'', p, lit ''=''] @ render N e (AtLevel 0))"
| "render N (EIndex b k) = fit 11 (render N b (AtLevel 11) @ [lit ''[''] @ render N k (AtLevel 0) @ [lit '']''])"
| "render N (EIndexAssignment b k e) =
     fit 0 (render N b (AtLevel 11) @ [lit ''[''] @ render N k (AtLevel 0) @ [lit '']'', lit ''=''] @ render N e (AtLevel 0))"
| "render N (EBinaryOp l op r) = fit (snd (op_text op))
     (render N l (AtLevel (if op = Instanceof then 6 else snd (op_text op))) @ [lit (fst (op_text op))] @
      render N r (AtLevel (if op = Instanceof then 7 else snd (op_text op) + 1)))"
| "render N (EUnaryOp op e) = fit 9 (lit (fst (op_text op)) # render N e (AtLevel 9))"
| "render N (EIf c ts es) = (\<lambda>a. [lit ''if'', lit ''(''] @ render N c (AtLevel 0) @ [lit '')''] @
     block_text (map (render N) ts) @
     (case map_option (map (render N)) es of None \<Rightarrow> [] | Some fs \<Rightarrow> lit ''else'' # block_text fs))"
| "render N (EWhile c b) =
     (\<lambda>a. [lit ''while'', lit ''(''] @ render N c (AtLevel 0) @ [lit '')''] @ block_text (map (render N) b))"
| "render N (EForIn x k e b) = (\<lambda>a. [lit ''for'', lit ''('', kind_text k, x, lit ''in''] @ render N e (AtLevel 0) @
     [lit '')''] @ block_text (map (render N) b))"
| "render N (EForOf x k e b) = (\<lambda>a. [lit ''for'', lit ''('', kind_text k, x, lit ''of''] @ render N e (AtLevel 0) @
     [lit '')''] @ block_text (map (render N) b))"
| "render N (EDoWhile c b) = (\<lambda>a. lit ''do'' # block_text (map (render N) b) @ [lit ''while'', lit ''(''] @
     render N c (AtLevel 0) @ [lit '')''])"
| "render N (EBlock ss) = (\<lambda>a. block_text (map (render N) ss))"
| "render N (ETryCatchFinally t x c f) = (\<lambda>a. lit ''try'' # block_text (map (render N) t) @
     (case x of None \<Rightarrow> [] | Some b \<Rightarrow> [lit ''catch'', lit ''('', b, lit '')''] @ block_text (map (render N) c)) @
     (if map (render N) f = [] then [] else lit ''finally'' # block_text (map (render N) f)))"
| "render N (ESwitch e cs dflt) = (\<lambda>a. [lit ''switch'', lit ''(''] @ render N e (AtLevel 0) @ [lit '')'', lit ''{''] @
     concat (map case_part (map (map_prod (map_option (render N)) (map (render N))) cs)) @
     (case map_option (map (render N)) dflt of None \<Rightarrow> [] | Some fs \<Rightarrow> [lit ''default'', lit '':''] @ stmts_text fs) @
     [lit ''}''])"
| "render N (ETernary c t e) = fit 0 (render N c (AtLevel 1) @ [lit ''?''] @ render N t (AtLevel 0) @ [lit '':''] @
     render N e (AtLevel 0))"
| "render N (ETemplate ps) = fit 12 (lit ''`'' # concat (map template_part (map (map_sum id (render N)) ps)) @ [lit ''`END''])"
| "render N (ECall f args) = fit 11 (render N f (AtLevel 11) @ args_text (map (render N) args))"
| "render N (EFunctionDef x ps b) = (\<lambda>a. [lit ''function'', x] @ params_text ps @ render N b AtStatement)"
| "render N (EAsyncFunctionDef x ps b) = (\<lambda>a. [lit ''async'', lit ''function'', x] @ params_text ps @ render N b AtStatement)"
| "render N (EFunctionExpr ps b is_async) = fit 0 ((if is_async then [lit ''async''] else []) @ params_text ps @ [lit ''=>''] @
     (case b of EReturn e \<Rightarrow> tl (render N b AtStatement) | _ \<Rightarrow> render N b AtStatement))"
| "render N (ENewExpr c args) = fit 10 (lit ''new'' # render N c (AtLevel 12) @ args_text (map (render N) args))"
| "render N (EOptionalMember b p) = fit 11 (render N b (AtLevel 11) @ [lit ''?.'', p])"
| "render N (EOptionalIndex b k) = fit 11 (render N b (AtLevel 11) @ [lit ''?.'', lit ''[''] @ render N k (AtLevel 0) @ [lit '']''])"
| "render N (EUpdate e pre inc) =
     (if pre then fit 9 ((if inc then lit ''++'' else lit ''--'') # render N e (AtLevel 9))
      else fit 11 (render N e (AtLevel 11) @ [if inc then lit ''++'' else lit ''--'']))"
| "render N (EDynamicImport s) = fit 12 [lit ''import'', lit ''('', quoted s, lit '')'']"
| "render N (EReturn e) = (\<lambda>a. lit ''return'' # render N e AtStatement)"
| "render N (EThrow e) = (\<lambda>a. lit ''throw'' # render N e (AtLevel 0))"
| "render N (EAwait e) = fit 9 (lit ''await'' # render N e (AtLevel 9))"
| "render N (EBreak l) = (\<lambda>a. lit ''break'' # (case l of None \<Rightarrow> [] | Some x \<Rightarrow> [x]))"
| "render N (EContinue l) = (\<lambda>a. lit ''continue'' # (case l of None \<Rightarrow> [] | Some x \<Rightarrow> [x]))"

section \<open>Which trees are programs\<close>

definition is_statement :: "js_expr \<Rightarrow> bool" where
  "is_statement e =
     (case e of
        EVariableDeclaration x v k \<Rightarrow> True | EIf c t f \<Rightarrow> True | EWhile c b \<Rightarrow> True | EForIn x k v b \<Rightarrow> True
      | EForOf x k v b \<Rightarrow> True | EDoWhile c b \<Rightarrow> True | EBlock ss \<Rightarrow> True | ETryCatchFinally t x c f \<Rightarrow> True
      | ESwitch v cs d \<Rightarrow> True | EFunctionDef x ps b \<Rightarrow> True | EAsyncFunctionDef x ps b \<Rightarrow> True
      | EReturn v \<Rightarrow> True | EThrow v \<Rightarrow> True | EBreak l \<Rightarrow> True | EContinue l \<Rightarrow> True | _ \<Rightarrow> False)"

definition is_block :: "js_expr \<Rightarrow> bool" where
  "is_block e = (case e of EBlock ss \<Rightarrow> True | _ \<Rightarrow> False)"

definition is_return :: "js_expr \<Rightarrow> bool" where
  "is_return e = (case e of EReturn v \<Rightarrow> True | _ \<Rightarrow> False)"

definition reserved :: "token list" where
  "reserved = map lit [''import'', ''function'', ''new'', ''await'', ''typeof'', ''true'', ''false'', ''null'', ''undefined'',
     ''async'', ''in'', ''instanceof'', ''if'', ''while'', ''do'', ''for'', ''switch'', ''try'', ''var'', ''let'', ''const'',
     ''return'', ''break'', ''continue'', ''throw'', ''case'', ''default'']"

text \<open>A variable: the parser reads a word that Rust takes for a number (\<^verbatim>\<open>nan\<close>, \<^verbatim>\<open>inf\<close>) as that number.\<close>

definition name_ok :: "char_tables \<Rightarrow> ustr \<Rightarrow> bool" where
  "name_ok U x \<longleftrightarrow> is_identifier U x \<and> x \<notin> set reserved \<and> parse_f64_text x = None"

definition number_ok :: "(f64 \<Rightarrow> ustr) \<Rightarrow> f64 \<Rightarrow> bool" where
  "number_ok N n \<longleftrightarrow> N n \<noteq> [] \<and> list_all number_char (N n) \<and> parse_f64_text (N n) = Some n \<and>
     (is_ascii_digit (hd (N n)) \<or> hd (N n) = of_char CHR ''.'' \<and> tl (N n) \<noteq> [] \<and> is_ascii_digit (hd (tl (N n))))"

fun param_ok :: "char_tables \<Rightarrow> param_binding \<Rightarrow> bool" where
  "param_ok U (Plain x) = is_identifier U x"

text \<open>The operand of each construct is an expression; what the parser wraps in a block is a list of statements.\<close>

definition all_exprs :: "js_expr list \<Rightarrow> bool list \<Rightarrow> bool" where
  "all_exprs es oks \<longleftrightarrow> list_all (\<lambda>e. \<not> is_statement e) es \<and> list_all id oks"

primrec printable :: "char_tables \<Rightarrow> (f64 \<Rightarrow> ustr) \<Rightarrow> js_expr \<Rightarrow> bool" where
  "printable U N (ENumber n) = number_ok N n"
| "printable U N (EString s) = True"
| "printable U N (EBool b) = True"
| "printable U N ENull = True"
| "printable U N EUndefined = True"
| "printable U N (EObjectLiteral kvs) = all_exprs (map snd kvs) (map snd (map (map_prod id (printable U N)) kvs))"
| "printable U N (EArrayLiteral es) = all_exprs es (map (printable U N) es)"
| "printable U N (EIdentifier x) = name_ok U x"
| "printable U N (EAssignment x e) = (name_ok U x \<and> all_exprs [e] [printable U N e])"
| "printable U N (EVariableDeclaration x e k) = (is_identifier U x \<and> all_exprs [e] [printable U N e])"
| "printable U N (EMember b p) = (is_identifier U p \<and> all_exprs [b] [printable U N b])"
| "printable U N (EMemberAssignment b p e) = (is_identifier U p \<and> all_exprs [b, e] [printable U N b, printable U N e])"
| "printable U N (EIndex b k) = all_exprs [b, k] [printable U N b, printable U N k]"
| "printable U N (EIndexAssignment b k e) = all_exprs [b, k, e] [printable U N b, printable U N k, printable U N e]"
| "printable U N (EBinaryOp l op r) = (op \<notin> {Not, Typeof, Assign} \<and> all_exprs [l, r] [printable U N l, printable U N r])"
| "printable U N (EUnaryOp op e) = (op \<in> {Sub, Not, Typeof} \<and> all_exprs [e] [printable U N e])"
| "printable U N (EIf c ts es) = (all_exprs [c] [printable U N c] \<and> list_all id (map (printable U N) ts) \<and>
     (case map_option (map (printable U N)) es of None \<Rightarrow> True | Some oks \<Rightarrow> list_all id oks))"
| "printable U N (EWhile c b) = (all_exprs [c] [printable U N c] \<and> list_all id (map (printable U N) b))"
| "printable U N (EForIn x k e b) =
     (is_identifier U x \<and> all_exprs [e] [printable U N e] \<and> list_all id (map (printable U N) b))"
| "printable U N (EForOf x k e b) =
     (is_identifier U x \<and> all_exprs [e] [printable U N e] \<and> list_all id (map (printable U N) b))"
| "printable U N (EDoWhile c b) = (all_exprs [c] [printable U N c] \<and> list_all id (map (printable U N) b))"
| "printable U N (EBlock ss) = list_all id (map (printable U N) ss)"
| "printable U N (ETryCatchFinally t x c f) = (list_all id (map (printable U N) t) \<and> list_all id (map (printable U N) c) \<and>
     list_all id (map (printable U N) f) \<and>
     (case x of None \<Rightarrow> map (printable U N) c = [] \<and> map (printable U N) f \<noteq> [] | Some b \<Rightarrow> is_identifier U b))"
| "printable U N (ESwitch e cs dflt) = (all_exprs [e] [printable U N e] \<and>
     list_all (\<lambda>c. case fst c of None \<Rightarrow> False | Some v \<Rightarrow> \<not> is_statement v) cs \<and>
     list_all (\<lambda>c. (case fst c of None \<Rightarrow> False | Some ok \<Rightarrow> ok) \<and> list_all id (snd c))
       (map (map_prod (map_option (printable U N)) (map (printable U N))) cs) \<and>
     (case map_option (map (printable U N)) dflt of None \<Rightarrow> True | Some oks \<Rightarrow> list_all id oks))"
| "printable U N (ETernary c t e) = all_exprs [c, t, e] [printable U N c, printable U N t, printable U N e]"
| "printable U N (ETemplate ps) = (ps \<noteq> [] \<and>
     list_all (\<lambda>p. case p of Inl s \<Rightarrow> True | Inr e \<Rightarrow> \<not> is_statement e) ps \<and>
     list_all (\<lambda>p. case p of Inl s \<Rightarrow> True | Inr ok \<Rightarrow> ok) (map (map_sum id (printable U N)) ps))"
| "printable U N (ECall f args) = (all_exprs [f] [printable U N f] \<and> all_exprs args (map (printable U N) args))"
| "printable U N (EFunctionDef x ps b) = (is_identifier U x \<and> list_all (param_ok U) ps \<and> is_block b \<and> printable U N b)"
| "printable U N (EAsyncFunctionDef x ps b) = (is_identifier U x \<and> list_all (param_ok U) ps \<and> is_block b \<and> printable U N b)"
| "printable U N (EFunctionExpr ps b is_async) =
     (list_all (param_ok U) ps \<and> (is_block b \<or> is_return b) \<and> printable U N b)"
| "printable U N (ENewExpr c args) = (all_exprs [c] [printable U N c] \<and> all_exprs args (map (printable U N) args))"
| "printable U N (EOptionalMember b p) = (is_identifier U p \<and> all_exprs [b] [printable U N b])"
| "printable U N (EOptionalIndex b k) = all_exprs [b, k] [printable U N b, printable U N k]"
| "printable U N (EUpdate e pre inc) = all_exprs [e] [printable U N e]"
| "printable U N (EDynamicImport s) = True"
| "printable U N (EReturn e) = all_exprs [e] [printable U N e]"
| "printable U N (EThrow e) = all_exprs [e] [printable U N e]"
| "printable U N (EAwait e) = all_exprs [e] [printable U N e]"
| "printable U N (EBreak l) = (case l of None \<Rightarrow> True | Some x \<Rightarrow> is_identifier U x)"
| "printable U N (EContinue l) = (case l of None \<Rightarrow> True | Some x \<Rightarrow> is_identifier U x)"

definition highest :: "nat list \<Rightarrow> nat" where
  "highest ns = foldr max ns 0"

text \<open>The nesting of a tree; one level costs the parser at most three of its depth.\<close>

primrec height :: "js_expr \<Rightarrow> nat" where
  "height (ENumber n) = 1"
| "height (EString s) = 1"
| "height (EBool b) = 1"
| "height ENull = 1"
| "height EUndefined = 1"
| "height (EObjectLiteral kvs) = Suc (highest (map snd (map (map_prod id height) kvs)))"
| "height (EArrayLiteral es) = Suc (highest (map height es))"
| "height (EIdentifier x) = 1"
| "height (EAssignment x e) = Suc (height e)"
| "height (EVariableDeclaration x e k) = Suc (height e)"
| "height (EMember b p) = Suc (height b)"
| "height (EMemberAssignment b p e) = Suc (highest [Suc (height b), height e])"
| "height (EIndex b k) = Suc (highest [height b, height k])"
| "height (EIndexAssignment b k e) = Suc (highest [Suc (height b), Suc (height k), height e])"
| "height (EBinaryOp l op r) = Suc (highest [height l, height r])"
| "height (EUnaryOp op e) = Suc (height e)"
| "height (EIf c ts es) = Suc (highest (height c # map height ts @
     (case map_option (map height) es of None \<Rightarrow> [] | Some ns \<Rightarrow> ns)))"
| "height (EWhile c b) = Suc (highest (height c # map height b))"
| "height (EForIn x k e b) = Suc (highest (height e # map height b))"
| "height (EForOf x k e b) = Suc (highest (height e # map height b))"
| "height (EDoWhile c b) = Suc (highest (height c # map height b))"
| "height (EBlock ss) = Suc (highest (map height ss))"
| "height (ETryCatchFinally t x c f) = Suc (highest (map height t @ map height c @ map height f))"
| "height (ESwitch e cs dflt) = Suc (highest (height e #
     concat (map (\<lambda>c. (case fst c of None \<Rightarrow> [] | Some n \<Rightarrow> [n]) @ snd c) (map (map_prod (map_option height) (map height)) cs)) @
     (case map_option (map height) dflt of None \<Rightarrow> [] | Some ns \<Rightarrow> ns)))"
| "height (ETernary c t e) = Suc (highest [height c, height t, height e])"
| "height (ETemplate ps) = Suc (highest (map (case_sum (\<lambda>_. 0) id) (map (map_sum id height) ps)))"
| "height (ECall f args) = Suc (highest (height f # map height args))"
| "height (EFunctionDef x ps b) = Suc (height b)"
| "height (EAsyncFunctionDef x ps b) = Suc (height b)"
| "height (EFunctionExpr ps b is_async) = Suc (height b)"
| "height (ENewExpr c args) = Suc (highest (height c # map height args))"
| "height (EOptionalMember b p) = Suc (height b)"
| "height (EOptionalIndex b k) = Suc (highest [height b, height k])"
| "height (EUpdate e pre inc) = Suc (height e)"
| "height (EDynamicImport s) = 2"
| "height (EReturn e) = Suc (height e)"
| "height (EThrow e) = Suc (height e)"
| "height (EAwait e) = Suc (height e)"
| "height (EBreak l) = 1"
| "height (EContinue l) = 1"

lemma highest_le: "highest ns \<le> h \<longleftrightarrow> (\<forall>n\<in>set ns. n \<le> h)"
  by (induction ns) (auto simp: highest_def)

end
