(* ===== verification/Js_Print_Laws.thy ===== *)
theory Js_Print_Laws
  imports Js_Parser_Laws Js_Lexer_Laws Js_Print
begin

text \<open>
  The parser reads back every printed program. A parse at a level of precedence is described by what remains to be
  done there: \<open>parse_at k\<close> is the function of level \<open>k\<close>, and after reading an operand of that level it goes on
  as \<open>loop_at k\<close>, which stops at once when the next token is \<open>quiet\<close> for the level.
\<close>

section \<open>Tokens that continue an expression\<close>

definition op_table :: "(string \<times> nat) list" where
  "op_table = [(''?'', 0), (''='', 0), (''+='', 0), (''-='', 0), (''*='', 0), (''/='', 0), (''%='', 0), (''||'', 1), (''??'', 2),
     (''&&'', 3), (''=='', 4), (''!='', 4), (''==='', 4), (''!=='', 4), (''instanceof'', 5), (''<'', 6), (''>'', 6),
     (''<='', 6), (''>='', 6), (''in'', 6), (''+'', 7), (''-'', 7), (''*'', 8), (''/'', 8), (''%'', 8), (''('', 11),
     (''.'', 11), (''?.'', 11), (''['', 11), (''++'', 11), (''--'', 11), (''=>'', 13)]"

text \<open>The next token does not continue an expression at level \<open>k\<close> or above.\<close>

definition quiet :: "nat \<Rightarrow> token list \<Rightarrow> bool" where
  "quiet k rest \<longleftrightarrow> (\<forall>(t, j)\<in>set op_table. k \<le> j \<longrightarrow> \<not> peek t rest)"

lemma quiet_mono: "quiet j rest \<Longrightarrow> j \<le> k \<Longrightarrow> quiet k rest"
  by (auto simp: quiet_def)

lemma quietD: "quiet k rest \<Longrightarrow> (t, j) \<in> set op_table \<Longrightarrow> k \<le> j \<Longrightarrow> \<not> peek t rest"
  by (auto simp: quiet_def)

lemma peek_Cons [simp]: "peek t (u # r) \<longleftrightarrow> u = lit t"
  by (simp add: peek_def)

lemma peek_Nil [simp]: "\<not> peek t []"
  by (simp add: peek_def)

lemma lit_eq_iff: "lit s = lit t \<longleftrightarrow> s = t"
  by (simp add: lit_def inj_map_eq_map [OF inj_of_char])

definition closers :: "string set" where
  "closers = {'')'', '']'', ''}'', '','', '';'', '':'', ''`}''}"

lemma quiet_closer: "s \<in> closers \<Longrightarrow> quiet k (lit s # r)"
  by (auto simp: quiet_def closers_def op_table_def lit_eq_iff)

section \<open>Levels of the parser\<close>

definition parse_at :: "char_tables \<Rightarrow> parsers \<Rightarrow> nat \<Rightarrow> nat \<Rightarrow> token list \<Rightarrow> js_expr parsed" where
  "parse_at U R k d =
     (if k = 0 then parse_assignment U R d else if k = 1 then parse_or U R d else if k = 2 then parse_nullish U R d
      else if k = 3 then parse_and U R d else if k = 4 then parse_equality U R d else if k = 5 then parse_comparison U R d
      else if k = 6 then binary_level comparison_ops (parse_term U R d) else if k = 7 then parse_term U R d
      else if k = 8 then parse_factor U R d else if k = 9 then parse_unary U R d else if k = 10 then parse_call U R d
      else if k = 11 then (\<lambda>ts. ebind (parse_primary U R d ts) (\<lambda>(e, r). turns (call_turn U R d) e r))
      else parse_primary U R d)"

definition instanceof_rest :: "char_tables \<Rightarrow> parsers \<Rightarrow> nat \<Rightarrow> js_expr \<Rightarrow> token list \<Rightarrow> js_expr parsed" where
  "instanceof_rest U R d e r =
     (if peek ''instanceof'' r
      then ebind (parse_term U R d (tl r)) (\<lambda>(right, r2). Inr (EBinaryOp e Instanceof right, r2))
      else Inr (e, r))"

definition ops_at :: "nat \<Rightarrow> (string \<times> op_kind) list" where
  "ops_at k = (if k = 1 then [(''||'', Or)] else if k = 2 then [(''??'', Nullish)] else if k = 3 then [(''&&'', And)]
     else if k = 4 then equality_ops else if k = 6 then comparison_ops else if k = 7 then term_ops else factor_ops)"

definition loop_at :: "char_tables \<Rightarrow> parsers \<Rightarrow> nat \<Rightarrow> nat \<Rightarrow> js_expr \<Rightarrow> token list \<Rightarrow> js_expr parsed" where
  "loop_at U R k d =
     (if k = 0 then assignment_rest R d
      else if k \<in> {1, 2, 3, 4, 6, 7, 8} then turns (binary_turn (ops_at k) (parse_at U R (k + 1) d))
      else if k = 5 then instanceof_rest U R d
      else if k = 11 then turns (call_turn U R d)
      else (\<lambda>e r. Inr (e, r)))"

lemma level_cases: "k < (12::nat) \<Longrightarrow> k = 0 \<or> k = 1 \<or> k = 2 \<or> k = 3 \<or> k = 4 \<or> k = 5 \<or> k = 6 \<or> k = 7 \<or> k = 8 \<or> k = 9 \<or> k = 10 \<or> k = 11"
  by presburger

lemma turns_stop: "f a ts = stop_loop \<Longrightarrow> turns f a ts = Inr (a, ts)"
  by (simp add: turns.simps [of f a ts] stop_loop_def)

lemma turns_continue: "f a ts = continue_with b r \<Longrightarrow> length r < length ts \<Longrightarrow> turns f a ts = turns f b r"
  by (simp add: turns.simps [of f a ts] continue_with_def)

lemma ops_at_table:
  assumes "k \<in> {1, 2, 3, 4, 6, 7, 8}" and "(t, op) \<in> set (ops_at k)"
  shows "(t, k) \<in> set op_table"
proof -
  have "list_all (\<lambda>k. list_all (\<lambda>(t, op). List.member op_table (t, k)) (ops_at k)) [1, 2, 3, 4, 6, 7, 8]" by code_simp
  with assms show ?thesis by (auto simp: list_all_iff List.member_iff)
qed

lemma binary_quiet:
  assumes "k \<in> {1, 2, 3, 4, 6, 7, 8}" and "quiet k rest"
  shows "turns (binary_turn (ops_at k) p) e rest = Inr (e, rest)"
proof -
  have "\<not> peek t rest" if "(t, op) \<in> set (ops_at k)" for t op
    using quietD [OF assms(2) ops_at_table [OF assms(1) that]] by simp
  then have "find (\<lambda>(t, op). peek t rest) (ops_at k) = None" by (auto simp: find_None_iff)
  then show ?thesis by (intro turns_stop) (simp add: binary_turn_def)
qed

lemma table_members:
  "(''?'', 0) \<in> set op_table" "(''='', 0) \<in> set op_table" "(''instanceof'', 5) \<in> set op_table" "(''('', 11) \<in> set op_table"
  "(''.'', 11) \<in> set op_table" "(''?.'', 11) \<in> set op_table" "(''['', 11) \<in> set op_table" "(''++'', 11) \<in> set op_table"
  "(''--'', 11) \<in> set op_table" "(''=>'', 13) \<in> set op_table"
  "(t, op) \<in> set compound_ops \<Longrightarrow> (t, 0) \<in> set op_table"
  by (auto simp: op_table_def compound_ops_def)

lemma loop_quiet:
  assumes "quiet k rest"
  shows "loop_at U R k d e rest = Inr (e, rest)"
proof -
  note q = quietD [OF assms table_members(1)] quietD [OF assms table_members(2)] quietD [OF assms table_members(3)]
    quietD [OF assms table_members(4)] quietD [OF assms table_members(5)] quietD [OF assms table_members(6)]
    quietD [OF assms table_members(7)] quietD [OF assms table_members(8)] quietD [OF assms table_members(9)]
  consider "k = 0" | "k \<in> {1, 2, 3, 4, 6, 7, 8}" | "k = 5" | "k = 11" | "k \<notin> {0, 1, 2, 3, 4, 5, 6, 7, 8, 11}" by auto
  then show ?thesis
  proof cases
    case 1
    have "\<not> peek t rest" if "(t, op) \<in> set compound_ops" for t op
      using quietD [OF assms table_members(11) [OF that]] 1 by simp
    then have "find (\<lambda>(t, op). peek t rest) compound_ops = None" by (auto simp: find_None_iff)
    with q 1 show ?thesis by (simp add: loop_at_def assignment_rest_def)
  next
    case 2
    with binary_quiet [OF 2 assms] show ?thesis by (auto simp: loop_at_def)
  next
    case 3
    with q show ?thesis by (simp add: loop_at_def instanceof_rest_def)
  next
    case 4
    with q show ?thesis by (simp add: loop_at_def turns_stop call_turn_def)
  next
    case 5
    then show ?thesis by (auto simp: loop_at_def)
  qed
qed

definition unary_starts :: "string list" where
  "unary_starts = [''-'', ''!'', ''await'', ''typeof'', ''++'', ''--'']"

text \<open>From one level down to the next.\<close>

lemma descend:
  assumes "parse_at U R (Suc k) d ts = Inr (e, rest)" and "k < 12" and "ts \<noteq> []"
    and "k = 0 \<Longrightarrow> parse_arrow_signature U ts = None" and "k = 0 \<or> k = 9 \<Longrightarrow> d \<le> MAX_PARSE_DEPTH"
    and "k = 9 \<Longrightarrow> \<forall>s\<in>set unary_starts. \<not> peek s ts" and "k = 10 \<Longrightarrow> \<not> peek ''new'' ts"
  shows "parse_at U R k d ts = loop_at U R k d e rest"
proof -
  from level_cases [OF assms(2)] show ?thesis using assms
    by (elim disjE; simp add: parse_at_def loop_at_def ops_at_def parse_assignment_def parse_or_def parse_nullish_def
        parse_and_def parse_equality_def parse_comparison_def instanceof_rest_def parse_term_def parse_factor_def
        binary_level_def parse_unary_def unary_starts_def Let_def parse_call_def)
qed

section \<open>How a printed expression starts\<close>

definition start_words :: "string list" where
  "start_words = [''('', ''['', ''{'', ''-'', ''!'', ''await'', ''typeof'', ''++'', ''--'', ''new'', ''import'', ''`'', ''true'',
     ''false'', ''null'', ''undefined'', ''async'']"

definition expr_start :: "char_tables \<Rightarrow> token \<Rightarrow> bool" where
  "expr_start U t \<longleftrightarrow> name_ok U t \<or> number_text t \<or> (\<exists>s. t = quoted s) \<or> t \<in> lit ` set start_words"

definition marks :: "string list" where
  "marks = [''('', '')'', ''['', '']'', ''{'', ''}'', '','', '';'', '':'', ''.'', ''?.'', ''='', ''=>'', ''?'', ''-'', ''!'', ''++'', ''--'',
     ''`'', ''`}'', ''`${'', ''`END'']"

lemma ident_first: "is_identifier U t \<Longrightarrow> ident_start U (hd t)"
  by (simp add: is_identifier_def)

lemma mark_plain:
  assumes "s \<in> set marks"
  shows "\<not> is_identifier U (lit s)" and "\<not> number_text (lit s)" and "lit s \<noteq> quoted u"
proof -
  have "list_all (\<lambda>s. s \<noteq> [] \<and> hd (lit s) < 128 \<and> \<not> is_ascii_alphanumeric (hd (lit s)) \<and> hd (lit s) \<noteq> 95 \<and> hd (lit s) \<noteq> 36
      \<and> hd (lit s) \<noteq> 34) marks"
    by (simp add: marks_def lit_def is_ascii_alphanumeric_def is_ascii_alphabetic_def is_ascii_upper_def is_ascii_lower_def
        is_ascii_digit_def)
  with assms have a: "hd (lit s) < 128" "\<not> is_ascii_alphanumeric (hd (lit s))" "hd (lit s) \<noteq> 95" "hd (lit s) \<noteq> 36" "hd (lit s) \<noteq> 34"
    by (auto simp: list_all_iff)
  have "\<not> ident_start U (hd (lit s))" using ascii_not_letter [OF a(1-4), of U] by blast
  then show "\<not> is_identifier U (lit s)" by (auto dest: ident_first)
  have "hd (lit s) \<noteq> 46 \<or> length (lit s) = 1 \<or> tl (lit s) = lit ''>''" using assms
    by (auto simp: marks_def lit_def)
  with a(2) show "\<not> number_text (lit s)"
    by (cases "lit s"; cases "tl (lit s)") (auto simp: number_text_def is_ascii_alphanumeric_def is_ascii_digit_def lit_def)
  show "lit s \<noteq> quoted u" using a(5) by (auto simp: quoted_def DQUOTE_def)
qed

lemma start_not_mark:
  assumes "expr_start U t" and "s \<in> set marks" and "s \<notin> set start_words"
  shows "t \<noteq> lit s"
proof
  assume "t = lit s"
  with assms mark_plain(1) [OF assms(2), of U] mark_plain(2,3) [OF assms(2)] show False
    by (auto simp: expr_start_def name_ok_def lit_eq_iff)
qed

definition unsafe_second :: "token list" where
  "unsafe_second = map lit [''=>'', '','', '')'']"

lemma start_safe: "expr_start U t \<Longrightarrow> t \<notin> set unsafe_second"
  using start_not_mark [of U t "''=>''"] start_not_mark [of U t "'',''"] start_not_mark [of U t "'')''"]
  by (auto simp: unsafe_second_def marks_def start_words_def)

text \<open>No arrow function is seen where the tokens start: neither \<open>x =>\<close> nor \<open>( x ,\<close> nor \<open>( x )\<close>.\<close>

definition no_name_arrow :: "char_tables \<Rightarrow> token list \<Rightarrow> bool" where
  "no_name_arrow U t \<longleftrightarrow> (is_identifier U (hd t) \<longrightarrow> tl t = [] \<or> hd (tl t) \<notin> set unsafe_second)"

definition no_list_arrow :: "char_tables \<Rightarrow> token list \<Rightarrow> bool" where
  "no_list_arrow U t \<longleftrightarrow> hd t \<noteq> lit ''async'' \<and> (hd t = lit ''('' \<longrightarrow> tl t \<noteq> [] \<and> hd (tl t) \<noteq> lit '')'' \<and>
     (is_identifier U (hd (tl t)) \<longrightarrow> tl (tl t) \<noteq> [] \<and> hd (tl (tl t)) \<notin> set unsafe_second))"

definition good :: "char_tables \<Rightarrow> nat \<Rightarrow> token list \<Rightarrow> bool" where
  "good U k t \<longleftrightarrow> t \<noteq> [] \<and> expr_start U (hd t) \<and> (k \<ge> 10 \<longrightarrow> hd t \<notin> lit ` set unary_starts) \<and>
     (k \<ge> 11 \<longrightarrow> hd t \<noteq> lit ''new'') \<and> no_name_arrow U t \<and> (k \<ge> 1 \<longrightarrow> no_list_arrow U t)"

definition good_raw :: "char_tables \<Rightarrow> nat \<Rightarrow> token list \<Rightarrow> bool" where
  "good_raw U p t \<longleftrightarrow> good U p t \<and> (p < 12 \<longrightarrow> tl t \<noteq> [])"

lemma async_ident: "is_identifier U (lit ''async'')"
  by (simp add: is_identifier_def lit_def ident_start_def ident_char_def is_alphabetic_def is_alphanumeric_def
      is_ascii_alphanumeric_def is_ascii_alphabetic_def is_ascii_lower_def)

lemma good_paren:
  assumes "good_raw U p t" and "p < 12"
  shows "good U k (paren t)"
proof -
  from assms have t: "t \<noteq> []" "tl t \<noteq> []" "expr_start U (hd t)" "no_name_arrow U t"
    by (auto simp: good_raw_def good_def)
  have "hd t \<noteq> lit '')''" using start_not_mark [OF t(3), of "'')''"] by (simp add: marks_def start_words_def)
  moreover have "\<not> is_identifier U (lit ''('')" by (rule mark_plain) (simp add: marks_def)
  moreover have "expr_start U (lit ''('')" by (auto simp: expr_start_def start_words_def)
  ultimately show ?thesis using t
    by (auto simp: good_def paren_def no_name_arrow_def no_list_arrow_def unary_starts_def lit_eq_iff)
qed

lemma good_fit: "good_raw U p t \<Longrightarrow> k \<le> 12 \<Longrightarrow> good U k (fit p t (AtLevel k))"
  using good_paren [of U p t k] by (auto simp: fit_def good_raw_def good_def)

text \<open>An expression that starts with another one.\<close>

lemma good_left:
  assumes "good U k t" and "1 \<le> k" and "p \<ge> 10 \<Longrightarrow> k \<ge> p" and "hd r \<notin> set unsafe_second" and "r \<noteq> []"
  shows "good_raw U p (t @ r)"
  using assms by (cases t; cases "tl t")
    (auto simp: good_raw_def good_def no_name_arrow_def no_list_arrow_def)

lemma good_first:
  assumes "expr_start U a" and "p \<ge> 10 \<Longrightarrow> a \<notin> lit ` set unary_starts" and "p \<ge> 11 \<Longrightarrow> a \<noteq> lit ''new''"
    and "p < 12 \<Longrightarrow> r \<noteq> []" and "r = [] \<or> hd r \<notin> set unsafe_second"
    and "p \<ge> 1 \<Longrightarrow> a \<noteq> lit ''async'' \<and> a \<noteq> lit ''(''"
  shows "good_raw U p (a # r)"
  using assms by (auto simp: good_raw_def good_def no_name_arrow_def no_list_arrow_def)

lemma start_lit: "s \<in> set start_words \<Longrightarrow> expr_start U (lit s)"
  by (auto simp: expr_start_def)

lemma lit_in_lits: "lit s \<in> lit ` S \<longleftrightarrow> s \<in> S"
  by (auto simp: lit_eq_iff)

lemma lit_safe: "lit s \<notin> set unsafe_second \<longleftrightarrow> s \<notin> {''=>'', '','', '')''}"
  by (auto simp: unsafe_second_def lit_eq_iff)

lemma name_start:
  assumes "name_ok U x"
  shows "expr_start U x" and "x \<notin> lit ` set unary_starts" and "x \<noteq> lit ''new''" and "x \<noteq> lit ''async''" and "x \<noteq> lit ''(''"
proof -
  have "is_identifier U x" "x \<notin> set reserved" using assms by (simp_all add: name_ok_def)
  moreover have "\<not> is_identifier U (lit s)" if "s \<in> {''-'', ''!'', ''++'', ''--'', ''(''}" for s
    by (rule mark_plain) (use that in \<open>auto simp: marks_def\<close>)
  ultimately show "x \<notin> lit ` set unary_starts" "x \<noteq> lit ''new''" "x \<noteq> lit ''async''" "x \<noteq> lit ''(''"
    by (auto simp: unary_starts_def reserved_def)
qed (use assms in \<open>simp add: expr_start_def\<close>)

lemma number_start:
  assumes "number_text t"
  shows "expr_start U t" and "t \<notin> lit ` set unary_starts" and "t \<noteq> lit ''new''" and "t \<noteq> lit ''async''" and "t \<noteq> lit ''(''"
proof -
  have "\<not> number_text (lit s)" if "s \<in> set unary_starts \<union> {''new'', ''async'', ''(''}" for s
    using that by (auto simp: unary_starts_def number_text_def lit_def is_ascii_digit_def)
  with assms show "t \<notin> lit ` set unary_starts" "t \<noteq> lit ''new''" "t \<noteq> lit ''async''" "t \<noteq> lit ''(''" by auto
qed (use assms in \<open>simp add: expr_start_def\<close>)

lemma quoted_start:
  shows "expr_start U (quoted s)" and "quoted s \<notin> lit ` set unary_starts" and "quoted s \<noteq> lit ''new''"
    and "quoted s \<noteq> lit ''async''" and "quoted s \<noteq> lit ''(''"
  by (auto simp: expr_start_def unary_starts_def quoted_def lit_def DQUOTE_def)

lemma number_ok_text: "number_ok N n \<Longrightarrow> number_text (N n)"
  by (simp add: number_ok_def number_text_def)

text \<open>A keyword or a bracket that starts an expression, followed by something safe.\<close>

lemma good_word:
  assumes "s \<in> set start_words" and "p \<ge> 10 \<Longrightarrow> s \<notin> set unary_starts" and "p \<ge> 11 \<Longrightarrow> s \<noteq> ''new''"
    and "p < 12 \<Longrightarrow> r \<noteq> []" and "r = [] \<or> hd r \<notin> set unsafe_second" and "p \<ge> 1 \<Longrightarrow> s \<noteq> ''async'' \<and> s \<noteq> ''(''"
  shows "good_raw U p (lit s # r)"
  by (rule good_first) (use assms in \<open>auto simp: start_lit lit_in_lits lit_eq_iff\<close>)

lemma good_safe: "good U k t \<Longrightarrow> t \<noteq> [] \<and> hd t \<notin> set unsafe_second"
  using start_safe by (auto simp: good_def)

lemma good_bracket:
  assumes "s \<in> {''['', ''{'', ''`''}"
  shows "good_raw U 12 (lit s # r)"
proof -
  have "\<not> is_identifier U (lit s)" by (rule mark_plain) (use assms in \<open>auto simp: marks_def\<close>)
  moreover have "expr_start U (lit s)" by (rule start_lit) (use assms in \<open>auto simp: start_words_def\<close>)
  ultimately show ?thesis using assms
    by (auto simp: good_raw_def good_def no_name_arrow_def no_list_arrow_def unary_starts_def lit_eq_iff)
qed

lemma op_text_safe: "op \<notin> {Not, Typeof, Assign} \<Longrightarrow> lit (fst (op_text op)) \<notin> set unsafe_second \<and> 1 \<le> snd (op_text op) \<and> snd (op_text op) \<le> 8"
  by (cases op) (simp_all add: op_text_def unsafe_second_def lit_eq_iff)

lemma all_exprs_Cons: "all_exprs (e # es) (b # bs) \<longleftrightarrow> \<not> is_statement e \<and> b \<and> all_exprs es bs"
  by (auto simp: all_exprs_def)

lemma all_exprs_Nil: "all_exprs [] []"
  by (simp add: all_exprs_def)

lemma params_text_hd: "params_text ps = lit ''('' # tl (params_text ps)"
  by (simp add: params_text_def)

lemma render_good:
  assumes "printable U N e" and "\<not> is_statement e" and "k \<le> 12"
  shows "good U k (render N e (AtLevel k))"
  using assms
proof (induction e arbitrary: k)
  case (EBinaryOp l op r)
  let ?p = "snd (op_text op)"
  have l: "good U j (render N l (AtLevel j))" if "j \<le> 12" for j
    using EBinaryOp.IH(1) EBinaryOp.prems that by (simp add: all_exprs_Cons)
  have "op \<notin> {Not, Typeof, Assign}" using EBinaryOp.prems by simp
  note o = op_text_safe [OF this]
  have "good_raw U ?p (render N l (AtLevel j) @ lit (fst (op_text op)) # r2)" if "1 \<le> j" "j \<le> 12" for j r2
    by (rule good_left [OF l]) (use o that in auto)
  then show ?case using EBinaryOp.prems(3) o by (auto intro!: good_fit)
next
  case (EUnaryOp op e)
  have "good U 9 (render N e (AtLevel 9))" using EUnaryOp by (simp add: all_exprs_Cons)
  then have "good_raw U 9 (lit (fst (op_text op)) # render N e (AtLevel 9))"
    using EUnaryOp.prems good_safe by (intro good_word) (auto simp: op_text_def start_words_def)
  moreover have "snd (op_text op) = snd (op_text op)" by simp
  ultimately show ?case using EUnaryOp.prems(3) by (simp add: good_fit)
next
  case (EMember b p)
  then show ?case
    by (simp add: all_exprs_Cons good_fit good_left [where k = 11] lit_safe)
next
  case (EMemberAssignment b p e)
  then show ?case
    by (simp add: all_exprs_Cons good_fit good_left [where k = 11] lit_safe)
next
  case (EIndex b i)
  then show ?case
    by (simp add: all_exprs_Cons good_fit good_left [where k = 11] lit_safe)
next
  case (EIndexAssignment b i e)
  then show ?case
    by (simp add: all_exprs_Cons good_fit good_left [where k = 11] lit_safe)
next
  case (ECall f args)
  then show ?case
    by (simp add: all_exprs_Cons good_fit good_left [where k = 11] lit_safe args_text_def)
next
  case (EOptionalMember b p)
  then show ?case
    by (simp add: all_exprs_Cons good_fit good_left [where k = 11] lit_safe)
next
  case (EOptionalIndex b i)
  then show ?case
    by (simp add: all_exprs_Cons good_fit good_left [where k = 11] lit_safe)
next
  case (ETernary c t e)
  then show ?case
    by (simp add: all_exprs_Cons good_fit good_left [where k = 1] lit_safe)
next
  case (EUpdate e pre inc)
  have e: "good U j (render N e (AtLevel j))" if "j \<le> 12" for j
    using EUpdate that by (simp add: all_exprs_Cons)
  show ?case
  proof (cases pre)
    case True
    have "good_raw U 9 (lit (if inc then ''++'' else ''--'') # render N e (AtLevel 9))"
      using good_safe [OF e [of 9]] by (intro good_word) (auto simp: start_words_def)
    with True EUpdate.prems(3) show ?thesis by (simp add: good_fit if_distrib [of lit] cong: if_cong)
  next
    case False
    with EUpdate.prems(3) e [of 11] show ?thesis
      by (simp add: good_fit good_left [where k = 11] lit_safe)
  qed
next
  case (EAwait e)
  have "good U 9 (render N e (AtLevel 9))" using EAwait by (simp add: all_exprs_Cons)
  then have "good_raw U 9 (lit ''await'' # render N e (AtLevel 9))"
    using good_safe by (intro good_word) (auto simp: start_words_def)
  with EAwait.prems(3) show ?case by (simp add: good_fit)
next
  case (ENewExpr c args)
  have "good U 12 (render N c (AtLevel 12))" using ENewExpr by (simp add: all_exprs_Cons)
  then have "good_raw U 10 (lit ''new'' # render N c (AtLevel 12) @ args_text (map (render N) args))"
    using good_safe by (intro good_word) (auto simp: start_words_def unary_starts_def)
  with ENewExpr.prems(3) show ?case by (simp add: good_fit)
next
  case (EAssignment x e)
  have "good_raw U 0 (x # lit ''='' # render N e (AtLevel 0))"
    using EAssignment.prems by (intro good_first) (auto simp: name_start lit_safe)
  with EAssignment.prems(3) show ?case by (simp add: good_fit)
next
  case (EFunctionExpr ps b is_async)
  let ?b = "case b of EReturn e \<Rightarrow> tl (render N b AtStatement) | _ \<Rightarrow> render N b AtStatement"
  have "good_raw U 0 (lit ''('' # tl (params_text ps) @ lit ''=>'' # ?b)"
    using mark_plain(1) [of "''(''" U] by (auto simp: good_raw_def good_def no_name_arrow_def marks_def start_lit start_words_def)
  then have "good_raw U 0 (params_text ps @ lit ''=>'' # ?b)" by (simp add: params_text_def)
  moreover have "good_raw U 0 (lit ''async'' # params_text ps @ lit ''=>'' # ?b)"
    by (rule good_word) (auto simp: start_words_def params_text_def lit_safe)
  ultimately show ?case using EFunctionExpr.prems(3) by (simp add: good_fit)
next
  case (EIdentifier x)
  then show ?case by (simp add: good_fit good_first name_start)
next
  case (ENumber n)
  then show ?case by (simp add: good_fit good_first number_start number_ok_text)
next
  case (EString s)
  then show ?case by (simp add: good_fit good_first quoted_start)
next
  case (EBool b)
  then show ?case by (simp add: good_fit good_word start_words_def unary_starts_def)
qed (simp_all add: is_statement_def good_fit good_bracket good_word start_words_def unary_starts_def lit_safe quoted_start start_safe)

lemma good_no_arrow:
  assumes "good U k t" and "1 \<le> k" and "\<not> peek ''=>'' rest"
  shows "parse_arrow_signature U (t @ rest) = None"
proof -
  obtain a u where t: "t = a # u" using assms(1) by (cases t) (auto simp: good_def)
  have n: "no_name_arrow U t" and l: "no_list_arrow U t" using assms(1,2) by (auto simp: good_def)
  have "arrow_params U [] (u @ rest) = None" if "a = lit ''(''"
  proof -
    from l that t obtain b v where u: "u = b # v" "b \<noteq> lit '')''" by (cases u) (auto simp: no_list_arrow_def)
    with l that t have "is_identifier U b \<Longrightarrow> v \<noteq> [] \<and> hd v \<notin> set unsafe_second" by (auto simp: no_list_arrow_def)
    with u show ?thesis
      by (cases v) (auto simp: arrow_params.simps [of U "[]" "b # _"] unsafe_second_def)
  qed
  moreover have "\<not> (is_identifier U a \<and> peek ''=>'' (u @ rest))"
    using n t assms(3) by (cases u) (auto simp: no_name_arrow_def unsafe_second_def)
  ultimately show ?thesis using l t
    by (auto simp: parse_arrow_signature_def Let_def no_list_arrow_def)
qed

text \<open>From the level of an expression to every level below.\<close>

lemma climb:
  assumes "parse_at U R p d (t @ rest) = loop_at U R p d e rest" and "good U p t" and "p \<le> 12" and "d \<le> MAX_PARSE_DEPTH"
    and "k \<le> p" and "quiet (Suc k) rest"
  shows "parse_at U R k d (t @ rest) = loop_at U R k d e rest"
  using assms(5,6)
proof (induction "p - k" arbitrary: k)
  case 0
  with assms(1) show ?case by simp
next
  case (Suc m)
  then have k: "k < p" by simp
  have "parse_at U R (Suc k) d (t @ rest) = loop_at U R (Suc k) d e rest"
    by (rule Suc.hyps(1)) (use Suc k quiet_mono [of "Suc k" rest] in auto)
  also have "\<dots> = Inr (e, rest)" using Suc.prems(2) by (rule loop_quiet)
  finally have eq: "parse_at U R (Suc k) d (t @ rest) = Inr (e, rest)" .
  have ne: "t \<noteq> []" using assms(2) by (simp add: good_def)
  have "\<not> peek ''=>'' rest" using quietD [OF Suc.prems(2) table_members(10)] k assms(3) by simp
  then have arrow: "k = 0 \<Longrightarrow> parse_arrow_signature U (t @ rest) = None"
    using good_no_arrow [OF assms(2)] k by simp
  have unary: "k = 9 \<Longrightarrow> \<forall>s\<in>set unary_starts. \<not> peek s (t @ rest)" and new: "k = 10 \<Longrightarrow> \<not> peek ''new'' (t @ rest)"
    using assms(2) k ne by (auto simp: good_def peek_def)
  show ?case by (rule descend [OF eq]) (use k assms(3,4) ne arrow unary new in auto)
qed

text \<open>What may follow an expression printed at level \<open>k\<close> for its loop to take over.\<close>

definition calm :: "nat \<Rightarrow> token list \<Rightarrow> bool" where
  "calm k rest \<longleftrightarrow> quiet (if k = 0 \<or> k = 5 then k else Suc k) rest"

lemma calm_mono: "calm k rest \<Longrightarrow> k \<le> p \<Longrightarrow> calm p rest"
  by (auto simp: calm_def elim: quiet_mono)

lemma calm_quiet: "calm k rest \<Longrightarrow> quiet (Suc k) rest" "quiet 0 rest \<Longrightarrow> calm k rest" "quiet (Suc k) rest \<Longrightarrow> k \<noteq> 0 \<Longrightarrow> k \<noteq> 5 \<Longrightarrow> calm k rest"
  by (auto simp: calm_def elim: quiet_mono)

definition reads :: "char_tables \<Rightarrow> (f64 \<Rightarrow> ustr) \<Rightarrow> js_expr \<Rightarrow> bool" where
  "reads U N e \<longleftrightarrow> (\<forall>n d k rest. length (render N e (AtLevel k) @ rest) \<le> n \<longrightarrow> k \<le> 12 \<longrightarrow> d + 3 * height e \<le> MAX_PARSE_DEPTH \<longrightarrow>
     calm k rest \<longrightarrow> parse_at U (js_parsers U n) k d (render N e (AtLevel k) @ rest) = loop_at U (js_parsers U n) k d e rest)"

text \<open>The same for the tokens without parentheses, at the expression's own level and one depth further in.\<close>

definition reads_raw :: "char_tables \<Rightarrow> nat \<Rightarrow> token list \<Rightarrow> js_expr \<Rightarrow> bool" where
  "reads_raw U p t e \<longleftrightarrow> (\<forall>n d rest. length (t @ rest) \<le> n \<longrightarrow> d + 3 * height e \<le> Suc MAX_PARSE_DEPTH \<longrightarrow>
     calm p rest \<longrightarrow> parse_at U (js_parsers U n) p d (t @ rest) = loop_at U (js_parsers U n) p d e rest)"

lemma reads_rawD:
  "reads_raw U p t e \<Longrightarrow> length (t @ rest) \<le> n \<Longrightarrow> d + 3 * height e \<le> Suc MAX_PARSE_DEPTH \<Longrightarrow> calm p rest \<Longrightarrow>
   parse_at U (js_parsers U n) p d (t @ rest) = loop_at U (js_parsers U n) p d e rest"
  by (simp add: reads_raw_def)

lemma height_pos: "1 \<le> height e"
  by (cases e) simp_all

lemma raw_expression:
  assumes "reads_raw U p t e" and "good_raw U p t" and "p \<le> 12" and "length (t @ rest) \<le> n"
    and "d + 3 * height e \<le> Suc MAX_PARSE_DEPTH" and "quiet 0 rest"
  shows "parse_expression U (js_parsers U n) d (t @ rest) = Inr (e, rest)"
proof -
  have d: "d \<le> MAX_PARSE_DEPTH" using assms(5) height_pos [of e] by simp
  have "parse_at U (js_parsers U n) p d (t @ rest) = loop_at U (js_parsers U n) p d e rest"
    by (rule reads_rawD [OF assms(1,4,5)]) (use assms(6) calm_quiet in blast)
  then have "parse_at U (js_parsers U n) 0 d (t @ rest) = loop_at U (js_parsers U n) 0 d e rest"
    by (rule climb) (use assms(2,3,6) d quiet_mono [of 0 rest] in \<open>auto simp: good_raw_def\<close>)
  with loop_quiet [OF assms(6)] d show ?thesis by (simp add: parse_at_def parse_expression_def)
qed

lemma raw_paren:
  assumes "reads_raw U p t e" and "good_raw U p t" and "p \<le> 12" and "length (paren t @ rest) \<le> n"
    and "d + 3 * height e \<le> MAX_PARSE_DEPTH"
  shows "parse_primary U (js_parsers U n) d (paren t @ rest) = Inr (e, rest)"
proof -
  obtain m where n: "n = Suc m" using assms(4) by (cases n) (simp_all add: paren_def)
  have "parse_expression U (js_parsers U m) (d + 1) (t @ lit '')'' # rest) = Inr (e, lit '')'' # rest)"
    by (rule raw_expression [OF assms(1-3)]) (use assms(4,5) n in \<open>simp_all add: paren_def quiet_closer closers_def\<close>)
  then show ?thesis
    by (simp add: parse_primary_def paren_def parenthesised_def n expect_def lit_eq_iff)
qed

lemma reads_fit:
  assumes "reads_raw U p t e" and "good_raw U p t" and "p \<le> 12" and "\<And>k. render N e (AtLevel k) = fit p t (AtLevel k)"
  shows "reads U N e"
  unfolding reads_def
proof (intro allI impI)
  fix n d k rest
  assume a: "length (render N e (AtLevel k) @ rest) \<le> n" "k \<le> 12" "d + 3 * height e \<le> MAX_PARSE_DEPTH" "calm k rest"
  show "parse_at U (js_parsers U n) k d (render N e (AtLevel k) @ rest) = loop_at U (js_parsers U n) k d e rest"
  proof (cases "p < k")
    case False
    then have "parse_at U (js_parsers U n) p d (t @ rest) = loop_at U (js_parsers U n) p d e rest"
      by (intro reads_rawD [OF assms(1)]) (use a assms(4) calm_mono [OF a(4)] in \<open>auto simp: fit_def\<close>)
    then have "parse_at U (js_parsers U n) k d (t @ rest) = loop_at U (js_parsers U n) k d e rest"
      by (rule climb) (use a calm_quiet(1) [OF a(4)] False assms(2,3) in \<open>auto simp: good_raw_def\<close>)
    with False assms(4) show ?thesis by (simp add: fit_def)
  next
    case True
    have "parse_at U (js_parsers U n) 12 d (paren t @ rest) = loop_at U (js_parsers U n) 12 d e rest"
      using raw_paren [OF assms(1-3), of rest n d] a True assms(4) by (simp add: parse_at_def loop_at_def fit_def)
    then have "parse_at U (js_parsers U n) k d (paren t @ rest) = loop_at U (js_parsers U n) k d e rest"
      by (rule climb) (use a calm_quiet(1) [OF a(4)] good_paren [OF assms(2)] True in auto)
    with True assms(4) show ?thesis by (simp add: fit_def)
  qed
qed

section \<open>Reading a part through the record of parsers\<close>

lemma readsD:
  "reads U N e \<Longrightarrow> length (render N e (AtLevel k) @ rest) \<le> n \<Longrightarrow> k \<le> 12 \<Longrightarrow> d + 3 * height e \<le> MAX_PARSE_DEPTH \<Longrightarrow>
   calm k rest \<Longrightarrow> parse_at U (js_parsers U n) k d (render N e (AtLevel k) @ rest) = loop_at U (js_parsers U n) k d e rest"
  by (simp add: reads_def)

lemma reads_calls:
  assumes "reads U N e" and "length (render N e (AtLevel k) @ rest) < n" and "d + 3 * height e \<le> MAX_PARSE_DEPTH"
  shows "k = 0 \<Longrightarrow> quiet 0 rest \<Longrightarrow> p_expression (js_parsers U n) d (render N e (AtLevel k) @ rest) = Inr (e, rest)"
    and "k = 0 \<Longrightarrow> quiet 0 rest \<Longrightarrow> p_assignment (js_parsers U n) d (render N e (AtLevel k) @ rest) = Inr (e, rest)"
    and "k = 9 \<Longrightarrow> quiet 10 rest \<Longrightarrow> p_unary (js_parsers U n) d (render N e (AtLevel k) @ rest) = Inr (e, rest)"
proof -
  obtain m where n: "n = Suc m" "length (render N e (AtLevel k) @ rest) \<le> m" using assms(2) by (cases n) auto
  note r = readsD [OF assms(1) n(2) _ assms(3)]
  show "p_expression (js_parsers U n) d (render N e (AtLevel k) @ rest) = Inr (e, rest)" if "k = 0" "quiet 0 rest"
    using r [OF _ calm_quiet(2) [OF that(2)]] loop_quiet [OF that(2)] that n assms(3) by (simp add: parse_at_def parse_expression_def)
  show "p_assignment (js_parsers U n) d (render N e (AtLevel k) @ rest) = Inr (e, rest)" if "k = 0" "quiet 0 rest"
    using r [OF _ calm_quiet(2) [OF that(2)]] loop_quiet [OF that(2)] that n by (simp add: parse_at_def)
  show "p_unary (js_parsers U n) d (render N e (AtLevel k) @ rest) = Inr (e, rest)" if "k = 9" "quiet 10 rest"
    using r that n calm_quiet(3) [of 9 rest] by (simp add: parse_at_def loop_at_def)
qed

text \<open>A step of the loop for calls and members, and of the loop of an operator level.\<close>

lemma call_step:
  assumes "reads U N b" and "length (render N b (AtLevel 11) @ s @ rest) \<le> n" and "d + 3 * height b \<le> MAX_PARSE_DEPTH"
    and "s \<noteq> []" and "hd s \<noteq> lit ''=>''" and "call_turn U (js_parsers U n) d b (s @ rest) = continue_with e rest"
  shows "parse_at U (js_parsers U n) 11 d (render N b (AtLevel 11) @ s @ rest) = loop_at U (js_parsers U n) 11 d e rest"
proof -
  have "quiet 12 (s @ rest)" using assms(4,5) by (cases s) (auto simp: quiet_def op_table_def)
  then have "parse_at U (js_parsers U n) 11 d (render N b (AtLevel 11) @ s @ rest)
      = loop_at U (js_parsers U n) 11 d b (s @ rest)"
    by (intro readsD [OF assms(1,2)]) (use assms(3) calm_quiet(3) [of 11 "s @ rest"] in auto)
  also have "\<dots> = loop_at U (js_parsers U n) 11 d e rest"
    using turns_continue [of "call_turn U (js_parsers U n) d", OF assms(6)] assms(4) by (simp add: loop_at_def)
  finally show ?thesis .
qed

lemma raw_call:
  assumes "reads U N b" and "height b < height e" and "s \<noteq> []" and "hd s \<noteq> lit ''=>''"
    and "\<And>n d rest. length (s @ rest) < n \<Longrightarrow> d + 3 * height e \<le> Suc MAX_PARSE_DEPTH \<Longrightarrow> 
      call_turn U (js_parsers U n) d b (s @ rest) = continue_with e rest"
    and "good U 11 (render N b (AtLevel 11))"
  shows "reads_raw U 11 (render N b (AtLevel 11) @ s) e"
  unfolding reads_raw_def
proof (intro allI impI)
  fix n d rest
  assume a: "length ((render N b (AtLevel 11) @ s) @ rest) \<le> n" "d + 3 * height e \<le> Suc MAX_PARSE_DEPTH" "calm 11 rest"
  have ne: "render N b (AtLevel 11) \<noteq> []" using assms(6) by (simp add: good_def)
  then have "length (s @ rest) < n" using a(1) by (cases "render N b (AtLevel 11)") auto
  then have "call_turn U (js_parsers U n) d b (s @ rest) = continue_with e rest" by (rule assms(5)) (rule a(2))
  then show "parse_at U (js_parsers U n) 11 d ((render N b (AtLevel 11) @ s) @ rest) = loop_at U (js_parsers U n) 11 d e rest"
    using call_step [OF assms(1) _ _ assms(3,4), of rest n d e] a assms(2) by simp
qed

lemma raw_unary:
  assumes "reads U N e" and "height e' = Suc (height e)"
    and "\<And>n d rest r. length rest < n \<Longrightarrow> d \<le> MAX_PARSE_DEPTH \<Longrightarrow> p_unary (js_parsers U n) (Suc d) r = Inr (e, rest) \<Longrightarrow>
      parse_unary U (js_parsers U n) d (u # r) = Inr (e', rest)"
  shows "reads_raw U 9 (u # render N e (AtLevel 9)) e'"
  unfolding reads_raw_def
proof (intro allI impI)
  fix n d rest
  assume a: "length ((u # render N e (AtLevel 9)) @ rest) \<le> n" "d + 3 * height e' \<le> Suc MAX_PARSE_DEPTH" "calm 9 rest"
  have "p_unary (js_parsers U n) (Suc d) (render N e (AtLevel 9) @ rest) = Inr (e, rest)"
    by (rule reads_calls(3) [OF assms(1)]) (use a assms(2) in \<open>auto simp: calm_def\<close>)
  then have "parse_unary U (js_parsers U n) d (u # render N e (AtLevel 9) @ rest) = Inr (e', rest)"
    by (intro assms(3)) (use a assms(2) in auto)
  then show "parse_at U (js_parsers U n) 9 d ((u # render N e (AtLevel 9)) @ rest) = loop_at U (js_parsers U n) 9 d e' rest"
    by (simp add: parse_at_def loop_at_def)
qed

end
