(* ===== verification/Js_Roundtrip.thy ===== *)
theory Js_Roundtrip
  imports Js_Print_Laws
begin

text \<open>
  Printing and parsing: every printable program, printed and parsed, is itself; and, when it has no template literal,
  its source text compiles to it.
\<close>

section \<open>Lists of expressions\<close>

abbreviation r0 :: "(f64 \<Rightarrow> ustr) \<Rightarrow> js_expr \<Rightarrow> token list" where
  "r0 N e \<equiv> render N e (AtLevel 0)"

lemma good_not_peek: "good U k t \<Longrightarrow> s \<in> set marks \<Longrightarrow> s \<notin> set start_words \<Longrightarrow> \<not> peek s (t @ r)"
  using start_not_mark by (fastforce simp: good_def peek_def)

lemma good_marks:
  assumes "good U k t"
  shows "\<not> peek '')'' (t @ r)" "\<not> peek '','' (t @ r)" "\<not> peek '']'' (t @ r)" "\<not> peek ''}'' (t @ r)" "\<not> peek '';'' (t @ r)"
    "\<not> peek '':'' (t @ r)" "t \<noteq> []" "t @ r \<noteq> []"
  using good_not_peek [OF assms] assms by (auto simp: marks_def start_words_def good_def)

lemma skip_one: "\<not> peek t r \<Longrightarrow> skip_tokens t (lit t # r) = r"
  by (cases r) (simp_all add: skip_tokens_def)

lemma skip_none: "\<not> peek t r \<Longrightarrow> skip_tokens t r = r"
  by (cases r) (simp_all add: skip_tokens_def)

text \<open>An expression of a list: it is read back, starts as an expression and is no higher than \<open>h\<close>.\<close>

definition element :: "char_tables \<Rightarrow> (f64 \<Rightarrow> ustr) \<Rightarrow> nat \<Rightarrow> js_expr \<Rightarrow> bool" where
  "element U N h e \<longleftrightarrow> reads U N e \<and> (\<forall>k\<le>12. good U k (render N e (AtLevel k))) \<and> height e \<le> h"

lemma elementD:
  assumes "element U N h e"
  shows "reads U N e" and "k \<le> 12 \<Longrightarrow> good U k (render N e (AtLevel k))" and "height e \<le> h"
  using assms by (simp_all add: element_def)

lemma element_expression:
  assumes "element U N h e" and "length (r0 N e @ rest) < n" and "d + 3 * h < MAX_PARSE_DEPTH" and "quiet 0 rest"
  shows "p_expression (js_parsers U n) (Suc d) (r0 N e @ rest) = Inr (e, rest)"
  by (rule reads_calls(1) [OF elementD(1) [OF assms(1)]]) (use assms(2-4) elementD(3) [OF assms(1)] in auto)

lemma element_assignment:
  assumes "element U N h e" and "length (r0 N e @ rest) < n" and "d + 3 * h < MAX_PARSE_DEPTH" and "quiet 0 rest"
  shows "p_assignment (js_parsers U n) (Suc d) (r0 N e @ rest) = Inr (e, rest)"
  by (rule reads_calls(2) [OF elementD(1) [OF assms(1)]]) (use assms(2-4) elementD(3) [OF assms(1)] in auto)

lemma commas_Cons: "commas (t # ts) = t @ (if ts = [] then [] else lit '','' # commas ts)"
  by (cases ts) simp_all

text \<open>The loop over a comma-separated list, for arguments, array elements and properties.\<close>

lemma comma_loop:
  assumes "\<And>x acc r. x \<in> set xs \<Longrightarrow> length (it x @ lit '','' # r) < n \<Longrightarrow> \<not> peek '','' r \<Longrightarrow>
      f acc (it x @ lit '','' # r) = continue_with (acc @ [x]) r"
    and "\<And>x acc. x \<in> set xs \<Longrightarrow> length (it x @ close # rest) < n \<Longrightarrow>
      f acc (it x @ close # rest) = continue_with (acc @ [x]) (close # rest)"
    and "\<And>acc. f acc (close # rest) = stop_loop"
    and "\<And>x r. x \<in> set xs \<Longrightarrow> it x \<noteq> [] \<and> \<not> peek '','' (it x @ r)"
    and "length (commas (map it xs) @ close # rest) < n"
  shows "turns f acc (commas (map it xs) @ close # rest) = Inr (acc @ xs, close # rest)"
  using assms(1,2,4,5)
proof (induction xs arbitrary: acc)
  case Nil
  show ?case using assms(3) by (simp add: turns_stop)
next
  case (Cons x xs)
  have ne: "it x \<noteq> []" using Cons.prems(3) by simp
  show ?case
  proof (cases "xs = []")
    case True
    have "f acc (it x @ close # rest) = continue_with (acc @ [x]) (close # rest)"
      using Cons.prems True by simp
    then have "turns f acc (it x @ close # rest) = turns f (acc @ [x]) (close # rest)"
      by (rule turns_continue) (use ne in simp)
    then show ?thesis using True assms(3) by (simp add: turns_stop)
  next
    case False
    let ?s = "commas (map it xs) @ close # rest"
    have ts: "commas (map it (x # xs)) @ close # rest = it x @ lit '','' # ?s" using False by (simp add: commas_Cons)
    have len: "length (it x @ lit '','' # ?s) < n" using Cons.prems(4) unfolding ts .
    have "\<not> peek '','' ?s"
      using False Cons.prems(3) [of "hd xs"] by (cases xs) (auto simp: commas_Cons)
    with len have "f acc (it x @ lit '','' # ?s) = continue_with (acc @ [x]) ?s"
      by (intro Cons.prems(1)) simp_all
    then have "turns f acc (it x @ lit '','' # ?s) = turns f (acc @ [x]) ?s"
      by (rule turns_continue) simp
    also have "\<dots> = Inr ((acc @ [x]) @ xs, close # rest)"
      by (rule Cons.IH) (use Cons.prems(1-3) len in auto)
    finally show ?thesis unfolding ts by simp
  qed
qed

lemma arguments_parsed:
  assumes "\<forall>e\<in>set es. element U N h e" and "d + 3 * h < MAX_PARSE_DEPTH"
    and "length (args_text (map (render N) es) @ rest) \<le> n"
  shows "arguments (js_parsers U n) d (tl (args_text (map (render N) es)) @ rest) = Inr (es, rest)"
proof -
  have m: "map (\<lambda>f. f (AtLevel 0)) (map (render N) es) = map (r0 N) es" by simp
  have step: "argument_turn (js_parsers U n) d acc (r0 N e @ lit c # r) = continue_with (acc @ [e]) (skip_tokens '','' (lit c # r))"
    if "e \<in> set es" "length (r0 N e @ lit c # r) < n" "c \<in> closers" for e acc c r
  proof -
    have e: "element U N h e" using that assms(1) by blast
    have "p_expression (js_parsers U n) (Suc d) (r0 N e @ lit c # r) = Inr (e, lit c # r)"
      by (rule element_expression [OF e that(2) assms(2)]) (simp add: quiet_closer that(3))
    then show ?thesis using good_marks(1-6,8) [OF elementD(2) [OF e, of 0], of "lit c # r"] by (simp add: argument_turn_def)
  qed
  have "turns (argument_turn (js_parsers U n) d) [] (commas (map (r0 N) es) @ lit '')'' # rest) = Inr ([] @ es, lit '')'' # rest)"
  proof (rule comma_loop)
    fix e acc r assume "e \<in> set es" "length (r0 N e @ lit '','' # r) < n" "\<not> peek '','' r"
    then show "argument_turn (js_parsers U n) d acc (r0 N e @ lit '','' # r) = continue_with (acc @ [e]) r"
      using step [of e "'',''" r acc] by (simp add: closers_def skip_one)
  next
    fix e acc assume "e \<in> set es" "length (r0 N e @ lit '')'' # rest) < n"
    then show "argument_turn (js_parsers U n) d acc (r0 N e @ lit '')'' # rest) = continue_with (acc @ [e]) (lit '')'' # rest)"
      using step [of e "'')''" rest acc] by (simp add: closers_def skip_none lit_eq_iff)
  next
    fix e r assume "e \<in> set es"
    then show "r0 N e \<noteq> [] \<and> \<not> peek '','' (r0 N e @ r)"
      using assms(1) elementD(2) [of U N h e 0] good_marks(2,7) by blast
  next
    show "length (commas (map (r0 N) es) @ lit '')'' # rest) < n" using assms(3) by (simp add: args_text_def m del: map_map)
  qed (simp add: argument_turn_def)
  then show ?thesis by (simp add: arguments_def args_text_def m expect_def del: map_map)
qed

lemma array_parsed:
  assumes "\<forall>e\<in>set es. element U N h e" and "d + 3 * h < MAX_PARSE_DEPTH"
    and "length (commas (map (r0 N) es) @ lit '']'' # rest) < n"
  shows "array_literal (js_parsers U n) d (commas (map (r0 N) es) @ lit '']'' # rest) = Inr (EArrayLiteral es, rest)"
proof -
  have step: "p_expression (js_parsers U n) (Suc d) (r0 N e @ lit c # r) = Inr (e, lit c # r) \<and> \<not> peek '']'' (r0 N e @ lit c # r)
      \<and> r0 N e @ lit c # r \<noteq> [] \<and> \<not> peek '','' (r0 N e @ lit c # r)"
    if "e \<in> set es" "length (r0 N e @ lit c # r) < n" "c \<in> closers" for e c r
  proof -
    have e: "element U N h e" using that assms(1) by blast
    then show ?thesis using good_marks(2,3,8) [OF elementD(2) [OF e, of 0], of "lit c # r"]
        element_expression [OF e that(2) assms(2)] quiet_closer [OF that(3)] by simp
  qed
  have "turns (array_turn (js_parsers U n) d) [] (commas (map (r0 N) es) @ lit '']'' # rest) = Inr ([] @ es, lit '']'' # rest)"
  proof (rule comma_loop)
    fix e acc r assume "e \<in> set es" "length (r0 N e @ lit '','' # r) < n" "\<not> peek '','' r"
    then show "array_turn (js_parsers U n) d acc (r0 N e @ lit '','' # r) = continue_with (acc @ [e]) r"
      using step [of e "'',''" r] by (simp add: closers_def array_turn_def)
  next
    fix e acc assume "e \<in> set es" "length (r0 N e @ lit '']'' # rest) < n"
    then show "array_turn (js_parsers U n) d acc (r0 N e @ lit '']'' # rest) = continue_with (acc @ [e]) (lit '']'' # rest)"
      using step [of e "'']''" rest] by (simp add: closers_def array_turn_def lit_eq_iff)
  next
    fix e r assume "e \<in> set es"
    then show "r0 N e \<noteq> [] \<and> \<not> peek '','' (r0 N e @ r)"
      using assms(1) elementD(2) [of U N h e 0] good_marks(2,7) by blast
  qed (use assms(3) in \<open>simp_all add: array_turn_def\<close>)
  then show ?thesis by (simp add: array_literal_def expect_def)
qed

abbreviation prop_text :: "(f64 \<Rightarrow> ustr) \<Rightarrow> ustr \<times> js_expr \<Rightarrow> token list" where
  "prop_text N kv \<equiv> [quoted (fst kv), lit '':''] @ r0 N (snd kv)"

lemma quoted_not_lit: "s \<in> set marks \<Longrightarrow> quoted u \<noteq> lit s"
  using mark_plain(3) by metis

lemma is_quoted_quoted [simp]: "is_quoted (quoted s)" "unquote (quoted s) = s"
  by (simp_all add: is_quoted_def unquote_def quoted_def)

lemma object_parsed:
  assumes "\<forall>kv\<in>set kvs. element U N h (snd kv)" and "d + 3 * h < MAX_PARSE_DEPTH"
    and "length (commas (map (prop_text N) kvs) @ lit ''}'' # rest) < n"
  shows "object_literal U (js_parsers U n) d (commas (map (prop_text N) kvs) @ lit ''}'' # rest) = Inr (EObjectLiteral kvs, rest)"
proof -
  have q: "quoted u \<noteq> lit ''}''" "quoted u \<noteq> lit '',''" for u by (simp_all add: quoted_not_lit marks_def)
  have step: "p_expression (js_parsers U n) (Suc d) (r0 N (snd kv) @ lit c # r) = Inr (snd kv, lit c # r)"
    if "kv \<in> set kvs" "length (prop_text N kv @ lit c # r) < n" "c \<in> closers" for kv c r
    by (rule element_expression [of U N h]) (use that assms quiet_closer [OF that(3)] in auto)
  have "turns (object_turn U (js_parsers U n) d) [] (commas (map (prop_text N) kvs) @ lit ''}'' # rest)
      = Inr ([] @ kvs, lit ''}'' # rest)"
  proof (rule comma_loop)
    fix kv acc r assume "kv \<in> set kvs" "length (prop_text N kv @ lit '','' # r) < n" "\<not> peek '','' r"
    then show "object_turn U (js_parsers U n) d acc (prop_text N kv @ lit '','' # r) = continue_with (acc @ [kv]) r"
      using step [of kv "'',''" r] q by (simp add: closers_def object_turn_def property_name_def expect_def)
  next
    fix kv acc assume "kv \<in> set kvs" "length (prop_text N kv @ lit ''}'' # rest) < n"
    then show "object_turn U (js_parsers U n) d acc (prop_text N kv @ lit ''}'' # rest) = continue_with (acc @ [kv]) (lit ''}'' # rest)"
      using step [of kv "''}''" rest] q by (simp add: closers_def object_turn_def property_name_def expect_def lit_eq_iff)
  next
    fix kv r show "prop_text N kv \<noteq> [] \<and> \<not> peek '','' (prop_text N kv @ r)" using q by simp
  qed (use assms(3) in \<open>simp_all add: object_turn_def\<close>)
  then show ?thesis by (simp add: object_literal_def expect_def)
qed

abbreviation part_text :: "(f64 \<Rightarrow> ustr) \<Rightarrow> ustr + js_expr \<Rightarrow> token list" where
  "part_text N p \<equiv> template_part (map_sum id (render N) p)"

lemma template_read:
  assumes "\<forall>p\<in>set ps. \<forall>e. p = Inr e \<longrightarrow> element U N h e" and "d + 3 * h < MAX_PARSE_DEPTH"
    and "length (concat (map (part_text N) ps) @ lit ''`END'' # rest) < n"
  shows "turns (template_turn (js_parsers U n) d) acc (concat (map (part_text N) ps) @ lit ''`END'' # rest)
    = Inr (acc @ ps, lit ''`END'' # rest)"
  using assms(1,3)
proof (induction ps arbitrary: acc)
  case Nil
  have "template_turn (js_parsers U n) d acc (lit ''`END'' # rest) = stop_loop"
    by (simp add: template_turn_def is_quoted_def lit_def DQUOTE_def)
  then show ?case by (simp add: turns_stop)
next
  case (Cons p ps)
  let ?R = "js_parsers U n"
  let ?s = "concat (map (part_text N) ps) @ lit ''`END'' # rest"
  have len: "length (part_text N p @ ?s) < n" using Cons.prems(2) by (simp add: id_def)
  have "template_turn ?R d acc (part_text N p @ ?s) = continue_with (acc @ [p]) ?s"
  proof (cases p)
    case (Inl u)
    have "byte_len (quoted u) \<ge> 2" using length_le_byte_len [of "quoted u"] by (simp add: quoted_def)
    with Inl show ?thesis by (simp add: template_turn_def template_part_def)
  next
    case (Inr e)
    have part: "part_text N p = lit ''`${'' # r0 N e @ [lit ''`}'']" using Inr by (simp add: template_part_def)
    have "length (r0 N e @ lit ''`}'' # ?s) < n" using len unfolding part by simp
    then have "p_expression ?R (Suc d) (r0 N e @ lit ''`}'' # ?s) = Inr (e, lit ''`}'' # ?s)"
      using Inr Cons.prems(1) assms(2) by (intro element_expression [of U N h]) (auto simp: quiet_closer closers_def)
    moreover have "\<not> is_quoted (lit ''`${'')" by (simp add: is_quoted_def lit_def DQUOTE_def)
    ultimately show ?thesis using Inr by (simp add: template_turn_def template_part_def expect_def)
  qed
  moreover have "length ?s < length (part_text N p @ ?s)" by (cases p) (simp_all add: template_part_def)
  ultimately have "turns (template_turn ?R d) acc (part_text N p @ ?s) = turns (template_turn ?R d) (acc @ [p]) ?s"
    by (rule turns_continue)
  also have "\<dots> = Inr ((acc @ [p]) @ ps, lit ''`END'' # rest)"
    by (rule Cons.IH) (use Cons.prems(1) len in \<open>auto simp: id_def\<close>)
  finally show ?case by (simp add: id_def)
qed

lemma template_parsed:
  assumes "\<forall>p\<in>set ps. \<forall>e. p = Inr e \<longrightarrow> element U N h e" and "d + 3 * h < MAX_PARSE_DEPTH" and "ps \<noteq> []"
    and "length (concat (map (part_text N) ps) @ lit ''`END'' # rest) < n"
  shows "template_expression (js_parsers U n) d (concat (map (part_text N) ps) @ lit ''`END'' # rest) = Inr (ETemplate ps, rest)"
  using template_read [OF assms(1,2,4), of "[]"] assms(3) by (simp add: template_expression_def)

section \<open>Lists of statements\<close>

abbreviation rs :: "(f64 \<Rightarrow> ustr) \<Rightarrow> js_expr \<Rightarrow> token list" where
  "rs N s \<equiv> render N s AtStatement"

text \<open>A statement: read back when a semicolon follows, and not starting like the end of a list.\<close>

definition sreads :: "char_tables \<Rightarrow> (f64 \<Rightarrow> ustr) \<Rightarrow> js_expr \<Rightarrow> bool" where
  "sreads U N s \<longleftrightarrow> (\<forall>n d rest. length (rs N s @ lit '';'' # rest) \<le> n \<longrightarrow> Suc d + 3 * height s < MAX_PARSE_DEPTH \<longrightarrow>
     parse_statement U (js_parsers U n) d (rs N s @ lit '';'' # rest) = Inr (s, lit '';'' # rest))"

definition statement_start :: "token list \<Rightarrow> bool" where
  "statement_start t \<longleftrightarrow> t \<noteq> [] \<and> hd t \<notin> lit ` {''}'', '')'', '']'', '';'', ''case'', ''default''}"

definition stmt :: "char_tables \<Rightarrow> (f64 \<Rightarrow> ustr) \<Rightarrow> nat \<Rightarrow> js_expr \<Rightarrow> bool" where
  "stmt U N h s \<longleftrightarrow> sreads U N s \<and> statement_start (rs N s) \<and> height s \<le> h"

lemma stmt_parsed:
  assumes "stmt U N h s" and "length (rs N s @ lit '';'' # rest) \<le> n" and "Suc d + 3 * h < MAX_PARSE_DEPTH"
  shows "parse_statement U (js_parsers U n) d (rs N s @ lit '';'' # rest) = Inr (s, lit '';'' # rest)"
  using assms unfolding stmt_def sreads_def by auto

lemma stmt_start_peek:
  assumes "stmt U N h s" and "t \<in> {''}'', '')'', '']'', '';'', ''case'', ''default''}"
  shows "\<not> peek t (rs N s @ r)"
  using assms by (auto simp: stmt_def statement_start_def peek_def)

lemma stmts_text_Cons: "stmts_text (f # fs) = f AtStatement @ lit '';'' # stmts_text fs"
  by (simp add: stmts_text_def)

lemma stmts_text_Nil: "stmts_text [] = []"
  by (simp add: stmts_text_def)

lemma stmts_no_semi:
  "\<forall>s\<in>set ss. stmt U N h s \<Longrightarrow> \<not> peek '';'' rest \<Longrightarrow> \<not> peek '';'' (stmts_text (map (render N) ss) @ rest)"
  by (cases ss) (auto simp: stmts_text_Nil stmts_text_Cons stmt_start_peek)

lemma statements_read:
  assumes "\<forall>s\<in>set ss. stmt U N h s" and "Suc d + 3 * h < MAX_PARSE_DEPTH" and "rest = [] \<or> closes rest" and "\<not> peek '';'' rest"
    and "length (stmts_text (map (render N) ss) @ rest) \<le> n"
  shows "turns (statement_turn U (js_parsers U n) d) acc (stmts_text (map (render N) ss) @ rest) = Inr (acc @ ss, rest)"
  using assms(1,5)
proof (induction ss arbitrary: acc)
  case Nil
  show ?case using assms(3) by (simp add: turns_stop stmts_text_Nil statement_turn_def)
next
  case (Cons s ss)
  let ?t = "stmts_text (map (render N) ss) @ rest"
  have s: "stmt U N h s" using Cons.prems by simp
  have len: "length (rs N s @ lit '';'' # ?t) \<le> n" using Cons.prems(2) by (simp add: stmts_text_Cons)
  have p: "parse_statement U (js_parsers U n) d (rs N s @ lit '';'' # ?t) = Inr (s, lit '';'' # ?t)"
    by (rule stmt_parsed [OF s len assms(2)])
  have "\<not> peek '';'' ?t" by (rule stmts_no_semi) (use Cons.prems assms(4) in auto)
  moreover have "\<not> closes (rs N s @ lit '';'' # ?t)" "\<not> peek '';'' (rs N s @ lit '';'' # ?t)"
    using stmt_start_peek [OF s] by (simp_all add: closes_def)
  ultimately have "statement_turn U (js_parsers U n) d acc (rs N s @ lit '';'' # ?t) = continue_with (acc @ [s]) ?t"
    using p by (simp add: statement_turn_def skip_one)
  then have "turns (statement_turn U (js_parsers U n) d) acc (rs N s @ lit '';'' # ?t)
      = turns (statement_turn U (js_parsers U n) d) (acc @ [s]) ?t"
    by (rule turns_continue) simp
  also have "\<dots> = Inr ((acc @ [s]) @ ss, rest)" by (rule Cons.IH) (use Cons.prems len in auto)
  finally show ?case by (simp add: stmts_text_Cons)
qed

lemma braced_read:
  assumes "\<forall>s\<in>set ss. stmt U N h s" and "Suc (Suc d) + 3 * h < MAX_PARSE_DEPTH"
    and "length (stmts_text (map (render N) ss) @ lit ''}'' # rest) < n"
  shows "braced (js_parsers U n) d m (stmts_text (map (render N) ss) @ lit ''}'' # rest) = Inr (ss, rest)"
proof -
  obtain k where n: "n = Suc k" using assms(3) by (cases n) auto
  have "turns (statement_turn U (js_parsers U k) (Suc d)) [] (stmts_text (map (render N) ss) @ lit ''}'' # rest)
      = Inr ([] @ ss, lit ''}'' # rest)"
    by (rule statements_read [OF assms(1,2)]) (use assms(3) n in \<open>simp_all add: closes_def lit_eq_iff\<close>)
  with assms(2) show ?thesis by (simp add: braced_def n parse_statements_def expect_def)
qed

text \<open>A block, as the statement it is and as the body of a construct.\<close>

lemma block_read:
  assumes "\<forall>s\<in>set ss. stmt U N h s" and "Suc (Suc d) + 3 * h < MAX_PARSE_DEPTH"
    and "length (block_text (map (render N) ss) @ rest) \<le> n"
  shows "parse_statement U (js_parsers U n) d (block_text (map (render N) ss) @ rest) = Inr (EBlock ss, rest)"
  using braced_read [OF assms(1,2), of rest n expected_brace] assms(3)
  by (simp add: block_text_def parse_statement_def)

lemma block_read_in:
  assumes "\<forall>s\<in>set ss. stmt U N h s" and "Suc (Suc (Suc d)) + 3 * h < MAX_PARSE_DEPTH"
    and "length (block_text (map (render N) ss) @ rest) < n"
  shows "p_statement (js_parsers U n) (Suc d) (block_text (map (render N) ss) @ rest) = Inr (EBlock ss, rest)"
proof -
  obtain k where "n = Suc k" using assms(3) by (cases n) auto
  with block_read [OF assms(1,2), of rest k] assms(3) show ?thesis by simp
qed

text \<open>The statements of a \<^verbatim>\<open>switch\<close> clause, then its clauses.\<close>

lemma switch_statements_read:
  assumes "\<forall>s\<in>set ss. stmt U N h s" and "Suc (Suc d) + 3 * h < MAX_PARSE_DEPTH" and "\<not> peek '';'' rest"
    and "length (stmts_text (map (render N) ss) @ rest) < n"
  shows "turns (switch_turn (js_parsers U n) d) w (stmts_text (map (render N) ss) @ rest)
    = turns (switch_turn (js_parsers U n) d) (w\<lparr>sw_body := sw_body w @ ss\<rparr>) rest"
  using assms(1,4)
proof (induction ss arbitrary: w)
  case Nil
  show ?case by (simp add: stmts_text_Nil)
next
  case (Cons s ss)
  let ?t = "stmts_text (map (render N) ss) @ rest"
  have s: "stmt U N h s" using Cons.prems by simp
  have len: "length (rs N s @ lit '';'' # ?t) < n" using Cons.prems(2) by (simp add: stmts_text_Cons)
  then obtain k where n: "n = Suc k" by (cases n) auto
  have p: "p_statement (js_parsers U n) (Suc d) (rs N s @ lit '';'' # ?t) = Inr (s, lit '';'' # ?t)"
    using stmt_parsed [OF s _ assms(2), of ?t k] len n by simp
  have "\<not> peek '';'' ?t" by (rule stmts_no_semi) (use Cons.prems assms(3) in auto)
  then have "switch_turn (js_parsers U n) d w (rs N s @ lit '';'' # ?t) = continue_with (w\<lparr>sw_body := sw_body w @ [s]\<rparr>) ?t"
    using p stmt_start_peek [OF s, of _ "lit '';'' # ?t"] by (simp add: switch_turn_def skip_one)
  then have "turns (switch_turn (js_parsers U n) d) w (rs N s @ lit '';'' # ?t)
      = turns (switch_turn (js_parsers U n) d) (w\<lparr>sw_body := sw_body w @ [s]\<rparr>) ?t"
    by (rule turns_continue) simp
  also have "\<dots> = turns (switch_turn (js_parsers U n) d) (w\<lparr>sw_body := sw_body w @ s # ss\<rparr>) rest"
    using Cons.IH [of "w\<lparr>sw_body := sw_body w @ [s]\<rparr>"] Cons.prems len by simp
  finally show ?case by (simp add: stmts_text_Cons)
qed

definition clause :: "char_tables \<Rightarrow> (f64 \<Rightarrow> ustr) \<Rightarrow> nat \<Rightarrow> js_expr option \<times> js_expr list \<Rightarrow> bool" where
  "clause U N h c \<longleftrightarrow> (\<exists>e ss. c = (Some e, ss) \<and> element U N h e \<and> (\<forall>s\<in>set ss. stmt U N h s))"

abbreviation case_text :: "(f64 \<Rightarrow> ustr) \<Rightarrow> js_expr option \<times> js_expr list \<Rightarrow> token list" where
  "case_text N c \<equiv> case_part (map_prod (map_option (render N)) (map (render N)) c)"

text \<open>Committing the open clause of the state gives the clauses read so far.\<close>

lemma switch_cases_read:
  assumes "\<forall>c\<in>set cs. clause U N h c" and "Suc (Suc d) + 3 * h < MAX_PARSE_DEPTH" and "\<not> peek '';'' rest"
    and "length (concat (map (case_text N) cs) @ rest) < n" and "commit_case w = w0" and "sw_header w0 = None" and "sw_body w0 = []"
  shows "\<exists>w2. turns (switch_turn (js_parsers U n) d) w (concat (map (case_text N) cs) @ rest)
      = turns (switch_turn (js_parsers U n) d) w2 rest \<and> commit_case w2 = w0\<lparr>sw_cases := sw_cases w0 @ cs\<rparr>"
  using assms(1,4-7)
proof (induction cs arbitrary: w w0)
  case Nil
  then show ?case by auto
next
  case (Cons c cs)
  let ?R = "js_parsers U n"
  obtain e ss where c: "c = (Some e, ss)" and e: "element U N h e" and ss: "\<forall>s\<in>set ss. stmt U N h s"
    using Cons.prems(1) by (auto simp: clause_def)
  let ?u = "concat (map (case_text N) cs) @ rest"
  let ?t = "stmts_text (map (render N) ss) @ ?u"
  have src: "concat (map (case_text N) (c # cs)) @ rest = lit ''case'' # r0 N e @ lit '':'' # ?t"
    by (simp add: c case_part_def)
  have len: "length (lit ''case'' # r0 N e @ lit '':'' # ?t) < n" using Cons.prems(2) unfolding src .
  have "p_expression ?R (Suc d) (r0 N e @ lit '':'' # ?t) = Inr (e, lit '':'' # ?t)"
    by (rule element_expression [OF e]) (use len assms(2) in \<open>auto simp: quiet_closer closers_def\<close>)
  then have "switch_turn ?R d w (lit ''case'' # r0 N e @ lit '':'' # ?t) = continue_with (w0\<lparr>sw_header := Some (Some e)\<rparr>) ?t"
    by (simp add: switch_turn_def expect_def lit_eq_iff Cons.prems(3))
  then have "turns (switch_turn ?R d) w (lit ''case'' # r0 N e @ lit '':'' # ?t)
      = turns (switch_turn ?R d) (w0\<lparr>sw_header := Some (Some e)\<rparr>) ?t"
    by (rule turns_continue) simp
  also have "\<not> peek '';'' ?u"
  proof (cases cs)
    case (Cons c2 cs2)
    with Cons.prems(1) obtain e2 ss2 where "c2 = (Some e2, ss2)" by (auto simp: clause_def)
    with Cons show ?thesis by (simp add: case_part_def lit_eq_iff)
  qed (use assms(3) in simp)
  then have "turns (switch_turn ?R d) (w0\<lparr>sw_header := Some (Some e)\<rparr>) ?t
      = turns (switch_turn ?R d) (w0\<lparr>sw_header := Some (Some e), sw_body := ss\<rparr>) ?u"
    using switch_statements_read [OF ss assms(2), of ?u n "w0\<lparr>sw_header := Some (Some e)\<rparr>"] len Cons.prems(5) by simp
  finally have step: "turns (switch_turn ?R d) w (lit ''case'' # r0 N e @ lit '':'' # ?t)
      = turns (switch_turn ?R d) (w0\<lparr>sw_header := Some (Some e), sw_body := ss\<rparr>) ?u" .
  have "\<exists>w2. turns (switch_turn ?R d) (w0\<lparr>sw_header := Some (Some e), sw_body := ss\<rparr>) ?u = turns (switch_turn ?R d) w2 rest \<and>
      commit_case w2 = (w0\<lparr>sw_cases := sw_cases w0 @ [c]\<rparr>)\<lparr>sw_cases := sw_cases (w0\<lparr>sw_cases := sw_cases w0 @ [c]\<rparr>) @ cs\<rparr>"
    by (rule Cons.IH) (use Cons.prems len c in \<open>auto simp: commit_case_def\<close>)
  with step show ?case unfolding src by simp
qed

section \<open>Expressions as statements\<close>

definition statement_words :: "string list" where
  "statement_words = [''if'', ''while'', ''do'', ''for'', ''switch'', ''try'', ''var'', ''let'', ''const'', ''return'', ''break'',
     ''continue'', ''throw'', ''function'']"

lemma start_not_keyword:
  assumes "expr_start U t" and "s \<in> set statement_words \<union> {''case'', ''default''}"
  shows "t \<noteq> lit s"
proof
  assume t: "t = lit s"
  have "hd s \<notin> {CHR ''0'', CHR ''1'', CHR ''.''} \<and> s \<noteq> []" "lit s \<in> set reserved" "s \<notin> set start_words"
    using assms(2) by (auto simp: statement_words_def reserved_def start_words_def)
  moreover have "\<not> number_text (lit s)" using assms(2)
    by (auto simp: statement_words_def number_text_def lit_def is_ascii_digit_def)
  moreover have "lit s \<noteq> quoted u" for u using assms(2) by (auto simp: statement_words_def quoted_def lit_def DQUOTE_def)
  ultimately show False using assms(1) t by (auto simp: expr_start_def name_ok_def lit_eq_iff)
qed

lemma keyword_dispatch:
  assumes "expr_start U (hd ts)" and "ts \<noteq> []" and "hd ts \<noteq> lit ''{''" and "hd ts \<noteq> lit ''async''"
  shows "parse_statement U R d ts = parse_expression U R (Suc d) ts"
proof -
  obtain t r where ts: "ts = t # r" using assms(2) by (cases ts) auto
  have "t \<noteq> lit s" if "s \<in> set statement_words" for s using start_not_keyword [of U t s] assms(1) ts that by simp
  then show ?thesis using assms(3,4) ts by (simp add: parse_statement_def statement_words_def)
qed

lemma statement_text:
  assumes "\<not> is_statement e"
  shows "rs N e = (if hd (r0 N e) = lit ''{'' \<or> hd (r0 N e) = lit ''async'' then paren (r0 N e) else r0 N e)"
  using assms by (cases e) (simp_all add: is_statement_def fit_def)

lemma start_statement: "expr_start U (hd t) \<Longrightarrow> t \<noteq> [] \<Longrightarrow> statement_start t"
  using start_not_mark [of U "hd t"] start_not_keyword [of U "hd t"]
  by (auto simp: statement_start_def marks_def start_words_def)

lemma async_two:
  assumes "printable U N e" and "\<not> is_statement e" and "hd (r0 N e) = lit ''async''"
  shows "tl (r0 N e) \<noteq> []"
proof
  assume "tl (r0 N e) = []"
  then have "length (r0 N e) \<le> 1" by (cases "r0 N e") simp_all
  with assms show False
    by (cases e) (auto simp: is_statement_def fit_def lit_eq_iff number_start number_ok_text name_start quoted_start
        params_text_def args_text_def op_text_def split: if_splits op_kind.splits)
qed

lemma paren_good:
  assumes "good U 0 t" and "hd t = lit ''{'' \<or> hd t = lit ''async''" and "hd t = lit ''async'' \<Longrightarrow> tl t \<noteq> []"
  shows "good U 12 (paren t)"
proof -
  have open_start: "expr_start U (lit ''('')" by (simp add: start_lit start_words_def)
  have "hd t \<noteq> lit '')''" using good_marks(1) [OF assms(1), of "[]"] good_marks(7) [OF assms(1)] by (cases t) simp_all
  moreover have "\<not> is_identifier U (lit ''('')" "\<not> is_identifier U (lit ''{'')"
    by (rule mark_plain; simp add: marks_def)+
  moreover have "tl t @ [lit '')''] \<noteq> [] \<and> hd (tl t @ [lit '')'']) \<notin> set unsafe_second" if "hd t = lit ''async''"
    using assms(1,3) async_ident [of U] that by (auto simp: good_def no_name_arrow_def)
  ultimately show ?thesis using open_start assms(1,2)
    by (auto simp: good_def paren_def no_name_arrow_def no_list_arrow_def unary_starts_def lit_eq_iff)
qed

text \<open>An expression as it is printed at the start of a statement, read as an expression.\<close>

lemma statement_expression:
  assumes "reads U N e" and "printable U N e" and "\<not> is_statement e" and "length (rs N e @ rest) \<le> n"
    and "Suc d + 3 * height e < MAX_PARSE_DEPTH" and "quiet 0 rest"
  shows "parse_expression U (js_parsers U n) (Suc d) (rs N e @ rest) = Inr (e, rest)"
proof -
  have good: "good U 0 (r0 N e)" by (rule render_good [OF assms(2,3)]) simp
  have q: "quiet k rest" for k using assms(6) quiet_mono by blast
  show ?thesis
  proof (cases "hd (r0 N e) = lit ''{'' \<or> hd (r0 N e) = lit ''async''")
    case False
    then have rs: "rs N e = r0 N e" using statement_text [OF assms(3)] by simp
    have "p_expression (js_parsers U (Suc n)) (Suc d) (r0 N e @ rest) = Inr (e, rest)"
      by (rule reads_calls(1) [OF assms(1)]) (use assms(4-6) rs in auto)
    then show ?thesis using rs by simp
  next
    case True
    then have rs: "rs N e = paren (r0 N e)" using statement_text [OF assms(3)] by simp
    have e: "p_expression (js_parsers U n) (Suc (Suc d)) (r0 N e @ lit '')'' # rest) = Inr (e, lit '')'' # rest)"
      by (rule reads_calls(1) [OF assms(1)]) (use assms(4,5) rs in \<open>auto simp: paren_def quiet_closer closers_def\<close>)
    have "parse_at U (js_parsers U n) 12 (Suc d) (paren (r0 N e) @ rest) = loop_at U (js_parsers U n) 12 (Suc d) e rest"
      using e by (simp add: parse_at_def loop_at_def paren_def parse_primary_def parenthesised_def expect_def lit_eq_iff)
    then have "parse_at U (js_parsers U n) 0 (Suc d) (paren (r0 N e) @ rest) = loop_at U (js_parsers U n) 0 (Suc d) e rest"
      by (rule climb) (use paren_good [OF good True async_two [OF assms(2,3)]] assms(5) q in auto)
    then show ?thesis using loop_quiet [OF q] assms(5) rs by (simp add: parse_at_def parse_expression_def)
  qed
qed

lemma expression_statement:
  assumes "reads U N e" and "printable U N e" and "\<not> is_statement e"
  shows "sreads U N e" and "statement_start (rs N e)"
proof -
  have good: "good U 0 (r0 N e)" by (rule render_good [OF assms(2,3)]) simp
  have open_start: "expr_start U (lit ''('')" by (simp add: start_lit start_words_def)
  have start: "expr_start U (hd (rs N e @ r)) \<and> hd (rs N e @ r) \<noteq> lit ''{'' \<and> hd (rs N e @ r) \<noteq> lit ''async'' \<and> rs N e \<noteq> []" for r
    using good open_start by (auto simp: statement_text [OF assms(3)] good_def paren_def lit_eq_iff)
  show "sreads U N e" unfolding sreads_def
  proof (intro allI impI)
    fix n d rest
    assume len: "length (rs N e @ lit '';'' # rest) \<le> n" and d: "Suc d + 3 * height e < MAX_PARSE_DEPTH"
    let ?r = "lit '';'' # rest"
    have "parse_expression U (js_parsers U n) (Suc d) (rs N e @ ?r) = Inr (e, ?r)"
      by (rule statement_expression [OF assms len d]) (simp add: quiet_closer closers_def)
    moreover have "parse_statement U (js_parsers U n) d (rs N e @ ?r) = parse_expression U (js_parsers U n) (Suc d) (rs N e @ ?r)"
      by (rule keyword_dispatch) (use start [of ?r] in auto)
    ultimately show "parse_statement U (js_parsers U n) d (rs N e @ ?r) = Inr (e, ?r)" by simp
  qed
  show "statement_start (rs N e)" using start_statement [of U "rs N e"] start [of "[]"] by simp
qed

end
