(* ===== verification/Js_Expressions.thy ===== *)
theory Js_Expressions
  imports Js_Roundtrip
begin

text \<open>
  Every form of expression is read back when its parts are.
\<close>

section \<open>Primary expressions\<close>

lemma reads_intro:
  assumes "reads_raw U p t e" and "p \<le> 12" and "\<And>k. render N e (AtLevel k) = fit p t (AtLevel k)"
    and "printable U N e" and "\<not> is_statement e" and "p < 12 \<Longrightarrow> tl t \<noteq> []"
  shows "reads U N e"
proof (rule reads_fit [OF assms(1) _ assms(2,3)])
  have "good U p (render N e (AtLevel p))" by (rule render_good [OF assms(4,5,2)])
  then show "good_raw U p t" using assms(3) [of p] assms(6) by (simp add: good_raw_def fit_def)
qed

lemma raw_primary:
  assumes "\<And>n d rest. length (t @ rest) \<le> n \<Longrightarrow> d + 3 * height e \<le> Suc MAX_PARSE_DEPTH \<Longrightarrow>
      parse_primary U (js_parsers U n) d (t @ rest) = Inr (e, rest)"
  shows "reads_raw U 12 t e"
  using assms by (simp add: reads_raw_def parse_at_def loop_at_def)

definition primary_words :: "string list" where
  "primary_words = [''import'', ''function'', ''`'', ''`}'', ''('', ''['', ''{'']"

lemma literal_primary:
  assumes "literal U t = Inr e" and "t \<notin> lit ` set primary_words"
  shows "parse_primary U R d ([t] @ rest) = Inr (e, rest)"
  using assms by (auto simp: parse_primary_def primary_words_def)

lemma quoted_not_number: "parse_f64_text (quoted s) = None"
  by (simp add: parse_f64_text_def quoted_def DQUOTE_def unsigned_f64_def Let_def to_ascii_lowercase_def ascii_lower_def
      is_ascii_upper_def is_ascii_digit_def lit_def)

lemma word_not_number: "s \<in> {''true'', ''false'', ''null'', ''undefined''} \<Longrightarrow> parse_f64_text (lit s) = None"
  by (auto simp: parse_f64_text_def unsigned_f64_def Let_def to_ascii_lowercase_def ascii_lower_def
      is_ascii_upper_def is_ascii_digit_def lit_def)

lemma reads_word:
  assumes "literal U t = Inr e" and "t \<notin> lit ` set primary_words" and "\<And>k. render N e (AtLevel k) = fit 12 [t] (AtLevel k)"
    and "printable U N e" and "\<not> is_statement e"
  shows "reads U N e"
  by (rule reads_intro [OF raw_primary _ assms(3-5)]) (use literal_primary [OF assms(1,2)] in auto)

lemma reads_number: "printable U N (ENumber n) \<Longrightarrow> reads U N (ENumber n)"
proof (rule reads_word)
  assume "printable U N (ENumber n)"
  then have "number_ok N n" by simp
  then show "literal U (N n) = Inr (ENumber n)" by (simp add: literal_def number_ok_def)
  have "\<not> number_text (lit s)" if "s \<in> set primary_words" for s
    using that by (auto simp: primary_words_def number_text_def lit_def is_ascii_digit_def)
  with number_ok_text [OF \<open>number_ok N n\<close>] show "N n \<notin> lit ` set primary_words" by auto
qed (simp_all add: is_statement_def)

lemma reads_string: "reads U N (EString s)"
proof (rule reads_word)
  show "literal U (quoted s) = Inr (EString s)" by (simp add: literal_def quoted_not_number)
  show "quoted s \<notin> lit ` set primary_words" by (auto simp: primary_words_def quoted_def lit_def DQUOTE_def)
qed (simp_all add: is_statement_def)

lemma word_not_quoted: "s \<in> {''true'', ''false'', ''null'', ''undefined''} \<Longrightarrow> \<not> is_quoted (lit s)"
  by (auto simp: is_quoted_def lit_def DQUOTE_def)

lemma reads_constant:
  shows "reads U N (EBool b)" and "reads U N ENull" and "reads U N EUndefined"
proof -
  show "reads U N (EBool b)"
    by (rule reads_word [where t = "if b then lit ''true'' else lit ''false''"])
      (auto simp: literal_def word_not_number word_not_quoted is_statement_def primary_words_def lit_eq_iff)
  show "reads U N ENull"
    by (rule reads_word [where t = "lit ''null''"])
      (auto simp: literal_def word_not_number word_not_quoted is_statement_def primary_words_def lit_eq_iff)
  show "reads U N EUndefined"
    by (rule reads_word [where t = "lit ''undefined''"])
      (auto simp: literal_def word_not_number word_not_quoted is_statement_def primary_words_def lit_eq_iff)
qed

lemma reads_name:
  assumes "name_ok U x"
  shows "reads U N (EIdentifier x)"
proof (rule reads_word)
  have x: "is_identifier U x" "x \<notin> set reserved" "parse_f64_text x = None" using assms by (simp_all add: name_ok_def)
  have marks: "x \<noteq> lit s" if "s \<in> set marks" for s using mark_plain(1) [OF that, of U] x(1) by auto
  have "hd x \<noteq> DQUOTE" using x(1) ascii_not_letter [of 34 U]
    by (auto simp: is_identifier_def DQUOTE_def is_ascii_alphanumeric_def is_ascii_alphabetic_def is_ascii_upper_def
        is_ascii_lower_def is_ascii_digit_def)
  then show "literal U x = Inr (EIdentifier x)" using x by (auto simp: literal_def is_quoted_def reserved_def)
  show "x \<notin> lit ` set primary_words" using marks x(2) by (auto simp: primary_words_def reserved_def marks_def)
qed (use assms in \<open>simp_all add: is_statement_def\<close>)

lemma reads_array:
  assumes "\<forall>e\<in>set es. element U N h e" and "height (EArrayLiteral es) = Suc h" and "printable U N (EArrayLiteral es)"
  shows "reads U N (EArrayLiteral es)"
proof (rule reads_intro [where p = 12])
  let ?t = "lit ''['' # commas (map (r0 N) es) @ [lit '']'']"
  show "reads_raw U 12 ?t (EArrayLiteral es)"
  proof (rule raw_primary)
    fix n d rest assume "length (?t @ rest) \<le> n" "d + 3 * height (EArrayLiteral es) \<le> Suc MAX_PARSE_DEPTH"
    with array_parsed [OF assms(1), of d rest n] assms(2)
    show "parse_primary U (js_parsers U n) d (?t @ rest) = Inr (EArrayLiteral es, rest)"
      by (simp add: parse_primary_def lit_eq_iff)
  qed
qed (use assms(3) in \<open>simp_all add: is_statement_def comp_def\<close>)

lemma reads_object:
  assumes "\<forall>kv\<in>set kvs. element U N h (snd kv)" and "height (EObjectLiteral kvs) = Suc h" and "printable U N (EObjectLiteral kvs)"
  shows "reads U N (EObjectLiteral kvs)"
proof (rule reads_intro [where p = 12])
  let ?t = "lit ''{'' # commas (map (prop_text N) kvs) @ [lit ''}'']"
  show "reads_raw U 12 ?t (EObjectLiteral kvs)"
  proof (rule raw_primary)
    fix n d rest assume "length (?t @ rest) \<le> n" "d + 3 * height (EObjectLiteral kvs) \<le> Suc MAX_PARSE_DEPTH"
    with object_parsed [OF assms(1), of d rest n] assms(2)
    show "parse_primary U (js_parsers U n) d (?t @ rest) = Inr (EObjectLiteral kvs, rest)"
      by (simp add: parse_primary_def lit_eq_iff)
  qed
qed (use assms(3) in \<open>simp_all add: is_statement_def comp_def\<close>)

lemma reads_template:
  assumes "\<forall>p\<in>set ps. \<forall>e. p = Inr e \<longrightarrow> element U N h e" and "height (ETemplate ps) = Suc h" and "printable U N (ETemplate ps)"
  shows "reads U N (ETemplate ps)"
proof (rule reads_intro [where p = 12])
  let ?t = "lit ''`'' # concat (map (part_text N) ps) @ [lit ''`END'']"
  show "reads_raw U 12 ?t (ETemplate ps)"
  proof (rule raw_primary)
    fix n d rest assume "length (?t @ rest) \<le> n" "d + 3 * height (ETemplate ps) \<le> Suc MAX_PARSE_DEPTH"
    then have "template_expression (js_parsers U n) d (concat (map (part_text N) ps) @ lit ''`END'' # rest) = Inr (ETemplate ps, rest)"
      using assms(2,3) by (intro template_parsed [OF assms(1)]) (auto simp: id_def)
    then show "parse_primary U (js_parsers U n) d (?t @ rest) = Inr (ETemplate ps, rest)"
      by (simp add: parse_primary_def lit_eq_iff id_def)
  qed
qed (use assms(3) in \<open>simp_all add: is_statement_def comp_def\<close>)

lemma reads_import: "reads U N (EDynamicImport s)"
proof (rule reads_intro [where p = 12])
  let ?t = "[lit ''import'', lit ''('', quoted s, lit '')'']"
  show "reads_raw U 12 ?t (EDynamicImport s)"
  proof (rule raw_primary)
    fix n d rest assume a: "length (?t @ rest) \<le> n" "d + 3 * height (EDynamicImport s) \<le> Suc MAX_PARSE_DEPTH"
    have "p_expression (js_parsers U n) (Suc d) (r0 N (EString s) @ lit '')'' # rest) = Inr (EString s, lit '')'' # rest)"
      by (rule reads_calls(1) [OF reads_string]) (use a in \<open>auto simp: fit_def quiet_closer closers_def\<close>)
    then show "parse_primary U (js_parsers U n) d (?t @ rest) = Inr (EDynamicImport s, rest)"
      by (simp add: parse_primary_def import_expression_def expect_def fit_def)
  qed
qed (simp_all add: is_statement_def)

section \<open>Operators\<close>

lemma reads_unary:
  assumes "element U N h e" and "height e' = Suc h" and "height e = h" and "printable U N e'" and "\<not> is_statement e'"
    and "\<And>k. render N e' (AtLevel k) = fit 9 (u # render N e (AtLevel 9)) (AtLevel k)"
    and "\<And>n d rest r. d \<le> MAX_PARSE_DEPTH \<Longrightarrow> p_unary (js_parsers U n) (Suc d) r = Inr (e, rest) \<Longrightarrow>
      parse_unary U (js_parsers U n) d (u # r) = Inr (e', rest)"
  shows "reads U N e'"
proof (rule reads_intro [OF _ _ assms(6,4,5)])
  show "reads_raw U 9 (u # render N e (AtLevel 9)) e'"
    by (rule raw_unary [OF elementD(1) [OF assms(1)]]) (use assms(2,3,7) in auto)
  show "tl (u # render N e (AtLevel 9)) \<noteq> []" using good_marks(7) [OF elementD(2) [OF assms(1), of 9]] by simp
qed simp

lemma reads_prefix:
  assumes "element U N (height e) e" and "\<not> is_statement e" and "printable U N e"
  shows "op \<in> {Sub, Not, Typeof} \<Longrightarrow> reads U N (EUnaryOp op e)"
    and "reads U N (EAwait e)" and "reads U N (EUpdate e True inc)"
proof -
  show "reads U N (EUnaryOp op e)" if "op \<in> {Sub, Not, Typeof}"
    by (rule reads_unary [OF assms(1), where u = "lit (fst (op_text op))"])
      (use that assms(2,3) in \<open>auto simp: is_statement_def all_exprs_Cons all_exprs_Nil op_text_def parse_unary_def lit_eq_iff\<close>)
  show "reads U N (EAwait e)"
    by (rule reads_unary [OF assms(1), where u = "lit ''await''"])
      (use assms(2,3) in \<open>auto simp: is_statement_def all_exprs_Cons all_exprs_Nil parse_unary_def lit_eq_iff\<close>)
  show "reads U N (EUpdate e True inc)"
    by (rule reads_unary [OF assms(1), where u = "if inc then lit ''++'' else lit ''--''"])
      (use assms(2,3) in \<open>auto simp: is_statement_def all_exprs_Cons all_exprs_Nil parse_unary_def lit_eq_iff\<close>)
qed

lemma find_op:
  assumes "op \<notin> {Not, Typeof, Assign, Instanceof}"
  shows "\<exists>s. find (\<lambda>(t, op'). peek t (lit (fst (op_text op)) # ts)) (ops_at (snd (op_text op))) = Some (s, op)"
    and "snd (op_text op) \<in> {1, 2, 3, 4, 6, 7, 8}"
    and "(fst (op_text op), snd (op_text op)) \<in> set op_table"
    and "quiet (Suc (snd (op_text op))) (lit (fst (op_text op)) # ts)"
  using assms by (cases op; simp add: op_text_def ops_at_def equality_ops_def comparison_ops_def term_ops_def factor_ops_def
      lit_eq_iff op_table_def quiet_def)+

lemma reads_binary:
  assumes "element U N h l" and "element U N h r" and "height (EBinaryOp l op r) = Suc h" and "printable U N (EBinaryOp l op r)"
    and "op \<noteq> Instanceof"
  shows "reads U N (EBinaryOp l op r)"
proof -
  let ?p = "snd (op_text op)" and ?s = "lit (fst (op_text op))"
  have op: "op \<notin> {Not, Typeof, Assign, Instanceof}" using assms(4,5) by simp
  note o = find_op [OF op]
  have p: "1 \<le> ?p" "?p \<le> 8" "?p \<noteq> 5" "?p \<noteq> 0" using o(2) by auto
  let ?t = "render N l (AtLevel ?p) @ [?s] @ render N r (AtLevel (?p + 1))"
  have "reads_raw U ?p ?t (EBinaryOp l op r)"
    unfolding reads_raw_def
  proof (intro allI impI)
    fix n d rest
    let ?R = "js_parsers U n"
    let ?u = "render N r (AtLevel (?p + 1)) @ rest"
    assume a: "length (?t @ rest) \<le> n" "d + 3 * height (EBinaryOp l op r) \<le> Suc MAX_PARSE_DEPTH" "calm ?p rest"
    have q: "quiet (Suc ?p) rest" using calm_quiet(1) [OF a(3)] .
    have d: "d + 3 * height l \<le> MAX_PARSE_DEPTH" "d + 3 * height r \<le> MAX_PARSE_DEPTH"
      using a(2) assms(3) elementD(3) [OF assms(1)] elementD(3) [OF assms(2)] by auto
    have "parse_at U ?R (?p + 1) d ?u = loop_at U ?R (?p + 1) d r rest"
      by (rule readsD [OF elementD(1) [OF assms(2)]]) (use a d p calm_mono [OF a(3)] in auto)
    also have "\<dots> = Inr (r, rest)" using loop_quiet [of "Suc ?p" rest] q by simp
    finally have right: "parse_at U ?R (?p + 1) d ?u = Inr (r, rest)" .
    obtain s where f: "find (\<lambda>(t, op'). peek t (?s # ?u)) (ops_at ?p) = Some (s, op)" using o(1) by blast
    have turn: "binary_turn (ops_at ?p) (parse_at U ?R (?p + 1) d) l (?s # ?u) = continue_with (EBinaryOp l op r) rest"
      unfolding binary_turn_def f option.case prod.case list.sel right by simp
    have "parse_at U ?R ?p d (render N l (AtLevel ?p) @ ?s # ?u) = loop_at U ?R ?p d l (?s # ?u)"
      by (rule readsD [OF elementD(1) [OF assms(1)]]) (use a d p o(4) calm_quiet(3) in auto)
    also have "\<dots> = turns (binary_turn (ops_at ?p) (parse_at U ?R (?p + 1) d)) l (?s # ?u)"
      using o(2) by (auto simp: loop_at_def)
    also have "\<dots> = turns (binary_turn (ops_at ?p) (parse_at U ?R (?p + 1) d)) (EBinaryOp l op r) rest"
      using turn by (rule turns_continue) simp
    also have "\<dots> = loop_at U ?R ?p d (EBinaryOp l op r) rest" using o(2) by (auto simp: loop_at_def)
    finally show "parse_at U ?R ?p d (?t @ rest) = loop_at U ?R ?p d (EBinaryOp l op r) rest" by simp
  qed
  then show ?thesis
    by (rule reads_intro) (use assms(4,5) p good_marks(7) [OF elementD(2) [OF assms(1), of ?p]] in
      \<open>auto simp: is_statement_def tl_append split: list.split\<close>)
qed

lemma reads_instanceof:
  assumes "element U N h l" and "element U N h r" and "height (EBinaryOp l Instanceof r) = Suc h"
    and "printable U N (EBinaryOp l Instanceof r)"
  shows "reads U N (EBinaryOp l Instanceof r)"
proof -
  let ?e = "EBinaryOp l Instanceof r"
  let ?t = "render N l (AtLevel 6) @ [lit ''instanceof''] @ render N r (AtLevel 7)"
  have "reads_raw U 5 ?t ?e"
    unfolding reads_raw_def
  proof (intro allI impI)
    fix n d rest
    let ?R = "js_parsers U n"
    let ?u = "render N r (AtLevel 7) @ rest"
    assume a: "length (?t @ rest) \<le> n" "d + 3 * height ?e \<le> Suc MAX_PARSE_DEPTH" "calm 5 rest"
    have q: "quiet 5 rest" using a(3) by (simp add: calm_def)
    have d: "d + 3 * height l \<le> MAX_PARSE_DEPTH" "d + 3 * height r \<le> MAX_PARSE_DEPTH"
      using a(2) assms(3) elementD(3) [OF assms(1)] elementD(3) [OF assms(2)] by auto
    have "parse_at U ?R 7 d ?u = loop_at U ?R 7 d r rest"
      by (rule readsD [OF elementD(1) [OF assms(2)]]) (use a d calm_mono [OF a(3)] in auto)
    also have "\<dots> = Inr (r, rest)" by (rule loop_quiet) (rule quiet_mono [OF q], simp)
    finally have right: "parse_term U ?R d ?u = Inr (r, rest)" by (simp add: parse_at_def)
    have q6: "quiet 6 (lit ''instanceof'' # ?u)" by (simp add: quiet_def op_table_def lit_eq_iff)
    have "parse_at U ?R 6 d (render N l (AtLevel 6) @ lit ''instanceof'' # ?u) = loop_at U ?R 6 d l (lit ''instanceof'' # ?u)"
      by (rule readsD [OF elementD(1) [OF assms(1)]]) (use a d calm_quiet(3) [of 6] quiet_mono [OF q6] in auto)
    also have "\<dots> = Inr (l, lit ''instanceof'' # ?u)" by (rule loop_quiet [OF q6])
    finally have "parse_at U ?R 5 d (?t @ rest) = Inr (?e, rest)"
      using right by (simp add: parse_at_def parse_comparison_def)
    then show "parse_at U ?R 5 d (?t @ rest) = loop_at U ?R 5 d ?e rest" using loop_quiet [OF q] by simp
  qed
  then show ?thesis
    by (rule reads_intro) (use assms(4) good_marks(7) [OF elementD(2) [OF assms(1), of 6]] in
      \<open>auto simp: is_statement_def tl_append op_text_def split: list.split\<close>)
qed

section \<open>Calls and members\<close>

lemma reads_call_form:
  assumes "element U N h b" and "height e = Suc h'" and "h \<le> h'" and "printable U N e" and "\<not> is_statement e"
    and "\<And>k. render N e (AtLevel k) = fit 11 (render N b (AtLevel 11) @ s) (AtLevel k)" and "s \<noteq> []" and "hd s \<noteq> lit ''=>''"
    and "\<And>n d rest. length (s @ rest) < n \<Longrightarrow> d + 3 * h' < MAX_PARSE_DEPTH \<Longrightarrow>
      call_turn U (js_parsers U n) d b (s @ rest) = continue_with e rest"
  shows "reads U N e"
proof (rule reads_intro [OF _ _ assms(6,4,5)])
  show "reads_raw U 11 (render N b (AtLevel 11) @ s) e"
    by (rule raw_call [OF elementD(1) [OF assms(1)]]) (use assms elementD(2) [OF assms(1), of 11] elementD(3) [OF assms(1)] in auto)
  show "tl (render N b (AtLevel 11) @ s) \<noteq> []"
    using good_marks(7) [OF elementD(2) [OF assms(1), of 11]] assms(7) by (cases "render N b (AtLevel 11)") auto
qed simp

lemma ident_not_open: "is_identifier U p \<Longrightarrow> s \<in> set marks \<Longrightarrow> p \<noteq> lit s"
  using mark_plain(1) by blast

lemma reads_member:
  assumes "element U N (height b) b" and "printable U N (EMember b p)"
  shows "reads U N (EMember b p)"
  by (rule reads_call_form [OF assms(1), where s = "[lit ''.'', p]"])
    (use assms in \<open>auto simp: is_statement_def lit_eq_iff call_turn_def member_name_def split: option.split\<close>)

lemma reads_optional_member:
  assumes "element U N (height b) b" and "printable U N (EOptionalMember b p)"
  shows "reads U N (EOptionalMember b p)"
  by (rule reads_call_form [OF assms(1), where s = "[lit ''?.'', p]"])
    (use assms ident_not_open [of U p "''[''"] in \<open>auto simp: is_statement_def lit_eq_iff call_turn_def marks_def\<close>)

lemma index_parsed:
  assumes "element U N h k" and "d + 3 * h < MAX_PARSE_DEPTH" and "length (r0 N k @ lit '']'' # rest) < n"
  shows "index_key (js_parsers U n) d m (r0 N k @ lit '']'' # rest) = Inr (k, rest)"
  using element_expression [OF assms(1,3,2)] by (simp add: index_key_def quiet_closer closers_def expect_def)

lemma reads_index:
  assumes "element U N h b" and "element U N h k" and "height (EIndex b k) = Suc h" and "printable U N (EIndex b k)"
  shows "reads U N (EIndex b k)"
  by (rule reads_call_form [OF assms(1,3), where s = "[lit ''[''] @ r0 N k @ [lit '']'']"])
    (use assms(4) index_parsed [OF assms(2)] in \<open>auto simp: is_statement_def lit_eq_iff call_turn_def\<close>)

lemma reads_optional_index:
  assumes "element U N h b" and "element U N h k" and "height (EOptionalIndex b k) = Suc h" and "printable U N (EOptionalIndex b k)"
  shows "reads U N (EOptionalIndex b k)"
  by (rule reads_call_form [OF assms(1,3), where s = "[lit ''?.'', lit ''[''] @ r0 N k @ [lit '']'']"])
    (use assms(4) index_parsed [OF assms(2)] in \<open>auto simp: is_statement_def lit_eq_iff call_turn_def\<close>)

lemma reads_postfix:
  assumes "element U N (height e) e" and "printable U N (EUpdate e False inc)"
  shows "reads U N (EUpdate e False inc)"
  by (rule reads_call_form [OF assms(1), where s = "[if inc then lit ''++'' else lit ''--'']"])
    (use assms(2) in \<open>auto simp: is_statement_def lit_eq_iff call_turn_def\<close>)

lemma args_text_open: "args_text fs = lit ''('' # tl (args_text fs)"
  by (simp add: args_text_def)

lemma reads_call:
  assumes "element U N h f" and "\<forall>e\<in>set args. element U N h e" and "height (ECall f args) = Suc h" and "printable U N (ECall f args)"
  shows "reads U N (ECall f args)"
proof (rule reads_call_form [OF assms(1,3) order_refl assms(4)])
  fix n d rest assume a: "length (args_text (map (render N) args) @ rest) < n" "d + 3 * h < MAX_PARSE_DEPTH"
  have "arguments (js_parsers U n) d (tl (args_text (map (render N) args)) @ rest) = Inr (args, rest)"
    by (rule arguments_parsed [OF assms(2) a(2)]) (use a(1) in simp)
  then show "call_turn U (js_parsers U n) d f (args_text (map (render N) args) @ rest) = continue_with (ECall f args) rest"
    by (subst args_text_open) (simp add: call_turn_def)
qed (simp_all add: is_statement_def args_text_def lit_eq_iff)

lemma reads_new:
  assumes "element U N h c" and "\<forall>e\<in>set args. element U N h e" and "height (ENewExpr c args) = Suc h" and "printable U N (ENewExpr c args)"
  shows "reads U N (ENewExpr c args)"
proof (rule reads_intro [where p = 10])
  let ?a = "args_text (map (render N) args)"
  let ?t = "lit ''new'' # render N c (AtLevel 12) @ ?a"
  show "reads_raw U 10 ?t (ENewExpr c args)"
    unfolding reads_raw_def
  proof (intro allI impI)
    fix n d rest
    let ?R = "js_parsers U n"
    assume a: "length (?t @ rest) \<le> n" "d + 3 * height (ENewExpr c args) \<le> Suc MAX_PARSE_DEPTH" "calm 10 rest"
    have q: "quiet 11 rest" using a(3) by (simp add: calm_def)
    have d: "Suc d + 3 * h \<le> MAX_PARSE_DEPTH" using a(2) assms(3) by simp
    have "quiet 13 (?a @ rest)" by (simp add: args_text_def quiet_def op_table_def lit_eq_iff)
    then have "parse_at U ?R 12 (Suc d) (render N c (AtLevel 12) @ ?a @ rest) = loop_at U ?R 12 (Suc d) c (?a @ rest)"
      by (intro readsD [OF elementD(1) [OF assms(1)]]) (use a d elementD(3) [OF assms(1)] calm_quiet(3) [of 12] in auto)
    then have c: "parse_primary U ?R (Suc d) (render N c (AtLevel 12) @ ?a @ rest) = Inr (c, ?a @ rest)"
      by (simp add: parse_at_def loop_at_def)
    have "arguments ?R d (tl ?a @ rest) = Inr (args, rest)"
      by (rule arguments_parsed [OF assms(2)]) (use a(1) d in simp_all)
    then have "new_turn U ?R d (c, False) (lit ''('' # tl ?a @ rest) = continue_with (ENewExpr c args, True) rest"
      by (simp add: new_turn_def)
    then have "new_turn U ?R d (c, False) (?a @ rest) = continue_with (ENewExpr c args, True) rest"
      by (subst args_text_open) simp
    then have "turns (new_turn U ?R d) (c, False) (?a @ rest) = turns (new_turn U ?R d) (ENewExpr c args, True) rest"
      by (rule turns_continue) (simp add: args_text_def)
    also have "\<dots> = Inr ((ENewExpr c args, True), rest)"
      using quietD [OF q table_members(4)] quietD [OF q table_members(5)] quietD [OF q table_members(7)]
      by (intro turns_stop) (simp add: new_turn_def)
    finally have "parse_at U ?R 10 d (?t @ rest) = Inr (ENewExpr c args, rest)"
      using c by (simp add: parse_at_def parse_call_def parse_new_call_def)
    then show "parse_at U ?R 10 d (?t @ rest) = loop_at U ?R 10 d (ENewExpr c args) rest" by (simp add: loop_at_def)
  qed
  show "tl ?t \<noteq> []" by (simp add: args_text_def)
qed (use assms(4) in \<open>simp_all add: is_statement_def\<close>)

section \<open>Assignments, conditionals and arrow functions\<close>

lemma at_zero:
  assumes "element U N h l" and "length (render N l (AtLevel k) @ rest) \<le> n" and "d + 3 * h \<le> MAX_PARSE_DEPTH" and "quiet 1 rest"
    and "k \<in> {1, 11}"
  shows "parse_assignment U (js_parsers U n) d (render N l (AtLevel k) @ rest) = assignment_rest (js_parsers U n) d l rest"
proof -
  have c: "calm k rest" using assms(4,5) quiet_mono [OF assms(4)] by (auto simp: calm_def)
  have "parse_at U (js_parsers U n) k d (render N l (AtLevel k) @ rest) = loop_at U (js_parsers U n) k d l rest"
    by (rule readsD [OF elementD(1) [OF assms(1)] assms(2)]) (use assms(3,5) c elementD(3) [OF assms(1)] in auto)
  then have "parse_at U (js_parsers U n) 0 d (render N l (AtLevel k) @ rest) = loop_at U (js_parsers U n) 0 d l rest"
    by (rule climb) (use elementD(2) [OF assms(1), of k] assms(3-5) in auto)
  then show ?thesis by (simp add: parse_at_def loop_at_def)
qed

lemma reads_assign:
  assumes "element U N h l" and "element U N h e" and "height e' = Suc h" and "printable U N e'" and "\<not> is_statement e'"
    and "\<And>k. render N e' (AtLevel k) = fit 0 (render N l (AtLevel 11) @ [lit ''=''] @ r0 N e) (AtLevel k)"
    and "simple_assign l = Inr f" and "f e = e'"
  shows "reads U N e'"
proof (rule reads_intro [OF _ _ assms(6,4,5)])
  let ?t = "render N l (AtLevel 11) @ [lit ''=''] @ r0 N e"
  show "reads_raw U 0 ?t e'" unfolding reads_raw_def
  proof (intro allI impI)
    fix n d rest
    let ?R = "js_parsers U n"
    assume a: "length (?t @ rest) \<le> n" "d + 3 * height e' \<le> Suc MAX_PARSE_DEPTH" "calm 0 rest"
    have q: "quiet 0 rest" using a(3) by (simp add: calm_def)
    have q1: "quiet 1 (lit ''='' # r0 N e @ rest)" by (simp add: quiet_def op_table_def lit_eq_iff)
    have good: "good U 0 (r0 N e)" by (rule elementD(2) [OF assms(2)]) simp
    have "\<not> peek ''='' (r0 N e @ rest)" by (rule good_not_peek [OF good]) (simp_all add: marks_def start_words_def)
    moreover have "p_assignment ?R (Suc d) (r0 N e @ rest) = Inr (e, rest)"
      by (rule element_assignment [OF assms(2)]) (use a(1,2) assms(3) q in auto)
    moreover have "parse_assignment U ?R d (render N l (AtLevel 11) @ lit ''='' # r0 N e @ rest)
        = assignment_rest ?R d l (lit ''='' # r0 N e @ rest)"
      by (rule at_zero [OF assms(1)]) (use a(1,2) assms(3) q1 in auto)
    ultimately have "parse_assignment U ?R d (render N l (AtLevel 11) @ lit ''='' # r0 N e @ rest) = Inr (e', rest)"
      using assms(7,8) by (simp add: assignment_rest_def compound_ops_def lit_eq_iff)
    then show "parse_at U ?R 0 d (?t @ rest) = loop_at U ?R 0 d e' rest" using loop_quiet [OF q] by (simp add: parse_at_def)
  qed
  show "tl ?t \<noteq> []" using good_marks(7) [OF elementD(2) [OF assms(1), of 11]] by (cases "render N l (AtLevel 11)") auto
qed simp

lemma reads_ternary:
  assumes "element U N h c" and "element U N h t" and "element U N h e" and "height (ETernary c t e) = Suc h"
    and "printable U N (ETernary c t e)"
  shows "reads U N (ETernary c t e)"
proof (rule reads_intro [where p = 0])
  let ?t = "render N c (AtLevel 1) @ [lit ''?''] @ r0 N t @ [lit '':''] @ r0 N e"
  show "reads_raw U 0 ?t (ETernary c t e)" unfolding reads_raw_def
  proof (intro allI impI)
    fix n d rest
    let ?R = "js_parsers U n"
    let ?u = "lit ''?'' # r0 N t @ lit '':'' # r0 N e @ rest"
    assume a: "length (?t @ rest) \<le> n" "d + 3 * height (ETernary c t e) \<le> Suc MAX_PARSE_DEPTH" "calm 0 rest"
    have q: "quiet 0 rest" using a(3) by (simp add: calm_def)
    have q1: "quiet 1 ?u" by (simp add: quiet_def op_table_def lit_eq_iff)
    have "p_assignment ?R (Suc d) (r0 N t @ lit '':'' # r0 N e @ rest) = Inr (t, lit '':'' # r0 N e @ rest)"
      by (rule element_assignment [OF assms(2)]) (use a(1,2) assms(4) in \<open>auto simp: quiet_closer closers_def\<close>)
    moreover have "p_assignment ?R (Suc d) (r0 N e @ rest) = Inr (e, rest)"
      by (rule element_assignment [OF assms(3)]) (use a(1,2) assms(4) q in auto)
    moreover have "parse_assignment U ?R d (render N c (AtLevel 1) @ ?u) = assignment_rest ?R d c ?u"
      by (rule at_zero [OF assms(1)]) (use a(1,2) assms(4) q1 in auto)
    ultimately have "parse_assignment U ?R d (render N c (AtLevel 1) @ ?u) = Inr (ETernary c t e, rest)"
      by (simp add: assignment_rest_def expect_def)
    then show "parse_at U ?R 0 d (?t @ rest) = loop_at U ?R 0 d (ETernary c t e) rest"
      using loop_quiet [OF q] by (simp add: parse_at_def)
  qed
  show "tl ?t \<noteq> []" using good_marks(7) [OF elementD(2) [OF assms(1), of 1]] by (cases "render N c (AtLevel 1)") auto
qed (use assms(5) in \<open>simp_all add: is_statement_def\<close>)

text \<open>The parameters of an arrow function, and of a \<^verbatim>\<open>function\<close>.\<close>

fun param_name :: "param_binding \<Rightarrow> ustr" where
  "param_name (Plain x) = x"

lemma param_text_name:
  "param_text = (\<lambda>p. [param_name p])" "Plain (param_name p) = p" "param_ok U = (\<lambda>p. is_identifier U (param_name p))"
  by (rule ext, case_tac p, simp) (cases p, simp, rule ext, case_tac p, simp)

lemma arrow_params_read:
  "list_all (param_ok U) ps \<Longrightarrow>
   arrow_params U acc (commas (map param_text ps) @ lit '')'' # r) = Some (acc @ map param_name ps, r)"
  unfolding param_text_name(1,3)
proof (induction ps arbitrary: acc)
  case Nil
  show ?case by (subst arrow_params.simps) simp
next
  case (Cons p ps)
  have x: "is_identifier U (param_name p)" using Cons.prems by (simp add: param_text_name)
  note ne = ident_not_open [OF x]
  show ?case
  proof (cases ps)
    case Nil
    have "arrow_params U (acc @ [param_name p]) (lit '')'' # r) = Some (acc @ [param_name p], r)"
      by (subst arrow_params.simps) simp
    with Nil x ne [of "'')''"] show ?thesis
      by (subst arrow_params.simps) (simp add: param_text_name marks_def lit_eq_iff)
  next
    case (Cons p2 ps2)
    with x ne [of "'')''"] Cons.IH [of "acc @ [param_name p]"] Cons.prems show ?thesis
      by (subst arrow_params.simps) (simp add: param_text_name marks_def lit_eq_iff)
  qed
qed

lemma arrow_read:
  assumes "list_all (param_ok U) ps"
  shows "parse_arrow_signature U ((if a then [lit ''async''] else []) @ params_text ps @ lit ''=>'' # r) = Some (ps, a, r)"
proof -
  have "\<not> is_identifier U (lit ''('')" by (rule mark_plain) (simp add: marks_def)
  moreover have "map Plain (map param_name ps) = ps" by (simp add: param_text_name comp_def)
  ultimately show ?thesis using arrow_params_read [OF assms, of "[]" "lit ''=>'' # r"]
    by (simp add: parse_arrow_signature_def Let_def params_text_def lit_eq_iff)
qed

lemma params_read:
  assumes "list_all (param_ok U) ps"
  shows "turns param_turn acc (commas (map param_text ps) @ lit '')'' # r) = Inr (acc @ map param_name ps, lit '')'' # r)"
  using assms
proof (induction ps arbitrary: acc)
  case Nil
  show ?case by (simp add: turns_stop param_turn_def)
next
  case (Cons p ps)
  have x: "is_identifier U (param_name p)" using Cons.prems by (simp add: param_text_name)
  have ne: "param_name p \<noteq> lit '')''" "param_name p \<noteq> lit '',''" using ident_not_open [OF x] by (simp_all add: marks_def)
  let ?s = "commas (map param_text ps) @ lit '')'' # r"
  have "\<not> peek '','' ?s"
    using Cons.prems ident_not_open [of U "param_name (hd ps)" "'',''"]
    by (cases ps) (auto simp: commas_Cons param_text_name marks_def lit_eq_iff)
  then have "skip_tokens '','' (if ps = [] then ?s else lit '','' # ?s) = ?s"
    by (auto simp: skip_none skip_one lit_eq_iff)
  then have "param_turn acc (commas (map param_text (p # ps)) @ lit '')'' # r) = continue_with (acc @ [param_name p]) ?s"
    using ne by (simp add: param_turn_def param_text_name commas_Cons split: if_splits)
  then have "turns param_turn acc (commas (map param_text (p # ps)) @ lit '')'' # r) = turns param_turn (acc @ [param_name p]) ?s"
    by (rule turns_continue) (simp add: commas_Cons param_text_name)
  also have "\<dots> = Inr ((acc @ [param_name p]) @ map param_name ps, lit '')'' # r)" by (rule Cons.IH) (use Cons.prems in simp)
  finally show ?case by simp
qed

text \<open>The body of an arrow function: a block, or an expression that becomes a \<^verbatim>\<open>return\<close>.\<close>

definition arrow_body :: "(f64 \<Rightarrow> ustr) \<Rightarrow> js_expr \<Rightarrow> token list" where
  "arrow_body N b = (case b of EReturn e \<Rightarrow> tl (rs N b) | _ \<Rightarrow> rs N b)"

definition body_ok :: "char_tables \<Rightarrow> (f64 \<Rightarrow> ustr) \<Rightarrow> nat \<Rightarrow> js_expr \<Rightarrow> bool" where
  "body_ok U N h b \<longleftrightarrow> (\<exists>ss. b = EBlock ss \<and> (\<forall>s\<in>set ss. stmt U N h s)) \<or>
     (\<exists>e. b = EReturn e \<and> element U N h e \<and> printable U N e \<and> \<not> is_statement e)"

lemma arrow_body_read:
  assumes "body_ok U N h b" and "list_all (param_ok U) ps" and "Suc (Suc (Suc d)) + 3 * h < MAX_PARSE_DEPTH" and "quiet 0 rest"
    and "length (arrow_body N b @ rest) < n"
  shows "arrow_function (js_parsers U n) d ps a (arrow_body N b @ rest) = Inr (EFunctionExpr ps b a, rest)"
  using assms(1) unfolding body_ok_def
proof (elim disjE exE conjE)
  fix ss assume b: "b = EBlock ss" and ss: "\<forall>s\<in>set ss. stmt U N h s"
  have "p_statement (js_parsers U n) (Suc d) (block_text (map (render N) ss) @ rest) = Inr (EBlock ss, rest)"
    by (rule block_read_in [OF ss]) (use assms(3,5) b in \<open>auto simp: arrow_body_def\<close>)
  then show ?thesis by (simp add: arrow_function_def arrow_body_def b block_text_def)
next
  fix e assume b: "b = EReturn e" and e: "element U N h e" "printable U N e" "\<not> is_statement e"
  obtain k where n: "n = Suc k" using assms(5) by (cases n) auto
  have good: "good U 0 (r0 N e)" by (rule elementD(2) [OF e(1)]) simp
  have "parse_expression U (js_parsers U k) (Suc d) (rs N e @ rest) = Inr (e, rest)"
    by (rule statement_expression [OF elementD(1) [OF e(1)] e(2,3)])
      (use assms(3-5) elementD(3) [OF e(1)] n b in \<open>auto simp: arrow_body_def\<close>)
  then have "p_assignment (js_parsers U n) (Suc d) (rs N e @ rest) = Inr (e, rest)"
    by (simp add: n parse_expression_def split: if_splits)
  moreover have "\<not> peek ''{'' (rs N e @ rest)"
    using good by (auto simp: statement_text [OF e(3)] good_def paren_def peek_def lit_eq_iff)
  ultimately show ?thesis by (simp add: arrow_function_def arrow_body_def b)
qed

lemma reads_arrow:
  assumes "body_ok U N h b" and "height (EFunctionExpr ps b a) = Suc (Suc h)" and "printable U N (EFunctionExpr ps b a)"
  shows "reads U N (EFunctionExpr ps b a)"
proof (rule reads_intro [where p = 0])
  let ?t = "(if a then [lit ''async''] else []) @ params_text ps @ [lit ''=>''] @ arrow_body N b"
  have ps: "list_all (param_ok U) ps" using assms(3) by simp
  show "reads_raw U 0 ?t (EFunctionExpr ps b a)" unfolding reads_raw_def
  proof (intro allI impI)
    fix n d rest
    let ?R = "js_parsers U n"
    assume x: "length (?t @ rest) \<le> n" "d + 3 * height (EFunctionExpr ps b a) \<le> Suc MAX_PARSE_DEPTH" "calm 0 rest"
    have q: "quiet 0 rest" using x(3) by (simp add: calm_def)
    have "arrow_function ?R d ps a (arrow_body N b @ rest) = Inr (EFunctionExpr ps b a, rest)"
      by (rule arrow_body_read [OF assms(1) ps _ q]) (use x(1,2) assms(2) in \<open>auto split: if_splits\<close>)
    moreover have "parse_arrow_signature U (?t @ rest) = Some (ps, a, arrow_body N b @ rest)"
      using arrow_read [OF ps, of a "arrow_body N b @ rest"] by simp
    ultimately have "parse_assignment U ?R d (?t @ rest) = Inr (EFunctionExpr ps b a, rest)"
      using x(2) assms(2) by (simp add: parse_assignment_def)
    then show "parse_at U ?R 0 d (?t @ rest) = loop_at U ?R 0 d (EFunctionExpr ps b a) rest"
      using loop_quiet [OF q] by (simp add: parse_at_def)
  qed
  show "tl ?t \<noteq> []" by (simp add: params_text_def)
  show "render N (EFunctionExpr ps b a) (AtLevel k) = fit 0 ?t (AtLevel k)" for k by (simp add: arrow_body_def)
qed (use assms(3) in \<open>simp_all add: is_statement_def\<close>)

end
