(* ===== verification/Js_Program.thy ===== *)
theory Js_Program
  imports Js_Expressions
begin

text \<open>
  Every form of statement is read back when its parts are; by induction so is every printable program, and its
  source text compiles to it.
\<close>

section \<open>Statements\<close>

lemma sreads_intro:
  assumes "\<And>n d r. length (rs N s @ lit '';'' # r) \<le> n \<Longrightarrow> Suc d + 3 * height s < MAX_PARSE_DEPTH \<Longrightarrow>
    parse_statement U (js_parsers U n) d (rs N s @ lit '';'' # r) = Inr (s, lit '';'' # r)"
  shows "sreads U N s"
  using assms by (simp add: sreads_def)

lemma condition_read:
  assumes "element U N h c" and "d + 3 * h < MAX_PARSE_DEPTH" and "length (r0 N c @ lit '')'' # r) < n"
  shows "condition (js_parsers U n) d m1 m2 (lit ''('' # r0 N c @ lit '')'' # r) = Inr (c, r)"
  using element_expression [OF assms(1,3,2)] by (simp add: condition_def expect_def quiet_closer closers_def)

lemma sreads_if:
  assumes "element U N h c" and "\<forall>s\<in>set ts. stmt U N h s" and "\<And>ss. es = Some ss \<Longrightarrow> \<forall>s\<in>set ss. stmt U N h s"
    and "height (EIf c ts es) = Suc h"
  shows "sreads U N (EIf c ts es)"
proof (rule sreads_intro)
  fix n d r
  let ?else = "case es of None \<Rightarrow> [] | Some ss \<Rightarrow> lit ''else'' # block_text (map (render N) ss)"
  let ?u = "block_text (map (render N) ts) @ ?else @ lit '';'' # r"
  assume a: "length (rs N (EIf c ts es) @ lit '';'' # r) \<le> n" "Suc d + 3 * height (EIf c ts es) < MAX_PARSE_DEPTH"
  have src: "rs N (EIf c ts es) @ lit '';'' # r = lit ''if'' # lit ''('' # r0 N c @ lit '')'' # ?u"
    by (cases es) simp_all
  note len = a(1) [unfolded src]
  have "condition (js_parsers U n) d m1 m2 (lit ''('' # r0 N c @ lit '')'' # ?u) = Inr (c, ?u)" for m1 m2
    by (rule condition_read [OF assms(1)]) (use len a(2) assms(4) in auto)
  moreover have "p_statement (js_parsers U n) (Suc d) ?u = Inr (EBlock ts, ?else @ lit '';'' # r)"
    by (rule block_read_in [OF assms(2)]) (use len a(2) assms(4) in auto)
  moreover have "p_statement (js_parsers U n) (Suc d) (block_text (map (render N) ss) @ lit '';'' # r) = Inr (EBlock ss, lit '';'' # r)"
    if "es = Some ss" for ss
    by (rule block_read_in [OF assms(3) [OF that]]) (use len a(2) assms(4) that in auto)
  ultimately have "if_statement (js_parsers U n) d (lit ''('' # r0 N c @ lit '')'' # ?u) = Inr (EIf c ts es, lit '';'' # r)"
    by (cases es) (simp_all add: if_statement_def as_block_def lit_eq_iff)
  then show "parse_statement U (js_parsers U n) d (rs N (EIf c ts es) @ lit '';'' # r) = Inr (EIf c ts es, lit '';'' # r)"
    unfolding src by (simp add: parse_statement_def lit_eq_iff)
qed

lemma sreads_while:
  assumes "element U N h c" and "\<forall>s\<in>set b. stmt U N h s" and "height (EWhile c b) = Suc h"
  shows "sreads U N (EWhile c b)"
proof (rule sreads_intro)
  fix n d r
  let ?u = "block_text (map (render N) b) @ lit '';'' # r"
  assume a: "length (rs N (EWhile c b) @ lit '';'' # r) \<le> n" "Suc d + 3 * height (EWhile c b) < MAX_PARSE_DEPTH"
  have "condition (js_parsers U n) d m1 m2 (lit ''('' # r0 N c @ lit '')'' # ?u) = Inr (c, ?u)" for m1 m2
    by (rule condition_read [OF assms(1)]) (use a assms(3) in auto)
  moreover have "p_statement (js_parsers U n) (Suc d) ?u = Inr (EBlock b, lit '';'' # r)"
    by (rule block_read_in [OF assms(2)]) (use a assms(3) in auto)
  ultimately have "while_statement (js_parsers U n) d (lit ''('' # r0 N c @ lit '')'' # ?u) = Inr (EWhile c b, lit '';'' # r)"
    by (simp add: while_statement_def as_block_def)
  then show "parse_statement U (js_parsers U n) d (rs N (EWhile c b) @ lit '';'' # r) = Inr (EWhile c b, lit '';'' # r)"
    by (simp add: parse_statement_def lit_eq_iff)
qed

lemma sreads_do:
  assumes "element U N h c" and "\<forall>s\<in>set b. stmt U N h s" and "height (EDoWhile c b) = Suc h"
  shows "sreads U N (EDoWhile c b)"
proof (rule sreads_intro)
  fix n d r
  let ?v = "lit ''('' # r0 N c @ lit '')'' # lit '';'' # r"
  let ?u = "block_text (map (render N) b) @ lit ''while'' # ?v"
  assume a: "length (rs N (EDoWhile c b) @ lit '';'' # r) \<le> n" "Suc d + 3 * height (EDoWhile c b) < MAX_PARSE_DEPTH"
  have "condition (js_parsers U n) d m1 m2 ?v = Inr (c, lit '';'' # r)" for m1 m2
    by (rule condition_read [OF assms(1)]) (use a assms(3) in auto)
  moreover have "p_statement (js_parsers U n) (Suc d) ?u = Inr (EBlock b, lit ''while'' # ?v)"
    by (rule block_read_in [OF assms(2)]) (use a assms(3) in auto)
  ultimately have "do_statement (js_parsers U n) d ?u = Inr (EDoWhile c b, lit '';'' # r)"
    by (simp add: do_statement_def as_block_def expect_def)
  then show "parse_statement U (js_parsers U n) d (rs N (EDoWhile c b) @ lit '';'' # r) = Inr (EDoWhile c b, lit '';'' # r)"
    by (simp add: parse_statement_def lit_eq_iff)
qed

lemma for_kind_read: "for_kind (kind_text k # r) = Some k"
  by (cases k) (simp_all add: for_kind_def kind_text_def lit_eq_iff)

lemma for_body_read:
  assumes "element U N h e" and "\<forall>s\<in>set b. stmt U N h s" and "Suc d + 3 * Suc h < MAX_PARSE_DEPTH"
    and "length (r0 N e @ lit '')'' # block_text (map (render N) b) @ r) < n"
  shows "for_body (js_parsers U n) d m f (r0 N e @ lit '')'' # block_text (map (render N) b) @ r) = Inr (f e b, r)"
proof -
  have "p_statement (js_parsers U n) (Suc d) (block_text (map (render N) b) @ r) = Inr (EBlock b, r)"
    by (rule block_read_in [OF assms(2)]) (use assms(3,4) in auto)
  moreover have "p_expression (js_parsers U n) (Suc d) (r0 N e @ lit '')'' # block_text (map (render N) b) @ r)
      = Inr (e, lit '')'' # block_text (map (render N) b) @ r)"
    by (rule element_expression [OF assms(1,4)]) (use assms(3) in \<open>auto simp: quiet_closer closers_def\<close>)
  ultimately show ?thesis by (simp add: for_body_def expect_def as_block_def)
qed

lemma sreads_for:
  assumes "element U N h e" and "\<forall>s\<in>set b. stmt U N h s" and "is_identifier U x"
  shows "height (EForIn x k e b) = Suc h \<Longrightarrow> sreads U N (EForIn x k e b)"
    and "height (EForOf x k e b) = Suc h \<Longrightarrow> sreads U N (EForOf x k e b)"
proof -
  show "sreads U N (EForIn x k e b)" if "height (EForIn x k e b) = Suc h"
  proof (rule sreads_intro)
    fix n d r
    let ?v = "r0 N e @ lit '')'' # block_text (map (render N) b) @ lit '';'' # r"
    assume a: "length (rs N (EForIn x k e b) @ lit '';'' # r) \<le> n" "Suc d + 3 * height (EForIn x k e b) < MAX_PARSE_DEPTH"
    have "for_body (js_parsers U n) d m f ?v = Inr (f e b, lit '';'' # r)" for m f
      by (rule for_body_read [OF assms(1,2)]) (use a that in auto)
    then show "parse_statement U (js_parsers U n) d (rs N (EForIn x k e b) @ lit '';'' # r) = Inr (EForIn x k e b, lit '';'' # r)"
      using assms(3) by (simp add: parse_statement_def for_statement_def lit_eq_iff expect_def for_kind_read member_name_def)
  qed
  show "sreads U N (EForOf x k e b)" if "height (EForOf x k e b) = Suc h"
  proof (rule sreads_intro)
    fix n d r
    let ?v = "r0 N e @ lit '')'' # block_text (map (render N) b) @ lit '';'' # r"
    assume a: "length (rs N (EForOf x k e b) @ lit '';'' # r) \<le> n" "Suc d + 3 * height (EForOf x k e b) < MAX_PARSE_DEPTH"
    have "for_body (js_parsers U n) d m f ?v = Inr (f e b, lit '';'' # r)" for m f
      by (rule for_body_read [OF assms(1,2)]) (use a that in auto)
    then show "parse_statement U (js_parsers U n) d (rs N (EForOf x k e b) @ lit '';'' # r) = Inr (EForOf x k e b, lit '';'' # r)"
      using assms(3) by (simp add: parse_statement_def for_statement_def lit_eq_iff expect_def for_kind_read member_name_def)
  qed
qed

lemma sreads_block:
  assumes "\<forall>s\<in>set ss. stmt U N h s" and "height (EBlock ss) = Suc h"
  shows "sreads U N (EBlock ss)"
  by (rule sreads_intro) (use block_read [OF assms(1)] assms(2) in simp)

lemma sreads_declaration:
  assumes "element U N h e" and "height e = h" and "is_identifier U x"
  shows "sreads U N (EVariableDeclaration x e k)"
proof (rule sreads_intro)
  fix n d r assume a: "length (rs N (EVariableDeclaration x e k) @ lit '';'' # r) \<le> n"
    "Suc d + 3 * height (EVariableDeclaration x e k) < MAX_PARSE_DEPTH"
  have "p_expression (js_parsers U n) (Suc d) (r0 N e @ lit '';'' # r) = Inr (e, lit '';'' # r)"
    by (rule element_expression [OF assms(1)]) (use a assms(2) in \<open>auto simp: quiet_closer closers_def\<close>)
  then show "parse_statement U (js_parsers U n) d (rs N (EVariableDeclaration x e k) @ lit '';'' # r)
      = Inr (EVariableDeclaration x e k, lit '';'' # r)"
    using assms(3) by (cases k) (simp_all add: parse_statement_def kind_text_def declaration_statement_def lit_eq_iff)
qed

lemma sreads_return:
  assumes "reads U N e" and "printable U N e" and "\<not> is_statement e"
  shows "sreads U N (EReturn e)"
proof (rule sreads_intro)
  fix n d r assume a: "length (rs N (EReturn e) @ lit '';'' # r) \<le> n" "Suc d + 3 * height (EReturn e) < MAX_PARSE_DEPTH"
  then obtain m where n: "n = Suc m" by (cases n) auto
  have "parse_expression U (js_parsers U m) (Suc d) (rs N e @ lit '';'' # r) = Inr (e, lit '';'' # r)"
    by (rule statement_expression [OF assms]) (use a n in \<open>auto simp: quiet_closer closers_def\<close>)
  moreover have "statement_start (rs N e)" by (rule expression_statement(2) [OF assms])
  ultimately show "parse_statement U (js_parsers U n) d (rs N (EReturn e) @ lit '';'' # r) = Inr (EReturn e, lit '';'' # r)"
    by (cases "rs N e") (auto simp: parse_statement_def return_statement_def lit_eq_iff n statement_start_def)
qed

lemma sreads_throw:
  assumes "element U N h e" and "height e = h"
  shows "sreads U N (EThrow e)"
proof (rule sreads_intro)
  fix n d r assume a: "length (rs N (EThrow e) @ lit '';'' # r) \<le> n" "Suc d + 3 * height (EThrow e) < MAX_PARSE_DEPTH"
  have "p_expression (js_parsers U n) (Suc d) (r0 N e @ lit '';'' # r) = Inr (e, lit '';'' # r)"
    by (rule element_expression [OF assms(1)]) (use a assms(2) in \<open>auto simp: quiet_closer closers_def\<close>)
  moreover have "\<not> peek '';'' (r0 N e @ lit '';'' # r)" "r0 N e \<noteq> []"
    using good_marks(5,7) [OF elementD(2) [OF assms(1), of 0]] by simp_all
  ultimately show "parse_statement U (js_parsers U n) d (rs N (EThrow e) @ lit '';'' # r) = Inr (EThrow e, lit '';'' # r)"
    by (simp add: parse_statement_def throw_statement_def lit_eq_iff)
qed

lemma sreads_jump:
  assumes "case l of None \<Rightarrow> True | Some x \<Rightarrow> is_identifier U x"
  shows "sreads U N (EBreak l)" and "sreads U N (EContinue l)"
proof -
  have m: "\<not> is_identifier U (lit '';'')" by (rule mark_plain) (simp add: marks_def)
  have "jump_label U ((case l of None \<Rightarrow> [] | Some x \<Rightarrow> [x]) @ lit '';'' # r) = (l, lit '';'' # r)" for r
    using assms m by (cases l) (auto simp: jump_label_def)
  then show "sreads U N (EBreak l)" "sreads U N (EContinue l)"
    by (auto intro!: sreads_intro simp: parse_statement_def lit_eq_iff)
qed

lemma sreads_try:
  assumes "\<forall>s\<in>set t \<union> set c \<union> set f. stmt U N h s" and "height (ETryCatchFinally t x c f) = Suc h"
    and "printable U N (ETryCatchFinally t x c f)"
  shows "sreads U N (ETryCatchFinally t x c f)"
proof (rule sreads_intro)
  fix n d r
  let ?R = "js_parsers U n"
  let ?f = "(if f = [] then [] else lit ''finally'' # block_text (map (render N) f)) @ lit '';'' # r"
  let ?c = "(case x of None \<Rightarrow> [] | Some b \<Rightarrow> [lit ''catch'', lit ''('', b, lit '')''] @ block_text (map (render N) c)) @ ?f"
  assume a: "length (rs N (ETryCatchFinally t x c f) @ lit '';'' # r) \<le> n"
    "Suc d + 3 * height (ETryCatchFinally t x c f) < MAX_PARSE_DEPTH"
  have src: "rs N (ETryCatchFinally t x c f) @ lit '';'' # r = lit ''try'' # block_text (map (render N) t) @ ?c" by simp
  note len = a(1) [unfolded src]
  have body: "braced ?R d m (stmts_text (map (render N) ss) @ lit ''}'' # u) = Inr (ss, u)"
    if "set ss \<subseteq> set t \<union> set c \<union> set f" "length (stmts_text (map (render N) ss) @ lit ''}'' # u) < n" for ss m u
    by (rule braced_read [of _ U N h]) (use that assms(1,2) a(2) in auto)
  have "finally_clause ?R d ?f = Inr (f, lit '';'' # r)"
    using len body [of f "lit '';'' # r"] by (auto simp: finally_clause_def block_text_def expect_def lit_eq_iff)
  moreover have "catch_clause U ?R d ?c = Inr ((x, c), ?f)"
  proof (cases x)
    case None
    with assms(3) show ?thesis by (auto simp: catch_clause_def lit_eq_iff)
  next
    case (Some b)
    have "is_identifier U b" using assms(3) Some by simp
    moreover have "braced ?R d m (stmts_text (map (render N) c) @ lit ''}'' # ?f) = Inr (c, ?f)" for m
      by (rule body) (use len Some in \<open>auto simp: block_text_def\<close>)
    ultimately show ?thesis using Some by (simp add: catch_clause_def block_text_def expect_def member_name_def)
  qed
  moreover have "braced ?R d m (stmts_text (map (render N) t) @ lit ''}'' # ?c) = Inr (t, ?c)" for m
    by (rule body) (use len in \<open>auto simp: block_text_def\<close>)
  moreover have "x \<noteq> None \<or> f \<noteq> []" using assms(3) by (cases x) auto
  ultimately have "try_statement U ?R d (block_text (map (render N) t) @ ?c) = Inr (ETryCatchFinally t x c f, lit '';'' # r)"
    by (simp add: try_statement_def block_text_def expect_def del: append.append_Cons [symmetric])
  then show "parse_statement U ?R d (rs N (ETryCatchFinally t x c f) @ lit '';'' # r) = Inr (ETryCatchFinally t x c f, lit '';'' # r)"
    unfolding src by (simp add: parse_statement_def lit_eq_iff)
qed

lemma sreads_switch:
  assumes "element U N h e" and "\<forall>c\<in>set cs. clause U N h c" and "\<And>ss. df = Some ss \<Longrightarrow> \<forall>s\<in>set ss. stmt U N h s"
    and "height (ESwitch e cs df) = Suc h"
  shows "sreads U N (ESwitch e cs df)"
proof (rule sreads_intro)
  fix n d r
  let ?R = "js_parsers U n"
  let ?d = "(case df of None \<Rightarrow> [] | Some ss \<Rightarrow> [lit ''default'', lit '':''] @ stmts_text (map (render N) ss)) @ lit ''}'' # lit '';'' # r"
  let ?cs = "concat (map (case_text N) cs) @ ?d"
  assume a: "length (rs N (ESwitch e cs df) @ lit '';'' # r) \<le> n" "Suc d + 3 * height (ESwitch e cs df) < MAX_PARSE_DEPTH"
  have src: "rs N (ESwitch e cs df) @ lit '';'' # r = lit ''switch'' # lit ''('' # r0 N e @ lit '')'' # lit ''{'' # ?cs"
    by (cases df) (simp_all add: comp_def)
  note len = a(1) [unfolded src]
  have cond: "condition ?R d m1 m2 (lit ''('' # r0 N e @ lit '')'' # lit ''{'' # ?cs) = Inr (e, lit ''{'' # ?cs)" for m1 m2
    by (rule condition_read [OF assms(1)]) (use len a(2) assms(4) in auto)
  have d: "Suc (Suc d) + 3 * h < MAX_PARSE_DEPTH" using a(2) assms(4) by simp
  have "\<exists>w2. turns (switch_turn ?R d) switch_start ?cs = turns (switch_turn ?R d) w2 ?d \<and>
      commit_case w2 = switch_start\<lparr>sw_cases := sw_cases switch_start @ cs\<rparr>"
    by (rule switch_cases_read [OF assms(2) d])
      (use len in \<open>auto simp: commit_case_def switch_start_def lit_eq_iff split: option.splits\<close>)
  then obtain w2 where w2: "turns (switch_turn ?R d) switch_start ?cs = turns (switch_turn ?R d) w2 ?d"
      "commit_case w2 = switch_start\<lparr>sw_cases := cs\<rparr>" by (auto simp: switch_start_def)
  have closing: "turns (switch_turn ?R d) w (lit ''}'' # lit '';'' # r) = Inr (w, lit ''}'' # lit '';'' # r)" for w
    by (rule turns_stop) (simp add: switch_turn_def)
  have "\<exists>w3. turns (switch_turn ?R d) switch_start ?cs = Inr (w3, lit ''}'' # lit '';'' # r) \<and>
      sw_cases (commit_case w3) = cs \<and> sw_default (commit_case w3) = df"
  proof (cases df)
    case None
    with w2 closing [of w2] show ?thesis by (auto simp: switch_start_def)
  next
    case (Some ss)
    let ?t = "stmts_text (map (render N) ss) @ lit ''}'' # lit '';'' # r"
    let ?w = "(commit_case w2)\<lparr>sw_header := Some None\<rparr>"
    have "switch_turn ?R d w2 (lit ''default'' # lit '':'' # ?t) = continue_with ?w ?t"
      by (simp add: switch_turn_def expect_def lit_eq_iff w2(2) switch_start_def Let_def)
    then have "turns (switch_turn ?R d) w2 (lit ''default'' # lit '':'' # ?t) = turns (switch_turn ?R d) ?w ?t"
      by (rule turns_continue) simp
    also have "\<dots> = turns (switch_turn ?R d) (?w\<lparr>sw_body := sw_body ?w @ ss\<rparr>) (lit ''}'' # lit '';'' # r)"
      by (rule switch_statements_read [OF assms(3) [OF Some] d]) (use len Some in \<open>auto simp: lit_eq_iff\<close>)
    finally show ?thesis using w2 Some closing by (simp add: switch_start_def commit_case_def)
  qed
  with cond have "switch_statement ?R d (lit ''('' # r0 N e @ lit '')'' # lit ''{'' # ?cs) = Inr (ESwitch e cs df, lit '';'' # r)"
    by (auto simp: switch_statement_def expect_def Let_def)
  then show "parse_statement U ?R d (rs N (ESwitch e cs df) @ lit '';'' # r) = Inr (ESwitch e cs df, lit '';'' # r)"
    unfolding src by (simp add: parse_statement_def lit_eq_iff)
qed

lemma function_read:
  assumes "list_all (param_ok U) ps" and "\<forall>s\<in>set ss. stmt U N h s" and "Suc (Suc (Suc d)) + 3 * h < MAX_PARSE_DEPTH"
    and "length (x # params_text ps @ block_text (map (render N) ss) @ r) < n"
  shows "function_statement (js_parsers U n) d (x # params_text ps @ block_text (map (render N) ss) @ r)
    = Inr (EFunctionDef x ps (EBlock ss), r)"
proof -
  have "braced (js_parsers U n) d m (stmts_text (map (render N) ss) @ lit ''}'' # r) = Inr (ss, r)" for m
    by (rule braced_read [OF assms(2)]) (use assms(3,4) in \<open>auto simp: block_text_def params_text_def\<close>)
  moreover have "map Plain (map param_name ps) = ps" by (simp add: param_text_name comp_def)
  ultimately show ?thesis using params_read [OF assms(1), of "[]"]
    by (simp add: function_statement_def params_text_def block_text_def expect_def)
qed

lemma sreads_function:
  assumes "list_all (param_ok U) ps" and "\<forall>s\<in>set ss. stmt U N h s" and "height (EBlock ss) = Suc h"
  shows "sreads U N (EFunctionDef x ps (EBlock ss))" and "sreads U N (EAsyncFunctionDef x ps (EBlock ss))"
proof -
  let ?t = "\<lambda>r. x # params_text ps @ block_text (map (render N) ss) @ lit '';'' # r"
  have f: "parse_statement U (js_parsers U n) d (lit ''function'' # ?t r) = Inr (EFunctionDef x ps (EBlock ss), lit '';'' # r)"
    if "length (lit ''function'' # ?t r) \<le> n" "Suc (Suc (Suc d)) + 3 * h < MAX_PARSE_DEPTH" for n d r
    using function_read [OF assms(1,2) that(2), of x "lit '';'' # r" n] that(1) by (simp add: parse_statement_def lit_eq_iff)
  show "sreads U N (EFunctionDef x ps (EBlock ss))"
    by (rule sreads_intro) (use f assms(3) in simp)
  show "sreads U N (EAsyncFunctionDef x ps (EBlock ss))"
  proof (rule sreads_intro)
    fix n d r assume a: "length (rs N (EAsyncFunctionDef x ps (EBlock ss)) @ lit '';'' # r) \<le> n"
      "Suc d + 3 * height (EAsyncFunctionDef x ps (EBlock ss)) < MAX_PARSE_DEPTH"
    then obtain m where n: "n = Suc m" by (cases n) auto
    have "parse_statement U (js_parsers U m) (Suc d) (lit ''function'' # ?t r) = Inr (EFunctionDef x ps (EBlock ss), lit '';'' # r)"
      by (rule f) (use a n assms(3) in auto)
    then show "parse_statement U (js_parsers U n) d (rs N (EAsyncFunctionDef x ps (EBlock ss)) @ lit '';'' # r)
        = Inr (EAsyncFunctionDef x ps (EBlock ss), lit '';'' # r)"
      by (simp add: parse_statement_def async_statement_def lit_eq_iff n)
  qed
qed

section \<open>Every printable program is read back\<close>

text \<open>A block and a \<^verbatim>\<open>return\<close> also pass on what is known of their parts, which a function body needs.\<close>

definition reads_back :: "char_tables \<Rightarrow> (f64 \<Rightarrow> ustr) \<Rightarrow> js_expr \<Rightarrow> bool" where
  "reads_back U N e \<longleftrightarrow> (\<not> is_statement e \<longrightarrow> reads U N e) \<and> sreads U N e \<and> statement_start (rs N e) \<and>
     (\<forall>ss. e = EBlock ss \<longrightarrow> (\<forall>s\<in>set ss. stmt U N (highest (map height ss)) s)) \<and>
     (\<forall>v. e = EReturn v \<longrightarrow> element U N (height v) v)"

lemma back_expression: "reads U N e \<Longrightarrow> printable U N e \<Longrightarrow> \<not> is_statement e \<Longrightarrow> reads_back U N e"
  by (auto simp: reads_back_def expression_statement is_statement_def)

lemma statement_starts: "is_statement e \<Longrightarrow> statement_start (rs N e)"
  by (cases e) (auto simp: is_statement_def statement_start_def block_text_def lit_eq_iff kind_text_def
      split: declaration_kind.split)

lemma back_statement:
  "sreads U N e \<Longrightarrow> is_statement e \<Longrightarrow> \<not> is_block e \<Longrightarrow> \<not> is_return e \<Longrightarrow> reads_back U N e"
  by (auto simp: reads_back_def statement_starts is_block_def is_return_def)

lemma back_element:
  assumes "printable U N e" and "\<not> is_statement e" and "printable U N e \<Longrightarrow> reads_back U N e" and "height e \<le> h"
  shows "element U N h e"
  using assms render_good [OF assms(1,2)] by (simp add: element_def reads_back_def)

lemma back_stmt:
  assumes "printable U N s" and "printable U N s \<Longrightarrow> reads_back U N s" and "height s \<le> h"
  shows "stmt U N h s"
  using assms by (simp add: stmt_def reads_back_def)

lemma all_exprs_map: "all_exprs es (map f es) \<longleftrightarrow> (\<forall>e\<in>set es. \<not> is_statement e \<and> f e)"
  by (auto simp: all_exprs_def list_all_iff)

lemma all_printable: "list_all id (map f es) \<longleftrightarrow> (\<forall>e\<in>set es. f e)"
  by (auto simp: list_all_iff)

lemma highest_set: "n \<in> set ns \<Longrightarrow> n \<le> highest ns"
  using highest_le [of ns "highest ns"] by blast

lemmas parts = all_exprs_Cons all_exprs_Nil all_exprs_map all_printable

lemma printable_reads_back: "printable U N e \<Longrightarrow> reads_back U N e"
proof (induction e)
  case (EArrayLiteral es)
  have "\<forall>e\<in>set es. element U N (highest (map height es)) e"
    using EArrayLiteral by (auto simp: parts intro!: back_element highest_set)
  then show ?case using EArrayLiteral.prems by (intro back_expression reads_array) (simp_all add: is_statement_def)
next
  case (EObjectLiteral kvs)
  have "element U N (highest (map snd (map (map_prod id height) kvs))) (snd kv)" if "kv \<in> set kvs" for kv
    using EObjectLiteral.prems that EObjectLiteral.IH [OF that, of "snd kv"]
    by (intro back_element highest_set) (auto simp: all_exprs_def list_all_iff snds.simps)
  then show ?case using EObjectLiteral.prems by (intro back_expression reads_object) (simp_all add: is_statement_def)
next
  case (ETemplate ps)
  let ?h = "highest (map (case_sum (\<lambda>_. 0) id) (map (map_sum id height) ps))"
  have "element U N ?h e" if "Inr e \<in> set ps" for e
    using ETemplate.prems that ETemplate.IH [OF that, of e]
    by (intro back_element highest_set) (force simp: list_all_iff)+
  then show ?case using ETemplate.prems by (intro back_expression reads_template [where h = ?h]) (auto simp: is_statement_def)
next
  case (EBinaryOp l op r)
  let ?h = "highest [height l, height r]"
  have e: "element U N ?h l" "element U N ?h r"
    using EBinaryOp by (auto simp: parts intro!: back_element highest_set)
  then show ?case using EBinaryOp.prems reads_binary [OF e] reads_instanceof [OF e]
    by (intro back_expression) (cases "op = Instanceof"; simp add: is_statement_def)+
next
  case (EIndex b k)
  let ?h = "highest [height b, height k]"
  have "element U N ?h b" "element U N ?h k" using EIndex by (auto simp: parts intro!: back_element highest_set)
  then show ?case using EIndex.prems by (intro back_expression reads_index) (simp_all add: is_statement_def)
next
  case (EOptionalIndex b k)
  let ?h = "highest [height b, height k]"
  have "element U N ?h b" "element U N ?h k" using EOptionalIndex by (auto simp: parts intro!: back_element highest_set)
  then show ?case using EOptionalIndex.prems by (intro back_expression reads_optional_index) (simp_all add: is_statement_def)
next
  case (EMember b p)
  have "element U N (height b) b" using EMember by (simp add: parts back_element)
  then show ?case using EMember.prems by (intro back_expression reads_member) (simp_all add: is_statement_def)
next
  case (EOptionalMember b p)
  have "element U N (height b) b" using EOptionalMember by (simp add: parts back_element)
  then show ?case using EOptionalMember.prems by (intro back_expression reads_optional_member) (simp_all add: is_statement_def)
next
  case (EUnaryOp op e)
  have "element U N (height e) e" using EUnaryOp by (simp add: parts back_element)
  then show ?case using EUnaryOp.prems by (intro back_expression reads_prefix(1)) (simp_all add: is_statement_def parts)
next
  case (EAwait e)
  have "element U N (height e) e" using EAwait by (simp add: parts back_element)
  then show ?case using EAwait.prems by (intro back_expression reads_prefix(2)) (simp_all add: is_statement_def parts)
next
  case (EUpdate e pre inc)
  have e: "element U N (height e) e" using EUpdate by (simp add: parts back_element)
  have "reads U N (EUpdate e pre inc)"
    using EUpdate.prems reads_prefix(3) [OF e] reads_postfix [OF e] by (cases pre) (simp_all add: parts)
  then show ?case using EUpdate.prems by (intro back_expression) (simp_all add: is_statement_def)
next
  case (ECall f args)
  let ?h = "highest (height f # map height args)"
  have "element U N ?h f" "\<forall>e\<in>set args. element U N ?h e"
    using ECall by (auto simp: parts intro!: back_element highest_set)
  then show ?case using ECall.prems by (intro back_expression reads_call) (simp_all add: is_statement_def)
next
  case (ENewExpr f args)
  let ?h = "highest (height f # map height args)"
  have "element U N ?h f" "\<forall>e\<in>set args. element U N ?h e"
    using ENewExpr by (auto simp: parts intro!: back_element highest_set)
  then show ?case using ENewExpr.prems by (intro back_expression reads_new) (simp_all add: is_statement_def)
next
  case (EAssignment x e)
  have l: "element U N (height e) (EIdentifier x)"
    using EAssignment.prems height_pos [of e] by (intro back_element) (auto simp: is_statement_def reads_name intro: back_expression)
  have "element U N (height e) e" using EAssignment by (simp add: parts back_element)
  then have "reads U N (EAssignment x e)"
    by (rule reads_assign [OF l, where f = "EAssignment x"])
      (use EAssignment.prems in \<open>simp_all add: is_statement_def simple_assign_def fit_def\<close>)
  then show ?case using EAssignment.prems by (intro back_expression) (simp_all add: is_statement_def)
next
  case (EMemberAssignment b p e)
  let ?h = "highest [Suc (height b), height e]"
  have b: "element U N (height b) b" and e: "element U N ?h e"
    using EMemberAssignment by (auto simp: parts intro!: back_element highest_set)
  have "reads U N (EMember b p)" using EMemberAssignment.prems by (intro reads_member [OF b]) (simp add: parts)
  then have l: "element U N ?h (EMember b p)"
    using EMemberAssignment.prems highest_set [of "Suc (height b)" "[Suc (height b), height e]"]
    by (intro back_element) (auto simp: is_statement_def parts intro: back_expression)
  have "reads U N (EMemberAssignment b p e)"
    by (rule reads_assign [OF l e, where f = "EMemberAssignment b p"])
      (use EMemberAssignment.prems in \<open>simp_all add: is_statement_def simple_assign_def fit_def\<close>)
  then show ?case using EMemberAssignment.prems by (intro back_expression) (simp_all add: is_statement_def)
next
  case (EIndexAssignment b k e)
  let ?h = "highest [Suc (height b), Suc (height k), height e]" and ?h2 = "highest [height b, height k]"
  have b: "element U N ?h2 b" and k: "element U N ?h2 k" and e: "element U N ?h e"
    using EIndexAssignment by (auto simp: parts intro!: back_element highest_set)
  have "reads U N (EIndex b k)" using EIndexAssignment.prems by (intro reads_index [OF b k]) (simp_all add: parts)
  then have l: "element U N ?h (EIndex b k)"
    using EIndexAssignment.prems by (intro back_element) (auto simp: is_statement_def parts highest_def intro: back_expression)
  have "reads U N (EIndexAssignment b k e)"
    by (rule reads_assign [OF l e, where f = "EIndexAssignment b k"])
      (use EIndexAssignment.prems in \<open>simp_all add: is_statement_def simple_assign_def fit_def\<close>)
  then show ?case using EIndexAssignment.prems by (intro back_expression) (simp_all add: is_statement_def)
next
  case (ETernary c t e)
  let ?h = "highest [height c, height t, height e]"
  have "element U N ?h c" "element U N ?h t" "element U N ?h e"
    using ETernary by (auto simp: parts intro!: back_element highest_set)
  then show ?case using ETernary.prems by (intro back_expression reads_ternary) (simp_all add: is_statement_def)
next
  case (EFunctionExpr ps b a)
  have b: "reads_back U N b" using EFunctionExpr by simp
  have "is_block b \<or> is_return b" using EFunctionExpr.prems by simp
  then obtain h where "body_ok U N h b" "height b = Suc h"
  proof
    assume "is_block b"
    then obtain ss where ss: "b = EBlock ss" by (cases b) (simp_all add: is_block_def)
    with b show ?thesis by (intro that [of "highest (map height ss)"]) (auto simp: body_ok_def reads_back_def)
  next
    assume "is_return b"
    then obtain v where v: "b = EReturn v" by (cases b) (simp_all add: is_return_def)
    with b EFunctionExpr.prems show ?thesis
      by (intro that [of "height v"]) (auto simp: body_ok_def reads_back_def parts)
  qed
  then show ?case using EFunctionExpr.prems by (intro back_expression reads_arrow) (simp_all add: is_statement_def)
next
  case (EVariableDeclaration x e k)
  have "element U N (height e) e" using EVariableDeclaration by (simp add: parts back_element)
  then show ?case using EVariableDeclaration.prems
    by (intro back_statement sreads_declaration) (simp_all add: is_statement_def is_block_def is_return_def)
next
  case (EIf c ts es)
  let ?l = "height c # map height ts @ (case map_option (map height) es of None \<Rightarrow> [] | Some ns \<Rightarrow> ns)"
  have c: "element U N (highest ?l) c" and ts: "\<forall>s\<in>set ts. stmt U N (highest ?l) s"
    using EIf by (auto simp: parts intro!: back_element back_stmt highest_set)
  have es: "\<forall>s\<in>set ss. stmt U N (highest ?l) s" if "es = Some ss" for ss
    using EIf.prems EIf.IH(3) that by (auto simp: parts intro!: back_stmt highest_set)
  show ?case by (rule back_statement [OF sreads_if [OF c ts es]]) (simp_all add: is_statement_def is_block_def is_return_def)
next
  case (EWhile c b)
  let ?h = "highest (height c # map height b)"
  have "element U N ?h c" "\<forall>s\<in>set b. stmt U N ?h s"
    using EWhile by (auto simp: parts intro!: back_element back_stmt highest_set)
  then show ?case by (intro back_statement sreads_while) (simp_all add: is_statement_def is_block_def is_return_def)
next
  case (EDoWhile c b)
  let ?h = "highest (height c # map height b)"
  have "element U N ?h c" "\<forall>s\<in>set b. stmt U N ?h s"
    using EDoWhile by (auto simp: parts intro!: back_element back_stmt highest_set)
  then show ?case by (intro back_statement sreads_do) (simp_all add: is_statement_def is_block_def is_return_def)
next
  case (EForIn x k e b)
  let ?h = "highest (height e # map height b)"
  have "element U N ?h e" "\<forall>s\<in>set b. stmt U N ?h s"
    using EForIn by (auto simp: parts intro!: back_element back_stmt highest_set)
  then show ?case using EForIn.prems by (intro back_statement sreads_for(1)) (simp_all add: is_statement_def is_block_def is_return_def)
next
  case (EForOf x k e b)
  let ?h = "highest (height e # map height b)"
  have "element U N ?h e" "\<forall>s\<in>set b. stmt U N ?h s"
    using EForOf by (auto simp: parts intro!: back_element back_stmt highest_set)
  then show ?case using EForOf.prems by (intro back_statement sreads_for(2)) (simp_all add: is_statement_def is_block_def is_return_def)
next
  case (EBlock ss)
  have ss: "\<forall>s\<in>set ss. stmt U N (highest (map height ss)) s"
    using EBlock by (auto simp: parts intro!: back_stmt highest_set)
  then have "sreads U N (EBlock ss)" by (rule sreads_block) simp
  then show ?case using ss statement_starts [of "EBlock ss" N] by (simp add: reads_back_def is_statement_def)
next
  case (ETryCatchFinally t x c f)
  let ?h = "highest (map height t @ map height c @ map height f)"
  have "\<forall>s\<in>set t \<union> set c \<union> set f. stmt U N ?h s"
    using ETryCatchFinally by (auto simp: parts intro!: back_stmt highest_set)
  then show ?case using ETryCatchFinally.prems
    by (intro back_statement sreads_try) (simp_all add: is_statement_def is_block_def is_return_def)
next
  case (ESwitch e cs df)
  let ?cs = "concat (map (\<lambda>c. (case fst c of None \<Rightarrow> [] | Some n \<Rightarrow> [n]) @ snd c) (map (map_prod (map_option height) (map height)) cs))"
  let ?l = "height e # ?cs @ (case map_option (map height) df of None \<Rightarrow> [] | Some ns \<Rightarrow> ns)"
  have e: "element U N (highest ?l) e" using ESwitch by (auto simp: parts intro!: back_element highest_set)
  have cs: "clause U N (highest ?l) c" if c: "c \<in> set cs" for c
  proof -
    obtain w ss where co: "c = (w, ss)" by (cases c)
    have "case w of None \<Rightarrow> False | Some v \<Rightarrow> \<not> is_statement v \<and> printable U N v" "\<forall>s\<in>set ss. printable U N s"
      using ESwitch.prems c co by (auto simp: list_all_iff split: option.splits)
    then obtain v where v: "w = Some v" "\<not> is_statement v" "printable U N v" by (auto split: option.splits)
    have "height v \<in> set ?cs" "height ` set ss \<subseteq> set ?cs" using c co v(1) by force+
    moreover have "n \<le> highest ?l" if "n \<in> set ?cs" for n
      by (rule highest_set) (use that in \<open>simp only: list.set set_append Un_iff insert_iff simp_thms\<close>)
    ultimately have h: "height v \<le> highest ?l" "\<forall>s\<in>set ss. height s \<le> highest ?l" by blast+
    have "element U N (highest ?l) v"
      using ESwitch.IH(2) [OF c, of w v] co v h(1) by (intro back_element) (auto simp: fsts.simps)
    moreover have "\<forall>s\<in>set ss. stmt U N (highest ?l) s"
      using ESwitch.IH(3) [OF c, of ss] co \<open>\<forall>s\<in>set ss. printable U N s\<close> h(2) by (auto simp: snds.simps intro!: back_stmt)
    ultimately show ?thesis using co v(1) by (simp add: clause_def)
  qed
  have df: "\<forall>s\<in>set ss. stmt U N (highest ?l) s" if "df = Some ss" for ss
    using ESwitch.prems ESwitch.IH(4) that by (auto simp: parts intro!: back_stmt highest_set)
  show ?case by (rule back_statement [OF sreads_switch [OF e _ df]]) (use cs in \<open>simp_all add: is_statement_def is_block_def is_return_def\<close>)
next
  case (EFunctionDef x ps b)
  obtain ss where b: "b = EBlock ss" using EFunctionDef.prems by (cases b) (simp_all add: is_block_def)
  have "\<forall>s\<in>set ss. stmt U N (highest (map height ss)) s" using EFunctionDef b by (simp add: reads_back_def)
  then show ?case unfolding b using EFunctionDef.prems
    by (intro back_statement sreads_function(1)) (simp_all add: is_statement_def is_block_def is_return_def)
next
  case (EAsyncFunctionDef x ps b)
  obtain ss where b: "b = EBlock ss" using EAsyncFunctionDef.prems by (cases b) (simp_all add: is_block_def)
  have "\<forall>s\<in>set ss. stmt U N (highest (map height ss)) s" using EAsyncFunctionDef b by (simp add: reads_back_def)
  then show ?case unfolding b using EAsyncFunctionDef.prems
    by (intro back_statement sreads_function(2)) (simp_all add: is_statement_def is_block_def is_return_def)
next
  case (EReturn e)
  have e: "element U N (height e) e" using EReturn by (simp add: parts back_element)
  have "sreads U N (EReturn e)" by (rule sreads_return [OF elementD(1) [OF e]]) (use EReturn.prems in \<open>simp_all add: parts\<close>)
  then show ?case using e statement_starts [of "EReturn e" N] by (simp add: reads_back_def is_statement_def)
next
  case (EThrow e)
  have "element U N (height e) e" using EThrow by (simp add: parts back_element)
  then show ?case by (intro back_statement sreads_throw) (simp_all add: is_statement_def is_block_def is_return_def)
next
  case (EBreak l)
  then show ?case by (intro back_statement sreads_jump(1)) (simp_all add: is_statement_def is_block_def is_return_def)
next
  case (EContinue l)
  then show ?case by (intro back_statement sreads_jump(2)) (simp_all add: is_statement_def is_block_def is_return_def)
qed (auto intro!: back_expression reads_number reads_string reads_constant reads_name reads_import simp: is_statement_def)

section \<open>Programs\<close>

definition program_text :: "(f64 \<Rightarrow> ustr) \<Rightarrow> js_expr list \<Rightarrow> token list" where
  "program_text N ss = stmts_text (map (render N) ss)"

definition program_height :: "js_expr list \<Rightarrow> nat" where
  "program_height ss = highest (map height ss)"

lemma parse_printed:
  assumes "\<forall>s\<in>set ss. printable U N s" and "3 * program_height ss + 1 < MAX_PARSE_DEPTH"
  shows "parse_program U (program_text N ss) = Inr (ss, [])"
proof -
  let ?ts = "program_text N ss"
  have "\<forall>s\<in>set ss. stmt U N (program_height ss) s"
    using assms(1) printable_reads_back by (auto simp: program_height_def intro!: back_stmt highest_set)
  then have "turns (statement_turn U (js_parsers U (length ?ts)) 0) [] (stmts_text (map (render N) ss) @ []) = Inr ([] @ ss, [])"
    by (rule statements_read) (use assms(2) in \<open>simp_all add: program_text_def\<close>)
  then show ?thesis by (simp add: parse_program_def parse_statements_def program_text_def)
qed

lemma compile_printed:
  assumes "\<forall>s\<in>set ss. printable U N s" and "3 * program_height ss + 1 < MAX_PARSE_DEPTH"
    and "tables_ok U" and "\<forall>t\<in>set (program_text N ss). plain_token U t" and "length (program_text N ss) < MAX_TOKENS"
    and "byte_len (source_text (program_text N ss)) \<le> MAX_SOURCE_BYTES" and "max_parse_depth (program_text N ss) \<le> MAX_PARSE_DEPTH"
  shows "compile_script U (source_text (program_text N ss)) = Inr ss"
proof -
  have t: "tokenize U (source_text (program_text N ss)) = Inr (program_text N ss)"
    by (rule tokenize_source [OF assms(3,4,5,6)])
  have "ss = []" if "program_text N ss = []" using that by (cases ss) (simp_all add: program_text_def stmts_text_Cons)
  with t parse_printed [OF assms(1,2)] assms(7) show ?thesis by (auto simp: compile_script_def)
qed

lemma parse_program_ends: "parse_program U ts \<noteq> Inl Unfinished"
  unfolding parse_program_def by (rule parse_program_agrees(2)) simp

lemma compile_script_ends: "compile_script U code \<noteq> Inl Unfinished"
  using tokenize_ends [of U code] parse_program_ends
  by (auto simp: compile_script_def result_simps split: if_splits)

section \<open>Nesting\<close>

text \<open>A chain of prefix operators is cut off at the depth limit, whatever follows it.\<close>

lemma unary_chain_limit:
  assumes "m + d > MAX_PARSE_DEPTH" and "d \<le> MAX_PARSE_DEPTH" and "m \<le> n"
  shows "parse_unary U (js_parsers U n) d (replicate m (lit ''!'') @ t # r) = Inl (Msg ''Expression nesting depth exceeded'')"
  using assms
proof (induction m arbitrary: n d)
  case (Suc m)
  then obtain k where n: "n = Suc k" by (cases n) auto
  have "parse_unary U (js_parsers U k) (Suc d) (replicate m (lit ''!'') @ t # r) = Inl (Msg ''Expression nesting depth exceeded'')"
  proof (cases "Suc d \<le> MAX_PARSE_DEPTH")
    case True
    then show ?thesis using Suc.prems n by (intro Suc.IH) auto
  next
    case False
    then show ?thesis by (simp add: parse_unary_def)
  qed
  then show ?case using Suc.prems n by (simp add: parse_unary_def Let_def lit_eq_iff)
qed simp

text \<open>
  A chain of \<^verbatim>\<open>do\<close> is not: at every depth, beyond the limit too, each \<^verbatim>\<open>do\<close> is one more recursive call,
  and the only error is the missing body.
\<close>

lemma do_chain_recurses:
  assumes "m < n"
  shows "p_statement (js_parsers U n) d (replicate m (lit ''do'')) = Inl (Msg ''Unexpected end of input'')"
  using assms
proof (induction m arbitrary: n d)
  case 0
  then obtain k where "n = Suc k" by (cases n) auto
  then show ?case by (simp add: parse_statement_def)
next
  case (Suc m)
  then obtain k where n: "n = Suc k" by (cases n) auto
  with Suc.IH [of k "Suc d"] Suc.prems show ?case by (simp add: parse_statement_def do_statement_def lit_eq_iff)
qed

lemma do_chain_cut_off: "p_statement (js_parsers U m) d (replicate m (lit ''do'')) = Inl Unfinished"
  by (induction m arbitrary: d) (simp_all add: no_parsers_def parse_statement_def do_statement_def lit_eq_iff)

end
