(* ===== verification/Js_Examples.thy ===== *)
theory Js_Examples
  imports Js_Program
begin

text \<open>
  What the front end of the JavaScript engine does with some scripts, evaluated, among them the sources it reads
  differently from the language.
\<close>

lemmas js_eval = tokenize_def lex_loop.simps lex_step_def code_step_def template_step_def punctuation_step_def
  push_token_def track_bracket_def lex_start_def text_stops_def js_chars ident_start_def ident_char_def is_alphabetic_def
  is_alphanumeric_def is_ascii_alphanumeric_def is_ascii_alphabetic_def is_ascii_upper_def is_ascii_lower_def
  is_ascii_digit_def is_whitespace_def number_char_def single_chars_def three_char_ops_def two_char_ops_def
  quoted_def template_escape_def string_escape_def lit_def MAX_TOKENS_def MAX_SOURCE_BYTES_def utf8_len_def
  
lemma operator_at_the_end:
  "tokenize U (lit ''x++'') = Inr (map lit [''x'', ''+'', ''+''])"
  "tokenize U (lit ''x++;'') = Inr (map lit [''x'', ''++'', '';''])"
  by (simp add: js_eval cong: ebind_weak_cong)+

lemma js_parsers_numeral: "js_parsers U (numeral k) = level U (js_parsers U (pred_numeral k))"
  by (simp add: numeral_eq_Suc)

lemmas parse_eval = compile_script_def parse_program_def js_parsers_numeral js_parsers.simps parse_statements_def statement_turn_def
  parse_statement_def turns.simps continue_with_def stop_loop_def closes_def skip_tokens_def parse_expression_def
  parse_assignment_def parse_arrow_signature_def parse_or_def parse_nullish_def parse_and_def parse_equality_def
  parse_comparison_def parse_term_def parse_factor_def binary_level_def binary_turn_def parse_unary_def parse_call_def
  parse_primary_def literal_def call_turn_def assignment_rest_def factor_ops_def term_ops_def comparison_ops_def
  equality_ops_def compound_ops_def is_identifier_def Let_def max_parse_depth_def MAX_PARSE_DEPTH_def expect_def
  parse_f64_text_def unsigned_f64_def to_ascii_lowercase_def ascii_lower_def is_quoted_def braced_def try_statement_def
  catch_clause_def finally_clause_def simple_assign_def exponent_value_def arguments_def argument_turn_def
  switch_statement_def switch_turn_def commit_case_def switch_start_def condition_def unquote_def

lemma try_with_empty_finally:
  "compile_script U (lit ''try { a; } finally { }'') = Inl (Msg ''Try statement requires catch or finally'')"
  by (simp add: js_eval parse_eval cong: ebind_weak_cong)

text \<open>An operator of two characters and a comment need one more character behind them.\<close>

lemma update_at_the_end:
  "compile_script U (lit ''x++'') = Inl (MsgToken ''Unexpected token: '' (lit ''+''))"
  "compile_script U (lit ''x++;'') = Inr [EUpdate (EIdentifier (lit ''x'')) False True]"
  by (simp add: js_eval parse_eval cong: ebind_weak_cong)+

lemma unknown_character_at_the_end:
  "tokenize U (lit ''x@'') = Inr [lit ''x'']"
  "tokenize U (lit ''x@  '') = Inr [lit ''x'', lit ''@'']"
  by (simp add: js_eval cong: ebind_weak_cong)+

text \<open>In template text an escaped backslash gives two.\<close>

lemma template_backslash:
  "tokenize U (BACKQUOTE # BACKSLASH # BACKSLASH # [BACKQUOTE]) =
     Inr [[BACKQUOTE], quoted [BACKSLASH, BACKSLASH], BACKQUOTE # lit ''END'']"
  by (simp add: js_eval cong: ebind_weak_cong)

text \<open>A template literal inside an interpolation forgets the brackets that are open around it.\<close>

lemma nested_template_closes_early:
  "compile_script U ([BACKQUOTE] @ lit ''${[{a:'' @ [BACKQUOTE] @ lit ''${b}'' @ [BACKQUOTE] @ lit ''}]}'' @ [BACKQUOTE]) =
     Inl (Msg ''Expected ',' or '}' in object literal'')"
  by (simp add: js_eval parse_eval template_expression_def template_turn_def array_literal_def array_turn_def object_literal_def
      object_turn_def property_name_def cong: ebind_weak_cong)

text \<open>Names that Rust reads as numbers, exponents with a sign, and hexadecimal numbers.\<close>

lemma nan_is_no_name:
  "compile_script U (lit ''nan = x;'') = Inl (Msg ''Invalid assignment target'')"
  by (simp add: js_eval parse_eval cong: ebind_weak_cong)

lemma signed_exponent:
  "compile_script U (lit ''x = 1e-5;'') = Inl (MsgToken ''Unexpected token: '' (lit ''1e''))"
  by (simp add: js_eval parse_eval cong: ebind_weak_cong)

lemma hexadecimal_number:
  "tokenize U (lit ''0x10;'') = Inr (map lit [''0'', ''x10'', '';''])"
  by (simp add: js_eval cong: ebind_weak_cong)

text \<open>What follows a stray closing bracket is not read at all.\<close>

lemma stray_bracket_ends_script:
  "compile_script U (lit ''a; ) b(('') = Inr [EIdentifier (lit ''a'')]"
  by (simp add: js_eval parse_eval cong: ebind_weak_cong)

text \<open>A statement before the first \<^verbatim>\<open>case\<close> becomes the first of that case.\<close>

lemma switch_statement_before_case:
  "compile_script U (lit ''switch (x) { a; case y: b; }'') =
     Inr [ESwitch (EIdentifier (lit ''x'')) [(Some (EIdentifier (lit ''y'')), [EIdentifier (lit ''a''), EIdentifier (lit ''b'')])] None]"
  by (simp add: js_eval parse_eval cong: ebind_weak_cong)

text \<open>The place of \<^verbatim>\<open>default\<close> among the cases is lost.\<close>

lemma switch_default_first:
  "compile_script U (lit ''switch (x) { default: a; case y: b; }'') = compile_script U (lit ''switch (x) { case y: b; default: a; }'')"
  by (simp add: js_eval parse_eval cong: ebind_weak_cong)

text \<open>A word after \<^verbatim>\<open>break\<close> is its label, on the next line too.\<close>

lemma break_takes_next_line:
  "compile_script U (lit ''while (x) { break'' @ [10] @ lit ''y }'') =
     Inr [EWhile (EIdentifier (lit ''x'')) [EBreak (Some (lit ''y''))]]"
  by (simp add: js_eval parse_eval while_statement_def as_block_def jump_label_def cong: ebind_weak_cong)

section \<open>The front end as a whole\<close>

text \<open>C23. Compiling a script ends: for every source the tokenizer and the parser return tokens, a tree or an error, and a
  parse at any depth has the same result for every amount of fuel above the number of its tokens.
\<close>

theorem compile_script_total:
  "compile_script U code \<noteq> Inl Unfinished \<and>
   p_statements (js_parsers U (length ts + 1 + k)) d ts = p_statements (js_parsers U (length ts + 1)) d ts \<and>
   p_statements (js_parsers U (length ts + 1 + k)) d ts \<noteq> Inl Unfinished"
  using compile_script_ends parse_program_agrees [of ts "length ts + 1 + k" U d] by simp





lemma zero_parses: "parse_f64_text (lit ''0'') = Some 0"
  by code_simp








text \<open>The tokens of a script: at most \<^verbatim>\<open>MAX_TOKENS\<close> of them and no more than the source has characters, none
  empty, and one that starts with a quote has a second one at its end, so that no slice of the parser is out of range.
\<close>

theorem tokens_bounded:
  assumes "tokenize U code = Inr ts"
  shows "length ts \<le> MAX_TOKENS \<and> length ts \<le> length code \<and>
    (\<forall>t\<in>set ts. t \<noteq> [] \<and> (hd t = DQUOTE \<longrightarrow> 2 \<le> length t \<and> last t = DQUOTE))"
  using tokenize_shape [OF assms] by (simp add: token_shape_def)

theorem tokens_bounded_witness:
  "length (map lit [''x'', ''+'', ''+'']) \<le> MAX_TOKENS"
  using tokens_bounded [OF operator_at_the_end(1)] by blast



end
