(* ===== verification/Indexed_Db.thy ===== *)
theory Indexed_Db
  imports Unicode_Text Soft_Float Btree_Map "HOL-Library.Sorting_Algorithms"
begin

text \<open>
  \<^verbatim>\<open>src/src/indexeddb.rs\<close>: keys and their order, key ranges, cursors, object stores with unique and
  multi-entry indexes, databases, and the transactions of the engine with their rollback snapshots.
  A \<^verbatim>\<open>HashMap\<close> is the list of its bindings by key; where the order of its iteration shows, it is
  the argument \<open>order\<close>. \<^verbatim>\<open>serde_json::from_str\<close> is the argument \<open>parse\<close>. Writing the file of an origin is not
  modelled: its result is ignored by the operations.
\<close>

section \<open>Limits and errors\<close>

definition MAX_DBS_PER_ORIGIN :: nat where "MAX_DBS_PER_ORIGIN = 64"
definition MAX_STORES_PER_DB :: nat where "MAX_STORES_PER_DB = 256"
definition MAX_INDEXES_PER_STORE :: nat where "MAX_INDEXES_PER_STORE = 1024"
definition MAX_RECORDS_PER_ORIGIN :: nat where "MAX_RECORDS_PER_ORIGIN = 100000"
definition MAX_RECORD_VALUE_BYTES :: nat where "MAX_RECORD_VALUE_BYTES = 2 * 1024 * 1024"
definition MAX_CURSOR_RESULTS :: nat where "MAX_CURSOR_RESULTS = 10000"
definition MAX_INDEX_SCAN_MATCHES :: nat where "MAX_INDEX_SCAN_MATCHES = 100000"
definition MAX_KEY_BYTES :: nat where "MAX_KEY_BYTES = 64 * 1024"
definition MAX_OBJECT_STORE_VALUE_BYTES :: nat where "MAX_OBJECT_STORE_VALUE_BYTES = 32 * 1024 * 1024"
definition MAX_ORIGIN_VALUE_BYTES :: nat where "MAX_ORIGIN_VALUE_BYTES = 256 * 1024 * 1024"

lemmas idb_limits = MAX_DBS_PER_ORIGIN_def MAX_STORES_PER_DB_def MAX_INDEXES_PER_STORE_def MAX_RECORDS_PER_ORIGIN_def
  MAX_RECORD_VALUE_BYTES_def MAX_CURSOR_RESULTS_def MAX_INDEX_SCAN_MATCHES_def MAX_KEY_BYTES_def
  MAX_OBJECT_STORE_VALUE_BYTES_def MAX_ORIGIN_VALUE_BYTES_def

text \<open>The messages that name something keep the name.\<close>

datatype idb_error =
    Idb string
  | PathNotFound ustr
  | UnsupportedKey ustr
  | IndexExists ustr
  | NoSuchIndex ustr
  | UniqueIndexHolds ustr
  | StoreExists ustr

section \<open>Keys\<close>

datatype idb_key =
    KArray "idb_key list"
  | KString ustr
  | KDate f64
  | KNumber f64
  | KBinary bytes

fun type_rank :: "idb_key \<Rightarrow> nat" where
  "type_rank (KArray _) = 5"
| "type_rank (KString _) = 4"
| "type_rank (KDate _) = 3"
| "type_rank (KNumber _) = 2"
| "type_rank (KBinary _) = 1"

definition ord_cmp :: "'a::linorder \<Rightarrow> 'a \<Rightarrow> comp" where
  "ord_cmp a b = (if a < b then Less else if a = b then Equiv else Greater)"

text \<open>The order of numbers: NaN is below all of them.\<close>

definition float_cmp :: "f64 \<Rightarrow> f64 \<Rightarrow> comp" where
  "float_cmp a b =
     (if f64_is_nan a \<and> f64_is_nan b then Equiv
      else if f64_is_nan a then Less
      else if f64_is_nan b then Greater
      else if f64_lt a b then Less
      else if f64_eq a b then Equiv
      else Greater)"

text \<open>\<^verbatim>\<open>Ord::cmp\<close> of keys. Strings are ordered by their UTF-8 bytes, which is the order of their code points.\<close>

fun key_cmp :: "idb_key \<Rightarrow> idb_key \<Rightarrow> comp"
and keys_cmp :: "idb_key list \<Rightarrow> idb_key list \<Rightarrow> comp" where
  "key_cmp (KArray a) (KArray b) = keys_cmp a b"
| "key_cmp (KString a) (KString b) = ord_cmp a b"
| "key_cmp (KDate a) (KDate b) = float_cmp a b"
| "key_cmp (KNumber a) (KNumber b) = float_cmp a b"
| "key_cmp (KBinary a) (KBinary b) = ord_cmp a b"
| "key_cmp a b = ord_cmp (type_rank a) (type_rank b)"
| "keys_cmp [] [] = Equiv"
| "keys_cmp [] (_ # _) = Less"
| "keys_cmp (_ # _) [] = Greater"
| "keys_cmp (a # as) (b # bs) = (case key_cmp a b of Equiv \<Rightarrow> keys_cmp as bs | c \<Rightarrow> c)"

text \<open>The derived \<^verbatim>\<open>PartialEq\<close>: numbers by \<^verbatim>\<open>f64::eq\<close>, for which NaN differs from itself.\<close>

fun key_eq :: "idb_key \<Rightarrow> idb_key \<Rightarrow> bool"
and keys_eq :: "idb_key list \<Rightarrow> idb_key list \<Rightarrow> bool" where
  "key_eq (KArray a) (KArray b) \<longleftrightarrow> keys_eq a b"
| "key_eq (KString a) (KString b) \<longleftrightarrow> a = b"
| "key_eq (KDate a) (KDate b) \<longleftrightarrow> f64_eq a b"
| "key_eq (KNumber a) (KNumber b) \<longleftrightarrow> f64_eq a b"
| "key_eq (KBinary a) (KBinary b) \<longleftrightarrow> a = b"
| "key_eq a b \<longleftrightarrow> False"
| "keys_eq [] [] \<longleftrightarrow> True"
| "keys_eq (a # as) (b # bs) \<longleftrightarrow> key_eq a b \<and> keys_eq as bs"
| "keys_eq _ _ \<longleftrightarrow> False"

text \<open>\<^verbatim>\<open>validate_key_budget\<close>\<close>

definition within_key_budget :: "nat \<Rightarrow> idb_error + nat \<Rightarrow> idb_error + nat" where
  "within_key_budget depth r =
     (if depth > 32 then Inl (Idb ''IndexedDB key nesting budget exceeded'')
      else ebind r (\<lambda>n. if n > MAX_KEY_BYTES then Inl (Idb ''IndexedDB key byte budget exceeded'') else Inr n))"

fun validate_key_budget :: "idb_key \<Rightarrow> nat \<Rightarrow> idb_error + nat"
and sum_key_budgets :: "idb_key list \<Rightarrow> nat \<Rightarrow> nat \<Rightarrow> idb_error + nat" where
  "validate_key_budget (KArray values) depth =
     within_key_budget depth
       (if length values > 1024 then Inl (Idb ''IndexedDB array key element budget exceeded'')
        else sum_key_budgets values (depth + 1) 0)"
| "validate_key_budget (KString s) depth = within_key_budget depth (Inr (byte_len s))"
| "validate_key_budget (KBinary b) depth = within_key_budget depth (Inr (length b))"
| "validate_key_budget (KDate _) depth = within_key_budget depth (Inr 8)"
| "validate_key_budget (KNumber _) depth = within_key_budget depth (Inr 8)"
| "sum_key_budgets [] depth n = Inr n"
| "sum_key_budgets (k # ks) depth n =
     ebind (validate_key_budget k depth) (\<lambda>m.
       if sat_add n m > MAX_KEY_BYTES then Inr (sat_add n m) else sum_key_budgets ks depth (sat_add n m))"

section \<open>Key ranges\<close>

record idb_key_range =
  kr_lower :: "idb_key option"
  kr_upper :: "idb_key option"
  kr_lower_open :: bool
  kr_upper_open :: bool

definition range_only :: "idb_key \<Rightarrow> idb_key_range" where
  "range_only k = \<lparr>kr_lower = Some k, kr_upper = Some k, kr_lower_open = False, kr_upper_open = False\<rparr>"

definition range_holds :: "idb_key_range \<Rightarrow> idb_key \<Rightarrow> bool" where
  "range_holds r k \<longleftrightarrow>
     (case kr_lower r of None \<Rightarrow> True
      | Some lower \<Rightarrow> if kr_lower_open r then key_cmp k lower = Greater else key_cmp k lower \<noteq> Less) \<and>
     (case kr_upper r of None \<Rightarrow> True
      | Some upper \<Rightarrow> if kr_upper_open r then key_cmp k upper = Less else key_cmp k upper \<noteq> Greater)"

definition in_range :: "idb_key_range option \<Rightarrow> idb_key \<Rightarrow> bool" where
  "in_range r k \<longleftrightarrow> (case r of None \<Rightarrow> True | Some b \<Rightarrow> range_holds b k)"

section \<open>JSON values as keys\<close>

text \<open>\<^verbatim>\<open>serde_json::Value\<close>; a number is the result of its \<^verbatim>\<open>as_f64\<close>.\<close>

datatype json =
    JNull
  | JBool bool
  | JNumber "f64 option"
  | JString ustr
  | JArray "json list"
  | JObject "(ustr \<times> json) list"

type_synonym json_parser = "ustr \<Rightarrow> json option"

definition f64_is_finite :: "f64 \<Rightarrow> bool" where
  "f64_is_finite x \<longleftrightarrow> fp_magnitude f64_format (unat x) < fp_inf_bits f64_format"

fun json_value_to_key :: "json \<Rightarrow> idb_error + idb_key"
and json_values_to_keys :: "json list \<Rightarrow> idb_error + idb_key list" where
  "json_value_to_key (JNumber n) =
     (case n of
        Some x \<Rightarrow> if f64_is_finite x then Inr (KNumber x) else Inl (Idb ''Invalid number key'')
      | None \<Rightarrow> Inl (Idb ''Invalid number key''))"
| "json_value_to_key (JString s) =
     (if byte_len s \<le> 64 * 1024 then Inr (KString s) else Inl (Idb ''Unsupported IndexedDB key value''))"
| "json_value_to_key (JArray vs) =
     (if length vs \<le> 1024 then ebind (json_values_to_keys vs) (\<lambda>ks. Inr (KArray ks))
      else Inl (Idb ''Unsupported IndexedDB key value''))"
| "json_value_to_key v = Inl (Idb ''Unsupported IndexedDB key value'')"
| "json_values_to_keys [] = Inr []"
| "json_values_to_keys (v # vs) =
     ebind (json_value_to_key v) (\<lambda>k. ebind (json_values_to_keys vs) (\<lambda>ks. Inr (k # ks)))"

fun json_get :: "ustr \<Rightarrow> json \<Rightarrow> json option" where
  "json_get part (JObject members) = map_of members part"
| "json_get part _ = None"

fun json_path :: "ustr list \<Rightarrow> json \<Rightarrow> json option" where
  "json_path [] v = Some v"
| "json_path (part # parts) v = (case json_get part v of None \<Rightarrow> None | Some w \<Rightarrow> json_path parts w)"

definition extract_key_from_json :: "json_parser \<Rightarrow> ustr \<Rightarrow> ustr \<Rightarrow> idb_error + idb_key" where
  "extract_key_from_json parse value key_path =
     (case parse value of
        None \<Rightarrow> Inl (Idb ''Invalid JSON'')
      | Some v \<Rightarrow>
          (case json_path (split_char 46 key_path) v of
             None \<Rightarrow> Inl (PathNotFound key_path)
           | Some w \<Rightarrow> (case json_value_to_key w of Inl _ \<Rightarrow> Inl (UnsupportedKey key_path) | Inr k \<Rightarrow> Inr k)))"

record idb_index_config =
  ic_name :: ustr
  ic_key_path :: ustr
  ic_unique :: bool
  ic_multi_entry :: bool

definition extract_keys_from_json :: "json_parser \<Rightarrow> ustr \<Rightarrow> idb_index_config \<Rightarrow> idb_error + idb_key list" where
  "extract_keys_from_json parse value config =
     ebind (extract_key_from_json parse value (ic_key_path config)) (\<lambda>k.
       if \<not> ic_multi_entry config then Inr [k]
       else (case k of KArray values \<Rightarrow> Inr values | _ \<Rightarrow> Inr [k]))"

section \<open>Records and cursors\<close>

record idb_record =
  rc_key :: idb_key
  rc_value :: ustr

datatype cursor_direction = CursorNext | CursorNextUnique | CursorPrev | CursorPrevUnique

record idb_cursor =
  cu_records :: "idb_record list"
  cu_position :: nat

definition cursor_from_records :: "idb_record list \<Rightarrow> idb_cursor" where
  "cursor_from_records rs = \<lparr>cu_records = rs, cu_position = 0\<rparr>"

definition cursor_current :: "idb_cursor \<Rightarrow> idb_record option" where
  "cursor_current c = get_at (cu_records c) (cu_position c)"

definition cursor_advance :: "nat \<Rightarrow> idb_cursor \<Rightarrow> idb_record option \<times> idb_cursor" where
  "cursor_advance n c =
     (let c' = c\<lparr>cu_position := sat_add (cu_position c) (max n 1)\<rparr> in (cursor_current c', c'))"

definition cursor_remaining :: "idb_cursor \<Rightarrow> nat" where
  "cursor_remaining c = length (cu_records c) - cu_position c"

section \<open>Object stores\<close>

record idb_object_store =
  os_name :: ustr
  os_key_path :: "ustr option"
  os_auto_increment :: bool
  os_counter :: u64
  os_records :: "idb_record list"
  os_indexes :: "(ustr, idb_index_config) btree"

type_synonym index_order = "idb_index_config list \<Rightarrow> idb_index_config list"

definition new_object_store :: "ustr \<Rightarrow> ustr option \<Rightarrow> bool \<Rightarrow> idb_object_store" where
  "new_object_store name key_path auto_increment =
     \<lparr>os_name = name, os_key_path = key_path, os_auto_increment = auto_increment, os_counter = 1,
      os_records = [], os_indexes = []\<rparr>"

definition has_key :: "idb_key \<Rightarrow> idb_record \<Rightarrow> bool" where
  "has_key k r \<longleftrightarrow> key_eq (rc_key r) k"

definition store_get :: "idb_key \<Rightarrow> idb_object_store \<Rightarrow> idb_record option" where
  "store_get k st = find (has_key k) (os_records st)"

definition record_bytes :: "idb_record list \<Rightarrow> nat" where
  "record_bytes rs = sum_list (map (\<lambda>r. byte_len (rc_value r)) rs)"

definition record_cmp :: "idb_record \<Rightarrow> idb_record \<Rightarrow> comp" where
  "record_cmp a b = key_cmp (rc_key a) (rc_key b)"

text \<open>\<^verbatim>\<open>validate_indexes\<close>: a unique index of the store must not hold a key of the new value for another record.\<close>

fun find_conflict :: "json_parser \<Rightarrow> idb_index_config \<Rightarrow> idb_key \<Rightarrow> idb_key list \<Rightarrow> idb_record list \<Rightarrow> idb_error + unit" where
  "find_conflict parse config primary proposed [] = Inr ()"
| "find_conflict parse config primary proposed (r # rs) =
     (if has_key primary r then find_conflict parse config primary proposed rs
      else ebind (extract_keys_from_json parse (rc_value r) config) (\<lambda>existing.
        if list_ex (\<lambda>p. list_ex (\<lambda>e. key_eq e p) existing) proposed then Inl (UniqueIndexHolds (ic_name config))
        else find_conflict parse config primary proposed rs))"

fun check_configs :: "json_parser \<Rightarrow> idb_key \<Rightarrow> ustr \<Rightarrow> idb_record list \<Rightarrow> idb_index_config list \<Rightarrow> idb_error + unit" where
  "check_configs parse primary value rs [] = Inr ()"
| "check_configs parse primary value rs (c # cs) =
     ebind (extract_keys_from_json parse value c) (\<lambda>proposed.
     ebind (find_conflict parse c primary proposed rs) (\<lambda>_.
     check_configs parse primary value rs cs))"

definition validate_indexes ::
  "json_parser \<Rightarrow> index_order \<Rightarrow> idb_key \<Rightarrow> ustr \<Rightarrow> idb_object_store \<Rightarrow> idb_error + unit" where
  "validate_indexes parse order primary value st =
     check_configs parse primary value (os_records st) (filter ic_unique (order (bt_values (os_indexes st))))"

text \<open>The key of a \<^verbatim>\<open>put\<close>: the one given, or the next number, which is spent also when the call fails later.\<close>

definition choose_key :: "idb_key option \<Rightarrow> idb_object_store \<Rightarrow> idb_error + idb_key \<times> idb_object_store" where
  "choose_key k st =
     (case k of
        Some k \<Rightarrow> Inr (k, st)
      | None \<Rightarrow>
          if os_auto_increment st
          then Inr (KNumber (int_to_f64 (uint (os_counter st))), st\<lparr>os_counter := os_counter st + 1\<rparr>)
          else Inl (Idb ''Key required when autoIncrement is false''))"

definition check_put ::
  "json_parser \<Rightarrow> index_order \<Rightarrow> idb_key \<Rightarrow> ustr \<Rightarrow> idb_object_store \<Rightarrow> idb_error + unit" where
  "check_put parse order k value st =
     ebind (validate_key_budget k 0) (\<lambda>_.
       let previous = (case store_get k st of None \<Rightarrow> 0 | Some r \<Rightarrow> byte_len (rc_value r));
           projected = sat_add (record_bytes (os_records st) - previous) (byte_len value)
       in if projected > MAX_OBJECT_STORE_VALUE_BYTES then Inl (Idb ''Object store value-byte budget exceeded'')
          else if previous = 0 \<and> length (os_records st) \<ge> MAX_RECORDS_PER_ORIGIN
          then Inl (Idb ''Object store record budget exceeded'')
          else validate_indexes parse order k value st)"

fun set_value :: "idb_key \<Rightarrow> ustr \<Rightarrow> idb_record list \<Rightarrow> idb_record list" where
  "set_value k value [] = []"
| "set_value k value (r # rs) =
     (if has_key k r then r\<lparr>rc_value := value\<rparr> # rs else r # set_value k value rs)"

text \<open>\<^verbatim>\<open>sort_by\<close> is stable, as is this insertion sort.\<close>

fun insert_by :: "('a \<Rightarrow> 'a \<Rightarrow> comp) \<Rightarrow> 'a \<Rightarrow> 'a list \<Rightarrow> 'a list" where
  "insert_by cmp x [] = [x]"
| "insert_by cmp x (y # ys) = (if cmp x y = Greater then y # insert_by cmp x ys else x # y # ys)"

definition sort_by :: "('a \<Rightarrow> 'a \<Rightarrow> comp) \<Rightarrow> 'a list \<Rightarrow> 'a list" where
  "sort_by cmp xs = foldr (insert_by cmp) xs []"

definition place_record :: "idb_key \<Rightarrow> ustr \<Rightarrow> idb_object_store \<Rightarrow> idb_object_store" where
  "place_record k value st =
     (if list_ex (has_key k) (os_records st)
      then st\<lparr>os_records := set_value k value (os_records st)\<rparr>
      else st\<lparr>os_records := sort_by record_cmp (os_records st @ [\<lparr>rc_key = k, rc_value = value\<rparr>])\<rparr>)"

definition store_put ::
  "json_parser \<Rightarrow> index_order \<Rightarrow> idb_key option \<Rightarrow> ustr \<Rightarrow> idb_object_store \<Rightarrow> (idb_error + idb_key) \<times> idb_object_store" where
  "store_put parse order k value st =
     (if byte_len value > MAX_RECORD_VALUE_BYTES then (Inl (Idb ''Record value exceeds 2 MB budget''), st)
      else case choose_key k st of
        Inl e \<Rightarrow> (Inl e, st)
      | Inr (k', st1) \<Rightarrow>
          (case check_put parse order k' value st1 of
             Inl e \<Rightarrow> (Inl e, st1)
           | Inr _ \<Rightarrow> (Inr k', place_record k' value st1)))"

definition store_add ::
  "json_parser \<Rightarrow> index_order \<Rightarrow> idb_key option \<Rightarrow> ustr \<Rightarrow> idb_object_store \<Rightarrow> (idb_error + idb_key) \<times> idb_object_store" where
  "store_add parse order k value st =
     (case choose_key k st of
        Inl e \<Rightarrow> (Inl e, st)
      | Inr (actual, _) \<Rightarrow>
          if store_get actual st \<noteq> None then (Inl (Idb ''Key already exists in object store''), st)
          else store_put parse order k value st)"

fun remove_first :: "('a \<Rightarrow> bool) \<Rightarrow> 'a list \<Rightarrow> 'a list" where
  "remove_first P [] = []"
| "remove_first P (x # xs) = (if P x then xs else x # remove_first P xs)"

definition store_delete :: "idb_key \<Rightarrow> idb_object_store \<Rightarrow> bool \<times> idb_object_store" where
  "store_delete k st =
     (if list_ex (has_key k) (os_records st)
      then (True, st\<lparr>os_records := remove_first (has_key k) (os_records st)\<rparr>)
      else (False, st))"

definition store_clear :: "idb_object_store \<Rightarrow> idb_object_store" where
  "store_clear st = st\<lparr>os_records := []\<rparr>"

definition store_count :: "idb_object_store \<Rightarrow> nat" where
  "store_count st = length (os_records st)"

section \<open>Indexes\<close>

definition record_has_index_key :: "json_parser \<Rightarrow> idb_index_config \<Rightarrow> idb_key \<Rightarrow> idb_record \<Rightarrow> bool" where
  "record_has_index_key parse config k r \<longleftrightarrow>
     (case extract_keys_from_json parse (rc_value r) config of
        Inl _ \<Rightarrow> False | Inr ks \<Rightarrow> list_ex (\<lambda>x. key_eq x k) ks)"

definition get_by_index :: "json_parser \<Rightarrow> ustr \<Rightarrow> idb_key \<Rightarrow> idb_object_store \<Rightarrow> idb_record option" where
  "get_by_index parse name k st =
     (case bt_get name (os_indexes st) of
        None \<Rightarrow> None
      | Some config \<Rightarrow> find (record_has_index_key parse config k) (os_records st))"

text \<open>A \<^verbatim>\<open>BTreeSet\<close> of keys, as the list of its elements: an insertion fails when the order finds an equal one.\<close>

definition key_seen :: "idb_key \<Rightarrow> idb_key list \<Rightarrow> bool" where
  "key_seen k seen \<longleftrightarrow> list_ex (\<lambda>x. key_cmp x k = Equiv) seen"

fun insert_fresh :: "idb_key list \<Rightarrow> idb_key list \<Rightarrow> idb_key list option" where
  "insert_fresh [] seen = Some seen"
| "insert_fresh (k # ks) seen = (if key_seen k seen then None else insert_fresh ks (k # seen))"

fun check_unique :: "json_parser \<Rightarrow> idb_index_config \<Rightarrow> idb_record list \<Rightarrow> idb_key list \<Rightarrow> idb_error + unit" where
  "check_unique parse config [] seen = Inr ()"
| "check_unique parse config (r # rs) seen =
     ebind (extract_keys_from_json parse (rc_value r) config) (\<lambda>ks.
       case insert_fresh ks seen of
         None \<Rightarrow> Inl (Idb ''ConstraintError: unique index contains duplicate keys'')
       | Some seen' \<Rightarrow> check_unique parse config rs seen')"

definition create_index :: "json_parser \<Rightarrow> idb_index_config \<Rightarrow> idb_object_store \<Rightarrow> idb_error + idb_object_store" where
  "create_index parse config st =
     (if ic_name config = [] \<or> byte_len (ic_name config) > 256 \<or> ic_key_path config = []
      then Inl (Idb ''Index name and key path are required'')
      else if length (os_indexes st) \<ge> MAX_INDEXES_PER_STORE \<and> bt_get (ic_name config) (os_indexes st) = None
      then Inl (Idb ''Max indexes per object store exceeded'')
      else if bt_get (ic_name config) (os_indexes st) \<noteq> None then Inl (IndexExists (ic_name config))
      else ebind (if ic_unique config then check_unique parse config (os_records st) [] else Inr ()) (\<lambda>_.
        Inr (st\<lparr>os_indexes := bt_insert (ic_name config) config (os_indexes st)\<rparr>)))"

definition delete_index :: "ustr \<Rightarrow> idb_object_store \<Rightarrow> bool \<times> idb_object_store" where
  "delete_index name st =
     (bt_get name (os_indexes st) \<noteq> None, st\<lparr>os_indexes := bt_remove name (os_indexes st)\<rparr>)"

fun push_hits :: "idb_key_range option \<Rightarrow> idb_record \<Rightarrow> idb_key list \<Rightarrow> (idb_key \<times> idb_record) list \<Rightarrow>
    idb_error + (idb_key \<times> idb_record) list" where
  "push_hits r record [] hits = Inr hits"
| "push_hits r record (k # ks) hits =
     (if in_range r k
      then if length hits \<ge> MAX_INDEX_SCAN_MATCHES
           then Inl (Idb ''QuotaExceededError: IndexedDB index scan exceeds budget'')
           else push_hits r record ks (hits @ [(k, record)])
      else push_hits r record ks hits)"

fun scan_index :: "json_parser \<Rightarrow> idb_index_config \<Rightarrow> idb_key_range option \<Rightarrow> idb_record list \<Rightarrow>
    (idb_key \<times> idb_record) list \<Rightarrow> idb_error + (idb_key \<times> idb_record) list" where
  "scan_index parse config r [] hits = Inr hits"
| "scan_index parse config r (record # rs) hits =
     ebind (extract_keys_from_json parse (rc_value record) config) (\<lambda>ks.
     ebind (push_hits r record ks hits) (\<lambda>hits'. scan_index parse config r rs hits'))"

definition hit_cmp :: "idb_key \<times> idb_record \<Rightarrow> idb_key \<times> idb_record \<Rightarrow> comp" where
  "hit_cmp a b = (case key_cmp (fst a) (fst b) of Equiv \<Rightarrow> record_cmp (snd a) (snd b) | c \<Rightarrow> c)"

fun take_unique :: "nat \<Rightarrow> idb_key list \<Rightarrow> idb_record list \<Rightarrow> (idb_key \<times> idb_record) list \<Rightarrow> idb_record list" where
  "take_unique limit seen out [] = out"
| "take_unique limit seen out ((k, r) # hits) =
     (let fresh = \<not> key_seen (rc_key r) seen;
          out' = (if fresh then out @ [r] else out);
          seen' = (if fresh then rc_key r # seen else seen)
      in if length out' \<ge> min limit MAX_CURSOR_RESULTS then out' else take_unique limit seen' out' hits)"

definition get_all_by_index ::
  "json_parser \<Rightarrow> ustr \<Rightarrow> idb_key_range option \<Rightarrow> nat \<Rightarrow> idb_object_store \<Rightarrow> idb_error + idb_record list" where
  "get_all_by_index parse name r limit st =
     (case bt_get name (os_indexes st) of
        None \<Rightarrow> Inl (NoSuchIndex name)
      | Some config \<Rightarrow>
          ebind (scan_index parse config r (os_records st) []) (\<lambda>hits.
          Inr (take_unique limit [] [] (sort_by hit_cmp hits))))"

fun dedup_by :: "('a \<Rightarrow> 'a \<Rightarrow> bool) \<Rightarrow> 'a list \<Rightarrow> 'a list" where
  "dedup_by same [] = []"
| "dedup_by same [x] = [x]"
| "dedup_by same (x # y # ys) = (if same y x then dedup_by same (x # ys) else x # dedup_by same (y # ys))"

definition open_cursor :: "idb_key_range option \<Rightarrow> cursor_direction \<Rightarrow> idb_object_store \<Rightarrow> idb_cursor" where
  "open_cursor r direction st =
     (let records = (if direction \<in> {CursorPrev, CursorPrevUnique} then rev (os_records st) else os_records st);
          found = take MAX_CURSOR_RESULTS (filter (\<lambda>x. in_range r (rc_key x)) records)
      in cursor_from_records
        (if direction \<in> {CursorNextUnique, CursorPrevUnique}
         then dedup_by (\<lambda>left right. key_eq (rc_key left) (rc_key right)) found else found))"

section \<open>Databases\<close>

record idb_database =
  db_name :: ustr
  db_version :: nat
  db_stores :: "(ustr, idb_object_store) btree"
  db_epoch :: u64

definition new_database :: "ustr \<Rightarrow> nat \<Rightarrow> idb_database" where
  "new_database name version = \<lparr>db_name = name, db_version = version, db_stores = [], db_epoch = 0\<rparr>"

definition create_object_store ::
  "ustr \<Rightarrow> ustr option \<Rightarrow> bool \<Rightarrow> idb_database \<Rightarrow> idb_error + idb_database" where
  "create_object_store name key_path auto_increment db =
     (if length (db_stores db) \<ge> MAX_STORES_PER_DB then Inl (Idb ''Max object stores per DB exceeded'')
      else if bt_get name (db_stores db) \<noteq> None then Inl (StoreExists name)
      else Inr (db\<lparr>db_stores := bt_insert name (new_object_store name key_path auto_increment) (db_stores db),
                   db_epoch := db_epoch db + 1\<rparr>))"

definition delete_object_store :: "ustr \<Rightarrow> idb_database \<Rightarrow> bool \<times> idb_database" where
  "delete_object_store name db =
     (if bt_get name (db_stores db) \<noteq> None
      then (True, db\<lparr>db_stores := bt_remove name (db_stores db), db_epoch := db_epoch db + 1\<rparr>)
      else (False, db))"

section \<open>The engine and its transactions\<close>

datatype transaction_mode = ReadOnly | ReadWrite | VersionChange

record idb_transaction =
  tx_id :: u64
  tx_mode :: transaction_mode
  tx_scope :: "ustr list"
  tx_db_name :: ustr
  tx_snapshot :: "idb_database option"
  tx_epoch_at_open :: u64
  tx_aborted :: bool
  tx_committed :: bool

record idb_engine =
  en_origin :: ustr
  en_databases :: "(ustr, idb_database) btree"
  en_next_tx_id :: u64

definition open_db :: "(ustr list \<Rightarrow> ustr list) \<Rightarrow> ustr \<Rightarrow> nat option \<Rightarrow> idb_engine \<Rightarrow>
    (idb_error + idb_transaction) \<times> idb_engine" where
  "open_db order name version en =
     (let known = bt_get name (en_databases en);
          (target, upgrade) =
            (case known of
               Some db \<Rightarrow> (case version of
                   Some requested \<Rightarrow> if requested > db_version db then (requested, True) else (db_version db, False)
                 | None \<Rightarrow> (db_version db, False))
             | None \<Rightarrow> (case version of Some v \<Rightarrow> v | None \<Rightarrow> 1, True));
          too_low = (case (known, version) of (Some db, Some requested) \<Rightarrow> requested < db_version db | _ \<Rightarrow> False);
          db0 = (case known of Some db \<Rightarrow> db | None \<Rightarrow> new_database name target);
          db = (if upgrade \<and> db_version db0 \<noteq> target
                then db0\<lparr>db_version := target, db_epoch := db_epoch db0 + 1\<rparr> else db0)
      in if length (en_databases en) \<ge> MAX_DBS_PER_ORIGIN \<and> known = None
         then (Inl (Idb ''Max databases per origin budget exceeded''), en)
         else if too_low then (Inl (Idb ''VersionRequestedBelowCurrent''), en)
         else (Inr \<lparr>tx_id = en_next_tx_id en, tx_mode = (if upgrade then VersionChange else ReadOnly),
                    tx_scope = order (map fst (db_stores db)), tx_db_name = name, tx_snapshot = Some db,
                    tx_epoch_at_open = db_epoch db, tx_aborted = False, tx_committed = False\<rparr>,
               en\<lparr>en_databases := bt_insert name db (en_databases en), en_next_tx_id := en_next_tx_id en + 1\<rparr>))"

definition restore_snapshot_if_safe :: "idb_transaction \<Rightarrow> idb_engine \<Rightarrow> idb_engine" where
  "restore_snapshot_if_safe tx en =
     (case tx_snapshot tx of
        None \<Rightarrow> en
      | Some snapshot \<Rightarrow>
          (case bt_get (tx_db_name tx) (en_databases en) of
             None \<Rightarrow> en
           | Some db \<Rightarrow>
               if db_epoch db = tx_epoch_at_open tx
               then en\<lparr>en_databases := bt_insert (tx_db_name tx) snapshot (en_databases en)\<rparr> else en))"

definition db_records :: "idb_database \<Rightarrow> idb_record list" where
  "db_records db = concat (map os_records (bt_values (db_stores db)))"

definition all_records :: "(ustr, idb_database) btree \<Rightarrow> idb_record list" where
  "all_records dbs = concat (map db_records (bt_values dbs))"

definition total_records :: "idb_engine \<Rightarrow> nat" where
  "total_records en = sum_list (map (\<lambda>db. sum_list (map store_count (bt_values (db_stores db)))) (bt_values (en_databases en)))"

definition commit_transaction :: "idb_transaction \<Rightarrow> idb_engine \<Rightarrow> (idb_error + unit) \<times> idb_engine" where
  "commit_transaction tx en =
     (if tx_aborted tx then (Inl (Idb ''Transaction was aborted''), en)
      else if total_records en > MAX_RECORDS_PER_ORIGIN \<or>
        record_bytes (all_records (en_databases en)) > MAX_ORIGIN_VALUE_BYTES
      then (Inl (Idb ''IndexedDB origin storage budget exceeded''), restore_snapshot_if_safe tx en)
      else (Inr (), en))"

definition abort_transaction :: "idb_transaction \<Rightarrow> idb_engine \<Rightarrow> (idb_error + unit) \<times> idb_engine" where
  "abort_transaction tx en =
     (if tx_committed tx then (Inl (Idb ''Transaction was already committed''), en)
      else (Inr (), restore_snapshot_if_safe tx en))"

definition delete_database :: "ustr \<Rightarrow> idb_engine \<Rightarrow> bool \<times> idb_engine" where
  "delete_database name en =
     (bt_get name (en_databases en) \<noteq> None, en\<lparr>en_databases := bt_remove name (en_databases en)\<rparr>)"

text \<open>\<^verbatim>\<open>load_from_disk\<close>: the length of the file and what \<^verbatim>\<open>serde_json\<close> reads from it. An error leaves the
  engine empty.\<close>

record persisted_idb =
  pi_schema :: nat
  pi_origin :: ustr
  pi_databases :: "(ustr, idb_database) btree"

definition load_from_disk :: "nat \<times> persisted_idb option \<Rightarrow> idb_engine \<Rightarrow> idb_error + idb_engine" where
  "load_from_disk stored en =
     (if fst stored > MAX_ORIGIN_VALUE_BYTES + 16 * 1024 * 1024
      then Inl (Idb ''IndexedDB persistence file exceeds budget'')
      else ebind (ok_or (Idb ''serde'') (snd stored)) (\<lambda>p.
        if pi_schema p \<noteq> 1 \<or> pi_origin p \<noteq> en_origin en then Inl (Idb ''IndexedDB origin/schema mismatch'')
        else ebind (emap (\<lambda>r. validate_key_budget (rc_key r) 0) (all_records (pi_databases p))) (\<lambda>_.
          if length (all_records (pi_databases p)) > MAX_RECORDS_PER_ORIGIN \<or>
             record_bytes (all_records (pi_databases p)) > MAX_ORIGIN_VALUE_BYTES
          then Inl (Idb ''IndexedDB persisted data exceeds origin budget'')
          else Inr (en\<lparr>en_databases := pi_databases p\<rparr>))))"

definition new_engine :: "ustr \<Rightarrow> (nat \<times> persisted_idb option) option \<Rightarrow> idb_engine" where
  "new_engine origin stored =
     (let en = \<lparr>en_origin = origin, en_databases = [], en_next_tx_id = 1\<rparr>
      in case stored of None \<Rightarrow> en
         | Some s \<Rightarrow> (case load_from_disk s en of Inl _ \<Rightarrow> en | Inr en' \<Rightarrow> en'))"

end
