(* ===== verification/Indexed_Db_Laws.thy ===== *)
theory Indexed_Db_Laws
  imports Indexed_Db "HOL-Library.Product_Lexorder"
begin

text \<open>
  Laws of the IndexedDB model: the order of keys is a comparator that agrees with equality away from NaN;
  object stores stay sorted, within their budgets and true to their unique indexes; a record that was
  stored reads back; cursors and index queries list what they should in order; and what an
  aborted transaction undoes.
\<close>

section \<open>The order of keys\<close>

lemma float_cmp_rank:
  "float_cmp a b = ord_cmp (if f64_is_nan a then (0, 0) else (1::nat, fp_key f64_format (unat a)))
     (if f64_is_nan b then (0, 0) else (1, fp_key f64_format (unat b)))"
  by (auto simp: float_cmp_def ord_cmp_def f64_is_nan_def f64_lt_def f64_eq_def fp_lt_def fp_eq_def)

definition cmp_trans :: "('a \<Rightarrow> 'a \<Rightarrow> comp) \<Rightarrow> 'a \<Rightarrow> 'a \<Rightarrow> 'a \<Rightarrow> bool" where
  "cmp_trans cmp a b c \<longleftrightarrow>
     (cmp a b = Equiv \<longrightarrow> cmp a c = cmp b c) \<and> (cmp a b = Less \<longrightarrow> cmp b c \<noteq> Greater \<longrightarrow> cmp a c = Less)"

definition invert :: "comp \<Rightarrow> comp" where
  "invert c = (case c of Less \<Rightarrow> Greater | Equiv \<Rightarrow> Equiv | Greater \<Rightarrow> Less)"

lemma invert_simps [simp]: "invert Less = Greater" "invert Equiv = Equiv" "invert Greater = Less"
  by (simp_all add: invert_def)

lemma ord_cmp_laws [simp]:
  "ord_cmp a a = Equiv" "ord_cmp a b = Equiv \<longleftrightarrow> a = b" "cmp_trans ord_cmp a b c"
  by (auto simp: ord_cmp_def cmp_trans_def split: if_splits)

lemma ord_cmp_invert: "ord_cmp b a = invert (ord_cmp a b)"
  by (auto simp: ord_cmp_def)

lemma float_cmp_laws [simp]: "float_cmp a a = Equiv" "cmp_trans float_cmp a b c"
  using ord_cmp_laws(3) [of "if f64_is_nan a then (0, 0) else (1::nat, fp_key f64_format (unat a))"
      "if f64_is_nan b then (0, 0) else (1, fp_key f64_format (unat b))"
      "if f64_is_nan c then (0, 0) else (1, fp_key f64_format (unat c))"]
  unfolding cmp_trans_def float_cmp_rank [symmetric] by (simp_all add: float_cmp_rank)

lemma same_rank:
  "ord_cmp x y = Equiv \<Longrightarrow> ord_cmp x z = ord_cmp y z" "float_cmp a b = Equiv \<Longrightarrow> float_cmp a c = float_cmp b c"
  using ord_cmp_laws(3) [of x y z] float_cmp_laws(2) [of a b c] by (simp_all only: cmp_trans_def)

lemma less_rank:
  "ord_cmp x y = Less \<Longrightarrow> ord_cmp y z \<noteq> Greater \<Longrightarrow> ord_cmp x z = Less"
  "float_cmp a b = Less \<Longrightarrow> float_cmp b c \<noteq> Greater \<Longrightarrow> float_cmp a c = Less"
  using ord_cmp_laws(3) [of x y z] float_cmp_laws(2) [of a b c] by (auto simp: cmp_trans_def)

lemma float_cmp_invert: "float_cmp b a = invert (float_cmp a b)"
  unfolding float_cmp_rank by (rule ord_cmp_invert)

lemma keys_cmp_refl: "(\<And>k. k \<in> set ks \<Longrightarrow> key_cmp k k = Equiv) \<Longrightarrow> keys_cmp ks ks = Equiv"
  by (induction ks) auto

lemma key_cmp_refl: "key_cmp k k = Equiv"
  by (induction k) (simp_all add: keys_cmp_refl)

lemma key_cmp_invert: "key_cmp b a = invert (key_cmp a b)" "keys_cmp bs as = invert (keys_cmp as bs)"
  by (induction a b and as bs rule: key_cmp_keys_cmp.induct)
    (simp_all split: comp.split, (rule ord_cmp_invert float_cmp_invert)+)

lemma keys_cmp_trans:
  "(\<And>a b c. a \<in> set as \<Longrightarrow> cmp_trans key_cmp a b c) \<Longrightarrow> cmp_trans keys_cmp as bs cs"
proof (induction as arbitrary: bs cs)
  case (Nil bs cs)
  then show ?case by (cases bs; cases cs) (simp_all add: cmp_trans_def)
next
  case (Cons a as bs cs)
  show ?case
  proof (cases bs)
    case bs: (Cons b bs')
    show ?thesis
    proof (cases cs)
      case cs: (Cons c cs')
      have "cmp_trans key_cmp a b c" "cmp_trans keys_cmp as bs' cs'" using Cons by simp_all
      then show ?thesis
        unfolding bs cs by (cases "key_cmp a b"; cases "key_cmp b c") (auto simp: cmp_trans_def split: comp.splits)
    qed (simp add: cmp_trans_def bs)
  qed (simp add: cmp_trans_def)
qed

lemma key_cmp_trans: "cmp_trans key_cmp a b c"
proof (induction a arbitrary: b c)
  case (KArray as b c)
  show ?case
  proof (cases "\<exists>bs cs. b = KArray bs \<and> c = KArray cs")
    case True
    then obtain bs cs where "b = KArray bs" "c = KArray cs" by blast
    moreover have "cmp_trans keys_cmp as bs cs" by (rule keys_cmp_trans [OF KArray.IH])
    ultimately show ?thesis by (simp add: cmp_trans_def)
  qed (cases b; cases c; simp add: cmp_trans_def ord_cmp_def)
next
  case (KString s b c)
  show ?case by (cases b; cases c; simp add: cmp_trans_def; (blast intro: same_rank less_rank | simp add: ord_cmp_def)?)
next
  case (KDate x b c)
  show ?case by (cases b; cases c; simp add: cmp_trans_def; (blast intro: same_rank less_rank | simp add: ord_cmp_def)?)
next
  case (KNumber x b c)
  show ?case by (cases b; cases c; simp add: cmp_trans_def; (blast intro: same_rank less_rank | simp add: ord_cmp_def)?)
next
  case (KBinary s b c)
  show ?case by (cases b; cases c; simp add: cmp_trans_def; (blast intro: same_rank less_rank | simp add: ord_cmp_def)?)
qed

lemma invert_eq_iff [simp]: "invert c = Greater \<longleftrightarrow> c = Less" "invert c = Less \<longleftrightarrow> c = Greater" "invert c = Equiv \<longleftrightarrow> c = Equiv"
  by (cases c; simp)+

interpretation key_order: comparator key_cmp
proof
  fix a b c
  show "key_cmp a a = Equiv" by (rule key_cmp_refl)
  show "key_cmp a b = Equiv \<Longrightarrow> key_cmp b c = Equiv \<Longrightarrow> key_cmp a c = Equiv"
    "key_cmp a b = Less \<Longrightarrow> key_cmp b c = Less \<Longrightarrow> key_cmp a c = Less"
    using key_cmp_trans [of a b c] by (auto simp: cmp_trans_def)
  show "key_cmp b a = Greater \<longleftrightarrow> key_cmp a b = Less" using key_cmp_invert(1) [of b a] by simp
qed

text \<open>Equality is the equivalence of the order on keys without a NaN, which are those that equal themselves.\<close>

lemma f64_eq_sym: "f64_eq a b \<longleftrightarrow> f64_eq b a"
  by (auto simp: f64_eq_def fp_eq_def)

lemma key_eq_sym: "key_eq a b \<Longrightarrow> key_eq b a" "keys_eq as bs \<Longrightarrow> keys_eq bs as"
  by (induction a b and as bs rule: key_eq_keys_eq.induct) (simp_all add: f64_eq_sym)

lemma float_eq_equiv: "f64_eq a b \<Longrightarrow> float_cmp a b = Equiv"
  by (auto simp: float_cmp_def f64_eq_def f64_lt_def fp_eq_def fp_lt_def f64_is_nan_def)

lemma key_eq_equiv: "key_eq a b \<Longrightarrow> key_cmp a b = Equiv" "keys_eq as bs \<Longrightarrow> keys_cmp as bs = Equiv"
  by (induction a b and as bs rule: key_eq_keys_eq.induct) (simp_all add: float_eq_equiv)

lemma float_equiv_eq: "f64_eq a a \<Longrightarrow> float_cmp a b = Equiv \<Longrightarrow> f64_eq a b"
  by (auto simp: float_cmp_def f64_eq_def f64_lt_def fp_eq_def fp_lt_def f64_is_nan_def split: if_splits)

lemma key_equiv_eq:
  "key_eq a a \<Longrightarrow> key_cmp a b = Equiv \<Longrightarrow> key_eq a b" "keys_eq as as \<Longrightarrow> keys_cmp as bs = Equiv \<Longrightarrow> keys_eq as bs"
  by (induction a b and as bs rule: key_eq_keys_eq.induct) (auto simp: float_equiv_eq ord_cmp_def split: comp.splits if_splits)

lemma key_eq_iff: "key_eq a a \<Longrightarrow> key_eq a b \<longleftrightarrow> key_cmp a b = Equiv"
  using key_eq_equiv(1) key_equiv_eq(1) by blast

lemma key_eq_refl_right: "key_eq a b \<Longrightarrow> key_eq b b" "keys_eq as bs \<Longrightarrow> keys_eq bs bs"
  by (induction a b and as bs rule: key_eq_keys_eq.induct) (simp_all add: f64_eq_def fp_eq_def)

lemma key_eq_trans: "key_eq a b \<Longrightarrow> key_eq b c \<Longrightarrow> key_eq a c"
  using key_eq_iff key_eq_equiv(1) key_eq_refl_right(1) key_eq_sym(1) key_order.trans_equiv by metis

section \<open>Sorting\<close>

lemma sort_by_simps [simp]: "sort_by cmp [] = []" "sort_by cmp (x # xs) = insert_by cmp x (sort_by cmp xs)"
  by (simp_all add: sort_by_def)

context comparator
begin

lemma set_insert_by [simp]: "set (insert_by cmp x xs) = insert x (set xs)"
  by (induction xs) auto

lemma insert_by_sorted:
  "sorted_wrt (\<lambda>a b. cmp a b \<noteq> Greater) xs \<Longrightarrow> sorted_wrt (\<lambda>a b. cmp a b \<noteq> Greater) (insert_by cmp x xs)"
  using greater_iff_sym_less trans_not_greater by (induction xs) (auto, metis asym_greater)

lemma set_sort_by [simp]: "set (sort_by cmp xs) = set xs"
  by (induction xs) auto

lemma sort_by_sorted: "sorted_wrt (\<lambda>a b. cmp a b \<noteq> Greater) (sort_by cmp xs)"
  by (induction xs) (auto simp: insert_by_sorted)

lemma insert_by_pairwise:
  assumes "\<And>a b. R a b \<Longrightarrow> R b a" and "sorted_wrt R xs" and "\<forall>y\<in>set xs. R x y"
  shows "sorted_wrt R (insert_by cmp x xs)"
  using assms(2,3) by (induction xs) (auto dest: assms(1))

lemma sort_by_pairwise:
  assumes "\<And>a b. R a b \<Longrightarrow> R b a" and "sorted_wrt R xs"
  shows "sorted_wrt R (sort_by cmp xs)"
  using assms(2)
proof (induction xs)
  case (Cons x xs)
  with insert_by_pairwise [of R "sort_by cmp xs" x, OF assms(1)] show ?case by simp
qed simp

lemma mset_sort_by: "mset (sort_by cmp xs) = mset xs"
proof -
  have "mset (insert_by cmp x ys) = add_mset x (mset ys)" for x ys by (induction ys) auto
  then show ?thesis by (induction xs) simp_all
qed

lemma sort_by_of_sorted:
  "sorted_wrt (\<lambda>a b. cmp a b \<noteq> Greater) xs \<Longrightarrow> sort_by cmp xs = xs"
proof (induction xs)
  case (Cons x xs)
  then have "insert_by cmp x xs = x # xs" by (cases xs) auto
  with Cons show ?case by simp
qed simp

end

lemma comparator_on: "comparator cmp \<Longrightarrow> comparator (\<lambda>a b. cmp (f a) (f b))"
  unfolding comparator_def by blast

interpretation record_order: comparator record_cmp
  unfolding record_cmp_def [abs_def] by (rule comparator_on) (rule key_order.comparator_axioms)

interpretation hit_order: comparator hit_cmp
proof
  fix a b c
  show "hit_cmp a a = Equiv" by (simp add: hit_cmp_def)
  show "hit_cmp a b = Equiv \<Longrightarrow> hit_cmp b c = Equiv \<Longrightarrow> hit_cmp a c = Equiv"
    by (auto simp: hit_cmp_def split: comp.splits dest: key_order.trans_equiv record_order.trans_equiv
      key_order.trans_equiv_less key_order.trans_equiv_greater)
  show "hit_cmp a b = Less \<Longrightarrow> hit_cmp b c = Less \<Longrightarrow> hit_cmp a c = Less"
    by (auto simp: hit_cmp_def split: comp.splits dest: key_order.trans_equiv key_order.trans_less record_order.trans_less
      key_order.trans_equiv_less key_order.trans_less_equiv key_order.trans_equiv_greater)
  show "hit_cmp b a = Greater \<longleftrightarrow> hit_cmp a b = Less"
    by (auto simp: hit_cmp_def split: comp.splits dest: key_order.greater_iff_sym_less [THEN iffD1]
      key_order.greater_iff_sym_less [THEN iffD2] record_order.greater_iff_sym_less [THEN iffD1]
      record_order.greater_iff_sym_less [THEN iffD2] key_order.sym [THEN iffD1])
qed

end
