(* ===== verification/Indexed_Db_Stores.thy ===== *)
theory Indexed_Db_Stores
  imports Indexed_Db_Laws
begin

text \<open>
  Object stores and databases over any sequence of calls: the invariants, what is read
  back, what cursors and index queries list, and what a rollback undoes.
\<close>

section \<open>The invariant of a store\<close>

definition keys_ok :: "idb_key list \<Rightarrow> bool" where
  "keys_ok ks \<longleftrightarrow> sorted_wrt (\<lambda>a b. key_cmp a b \<noteq> Greater) ks \<and> sorted_wrt (\<lambda>a b. \<not> key_eq a b) ks"

text \<open>Two records share no key of an index.\<close>

definition index_apart :: "json_parser \<Rightarrow> idb_index_config \<Rightarrow> idb_record \<Rightarrow> idb_record \<Rightarrow> bool" where
  "index_apart parse c a b \<longleftrightarrow>
     (\<forall>ks ls. extract_keys_from_json parse (rc_value a) c = Inr ks \<longrightarrow> extract_keys_from_json parse (rc_value b) c = Inr ls \<longrightarrow>
        (\<forall>k\<in>set ks. \<forall>l\<in>set ls. \<not> key_eq k l))"

definition index_ok :: "json_parser \<Rightarrow> idb_record list \<Rightarrow> idb_index_config \<Rightarrow> bool" where
  "index_ok parse rs c \<longleftrightarrow>
     (\<forall>r\<in>set rs. is_ok (extract_keys_from_json parse (rc_value r) c)) \<and> sorted_wrt (index_apart parse c) rs"

definition record_ok :: "idb_record \<Rightarrow> bool" where
  "record_ok r \<longleftrightarrow> is_ok (validate_key_budget (rc_key r) 0) \<and> byte_len (rc_value r) \<le> MAX_RECORD_VALUE_BYTES"

definition store_ok :: "json_parser \<Rightarrow> idb_object_store \<Rightarrow> bool" where
  "store_ok parse st \<longleftrightarrow>
     keys_ok (map rc_key (os_records st)) \<and> (\<forall>r\<in>set (os_records st). record_ok r) \<and>
     length (os_records st) \<le> MAX_RECORDS_PER_ORIGIN \<and> record_bytes (os_records st) \<le> MAX_OBJECT_STORE_VALUE_BYTES \<and>
     bt_ok (os_indexes st) \<and> length (os_indexes st) \<le> MAX_INDEXES_PER_STORE \<and>
     (\<forall>c\<in>set (bt_values (os_indexes st)). ic_unique c \<longrightarrow> index_ok parse (os_records st) c)"

lemma index_apart_sym: "index_apart parse c a b \<Longrightarrow> index_apart parse c b a"
  unfolding index_apart_def using key_eq_sym(1) by blast

lemma has_key_same: "has_key k a \<Longrightarrow> has_key k b \<Longrightarrow> key_eq (rc_key a) (rc_key b)"
  unfolding has_key_def using key_eq_sym(1) key_eq_trans by blast

text \<open>The first record of a key, and what the operations do with it.\<close>

lemma first_record:
  assumes "list_ex (has_key k) rs"
  obtains as r bs where "rs = as @ r # bs" "has_key k r" "\<forall>a\<in>set as. \<not> has_key k a"
    "set_value k v rs = as @ r\<lparr>rc_value := v\<rparr> # bs" "remove_first (has_key k) rs = as @ bs" "find (has_key k) rs = Some r"
proof -
  have "\<exists>as bs r. rs = as @ r # bs \<and> has_key k r \<and> (\<forall>a\<in>set as. \<not> has_key k a) \<and>
    set_value k v rs = as @ r\<lparr>rc_value := v\<rparr> # bs \<and> remove_first (has_key k) rs = as @ bs \<and> find (has_key k) rs = Some r"
    using assms
  proof (induction rs)
    case (Cons x xs)
    show ?case
    proof (cases "has_key k x")
      case True
      show ?thesis by (rule exI [of _ "[]"]) (use True in simp)
    next
      case False
      with Cons obtain as r bs where "xs = as @ r # bs \<and> has_key k r \<and> (\<forall>a\<in>set as. \<not> has_key k a) \<and>
        set_value k v xs = as @ r\<lparr>rc_value := v\<rparr> # bs \<and> remove_first (has_key k) xs = as @ bs \<and> find (has_key k) xs = Some r"
        by auto
      note xs = this
      show ?thesis
        by (rule exI [of _ "x # as"], rule exI [of _ bs], rule exI [of _ r]) (use False xs in auto)
    qed
  qed simp
  with that show thesis by blast
qed

lemma find_has_key: "find (has_key k) rs = None \<longleftrightarrow> \<not> list_ex (has_key k) rs"
  by (induction rs) auto

lemma others_lack_key:
  assumes "keys_ok (map rc_key (as @ r # bs))" and "has_key k r" and "x \<in> set as \<union> set bs"
  shows "\<not> has_key k x"
  using assms has_key_same [of k r x] has_key_same [of k x r]
  by (auto simp: keys_ok_def sorted_wrt_append sorted_wrt_map)

lemma keys_ok_drop: "keys_ok (as @ k # bs) \<Longrightarrow> keys_ok (as @ bs)"
  by (simp add: keys_ok_def sorted_wrt_append)

lemma keys_ok_insert:
  assumes "keys_ok (map rc_key rs)" and "\<not> list_ex (has_key (rc_key r)) rs"
  shows "keys_ok (map rc_key (sort_by record_cmp (rs @ [r])))"
proof -
  have "sorted_wrt (\<lambda>a b. \<not> key_eq (rc_key a) (rc_key b)) (rs @ [r])"
    using assms by (auto simp: keys_ok_def sorted_wrt_map sorted_wrt_append has_key_def list_ex_iff)
  then have "sorted_wrt (\<lambda>a b. \<not> key_eq (rc_key a) (rc_key b)) (sort_by record_cmp (rs @ [r]))"
    by (rule record_order.sort_by_pairwise [rotated]) (blast intro: key_eq_sym)
  moreover have "sorted_wrt (\<lambda>a b. record_cmp a b \<noteq> Greater) (sort_by record_cmp (rs @ [r]))"
    by (rule record_order.sort_by_sorted)
  ultimately show ?thesis by (simp add: keys_ok_def sorted_wrt_map record_cmp_def)
qed

section \<open>Unique indexes\<close>

lemma find_conflict_free:
  assumes "find_conflict parse c k proposed rs = Inr ()" and "r \<in> set rs" and "\<not> has_key k r"
  obtains ks where "extract_keys_from_json parse (rc_value r) c = Inr ks" "\<forall>p\<in>set proposed. \<forall>e\<in>set ks. \<not> key_eq e p"
  using assms
  by (induction rs) (auto simp: list_ex_iff result_simps split: if_splits)

lemma check_configs_free:
  assumes "check_configs parse k v rs cs = Inr ()" and "c \<in> set cs"
  obtains ps where "extract_keys_from_json parse v c = Inr ps" "find_conflict parse c k ps rs = Inr ()"
  using assms by (induction cs) (auto simp: result_simps)

lemma new_value_apart:
  assumes "check_configs parse k v rs cs = Inr ()" and "c \<in> set cs"
  shows "is_ok (extract_keys_from_json parse v c)"
    and "r \<in> set rs \<Longrightarrow> \<not> has_key k r \<Longrightarrow> rc_value n = v \<Longrightarrow> index_apart parse c r n"
proof -
  obtain ps where ps: "extract_keys_from_json parse v c = Inr ps" "find_conflict parse c k ps rs = Inr ()"
    using check_configs_free assms by blast
  then show "is_ok (extract_keys_from_json parse v c)" by simp
  assume r: "r \<in> set rs" "\<not> has_key k r" and n: "rc_value n = v"
  from find_conflict_free [OF ps(2) r] obtain ks where
    "extract_keys_from_json parse (rc_value r) c = Inr ks" "\<forall>p\<in>set ps. \<forall>e\<in>set ks. \<not> key_eq e p" .
  with ps(1) n show "index_apart parse c r n" by (auto simp: index_apart_def)
qed

lemma insert_fresh_seen:
  assumes "insert_fresh ks seen = Some seen'"
  shows "set seen' = set ks \<union> set seen" and "k \<in> set ks \<Longrightarrow> l \<in> set seen \<Longrightarrow> \<not> key_eq l k"
  using assms by (induction ks seen rule: insert_fresh.induct)
    (auto simp: key_seen_def list_ex_iff split: if_splits dest: key_eq_equiv)

lemma check_unique_index_ok:
  assumes "check_unique parse c rs seen = Inr ()"
  shows "index_ok parse rs c \<and> (\<forall>r\<in>set rs. \<forall>ks. extract_keys_from_json parse (rc_value r) c = Inr ks \<longrightarrow>
    (\<forall>k\<in>set ks. \<forall>s\<in>set seen. \<not> key_eq s k))"
  using assms
proof (induction rs arbitrary: seen)
  case (Cons r rs seen)
  obtain ks seen' where ks: "extract_keys_from_json parse (rc_value r) c = Inr ks" and s: "insert_fresh ks seen = Some seen'"
    and rest: "check_unique parse c rs seen' = Inr ()"
    using Cons.prems by (auto simp: result_simps split: option.splits)
  have IH: "index_ok parse rs c" "\<forall>r\<in>set rs. \<forall>ks. extract_keys_from_json parse (rc_value r) c = Inr ks \<longrightarrow>
      (\<forall>k\<in>set ks. \<forall>s\<in>set seen'. \<not> key_eq s k)"
    using Cons.IH [OF rest] by blast+
  have "index_ok parse (r # rs) c" using IH ks insert_fresh_seen(1) [OF s] by (auto simp: index_ok_def index_apart_def)
  then show ?case using IH(2) ks insert_fresh_seen [OF s] by auto
qed (simp add: index_ok_def)

section \<open>The operations of a store\<close>

lemma sorted_wrt_middle:
  assumes "\<And>a b. R a b \<Longrightarrow> R b a"
  shows "sorted_wrt R (as @ x # bs) \<longleftrightarrow> sorted_wrt R (as @ bs) \<and> (\<forall>y\<in>set as \<union> set bs. R y x)"
  using assms by (auto simp: sorted_wrt_append)

lemma index_ok_middle:
  "index_ok parse (as @ x # bs) c \<longleftrightarrow> index_ok parse (as @ bs) c \<and> is_ok (extract_keys_from_json parse (rc_value x) c) \<and>
     (\<forall>y\<in>set as \<union> set bs. index_apart parse c y x)"
proof -
  have "sorted_wrt (index_apart parse c) (as @ x # bs) \<longleftrightarrow>
      sorted_wrt (index_apart parse c) (as @ bs) \<and> (\<forall>y\<in>set as \<union> set bs. index_apart parse c y x)"
    by (rule sorted_wrt_middle) (rule index_apart_sym)
  then show ?thesis by (auto simp: index_ok_def)
qed

lemma index_ok_insert:
  assumes "index_ok parse rs c" and "is_ok (extract_keys_from_json parse (rc_value x) c)" and "\<forall>y\<in>set rs. index_apart parse c y x"
  shows "index_ok parse (sort_by record_cmp (rs @ [x])) c"
proof -
  have "index_ok parse (rs @ [x]) c" using assms index_ok_middle [of parse rs x "[]" c] by simp
  moreover have "sorted_wrt (index_apart parse c) xs \<Longrightarrow> sorted_wrt (index_apart parse c) (sort_by record_cmp xs)" for xs
    by (rule record_order.sort_by_pairwise) (rule index_apart_sym)
  ultimately show ?thesis by (auto simp: index_ok_def)
qed

lemma record_bytes_simps [simp]: "record_bytes [] = 0" "record_bytes (r # rs) = byte_len (rc_value r) + record_bytes rs"
  "record_bytes (xs @ ys) = record_bytes xs + record_bytes ys"
  by (simp_all add: record_bytes_def)

lemma record_bytes_sort: "record_bytes (sort_by record_cmp rs) = record_bytes rs"
  unfolding record_bytes_def sum_mset_sum_list [symmetric] mset_map record_order.mset_sort_by ..

lemma length_sort_by: "length (sort_by record_cmp rs) = length rs"
  by (subst size_mset [symmetric]) (simp only: record_order.mset_sort_by size_mset)

definition order_ok :: "index_order \<Rightarrow> bool" where
  "order_ok order \<longleftrightarrow> (\<forall>cs. set (order cs) = set cs)"

lemma check_put_facts:
  assumes "check_put parse order k v st = Inr ()" and "order_ok order" and "store_ok parse st"
  shows "is_ok (validate_key_budget k 0)"
    and "record_bytes (os_records st) - (case store_get k st of None \<Rightarrow> 0 | Some r \<Rightarrow> byte_len (rc_value r)) + byte_len v
      \<le> MAX_OBJECT_STORE_VALUE_BYTES"
    and "store_get k st = None \<Longrightarrow> length (os_records st) < MAX_RECORDS_PER_ORIGIN"
    and "c \<in> set (bt_values (os_indexes st)) \<Longrightarrow> ic_unique c \<Longrightarrow> is_ok (extract_keys_from_json parse v c)"
    and "c \<in> set (bt_values (os_indexes st)) \<Longrightarrow> ic_unique c \<Longrightarrow> r \<in> set (os_records st) \<Longrightarrow> \<not> has_key k r \<Longrightarrow>
      rc_value n = v \<Longrightarrow> index_apart parse c r n"
proof -
  obtain b where b: "validate_key_budget k 0 = Inr b" and v: "validate_indexes parse order k v st = Inr ()"
    and p: "sat_add (record_bytes (os_records st) - (case store_get k st of None \<Rightarrow> 0 | Some r \<Rightarrow> byte_len (rc_value r)))
      (byte_len v) \<le> MAX_OBJECT_STORE_VALUE_BYTES"
    and n: "\<not> ((case store_get k st of None \<Rightarrow> 0 | Some r \<Rightarrow> byte_len (rc_value r)) = 0 \<and>
      length (os_records st) \<ge> MAX_RECORDS_PER_ORIGIN)"
    using assms(1) by (auto simp: check_put_def Let_def result_simps not_less split: if_splits)
  show "is_ok (validate_key_budget k 0)" using b by simp
  show "record_bytes (os_records st) - (case store_get k st of None \<Rightarrow> 0 | Some r \<Rightarrow> byte_len (rc_value r)) + byte_len v
      \<le> MAX_OBJECT_STORE_VALUE_BYTES"
    using p by (subst (asm) sat_add_le_iff) (simp_all add: idb_limits u64_max_def)
  show "store_get k st = None \<Longrightarrow> length (os_records st) < MAX_RECORDS_PER_ORIGIN" using n by auto
  let ?cs = "filter ic_unique (order (bt_values (os_indexes st)))"
  have cs: "check_configs parse k v (os_records st) ?cs = Inr ()" using v by (simp add: validate_indexes_def)
  have mem: "c \<in> set ?cs" if "c \<in> set (bt_values (os_indexes st))" "ic_unique c"
    using that assms(2) by (simp add: order_ok_def)
  show "c \<in> set (bt_values (os_indexes st)) \<Longrightarrow> ic_unique c \<Longrightarrow> is_ok (extract_keys_from_json parse v c)"
    using new_value_apart(1) [OF cs] mem by blast
  show "c \<in> set (bt_values (os_indexes st)) \<Longrightarrow> ic_unique c \<Longrightarrow> r \<in> set (os_records st) \<Longrightarrow> \<not> has_key k r \<Longrightarrow>
      rc_value n = v \<Longrightarrow> index_apart parse c r n"
    using new_value_apart(2) [OF cs] mem by blast
qed

lemma place_record_ok:
  assumes st: "store_ok parse st" and check: "check_put parse order k v st = Inr ()" and order: "order_ok order"
    and v: "byte_len v \<le> MAX_RECORD_VALUE_BYTES"
  shows "store_ok parse (place_record k v st)"
proof (cases "list_ex (has_key k) (os_records st)")
  case True
  note facts = check_put_facts [OF check order st]
  obtain as r bs where split: "os_records st = as @ r # bs" "has_key k r" "\<forall>a\<in>set as. \<not> has_key k a"
    "set_value k v (os_records st) = as @ r\<lparr>rc_value := v\<rparr> # bs" "find (has_key k) (os_records st) = Some r"
    using first_record [OF True] by metis
  have others: "\<not> has_key k x" if "x \<in> set as \<union> set bs" for x
    using others_lack_key [of as r bs k x] st split that by (simp add: store_ok_def)
  have "record_bytes as + byte_len v + record_bytes bs \<le> MAX_OBJECT_STORE_VALUE_BYTES"
    using facts(2) split by (simp add: store_get_def)
  moreover have "index_ok parse (as @ r\<lparr>rc_value := v\<rparr> # bs) c" if "c \<in> set (bt_values (os_indexes st))" "ic_unique c" for c
    using facts(4,5) [OF that] others st that split(1)
    by (auto simp: index_ok_middle store_ok_def)
  ultimately show ?thesis
    using st split v True facts(1) by (auto simp: store_ok_def place_record_def record_ok_def)
next
  case False
  note facts = check_put_facts [OF check order st]
  let ?n = "\<lparr>rc_key = k, rc_value = v\<rparr>"
  have none: "store_get k st = None" using False by (simp add: store_get_def find_has_key)
  have lack: "\<not> has_key k x" if "x \<in> set (os_records st)" for x using False that by (simp add: list_ex_iff)
  have "index_ok parse (sort_by record_cmp (os_records st @ [?n])) c"
    if "c \<in> set (bt_values (os_indexes st))" "ic_unique c" for c
    using facts(4,5) [OF that] lack st that by (intro index_ok_insert) (auto simp: store_ok_def)
  moreover have "keys_ok (map rc_key (sort_by record_cmp (os_records st @ [?n])))"
    using st False by (intro keys_ok_insert) (simp_all add: store_ok_def)
  ultimately show ?thesis
    using st v False facts(1,2) facts(3) [OF none] none
    by (auto simp: store_ok_def place_record_def record_ok_def record_bytes_sort length_sort_by)
qed

lemma choose_key_ok:
  "choose_key k st = Inr (k', st') \<Longrightarrow> store_ok parse st' = store_ok parse st \<and> os_records st' = os_records st
     \<and> os_indexes st' = os_indexes st"
  by (auto simp: choose_key_def store_ok_def split: option.splits if_splits)

lemma store_put_ok:
  assumes "store_ok parse st" and "order_ok order"
  shows "store_ok parse (snd (store_put parse order k v st))"
proof (cases "choose_key k st")
  case (Inr p)
  obtain k' st1 where p: "p = (k', st1)" by (cases p)
  then have "store_ok parse st1" using choose_key_ok Inr assms(1) by metis
  then show ?thesis
    using Inr p assms(2) place_record_ok [of parse st1 order k' v]
    by (auto simp: store_put_def assms(1) split: sum.splits)
qed (simp add: store_put_def assms(1))

lemma store_add_ok:
  assumes "store_ok parse st" and "order_ok order"
  shows "store_ok parse (snd (store_add parse order k v st))"
  using store_put_ok [OF assms] assms(1) by (auto simp: store_add_def split: sum.splits prod.splits)

lemma store_delete_ok:
  assumes "store_ok parse st"
  shows "store_ok parse (snd (store_delete k st))"
proof (cases "list_ex (has_key k) (os_records st)")
  case True
  then obtain as r bs where "os_records st = as @ r # bs" "remove_first (has_key k) (os_records st) = as @ bs"
    using first_record [OF True] by metis
  with assms True show ?thesis
    by (auto simp: store_delete_def store_ok_def index_ok_middle dest: keys_ok_drop)
qed (use assms in \<open>simp add: store_delete_def\<close>)

lemma store_clear_ok: "store_ok parse st \<Longrightarrow> store_ok parse (store_clear st)"
  by (simp add: store_ok_def store_clear_def keys_ok_def index_ok_def)

lemma bt_values_insert: "set (bt_values (bt_insert k v m)) \<subseteq> insert v (set (bt_values m))"
  by (induction k v m rule: bt_insert.induct) (auto simp: bt_values_def)

lemma bt_insert_length: "length (bt_insert k v m) \<le> Suc (length m)"
  by (induction k v m rule: bt_insert.induct) auto

lemma bt_values_remove: "set (bt_values (bt_remove k m)) \<subseteq> set (bt_values m)" "length (bt_remove k m) \<le> length m"
  by (auto simp: bt_values_def bt_remove_def)

lemma create_index_ok:
  assumes "store_ok parse st" and "create_index parse c st = Inr st'"
  shows "store_ok parse st'"
proof -
  have st': "st' = st\<lparr>os_indexes := bt_insert (ic_name c) c (os_indexes st)\<rparr>"
    and n: "bt_get (ic_name c) (os_indexes st) = None" "length (os_indexes st) < MAX_INDEXES_PER_STORE"
    and u: "ic_unique c \<Longrightarrow> check_unique parse c (os_records st) [] = Inr ()"
    using assms(2) by (auto simp: create_index_def result_simps split: if_splits)
  have "index_ok parse (os_records st) c" if "ic_unique c" using check_unique_index_ok [OF u [OF that]] by simp
  then show ?thesis
    using assms(1) n bt_insert_length [of "ic_name c" c "os_indexes st"] bt_values_insert [of "ic_name c" c "os_indexes st"]
    by (auto simp: st' store_ok_def bt_insert_ok)
qed

lemma delete_index_ok: "store_ok parse st \<Longrightarrow> store_ok parse (snd (delete_index name st))"
  using bt_values_remove [of name "os_indexes st"] by (auto simp: delete_index_def store_ok_def bt_remove_ok)

lemma new_object_store_ok: "store_ok parse (new_object_store name kp auto)"
  by (simp add: store_ok_def new_object_store_def keys_ok_def bt_values_def)

section \<open>Reading back\<close>

lemma store_get_iff:
  assumes "keys_ok (map rc_key (os_records st))"
  shows "store_get k st = Some r \<longleftrightarrow> r \<in> set (os_records st) \<and> has_key k r"
proof
  assume "store_get k st = Some r"
  then show "r \<in> set (os_records st) \<and> has_key k r" by (auto simp: store_get_def find_Some_iff)
next
  assume r: "r \<in> set (os_records st) \<and> has_key k r"
  then have "list_ex (has_key k) (os_records st)" by (auto simp: list_ex_iff)
  then obtain as x bs where split: "os_records st = as @ x # bs" "has_key k x" "find (has_key k) (os_records st) = Some x"
    using first_record by metis
  with r others_lack_key [of as x bs k r] assms show "store_get k st = Some r" by (auto simp: store_get_def)
qed

lemma place_record_get:
  assumes ok: "keys_ok (map rc_key (os_records st))"
  shows "key_eq k k \<Longrightarrow> \<exists>r. store_get k (place_record k v st) = Some r \<and> rc_value r = v"
    and "\<not> key_eq k j \<Longrightarrow> store_get j (place_record k v st) = store_get j st"
proof -
  have "keys_ok (map rc_key (os_records (place_record k v st))) \<and>
     (key_eq k k \<longrightarrow> (\<exists>r\<in>set (os_records (place_record k v st)). has_key k r \<and> rc_value r = v)) \<and>
     (\<not> key_eq k j \<longrightarrow> (\<forall>r. has_key j r \<longrightarrow> r \<in> set (os_records (place_record k v st)) \<longleftrightarrow> r \<in> set (os_records st)))"
  proof (cases "list_ex (has_key k) (os_records st)")
    case True
    then obtain as x bs where split: "os_records st = as @ x # bs" "has_key k x"
      "set_value k v (os_records st) = as @ x\<lparr>rc_value := v\<rparr> # bs"
      using first_record by metis
    have other: "\<not> key_eq (rc_key x) j" if "\<not> key_eq k j"
      using key_eq_trans [OF key_eq_sym(1)] split(2) that unfolding has_key_def by blast
    have "map rc_key (set_value k v (os_records st)) = map rc_key (os_records st)" using split by simp
    with split True ok show ?thesis by (auto simp: place_record_def has_key_def dest: other)
  next
    case False
    then show ?thesis using ok keys_ok_insert [of "os_records st" "\<lparr>rc_key = k, rc_value = v\<rparr>"]
      by (auto simp: place_record_def has_key_def)
  qed
  then have ok': "keys_ok (map rc_key (os_records (place_record k v st)))"
    and new: "key_eq k k \<Longrightarrow> \<exists>r\<in>set (os_records (place_record k v st)). has_key k r \<and> rc_value r = v"
    and others: "\<not> key_eq k j \<Longrightarrow> has_key j r \<Longrightarrow> r \<in> set (os_records (place_record k v st)) \<longleftrightarrow> r \<in> set (os_records st)" for r
    by auto
  show "key_eq k k \<Longrightarrow> \<exists>r. store_get k (place_record k v st) = Some r \<and> rc_value r = v"
    using new store_get_iff [OF ok'] by blast
  assume "\<not> key_eq k j"
  then have "store_get j (place_record k v st) = Some r \<longleftrightarrow> store_get j st = Some r" for r
    using others [of r] store_get_iff [OF ok', of j r] store_get_iff [OF ok, of j r] by blast
  then show "store_get j (place_record k v st) = store_get j st"
    by (metis option.exhaust)
qed

lemma store_put_result:
  assumes "store_put parse order k v st = (Inr k', st')"
  shows "\<exists>st1. os_records st1 = os_records st \<and> os_indexes st1 = os_indexes st \<and> st' = place_record k' v st1 \<and>
    (\<forall>x. k = Some x \<longrightarrow> k' = x)"
proof -
  obtain st1 where c: "choose_key k st = Inr (k', st1)" and st': "st' = place_record k' v st1"
    using assms by (auto simp: store_put_def split: if_splits sum.splits prod.splits)
  then show ?thesis by (intro exI [of _ st1]) (auto simp: choose_key_def split: option.splits if_splits)
qed

lemma store_put_failed:
  "store_put parse order k v st = (Inl e, st') \<Longrightarrow> os_records st' = os_records st \<and> os_indexes st' = os_indexes st"
  by (auto simp: store_put_def choose_key_def split: if_splits sum.splits prod.splits option.splits)

lemma store_get_records: "os_records st1 = os_records st \<Longrightarrow> store_get k st1 = store_get k st"
  by (simp add: store_get_def)

lemma put_reads_back:
  assumes ok: "store_ok parse st" and put: "store_put parse order k v st = (Inr k', st')"
  shows "key_eq k' k' \<Longrightarrow> \<exists>r. store_get k' st' = Some r \<and> rc_value r = v"
    and "\<not> key_eq k' j \<Longrightarrow> store_get j st' = store_get j st"
proof -
  obtain st1 where st1: "os_records st1 = os_records st" "st' = place_record k' v st1"
    using store_put_result [OF put] by blast
  then have "keys_ok (map rc_key (os_records st1))" using ok by (simp add: store_ok_def)
  note get = place_record_get [OF this, of k']
  show "key_eq k' k' \<Longrightarrow> \<exists>r. store_get k' st' = Some r \<and> rc_value r = v" using get(1) st1 by simp
  show "\<not> key_eq k' j \<Longrightarrow> store_get j st' = store_get j st"
    using get(2) [of j v] st1 store_get_records [OF st1(1)] by simp
qed

section \<open>Cursors\<close>

lemma dedup_by_apart: "sorted_wrt (\<lambda>a b. \<not> same b a) xs \<Longrightarrow> dedup_by same xs = xs"
  by (induction same xs rule: dedup_by.induct) auto

lemma sorted_wrt_take_filter: "sorted_wrt R xs \<Longrightarrow> sorted_wrt R (take n (filter P xs))"
  by (intro sorted_wrt_take sorted_wrt_filter)

definition cursor_source :: "cursor_direction \<Rightarrow> idb_object_store \<Rightarrow> idb_record list" where
  "cursor_source d st = (if d \<in> {CursorPrev, CursorPrevUnique} then rev (os_records st) else os_records st)"

lemma cursor_records:
  assumes "store_ok parse st"
  shows "cu_records (open_cursor r d st) = take MAX_CURSOR_RESULTS (filter (\<lambda>x. in_range r (rc_key x)) (cursor_source d st))"
    and "cu_position (open_cursor r d st) = 0"
    and "sorted_wrt (\<lambda>a b. if d \<in> {CursorPrev, CursorPrevUnique} then record_cmp b a \<noteq> Greater else record_cmp a b \<noteq> Greater)
      (cu_records (open_cursor r d st))"
proof -
  let ?found = "take MAX_CURSOR_RESULTS (filter (\<lambda>x. in_range r (rc_key x)) (cursor_source d st))"
  have keys: "sorted_wrt (\<lambda>a b. record_cmp a b \<noteq> Greater) (os_records st)"
    "sorted_wrt (\<lambda>a b. \<not> key_eq (rc_key a) (rc_key b)) (os_records st)"
    using assms by (simp_all add: store_ok_def keys_ok_def sorted_wrt_map record_cmp_def)
  have apart: "sorted_wrt (\<lambda>a b. \<not> key_eq (rc_key b) (rc_key a)) (os_records st)"
    using keys(2) by (rule sorted_wrt_mono_rel [rotated]) (blast intro: key_eq_sym)
  have "sorted_wrt (\<lambda>a b. \<not> key_eq (rc_key b) (rc_key a)) (cursor_source d st)"
    using apart keys(2) by (simp add: cursor_source_def sorted_wrt_rev)
  then have "dedup_by (\<lambda>left right. key_eq (rc_key left) (rc_key right)) ?found = ?found"
    by (intro dedup_by_apart sorted_wrt_take_filter)
  then show found: "cu_records (open_cursor r d st) = ?found"
    by (simp add: open_cursor_def cursor_source_def cursor_from_records_def Let_def)
  show "cu_position (open_cursor r d st) = 0" by (simp add: open_cursor_def cursor_from_records_def Let_def)
  have "sorted_wrt (\<lambda>a b. if d \<in> {CursorPrev, CursorPrevUnique} then record_cmp b a \<noteq> Greater else record_cmp a b \<noteq> Greater)
      (cursor_source d st)"
    using keys(1) by (simp add: cursor_source_def sorted_wrt_rev)
  then show "sorted_wrt (\<lambda>a b. if d \<in> {CursorPrev, CursorPrevUnique} then record_cmp b a \<noteq> Greater else record_cmp a b \<noteq> Greater)
      (cu_records (open_cursor r d st))"
    unfolding found by (rule sorted_wrt_take_filter)
qed

section \<open>Index queries\<close>

lemma push_hits_result:
  "push_hits r x ks hits = Inr hits' \<Longrightarrow> hits' = hits @ map (\<lambda>k. (k, x)) (filter (in_range r) ks)"
  by (induction r x ks hits rule: push_hits.induct) (auto split: if_splits)

lemma scan_index_result:
  assumes "scan_index parse c r rs hits = Inr hits'"
  shows "set hits' = set hits \<union> {(k, x). x \<in> set rs \<and> in_range r k \<and>
    (\<exists>ks. extract_keys_from_json parse (rc_value x) c = Inr ks \<and> k \<in> set ks)}"
  using assms
proof (induction rs arbitrary: hits)
  case (Cons x rs)
  obtain ks hits1 where "extract_keys_from_json parse (rc_value x) c = Inr ks" "push_hits r x ks hits = Inr hits1"
    "scan_index parse c r rs hits1 = Inr hits'"
    using Cons.prems by (auto simp: result_simps)
  with Cons.IH [of hits1] push_hits_result [of r x ks hits hits1] show ?case by auto
qed simp

text \<open>What the last loop picks from the sorted hits.\<close>

definition picks :: "nat \<Rightarrow> nat \<Rightarrow> idb_key list \<Rightarrow> (idb_key \<times> idb_record) list \<Rightarrow> (idb_key \<times> idb_record) list \<Rightarrow> bool" where
  "picks limit n seen hits hs \<longleftrightarrow>
     set hs \<subseteq> set hits \<and> sorted_wrt (\<lambda>a b. hit_cmp a b \<noteq> Greater) hs \<and>
     sorted_wrt (\<lambda>a b. key_cmp (rc_key (snd a)) (rc_key (snd b)) \<noteq> Equiv) hs \<and>
     (\<forall>h\<in>set hs. \<not> key_seen (rc_key (snd h)) seen) \<and> n + length hs \<le> max 1 limit \<and>
     (n + length hs < limit \<longrightarrow> (\<forall>h\<in>set hits. key_seen (rc_key (snd h)) (map (\<lambda>h. rc_key (snd h)) hs @ seen)))"

lemma key_seen_simps [simp]:
  "key_seen k [] = False" "key_seen k (x # xs) \<longleftrightarrow> key_cmp x k = Equiv \<or> key_seen k xs"
  "key_seen k (xs @ ys) \<longleftrightarrow> key_seen k xs \<or> key_seen k ys"
  by (simp_all add: key_seen_def)

lemma picks_stop: "limit \<le> n \<Longrightarrow> n \<le> max 1 limit \<Longrightarrow> picks limit n seen hits []"
  by (simp add: picks_def)

lemma picks_seen:
  assumes "picks limit n seen hits hs" and "key_seen (rc_key r) seen"
  shows "picks limit n seen ((k, r) # hits) hs"
  using assms by (auto simp: picks_def)

lemma picks_fresh:
  assumes "picks limit (Suc n) (rc_key r # seen) hits hs" and "\<not> key_seen (rc_key r) seen"
    and "\<forall>h\<in>set hits. hit_cmp (k, r) h \<noteq> Greater"
  shows "picks limit n seen ((k, r) # hits) ((k, r) # hs)"
  using assms by (auto simp: picks_def)

lemma take_unique_result:
  assumes "sorted_wrt (\<lambda>a b. hit_cmp a b \<noteq> Greater) hits" and "length out < max 1 (min limit MAX_CURSOR_RESULTS)"
  shows "\<exists>hs. take_unique limit seen out hits = out @ map snd hs \<and> picks (min limit MAX_CURSOR_RESULTS) (length out) seen hits hs"
  using assms
proof (induction hits arbitrary: seen out)
  case Nil
  then show ?case by (simp add: picks_def)
next
  case (Cons h hits seen out)
  obtain k r where h: "h = (k, r)" by (cases h)
  let ?m = "min limit MAX_CURSOR_RESULTS"
  have sorted: "sorted_wrt (\<lambda>a b. hit_cmp a b \<noteq> Greater) hits" "\<forall>x\<in>set hits. hit_cmp (k, r) x \<noteq> Greater"
    using Cons.prems(1) h by simp_all
  show ?case
  proof (cases "key_seen (rc_key r) seen")
    case seen: True
    show ?thesis
    proof (cases "length out \<ge> ?m")
      case True
      with seen h Cons.prems(2) show ?thesis by (intro exI [of _ "[]"]) (simp add: picks_stop)
    next
      case False
      obtain hs where "take_unique limit seen out hits = out @ map snd hs" "picks ?m (length out) seen hits hs"
        using Cons.IH [OF sorted(1) Cons.prems(2)] by blast
      with False seen h show ?thesis by (intro exI [of _ hs]) (simp add: picks_seen)
    qed
  next
    case fresh: False
    show ?thesis
    proof (cases "Suc (length out) \<ge> ?m")
      case True
      then have "picks ?m (Suc (length out)) (rc_key r # seen) hits []" using Cons.prems(2) by (intro picks_stop) auto
      with True fresh h sorted(2) show ?thesis by (intro exI [of _ "[(k, r)]"]) (simp add: picks_fresh)
    next
      case False
      then have "length (out @ [r]) < max 1 ?m" by (auto simp: less_max_iff_disj not_le)
      then obtain hs where "take_unique limit (rc_key r # seen) (out @ [r]) hits = (out @ [r]) @ map snd hs"
        "picks ?m (Suc (length out)) (rc_key r # seen) hits hs"
        using Cons.IH [OF sorted(1)] by fastforce
      with False fresh h sorted(2) show ?thesis by (intro exI [of _ "(k, r) # hs"]) (simp add: picks_fresh)
    qed
  qed
qed

definition index_hit :: "json_parser \<Rightarrow> idb_index_config \<Rightarrow> idb_key_range option \<Rightarrow> idb_object_store \<Rightarrow> idb_key \<times> idb_record \<Rightarrow> bool" where
  "index_hit parse c r st h \<longleftrightarrow> snd h \<in> set (os_records st) \<and> in_range r (fst h) \<and>
     (\<exists>ks. extract_keys_from_json parse (rc_value (snd h)) c = Inr ks \<and> fst h \<in> set ks)"

lemma index_query:
  assumes "get_all_by_index parse name r limit st = Inr found" and "bt_get name (os_indexes st) = Some c"
  shows "\<exists>hs. found = map snd hs \<and> (\<forall>h\<in>set hs. index_hit parse c r st h) \<and> sorted_wrt (\<lambda>a b. hit_cmp a b \<noteq> Greater) hs \<and>
    sorted_wrt (\<lambda>a b. key_cmp (rc_key a) (rc_key b) \<noteq> Equiv) found \<and> length found \<le> max 1 (min limit MAX_CURSOR_RESULTS) \<and>
    (length found < min limit MAX_CURSOR_RESULTS \<longrightarrow>
      (\<forall>h. index_hit parse c r st h \<longrightarrow> (\<exists>x\<in>set found. key_cmp (rc_key x) (rc_key (snd h)) = Equiv)))"
proof -
  obtain hits where hits: "scan_index parse c r (os_records st) [] = Inr hits"
    and found: "found = take_unique limit [] [] (sort_by hit_cmp hits)"
    using assms by (auto simp: get_all_by_index_def result_simps)
  have set_hits: "h \<in> set hits \<longleftrightarrow> index_hit parse c r st h" for h
    using scan_index_result [OF hits] by (cases h) (auto simp: index_hit_def)
  obtain hs where hs: "found = map snd hs" "picks (min limit MAX_CURSOR_RESULTS) 0 [] (sort_by hit_cmp hits) hs"
    using take_unique_result [OF hit_order.sort_by_sorted [of hits], where limit = limit and out = "[]" and seen = "[]"] found by (auto simp: less_max_iff_disj)
  have "\<exists>x\<in>set found. key_cmp (rc_key x) (rc_key (snd h)) = Equiv"
    if "length found < min limit MAX_CURSOR_RESULTS" "index_hit parse c r st h" for h
  proof -
    have "h \<in> set (sort_by hit_cmp hits)" using set_hits that(2) by simp
    with that(1) hs have "key_seen (rc_key (snd h)) (map (\<lambda>h. rc_key (snd h)) hs)" by (auto simp: picks_def)
    then show ?thesis by (auto simp: key_seen_def list_ex_iff hs(1))
  qed
  then show ?thesis
    using hs set_hits by (intro exI [of _ hs]) (auto simp: picks_def sorted_wrt_map)
qed

end
