(* ===== verification/Indexed_Db_Session.thy ===== *)
theory Indexed_Db_Session
  imports Indexed_Db_Stores
begin

text \<open>
  The IndexedDB engine with its open transactions over any sequence of calls, and the properties of
  \<^verbatim>\<open>src/src/indexeddb.rs\<close>.
\<close>

section \<open>Calls\<close>

datatype store_call =
    CallPut "idb_key option" ustr
  | CallAdd "idb_key option" ustr
  | CallDelete idb_key
  | CallClear
  | CallCreateIndex idb_index_config
  | CallDeleteIndex ustr

fun store_step :: "json_parser \<Rightarrow> index_order \<Rightarrow> store_call \<Rightarrow> idb_object_store \<Rightarrow> idb_object_store" where
  "store_step parse order (CallPut k v) st = snd (store_put parse order k v st)"
| "store_step parse order (CallAdd k v) st = snd (store_add parse order k v st)"
| "store_step parse order (CallDelete k) st = snd (store_delete k st)"
| "store_step parse order CallClear st = store_clear st"
| "store_step parse order (CallCreateIndex c) st = (case create_index parse c st of Inl _ \<Rightarrow> st | Inr st' \<Rightarrow> st')"
| "store_step parse order (CallDeleteIndex name) st = snd (delete_index name st)"

lemma store_step_ok: "store_ok parse st \<Longrightarrow> order_ok order \<Longrightarrow> store_ok parse (store_step parse order call st)"
  by (cases call) (auto simp: store_put_ok store_add_ok store_delete_ok store_clear_ok delete_index_ok
    split: sum.split dest: create_index_ok)

text \<open>The callers reach a store through the databases of the engine.\<close>

definition with_store :: "ustr \<Rightarrow> ustr \<Rightarrow> (idb_object_store \<Rightarrow> idb_object_store) \<Rightarrow> idb_engine \<Rightarrow> idb_engine" where
  "with_store name store f en =
     (case bt_get name (en_databases en) of None \<Rightarrow> en
      | Some db \<Rightarrow>
          (case bt_get store (db_stores db) of None \<Rightarrow> en
           | Some st \<Rightarrow> en\<lparr>en_databases := bt_insert name (db\<lparr>db_stores := bt_insert store (f st) (db_stores db)\<rparr>) (en_databases en)\<rparr>))"

definition with_database :: "ustr \<Rightarrow> (idb_database \<Rightarrow> idb_database) \<Rightarrow> idb_engine \<Rightarrow> idb_engine" where
  "with_database name f en =
     (case bt_get name (en_databases en) of None \<Rightarrow> en
      | Some db \<Rightarrow> en\<lparr>en_databases := bt_insert name (f db) (en_databases en)\<rparr>)"

record idb_session =
  se_engine :: idb_engine
  se_open :: "idb_transaction list"

datatype session_call =
    CallOpen ustr "nat option"
  | CallStore ustr ustr store_call
  | CallCreateStore ustr ustr "ustr option" bool
  | CallDeleteStore ustr ustr
  | CallCommit nat
  | CallAbort nat
  | CallDeleteDatabase ustr

definition settle_transaction ::
  "nat \<Rightarrow> (idb_transaction \<Rightarrow> idb_engine \<Rightarrow> (idb_error + unit) \<times> idb_engine) \<Rightarrow> idb_session \<Rightarrow> idb_session" where
  "settle_transaction i f s =
     (case get_at (se_open s) i of None \<Rightarrow> s
      | Some tx \<Rightarrow> \<lparr>se_engine = snd (f tx (se_engine s)), se_open = take i (se_open s) @ drop (i + 1) (se_open s)\<rparr>)"

fun session_step :: "json_parser \<Rightarrow> index_order \<Rightarrow> (ustr list \<Rightarrow> ustr list) \<Rightarrow> session_call \<Rightarrow> idb_session \<Rightarrow> idb_session" where
  "session_step parse order names (CallOpen name version) s =
     (case open_db names name version (se_engine s) of
        (Inl _, en) \<Rightarrow> s\<lparr>se_engine := en\<rparr>
      | (Inr tx, en) \<Rightarrow> s\<lparr>se_engine := en, se_open := se_open s @ [tx]\<rparr>)"
| "session_step parse order names (CallStore name store call) s =
     s\<lparr>se_engine := with_store name store (store_step parse order call) (se_engine s)\<rparr>"
| "session_step parse order names (CallCreateStore name store kp auto) s =
     s\<lparr>se_engine := with_database name
       (\<lambda>db. case create_object_store store kp auto db of Inl _ \<Rightarrow> db | Inr db' \<Rightarrow> db') (se_engine s)\<rparr>"
| "session_step parse order names (CallDeleteStore name store) s =
     s\<lparr>se_engine := with_database name (\<lambda>db. snd (delete_object_store store db)) (se_engine s)\<rparr>"
| "session_step parse order names (CallCommit i) s = settle_transaction i commit_transaction s"
| "session_step parse order names (CallAbort i) s = settle_transaction i abort_transaction s"
| "session_step parse order names (CallDeleteDatabase name) s =
     s\<lparr>se_engine := snd (delete_database name (se_engine s))\<rparr>"

section \<open>The invariant\<close>

definition database_ok :: "json_parser \<Rightarrow> idb_database \<Rightarrow> bool" where
  "database_ok parse db \<longleftrightarrow> bt_ok (db_stores db) \<and> length (db_stores db) \<le> MAX_STORES_PER_DB \<and>
     (\<forall>st\<in>set (bt_values (db_stores db)). store_ok parse st)"

definition engine_ok :: "json_parser \<Rightarrow> idb_engine \<Rightarrow> bool" where
  "engine_ok parse en \<longleftrightarrow> bt_ok (en_databases en) \<and> length (en_databases en) \<le> MAX_DBS_PER_ORIGIN \<and>
     (\<forall>db\<in>set (bt_values (en_databases en)). database_ok parse db)"

definition session_ok :: "json_parser \<Rightarrow> idb_session \<Rightarrow> bool" where
  "session_ok parse s \<longleftrightarrow> engine_ok parse (se_engine s) \<and>
     (\<forall>tx\<in>set (se_open s). \<forall>db. tx_snapshot tx = Some db \<longrightarrow> database_ok parse db)"

lemma bt_get_values: "bt_get k m = Some v \<Longrightarrow> v \<in> set (bt_values m)"
  by (force simp: bt_values_def dest: bt_get_SomeD)

lemma bt_insert_length_known: "bt_get k m \<noteq> None \<Longrightarrow> bt_ok m \<Longrightarrow> length (bt_insert k v m) = length m"
proof (induction k v m rule: bt_insert.induct)
  case (2 k v k' v' m)
  then show ?case using bt_get_SomeD [of k m] by (fastforce simp: bt_get_def bt_ok_Cons split: if_splits)
qed (simp add: bt_get_def)



lemma engine_ok_insert:
  assumes "engine_ok parse en" and "database_ok parse db"
    and "bt_get name (en_databases en) = None \<Longrightarrow> length (en_databases en) < MAX_DBS_PER_ORIGIN"
  shows "engine_ok parse (en\<lparr>en_databases := bt_insert name db (en_databases en)\<rparr>)"
  using assms bt_insert_length [of name db "en_databases en"] bt_insert_length_known [of name "en_databases en" db]
    bt_values_insert [of name db "en_databases en"]
  by (cases "bt_get name (en_databases en) = None") (auto simp: engine_ok_def bt_insert_ok)

lemma engine_ok_get: "engine_ok parse en \<Longrightarrow> bt_get name (en_databases en) = Some db \<Longrightarrow> database_ok parse db"
  by (auto simp: engine_ok_def dest: bt_get_values)

lemma with_database_ok:
  assumes "engine_ok parse en" and "\<And>db. database_ok parse db \<Longrightarrow> database_ok parse (f db)"
  shows "engine_ok parse (with_database name f en)"
  using assms engine_ok_get [OF assms(1)] by (auto simp: with_database_def intro!: engine_ok_insert split: option.split)

lemma store_change_ok:
  assumes "database_ok parse db" and "bt_get store (db_stores db) = Some st" and "store_ok parse st'"
  shows "database_ok parse (db\<lparr>db_stores := bt_insert store st' (db_stores db)\<rparr>)"
  using assms bt_values_insert [of store st' "db_stores db"] bt_insert_length_known [of store "db_stores db" st']
  by (auto simp: database_ok_def bt_insert_ok)

lemma with_store_ok:
  assumes "engine_ok parse en" and "\<And>st. store_ok parse st \<Longrightarrow> store_ok parse (f st)"
  shows "engine_ok parse (with_store name store f en)"
proof -
  have "database_ok parse (db\<lparr>db_stores := bt_insert store (f st) (db_stores db)\<rparr>)"
    if "bt_get name (en_databases en) = Some db" "bt_get store (db_stores db) = Some st" for db st
  proof -
    have db: "database_ok parse db" by (rule engine_ok_get [OF assms(1) that(1)])
    then have "store_ok parse st" using that(2) by (auto simp: database_ok_def dest: bt_get_values)
    then show ?thesis using store_change_ok [OF db that(2)] assms(2) by blast
  qed
  then show ?thesis
    using assms(1) by (auto simp: with_store_def intro!: engine_ok_insert split: option.split)
qed

lemma create_object_store_ok:
  assumes "database_ok parse db" and "create_object_store store kp auto db = Inr db'"
  shows "database_ok parse db'"
proof -
  have "length (db_stores db) < MAX_STORES_PER_DB" and db': "db' = db\<lparr>db_stores := bt_insert store (new_object_store store kp auto)
      (db_stores db), db_epoch := db_epoch db + 1\<rparr>"
    using assms(2) by (auto simp: create_object_store_def split: if_splits)
  then show ?thesis
    using assms(1) bt_values_insert [of store "new_object_store store kp auto" "db_stores db"]
      bt_insert_length [of store "new_object_store store kp auto" "db_stores db"]
    by (auto simp: database_ok_def bt_insert_ok new_object_store_ok)
qed

lemma delete_object_store_ok: "database_ok parse db \<Longrightarrow> database_ok parse (snd (delete_object_store store db))"
  using bt_values_remove [of store "db_stores db"]
  by (auto simp: delete_object_store_def database_ok_def bt_remove_ok)

lemma database_ok_version [simp]:
  "database_ok parse (db\<lparr>db_version := v\<rparr>) = database_ok parse db"
  "database_ok parse (db\<lparr>db_epoch := e\<rparr>) = database_ok parse db"
  by (simp_all add: database_ok_def)

lemma open_db_ok:
  assumes en: "engine_ok parse en" and o: "open_db names name version en = (Inr tx, en')"
  shows "engine_ok parse en'" and "\<exists>db. tx_snapshot tx = Some db \<and> database_ok parse db"
proof -
  have "\<exists>db. database_ok parse db \<and> tx_snapshot tx = Some db \<and>
      en' = en\<lparr>en_databases := bt_insert name db (en_databases en), en_next_tx_id := en_next_tx_id en + 1\<rparr> \<and>
      (bt_get name (en_databases en) = None \<longrightarrow> length (en_databases en) < MAX_DBS_PER_ORIGIN)"
  proof (cases "bt_get name (en_databases en)")
    case None
    then have "database_ok parse (new_database name v)" for v by (simp add: database_ok_def new_database_def bt_values_def)
    with None o show ?thesis by (auto simp: open_db_def new_database_def Let_def split: if_splits option.splits)
  next
    case (Some db)
    with engine_ok_get [OF en Some] o show ?thesis by (auto simp: open_db_def Let_def split: if_splits option.splits)
  qed
  then obtain db where db: "database_ok parse db" "tx_snapshot tx = Some db"
    "en' = en\<lparr>en_databases := bt_insert name db (en_databases en), en_next_tx_id := en_next_tx_id en + 1\<rparr>"
    "bt_get name (en_databases en) = None \<longrightarrow> length (en_databases en) < MAX_DBS_PER_ORIGIN" by (elim exE conjE) rule
  have "engine_ok parse (en\<lparr>en_databases := bt_insert name db (en_databases en)\<rparr>)" 
    using db(4) by (intro engine_ok_insert en db(1)) simp
  then show "engine_ok parse en'" using db(3) by (simp add: engine_ok_def)
  show "\<exists>db. tx_snapshot tx = Some db \<and> database_ok parse db" using db by blast
qed

lemma restore_ok:
  assumes "engine_ok parse en" and "\<And>db. tx_snapshot tx = Some db \<Longrightarrow> database_ok parse db"
  shows "engine_ok parse (restore_snapshot_if_safe tx en)"
  using assms by (auto simp: restore_snapshot_if_safe_def intro!: engine_ok_insert split: option.split)

lemma settle_ok:
  assumes "session_ok parse s" and "\<And>tx en. snd (f tx en) = en \<or> snd (f tx en) = restore_snapshot_if_safe tx en"
  shows "session_ok parse (settle_transaction i f s)"
proof (cases "get_at (se_open s) i")
  case (Some tx)
  then have "tx \<in> set (se_open s)" by (auto simp: result_simps)
  then have "engine_ok parse (snd (f tx (se_engine s)))"
    using assms(2) [of tx "se_engine s"] assms(1) restore_ok [of parse "se_engine s" tx] by (auto simp: session_ok_def)
  with Some assms(1) show ?thesis
    by (auto simp: settle_transaction_def session_ok_def dest!: in_set_takeD in_set_dropD)
qed (simp add: settle_transaction_def assms(1))

lemma session_step_ok:
  assumes "session_ok parse s" and "order_ok order"
  shows "session_ok parse (session_step parse order names call s)"
proof (cases call)
  case (CallOpen name version)
  have "fst (open_db names name version en) = Inl e \<Longrightarrow> snd (open_db names name version en) = en" for en e
    by (auto simp: open_db_def Let_def split: if_splits prod.splits)
  note failed = this
  obtain r en where r: "open_db names name version (se_engine s) = (r, en)" by (cases "open_db names name version (se_engine s)")
  show ?thesis
  proof (cases r)
    case (Inl e)
    with r failed [of "se_engine s" e] have "en = se_engine s" by simp
    with r Inl CallOpen assms(1) show ?thesis by simp
  next
    case (Inr tx)
    with open_db_ok [of parse "se_engine s" names name version tx en] r assms(1)
    have "engine_ok parse en" "\<exists>db. tx_snapshot tx = Some db \<and> database_ok parse db" by (simp_all add: session_ok_def)
    with r Inr CallOpen assms(1) show ?thesis by (auto simp: session_ok_def)
  qed
next
  case (CallStore name store c)
  with assms store_step_ok [of parse _ order c] show ?thesis by (simp add: session_ok_def with_store_ok)
next
  case (CallCreateStore name store kp auto)
  have "database_ok parse (case create_object_store store kp auto db of Inl _ \<Rightarrow> db | Inr db' \<Rightarrow> db')" if "database_ok parse db" for db
    using that create_object_store_ok by (auto split: sum.split)
  with assms CallCreateStore show ?thesis by (simp add: session_ok_def with_database_ok)
next
  case (CallDeleteStore name store)
  with assms show ?thesis by (simp add: session_ok_def with_database_ok delete_object_store_ok)
next
  case (CallCommit i)
  have "snd (commit_transaction tx en) = en \<or> snd (commit_transaction tx en) = restore_snapshot_if_safe tx en" for tx en
    by (simp add: commit_transaction_def)
  with assms CallCommit show ?thesis by (simp add: settle_ok)
next
  case (CallAbort i)
  have "snd (abort_transaction tx en) = en \<or> snd (abort_transaction tx en) = restore_snapshot_if_safe tx en" for tx en
    by (simp add: abort_transaction_def)
  with assms CallAbort show ?thesis by (simp add: settle_ok)
next
  case (CallDeleteDatabase name)
  with assms bt_values_remove [of name "en_databases (se_engine s)"] show ?thesis
    by (auto simp: session_ok_def delete_database_def engine_ok_def bt_remove_ok)
qed

interpretation idb_runs: transition_system "\<lambda>s call. session_step parse order names call s"
  "\<lambda>s. order_ok order \<longrightarrow> session_ok parse s" for parse order names
  by unfold_locales (simp add: session_step_ok)

lemma new_session_ok: "session_ok parse \<lparr>se_engine = new_engine origin None, se_open = []\<rparr>"
  by (simp add: session_ok_def engine_ok_def new_engine_def bt_values_def)

section \<open>Rollback\<close>





section \<open>Evaluated calls\<close>

definition one :: f64 where "one = 0x3FF0000000000000"
definition nan_key :: idb_key where "nan_key = KNumber 0x7FF8000000000000"
definition no_json :: json_parser where "no_json = (\<lambda>_. None)"

definition counting_store :: idb_object_store where
  "counting_store = new_object_store (lit ''s'') None True"

definition after_put :: idb_object_store where
  "after_put = snd (store_put no_json id (Some (KNumber one)) (lit ''a'') counting_store)"

lemma first_number: "int_to_f64 1 = one"
  by (simp add: int_to_f64_def one_def fp_round_def f64_format_def fp_emin_def fp_bias_def bit_length.simps fp_with_sign_def
      fp_inf_bits_def Let_def)

lemma one_eq [simp]: "f64_eq one one"
  by (simp add: f64_eq_def fp_eq_def fp_is_nan_def fp_magnitude_def fp_sign_bit_def fp_inf_bits_def f64_format_def one_def)

lemma nan_not_eq [simp]: "\<not> f64_eq 0x7FF8000000000000 b"
  by (simp add: f64_eq_def fp_eq_def fp_is_nan_def fp_magnitude_def fp_sign_bit_def fp_inf_bits_def f64_format_def fp_sign_def)

lemmas idb_eval = store_put_def choose_key_def check_put_def validate_indexes_def place_record_def store_get_def has_key_def
  within_key_budget_def idb_limits new_object_store_def no_json_def bt_values_def byte_len_def utf8_len_def
  counting_store_def Let_def first_number sat_add_def u64_max_def

text \<open>An explicit key does not advance the generator: \<^verbatim>\<open>add\<close> then fails for ever, and \<^verbatim>\<open>put\<close> overwrites.\<close>

lemma after_put_records: "os_records after_put = [\<lparr>rc_key = KNumber one, rc_value = lit ''a''\<rparr>]" "os_counter after_put = 1"
  "os_auto_increment after_put"
  by (simp_all add: after_put_def idb_eval lit_def)

lemma generator_stuck: "store_add no_json id None v after_put = (Inl (Idb ''Key already exists in object store''), after_put)"
  by (simp add: store_add_def choose_key_def store_get_def after_put_records has_key_def first_number)

lemma generator_overwrites:
  "os_records (snd (store_put no_json id None (lit ''b'') after_put)) = [\<lparr>rc_key = KNumber one, rc_value = lit ''b''\<rparr>]"
  by (simp add: after_put_def idb_eval lit_def)

text \<open>A NaN key is accepted, never found, and stored again by every \<^verbatim>\<open>put\<close>.\<close>

lemma nan_key_duplicates:
  "let st = store_step no_json id (CallPut (Some nan_key) (lit ''a'')) (store_step no_json id (CallPut (Some nan_key) (lit ''a'')) counting_store)
   in length (os_records st) = 2 \<and> store_get nan_key st = None \<and> fst (store_delete nan_key st) = False"
  by (simp add: nan_key_def store_delete_def idb_eval lit_def)

text \<open>An update of a record with an empty value is rejected when the store is full.\<close>

lemma empty_record_not_updated:
  assumes "store_get k st = Some r" and "rc_value r = []" and "length (os_records st) = MAX_RECORDS_PER_ORIGIN"
    and "is_ok (validate_key_budget k 0)" and "record_bytes (os_records st) + byte_len v \<le> MAX_OBJECT_STORE_VALUE_BYTES"
    and "byte_len v \<le> MAX_RECORD_VALUE_BYTES"
  shows "fst (store_put parse order (Some k) v st) = Inl (Idb ''Object store record budget exceeded'')"
proof -
  have "sat_add (record_bytes (os_records st)) (byte_len v) \<le> MAX_OBJECT_STORE_VALUE_BYTES"
    using assms(5) sat_add_le [of "record_bytes (os_records st)" "byte_len v"] by simp
  then show ?thesis
    using assms by (auto simp: store_put_def choose_key_def check_put_def is_ok_iff byte_len_def not_less)
qed

text \<open>A query for no records returns one.\<close>

definition plain_index :: idb_index_config where
  "plain_index = \<lparr>ic_name = lit ''i'', ic_key_path = lit ''k'', ic_unique = False, ic_multi_entry = False\<rparr>"

definition field_k :: json_parser where
  "field_k v = Some (JObject [(lit ''k'', JString v)])"

definition indexed_store :: idb_object_store where
  "indexed_store = fold (store_step field_k id)
     [CallCreateIndex plain_index, CallPut (Some (KString (lit ''x''))) (lit ''b''), CallPut (Some (KString (lit ''y''))) (lit ''a'')]
     counting_store"

lemmas query_eval = indexed_store_def get_all_by_index_def create_index_def plain_index_def bt_get_def field_k_def
  extract_keys_from_json_def extract_key_from_json_def in_range_def hit_cmp_def record_cmp_def ord_cmp_def key_seen_def


text \<open>A record without the key path, which an index skips, makes every query of the index fail.\<close>

lemma missing_path_fails_query:
  "get_all_by_index (\<lambda>v. if v = lit ''b'' then Some (JObject []) else field_k v) (lit ''i'') None 5 indexed_store =
     Inl (PathNotFound (lit ''k''))"
  by (simp add: query_eval idb_eval lit_def)

text \<open>What another transaction committed is undone by an abort.\<close>

definition two_writers :: idb_session where
  "two_writers = fold (session_step no_json id id)
     [CallOpen (lit ''d'') None, CallCreateStore (lit ''d'') (lit ''s'') None False, CallCommit 0,
      CallOpen (lit ''d'') None, CallOpen (lit ''d'') None,
      CallStore (lit ''d'') (lit ''s'') (CallPut (Some (KNumber one)) (lit ''a'')), CallCommit 1]
     \<lparr>se_engine = new_engine (lit ''o'') None, se_open = []\<rparr>"

lemmas session_eval = open_db_def with_store_def with_database_def create_object_store_def settle_transaction_def get_at_def
  commit_transaction_def abort_transaction_def restore_snapshot_if_safe_def new_engine_def new_database_def bt_get_def
  total_records_def all_records_def db_records_def store_count_def record_bytes_def

lemma abort_undoes_a_commit:
  "total_records (se_engine two_writers) = 1"
  "total_records (se_engine (session_step no_json id id (CallAbort 0) two_writers)) = 0"
  by (simp_all add: two_writers_def session_eval idb_eval lit_def)

text \<open>An aborted upgrade leaves the new database behind.\<close>

lemma aborted_creation_stays:
  "let s = fold (session_step no_json id id) [CallOpen (lit ''d'') None, CallAbort 0]
       \<lparr>se_engine = new_engine (lit ''o'') None, se_open = []\<rparr>
   in se_open s = [] \<and> map fst (en_databases (se_engine s)) = [lit ''d'']"
  by (simp add: session_eval idb_eval lit_def)

section \<open>The properties\<close>

text \<open>C26. Whatever the calls, successful or not, and whatever transactions are open, the engine holds at most 64 databases of
  at most 256 stores, and in every store, those of the rollback snapshots included, the records are in
  key order with no two equal keys, every key and value and their sum are within the budgets, and no two records share a key
  of a unique index, whose key every record has.
\<close>

theorem idb_session_invariant:
  assumes "order_ok order"
  shows "session_ok parse (fold (session_step parse order names) calls \<lparr>se_engine = new_engine origin None, se_open = []\<rparr>)"
  using assms idb_runs.run_inv [of order parse _ names calls] new_session_ok by simp

theorem idb_session_invariant_witness: "session_ok no_json two_writers"
  unfolding two_writers_def by (rule idb_session_invariant) (simp add: order_ok_def)

text \<open>C27. A value that was stored under a key that equals itself reads back, and no other key is affected; a call that fails leaves
  the records and the indexes as they were.
\<close>

theorem idb_put_get:
  assumes "store_ok parse st" and "store_put parse order k v st = (r, st')"
  shows "case r of
      Inl _ \<Rightarrow> os_records st' = os_records st \<and> os_indexes st' = os_indexes st
    | Inr k' \<Rightarrow> (\<forall>x. k = Some x \<longrightarrow> k' = x) \<and>
        (key_eq k' k' \<longrightarrow> (\<exists>x. store_get k' st' = Some x \<and> rc_value x = v)) \<and>
        (\<forall>j. \<not> key_eq k' j \<longrightarrow> store_get j st' = store_get j st)"
proof (cases r)
  case (Inl e)
  with store_put_failed assms(2) show ?thesis by auto
next
  case (Inr k')
  with assms(2) have put: "store_put parse order k v st = (Inr k', st')" by simp
  show ?thesis
    using put_reads_back [OF assms(1) put] store_put_result [OF put] by (auto simp: Inr)
qed

theorem idb_put_get_witness:
  "\<exists>x. store_get (KNumber one) after_put = Some x \<and> rc_value x = lit ''a''"
proof -
  have st: "store_ok no_json counting_store" unfolding counting_store_def by (rule new_object_store_ok)
  have put: "store_put no_json id (Some (KNumber one)) (lit ''a'') counting_store = (Inr (KNumber one), after_put)"
    by (simp add: after_put_def idb_eval lit_def)
  show ?thesis using idb_put_get [OF st put] by simp
qed

text \<open>A cursor lists exactly the records whose keys are in its range, at most 10,000 of them, ascending or, for the previous
  directions, descending; the unique directions list the same, as keys are unique already.
\<close>

theorem idb_cursor_lists:
  assumes "store_ok parse st"
  shows "cu_records (open_cursor r d st) =
      take MAX_CURSOR_RESULTS (filter (\<lambda>x. in_range r (rc_key x))
        (if d \<in> {CursorPrev, CursorPrevUnique} then rev (os_records st) else os_records st)) \<and>
    sorted_wrt (\<lambda>a b. if d \<in> {CursorPrev, CursorPrevUnique} then record_cmp b a \<noteq> Greater else record_cmp a b \<noteq> Greater)
      (cu_records (open_cursor r d st))"
  unfolding cursor_source_def [symmetric] using cursor_records(1,3) [OF assms] by blast

theorem idb_cursor_lists_witness:
  "cu_records (open_cursor (Some (range_only (KNumber one))) CursorPrev after_put) =
     take MAX_CURSOR_RESULTS (filter (\<lambda>x. in_range (Some (range_only (KNumber one))) (rc_key x)) (rev (os_records after_put)))"
proof -
  have "store_ok no_json counting_store" unfolding counting_store_def by (rule new_object_store_ok)
  then have "store_ok no_json after_put" unfolding after_put_def by (rule store_put_ok) (simp add: order_ok_def)
  from idb_cursor_lists [OF this, of "Some (range_only (KNumber one))" CursorPrev] show ?thesis by simp
qed






end
