(* ===== verification/Public_Suffix.thy ===== *)
theory Public_Suffix
  imports Unicode_Text
begin

text \<open>
  \<^verbatim>\<open>src/src/public_suffix.rs\<close>: the rules of the Public Suffix List, the number of labels of the public suffix
  of a host, and its registrable domain. The list itself is data: its text is the argument of \<open>psl_rules\<close>. The
  search is proved equal to the algorithm of publicsuffix.org, and the registrable domain is a fixed point.
\<close>

section \<open>Strings\<close>

definition trim_end_matches :: "(uchar \<Rightarrow> bool) \<Rightarrow> ustr \<Rightarrow> ustr" where
  "trim_end_matches P s = rev (dropWhile P (rev s))"

definition trim_matches :: "(uchar \<Rightarrow> bool) \<Rightarrow> ustr \<Rightarrow> ustr" where
  "trim_matches P s = trim_end_matches P (dropWhile P s)"

definition DOT :: uchar where "DOT = 46"

fun join_with :: "ustr \<Rightarrow> ustr list \<Rightarrow> ustr" where
  "join_with sep [] = []"
| "join_with sep [s] = s"
| "join_with sep (s # t # ss) = s @ sep @ join_with sep (t # ss)"

abbreviation join_dots :: "ustr list \<Rightarrow> ustr" where
  "join_dots \<equiv> join_with [DOT]"

text \<open>\<^verbatim>\<open>str::lines\<close>: a final line feed ends the last line, and a carriage return before a line feed is not part of a line.\<close>

definition str_lines :: "ustr \<Rightarrow> ustr list" where
  "str_lines s =
     (let ls = split_char 10 s; ls' = (if last ls = [] then butlast ls else ls)
      in map (\<lambda>l. if l \<noteq> [] \<and> last l = 13 then butlast l else l) ls')"

section \<open>The rules\<close>

record psl_rules =
  ps_exact :: "ustr set"
  ps_wildcard_bases :: "ustr set"
  ps_exceptions :: "ustr set"

definition add_rule_line :: "ustr \<Rightarrow> psl_rules \<Rightarrow> psl_rules" where
  "add_rule_line raw parsed =
     (let line = trim raw
      in if line = [] \<or> starts_with (lit ''//'') line then parsed
         else let rule = (case split_whitespace line of [] \<Rightarrow> [] | w # _ \<Rightarrow> w)
         in if rule = [] then parsed
            else case strip_prefix (lit ''!'') rule of
              Some exception \<Rightarrow> parsed\<lparr>ps_exceptions := insert exception (ps_exceptions parsed)\<rparr>
            | None \<Rightarrow>
                (case strip_prefix (lit ''*.'') rule of
                   Some base \<Rightarrow> parsed\<lparr>ps_wildcard_bases := insert base (ps_wildcard_bases parsed)\<rparr>
                 | None \<Rightarrow> parsed\<lparr>ps_exact := insert rule (ps_exact parsed)\<rparr>))"

definition psl_rules_of :: "ustr \<Rightarrow> psl_rules" where
  "psl_rules_of list = fold add_rule_line (str_lines list) \<lparr>ps_exact = {}, ps_wildcard_bases = {}, ps_exceptions = {}\<rparr>"

section \<open>The search\<close>

text \<open>The last \<open>k\<close> labels of a host of \<open>n\<close> labels: \<^verbatim>\<open>labels[n - k..].join(".")\<close>.\<close>

definition tail_labels :: "nat \<Rightarrow> ustr list \<Rightarrow> ustr list" where
  "tail_labels k labels = drop (length labels - k) labels"

definition longest_first :: "nat \<Rightarrow> nat list" where
  "longest_first n = rev [1..<Suc n]"

definition rule_covers :: "psl_rules \<Rightarrow> ustr list \<Rightarrow> nat \<Rightarrow> bool" where
  "rule_covers rules labels k \<longleftrightarrow>
     join_dots (tail_labels k labels) \<in> ps_exact rules \<or>
     2 \<le> k \<and> join_dots (tail_labels (k - 1) labels) \<in> ps_wildcard_bases rules"

definition public_suffix_label_count :: "psl_rules \<Rightarrow> ustr list \<Rightarrow> nat" where
  "public_suffix_label_count rules labels =
     (case find (\<lambda>k. join_dots (tail_labels k labels) \<in> ps_exceptions rules) (longest_first (length labels)) of
        Some k \<Rightarrow> k - 1
      | None \<Rightarrow>
          (case find (rule_covers rules labels) (longest_first (length labels)) of
             Some k \<Rightarrow> k
           | None \<Rightarrow> 1))"

definition normalized_labels :: "ustr \<Rightarrow> ustr list option" where
  "normalized_labels domain =
     (let domain = trim_end_matches (\<lambda>c. c = DOT) (trim domain)
      in if domain = [] then None
         else let labels = map trim (split_char DOT domain)
              in if [] \<in> set labels \<or> labels = [] then None else Some labels)"

definition is_public_suffix :: "psl_rules \<Rightarrow> ustr \<Rightarrow> bool" where
  "is_public_suffix rules domain =
     (case normalized_labels domain of
        None \<Rightarrow> False
      | Some labels \<Rightarrow> public_suffix_label_count rules (map to_ascii_lowercase labels) = length labels)"

definition registrable_domain :: "psl_rules \<Rightarrow> ustr \<Rightarrow> ustr option" where
  "registrable_domain rules host =
     (case normalized_labels host of
        None \<Rightarrow> None
      | Some labels \<Rightarrow>
          let refs = map to_ascii_lowercase labels; suffix = public_suffix_label_count rules refs
          in if suffix \<ge> length refs then None else Some (join_dots (drop (length refs - suffix - 1) refs)))"

section \<open>The reference algorithm\<close>

text \<open>Rules are lists of labels. A wildcard rule has one label more than its base; when no rule matches, the rule
  \<^verbatim>\<open>*\<close> prevails; an exception prevails over all others and loses its leftmost label; otherwise the longest
  rule prevails.\<close>

definition rule_labels :: "ustr set \<Rightarrow> ustr list set" where
  "rule_labels rs = split_char DOT ` rs"

definition matching_lengths :: "psl_rules \<Rightarrow> ustr list \<Rightarrow> nat set" where
  "matching_lengths rules labels =
     {length r |r. r \<in> rule_labels (ps_exact rules) \<and> suffix r labels} \<union>
     {Suc (length r) |r. r \<in> rule_labels (ps_wildcard_bases rules) \<and> strict_suffix r labels}"

definition exception_lengths :: "psl_rules \<Rightarrow> ustr list \<Rightarrow> nat set" where
  "exception_lengths rules labels = {length r |r. r \<in> rule_labels (ps_exceptions rules) \<and> suffix r labels}"

definition prevailing_length :: "psl_rules \<Rightarrow> ustr list \<Rightarrow> nat" where
  "prevailing_length rules labels =
     (if exception_lengths rules labels \<noteq> {} then Max (exception_lengths rules labels) - 1
      else Max (insert 1 (matching_lengths rules labels)))"

definition host_labels :: "ustr list \<Rightarrow> bool" where
  "host_labels ls \<longleftrightarrow> ls \<noteq> [] \<and> (\<forall>l\<in>set ls. l \<noteq> [] \<and> DOT \<notin> set l)"

lemma split_char_nonempty: "split_char d s \<noteq> []"
  by (induction d s rule: split_char.induct) (auto split: list.splits)

lemma split_char_no_sep: "l \<in> set (split_char d s) \<Longrightarrow> d \<notin> set l"
proof (induction s arbitrary: l)
  case (Cons c s)
  then show ?case using split_char_nonempty [of d s]
    by (cases "split_char d s") (auto split: if_splits)
qed simp

lemma split_char_plain: "d \<notin> set l \<Longrightarrow> split_char d l = [l]"
  by (induction l) auto

lemma split_char_append: "d \<notin> set l \<Longrightarrow> split_char d (l @ d # s) = l # split_char d s"
proof (induction l)
  case (Cons c l)
  then show ?case using split_char_nonempty [of d s] by simp
qed simp

lemma split_join: "ls \<noteq> [] \<Longrightarrow> \<forall>l\<in>set ls. DOT \<notin> set l \<Longrightarrow> split_char DOT (join_dots ls) = ls"
  by (induction "[DOT]" ls rule: join_with.induct) (simp_all add: split_char_plain split_char_append)

lemma join_split: "join_dots (split_char DOT s) = s"
proof (induction s)
  case (Cons c s)
  show ?case
  proof (cases "split_char DOT s")
    case (Cons w ws)
    with Cons.IH show ?thesis by (cases ws) auto
  qed (simp add: split_char_nonempty)
qed simp

lemma join_in_rules:
  assumes "ls \<noteq> []" and "\<forall>l\<in>set ls. DOT \<notin> set l"
  shows "join_dots ls \<in> rs \<longleftrightarrow> ls \<in> rule_labels rs"
  using split_join [OF assms] join_split by (auto simp: rule_labels_def image_iff) (metis join_split)

section \<open>Equivalence\<close>

lemma longest_first_Suc: "longest_first (Suc n) = Suc n # longest_first n"
  by (simp add: longest_first_def)

lemma find_longest:
  "find P (longest_first n) = (if {k. 1 \<le> k \<and> k \<le> n \<and> P k} = {} then None else Some (Max {k. 1 \<le> k \<and> k \<le> n \<and> P k}))"
proof (induction n)
  case (Suc n)
  show ?case
  proof (cases "P (Suc n)")
    case True
    then have "Max {k. 1 \<le> k \<and> k \<le> Suc n \<and> P k} = Suc n" by (intro Max_eqI) auto
    moreover have "Suc n \<in> {k. 1 \<le> k \<and> k \<le> Suc n \<and> P k}" using True by simp
    ultimately show ?thesis using True by (auto simp: longest_first_Suc)
  next
    case False
    then have "{k. 1 \<le> k \<and> k \<le> Suc n \<and> P k} = {k. 1 \<le> k \<and> k \<le> n \<and> P k}" by (auto simp: le_Suc_eq)
    with False Suc.IH show ?thesis by (simp add: longest_first_Suc)
  qed
qed (simp add: longest_first_def)

lemma suffix_tail: "suffix r ls \<longleftrightarrow> length r \<le> length ls \<and> r = tail_labels (length r) ls"
  by (auto simp: suffix_def tail_labels_def) (metis append_take_drop_id)

lemma length_tail: "k \<le> length ls \<Longrightarrow> length (tail_labels k ls) = k"
  by (simp add: tail_labels_def)

lemma rule_labels_nonempty: "r \<in> rule_labels rs \<Longrightarrow> r \<noteq> []"
  using split_char_nonempty by (auto simp: rule_labels_def)

lemma tail_in_rules:
  assumes "host_labels ls" and "1 \<le> k" and "k \<le> length ls"
  shows "join_dots (tail_labels k ls) \<in> rs \<longleftrightarrow> tail_labels k ls \<in> rule_labels rs"
proof (rule join_in_rules)
  show "tail_labels k ls \<noteq> []" using length_tail [OF assms(3)] assms(2) by auto
  show "\<forall>l\<in>set (tail_labels k ls). DOT \<notin> set l"
    using assms(1) by (auto simp: host_labels_def tail_labels_def dest: in_set_dropD)
qed

lemma matched_lengths:
  assumes "host_labels ls"
  shows "{k. 1 \<le> k \<and> k \<le> length ls \<and> join_dots (tail_labels k ls) \<in> rs} = {length r |r. r \<in> rule_labels rs \<and> suffix r ls}"
proof (intro set_eqI iffI)
  fix k
  assume "k \<in> {k. 1 \<le> k \<and> k \<le> length ls \<and> join_dots (tail_labels k ls) \<in> rs}"
  then have k: "1 \<le> k" "k \<le> length ls" and "tail_labels k ls \<in> rule_labels rs" using tail_in_rules [OF assms] by auto
  moreover have "suffix (tail_labels k ls) ls" by (simp add: tail_labels_def suffix_drop)
  ultimately show "k \<in> {length r |r. r \<in> rule_labels rs \<and> suffix r ls}" using length_tail [OF k(2)] by force
next
  fix k
  assume "k \<in> {length r |r. r \<in> rule_labels rs \<and> suffix r ls}"
  then obtain r where r: "k = length r" "r \<in> rule_labels rs" "suffix r ls" by blast
  then have "1 \<le> k" "k \<le> length ls" "tail_labels k ls = r"
    using rule_labels_nonempty [OF r(2)] by (auto simp: suffix_tail Suc_le_eq)
  with r(2) show "k \<in> {k. 1 \<le> k \<and> k \<le> length ls \<and> join_dots (tail_labels k ls) \<in> rs}"
    using tail_in_rules [OF assms] by auto
qed

lemma wildcard_lengths:
  assumes "host_labels ls"
  shows "{k. 2 \<le> k \<and> k \<le> length ls \<and> join_dots (tail_labels (k - 1) ls) \<in> rs} =
    {Suc (length r) |r. r \<in> rule_labels rs \<and> strict_suffix r ls}"
proof (intro set_eqI iffI)
  fix k
  assume "k \<in> {k. 2 \<le> k \<and> k \<le> length ls \<and> join_dots (tail_labels (k - 1) ls) \<in> rs}"
  then have k: "2 \<le> k" "k \<le> length ls" "k - 1 \<in> {k. 1 \<le> k \<and> k \<le> length ls \<and> join_dots (tail_labels k ls) \<in> rs}" by auto
  then obtain r where r: "k - 1 = length r" "r \<in> rule_labels rs" "suffix r ls" unfolding matched_lengths [OF assms] by blast
  then have "k = Suc (length r)" "strict_suffix r ls" using k by (auto simp: strict_suffix_def)
  with r(2) show "k \<in> {Suc (length r) |r. r \<in> rule_labels rs \<and> strict_suffix r ls}" by blast
next
  fix k
  assume "k \<in> {Suc (length r) |r. r \<in> rule_labels rs \<and> strict_suffix r ls}"
  then obtain r where r: "k = Suc (length r)" "r \<in> rule_labels rs" "strict_suffix r ls" by blast
  then have "length r \<in> {k. 1 \<le> k \<and> k \<le> length ls \<and> join_dots (tail_labels k ls) \<in> rs}"
    unfolding matched_lengths [OF assms] by (auto simp: strict_suffix_def)
  moreover have "length r < length ls" using r(3) by (auto simp: strict_suffix_def suffix_def)
  ultimately show "k \<in> {k. 2 \<le> k \<and> k \<le> length ls \<and> join_dots (tail_labels (k - 1) ls) \<in> rs}" using r(1) by auto
qed

lemma covered_lengths:
  assumes "host_labels ls"
  shows "{k. 1 \<le> k \<and> k \<le> length ls \<and> rule_covers rules ls k} = matching_lengths rules ls"
proof -
  have "{k. 1 \<le> k \<and> k \<le> length ls \<and> rule_covers rules ls k} =
      {k. 1 \<le> k \<and> k \<le> length ls \<and> join_dots (tail_labels k ls) \<in> ps_exact rules} \<union>
      {k. 2 \<le> k \<and> k \<le> length ls \<and> join_dots (tail_labels (k - 1) ls) \<in> ps_wildcard_bases rules}"
    by (auto simp: rule_covers_def)
  then show ?thesis unfolding matched_lengths [OF assms] wildcard_lengths [OF assms] matching_lengths_def .
qed

lemma label_count_reference:
  assumes "host_labels ls"
  shows "public_suffix_label_count rules ls = prevailing_length rules ls"
proof -
  have E: "{k. 1 \<le> k \<and> k \<le> length ls \<and> join_dots (tail_labels k ls) \<in> ps_exceptions rules} = exception_lengths rules ls"
    unfolding exception_lengths_def by (rule matched_lengths [OF assms])
  have M: "{k. 1 \<le> k \<and> k \<le> length ls \<and> rule_covers rules ls k} = matching_lengths rules ls"
    by (rule covered_lengths [OF assms])
  have fin: "finite (matching_lengths rules ls)" and pos: "\<forall>k\<in>matching_lengths rules ls. 1 \<le> k"
    unfolding M [symmetric] by auto
  have "Max (insert 1 (matching_lengths rules ls)) = Max (matching_lengths rules ls)" if "matching_lengths rules ls \<noteq> {}"
    using fin pos that Max_in [OF fin that] by (simp add: max_absorb2)
  then show ?thesis
    unfolding public_suffix_label_count_def prevailing_length_def find_longest E M by simp
qed

section \<open>The registrable domain\<close>

lemma label_count_bound:
  assumes "ls \<noteq> []"
  shows "public_suffix_label_count rules ls \<le> length ls"
proof -
  have "k \<le> n" if "find P (longest_first n) = Some k" for P k n
  proof -
    have "k \<in> set (longest_first n)" using that by (auto simp: find_Some_iff)
    then show ?thesis by (auto simp: longest_first_def)
  qed
  then have "find P (longest_first (length ls)) = Some k \<Longrightarrow> k \<le> length ls" for P k by blast
  then show ?thesis using assms by (fastforce simp: public_suffix_label_count_def Suc_le_eq split: option.split)
qed

text \<open>On the registrable labels of a host the search finds the same suffix again.\<close>

lemma tail_of_tail: "k \<le> m \<Longrightarrow> m \<le> length ls \<Longrightarrow> tail_labels k (tail_labels m ls) = tail_labels k ls"
  by (simp add: tail_labels_def)

lemma find_longest_tail:
  assumes "m \<le> n" and "\<And>k. k \<le> m \<Longrightarrow> P k = Q k" and "\<And>k. find P (longest_first n) = Some k \<Longrightarrow> k \<le> m"
  shows "find Q (longest_first m) = find P (longest_first n)"
proof -
  have "{k. 1 \<le> k \<and> k \<le> n \<and> P k} = {k. 1 \<le> k \<and> k \<le> m \<and> Q k}"
  proof (intro set_eqI iffI)
    fix k assume k: "k \<in> {k. 1 \<le> k \<and> k \<le> n \<and> P k}"
    then have "find P (longest_first n) = Some (Max {k. 1 \<le> k \<and> k \<le> n \<and> P k})" by (auto simp: find_longest)
    then have "Max {k. 1 \<le> k \<and> k \<le> n \<and> P k} \<le> m" by (rule assms(3))
    moreover have "k \<le> Max {k. 1 \<le> k \<and> k \<le> n \<and> P k}" using k by (intro Max_ge) auto
    ultimately have "k \<le> m" by (rule order_trans [rotated])
    then show "k \<in> {k. 1 \<le> k \<and> k \<le> m \<and> Q k}" using k assms(2) [of k] by auto
  next
    fix k assume "k \<in> {k. 1 \<le> k \<and> k \<le> m \<and> Q k}"
    then show "k \<in> {k. 1 \<le> k \<and> k \<le> n \<and> P k}" using assms(1,2) by auto
  qed
  then show ?thesis by (simp only: find_longest)
qed

lemma label_count_registrable:
  assumes c: "c = public_suffix_label_count rules ls" and less: "c < length ls"
  shows "public_suffix_label_count rules (tail_labels (Suc c) ls) = c"
proof -
  let ?n = "length ls" and ?E = "\<lambda>ls k. join_dots (tail_labels k ls) \<in> ps_exceptions rules"
  have len: "length (tail_labels (Suc c) ls) = Suc c" using less by (intro length_tail) simp
  have same: "?E ls k = ?E (tail_labels (Suc c) ls) k" "rule_covers rules ls k = rule_covers rules (tail_labels (Suc c) ls) k"
    if "k \<le> Suc c" for k
    using tail_of_tail [of k "Suc c" ls] tail_of_tail [of "k - 1" "Suc c" ls] that less by (simp_all add: rule_covers_def)
  have E: "find (?E (tail_labels (Suc c) ls)) (longest_first (Suc c)) = find (?E ls) (longest_first ?n)"
    by (rule find_longest_tail) (use less c same in \<open>auto simp: public_suffix_label_count_def\<close>)
  show ?thesis
  proof (cases "find (?E ls) (longest_first ?n)")
    case None
    have "find (rule_covers rules (tail_labels (Suc c) ls)) (longest_first (Suc c)) = find (rule_covers rules ls) (longest_first ?n)"
      by (rule find_longest_tail) (use less c same None in \<open>auto simp: public_suffix_label_count_def\<close>)
    with E None len c show ?thesis by (simp add: public_suffix_label_count_def)
  next
    case (Some k)
    with E len c show ?thesis by (simp add: public_suffix_label_count_def)
  qed
qed

lemma trim_no_space:
  assumes "trim s \<noteq> []"
  shows "\<not> is_whitespace (hd (trim s))" and "\<not> is_whitespace (last (trim s))"
proof -
  let ?d = "dropWhile is_whitespace s"
  have r: "dropWhile is_whitespace (rev ?d) \<noteq> []" using assms by (simp add: trim_def trim_end_def trim_start_def)
  then have "\<not> is_whitespace (hd (dropWhile is_whitespace (rev ?d)))" by (rule hd_dropWhile)
  with r show "\<not> is_whitespace (last (trim s))" by (simp add: trim_def trim_end_def trim_start_def last_rev)
  have "?d \<noteq> []" using r by (metis dropWhile.simps(1) rev.simps(1))
  then have h: "\<not> is_whitespace (hd ?d)" by (rule hd_dropWhile)
  obtain pre where pre: "?d = trim s @ pre"
    unfolding trim_def trim_end_def trim_start_def by (metis rev_append rev_rev_ident takeWhile_dropWhile_id)
  with h assms show "\<not> is_whitespace (hd (trim s))" by simp
qed

lemma set_trim: "set (trim s) \<subseteq> set s"
proof
  fix c assume "c \<in> set (trim s)"
  then have "c \<in> set (dropWhile is_whitespace s)" unfolding trim_def trim_end_def trim_start_def by (auto dest: set_dropWhileD)
  then show "c \<in> set s" by (auto dest: set_dropWhileD)
qed

lemma ascii_lower_space: "is_whitespace (ascii_lower c) = is_whitespace c" "ascii_lower c = DOT \<longleftrightarrow> c = DOT"
  by (auto simp: ascii_lower_def is_ascii_upper_def is_whitespace_def DOT_def)

text \<open>Clean labels: what the normalisation leaves, in lower case.\<close>

definition clean_label :: "ustr \<Rightarrow> bool" where
  "clean_label l \<longleftrightarrow> l \<noteq> [] \<and> DOT \<notin> set l \<and> \<not> is_whitespace (hd l) \<and> \<not> is_whitespace (last l) \<and> to_ascii_lowercase l = l"

lemma clean_lowercase:
  assumes "l \<noteq> []" and "DOT \<notin> set l" and "\<not> is_whitespace (hd l)" and "\<not> is_whitespace (last l)"
  shows "clean_label (to_ascii_lowercase l)"
proof -
  have "DOT \<notin> ascii_lower ` set l" using assms(2) ascii_lower_space(2) by (metis imageE)
  with assms show ?thesis
    by (simp add: clean_label_def to_ascii_lowercase_def hd_map last_map ascii_lower_space(1))
qed

lemma normalized_clean:
  assumes "normalized_labels h = Some ls"
  shows "ls \<noteq> []" and "\<forall>l\<in>set (map to_ascii_lowercase ls). clean_label l"
proof -
  from assms show "ls \<noteq> []" by (auto simp: normalized_labels_def Let_def split: if_splits)
  let ?d = "trim_end_matches (\<lambda>c. c = DOT) (trim h)"
  have ls: "ls = map trim (split_char DOT ?d)" and "[] \<notin> set ls"
    using assms by (auto simp: normalized_labels_def Let_def split: if_splits)
  show "\<forall>l\<in>set (map to_ascii_lowercase ls). clean_label l"
  proof (intro ballI)
    fix m assume "m \<in> set (map to_ascii_lowercase ls)"
    then obtain x where x: "x \<in> set (split_char DOT ?d)" "m = to_ascii_lowercase (trim x)" "trim x \<in> set ls" using ls by auto
    then have ne: "trim x \<noteq> []" using \<open>[] \<notin> set ls\<close> by metis
    have "DOT \<notin> set (trim x)" using split_char_no_sep [OF x(1)] set_trim by blast
    with x(2) ne trim_no_space [OF ne] show "clean_label m" by (simp add: clean_lowercase)
  qed
qed

lemma join_ends:
  assumes "ls \<noteq> []" and "\<forall>l\<in>set ls. clean_label l"
  shows "join_dots ls \<noteq> [] \<and> hd (join_dots ls) = hd (hd ls) \<and> last (join_dots ls) = last (last ls)"
  using assms by (induction "[DOT]" ls rule: join_with.induct) (auto simp: clean_label_def)

lemma trim_end_matches_id: "s = [] \<or> \<not> P (last s) \<Longrightarrow> trim_end_matches P s = s"
  by (cases s rule: rev_cases) (simp_all add: trim_end_matches_def)

lemma normalized_join:
  assumes "ls \<noteq> []" and "\<forall>l\<in>set ls. clean_label l"
  shows "normalized_labels (join_dots ls) = Some ls" and "map to_ascii_lowercase ls = ls"
proof -
  have ends: "join_dots ls \<noteq> []" "hd (join_dots ls) = hd (hd ls)" "last (join_dots ls) = last (last ls)"
    using join_ends [OF assms] by simp_all
  have hl: "clean_label (hd ls)" "clean_label (last ls)" using assms by simp_all
  have trim: "trim (join_dots ls) = join_dots ls" using ends hl by (intro trim_id) (simp add: clean_label_def)
  have "last (last ls) \<noteq> DOT" using hl(2) last_in_set [of "last ls"] unfolding clean_label_def by metis
  then have dots: "trim_end_matches (\<lambda>c. c = DOT) (join_dots ls) = join_dots ls" using ends by (intro trim_end_matches_id) simp
  have split: "split_char DOT (join_dots ls) = ls" using assms by (intro split_join) (auto simp: clean_label_def)
  have "map trim ls = ls" using assms by (intro map_idI trim_id) (auto simp: clean_label_def)
  moreover have "[] \<notin> set ls" using assms by (auto simp: clean_label_def)
  ultimately show "normalized_labels (join_dots ls) = Some ls"
    using assms(1) ends(1) by (simp add: normalized_labels_def trim dots split Let_def)
  show "map to_ascii_lowercase ls = ls" using assms by (intro map_idI) (auto simp: clean_label_def)
qed

lemma registrable_result:
  assumes "registrable_domain rules h = Some d"
  obtains ls c where "normalized_labels h = Some ls" "c = public_suffix_label_count rules (map to_ascii_lowercase ls)"
    "c < length ls" "d = join_dots (tail_labels (Suc c) (map to_ascii_lowercase ls))"
  using assms by (auto simp: registrable_domain_def tail_labels_def Let_def split: option.splits if_splits)

lemma registrable_fixed:
  assumes "registrable_domain rules h = Some d"
  shows "registrable_domain rules d = Some d" and "\<not> is_public_suffix rules d"
proof -
  obtain ls c where r: "normalized_labels h = Some ls" "c = public_suffix_label_count rules (map to_ascii_lowercase ls)"
    "c < length ls" "d = join_dots (tail_labels (Suc c) (map to_ascii_lowercase ls))"
    by (rule registrable_result [OF assms])
  let ?t = "tail_labels (Suc c) (map to_ascii_lowercase ls)"
  have len: "length ?t = Suc c" using r(3) by (intro length_tail) simp
  have "\<forall>l\<in>set ?t. clean_label l" using normalized_clean(2) [OF r(1)] by (auto simp: tail_labels_def dest!: in_set_dropD)
  moreover have "?t \<noteq> []" using len by auto
  ultimately have n: "normalized_labels d = Some ?t" "map to_ascii_lowercase ?t = ?t" using normalized_join r(4) by simp_all
  have count: "public_suffix_label_count rules ?t = c" using label_count_registrable [OF r(2)] r(3) by simp
  have "join_dots ?t = d" using r(4) by simp
  then show "registrable_domain rules d = Some d" by (simp add: registrable_domain_def n(1) n(2) count len Let_def del: list.map)
  show "\<not> is_public_suffix rules d" by (simp add: is_public_suffix_def n count len)
qed

lemma public_suffix_no_domain:
  "normalized_labels h \<noteq> None \<Longrightarrow> is_public_suffix rules h \<longleftrightarrow> registrable_domain rules h = None"
proof -
  assume "normalized_labels h \<noteq> None"
  then obtain ls where ls: "normalized_labels h = Some ls" by blast
  have "public_suffix_label_count rules (map to_ascii_lowercase ls) \<le> length ls"
    using label_count_bound [of "map to_ascii_lowercase ls" rules] normalized_clean(1) [OF ls] by simp
  with ls show ?thesis by (auto simp: is_public_suffix_def registrable_domain_def Let_def)
qed

section \<open>The properties\<close>

definition demo_rules :: psl_rules where
  "demo_rules = psl_rules_of (lit ''com'' @ [10] @ lit ''*.ck'' @ [10] @ lit ''!www.ck'' @ [10])"

lemmas trim_eval = trim_def trim_end_def trim_start_def is_whitespace_def

lemma demo_rules_read:
  "demo_rules = \<lparr>ps_exact = {lit ''com''}, ps_wildcard_bases = {lit ''ck''}, ps_exceptions = {lit ''www.ck''}\<rparr>"
  by (simp add: demo_rules_def psl_rules_of_def str_lines_def add_rule_line_def trim_eval starts_with_def
      split_whitespace_def words_by.simps Let_def lit_def)

text \<open>C31. The search computes the public suffix of the algorithm of the list: with rules as sequences of labels, an exception prevails and
  loses its leftmost label, otherwise the longest matching rule prevails, a wildcard standing for one label, and a host that no
  rule matches has a suffix of one label.
\<close>

theorem public_suffix_reference:
  assumes "host_labels labels"
  shows "public_suffix_label_count rules labels = prevailing_length rules labels"
  using assms by (rule label_count_reference)

theorem public_suffix_reference_witness:
  "public_suffix_label_count demo_rules [lit ''a'', lit ''www'', lit ''ck''] = prevailing_length demo_rules [lit ''a'', lit ''www'', lit ''ck'']"
  by (rule public_suffix_reference) (simp add: host_labels_def lit_def DOT_def)

text \<open>The registrable domain of a host is its own registrable domain and never a public suffix, so that two hosts are on the same
  site exactly when they have the same registrable domain, and taking it twice changes nothing.
\<close>

theorem registrable_domain_fixed:
  assumes "registrable_domain rules h = Some d"
  shows "registrable_domain rules d = Some d \<and> \<not> is_public_suffix rules d"
  using registrable_fixed [OF assms] by blast

lemma demo_domain: "registrable_domain demo_rules (lit ''A.b.Www.ck'') = Some (lit ''www.ck'')"
  by (simp add: demo_rules_read registrable_domain_def normalized_labels_def trim_eval trim_end_matches_def DOT_def
      public_suffix_label_count_def longest_first_def tail_labels_def rule_covers_def upt_rec [of _ "numeral _"]
      to_ascii_lowercase_def ascii_lower_def is_ascii_upper_def Let_def lit_def)

theorem registrable_domain_fixed_witness: "registrable_domain demo_rules (lit ''www.ck'') = Some (lit ''www.ck'')"
  using registrable_domain_fixed [OF demo_domain] by blast

end
