(* ===== verification/Url_Text.thy ===== *)
theory Url_Text
  imports Public_Suffix
begin

text \<open>
  What the site policies use of URLs and addresses. A parsed URL of the \<^verbatim>\<open>url\<close> crate is a record of what its
  accessors return; the crate is the record of functions \<open>url_api\<close>. \<^verbatim>\<open>std::net::IpAddr\<close> is read as
  the standard library reads it.
\<close>

section \<open>URLs\<close>

record url =
  u_scheme :: ustr
  u_host :: "ustr option"
  u_port :: "nat option"
  u_segments :: "ustr list"
  u_query :: "(ustr \<times> ustr) list"
  u_origin :: ustr
  u_text :: ustr

record url_api =
  ua_parse :: "ustr \<Rightarrow> url option"
  ua_set_scheme :: "ustr \<Rightarrow> url \<Rightarrow> url"
  ua_set_port :: "nat option \<Rightarrow> url \<Rightarrow> url"

definition host_or_empty :: "url \<Rightarrow> ustr" where
  "host_or_empty u = (case u_host u of None \<Rightarrow> [] | Some h \<Rightarrow> h)"

text \<open>\<^verbatim>\<open>to_string\<close> of a natural number.\<close>

fun nat_text :: "nat \<Rightarrow> ustr" where
  "nat_text n = (if n < 10 then [48 + n] else nat_text (n div 10) @ [48 + n mod 10])"

declare nat_text.simps [simp del]

section \<open>Addresses\<close>

definition digit_of :: "nat \<Rightarrow> uchar \<Rightarrow> nat option" where
  "digit_of radix c =
     (if is_ascii_digit c \<and> c - 48 < radix then Some (c - 48)
      else if radix = 16 \<and> 97 \<le> c \<and> c \<le> 102 then Some (c - 87)
      else if radix = 16 \<and> 65 \<le> c \<and> c \<le> 70 then Some (c - 55)
      else None)"

definition is_digit_in :: "nat \<Rightarrow> uchar \<Rightarrow> bool" where
  "is_digit_in radix c \<longleftrightarrow> digit_of radix c \<noteq> None"

definition digits_of :: "nat \<Rightarrow> ustr \<Rightarrow> nat" where
  "digits_of radix ds = foldl (\<lambda>n c. radix * n + the (digit_of radix c)) 0 ds"

text \<open>A number below \<open>bound\<close> of at most \<open>most\<close> digits, with leading zeros where they are allowed.\<close>

definition read_number :: "nat \<Rightarrow> nat \<Rightarrow> nat \<Rightarrow> bool \<Rightarrow> ustr \<Rightarrow> (nat \<times> ustr) option" where
  "read_number radix bound most zeros s =
     (let ds = takeWhile (is_digit_in radix) s
      in if ds = [] \<or> length ds > most \<or> \<not> zeros \<and> hd ds = 48 \<and> length ds > 1 \<or> digits_of radix ds \<ge> bound then None
         else Some (digits_of radix ds, dropWhile (is_digit_in radix) s))"

fun read_octets :: "nat \<Rightarrow> bool \<Rightarrow> ustr \<Rightarrow> (nat list \<times> ustr) option" where
  "read_octets 0 first s = Some ([], s)"
| "read_octets (Suc n) first s =
     (case (if first then Some s else strip_prefix [DOT] s) of
        None \<Rightarrow> None
      | Some t \<Rightarrow>
          (case read_number 10 256 3 False t of
             None \<Rightarrow> None
           | Some (v, r) \<Rightarrow> (case read_octets n False r of None \<Rightarrow> None | Some (vs, r') \<Rightarrow> Some (v # vs, r'))))"

definition read_ipv4 :: "ustr \<Rightarrow> (nat list \<times> ustr) option" where
  "read_ipv4 s = read_octets 4 True s"

text \<open>Up to \<open>n\<close> groups of 16 bits separated by colons; an IPv4 address stands for the last two.\<close>

fun read_groups :: "nat \<Rightarrow> bool \<Rightarrow> ustr \<Rightarrow> nat list \<times> bool \<times> ustr" where
  "read_groups 0 first s = ([], False, s)"
| "read_groups (Suc n) first s =
     (case (if first then Some s else strip_prefix (lit '':'') s) of
        None \<Rightarrow> ([], False, s)
      | Some t \<Rightarrow>
          (case (if n \<ge> 1 then read_ipv4 t else None) of
             Some (os, r) \<Rightarrow> ([256 * os ! 0 + os ! 1, 256 * os ! 2 + os ! 3], True, r)
           | None \<Rightarrow>
               (case read_number 16 65536 4 True t of
                  None \<Rightarrow> ([], False, s)
                | Some (g, r) \<Rightarrow> (case read_groups n False r of (gs, v4, r') \<Rightarrow> (g # gs, v4, r')))))"

definition read_ipv6 :: "ustr \<Rightarrow> (nat list \<times> ustr) option" where
  "read_ipv6 s =
     (case read_groups 8 True s of
        (head, v4, r) \<Rightarrow>
          if length head = 8 then Some (head, r)
          else if v4 then None
          else case strip_prefix (lit ''::'') r of
            None \<Rightarrow> None
          | Some t \<Rightarrow>
              (case read_groups (8 - (length head + 1)) True t of
                 (tail, _, r') \<Rightarrow> Some (head @ replicate (8 - length head - length tail) 0 @ tail, r')))"

text \<open>\<^verbatim>\<open>s.parse::<IpAddr>().is_ok_and(|ip| ip.is_loopback())\<close>\<close>

definition is_loopback_address :: "ustr \<Rightarrow> bool" where
  "is_loopback_address s \<longleftrightarrow>
     (case read_ipv4 s of
        Some (os, r) \<Rightarrow> r = [] \<and> hd os = 127
      | None \<Rightarrow> (case read_ipv6 s of Some (gs, r) \<Rightarrow> r = [] \<and> gs = [0, 0, 0, 0, 0, 0, 0, 1] | None \<Rightarrow> False))"

text \<open>Both readers at a numeral, for evaluation.\<close>

lemmas read_octets_numeral = read_octets.simps(2) [of "pred_numeral k" for k, folded numeral_eq_Suc]
lemmas read_groups_numeral = read_groups.simps(2) [of "pred_numeral k" for k, folded numeral_eq_Suc]

lemmas address_eval = is_loopback_address_def read_ipv4_def read_ipv6_def read_number_def digits_of_def is_digit_in_def
  digit_of_def is_ascii_digit_def DOT_def lit_def Let_def read_octets_numeral read_groups_numeral
  replicate_Suc [of "pred_numeral k" for k, folded numeral_eq_Suc]

lemma loopback_addresses:
  "is_loopback_address (lit ''127.0.0.1'')" "is_loopback_address (lit ''::1'')" "is_loopback_address (lit ''127.9.8.7'')"
  "\<not> is_loopback_address (lit ''[::1]'')" "\<not> is_loopback_address (lit ''127.1'')" "\<not> is_loopback_address (lit ''10.0.0.1'')"
  by (simp_all add: address_eval)

end
