(* ===== verification/Ad_Block.thy ===== *)
theory Ad_Block
  imports Url_Text
begin

text \<open>
  \<^verbatim>\<open>src/src/adblock.rs\<close>: the request filter with its rule grammar, built-in rules, site exceptions and
  statistics. The \<^verbatim>\<open>url\<close> crate and the public suffix rules are the arguments \<open>api\<close> and \<open>psl\<close>. A
  \<^verbatim>\<open>HashSet\<close> is a set.
\<close>

section \<open>Configuration and rules\<close>

definition MAX_CUSTOM_RULES :: nat where "MAX_CUSTOM_RULES = 4096"
definition MAX_RULE_BYTES :: nat where "MAX_RULE_BYTES = 2048"

datatype resource_type = Document | Script | Style | Image | Font | MediaResource | Fetch | OtherResource

record adblock_config =
  ac_enabled :: bool
  ac_block_trackers :: bool
  ac_cosmetic_filtering :: bool
  ac_disabled_domains :: "ustr set"
  ac_custom_rules :: "ustr list"

definition default_config :: adblock_config where
  "default_config = \<lparr>ac_enabled = True, ac_block_trackers = True, ac_cosmetic_filtering = True,
     ac_disabled_domains = {}, ac_custom_rules = []\<rparr>"

record adblock_stats =
  as_evaluated :: nat
  as_blocked_ads :: nat
  as_blocked_trackers :: nat
  as_allowed_by_exception :: nat
  as_blocked_by_resource :: "resource_type \<Rightarrow> nat option"

definition no_stats :: adblock_stats where
  "no_stats = \<lparr>as_evaluated = 0, as_blocked_ads = 0, as_blocked_trackers = 0, as_allowed_by_exception = 0,
     as_blocked_by_resource = (\<lambda>_. None)\<rparr>"

datatype adblock_reason =
    Disabled
  | SiteException
  | SafetyBypass
  | AllowRule ustr
  | NoMatch
  | BuiltInRule ustr
  | CustomRule ustr

record adblock_decision =
  ad_blocked :: bool
  ad_reason :: adblock_reason

definition allow_for :: "adblock_reason \<Rightarrow> adblock_decision" where
  "allow_for r = \<lparr>ad_blocked = False, ad_reason = r\<rparr>"

definition block_for :: "adblock_reason \<Rightarrow> adblock_decision" where
  "block_for r = \<lparr>ad_blocked = True, ad_reason = r\<rparr>"

datatype rule_action = Allow | Block

datatype rule_matcher =
    HostSuffix ustr
  | HostLabel ustr
  | PathSegment ustr
  | FileName ustr
  | QueryKey ustr

record network_rule =
  nr_id :: ustr
  nr_built_in :: bool
  nr_action :: rule_action
  nr_matcher :: rule_matcher
  nr_resource_types :: "resource_type set"
  nr_third_party :: "bool option"
  nr_page_domains :: "ustr list"
  nr_tracker :: bool

record ad_blocker =
  ab_config :: adblock_config
  ab_stats :: adblock_stats
  ab_rules :: "network_rule list"
  ab_rejected :: nat

section \<open>Hosts\<close>

definition normalize_host :: "url_api \<Rightarrow> ustr \<Rightarrow> ustr" where
  "normalize_host api source =
     (case ua_parse api source of
        Some u \<Rightarrow> to_ascii_lowercase (host_or_empty u)
      | None \<Rightarrow> to_ascii_lowercase (takeWhile (\<lambda>c. c \<noteq> 47 \<and> c \<noteq> 58) (trim_matches (\<lambda>c. c = DOT) (trim source))))"

definition host_matches :: "ustr \<Rightarrow> ustr \<Rightarrow> bool" where
  "host_matches host pattern \<longleftrightarrow>
     (let p = trim_matches (\<lambda>c. c = DOT) pattern in p \<noteq> [] \<and> (host = p \<or> ends_with (DOT # p) host))"

definition site_of :: "psl_rules \<Rightarrow> ustr \<Rightarrow> ustr" where
  "site_of psl host = (case registrable_domain psl host of Some d \<Rightarrow> d | None \<Rightarrow> to_ascii_lowercase host)"

definition same_site :: "psl_rules \<Rightarrow> ustr \<Rightarrow> ustr \<Rightarrow> bool" where
  "same_site psl left right \<longleftrightarrow> site_of psl left = site_of psl right"

definition is_local_or_loopback :: "ustr \<Rightarrow> bool" where
  "is_local_or_loopback host \<longleftrightarrow>
     eq_ignore_ascii_case host (lit ''localhost'') \<or> ends_with (lit ''.localhost'') host \<or> is_loopback_address host"

section \<open>Requests\<close>

record request_parts =
  rp_host :: ustr
  rp_path_segments :: "ustr list"
  rp_file_name :: ustr
  rp_query_keys :: "ustr set"

definition parse_request :: "url_api \<Rightarrow> ustr \<Rightarrow> request_parts option" where
  "parse_request api source =
     (case ua_parse api source of
        None \<Rightarrow> None
      | Some u \<Rightarrow>
          if u_scheme u \<notin> {lit ''http'', lit ''https''} then None
          else case u_host u of
            None \<Rightarrow> None
          | Some h \<Rightarrow>
              (let segments = map to_ascii_lowercase (filter (\<lambda>s. s \<noteq> []) (u_segments u))
               in Some \<lparr>rp_host = normalize_host api h, rp_path_segments = segments,
                        rp_file_name = (if segments = [] then [] else last segments),
                        rp_query_keys = set (map (\<lambda>q. to_ascii_lowercase (fst q)) (u_query u))\<rparr>))"

definition matcher_holds :: "rule_matcher \<Rightarrow> request_parts \<Rightarrow> bool" where
  "matcher_holds m request \<longleftrightarrow>
     (case m of
        HostSuffix domain \<Rightarrow> host_matches (rp_host request) domain
      | HostLabel label \<Rightarrow> label \<in> set (split_char DOT (rp_host request))
      | PathSegment segment \<Rightarrow> segment \<in> set (rp_path_segments request)
      | FileName name \<Rightarrow> rp_file_name request = name
      | QueryKey key \<Rightarrow> key \<in> rp_query_keys request)"

definition rule_matches :: "network_rule \<Rightarrow> request_parts \<Rightarrow> ustr \<Rightarrow> resource_type \<Rightarrow> bool \<Rightarrow> bool" where
  "rule_matches rule request page_host rt third_party \<longleftrightarrow>
     \<not> (nr_resource_types rule \<noteq> {} \<and> rt \<notin> nr_resource_types rule) \<and>
     \<not> (\<exists>expected. nr_third_party rule = Some expected \<and> expected \<noteq> third_party) \<and>
     \<not> (nr_page_domains rule \<noteq> [] \<and> \<not> list_ex (host_matches page_host) (nr_page_domains rule)) \<and>
     matcher_holds (nr_matcher rule) request"

section \<open>The rule grammar\<close>

definition validate_value :: "ustr \<Rightarrow> string + ustr" where
  "validate_value value =
     (let v = trim_matches (\<lambda>c. c = DOT \<or> c = 47) value
      in if v = [] \<or> byte_len v > 253 \<or> \<not> list_all (\<lambda>c. is_ascii_alphanumeric c \<or> c \<in> {45, 95, 46}) v
         then Inl ''invalid matcher value'' else Inr v)"

definition parse_resource_type :: "ustr \<Rightarrow> string + resource_type" where
  "parse_resource_type v =
     (if v = lit ''document'' then Inr Document else if v = lit ''script'' then Inr Script
      else if v = lit ''style'' then Inr Style else if v = lit ''image'' then Inr Image
      else if v = lit ''font'' then Inr Font else if v = lit ''media'' then Inr MediaResource
      else if v = lit ''fetch'' then Inr Fetch else if v = lit ''other'' then Inr OtherResource
      else Inl ''unknown resource type'')"

record rule_parts =
  rb_matcher :: "rule_matcher option"
  rb_types :: "resource_type set"
  rb_third_party :: "bool option"
  rb_page_domains :: "ustr list"
  rb_tracker :: bool

fun add_types :: "ustr list \<Rightarrow> resource_type set \<Rightarrow> string + resource_type set" where
  "add_types [] types = Inr types"
| "add_types (item # items) types = ebind (parse_resource_type item) (\<lambda>t. add_types items (insert t types))"

definition rule_token :: "url_api \<Rightarrow> ustr \<Rightarrow> rule_parts \<Rightarrow> string + rule_parts" where
  "rule_token api token parts =
     (case split_once 61 token of
        None \<Rightarrow> Inl ''invalid rule token''
      | Some (key0, value0) \<Rightarrow>
          (let value = to_ascii_lowercase (trim value0);
               key = to_ascii_lowercase key0;
               matcher = (\<lambda>f. ebind (validate_value value) (\<lambda>v. Inr (parts\<lparr>rb_matcher := Some (f v)\<rparr>)))
           in if key = lit ''host'' then matcher HostSuffix
              else if key = lit ''host-label'' then matcher HostLabel
              else if key = lit ''path'' then matcher PathSegment
              else if key = lit ''file'' then matcher FileName
              else if key = lit ''query'' then matcher QueryKey
              else if key = lit ''types'' then
                ebind (add_types (split_char 44 value) (rb_types parts)) (\<lambda>ts. Inr (parts\<lparr>rb_types := ts\<rparr>))
              else if key = lit ''third-party'' then
                if value = lit ''true'' then Inr (parts\<lparr>rb_third_party := Some True\<rparr>)
                else if value = lit ''false'' then Inr (parts\<lparr>rb_third_party := Some False\<rparr>)
                else Inl ''third-party must be true or false''
              else if key = lit ''page'' then
                Inr (parts\<lparr>rb_page_domains := filter (\<lambda>d. d \<noteq> []) (map (normalize_host api) (split_char 44 value))\<rparr>)
              else if key = lit ''class'' then Inr (parts\<lparr>rb_tracker := (value = lit ''tracker'')\<rparr>)
              else Inl ''unknown rule key''))"

fun rule_tokens :: "url_api \<Rightarrow> ustr list \<Rightarrow> rule_parts \<Rightarrow> string + rule_parts" where
  "rule_tokens api [] parts = Inr parts"
| "rule_tokens api (t # ts) parts = ebind (rule_token api t parts) (\<lambda>p. rule_tokens api ts p)"

definition to_ascii_uppercase :: "ustr \<Rightarrow> ustr" where
  "to_ascii_uppercase s = map (\<lambda>c. if is_ascii_lower c then c - 32 else c) s"

definition rule_action_of :: "ustr list \<Rightarrow> string + rule_action" where
  "rule_action_of tokens =
     (case tokens of
        t # _ \<Rightarrow>
          if to_ascii_uppercase t = lit ''ALLOW'' then Inr Allow
          else if to_ascii_uppercase t = lit ''BLOCK'' then Inr Block
          else Inl ''rule must start with ALLOW or BLOCK''
      | [] \<Rightarrow> Inl ''rule must start with ALLOW or BLOCK'')"

definition parse_rule :: "url_api \<Rightarrow> ustr \<Rightarrow> ustr \<Rightarrow> bool \<Rightarrow> string + network_rule" where
  "parse_rule api source rule_id built_in =
     (if byte_len source > MAX_RULE_BYTES then Inl ''rule is too long''
      else
        ebind (rule_action_of (split_whitespace source)) (\<lambda>action.
        ebind (rule_tokens api (tl (split_whitespace source))
          \<lparr>rb_matcher = None, rb_types = {}, rb_third_party = None, rb_page_domains = [], rb_tracker = False\<rparr>) (\<lambda>parts.
        ebind (ok_or ''rule has no matcher'' (rb_matcher parts)) (\<lambda>m.
          Inr \<lparr>nr_id = rule_id, nr_built_in = built_in, nr_action = action, nr_matcher = m, nr_resource_types = rb_types parts,
               nr_third_party = rb_third_party parts, nr_page_domains = rb_page_domains parts, nr_tracker = rb_tracker parts\<rparr>))))"

definition built_in_rule :: "string \<Rightarrow> (ustr \<Rightarrow> rule_matcher) \<Rightarrow> bool \<Rightarrow> string \<Rightarrow> network_rule" where
  "built_in_rule stem matcher tracker name =
     \<lparr>nr_id = lit stem @ lit name, nr_built_in = True, nr_action = Block, nr_matcher = matcher (lit name),
      nr_resource_types = {Script, Image, Fetch, OtherResource}, nr_third_party = Some True, nr_page_domains = [],
      nr_tracker = tracker\<rparr>"

definition built_in_rules :: "network_rule list" where
  "built_in_rules =
     map (built_in_rule ''builtin-ad-host-'' HostLabel False) [''ads'', ''adserver'', ''sponsor''] @
     map (built_in_rule ''builtin-tracker-host-'' HostLabel True) [''tracker'', ''telemetry''] @
     map (built_in_rule ''builtin-ad-path-'' PathSegment False) [''ads'', ''adserver'', ''sponsored''] @
     map (built_in_rule ''builtin-tracker-path-'' PathSegment True) [''tracking'', ''telemetry''] @
     map (built_in_rule ''builtin-ad-file-'' FileName False) [''ads.js'', ''adframe.js''] @
     map (built_in_rule ''builtin-tracker-file-'' FileName True) [''tracking.js'', ''pixel.gif'']"

section \<open>The filter\<close>

definition add_custom_rule :: "url_api \<Rightarrow> nat \<times> ustr \<Rightarrow> network_rule list \<times> nat \<Rightarrow> network_rule list \<times> nat" where
  "add_custom_rule api source acc =
     (case parse_rule api (snd source) (lit ''custom-'' @ nat_text (fst source)) False of
        Inr rule \<Rightarrow> (fst acc @ [rule], snd acc)
      | Inl _ \<Rightarrow> (fst acc, snd acc + 1))"

definition new_ad_blocker :: "url_api \<Rightarrow> adblock_config \<Rightarrow> ad_blocker" where
  "new_ad_blocker api config0 =
     (let config = config0\<lparr>ac_disabled_domains := {d \<in> normalize_host api ` ac_disabled_domains config0. d \<noteq> []},
                           ac_custom_rules := take MAX_CUSTOM_RULES (ac_custom_rules config0)\<rparr>;
          loaded = fold (add_custom_rule api) (enumerate 0 (ac_custom_rules config)) (built_in_rules, 0)
      in \<lparr>ab_config = config, ab_stats = no_stats, ab_rules = fst loaded, ab_rejected = snd loaded\<rparr>)"

definition is_disabled_for_host :: "ad_blocker \<Rightarrow> ustr \<Rightarrow> bool" where
  "is_disabled_for_host ab host \<longleftrightarrow> (\<exists>d\<in>ac_disabled_domains (ab_config ab). host_matches host d)"

definition bump :: "nat \<Rightarrow> nat" where
  "bump n = sat_add n 1"

definition count_blocked :: "network_rule \<Rightarrow> resource_type \<Rightarrow> adblock_stats \<Rightarrow> adblock_stats" where
  "count_blocked rule rt st =
     (let st1 = (if nr_tracker rule then st\<lparr>as_blocked_trackers := bump (as_blocked_trackers st)\<rparr>
                 else st\<lparr>as_blocked_ads := bump (as_blocked_ads st)\<rparr>)
      in st1\<lparr>as_blocked_by_resource := (as_blocked_by_resource st1)
               (rt := Some (bump (case as_blocked_by_resource st1 rt of None \<Rightarrow> 0 | Some n \<Rightarrow> n)))\<rparr>)"

definition count_exception :: "ad_blocker \<Rightarrow> ad_blocker" where
  "count_exception ab = ab\<lparr>ab_stats := (ab_stats ab)\<lparr>as_allowed_by_exception := bump (as_allowed_by_exception (ab_stats ab))\<rparr>\<rparr>"

definition apply_rules :: "request_parts \<Rightarrow> ustr \<Rightarrow> resource_type \<Rightarrow> ad_blocker \<Rightarrow> adblock_decision \<times> ad_blocker" where
  "apply_rules request page_host rt ab =
     (case find (\<lambda>r. nr_action r = Allow \<and> rule_matches r request page_host rt True) (ab_rules ab) of
        Some rule \<Rightarrow> (allow_for (AllowRule (nr_id rule)), count_exception ab)
      | None \<Rightarrow>
          (case find (\<lambda>r. nr_action r = Block \<and> (ac_block_trackers (ab_config ab) \<or> \<not> nr_tracker r) \<and>
              rule_matches r request page_host rt True) (ab_rules ab) of
             None \<Rightarrow> (allow_for NoMatch, ab)
           | Some rule \<Rightarrow>
               (block_for (if nr_built_in rule then BuiltInRule (nr_id rule) else CustomRule (nr_id rule)),
                ab\<lparr>ab_stats := count_blocked rule rt (ab_stats ab)\<rparr>)))"

definition evaluate_resource ::
  "url_api \<Rightarrow> psl_rules \<Rightarrow> ustr \<Rightarrow> ustr option \<Rightarrow> resource_type \<Rightarrow> ad_blocker \<Rightarrow> adblock_decision \<times> ad_blocker" where
  "evaluate_resource api psl url page rt ab =
     (if \<not> ac_enabled (ab_config ab) then (allow_for Disabled, ab)
      else
        let page_host = (case page of None \<Rightarrow> [] | Some p \<Rightarrow> normalize_host api p)
        in if page_host \<noteq> [] \<and> is_disabled_for_host ab page_host then (allow_for SiteException, count_exception ab)
           else if rt = Document \<or> page_host = [] then (allow_for SafetyBypass, ab)
           else case parse_request api url of
             None \<Rightarrow> (allow_for SafetyBypass, ab)
           | Some request \<Rightarrow>
               (let ab1 = ab\<lparr>ab_stats := (ab_stats ab)\<lparr>as_evaluated := bump (as_evaluated (ab_stats ab))\<rparr>\<rparr>
                in if is_local_or_loopback (rp_host request) \<or> same_site psl (rp_host request) page_host
                   then (allow_for SafetyBypass, ab1)
                   else apply_rules request page_host rt ab1))"

definition should_block_resource ::
  "url_api \<Rightarrow> psl_rules \<Rightarrow> ustr \<Rightarrow> ustr option \<Rightarrow> resource_type \<Rightarrow> ad_blocker \<Rightarrow> bool \<times> ad_blocker" where
  "should_block_resource api psl url page rt ab =
     (case evaluate_resource api psl url page rt ab of (d, ab') \<Rightarrow> (ad_blocked d, ab'))"

definition should_block :: "url_api \<Rightarrow> psl_rules \<Rightarrow> ustr \<Rightarrow> ustr option \<Rightarrow> ad_blocker \<Rightarrow> bool \<times> ad_blocker" where
  "should_block api psl url page ab = should_block_resource api psl url page OtherResource ab"

definition SAFE_COSMETIC_SELECTORS :: "ustr list" where
  "SAFE_COSMETIC_SELECTORS =
     [lit ''[data-ghita-ad]'', lit ''[aria-label='' @ [39] @ lit ''Advertisement'' @ [39] @ lit '']'', lit ''.sponsored-content'']"

definition cosmetic_selectors :: "url_api \<Rightarrow> ustr \<Rightarrow> ad_blocker \<Rightarrow> ustr list" where
  "cosmetic_selectors api page ab =
     (if \<not> ac_enabled (ab_config ab) \<or> \<not> ac_cosmetic_filtering (ab_config ab) \<or> is_disabled_for_host ab (normalize_host api page)
      then [] else SAFE_COSMETIC_SELECTORS)"

definition total_blocked :: "ad_blocker \<Rightarrow> nat" where
  "total_blocked ab = as_blocked_ads (ab_stats ab) + as_blocked_trackers (ab_stats ab)"

definition is_domain_enabled :: "url_api \<Rightarrow> ustr \<Rightarrow> ad_blocker \<Rightarrow> bool" where
  "is_domain_enabled api domain ab \<longleftrightarrow> \<not> is_disabled_for_host ab (normalize_host api domain)"

definition set_domain_enabled :: "url_api \<Rightarrow> ustr \<Rightarrow> bool \<Rightarrow> ad_blocker \<Rightarrow> bool \<times> ad_blocker" where
  "set_domain_enabled api domain0 enabled ab =
     (let domain = normalize_host api domain0
      in if domain = [] then (False, ab)
         else let was = is_domain_enabled api domain ab; config = ab_config ab;
                  disabled = (if enabled then ac_disabled_domains config - {domain} else insert domain (ac_disabled_domains config))
              in (was \<noteq> enabled, ab\<lparr>ab_config := config\<lparr>ac_disabled_domains := disabled\<rparr>\<rparr>))"

definition toggle_domain :: "url_api \<Rightarrow> ustr \<Rightarrow> ad_blocker \<Rightarrow> bool \<times> ad_blocker" where
  "toggle_domain api domain ab =
     (let enabled = \<not> is_domain_enabled api domain ab in (enabled, snd (set_domain_enabled api domain enabled ab)))"

end
