(* ===== verification/Ad_Block_Laws.thy ===== *)
theory Ad_Block_Laws
  imports Ad_Block
begin

text \<open>
  What the request filter decides and counts: the conditions under which a request is blocked, the agreement of the
  statistics with the decisions over any run, the effect of site exceptions, and some rules
  evaluated.
\<close>

section \<open>Decisions\<close>

definition may_block :: "ad_blocker \<Rightarrow> network_rule \<Rightarrow> bool" where
  "may_block ab r \<longleftrightarrow> nr_action r = Block \<and> (ac_block_trackers (ab_config ab) \<or> \<not> nr_tracker r)"

lemma find_none: "find P xs = None \<longleftrightarrow> (\<forall>x\<in>set xs. \<not> P x)"
  by (induction xs) auto

lemma apply_rules_blocks:
  "ad_blocked (fst (apply_rules q h rt ab)) \<longleftrightarrow>
     (\<forall>r\<in>set (ab_rules ab). nr_action r = Allow \<longrightarrow> \<not> rule_matches r q h rt True) \<and>
     (\<exists>r\<in>set (ab_rules ab). may_block ab r \<and> rule_matches r q h rt True)"
  by (auto simp: apply_rules_def allow_for_def block_for_def may_block_def find_none find_Some_iff split: option.split)

lemma evaluate_blocks:
  "ad_blocked (fst (evaluate_resource api psl url page rt ab)) \<longleftrightarrow>
     ac_enabled (ab_config ab) \<and> rt \<noteq> Document \<and>
     (\<exists>p q. page = Some p \<and> parse_request api url = Some q \<and> normalize_host api p \<noteq> [] \<and>
        \<not> is_disabled_for_host ab (normalize_host api p) \<and> \<not> is_local_or_loopback (rp_host q) \<and>
        \<not> same_site psl (rp_host q) (normalize_host api p) \<and>
        (\<forall>r\<in>set (ab_rules ab). nr_action r = Allow \<longrightarrow> \<not> rule_matches r q (normalize_host api p) rt True) \<and>
        (\<exists>r\<in>set (ab_rules ab). may_block ab r \<and> rule_matches r q (normalize_host api p) rt True))"
proof (cases page)
  case None
  then show ?thesis by (simp add: evaluate_resource_def allow_for_def)
next
  case (Some p)
  show ?thesis
  proof (cases "parse_request api url")
    case None
    with Some show ?thesis by (simp add: evaluate_resource_def allow_for_def Let_def)
  next
    case q: (Some q)
    let ?ab = "ab\<lparr>ab_stats := (ab_stats ab)\<lparr>as_evaluated := bump (as_evaluated (ab_stats ab))\<rparr>\<rparr>"
    have "may_block ?ab = may_block ab" by (simp add: may_block_def fun_eq_iff)
    with Some q show ?thesis
      by (auto simp: evaluate_resource_def allow_for_def Let_def apply_rules_blocks)
  qed
qed

section \<open>Statistics\<close>

text \<open>The requests of a run, and how many of them were blocked.\<close>

type_synonym resource_request = "ustr \<times> ustr option \<times> resource_type"

definition blocked_of :: "(resource_type \<Rightarrow> nat option) \<Rightarrow> nat" where
  "blocked_of f = (\<Sum>t\<in>UNIV. case f t of None \<Rightarrow> 0 | Some n \<Rightarrow> n)"

lemma UNIV_resource_type: "UNIV = {Document, Script, Style, Image, Font, MediaResource, Fetch, OtherResource}"
  by (auto intro: resource_type.exhaust)

instance resource_type :: finite
  by standard (simp add: UNIV_resource_type)

fun evaluate_all :: "url_api \<Rightarrow> psl_rules \<Rightarrow> resource_request list \<Rightarrow> ad_blocker \<Rightarrow> bool list \<times> ad_blocker" where
  "evaluate_all api psl [] ab = ([], ab)"
| "evaluate_all api psl ((url, page, rt) # rs) ab =
     (case evaluate_resource api psl url page rt ab of
        (d, ab1) \<Rightarrow> (case evaluate_all api psl rs ab1 of (ds, ab2) \<Rightarrow> (ad_blocked d # ds, ab2)))"

definition stats_ok :: "nat \<Rightarrow> nat \<Rightarrow> adblock_stats \<Rightarrow> bool" where
  "stats_ok n k st \<longleftrightarrow> k \<le> n \<and> as_blocked_ads st + as_blocked_trackers st = k \<and> blocked_of (as_blocked_by_resource st) = k \<and>
     k \<le> as_evaluated st \<and> as_evaluated st \<le> n \<and> as_allowed_by_exception st + k \<le> n"

lemma bump_exact: "n < u64_max \<Longrightarrow> bump n = Suc n"
  by (simp add: bump_def sat_add_exact)

lemma blocked_of_bump:
  assumes "blocked_of f < u64_max"
  shows "blocked_of (f(rt := Some (bump (case f rt of None \<Rightarrow> 0 | Some n \<Rightarrow> n)))) = Suc (blocked_of f)"
proof -
  let ?g = "\<lambda>t. case f t of None \<Rightarrow> 0 | Some n \<Rightarrow> n"
  have split: "blocked_of h = (case h rt of None \<Rightarrow> 0 | Some n \<Rightarrow> n) + (\<Sum>t\<in>UNIV - {rt}. case h t of None \<Rightarrow> 0 | Some n \<Rightarrow> n)" for h
    unfolding blocked_of_def by (rule sum.remove) simp_all
  have "?g rt < u64_max" using assms split [of f] by simp
  then show ?thesis using split [of f] split [of "f(rt := Some (bump (?g rt)))"] by (simp add: bump_exact)
qed

lemma evaluate_stats:
  assumes "stats_ok n k (ab_stats ab)" and "n < u64_max"
  shows "stats_ok (Suc n) (if ad_blocked (fst (evaluate_resource api psl url page rt ab)) then Suc k else k)
    (ab_stats (snd (evaluate_resource api psl url page rt ab)))"
proof -
  have small: "k < u64_max" "as_evaluated (ab_stats ab) < u64_max" "as_allowed_by_exception (ab_stats ab) < u64_max"
    "as_blocked_ads (ab_stats ab) < u64_max" "as_blocked_trackers (ab_stats ab) < u64_max"
    "blocked_of (as_blocked_by_resource (ab_stats ab)) < u64_max"
    using assms by (simp_all add: stats_ok_def)
  define e where "e = (\<lambda>st::adblock_stats. st\<lparr>as_evaluated := bump (as_evaluated st)\<rparr>)"
  have evaluated: "k \<le> as_evaluated (e (ab_stats ab))" "Suc k \<le> as_evaluated (e (ab_stats ab))"
    "as_evaluated (e (ab_stats ab)) \<le> Suc n"
    using assms small by (simp_all add: stats_ok_def e_def bump_exact)
  have ruled: "stats_ok (Suc n) (if ad_blocked (fst (apply_rules q h rt ab1)) then Suc k else k) (ab_stats (snd (apply_rules q h rt ab1)))"
    if ab1: "ab1 = ab\<lparr>ab_stats := e (ab_stats ab)\<rparr>" for q h ab1
    using assms small evaluated blocked_of_bump [of "as_blocked_by_resource (ab_stats ab)" rt] unfolding ab1
    by (auto simp: apply_rules_def stats_ok_def allow_for_def block_for_def count_blocked_def count_exception_def Let_def
        bump_exact e_def split: option.split)
  have skip: "stats_ok (Suc n) k (ab_stats ab)" "stats_ok (Suc n) k (ab_stats (count_exception ab))"
    "stats_ok (Suc n) k (e (ab_stats ab))"
    using assms small by (auto simp: stats_ok_def count_exception_def e_def bump_exact)
  have ruled': "ad_blocked (fst (apply_rules q h rt (ab\<lparr>ab_stats := e (ab_stats ab)\<rparr>))) \<Longrightarrow>
      stats_ok (Suc n) (Suc k) (ab_stats (snd (apply_rules q h rt (ab\<lparr>ab_stats := e (ab_stats ab)\<rparr>))))"
    "\<not> ad_blocked (fst (apply_rules q h rt (ab\<lparr>ab_stats := e (ab_stats ab)\<rparr>))) \<Longrightarrow>
      stats_ok (Suc n) k (ab_stats (snd (apply_rules q h rt (ab\<lparr>ab_stats := e (ab_stats ab)\<rparr>))))" for q h
    using ruled [OF refl, of q h] by simp_all
  show ?thesis
    using skip ruled' unfolding e_def
    by (simp add: evaluate_resource_def Let_def allow_for_def split: option.split)
qed

lemma evaluate_all_stats:
  assumes "stats_ok n k (ab_stats ab)" and "n + length rs \<le> u64_max"
  shows "stats_ok (n + length rs) (k + length (filter id (fst (evaluate_all api psl rs ab)))) (ab_stats (snd (evaluate_all api psl rs ab)))"
  using assms
proof (induction rs arbitrary: n k ab)
  case (Cons r rs)
  obtain url page rt where r: "r = (url, page, rt)" by (cases r)
  obtain d ab1 where d: "evaluate_resource api psl url page rt ab = (d, ab1)" by (cases "evaluate_resource api psl url page rt ab")
  have "stats_ok (Suc n) (if ad_blocked d then Suc k else k) (ab_stats ab1)"
    using evaluate_stats [OF Cons.prems(1), of api psl url page rt] Cons.prems(2) by (simp add: d)
  from Cons.IH [OF this] Cons.prems(2) show ?case by (auto simp: r d split: prod.split if_splits)
qed simp

section \<open>Site exceptions\<close>

lemma new_domains_normal: "\<forall>d\<in>ac_disabled_domains (ab_config (new_ad_blocker api config)). d \<noteq> []"
  by (simp add: new_ad_blocker_def Let_def)

lemma host_matches_self:
  assumes "trim_matches (\<lambda>c. c = DOT) h = h" and "h \<noteq> []"
  shows "host_matches h h"
  using assms by (simp add: host_matches_def)

lemma disabled_is_allowed:
  assumes "snd (set_domain_enabled api domain False ab) = ab'" and "normalize_host api p = h" and "h \<noteq> []"
    and "host_matches h (normalize_host api domain)"
  shows "\<not> ad_blocked (fst (evaluate_resource api psl url (Some p) rt ab'))"
proof -
  have "normalize_host api domain \<noteq> []" using assms(4) by (auto simp: host_matches_def trim_matches_def trim_end_matches_def)
  then have "is_disabled_for_host ab' h"
    using assms(1,4) by (auto simp: set_domain_enabled_def is_disabled_for_host_def Let_def)
  then show ?thesis using assms(2) evaluate_blocks [of api psl url "Some p" rt ab'] by auto
qed

section \<open>Evaluated rules\<close>

text \<open>An example of the \<^verbatim>\<open>url\<close> crate on a few inputs.\<close>

definition demo_url :: "string \<Rightarrow> string option \<Rightarrow> string list \<Rightarrow> url" where
  "demo_url scheme host segments =
     \<lparr>u_scheme = lit scheme, u_host = map_option lit host, u_port = None, u_segments = map lit segments, u_query = [],
      u_origin = [], u_text = []\<rparr>"

definition demo_api :: url_api where
  "demo_api =
     \<lparr>ua_parse = (\<lambda>s. if s = lit ''https://ads.net/x.js'' then Some (demo_url ''https'' (Some ''ads.net'') [''x.js''])
         else if s = lit ''http://[::1]/ads'' then Some (demo_url ''http'' (Some ''[::1]'') [''ads'']) else None),
      ua_set_scheme = (\<lambda>_ u. u), ua_set_port = (\<lambda>_ u. u)\<rparr>"

lemmas adblock_eval = parse_rule_def rule_action_of_def rule_token_def split_once_def split_whitespace_def words_by.simps
  to_ascii_uppercase_def to_ascii_lowercase_def ascii_lower_def is_ascii_upper_def is_ascii_lower_def validate_value_def
  trim_matches_def trim_end_matches_def trim_eval byte_len_def utf8_len_def is_ascii_alphanumeric_def is_ascii_alphabetic_def
  is_ascii_digit_def normalize_host_def demo_api_def demo_url_def DOT_def lit_def Let_def MAX_RULE_BYTES_def

text \<open>A rule for pages whose names are all empty after normalisation applies on every page.\<close>

lemma empty_page_list:
  "parse_rule demo_api (lit ''BLOCK host=ads.net page=.'') (lit ''r'') False =
     Inr \<lparr>nr_id = lit ''r'', nr_built_in = False, nr_action = Block, nr_matcher = HostSuffix (lit ''ads.net''),
          nr_resource_types = {}, nr_third_party = None, nr_page_domains = [], nr_tracker = False\<rparr>"
  by (simp add: adblock_eval)

text \<open>Every request that reaches the rules is a third-party request, so a rule for first parties never matches.\<close>

lemma first_party_rule_is_dead:
  "nr_third_party r = Some False \<Longrightarrow> \<not> rule_matches r q h rt True"
  unfolding rule_matches_def by blast

text \<open>The host of a URL with an IPv6 address is normalised a second time, which cuts it at its first colon; every
  such host is the same text, and the loopback address is not recognised.\<close>

lemma ipv6_hosts_collapse:
  "map_option rp_host (parse_request demo_api (lit ''http://[::1]/ads'')) = Some (lit ''['')"
  "\<not> is_local_or_loopback (lit ''['')"
  by (simp_all add: parse_request_def host_or_empty_def adblock_eval address_eval is_local_or_loopback_def
      eq_ignore_ascii_case_def ends_with_def suffix_Cons)

text \<open>Enabling a site whose parent domain is disabled reports a change and changes nothing.\<close>

definition parent_disabled :: ad_blocker where
  "parent_disabled = snd (set_domain_enabled demo_api (lit ''b.c'') False (new_ad_blocker demo_api default_config))"

lemma enable_reports_change:
  "fst (set_domain_enabled demo_api (lit ''a.b.c'') True parent_disabled) = True"
  "snd (set_domain_enabled demo_api (lit ''a.b.c'') True parent_disabled) = parent_disabled"
  "fst (toggle_domain demo_api (lit ''a.b.c'') parent_disabled) = True"
  by (simp_all add: parent_disabled_def set_domain_enabled_def toggle_domain_def is_domain_enabled_def is_disabled_for_host_def
      new_ad_blocker_def default_config_def host_matches_def ends_with_def suffix_Cons adblock_eval)

section \<open>The properties\<close>

text \<open>C30. A request is blocked exactly when the filter is on, it is not for a document, it has a page whose host is known and has no
  exception, its URL is one of the web, its host is neither local nor of the same site as the page, no \<^verbatim>\<open>ALLOW\<close> rule
  matches, and some \<^verbatim>\<open>BLOCK\<close> rule does, which may be a tracker rule only while trackers are blocked. In particular no
  rule blocks a document or a request to the site of its own page.
\<close>

theorem request_blocked_iff:
  "ad_blocked (fst (evaluate_resource api psl url page rt ab)) \<longleftrightarrow>
     ac_enabled (ab_config ab) \<and> rt \<noteq> Document \<and>
     (\<exists>p q. page = Some p \<and> parse_request api url = Some q \<and> normalize_host api p \<noteq> [] \<and>
        \<not> is_disabled_for_host ab (normalize_host api p) \<and> \<not> is_local_or_loopback (rp_host q) \<and>
        \<not> same_site psl (rp_host q) (normalize_host api p) \<and>
        (\<forall>r\<in>set (ab_rules ab). nr_action r = Allow \<longrightarrow> \<not> rule_matches r q (normalize_host api p) rt True) \<and>
        (\<exists>r\<in>set (ab_rules ab). may_block ab r \<and> rule_matches r q (normalize_host api p) rt True))"
  by (rule evaluate_blocks)

definition demo_config :: adblock_config where
  "demo_config = default_config\<lparr>ac_custom_rules := [lit ''BLOCK host=ads.net'']\<rparr>"

definition demo_blocker :: ad_blocker where
  "demo_blocker = \<lparr>ab_config = default_config, ab_stats = no_stats, ab_rules = built_in_rules, ab_rejected = 0\<rparr>"

lemma demo_request: "parse_request demo_api (lit ''https://ads.net/x.js'') =
    Some \<lparr>rp_host = lit ''ads.net'', rp_path_segments = [lit ''x.js''], rp_file_name = lit ''x.js'', rp_query_keys = {}\<rparr>"
  by (simp add: parse_request_def host_or_empty_def adblock_eval)

lemma demo_page: "normalize_host demo_api (lit ''a.com'') = lit ''a.com''"
  by (simp add: adblock_eval)

lemma demo_cross_site: "\<not> same_site demo_rules (lit ''ads.net'') (lit ''a.com'')" "\<not> is_local_or_loopback (lit ''ads.net'')"
  by (simp_all add: same_site_def site_of_def demo_rules_read registrable_domain_def normalized_labels_def
      public_suffix_label_count_def longest_first_def tail_labels_def rule_covers_def upt_rec [of _ "numeral _"]
      is_local_or_loopback_def eq_ignore_ascii_case_def ends_with_def suffix_Cons address_eval adblock_eval)

theorem request_blocked_iff_witness:
  "ad_blocked (fst (evaluate_resource demo_api demo_rules (lit ''https://ads.net/x.js'') (Some (lit ''a.com'')) Script demo_blocker))"
  unfolding request_blocked_iff demo_request
  using demo_cross_site demo_page
  by (simp add: demo_blocker_def default_config_def is_disabled_for_host_def may_block_def built_in_rules_def
      built_in_rule_def rule_matches_def matcher_holds_def DOT_def lit_def)

text \<open>The statistics agree with the decisions: over any run of fewer than \<open>2\<^sup>6\<^sup>4\<close> requests from a new filter, the blocked
  advertisements and trackers together, and the blocked requests over all resource types, are both the number of requests
  that were blocked, which is at most the number that were evaluated.
\<close>

theorem statistics_agree:
  assumes "length rs \<le> u64_max"
  shows "case evaluate_all api psl rs (new_ad_blocker api config) of (ds, ab) \<Rightarrow>
    total_blocked ab = length (filter id ds) \<and> blocked_of (as_blocked_by_resource (ab_stats ab)) = length (filter id ds) \<and>
    length (filter id ds) \<le> as_evaluated (ab_stats ab) \<and> as_evaluated (ab_stats ab) \<le> length rs"
proof -
  have "stats_ok 0 0 (ab_stats (new_ad_blocker api config))"
    by (simp add: stats_ok_def new_ad_blocker_def no_stats_def blocked_of_def Let_def)
  from evaluate_all_stats [OF this, of rs api psl] assms show ?thesis
    by (auto simp: stats_ok_def total_blocked_def split: prod.split)
qed

theorem statistics_agree_witness:
  "case evaluate_all demo_api demo_rules [(lit ''https://ads.net/x.js'', Some (lit ''a.com''), Script)] (new_ad_blocker demo_api demo_config) of
     (ds, ab) \<Rightarrow> total_blocked ab = length (filter id ds)"
  using statistics_agree [of "[(lit ''https://ads.net/x.js'', Some (lit ''a.com''), Script)]" demo_api demo_rules demo_config]
  by (auto simp: u64_max_def)

end
