(* ===== verification/Site_Policy.thy ===== *)
theory Site_Policy
  imports Url_Text Btree_Map "HOL-Library.Word"
begin

unbundle bit_operations_syntax

text \<open>
  The smaller policies of a site: \<^verbatim>\<open>src/src/https_upgrade.rs\<close>, \<^verbatim>\<open>tracking_protection.rs\<close>,
  \<^verbatim>\<open>content_control.rs\<close> and \<^verbatim>\<open>permissions.rs\<close>. The \<^verbatim>\<open>url\<close> crate is the argument \<open>api\<close>; the
  per-process secret behind the canvas noise is an argument too.
\<close>

section \<open>HTTPS upgrades\<close>

datatype https_mode = HttpsDisabled | EnabledAll

datatype https_result =
    Upgraded ustr
  | AlreadySecure ustr
  | NonHttpScheme ustr
  | ExemptLocal ustr
  | InsecureAllowed ustr
  | InvalidUrl ustr
  | InsecureBlocked ustr

definition is_blocked :: "https_result \<Rightarrow> bool" where
  "is_blocked r = (case r of InvalidUrl _ \<Rightarrow> True | InsecureBlocked _ \<Rightarrow> True | _ \<Rightarrow> False)"

record https_engine =
  he_mode :: https_mode
  he_exemptions :: "ustr list"

definition new_https_engine :: "https_mode \<Rightarrow> https_engine" where
  "new_https_engine mode =
     \<lparr>he_mode = mode, he_exemptions = [lit ''localhost'', lit ''127.0.0.1'', lit ''[::1]'']\<rparr>"

definition normalize_exempt_host :: "ustr \<Rightarrow> ustr" where
  "normalize_exempt_host host =
     to_ascii_lowercase (trim_end_matches (\<lambda>c. c = DOT) (trim_end_matches (\<lambda>c. c = 93 \<or> c = DOT)
       (dropWhile (\<lambda>c. c = 91) (trim host))))"

definition is_exempt_local :: "ustr \<Rightarrow> ustr list \<Rightarrow> bool" where
  "is_exempt_local host exemptions \<longleftrightarrow>
     (let normalized = normalize_exempt_host host
      in if normalized = [] then False
         else if is_loopback_address normalized then True
         else if normalized = lit ''localhost'' then True
         else list_ex (\<lambda>ex. if ex = [] then False
                            else if is_loopback_address ex then normalized = ex
                            else normalized = ex) (map normalize_exempt_host exemptions))"

definition evaluate_url :: "url_api \<Rightarrow> ustr \<Rightarrow> https_engine \<Rightarrow> https_result" where
  "evaluate_url api url_text engine =
     (case ua_parse api url_text of
        None \<Rightarrow> InvalidUrl url_text
      | Some parsed \<Rightarrow>
          if u_scheme parsed = lit ''https'' then AlreadySecure url_text
          else if u_scheme parsed \<noteq> lit ''http'' then NonHttpScheme url_text
          else if is_exempt_local (host_or_empty parsed) (he_exemptions engine) then ExemptLocal url_text
          else (case he_mode engine of
                  HttpsDisabled \<Rightarrow> InsecureAllowed url_text
                | EnabledAll \<Rightarrow>
                    (let upgraded = ua_set_scheme api (lit ''https'') parsed;
                         upgraded = (if u_port upgraded = Some 80 then ua_set_port api None upgraded else upgraded)
                     in Upgraded (u_text upgraded))))"

section \<open>Cookies\<close>

datatype cookie_policy = AllowAll | BlockThirdParty | BlockAll

text \<open>\<^verbatim>\<open>domain_matches\<close> of \<^verbatim>\<open>tracking_protection.rs\<close>; \<^verbatim>\<open>content_control.rs\<close> has the same without the first test.\<close>

definition strip_suffix :: "ustr \<Rightarrow> ustr \<Rightarrow> ustr option" where
  "strip_suffix t s = (if suffix t s then Some (take (length s - length t) s) else None)"

definition host_under :: "ustr \<Rightarrow> ustr \<Rightarrow> bool" where
  "host_under host domain \<longleftrightarrow>
     host = domain \<or> (case strip_suffix domain host of None \<Rightarrow> False | Some pre \<Rightarrow> ends_with [DOT] pre)"

definition cookie_domain_matches :: "ustr \<Rightarrow> ustr \<Rightarrow> bool" where
  "cookie_domain_matches host cookie_domain \<longleftrightarrow> cookie_domain \<noteq> [] \<and> host_under host cookie_domain"

definition should_allow_cookie :: "url_api \<Rightarrow> psl_rules \<Rightarrow> ustr \<Rightarrow> ustr \<Rightarrow> cookie_policy \<Rightarrow> bool" where
  "should_allow_cookie api psl top_level cookie_domain policy =
     (case policy of
        AllowAll \<Rightarrow> True
      | BlockAll \<Rightarrow> False
      | BlockThirdParty \<Rightarrow>
          (let top = (case ua_parse api top_level of None \<Rightarrow> None | Some u \<Rightarrow> map_option to_ascii_lowercase (u_host u));
               cookie = to_ascii_lowercase (trim_end_matches (\<lambda>c. c = DOT) (dropWhile (\<lambda>c. c = DOT) cookie_domain))
           in if cookie = [] \<or> is_public_suffix psl cookie then False
              else (case top of None \<Rightarrow> False | Some h \<Rightarrow> cookie_domain_matches h cookie)))"

section \<open>Canvas noise\<close>

record canvas_protector =
  cp_enabled :: bool
  cp_seed :: u32

text \<open>FNV-1a over the UTF-8 bytes of the origin, from the secret of the process.\<close>

definition canvas_for_origin :: "u32 \<Rightarrow> bool \<Rightarrow> bytes \<Rightarrow> canvas_protector" where
  "canvas_for_origin secret enabled origin =
     \<lparr>cp_enabled = enabled, cp_seed = foldl (\<lambda>seed b. (seed XOR ucast b) * 0x01000193) secret origin\<rparr>"

definition next_seed :: "u32 \<Rightarrow> u32" where
  "next_seed seed = seed * 1664525 + 1013904223"

definition noise_of :: "u32 \<Rightarrow> int" where
  "noise_of seed = int (unat (drop_bit 24 seed) mod 3) - 1"

definition clamp_byte :: "int \<Rightarrow> u8" where
  "clamp_byte v = of_int (max 0 (min 255 v))"

fun scramble :: "nat \<Rightarrow> u32 \<Rightarrow> bytes \<Rightarrow> bytes \<times> u32" where
  "scramble i seed [] = ([], seed)"
| "scramble i seed (b # bs) =
     (if i mod 4 \<noteq> 3
      then case scramble (i + 1) (next_seed seed) bs of
        (out, s) \<Rightarrow> (clamp_byte (uint b + noise_of (next_seed seed)) # out, s)
      else case scramble (i + 1) seed bs of (out, s) \<Rightarrow> (b # out, s))"

definition scramble_pixel_buffer :: "bytes \<Rightarrow> canvas_protector \<Rightarrow> bytes \<times> canvas_protector" where
  "scramble_pixel_buffer rgba p =
     (if \<not> cp_enabled p then (rgba, p)
      else case scramble 0 (cp_seed p) rgba of (out, s) \<Rightarrow> (out, p\<lparr>cp_seed := s\<rparr>))"

section \<open>Cosmetic rules\<close>

record cosmetic_rule =
  cr_selector :: ustr
  cr_domain :: "ustr option"

definition add_cosmetic_rule :: "ustr \<Rightarrow> ustr option \<Rightarrow> cosmetic_rule list \<Rightarrow> cosmetic_rule list" where
  "add_cosmetic_rule selector domain rules =
     (if length rules \<ge> 10000 \<or> selector = [] \<or> byte_len selector > 4096 \<or> list_ex (\<lambda>c. c \<in> {123, 125, 59}) selector \<or>
         (case domain of None \<Rightarrow> False
          | Some d \<Rightarrow> byte_len d > 253 \<or> d = [] \<or> \<not> list_all (\<lambda>c. is_ascii_alphanumeric c \<or> c \<in> {46, 45}) d)
      then rules
      else rules @ [\<lparr>cr_selector = selector, cr_domain = map_option to_ascii_lowercase domain\<rparr>])"

definition HIDE_BLOCK :: ustr where
  "HIDE_BLOCK = lit '' { display: none !important; visibility: hidden !important; }''"

definition matching_selectors :: "ustr \<Rightarrow> cosmetic_rule list \<Rightarrow> ustr list" where
  "matching_selectors host rules =
     map cr_selector (filter (\<lambda>r. case cr_domain r of None \<Rightarrow> True | Some d \<Rightarrow> host_under host d) rules)"

definition generate_cosmetic_css :: "url_api \<Rightarrow> ustr \<Rightarrow> cosmetic_rule list \<Rightarrow> ustr" where
  "generate_cosmetic_css api origin rules =
     (let domain = (case ua_parse api origin of None \<Rightarrow> []
                    | Some u \<Rightarrow> (case u_host u of None \<Rightarrow> [] | Some h \<Rightarrow> to_ascii_lowercase h));
          selectors = matching_selectors domain rules
      in if selectors = [] then [] else join_with (lit '', '') selectors @ HIDE_BLOCK)"

section \<open>Permissions\<close>

datatype permission_type = Geolocation | Notifications | Camera | Microphone | ClipboardRead | ClipboardWrite
  | PersistentStorage | Midi

datatype permission_state = Prompt | Granted | Denied

type_synonym permission_store = "(ustr, permission_type \<Rightarrow> permission_state option) btree"

definition canonical_permission_origin :: "url_api \<Rightarrow> ustr \<Rightarrow> ustr option" where
  "canonical_permission_origin api input =
     (case ua_parse api input of
        None \<Rightarrow> None
      | Some u \<Rightarrow>
          let trustworthy = (u_scheme u = lit ''https'' \<or>
                u_scheme u = lit ''http'' \<and> u_host u \<in> {Some (lit ''localhost''), Some (lit ''127.0.0.1''), Some (lit ''[::1]'')})
          in if trustworthy \<and> byte_len (u_origin u) \<le> 4096 then Some (u_origin u) else None)"

definition get_permission :: "url_api \<Rightarrow> ustr \<Rightarrow> permission_type \<Rightarrow> permission_store \<Rightarrow> permission_state" where
  "get_permission api origin0 p store =
     (case canonical_permission_origin api origin0 of
        None \<Rightarrow> Denied
      | Some origin \<Rightarrow>
          (case bt_get origin store of
             None \<Rightarrow> Prompt
           | Some perms \<Rightarrow> (case perms p of None \<Rightarrow> Prompt | Some st \<Rightarrow> st)))"

definition set_permission ::
  "url_api \<Rightarrow> ustr \<Rightarrow> permission_type \<Rightarrow> permission_state \<Rightarrow> permission_store \<Rightarrow> string + permission_store" where
  "set_permission api origin0 p st store =
     ebind (ok_or ''Permissions require a trustworthy HTTP(S) origin'' (canonical_permission_origin api origin0)) (\<lambda>origin.
       let entry = (case bt_get origin store of None \<Rightarrow> (\<lambda>_. None) | Some perms \<Rightarrow> perms);
           entry' = (if st = Prompt then entry(p := None) else entry(p := Some st))
       in Inr (bt_insert origin entry' store))"

definition reset_origin :: "url_api \<Rightarrow> ustr \<Rightarrow> permission_store \<Rightarrow> bool \<times> permission_store" where
  "reset_origin api origin0 store =
     (case canonical_permission_origin api origin0 of
        None \<Rightarrow> (False, store)
      | Some origin \<Rightarrow> (bt_get origin store \<noteq> None, bt_remove origin store))"

definition reset_all :: "permission_store \<Rightarrow> permission_store" where
  "reset_all store = []"

text \<open>\<^verbatim>\<open>from_json\<close>: the length of the text and what \<^verbatim>\<open>serde_json\<close> reads from it.\<close>

definition permissions_from_json :: "url_api \<Rightarrow> nat \<Rightarrow> permission_store option \<Rightarrow> string + permission_store" where
  "permissions_from_json api len decoded =
     (if len > 1024 * 1024 then Inl ''Permission data exceeds 1 MB''
      else ebind (ok_or ''Permission parsing failed'' decoded) (\<lambda>store.
        if length store > 4096 \<or> list_ex (\<lambda>b. canonical_permission_origin api (fst b) \<noteq> Some (fst b)) store
        then Inl ''Permission data contains invalid or excessive origins''
        else Inr store))"

end
