(* ===== verification/Site_Policy_Laws.thy ===== *)
theory Site_Policy_Laws
  imports Site_Policy
begin

text \<open>
  What the smaller site policies guarantee: no insecure navigation in HTTPS-only mode, the domains a cookie may name,
  the size of the canvas noise, cosmetic style sheets that stay closed, and the permission
  store as a map over trustworthy origins.
\<close>

section \<open>HTTPS upgrades\<close>

lemma exempt_local_iff:
  "is_exempt_local host exemptions \<longleftrightarrow>
     (let n = normalize_exempt_host host
      in n \<noteq> [] \<and> (is_loopback_address n \<or> n = lit ''localhost'' \<or> n \<in> normalize_exempt_host ` set exemptions))"
  by (auto simp: is_exempt_local_def Let_def list_ex_iff)

lemma https_only_result:
  "he_mode e = EnabledAll \<Longrightarrow> ua_parse api t = Some u \<Longrightarrow> u_scheme u = lit ''http'' \<Longrightarrow>
     evaluate_url api t e = ExemptLocal t \<and> is_exempt_local (host_or_empty u) (he_exemptions e) \<or>
     (\<exists>v. evaluate_url api t e = Upgraded (u_text v) \<and>
        (v = ua_set_scheme api (lit ''https'') u \<and> u_port v \<noteq> Some 80 \<or> v = ua_set_port api None (ua_set_scheme api (lit ''https'') u)))"
  by (auto simp: evaluate_url_def Let_def lit_def)

section \<open>Domains\<close>

lemma host_under_iff: "host_under host domain \<longleftrightarrow> host = domain \<or> suffix (DOT # domain) host"
proof -
  have "suffix (DOT # domain) host \<longleftrightarrow> (\<exists>pre. host = pre @ domain \<and> ends_with [DOT] pre)"
  proof
    assume "suffix (DOT # domain) host"
    then obtain zs where "host = zs @ DOT # domain" by (auto simp: suffix_def)
    then have "host = (zs @ [DOT]) @ domain \<and> ends_with [DOT] (zs @ [DOT])" by (simp add: ends_with_def)
    then show "\<exists>pre. host = pre @ domain \<and> ends_with [DOT] pre" by blast
  next
    assume "\<exists>pre. host = pre @ domain \<and> ends_with [DOT] pre"
    then show "suffix (DOT # domain) host" by (auto simp: ends_with_def suffix_def)
  qed
  then show ?thesis by (auto simp: host_under_def strip_suffix_def suffix_def)
qed

text \<open>A cookie domain that is no public suffix may still belong to another site, when a longer rule covers the host.\<close>

definition shared_rules :: psl_rules where
  "shared_rules = \<lparr>ps_exact = {lit ''com'', lit ''s.b.com''}, ps_wildcard_bases = {}, ps_exceptions = {}\<rparr>"

definition shared_api :: url_api where
  "shared_api =
     \<lparr>ua_parse = (\<lambda>_. Some \<lparr>u_scheme = lit ''https'', u_host = Some (lit ''x.s.b.com''), u_port = None, u_segments = [],
        u_query = [], u_origin = lit ''https://x.s.b.com'', u_text = []\<rparr>),
      ua_set_scheme = (\<lambda>_ u. u), ua_set_port = (\<lambda>_ u. u)\<rparr>"

lemmas suffix_eval = registrable_domain_def is_public_suffix_def normalized_labels_def public_suffix_label_count_def
  longest_first_def tail_labels_def rule_covers_def upt_rec [of _ "numeral _"] trim_eval trim_end_matches_def DOT_def
  to_ascii_lowercase_def ascii_lower_def is_ascii_upper_def Let_def lit_def

lemma cookie_of_another_site:
  "should_allow_cookie shared_api shared_rules (lit ''https://x.s.b.com'') (lit ''b.com'') BlockThirdParty"
  "registrable_domain shared_rules (lit ''x.s.b.com'') = Some (lit ''x.s.b.com'')"
  "registrable_domain shared_rules (lit ''b.com'') = Some (lit ''b.com'')"
  by (simp_all add: should_allow_cookie_def cookie_domain_matches_def host_under_iff suffix_Cons shared_rules_def shared_api_def suffix_eval)

section \<open>Canvas noise\<close>

lemma noise_range: "noise_of s \<in> {-1, 0, 1}"
proof -
  have "unat (drop_bit 24 s) mod 3 < 3" by simp
  then show ?thesis by (auto simp: noise_of_def)
qed

lemma uint_clamp: "uint (clamp_byte v) = max 0 (min 255 v)"
  by (auto simp: clamp_byte_def uint_word_of_int_eq take_bit_int_eq_self_iff min_def max_def intro!: take_bit_int_eq_self)

lemma clamp_close:
  fixes b :: u8
  shows "\<bar>uint (clamp_byte (uint b + noise_of s)) - uint b\<bar> \<le> 1"
proof -
  have "0 \<le> uint b" "uint b \<le> 255" using uint_lt2p [of b] by simp_all
  then show ?thesis using noise_range [of s] unfolding uint_clamp by (auto simp: min_def max_def)
qed

lemma scramble_close:
  "length (fst (scramble i s bs)) = length bs \<and>
   (\<forall>j < length bs. \<bar>uint (fst (scramble i s bs) ! j) - uint (bs ! j)\<bar> \<le> 1 \<and>
      ((i + j) mod 4 = 3 \<longrightarrow> fst (scramble i s bs) ! j = bs ! j))"
proof (induction i s bs rule: scramble.induct)
  case (2 i seed b bs)
  show ?case
  proof (cases "i mod 4 = 3")
    case True
    obtain out s where r: "scramble (i + 1) seed bs = (out, s)" by (cases "scramble (i + 1) seed bs")
    with 2(2) True have IH: "length out = length bs" "\<And>j. j < length bs \<Longrightarrow> \<bar>uint (out ! j) - uint (bs ! j)\<bar> \<le> 1 \<and>
      ((i + 1 + j) mod 4 = 3 \<longrightarrow> out ! j = bs ! j)" by auto
    show ?thesis using IH True r by (auto simp: nth_Cons split: nat.split)
  next
    case False
    obtain out s where r: "scramble (i + 1) (next_seed seed) bs = (out, s)" by (cases "scramble (i + 1) (next_seed seed) bs")
    with 2(1) False have IH: "length out = length bs" "\<And>j. j < length bs \<Longrightarrow> \<bar>uint (out ! j) - uint (bs ! j)\<bar> \<le> 1 \<and>
      ((i + 1 + j) mod 4 = 3 \<longrightarrow> out ! j = bs ! j)" by auto
    show ?thesis using IH False r clamp_close [of b "next_seed seed"] by (auto simp: nth_Cons split: nat.split)
  qed
qed simp

section \<open>Cosmetic rules\<close>

definition selector_ok :: "ustr \<Rightarrow> bool" where
  "selector_ok s \<longleftrightarrow> s \<noteq> [] \<and> byte_len s \<le> 4096 \<and> (\<forall>c\<in>set s. c \<notin> {123, 125, 59})"

definition cosmetic_ok :: "cosmetic_rule list \<Rightarrow> bool" where
  "cosmetic_ok rules \<longleftrightarrow> length rules \<le> 10000 \<and> (\<forall>r\<in>set rules. selector_ok (cr_selector r))"

lemma add_cosmetic_ok: "cosmetic_ok rules \<Longrightarrow> cosmetic_ok (add_cosmetic_rule s d rules)"
  by (auto simp: add_cosmetic_rule_def cosmetic_ok_def selector_ok_def list_ex_iff)

interpretation cosmetic_runs: transition_system "\<lambda>rules (s, d). add_cosmetic_rule s d rules" cosmetic_ok
  by unfold_locales (auto simp: add_cosmetic_ok)

definition braces :: "ustr \<Rightarrow> ustr" where
  "braces s = filter (\<lambda>c. c \<in> {123, 125}) s"

lemma braces_simps [simp]: "braces [] = []" "braces (s @ t) = braces s @ braces t"
  by (simp_all add: braces_def)

lemma braces_ok: "selector_ok s \<Longrightarrow> braces s = []"
  by (auto simp: selector_ok_def braces_def filter_empty_conv)

lemma braces_join: "braces sep = [] \<Longrightarrow> \<forall>s\<in>set ss. selector_ok s \<Longrightarrow> braces (join_with sep ss) = []"
  by (induction sep ss rule: join_with.induct) (simp_all add: braces_ok)

lemma braces_comma: "braces (lit '', '') = []"
  by (simp add: braces_def lit_def)

lemma css_braces:
  assumes "cosmetic_ok rules"
  shows "braces (generate_cosmetic_css api origin rules) = (if generate_cosmetic_css api origin rules = [] then [] else [123, 125])"
proof -
  have "\<forall>s\<in>set (matching_selectors h rules). selector_ok s" for h
    using assms by (auto simp: matching_selectors_def cosmetic_ok_def)
  moreover have "braces HIDE_BLOCK = [123, 125]" by (simp add: braces_def HIDE_BLOCK_def lit_def)
  moreover have "HIDE_BLOCK \<noteq> []" by (simp add: HIDE_BLOCK_def lit_def)
  ultimately show ?thesis by (simp add: generate_cosmetic_css_def braces_join [OF braces_comma] Let_def)
qed

section \<open>Permissions\<close>

lemma get_after_set:
  assumes "set_permission api origin p st store = Inr store'"
  shows "canonical_permission_origin api origin \<noteq> None \<and> get_permission api other q store' =
    (if canonical_permission_origin api other = canonical_permission_origin api origin \<and> q = p then st
     else get_permission api other q store)"
proof (cases "canonical_permission_origin api origin")
  case None
  with assms show ?thesis by (simp add: set_permission_def result_simps)
next
  case (Some k)
  with assms have "store' = bt_insert k ((case bt_get k store of None \<Rightarrow> (\<lambda>_. None) | Some perms \<Rightarrow> perms)
      (p := if st = Prompt then None else Some st)) store"
    by (simp add: set_permission_def result_simps Let_def split: if_splits)
  with Some show ?thesis by (auto simp: get_permission_def bt_get_insert split: option.splits)
qed

lemma set_only_trustworthy:
  "set_permission api origin p st store = Inl e \<longleftrightarrow>
     canonical_permission_origin api origin = None \<and> e = ''Permissions require a trustworthy HTTP(S) origin''"
  by (auto simp: set_permission_def result_simps Let_def)

lemma get_after_reset:
  "get_permission api other q (snd (reset_origin api origin store)) =
    (if canonical_permission_origin api other \<noteq> None \<and> canonical_permission_origin api other = canonical_permission_origin api origin
     then Prompt else get_permission api other q store)"
  by (auto simp: reset_origin_def get_permission_def bt_get_remove split: option.splits)

section \<open>The properties\<close>

text \<open>In HTTPS-only mode a URL of the scheme \<^verbatim>\<open>http\<close> is either left alone because its host is a loopback address,
  \<^verbatim>\<open>localhost\<close> or one of the exemptions, up to case, brackets and final dots, or it is replaced by the URL with the secure scheme,
  without the port 80.
\<close>

theorem https_only:
  assumes "he_mode e = EnabledAll" and "ua_parse api t = Some u" and "u_scheme u = lit ''http''"
  shows "evaluate_url api t e = ExemptLocal t \<and>
      (let n = normalize_exempt_host (host_or_empty u)
       in n \<noteq> [] \<and> (is_loopback_address n \<or> n = lit ''localhost'' \<or> n \<in> normalize_exempt_host ` set (he_exemptions e))) \<or>
    (\<exists>v. evaluate_url api t e = Upgraded (u_text v) \<and>
       (v = ua_set_scheme api (lit ''https'') u \<and> u_port v \<noteq> Some 80 \<or> v = ua_set_port api None (ua_set_scheme api (lit ''https'') u)))"
  using https_only_result [OF assms] unfolding exempt_local_iff .

definition plain_api :: url_api where
  "plain_api =
     \<lparr>ua_parse = (\<lambda>s. Some \<lparr>u_scheme = lit ''http'', u_host = Some s, u_port = None, u_segments = [], u_query = [], u_origin = s, u_text = s\<rparr>),
      ua_set_scheme = (\<lambda>s u. u\<lparr>u_scheme := s\<rparr>), ua_set_port = (\<lambda>p u. u\<lparr>u_port := p\<rparr>)\<rparr>"

theorem https_only_witness:
  "let r = evaluate_url plain_api (lit ''a.b'') (new_https_engine EnabledAll)
   in \<not> is_blocked r \<and> r \<noteq> InsecureAllowed (lit ''a.b'') \<and> (r = ExemptLocal (lit ''a.b'') \<or> (\<exists>v. r = Upgraded v))"
proof -
  have "he_mode (new_https_engine EnabledAll) = EnabledAll" by (simp add: new_https_engine_def)
  moreover obtain u where "ua_parse plain_api (lit ''a.b'') = Some u" "u_scheme u = lit ''http''" by (simp add: plain_api_def)
  ultimately show ?thesis using https_only [of "new_https_engine EnabledAll" plain_api "lit ''a.b''" u]
    by (auto simp: Let_def is_blocked_def)
qed

text \<open>The canvas protection keeps the length of a pixel buffer, changes every byte by at most one, and never changes the alpha
  channel; when it is off it changes nothing.
\<close>

theorem canvas_noise_bounded:
  "length (fst (scramble_pixel_buffer rgba p)) = length rgba \<and>
   list_all2 (\<lambda>out b. \<bar>uint out - uint b\<bar> \<le> 1) (fst (scramble_pixel_buffer rgba p)) rgba \<and>
   map (nth (fst (scramble_pixel_buffer rgba p))) (filter (\<lambda>j. if cp_enabled p then j mod 4 = 3 else True) [0..<length rgba]) =
     map (nth rgba) (filter (\<lambda>j. if cp_enabled p then j mod 4 = 3 else True) [0..<length rgba])"
  using scramble_close [of 0 "cp_seed p" rgba]
  by (auto simp: scramble_pixel_buffer_def list_all2_conv_all_nth split: prod.split)

text \<open>However rules are added, the generated style sheet is empty or holds exactly one opening and one closing brace, those of its own
  declaration block: no selector can close the block or add declarations.
\<close>

theorem cosmetic_css_closed:
  "let rules = fold (\<lambda>(s, d) rules. add_cosmetic_rule s d rules) calls []; css = generate_cosmetic_css api origin rules
   in length rules \<le> 10000 \<and> braces css = (if css = [] then [] else [123, 125])"
proof -
  have "cosmetic_ok (fold (\<lambda>(s, d) rules. add_cosmetic_rule s d rules) calls [])"
    using cosmetic_runs.run_inv [of "[]" calls] by (simp add: cosmetic_ok_def case_prod_beta')
  then show ?thesis using css_braces by (simp add: Let_def cosmetic_ok_def)
qed

text \<open>The permission store is a map over trustworthy origins: after a permission was set it reads as set, for every spelling of the same
  origin, and no other permission changes; setting fails only for an origin that is not trustworthy, for which every permission reads as denied.
\<close>

theorem permission_get_set:
  "case set_permission api origin p st store of
     Inl _ \<Rightarrow> canonical_permission_origin api origin = None \<and> get_permission api origin p store = Denied
   | Inr store' \<Rightarrow> get_permission api other q store' =
       (if canonical_permission_origin api other = canonical_permission_origin api origin \<and> q = p then st
        else get_permission api other q store)"
proof (cases "set_permission api origin p st store")
  case (Inl e)
  then show ?thesis using set_only_trustworthy [of api origin p st store e] by (simp add: get_permission_def)
next
  case (Inr store')
  then show ?thesis using get_after_set [OF Inr] by simp
qed

end
