(* ===== verification/Live_Dom.thy ===== *)
theory Live_Dom
  imports Html_Parser
begin

text \<open>
  The mutable document of \<^verbatim>\<open>src/src/live_dom.rs\<close>: a store of nodes with stable identifiers, linked by
  parent and child fields, with its attribute and text operations, shadow roots, queries and the export to an element tree.
  Events and default actions follow in \<open>Live_Events\<close>. The retained rendering (layout, display list, accessibility
  tree, canvas shapes) is left out, except for the flags that say what a mutation invalidates.

  An operation returns its result and the document, which an error may leave changed.
\<close>

section \<open>Operations that may fail and change the document\<close>

definition andthen :: "('e + 'a) \<times> 's \<Rightarrow> ('a \<Rightarrow> 's \<Rightarrow> ('e + 'b) \<times> 's) \<Rightarrow> ('e + 'b) \<times> 's" where
  "andthen r f = (case r of (Inl e, s) \<Rightarrow> (Inl e, s) | (Inr x, s) \<Rightarrow> f x s)"

lemma andthen_simps [simp]: "andthen (Inl e, s) f = (Inl e, s)" "andthen (Inr x, s) f = f x s"
  by (simp_all add: andthen_def)

lemma andthen_cong [fundef_cong]:
  "r = r' \<Longrightarrow> (\<And>x s. r' = (Inr x, s) \<Longrightarrow> f x s = f' x s) \<Longrightarrow> andthen r f = andthen r' f'"
  by (auto simp: andthen_def split: prod.split sum.split)

text \<open>Running a fallible test that leaves the document alone.\<close>

definition checked :: "'e + 'a \<Rightarrow> 's \<Rightarrow> ('e + 'a) \<times> 's" where
  "checked r s = (r, s)"

lemma andthen_checked: "andthen (checked r s) f = (case r of Inl e \<Rightarrow> (Inl e, s) | Inr x \<Rightarrow> f x s)"
  by (simp add: andthen_def checked_def)

section \<open>Limits\<close>

definition MAX_LIVE_NODES :: nat where "MAX_LIVE_NODES = 50000"
definition MAX_LIVE_DEPTH :: nat where "MAX_LIVE_DEPTH = 256"
definition MAX_EVENT_LISTENERS :: nat where "MAX_EVENT_LISTENERS = 10000"
definition MAX_EVENT_PATH :: nat where "MAX_EVENT_PATH = 256"
definition MAX_TEXT_BYTES :: nat where "MAX_TEXT_BYTES = 1024 * 1024"
definition MAX_ATTRIBUTE_BYTES :: nat where "MAX_ATTRIBUTE_BYTES = 64 * 1024"
definition MAX_SHADOW_ROOTS :: nat where "MAX_SHADOW_ROOTS = 128"
definition MAX_SHADOW_HTML_BYTES :: nat where "MAX_SHADOW_HTML_BYTES = 2 * 1024 * 1024"
definition MAX_LIVE_ATTRS :: nat where "MAX_LIVE_ATTRS = 64"
definition MAX_PREFERRED_ID_JUMP :: nat where "MAX_PREFERRED_ID_JUMP = 100000"

section \<open>The document\<close>

datatype shadow_mode = Open | Closed

record shadow_record =
  sr_host :: nat
  sr_root :: nat
  sr_mode :: shadow_mode

datatype live_kind =
    LElement ustr "(ustr, ustr) btree" bool
  | LText ustr

record live_node =
  ln_id :: nat
  ln_parent :: "nat option"
  ln_children :: "nat list"
  ln_kind :: live_kind

datatype event_phase = NoPhase | Capturing | AtTarget | Bubbling

record dom_event =
  de_type :: ustr
  de_target :: nat
  de_current_target :: "nat option"
  de_phase :: event_phase
  de_bubbles :: bool
  de_cancelable :: bool
  de_default_prevented :: bool
  de_propagation_stopped :: bool
  de_immediate_stopped :: bool
  de_key :: "ustr option"
  de_pointer_x :: "int option"
  de_pointer_y :: "int option"
  de_detail :: "ustr option"
  de_passive_listener :: bool

record listener_options =
  lo_capture :: bool
  lo_once :: bool
  lo_passive :: bool

text \<open>A callback changes the event it is given; what it captures lives in the world \<open>'w\<close>.\<close>

record 'w event_listener =
  li_id :: nat
  li_type :: ustr
  li_options :: listener_options
  li_callback :: "dom_event \<Rightarrow> 'w \<Rightarrow> dom_event \<times> 'w"

record mutation_invalidation =
  mi_style :: bool
  mi_layout :: bool
  mi_paint :: bool
  mi_accessibility :: bool

definition invalidate_all :: mutation_invalidation where
  "invalidate_all = \<lparr>mi_style = True, mi_layout = True, mi_paint = True, mi_accessibility = True\<rparr>"

definition is_dirty :: "mutation_invalidation \<Rightarrow> bool" where
  "is_dirty m \<longleftrightarrow> mi_style m \<or> mi_layout m \<or> mi_paint m \<or> mi_accessibility m"

type_synonym live_nodes = "(nat, live_node) btree"

text \<open>The last field is the world of the callbacks, which is no part of the structure in the code.\<close>

record 'w live_document =
  ld_root :: nat
  ld_nodes :: live_nodes
  ld_listeners :: "(nat, 'w event_listener list) btree"
  ld_next_node_id :: nat
  ld_next_listener_id :: nat
  ld_focused :: "nat option"
  ld_invalidation :: mutation_invalidation
  ld_shadows :: "(nat, shadow_record) btree"
  ld_world :: 'w

type_synonym ('a, 'w) live_result = "(error + 'a) \<times> 'w live_document"

section \<open>Names and values\<close>

definition valid_name :: "nat \<Rightarrow> (uchar \<Rightarrow> bool) \<Rightarrow> ustr \<Rightarrow> bool" where
  "valid_name limit extra s \<longleftrightarrow> s \<noteq> [] \<and> byte_len s \<le> limit \<and> list_all (\<lambda>c. is_ascii_alphanumeric c \<or> extra c) s"

definition normalize_tag :: "ustr \<Rightarrow> error + ustr" where
  "normalize_tag t0 =
     (let t = to_ascii_lowercase (trim t0)
      in if \<not> valid_name 64 (\<lambda>c. c = DASH) t then Inl (Err ''InvalidCharacterError: invalid element tag'') else Inr t)"

definition normalize_attribute_name :: "ustr \<Rightarrow> error + ustr" where
  "normalize_attribute_name n0 =
     (let n = to_ascii_lowercase (trim n0)
      in if \<not> valid_name 128 (\<lambda>c. c \<in> set (lit ''-_:.'')) n \<or> starts_with (lit ''on'') n
         then Inl (Err ''InvalidCharacterError: invalid attribute name'') else Inr n)"

definition normalize_event_type :: "ustr \<Rightarrow> error + ustr" where
  "normalize_event_type t0 =
     (let t = to_ascii_lowercase (trim t0)
      in if \<not> valid_name 64 (\<lambda>c. c = DASH) t then Inl (Err ''InvalidCharacterError: invalid event type'') else Inr t)"

definition bounded_text :: "ustr \<Rightarrow> ustr" where
  "bounded_text v = take MAX_TEXT_BYTES v"

definition bounded_attribute :: "ustr \<Rightarrow> ustr" where
  "bounded_attribute v = take MAX_ATTRIBUTE_BYTES v"

section \<open>Nodes\<close>

definition parent_of :: "live_nodes \<Rightarrow> nat \<Rightarrow> nat option" where
  "parent_of nodes n = (case bt_get n nodes of None \<Rightarrow> None | Some e \<Rightarrow> ln_parent e)"

definition is_element_kind :: "live_kind \<Rightarrow> bool" where
  "is_element_kind k = (case k of LElement _ _ _ \<Rightarrow> True | LText _ \<Rightarrow> False)"

definition require_node :: "nat \<Rightarrow> 'w live_document \<Rightarrow> error + live_node" where
  "require_node n d = ok_or (Err ''NotFoundError: node does not belong to this document'') (bt_get n (ld_nodes d))"

definition require_element :: "nat \<Rightarrow> 'w live_document \<Rightarrow> error + live_node" where
  "require_element n d =
     ebind (require_node n d) (\<lambda>e.
       if is_element_kind (ln_kind e) then Inr e else Inl (Err ''HierarchyRequestError: parent must be an element''))"

text \<open>\<^verbatim>\<open>self.nodes.get_mut(&n)\<close>, with the message of the case that the node is gone.\<close>

definition update_node :: "nat \<Rightarrow> string \<Rightarrow> (live_node \<Rightarrow> live_node) \<Rightarrow> 'w live_document \<Rightarrow> (unit, 'w) live_result" where
  "update_node n msg f d =
     (case bt_get n (ld_nodes d) of
        None \<Rightarrow> (Inl (Err msg), d)
      | Some e \<Rightarrow> (Inr (), d\<lparr>ld_nodes := bt_insert n (f e) (ld_nodes d)\<rparr>))"

abbreviation (input) PARENT_GONE :: string where
  "PARENT_GONE \<equiv> ''InvalidStateError: parent is no longer in the document''"

abbreviation (input) CHILD_GONE :: string where
  "CHILD_GONE \<equiv> ''InvalidStateError: child is no longer in the document''"

abbreviation (input) NODE_GONE :: string where
  "NODE_GONE \<equiv> ''InvalidStateError: node is no longer in the document''"

definition mark_mutated :: "'w live_document \<Rightarrow> 'w live_document" where
  "mark_mutated d = d\<lparr>ld_invalidation := invalidate_all\<rparr>"

text \<open>The walk up to the root, for at most \<open>k\<close> parents.\<close>

fun depth_walk :: "nat \<Rightarrow> live_nodes \<Rightarrow> nat option \<Rightarrow> bool" where
  "depth_walk 0 nodes current = False"
| "depth_walk (Suc k) nodes None = True"
| "depth_walk (Suc k) nodes (Some n) = depth_walk k nodes (parent_of nodes n)"

definition depth_budget_ok :: "nat \<Rightarrow> 'w live_document \<Rightarrow> error + unit" where
  "depth_budget_ok n d =
     (if depth_walk (MAX_LIVE_DEPTH - 1) (ld_nodes d) (parent_of (ld_nodes d) n) then Inr ()
      else Inl (Err ''HierarchyRequestError: DOM nesting depth budget exceeded''))"

fun ancestor_walk :: "nat \<Rightarrow> live_nodes \<Rightarrow> nat \<Rightarrow> nat option \<Rightarrow> bool" where
  "ancestor_walk 0 nodes candidate current = False"
| "ancestor_walk (Suc k) nodes candidate None = False"
| "ancestor_walk (Suc k) nodes candidate (Some n) =
     (n = candidate \<or> ancestor_walk k nodes candidate (parent_of nodes n))"

definition is_ancestor :: "nat \<Rightarrow> nat \<Rightarrow> 'w live_document \<Rightarrow> bool" where
  "is_ancestor candidate n d = ancestor_walk MAX_EVENT_PATH (ld_nodes d) candidate (Some n)"

section \<open>Allocation\<close>

definition allocate_preferred :: "live_kind \<Rightarrow> nat option \<Rightarrow> 'w live_document \<Rightarrow> (nat, 'w) live_result" where
  "allocate_preferred k preferred d =
     (if length (ld_nodes d) \<ge> MAX_LIVE_NODES then (Inl (Err ''QuotaExceededError: live DOM node budget exceeded''), d)
      else
        let usable = (case preferred of
              None \<Rightarrow> None
            | Some c \<Rightarrow> if c \<noteq> 0 \<and> bt_get c (ld_nodes d) = None \<and> c \<le> sat_add (ld_next_node_id d) MAX_PREFERRED_ID_JUMP
                        then Some c else None);
            n = (case usable of None \<Rightarrow> ld_next_node_id d | Some c \<Rightarrow> c)
        in case checked_add (max (ld_next_node_id d) n) 1 of
             None \<Rightarrow> (Inl (Err ''DOM node identifier space exhausted''), d)
           | Some next \<Rightarrow>
               (Inr n, d\<lparr>ld_next_node_id := next,
                        ld_nodes := bt_insert n \<lparr>ln_id = n, ln_parent = None, ln_children = [], ln_kind = k\<rparr> (ld_nodes d)\<rparr>))"

definition allocate_node :: "live_kind \<Rightarrow> 'w live_document \<Rightarrow> (nat, 'w) live_result" where
  "allocate_node k d = allocate_preferred k None d"

definition live_create_element :: "ustr \<Rightarrow> 'w live_document \<Rightarrow> (nat, 'w) live_result" where
  "live_create_element t d = andthen (checked (normalize_tag t) d) (\<lambda>t. allocate_node (LElement t [] False))"

definition create_text_node :: "ustr \<Rightarrow> 'w live_document \<Rightarrow> (nat, 'w) live_result" where
  "create_text_node s d = allocate_node (LText (bounded_text s)) d"

section \<open>Linking\<close>

definition push_child :: "nat \<Rightarrow> live_node \<Rightarrow> live_node" where
  "push_child c e = e\<lparr>ln_children := ln_children e @ [c]\<rparr>"

definition link_child :: "nat \<Rightarrow> nat \<Rightarrow> 'w live_document \<Rightarrow> (unit, 'w) live_result" where
  "link_child p c d =
     andthen (update_node p PARENT_GONE (push_child c) d) (\<lambda>_. update_node c CHILD_GONE (\<lambda>e. e\<lparr>ln_parent := Some p\<rparr>))"

definition append_child_without_invalidation :: "nat \<Rightarrow> nat \<Rightarrow> 'w live_document \<Rightarrow> (unit, 'w) live_result" where
  "append_child_without_invalidation p c d =
     andthen (checked (require_element p d) d) (\<lambda>_ d.
     andthen (checked (require_node c d) d) (\<lambda>_ d.
     andthen (checked (depth_budget_ok p d) d) (\<lambda>_ d.
       link_child p c d)))"

definition detach :: "nat \<Rightarrow> 'w live_document \<Rightarrow> (unit, 'w) live_result" where
  "detach c d =
     andthen (checked (require_node c d) d) (\<lambda>e d.
       case ln_parent e of
         None \<Rightarrow> (Inr (), d)
       | Some p \<Rightarrow>
           andthen (update_node p PARENT_GONE (\<lambda>e. e\<lparr>ln_children := filter (\<lambda>x. x \<noteq> c) (ln_children e)\<rparr>) d) (\<lambda>_.
             update_node c CHILD_GONE (\<lambda>e. e\<lparr>ln_parent := None\<rparr>)))"

definition append_child :: "nat \<Rightarrow> nat \<Rightarrow> 'w live_document \<Rightarrow> (unit, 'w) live_result" where
  "append_child p c d =
     andthen (checked (require_element p d) d) (\<lambda>_ d.
     andthen (checked (require_node c d) d) (\<lambda>_ d.
     andthen (checked (depth_budget_ok p d) d) (\<lambda>_ d.
       if p = c \<or> is_ancestor c p d then (Inl (Err ''HierarchyRequestError: append would create a cycle''), d)
       else
         andthen (detach c d) (\<lambda>_ d.
         andthen (link_child p c d) (\<lambda>_ d. (Inr (), mark_mutated d))))))"

definition remove_child :: "nat \<Rightarrow> nat \<Rightarrow> 'w live_document \<Rightarrow> (unit, 'w) live_result" where
  "remove_child p c d =
     andthen (checked (require_node p d) d) (\<lambda>e d.
       if c \<notin> set (ln_children e) then (Inl (Err ''NotFoundError: node is not a child of parent''), d)
       else
         andthen (update_node p PARENT_GONE (\<lambda>e. e\<lparr>ln_children := remove1 c (ln_children e)\<rparr>) d) (\<lambda>_ d.
         andthen (update_node c CHILD_GONE (\<lambda>e. e\<lparr>ln_parent := None\<rparr>) d) (\<lambda>_ d.
           (Inr (), mark_mutated d))))"

section \<open>Freeing\<close>

text \<open>The recursion of \<^verbatim>\<open>free_subtree\<close>, with the nodes still to be freed in a list.\<close>

lemma bt_remove_length_less: "bt_get k m = Some v \<Longrightarrow> length (bt_remove k m) < length m"
  using bt_get_SomeD [of k m v] by (auto simp: bt_remove_def intro!: length_filter_less)

function free_nodes :: "nat list \<Rightarrow> live_nodes \<Rightarrow> live_nodes" where
  "free_nodes [] nodes = nodes"
| "free_nodes (n # ns) nodes =
     (case bt_get n nodes of
        None \<Rightarrow> free_nodes ns nodes
      | Some e \<Rightarrow> free_nodes (ln_children e @ ns) (bt_remove n nodes))"
  by pat_completeness auto
termination
  by (relation "measures [\<lambda>(ns, nodes). length nodes, \<lambda>(ns, nodes). length ns]") (auto simp: bt_remove_length_less)

definition free_subtrees :: "nat list \<Rightarrow> 'w live_document \<Rightarrow> 'w live_document" where
  "free_subtrees ns d = d\<lparr>ld_nodes := free_nodes ns (ld_nodes d)\<rparr>"

section \<open>Attributes\<close>

definition LAYOUT_PROPERTIES :: "string list" where
  "LAYOUT_PROPERTIES = [''display'', ''position'', ''width'', ''height'', ''margin'', ''padding'', ''border'', ''flex'', ''grid'',
     ''top'', ''right'', ''bottom'', ''left'', ''font-size'', ''line-height'']"

definition attribute_effect :: "ustr \<Rightarrow> ustr \<Rightarrow> bool \<times> bool \<times> bool" where
  "attribute_effect name v =
     (if name = lit ''style'' then
        (True, list_ex (\<lambda>p. contains (lit p) (to_ascii_lowercase v)) LAYOUT_PROPERTIES, True)
      else if name \<in> {lit ''class'', lit ''id'', lit ''hidden''} then (True, True, True)
      else if name \<in> {lit ''value'', lit ''checked'', lit ''placeholder'', lit ''src'', lit ''href''}
        then (False, name \<noteq> lit ''href'', True)
      else (False, False, True))"

definition mark_attribute_mutated :: "ustr \<Rightarrow> ustr \<Rightarrow> 'w live_document \<Rightarrow> 'w live_document" where
  "mark_attribute_mutated name v d =
     (let m = ld_invalidation d in
      if starts_with (lit ''aria-'') name then d\<lparr>ld_invalidation := m\<lparr>mi_accessibility := True\<rparr>\<rparr>
      else case attribute_effect name v of (style, layout, paint) \<Rightarrow>
        d\<lparr>ld_invalidation := \<lparr>mi_style = mi_style m \<or> style, mi_layout = mi_layout m \<or> layout,
                              mi_paint = mi_paint m \<or> paint, mi_accessibility = True\<rparr>\<rparr>)"

text \<open>\<^verbatim>\<open>require_element_mut\<close> and the change of the attributes.\<close>

definition change_attrs ::
  "nat \<Rightarrow> ((ustr, ustr) btree \<Rightarrow> (ustr, ustr) btree) \<Rightarrow> 'w live_document \<Rightarrow> (unit, 'w) live_result" where
  "change_attrs n f d =
     (case bt_get n (ld_nodes d) of
        None \<Rightarrow> (Inl (Err ''NotFoundError: node does not belong to this document''), d)
      | Some e \<Rightarrow>
          (case ln_kind e of
             LText _ \<Rightarrow> (Inl (Err ''HierarchyRequestError: node must be an element''), d)
           | LElement t m v \<Rightarrow> (Inr (), d\<lparr>ld_nodes := bt_insert n (e\<lparr>ln_kind := LElement t (f m) v\<rparr>) (ld_nodes d)\<rparr>)))"

definition live_set_attribute :: "nat \<Rightarrow> ustr \<Rightarrow> ustr \<Rightarrow> 'w live_document \<Rightarrow> (unit, 'w) live_result" where
  "live_set_attribute n name0 v d =
     andthen (checked (normalize_attribute_name name0) d) (\<lambda>name d.
     andthen (change_attrs n (bt_insert name (bounded_attribute v)) d) (\<lambda>_ d.
       (Inr (), mark_attribute_mutated name v d)))"

definition live_remove_attribute :: "nat \<Rightarrow> ustr \<Rightarrow> 'w live_document \<Rightarrow> (unit, 'w) live_result" where
  "live_remove_attribute n name0 d =
     andthen (checked (normalize_attribute_name name0) d) (\<lambda>name d.
     andthen (change_attrs n (bt_remove name) d) (\<lambda>_ d.
       (Inr (), mark_attribute_mutated name [] d)))"

definition node_attr :: "live_nodes \<Rightarrow> nat \<Rightarrow> ustr \<Rightarrow> ustr option" where
  "node_attr nodes n name =
     (case bt_get n nodes of
        None \<Rightarrow> None
      | Some e \<Rightarrow> (case ln_kind e of LText _ \<Rightarrow> None | LElement t m v \<Rightarrow> bt_get (to_ascii_lowercase name) m))"

definition live_get_attribute :: "nat \<Rightarrow> ustr \<Rightarrow> 'w live_document \<Rightarrow> ustr option" where
  "live_get_attribute n name d = node_attr (ld_nodes d) n name"

definition element_tag :: "nat \<Rightarrow> 'w live_document \<Rightarrow> ustr option" where
  "element_tag n d =
     (case bt_get n (ld_nodes d) of
        None \<Rightarrow> None
      | Some e \<Rightarrow> (case ln_kind e of LText _ \<Rightarrow> None | LElement t m v \<Rightarrow> Some t))"

section \<open>Importing\<close>

fun clear_node_ids :: "element \<Rightarrow> element" where
  "clear_node_ids (Element i t m cs x v) = Element None t m (map clear_node_ids cs) x v"

text \<open>The parser keeps the attributes of an element in a hash map; \<open>order\<close> is the order in which it yields them.\<close>

type_synonym attr_order = "(ustr, ustr) btree \<Rightarrow> (ustr \<times> ustr) list"

definition imported_attrs :: "attr_order \<Rightarrow> (ustr, ustr) btree \<Rightarrow> (ustr, ustr) btree" where
  "imported_attrs order m = fold (\<lambda>(n, w). bt_insert n (bounded_attribute w)) (take MAX_LIVE_ATTRS (order m)) []"

fun import_element :: "attr_order \<Rightarrow> element \<Rightarrow> nat option \<Rightarrow> 'w live_document \<Rightarrow> (nat, 'w) live_result"
and import_children :: "attr_order \<Rightarrow> element list \<Rightarrow> nat \<Rightarrow> 'w live_document \<Rightarrow> (unit, 'w) live_result" where
  "import_element order (Element i t m cs x v) parent d =
     andthen (allocate_preferred (LElement t (imported_attrs order m) v) i d) (\<lambda>n d.
     andthen (case parent of None \<Rightarrow> (Inr (), d) | Some p \<Rightarrow> append_child_without_invalidation p n d) (\<lambda>_ d.
     andthen (if x = [] then (Inr (), d)
              else andthen (allocate_node (LText (bounded_text x)) d) (\<lambda>c. append_child_without_invalidation n c)) (\<lambda>_ d.
     andthen (import_children order cs n d) (\<lambda>_ d. (Inr n, d)))))"
| "import_children order [] p d = (Inr (), d)"
| "import_children order (c # cs) p d = andthen (import_element order c (Some p) d) (\<lambda>_ d. import_children order cs p d)"

definition import_subtree :: "attr_order \<Rightarrow> element \<Rightarrow> 'w live_document \<Rightarrow> (nat, 'w) live_result" where
  "import_subtree order e d = andthen (import_element order (clear_node_ids e) None d) (\<lambda>n d. (Inr n, mark_mutated d))"

definition empty_document :: "'w \<Rightarrow> 'w live_document" where
  "empty_document w =
     \<lparr>ld_root = 1, ld_nodes = [], ld_listeners = [], ld_next_node_id = 1, ld_next_listener_id = 1, ld_focused = None,
      ld_invalidation = invalidate_all, ld_shadows = [], ld_world = w\<rparr>"

text \<open>\<^verbatim>\<open>from_element\<close>, up to the refresh of the retained rendering that ends it; an import that fails leaves
  what it has read.\<close>

definition from_element :: "attr_order \<Rightarrow> element \<Rightarrow> 'w \<Rightarrow> 'w live_document" where
  "from_element order e w =
     (case import_element order e None (empty_document w) of
        (Inl _, d) \<Rightarrow> d
      | (Inr n, d) \<Rightarrow> d\<lparr>ld_root := n\<rparr>)"

end
