(* ===== verification/Live_Tree.thy ===== *)
theory Live_Tree
  imports Live_Dom
begin

text \<open>
  The larger operations of the live document (\<^verbatim>\<open>src/src/live_dom.rs\<close>): text content, fragments and shadow
  roots, cloning, queries, and the export of the composed tree. Walks that follow the links of the store take fuel; the
  amount they are given is shown to suffice for every document whose links form a forest.
\<close>

section \<open>Document order\<close>

text \<open>The stack of \<^verbatim>\<open>document_order\<close>, next node first. \<open>None\<close> is a walk that has run out of fuel.\<close>

fun order_walk :: "nat \<Rightarrow> live_nodes \<Rightarrow> nat list \<Rightarrow> nat list option" where
  "order_walk fuel nodes [] = Some []"
| "order_walk 0 nodes (n # ns) = None"
| "order_walk (Suc fuel) nodes (n # ns) =
     map_option (Cons n) (order_walk fuel nodes
       (case bt_get n nodes of None \<Rightarrow> ns | Some e \<Rightarrow> ln_children e @ ns))"

definition preorder_of :: "live_nodes \<Rightarrow> nat \<Rightarrow> nat list" where
  "preorder_of nodes n = (case order_walk (Suc (length nodes)) nodes [n] of None \<Rightarrow> [] | Some ns \<Rightarrow> ns)"

definition document_order :: "'w live_document \<Rightarrow> nat list" where
  "document_order d = preorder_of (ld_nodes d) (ld_root d)"

section \<open>Text\<close>

definition node_text :: "live_nodes \<Rightarrow> nat \<Rightarrow> ustr" where
  "node_text nodes n =
     (case bt_get n nodes of
        None \<Rightarrow> []
      | Some e \<Rightarrow> (case ln_kind e of LText s \<Rightarrow> s | LElement _ _ _ \<Rightarrow> []))"

text \<open>\<^verbatim>\<open>collect_text\<close> appends the text of the nodes it meets, depth first.\<close>

definition collect_text :: "nat \<Rightarrow> live_nodes \<Rightarrow> ustr" where
  "collect_text n nodes = concat (map (node_text nodes) (preorder_of nodes n))"

definition live_text_content :: "nat \<Rightarrow> 'w live_document \<Rightarrow> error + ustr" where
  "live_text_content n d = ebind (require_node n d) (\<lambda>_. Inr (collect_text n (ld_nodes d)))"

text \<open>Freeing the children of a node and forgetting them.\<close>

definition clear_children :: "nat \<Rightarrow> string \<Rightarrow> live_node \<Rightarrow> 'w live_document \<Rightarrow> (unit, 'w) live_result" where
  "clear_children n msg e d = update_node n msg (\<lambda>e. e\<lparr>ln_children := []\<rparr>) (free_subtrees (ln_children e) d)"

definition set_text_content :: "nat \<Rightarrow> ustr \<Rightarrow> 'w live_document \<Rightarrow> (unit, 'w) live_result" where
  "set_text_content n v d =
     andthen (checked (require_node n d) d) (\<lambda>e d.
       let s = bounded_text v in
       andthen
         (if \<not> is_element_kind (ln_kind e) then update_node n NODE_GONE (\<lambda>e. e\<lparr>ln_kind := LText s\<rparr>) d
          else
            andthen (clear_children n NODE_GONE e d) (\<lambda>_ d.
              if s = [] then (Inr (), d)
              else andthen (create_text_node s d) (\<lambda>c. append_child_without_invalidation n c)))
         (\<lambda>_ d. (Inr (), mark_mutated d)))"

section \<open>Fragments\<close>

fun append_imported :: "attr_order \<Rightarrow> element list \<Rightarrow> nat \<Rightarrow> 'w live_document \<Rightarrow> (unit, 'w) live_result" where
  "append_imported order [] p d = (Inr (), d)"
| "append_imported order (c # cs) p d =
     andthen (import_subtree order c d) (\<lambda>n d.
     andthen (append_child_without_invalidation p n d) (\<lambda>_ d. append_imported order cs p d))"

definition append_parsed_fragment :: "attr_order \<Rightarrow> element \<Rightarrow> nat \<Rightarrow> 'w live_document \<Rightarrow> (unit, 'w) live_result" where
  "append_parsed_fragment order parsed p d =
     andthen (append_imported order
         (if tag parsed \<in> {lit ''root'', lit ''html'', lit ''body''} then children parsed else [parsed]) p d) (\<lambda>_ d.
       if elem_text parsed = [] then (Inr (), d)
       else andthen (create_text_node (elem_text parsed) d) (\<lambda>c. append_child_without_invalidation p c))"

text \<open>What \<^verbatim>\<open>parse_html\<close> gives is computed by its model; \<open>lower\<close> is Unicode's lower case.\<close>

definition set_inner_html ::
  "(ustr \<Rightarrow> ustr) \<Rightarrow> attr_order \<Rightarrow> nat \<Rightarrow> ustr \<Rightarrow> 'w live_document \<Rightarrow> (unit, 'w) live_result" where
  "set_inner_html lower order n html d =
     (if byte_len html > MAX_SHADOW_HTML_BYTES
      then (Inl (Err ''QuotaExceededError: innerHTML markup exceeds 2 MB''), d)
      else
        andthen (checked (require_node n d) d) (\<lambda>e d.
        andthen (clear_children n NODE_GONE e d) (\<lambda>_ d.
        andthen (checked (parse_html lower html) d) (\<lambda>parsed d.
        andthen (append_parsed_fragment order parsed n d) (\<lambda>_ d. (Inr (), mark_mutated d))))))"

section \<open>Shadow roots\<close>

definition SHADOW_TAG :: ustr where "SHADOW_TAG = lit ''shadow-root''"

definition has_tag :: "ustr \<Rightarrow> live_node \<Rightarrow> bool" where
  "has_tag t e \<longleftrightarrow> (case ln_kind e of LElement t' _ _ \<Rightarrow> t' = t | LText _ \<Rightarrow> False)"

definition attach_shadow :: "nat \<Rightarrow> shadow_mode \<Rightarrow> 'w live_document \<Rightarrow> (nat, 'w) live_result" where
  "attach_shadow host mode d =
     (if length (ld_shadows d) \<ge> MAX_SHADOW_ROOTS
      then (Inl (Err ''QuotaExceededError: shadow-root budget exceeded''), d)
      else
        andthen (checked (require_element host d) d) (\<lambda>e d.
          if has_tag SHADOW_TAG e then (Inl (Err ''NotSupportedError: shadow root is not a valid host''), d)
          else if bt_get host (ld_shadows d) \<noteq> None
          then (Inl (Err ''NotSupportedError: host already has a shadow root''), d)
          else
            andthen (allocate_node (LElement SHADOW_TAG [] False) d) (\<lambda>root d.
            andthen (append_child_without_invalidation host root d) (\<lambda>_ d.
              (Inr root, mark_mutated
                (d\<lparr>ld_shadows := bt_insert host \<lparr>sr_host = host, sr_root = root, sr_mode = mode\<rparr> (ld_shadows d)\<rparr>))))))"

text \<open>\<^verbatim>\<open>shadows.values().find(|record| record.root == n)\<close>.\<close>

definition shadow_with_root :: "nat \<Rightarrow> 'w live_document \<Rightarrow> shadow_record option" where
  "shadow_with_root n d = find (\<lambda>r. sr_root r = n) (bt_values (ld_shadows d))"

text \<open>The children of the root are read with an index, which panics when the root is gone.\<close>

definition set_shadow_html ::
  "(ustr \<Rightarrow> ustr) \<Rightarrow> attr_order \<Rightarrow> nat \<Rightarrow> ustr \<Rightarrow> 'w live_document \<Rightarrow> (unit, 'w) live_result" where
  "set_shadow_html lower order root html d =
     (if byte_len html > MAX_SHADOW_HTML_BYTES
      then (Inl (Err ''QuotaExceededError: shadow markup exceeds 2 MB''), d)
      else
        andthen (checked (ok_or (Err ''NotFoundError: node is not a shadow root'') (shadow_with_root root d)) d) (\<lambda>_ d.
        andthen (checked (ok_or (Panic ''no entry found for key'') (bt_get root (ld_nodes d))) d) (\<lambda>e d.
        andthen (clear_children root ''InvalidStateError: shadow root is no longer in the document'' e d) (\<lambda>_ d.
        andthen (checked (parse_html lower html) d) (\<lambda>parsed d.
        andthen (append_parsed_fragment order parsed root d) (\<lambda>_ d. (Inr (), mark_mutated d)))))))"

definition shadow_root :: "nat \<Rightarrow> 'w live_document \<Rightarrow> nat option" where
  "shadow_root host d =
     (case bt_get host (ld_shadows d) of
        None \<Rightarrow> None
      | Some r \<Rightarrow> if sr_mode r = Open then Some (sr_root r) else None)"

definition shadow_root_mode :: "nat \<Rightarrow> 'w live_document \<Rightarrow> shadow_mode option" where
  "shadow_root_mode n d = map_option sr_mode (shadow_with_root n d)"

section \<open>Cloning\<close>

text \<open>A clone allocates a node before it visits the children, so the node budget bounds the recursion; the fuel is one more
  than the budget.\<close>

fun clone_walk :: "nat \<Rightarrow> nat \<Rightarrow> bool \<Rightarrow> 'w live_document \<Rightarrow> (nat, 'w) live_result"
and clone_children :: "nat \<Rightarrow> nat list \<Rightarrow> nat \<Rightarrow> 'w live_document \<Rightarrow> (unit, 'w) live_result" where
  "clone_walk 0 n deep d = (Inl (Panic ''stack overflow''), d)"
| "clone_walk (Suc fuel) n deep d =
     andthen (checked (require_node n d) d) (\<lambda>e d.
     andthen (allocate_node (ln_kind e) d) (\<lambda>clone d.
     andthen (if deep then clone_children fuel (ln_children e) clone d else (Inr (), d)) (\<lambda>_ d.
       (Inr clone, mark_mutated d))))"
| "clone_children fuel [] clone d = (Inr (), d)"
| "clone_children 0 (c # cs) clone d = (Inl (Panic ''stack overflow''), d)"
| "clone_children (Suc fuel) (c # cs) clone d =
     andthen (clone_walk (Suc fuel) c True d) (\<lambda>child d.
     andthen (append_child clone child d) (\<lambda>_ d. clone_children (Suc fuel) cs clone d))"

definition clone_node :: "nat \<Rightarrow> bool \<Rightarrow> 'w live_document \<Rightarrow> (nat, 'w) live_result" where
  "clone_node n deep d = clone_walk (Suc MAX_LIVE_NODES) n deep d"

section \<open>Queries\<close>

definition get_element_by_id :: "ustr \<Rightarrow> 'w live_document \<Rightarrow> nat option" where
  "get_element_by_id i d =
     find (\<lambda>n. case bt_get n (ld_nodes d) of
         None \<Rightarrow> False
       | Some e \<Rightarrow> (case ln_kind e of LText _ \<Rightarrow> False | LElement t m v \<Rightarrow> bt_get (lit ''id'') m = Some i)) (document_order d)"

definition trim_quotes :: "ustr \<Rightarrow> ustr" where
  "trim_quotes s = rev (dropWhile (\<lambda>c. c \<in> {APOS, QUOT}) (rev (dropWhile (\<lambda>c. c \<in> {APOS, QUOT}) s)))"

text \<open>The part between brackets: \<^verbatim>\<open>name\<close> or \<^verbatim>\<open>name=value\<close>.\<close>

definition attribute_holds :: "ustr \<Rightarrow> (ustr, ustr) btree \<Rightarrow> bool" where
  "attribute_holds s m =
     (let name = to_ascii_lowercase (trim (case split_once EQ s of None \<Rightarrow> s | Some (n, _) \<Rightarrow> n))
      in name \<noteq> [] \<and>
         (case split_once EQ s of
            None \<Rightarrow> bt_get name m \<noteq> None
          | Some (_, v) \<Rightarrow> bt_get name m = Some (trim_quotes (trim v))))"

definition class_holds :: "ustr \<Rightarrow> (ustr, ustr) btree \<Rightarrow> bool" where
  "class_holds c m \<longleftrightarrow> (case bt_get (lit ''class'') m of None \<Rightarrow> False | Some cs \<Rightarrow> c \<in> set (split_ascii_whitespace cs))"

text \<open>\<^verbatim>\<open>tag#id.class\<close>, read from the right: a class that follows the identifier is part of the identifier.\<close>

definition base_holds :: "ustr \<Rightarrow> ustr \<Rightarrow> (ustr, ustr) btree \<Rightarrow> bool" where
  "base_holds base t m =
     (case split_once 35 base of
        Some (rest, i) \<Rightarrow> bt_get (lit ''id'') m = Some i \<and>
          (case split_once 46 rest of
             Some (rest, c) \<Rightarrow> class_holds c m \<and> (rest = [] \<or> eq_ignore_ascii_case t rest)
           | None \<Rightarrow> rest = [] \<or> eq_ignore_ascii_case t rest)
      | None \<Rightarrow>
          (case split_once 46 base of
             Some (rest, c) \<Rightarrow> class_holds c m \<and> (rest = [] \<or> eq_ignore_ascii_case t rest)
           | None \<Rightarrow> base = [] \<or> eq_ignore_ascii_case t base))"

definition matches_simple_selector :: "live_nodes \<Rightarrow> nat \<Rightarrow> ustr \<Rightarrow> bool" where
  "matches_simple_selector nodes n selector0 =
     (case bt_get n nodes of
        None \<Rightarrow> False
      | Some e \<Rightarrow>
          (case ln_kind e of
             LText _ \<Rightarrow> False
           | LElement t m v \<Rightarrow>
               let selector = trim selector0 in
               if selector = [] then False
               else case split_once 91 selector of
                 None \<Rightarrow> base_holds selector t m
               | Some (base, rest) \<Rightarrow> ends_with [93] selector \<and> attribute_holds (butlast rest) m \<and> base_holds base t m))"

text \<open>The descendant combinator: for each part, from the right, the nearest ancestor that matches.\<close>

fun nearest_match :: "nat \<Rightarrow> live_nodes \<Rightarrow> ustr \<Rightarrow> nat option \<Rightarrow> nat option" where
  "nearest_match 0 nodes selector current = None"
| "nearest_match (Suc fuel) nodes selector None = None"
| "nearest_match (Suc fuel) nodes selector (Some n) =
     (if matches_simple_selector nodes n selector then Some n
      else nearest_match fuel nodes selector (parent_of nodes n))"

fun path_holds :: "live_nodes \<Rightarrow> ustr list \<Rightarrow> nat option \<Rightarrow> bool" where
  "path_holds nodes [] current = True"
| "path_holds nodes (selector # selectors) current =
     (case nearest_match (Suc (length nodes)) nodes selector current of
        None \<Rightarrow> False
      | Some n \<Rightarrow> path_holds nodes selectors (parent_of nodes n))"

definition matches_selector_path :: "live_nodes \<Rightarrow> ustr list \<Rightarrow> nat \<Rightarrow> bool" where
  "matches_selector_path nodes parts n \<longleftrightarrow>
     matches_simple_selector nodes n (if parts = [] then [] else last parts) \<and>
     path_holds nodes (rev (butlast parts)) (parent_of nodes n)"

definition query_selector_all :: "ustr \<Rightarrow> 'w live_document \<Rightarrow> nat list" where
  "query_selector_all selector d =
     (let parts = split_ascii_whitespace selector
      in if parts = [] \<or> length parts > 8 then [] else filter (matches_selector_path (ld_nodes d) parts) (document_order d))"

definition query_selector :: "ustr \<Rightarrow> 'w live_document \<Rightarrow> nat option" where
  "query_selector selector d = (case query_selector_all selector d of [] \<Rightarrow> None | n # _ \<Rightarrow> Some n)"

section \<open>The composed tree\<close>

definition push_text_to :: "ustr \<Rightarrow> element \<Rightarrow> element" where
  "push_text_to s e = with_text (elem_text e @ s) e"

definition node_shell :: "nat \<Rightarrow> ustr \<Rightarrow> (ustr, ustr) btree \<Rightarrow> bool \<Rightarrow> element" where
  "node_shell n t m v = Element (Some n) t m [] [] v"

text \<open>The light children of a host that a slot of the given name takes.\<close>

definition slot_name :: "live_nodes \<Rightarrow> nat \<Rightarrow> ustr \<Rightarrow> ustr" where
  "slot_name nodes n name = (case node_attr nodes n name of None \<Rightarrow> [] | Some s \<Rightarrow> s)"

definition assigned_nodes :: "live_nodes \<Rightarrow> live_node \<Rightarrow> ustr \<Rightarrow> nat list" where
  "assigned_nodes nodes host name =
     filter (\<lambda>l. \<not> (case bt_get l nodes of None \<Rightarrow> False | Some e \<Rightarrow> has_tag SHADOW_TAG e) \<and> slot_name nodes l (lit ''slot'') = name)
       (ln_children host)"

text \<open>A \<open>None\<close> of the code is the left value; running out of fuel is its own value.\<close>

datatype export_failure = NoElement | OutOfFuel

type_synonym exporter = "nat \<Rightarrow> nat option \<Rightarrow> export_failure + element"

text \<open>One child into an element, a text as text and an element through the exporter; \<^verbatim>\<open>export_into\<close> is the case
  without a host.\<close>

definition export_child :: "exporter \<Rightarrow> 'w live_document \<Rightarrow> nat option \<Rightarrow> nat \<Rightarrow> element \<Rightarrow> export_failure + element" where
  "export_child rec d sh c e =
     ebind (ok_or NoElement (bt_get c (ld_nodes d))) (\<lambda>live.
       case ln_kind live of
         LText s \<Rightarrow> Inr (push_text_to s e)
       | LElement _ _ _ \<Rightarrow> ebind (rec c sh) (\<lambda>x. Inr (add_child x e)))"

fun export_kids :: "exporter \<Rightarrow> 'w live_document \<Rightarrow> nat option \<Rightarrow> nat list \<Rightarrow> element \<Rightarrow> export_failure + element" where
  "export_kids rec d sh [] e = Inr e"
| "export_kids rec d sh (c # cs) e = ebind (export_child rec d sh c e) (export_kids rec d sh cs)"

definition is_slot :: "'w live_document \<Rightarrow> nat \<Rightarrow> bool" where
  "is_slot d n \<longleftrightarrow> element_tag n d = Some (lit ''slot'')"

definition slotted :: "'w live_document \<Rightarrow> nat \<Rightarrow> live_node \<Rightarrow> nat list" where
  "slotted d slot host = assigned_nodes (ld_nodes d) host (slot_name (ld_nodes d) slot (lit ''name''))"

fun export_shadow_children :: "exporter \<Rightarrow> 'w live_document \<Rightarrow> nat \<Rightarrow> nat list \<Rightarrow> element \<Rightarrow> export_failure + element" where
  "export_shadow_children rec d host [] e = Inr e"
| "export_shadow_children rec d host (c # cs) e =
     ebind
       (if is_slot d c then
          ebind (ok_or NoElement (bt_get host (ld_nodes d))) (\<lambda>h.
            export_kids rec d None (if slotted d c h = [] then [c] else slotted d c h) e)
        else export_child rec d (Some host) c e)
       (export_shadow_children rec d host cs)"

primrec export_inner :: "nat \<Rightarrow> 'w live_document \<Rightarrow> exporter" where
  "export_inner 0 d n sh = Inl OutOfFuel"
| "export_inner (Suc fuel) d n sh =
     ebind (ok_or NoElement (bt_get n (ld_nodes d))) (\<lambda>live.
       case ln_kind live of
         LText _ \<Rightarrow> Inl NoElement
       | LElement t m v \<Rightarrow>
           let e = node_shell n t m v in
           if sh \<noteq> None \<and> t = lit ''slot'' then
             ebind (ok_or NoElement (bt_get (the sh) (ld_nodes d))) (\<lambda>host.
               export_kids (export_inner fuel d) d None (if slotted d n host = [] then ln_children live else slotted d n host) e)
           else (case bt_get n (ld_shadows d) of
               Some shadow \<Rightarrow>
                 ebind (ok_or NoElement (bt_get (sr_root shadow) (ld_nodes d))) (\<lambda>root.
                   export_shadow_children (export_inner fuel d) d n (ln_children root) e)
             | None \<Rightarrow>
                 if t = SHADOW_TAG then Inl NoElement
                 else export_kids (export_inner fuel d) d sh (ln_children live) e))"

text \<open>The fuel: a slot moves from below a host to a light child of the host, so the subtree of the host shrinks.\<close>

definition export_fuel :: "'w live_document \<Rightarrow> nat" where
  "export_fuel d = Suc (length (ld_nodes d)) * Suc (length (ld_nodes d))"

definition export_element :: "nat \<Rightarrow> 'w live_document \<Rightarrow> element option" where
  "export_element n d = (case export_inner (export_fuel d) d n None of Inl _ \<Rightarrow> None | Inr e \<Rightarrow> Some e)"

definition to_element :: "'w live_document \<Rightarrow> element" where
  "to_element d = (case export_element (ld_root d) d of None \<Rightarrow> new_element (lit ''root'') | Some e \<Rightarrow> e)"

section \<open>Inner HTML\<close>

definition escape_html_text :: "ustr \<Rightarrow> ustr" where
  "escape_html_text v = replace_char GT (lit ''&gt;'') (replace_char LT (lit ''&lt;'') (replace_char AMP (lit ''&amp;'') v))"

definition escape_html_attr_value :: "ustr \<Rightarrow> ustr" where
  "escape_html_attr_value v = replace_char QUOT (lit ''&quot;'') (escape_html_text v)"

definition compact_attr :: "ustr \<times> ustr \<Rightarrow> ustr" where
  "compact_attr = (\<lambda>(n, v). [32] @ escape_html_text n @ [EQ, QUOT] @ escape_html_attr_value v @ [QUOT])"

fun compact_element_html :: "attr_order \<Rightarrow> element \<Rightarrow> ustr" where
  "compact_element_html order (Element i t m cs x v) =
     [LT] @ t @ concat (map compact_attr (order m)) @ [GT] @
     (if v then []
      else (if x = [] then [] else escape_html_text x) @ concat (map (compact_element_html order) cs) @
           lit ''</'' @ t @ [GT])"

definition compact_children_html :: "attr_order \<Rightarrow> element \<Rightarrow> ustr" where
  "compact_children_html order e =
     (if elem_text e = [] then [] else escape_html_text (elem_text e)) @ concat (map (compact_element_html order) (children e))"

definition inner_html :: "attr_order \<Rightarrow> nat \<Rightarrow> 'w live_document \<Rightarrow> error + ustr" where
  "inner_html order n d =
     ebind (ok_or (Err NODE_GONE) (export_element n d)) (\<lambda>e. Inr (compact_children_html order e))"

end
