(* ===== verification/Live_Events.thy ===== *)
theory Live_Events
  imports Live_Tree
begin

text \<open>
  Events of the live document (\<^verbatim>\<open>src/src/live_dom.rs\<close>): listeners, dispatch along the path of the target,
  retargeting at shadow roots, focus, and the default actions of clicks and keys.
\<close>

section \<open>Events\<close>

definition new_event :: "ustr \<Rightarrow> nat \<Rightarrow> dom_event" where
  "new_event t target =
     \<lparr>de_type = t, de_target = target, de_current_target = None, de_phase = NoPhase, de_bubbles = True, de_cancelable = True,
      de_default_prevented = False, de_propagation_stopped = False, de_immediate_stopped = False, de_key = None,
      de_pointer_x = None, de_pointer_y = None, de_detail = None, de_passive_listener = False\<rparr>"

definition with_detail :: "ustr \<Rightarrow> dom_event \<Rightarrow> dom_event" where
  "with_detail s ev = ev\<lparr>de_detail := Some s\<rparr>"

definition prevent_default :: "dom_event \<Rightarrow> dom_event" where
  "prevent_default ev = (if de_cancelable ev \<and> \<not> de_passive_listener ev then ev\<lparr>de_default_prevented := True\<rparr> else ev)"

definition stop_propagation :: "dom_event \<Rightarrow> dom_event" where
  "stop_propagation ev = ev\<lparr>de_propagation_stopped := True\<rparr>"

definition stop_immediate_propagation :: "dom_event \<Rightarrow> dom_event" where
  "stop_immediate_propagation ev = ev\<lparr>de_immediate_stopped := True, de_propagation_stopped := True\<rparr>"

section \<open>Listeners\<close>

definition listener_count :: "'w live_document \<Rightarrow> nat" where
  "listener_count d = sum_list (map length (bt_values (ld_listeners d)))"

definition add_event_listener ::
  "nat \<Rightarrow> ustr \<Rightarrow> listener_options \<Rightarrow> (dom_event \<Rightarrow> 'w \<Rightarrow> dom_event \<times> 'w) \<Rightarrow> 'w live_document \<Rightarrow> (nat, 'w) live_result" where
  "add_event_listener n t0 options callback d =
     andthen (checked (require_node n d) d) (\<lambda>_ d.
       if listener_count d \<ge> MAX_EVENT_LISTENERS then (Inl (Err ''QuotaExceededError: event listener budget exceeded''), d)
       else
         andthen (checked (normalize_event_type t0) d) (\<lambda>t d.
           case checked_add (ld_next_listener_id d) 1 of
             None \<Rightarrow> (Inl (Err ''Event listener identifier space exhausted''), d)
           | Some next \<Rightarrow>
               let here = (case bt_get n (ld_listeners d) of None \<Rightarrow> [] | Some ls \<Rightarrow> ls);
                   l = \<lparr>li_id = ld_next_listener_id d, li_type = t, li_options = options, li_callback = callback\<rparr>
               in (Inr (ld_next_listener_id d),
                   d\<lparr>ld_next_listener_id := next, ld_listeners := bt_insert n (here @ [l]) (ld_listeners d)\<rparr>)))"

definition remove_event_listener :: "nat \<Rightarrow> nat \<Rightarrow> 'w live_document \<Rightarrow> bool \<times> 'w live_document" where
  "remove_event_listener n i d =
     (case bt_get n (ld_listeners d) of
        None \<Rightarrow> (False, d)
      | Some ls \<Rightarrow>
          let ls' = filter (\<lambda>l. li_id l \<noteq> i) ls
          in (length ls \<noteq> length ls', d\<lparr>ld_listeners := bt_insert n ls' (ld_listeners d)\<rparr>))"

section \<open>Dispatch\<close>

datatype default_action =
    ToggleChecked nat bool
  | SubmitForm nat
  | Navigate ustr
  | FocusNode nat
  | InsertText nat ustr
  | SelectOption nat

record dispatch_report =
  dr_invoked :: nat
  dr_default_prevented :: bool
  dr_default_actions :: "default_action list"

definition no_report :: dispatch_report where
  "no_report = \<lparr>dr_invoked = 0, dr_default_prevented = False, dr_default_actions = []\<rparr>"

text \<open>The path from the target to its root, refused beyond the limit.\<close>

fun path_walk :: "nat \<Rightarrow> live_nodes \<Rightarrow> bool \<Rightarrow> nat option \<Rightarrow> error + nat list" where
  "path_walk k nodes strict None = Inr []"
| "path_walk 0 nodes strict (Some n) = Inl (Err ''QuotaExceededError: event path depth exceeded'')"
| "path_walk (Suc k) nodes strict (Some n) =
     (if strict \<and> bt_get n nodes = None then Inl (Err ''NotFoundError: node does not belong to this document'')
      else ebind (path_walk k nodes strict (parent_of nodes n)) (\<lambda>ns. Inr (n # ns)))"

definition event_path :: "nat \<Rightarrow> 'w live_document \<Rightarrow> error + nat list" where
  "event_path target d = path_walk MAX_EVENT_PATH (ld_nodes d) True (Some target)"

definition composed_path :: "nat \<Rightarrow> 'w live_document \<Rightarrow> error + nat list" where
  "composed_path target d = path_walk MAX_EVENT_PATH (ld_nodes d) False (Some target)"

text \<open>The walk of \<^verbatim>\<open>effective_target\<close> from the target up to \<open>current\<close>; the last host crossed is what is observed.\<close>

fun retarget_walk :: "nat \<Rightarrow> 'w live_document \<Rightarrow> nat \<Rightarrow> nat \<Rightarrow> nat option \<Rightarrow> nat" where
  "retarget_walk 0 d current observed cursor = observed"
| "retarget_walk (Suc fuel) d current observed None = observed"
| "retarget_walk (Suc fuel) d current observed (Some n) =
     (if n = current then observed
      else retarget_walk fuel d current (case shadow_with_root n d of None \<Rightarrow> observed | Some r \<Rightarrow> sr_host r)
             (parent_of (ld_nodes d) n))"

definition effective_target :: "nat \<Rightarrow> nat \<Rightarrow> 'w live_document \<Rightarrow> nat" where
  "effective_target target current d = retarget_walk (Suc (length (ld_nodes d))) d current target (Some target)"

text \<open>The loop of \<^verbatim>\<open>invoke_listeners\<close> over the listeners that match.\<close>

definition call_listener :: "nat \<Rightarrow> event_phase \<Rightarrow> 'w event_listener \<Rightarrow> dom_event \<Rightarrow> 'w \<Rightarrow> dom_event \<times> 'w" where
  "call_listener n phase l ev w =
     (case li_callback l (ev\<lparr>de_current_target := Some n, de_phase := phase, de_passive_listener := lo_passive (li_options l)\<rparr>) w of
        (ev', w') \<Rightarrow> (ev'\<lparr>de_passive_listener := False\<rparr>, w'))"

fun run_listeners ::
  "nat \<Rightarrow> event_phase \<Rightarrow> 'w event_listener list \<Rightarrow> dom_event \<Rightarrow> 'w \<Rightarrow> nat \<Rightarrow> nat set \<Rightarrow> dom_event \<times> 'w \<times> nat \<times> nat set" where
  "run_listeners n phase [] ev w invoked once = (ev, w, invoked, once)"
| "run_listeners n phase (l # ls) ev w invoked once =
     (case call_listener n phase l ev w of
        (ev', w') \<Rightarrow>
          let once' = (if lo_once (li_options l) then insert (li_id l) once else once)
          in if de_immediate_stopped ev' then (ev', w', sat_add invoked 1, once')
             else run_listeners n phase ls ev' w' (sat_add invoked 1) once')"

definition matching_listeners :: "nat \<Rightarrow> ustr \<Rightarrow> bool \<Rightarrow> 'w live_document \<Rightarrow> 'w event_listener list" where
  "matching_listeners n t capture d =
     (case bt_get n (ld_listeners d) of
        None \<Rightarrow> []
      | Some ls \<Rightarrow> filter (\<lambda>l. li_type l = t \<and> lo_capture (li_options l) = capture) ls)"

type_synonym 'w dispatch = "dom_event \<times> dispatch_report \<times> 'w live_document"

definition invoke_listeners :: "nat \<Rightarrow> event_phase \<Rightarrow> bool \<Rightarrow> 'w dispatch \<Rightarrow> 'w dispatch" where
  "invoke_listeners n phase capture = (\<lambda>(ev, rep, d).
     (case run_listeners n phase (matching_listeners n (de_type ev) capture d) ev (ld_world d) (dr_invoked rep) {} of
        (ev', w', invoked, once) \<Rightarrow>
          (ev'\<lparr>de_immediate_stopped := False\<rparr>, rep\<lparr>dr_invoked := invoked\<rparr>,
           d\<lparr>ld_world := w',
             ld_listeners :=
               (if once = {} then ld_listeners d
                else case bt_get n (ld_listeners d) of
                  None \<Rightarrow> ld_listeners d
                | Some ls \<Rightarrow> bt_insert n (filter (\<lambda>l. li_id l \<notin> once) ls) (ld_listeners d))\<rparr>)))"

definition stopped :: "'w dispatch \<Rightarrow> bool" where
  "stopped = (\<lambda>(ev, rep, d). de_propagation_stopped ev)"

text \<open>A pass over the ancestors, left as soon as propagation is stopped.\<close>

fun dispatch_pass :: "event_phase \<Rightarrow> bool \<Rightarrow> nat list \<Rightarrow> 'w dispatch \<Rightarrow> 'w dispatch" where
  "dispatch_pass phase capture [] s = s"
| "dispatch_pass phase capture (n # ns) s =
     (let s' = invoke_listeners n phase capture s in if stopped s' then s' else dispatch_pass phase capture ns s')"

definition dispatch_at_target :: "nat \<Rightarrow> 'w dispatch \<Rightarrow> 'w dispatch" where
  "dispatch_at_target target s =
     (let s' = invoke_listeners target AtTarget True s
      in if \<not> de_immediate_stopped (fst s') then invoke_listeners target AtTarget False s' else s')"

definition finish_report :: "'w dispatch \<Rightarrow> (error + dispatch_report) \<times> dom_event \<times> 'w live_document" where
  "finish_report = (\<lambda>(ev, rep, d). (Inr (rep\<lparr>dr_default_prevented := de_default_prevented ev\<rparr>), ev, d))"

text \<open>A pass of no ancestors cannot stop the dispatch, whatever the event says when it is given.\<close>

definition dispatch_event :: "nat \<Rightarrow> dom_event \<Rightarrow> 'w live_document \<Rightarrow> (error + dispatch_report) \<times> dom_event \<times> 'w live_document" where
  "dispatch_event target ev d =
     (case require_node target d of
        Inl e \<Rightarrow> (Inl e, ev, d)
      | Inr _ \<Rightarrow>
          if de_target ev \<noteq> target
          then (Inl (Err ''InvalidStateError: event target does not match dispatch target''), ev, d)
          else case event_path target d of
            Inl e \<Rightarrow> (Inl e, ev, d)
          | Inr path \<Rightarrow>
              let s1 = dispatch_pass Capturing True (rev (tl path)) (ev, no_report, d) in
              if tl path \<noteq> [] \<and> stopped s1 then finish_report s1
              else
                let s2 = dispatch_at_target target s1;
                    s3 = (if de_bubbles (fst s2) \<and> \<not> stopped s2 then dispatch_pass Bubbling False (tl path) s2 else s2)
                in case s3 of (ev', rep, d') \<Rightarrow> finish_report (ev'\<lparr>de_current_target := None, de_phase := NoPhase\<rparr>, rep, d'))"

text \<open>A dispatch whose event is dropped.\<close>

definition dispatch_new :: "nat \<Rightarrow> dom_event \<Rightarrow> 'w live_document \<Rightarrow> (dispatch_report, 'w) live_result" where
  "dispatch_new target ev d = (case dispatch_event target ev d of (r, _, d') \<Rightarrow> (r, d'))"

section \<open>Focus\<close>

text \<open>\<^verbatim>\<open>iter().position\<close>.\<close>

primrec find_index :: "('a \<Rightarrow> bool) \<Rightarrow> 'a list \<Rightarrow> nat option" where
  "find_index P [] = None"
| "find_index P (x # xs) = (if P x then Some 0 else map_option Suc (find_index P xs))"

definition has_attr :: "nat \<Rightarrow> string \<Rightarrow> 'w live_document \<Rightarrow> bool" where
  "has_attr n name d \<longleftrightarrow> live_get_attribute n (lit name) d \<noteq> None"

definition attr_or :: "string \<Rightarrow> nat \<Rightarrow> string \<Rightarrow> 'w live_document \<Rightarrow> ustr" where
  "attr_or other n name d = (case live_get_attribute n (lit name) d of None \<Rightarrow> lit other | Some v \<Rightarrow> v)"

definition tag_is :: "nat \<Rightarrow> string \<Rightarrow> 'w live_document \<Rightarrow> bool" where
  "tag_is n t d \<longleftrightarrow> element_tag n d = Some (lit t)"

definition is_focusable :: "nat \<Rightarrow> 'w live_document \<Rightarrow> bool" where
  "is_focusable n d \<longleftrightarrow>
     (if has_attr n ''disabled'' d then False
      else if bt_get n (ld_shadows d) \<noteq> None then True
      else if list_ex (\<lambda>t. tag_is n t d) [''input'', ''textarea'', ''select'', ''button''] then True
      else if tag_is n ''a'' d then has_attr n ''href'' d
      else has_attr n ''tabindex'' d)"

definition is_text_entry :: "nat \<Rightarrow> 'w live_document \<Rightarrow> bool" where
  "is_text_entry n d \<longleftrightarrow>
     tag_is n ''textarea'' d \<or>
     tag_is n ''input'' d \<and>
     \<not> (case live_get_attribute n (lit ''type'') d of
          None \<Rightarrow> False
        | Some t \<Rightarrow> t \<in> {lit ''checkbox'', lit ''radio'', lit ''submit'', lit ''button''})"

definition focus :: "nat \<Rightarrow> 'w live_document \<Rightarrow> (unit, 'w) live_result" where
  "focus n d =
     andthen (checked (require_node n d) d) (\<lambda>_ d.
       if \<not> is_focusable n d then (Inl (Err ''InvalidStateError: node is not focusable''), d)
       else if ld_focused d = Some n then (Inr (), d)
       else
         andthen
           (case ld_focused d of
              None \<Rightarrow> (Inr (), d)
            | Some previous \<Rightarrow>
                andthen (dispatch_new previous ((new_event (lit ''blur'') previous)\<lparr>de_bubbles := False\<rparr>) d) (\<lambda>_ d.
                andthen (dispatch_new previous (new_event (lit ''focusout'') previous) d) (\<lambda>_ d. (Inr (), d))))
           (\<lambda>_ d.
             andthen (dispatch_new n ((new_event (lit ''focus'') n)\<lparr>de_bubbles := False\<rparr>) (d\<lparr>ld_focused := Some n\<rparr>)) (\<lambda>_ d.
             andthen (dispatch_new n (new_event (lit ''focusin'') n) d) (\<lambda>_ d. (Inr (), d)))))"

definition next_focusable :: "nat \<Rightarrow> 'w live_document \<Rightarrow> nat option" where
  "next_focusable current d =
     (let candidates = filter (\<lambda>n. is_focusable n d) (document_order d)
      in case find_index (\<lambda>n. n = current) candidates of
           None \<Rightarrow> None
         | Some i \<Rightarrow> get_at candidates ((i + 1) mod length candidates))"

section \<open>Default actions\<close>

fun closest_walk :: "nat \<Rightarrow> 'w live_document \<Rightarrow> ustr \<Rightarrow> nat option \<Rightarrow> nat option" where
  "closest_walk 0 d t current = None"
| "closest_walk (Suc fuel) d t None = None"
| "closest_walk (Suc fuel) d t (Some n) =
     (if element_tag n d = Some t then Some n else closest_walk fuel d t (parent_of (ld_nodes d) n))"

definition closest_tag :: "nat \<Rightarrow> ustr \<Rightarrow> 'w live_document \<Rightarrow> nat option" where
  "closest_tag n t d = closest_walk (Suc (length (ld_nodes d))) d t (Some n)"

fun remove_attribute_from :: "nat list \<Rightarrow> ustr \<Rightarrow> 'w live_document \<Rightarrow> (unit, 'w) live_result" where
  "remove_attribute_from [] name d = (Inr (), d)"
| "remove_attribute_from (n # ns) name d =
     andthen (live_remove_attribute n name d) (\<lambda>_ d. remove_attribute_from ns name d)"

text \<open>The other radio buttons of the group. Clearing them does not change which nodes are in the group.\<close>

definition in_radio_group :: "nat \<Rightarrow> nat \<Rightarrow> 'w live_document \<Rightarrow> bool" where
  "in_radio_group target n d \<longleftrightarrow>
     tag_is n ''input'' d \<and> live_get_attribute n (lit ''type'') d = Some (lit ''radio'') \<and>
     attr_or '''' n ''name'' d = attr_or '''' target ''name'' d \<and>
     closest_tag n (lit ''form'') d = closest_tag target (lit ''form'') d"

fun clear_radios :: "nat \<Rightarrow> ustr \<Rightarrow> nat option \<Rightarrow> nat list \<Rightarrow> 'w live_document \<Rightarrow> (unit, 'w) live_result" where
  "clear_radios target name form [] d = (Inr (), d)"
| "clear_radios target name form (n # ns) d =
     andthen
       (if n \<noteq> target \<and> tag_is n ''input'' d \<and> live_get_attribute n (lit ''type'') d = Some (lit ''radio'') \<and>
           attr_or '''' n ''name'' d = name \<and> closest_tag n (lit ''form'') d = form
        then live_remove_attribute n (lit ''checked'') d else (Inr (), d))
       (\<lambda>_ d. clear_radios target name form ns d)"

definition activate_radio :: "nat \<Rightarrow> 'w live_document \<Rightarrow> (unit, 'w) live_result" where
  "activate_radio target d =
     andthen (clear_radios target (attr_or '''' target ''name'' d) (closest_tag target (lit ''form'') d) (document_order d) d)
       (\<lambda>_ d. live_set_attribute target (lit ''checked'') [] d)"

definition submit_closest :: "nat \<Rightarrow> 'w live_document \<Rightarrow> (default_action list, 'w) live_result" where
  "submit_closest target d =
     (case closest_tag target (lit ''form'') d of
        None \<Rightarrow> (Inr [], d)
      | Some form \<Rightarrow>
          andthen (live_set_attribute form (lit ''data-ghita-submitted'') (lit ''true'') d) (\<lambda>_ d. (Inr [SubmitForm form], d)))"

definition focus_action :: "nat \<Rightarrow> 'w live_document \<Rightarrow> (default_action list, 'w) live_result" where
  "focus_action target d = andthen (focus target d) (\<lambda>_ d. (Inr [FocusNode target], d))"

definition select_options :: "nat \<Rightarrow> 'w live_document \<Rightarrow> nat list" where
  "select_options target d = filter (\<lambda>n. is_ancestor target n d \<and> tag_is n ''option'' d) (document_order d)"

definition next_option :: "nat list \<Rightarrow> 'w live_document \<Rightarrow> nat" where
  "next_option options d =
     (let current = (case find_index (\<lambda>n. has_attr n ''selected'' d) options of None \<Rightarrow> 0 | Some i \<Rightarrow> i)
      in options ! ((current + 1) mod length options))"

definition advance_select :: "nat \<Rightarrow> 'w live_document \<Rightarrow> (default_action list, 'w) live_result" where
  "advance_select target d =
     (let options = select_options target d in
      if options = [] then (Inr [], d)
      else
        let next = next_option options d in
        andthen (remove_attribute_from options (lit ''selected'') d) (\<lambda>_ d.
        andthen (live_set_attribute next (lit ''selected'') [] d) (\<lambda>_ d. (Inr [SelectOption next], d))))"

definition toggle_checkbox :: "nat \<Rightarrow> 'w live_document \<Rightarrow> (default_action list, 'w) live_result" where
  "toggle_checkbox target d =
     (let checked = \<not> has_attr target ''checked'' d in
      andthen (if checked then live_set_attribute target (lit ''checked'') [] d
               else live_remove_attribute target (lit ''checked'') d)
        (\<lambda>_ d. (Inr [ToggleChecked target checked], d)))"

definition apply_click_default :: "nat \<Rightarrow> 'w live_document \<Rightarrow> (default_action list, 'w) live_result" where
  "apply_click_default target d =
     (if tag_is target ''input'' d then
        let t = attr_or ''text'' target ''type'' d in
        if t = lit ''checkbox'' then toggle_checkbox target d
        else if t = lit ''radio'' then andthen (activate_radio target d) (\<lambda>_ d. (Inr [ToggleChecked target True], d))
        else if t = lit ''submit'' then submit_closest target d
        else focus_action target d
      else if tag_is target ''button'' d then
        if attr_or ''submit'' target ''type'' d = lit ''submit'' then submit_closest target d else focus_action target d
      else if tag_is target ''select'' d then advance_select target d
      else if tag_is target ''a'' d then
        (case live_get_attribute target (lit ''href'') d of None \<Rightarrow> (Inr [], d) | Some href \<Rightarrow> (Inr [Navigate href], d))
      else (Inr [], d))"

text \<open>The report, with the default actions added when the event was not prevented.\<close>

definition click :: "nat \<Rightarrow> 'w live_document \<Rightarrow> (dispatch_report, 'w) live_result" where
  "click target d =
     (case dispatch_event target (new_event (lit ''click'') target) d of
        (Inl e, _, d) \<Rightarrow> (Inl e, d)
      | (Inr rep, ev, d) \<Rightarrow>
          if de_default_prevented ev then (Inr rep, d)
          else andthen (apply_click_default target d) (\<lambda>actions d.
            (Inr (rep\<lparr>dr_default_actions := dr_default_actions rep @ actions\<rparr>), d)))"

definition insert_key :: "nat \<Rightarrow> ustr \<Rightarrow> 'w live_document \<Rightarrow> (unit, 'w) live_result" where
  "insert_key target k d =
     (if tag_is target ''textarea'' d
      then set_text_content target ((case live_text_content target d of Inl _ \<Rightarrow> [] | Inr s \<Rightarrow> s) @ k) d
      else live_set_attribute target (lit ''value'') (attr_or '''' target ''value'' d @ k) d)"

definition apply_key_default :: "nat \<Rightarrow> ustr \<Rightarrow> 'w live_document \<Rightarrow> (default_action list, 'w) live_result" where
  "apply_key_default target k d =
     (if k = lit ''Tab'' then
        (case next_focusable target d of None \<Rightarrow> (Inr [], d) | Some next \<Rightarrow> focus_action next d)
      else if k \<in> {lit ''Enter'', lit '' ''} \<and> is_focusable target d then
        andthen (click target d) (\<lambda>rep d. (Inr (dr_default_actions rep), d))
      else if length k = 1 \<and> is_text_entry target d then
        andthen (insert_key target k d) (\<lambda>_ d.
        andthen (dispatch_new target (new_event (lit ''input'') target) d) (\<lambda>_ d. (Inr [InsertText target k], d)))
      else (Inr [], d))"

definition dispatch_keyboard :: "ustr \<Rightarrow> ustr \<Rightarrow> 'w live_document \<Rightarrow> (dispatch_report, 'w) live_result" where
  "dispatch_keyboard t k d =
     (let target = (case ld_focused d of None \<Rightarrow> ld_root d | Some n \<Rightarrow> n) in
      case dispatch_event target ((new_event t target)\<lparr>de_key := Some (take 128 k)\<rparr>) d of
        (Inl e, _, d) \<Rightarrow> (Inl e, d)
      | (Inr rep, ev, d) \<Rightarrow>
          if t = lit ''keydown'' \<and> \<not> de_default_prevented ev then
            andthen (apply_key_default target k d) (\<lambda>actions d.
              (Inr (rep\<lparr>dr_default_actions := dr_default_actions rep @ actions\<rparr>), d))
          else (Inr rep, d))"

end
