(* ===== verification/Live_Forest.thy ===== *)
theory Live_Forest
  imports Live_Tree
begin

text \<open>
  The links of the live document form a forest: every child names its parent, every parent lists the child once, no node is its own
  ancestor. This theory has the forest, the reach of the walks over it, and the effect on it of linking, unlinking and freeing.
\<close>

section \<open>Links\<close>

definition links :: "live_nodes \<Rightarrow> (nat \<times> nat) set" where
  "links nodes = {(c, p). parent_of nodes c = Some p}"

definition kids :: "live_nodes \<Rightarrow> nat \<Rightarrow> nat list" where
  "kids nodes n = (case bt_get n nodes of None \<Rightarrow> [] | Some e \<Rightarrow> ln_children e)"

definition kid_rel :: "live_nodes \<Rightarrow> (nat \<times> nat) set" where
  "kid_rel nodes = {(n, c). c \<in> set (kids nodes n)}"

definition below :: "live_nodes \<Rightarrow> nat list \<Rightarrow> nat set" where
  "below nodes ns = (kid_rel nodes)\<^sup>* `` set ns"

definition node_ok :: "live_nodes \<Rightarrow> nat \<Rightarrow> live_node \<Rightarrow> bool" where
  "node_ok nodes n e \<longleftrightarrow>
     ln_id e = n \<and> distinct (ln_children e) \<and> (ln_children e \<noteq> [] \<longrightarrow> is_element_kind (ln_kind e)) \<and>
     (\<forall>c\<in>set (ln_children e). parent_of nodes c = Some n) \<and>
     (\<forall>p. ln_parent e = Some p \<longrightarrow> n \<in> set (kids nodes p))"

definition forest_ok :: "live_nodes \<Rightarrow> bool" where
  "forest_ok nodes \<longleftrightarrow> bt_ok nodes \<and> acyclic (links nodes) \<and> (\<forall>n e. bt_get n nodes = Some e \<longrightarrow> node_ok nodes n e)"

lemma forest_node: "forest_ok nodes \<Longrightarrow> bt_get n nodes = Some e \<Longrightarrow> node_ok nodes n e"
  by (simp add: forest_ok_def)

lemma parent_of_insert: "parent_of (bt_insert n e nodes) m = (if m = n then ln_parent e else parent_of nodes m)"
  by (simp add: parent_of_def bt_get_insert)

lemma kids_insert: "kids (bt_insert n e nodes) m = (if m = n then ln_children e else kids nodes m)"
  by (simp add: kids_def bt_get_insert)

lemma kids_live: "c \<in> set (kids nodes n) \<Longrightarrow> \<exists>e. bt_get n nodes = Some e \<and> ln_children e = kids nodes n"
  by (cases "bt_get n nodes") (simp_all add: kids_def)

lemma parent_live: "parent_of nodes c = Some p \<Longrightarrow> \<exists>e. bt_get c nodes = Some e \<and> ln_parent e = Some p"
  by (cases "bt_get c nodes") (simp_all add: parent_of_def)

lemma forest_kid_parent:
  assumes "forest_ok nodes"
  shows "c \<in> set (kids nodes p) \<longleftrightarrow> parent_of nodes c = Some p"
proof
  assume "c \<in> set (kids nodes p)"
  then show "parent_of nodes c = Some p"
    using kids_live forest_node [OF assms] unfolding node_ok_def by metis
next
  assume "parent_of nodes c = Some p"
  then show "c \<in> set (kids nodes p)"
    using parent_live forest_node [OF assms] unfolding node_ok_def by metis
qed

lemma kid_rel_links: "forest_ok nodes \<Longrightarrow> kid_rel nodes = (links nodes)\<inverse>"
  by (auto simp: kid_rel_def links_def forest_kid_parent)

lemma kid_rel_acyclic: "forest_ok nodes \<Longrightarrow> acyclic (kid_rel nodes)"
  by (simp add: kid_rel_links acyclic_converse) (simp add: forest_ok_def)

lemma not_below_kid:
  assumes "forest_ok nodes" and "c \<in> set (kids nodes n)"
  shows "n \<notin> below nodes [c]"
proof
  assume "n \<in> below nodes [c]"
  then have "(c, n) \<in> (kid_rel nodes)\<^sup>*" by (simp add: below_def)
  moreover have "(n, c) \<in> kid_rel nodes" using assms(2) by (simp add: kid_rel_def)
  ultimately have "(n, n) \<in> (kid_rel nodes)\<^sup>+" by (rule rtrancl_into_trancl2 [rotated])
  then show False using kid_rel_acyclic [OF assms(1)] by (simp add: acyclic_def)
qed

section \<open>The reach of a walk\<close>

lemma below_Nil [simp]: "below nodes [] = {}"
  by (simp add: below_def)

lemma below_append: "below nodes (ms @ ns) = below nodes ms \<union> below nodes ns"
  by (simp add: below_def Image_Un)

lemma below_Cons: "below nodes (n # ns) = insert n (below nodes (kids nodes n @ ns))"
proof -
  have "(kid_rel nodes)\<^sup>* `` {n} = insert n ((kid_rel nodes)\<^sup>* `` set (kids nodes n))"
    by (auto simp: kid_rel_def elim: converse_rtranclE intro: converse_rtrancl_into_rtrancl)
  then show ?thesis by (simp add: below_def Image_Un Un_assoc insert_is_Un [of n "set ns"] flip: Un_insert_left)
qed

lemma below_self: "n \<in> below nodes [n]"
  by (simp add: below_def)

lemma below_set: "below nodes ns = (\<Union>n\<in>set ns. below nodes [n])"
  by (auto simp: below_def)

lemma below_closed: "m \<in> below nodes ns \<Longrightarrow> c \<in> set (kids nodes m) \<Longrightarrow> c \<in> below nodes ns"
  by (auto simp: below_def kid_rel_def intro: rtrancl_into_rtrancl)

lemma below_trans: "m \<in> below nodes [n] \<Longrightarrow> below nodes [m] \<subseteq> below nodes [n]"
  by (auto simp: below_def)

lemma below_least:
  assumes "set ns \<subseteq> S" and "\<And>m c. m \<in> S \<Longrightarrow> c \<in> set (kids nodes m) \<Longrightarrow> c \<in> S"
  shows "below nodes ns \<subseteq> S"
proof
  fix x assume "x \<in> below nodes ns"
  then obtain n where n: "n \<in> S" and "(n, x) \<in> (kid_rel nodes)\<^sup>*" using assms(1) by (auto simp: below_def)
  from this(2) show "x \<in> S" by (induction rule: rtrancl_induct) (auto simp: kid_rel_def n assms(2))
qed

lemma below_live:
  assumes "forest_ok nodes"
  shows "below nodes ns \<subseteq> set ns \<union> fst ` set nodes"
proof (rule below_least)
  fix m c assume "c \<in> set (kids nodes m)"
  then have "parent_of nodes c = Some m" using forest_kid_parent [OF assms] by simp
  then show "c \<in> set ns \<union> fst ` set nodes" using parent_live bt_get_SomeD by force
qed simp

lemma finite_below: "forest_ok nodes \<Longrightarrow> finite (below nodes ns)"
  by (rule finite_subset [OF below_live]) simp_all

section \<open>Freeing\<close>

lemma kids_remove: "kids (bt_remove n nodes) m = (if m = n then [] else kids nodes m)"
  by (simp add: kids_def bt_get_remove)

lemma below_remove: "below nodes (n # ns) = insert n (below (bt_remove n nodes) (kids nodes n @ ns))"
proof
  show "below nodes (n # ns) \<subseteq> insert n (below (bt_remove n nodes) (kids nodes n @ ns))" (is "_ \<subseteq> ?S")
  proof (rule below_least)
    show "set (n # ns) \<subseteq> ?S" by (auto simp: below_set [of _ "_ @ _"] intro: below_self)
  next
    fix m c assume m: "m \<in> ?S" and c: "c \<in> set (kids nodes m)"
    show "c \<in> ?S"
    proof (cases "m = n")
      case True
      with c show ?thesis by (auto simp: below_set [of _ "_ @ _"] intro: below_self)
    next
      case False
      with m have "m \<in> below (bt_remove n nodes) (kids nodes n @ ns)" by simp
      then have "c \<in> below (bt_remove n nodes) (kids nodes n @ ns)" by (rule below_closed) (simp add: kids_remove False c)
      then show ?thesis by simp
    qed
  qed
next
  have "below (bt_remove n nodes) (kids nodes n @ ns) \<subseteq> below nodes (n # ns)"
  proof (rule below_least)
    show "set (kids nodes n @ ns) \<subseteq> below nodes (n # ns)"
      by (auto simp: below_Cons below_set [of _ "_ @ _"] intro: below_self)
  next
    fix m c assume "m \<in> below nodes (n # ns)" "c \<in> set (kids (bt_remove n nodes) m)"
    then show "c \<in> below nodes (n # ns)" by (auto simp: kids_remove split: if_splits intro: below_closed)
  qed
  then show "insert n (below (bt_remove n nodes) (kids nodes n @ ns)) \<subseteq> below nodes (n # ns)"
    by (simp add: below_Cons)
qed

lemma free_nodes_get: "bt_get m (free_nodes ns nodes) = (if m \<in> below nodes ns then None else bt_get m nodes)"
proof (induction ns nodes rule: free_nodes.induct)
  case (1 nodes)
  show ?case by simp
next
  case (2 n ns nodes)
  show ?case
  proof (cases "bt_get n nodes")
    case None
    then have "kids nodes n = []" by (simp add: kids_def)
    with None 2(1) show ?thesis by (auto simp: below_Cons)
  next
    case (Some e)
    then have "kids nodes n = ln_children e" by (simp add: kids_def)
    with Some 2(2) show ?thesis by (auto simp: below_remove bt_get_remove)
  qed
qed

lemma free_nodes_ok: "bt_ok nodes \<Longrightarrow> bt_ok (free_nodes ns nodes)"
  by (induction ns nodes rule: free_nodes.induct) (auto simp: bt_remove_ok split: option.split)

lemma free_nodes_length: "length (free_nodes ns nodes) \<le> length nodes"
proof (induction ns nodes rule: free_nodes.induct)
  case (2 n ns nodes)
  then show ?case by (auto split: option.split intro: order_trans [OF _ bt_length_remove])
qed simp

end
