(* ===== verification/Live_Invariant.thy ===== *)
theory Live_Invariant
  imports Live_Forest
begin

text \<open>
  The invariant of the live document: its links form a forest and its tables stay within their budgets. Every operation keeps it,
  also when it fails half way.
\<close>

section \<open>Changes of the forest\<close>

lemma parent_of_simps [simp]:
  "bt_get n nodes = Some e \<Longrightarrow> parent_of nodes n = ln_parent e" "bt_get n nodes = None \<Longrightarrow> parent_of nodes n = None"
  by (simp_all add: parent_of_def)

lemma kids_simps [simp]:
  "bt_get n nodes = Some e \<Longrightarrow> kids nodes n = ln_children e" "bt_get n nodes = None \<Longrightarrow> kids nodes n = []"
  by (simp_all add: kids_def)

lemma forest_add:
  assumes ok: "forest_ok nodes" and fresh: "bt_get n nodes = None"
  shows "forest_ok (bt_insert n \<lparr>ln_id = n, ln_parent = None, ln_children = [], ln_kind = k\<rparr> nodes)"
proof -
  let ?e = "\<lparr>ln_id = n, ln_parent = None, ln_children = [], ln_kind = k\<rparr>"
  have p: "parent_of (bt_insert n ?e nodes) = parent_of nodes"
    using fresh by (auto simp: parent_of_insert)
  have k: "kids (bt_insert n ?e nodes) = kids nodes" using fresh by (auto simp: kids_insert)
  show ?thesis using ok unfolding forest_ok_def node_ok_def links_def p k
    by (auto simp: bt_insert_ok bt_get_insert)
qed

lemma forest_set_kind:
  assumes "forest_ok nodes" and e: "bt_get n nodes = Some e" and k: "is_element_kind k \<longleftrightarrow> is_element_kind (ln_kind e)"
  shows "forest_ok (bt_insert n (e\<lparr>ln_kind := k\<rparr>) nodes)"
proof -
  have p: "parent_of (bt_insert n (e\<lparr>ln_kind := k\<rparr>) nodes) = parent_of nodes"
    using e by (auto simp: parent_of_insert)
  have c: "kids (bt_insert n (e\<lparr>ln_kind := k\<rparr>) nodes) = kids nodes" using e by (auto simp: kids_insert)
  show ?thesis using assms unfolding forest_ok_def node_ok_def links_def p c
    by (auto simp: bt_insert_ok bt_get_insert)
qed

text \<open>Linking a root below a node that is not below it.\<close>

definition linked :: "nat \<Rightarrow> nat \<Rightarrow> live_nodes \<Rightarrow> live_nodes" where
  "linked p c nodes =
     (let nodes1 = bt_insert p (push_child c (the (bt_get p nodes))) nodes
      in bt_insert c ((the (bt_get c nodes1))\<lparr>ln_parent := Some p\<rparr>) nodes1)"

lemma linked_get:
  assumes "bt_get p nodes = Some pe" and "bt_get c nodes = Some ce" and "p \<noteq> c"
  shows "bt_get m (linked p c nodes) =
    (if m = c then Some (ce\<lparr>ln_parent := Some p\<rparr>) else if m = p then Some (push_child c pe) else bt_get m nodes)"
  using assms by (simp add: linked_def bt_get_insert)

lemma forest_link:
  assumes ok: "forest_ok nodes" and p: "bt_get p nodes = Some pe" and c: "bt_get c nodes = Some ce" and el: "is_element_kind (ln_kind pe)"
    and orphan: "ln_parent ce = None" and path: "(p, c) \<notin> (links nodes)\<^sup>*"
  shows "forest_ok (linked p c nodes)"
proof -
  have pc: "p \<noteq> c" using path by auto
  note get = linked_get [OF p c pc]
  have par: "parent_of (linked p c nodes) m = (if m = c then Some p else parent_of nodes m)" for m
    using p by (simp add: parent_of_def get push_child_def)
  have kid: "kids (linked p c nodes) m = (if m = p then kids nodes p @ [c] else kids nodes m)" for m
    using p c pc by (simp add: kids_def get push_child_def)
  have lk: "links (linked p c nodes) = insert (c, p) (links nodes)"
    using orphan c by (auto simp: links_def par split: if_splits)
  have "c \<notin> set (kids nodes p)" using orphan c forest_kid_parent [OF ok] by simp
  then have fresh: "c \<notin> set (ln_children pe)" using p by simp
  have "bt_ok (linked p c nodes)" using ok by (simp add: linked_def Let_def forest_ok_def bt_insert_ok)
  moreover have "acyclic (links (linked p c nodes))" using ok path unfolding lk forest_ok_def by (simp add: acyclic_insert)
  moreover have "node_ok (linked p c nodes) m e" if "bt_get m (linked p c nodes) = Some e" for m e
  proof -
    have old: "node_ok nodes m e0" if "bt_get m nodes = Some e0" for e0 using forest_node [OF ok that] .
    consider "m = c" "e = ce\<lparr>ln_parent := Some p\<rparr>" | "m = p" "m \<noteq> c" "e = push_child c pe" | "m \<noteq> c" "m \<noteq> p" "bt_get m nodes = Some e"
      using \<open>bt_get m (linked p c nodes) = Some e\<close> get pc by (auto split: if_splits)
    then show ?thesis
    proof cases
      case 1
      with old [of ce] c orphan pc show ?thesis
        by (auto simp: node_ok_def par kid)
    next
      case 2
      with old [of pe] p el fresh show ?thesis
        by (auto simp: node_ok_def par kid push_child_def)
    next
      case 3
      with old [of e] show ?thesis by (auto simp: node_ok_def par kid orphan c)
    qed
  qed
  ultimately show ?thesis by (simp add: forest_ok_def)
qed

text \<open>Unlinking a child; the children are filtered by one operation and lose the first occurrence in another, which is the same.\<close>

definition unlinked :: "nat \<Rightarrow> nat \<Rightarrow> live_nodes \<Rightarrow> live_nodes" where
  "unlinked p c nodes =
     (let nodes1 = bt_insert p ((the (bt_get p nodes))\<lparr>ln_children := filter (\<lambda>x. x \<noteq> c) (kids nodes p)\<rparr>) nodes
      in bt_insert c ((the (bt_get c nodes1))\<lparr>ln_parent := None\<rparr>) nodes1)"

lemma unlinked_get:
  assumes "bt_get p nodes = Some pe" and "bt_get c nodes = Some ce" and "p \<noteq> c"
  shows "bt_get m (unlinked p c nodes) =
    (if m = c then Some (ce\<lparr>ln_parent := None\<rparr>)
     else if m = p then Some (pe\<lparr>ln_children := filter (\<lambda>x. x \<noteq> c) (ln_children pe)\<rparr>) else bt_get m nodes)"
  using assms by (simp add: unlinked_def bt_get_insert kids_def)

lemma forest_no_self: "forest_ok nodes \<Longrightarrow> parent_of nodes c \<noteq> Some c"
  by (auto simp: forest_ok_def acyclic_def links_def)

lemma forest_unlink:
  assumes ok: "forest_ok nodes" and par: "parent_of nodes c = Some p"
  shows "forest_ok (unlinked p c nodes)" and "parent_of (unlinked p c nodes) m = (if m = c then None else parent_of nodes m)"
    and "kids (unlinked p c nodes) m = (if m = p then filter (\<lambda>x. x \<noteq> c) (kids nodes p) else kids nodes m)"
proof -
  obtain ce where c: "bt_get c nodes = Some ce" and cp: "ln_parent ce = Some p" using parent_live [OF par] by blast
  have inp: "c \<in> set (kids nodes p)" using par forest_kid_parent [OF ok] by simp
  then obtain pe where p: "bt_get p nodes = Some pe" and pk: "ln_children pe = kids nodes p" using kids_live by blast
  have pc: "p \<noteq> c" using forest_no_self [OF ok] par by auto
  note get = unlinked_get [OF p c pc]
  have par': "parent_of (unlinked p c nodes) m = (if m = c then None else parent_of nodes m)" for m
    using p by (simp add: parent_of_def get)
  have kid': "kids (unlinked p c nodes) m = (if m = p then filter (\<lambda>x. x \<noteq> c) (kids nodes p) else kids nodes m)" for m
    using p c pc by (simp add: kids_def get)
  have lk: "links (unlinked p c nodes) \<subseteq> links nodes" by (auto simp: links_def par' split: if_splits)
  have "bt_ok (unlinked p c nodes)" using ok by (simp add: unlinked_def Let_def forest_ok_def bt_insert_ok)
  moreover have "acyclic (links (unlinked p c nodes))" using ok acyclic_subset [OF _ lk] by (simp add: forest_ok_def)
  moreover have "node_ok (unlinked p c nodes) m e" if m: "bt_get m (unlinked p c nodes) = Some e" for m e
  proof -
    have nc: "\<And>q e0. bt_get q nodes = Some e0 \<Longrightarrow> q \<noteq> p \<Longrightarrow> c \<notin> set (ln_children e0)"
      using forest_kid_parent [OF ok] par by (metis kids_def option.inject option.simps(5))
    consider "m = c" "e = ce\<lparr>ln_parent := None\<rparr>" | "m = p" "m \<noteq> c" "e = pe\<lparr>ln_children := filter (\<lambda>x. x \<noteq> c) (ln_children pe)\<rparr>"
      | "m \<noteq> c" "m \<noteq> p" "bt_get m nodes = Some e"
      using m get pc by (auto split: if_splits)
    then show ?thesis
    proof cases
      case 1
      with forest_node [OF ok c] nc [OF c] pc show ?thesis by (auto simp: node_ok_def par' kid')
    next
      case 2
      with forest_node [OF ok p] show ?thesis by (auto simp: node_ok_def par' kid')
    next
      case 3
      with forest_node [OF ok, of m e] nc [of m e] show ?thesis by (auto simp: node_ok_def par' kid')
    qed
  qed
  ultimately show "forest_ok (unlinked p c nodes)" by (simp add: forest_ok_def)
  show "parent_of (unlinked p c nodes) m = (if m = c then None else parent_of nodes m)" by (rule par')
  show "kids (unlinked p c nodes) m = (if m = p then filter (\<lambda>x. x \<noteq> c) (kids nodes p) else kids nodes m)" by (rule kid')
qed

text \<open>Freeing all children of a node.\<close>

definition cleared :: "nat \<Rightarrow> live_nodes \<Rightarrow> live_nodes" where
  "cleared n nodes = bt_insert n ((the (bt_get n nodes))\<lparr>ln_children := []\<rparr>) (free_nodes (kids nodes n) nodes)"

lemma not_below_own_kids:
  assumes "forest_ok nodes"
  shows "n \<notin> below nodes (kids nodes n)"
  using not_below_kid [OF assms] by (auto simp: below_set [of _ "kids nodes n"])

lemma cleared_get:
  assumes "bt_get n nodes = Some e" and "forest_ok nodes"
  shows "bt_get m (cleared n nodes) =
    (if m = n then Some (e\<lparr>ln_children := []\<rparr>) else if m \<in> below nodes (kids nodes n) then None else bt_get m nodes)"
  using assms by (simp add: cleared_def bt_get_insert free_nodes_get)

lemma forest_clear:
  assumes ok: "forest_ok nodes" and n: "bt_get n nodes = Some e"
  shows "forest_ok (cleared n nodes)"
proof -
  note get = cleared_get [OF n ok]
  let ?D = "below nodes (kids nodes n)"
  have nD: "n \<notin> ?D" by (rule not_below_own_kids [OF ok])
  have par: "parent_of (cleared n nodes) m = (if m \<in> ?D then None else parent_of nodes m)" for m
    using n nD by (auto simp: parent_of_def get)
  have kid: "kids (cleared n nodes) m = (if m = n \<or> m \<in> ?D then [] else kids nodes m)" for m
    using n by (auto simp: kids_def get)
  have nk: "c \<notin> ?D" if "c \<in> set (kids nodes m)" "m \<noteq> n" "m \<notin> ?D" for m c
  proof
    assume "c \<in> ?D"
    then obtain k where k: "k \<in> set (kids nodes n)" "(k, c) \<in> (kid_rel nodes)\<^sup>*" by (auto simp: below_def)
    from k(2) show False
    proof (cases rule: rtranclE)
      case base
      with k(1) that show False using forest_kid_parent [OF ok] by (metis option.inject)
    next
      case (step y)
      then have "y = m" using that(1) forest_kid_parent [OF ok] by (metis kid_rel_def mem_Collect_eq option.inject case_prodD)
      with step(1) k(1) that(3) show False by (auto simp: below_def)
    qed
  qed
  have lk: "links (cleared n nodes) \<subseteq> links nodes" by (auto simp: links_def par split: if_splits)
  have "bt_ok (cleared n nodes)" using ok by (simp add: cleared_def forest_ok_def bt_insert_ok free_nodes_ok)
  moreover have "acyclic (links (cleared n nodes))" using ok acyclic_subset [OF _ lk] by (simp add: forest_ok_def)
  moreover have "node_ok (cleared n nodes) m x" if m: "bt_get m (cleared n nodes) = Some x" for m x
  proof (cases "m = n")
    case True
    with m have x: "x = e\<lparr>ln_children := []\<rparr>" by (simp add: get)
    have "node_ok nodes n e" by (rule forest_node [OF ok n])
    moreover have "p \<noteq> n \<and> p \<notin> ?D" if "n \<in> set (kids nodes p)" for p
      using that nD below_closed forest_kid_parent [OF ok] forest_no_self [OF ok] by blast
    ultimately show ?thesis using x True by (auto simp: node_ok_def kid)
  next
    case False
    with m have mD: "m \<notin> ?D" and x: "bt_get m nodes = Some x" by (auto simp: get split: if_splits)
    have ok_x: "node_ok nodes m x" by (rule forest_node [OF ok x])
    have kx: "ln_children x = kids nodes m" using x by (simp add: kids_def)
    have "p \<noteq> n \<and> p \<notin> ?D" if "m \<in> set (kids nodes p)" for p
      using that mD below_closed by (auto simp: below_set [of _ "kids nodes n"] intro: below_self)
    then show ?thesis using ok_x nk [OF _ False mD] by (auto simp: node_ok_def par kid kx)
  qed
  ultimately show ?thesis by (simp add: forest_ok_def)
qed

section \<open>The invariant\<close>

definition tree_ok :: "live_nodes \<Rightarrow> nat \<Rightarrow> bool" where
  "tree_ok nodes next \<longleftrightarrow>
     forest_ok nodes \<and> length nodes \<le> MAX_LIVE_NODES \<and> (\<forall>n. bt_get n nodes \<noteq> None \<longrightarrow> n < next) \<and> next \<le> u64_max"

definition listener_total :: "(nat, 'w event_listener list) btree \<Rightarrow> nat" where
  "listener_total m = bt_sum (\<lambda>_. length) m"

definition tables_ok :: "'w live_document \<Rightarrow> bool" where
  "tables_ok d \<longleftrightarrow>
     bt_ok (ld_shadows d) \<and> length (ld_shadows d) \<le> MAX_SHADOW_ROOTS \<and>
     (\<forall>h r. bt_get h (ld_shadows d) = Some r \<longrightarrow> sr_host r = h) \<and>
     bt_ok (ld_listeners d) \<and> listener_total (ld_listeners d) \<le> MAX_EVENT_LISTENERS"

definition live_ok :: "'w live_document \<Rightarrow> bool" where
  "live_ok d \<longleftrightarrow> tree_ok (ld_nodes d) (ld_next_node_id d) \<and> tables_ok d"

lemma live_ok_forest: "live_ok d \<Longrightarrow> forest_ok (ld_nodes d)"
  by (simp add: live_ok_def tree_ok_def)

lemma live_ok_cong:
  "ld_nodes d' = ld_nodes d \<Longrightarrow> ld_next_node_id d' = ld_next_node_id d \<Longrightarrow> ld_shadows d' = ld_shadows d \<Longrightarrow>
   ld_listeners d' = ld_listeners d \<Longrightarrow> live_ok d' \<longleftrightarrow> live_ok d"
  by (simp add: live_ok_def tables_ok_def)

lemma live_ok_updates [simp]:
  "live_ok (d\<lparr>ld_root := n\<rparr>) \<longleftrightarrow> live_ok d" "live_ok (d\<lparr>ld_focused := f\<rparr>) \<longleftrightarrow> live_ok d"
  "live_ok (d\<lparr>ld_invalidation := i\<rparr>) \<longleftrightarrow> live_ok d" "live_ok (d\<lparr>ld_world := w\<rparr>) \<longleftrightarrow> live_ok d"
  "live_ok (mark_mutated d) \<longleftrightarrow> live_ok d"
  by (simp_all add: live_ok_def tables_ok_def mark_mutated_def)

lemma mark_attribute_ok [simp]: "live_ok (mark_attribute_mutated name v d) \<longleftrightarrow> live_ok d"
  by (simp add: mark_attribute_mutated_def Let_def split: prod.split)

lemma live_ok_nodes:
  "live_ok d \<Longrightarrow> tree_ok nodes (ld_next_node_id d) \<Longrightarrow> live_ok (d\<lparr>ld_nodes := nodes\<rparr>)"
  by (simp add: live_ok_def tables_ok_def)

text \<open>A change of existing nodes that keeps the forest keeps the tree.\<close>

lemma tree_ok_change:
  assumes "tree_ok nodes next" and "forest_ok nodes'" and "\<And>n. bt_get n nodes' \<noteq> None \<Longrightarrow> bt_get n nodes \<noteq> None"
    and "length nodes' \<le> length nodes"
  shows "tree_ok nodes' next"
  using assms unfolding tree_ok_def by (meson order_trans)

lemma tree_ok_linked:
  assumes "tree_ok nodes next" and "bt_get p nodes = Some pe" and "bt_get c nodes = Some ce" and "is_element_kind (ln_kind pe)"
    and "ln_parent ce = None" and "(p, c) \<notin> (links nodes)\<^sup>*"
  shows "tree_ok (linked p c nodes) next"
proof (rule tree_ok_change [OF assms(1)])
  have ok: "forest_ok nodes" and pc: "p \<noteq> c" using assms(1,6) by (auto simp: tree_ok_def)
  show "forest_ok (linked p c nodes)" by (rule forest_link [OF ok assms(2-6)])
  show "bt_get n (linked p c nodes) \<noteq> None \<Longrightarrow> bt_get n nodes \<noteq> None" for n
    using assms(2,3) by (auto simp: linked_get [OF assms(2,3) pc] split: if_splits)
  show "length (linked p c nodes) \<le> length nodes"
    using ok assms(2,3) by (simp add: linked_def Let_def bt_length_insert bt_insert_ok forest_ok_def bt_get_insert)
qed

lemma tree_ok_unlinked:
  assumes "tree_ok nodes next" and par: "parent_of nodes c = Some p"
  shows "tree_ok (unlinked p c nodes) next"
proof (rule tree_ok_change [OF assms(1)])
  have ok: "forest_ok nodes" using assms(1) by (simp add: tree_ok_def)
  show "forest_ok (unlinked p c nodes)" by (rule forest_unlink [OF ok par])
  obtain ce where c: "bt_get c nodes = Some ce" using parent_live [OF par] by blast
  obtain pe where p: "bt_get p nodes = Some pe" using par forest_kid_parent [OF ok] kids_live by metis
  have pc: "p \<noteq> c" using forest_no_self [OF ok] par by auto
  show "bt_get n (unlinked p c nodes) \<noteq> None \<Longrightarrow> bt_get n nodes \<noteq> None" for n
    using p c by (auto simp: unlinked_get [OF p c pc] split: if_splits)
  show "length (unlinked p c nodes) \<le> length nodes"
    using ok p c by (simp add: unlinked_def Let_def bt_length_insert bt_insert_ok forest_ok_def bt_get_insert)
qed

lemma tree_ok_cleared:
  assumes "tree_ok nodes next" and n: "bt_get n nodes = Some e"
  shows "tree_ok (cleared n nodes) next"
proof (rule tree_ok_change [OF assms(1)])
  have ok: "forest_ok nodes" using assms(1) by (simp add: tree_ok_def)
  show "forest_ok (cleared n nodes)" by (rule forest_clear [OF ok n])
  show "bt_get m (cleared n nodes) \<noteq> None \<Longrightarrow> bt_get m nodes \<noteq> None" for m
    using n by (auto simp: cleared_get [OF n ok] split: if_splits)
  have "bt_get n (free_nodes (kids nodes n) nodes) = Some e"
    using n not_below_own_kids [OF ok] by (simp add: free_nodes_get del: kids_simps)
  then show "length (cleared n nodes) \<le> length nodes"
    using ok free_nodes_length by (simp add: cleared_def bt_length_insert forest_ok_def free_nodes_ok)
qed

section \<open>The operations\<close>

lemma andthen_ok:
  assumes "live_ok (snd r)" and "\<And>x s. r = (Inr x, s) \<Longrightarrow> live_ok s \<Longrightarrow> live_ok (snd (f x s))"
  shows "live_ok (snd (andthen r f))"
  using assms by (cases r; cases "fst r") auto

lemma checked_simps [simp]: "snd (checked r d) = d" "checked r d = (Inr x, s) \<longleftrightarrow> r = Inr x \<and> s = d"
  by (auto simp: checked_def)

lemma require_node_eq [simp]: "require_node n d = Inr e \<longleftrightarrow> bt_get n (ld_nodes d) = Some e"
  by (simp add: require_node_def result_simps)

lemma require_element_eq [simp]: "require_element n d = Inr e \<longleftrightarrow> bt_get n (ld_nodes d) = Some e \<and> is_element_kind (ln_kind e)"
  by (auto simp: require_element_def result_simps)

lemma depth_ok_eq: "depth_budget_ok n d = Inr u \<longleftrightarrow> depth_walk (MAX_LIVE_DEPTH - 1) (ld_nodes d) (parent_of (ld_nodes d) n)"
  by (simp add: depth_budget_ok_def)

lemma allocated_ok:
  assumes "live_ok d"
  shows "live_ok (snd (allocate_preferred k i d))"
    and "allocate_preferred k i d = (Inr n, d') \<Longrightarrow>
      bt_get n (ld_nodes d) = None \<and>
      ld_nodes d' = bt_insert n \<lparr>ln_id = n, ln_parent = None, ln_children = [], ln_kind = k\<rparr> (ld_nodes d) \<and>
      ld_next_node_id d < ld_next_node_id d' \<and> ld_shadows d' = ld_shadows d \<and> length (ld_nodes d') = Suc (length (ld_nodes d)) \<and>
      length (ld_nodes d) < MAX_LIVE_NODES"
proof -
  have next_fresh: "bt_get (ld_next_node_id d) (ld_nodes d) = None" using assms by (auto simp: live_ok_def tree_ok_def)
  have bt: "bt_ok (ld_nodes d)" using assms by (simp add: live_ok_def tree_ok_def forest_ok_def)
  show "live_ok (snd (allocate_preferred k i d))"
    using assms next_fresh bt
    by (auto simp: allocate_preferred_def Let_def checked_add_def live_ok_def tree_ok_def tables_ok_def forest_add bt_length_insert
      bt_get_insert split: option.split)
  show "allocate_preferred k i d = (Inr n, d') \<Longrightarrow>
      bt_get n (ld_nodes d) = None \<and>
      ld_nodes d' = bt_insert n \<lparr>ln_id = n, ln_parent = None, ln_children = [], ln_kind = k\<rparr> (ld_nodes d) \<and>
      ld_next_node_id d < ld_next_node_id d' \<and> ld_shadows d' = ld_shadows d \<and> length (ld_nodes d') = Suc (length (ld_nodes d)) \<and>
      length (ld_nodes d) < MAX_LIVE_NODES"
    using next_fresh bt
    by (auto simp: allocate_preferred_def Let_def checked_add_def bt_length_insert split: option.splits if_splits)
qed

lemma update_node_eq:
  "bt_get n (ld_nodes d) = Some e \<Longrightarrow> update_node n msg f d = (Inr (), d\<lparr>ld_nodes := bt_insert n (f e) (ld_nodes d)\<rparr>)"
  by (simp add: update_node_def)

lemma link_child_eq:
  assumes "bt_get p (ld_nodes d) = Some pe" and "bt_get c (ld_nodes d) = Some ce" and "p \<noteq> c"
  shows "link_child p c d = (Inr (), d\<lparr>ld_nodes := linked p c (ld_nodes d)\<rparr>)"
  using assms by (simp add: link_child_def update_node_def bt_get_insert linked_def Let_def)

lemma append_fresh_cases:
  obtains (failed) e where "append_child_without_invalidation p c d = (Inl e, d)"
  | (joined) pe ce where "bt_get p (ld_nodes d) = Some pe" and "is_element_kind (ln_kind pe)" and "bt_get c (ld_nodes d) = Some ce"
      and "append_child_without_invalidation p c d = link_child p c d"
  by (cases "require_element p d"; cases "require_node c d"; cases "depth_budget_ok p d")
    (auto simp: append_child_without_invalidation_def andthen_checked)

lemma append_fresh_ok:
  assumes "live_ok d" and "parent_of (ld_nodes d) c = None" and "(p, c) \<notin> (links (ld_nodes d))\<^sup>*"
  shows "live_ok (snd (append_child_without_invalidation p c d))"
proof (cases rule: append_fresh_cases [of p c d])
  case (failed e)
  with assms(1) show ?thesis by simp
next
  case (joined pe ce)
  have pc: "p \<noteq> c" using assms(3) by auto
  have "ln_parent ce = None" using assms(2) joined by simp
  then have "tree_ok (linked p c (ld_nodes d)) (ld_next_node_id d)"
    using tree_ok_linked [OF _ joined(1,3,2) _ assms(3)] assms(1) by (simp add: live_ok_def)
  then show ?thesis using assms(1) by (simp add: joined link_child_eq [OF joined(1,3) pc] live_ok_nodes)
qed

text \<open>A node without links is not above any other.\<close>

lemma rtrancl_to_unlinked:
  assumes "forest_ok nodes" and "kids nodes c = []" and "p \<noteq> c"
  shows "(p, c) \<notin> (links nodes)\<^sup>*"
proof
  assume "(p, c) \<in> (links nodes)\<^sup>*"
  with assms(3) obtain y where "(y, c) \<in> links nodes" by (auto elim: rtranclE)
  then show False using assms(2) forest_kid_parent [OF assms(1), of y c] by (simp add: links_def)
qed

lemma append_new_ok:
  assumes ok: "live_ok d" and a: "allocate_preferred k i d = (Inr n, d')"
  shows "live_ok d'" and "p \<noteq> n \<Longrightarrow> live_ok (snd (append_child_without_invalidation p n d'))"
proof -
  show ok': "live_ok d'" using allocated_ok(1) [OF ok, of k i] a by simp
  assume "p \<noteq> n"
  have new: "bt_get n (ld_nodes d') = Some \<lparr>ln_id = n, ln_parent = None, ln_children = [], ln_kind = k\<rparr>"
    using allocated_ok(2) [OF ok a] by (simp add: bt_get_insert)
  then have "(p, n) \<notin> (links (ld_nodes d'))\<^sup>*"
    using \<open>p \<noteq> n\<close> live_ok_forest [OF ok'] by (intro rtrancl_to_unlinked) auto
  then show "live_ok (snd (append_child_without_invalidation p n d'))" using new by (intro append_fresh_ok [OF ok']) auto
qed

text \<open>A new child of an existing node.\<close>

lemma add_new_child_ok:
  assumes ok: "live_ok d" and p: "bt_get p (ld_nodes d) \<noteq> None"
  shows "live_ok (snd (andthen (allocate_preferred k i d) (\<lambda>c. append_child_without_invalidation p c)))"
proof (rule andthen_ok)
  show "live_ok (snd (allocate_preferred k i d))" by (rule allocated_ok [OF ok])
  fix c d' assume a: "allocate_preferred k i d = (Inr c, d')"
  have "p \<noteq> c" using p allocated_ok(2) [OF ok a] by auto
  then show "live_ok (snd (append_child_without_invalidation p c d'))" by (rule append_new_ok(2) [OF ok a])
qed

lemma no_cycle:
  "depth_walk k nodes current \<Longrightarrow> k \<le> k' \<Longrightarrow> \<not> ancestor_walk k' nodes c current \<Longrightarrow> current = Some n \<Longrightarrow> (n, c) \<notin> (links nodes)\<^sup>*"
proof (induction k arbitrary: k' current n)
  case (Suc k)
  then obtain k'' where k'': "k' = Suc k''" "k \<le> k''" by (cases k') auto
  with Suc.prems have "n \<noteq> c" "\<not> ancestor_walk k'' nodes c (parent_of nodes n)" "depth_walk k nodes (parent_of nodes n)" by auto
  show ?case
  proof
    assume "(n, c) \<in> (links nodes)\<^sup>*"
    with \<open>n \<noteq> c\<close> obtain p where "parent_of nodes n = Some p" "(p, c) \<in> (links nodes)\<^sup>*"
      by (auto elim: converse_rtranclE simp: links_def)
    with Suc.IH [OF \<open>depth_walk k nodes (parent_of nodes n)\<close> k''(2)] \<open>\<not> ancestor_walk k'' nodes c (parent_of nodes n)\<close>
    show False by blast
  qed
qed simp

lemma depth_no_cycle:
  assumes "depth_walk (MAX_LIVE_DEPTH - 1) (ld_nodes d) (parent_of (ld_nodes d) p)" and "\<not> is_ancestor c p d"
  shows "(p, c) \<notin> (links (ld_nodes d))\<^sup>*"
proof (rule no_cycle [of MAX_LIVE_DEPTH _ _ MAX_EVENT_PATH _ p])
  show "depth_walk MAX_LIVE_DEPTH (ld_nodes d) (Some p)" using assms(1) by (simp add: MAX_LIVE_DEPTH_def numeral_eq_Suc)
qed (use assms in \<open>simp_all add: is_ancestor_def MAX_EVENT_PATH_def MAX_LIVE_DEPTH_def\<close>)

definition detached :: "nat \<Rightarrow> live_nodes \<Rightarrow> live_nodes" where
  "detached c nodes = (case parent_of nodes c of None \<Rightarrow> nodes | Some q \<Rightarrow> unlinked q c nodes)"

lemma unlinked_live:
  assumes "forest_ok nodes" and "parent_of nodes c = Some q"
  obtains ce qe where "bt_get c nodes = Some ce" and "bt_get q nodes = Some qe" and "q \<noteq> c" and "c \<in> set (ln_children qe)"
    and "ln_parent ce = Some q"
proof -
  obtain ce where "bt_get c nodes = Some ce" "ln_parent ce = Some q" using parent_live [OF assms(2)] by blast
  moreover obtain qe where "bt_get q nodes = Some qe" "c \<in> set (ln_children qe)"
    using assms(2) forest_kid_parent [OF assms(1)] kids_live by metis
  moreover have "q \<noteq> c" using forest_no_self [OF assms(1)] assms(2) by auto
  ultimately show ?thesis using that by blast
qed

lemma detach_eq:
  assumes "forest_ok (ld_nodes d)" and "bt_get c (ld_nodes d) \<noteq> None"
  shows "detach c d = (Inr (), d\<lparr>ld_nodes := detached c (ld_nodes d)\<rparr>)"
proof (cases "parent_of (ld_nodes d) c")
  case None
  with assms(2) show ?thesis by (auto simp: detach_def andthen_checked require_node_def detached_def)
next
  case (Some q)
  then obtain ce qe where ce: "bt_get c (ld_nodes d) = Some ce" "ln_parent ce = Some q" and qe: "bt_get q (ld_nodes d) = Some qe"
    and "q \<noteq> c" by (rule unlinked_live [OF assms(1)])
  then show ?thesis
    by (simp add: detach_def andthen_checked require_node_def detached_def update_node_def bt_get_insert unlinked_def Let_def)
qed

lemma detached_facts:
  assumes ok: "tree_ok nodes next"
  shows "tree_ok (detached c nodes) next" and "parent_of (detached c nodes) m = (if m = c then None else parent_of nodes m)"
    and "links (detached c nodes) \<subseteq> links nodes"
    and "map_option ln_kind (bt_get m (detached c nodes)) = map_option ln_kind (bt_get m nodes)"
    and "kids (detached c nodes) m = filter (\<lambda>x. x \<noteq> c) (kids nodes m)"
proof -
  have f: "forest_ok nodes" using ok by (simp add: tree_ok_def)
  show "tree_ok (detached c nodes) next"
    using ok tree_ok_unlinked [OF ok] by (simp add: detached_def split: option.split)
  show p: "parent_of (detached c nodes) m = (if m = c then None else parent_of nodes m)" for m
    using forest_unlink(2) [OF f] by (auto simp: detached_def split: option.split)
  then show "links (detached c nodes) \<subseteq> links nodes" by (auto simp: links_def split: if_splits)
  show "map_option ln_kind (bt_get m (detached c nodes)) = map_option ln_kind (bt_get m nodes)"
  proof (cases "parent_of nodes c")
    case (Some q)
    then obtain ce qe where "bt_get c nodes = Some ce" "bt_get q nodes = Some qe" "q \<noteq> c" by (rule unlinked_live [OF f])
    with Some show ?thesis by (simp add: detached_def unlinked_get)
  qed (simp add: detached_def)
  show "kids (detached c nodes) m = filter (\<lambda>x. x \<noteq> c) (kids nodes m)"
  proof (cases "c \<in> set (kids nodes m)")
    case True
    then have "parent_of nodes c = Some m" using forest_kid_parent [OF f] by simp
    then show ?thesis using forest_unlink(3) [OF f] by (simp add: detached_def)
  next
    case False
    then have "parent_of nodes c \<noteq> Some m" using forest_kid_parent [OF f] by simp
    then have "kids (detached c nodes) m = kids nodes m"
      using forest_unlink(3) [OF f] by (auto simp: detached_def split: option.split)
    moreover have "filter (\<lambda>x. x \<noteq> c) (kids nodes m) = kids nodes m" using False by (intro filter_True) auto
    ultimately show ?thesis by simp
  qed
qed

lemma append_child_eq:
  assumes ok: "live_ok d" and p: "bt_get p (ld_nodes d) = Some pe" "is_element_kind (ln_kind pe)" and c: "bt_get c (ld_nodes d) = Some ce"
    and depth: "depth_walk (MAX_LIVE_DEPTH - 1) (ld_nodes d) (parent_of (ld_nodes d) p)" and "p \<noteq> c" and nc: "\<not> is_ancestor c p d"
  shows "append_child p c d = (Inr (), mark_mutated (d\<lparr>ld_nodes := linked p c (detached c (ld_nodes d))\<rparr>))"
    and "tree_ok (linked p c (detached c (ld_nodes d))) (ld_next_node_id d)"
proof -
  let ?N = "detached c (ld_nodes d)"
  have t: "tree_ok (ld_nodes d) (ld_next_node_id d)" using ok by (simp add: live_ok_def)
  note D = detached_facts [OF t, where c = c]
  obtain pe' where p': "bt_get p ?N = Some pe'" "ln_kind pe' = ln_kind pe" using D(4) [of p] p(1) by (auto simp: map_option_eq_Some)
  obtain ce' where c': "bt_get c ?N = Some ce'" using D(4) [of c] c by (auto simp: map_option_eq_Some)
  have orphan: "ln_parent ce' = None" using D(2) [of c] c' by simp
  have path: "(p, c) \<notin> (links ?N)\<^sup>*" using depth_no_cycle [OF depth nc] rtrancl_mono [OF D(3)] by blast
  show "tree_ok (linked p c ?N) (ld_next_node_id d)" using p'(2) p(2) by (intro tree_ok_linked [OF D(1) p'(1) c' _ orphan path]) simp
  have "detach c d = (Inr (), d\<lparr>ld_nodes := ?N\<rparr>)" using detach_eq live_ok_forest [OF ok] c by blast
  then show "append_child p c d = (Inr (), mark_mutated (d\<lparr>ld_nodes := linked p c ?N\<rparr>))"
    using p c depth \<open>p \<noteq> c\<close> nc link_child_eq [of p "d\<lparr>ld_nodes := ?N\<rparr>" pe' c ce'] p' c'
    by (simp add: append_child_def andthen_checked require_node_def require_element_def depth_budget_ok_def)
qed

lemma append_child_Inr_iff:
  assumes "live_ok d"
  shows "is_ok (fst (append_child p c d)) \<longleftrightarrow>
    (\<exists>e. bt_get p (ld_nodes d) = Some e \<and> is_element_kind (ln_kind e)) \<and> bt_get c (ld_nodes d) \<noteq> None \<and>
    depth_walk (MAX_LIVE_DEPTH - 1) (ld_nodes d) (parent_of (ld_nodes d) p) \<and> p \<noteq> c \<and> \<not> is_ancestor c p d" (is "_ \<longleftrightarrow> ?R")
proof
  assume ?R
  then show "is_ok (fst (append_child p c d))" using append_child_eq(1) [OF assms] by auto
next
  assume "is_ok (fst (append_child p c d))"
  then show ?R
    by (auto simp: append_child_def andthen_checked depth_ok_eq split: sum.splits if_splits)
qed

lemma append_child_ok:
  assumes "live_ok d"
  shows "live_ok (snd (append_child p c d))"
proof (cases "is_ok (fst (append_child p c d))")
  case True
  then show ?thesis using append_child_eq [OF assms] assms by (auto simp: append_child_Inr_iff [OF assms] live_ok_nodes)
next
  case False
  then have "snd (append_child p c d) = d"
    unfolding append_child_Inr_iff [OF assms]
    by (auto simp: append_child_def andthen_checked depth_ok_eq split: sum.splits)
  with assms show ?thesis by simp
qed

lemma remove_child_eq:
  assumes ok: "live_ok d" and c: "c \<in> set (kids (ld_nodes d) p)"
  shows "remove_child p c d = (Inr (), mark_mutated (d\<lparr>ld_nodes := unlinked p c (ld_nodes d)\<rparr>))"
proof -
  have f: "forest_ok (ld_nodes d)" by (rule live_ok_forest [OF ok])
  have par: "parent_of (ld_nodes d) c = Some p" using c forest_kid_parent [OF f] by simp
  then obtain ce pe where ce: "bt_get c (ld_nodes d) = Some ce" and pe: "bt_get p (ld_nodes d) = Some pe" and "p \<noteq> c"
    and mem: "c \<in> set (ln_children pe)" by (rule unlinked_live [OF f])
  have "remove1 c (ln_children pe) = filter (\<lambda>x. x \<noteq> c) (ln_children pe)"
    using forest_node [OF f pe] by (auto simp: node_ok_def distinct_remove1_removeAll removeAll_filter_not_eq intro: filter_cong)
  with ce pe \<open>p \<noteq> c\<close> mem show ?thesis
    by (simp add: remove_child_def andthen_checked require_node_def update_node_def bt_get_insert unlinked_def Let_def)
qed

lemma remove_child_ok:
  assumes ok: "live_ok d"
  shows "live_ok (snd (remove_child p c d))"
proof (cases "c \<in> set (kids (ld_nodes d) p)")
  case True
  have "tree_ok (unlinked p c (ld_nodes d)) (ld_next_node_id d)"
    using ok True forest_kid_parent [OF live_ok_forest [OF ok]] by (intro tree_ok_unlinked) (auto simp: live_ok_def)
  then show ?thesis using remove_child_eq [OF ok True] ok by (simp add: live_ok_nodes)
next
  case False
  then have "snd (remove_child p c d) = d"
    by (auto simp: remove_child_def andthen_checked split: sum.split)
  with ok show ?thesis by simp
qed

lemma clear_children_eq:
  assumes ok: "live_ok d" and e: "bt_get n (ld_nodes d) = Some e"
  shows "clear_children n msg e d = (Inr (), d\<lparr>ld_nodes := cleared n (ld_nodes d)\<rparr>)"
proof -
  have "n \<notin> below (ld_nodes d) (ln_children e)" using not_below_own_kids [OF live_ok_forest [OF ok], of n] e by simp
  with e show ?thesis by (simp add: clear_children_def update_node_def free_subtrees_def free_nodes_get cleared_def)
qed

lemma clear_children_ok:
  assumes ok: "live_ok d" and e: "bt_get n (ld_nodes d) = Some e"
  shows "live_ok (d\<lparr>ld_nodes := cleared n (ld_nodes d)\<rparr>)"
  using ok e by (intro live_ok_nodes tree_ok_cleared) (auto simp: live_ok_def)

section \<open>Growth\<close>

text \<open>An import adds nodes: the nodes there are stay. Those of a set \<open>B\<close> keep kind and parent, and unless they are in \<open>P\<close> their
  children too.\<close>

definition grows :: "'w live_document \<Rightarrow> 'w live_document \<Rightarrow> bool" where
  "grows d d' \<longleftrightarrow> (\<forall>n. bt_get n (ld_nodes d) \<noteq> None \<longrightarrow> bt_get n (ld_nodes d') \<noteq> None) \<and> ld_shadows d' = ld_shadows d"

definition framed :: "nat set \<Rightarrow> nat set \<Rightarrow> live_nodes \<Rightarrow> live_nodes \<Rightarrow> bool" where
  "framed B P nodes nodes' \<longleftrightarrow>
     (\<forall>m\<in>B. \<forall>e. bt_get m nodes = Some e \<longrightarrow>
        (\<exists>e'. bt_get m nodes' = Some e' \<and> ln_kind e' = ln_kind e \<and> ln_parent e' = ln_parent e \<and> (m \<notin> P \<longrightarrow> e' = e)))"

definition keeps :: "nat set \<Rightarrow> nat set \<Rightarrow> 'w live_document \<Rightarrow> (error + 'a) \<times> 'w live_document \<Rightarrow> bool" where
  "keeps B P d r \<longleftrightarrow> live_ok (snd r) \<and> grows d (snd r) \<and> framed B P (ld_nodes d) (ld_nodes (snd r))"

definition old_nodes :: "'w live_document \<Rightarrow> nat set" where
  "old_nodes d = {n. bt_get n (ld_nodes d) \<noteq> None}"

lemma grows_refl [simp]: "grows d d"
  by (simp add: grows_def)

lemma grows_trans: "grows d d' \<Longrightarrow> grows d' d'' \<Longrightarrow> grows d d''"
  by (simp add: grows_def)

lemma grows_old: "grows d d' \<Longrightarrow> n \<in> old_nodes d \<Longrightarrow> n \<in> old_nodes d'"
  by (simp add: grows_def old_nodes_def)

lemma framed_refl [simp]: "framed B P nodes nodes"
  by (simp add: framed_def)

lemma framed_trans: "framed B P nodes nodes' \<Longrightarrow> framed B P nodes' nodes'' \<Longrightarrow> framed B P nodes nodes''"
  unfolding framed_def by metis

lemma keeps_andthen:
  assumes "keeps B P d r" and "\<And>x s. r = (Inr x, s) \<Longrightarrow> live_ok s \<Longrightarrow> grows d s \<Longrightarrow> keeps B P s (f x s)"
  shows "keeps B P d (andthen r f)"
  using assms by (cases r; cases "fst r") (auto simp: keeps_def intro: grows_trans framed_trans)

lemma keeps_done [simp]: "live_ok d \<Longrightarrow> keeps B P d (r, d)"
  by (simp add: keeps_def)

lemma keeps_mark [simp]: "live_ok d \<Longrightarrow> keeps B P d (r, mark_mutated d)"
  by (simp add: keeps_def mark_mutated_def grows_def)

lemma keeps_checked: "live_ok d \<Longrightarrow> keeps B P d (checked r d)"
  by (simp add: keeps_def)

lemma keeps_weaken: "keeps B P d r \<Longrightarrow> P \<inter> B \<subseteq> P' \<Longrightarrow> keeps B P' d r"
  unfolding keeps_def framed_def by blast

lemma keeps_allocate:
  assumes "live_ok d"
  shows "keeps B P d (allocate_preferred k i d)"
proof -
  obtain q d' where a: "allocate_preferred k i d = (q, d')" by (cases "allocate_preferred k i d")
  show ?thesis
  proof (cases q)
    case (Inl e)
    with a have "d' = d" by (auto simp: allocate_preferred_def Let_def split: if_splits option.splits)
    with a assms show ?thesis by simp
  next
    case (Inr n)
    with a have "allocate_preferred k i d = (Inr n, d')" by simp
    then show ?thesis using allocated_ok [OF assms, of k i] by (auto simp: keeps_def grows_def framed_def bt_get_insert)
  qed
qed

text \<open>Appending a node that has no parent, is not above the parent and is not in \<open>B\<close>.\<close>

lemma keeps_append:
  assumes ok: "live_ok d" and c: "parent_of (ld_nodes d) c = None" "(p, c) \<notin> (links (ld_nodes d))\<^sup>*" "c \<notin> B"
  shows "keeps B (insert p P) d (append_child_without_invalidation p c d)"
proof (cases rule: append_fresh_cases [of p c d])
  case (failed e)
  with ok show ?thesis by simp
next
  case (joined pe ce)
  have pc: "p \<noteq> c" using c(2) by auto
  have "live_ok (snd (append_child_without_invalidation p c d))" by (rule append_fresh_ok [OF ok c(1,2)])
  then show ?thesis using joined pc c(3)
    by (auto simp: link_child_eq [OF joined(1,3) pc] keeps_def grows_def framed_def linked_get push_child_def)
qed

lemma keeps_append_new:
  assumes ok: "live_ok d" and a: "allocate_preferred k i d = (Inr n, d')" and p: "p \<in> old_nodes d" and B: "B \<subseteq> old_nodes d"
  shows "keeps B (insert p P) d' (append_child_without_invalidation p n d')"
proof -
  note A = allocated_ok(2) [OF ok a]
  have ok': "live_ok d'" using allocated_ok(1) [OF ok, of k i] a by simp
  have n: "bt_get n (ld_nodes d') = Some \<lparr>ln_id = n, ln_parent = None, ln_children = [], ln_kind = k\<rparr>" using A by (simp add: bt_get_insert)
  have "p \<noteq> n" "n \<notin> B" using A p B by (auto simp: old_nodes_def)
  moreover have "(p, n) \<notin> (links (ld_nodes d'))\<^sup>*" using \<open>p \<noteq> n\<close> n live_ok_forest [OF ok'] by (intro rtrancl_to_unlinked) auto
  ultimately show ?thesis using n by (intro keeps_append [OF ok']) auto
qed

lemma keeps_new_child:
  assumes "live_ok d" and "p \<in> old_nodes d" and "B \<subseteq> old_nodes d"
  shows "keeps B (insert p P) d (andthen (allocate_preferred k i d) (\<lambda>c. append_child_without_invalidation p c))"
  by (rule keeps_andthen [OF keeps_allocate [OF assms(1)]]) (rule keeps_append_new [OF assms(1) _ assms(2,3)])

lemma import_ok:
  shows "live_ok d \<Longrightarrow> set_option parent \<subseteq> old_nodes d \<Longrightarrow> B \<subseteq> old_nodes d \<Longrightarrow>
      keeps B (set_option parent) d (import_element order x parent d)"
    and "live_ok d \<Longrightarrow> p \<in> old_nodes d \<Longrightarrow> B \<subseteq> old_nodes d \<Longrightarrow> keeps B {p} d (import_children order cs p d)"
proof (induction order x parent d and order cs p d rule: import_element_import_children.induct)
  case (1 order i t m cs x v parent d)
  note ok = 1(2) and par = 1(3) and B = 1(4)
  let ?P = "set_option parent"
  show ?case unfolding import_element.simps
  proof (rule keeps_andthen [OF keeps_allocate [OF ok]])
    fix n d1 assume a: "allocate_preferred (LElement t (imported_attrs order m) v) i d = (Inr n, d1)" and ok1: "live_ok d1"
      and g1: "grows d d1"
    have n1: "n \<in> old_nodes d1" and nB: "n \<notin> B" using allocated_ok(2) [OF ok a] B by (auto simp: bt_get_insert old_nodes_def)
    let ?r = "case parent of None \<Rightarrow> (Inr (), d1) | Some p \<Rightarrow> append_child_without_invalidation p n d1"
    have "keeps B ?P d1 ?r" using keeps_append_new [OF ok a _ B, where P = "{}"] par ok1 by (cases parent) simp_all
    then show "keeps B ?P d1 (andthen ?r (\<lambda>_ d.
        andthen (if x = [] then (Inr (), d) else andthen (allocate_node (LText (bounded_text x)) d) (append_child_without_invalidation n))
          (\<lambda>_ d. andthen (import_children order cs n d) (\<lambda>_ d. (Inr n, d)))))"
    proof (rule keeps_andthen)
      fix u d2 assume b: "?r = (Inr u, d2)" and ok2: "live_ok d2" and g2: "grows d1 d2"
      have n2: "n \<in> old_nodes d2" and B2: "B \<subseteq> old_nodes d2" using n1 B g1 g2 by (auto intro: grows_old)
      let ?t = "if x = [] then (Inr (), d2) else andthen (allocate_node (LText (bounded_text x)) d2) (append_child_without_invalidation n)"
      have "keeps B {n} d2 ?t" using keeps_new_child [OF ok2 n2 B2, where P = "{}"] ok2 by (simp add: allocate_node_def)
      then have "keeps B ?P d2 ?t" using nB by (auto intro: keeps_weaken)
      then show "keeps B ?P d2 (andthen ?t (\<lambda>_ d. andthen (import_children order cs n d) (\<lambda>_ d. (Inr n, d))))"
      proof (rule keeps_andthen)
        fix u' d3 assume c: "?t = (Inr u', d3)" and ok3: "live_ok d3" and g3: "grows d2 d3"
        then have "n \<in> old_nodes d3" "B \<subseteq> old_nodes d3" using n2 B2 by (auto intro: grows_old)
        then have "keeps B {n} d3 (import_children order cs n d3)" using 1(1) [OF a b c ok3] by simp
        then have "keeps B ?P d3 (import_children order cs n d3)" using nB by (auto intro: keeps_weaken)
        then show "keeps B ?P d3 (andthen (import_children order cs n d3) (\<lambda>_ d. (Inr n, d)))" by (rule keeps_andthen) simp
      qed
    qed
  qed
next
  case (2 order p d)
  then show ?case by simp
next
  case (3 order c cs p d)
  have "keeps B {p} d (import_element order c (Some p) d)" using 3 by simp
  then show ?case unfolding import_children.simps
  proof (rule keeps_andthen)
    fix n s assume "import_element order c (Some p) d = (Inr n, s)" "live_ok s" "grows d s"
    then show "keeps B {p} s (import_children order cs p s)" using 3(2) [of n s] 3(4,5) by (auto intro: grows_old)
  qed
qed

lemma andthen_eq_Inr: "andthen r f = (Inr y, s') \<longleftrightarrow> (\<exists>x s. r = (Inr x, s) \<and> f x s = (Inr y, s'))"
  by (auto simp: andthen_def split: prod.splits sum.splits)

lemma framed_parent: "framed B P nodes nodes' \<Longrightarrow> m \<in> B \<Longrightarrow> bt_get m nodes \<noteq> None \<Longrightarrow> parent_of nodes' m = parent_of nodes m"
  by (force simp: framed_def)

lemma keeps_node:
  "keeps B P d r \<Longrightarrow> m \<in> B \<Longrightarrow> m \<in> old_nodes d \<Longrightarrow>
     live_ok (snd r) \<and> m \<in> old_nodes (snd r) \<and> parent_of (ld_nodes (snd r)) m = parent_of (ld_nodes d) m"
  using framed_parent [of B P "ld_nodes d" "ld_nodes (snd r)" m] grows_old [of d "snd r" m] by (simp add: keeps_def old_nodes_def)

lemma append_result:
  assumes "append_child_without_invalidation p n d = (Inr u, d')" and "p \<noteq> n"
  shows "parent_of (ld_nodes d') n = Some p"
proof (cases rule: append_fresh_cases [of p n d])
  case (joined pe ce)
  with assms show ?thesis by (auto simp: link_child_eq linked_get)
qed (use assms in simp)

lemma import_result:
  assumes ok: "live_ok d" and par: "set_option parent \<subseteq> old_nodes d" and i: "import_element order x parent d = (Inr n, d')"
  shows "n \<notin> old_nodes d" and "n \<in> old_nodes d'" and "parent_of (ld_nodes d') n = parent"
proof -
  obtain i t m cs s v where x: "x = Element i t m cs s v" by (cases x)
  obtain d1 d2 d3 where a: "allocate_preferred (LElement t (imported_attrs order m) v) i d = (Inr n, d1)"
    and b: "(case parent of None \<Rightarrow> (Inr (), d1) | Some p \<Rightarrow> append_child_without_invalidation p n d1) = (Inr (), d2)"
    and c: "(if s = [] then (Inr (), d2)
      else andthen (allocate_node (LText (bounded_text s)) d2) (append_child_without_invalidation n)) = (Inr (), d3)"
    and k: "import_children order cs n d3 = (Inr (), d')"
    using i unfolding x import_element.simps andthen_eq_Inr by auto
  note A = allocated_ok(2) [OF ok a]
  have ok1: "live_ok d1" using allocated_ok(1) [OF ok] a by (metis snd_conv)
  show new: "n \<notin> old_nodes d" using A by (simp add: old_nodes_def)
  have n1: "n \<in> old_nodes d1" using A by (simp add: old_nodes_def bt_get_insert)
  have k2: "keeps {} (set_option parent) d1 (Inr () :: error + unit, d2)"
  proof (cases parent)
    case None
    with b ok1 show ?thesis by simp
  next
    case (Some p)
    with b par show ?thesis using keeps_append_new [OF ok a, of p "{}" "{}"] by simp
  qed
  have p2: "parent_of (ld_nodes d2) n = parent"
  proof (cases parent)
    case None
    with b A show ?thesis by (simp add: parent_of_insert)
  next
    case (Some p)
    with par new have "p \<noteq> n" by auto
    with Some b show ?thesis using append_result by simp
  qed
  have n2: "n \<in> old_nodes d2" and ok2: "live_ok d2" using k2 n1 by (auto simp: keeps_def intro: grows_old)
  have k3: "keeps {n} {n} d2 (Inr () :: error + unit, d3)"
    using keeps_new_child [OF ok2 n2, of "{n}" "{}" "LText (bounded_text s)" None] n2 c ok2 by (auto simp: allocate_node_def split: if_splits)
  have n3: "n \<in> old_nodes d3" and ok3: "live_ok d3" and p3: "parent_of (ld_nodes d3) n = parent"
    using keeps_node [OF k3 _ n2] p2 by simp_all
  have k4: "keeps {n} {n} d3 (Inr () :: error + unit, d')" using import_ok(2) [OF ok3 n3, of "{n}" order cs] n3 k by simp
  then show "n \<in> old_nodes d'" "parent_of (ld_nodes d') n = parent"
    using keeps_node [OF k4 _ n3] p3 by simp_all
qed

text \<open>The old nodes are closed under going up, so a new tree is not above an old node.\<close>

lemma old_not_below_new:
  assumes ok: "live_ok d" and fr: "framed (old_nodes d) P (ld_nodes d) (ld_nodes d')" and p: "p \<in> old_nodes d" and n: "n \<notin> old_nodes d"
  shows "(p, n) \<notin> (links (ld_nodes d'))\<^sup>*"
proof
  assume "(p, n) \<in> (links (ld_nodes d'))\<^sup>*"
  then have "n \<in> old_nodes d"
  proof (induction rule: rtrancl_induct)
    case (step y z)
    then have "parent_of (ld_nodes d) y = Some z" using framed_parent [OF fr, of y] by (simp add: links_def old_nodes_def)
    then show ?case using forest_kid_parent [OF live_ok_forest [OF ok]] kids_live by (fastforce simp: old_nodes_def)
  qed (rule p)
  with n show False by simp
qed

lemma keeps_import_subtree:
  assumes "live_ok d" and "B \<subseteq> old_nodes d"
  shows "keeps B {} d (import_subtree order x d)"
  unfolding import_subtree_def by (rule keeps_andthen) (use import_ok(1) [OF assms(1), of None B] assms in auto)

lemma keeps_fragment:
  assumes "live_ok d" and "p \<in> old_nodes d" and "B \<subseteq> old_nodes d"
  shows "keeps B {p} d (append_imported order cs p d)"
  using assms
proof (induction cs arbitrary: d)
  case (Cons c cs)
  have "keeps B {p} d (import_subtree order c d)" using keeps_import_subtree Cons.prems by (blast intro: keeps_weaken)
  then show ?case unfolding append_imported.simps
  proof (rule keeps_andthen)
    fix n s assume i: "import_subtree order c d = (Inr n, s)" and ok: "live_ok s" and g: "grows d s"
    then obtain s0 where i0: "import_element order (clear_node_ids c) None d = (Inr n, s0)" and s: "s = mark_mutated s0"
      by (auto simp: import_subtree_def andthen_eq_Inr)
    have n: "n \<notin> old_nodes d" "parent_of (ld_nodes s0) n = None" using import_result [OF Cons.prems(1) _ i0] by simp_all
    have "framed (old_nodes d) {} (ld_nodes d) (ld_nodes s0)"
      using import_ok(1) [OF Cons.prems(1), of None "old_nodes d" order "clear_node_ids c"] i0 by (simp add: keeps_def)
    then have "(p, n) \<notin> (links (ld_nodes s0))\<^sup>*" using old_not_below_new [OF Cons.prems(1)] Cons.prems(2) n(1) by blast
    then have "keeps B {p} s (append_child_without_invalidation p n s)"
      using n Cons.prems(3) by (intro keeps_append [OF ok]) (auto simp: s mark_mutated_def)
    then show "keeps B {p} s (andthen (append_child_without_invalidation p n s) (\<lambda>_. append_imported order cs p))"
    proof (rule keeps_andthen)
      fix u s' assume "live_ok s'" "grows s s'"
      then show "keeps B {p} s' (append_imported order cs p s')" using Cons.IH Cons.prems(2,3) g by (meson grows_old subset_iff)
    qed
  qed
qed simp

lemma keeps_parsed_fragment:
  assumes "live_ok d" and "p \<in> old_nodes d" and "B \<subseteq> old_nodes d"
  shows "keeps B {p} d (append_parsed_fragment order x p d)"
  unfolding append_parsed_fragment_def
proof (rule keeps_andthen [OF keeps_fragment [OF assms]])
  fix u s assume "live_ok s" "grows d s"
  then show "keeps B {p} s (if elem_text x = [] then (Inr (), s)
      else andthen (create_text_node (elem_text x) s) (append_child_without_invalidation p))"
    using keeps_new_child [of s p B "{}"] assms(2,3)
    by (auto simp: create_text_node_def allocate_node_def intro: grows_old)
qed

end
