(* ===== verification/Live_Session.thy ===== *)
theory Live_Session
  imports Live_Events Live_Invariant
begin

text \<open>
  Whole runs of the live document: every operation, with the events and default actions, keeps the invariant.
\<close>

section \<open>Attributes, text and markup\<close>

lemma change_attrs_ok:
  assumes "live_ok d"
  shows "live_ok (snd (change_attrs n f d))"
proof (cases "bt_get n (ld_nodes d)")
  case (Some e)
  show ?thesis
  proof (cases "ln_kind e")
    case (LElement t m v)
    have "tree_ok (bt_insert n (e\<lparr>ln_kind := LElement t (f m) v\<rparr>) (ld_nodes d)) (ld_next_node_id d)"
    proof (rule tree_ok_change)
      show "tree_ok (ld_nodes d) (ld_next_node_id d)" using assms by (simp add: live_ok_def)
      show "forest_ok (bt_insert n (e\<lparr>ln_kind := LElement t (f m) v\<rparr>) (ld_nodes d))"
        by (rule forest_set_kind [OF live_ok_forest [OF assms] Some]) (simp add: LElement is_element_kind_def)
    qed (use assms Some in \<open>auto simp: bt_get_insert bt_length_insert live_ok_def tree_ok_def forest_ok_def split: if_splits\<close>)
    with Some LElement assms show ?thesis by (simp add: change_attrs_def live_ok_nodes)
  qed (simp add: change_attrs_def Some assms)
qed (simp add: change_attrs_def assms)

lemma set_attribute_ok: "live_ok d \<Longrightarrow> live_ok (snd (live_set_attribute n name v d))"
  unfolding live_set_attribute_def by (intro andthen_ok) (simp_all add: change_attrs_ok)

lemma remove_attribute_ok: "live_ok d \<Longrightarrow> live_ok (snd (live_remove_attribute n name d))"
  unfolding live_remove_attribute_def by (intro andthen_ok) (simp_all add: change_attrs_ok)

lemma create_element_ok: "live_ok d \<Longrightarrow> live_ok (snd (live_create_element t d))"
  unfolding live_create_element_def allocate_node_def by (intro andthen_ok) (simp_all add: allocated_ok)

lemma cleared_old: "live_ok d \<Longrightarrow> bt_get n (ld_nodes d) = Some e \<Longrightarrow> n \<in> old_nodes (d\<lparr>ld_nodes := cleared n (ld_nodes d)\<rparr>)"
  by (simp add: old_nodes_def cleared_get live_ok_forest)

lemma set_text_content_ok:
  assumes ok: "live_ok d"
  shows "live_ok (snd (set_text_content n v d))"
proof (cases "bt_get n (ld_nodes d)")
  case None
  then show ?thesis using ok by (simp add: set_text_content_def andthen_checked require_node_def)
next
  case (Some e)
  define r where "r = (if \<not> is_element_kind (ln_kind e) then update_node n NODE_GONE (\<lambda>e. e\<lparr>ln_kind := LText (bounded_text v)\<rparr>) d
    else andthen (clear_children n NODE_GONE e d) (\<lambda>_ d. if bounded_text v = [] then (Inr (), d)
      else andthen (create_text_node (bounded_text v) d) (append_child_without_invalidation n)))"
  have "live_ok (snd r)"
  proof (cases "is_element_kind (ln_kind e)")
    case True
    let ?d = "d\<lparr>ld_nodes := cleared n (ld_nodes d)\<rparr>"
    have "live_ok ?d" "n \<in> old_nodes ?d" using clear_children_ok [OF ok Some] cleared_old [OF ok Some] by simp_all
    then have "live_ok (snd (andthen (create_text_node (bounded_text v) ?d) (append_child_without_invalidation n)))"
      using keeps_new_child [of ?d n "{}" "{}"] by (simp add: create_text_node_def allocate_node_def keeps_def)
    with True \<open>live_ok ?d\<close> show ?thesis by (simp add: r_def clear_children_eq [OF ok Some])
  next
    case False
    have "tree_ok (bt_insert n (e\<lparr>ln_kind := LText (bounded_text v)\<rparr>) (ld_nodes d)) (ld_next_node_id d)"
    proof (rule tree_ok_change)
      show "tree_ok (ld_nodes d) (ld_next_node_id d)" using ok by (simp add: live_ok_def)
      show "forest_ok (bt_insert n (e\<lparr>ln_kind := LText (bounded_text v)\<rparr>) (ld_nodes d))"
        by (rule forest_set_kind [OF live_ok_forest [OF ok] Some]) (use False in \<open>simp add: is_element_kind_def\<close>)
    qed (use ok Some in \<open>auto simp: bt_get_insert bt_length_insert live_ok_def tree_ok_def forest_ok_def split: if_splits\<close>)
    with False Some ok show ?thesis by (simp add: r_def update_node_def live_ok_nodes)
  qed
  then have "live_ok (snd (andthen r (\<lambda>_ d. (Inr (), mark_mutated d))))" by (rule andthen_ok) simp
  with Some show ?thesis by (simp add: set_text_content_def andthen_checked require_node_def Let_def r_def)
qed

lemma markup_ok:
  assumes ok: "live_ok d" and e: "bt_get n (ld_nodes d) = Some e"
  shows "live_ok (snd (andthen (clear_children n msg e d) (\<lambda>_ d. andthen (checked (parse_html lower html) d) (\<lambda>parsed d.
    andthen (append_parsed_fragment order parsed n d) (\<lambda>_ d. (Inr (), mark_mutated d))))))"
proof -
  let ?d = "d\<lparr>ld_nodes := cleared n (ld_nodes d)\<rparr>"
  have "live_ok ?d" "n \<in> old_nodes ?d" using clear_children_ok [OF ok e] cleared_old [OF ok e] by simp_all
  then have frag: "live_ok (snd (append_parsed_fragment order x n ?d))" for x
    using keeps_parsed_fragment [of ?d n "{}" order x] by (simp add: keeps_def)
  show ?thesis unfolding clear_children_eq [OF ok e] andthen_simps
    by (intro andthen_ok) (auto simp: \<open>live_ok ?d\<close> frag)
qed

lemma set_inner_html_ok: "live_ok d \<Longrightarrow> live_ok (snd (set_inner_html lower order n html d))"
  using markup_ok [of d n] by (simp add: set_inner_html_def andthen_checked require_node_def split: sum.split option.split)
    (auto simp: ok_or_def split: option.splits)

lemma set_shadow_html_ok: "live_ok d \<Longrightarrow> live_ok (snd (set_shadow_html lower order n html d))"
  using markup_ok [of d n] by (auto simp: set_shadow_html_def andthen_checked result_simps split: sum.split)

lemma attach_shadow_ok:
  assumes ok: "live_ok d"
  shows "live_ok (snd (attach_shadow host mode d))"
proof (cases "length (ld_shadows d) \<ge> MAX_SHADOW_ROOTS \<or> bt_get host (ld_nodes d) = None")
  case True
  with ok show ?thesis by (auto simp: attach_shadow_def andthen_checked require_element_def require_node_def)
next
  case False
  then have old: "host \<in> old_nodes d" and room: "length (ld_shadows d) < MAX_SHADOW_ROOTS" by (auto simp: old_nodes_def)
  have new: "live_ok (snd (andthen (allocate_node (LElement SHADOW_TAG [] False) d) (\<lambda>root d.
      andthen (append_child_without_invalidation host root d) (\<lambda>_ d. (Inr root, mark_mutated
        (d\<lparr>ld_shadows := bt_insert host \<lparr>sr_host = host, sr_root = root, sr_mode = mode\<rparr> (ld_shadows d)\<rparr>))))))"
    unfolding allocate_node_def
  proof (rule andthen_ok [OF allocated_ok(1) [OF ok]])
    fix root d1 assume a: "allocate_preferred (LElement SHADOW_TAG [] False) None d = (Inr root, d1)" and ok1: "live_ok d1"
    have K: "keeps {} {host} d1 (append_child_without_invalidation host root d1)"
      using keeps_append_new [OF ok a old, of "{}" "{}"] by simp
    show "live_ok (snd (andthen (append_child_without_invalidation host root d1) (\<lambda>_ d. (Inr root, mark_mutated
        (d\<lparr>ld_shadows := bt_insert host \<lparr>sr_host = host, sr_root = root, sr_mode = mode\<rparr> (ld_shadows d)\<rparr>)))))"
    proof (rule andthen_ok)
      show "live_ok (snd (append_child_without_invalidation host root d1))" using K by (simp add: keeps_def)
      fix u s assume "append_child_without_invalidation host root d1 = (Inr u, s)" and ok2: "live_ok s"
      then have "ld_shadows s = ld_shadows d" using K allocated_ok(2) [OF ok a] by (simp add: keeps_def grows_def)
      with ok2 room show "live_ok (snd (Inr root, mark_mutated
          (s\<lparr>ld_shadows := bt_insert host \<lparr>sr_host = host, sr_root = root, sr_mode = mode\<rparr> (ld_shadows s)\<rparr>)))"
        by (auto simp: live_ok_def tables_ok_def mark_mutated_def bt_insert_ok bt_length_insert bt_get_insert)
    qed
  qed
  then show ?thesis using ok by (auto simp: attach_shadow_def andthen_checked split: sum.split)
qed

lemma clone_ok:
  shows "live_ok d \<Longrightarrow> live_ok (snd (clone_walk fuel n deep d))"
    and "live_ok d \<Longrightarrow> live_ok (snd (clone_children fuel ns c d))"
proof (induction fuel n deep d and fuel ns c d rule: clone_walk_clone_children.induct)
  case (2 fuel n deep d)
  show ?case unfolding clone_walk.simps
  proof (rule andthen_ok)
    fix e s assume e: "checked (require_node n d) d = (Inr e, s)" and "live_ok s"
    show "live_ok (snd (andthen (allocate_node (ln_kind e) s) (\<lambda>clone d.
        andthen (if deep then clone_children fuel (ln_children e) clone d else (Inr (), d)) (\<lambda>_ d. (Inr clone, mark_mutated d)))))"
    proof (rule andthen_ok)
      show "live_ok (snd (allocate_node (ln_kind e) s))" using \<open>live_ok s\<close> by (simp add: allocate_node_def allocated_ok)
      fix c t assume a: "allocate_node (ln_kind e) s = (Inr c, t)" and "live_ok t"
      show "live_ok (snd (andthen (if deep then clone_children fuel (ln_children e) c t else (Inr (), t)) (\<lambda>_ d. (Inr c, mark_mutated d))))"
        using 2(1) [OF e a] \<open>live_ok t\<close> by (intro andthen_ok) auto
    qed
  qed (simp add: 2(2))
next
  case (5 fuel c cs clone d)
  show ?case unfolding clone_children.simps
  proof (rule andthen_ok [OF 5(1) [OF 5(3)]])
    fix x s assume w: "clone_walk (Suc fuel) c True d = (Inr x, s)" and "live_ok s"
    show "live_ok (snd (andthen (append_child clone x s) (\<lambda>_. clone_children (Suc fuel) cs clone)))"
      by (rule andthen_ok [OF append_child_ok [OF \<open>live_ok s\<close>]]) (rule 5(2) [OF w])
  qed
qed simp_all

section \<open>Listeners and dispatch\<close>

lemma listener_count_total: "listener_count d = listener_total (ld_listeners d)"
proof -
  have "bt_sum (\<lambda>_. length) m = sum_list (map length (bt_values m))" for m :: "(nat, 'a event_listener list) btree"
    by (induction m) (auto simp: bt_values_def)
  then show ?thesis by (simp add: listener_count_def listener_total_def)
qed

lemma listener_total_insert:
  assumes "bt_ok m"
  shows "listener_total (bt_insert n ls m) + (case bt_get n m of None \<Rightarrow> 0 | Some old \<Rightarrow> length old) = listener_total m + length ls"
  using bt_sum_insert [OF assms, of "\<lambda>_. length"] by (simp add: listener_total_def)

lemma live_ok_listeners:
  "live_ok d \<Longrightarrow> bt_ok ls \<Longrightarrow> listener_total ls \<le> MAX_EVENT_LISTENERS \<Longrightarrow> live_ok (d\<lparr>ld_listeners := ls\<rparr>)"
  by (simp add: live_ok_def tables_ok_def)

lemma live_ok_listenersD: "live_ok d \<Longrightarrow> bt_ok (ld_listeners d) \<and> listener_total (ld_listeners d) \<le> MAX_EVENT_LISTENERS"
  by (simp add: live_ok_def tables_ok_def)

lemma live_ok_next_listener [simp]: "live_ok (d\<lparr>ld_next_listener_id := n\<rparr>) \<longleftrightarrow> live_ok d"
  by (simp add: live_ok_def tables_ok_def)

lemma add_listener_ok:
  assumes ok: "live_ok d"
  shows "live_ok (snd (add_event_listener n t options callback d))"
proof -
  have "live_ok (d\<lparr>ld_next_listener_id := k, ld_listeners := bt_insert n ((case bt_get n (ld_listeners d) of None \<Rightarrow> [] | Some ls \<Rightarrow> ls) @ [l]) (ld_listeners d)\<rparr>)"
    if "listener_count d < MAX_EVENT_LISTENERS" for k l
    using that ok live_ok_listenersD [OF ok]
      listener_total_insert [of "ld_listeners d" n "(case bt_get n (ld_listeners d) of None \<Rightarrow> [] | Some ls \<Rightarrow> ls) @ [l]"]
    by (intro live_ok_listeners) (auto simp: bt_insert_ok listener_count_total split: option.splits)
  then show ?thesis using ok
    by (auto simp: add_event_listener_def andthen_checked Let_def split: sum.split option.split)
qed

text \<open>Replacing the listeners of a node by some of them.\<close>

lemma fewer_listeners_ok:
  assumes ok: "live_ok d" and ls: "bt_get n (ld_listeners d) = Some ls"
  shows "live_ok (d\<lparr>ld_listeners := bt_insert n (filter P ls) (ld_listeners d)\<rparr>)"
proof (rule live_ok_listeners [OF ok])
  have L: "bt_ok (ld_listeners d)" "listener_total (ld_listeners d) \<le> MAX_EVENT_LISTENERS" using live_ok_listenersD [OF ok] by simp_all
  then show "bt_ok (bt_insert n (filter P ls) (ld_listeners d))" by (simp add: bt_insert_ok)
  have "listener_total (bt_insert n (filter P ls) (ld_listeners d)) + length ls = listener_total (ld_listeners d) + length (filter P ls)"
    using listener_total_insert [OF L(1), of n "filter P ls"] ls by simp
  then show "listener_total (bt_insert n (filter P ls) (ld_listeners d)) \<le> MAX_EVENT_LISTENERS"
    using L(2) length_filter_le [of P ls] by linarith
qed

lemma remove_listener_ok: "live_ok d \<Longrightarrow> live_ok (snd (remove_event_listener n i d))"
  using fewer_listeners_ok [of d n _ "\<lambda>l. li_id l \<noteq> i"] by (simp add: remove_event_listener_def Let_def split: option.split)

text \<open>A dispatch changes the world and drops listeners; it leaves the tree alone.\<close>

definition same_tree :: "'w live_document \<Rightarrow> 'w live_document \<Rightarrow> bool" where
  "same_tree d d' \<longleftrightarrow>
     ld_nodes d' = ld_nodes d \<and> ld_next_node_id d' = ld_next_node_id d \<and> ld_shadows d' = ld_shadows d \<and> ld_root d' = ld_root d \<and>
     ld_focused d' = ld_focused d \<and> ld_invalidation d' = ld_invalidation d \<and> (live_ok d \<longrightarrow> live_ok d')"

lemma same_tree_refl [simp]: "same_tree d d"
  by (simp add: same_tree_def)

lemma same_tree_trans: "same_tree d d' \<Longrightarrow> same_tree d' d'' \<Longrightarrow> same_tree d d''"
  by (simp add: same_tree_def)

abbreviation doc_of :: "'a \<times> 'b \<times> 'w live_document \<Rightarrow> 'w live_document" where
  "doc_of s \<equiv> snd (snd s)"

lemma invoke_same_tree: "same_tree (doc_of s) (doc_of (invoke_listeners n phase capture s))"
proof -
  obtain ev rep d where s: "s = (ev, rep, d)" by (cases s)
  obtain ev' w inv once where r: "run_listeners n phase (matching_listeners n (de_type ev) capture d) ev (ld_world d) (dr_invoked rep) {}
      = (ev', w, inv, once)" by (cases "run_listeners n phase (matching_listeners n (de_type ev) capture d) ev (ld_world d) (dr_invoked rep) {}")
  have "live_ok (d\<lparr>ld_world := w, ld_listeners := (if once = {} then ld_listeners d else
      case bt_get n (ld_listeners d) of None \<Rightarrow> ld_listeners d | Some ls \<Rightarrow> bt_insert n (filter (\<lambda>l. li_id l \<notin> once) ls) (ld_listeners d))\<rparr>)"
    if "live_ok d"
  proof -
    have "live_ok (d\<lparr>ld_world := w\<rparr>)" using that by simp
    then show ?thesis using fewer_listeners_ok [of "d\<lparr>ld_world := w\<rparr>" n _ "\<lambda>l. li_id l \<notin> once"]
      by (auto split: option.split)
  qed
  then show ?thesis by (simp add: s invoke_listeners_def r same_tree_def)
qed

lemma pass_same_tree: "same_tree (doc_of s) (doc_of (dispatch_pass phase capture ns s))"
proof (induction ns arbitrary: s)
  case (Cons n ns)
  show ?case using invoke_same_tree [of s n phase capture] same_tree_trans [OF invoke_same_tree [of s n phase capture] Cons.IH]
    by (simp add: Let_def)
qed simp

lemma target_same_tree: "same_tree (doc_of s) (doc_of (dispatch_at_target n s))"
  by (auto simp: dispatch_at_target_def Let_def intro: same_tree_trans invoke_same_tree)

lemma finish_doc [simp]: "doc_of (finish_report s) = doc_of s"
  "doc_of (case s of (ev, rep, d) \<Rightarrow> finish_report (f ev, rep, d)) = doc_of s"
  by (simp_all add: finish_report_def split: prod.split)

lemma dispatch_same_tree: "same_tree d (doc_of (dispatch_event n ev d))"
proof -
  have s1: "same_tree d (doc_of (dispatch_pass Capturing True ns (ev, no_report, d)))" for ns
    using pass_same_tree [of "(ev, no_report, d)"] by simp
  have s2: "same_tree d (doc_of (dispatch_at_target n (dispatch_pass Capturing True ns (ev, no_report, d))))" for ns
    by (rule same_tree_trans [OF s1 target_same_tree])
  have s3: "same_tree d (doc_of (dispatch_pass Bubbling False ms (dispatch_at_target n (dispatch_pass Capturing True ns (ev, no_report, d)))))"
    for ms ns by (rule same_tree_trans [OF s2 pass_same_tree])
  show ?thesis
    unfolding dispatch_event_def Let_def
    by (simp add: s1 s2 s3 del: dispatch_pass.simps split: sum.split)
qed

lemma dispatch_new_same_tree: "same_tree d (snd (dispatch_new n ev d))"
  using dispatch_same_tree [of d n ev] by (cases "dispatch_event n ev d") (simp add: dispatch_new_def)

lemma same_tree_ok: "same_tree d d' \<Longrightarrow> live_ok d \<Longrightarrow> live_ok d'"
  by (simp add: same_tree_def)

lemmas dispatch_ok = same_tree_ok [OF dispatch_new_same_tree]

section \<open>Focus and default actions\<close>

lemma focus_ok:
  assumes ok: "live_ok d"
  shows "live_ok (snd (focus n d))"
proof -
  have leave: "live_ok (snd (case ld_focused d of None \<Rightarrow> (Inr (), d) | Some previous \<Rightarrow>
      andthen (dispatch_new previous ((new_event (lit ''blur'') previous)\<lparr>de_bubbles := False\<rparr>) d) (\<lambda>_ d.
      andthen (dispatch_new previous (new_event (lit ''focusout'') previous) d) (\<lambda>_ d. (Inr (), d)))))"
    using ok by (auto split: option.split intro!: andthen_ok dispatch_ok)
  have enter: "live_ok (snd (andthen (dispatch_new n ((new_event (lit ''focus'') n)\<lparr>de_bubbles := False\<rparr>) (s\<lparr>ld_focused := Some n\<rparr>)) (\<lambda>_ d.
      andthen (dispatch_new n (new_event (lit ''focusin'') n) d) (\<lambda>_ d. (Inr (), d)))))" if "live_ok s" for s
    using that by (auto intro!: andthen_ok dispatch_ok)
  show ?thesis using ok andthen_ok [OF leave enter] unfolding focus_def by (auto simp: andthen_checked split: sum.split)
qed

lemma clear_radios_ok: "live_ok d \<Longrightarrow> live_ok (snd (clear_radios target name form ns d))"
proof (induction ns arbitrary: d)
  case (Cons n ns)
  show ?case unfolding clear_radios.simps by (rule andthen_ok) (use Cons remove_attribute_ok in auto)
qed simp

lemma remove_attribute_from_ok: "live_ok d \<Longrightarrow> live_ok (snd (remove_attribute_from ns name d))"
proof (induction ns arbitrary: d)
  case (Cons n ns)
  show ?case unfolding remove_attribute_from.simps by (rule andthen_ok) (use Cons remove_attribute_ok in auto)
qed simp

lemma activate_radio_ok: "live_ok d \<Longrightarrow> live_ok (snd (activate_radio target d))"
  unfolding activate_radio_def by (intro andthen_ok clear_radios_ok set_attribute_ok)

lemma focus_action_ok: "live_ok d \<Longrightarrow> live_ok (snd (focus_action target d))"
  unfolding focus_action_def by (intro andthen_ok focus_ok) simp_all

lemma submit_closest_ok: "live_ok d \<Longrightarrow> live_ok (snd (submit_closest target d))"
  by (auto simp: submit_closest_def split: option.split intro!: andthen_ok set_attribute_ok)

lemma advance_select_ok: "live_ok d \<Longrightarrow> live_ok (snd (advance_select target d))"
  by (auto simp: advance_select_def Let_def intro!: andthen_ok set_attribute_ok remove_attribute_from_ok)

lemma toggle_checkbox_ok: "live_ok d \<Longrightarrow> live_ok (snd (toggle_checkbox target d))"
  by (auto simp: toggle_checkbox_def Let_def intro!: andthen_ok set_attribute_ok remove_attribute_ok)

lemma click_default_ok: "live_ok d \<Longrightarrow> live_ok (snd (apply_click_default target d))"
  by (auto simp: apply_click_default_def Let_def focus_action_ok submit_closest_ok advance_select_ok toggle_checkbox_ok
    split: option.split intro!: andthen_ok activate_radio_ok)

lemma dispatch_cases:
  assumes "live_ok d"
  obtains r ev d' where "dispatch_event n e d = (r, ev, d')" and "live_ok d'"
  using same_tree_ok [OF dispatch_same_tree assms, of n e] by (cases "dispatch_event n e d") auto

lemma click_ok:
  assumes ok: "live_ok d"
  shows "live_ok (snd (click target d))"
proof -
  obtain r ev d' where "dispatch_event target (new_event (lit ''click'') target) d = (r, ev, d')" "live_ok d'"
    by (rule dispatch_cases [OF ok])
  then show ?thesis by (auto simp: click_def split: sum.split intro!: andthen_ok click_default_ok)
qed

lemma insert_key_ok: "live_ok d \<Longrightarrow> live_ok (snd (insert_key target k d))"
  by (simp add: insert_key_def set_text_content_ok set_attribute_ok)

lemma key_default_ok: "live_ok d \<Longrightarrow> live_ok (snd (apply_key_default target k d))"
  by (auto simp: apply_key_default_def focus_action_ok split: option.split intro!: andthen_ok click_ok insert_key_ok dispatch_ok)

lemma keyboard_ok:
  assumes ok: "live_ok d"
  shows "live_ok (snd (dispatch_keyboard t k d))"
proof -
  let ?n = "case ld_focused d of None \<Rightarrow> ld_root d | Some n \<Rightarrow> n"
  obtain r ev d' where "dispatch_event ?n ((new_event t ?n)\<lparr>de_key := Some (take 128 k)\<rparr>) d = (r, ev, d')" "live_ok d'"
    by (rule dispatch_cases [OF ok])
  then show ?thesis by (auto simp: dispatch_keyboard_def Let_def split: sum.split intro!: andthen_ok key_default_ok)
qed

section \<open>Runs\<close>

datatype 'w live_op =
    CreateElement ustr
  | CreateText ustr
  | ImportSubtree element
  | CloneNode nat bool
  | AppendChild nat nat
  | RemoveChild nat nat
  | SetText nat ustr
  | SetAttribute nat ustr ustr
  | RemoveAttribute nat ustr
  | AttachShadow nat shadow_mode
  | SetShadowHtml nat ustr
  | SetInnerHtml nat ustr
  | AddListener nat ustr listener_options "dom_event \<Rightarrow> 'w \<Rightarrow> dom_event \<times> 'w"
  | RemoveListener nat nat
  | Dispatch nat dom_event
  | Click nat
  | Focus nat
  | Keyboard ustr ustr

definition live_step :: "(ustr \<Rightarrow> ustr) \<Rightarrow> attr_order \<Rightarrow> 'w live_document \<Rightarrow> 'w live_op \<Rightarrow> 'w live_document" where
  "live_step lower order d op =
     (case op of
        CreateElement t \<Rightarrow> snd (live_create_element t d)
      | CreateText s \<Rightarrow> snd (create_text_node s d)
      | ImportSubtree x \<Rightarrow> snd (import_subtree order x d)
      | CloneNode n deep \<Rightarrow> snd (clone_node n deep d)
      | AppendChild p c \<Rightarrow> snd (append_child p c d)
      | RemoveChild p c \<Rightarrow> snd (remove_child p c d)
      | SetText n s \<Rightarrow> snd (set_text_content n s d)
      | SetAttribute n name v \<Rightarrow> snd (live_set_attribute n name v d)
      | RemoveAttribute n name \<Rightarrow> snd (live_remove_attribute n name d)
      | AttachShadow n mode \<Rightarrow> snd (attach_shadow n mode d)
      | SetShadowHtml n html \<Rightarrow> snd (set_shadow_html lower order n html d)
      | SetInnerHtml n html \<Rightarrow> snd (set_inner_html lower order n html d)
      | AddListener n t options callback \<Rightarrow> snd (add_event_listener n t options callback d)
      | RemoveListener n i \<Rightarrow> snd (remove_event_listener n i d)
      | Dispatch n ev \<Rightarrow> snd (dispatch_new n ev d)
      | Click n \<Rightarrow> snd (click n d)
      | Focus n \<Rightarrow> snd (focus n d)
      | Keyboard t k \<Rightarrow> snd (dispatch_keyboard t k d))"

lemma live_step_ok:
  assumes "live_ok d"
  shows "live_ok (live_step lower order d op)"
proof (cases op)
  case (ImportSubtree x)
  then show ?thesis using keeps_import_subtree [OF assms, of "{}"] by (simp add: live_step_def keeps_def)
next
  case (CloneNode n deep)
  then have "live_step lower order d op = snd (clone_node n deep d)" by (simp add: live_step_def)
  then show ?thesis unfolding clone_node_def using clone_ok(1) [OF assms] by metis
qed (use assms in \<open>simp_all add: live_step_def create_element_ok create_text_node_def allocate_node_def allocated_ok
  append_child_ok remove_child_ok set_text_content_ok set_attribute_ok remove_attribute_ok attach_shadow_ok set_shadow_html_ok
  set_inner_html_ok add_listener_ok remove_listener_ok dispatch_ok click_ok focus_ok keyboard_ok\<close>)

lemma empty_document_ok: "live_ok (empty_document w)"
  by (simp add: live_ok_def tree_ok_def tables_ok_def forest_ok_def links_def parent_of_def bt_get_def empty_document_def
    listener_total_def u64_max_def acyclic_def)

lemma from_element_ok: "live_ok (from_element order x w)"
proof -
  have "keeps {} {} (empty_document w) (import_element order x None (empty_document w))"
    using import_ok(1) [OF empty_document_ok [of w], of None "{}" order x] by simp
  then show ?thesis by (auto simp: from_element_def keeps_def split: prod.split sum.split)
qed

interpretation live: component "live_step lower order" live_ok "from_element order x w" for lower order x w
  by unfold_locales (rule live_step_ok, assumption, rule from_element_ok)

end
