(* ===== verification/Live_Laws.thy ===== *)
theory Live_Laws
  imports Live_Session
begin

text \<open>
  What the operations of the live document do: the walks end and visit every node below their start once, in document order; appending is refused
  exactly for the reasons given and moves one node otherwise; the export of the composed tree ends as long as every shadow root is a
  child of its host.
\<close>

section \<open>The walk in document order\<close>

lemma order_walk_set: "order_walk fuel nodes ns = Some ws \<Longrightarrow> set ws = below nodes ns"
proof (induction fuel nodes ns arbitrary: ws rule: order_walk.induct)
  case (3 fuel nodes n ns)
  have eq: "(case bt_get n nodes of None \<Rightarrow> ns | Some e \<Rightarrow> ln_children e @ ns) = kids nodes n @ ns"
    by (simp add: kids_def split: option.split)
  from 3(2) obtain vs where "order_walk fuel nodes (kids nodes n @ ns) = Some vs" "ws = n # vs"
    unfolding order_walk.simps eq by auto
  with 3(1) [of vs] show ?case unfolding eq by (simp add: below_Cons [of _ n])
qed simp_all

text \<open>The nodes visited and those on the stack: distinct, and each but the start has its parent among the visited.\<close>

definition walk_inv :: "live_nodes \<Rightarrow> nat \<Rightarrow> nat list \<Rightarrow> nat set \<Rightarrow> bool" where
  "walk_inv nodes r ns V \<longleftrightarrow>
     distinct ns \<and> set ns \<inter> V = {} \<and> V \<subseteq> fst ` set nodes \<and> set ns \<subseteq> fst ` set nodes \<and>
     (\<forall>x \<in> set ns \<union> V. x = r \<or> (\<exists>p\<in>V. parent_of nodes x = Some p)) \<and> V \<subseteq> below nodes [r] \<and> set ns \<subseteq> below nodes [r]"

lemma walk_inv_step:
  assumes ok: "forest_ok nodes" and inv: "walk_inv nodes r (n # ns) V"
  shows "walk_inv nodes r (kids nodes n @ ns) (insert n V)"
proof -
  have kp: "\<And>c. c \<in> set (kids nodes n) \<longleftrightarrow> parent_of nodes c = Some n" using forest_kid_parent [OF ok] .
  have nb: "n \<in> below nodes [r]" "n \<notin> V" "n \<notin> set ns" using inv by (auto simp: walk_inv_def)
  have fresh: "c \<notin> set ns \<and> c \<notin> V \<and> c \<noteq> n \<and> c \<noteq> r" if "c \<in> set (kids nodes n)" for c
  proof (intro conjI)
    show "c \<noteq> n" using that kp forest_no_self [OF ok] by auto
    show cr: "c \<noteq> r"
    proof
      assume "c = r"
      with nb(1) not_below_kid [OF ok that] show False by simp
    qed
    then show "c \<notin> set ns" "c \<notin> V" using inv that kp nb(2) by (fastforce simp: walk_inv_def)+
  qed
  have dist: "distinct (kids nodes n)"
    using forest_node [OF ok] by (cases "bt_get n nodes") (auto simp: node_ok_def)
  have live: "set (kids nodes n) \<subseteq> fst ` set nodes"
    using kp parent_live bt_get_SomeD by (metis (no_types, lifting) fst_conv image_eqI subsetI)
  have "set (kids nodes n) \<subseteq> below nodes [r]" using nb(1) by (auto intro: below_closed)
  with inv fresh dist live kp nb show ?thesis unfolding walk_inv_def by auto
qed

lemma order_walk_ends:
  assumes "forest_ok nodes" and "walk_inv nodes r ns V" and "length nodes < fuel + card V"
  shows "\<exists>ws. order_walk fuel nodes ns = Some ws \<and> distinct ws \<and> set ws \<inter> V = {}"
  using assms
proof (induction fuel nodes ns arbitrary: V rule: order_walk.induct)
  case (2 nodes n ns)
  have "card V \<le> card (fst ` set nodes)" using 2(2) by (intro card_mono) (auto simp: walk_inv_def)
  moreover have "card (fst ` set nodes) \<le> length nodes" by (metis card_image_le card_length le_trans List.finite_set)
  ultimately show ?case using 2(3) by simp
next
  case (3 fuel nodes n ns)
  have eq: "(case bt_get n nodes of None \<Rightarrow> ns | Some e \<Rightarrow> ln_children e @ ns) = kids nodes n @ ns"
    by (simp add: kids_def split: option.split)
  have "finite V" "n \<notin> V" using 3(3) finite_subset by (auto simp: walk_inv_def)
  then have "length nodes < fuel + card (insert n V)" using 3(4) by simp
  then obtain ws where "order_walk fuel nodes (kids nodes n @ ns) = Some ws" "distinct ws" "set ws \<inter> insert n V = {}"
    using 3(1) [of "insert n V"] 3(2) walk_inv_step [OF 3(2,3)] unfolding eq by blast
  with \<open>n \<notin> V\<close> show ?case unfolding order_walk.simps eq by auto
qed simp

lemma preorder_spec:
  assumes ok: "forest_ok nodes"
  shows "order_walk (Suc (length nodes)) nodes [n] \<noteq> None" and "distinct (preorder_of nodes n)" and "set (preorder_of nodes n) = below nodes [n]"
proof -
  obtain ws where ws: "order_walk (Suc (length nodes)) nodes [n] = Some ws" and "distinct ws"
  proof (cases "n \<in> fst ` set nodes")
    case True
    then have "walk_inv nodes n [n] {}" by (auto simp: walk_inv_def intro: below_self)
    from order_walk_ends [OF ok this, of "Suc (length nodes)"] that show ?thesis by auto
  next
    case False
    then have "bt_get n nodes = None" by (simp add: bt_get_eq_None)
    then have "order_walk (Suc (length nodes)) nodes [n] = Some [n]" by simp
    then show ?thesis by (rule that) simp
  qed
  then show "order_walk (Suc (length nodes)) nodes [n] \<noteq> None" "distinct (preorder_of nodes n)"
    by (simp_all add: preorder_of_def del: order_walk.simps)
  show "set (preorder_of nodes n) = below nodes [n]" using ws order_walk_set [OF ws] by (simp add: preorder_of_def del: order_walk.simps)
qed

section \<open>The composed tree\<close>

text \<open>Every shadow root is still a child of its host.\<close>

definition shadows_linked :: "'w live_document \<Rightarrow> bool" where
  "shadows_linked d \<longleftrightarrow> (\<forall>h r. bt_get h (ld_shadows d) = Some r \<longrightarrow> sr_root r \<in> set (kids (ld_nodes d) h))"

definition weight :: "live_nodes \<Rightarrow> nat \<Rightarrow> nat" where
  "weight nodes n = card (below nodes [n])"

lemma weight_kid:
  assumes ok: "forest_ok nodes" and c: "c \<in> set (kids nodes n)"
  shows "weight nodes c < weight nodes n"
  unfolding weight_def
proof (rule psubset_card_mono [OF finite_below [OF ok]])
  have "below nodes [c] \<subseteq> below nodes [n]" using c by (intro below_trans below_closed [OF below_self])
  moreover have "n \<notin> below nodes [c]" by (rule not_below_kid [OF ok c])
  ultimately show "below nodes [c] \<subset> below nodes [n]" using below_self by blast
qed

lemma weight_le:
  assumes ok: "forest_ok nodes"
  shows "weight nodes n \<le> Suc (length nodes)"
proof -
  have "weight nodes n = length (preorder_of nodes n)"
    using preorder_spec(2,3) [OF ok, of n] by (simp add: weight_def distinct_card flip: preorder_spec(3) [OF ok])
  moreover have "length ws \<le> fuel" if "order_walk fuel nodes ns = Some ws" for fuel ns ws
    using that by (induction fuel nodes ns arbitrary: ws rule: order_walk.induct) auto
  ultimately show ?thesis using preorder_spec(1) [OF ok, of n] by (force simp: preorder_of_def)
qed

lemma weight_live:
  assumes ok: "forest_ok nodes" and n: "bt_get n nodes \<noteq> None"
  shows "weight nodes n \<le> length nodes"
proof -
  have "below nodes [n] \<subseteq> fst ` set nodes" using below_live [OF ok, of "[n]"] n by (auto simp: bt_get_eq_None)
  then have "weight nodes n \<le> card (fst ` set nodes)" unfolding weight_def by (intro card_mono) simp_all
  also have "\<dots> \<le> length nodes" by (metis card_image_le card_length le_trans List.finite_set)
  finally show ?thesis .
qed

text \<open>The measure of a call: the subtree of the host in whose shadow the node is, then its own.\<close>

definition export_measure :: "live_nodes \<Rightarrow> nat \<Rightarrow> nat option \<Rightarrow> nat" where
  "export_measure nodes n sh =
     weight nodes (case sh of None \<Rightarrow> n | Some h \<Rightarrow> h) * Suc (length nodes) + weight nodes n"

lemma export_child_fuel:
  assumes "\<And>e. bt_get c (ld_nodes d) = Some e \<Longrightarrow> rec c sh \<noteq> Inl OutOfFuel"
  shows "export_child rec d sh c e \<noteq> Inl OutOfFuel"
  using assms by (auto simp: export_child_def ebind_eq_Inl ok_or_eq_Inl ok_or_eq_Inr split: live_kind.splits)

lemma export_kids_fuel:
  assumes "\<And>c e. c \<in> set cs \<Longrightarrow> bt_get c (ld_nodes d) = Some e \<Longrightarrow> rec c sh \<noteq> Inl OutOfFuel"
  shows "export_kids rec d sh cs e \<noteq> Inl OutOfFuel"
  using assms
proof (induction cs arbitrary: e)
  case (Cons c cs)
  have "export_child rec d sh c e \<noteq> Inl OutOfFuel" using Cons.prems by (intro export_child_fuel) auto
  with Cons show ?case by (auto simp: ebind_eq_Inl)
qed simp

lemma export_shadow_fuel:
  assumes "\<And>c e. c \<in> set cs \<Longrightarrow> bt_get c (ld_nodes d) = Some e \<Longrightarrow> rec c (Some h) \<noteq> Inl OutOfFuel \<and> rec c None \<noteq> Inl OutOfFuel"
    and "\<And>c e. c \<in> set (kids (ld_nodes d) h) \<Longrightarrow> bt_get c (ld_nodes d) = Some e \<Longrightarrow> rec c None \<noteq> Inl OutOfFuel"
  shows "export_shadow_children rec d h cs e \<noteq> Inl OutOfFuel"
  using assms(1)
proof (induction cs arbitrary: e)
  case (Cons c cs)
  have "export_kids rec d None (if slotted d c x = [] then [c] else slotted d c x) e \<noteq> Inl OutOfFuel"
    if "bt_get h (ld_nodes d) = Some x" for x
    using that Cons.prems assms(2) by (intro export_kids_fuel) (auto simp: slotted_def assigned_nodes_def split: if_splits)
  moreover have "export_child rec d (Some h) c e \<noteq> Inl OutOfFuel" using Cons.prems by (intro export_child_fuel) auto
  ultimately show ?case using Cons by (auto simp: ebind_eq_Inl ok_or_eq_Inl ok_or_eq_Inr)
qed simp

lemma weight_step: "a < b \<Longrightarrow> x \<le> k \<Longrightarrow> a * Suc k + x < b * Suc (k :: nat)"
proof -
  assume "a < b" "x \<le> k"
  then have "Suc a * Suc k \<le> b * Suc k" by (intro mult_le_mono1) simp
  with \<open>x \<le> k\<close> show ?thesis by simp
qed

lemma export_inner_fuel:
  assumes ok: "forest_ok (ld_nodes d)" and sh_ok: "shadows_linked d"
    and "\<forall>h. sh = Some h \<longrightarrow> weight (ld_nodes d) n < weight (ld_nodes d) h" and "export_measure (ld_nodes d) n sh < fuel"
  shows "export_inner fuel d n sh \<noteq> Inl OutOfFuel"
  using assms(3,4)
proof (induction fuel arbitrary: n sh)
  case (Suc fuel)
  let ?N = "ld_nodes d" let ?k = "length (ld_nodes d)" let ?w = "weight (ld_nodes d)"
  let ?top = "?w (case sh of None \<Rightarrow> n | Some h \<Rightarrow> h)"
  have bound: "?top * Suc ?k + ?w n \<le> fuel" using Suc.prems(2) by (simp add: export_measure_def)
  have top: "?w n \<le> ?top" using Suc.prems(1) by (cases sh) simp_all
  have plain: "export_inner fuel d c None \<noteq> Inl OutOfFuel" if c: "bt_get c ?N = Some e" and less: "?w c < ?top" for c e
  proof -
    have "?w c \<le> ?k" using weight_live [OF ok] c by simp
    then have "?w c * Suc ?k + ?w c < ?top * Suc ?k" using less by (rule weight_step [rotated])
    then show ?thesis using bound by (intro Suc.IH) (simp_all add: export_measure_def)
  qed
  have kid: "?w c < ?w m" if "c \<in> set (kids ?N m)" for c m by (rule weight_kid [OF ok that])
  have live: "ln_children e = kids ?N m" if "bt_get m ?N = Some e" for m e using that by simp
  have below_kids: "export_inner fuel d c sh \<noteq> Inl OutOfFuel" if "c \<in> set (kids ?N n)" "bt_get c ?N = Some e" for c e
  proof (cases sh)
    case None
    then show ?thesis using plain [OF that(2)] kid [OF that(1)] by simp
  next
    case (Some h)
    have "?w c < ?w h" using kid [OF that(1)] Suc.prems(1) Some by fastforce
    then show ?thesis using bound kid [OF that(1)] Some by (intro Suc.IH) (simp_all add: export_measure_def)
  qed
  have inside: "export_inner fuel d c (Some n) \<noteq> Inl OutOfFuel" if less: "?w c < ?w n" for c
  proof (rule Suc.IH)
    have "?w n * Suc ?k + ?w c < ?top * Suc ?k + ?w n" using less top by (intro add_le_less_mono mult_le_mono1)
    then show "export_measure ?N c (Some n) < fuel" using bound by (simp add: export_measure_def)
  qed (use less in simp)
  have slot: "export_kids (export_inner fuel d) d None (if slotted d n host = [] then ln_children live else slotted d n host) e \<noteq> Inl OutOfFuel"
    if h: "sh = Some h" "bt_get h ?N = Some host" and n: "bt_get n ?N = Some live" for h host live e
  proof (rule export_kids_fuel)
    fix c x assume c: "c \<in> set (if slotted d n host = [] then ln_children live else slotted d n host)" and x: "bt_get c ?N = Some x"
    have "?w c < ?w h"
    proof (cases "slotted d n host = []")
      case True
      with c n have "?w c < ?w n" by (intro kid) simp
      with Suc.prems(1) h(1) show ?thesis by fastforce
    next
      case False
      with c h(2) show ?thesis by (intro kid) (simp add: slotted_def assigned_nodes_def)
    qed
    then show "export_inner fuel d c None \<noteq> Inl OutOfFuel" using plain [OF x] h(1) by simp
  qed
  have shadow: "export_shadow_children (export_inner fuel d) d n (ln_children root) e \<noteq> Inl OutOfFuel"
    if r: "bt_get n (ld_shadows d) = Some r" "bt_get (sr_root r) ?N = Some root" for r root e
  proof (rule export_shadow_fuel)
    have R: "sr_root r \<in> set (kids ?N n)" using sh_ok r(1) by (simp add: shadows_linked_def)
    fix c x assume c: "c \<in> set (ln_children root)" and x: "bt_get c ?N = Some x"
    have "?w c < ?w n" using kid [OF R] kid [of c "sr_root r"] c r(2) by simp
    then show "export_inner fuel d c (Some n) \<noteq> Inl OutOfFuel \<and> export_inner fuel d c None \<noteq> Inl OutOfFuel"
      using inside plain [OF x] top by simp
  next
    fix c x assume "c \<in> set (kids ?N n)" "bt_get c ?N = Some x"
    then show "export_inner fuel d c None \<noteq> Inl OutOfFuel" using plain kid top by (meson less_le_trans)
  qed
  have kids_ok: "export_kids (export_inner fuel d) d sh (ln_children live) e \<noteq> Inl OutOfFuel"
    if "bt_get n ?N = Some live" for live e
    using below_kids that by (intro export_kids_fuel) auto
  show ?case
  proof (cases "bt_get n ?N")
    case (Some live)
    show ?thesis
    proof (cases "ln_kind live")
      case (LElement t m v)
      show ?thesis
      proof (cases "sh \<noteq> None \<and> t = lit ''slot''")
        case True
        then obtain h where h: "sh = Some h" by auto
        then show ?thesis using True LElement Some slot [OF h _ Some] by (cases "bt_get h ?N") (simp_all add: Let_def)
      next
        case False
        show ?thesis
        proof (cases "bt_get n (ld_shadows d)")
          case None
          with False LElement Some kids_ok [OF Some] show ?thesis by (auto simp: Let_def)
        next
          case r: (Some r)
          with False LElement Some shadow [OF r] show ?thesis by (cases "bt_get (sr_root r) ?N") (auto simp: Let_def)
        qed
      qed
    qed (simp add: Some)
  qed simp
qed simp

lemma export_ends:
  assumes "forest_ok (ld_nodes d)" and "shadows_linked d"
  shows "export_inner (export_fuel d) d n None \<noteq> Inl OutOfFuel"
proof (cases "bt_get n (ld_nodes d)")
  case None
  then show ?thesis by (simp add: export_fuel_def)
next
  case (Some e)
  then have "weight (ld_nodes d) n \<le> length (ld_nodes d)" using weight_live [OF assms(1)] by simp
  then have "export_measure (ld_nodes d) n None < export_fuel d"
    using weight_step [of "weight (ld_nodes d) n" "Suc (length (ld_nodes d))" "weight (ld_nodes d) n" "length (ld_nodes d)"]
    by (simp add: export_measure_def export_fuel_def)
  then show ?thesis by (intro export_inner_fuel [OF assms]) simp_all
qed

text \<open>A host that is a child of its own shadow root has no composed tree.\<close>

lemma export_diverges:
  assumes "bt_get h (ld_nodes d) = Some e" and "ln_kind e = LElement t m v" and "t \<noteq> lit ''slot''" and "bt_get h (ld_shadows d) = Some r"
    and "bt_get (sr_root r) (ld_nodes d) = Some root" and "ln_children root = h # cs"
  shows "export_inner fuel d h sh = Inl OutOfFuel"
proof (induction fuel arbitrary: sh)
  case (Suc fuel)
  have "\<not> is_slot d h" using assms(1-3) by (simp add: is_slot_def element_tag_def)
  then show ?case using assms Suc by (simp add: export_child_def)
qed simp

end
