(* ===== verification/Live_Roundtrip.thy ===== *)
theory Live_Roundtrip
  imports Live_Laws
begin

text \<open>
  A parsed page that is imported into a live document and exported again is the page, up to the bounds of the store.
\<close>

section \<open>What an import leaves in the store\<close>

fun represents :: "attr_order \<Rightarrow> live_nodes \<Rightarrow> nat \<Rightarrow> element \<Rightarrow> bool" where
  "represents order nodes n (Element i t m cs x v) \<longleftrightarrow>
     (\<exists>e ks. bt_get n nodes = Some e \<and> ln_kind e = LElement t (imported_attrs order m) v \<and>
        list_all2 (represents order nodes) ks cs \<and>
        (if x = [] then ln_children e = ks
         else \<exists>c ce. ln_children e = c # ks \<and> bt_get c nodes = Some ce \<and> ln_kind ce = LText (bounded_text x)))"

lemma framed_same: "framed B P nodes nodes' \<Longrightarrow> m \<in> B \<Longrightarrow> m \<notin> P \<Longrightarrow> bt_get m nodes = Some e \<Longrightarrow> bt_get m nodes' = Some e"
  unfolding framed_def by metis

lemma represents_framed:
  assumes fr: "framed B P nodes nodes'"
  shows "represents order nodes n x \<Longrightarrow> below nodes [n] \<subseteq> B - P \<Longrightarrow> represents order nodes' n x"
proof (induction x arbitrary: n)
  case (Element i t m cs x v)
  from Element.prems(1) obtain e ks where e: "bt_get n nodes = Some e" "ln_kind e = LElement t (imported_attrs order m) v"
    and ks: "list_all2 (represents order nodes) ks cs"
    and x: "if x = [] then ln_children e = ks
      else \<exists>c ce. ln_children e = c # ks \<and> bt_get c nodes = Some ce \<and> ln_kind ce = LText (bounded_text x)" by auto
  have sub: "below nodes [k] \<subseteq> B - P" if "k \<in> set (ln_children e)" for k
    using Element.prems(2) below_trans [OF below_closed [OF below_self]] that e(1) by (metis kids_simps(1) order_trans)
  have here: "bt_get n nodes' = Some e" using framed_same [OF fr _ _ e(1)] Element.prems(2) below_self by blast
  have "list_all2 (represents order nodes') ks cs"
  proof (rule list_all2_all_nthI)
    show "length ks = length cs" using ks by (rule list_all2_lengthD)
    fix j assume j: "j < length ks"
    then have "ks ! j \<in> set (ln_children e)" using x by (auto split: if_splits)
    then show "represents order nodes' (ks ! j) (cs ! j)"
      using Element.IH [of "cs ! j" "ks ! j"] list_all2_nthD [OF ks j] list_all2_lengthD [OF ks] j sub by simp
  qed
  moreover have "bt_get c nodes' = Some ce" if "c \<in> set (ln_children e)" "bt_get c nodes = Some ce" for c ce
    using framed_same [OF fr _ _ that(2)] sub [OF that(1)] below_self by blast
  ultimately show ?case using here e(2) x by (auto split: if_splits)
qed

lemma append_kids:
  assumes "append_child_without_invalidation p c d = (Inr u, d')" and "p \<noteq> c"
  shows "kids (ld_nodes d') m = (if m = p then kids (ld_nodes d) p @ [c] else kids (ld_nodes d) m)"
    and "map_option ln_kind (bt_get m (ld_nodes d')) = map_option ln_kind (bt_get m (ld_nodes d))"
proof -
  obtain pe ce where j: "bt_get p (ld_nodes d) = Some pe" "bt_get c (ld_nodes d) = Some ce"
    and d': "d' = d\<lparr>ld_nodes := linked p c (ld_nodes d)\<rparr>"
    by (rule append_fresh_cases [of p c d]) (use assms link_child_eq in fastforce)+
  note get = linked_get [OF j assms(2)]
  show "kids (ld_nodes d') m = (if m = p then kids (ld_nodes d) p @ [c] else kids (ld_nodes d) m)"
    using j assms(2) by (simp add: d' kids_def get push_child_def)
  show "map_option ln_kind (bt_get m (ld_nodes d')) = map_option ln_kind (bt_get m (ld_nodes d))"
    using j by (simp add: d' get push_child_def)
qed

lemma allocate_kids:
  assumes ok: "live_ok d" and a: "allocate_preferred k i d = (Inr n, d')"
  shows "kids (ld_nodes d') m = kids (ld_nodes d) m"
    and "map_option ln_kind (bt_get m (ld_nodes d')) = (if m = n then Some k else map_option ln_kind (bt_get m (ld_nodes d)))"
    and "live_ok d'" and "n \<in> old_nodes d'" and "n \<notin> old_nodes d"
  using allocated_ok(2) [OF ok a] append_new_ok(1) [OF ok a] by (auto simp: kids_insert bt_get_insert old_nodes_def)

text \<open>The steps of an import: its node, the link to the parent, the text, the children.\<close>

lemma import_steps:
  assumes "import_element order (Element i t m cs x v) parent d = (Inr n, d')"
  obtains d1 d2 d3 where "allocate_preferred (LElement t (imported_attrs order m) v) i d = (Inr n, d1)"
    and "(case parent of None \<Rightarrow> (Inr (), d1) | Some p \<Rightarrow> append_child_without_invalidation p n d1) = (Inr (), d2)"
    and "(if x = [] then (Inr (), d2)
      else andthen (allocate_node (LText (bounded_text x)) d2) (append_child_without_invalidation n)) = (Inr (), d3)"
    and "import_children order cs n d3 = (Inr (), d')"
  using assms unfolding import_element.simps andthen_eq_Inr by auto

text \<open>The state before the children: the node has its kind, and its text as only child.\<close>

lemma import_before_children:
  assumes ok: "live_ok d" and par: "set_option parent \<subseteq> old_nodes d"
    and a: "allocate_preferred (LElement t mm v) i d = (Inr n, d1)"
    and b: "(case parent of None \<Rightarrow> (Inr (), d1) | Some p \<Rightarrow> append_child_without_invalidation p n d1) = (Inr (), d2)"
    and c: "(if x = [] then (Inr (), d2)
      else andthen (allocate_node (LText (bounded_text x)) d2) (append_child_without_invalidation n)) = (Inr (), d3)"
  shows "live_ok d3" and "n \<in> old_nodes d3" and "n \<notin> old_nodes d" and "old_nodes d \<subseteq> old_nodes d3"
    and "map_option ln_kind (bt_get n (ld_nodes d3)) = Some (LElement t mm v)"
    and "p \<in> old_nodes d \<Longrightarrow> kids (ld_nodes d3) p = kids (ld_nodes d) p @ (if parent = Some p then [n] else [])"
    and "if x = [] then kids (ld_nodes d3) n = []
      else \<exists>k e. kids (ld_nodes d3) n = [k] \<and> bt_get k (ld_nodes d3) = Some e \<and> ln_kind e = LText (bounded_text x)"
proof -
  note A = allocate_kids [OF ok a]
  show new: "n \<notin> old_nodes d" by (rule A(5))
  have k0: "kids (ld_nodes d) n = []" using new by (simp add: old_nodes_def)
  have kb: "keeps {} (set_option parent) d1 (Inr () :: error + unit, d2)"
  proof (cases parent)
    case (Some p)
    with b par show ?thesis using keeps_append_new [OF ok a, of p "{}" "{}"] by simp
  qed (use b A(3) in simp)
  have g: "grows d d2" using keeps_allocate [OF ok, of "{}" "{}" "LElement t mm v" i] a kb by (auto simp: keeps_def intro: grows_trans)
  have ok2: "live_ok d2" and n2: "n \<in> old_nodes d2" and o2: "old_nodes d \<subseteq> old_nodes d2"
    using kb A(4) g by (auto simp: keeps_def intro: grows_old)
  have B: "kids (ld_nodes d2) m = (if parent = Some m then kids (ld_nodes d) m @ [n] else kids (ld_nodes d) m)"
    "map_option ln_kind (bt_get n (ld_nodes d2)) = Some (LElement t mm v)" for m
  proof -
    have "p \<noteq> n" if "parent = Some p" for p using that par new by auto
    then show "kids (ld_nodes d2) m = (if parent = Some m then kids (ld_nodes d) m @ [n] else kids (ld_nodes d) m)"
      "map_option ln_kind (bt_get n (ld_nodes d2)) = Some (LElement t mm v)"
      using b A(1,2) append_kids [of _ n d1 "()" d2] by (cases parent; simp)+
  qed
  have n_par: "parent \<noteq> Some n" using par new by auto
  have "live_ok d3 \<and> n \<in> old_nodes d3 \<and> old_nodes d \<subseteq> old_nodes d3 \<and>
    map_option ln_kind (bt_get n (ld_nodes d3)) = Some (LElement t mm v) \<and>
    (\<forall>p\<in>old_nodes d. kids (ld_nodes d3) p = kids (ld_nodes d) p @ (if parent = Some p then [n] else [])) \<and>
    (if x = [] then kids (ld_nodes d3) n = []
      else \<exists>k e. kids (ld_nodes d3) n = [k] \<and> bt_get k (ld_nodes d3) = Some e \<and> ln_kind e = LText (bounded_text x))"
  proof (cases "x = []")
    case True
    with c have "d3 = d2" by simp
    with True show ?thesis using ok2 n2 o2 B k0 n_par by auto
  next
    case False
    with c obtain k s where e: "allocate_preferred (LText (bounded_text x)) None d2 = (Inr k, s)"
      and f: "append_child_without_invalidation n k s = (Inr (), d3)"
      by (auto simp: andthen_eq_Inr allocate_node_def)
    note E = allocate_kids [OF ok2 e]
    have nk: "n \<noteq> k" using n2 E(5) by auto
    note F = append_kids [OF f nk]
    have K: "keeps {} {n} d2 (Inr () :: error + unit, d3)"
      using keeps_new_child [OF ok2 n2, of "{}" "{}" "LText (bounded_text x)" None] c False by (simp add: allocate_node_def)
    have "kids (ld_nodes d3) p = kids (ld_nodes d) p @ (if parent = Some p then [n] else [])" if "p \<in> old_nodes d" for p
      using that new F(1) E(1) B(1) by auto
    moreover have "\<exists>e. bt_get k (ld_nodes d3) = Some e \<and> ln_kind e = LText (bounded_text x)"
      using F(2) [of k] E(2) [of k] by (auto simp: map_option_eq_Some)
    moreover have "kids (ld_nodes d3) n = [k]" using F(1) [of n] E(1) [of n] B(1) [of n] k0 n_par by simp
    moreover have "map_option ln_kind (bt_get n (ld_nodes d3)) = Some (LElement t mm v)" using F(2) E(2) B(2) nk by simp
    moreover have "live_ok d3" "n \<in> old_nodes d3" "old_nodes d \<subseteq> old_nodes d3" using K n2 o2 by (auto simp: keeps_def intro: grows_old)
    ultimately show ?thesis using False by simp
  qed
  then show "live_ok d3" "n \<in> old_nodes d3" "old_nodes d \<subseteq> old_nodes d3"
    "map_option ln_kind (bt_get n (ld_nodes d3)) = Some (LElement t mm v)"
    "p \<in> old_nodes d \<Longrightarrow> kids (ld_nodes d3) p = kids (ld_nodes d) p @ (if parent = Some p then [n] else [])"
    "if x = [] then kids (ld_nodes d3) n = []
      else \<exists>k e. kids (ld_nodes d3) n = [k] \<and> bt_get k (ld_nodes d3) = Some e \<and> ln_kind e = LText (bounded_text x)"
    by blast+
qed

lemma live_kid_old: "live_ok d \<Longrightarrow> c \<in> set (kids (ld_nodes d) n) \<Longrightarrow> c \<in> old_nodes d"
  using forest_kid_parent [OF live_ok_forest, of d c n] parent_live [of "ld_nodes d" c n] by (auto simp: old_nodes_def)

lemma below_old: "live_ok d \<Longrightarrow> n \<in> old_nodes d \<Longrightarrow> below (ld_nodes d) [n] \<subseteq> old_nodes d"
  by (rule below_least) (auto intro: live_kid_old)

lemma import_represents:
  shows "live_ok d \<Longrightarrow> set_option parent \<subseteq> old_nodes d \<Longrightarrow> import_element order x parent d = (Inr n, d') \<Longrightarrow>
      represents order (ld_nodes d') n x \<and>
      (\<forall>p. parent = Some p \<longrightarrow> kids (ld_nodes d') p = kids (ld_nodes d) p @ [n])"
    and "live_ok d \<Longrightarrow> p \<in> old_nodes d \<Longrightarrow> import_children order cs p d = (Inr u, d') \<Longrightarrow>
      \<exists>ks. kids (ld_nodes d') p = kids (ld_nodes d) p @ ks \<and> list_all2 (represents order (ld_nodes d')) ks cs"
proof (induction order x parent d and order cs p d arbitrary: n d' and u d' rule: import_element_import_children.induct)
  case (1 order i t m cs x v parent d)
  obtain d1 d2 d3 where a: "allocate_preferred (LElement t (imported_attrs order m) v) i d = (Inr n, d1)"
    and b: "(case parent of None \<Rightarrow> (Inr (), d1) | Some p \<Rightarrow> append_child_without_invalidation p n d1) = (Inr (), d2)"
    and c: "(if x = [] then (Inr (), d2)
      else andthen (allocate_node (LText (bounded_text x)) d2) (append_child_without_invalidation n)) = (Inr (), d3)"
    and k: "import_children order cs n d3 = (Inr (), d')"
    by (rule import_steps [OF 1(4)])
  note I = import_before_children [OF 1(2,3) a b c]
  obtain ks where ks: "kids (ld_nodes d') n = kids (ld_nodes d3) n @ ks" "list_all2 (represents order (ld_nodes d')) ks cs"
    using 1(1) [OF a b c I(1,2) k] by blast
  have fr: "framed (old_nodes d3) {n} (ld_nodes d3) (ld_nodes d')"
    using import_ok(2) [OF I(1,2), of "old_nodes d3" order cs] k by (simp add: keeps_def)
  obtain e3 where e3: "bt_get n (ld_nodes d3) = Some e3" "ln_kind e3 = LElement t (imported_attrs order m) v"
    using I(5) by (auto simp: map_option_eq_Some)
  then obtain e where e: "bt_get n (ld_nodes d') = Some e" "ln_kind e = LElement t (imported_attrs order m) v"
    using fr I(2) unfolding framed_def by metis
  have "if x = [] then ln_children e = ks
      else \<exists>k ke. ln_children e = k # ks \<and> bt_get k (ld_nodes d') = Some ke \<and> ln_kind ke = LText (bounded_text x)"
  proof (cases "x = []")
    case False
    with I(7) obtain k ke where kk: "kids (ld_nodes d3) n = [k]" "bt_get k (ld_nodes d3) = Some ke" "ln_kind ke = LText (bounded_text x)"
      by auto
    then have "k \<noteq> n" using e3 by auto
    then have "bt_get k (ld_nodes d') = Some ke" using framed_same [OF fr, of k ke] kk(2) by (simp add: old_nodes_def)
    with kk ks(1) e(1) False show ?thesis by simp
  qed (use I(7) ks(1) e(1) in simp)
  with e ks(2) have "represents order (ld_nodes d') n (Element i t m cs x v)" by auto
  moreover have "kids (ld_nodes d') p = kids (ld_nodes d) p @ [n]" if p: "parent = Some p" for p
  proof -
    have po: "p \<in> old_nodes d" "p \<noteq> n" using 1(3) p I(3) by auto
    then obtain pe where pe: "bt_get p (ld_nodes d3) = Some pe" using I(4) by (auto simp: old_nodes_def)
    then have "bt_get p (ld_nodes d') = Some pe" using framed_same [OF fr, of p pe] po I(4) by auto
    with pe I(6) [OF po(1)] p show ?thesis by simp
  qed
  ultimately show ?case by blast
next
  case (2 order p d)
  then show ?case by auto
next
  case (3 order c cs p d)
  from 3(5) obtain n s where i: "import_element order c (Some p) d = (Inr n, s)" and k: "import_children order cs p s = (Inr u, d')"
    by (auto simp: andthen_eq_Inr)
  have par: "set_option (Some p) \<subseteq> old_nodes d" using 3(4) by simp
  have R: "represents order (ld_nodes s) n c" "kids (ld_nodes s) p = kids (ld_nodes d) p @ [n]"
    using 3(1) [OF 3(3) par i] by simp_all
  have K: "keeps {} {p} d (Inr n :: error + nat, s)" using import_ok(1) [OF 3(3) par, of "{}" order c] i by simp
  have ok: "live_ok s" and po: "p \<in> old_nodes s" using K 3(4) by (auto simp: keeps_def intro: grows_old)
  obtain ks where ks: "kids (ld_nodes d') p = kids (ld_nodes s) p @ ks" "list_all2 (represents order (ld_nodes d')) ks cs"
    using 3(2) [OF i ok po k] by blast
  have "framed (old_nodes s) {p} (ld_nodes s) (ld_nodes d')"
    using import_ok(2) [OF ok po, of "old_nodes s" order cs] k by (simp add: keeps_def)
  moreover have "below (ld_nodes s) [n] \<subseteq> old_nodes s - {p}"
    using below_old [OF ok, of n] live_kid_old [OF ok, of n p] not_below_kid [OF live_ok_forest [OF ok], of n p] R(2) by auto
  ultimately have "represents order (ld_nodes d') n c" by (rule represents_framed [OF _ R(1)])
  then have "list_all2 (represents order (ld_nodes d')) (n # ks) (c # cs)" using ks(2) by simp
  then show ?case using ks(1) R(2) by (intro exI [of _ "n # ks"]) simp
qed

section \<open>What the export makes of it\<close>

text \<open>The stored form of a parsed element: no identifiers, the attributes and texts within their bounds.\<close>

fun stored_form :: "attr_order \<Rightarrow> element \<Rightarrow> element" where
  "stored_form order (Element i t m cs x v) =
     Element None t (imported_attrs order m) (map (stored_form order) cs) (bounded_text x) v"

fun no_shadow_tags :: "element \<Rightarrow> bool" where
  "no_shadow_tags (Element i t m cs x v) \<longleftrightarrow> t \<noteq> SHADOW_TAG \<and> list_all no_shadow_tags cs"

definition exports_to :: "attr_order \<Rightarrow> export_failure + element \<Rightarrow> element \<Rightarrow> bool" where
  "exports_to order r x \<longleftrightarrow> r = Inl OutOfFuel \<or> (\<exists>e. r = Inr e \<and> clear_node_ids e = stored_form order x)"

lemma export_kids_forms:
  assumes "list_all2 (\<lambda>k c. is_element_kind_at k \<and> exports_to order (rec k None) c) ks cs"
    and "\<And>k. is_element_kind_at k \<Longrightarrow> \<exists>live t m v. bt_get k (ld_nodes d) = Some live \<and> ln_kind live = LElement t m v"
  shows "export_kids rec d None ks (Element i t m es x v) = Inl OutOfFuel \<or>
    (\<exists>fs. export_kids rec d None ks (Element i t m es x v) = Inr (Element i t m (es @ fs) x v) \<and>
       map clear_node_ids fs = map (stored_form order) cs)"
  using assms(1)
proof (induction ks cs arbitrary: es rule: list_all2_induct)
  case (Cons k ks c cs)
  then obtain live t' m' v' where live: "bt_get k (ld_nodes d) = Some live" "ln_kind live = LElement t' m' v'" using assms(2) by blast
  show ?case
  proof (cases "rec k None = Inl OutOfFuel")
    case False
    then obtain f where f: "rec k None = Inr f" "clear_node_ids f = stored_form order c" using Cons by (auto simp: exports_to_def)
    then have step: "export_child rec d None k (Element i t m es x v) = Inr (Element i t m (es @ [f]) x v)"
      using live by (simp add: export_child_def add_child_def)
    show ?thesis using Cons.IH [of "es @ [f]"] f step by (auto intro: exI [of _ "f # _"])
  qed (simp add: export_child_def live)
qed simp

lemma represents_kind:
  "represents order nodes n x \<Longrightarrow> \<exists>live t m v. bt_get n nodes = Some live \<and> ln_kind live = LElement t m v"
  by (cases x) auto

lemma represents_export:
  assumes no_shadows: "ld_shadows d = []"
  shows "represents order (ld_nodes d) n x \<Longrightarrow> no_shadow_tags x \<Longrightarrow> exports_to order (export_inner fuel d n None) x"
proof (induction fuel arbitrary: n x)
  case (Suc fuel)
  obtain i t m cs s v where x: "x = Element i t m cs s v" by (cases x)
  with Suc.prems obtain e ks where e: "bt_get n (ld_nodes d) = Some e" "ln_kind e = LElement t (imported_attrs order m) v"
    and ks: "list_all2 (represents order (ld_nodes d)) ks cs"
    and s: "if s = [] then ln_children e = ks
      else \<exists>c ce. ln_children e = c # ks \<and> bt_get c (ld_nodes d) = Some ce \<and> ln_kind ce = LText (bounded_text s)" by auto
  have tag: "t \<noteq> SHADOW_TAG" and kid_tags: "\<And>c. c \<in> set cs \<Longrightarrow> no_shadow_tags c" using Suc.prems(2) x by (auto simp: list_all_iff)
  let ?rec = "export_inner fuel d" let ?m = "imported_attrs order m"
  have "list_all2 (\<lambda>k c. (\<exists>y. represents order (ld_nodes d) k y) \<and> exports_to order (?rec k None) c) ks cs"
    using ks Suc.IH kid_tags by (auto simp: list_all2_conv_all_nth)
  note K = export_kids_forms [of "\<lambda>k. \<exists>y. represents order (ld_nodes d) k y" order ?rec ks cs d "Some n" t ?m "[]" "bounded_text s" v, OF this]
  have start: "export_kids ?rec d None (ln_children e) (node_shell n t ?m v) =
      export_kids ?rec d None ks (Element (Some n) t ?m [] (bounded_text s) v)"
    using s by (auto simp: node_shell_def bounded_text_def export_child_def push_text_to_def with_text_def split: if_splits)
  have inner: "export_inner (Suc fuel) d n None = export_kids ?rec d None ks (Element (Some n) t ?m [] (bounded_text s) v)"
    using e tag start by (simp add: no_shadows bt_get_def)
  have "export_kids ?rec d None ks (Element (Some n) t ?m [] (bounded_text s) v) = Inl OutOfFuel \<or>
    (\<exists>fs. export_kids ?rec d None ks (Element (Some n) t ?m [] (bounded_text s) v) =
       Inr (Element (Some n) t ?m fs (bounded_text s) v) \<and> map clear_node_ids fs = map (stored_form order) cs)"
    using K represents_kind by fastforce
  then show ?case unfolding exports_to_def inner x by auto
qed (simp add: exports_to_def)

lemma from_element_success:
  assumes i: "import_element order x None (empty_document w) = (Inr n, d)"
  shows "from_element order x w = d\<lparr>ld_root := n\<rparr>" and "live_ok d" and "ld_shadows d = []" and "represents order (ld_nodes d) n x"
proof -
  show "from_element order x w = d\<lparr>ld_root := n\<rparr>" by (simp add: from_element_def i)
  have "keeps {} {} (empty_document w) (Inr n :: error + nat, d)"
    using import_ok(1) [OF empty_document_ok [of w], of None "{}" order x] i by simp
  then show "live_ok d" "ld_shadows d = []" by (simp_all add: keeps_def grows_def empty_document_def)
  show "represents order (ld_nodes d) n x" using import_represents(1) [OF empty_document_ok _ i] by simp
qed

lemma import_export:
  assumes i: "import_element order x None (empty_document w) = (Inr n, d)" and tags: "no_shadow_tags x"
  shows "clear_node_ids (to_element (from_element order x w)) = stored_form order x"
proof -
  let ?d = "from_element order x w"
  note F = from_element_success [OF i]
  have ok: "live_ok ?d" "ld_shadows ?d = []" "represents order (ld_nodes ?d) (ld_root ?d) x" using F by simp_all
  have "export_inner (export_fuel ?d) ?d (ld_root ?d) None \<noteq> Inl OutOfFuel"
    by (rule export_ends [OF live_ok_forest [OF ok(1)]]) (simp add: shadows_linked_def ok(2) bt_get_def)
  moreover have "exports_to order (export_inner (export_fuel ?d) ?d (ld_root ?d) None) x" by (rule represents_export [OF ok(2,3) tags])
  ultimately show ?thesis by (auto simp: exports_to_def to_element_def export_element_def)
qed

end
