(* ===== verification/Live_Forms.thy ===== *)
theory Live_Forms
  imports Live_Laws
begin

text \<open>
  Default actions of forms: a radio button clears the others of its group, a selection has exactly one option.
\<close>

section \<open>One attribute changes\<close>

text \<open>The nodes of two stores that differ in one attribute only.\<close>

definition same_but :: "ustr \<Rightarrow> 'w live_document \<Rightarrow> 'w live_document \<Rightarrow> bool" where
  "same_but a d d' \<longleftrightarrow>
     (\<forall>n. parent_of (ld_nodes d') n = parent_of (ld_nodes d) n \<and> kids (ld_nodes d') n = kids (ld_nodes d) n \<and>
        element_tag n d' = element_tag n d \<and> (bt_get n (ld_nodes d') = None \<longleftrightarrow> bt_get n (ld_nodes d) = None) \<and>
        (\<forall>b. to_ascii_lowercase b \<noteq> a \<longrightarrow> live_get_attribute n b d' = live_get_attribute n b d)) \<and>
     length (ld_nodes d') = length (ld_nodes d) \<and> ld_root d' = ld_root d"

lemma same_but_refl [simp]: "same_but a d d"
  by (simp add: same_but_def)

lemma same_but_trans: "same_but a d d' \<Longrightarrow> same_but a d' d'' \<Longrightarrow> same_but a d d''"
  by (simp add: same_but_def)

lemma closest_walk_same: "same_but a d d' \<Longrightarrow> closest_walk fuel d' t c = closest_walk fuel d t c"
  by (induction fuel d' t c rule: closest_walk.induct) (simp_all add: same_but_def)

lemma closest_tag_same: "same_but a d d' \<Longrightarrow> closest_tag n t d' = closest_tag n t d"
  unfolding closest_tag_def using closest_walk_same [of a d d'] by (simp add: same_but_def)

lemma mark_attribute_simps [simp]:
  "ld_nodes (mark_attribute_mutated name v d) = ld_nodes d" "ld_root (mark_attribute_mutated name v d) = ld_root d"
  by (simp_all add: mark_attribute_mutated_def Let_def split: prod.split)

lemma change_attrs_spec:
  assumes ok: "live_ok d" and e: "bt_get n (ld_nodes d) = Some e" "ln_kind e = LElement t m v"
    and f: "\<And>b m. b \<noteq> a \<Longrightarrow> bt_get b (f m) = bt_get b m" and a: "to_ascii_lowercase a = a"
  obtains d' where "change_attrs n f d = (Inr (), d')" and "live_ok d'" and "same_but a d d'"
    and "\<And>k. live_get_attribute k a d' = (if k = n then bt_get a (f m) else live_get_attribute k a d)"
proof -
  let ?d = "d\<lparr>ld_nodes := bt_insert n (e\<lparr>ln_kind := LElement t (f m) v\<rparr>) (ld_nodes d)\<rparr>"
  have eq: "change_attrs n f d = (Inr (), ?d)" using e by (simp add: change_attrs_def)
  have "live_ok ?d" using change_attrs_ok [OF ok, of n f] eq by simp
  moreover have "same_but a d ?d"
    using e f ok by (auto simp: same_but_def parent_of_insert kids_insert element_tag_def bt_get_insert live_get_attribute_def
      node_attr_def bt_length_insert live_ok_def tree_ok_def forest_ok_def)
  moreover have "live_get_attribute k a ?d = (if k = n then bt_get a (f m) else live_get_attribute k a d)" for k
    using e a by (simp add: live_get_attribute_def node_attr_def bt_get_insert)
  ultimately show ?thesis using eq that by blast
qed

text \<open>Setting and removing an attribute whose name is in normal form.\<close>

definition plain_name :: "string \<Rightarrow> bool" where
  "plain_name a \<longleftrightarrow> normalize_attribute_name (lit a) = Inr (lit a) \<and> to_ascii_lowercase (lit a) = lit a"

lemma plain_names: "plain_name ''checked''" "plain_name ''selected''"
  by (simp_all add: plain_name_def normalize_attribute_name_def valid_name_def trim_def trim_end_def trim_start_def is_whitespace_def to_ascii_lowercase_def ascii_lower_def
    is_ascii_upper_def byte_len_def utf8_len_def starts_with_def is_ascii_alphanumeric_def is_ascii_alphabetic_def is_ascii_lower_def
    is_ascii_digit_def Let_def lit_def)

lemma set_attribute_spec:
  assumes ok: "live_ok d" and n: "element_tag n d \<noteq> None" and a: "plain_name a"
  obtains d' where "live_set_attribute n (lit a) v d = (Inr (), d')" and "live_ok d'" and "same_but (lit a) d d'"
    and "\<And>m. has_attr m a d' \<longleftrightarrow> m = n \<or> has_attr m a d"
proof -
  obtain e t m w where e: "bt_get n (ld_nodes d) = Some e" "ln_kind e = LElement t m w"
    using n by (auto simp: element_tag_def split: option.splits live_kind.splits)
  obtain d1 where d1: "change_attrs n (bt_insert (lit a) (bounded_attribute v)) d = (Inr (), d1)" "live_ok d1" "same_but (lit a) d d1"
    and g: "\<And>k. live_get_attribute k (lit a) d1 = (if k = n then Some (bounded_attribute v) else live_get_attribute k (lit a) d)"
    by (rule change_attrs_spec [OF ok e, of "lit a" "bt_insert (lit a) (bounded_attribute v)"])
      (use a in \<open>auto simp: bt_get_insert plain_name_def\<close>)
  let ?d = "mark_attribute_mutated (lit a) v d1"
  have "live_set_attribute n (lit a) v d = (Inr (), ?d)" using a d1(1) by (simp add: live_set_attribute_def plain_name_def checked_def)
  moreover have "live_ok ?d" using d1(2) by simp
  moreover have "same_but (lit a) d ?d" using d1(3) by (simp add: same_but_def element_tag_def live_get_attribute_def)
  moreover have "has_attr m a ?d \<longleftrightarrow> m = n \<or> has_attr m a d" for m
  proof -
    have "live_get_attribute m (lit a) ?d = live_get_attribute m (lit a) d1" by (simp add: live_get_attribute_def)
    then show ?thesis using g [of m] by (simp add: has_attr_def)
  qed
  ultimately show ?thesis using that by blast
qed

lemma remove_attribute_spec:
  assumes ok: "live_ok d" and n: "element_tag n d \<noteq> None" and a: "plain_name a"
  obtains d' where "live_remove_attribute n (lit a) d = (Inr (), d')" and "live_ok d'" and "same_but (lit a) d d'"
    and "\<And>m. has_attr m a d' \<longleftrightarrow> m \<noteq> n \<and> has_attr m a d"
proof -
  obtain e t m w where e: "bt_get n (ld_nodes d) = Some e" "ln_kind e = LElement t m w"
    using n by (auto simp: element_tag_def split: option.splits live_kind.splits)
  obtain d1 where d1: "change_attrs n (bt_remove (lit a)) d = (Inr (), d1)" "live_ok d1" "same_but (lit a) d d1"
    and g: "\<And>k. live_get_attribute k (lit a) d1 = (if k = n then None else live_get_attribute k (lit a) d)"
    by (rule change_attrs_spec [OF ok e, of "lit a" "bt_remove (lit a)"])
      (use a in \<open>auto simp: bt_get_remove plain_name_def\<close>)
  let ?d = "mark_attribute_mutated (lit a) [] d1"
  have "live_remove_attribute n (lit a) d = (Inr (), ?d)" using a d1(1) by (simp add: live_remove_attribute_def plain_name_def checked_def)
  moreover have "live_ok ?d" using d1(2) by simp
  moreover have "same_but (lit a) d ?d" using d1(3) by (simp add: same_but_def element_tag_def live_get_attribute_def)
  moreover have "has_attr m a ?d \<longleftrightarrow> m \<noteq> n \<and> has_attr m a d" for m
  proof -
    have "live_get_attribute m (lit a) ?d = live_get_attribute m (lit a) d1" by (simp add: live_get_attribute_def)
    then show ?thesis using g [of m] by (simp add: has_attr_def)
  qed
  ultimately show ?thesis using that by blast
qed

section \<open>Radio buttons\<close>

definition radio_like :: "ustr \<Rightarrow> nat option \<Rightarrow> nat \<Rightarrow> 'w live_document \<Rightarrow> bool" where
  "radio_like name form n d \<longleftrightarrow>
     tag_is n ''input'' d \<and> live_get_attribute n (lit ''type'') d = Some (lit ''radio'') \<and> attr_or '''' n ''name'' d = name \<and>
     closest_tag n (lit ''form'') d = form"

lemma radio_like_same: "same_but (lit ''checked'') d d' \<Longrightarrow> radio_like name form n d' = radio_like name form n d"
  using closest_tag_same [of "lit ''checked''" d d' n "lit ''form''"]
  by (simp add: radio_like_def tag_is_def attr_or_def same_but_def to_ascii_lowercase_def ascii_lower_def is_ascii_upper_def lit_def)

lemma clear_radios_spec:
  assumes "live_ok d"
  shows "\<exists>d'. clear_radios target name form ns d = (Inr (), d') \<and> live_ok d' \<and> same_but (lit ''checked'') d d' \<and>
    (\<forall>m. has_attr m ''checked'' d' \<longleftrightarrow> has_attr m ''checked'' d \<and> \<not> (m \<in> set ns \<and> m \<noteq> target \<and> radio_like name form m d))"
  using assms
proof (induction ns arbitrary: d)
  case (Cons n ns)
  have "\<exists>d1. (if n \<noteq> target \<and> radio_like name form n d then live_remove_attribute n (lit ''checked'') d else (Inr (), d)) = (Inr (), d1) \<and>
      live_ok d1 \<and> same_but (lit ''checked'') d d1 \<and>
      (\<forall>m. has_attr m ''checked'' d1 \<longleftrightarrow> has_attr m ''checked'' d \<and> \<not> (m = n \<and> m \<noteq> target \<and> radio_like name form m d))"
  proof (cases "n \<noteq> target \<and> radio_like name form n d")
    case True
    then have "element_tag n d \<noteq> None" by (simp add: radio_like_def tag_is_def)
    then obtain d1 where "live_remove_attribute n (lit ''checked'') d = (Inr (), d1)" "live_ok d1" "same_but (lit ''checked'') d d1"
      "\<And>m. has_attr m ''checked'' d1 \<longleftrightarrow> m \<noteq> n \<and> has_attr m ''checked'' d"
      using remove_attribute_spec [OF Cons.prems _ plain_names(1)] by blast
    with True show ?thesis by auto
  qed (use Cons.prems in auto)
  then obtain d1 where d1: "(if n \<noteq> target \<and> radio_like name form n d then live_remove_attribute n (lit ''checked'') d else (Inr (), d)) = (Inr (), d1)"
    "live_ok d1" "same_but (lit ''checked'') d d1"
    "\<And>m. has_attr m ''checked'' d1 \<longleftrightarrow> has_attr m ''checked'' d \<and> \<not> (m = n \<and> m \<noteq> target \<and> radio_like name form m d)" by blast
  obtain d' where d': "clear_radios target name form ns d1 = (Inr (), d')" "live_ok d'" "same_but (lit ''checked'') d1 d'"
    "\<And>m. has_attr m ''checked'' d' \<longleftrightarrow> has_attr m ''checked'' d1 \<and> \<not> (m \<in> set ns \<and> m \<noteq> target \<and> radio_like name form m d1)"
    using Cons.IH [OF d1(2)] by blast
  have "clear_radios target name form (n # ns) d = (Inr (), d')"
    using d1(1) d'(1) by (simp add: radio_like_def conj_assoc)
  moreover have "same_but (lit ''checked'') d d'" by (rule same_but_trans [OF d1(3) d'(3)])
  moreover have "has_attr m ''checked'' d' \<longleftrightarrow> has_attr m ''checked'' d \<and> \<not> (m \<in> set (n # ns) \<and> m \<noteq> target \<and> radio_like name form m d)" for m
    using d'(4) [of m] d1(4) [of m] radio_like_same [OF d1(3)] by auto
  ultimately show ?case using d'(2) by blast
qed simp

lemma activate_radio_spec:
  assumes ok: "live_ok d" and t: "element_tag target d \<noteq> None"
  shows "\<exists>d'. activate_radio target d = (Inr (), d') \<and> same_but (lit ''checked'') d d' \<and>
    (\<forall>n. has_attr n ''checked'' d' \<longleftrightarrow>
       n = target \<or> has_attr n ''checked'' d \<and> \<not> (n \<in> set (document_order d) \<and> in_radio_group target n d))"
proof -
  let ?name = "attr_or '''' target ''name'' d" let ?form = "closest_tag target (lit ''form'') d"
  obtain d1 where d1: "clear_radios target ?name ?form (document_order d) d = (Inr (), d1)" "live_ok d1" "same_but (lit ''checked'') d d1"
    "\<And>m. has_attr m ''checked'' d1 \<longleftrightarrow>
      has_attr m ''checked'' d \<and> \<not> (m \<in> set (document_order d) \<and> m \<noteq> target \<and> radio_like ?name ?form m d)"
    using clear_radios_spec [OF ok] by blast
  have "element_tag target d1 \<noteq> None" using d1(3) t by (simp add: same_but_def)
  then obtain d' where d': "live_set_attribute target (lit ''checked'') [] d1 = (Inr (), d')" "same_but (lit ''checked'') d1 d'"
    "\<And>m. has_attr m ''checked'' d' \<longleftrightarrow> m = target \<or> has_attr m ''checked'' d1"
    using set_attribute_spec [OF d1(2) _ plain_names(1)] by blast
  have "activate_radio target d = (Inr (), d')" using d1(1) d'(1) by (simp add: activate_radio_def)
  moreover have "radio_like ?name ?form n d \<longleftrightarrow> in_radio_group target n d" for n by (simp add: radio_like_def in_radio_group_def)
  ultimately show ?thesis using d1(4) d'(3) same_but_trans [OF d1(3) d'(2)] by auto
qed

section \<open>Selections\<close>

lemma remove_from_spec:
  assumes "live_ok d" and "\<forall>n\<in>set ns. element_tag n d \<noteq> None"
  shows "\<exists>d'. remove_attribute_from ns (lit ''selected'') d = (Inr (), d') \<and> live_ok d' \<and> same_but (lit ''selected'') d d' \<and>
    (\<forall>m. has_attr m ''selected'' d' \<longleftrightarrow> has_attr m ''selected'' d \<and> m \<notin> set ns)"
  using assms
proof (induction ns arbitrary: d)
  case (Cons n ns)
  obtain d1 where d1: "live_remove_attribute n (lit ''selected'') d = (Inr (), d1)" "live_ok d1" "same_but (lit ''selected'') d d1"
    "\<And>m. has_attr m ''selected'' d1 \<longleftrightarrow> m \<noteq> n \<and> has_attr m ''selected'' d"
    using remove_attribute_spec [OF Cons.prems(1) _ plain_names(2), of n] Cons.prems(2) by auto
  have "\<forall>m\<in>set ns. element_tag m d1 \<noteq> None" using Cons.prems(2) d1(3) by (simp add: same_but_def)
  then obtain d' where "remove_attribute_from ns (lit ''selected'') d1 = (Inr (), d')" "live_ok d'" "same_but (lit ''selected'') d1 d'"
    "\<And>m. has_attr m ''selected'' d' \<longleftrightarrow> has_attr m ''selected'' d1 \<and> m \<notin> set ns"
    using Cons.IH [OF d1(2)] by blast
  with d1 same_but_trans [OF d1(3)] show ?case by auto
qed simp

lemma filter_is: "distinct xs \<Longrightarrow> x \<in> set xs \<Longrightarrow> filter (\<lambda>y. y = x) xs = [x]"
  by (induction xs) (auto simp: filter_empty_conv)

lemma advance_select_spec:
  assumes ok: "live_ok d" and ne: "select_options target d \<noteq> []"
  shows "\<exists>d'. advance_select target d = (Inr [SelectOption (next_option (select_options target d) d)], d') \<and>
    filter (\<lambda>n. has_attr n ''selected'' d') (select_options target d) = [next_option (select_options target d) d] \<and>
    same_but (lit ''selected'') d d'"
proof -
  let ?os = "select_options target d" let ?next = "next_option (select_options target d) d"
  have mem: "?next \<in> set ?os" using ne by (simp add: next_option_def Let_def)
  have dist: "distinct ?os"
    using preorder_spec(2) [OF live_ok_forest [OF ok]] by (simp add: select_options_def document_order_def)
  have tags: "\<forall>n\<in>set ?os. element_tag n d \<noteq> None" by (simp add: select_options_def tag_is_def)
  obtain d1 where d1: "remove_attribute_from ?os (lit ''selected'') d = (Inr (), d1)" "live_ok d1" "same_but (lit ''selected'') d d1"
    "\<And>m. has_attr m ''selected'' d1 \<longleftrightarrow> has_attr m ''selected'' d \<and> m \<notin> set ?os"
    using remove_from_spec [OF ok tags] by blast
  have "element_tag ?next d1 \<noteq> None" using d1(3) tags mem by (simp add: same_but_def)
  then obtain d' where d': "live_set_attribute ?next (lit ''selected'') [] d1 = (Inr (), d')" "same_but (lit ''selected'') d1 d'"
    "\<And>m. has_attr m ''selected'' d' \<longleftrightarrow> m = ?next \<or> has_attr m ''selected'' d1"
    using set_attribute_spec [OF d1(2) _ plain_names(2)] by blast
  have "filter (\<lambda>n. has_attr n ''selected'' d') ?os = filter (\<lambda>n. n = ?next) ?os"
    using d'(3) d1(4) by (intro filter_cong) auto
  also have "\<dots> = [?next]" by (rule filter_is [OF dist mem])
  finally show ?thesis using d1(1) d' same_but_trans [OF d1(3) d'(2)] ne by (auto simp: advance_select_def Let_def)
qed

end
