(* ===== verification/Live_Properties.thy ===== *)
theory Live_Properties
  imports Live_Roundtrip Live_Forms
begin

text \<open>
  The properties of the live document, and the behaviour at its edges: what is forgotten when a subtree is freed.
\<close>

section \<open>Dispatch without interference\<close>

text \<open>The visits of a dispatch that nobody stops: capturing down to the target, both kinds of listener there, bubbling up.\<close>

definition visits :: "nat \<Rightarrow> nat list \<Rightarrow> bool \<Rightarrow> (nat \<times> event_phase \<times> bool) list" where
  "visits target ancestors bubbles =
     map (\<lambda>n. (n, Capturing, True)) (rev ancestors) @ [(target, AtTarget, True), (target, AtTarget, False)] @
     (if bubbles then map (\<lambda>n. (n, Bubbling, False)) ancestors else [])"

definition run_visits :: "(nat \<times> event_phase \<times> bool) list \<Rightarrow> 'w dispatch \<Rightarrow> 'w dispatch" where
  "run_visits vs s = fold (\<lambda>(n, phase, capture). invoke_listeners n phase capture) vs s"

text \<open>A callback that leaves the flags of the propagation alone.\<close>

definition quiet :: "(dom_event \<Rightarrow> 'w \<Rightarrow> dom_event \<times> 'w) \<Rightarrow> bool" where
  "quiet f \<longleftrightarrow> (\<forall>ev w. de_propagation_stopped (fst (f ev w)) = de_propagation_stopped ev \<and>
     de_immediate_stopped (fst (f ev w)) = de_immediate_stopped ev \<and> de_bubbles (fst (f ev w)) = de_bubbles ev)"

definition all_quiet :: "'w live_document \<Rightarrow> bool" where
  "all_quiet d \<longleftrightarrow> (\<forall>n ls. bt_get n (ld_listeners d) = Some ls \<longrightarrow> (\<forall>l\<in>set ls. quiet (li_callback l)))"

definition same_flags :: "dom_event \<Rightarrow> dom_event \<Rightarrow> bool" where
  "same_flags ev ev' \<longleftrightarrow> de_propagation_stopped ev' = de_propagation_stopped ev \<and>
     de_immediate_stopped ev' = de_immediate_stopped ev \<and> de_bubbles ev' = de_bubbles ev"

lemma call_quiet:
  assumes "quiet (li_callback l)" and "call_listener n phase l ev w = (ev', w')"
  shows "same_flags ev ev'"
proof -
  let ?ev = "ev\<lparr>de_current_target := Some n, de_phase := phase, de_passive_listener := lo_passive (li_options l)\<rparr>"
  have "same_flags ?ev (fst (li_callback l ?ev w))" using assms(1) by (simp add: quiet_def same_flags_def)
  with assms(2) show ?thesis by (auto simp: call_listener_def same_flags_def split: prod.splits)
qed

lemma run_listeners_quiet:
  assumes "\<forall>l\<in>set ls. quiet (li_callback l)" and "run_listeners n phase ls ev w k once = (ev', w', k', once')"
  shows "same_flags ev ev'"
  using assms
proof (induction ls arbitrary: ev w k once)
  case (Cons l ls)
  obtain ev1 w1 where c: "call_listener n phase l ev w = (ev1, w1)" by (cases "call_listener n phase l ev w")
  have "same_flags ev ev1" using call_quiet [OF _ c] Cons.prems(1) by simp
  with Cons.prems c Cons.IH [of ev1 w1 "sat_add k 1"] show ?case
    by (auto simp: Let_def same_flags_def split: if_splits)
qed (simp add: same_flags_def)

definition undisturbed :: "bool \<Rightarrow> 'w dispatch \<Rightarrow> bool" where
  "undisturbed bubbles = (\<lambda>(ev, rep, d). \<not> de_propagation_stopped ev \<and> \<not> de_immediate_stopped ev \<and> de_bubbles ev = bubbles \<and> all_quiet d)"

lemma invoke_undisturbed:
  assumes "undisturbed b s"
  shows "undisturbed b (invoke_listeners n phase capture s)"
proof -
  obtain ev rep d where s: "s = (ev, rep, d)" by (cases s)
  obtain ev' w inv once where r: "run_listeners n phase (matching_listeners n (de_type ev) capture d) ev (ld_world d) (dr_invoked rep) {}
      = (ev', w, inv, once)" by (cases "run_listeners n phase (matching_listeners n (de_type ev) capture d) ev (ld_world d) (dr_invoked rep) {}")
  have q: "\<forall>l\<in>set (matching_listeners n (de_type ev) capture d). quiet (li_callback l)"
    using assms by (cases "bt_get n (ld_listeners d)") (auto simp: s undisturbed_def all_quiet_def matching_listeners_def)
  show ?thesis using assms run_listeners_quiet [OF q r]
    by (auto simp: s invoke_listeners_def r undisturbed_def same_flags_def all_quiet_def bt_get_insert split: option.split)
qed

lemma undisturbed_not_stopped: "undisturbed b s \<Longrightarrow> \<not> stopped s"
  by (auto simp: undisturbed_def stopped_def)

lemma pass_undisturbed:
  "undisturbed b s \<Longrightarrow> undisturbed b (dispatch_pass phase capture ns s)"
  by (induction ns arbitrary: s) (simp_all add: Let_def invoke_undisturbed)

lemma pass_visits:
  "undisturbed b s \<Longrightarrow> dispatch_pass phase capture ns s = run_visits (map (\<lambda>n. (n, phase, capture)) ns) s"
proof (induction ns arbitrary: s)
  case (Cons n ns)
  have "undisturbed b (invoke_listeners n phase capture s)" by (rule invoke_undisturbed [OF Cons.prems])
  with Cons.IH [OF this] undisturbed_not_stopped [OF this] show ?case by (simp add: Let_def run_visits_def)
qed (simp add: run_visits_def)

text \<open>The two visits at the target always both happen: the first one forgets a request to stop at once.\<close>

lemma immediate_stop_is_forgotten:
  "dispatch_at_target target s = invoke_listeners target AtTarget False (invoke_listeners target AtTarget True s)"
  by (auto simp: dispatch_at_target_def invoke_listeners_def Let_def split: prod.splits)

lemma dispatch_undisturbed:
  assumes quiet: "all_quiet d" and path: "event_path target d = Inr (target # ancestors)" and ev: "de_target ev = target"
    "\<not> de_propagation_stopped ev" "\<not> de_immediate_stopped ev"
  shows "dispatch_event target ev d =
    (case run_visits (visits target ancestors (de_bubbles ev)) (ev, no_report, d) of
       (ev', rep, d') \<Rightarrow> finish_report (ev'\<lparr>de_current_target := None, de_phase := NoPhase\<rparr>, rep, d'))"
proof -
  let ?b = "de_bubbles ev"
  define s1 where "s1 = dispatch_pass Capturing True (rev ancestors) (ev, no_report, d)"
  have u0: "undisturbed ?b (ev, no_report, d)" using quiet ev by (simp add: undisturbed_def)
  have s1: "s1 = run_visits (map (\<lambda>n. (n, Capturing, True)) (rev ancestors)) (ev, no_report, d)" "undisturbed ?b s1"
    using pass_undisturbed [OF u0] pass_visits [OF u0] by (simp_all add: s1_def)
  define s2 where "s2 = dispatch_at_target target s1"
  have s2: "s2 = run_visits [(target, AtTarget, True), (target, AtTarget, False)] s1" "undisturbed ?b s2"
    using s1(2) by (simp_all add: s2_def immediate_stop_is_forgotten run_visits_def invoke_undisturbed)
  obtain e where node: "bt_get target (ld_nodes d) = Some e"
    using path by (auto simp: event_path_def MAX_EVENT_PATH_def numeral_eq_Suc split: if_splits)
  have flags: "de_bubbles (fst s2) = ?b" "\<not> stopped s2" "\<not> stopped s1"
    using s2(2) s1(2) by (auto simp: undisturbed_def stopped_def)
  have "dispatch_event target ev d =
    (case (if ?b then dispatch_pass Bubbling False ancestors s2 else s2) of
       (ev', rep, d') \<Rightarrow> finish_report (ev'\<lparr>de_current_target := None, de_phase := NoPhase\<rparr>, rep, d'))"
    by (simp add: dispatch_event_def require_node_def Let_def node path ev(1) flags s1_def [symmetric] s2_def [symmetric] split_beta)
  moreover have "(if ?b then dispatch_pass Bubbling False ancestors s2 else s2) = run_visits (visits target ancestors ?b) (ev, no_report, d)"
    using pass_visits [OF s2(2)] s2(1) s1(1) by (simp add: visits_def run_visits_def)
  ultimately show ?thesis by simp
qed

section \<open>Appending\<close>

lemma ancestor_walk_sound: "ancestor_walk k nodes c (Some n) \<Longrightarrow> (n, c) \<in> (links nodes)\<^sup>*"
proof (induction k nodes c "Some n" arbitrary: n rule: ancestor_walk.induct)
  case (3 k nodes c n)
  show ?case
  proof (cases "n = c")
    case False
    with 3(2) obtain p where p: "parent_of nodes n = Some p" "ancestor_walk k nodes c (Some p)"
      by (cases "parent_of nodes n") (auto elim: ancestor_walk.elims)
    then have "(p, c) \<in> (links nodes)\<^sup>*" using 3(1) by simp
    with p(1) show ?thesis by (auto simp: links_def intro: converse_rtrancl_into_rtrancl)
  qed simp
qed simp

lemma append_child_refused:
  assumes "live_ok d" and "append_child p c d = (Inl e, d')"
  shows "d' = d"
proof -
  have "\<not> is_ok (fst (append_child p c d))" using assms(2) by simp
  then have "snd (append_child p c d) = d"
    unfolding append_child_Inr_iff [OF assms(1)]
    by (auto simp: append_child_def andthen_checked depth_ok_eq split: sum.splits)
  with assms(2) show ?thesis by simp
qed

lemma append_child_moves:
  assumes ok: "live_ok d" and a: "append_child p c d = (Inr u, d')"
  shows "parent_of (ld_nodes d') m = (if m = c then Some p else parent_of (ld_nodes d) m)"
    and "kids (ld_nodes d') m = filter (\<lambda>x. x \<noteq> c) (kids (ld_nodes d) m) @ (if m = p then [c] else [])"
    and "(p, c) \<notin> (links (ld_nodes d))\<^sup>*"
proof -
  have "is_ok (fst (append_child p c d))" using a by simp
  then obtain pe ce where p: "bt_get p (ld_nodes d) = Some pe" "is_element_kind (ln_kind pe)" and c: "bt_get c (ld_nodes d) = Some ce"
    and depth: "depth_walk (MAX_LIVE_DEPTH - 1) (ld_nodes d) (parent_of (ld_nodes d) p)" and pc: "p \<noteq> c" and nc: "\<not> is_ancestor c p d"
    unfolding append_child_Inr_iff [OF ok] by auto
  show "(p, c) \<notin> (links (ld_nodes d))\<^sup>*" by (rule depth_no_cycle [OF depth nc])
  let ?N = "detached c (ld_nodes d)"
  have t: "tree_ok (ld_nodes d) (ld_next_node_id d)" using ok by (simp add: live_ok_def)
  note D = detached_facts [OF t, where c = c]
  obtain pe' where p': "bt_get p ?N = Some pe'" using D(4) [of p] p(1) by (auto simp: map_option_eq_Some)
  obtain ce' where c': "bt_get c ?N = Some ce'" using D(4) [of c] c by (auto simp: map_option_eq_Some)
  note get = linked_get [OF p' c' pc]
  have N: "ld_nodes d' = linked p c ?N" using append_child_eq(1) [OF ok p c depth pc nc] a by (simp add: mark_mutated_def)
  have "parent_of ?N m = (if m = c then None else parent_of (ld_nodes d) m)" by (rule D(2))
  then show "parent_of (ld_nodes d') m = (if m = c then Some p else parent_of (ld_nodes d) m)"
    using p' by (auto simp: N parent_of_def get push_child_def split: if_splits)
  have "kids ?N m = filter (\<lambda>x. x \<noteq> c) (kids (ld_nodes d) m)" by (rule D(5))
  then show "kids (ld_nodes d') m = filter (\<lambda>x. x \<noteq> c) (kids (ld_nodes d) m) @ (if m = p then [c] else [])"
    using p' c' pc by (auto simp: N kids_def get push_child_def)
qed

section \<open>What freeing forgets\<close>

text \<open>The focus stays on a node that was freed; then no other node can be focused and no key is delivered.\<close>

lemma focus_stuck:
  assumes "ld_focused d = Some old" and "bt_get old (ld_nodes d) = None" and "bt_get n (ld_nodes d) = Some e" and "is_focusable n d"
  shows "focus n d = (Inl (Err ''NotFoundError: node does not belong to this document''), d)"
    and "dispatch_keyboard t k d = (Inl (Err ''NotFoundError: node does not belong to this document''), d)"
proof -
  have "n \<noteq> old" using assms(2,3) by auto
  then show "focus n d = (Inl (Err ''NotFoundError: node does not belong to this document''), d)"
    using assms by (simp add: focus_def checked_def require_node_def dispatch_new_def dispatch_event_def)
  show "dispatch_keyboard t k d = (Inl (Err ''NotFoundError: node does not belong to this document''), d)"
    using assms by (simp add: dispatch_keyboard_def require_node_def dispatch_event_def)
qed

text \<open>A shadow root that was freed with the content of its host is still recorded. Its host exports nothing, writing to it panics,
  and the host can have no other.\<close>

lemma freed_shadow_root:
  assumes h: "bt_get h (ld_nodes d) = Some e" "ln_kind e = LElement t m v" "t \<noteq> SHADOW_TAG"
    and r: "bt_get h (ld_shadows d) = Some r" "bt_get (sr_root r) (ld_nodes d) = None"
    and one: "shadow_with_root (sr_root r) d \<noteq> None" and room: "length (ld_shadows d) < MAX_SHADOW_ROOTS"
    and html: "byte_len html \<le> MAX_SHADOW_HTML_BYTES"
  shows "export_element h d = None" and "attach_shadow h mode d = (Inl (Err ''NotSupportedError: host already has a shadow root''), d)"
    and "set_shadow_html lower order (sr_root r) html d = (Inl (Panic ''no entry found for key''), d)"
proof -
  show "export_element h d = None" using h r by (simp add: export_element_def export_fuel_def)
  have "is_element_kind (ln_kind e)" using h(2) by (simp add: is_element_kind_def)
  then show "attach_shadow h mode d = (Inl (Err ''NotSupportedError: host already has a shadow root''), d)"
    using h r room by (auto simp: attach_shadow_def checked_def require_element_def require_node_def has_tag_def)
  show "set_shadow_html lower order (sr_root r) html d = (Inl (Panic ''no entry found for key''), d)"
    using r one html by (auto simp: set_shadow_html_def andthen_checked)
qed

text \<open>An element that exports nothing takes the whole page with it.\<close>

lemma missing_child_blanks:
  assumes "bt_get n (ld_nodes d) = Some e" and "ln_kind e = LElement t m v" and "t \<noteq> SHADOW_TAG" and "bt_get n (ld_shadows d) = None"
    and "ln_children e = c # cs" and "bt_get c (ld_nodes d) = Some ce" and "ln_kind ce = LElement t' m' v'"
    and "\<And>fuel. export_inner (Suc fuel) d c None = Inl NoElement" and "ld_root d = n" and "2 \<le> length (ld_nodes d)"
  shows "to_element d = new_element (lit ''root'')"
proof -
  obtain k where "export_fuel d = Suc (Suc k)"
    using assms(10) by (cases "export_fuel d"; cases "export_fuel d - 1") (auto simp: export_fuel_def)
  then show ?thesis using assms by (simp add: to_element_def export_element_def export_child_def)
qed

section \<open>Sessions\<close>

text \<open>What a page has made of its document: the import of a parsed tree, then any sequence of operations.\<close>

definition live_session :: "(ustr \<Rightarrow> ustr) \<Rightarrow> attr_order \<Rightarrow> 'w live_op list \<Rightarrow> element \<Rightarrow> 'w \<Rightarrow> 'w live_document" where
  "live_session lower order ops x w = fold (\<lambda>op d. live_step lower order d op) ops (from_element order x w)"

lemma session_ok: "live_ok (live_session lower order ops x w)"
  unfolding live_session_def by (rule live.reachable_inv)

lemmas session_forest = live_ok_forest [OF session_ok]

text \<open>C32. Whatever a page does with its document, the nodes form a forest: no node is its own ancestor, a node is
  listed once, by its parent and by nobody else. The document stays within its limits of nodes, shadow roots and listeners.\<close>

lemma live_tree_invariant:
  fixes lower order ops x w
  defines "d \<equiv> live_session lower order ops x w"
  shows "acyclic (links (ld_nodes d)) \<and> (c \<in> set (kids (ld_nodes d) p) \<longleftrightarrow> parent_of (ld_nodes d) c = Some p) \<and>
    distinct (kids (ld_nodes d) p) \<and> length (ld_nodes d) \<le> MAX_LIVE_NODES \<and>
    length (ld_shadows d) \<le> MAX_SHADOW_ROOTS \<and> listener_count d \<le> MAX_EVENT_LISTENERS"
proof -
  have ok: "live_ok d" and f: "forest_ok (ld_nodes d)" by (simp_all add: d_def session_ok session_forest)
  have "distinct (kids (ld_nodes d) p)" using forest_node [OF f] by (auto simp: kids_def node_ok_def split: option.split)
  moreover have "acyclic (links (ld_nodes d))" using f by (simp add: forest_ok_def)
  ultimately show ?thesis
    using ok forest_kid_parent [OF f] by (simp add: live_ok_def tree_ok_def tables_ok_def listener_count_total)
qed

text \<open>C33. A call of \<^verbatim>\<open>append_child\<close> that fails changes nothing. One that succeeds moves the child from where it was
  to the end of the children of its new parent and leaves every other node where it was; the child was no ancestor of the parent.\<close>

lemma append_child_effect:
  fixes lower order ops x w
  defines "d \<equiv> live_session lower order ops x w"
  shows "case append_child p c d of
      (Inl e, d') \<Rightarrow> d' = d
    | (Inr u, d') \<Rightarrow>
        parent_of (ld_nodes d') m = (if m = c then Some p else parent_of (ld_nodes d) m) \<and>
        kids (ld_nodes d') m = filter (\<lambda>n. n \<noteq> c) (kids (ld_nodes d) m) @ (if m = p then [c] else []) \<and>
        (p, c) \<notin> (links (ld_nodes d))\<^sup>*"
proof -
  have ok: "live_ok d" by (simp add: d_def session_ok)
  show ?thesis
  proof (cases "append_child p c d")
    case (Pair r d')
    then show ?thesis
      using append_child_refused [OF ok] append_child_moves [OF ok] by (cases r) auto
  qed
qed


text \<open>C34. A tree that was imported and is exported again is the tree that was imported, up to what the import
  normalises: the identifiers, the limits on attributes and on text. Only the tag of the shadow roots is special.\<close>

lemma import_export_roundtrip:
  assumes "fst (import_element order x None (empty_document w)) = Inr n" and "no_shadow_tags x"
  shows "clear_node_ids (to_element (from_element order x w)) = stored_form order x"
  using import_export [OF _ assms(2)] assms(1) by (metis prod.collapse)

text \<open>C35. An event that no listener stops visits the capturing listeners from the root down to the target, both
  kinds of listener of the target, and then, when the event bubbles, the others from the target up to the root.\<close>

lemma dispatch_in_order:
  assumes "all_quiet d" and "event_path target d = Inr (target # ancestors)" and "de_target ev = target"
    and "\<not> de_propagation_stopped ev" and "\<not> de_immediate_stopped ev"
  shows "dispatch_event target ev d =
    (case run_visits (visits target ancestors (de_bubbles ev)) (ev, no_report, d) of
       (ev', rep, d') \<Rightarrow> finish_report (ev'\<lparr>de_current_target := None, de_phase := NoPhase\<rparr>, rep, d'))"
  by (rule dispatch_undisturbed [OF assms])

text \<open>C36. Activating a radio button checks it and clears every other button of its group (same name, same form), and
  nothing else of the document changes.\<close>

lemma radio_group_exclusive:
  assumes "d = live_session lower order ops x w" and "element_tag target d \<noteq> None"
  shows "\<exists>d'. activate_radio target d = (Inr (), d') \<and> same_but (lit ''checked'') d d' \<and>
    (\<forall>n. has_attr n ''checked'' d' \<longleftrightarrow>
       n = target \<or> has_attr n ''checked'' d \<and> \<not> (n \<in> set (document_order d) \<and> in_radio_group target n d))"
  by (rule activate_radio_spec [OF _ assms(2)]) (simp add: assms(1) session_ok)

section \<open>Witnesses\<close>

text \<open>A parsed page with two radio buttons of one group, the first of them checked.\<close>

definition plain_order :: attr_order where
  "plain_order m = m"

definition radio_attrs :: "(ustr, ustr) btree" where
  "radio_attrs = [(lit ''name'', lit ''g''), (lit ''type'', lit ''radio'')]"

definition radio_page :: element where
  "radio_page = Element None (lit ''body'') []
     [Element None (lit ''input'') ((lit ''checked'', []) # radio_attrs) [] [] True,
      Element None (lit ''input'') radio_attrs [] [] True] (lit ''pick'') False"

definition small_node :: "nat \<Rightarrow> nat option \<Rightarrow> nat list \<Rightarrow> live_kind \<Rightarrow> nat \<times> live_node" where
  "small_node n p cs k = (n, \<lparr>ln_id = n, ln_parent = p, ln_children = cs, ln_kind = k\<rparr>)"

definition radio_document :: "unit live_document" where
  "radio_document = (empty_document ())\<lparr>ld_next_node_id := 5, ld_nodes :=
     [small_node 1 None [2, 3, 4] (LElement (lit ''body'') [] False), small_node 2 (Some 1) [] (LText (lit ''pick'')),
      small_node 3 (Some 1) [] (LElement (lit ''input'') ((lit ''checked'', []) # radio_attrs) True),
      small_node 4 (Some 1) [] (LElement (lit ''input'') radio_attrs True)]\<rparr>"

lemma small_imports:
  "imported_attrs plain_order [] = []"
  "imported_attrs plain_order radio_attrs = radio_attrs"
  "imported_attrs plain_order ((lit ''checked'', []) # radio_attrs) = (lit ''checked'', []) # radio_attrs"
  by (simp_all add: imported_attrs_def plain_order_def radio_attrs_def MAX_LIVE_ATTRS_def bounded_attribute_def MAX_ATTRIBUTE_BYTES_def lit_def)

lemma walk_numerals:
  "depth_walk (numeral k) nodes None" "depth_walk (numeral k) nodes (Some n) = depth_walk (pred_numeral k) nodes (parent_of nodes n)"
  by (simp_all add: numeral_eq_Suc)

lemma short_texts: "length s \<le> 1000 \<Longrightarrow> bounded_text s = s" "length (lit t) = length t" "lit t = [] \<longleftrightarrow> t = []"
  by (simp_all add: bounded_text_def MAX_TEXT_BYTES_def lit_def)

lemmas live_eval = walk_numerals short_texts small_node_def parent_of_def bt_get_def is_element_kind_def
  MAX_LIVE_NODES_def MAX_LIVE_DEPTH_def MAX_PREFERRED_ID_JUMP_def
  checked_add_def sat_add_def u64_max_def andthen_checked ok_or_def update_node_def push_child_def
  require_node_def require_element_def depth_budget_ok_def link_child_def

lemma radio_import: "import_element plain_order radio_page None (empty_document ()) = (Inr 1, radio_document)"
  by (simp add: radio_page_def small_imports allocate_preferred_def allocate_node_def empty_document_def
    append_child_without_invalidation_def radio_document_def live_eval)

lemma import_export_roundtrip_witness: "clear_node_ids (to_element (from_element plain_order radio_page ())) = stored_form plain_order radio_page"
  by (rule import_export_roundtrip [of _ _ _ 1]) (simp_all add: radio_import, simp add: radio_page_def SHADOW_TAG_def lit_def)

lemma radio_session: "radio_document = live_session (\<lambda>s. s) plain_order [] radio_page ()"
  by (simp add: live_session_def from_element_def radio_import) (simp add: radio_document_def empty_document_def)


lemma radio_group_exclusive_witness:
  "\<exists>d'. activate_radio 4 radio_document = (Inr (), d') \<and> has_attr 4 ''checked'' d' \<and> \<not> has_attr 3 ''checked'' d'"
proof -
  have t: "element_tag 4 radio_document \<noteq> None" by (simp add: element_tag_def radio_document_def live_eval)
  have "3 \<in> set (document_order radio_document)" "in_radio_group 4 3 radio_document"
    by (simp_all add: document_order_def preorder_of_def radio_document_def in_radio_group_def live_eval empty_document_def
      tag_is_def element_tag_def live_get_attribute_def node_attr_def attr_or_def radio_attrs_def closest_tag_def
      lit_def to_ascii_lowercase_def ascii_lower_def is_ascii_upper_def)
  with radio_group_exclusive [OF radio_session t] show ?thesis by fastforce
qed

text \<open>A page of two elements; every listener writes its number into the world.\<close>

definition noting :: "nat \<Rightarrow> bool \<Rightarrow> nat list event_listener" where
  "noting i capture = \<lparr>li_id = i, li_type = lit ''click'', li_options = \<lparr>lo_capture = capture, lo_once = False, lo_passive = False\<rparr>,
     li_callback = (\<lambda>ev w. (ev, w @ [i]))\<rparr>"

definition noting_document :: "nat list live_document" where
  "noting_document = (empty_document [])\<lparr>ld_next_node_id := 3,
     ld_nodes := [small_node 1 None [2] (LElement (lit ''body'') [] False), small_node 2 (Some 1) [] (LElement (lit ''p'') [] False)],
     ld_listeners := [(1, [noting 10 False, noting 11 True]), (2, [noting 20 False, noting 21 True])]\<rparr>"

lemma noting_quiet: "all_quiet noting_document"
  by (auto simp: all_quiet_def quiet_def noting_document_def noting_def bt_get_def)

lemma dispatch_in_order_witness:
  "ld_world (snd (snd (dispatch_event 2 (new_event (lit ''click'') 2) noting_document))) = [11, 21, 20, 10]"
proof -
  have "event_path 2 noting_document = Inr (2 # [1])"
    by (simp add: event_path_def noting_document_def empty_document_def live_eval MAX_EVENT_PATH_def numeral_eq_Suc)
  from dispatch_in_order [OF noting_quiet this, of "new_event (lit ''click'') 2"] show ?thesis
    by (simp add: new_event_def visits_def run_visits_def invoke_listeners_def matching_listeners_def noting_document_def noting_def
      call_listener_def finish_report_def empty_document_def live_eval no_report_def)
qed

section \<open>How a page can break its export\<close>

text \<open>A \<^verbatim>\<open>div\<close> that hosts a shadow root, and whose content is then set: the whole page is exported as an empty element.\<close>

definition div_page :: "nat list \<Rightarrow> unit live_document" where
  "div_page ds = (empty_document ())\<lparr>ld_next_node_id := 4, ld_nodes :=
     small_node 1 None ds (LElement (lit ''body'') [] False) # map (\<lambda>n. small_node n (Some 1) [] (LElement (lit ''div'') [] False)) ds\<rparr>"

lemma div_tag: "lit ''div'' \<noteq> lit ''shadow-root''" "lit ''div'' \<noteq> lit ''slot''"
  by (simp_all add: lit_def)

abbreviation (input) shadow_at :: "nat \<Rightarrow> nat \<Rightarrow> shadow_record" where
  "shadow_at h r \<equiv> \<lparr>sr_host = h, sr_root = r, sr_mode = Open\<rparr>"

definition hosting_page :: "unit live_document" where
  "hosting_page = (empty_document ())\<lparr>ld_next_node_id := 5, ld_shadows := [(2, shadow_at 2 4)], ld_nodes :=
     [small_node 1 None [2, 3] (LElement (lit ''body'') [] False), small_node 2 (Some 1) [4] (LElement (lit ''div'') [] False),
      small_node 3 (Some 1) [] (LElement (lit ''div'') [] False), small_node 4 (Some 2) [] (LElement SHADOW_TAG [] False)]\<rparr>"

lemma hosting_page: "live_step lower order (div_page [2, 3]) (AttachShadow 2 Open) = hosting_page"
  by (simp add: live_step_def attach_shadow_def div_page_def live_eval empty_document_def allocate_node_def allocate_preferred_def
    has_tag_def MAX_SHADOW_ROOTS_def append_child_without_invalidation_def mark_mutated_def hosting_page_def SHADOW_TAG_def div_tag)

lemma content_of_a_host_blanks_the_page:
  fixes lower order
  defines "d \<equiv> live_step lower order hosting_page (SetText 2 [])"
  shows "to_element d = new_element (lit ''root'')"
    and "attach_shadow 2 Open d = (Inl (Err ''NotSupportedError: host already has a shadow root''), d)"
    and "set_shadow_html lower order 4 [] d = (Inl (Panic ''no entry found for key''), d)"
proof -
  have d: "d = hosting_page\<lparr>ld_nodes := [small_node 1 None [2, 3] (LElement (lit ''body'') [] False),
      small_node 2 (Some 1) [] (LElement (lit ''div'') [] False), small_node 3 (Some 1) [] (LElement (lit ''div'') [] False)]\<rparr>"
    by (simp add: d_def live_step_def set_text_content_def clear_children_def free_subtrees_def hosting_page_def live_eval
      empty_document_def bounded_text_def mark_mutated_def bt_remove_def)
  let ?e = "snd (small_node 2 (Some 1) [] (LElement (lit ''div'') [] False))"
  have h: "bt_get 2 (ld_nodes d) = Some ?e" "ln_kind ?e = LElement (lit ''div'') [] False" "lit ''div'' \<noteq> SHADOW_TAG"
    "bt_get 2 (ld_shadows d) = Some (shadow_at 2 4)" "bt_get (sr_root (shadow_at 2 4)) (ld_nodes d) = None"
    "shadow_with_root (sr_root (shadow_at 2 4)) d \<noteq> None" "length (ld_shadows d) < MAX_SHADOW_ROOTS"
    by (simp_all add: d hosting_page_def live_eval shadow_with_root_def MAX_SHADOW_ROOTS_def bt_values_def SHADOW_TAG_def div_tag)
  have b: "byte_len [] \<le> MAX_SHADOW_HTML_BYTES" by (simp add: MAX_SHADOW_HTML_BYTES_def byte_len_def)
  show "attach_shadow 2 Open d = (Inl (Err ''NotSupportedError: host already has a shadow root''), d)"
    by (rule freed_shadow_root(2) [OF h b])
  have "set_shadow_html lower order (sr_root (shadow_at 2 4)) [] d = (Inl (Panic ''no entry found for key''), d)"
    by (rule freed_shadow_root(3) [OF h b])
  then show "set_shadow_html lower order 4 [] d = (Inl (Panic ''no entry found for key''), d)" by simp
  show "to_element d = new_element (lit ''root'')"
    by (simp add: d hosting_page_def to_element_def export_element_def export_fuel_def live_eval empty_document_def
      export_child_def SHADOW_TAG_def div_tag eval_nat_numeral)
qed

text \<open>A page moves a shadow root elsewhere and the host below it: the export of the host calls itself for ever.\<close>

lemma host_below_its_own_root:
  fixes lower order
  defines "d \<equiv> live_step lower order (live_step lower order hosting_page (AppendChild 3 4)) (AppendChild 4 2)"
  shows "export_inner fuel d 2 sh = Inl OutOfFuel"
proof -
  have "d = hosting_page\<lparr>ld_nodes := [small_node 1 None [3] (LElement (lit ''body'') [] False),
      small_node 2 (Some 4) [] (LElement (lit ''div'') [] False), small_node 3 (Some 1) [4] (LElement (lit ''div'') [] False),
      small_node 4 (Some 3) [2] (LElement SHADOW_TAG [] False)]\<rparr>"
    by (simp add: d_def live_step_def append_child_def detach_def hosting_page_def live_eval empty_document_def mark_mutated_def
      is_ancestor_def MAX_EVENT_PATH_def numeral_eq_Suc)
  then show ?thesis
    using export_diverges [of 2 d "snd (small_node 2 (Some 4) [] (LElement (lit ''div'') [] False))" "lit ''div''" "[]" False
        "shadow_at 2 4" "snd (small_node 4 (Some 3) [2] (LElement SHADOW_TAG [] False))" "[]"]
    by (simp add: hosting_page_def live_eval div_tag)
qed

end
