(* ===== verification/Spec2Isabelle.thy ===== *)
theory Spec2Isabelle
  imports Wasm_Leb Wasm_Examples Promise_Runtime Dom Css_Sheet_Laws Media_Laws Media_Examples Js_Examples Indexed_Db_Session Ad_Block_Laws Site_Policy_Laws Live_Properties
begin

text \<open>
  \<^bold>\<open>A verification development for GhitaBrowser\<close>, a browser engine written in Rust. It models the parts of the
  engine that interpret what a page sends: the HTML parser and its tree, CSS selectors and the cascade, the
  JavaScript front end, the language runtime with its heap, event loop and promises, WebAssembly from the bytes
  of a module to the results of a call, the live document with its events, IndexedDB, the policies that decide
  on requests, and the media source pipeline. All of it is hostile input, so the recurring questions are whether a routine ends, stays within its budgets, keeps its
  accounts exact, and computes what its specification says.

  \<^bold>\<open>Conventions.\<close> A Rust struct is a record, an enum a datatype, \<^verbatim>\<open>Result<T, E>\<close> a sum with the error on the
  left, \<^verbatim>\<open>&mut\<close> parameters are passed and returned. Machine integers are words where they wrap or are
  treated bitwise (WebAssembly, slots and generations); sizes and counters that the code checks or
  saturates are naturals or integers with the check written out. A panic the code can
  reach is an error value of its own. Strings are lists of code points, with their UTF-8 length where a
  limit counts bytes. Loops are recursive functions over what is left of the input, or
  carry a measure.

  \<^bold>\<open>Shared theories.\<close> \<^verbatim>\<open>Prelude\<close>: results, checked arithmetic, byte orders, the locale of transition systems
  through which each component lifts an invariant of one call to every run. \<^verbatim>\<open>Btree_Map\<close>: Rust's ordered map.
  \<^verbatim>\<open>Unicode_Text\<close>: characters, UTF-8 lengths, case and white space. \<^verbatim>\<open>Signed64\<close>: checked \<^verbatim>\<open>i64\<close>.
  \<^verbatim>\<open>Soft_Float\<close>: IEEE binary32 and binary64 on their bit patterns, rounding to nearest even;
  \<^verbatim>\<open>Float_Text\<close>: decimal text to binary64.

  \<^bold>\<open>WebAssembly\<close> (\<^verbatim>\<open>src/src/wasm.rs\<close>, \<^verbatim>\<open>src/src/wasm_interp.rs\<close>). \<^verbatim>\<open>Wasm_Binary\<close> holds the structures of a module
  and the byte cursor with its LEB128 readers, \<^verbatim>\<open>Wasm_Validate\<close> the code validator, \<^verbatim>\<open>Wasm_Parser\<close> the
  section parsers and \<^verbatim>\<open>parse_module\<close>; \<^verbatim>\<open>Wasm_Leb\<close> proves the readers against reference encoders. \<^verbatim>\<open>Wasm_Instance\<close>
  is instantiation, memory and tables; \<^verbatim>\<open>Wasm_Numeric\<close> the numeric groups; \<^verbatim>\<open>Wasm_Scan\<close> the search for
  \<^verbatim>\<open>end\<close> and \<^verbatim>\<open>else\<close>; \<^verbatim>\<open>Wasm_Exec\<close> the control and memory instructions; \<^verbatim>\<open>Wasm_Run\<close> the loop, calls and \<^verbatim>\<open>invoke\<close>.
  The lemmas give the module and instance invariants, the frame discipline of calls, the
  memory laws, and the end of every call: the interpreter takes fuel, and \<open>enough_fuel\<close>, which covers the step
  budget of the code and its call depth, never runs out. The NaN payloads of the processor are the
  parameter \<open>nan_env\<close>. \<^verbatim>\<open>Wasm_Examples\<close> evaluates modules that the validator accepts and the interpreter does not
  handle.

  \<^bold>\<open>Language runtime\<close> (\<^verbatim>\<open>src/src/runtime_core.rs\<close>, \<^verbatim>\<open>src/src/promise_runtime.rs\<close>). \<^verbatim>\<open>Runtime_Heap\<close>: handles with
  generations, byte accounting, mark and sweep; the collector keeps exactly what the roots reach.
  \<^verbatim>\<open>Event_Loop\<close>: tasks, microtasks, the starvation guard, guarded calls and the realm that joins them to a heap.
  \<^verbatim>\<open>Promise_Runtime\<close>: promises on the heap of a realm and the jobs on its event loop; the invocation of a handler is the parameter
  \<open>invoke\<close>, as it is in the code.

  \<^bold>\<open>Documents\<close> (\<^verbatim>\<open>src/src/parser.rs\<close>, \<^verbatim>\<open>src/src/dom.rs\<close>). \<^verbatim>\<open>Html_Parser\<close>: the tokenizer loop, the stack of open
  elements, the tree and its serialiser; \<^verbatim>\<open>Html_Laws\<close>: bounds and termination; \<^verbatim>\<open>Html_Roundtrip\<close>: serialised
  trees parse back; \<^verbatim>\<open>Dom\<close>: queries and attribute changes. \<^verbatim>\<open>str::to_lowercase\<close> is the parameter \<open>lower\<close>.

  \<^bold>\<open>Style\<close> (\<^verbatim>\<open>src/src/css_parser.rs\<close>). \<^verbatim>\<open>Css_Selectors\<close>: selectors and matching over the tree of \<^verbatim>\<open>Html_Parser\<close>;
  \<^verbatim>\<open>Css_Selector_Parser\<close>: selectors from text, with the nesting budget of the code as its fuel;
  \<^verbatim>\<open>Css_Cascade\<close>: which declarations apply, in which order, the refinement of the
  specification of combinators, and selectors on which the code departs from it.
  \<^verbatim>\<open>Css_Sheet\<close>: style sheets from text, with at-rules and their conditions; nested bodies are read with the levels
  that are left of the code's nesting limit. \<^verbatim>\<open>Css_Sheet_Laws\<close>: what a parsed rule looks like, printed sheets read
  back, the order of declarations across at-rules, and sheets that stop the parser.

  \<^bold>\<open>JavaScript front end\<close> (\<^verbatim>\<open>src/src/javascript.rs\<close>). \<^verbatim>\<open>Js_Ast\<close>: the program as data; \<^verbatim>\<open>Js_Lexer\<close>: the
  tokenizer; \<^verbatim>\<open>Js_Parser\<close>: the recursive descent parser, its mutual recursion through a record of entry points
  with fuel, which one more than the number of tokens covers (\<^verbatim>\<open>Js_Parser_Laws\<close>). \<^verbatim>\<open>Js_Lexer_Laws\<close>: the shape
  of tokens, tokens written as source read back. \<^verbatim>\<open>Js_Print\<close> prints programs as tokens; \<^verbatim>\<open>Js_Print_Laws\<close>,
  \<^verbatim>\<open>Js_Roundtrip\<close>, \<^verbatim>\<open>Js_Expressions\<close> and \<^verbatim>\<open>Js_Program\<close> show that printed programs compile to themselves;
  \<^verbatim>\<open>Js_Examples\<close> evaluates the front end. Unicode's tables beyond ASCII are the parameter
  \<open>char_tables\<close>, whose laws the round trip names.

  \<^bold>\<open>Media\<close> (\<^verbatim>\<open>src/src/media_core.rs\<close>, \<^verbatim>\<open>iso_bmff.rs\<close>, \<^verbatim>\<open>mse.rs\<close>, \<^verbatim>\<open>media_budget.rs\<close>, \<^verbatim>\<open>media_backend.rs\<close>). \<^verbatim>\<open>Media_Core\<close>: types,
  the two bounded queues, the WAVE demultiplexer and the PCM decoder (laws in \<^verbatim>\<open>Media_Laws\<close>); \<^verbatim>\<open>Iso_Bmff\<close> and \<^verbatim>\<open>Iso_Bmff_Laws\<close>:
  boxes, initialisation and media segments; \<^verbatim>\<open>Media_Source\<close> and \<^verbatim>\<open>Media_Source_Laws\<close>: source buffers with
  their coded samples; \<^verbatim>\<open>Media_Examples\<close>: evaluated segments.

  \<^bold>\<open>Live document\<close> (\<^verbatim>\<open>src/src/live_dom.rs\<close>). \<^verbatim>\<open>Live_Dom\<close>: the nodes with their links, limits, attributes and the import of a
  parsed tree; an error comes with the document as the failed call leaves it. \<^verbatim>\<open>Live_Tree\<close>: document order, text, markup,
  shadow roots, cloning, queries and the export of the composed tree; \<^verbatim>\<open>Live_Events\<close>: listeners, dispatch, focus and the
  default actions. A listener is a function of the event and of a world \<open>'w\<close> that the model threads for it.
  \<^verbatim>\<open>Live_Forest\<close> and \<^verbatim>\<open>Live_Invariant\<close> define what a well-formed tree is and how the links change,
  \<^verbatim>\<open>Live_Session\<close> shows that every operation keeps it; \<^verbatim>\<open>Live_Laws\<close>: the walks and the export end, for
  the fuel \<open>export_fuel\<close>, as long as the shadow roots stay below their hosts; \<^verbatim>\<open>Live_Roundtrip\<close>: import and export;
  \<^verbatim>\<open>Live_Forms\<close>: radio buttons and selections; \<^verbatim>\<open>Live_Properties\<close>: the properties, and pages that break their own export.
  The order in which a hash map yields the attributes of a parsed element is the parameter \<open>order\<close>.

  \<^bold>\<open>IndexedDB\<close> (\<^verbatim>\<open>src/src/indexeddb.rs\<close>). \<^verbatim>\<open>Indexed_Db\<close>: keys and their order, records, indexes, object stores,
  databases, transactions with snapshots; \<^verbatim>\<open>Indexed_Db_Laws\<close>: the order of keys, what the operations of one store keep; \<^verbatim>\<open>Indexed_Db_Stores\<close>: index queries and whole databases; \<^verbatim>\<open>Indexed_Db_Session\<close>: sessions of calls and transactions, and what an abort does and does not undo.

  \<^bold>\<open>Site policies\<close> (\<^verbatim>\<open>src/src/public_suffix.rs\<close>, \<^verbatim>\<open>adblock.rs\<close>, \<^verbatim>\<open>https_upgrade.rs\<close>, \<^verbatim>\<open>tracking_protection.rs\<close>,
  \<^verbatim>\<open>content_control.rs\<close>, \<^verbatim>\<open>permissions.rs\<close>). \<^verbatim>\<open>Public_Suffix\<close>: the search for the prevailing rule, against the
  algorithm of the list; \<^verbatim>\<open>Url_Text\<close>: what the components share on hosts and URLs as text; \<^verbatim>\<open>Ad_Block\<close> and
  \<^verbatim>\<open>Ad_Block_Laws\<close>: filter rules and the decision on a request; \<^verbatim>\<open>Site_Policy\<close> and \<^verbatim>\<open>Site_Policy_Laws\<close>: upgrades,
  cookies, canvas noise, cosmetic rules and permissions. The parser of the \<^verbatim>\<open>url\<close> crate is a parameter.

  \<^bold>\<open>Not modelled.\<close> The evaluator of scripts, the bindings between scripts and documents, layout, and the retained
  rendering of the live document with its hit testing; computed style values, which are assignments to some ninety
  optional fields and arithmetic on \<^verbatim>\<open>f64\<close>. Painting, the user interface, networking, file-backed storage, processes and extensions are mostly
  calls into the operating system, third-party crates and the GPU.
\<close>

end
